(* ===== verification/Prelude.thy ===== *)
theory Prelude imports Main "HOL-Library.AList" "HOL-Library.Sublist" "HOL-Library.Code_Target_Numeral" begin

text \<open>
  Shared vocabulary of the development: Rust strings, checked and saturating integer
  arithmetic, hash maps as association lists, and the generic lemmas the components use.

  A Rust \<open>str\<close> is its UTF-8 byte sequence, a HOL \<^typ>\<open>string\<close> whose characters are bytes,
  so \<open>len()\<close> is \<open>length\<close> and byte-wise searches agree with Rust's. Unicode lower-casing is
  data of the standard library that is not reproduced: it is a parameter (\<open>lower\<close>) of the
  definitions that use it, with nothing assumed about it.

  An unsigned machine integer is a \<^typ>\<open>nat\<close> and a signed one an \<^typ>\<open>int\<close>, with the bound of
  the width written out at every operation that can leave it. The release profile sets
  \<open>overflow-checks = true\<close> (\<open>Cargo.toml\<close>), so an overflowing \<open>+\<close>, \<open>-\<close>, \<open>*\<close> or \<open>pow\<close> panics:
  the checked operations below return \<^const>\<open>None\<close> there. Theorems collected in
  \<open>sentinel_simps\<close> unfold the small wrappers.
\<close>

named_theorems sentinel_simps "unfolding of the small wrappers shared by the components"

type_synonym u32 = nat
type_synonym u64 = nat
type_synonym i64 = int
type_synonym 'v str_map = "(string \<times> 'v) list"

text \<open>What \<open>cfg!(target_os)\<close> tells apart.\<close>

datatype platform_os = MacOs | Linux | Windows

section \<open>Machine integers\<close>

definition u32_max :: u32 where [sentinel_simps]: "u32_max = 2 ^ 32 - 1"
definition u64_max :: u64 where [sentinel_simps]: "u64_max = 2 ^ 64 - 1"
definition i64_min :: i64 where [sentinel_simps]: "i64_min = - (2 ^ 63)"
definition i64_max :: i64 where [sentinel_simps]: "i64_max = 2 ^ 63 - 1"

definition in_i64 :: "int \<Rightarrow> bool" where
  [sentinel_simps]: "in_i64 x \<longleftrightarrow> i64_min \<le> x \<and> x \<le> i64_max"

definition checked_i64 :: "int \<Rightarrow> i64 option" where
  [sentinel_simps]: "checked_i64 x = (if in_i64 x then Some x else None)"

definition checked_u32 :: "nat \<Rightarrow> u32 option" where
  [sentinel_simps]: "checked_u32 n = (if n \<le> u32_max then Some n else None)"

definition checked_u64 :: "nat \<Rightarrow> u64 option" where
  [sentinel_simps]: "checked_u64 n = (if n \<le> u64_max then Some n else None)"

definition u64_saturating_mul :: "u64 \<Rightarrow> u64 \<Rightarrow> u64" where
  [sentinel_simps]: "u64_saturating_mul a b = min (a * b) u64_max"

definition u32_saturating_add :: "u32 \<Rightarrow> u32 \<Rightarrow> u32" where
  [sentinel_simps]: "u32_saturating_add a b = min (a + b) u32_max"

text \<open>\<open>x as i64\<close> for an unsigned 64-bit \<open>x\<close>: two's complement reinterpretation.\<close>

definition u64_as_i64 :: "u64 \<Rightarrow> i64" where
  [sentinel_simps]: "u64_as_i64 n = (if n < 2 ^ 63 then int n else int n - 2 ^ 64)"

section \<open>Options and sums\<close>

definition unwrap_or :: "'a option \<Rightarrow> 'a \<Rightarrow> 'a" where
  [sentinel_simps]: "unwrap_or x d = (case x of None \<Rightarrow> d | Some v \<Rightarrow> v)"

lemma map_sum_Inr: "map_sum f g s = Inr y \<longleftrightarrow> (\<exists>x. s = Inr x \<and> y = g x)"
  by (cases s) auto

section \<open>Byte classes\<close>

definition byte :: "char \<Rightarrow> nat" where
  "byte c = (of_char c :: nat)"

definition is_ascii_digit :: "char \<Rightarrow> bool" where
  [sentinel_simps]: "is_ascii_digit c \<longleftrightarrow> 48 \<le> byte c \<and> byte c \<le> 57"

definition is_ascii_lowercase :: "char \<Rightarrow> bool" where
  [sentinel_simps]: "is_ascii_lowercase c \<longleftrightarrow> 97 \<le> byte c \<and> byte c \<le> 122"

definition is_ascii_uppercase :: "char \<Rightarrow> bool" where
  [sentinel_simps]: "is_ascii_uppercase c \<longleftrightarrow> 65 \<le> byte c \<and> byte c \<le> 90"

definition is_ascii_alphabetic :: "char \<Rightarrow> bool" where
  [sentinel_simps]: "is_ascii_alphabetic c \<longleftrightarrow> is_ascii_lowercase c \<or> is_ascii_uppercase c"

definition is_ascii_alphanumeric :: "char \<Rightarrow> bool" where
  [sentinel_simps]: "is_ascii_alphanumeric c \<longleftrightarrow> is_ascii_alphabetic c \<or> is_ascii_digit c"

definition is_ascii_hexdigit :: "char \<Rightarrow> bool" where
  "is_ascii_hexdigit c \<longleftrightarrow>
     is_ascii_digit c \<or> (65 \<le> byte c \<and> byte c \<le> 70) \<or> (97 \<le> byte c \<and> byte c \<le> 102)"

definition to_ascii_lower_char :: "char \<Rightarrow> char" where
  "to_ascii_lower_char c = (if is_ascii_uppercase c then char_of (byte c + 32) else c)"

definition to_ascii_lowercase :: "string \<Rightarrow> string" where
  "to_ascii_lowercase s = map to_ascii_lower_char s"

section \<open>Strings\<close>

text \<open>
  Rust's \<open>trim\<close> removes Unicode white space. In UTF-8 a white-space character is one of the
  following byte sequences, and no valid string has one of them across a character boundary.
\<close>

definition white_space :: "string list" where
  "white_space =
     [[CHR 0x09], [CHR 0x0A], [CHR 0x0B], [CHR 0x0C], [CHR 0x0D], [CHR 0x20],
      [CHR 0xC2, CHR 0x85], [CHR 0xC2, CHR 0xA0], [CHR 0xE1, CHR 0x9A, CHR 0x80],
      [CHR 0xE2, CHR 0x80, CHR 0x80], [CHR 0xE2, CHR 0x80, CHR 0x81],
      [CHR 0xE2, CHR 0x80, CHR 0x82], [CHR 0xE2, CHR 0x80, CHR 0x83],
      [CHR 0xE2, CHR 0x80, CHR 0x84], [CHR 0xE2, CHR 0x80, CHR 0x85],
      [CHR 0xE2, CHR 0x80, CHR 0x86], [CHR 0xE2, CHR 0x80, CHR 0x87],
      [CHR 0xE2, CHR 0x80, CHR 0x88], [CHR 0xE2, CHR 0x80, CHR 0x89],
      [CHR 0xE2, CHR 0x80, CHR 0x8A], [CHR 0xE2, CHR 0x80, CHR 0xA8],
      [CHR 0xE2, CHR 0x80, CHR 0xA9], [CHR 0xE2, CHR 0x80, CHR 0xAF],
      [CHR 0xE2, CHR 0x81, CHR 0x9F], [CHR 0xE3, CHR 0x80, CHR 0x80]]"

text \<open>Drop one of the (non-empty) patterns from the front, as often as one matches.\<close>

function strip_front :: "string list \<Rightarrow> string \<Rightarrow> string" where
  "strip_front ps s =
     (case find (\<lambda>p. p \<noteq> [] \<and> prefix p s) ps of
        None \<Rightarrow> s
      | Some p \<Rightarrow> strip_front ps (drop (length p) s))"
  by pat_completeness auto
termination
  by (relation "measure (\<lambda>(ps, s). length s)")
     (auto simp: find_Some_iff prefix_def)

declare strip_front.simps [simp del]

definition trim_start :: "string \<Rightarrow> string" where
  "trim_start = strip_front white_space"

definition trim_end :: "string \<Rightarrow> string" where
  "trim_end s = rev (strip_front (map rev white_space) (rev s))"

definition trim :: "string \<Rightarrow> string" where
  "trim s = trim_end (trim_start s)"

fun str_contains :: "string \<Rightarrow> string \<Rightarrow> bool" where
  "str_contains [] needle = (needle = [])"
| "str_contains (c # cs) needle = (prefix needle (c # cs) \<or> str_contains cs needle)"

fun split_once :: "char \<Rightarrow> string \<Rightarrow> (string \<times> string) option" where
  "split_once d [] = None"
| "split_once d (c # cs) =
     (if c = d then Some ([], cs)
      else map_option (\<lambda>(a, b). (c # a, b)) (split_once d cs))"

definition rsplit_once :: "char \<Rightarrow> string \<Rightarrow> (string \<times> string) option" where
  "rsplit_once d s = map_option (\<lambda>(a, b). (rev b, rev a)) (split_once d (rev s))"

text \<open>\<open>split\<close> at a character.\<close>

fun split_at_char :: "char \<Rightarrow> string \<Rightarrow> string list" where
  "split_at_char d [] = [[]]"
| "split_at_char d (c # cs) =
     (if c = d then [] # split_at_char d cs
      else case split_at_char d cs of [] \<Rightarrow> [[c]] | p # ps \<Rightarrow> (c # p) # ps)"

fun join_with :: "string \<Rightarrow> string list \<Rightarrow> string" where
  "join_with sep [] = []"
| "join_with sep [x] = x"
| "join_with sep (x # y # zs) = x @ sep @ join_with sep (y # zs)"

text \<open>\<open>str::replace\<close> of one character.\<close>

definition replace_char :: "char \<Rightarrow> string \<Rightarrow> string \<Rightarrow> string" where
  "replace_char c by s = concat (map (\<lambda>x. if x = c then by else [x]) s)"

text \<open>\<open>str::lines\<close>: split at line feeds, a carriage return before one dropped, no empty last line.\<close>

fun lines :: "string \<Rightarrow> string list" where
  "lines [] = []"
| "lines (c # cs) =
     (if c = CHR 0x0A then [] # lines cs
      else if c = CHR 0x0D \<and> prefix [CHR 0x0A] cs then lines cs
      else case lines cs of [] \<Rightarrow> [[c]] | l # ls \<Rightarrow> (c # l) # ls)"

text \<open>\<open>next\<close> of \<open>split_whitespace\<close>: the next word and what follows it.\<close>

fun take_word :: "string \<Rightarrow> string \<times> string" where
  "take_word [] = ([], [])"
| "take_word (c # cs) =
     (if list_ex (\<lambda>w. prefix w (c # cs)) white_space then ([], c # cs)
      else case take_word cs of (w, r) \<Rightarrow> (c # w, r))"

definition next_word :: "string \<Rightarrow> (string \<times> string) option" where
  "next_word s = (let s' = trim_start s in if s' = [] then None else Some (take_word s'))"

lemma strip_front_length: "length (strip_front ps s) \<le> length s"
proof (induction ps s rule: strip_front.induct)
  case (1 ps s)
  then show ?case
    by (subst strip_front.simps) (fastforce split: option.split intro: le_trans)
qed

lemma take_word_length: "length (snd (take_word s)) \<le> length s"
  by (induction s) (auto split: prod.splits)

lemma take_word_shrinks:
  "strip_front white_space s = s \<Longrightarrow> s \<noteq> [] \<Longrightarrow> length (snd (take_word s)) < length s"
proof (cases s)
  case (Cons c cs)
  assume s: "strip_front white_space s = s"
  have "\<not> list_ex (\<lambda>w. prefix w (c # cs)) white_space"
  proof
    assume "list_ex (\<lambda>w. prefix w (c # cs)) white_space"
    then obtain w where w: "w \<in> set white_space" "prefix w (c # cs)" by (auto simp: list_ex_iff)
    then have "w \<noteq> []" by (auto simp: white_space_def)
    with w obtain p where p: "find (\<lambda>p. p \<noteq> [] \<and> prefix p s) white_space = Some p"
      using Cons by (cases "find (\<lambda>p. p \<noteq> [] \<and> prefix p s) white_space") (auto simp: find_None_iff)
    then have "p \<noteq> []" by (auto simp: find_Some_iff)
    from p have "strip_front white_space s = strip_front white_space (drop (length p) s)"
      by (subst strip_front.simps) simp
    with s have "length s \<le> length (drop (length p) s)" using strip_front_length by metis
    with \<open>p \<noteq> []\<close> Cons show False by (cases p) auto
  qed
  with Cons take_word_length [of cs] show ?thesis by (auto split: prod.split)
qed simp

lemma strip_front_idem: "strip_front ps (strip_front ps s) = strip_front ps s"
proof (induction ps s rule: strip_front.induct)
  case (1 ps s)
  show ?case
  proof (cases "find (\<lambda>p. p \<noteq> [] \<and> prefix p s) ps")
    case None
    then have "strip_front ps s = s" by (subst strip_front.simps) simp
    then show ?thesis by simp
  next
    case (Some p)
    then have "strip_front ps s = strip_front ps (drop (length p) s)" by (subst strip_front.simps) simp
    with 1 Some show ?thesis by simp
  qed
qed

lemma next_word_shrinks: "next_word s = Some (w, r) \<Longrightarrow> length r < length s"
  using take_word_shrinks [of "strip_front white_space s"] strip_front_length [of white_space s]
  by (auto simp: next_word_def trim_start_def strip_front_idem Let_def split: if_splits)

text \<open>\<open>split_whitespace\<close>.\<close>

function words :: "string \<Rightarrow> string list" where
  "words s = (case next_word s of None \<Rightarrow> [] | Some (w, r) \<Rightarrow> w # words r)"
  by pat_completeness auto
termination
  by (relation "measure length") (auto dest: next_word_shrinks)

declare words.simps [simp del]

text \<open>Characters of a UTF-8 text: the bytes that do not continue one.\<close>

definition starts_char :: "char \<Rightarrow> bool" where
  "starts_char c \<longleftrightarrow> byte c div 64 \<noteq> 2"

definition char_count :: "string \<Rightarrow> nat" where
  "char_count s = length (filter starts_char s)"

text \<open>\<open>chars().take(n)\<close>.\<close>

fun take_chars :: "nat \<Rightarrow> string \<Rightarrow> string" where
  "take_chars n [] = []"
| "take_chars n (c # cs) =
     (if starts_char c then (case n of 0 \<Rightarrow> [] | Suc m \<Rightarrow> c # take_chars m cs)
      else c # take_chars n cs)"

definition digit_char :: "nat \<Rightarrow> char" where
  "digit_char d = char_of (48 + d)"

fun show_nat :: "nat \<Rightarrow> string" where
  "show_nat n = (if n < 10 then [digit_char n] else show_nat (n div 10) @ [digit_char (n mod 10)])"

declare show_nat.simps [simp del]

fun digits_value :: "nat \<Rightarrow> string \<Rightarrow> nat option" where
  "digits_value acc [] = Some acc"
| "digits_value acc (c # cs) =
     (if is_ascii_digit c then digits_value (acc * 10 + (byte c - 48)) cs else None)"

text \<open>
  \<open>str::parse\<close> for an unsigned integer of maximum \<open>m\<close>: an optional \<open>+\<close>, at least one
  digit, nothing else, and no overflow.
\<close>

definition parse_unsigned :: "nat \<Rightarrow> string \<Rightarrow> nat option" where
  "parse_unsigned m s =
     (let ds = (case s of c # cs \<Rightarrow> (if c = CHR ''+'' then cs else s) | [] \<Rightarrow> s)
      in if ds = [] then None
         else (case digits_value 0 ds of None \<Rightarrow> None | Some v \<Rightarrow> if v \<le> m then Some v else None))"

definition parse_u64 :: "string \<Rightarrow> u64 option" where
  "parse_u64 = parse_unsigned u64_max"

section \<open>Facts about strings\<close>

lemma byte_less [simp]: "byte c < 256"
  unfolding byte_def using of_char_mod_256 [of c] by (metis mod_less_divisor zero_less_numeral)

lemma strip_front_Nil [simp]: "strip_front ps [] = []"
  by (subst strip_front.simps) (auto split: option.split simp: find_Some_iff)

lemma trim_Nil [simp]: "trim [] = []"
  by (simp add: trim_def trim_start_def trim_end_def)

lemma str_contains_iff: "str_contains hay needle \<longleftrightarrow> (\<exists>a b. hay = a @ needle @ b)"
proof (induction hay)
  case Nil
  then show ?case by auto
next
  case (Cons c cs)
  show ?case
  proof
    assume "str_contains (c # cs) needle"
    then consider "prefix needle (c # cs)" | "str_contains cs needle" by auto
    then show "\<exists>a b. c # cs = a @ needle @ b"
    proof cases
      case 1
      then show ?thesis by (metis append_Nil prefix_def)
    next
      case 2
      with Cons.IH show ?thesis by (metis append_Cons)
    qed
  next
    assume "\<exists>a b. c # cs = a @ needle @ b"
    then obtain a b where ab: "c # cs = a @ needle @ b" by blast
    show "str_contains (c # cs) needle"
    proof (cases a)
      case Nil
      with ab have "prefix needle (c # cs)" by (simp add: prefix_def)
      then show ?thesis by simp
    next
      case (Cons x xs)
      with ab Cons.IH show ?thesis by auto
    qed
  qed
qed

lemma str_contains_empty [simp]: "str_contains hay []"
  by (cases hay) simp_all

lemma split_once_Some:
  "split_once d s = Some (a, b) \<Longrightarrow> s = a @ d # b \<and> d \<notin> set a"
  by (induction s arbitrary: a b) (auto split: if_splits)

lemma split_once_first: "d \<notin> set a \<Longrightarrow> split_once d (a @ d # b) = Some (a, b)"
  by (induction a) auto

lemma split_once_None: "split_once d s = None \<longleftrightarrow> d \<notin> set s"
  by (induction s) auto

lemma rsplit_once_Some:
  assumes "rsplit_once d s = Some (a, b)"
  shows "s = a @ d # b \<and> d \<notin> set b"
proof -
  from assms obtain a' b' where "split_once d (rev s) = Some (a', b')" and ab: "a = rev b'" "b = rev a'"
    by (auto simp: rsplit_once_def)
  then have "rev s = a' @ d # b'" and "d \<notin> set a'"
    using split_once_Some by blast+
  then have "s = rev b' @ d # rev a'"
    by (metis append.assoc append_Cons append_Nil rev.simps(2) rev_append rev_rev_ident)
  with ab \<open>d \<notin> set a'\<close> show ?thesis by simp
qed

lemma split_at_char_nonempty [simp]: "split_at_char d s \<noteq> []"
  by (induction s) (auto split: list.splits)

lemma split_at_char_no: "d \<notin> set s \<Longrightarrow> split_at_char d s = [s]"
  by (induction s) auto

lemma split_at_char_append: "split_at_char d (a @ d # b) = split_at_char d a @ split_at_char d b"
proof (induction a)
  case (Cons c a)
  then show ?case using split_at_char_nonempty [of d a] by (auto split: list.splits)
qed simp

lemma digits_value_bound: "digits_value acc ds = Some v \<Longrightarrow> acc \<le> v"
proof (induction ds arbitrary: acc)
  case (Cons c cs)
  then have "acc * 10 + (byte c - 48) \<le> v" by (auto split: if_splits)
  then show ?case by simp
qed simp

lemma parse_unsigned_bound: "parse_unsigned m s = Some v \<Longrightarrow> v \<le> m"
  by (auto simp: parse_unsigned_def Let_def split: option.splits if_splits list.splits)

lemma digit_char_byte: "d < 10 \<Longrightarrow> byte (digit_char d) = 48 + d"
  by (simp add: byte_def digit_char_def)

lemma digit_char_is_digit: "d < 10 \<Longrightarrow> is_ascii_digit (digit_char d)"
  by (simp add: is_ascii_digit_def digit_char_byte)

lemma digits_value_append:
  "digits_value acc (xs @ ys) =
     (case digits_value acc xs of None \<Rightarrow> None | Some v \<Rightarrow> digits_value v ys)"
  by (induction xs arbitrary: acc) auto

lemma show_nat_nonempty [simp]: "show_nat n \<noteq> []"
  by (subst show_nat.simps) simp

lemma show_nat_digits: "c \<in> set (show_nat n) \<Longrightarrow> is_ascii_digit c"
proof (induction n rule: show_nat.induct)
  case (1 n)
  then show ?case
    by (subst (asm) (2) show_nat.simps) (auto simp: digit_char_is_digit split: if_splits)
qed

lemma digits_value_show: "digits_value 0 (show_nat n) = Some n"
proof (induction n rule: show_nat.induct)
  case (1 n)
  show ?case
  proof (cases "n < 10")
    case True
    then show ?thesis
      by (subst show_nat.simps) (simp add: digit_char_is_digit digit_char_byte)
  next
    case False
    have "n mod 10 < 10" by simp
    then have "is_ascii_digit (digit_char (n mod 10))" and "byte (digit_char (n mod 10)) = 48 + n mod 10"
      by (rule digit_char_is_digit, simp add: digit_char_byte)
    with 1 False show ?thesis
      by (subst show_nat.simps) (simp add: digits_value_append)
  qed
qed

text \<open>Printing and parsing an unsigned integer are inverse up to the width.\<close>

lemma parse_show_nat: "parse_unsigned m (show_nat n) = (if n \<le> m then Some n else None)"
proof -
  obtain c cs where s: "show_nat n = c # cs" using show_nat_nonempty [of n] by (cases "show_nat n") auto
  then have "is_ascii_digit c" using show_nat_digits [of c n] by simp
  then have "c \<noteq> CHR ''+''" by (auto simp: is_ascii_digit_def byte_def)
  with s digits_value_show [of n] show ?thesis by (simp add: parse_unsigned_def)
qed

section \<open>Association lists as hash maps\<close>

text \<open>
  A \<open>HashMap\<close> is an association list with distinct keys. Iteration follows the list, and no
  theorem depends on its order.
\<close>

definition hm_wf :: "('k \<times> 'v) list \<Rightarrow> bool" where
  "hm_wf m \<longleftrightarrow> distinct (map fst m)"

lemma hm_wf_Nil [simp]: "hm_wf []"
  by (simp add: hm_wf_def)

lemma hm_wf_update [simp]: "hm_wf m \<Longrightarrow> hm_wf (AList.update k v m)"
  by (simp add: hm_wf_def distinct_update)

lemma hm_wf_delete [simp]: "hm_wf m \<Longrightarrow> hm_wf (AList.delete k m)"
  by (simp add: hm_wf_def distinct_delete)

lemma hm_wf_filter [simp]: "hm_wf m \<Longrightarrow> hm_wf (filter P m)"
  by (simp add: hm_wf_def distinct_map_filter)

lemma map_of_filter_wf:
  assumes "hm_wf m"
  shows "map_of (filter (\<lambda>(k, v). P k v) m) k =
    (case map_of m k of None \<Rightarrow> None | Some v \<Rightarrow> if P k v then Some v else None)"
  using assms
proof (induction m)
  case (Cons kv m)
  obtain k' v' where kv: "kv = (k', v')" by (cases kv)
  from Cons.prems kv have "k' \<notin> fst ` set m" and "hm_wf m" by (auto simp: hm_wf_def)
  then have "k = k' \<Longrightarrow> map_of m k = None" by (simp add: map_of_eq_None_iff)
  with Cons.IH [OF \<open>hm_wf m\<close>] show ?case by (auto simp: kv)
qed simp

lemma hm_mem: "hm_wf m \<Longrightarrow> (k, v) \<in> set m \<longleftrightarrow> map_of m k = Some v"
  by (simp add: hm_wf_def)

lemma hm_update_mem:
  "hm_wf m \<Longrightarrow> (k, v) \<in> set (AList.update a b m) \<longleftrightarrow> (if k = a then v = b else (k, v) \<in> set m)"
  by (auto simp: hm_mem update_conv)

lemma length_delete_le: "length (AList.delete k m) \<le> length m"
  by (simp add: AList.delete_eq)

lemma length_delete_present:
  assumes "k \<in> fst ` set m"
  shows "length (AList.delete k m) < length m"
  using assms unfolding AList.delete_eq
  by (auto intro!: length_filter_less)

lemma length_update:
  "length (AList.update k v m) = (if k \<in> fst ` set m then length m else Suc (length m))"
  by (induction m) auto

section \<open>Selecting the first rows in an order\<close>

text \<open>
  \<open>ORDER BY key LIMIT n\<close>: the rows of least key come first; rows of equal key come in scan
  order, which is arbitrary, since the theorems quantify over every order of the table.
\<close>

definition order_limit :: "('r \<Rightarrow> 'k::linorder) \<Rightarrow> nat \<Rightarrow> 'r list \<Rightarrow> 'r list" where
  "order_limit key n rows = take n (sort_key key rows)"

lemma length_order_limit [simp]: "length (order_limit key n rows) = min n (length rows)"
  by (simp add: order_limit_def min.commute)

lemma set_order_limit: "set (order_limit key n rows) \<subseteq> set rows"
  by (auto simp: order_limit_def dest: in_set_takeD)

lemma distinct_order_limit: "distinct rows \<Longrightarrow> distinct (order_limit key n rows)"
  by (simp add: order_limit_def)

lemma order_limit_sorted: "sorted (map key (order_limit key n rows))"
  by (simp add: order_limit_def sorted_wrt_take flip: take_map)

text \<open>A row that was left out has a key no smaller than every row taken.\<close>

lemma order_limit_least:
  assumes "r \<in> set rows" and "r \<notin> set (order_limit key n rows)" and "s \<in> set (order_limit key n rows)"
  shows "key s \<le> key r"
proof -
  let ?l = "sort_key key rows"
  have "r \<in> set ?l" using assms(1) by simp
  then have "r \<in> set (take n ?l) \<or> r \<in> set (drop n ?l)"
    by (metis Un_iff append_take_drop_id set_append)
  with assms(2) have r: "r \<in> set (drop n ?l)" by (simp add: order_limit_def)
  have "sorted (map key (take n ?l @ drop n ?l))" by simp
  then have "\<forall>x\<in>set (take n ?l). \<forall>y\<in>set (drop n ?l). key x \<le> key y"
    by (simp only: map_append sorted_append) auto
  with r assms(3) show ?thesis by (auto simp: order_limit_def)
qed

end
