(* ===== verification/Rust_Float.thy ===== *)
theory Rust_Float imports Complex_Main Prelude begin

text \<open>
  IEEE 754 arithmetic as Rust's \<open>f32\<close> and \<open>f64\<close> compute it: the exact rational result of one
  operation, rounded to the nearest number of \<open>p\<close> significant bits, ties to even. Every value
  of the modelled code is finite, far from the overflow threshold and either zero or far above
  the subnormal range, so the exponent is unbounded here.

  The lemmas show what proofs about rounded code need: rounding is monotone, exact on small
  integers, and keeps signs.
\<close>

fun ilog2 :: "nat \<Rightarrow> nat" where
  "ilog2 n = (if n < 2 then 0 else Suc (ilog2 (n div 2)))"

declare ilog2.simps [simp del]

lemma ilog2_bounds: "0 < n \<Longrightarrow> 2 ^ ilog2 n \<le> n \<and> n < 2 ^ Suc (ilog2 n)"
proof (induction n rule: ilog2.induct)
  case (1 n)
  show ?case
  proof (cases "n < 2")
    case True
    with "1.prems" show ?thesis by (subst ilog2.simps, subst ilog2.simps) simp
  next
    case False
    then have "0 < n div 2" by simp
    with 1 False have "2 ^ ilog2 (n div 2) \<le> n div 2 \<and> n div 2 < 2 ^ Suc (ilog2 (n div 2))" by blast
    then have "2 * 2 ^ ilog2 (n div 2) \<le> n \<and> n < 2 * 2 ^ Suc (ilog2 (n div 2))" by linarith
    with False show ?thesis by (subst ilog2.simps, subst ilog2.simps) simp
  qed
qed

text \<open>The binary exponent of a positive rational: \<open>2 ^ e \<le> x < 2 ^ (e + 1)\<close>.\<close>

definition binary_exponent :: "rat \<Rightarrow> int" where
  "binary_exponent x =
     (case quotient_of x of (a, b) \<Rightarrow>
        let e = int (ilog2 (nat a)) - int (ilog2 (nat b))
        in if 2 powi e \<le> x then e else e - 1)"

lemma binary_exponent_bounds:
  assumes "0 < x"
  shows "2 powi binary_exponent x \<le> x \<and> x < 2 powi (binary_exponent x + 1)"
proof -
  obtain a b where q: "quotient_of x = (a, b)" by (cases "quotient_of x")
  then have b: "0 < b" and x: "x = of_int a / of_int b"
    using quotient_of_denom_pos quotient_of_div by blast+
  with assms have a: "0 < a" by (simp add: zero_less_divide_iff)
  define m n where "m = ilog2 (nat a)" and "n = ilog2 (nat b)"
  from ilog2_bounds [of "nat a"] a have "2 ^ m \<le> nat a" "nat a < 2 ^ Suc m" by (simp_all add: m_def)
  then have "int (2 ^ m) \<le> a" "a < int (2 ^ Suc m)" using a by linarith+
  then have am: "(2::rat) ^ m \<le> of_int a" "of_int a < (2::rat) ^ Suc m"
    by (metis of_int_le_iff of_int_of_nat_eq of_nat_numeral of_nat_power,
        metis of_int_less_iff of_int_of_nat_eq of_nat_numeral of_nat_power)
  from ilog2_bounds [of "nat b"] b have "2 ^ n \<le> nat b" "nat b < 2 ^ Suc n" by (simp_all add: n_def)
  then have "int (2 ^ n) \<le> b" "b < int (2 ^ Suc n)" using b by linarith+
  then have bn: "(2::rat) ^ n \<le> of_int b" "of_int b < (2::rat) ^ Suc n"
    by (metis of_int_le_iff of_int_of_nat_eq of_nat_numeral of_nat_power,
        metis of_int_less_iff of_int_of_nat_eq of_nat_numeral of_nat_power)
  let ?e = "int m - int n"
  have pe: "(2::rat) powi ?e = 2 ^ m / 2 ^ n" by (simp add: power_int_diff)
  have bp: "(0::rat) < of_int b" using b by simp
  have up: "x < 2 powi (?e + 1)"
  proof -
    have "x < 2 ^ Suc m / of_int b" using am(2) bp x by (simp add: divide_strict_right_mono)
    also have "\<dots> \<le> 2 ^ Suc m / 2 ^ n" using bn(1) bp by (intro divide_left_mono) auto
    also have "\<dots> = 2 powi (?e + 1)" using pe by (simp add: power_int_add)
    finally show ?thesis .
  qed
  have lo: "2 powi (?e - 1) \<le> x"
  proof -
    have "2 powi (?e - 1) = (2::rat) ^ m / 2 ^ Suc n" using pe by (simp add: power_int_diff)
    also have "\<dots> \<le> 2 ^ m / of_int b" using bn(2) bp by (intro divide_left_mono) auto
    also have "\<dots> \<le> x" using am(1) bp x by (simp add: divide_right_mono)
    finally show ?thesis .
  qed
  have "binary_exponent x = (if 2 powi ?e \<le> x then ?e else ?e - 1)"
    by (simp add: binary_exponent_def q m_def n_def Let_def)
  with up lo show ?thesis by auto
qed

lemma powi2_mono: "i \<le> j \<Longrightarrow> (2::rat) powi i \<le> 2 powi j"
  by (rule power_int_increasing) auto

lemma powi2_less_iff: "(2::rat) powi i < 2 powi j \<longleftrightarrow> i < j"
  by (metis linorder_not_le one_less_numeral_iff power_int_strict_increasing powi2_mono semiring_norm(76))

lemma binary_exponent_mono:
  assumes "0 < x" and "x \<le> y"
  shows "binary_exponent x \<le> binary_exponent y"
proof -
  have "2 powi binary_exponent x < (2::rat) powi (binary_exponent y + 1)"
    using binary_exponent_bounds [of x] binary_exponent_bounds [of y] assms by linarith
  then show ?thesis by (simp add: powi2_less_iff)
qed

section \<open>Rounding\<close>

text \<open>Nearest integer, ties to even.\<close>

definition round_even :: "rat \<Rightarrow> int" where
  "round_even x =
     (let f = \<lfloor>x\<rfloor>; d = x - of_int f
      in if d < 1 / 2 then f else if 1 / 2 < d then f + 1 else if even f then f else f + 1)"

lemma round_even_of_int [simp]: "round_even (of_int n) = n"
  by (simp add: round_even_def)

lemma round_even_mono: "x \<le> y \<Longrightarrow> round_even x \<le> round_even y"
proof -
  assume le: "x \<le> y"
  have fl: "\<lfloor>x\<rfloor> \<le> \<lfloor>y\<rfloor>" using le by (rule floor_mono)
  show ?thesis
  proof (cases "\<lfloor>x\<rfloor> = \<lfloor>y\<rfloor>")
    case True
    with le show ?thesis by (auto simp: round_even_def Let_def)
  next
    case False
    with fl have "\<lfloor>x\<rfloor> + 1 \<le> \<lfloor>y\<rfloor>" by simp
    then show ?thesis by (auto simp: round_even_def Let_def)
  qed
qed

definition fround :: "nat \<Rightarrow> rat \<Rightarrow> rat" where
  "fround p x =
     (if x = 0 then 0
      else let u = 2 powi (binary_exponent \<bar>x\<bar> - (int p - 1))
           in of_int (round_even (x / u)) * u)"

abbreviation f32 :: "rat \<Rightarrow> rat" where "f32 \<equiv> fround 24"
abbreviation f64 :: "rat \<Rightarrow> rat" where "f64 \<equiv> fround 53"

lemma fround_0 [simp]: "fround p 0 = 0"
  by (simp add: fround_def)

text \<open>A power of two is its own rounding, and bounds the roundings of smaller numbers.\<close>

lemma fround_pos_bounds:
  assumes "0 < x" and p: "1 \<le> p"
  shows "2 powi binary_exponent x \<le> fround p x \<and> fround p x \<le> 2 powi (binary_exponent x + 1)"
proof -
  let ?e = "binary_exponent x"
  define u :: rat where "u = 2 powi (?e - (int p - 1))"
  have u: "0 < u" by (simp add: u_def)
  have fr: "fround p x = of_int (round_even (x / u)) * u" using assms by (simp add: fround_def u_def Let_def)
  have e1: "2 powi ?e = of_int (2 ^ (p - 1)) * u" using p
    by (simp add: u_def flip: power_int_of_nat power_int_add)
  have e2: "2 powi (?e + 1) = of_int (2 ^ p) * u" using p
    by (simp add: u_def flip: power_int_of_nat power_int_add)
  have "of_int (2 ^ (p - 1)) \<le> x / u" "x / u \<le> of_int (2 ^ p)"
    using binary_exponent_bounds [OF assms(1)] u e1 e2 by (simp_all add: field_simps)
  then have "2 ^ (p - 1) \<le> round_even (x / u)" "round_even (x / u) \<le> 2 ^ p"
    by (metis round_even_mono round_even_of_int)+
  then have "of_int (2 ^ (p - 1)) * u \<le> of_int (round_even (x / u)) * u"
    "of_int (round_even (x / u)) * u \<le> of_int (2 ^ p) * u"
    using u by (meson mult_right_mono of_int_le_iff less_imp_le)+
  then show ?thesis by (simp only: e1 e2 fr)
qed

lemma fround_nonneg: "1 \<le> p \<Longrightarrow> 0 \<le> x \<Longrightarrow> 0 \<le> fround p x"
  using fround_pos_bounds [of x p] by (cases "x = 0") (auto intro: order_trans [rotated])

lemma fround_pos: "1 \<le> p \<Longrightarrow> 0 < x \<Longrightarrow> 0 < fround p x"
  using fround_pos_bounds [of x p] by (meson less_le_trans zero_less_numeral zero_less_power_int)

lemma fround_mono:
  assumes p: "1 \<le> p" and "0 \<le> x" and "x \<le> y"
  shows "fround p x \<le> fround p y"
proof (cases "x = 0")
  case True
  with assms show ?thesis by (simp add: fround_nonneg)
next
  case False
  with assms have xp: "0 < x" and yp: "0 < y" by auto
  show ?thesis
  proof (cases "binary_exponent x = binary_exponent y")
    case True
    define u :: rat where "u = 2 powi (binary_exponent x - (int p - 1))"
    have u: "0 < u" by (simp add: u_def)
    have "round_even (x / u) \<le> round_even (y / u)"
      using u assms(3) by (intro round_even_mono divide_right_mono) auto
    then have "of_int (round_even (x / u)) * u \<le> of_int (round_even (y / u)) * u"
      using u by (meson mult_right_mono of_int_le_iff less_imp_le)
    with xp yp True show ?thesis by (simp add: fround_def u_def Let_def)
  next
    case False
    with binary_exponent_mono [OF xp assms(3)] have "binary_exponent x + 1 \<le> binary_exponent y" by simp
    then have "(2::rat) powi (binary_exponent x + 1) \<le> 2 powi binary_exponent y" by (rule powi2_mono)
    with fround_pos_bounds [OF xp p] fround_pos_bounds [OF yp p] show ?thesis by linarith
  qed
qed

text \<open>Integers of at most \<open>p\<close> bits are exact.\<close>

lemma fround_of_nat:
  assumes "n < 2 ^ p" and p: "1 \<le> p"
  shows "fround p (of_nat n) = of_nat n"
proof (cases "n = 0")
  case False
  let ?x = "of_nat n :: rat"
  let ?e = "binary_exponent ?x"
  have xp: "0 < ?x" using False by simp
  have le: "2 powi ?e \<le> ?x" using binary_exponent_bounds [OF xp] by blast
  have "?x < 2 powi (int p)"
    using assms(1) by (metis of_nat_less_iff of_nat_numeral of_nat_power power_int_of_nat)
  with le have "(2::rat) powi ?e < 2 powi (int p)" by linarith
  then have "?e < int p" by (simp only: powi2_less_iff)
  then have "?e \<le> int p - 1" by simp
  then obtain k where k: "int p - 1 - ?e = int k" by (metis diff_ge_0_iff_ge nonneg_int_cases)
  then have u: "(2::rat) powi (?e - (int p - 1)) = 1 / 2 ^ k"
    by (metis inverse_eq_divide minus_diff_eq power_int_minus power_int_of_nat)
  have "?x / (1 / 2 ^ k) = of_int (int n * 2 ^ k)" by simp
  then have "round_even (?x / (1 / 2 ^ k)) = int n * 2 ^ k" by (metis round_even_of_int)
  then show ?thesis using False by (simp add: fround_def u Let_def)
qed simp

lemmas fround_numeral_1 = fround_of_nat [of 1, simplified]

lemma binary_exponent_unique:
  assumes "2 powi e \<le> y" and "y < 2 powi (e + 1)"
  shows "binary_exponent y = e"
proof -
  have "0 < y" using assms(1) by (meson less_le_trans zero_less_numeral zero_less_power_int)
  note b = binary_exponent_bounds [OF this]
  have "(2::rat) powi e < 2 powi (binary_exponent y + 1)" using assms(1) b by linarith
  moreover have "(2::rat) powi binary_exponent y < 2 powi (e + 1)" using assms(2) b by linarith
  ultimately show ?thesis by (simp add: powi2_less_iff)
qed

lemma fround_multiple:
  assumes "0 < y" and "y = of_int k * 2 powi (binary_exponent y - (int p - 1))"
  shows "fround p y = y"
proof -
  define u :: rat where "u = 2 powi (binary_exponent y - (int p - 1))"
  have u: "0 < u" by (simp add: u_def)
  have "y = of_int k * u" using assms(2) by (simp only: u_def)
  then have "y / u = of_int k" using u by simp
  then have "round_even (y / u) = k" by simp
  with assms show ?thesis by (simp add: fround_def u_def Let_def)
qed

text \<open>What was rounded is its own rounding.\<close>

lemma fround_idem:
  assumes p: "1 \<le> p" and "0 \<le> x"
  shows "fround p (fround p x) = fround p x"
proof (cases "x = 0")
  case False
  with assms have xp: "0 < x" by simp
  let ?e = "binary_exponent x" and ?y = "fround p x"
  define k where "k = round_even (x / 2 powi (?e - (int p - 1)))"
  have y: "?y = of_int k * 2 powi (?e - (int p - 1))" using xp by (simp add: fround_def k_def Let_def)
  have b: "2 powi ?e \<le> ?y" "?y \<le> 2 powi (?e + 1)" using fround_pos_bounds [OF xp p] by auto
  have yp: "0 < ?y" using fround_pos [OF p xp] .
  show ?thesis
  proof (cases "?y = 2 powi (?e + 1)")
    case True
    have e: "binary_exponent ?y = ?e + 1"
      by (rule binary_exponent_unique) (simp_all add: True powi2_less_iff)
    have "?y = of_int (2 ^ (p - 1)) * 2 powi (binary_exponent ?y - (int p - 1))"
      using p by (subst True) (simp add: e add.commute flip: power_int_of_nat power_int_add)
    with yp show ?thesis by (rule fround_multiple)
  next
    case False
    with b have "binary_exponent ?y = ?e" by (intro binary_exponent_unique) auto
    with y yp show ?thesis by (intro fround_multiple [of _ k]) auto
  qed
qed simp

end
