(* ===== verification/Playbook.thy ===== *)
theory Playbook imports Rust_Float begin

text \<open>
  The playbook engine (\<open>crates/agent-core/src/playbook_engine.rs\<close>) and the playbook types of
  \<open>crates/agent-gui/src/dto.rs\<close>: evaluating the conditions of a playbook against the current
  threats, choosing the response actions, and running or simulating them.

  The text of a log line is not modelled. Parameters: \<open>lower\<close> (Unicode lower-casing),
  \<open>parse_ip\<close> (whether \<open>IpAddr::from_str\<close> accepts a text), \<open>absolute\<close>
  (\<open>Path::is_absolute\<close>, which depends on the platform), \<open>debug\<close> (the derived \<open>Debug\<close> text) and
  \<open>perform\<close>, the response layer an action is handed to.
\<close>

section \<open>Types\<close>

datatype json = JNull | JStr string | JNum int | JArr "json list" | JObj "(string \<times> json) list"

datatype playbook_condition_type =
  ProcessNameMatch | NetworkAlertType | FimChange | SeverityThreshold | CvssScore

datatype playbook_action_type =
    KillProcessAction | QuarantineFileAction | BlockIpAction | IsolateHostAction
  | SendSiemAlertAction | CreateNotificationAction | DisableAccountAction | RunCommandAction

record playbook_condition =
  condition_type :: playbook_condition_type
  operator :: string
  pc_value :: string

record playbook_action =
  action_type :: playbook_action_type
  parameters :: string

record playbook =
  pb_id :: string
  pb_name :: string
  pb_enabled :: bool
  pb_conditions :: "playbook_condition list"
  pb_actions :: "playbook_action list"

datatype resolved_action =
    KillProcess string u32
  | QuarantineFile string
  | BlockIp string u64
  | Alert string string string
  | Notify string
  | IsolateHost u64
  | DisableAccount string u64
  | RunCommand string json

record process_info =
  pi_name :: string
  pi_pid :: u32
  pi_command_line :: string

record network_alert_info =
  na_alert_type :: string
  na_remote_ip :: "string option"
  na_port :: "nat option"
  na_severity :: string
  na_description :: string
  na_user :: "string option"

record fim_alert_info =
  fa_path :: string
  fa_change_type :: string

record threat_context =
  suspicious_processes :: "process_info list"
  network_alerts :: "network_alert_info list"
  fim_alerts :: "fim_alert_info list"

record playbook_evaluation =
  pe_playbook_id :: string
  pe_playbook_name :: string
  triggered :: bool
  matched_conditions :: "string list"
  confidence :: rat
  pe_actions :: "resolved_action list"

record action_result =
  ar_action :: string
  ar_success :: bool
  ar_error :: "string option"

section \<open>Durations\<close>

definition DEFAULT_BLOCK_SECS :: u64 where "DEFAULT_BLOCK_SECS = 3600"
definition DEFAULT_ACCOUNT_LOCK_SECS :: u64 where "DEFAULT_ACCOUNT_LOCK_SECS = 3600"
definition DEFAULT_ISOLATION_SECS :: u64 where "DEFAULT_ISOLATION_SECS = 3600"

definition block_duration :: "string \<Rightarrow> u64" where
  "block_duration params = unwrap_or (parse_u64 (trim params)) DEFAULT_BLOCK_SECS"

definition account_lock_duration :: "string \<Rightarrow> u64" where
  "account_lock_duration params = unwrap_or (parse_u64 (trim params)) DEFAULT_ACCOUNT_LOCK_SECS"

definition isolation_duration :: "string \<Rightarrow> u64" where
  "isolation_duration params = unwrap_or (parse_u64 (trim params)) DEFAULT_ISOLATION_SECS"

section \<open>Repeated offences\<close>

definition OFFENCE_WINDOW_SECS :: i64 where "OFFENCE_WINDOW_SECS = 24 * 3600"
definition SAME_OFFENCE_SECS :: i64 where "SAME_OFFENCE_SECS = 60"
definition MAX_REPEATED_BLOCK_SECS :: u64 where "MAX_REPEATED_BLOCK_SECS = 7 * 24 * 3600"

record offence =
  off_count :: u32
  off_last :: i64

text \<open>\<open>retain\<close> computes \<open>now - last\<close> for every entry: the subtraction is checked.\<close>

fun retain_recent :: "i64 \<Rightarrow> offence str_map \<Rightarrow> offence str_map option" where
  "retain_recent now [] = Some []"
| "retain_recent now ((ip, off) # rest) =
     (case checked_i64 (now - off_last off) of
        None \<Rightarrow> None
      | Some age \<Rightarrow>
          (case retain_recent now rest of
             None \<Rightarrow> None
           | Some kept \<Rightarrow> Some (if age < OFFENCE_WINDOW_SECS then (ip, off) # kept else kept)))"

text \<open>\<^const>\<open>None\<close>: an arithmetic overflow, which panics.\<close>

definition escalate_block ::
  "offence str_map \<Rightarrow> string \<Rightarrow> u64 \<Rightarrow> i64 \<Rightarrow> (offence str_map \<times> u64 \<times> u32) option" where
  "escalate_block offences ip requested_secs now =
     (case retain_recent now offences of
        None \<Rightarrow> None
      | Some offs \<Rightarrow>
          let off = (case map_of offs ip of Some off \<Rightarrow> off
                     | None \<Rightarrow> \<lparr>off_count = 0, off_last = i64_min\<rparr>)
          in case (if off_count off = 0 then Some True
                   else map_option (\<lambda>age. SAME_OFFENCE_SECS \<le> age) (checked_i64 (now - off_last off))) of
               None \<Rightarrow> None
             | Some again \<Rightarrow>
                 (case (if again then checked_u32 (off_count off + 1) else Some (off_count off)) of
                    None \<Rightarrow> None
                  | Some number \<Rightarrow>
                      let offs' = AList.update ip \<lparr>off_count = number, off_last = now\<rparr> offs
                      in if requested_secs = 0 then Some (offs', 0, number)
                         else let factor = 2 ^ min (number - 1) 16
                              in Some (offs',
                                   min (u64_saturating_mul requested_secs factor)
                                       (max MAX_REPEATED_BLOCK_SECS requested_secs),
                                   number)))"

fun escalate_repeated_blocks ::
  "offence str_map \<Rightarrow> i64 \<Rightarrow> resolved_action list \<Rightarrow>
     (offence str_map \<times> resolved_action list) option" where
  "escalate_repeated_blocks offences now [] = Some (offences, [])"
| "escalate_repeated_blocks offences now (a # as) =
     (case a of
        BlockIp ip secs \<Rightarrow>
          (case escalate_block offences ip secs now of
             None \<Rightarrow> None
           | Some (offences', escalated, _) \<Rightarrow>
               map_option (\<lambda>(os, bs). (os, BlockIp ip escalated # bs))
                 (escalate_repeated_blocks offences' now as))
      | _ \<Rightarrow> map_option (\<lambda>(os, bs). (os, a # bs)) (escalate_repeated_blocks offences now as))"

section \<open>Evaluating a playbook\<close>

definition severity_rank :: "string \<Rightarrow> nat option" where
  "severity_rank s =
     (let v = to_ascii_lowercase (trim s)
      in if v = ''info'' then Some 0
         else if v = ''low'' then Some 1
         else if v = ''medium'' then Some 2
         else if v = ''high'' then Some 3
         else if v = ''critical'' then Some 4
         else None)"

definition playbook_triggers :: "string \<Rightarrow> nat \<Rightarrow> nat \<Rightarrow> bool" where
  "playbook_triggers opr conditions_matched total_conditions =
     (if opr = ''all'' \<or> opr = ''and'' \<or> opr = ''AND''
      then 0 < total_conditions \<and> total_conditions \<le> conditions_matched
      else 0 < conditions_matched)"

definition quoted :: "string \<Rightarrow> string" where
  "quoted s = CHR 0x27 # s @ [CHR 0x27]"

text \<open>The accumulators of the loop over the conditions.\<close>

record eval_acc =
  ea_matched :: "string list"
  ea_actions :: "resolved_action list"
  ea_confidence :: rat
  ea_count :: nat

definition eval_process :: "(string \<Rightarrow> string) \<Rightarrow> string \<Rightarrow> string \<Rightarrow> process_info \<Rightarrow> eval_acc \<Rightarrow> eval_acc" where
  "eval_process lower cv raw p acc =
     (if str_contains (lower (pi_name p)) cv
      then acc\<lparr>ea_matched := ea_matched acc @ [''Process '' @ quoted (pi_name p) @ '' matches '' @ quoted raw],
               ea_actions := ea_actions acc @ [KillProcess (pi_name p) (pi_pid p)],
               ea_confidence := f32 (ea_confidence acc + f32 (3 / 10))\<rparr>
      else acc)"

definition alert_matches :: "(string \<Rightarrow> string) \<Rightarrow> string \<Rightarrow> network_alert_info \<Rightarrow> bool" where
  "alert_matches lower cv a \<longleftrightarrow>
     str_contains (lower (na_alert_type a)) cv \<or> str_contains (lower (na_description a)) cv
     \<or> lower (na_severity a) = cv"

definition eval_alert :: "(string \<Rightarrow> string) \<Rightarrow> string \<Rightarrow> string \<Rightarrow> network_alert_info \<Rightarrow> eval_acc \<Rightarrow> eval_acc" where
  "eval_alert lower cv raw a acc =
     (if alert_matches lower cv a
      then acc\<lparr>ea_matched := ea_matched acc @ [''Network alert matches '' @ quoted raw],
               ea_actions := ea_actions acc
                 @ (case na_remote_ip a of Some ip \<Rightarrow> [BlockIp ip DEFAULT_BLOCK_SECS] | None \<Rightarrow> [])
                 @ (case na_user a of Some u \<Rightarrow> [DisableAccount u DEFAULT_ACCOUNT_LOCK_SECS] | None \<Rightarrow> []),
               ea_confidence := f32 (ea_confidence acc + f32 (3 / 10))\<rparr>
      else acc)"

definition fim_matches :: "(string \<Rightarrow> string) \<Rightarrow> string \<Rightarrow> fim_alert_info \<Rightarrow> bool" where
  "fim_matches lower cv a \<longleftrightarrow> str_contains (lower (fa_path a)) cv \<or> lower (fa_change_type a) = cv"

definition eval_fim :: "(string \<Rightarrow> string) \<Rightarrow> string \<Rightarrow> string \<Rightarrow> fim_alert_info \<Rightarrow> eval_acc \<Rightarrow> eval_acc" where
  "eval_fim lower cv raw a acc =
     (if fim_matches lower cv a
      then acc\<lparr>ea_matched := ea_matched acc @ [''FIM alert on path matching '' @ quoted raw],
               ea_actions := ea_actions acc @ [QuarantineFile (fa_path a)],
               ea_confidence := f32 (ea_confidence acc + f32 (3 / 10))\<rparr>
      else acc)"

definition reaches_severity :: "string \<Rightarrow> network_alert_info \<Rightarrow> bool" where
  "reaches_severity cv a \<longleftrightarrow>
     (case (severity_rank (na_severity a), severity_rank cv) of
        (Some actual, Some threshold) \<Rightarrow> threshold \<le> actual
      | _ \<Rightarrow> False)"

definition eval_severity :: "string \<Rightarrow> string \<Rightarrow> network_alert_info \<Rightarrow> eval_acc \<Rightarrow> eval_acc" where
  "eval_severity cv raw a acc =
     (if reaches_severity cv a
      then acc\<lparr>ea_matched := ea_matched acc @ [''Severity '' @ quoted raw @ '' matches threshold''],
               ea_confidence := f32 (ea_confidence acc + f32 (2 / 10))\<rparr>
      else acc)"

definition eval_condition ::
  "(string \<Rightarrow> string) \<Rightarrow> threat_context \<Rightarrow> playbook_condition \<Rightarrow> eval_acc \<Rightarrow> eval_acc" where
  "eval_condition lower ctx c acc =
     (let cv = lower (pc_value c); raw = pc_value c in
      if trim cv = [] \<and> condition_type c \<noteq> CvssScore then acc
      else let acc' =
             (case condition_type c of
                ProcessNameMatch \<Rightarrow> fold (eval_process lower cv raw) (suspicious_processes ctx) acc
              | NetworkAlertType \<Rightarrow> fold (eval_alert lower cv raw) (network_alerts ctx) acc
              | FimChange \<Rightarrow> fold (eval_fim lower cv raw) (fim_alerts ctx) acc
              | SeverityThreshold \<Rightarrow> fold (eval_severity cv raw) (network_alerts ctx) acc
              | CvssScore \<Rightarrow> acc)
           in if length (ea_matched acc) < length (ea_matched acc')
              then acc'\<lparr>ea_count := ea_count acc' + 1\<rparr> else acc')"

definition configured_type :: "resolved_action \<Rightarrow> playbook_action_type option" where
  "configured_type candidate =
     (case candidate of
        KillProcess _ _ \<Rightarrow> Some KillProcessAction
      | QuarantineFile _ \<Rightarrow> Some QuarantineFileAction
      | BlockIp _ _ \<Rightarrow> Some BlockIpAction
      | DisableAccount _ _ \<Rightarrow> Some DisableAccountAction
      | _ \<Rightarrow> None)"

definition authorised :: "bool \<Rightarrow> playbook_action list \<Rightarrow> resolved_action \<Rightarrow> bool" where
  "authorised actually_triggered configured candidate \<longleftrightarrow>
     actually_triggered \<and>
     list_ex (\<lambda>a. configured_type candidate = Some (action_type a)) configured"

definition configured_parameters :: "playbook_action list \<Rightarrow> playbook_action_type \<Rightarrow> string option" where
  "configured_parameters configured t =
     map_option parameters (find (\<lambda>a. action_type a = t) configured)"

text \<open>The \<open>retain_mut\<close> pass: \<open>locked\<close> and \<open>blocked\<close> list the targets seen so far.\<close>

fun dedup_targets ::
  "u64 \<Rightarrow> u64 \<Rightarrow> string list \<Rightarrow> string list \<Rightarrow> resolved_action list \<Rightarrow> resolved_action list" where
  "dedup_targets lock block locked blocked [] = []"
| "dedup_targets lock block locked blocked (a # as) =
     (case a of
        DisableAccount user _ \<Rightarrow>
          (if user \<in> set locked then [] else [DisableAccount user lock])
          @ dedup_targets lock block (locked @ [user]) blocked as
      | BlockIp ip _ \<Rightarrow>
          (if ip \<in> set blocked then [] else [BlockIp ip block])
          @ dedup_targets lock block locked (blocked @ [ip]) as
      | _ \<Rightarrow> a # dedup_targets lock block locked blocked as)"

definition command_targets :: "resolved_action list \<Rightarrow> json" where
  "command_targets actions =
     JObj [(''processes'', JArr (List.map_filter (\<lambda>a. case a of
              KillProcess n p \<Rightarrow> Some (JObj [(''name'', JStr n), (''pid'', JNum (int p))]) | _ \<Rightarrow> None) actions)),
           (''files'', JArr (List.map_filter (\<lambda>a. case a of
              QuarantineFile p \<Rightarrow> Some (JStr p) | _ \<Rightarrow> None) actions)),
           (''addresses'', JArr (List.map_filter (\<lambda>a. case a of
              BlockIp ip _ \<Rightarrow> Some (JStr ip) | _ \<Rightarrow> None) actions)),
           (''accounts'', JArr (List.map_filter (\<lambda>a. case a of
              DisableAccount u _ \<Rightarrow> Some (JStr u) | _ \<Rightarrow> None) actions))]"

text \<open>\<open>"D\'eclench\'e : "\<close> in UTF-8.\<close>

definition triggered_prefix :: string where
  "triggered_prefix = ''D'' @ [CHR 0xC3, CHR 0xA9] @ ''clench'' @ [CHR 0xC3, CHR 0xA9] @ '' : ''"

definition add_configured ::
  "string \<Rightarrow> string list \<Rightarrow> playbook_action \<Rightarrow> resolved_action list \<Rightarrow> resolved_action list" where
  "add_configured name matched configured actions =
     (case action_type configured of
        CreateNotificationAction \<Rightarrow>
          actions @ [Notify (if trim (parameters configured) = []
                             then triggered_prefix @ join_with '' ; '' matched
                             else trim (parameters configured))]
      | IsolateHostAction \<Rightarrow> actions @ [IsolateHost (isolation_duration (parameters configured))]
      | RunCommandAction \<Rightarrow>
          actions @ [RunCommand (trim (parameters configured))
            (JObj [(''playbook'', JStr name),
                   (''matched_conditions'', JArr (map JStr matched)),
                   (''targets'', command_targets actions)])]
      | SendSiemAlertAction \<Rightarrow>
          actions @ [Alert (''Playbook '' @ quoted name @ '' triggered'') ''medium''
                           (''Conditions matched: '' @ join_with '', '' matched)]
      | _ \<Rightarrow> actions)"

definition clamp01 :: "rat \<Rightarrow> rat" where
  "clamp01 x = (if x < 0 then 0 else if 1 < x then 1 else x)"

definition run_conditions ::
  "(string \<Rightarrow> string) \<Rightarrow> threat_context \<Rightarrow> playbook_condition list \<Rightarrow> eval_acc" where
  "run_conditions lower ctx cs =
     fold (eval_condition lower ctx) cs
       \<lparr>ea_matched = [], ea_actions = [], ea_confidence = 0, ea_count = 0\<rparr>"

text \<open>
  The whole of \<open>evaluate_playbook\<close>. With the \<open>llm\<close> feature the code asks a model for an
  annotation and logs it; nothing it answers reaches the result.
\<close>

definition evaluate_playbook :: "(string \<Rightarrow> string) \<Rightarrow> threat_context \<Rightarrow> playbook \<Rightarrow> playbook_evaluation" where
  "evaluate_playbook lower ctx pb =
     (if \<not> pb_enabled pb
      then \<lparr>pe_playbook_id = pb_id pb, pe_playbook_name = pb_name pb, triggered = False,
            matched_conditions = [], confidence = 0, pe_actions = []\<rparr>
      else
        let acc = run_conditions lower ctx (pb_conditions pb);
            opr = (case pb_conditions pb of [] \<Rightarrow> ''any'' | c # _ \<Rightarrow> operator c);
            fired = playbook_triggers opr (ea_count acc) (length (pb_conditions pb));
            kept = filter (authorised fired (pb_actions pb)) (ea_actions acc);
            lock_secs = map_option account_lock_duration
              (configured_parameters (pb_actions pb) DisableAccountAction);
            block_secs = map_option block_duration (configured_parameters (pb_actions pb) BlockIpAction);
            targets = dedup_targets (unwrap_or lock_secs DEFAULT_ACCOUNT_LOCK_SECS)
                        (unwrap_or block_secs DEFAULT_BLOCK_SECS) [] [] kept;
            actions = (if fired
              then fold (add_configured (pb_name pb) (ea_matched acc)) (pb_actions pb) targets
              else targets)
        in \<lparr>pe_playbook_id = pb_id pb, pe_playbook_name = pb_name pb, triggered = fired,
            matched_conditions = ea_matched acc, confidence = clamp01 (ea_confidence acc),
            pe_actions = actions\<rparr>)"

end
