(* ===== verification/Playbook_Run.thy ===== *)
theory Playbook_Run imports Playbook begin

text \<open>
  Running the actions of a playbook (\<open>run_playbook_actions\<close> and its two front ends in
  \<open>crates/agent-core/src/playbook_engine.rs\<close>): target validation, the destructive-action
  limit, simulation, delivery and the audit trail.

  A call to another component is an \<open>edr_call\<close>; \<open>perform\<close> is what those components do with it,
  on a world of any type, answering \<^const>\<open>None\<close> for \<open>Ok\<close> and the error text otherwise.
\<close>

section \<open>Checks before an action\<close>

definition MAX_DESTRUCTIVE_ACTIONS_PER_RUN :: nat where
  "MAX_DESTRUCTIVE_ACTIONS_PER_RUN = 10"

fun is_destructive :: "resolved_action \<Rightarrow> bool" where
  "is_destructive (KillProcess _ _) = True"
| "is_destructive (QuarantineFile _) = True"
| "is_destructive (BlockIp _ _) = True"
| "is_destructive (IsolateHost _) = True"
| "is_destructive (DisableAccount _ _) = True"
| "is_destructive (RunCommand _ _) = True"
| "is_destructive (Alert _ _ _) = False"
| "is_destructive (Notify _) = False"

text \<open>\<open>crates/agent-core/src/edr_actions/response_command.rs\<close>\<close>

definition is_command_name :: "string \<Rightarrow> bool" where
  "is_command_name name \<longleftrightarrow>
     name \<noteq> [] \<and> length name \<le> 64 \<and>
     list_all (\<lambda>c. is_ascii_lowercase c \<or> is_ascii_digit c \<or> c = CHR ''-'' \<or> c = CHR ''_'') name"

definition is_account_name :: "string \<Rightarrow> bool" where
  "is_account_name user \<longleftrightarrow>
     user \<noteq> [] \<and> length user \<le> 64 \<and> \<not> prefix ''-'' user \<and>
     list_all (\<lambda>c. is_ascii_alphanumeric c \<or> c = CHR ''.'' \<or> c = CHR ''_'' \<or> c = CHR ''-'') user"

text \<open>\<^const>\<open>None\<close>: the target is accepted; otherwise the reason it is refused.\<close>

definition validate_target :: "(string \<Rightarrow> bool) \<Rightarrow> (string \<Rightarrow> bool) \<Rightarrow> resolved_action \<Rightarrow> string option" where
  "validate_target parse_ip absolute action =
     (case action of
        KillProcess name pid \<Rightarrow>
          if pid = 0 \<or> pid = 1
          then Some (''refusing reserved PID '' @ show_nat pid @ '' (target '' @ quoted name @ '')'')
          else None
      | QuarantineFile path \<Rightarrow>
          if trim path = [] then Some ''refusing empty quarantine path''
          else if \<not> absolute path
          then Some (''refusing relative quarantine path '' @ quoted path
                @ '': target is ambiguous and depends on the agent''
                @ [CHR 0x27] @ ''s working directory'')
          else None
      | BlockIp ip _ \<Rightarrow>
          if \<not> parse_ip ip then Some (''refusing malformed IP '' @ quoted ip) else None
      | DisableAccount user _ \<Rightarrow>
          if is_account_name user then None
          else Some (''refusing '' @ quoted user @ '': not an account name'')
      | RunCommand name _ \<Rightarrow>
          if is_command_name name then None
          else Some (''refusing '' @ quoted name
                @ '': a playbook names a response command, it does not carry one'')
      | _ \<Rightarrow> None)"

definition describe :: "resolved_action \<Rightarrow> string" where
  "describe action =
     (case action of
        KillProcess name pid \<Rightarrow> ''Kill process '' @ name @ '' (PID '' @ show_nat pid @ '')''
      | QuarantineFile path \<Rightarrow> ''Quarantine '' @ path
      | BlockIp ip _ \<Rightarrow> ''Block IP '' @ ip
      | IsolateHost secs \<Rightarrow>
          if secs = 0 then ''Isolate host until released''
          else ''Isolate host for '' @ show_nat secs @ ''s''
      | DisableAccount user secs \<Rightarrow>
          if secs = 0 then ''Lock account '' @ user @ '' until unlocked''
          else ''Lock account '' @ user @ '' for '' @ show_nat secs @ ''s''
      | RunCommand name _ \<Rightarrow> ''Run response command '' @ quoted name
      | Alert title _ _ \<Rightarrow> ''Alert: '' @ title
      | Notify message \<Rightarrow> ''Notify: '' @ message)"

section \<open>The response layer\<close>

datatype edr_call =
    EdrKill string u32
  | EdrQuarantine string
  | EdrBlock string u64
  | EdrIsolate string u64
  | EdrDisable string u64
  | EdrCommand string json
  | SiemRequired string string nat string   \<comment> \<open>title, description, severity, playbook\<close>
  | SiemRecord string string                \<comment> \<open>playbook, message\<close>
  | SiemSend string string                  \<comment> \<open>playbook, message\<close>
  | GuiNotify string string                 \<comment> \<open>playbook, message\<close>
  | AuditLog string string bool "string option" \<comment> \<open>playbook, action, success, error\<close>

type_synonym 'w response_layer = "edr_call \<Rightarrow> 'w \<Rightarrow> string option \<times> 'w"

text \<open>
  Where notifications and SIEM records can go: whether the interface is connected, and the SIEM
  forwarder when there is one, with whether it is enabled.
\<close>

record delivery =
  dl_notifications :: bool
  dl_siem :: "bool option"

definition dispatch ::
  "'w response_layer \<Rightarrow> delivery \<Rightarrow> string \<Rightarrow> resolved_action \<Rightarrow> 'w \<Rightarrow> string option \<times> 'w" where
  "dispatch perform dl name action w =
     (case action of
        KillProcess n pid \<Rightarrow> perform (EdrKill n pid) w
      | QuarantineFile path \<Rightarrow> perform (EdrQuarantine path) w
      | BlockIp ip secs \<Rightarrow> perform (EdrBlock ip secs) w
      | IsolateHost secs \<Rightarrow> perform (EdrIsolate (''Playbook '' @ quoted name) secs) w
      | DisableAccount user secs \<Rightarrow> perform (EdrDisable user secs) w
      | RunCommand n ctx \<Rightarrow> perform (EdrCommand n ctx) w
      | Alert title sev descr \<Rightarrow>
          (case dl_siem dl of
             Some _ \<Rightarrow> perform (SiemRequired title descr (unwrap_or (severity_rank sev) 2 * 2 + 1) name) w
           | None \<Rightarrow> (Some ''No SIEM delivery destination configured'', w))
      | Notify message \<Rightarrow>
          if dl_notifications dl then perform (GuiNotify name message) w
          else (case dl_siem dl of
             Some enabled \<Rightarrow>
               let (_, w1) = perform (SiemRecord name message) w;
                   w2 = (if enabled then snd (perform (SiemSend name message) w1) else w1)
               in (None, w2)
           | None \<Rightarrow> (Some ''No notification delivery destination configured'', w)))"

definition SIMULATION_PREFIX :: string where
  "SIMULATION_PREFIX = ''[Simulation] ''"

record run_params =
  rp_parse_ip :: "string \<Rightarrow> bool"
  rp_absolute :: "string \<Rightarrow> bool"
  rp_debug :: "resolved_action \<Rightarrow> string"
  rp_name :: string
  rp_audit :: bool
  rp_delivery :: delivery
  rp_simulate :: bool

definition rejected :: "run_params \<Rightarrow> resolved_action \<Rightarrow> string \<Rightarrow> action_result" where
  "rejected rp a reason =
     \<lparr>ar_action = rp_debug rp a, ar_success = False,
      ar_error = Some (''Rejected by target validation: '' @ reason)\<rparr>"

definition over_limit :: "run_params \<Rightarrow> resolved_action \<Rightarrow> action_result" where
  "over_limit rp a =
     \<lparr>ar_action = rp_debug rp a, ar_success = False,
      ar_error = Some (''Refused: playbook exceeded the ''
        @ show_nat MAX_DESTRUCTIVE_ACTIONS_PER_RUN
        @ '' destructive-action limit for a single run'')\<rparr>"

text \<open>One action that passed the checks: run or simulated, then audited.\<close>

definition run_one ::
  "'w response_layer \<Rightarrow> run_params \<Rightarrow> resolved_action \<Rightarrow> 'w \<Rightarrow> action_result \<times> 'w" where
  "run_one perform rp a w =
     (let (outcome, w1) = (if rp_simulate rp then (None, w)
                           else dispatch perform (rp_delivery rp) (rp_name rp) a w);
          label = (if rp_simulate rp then SIMULATION_PREFIX @ describe a else describe a);
          result = \<lparr>ar_action = label, ar_success = (outcome = None), ar_error = outcome\<rparr>;
          w2 = (if rp_audit rp
                then snd (perform (AuditLog (rp_name rp) label (outcome = None) outcome) w1) else w1)
      in (result, w2))"

fun run_loop ::
  "'w response_layer \<Rightarrow> run_params \<Rightarrow> nat \<Rightarrow> resolved_action list \<Rightarrow> 'w \<Rightarrow> action_result list \<times> 'w" where
  "run_loop perform rp done_count [] w = ([], w)"
| "run_loop perform rp done_count (a # as) w =
     (case validate_target (rp_parse_ip rp) (rp_absolute rp) a of
        Some reason \<Rightarrow>
          (let (rs, w') = run_loop perform rp done_count as w in (rejected rp a reason # rs, w'))
      | None \<Rightarrow>
          (let n = (if is_destructive a then done_count + 1 else done_count) in
           if is_destructive a \<and> MAX_DESTRUCTIVE_ACTIONS_PER_RUN < n
           then (let (rs, w') = run_loop perform rp n as w in (over_limit rp a # rs, w'))
           else (let (r, w1) = run_one perform rp a w;
                     (rs, w') = run_loop perform rp n as w1
                 in (r # rs, w'))))"

definition run_playbook_actions ::
  "'w response_layer \<Rightarrow> run_params \<Rightarrow> resolved_action list \<Rightarrow> 'w \<Rightarrow> action_result list \<times> 'w" where
  "run_playbook_actions perform rp actions w = run_loop perform rp 0 actions w"

definition simulate_playbook_actions ::
  "'w response_layer \<Rightarrow> run_params \<Rightarrow> resolved_action list \<Rightarrow> 'w \<Rightarrow> action_result list \<times> 'w" where
  "simulate_playbook_actions perform rp actions w =
     run_playbook_actions perform
       (rp\<lparr>rp_delivery := \<lparr>dl_notifications = False, dl_siem = None\<rparr>, rp_simulate := True\<rparr>) actions w"

definition execute_playbook_actions_with_delivery ::
  "'w response_layer \<Rightarrow> run_params \<Rightarrow> resolved_action list \<Rightarrow> 'w \<Rightarrow> action_result list \<times> 'w" where
  "execute_playbook_actions_with_delivery perform rp actions w =
     run_playbook_actions perform (rp\<lparr>rp_simulate := False\<rparr>) actions w"

section \<open>Which actions a run lets through\<close>

text \<open>
  The specification: an action is let through when its target is valid and, if it is
  destructive, fewer than ten destructive ones were let through before it.
\<close>

definition valid :: "run_params \<Rightarrow> resolved_action \<Rightarrow> bool" where
  "valid rp a \<longleftrightarrow> validate_target (rp_parse_ip rp) (rp_absolute rp) a = None"

fun let_through :: "run_params \<Rightarrow> nat \<Rightarrow> resolved_action list \<Rightarrow> resolved_action list" where
  "let_through rp n [] = []"
| "let_through rp n (a # as) =
     (if \<not> valid rp a then let_through rp n as
      else if \<not> is_destructive a then a # let_through rp n as
      else if n < MAX_DESTRUCTIVE_ACTIONS_PER_RUN then a # let_through rp (Suc n) as
      else let_through rp (Suc n) as)"

definition run_effect :: "'w response_layer \<Rightarrow> run_params \<Rightarrow> resolved_action \<Rightarrow> 'w \<Rightarrow> 'w" where
  "run_effect perform rp a w = snd (run_one perform rp a w)"

lemma let_through_subset: "set (let_through rp n as) \<subseteq> {a \<in> set as. valid rp a}"
  by (induction as arbitrary: n) auto

lemma let_through_cap:
  "length (filter is_destructive (let_through rp n as)) \<le> MAX_DESTRUCTIVE_ACTIONS_PER_RUN - n"
proof (induction as arbitrary: n)
  case (Cons a as)
  show ?case using Cons [of n] Cons [of "Suc n"] by auto
qed simp

lemma let_through_keeps_harmless:
  "filter (\<lambda>a. \<not> is_destructive a) (let_through rp n as)
     = filter (\<lambda>a. valid rp a \<and> \<not> is_destructive a) as"
  by (induction as arbitrary: n) auto

text \<open>The engine hands exactly the actions let through to the response layer, in order.\<close>

lemma run_loop_world:
  "snd (run_loop perform rp n as w) = fold (run_effect perform rp) (let_through rp n as) w"
  by (induction as arbitrary: n w)
     (auto simp: valid_def run_effect_def Let_def case_prod_beta split: option.splits)

lemma run_loop_length: "length (fst (run_loop perform rp n as w)) = length as"
  by (induction as arbitrary: n w) (auto simp: Let_def case_prod_beta split: option.splits)

end
