(* ===== verification/Playbook_Props.thy ===== *)
theory Playbook_Props imports Playbook_Run begin

text \<open>
  What the playbook engine guarantees: when a playbook fires, which targets its actions may
  name, how long a repeated offender is blocked, and what a run hands to the response layer.
\<close>

section \<open>Helper facts about the evaluation loops\<close>

lemma fold_guard: "fold (\<lambda>x acc. if P x then g x acc else acc) xs acc = fold g (filter P xs) acc"
  by (induction xs arbitrary: acc) auto

text \<open>One matching entity, with what it pushes.\<close>

definition note_match :: "string \<Rightarrow> resolved_action list \<Rightarrow> rat \<Rightarrow> eval_acc \<Rightarrow> eval_acc" where
  "note_match msg acts conf acc =
     acc\<lparr>ea_matched := ea_matched acc @ [msg], ea_actions := ea_actions acc @ acts,
         ea_confidence := f32 (ea_confidence acc + conf)\<rparr>"

definition alert_actions :: "network_alert_info \<Rightarrow> resolved_action list" where
  "alert_actions a =
     (case na_remote_ip a of Some ip \<Rightarrow> [BlockIp ip DEFAULT_BLOCK_SECS] | None \<Rightarrow> [])
     @ (case na_user a of Some u \<Rightarrow> [DisableAccount u DEFAULT_ACCOUNT_LOCK_SECS] | None \<Rightarrow> [])"

lemma eval_steps:
  "eval_process lower cv raw = (\<lambda>p acc. if str_contains (lower (pi_name p)) cv
     then note_match (''Process '' @ quoted (pi_name p) @ '' matches '' @ quoted raw)
            [KillProcess (pi_name p) (pi_pid p)] (f32 (3 / 10)) acc else acc)"
  "eval_alert lower cv raw = (\<lambda>a acc. if alert_matches lower cv a
     then note_match (''Network alert matches '' @ quoted raw) (alert_actions a) (f32 (3 / 10)) acc else acc)"
  "eval_fim lower cv raw = (\<lambda>a acc. if fim_matches lower cv a
     then note_match (''FIM alert on path matching '' @ quoted raw)
            [QuarantineFile (fa_path a)] (f32 (3 / 10)) acc else acc)"
  "eval_severity cv raw = (\<lambda>a acc. if reaches_severity cv a
     then note_match (''Severity '' @ quoted raw @ '' matches threshold'') [] (f32 (2 / 10)) acc else acc)"
  by (auto simp: fun_eq_iff eval_process_def eval_alert_def eval_fim_def eval_severity_def
      note_match_def alert_actions_def)

lemma fold_note_match:
  "length (ea_matched (fold (\<lambda>x. note_match (m x) (f x) c) xs acc)) = length (ea_matched acc) + length xs"
  "ea_actions (fold (\<lambda>x. note_match (m x) (f x) c) xs acc) = ea_actions acc @ concat (map f xs)"
  "ea_count (fold (\<lambda>x. note_match (m x) (f x) c) xs acc) = ea_count acc"
  by (induction xs arbitrary: acc) (simp_all add: note_match_def)

text \<open>The entities a condition matches, and the candidate actions they give.\<close>

definition blank :: "(string \<Rightarrow> string) \<Rightarrow> playbook_condition \<Rightarrow> bool" where
  "blank lower c \<longleftrightarrow> trim (lower (pc_value c)) = []"

definition condition_matches :: "(string \<Rightarrow> string) \<Rightarrow> threat_context \<Rightarrow> playbook_condition \<Rightarrow> bool" where
  "condition_matches lower ctx c \<longleftrightarrow> \<not> blank lower c \<and>
     (case condition_type c of
        ProcessNameMatch \<Rightarrow> list_ex (\<lambda>p. str_contains (lower (pi_name p)) (lower (pc_value c))) (suspicious_processes ctx)
      | NetworkAlertType \<Rightarrow> list_ex (alert_matches lower (lower (pc_value c))) (network_alerts ctx)
      | FimChange \<Rightarrow> list_ex (fim_matches lower (lower (pc_value c))) (fim_alerts ctx)
      | SeverityThreshold \<Rightarrow> list_ex (reaches_severity (lower (pc_value c))) (network_alerts ctx)
      | CvssScore \<Rightarrow> False)"

definition candidates :: "(string \<Rightarrow> string) \<Rightarrow> threat_context \<Rightarrow> playbook_condition \<Rightarrow> resolved_action list" where
  "candidates lower ctx c =
     (if blank lower c then []
      else case condition_type c of
        ProcessNameMatch \<Rightarrow> map (\<lambda>p. KillProcess (pi_name p) (pi_pid p))
          (filter (\<lambda>p. str_contains (lower (pi_name p)) (lower (pc_value c))) (suspicious_processes ctx))
      | NetworkAlertType \<Rightarrow> concat (map alert_actions (filter (alert_matches lower (lower (pc_value c))) (network_alerts ctx)))
      | FimChange \<Rightarrow> map (\<lambda>a. QuarantineFile (fa_path a)) (filter (fim_matches lower (lower (pc_value c))) (fim_alerts ctx))
      | _ \<Rightarrow> [])"

lemma concat_map_single: "concat (map (\<lambda>x. [f x]) xs) = map f xs"
  by (induction xs) auto

lemma list_ex_filter_iff: "list_ex P xs \<longleftrightarrow> filter P xs \<noteq> []"
  by (auto simp: list_ex_iff filter_empty_conv)

lemma eval_condition_spec:
  "ea_count (eval_condition lower ctx c acc)
     = ea_count acc + (if condition_matches lower ctx c then 1 else 0)"
  "ea_actions (eval_condition lower ctx c acc) = ea_actions acc @ candidates lower ctx c"
  by (cases "condition_type c";
      simp add: eval_condition_def eval_steps fold_guard fold_note_match Let_def blank_def
        condition_matches_def candidates_def concat_map_single list_ex_filter_iff)+

lemma run_conditions_spec:
  "ea_count (run_conditions lower ctx cs) = length (filter (condition_matches lower ctx) cs)"
  "ea_actions (run_conditions lower ctx cs) = concat (map (candidates lower ctx) cs)"
proof -
  have "ea_count (fold (eval_condition lower ctx) cs acc)
      = ea_count acc + length (filter (condition_matches lower ctx) cs)"
    and "ea_actions (fold (eval_condition lower ctx) cs acc)
      = ea_actions acc @ concat (map (candidates lower ctx) cs)" for acc
    by (induction cs arbitrary: acc) (simp_all add: eval_condition_spec)
  then show "ea_count (run_conditions lower ctx cs) = length (filter (condition_matches lower ctx) cs)"
    and "ea_actions (run_conditions lower ctx cs) = concat (map (candidates lower ctx) cs)"
    by (simp_all add: run_conditions_def)
qed

lemma all_filter_length: "length xs \<le> length (filter P xs) \<longleftrightarrow> list_all P xs"
  by (metis filter_True filter_id_conv length_filter_le length_filter_less linorder_not_le list_all_iff order.refl)

section \<open>When a playbook fires\<close>

definition conjunctive :: "playbook_condition list \<Rightarrow> bool" where
  "conjunctive cs \<longleftrightarrow> cs \<noteq> [] \<and> operator (hd cs) \<in> {''all'', ''and'', ''AND''}"

text \<open>C1: An enabled playbook fires exactly when, under the operator of its first condition,
  all of its conditions (distinct conditions, not matched entities) or at least one of them
  matches something in the threat context; a blank condition and a CVSS condition match nothing,
  and a disabled playbook never fires.\<close>

theorem evaluate_playbook_triggered:
  "triggered (evaluate_playbook lower ctx pb) \<longleftrightarrow>
     pb_enabled pb \<and>
     (if conjunctive (pb_conditions pb)
      then list_all (condition_matches lower ctx) (pb_conditions pb)
      else list_ex (condition_matches lower ctx) (pb_conditions pb))"
proof (cases "pb_conditions pb")
  case Nil
  then show ?thesis
    by (simp add: evaluate_playbook_def Let_def run_conditions_spec conjunctive_def playbook_triggers_def)
next
  case (Cons c cs)
  let ?cs = "pb_conditions pb"
  have "playbook_triggers (operator c) (length (filter (condition_matches lower ctx) ?cs)) (length ?cs) \<longleftrightarrow>
      (if conjunctive ?cs then list_all (condition_matches lower ctx) ?cs
       else list_ex (condition_matches lower ctx) ?cs)"
    using Cons all_filter_length [of ?cs "condition_matches lower ctx"]
    by (auto simp: conjunctive_def playbook_triggers_def list_ex_filter_iff)
  with Cons show ?thesis
    by (simp add: evaluate_playbook_def Let_def run_conditions_spec)
qed

section \<open>Which targets the actions name\<close>

text \<open>An action's target was reported by the detections; the others have no target.\<close>

definition grounded :: "threat_context \<Rightarrow> resolved_action \<Rightarrow> bool" where
  "grounded ctx a =
     (case a of
        KillProcess n p \<Rightarrow> list_ex (\<lambda>q. pi_name q = n \<and> pi_pid q = p) (suspicious_processes ctx)
      | QuarantineFile f \<Rightarrow> list_ex (\<lambda>q. fa_path q = f) (fim_alerts ctx)
      | BlockIp ip _ \<Rightarrow> list_ex (\<lambda>q. na_remote_ip q = Some ip) (network_alerts ctx)
      | DisableAccount u _ \<Rightarrow> list_ex (\<lambda>q. na_user q = Some u) (network_alerts ctx)
      | _ \<Rightarrow> True)"

definition required_type :: "resolved_action \<Rightarrow> playbook_action_type" where
  "required_type a =
     (case a of KillProcess _ _ \<Rightarrow> KillProcessAction | QuarantineFile _ \<Rightarrow> QuarantineFileAction
      | BlockIp _ _ \<Rightarrow> BlockIpAction | DisableAccount _ _ \<Rightarrow> DisableAccountAction
      | IsolateHost _ \<Rightarrow> IsolateHostAction | RunCommand _ _ \<Rightarrow> RunCommandAction
      | Alert _ _ _ \<Rightarrow> SendSiemAlertAction | Notify _ \<Rightarrow> CreateNotificationAction)"

lemma configured_type_required: "configured_type a = Some t \<Longrightarrow> required_type a = t"
  by (cases a) (auto simp: configured_type_def required_type_def)

lemma candidates_grounded: "a \<in> set (candidates lower ctx c) \<Longrightarrow> grounded ctx a"
  by (cases "condition_type c")
     (auto simp: candidates_def grounded_def alert_actions_def list_ex_iff split: if_splits option.splits)

lemma dedup_targets_source:
  "a \<in> set (dedup_targets l b locked blocked as) \<Longrightarrow>
     \<exists>a'\<in>set as. grounded ctx a' = grounded ctx a \<and> required_type a' = required_type a"
proof (induction as arbitrary: locked blocked)
  case (Cons x xs)
  then show ?case
    by (cases x) (auto simp: grounded_def required_type_def split: if_splits)
qed simp

lemma add_configured_new:
  "a \<in> set (add_configured name m pa actions) \<Longrightarrow>
     a \<in> set actions \<or> (grounded ctx a \<and> action_type pa = required_type a)"
  by (auto simp: add_configured_def grounded_def required_type_def split: playbook_action_type.splits)

lemma fold_add_configured:
  "a \<in> set (fold (add_configured name m) pas actions) \<Longrightarrow>
     a \<in> set actions \<or> (grounded ctx a \<and> (\<exists>pa\<in>set pas. action_type pa = required_type a))"
proof (induction pas arbitrary: actions)
  case (Cons pa pas)
  then show ?case using add_configured_new [of a name m pa actions ctx] by fastforce
qed simp

text \<open>C2: Every action an evaluation returns is authorised: the playbook is enabled and fired,
  one of its configured actions has the type of that action (a notification-only playbook never
  kills, quarantines, blocks or locks), and the process, file, address or account it names was
  reported by a detection of the threat context.\<close>

theorem evaluate_playbook_authorised:
  assumes "a \<in> set (pe_actions (evaluate_playbook lower ctx pb))"
  shows "pb_enabled pb \<and> triggered (evaluate_playbook lower ctx pb) \<and> grounded ctx a \<and>
     (\<exists>pa\<in>set (pb_actions pb). action_type pa = required_type a)"
proof -
  define acc where "acc = run_conditions lower ctx (pb_conditions pb)"
  define fired where "fired = triggered (evaluate_playbook lower ctx pb)"
  define kept where "kept = filter (authorised fired (pb_actions pb)) (ea_actions acc)"
  define l where "l = unwrap_or (map_option account_lock_duration
      (configured_parameters (pb_actions pb) DisableAccountAction)) DEFAULT_ACCOUNT_LOCK_SECS"
  define b where "b = unwrap_or (map_option block_duration
      (configured_parameters (pb_actions pb) BlockIpAction)) DEFAULT_BLOCK_SECS"
  define targets where "targets = dedup_targets l b [] [] kept"
  have en: "pb_enabled pb" using assms by (auto simp: evaluate_playbook_def split: if_splits)
  have eq: "pe_actions (evaluate_playbook lower ctx pb)
      = (if fired then fold (add_configured (pb_name pb) (ea_matched acc)) (pb_actions pb) targets
         else targets)"
    using en by (simp add: evaluate_playbook_def Let_def acc_def kept_def l_def b_def targets_def fired_def)
  have kept_ok: "fired \<and> grounded ctx x \<and> (\<exists>pa\<in>set (pb_actions pb). action_type pa = required_type x)"
    if "x \<in> set kept" for x
    using that candidates_grounded [of x lower ctx]
    by (auto simp: kept_def authorised_def acc_def run_conditions_spec list_ex_iff dest!: configured_type_required)
  have targets_ok: "fired \<and> grounded ctx x \<and> (\<exists>pa\<in>set (pb_actions pb). action_type pa = required_type x)"
    if "x \<in> set targets" for x
    using dedup_targets_source [of x l b "[]" "[]" kept ctx] that kept_ok unfolding targets_def by metis
  show ?thesis
  proof (cases fired)
    case True
    with assms eq have "a \<in> set (fold (add_configured (pb_name pb) (ea_matched acc)) (pb_actions pb) targets)"
      by simp
    from fold_add_configured [OF this, of ctx] True targets_ok en fired_def show ?thesis by blast
  next
    case False
    with assms eq targets_ok show ?thesis by auto
  qed
qed


section \<open>Addresses and accounts are acted on once, for the configured time\<close>

definition blocks :: "resolved_action list \<Rightarrow> (string \<times> u64) list" where
  "blocks = List.map_filter (\<lambda>a. case a of BlockIp ip d \<Rightarrow> Some (ip, d) | _ \<Rightarrow> None)"

definition locks :: "resolved_action list \<Rightarrow> (string \<times> u64) list" where
  "locks = List.map_filter (\<lambda>a. case a of DisableAccount u d \<Rightarrow> Some (u, d) | _ \<Rightarrow> None)"

lemma blocks_simps [simp]:
  "blocks [] = []"
  "blocks (a # as) = (case a of BlockIp ip d \<Rightarrow> (ip, d) # blocks as | _ \<Rightarrow> blocks as)"
  "blocks (as @ bs) = blocks as @ blocks bs"
  by (simp_all add: blocks_def map_filter_simps List.map_filter_def split: resolved_action.split)

lemma locks_simps [simp]:
  "locks [] = []"
  "locks (a # as) = (case a of DisableAccount u d \<Rightarrow> (u, d) # locks as | _ \<Rightarrow> locks as)"
  "locks (as @ bs) = locks as @ locks bs"
  by (simp_all add: locks_def map_filter_simps List.map_filter_def split: resolved_action.split)

lemma blocks_dedup:
  "set (map fst (blocks (dedup_targets l b locked blocked as))) = set (map fst (blocks as)) - set blocked
   \<and> distinct (map fst (blocks (dedup_targets l b locked blocked as)))
   \<and> set (map snd (blocks (dedup_targets l b locked blocked as))) \<subseteq> {b}"
proof (induction as arbitrary: locked blocked)
  case (Cons a as)
  then show ?case by (cases a) (force split: if_splits)+
qed simp

lemma locks_dedup:
  "set (map fst (locks (dedup_targets l b locked blocked as))) = set (map fst (locks as)) - set locked
   \<and> distinct (map fst (locks (dedup_targets l b locked blocked as)))
   \<and> set (map snd (locks (dedup_targets l b locked blocked as))) \<subseteq> {l}"
proof (induction as arbitrary: locked blocked)
  case (Cons a as)
  then show ?case by (cases a) (force split: if_splits)+
qed simp

lemma add_configured_targets:
  "blocks (fold (add_configured name m) pas actions) = blocks actions"
  "locks (fold (add_configured name m) pas actions) = locks actions"
proof -
  have one: "blocks (add_configured name m pa as) = blocks as"
    "locks (add_configured name m pa as) = locks as" for pa as
    by (simp_all add: add_configured_def split: playbook_action_type.split)
  show "blocks (fold (add_configured name m) pas actions) = blocks actions"
    and "locks (fold (add_configured name m) pas actions) = locks actions"
    by (induction pas arbitrary: actions) (simp_all add: one)
qed

text \<open>The time a playbook asks for: the parameter of its first action of the type.\<close>

definition block_secs_of :: "playbook \<Rightarrow> u64" where
  "block_secs_of pb = unwrap_or (map_option block_duration
     (configured_parameters (pb_actions pb) BlockIpAction)) DEFAULT_BLOCK_SECS"

definition lock_secs_of :: "playbook \<Rightarrow> u64" where
  "lock_secs_of pb = unwrap_or (map_option account_lock_duration
     (configured_parameters (pb_actions pb) DisableAccountAction)) DEFAULT_ACCOUNT_LOCK_SECS"

definition has_action :: "playbook \<Rightarrow> playbook_action_type \<Rightarrow> bool" where
  "has_action pb t \<longleftrightarrow> list_ex (\<lambda>pa. action_type pa = t) (pb_actions pb)"

text \<open>The matching alerts: those some condition on the alert type matches.\<close>

definition matching_alerts :: "(string \<Rightarrow> string) \<Rightarrow> threat_context \<Rightarrow> playbook \<Rightarrow> network_alert_info list" where
  "matching_alerts lower ctx pb =
     concat (map (\<lambda>c. filter (alert_matches lower (lower (pc_value c))) (network_alerts ctx))
       (filter (\<lambda>c. condition_type c = NetworkAlertType \<and> \<not> blank lower c) (pb_conditions pb)))"

lemma concat_blocks: "set (map fst (blocks (concat (map f xs)))) = (\<Union>x\<in>set xs. set (map fst (blocks (f x))))"
  by (induction xs) auto

lemma concat_locks: "set (map fst (locks (concat (map f xs)))) = (\<Union>x\<in>set xs. set (map fst (locks (f x))))"
  by (induction xs) auto

lemma blocks_map_kill [simp]: "blocks (map (\<lambda>p. KillProcess (f p) (g p)) xs) = []"
  "locks (map (\<lambda>p. KillProcess (f p) (g p)) xs) = []"
  "blocks (map (\<lambda>p. QuarantineFile (h p)) ys) = []"
  "locks (map (\<lambda>p. QuarantineFile (h p)) ys) = []"
  by (induction xs) (simp, simp, induction ys, simp_all, induction ys, simp_all)

lemma candidates_targets:
  "set (map fst (blocks (candidates lower ctx c))) =
     {ip. condition_type c = NetworkAlertType \<and> \<not> blank lower c \<and>
          (\<exists>a\<in>set (network_alerts ctx). alert_matches lower (lower (pc_value c)) a \<and> na_remote_ip a = Some ip)}"
  "set (map fst (locks (candidates lower ctx c))) =
     {u. condition_type c = NetworkAlertType \<and> \<not> blank lower c \<and>
          (\<exists>a\<in>set (network_alerts ctx). alert_matches lower (lower (pc_value c)) a \<and> na_user a = Some u)}"
  by (cases "condition_type c";
      auto simp: candidates_def concat_blocks concat_locks alert_actions_def
        simp del: map_map set_map split: option.splits)+

lemma blocks_filter_authorised:
  "blocks (filter (authorised fired pas) as)
     = (if fired \<and> list_ex (\<lambda>a. action_type a = BlockIpAction) pas then blocks as else [])"
  "locks (filter (authorised fired pas) as)
     = (if fired \<and> list_ex (\<lambda>a. action_type a = DisableAccountAction) pas then locks as else [])"
proof (induction as)
  case (Cons a as)
  { case 1 show ?case using Cons by (cases a) (auto simp: authorised_def configured_type_def list_ex_iff) }
  { case 2 show ?case using Cons by (cases a) (auto simp: authorised_def configured_type_def list_ex_iff) }
qed simp_all


lemma evaluate_targets:
  assumes "triggered (evaluate_playbook lower ctx pb)"
  defines "kept \<equiv> filter (authorised True (pb_actions pb))
    (concat (map (candidates lower ctx) (pb_conditions pb)))"
  shows "blocks (pe_actions (evaluate_playbook lower ctx pb))
           = blocks (dedup_targets (lock_secs_of pb) (block_secs_of pb) [] [] kept)"
    and "locks (pe_actions (evaluate_playbook lower ctx pb))
           = locks (dedup_targets (lock_secs_of pb) (block_secs_of pb) [] [] kept)"
proof -
  have en: "pb_enabled pb" using assms(1) by (auto simp: evaluate_playbook_def split: if_splits)
  with assms(1) have "pe_actions (evaluate_playbook lower ctx pb) =
      fold (add_configured (pb_name pb) (ea_matched (run_conditions lower ctx (pb_conditions pb))))
        (pb_actions pb) (dedup_targets (lock_secs_of pb) (block_secs_of pb) [] [] kept)"
    by (simp add: evaluate_playbook_def Let_def kept_def run_conditions_spec lock_secs_of_def block_secs_of_def)
  then show "blocks (pe_actions (evaluate_playbook lower ctx pb))
           = blocks (dedup_targets (lock_secs_of pb) (block_secs_of pb) [] [] kept)"
    and "locks (pe_actions (evaluate_playbook lower ctx pb))
           = locks (dedup_targets (lock_secs_of pb) (block_secs_of pb) [] [] kept)"
    by (simp_all add: add_configured_targets)
qed

text \<open>When a playbook fires, the addresses it blocks are exactly the remote addresses of the
  alerts its conditions match (none when it has no block action), each once and for the time its
  first block action asks for; the same holds of the accounts it locks.\<close>

theorem evaluate_playbook_targets:
  assumes "triggered (evaluate_playbook lower ctx pb)"
  defines "acts \<equiv> pe_actions (evaluate_playbook lower ctx pb)"
  shows "set (map fst (blocks acts)) = (if has_action pb BlockIpAction
           then {ip. \<exists>a\<in>set (matching_alerts lower ctx pb). na_remote_ip a = Some ip} else {})
    \<and> (distinct (map fst (blocks acts)) \<and> set (map snd (blocks acts)) \<subseteq> {block_secs_of pb})
    \<and> set (map fst (locks acts)) = (if has_action pb DisableAccountAction
           then {u. \<exists>a\<in>set (matching_alerts lower ctx pb). na_user a = Some u} else {})
    \<and> (distinct (map fst (locks acts)) \<and> set (map snd (locks acts)) \<subseteq> {lock_secs_of pb})"
proof -
  note ev = evaluate_targets [OF assms(1), folded acts_def]
  let ?k = "filter (authorised True (pb_actions pb)) (concat (map (candidates lower ctx) (pb_conditions pb)))"
  note db = blocks_dedup [of "lock_secs_of pb" "block_secs_of pb" "[]" "[]" ?k, folded ev(1)]
  note dl = locks_dedup [of "lock_secs_of pb" "block_secs_of pb" "[]" "[]" ?k, folded ev(2)]
  from db have b: "distinct (map fst (blocks acts)) \<and> set (map snd (blocks acts)) \<subseteq> {block_secs_of pb}" by blast
  from dl have l: "distinct (map fst (locks acts)) \<and> set (map snd (locks acts)) \<subseteq> {lock_secs_of pb}" by blast
  have "set (map fst (blocks acts)) = set (map fst (blocks ?k))" using db by simp
  also have "\<dots> = (if has_action pb BlockIpAction
      then (\<Union>c\<in>set (pb_conditions pb). set (map fst (blocks (candidates lower ctx c)))) else {})"
    by (simp add: blocks_filter_authorised has_action_def concat_blocks del: set_map)
  also have "\<dots> = (if has_action pb BlockIpAction
      then {ip. \<exists>a\<in>set (matching_alerts lower ctx pb). na_remote_ip a = Some ip} else {})"
    unfolding candidates_targets matching_alerts_def by auto
  finally have bs: "set (map fst (blocks acts)) = (if has_action pb BlockIpAction
      then {ip. \<exists>a\<in>set (matching_alerts lower ctx pb). na_remote_ip a = Some ip} else {})" .
  have "set (map fst (locks acts)) = set (map fst (locks ?k))" using dl by simp
  also have "\<dots> = (if has_action pb DisableAccountAction
      then (\<Union>c\<in>set (pb_conditions pb). set (map fst (locks (candidates lower ctx c)))) else {})"
    by (simp add: blocks_filter_authorised has_action_def concat_locks del: set_map)
  also have "\<dots> = (if has_action pb DisableAccountAction
      then {u. \<exists>a\<in>set (matching_alerts lower ctx pb). na_user a = Some u} else {})"
    unfolding candidates_targets matching_alerts_def by auto
  finally have "set (map fst (locks acts)) = (if has_action pb DisableAccountAction
      then {u. \<exists>a\<in>set (matching_alerts lower ctx pb). na_user a = Some u} else {})" .
  with b l bs show ?thesis by blast
qed

section \<open>What a run hands to the response layer\<close>

text \<open>C3: A run of a playbook hands the actions it lets through to the response layer, in order
  and nothing else; every one of them has a valid target, at most ten are destructive, every valid
  harmless action is among them, and there is one result per action asked for.\<close>

theorem run_playbook_actions_refines:
  "snd (run_playbook_actions perform rp actions w)
     = fold (run_effect perform rp) (let_through rp 0 actions) w
   \<and> length (fst (run_playbook_actions perform rp actions w)) = length actions
   \<and> set (let_through rp 0 actions) \<subseteq> {a \<in> set actions. valid rp a}
   \<and> length (filter is_destructive (let_through rp 0 actions)) \<le> 10
   \<and> filter (\<lambda>a. \<not> is_destructive a) (let_through rp 0 actions)
       = filter (\<lambda>a. valid rp a \<and> \<not> is_destructive a) actions"
  using let_through_subset [of rp 0 actions] let_through_cap [of rp 0 actions]
  by (simp add: run_playbook_actions_def run_loop_world run_loop_length let_through_keeps_harmless
      MAX_DESTRUCTIVE_ACTIONS_PER_RUN_def)

lemma let_through_simulated [simp]:
  "let_through (rp\<lparr>rp_delivery := d, rp_simulate := b\<rparr>) n as = let_through rp n as"
  by (induction as arbitrary: n) (simp_all add: valid_def)

lemma run_loop_successes:
  assumes "rp_simulate rp"
  shows "length (filter ar_success (fst (run_loop perform rp n as w))) = length (let_through rp n as)"
  by (induction as arbitrary: n w)
     (auto simp: assms valid_def run_one_def rejected_def over_limit_def Let_def case_prod_beta
       split: option.splits)

text \<open>A simulated run performs nothing: the only calls it makes are the audit entries, one per
  action a real run would let through, labelled as simulated and successful; the actions refused
  are those a real run refuses, and every other one is reported as a success.\<close>

lemma simulate_playbook_actions_harmless:
  "snd (simulate_playbook_actions perform rp actions w)
     = fold (\<lambda>a w. if rp_audit rp
         then snd (perform (AuditLog (rp_name rp) (SIMULATION_PREFIX @ describe a) True None) w) else w)
       (let_through rp 0 actions) w
   \<and> length (filter ar_success (fst (simulate_playbook_actions perform rp actions w)))
       = length (let_through rp 0 actions)"
proof -
  let ?rp = "rp\<lparr>rp_delivery := \<lparr>dl_notifications = False, dl_siem = None\<rparr>, rp_simulate := True\<rparr>"
  have "run_effect perform ?rp = (\<lambda>a w. if rp_audit rp
      then snd (perform (AuditLog (rp_name rp) (SIMULATION_PREFIX @ describe a) True None) w) else w)"
    by (auto simp: fun_eq_iff run_effect_def run_one_def Let_def)
  then show ?thesis
    by (simp add: simulate_playbook_actions_def run_playbook_actions_def run_loop_world run_loop_successes)
qed

section \<open>Repeated offenders\<close>

definition clock_ok :: "int \<Rightarrow> bool" where
  [sentinel_simps]: "clock_ok t \<longleftrightarrow> - (2 ^ 62) < t \<and> t < 2 ^ 62"

definition offences_ok :: "offence str_map \<Rightarrow> bool" where
  "offences_ok offs \<longleftrightarrow> hm_wf offs \<and>
     (\<forall>(ip, off)\<in>set offs. 1 \<le> off_count off \<and> off_count off < u32_max \<and> clock_ok (off_last off))"

lemma window_positive: "0 < OFFENCE_WINDOW_SECS"
  by (simp add: OFFENCE_WINDOW_SECS_def)

lemma clock_diff: "clock_ok a \<Longrightarrow> clock_ok b \<Longrightarrow> checked_i64 (a - b) = Some (a - b)"
  by (simp add: sentinel_simps)

lemma retain_recent_ok:
  assumes "list_all (\<lambda>(ip, off). clock_ok (off_last off)) offs" and "clock_ok now"
  shows "retain_recent now offs = Some (filter (\<lambda>(ip, off). now - off_last off < OFFENCE_WINDOW_SECS) offs)"
  using assms by (induction offs) (auto simp: clock_diff split: option.splits)

lemma retain_recent_Some:
  "retain_recent now offs = Some kept \<Longrightarrow>
     kept = filter (\<lambda>(ip, off). now - off_last off < OFFENCE_WINDOW_SECS) offs"
  by (induction offs arbitrary: kept)
     (auto simp: checked_i64_def split: option.splits if_splits)

text \<open>The offence number and duration of a block, given the address's record, if it is recent.\<close>

definition offence_number :: "offence option \<Rightarrow> i64 \<Rightarrow> u32" where
  "offence_number prev now =
     (case prev of None \<Rightarrow> 1
      | Some off \<Rightarrow> if SAME_OFFENCE_SECS \<le> now - off_last off then off_count off + 1 else off_count off)"

definition escalated_secs :: "u64 \<Rightarrow> u32 \<Rightarrow> u64" where
  "escalated_secs requested number =
     (if requested = 0 then 0
      else min (requested * 2 ^ min (number - 1) 16) (max MAX_REPEATED_BLOCK_SECS requested))"

lemma u64_saturating_cap:
  "r \<le> u64_max \<Longrightarrow> min (u64_saturating_mul r f) (max MAX_REPEATED_BLOCK_SECS r)
     = min (r * f) (max MAX_REPEATED_BLOCK_SECS r)"
  by (simp add: u64_saturating_mul_def MAX_REPEATED_BLOCK_SECS_def u64_max_def)

definition recent :: "i64 \<Rightarrow> offence str_map \<Rightarrow> string \<Rightarrow> offence option" where
  "recent now offs ip =
     (case map_of offs ip of Some off \<Rightarrow> if now - off_last off < OFFENCE_WINDOW_SECS then Some off else None
      | None \<Rightarrow> None)"

lemma escalate_block_ok:
  assumes "offences_ok offs" and "clock_ok now" and "requested \<le> u64_max"
  shows "escalate_block offs ip requested now =
    Some (AList.update ip \<lparr>off_count = offence_number (recent now offs ip) now, off_last = now\<rparr>
            (filter (\<lambda>(ip, off). now - off_last off < OFFENCE_WINDOW_SECS) offs),
          escalated_secs requested (offence_number (recent now offs ip) now),
          offence_number (recent now offs ip) now)"
proof -
  let ?kept = "filter (\<lambda>(ip, off). now - off_last off < OFFENCE_WINDOW_SECS) offs"
  have wf: "hm_wf offs" using assms(1) by (simp add: offences_ok_def)
  have r: "retain_recent now offs = Some ?kept"
    using assms(1,2) by (intro retain_recent_ok) (auto simp: offences_ok_def list_all_iff)
  have m: "map_of ?kept ip = recent now offs ip"
    unfolding recent_def using map_of_filter_wf [OF wf, of "\<lambda>_ off. now - off_last off < OFFENCE_WINDOW_SECS" ip] by simp
  show ?thesis
  proof (cases "recent now offs ip")
    case None
    then show ?thesis
      by (simp add: escalate_block_def r m offence_number_def escalated_secs_def checked_u32_def
          u32_max_def u64_saturating_cap assms(3) Let_def)
  next
    case (Some off)
    then have "(ip, off) \<in> set offs" by (auto simp: recent_def split: option.splits if_splits dest: map_of_SomeD)
    then have off: "1 \<le> off_count off" "off_count off < u32_max" "clock_ok (off_last off)"
      using assms(1) by (auto simp: offences_ok_def)
    then show ?thesis
      using clock_diff [OF assms(2) off(3)]
      by (auto simp: escalate_block_def r m Some offence_number_def escalated_secs_def checked_u32_def
          u64_saturating_cap assms(3) Let_def)
  qed
qed


text \<open>A block of an address never overflows a counter or a clock that is sane, lasts at least
  the time asked for and at most the longer of that time and a week, and a block until unblocked
  stays so; the ledger keeps only the offences of the past day, the new one among them, with
  distinct addresses.\<close>

theorem escalate_block_bounds:
  assumes "offences_ok offs" and "clock_ok now" and "requested \<le> u64_max"
  shows "\<exists>offs' secs number. escalate_block offs ip requested now = Some (offs', secs, number) \<and>
     requested \<le> secs \<and> secs \<le> max MAX_REPEATED_BLOCK_SECS requested \<and> (requested = 0 \<longrightarrow> secs = 0) \<and>
     hm_wf offs' \<and> map_of offs' ip = Some \<lparr>off_count = number, off_last = now\<rparr> \<and>
     (\<forall>(k, off)\<in>set offs'. now - off_last off < OFFENCE_WINDOW_SECS \<and> (k = ip \<or> (k, off) \<in> set offs))"
proof -
  let ?n = "offence_number (recent now offs ip) now"
  let ?offs = "AList.update ip \<lparr>off_count = ?n, off_last = now\<rparr>
            (filter (\<lambda>(ip, off). now - off_last off < OFFENCE_WINDOW_SECS) offs)"
  have bounds: "requested \<le> escalated_secs requested ?n"
    "escalated_secs requested ?n \<le> max MAX_REPEATED_BLOCK_SECS requested"
    "requested = 0 \<longrightarrow> escalated_secs requested ?n = 0"
    by (auto simp: escalated_secs_def)
  have wf: "hm_wf ?offs" using assms(1) by (simp add: offences_ok_def)
  have fw: "hm_wf (filter (\<lambda>(ip, off). now - off_last off < OFFENCE_WINDOW_SECS) offs)"
    using assms(1) by (simp add: offences_ok_def)
  have kept: "\<forall>(k, off)\<in>set ?offs. now - off_last off < OFFENCE_WINDOW_SECS \<and> (k = ip \<or> (k, off) \<in> set offs)"
    using window_positive by (auto simp: hm_update_mem [OF fw] split: if_splits)
  have "map_of ?offs ip = Some \<lparr>off_count = ?n, off_last = now\<rparr>" by (simp add: update_conv)
  with bounds wf kept escalate_block_ok [OF assms, of ip] show ?thesis by blast
qed

text \<open>Blocking one address at a sequence of times, and the durations it gets.\<close>

fun repeated_blocks :: "offence str_map \<Rightarrow> string \<Rightarrow> u64 \<Rightarrow> i64 list \<Rightarrow> u64 list option" where
  "repeated_blocks offs ip requested [] = Some []"
| "repeated_blocks offs ip requested (t # ts) =
     (case escalate_block offs ip requested t of None \<Rightarrow> None
      | Some (offs', secs, _) \<Rightarrow> map_option ((#) secs) (repeated_blocks offs' ip requested ts))"

fun spaced :: "i64 \<Rightarrow> i64 list \<Rightarrow> bool" where
  "spaced t [] = True"
| "spaced t (u # us) = (SAME_OFFENCE_SECS \<le> u - t \<and> u - t < OFFENCE_WINDOW_SECS \<and> spaced u us)"

lemma spaced_ge: "spaced t us \<Longrightarrow> u \<in> set us \<Longrightarrow> t \<le> u"
  by (induction us arbitrary: t) (force simp: SAME_OFFENCE_SECS_def)+

lemma offences_ok_update:
  assumes "offences_ok offs" and "clock_ok now" and "1 \<le> n" and "n < u32_max"
  shows "offences_ok (AList.update ip \<lparr>off_count = n, off_last = now\<rparr> (filter P offs))"
proof -
  have "hm_wf (filter P offs)" using assms(1) by (simp add: offences_ok_def)
  note mem = hm_update_mem [OF this]
  show ?thesis
    using assms by (auto simp: offences_ok_def mem split: if_splits)
qed

lemma repeated_blocks_from:
  assumes "offences_ok offs" and "requested \<le> u64_max"
    and "map_of offs ip = Some \<lparr>off_count = c, off_last = t\<rparr>" and "spaced t ts"
    and "list_all clock_ok ts" and "c + length ts < u32_max"
  shows "repeated_blocks offs ip requested ts
     = Some (map (\<lambda>k. escalated_secs requested (c + k)) [1..<Suc (length ts)])"
  using assms
proof (induction ts arbitrary: offs c t)
  case (Cons u us)
  from Cons.prems have u: "clock_ok u" "SAME_OFFENCE_SECS \<le> u - t" "u - t < OFFENCE_WINDOW_SECS" by auto
  have n: "offence_number (recent u offs ip) u = Suc c"
    using Cons.prems(3) u by (simp add: recent_def offence_number_def)
  let ?offs = "AList.update ip \<lparr>off_count = Suc c, off_last = u\<rparr>
     (filter (\<lambda>(ip, off). u - off_last off < OFFENCE_WINDOW_SECS) offs)"
  have step: "escalate_block offs ip requested u = Some (?offs, escalated_secs requested (Suc c), Suc c)"
    using escalate_block_ok [OF Cons.prems(1) u(1) Cons.prems(2), of ip] by (simp add: n)
  have "repeated_blocks ?offs ip requested us
     = Some (map (\<lambda>k. escalated_secs requested (Suc c + k)) [1..<Suc (length us)])"
    using Cons.prems u by (intro Cons.IH) (auto simp: update_conv intro!: offences_ok_update)
  moreover have "map (\<lambda>k. escalated_secs requested (c + k)) [1..<Suc (length (u # us))]
     = escalated_secs requested (Suc c)
       # map (\<lambda>k. escalated_secs requested (Suc c + k)) [1..<Suc (length us)]"
  proof -
    have "[1..<Suc (length (u # us))] = 1 # map Suc [1..<Suc (length us)]"
      by (metis One_nat_def Suc_le_mono le0 length_Cons map_Suc_upt upt_conv_Cons less_Suc_eq_le)
    then show ?thesis by simp
  qed
  ultimately show ?case by (simp add: step)
qed simp

text \<open>An address blocked again and again, each time at least a minute and less than a day
  after the block before, is blocked for the requested time doubled at each block: the k-th block
  (counting from 0) lasts \<open>min (requested * 2 ^ min k 16) (max a-week requested)\<close>, whatever other
  addresses the ledger holds.\<close>

theorem repeated_blocks_double:
  assumes "offences_ok offs" and "map_of offs ip = None" and "0 < requested" and "requested \<le> u64_max"
    and "clock_ok t" and "list_all clock_ok ts" and "spaced t ts" and "length ts < u32_max - 1"
  shows "repeated_blocks offs ip requested (t # ts) = Some (map
     (\<lambda>k. min (requested * 2 ^ min k 16) (max MAX_REPEATED_BLOCK_SECS requested)) [0..<Suc (length ts)])"
proof -
  have n: "offence_number (recent t offs ip) t = 1"
    by (simp add: recent_def assms(2) offence_number_def)
  let ?offs = "AList.update ip \<lparr>off_count = 1, off_last = t\<rparr>
     (filter (\<lambda>(ip, off). t - off_last off < OFFENCE_WINDOW_SECS) offs)"
  have "repeated_blocks ?offs ip requested ts
     = Some (map (\<lambda>k. escalated_secs requested (1 + k)) [1..<Suc (length ts)])"
    using assms by (intro repeated_blocks_from [where t = t])
      (auto simp: update_conv u32_max_def intro!: offences_ok_update)
  moreover have "[0..<Suc (length ts)] = 0 # [1..<Suc (length ts)]"
    using upt_conv_Cons [of 0 "Suc (length ts)"] by (simp del: upt_Suc)
  ultimately show ?thesis
    using escalate_block_ok [OF assms(1,5,4), of ip] assms(3)
    by (simp add: n escalated_secs_def)
qed


section \<open>Witnesses\<close>

definition sample_ctx :: threat_context where
  "sample_ctx = \<lparr>suspicious_processes = [\<lparr>pi_name = ''xm'', pi_pid = 4242, pi_command_line = []\<rparr>],
     network_alerts = [\<lparr>na_alert_type = ''SSH'', na_remote_ip = Some ''203.0.113.9'', na_port = Some 22,
        na_severity = ''high'', na_description = [], na_user = Some ''alice''\<rparr>],
     fim_alerts = []\<rparr>"

definition sample_pb :: playbook where
  "sample_pb = \<lparr>pb_id = ''p1'', pb_name = ''ssh'', pb_enabled = True,
     pb_conditions = [\<lparr>condition_type = NetworkAlertType, operator = ''all'', pc_value = ''ssh''\<rparr>,
                      \<lparr>condition_type = SeverityThreshold, operator = ''all'', pc_value = ''medium''\<rparr>],
     pb_actions = [\<lparr>action_type = BlockIpAction, parameters = '' 600 ''\<rparr>,
                   \<lparr>action_type = DisableAccountAction, parameters = []\<rparr>]\<rparr>"

lemma sample_evaluation:
  "triggered (evaluate_playbook to_ascii_lowercase sample_ctx sample_pb)"
  "pe_actions (evaluate_playbook to_ascii_lowercase sample_ctx sample_pb)
     = [BlockIp ''203.0.113.9'' 600, DisableAccount ''alice'' 3600]"
  by code_simp+

theorem evaluate_playbook_authorised_witness:
  "BlockIp ''203.0.113.9'' 600 \<in> set (pe_actions (evaluate_playbook to_ascii_lowercase sample_ctx sample_pb))
   \<and> grounded sample_ctx (BlockIp ''203.0.113.9'' 600)"
  using evaluate_playbook_authorised
    [of "BlockIp ''203.0.113.9'' 600" to_ascii_lowercase sample_ctx sample_pb]
  by (simp add: sample_evaluation)

theorem evaluate_playbook_targets_witness:
  "distinct (map fst (blocks (pe_actions (evaluate_playbook to_ascii_lowercase sample_ctx sample_pb))))
   \<and> set (map snd (blocks (pe_actions (evaluate_playbook to_ascii_lowercase sample_ctx sample_pb))))
       \<subseteq> {block_secs_of sample_pb}"
  using evaluate_playbook_targets [OF sample_evaluation(1)] by blast

theorem escalate_block_bounds_witness:
  "\<exists>offs' secs number. escalate_block
      [(''198.51.100.7'', \<lparr>off_count = 3, off_last = 1000\<rparr>)] ''198.51.100.7'' 3600 5000
        = Some (offs', secs, number) \<and> 3600 \<le> secs \<and> secs \<le> 604800"
proof -
  have ok: "offences_ok [(''198.51.100.7'', \<lparr>off_count = 3, off_last = 1000\<rparr>)]"
    by (simp add: offences_ok_def hm_wf_def u32_max_def clock_ok_def)
  have "clock_ok 5000" and "(3600::nat) \<le> u64_max" by (simp_all add: clock_ok_def u64_max_def)
  from escalate_block_bounds [OF ok this, of "''198.51.100.7''"] show ?thesis
    by (auto simp: MAX_REPEATED_BLOCK_SECS_def)
qed

theorem repeated_blocks_double_witness:
  "repeated_blocks [] ''198.51.100.7'' 3600 [0, 7200, 20000] = Some [3600, 7200, 14400]"
proof -
  have "repeated_blocks [] ''198.51.100.7'' 3600 [0, 7200, 20000] = Some (map
     (\<lambda>k. min (3600 * 2 ^ min k 16) (max MAX_REPEATED_BLOCK_SECS 3600)) [0..<Suc (length [7200::int, 20000])])"
    by (rule repeated_blocks_double)
       (simp_all add: offences_ok_def clock_ok_def u64_max_def u32_max_def SAME_OFFENCE_SECS_def OFFENCE_WINDOW_SECS_def)
  then show ?thesis by (simp add: MAX_REPEATED_BLOCK_SECS_def upt_rec)
qed

end
