(* ===== verification/Ip_Block.thy ===== *)
theory Ip_Block imports Prelude "HOL-Library.Word" "HOL-Library.Multiset" begin

text \<open>
  Blocking one address with the system firewall
  (\<open>crates/agent-core/src/edr_actions/ip_block.rs\<close>): the commands for iptables and netsh, and
  the sequences that block and unblock an address.

  The firewall tools are not under \<open>src/\<close>: \<open>run\<close> is the trait \<open>Firewall\<close>, a parameter. The
  locale \<open>firewall\<close> states what the code relies on (adding and deleting one rule, in terms of
  the drop rules in force). \<open>addr_text\<close> is the text of an address.
\<close>

section \<open>Addresses\<close>

datatype ip_addr = V4 "32 word" | V6 "128 word"

definition is_ipv6 :: "ip_addr \<Rightarrow> bool" where
  "is_ipv6 ip = (case ip of V4 _ \<Rightarrow> False | V6 _ \<Rightarrow> True)"

text \<open>\<open>IpAddr::is_loopback\<close>, \<open>is_unspecified\<close> and \<open>to_canonical\<close> of the standard library:
  \<open>127.0.0.0/8\<close> and \<open>::1\<close>; all zero; \<open>::ffff:a.b.c.d\<close> as \<open>a.b.c.d\<close>.\<close>

definition is_loopback :: "ip_addr \<Rightarrow> bool" where
  "is_loopback ip = (case ip of V4 w \<Rightarrow> drop_bit 24 w = 127 | V6 w \<Rightarrow> w = 1)"

definition is_unspecified :: "ip_addr \<Rightarrow> bool" where
  "is_unspecified ip = (case ip of V4 w \<Rightarrow> w = 0 | V6 w \<Rightarrow> w = 0)"

definition to_canonical :: "ip_addr \<Rightarrow> ip_addr" where
  "to_canonical ip =
     (case ip of V4 w \<Rightarrow> V4 w
      | V6 w \<Rightarrow> if drop_bit 32 w = 0xFFFF then V4 (ucast w) else V6 w)"

section \<open>Order of addresses\<close>

text \<open>The derived \<open>Ord\<close> of \<open>IpAddr\<close>: IPv4 first, each family by value.\<close>

instantiation ip_addr :: linorder
begin

definition less_eq_ip_addr :: "ip_addr \<Rightarrow> ip_addr \<Rightarrow> bool" where
  "a \<le> b \<longleftrightarrow> (case a of V4 x \<Rightarrow> (case b of V4 y \<Rightarrow> x \<le> y | V6 _ \<Rightarrow> True)
     | V6 x \<Rightarrow> (case b of V4 _ \<Rightarrow> False | V6 y \<Rightarrow> x \<le> y))"

definition less_ip_addr :: "ip_addr \<Rightarrow> ip_addr \<Rightarrow> bool" where
  "a < b \<longleftrightarrow> (case a of V4 x \<Rightarrow> (case b of V4 y \<Rightarrow> x < y | V6 _ \<Rightarrow> True)
     | V6 x \<Rightarrow> (case b of V4 _ \<Rightarrow> False | V6 y \<Rightarrow> x < y))"

instance
  by standard (auto simp: less_eq_ip_addr_def less_ip_addr_def split: ip_addr.splits)

end

section \<open>Commands\<close>

datatype backend = Iptables | Netsh

record command =
  program :: string
  args :: "string list"

definition replace_dots :: "string \<Rightarrow> string" where
  "replace_dots s = map (\<lambda>c. if c = CHR ''.'' \<or> c = CHR '':'' then CHR ''_'' else c) s"

definition netsh_rule_names :: "(ip_addr \<Rightarrow> string) \<Rightarrow> ip_addr \<Rightarrow> string \<times> string" where
  "netsh_rule_names addr_text ip =
     (let base = ''SentinelBlock_'' @ replace_dots (addr_text ip) in (base, base @ ''_out''))"

definition netsh_add :: "string \<Rightarrow> string \<Rightarrow> string \<Rightarrow> command" where
  "netsh_add address name dir =
     \<lparr>program = ''netsh'', args = [''advfirewall'', ''firewall'', ''add'', ''rule'',
        ''name='' @ name, ''dir='' @ dir, ''action=block'', ''remoteip='' @ address]\<rparr>"

definition netsh_delete :: "string \<Rightarrow> command" where
  "netsh_delete name =
     \<lparr>program = ''netsh'', args = [''advfirewall'', ''firewall'', ''delete'', ''rule'', ''name='' @ name]\<rparr>"

definition iptables_program :: "ip_addr \<Rightarrow> string" where
  "iptables_program ip = (if is_ipv6 ip then ''ip6tables'' else ''iptables'')"

definition block_commands :: "(ip_addr \<Rightarrow> string) \<Rightarrow> backend \<Rightarrow> ip_addr \<Rightarrow> command list" where
  "block_commands addr_text backend ip =
     (let address = addr_text ip in
      case backend of
        Iptables \<Rightarrow>
          [\<lparr>program = iptables_program ip, args = [''-I'', ''INPUT'', ''1'', ''-s'', address, ''-j'', ''DROP'']\<rparr>,
           \<lparr>program = iptables_program ip, args = [''-I'', ''OUTPUT'', ''1'', ''-d'', address, ''-j'', ''DROP'']\<rparr>]
      | Netsh \<Rightarrow>
          (case netsh_rule_names addr_text ip of (incoming, outgoing) \<Rightarrow>
             [netsh_add address incoming ''in'', netsh_add address outgoing ''out'']))"

definition unblock_commands :: "(ip_addr \<Rightarrow> string) \<Rightarrow> backend \<Rightarrow> ip_addr \<Rightarrow> command list" where
  "unblock_commands addr_text backend ip =
     (let address = addr_text ip in
      case backend of
        Iptables \<Rightarrow>
          [\<lparr>program = iptables_program ip, args = [''-D'', ''INPUT'', ''-s'', address, ''-j'', ''DROP'']\<rparr>,
           \<lparr>program = iptables_program ip, args = [''-D'', ''OUTPUT'', ''-d'', address, ''-j'', ''DROP'']\<rparr>]
      | Netsh \<Rightarrow>
          (case netsh_rule_names addr_text ip of (incoming, outgoing) \<Rightarrow>
             [netsh_delete incoming, netsh_delete outgoing]))"

section \<open>Sequences\<close>

text \<open>\<^const>\<open>None\<close> is \<open>Ok(())\<close>, \<^const>\<open>Some\<close> the text of the failure.\<close>

type_synonym 'w runner = "command \<Rightarrow> 'w \<Rightarrow> string option \<times> 'w"

text \<open>\<open>lift\<close>: remove the rules that exist; failures are only logged.\<close>

definition lift_block :: "'w runner \<Rightarrow> (ip_addr \<Rightarrow> string) \<Rightarrow> backend \<Rightarrow> ip_addr \<Rightarrow> 'w \<Rightarrow> 'w" where
  "lift_block run addr_text backend ip w = fold (\<lambda>c w. snd (run c w)) (unblock_commands addr_text backend ip) w"

fun add_rules ::
  "'w runner \<Rightarrow> (ip_addr \<Rightarrow> string) \<Rightarrow> backend \<Rightarrow> ip_addr \<Rightarrow> command list \<Rightarrow> 'w \<Rightarrow> string option \<times> 'w" where
  "add_rules run addr_text backend ip [] w = (None, w)"
| "add_rules run addr_text backend ip (c # cs) w =
     (case run c w of
        (None, w') \<Rightarrow> add_rules run addr_text backend ip cs w'
      | (Some e, w') \<Rightarrow> (Some e, lift_block run addr_text backend ip w'))"

definition block ::
  "'w runner \<Rightarrow> (ip_addr \<Rightarrow> string) \<Rightarrow> backend \<Rightarrow> ip_addr \<Rightarrow> 'w \<Rightarrow> string option \<times> 'w" where
  "block run addr_text backend ip w =
     add_rules run addr_text backend ip (block_commands addr_text backend ip)
       (lift_block run addr_text backend ip w)"

fun remove_rules ::
  "'w runner \<Rightarrow> command list \<Rightarrow> nat \<Rightarrow> string option \<Rightarrow> 'w \<Rightarrow> string option \<times> 'w" where
  "remove_rules run [] removed failure w =
     ((case failure of Some e \<Rightarrow> if removed = 0 then Some e else None | None \<Rightarrow> None), w)"
| "remove_rules run (c # cs) removed failure w =
     (case run c w of
        (None, w') \<Rightarrow> remove_rules run cs (removed + 1) failure w'
      | (Some e, w') \<Rightarrow> remove_rules run cs removed (Some e) w')"

definition unblock ::
  "'w runner \<Rightarrow> (ip_addr \<Rightarrow> string) \<Rightarrow> backend \<Rightarrow> ip_addr \<Rightarrow> 'w \<Rightarrow> string option \<times> 'w" where
  "unblock run addr_text backend ip w =
     remove_rules run (unblock_commands addr_text backend ip) 0 None w"

section \<open>What the firewall does with the commands\<close>

datatype direction = Incoming | Outgoing

definition add_command :: "(ip_addr \<Rightarrow> string) \<Rightarrow> backend \<Rightarrow> direction \<Rightarrow> ip_addr \<Rightarrow> command" where
  "add_command addr_text b d ip = block_commands addr_text b ip ! (case d of Incoming \<Rightarrow> 0 | Outgoing \<Rightarrow> 1)"

definition delete_command :: "(ip_addr \<Rightarrow> string) \<Rightarrow> backend \<Rightarrow> direction \<Rightarrow> ip_addr \<Rightarrow> command" where
  "delete_command addr_text b d ip = unblock_commands addr_text b ip ! (case d of Incoming \<Rightarrow> 0 | Outgoing \<Rightarrow> 1)"

lemma block_commands_split:
  "block_commands addr_text b ip = [add_command addr_text b Incoming ip, add_command addr_text b Outgoing ip]"
  by (simp add: add_command_def block_commands_def netsh_rule_names_def Let_def split: backend.split)

lemma unblock_commands_split:
  "unblock_commands addr_text b ip = [delete_command addr_text b Incoming ip, delete_command addr_text b Outgoing ip]"
  by (simp add: delete_command_def unblock_commands_def netsh_rule_names_def Let_def split: backend.split)

text \<open>
  \<open>rules w\<close> is the multiset of drop rules in force. Adding a rule either succeeds, with one more
  rule, or fails and changes nothing. Deleting a rule that is not in force fails and changes
  nothing; deleting one that is succeeds and leaves fewer of it (iptables removes one, netsh
  every rule of that name) and all the others.
\<close>

locale firewall =
  fixes run :: "'w runner"
    and addr_text :: "ip_addr \<Rightarrow> string"
    and backend :: backend
    and rules :: "'w \<Rightarrow> (direction \<times> ip_addr) multiset"
  assumes add_ok: "run (add_command addr_text backend d ip) w = (None, w') \<Longrightarrow>
      rules w' = add_mset (d, ip) (rules w)"
    and add_fails: "run (add_command addr_text backend d ip) w = (Some e, w') \<Longrightarrow> rules w' = rules w"
    and delete_present: "(d, ip) \<in># rules w \<Longrightarrow>
      \<exists>w'. run (delete_command addr_text backend d ip) w = (None, w') \<and>
        count (rules w') (d, ip) < count (rules w) (d, ip) \<and>
        (\<forall>r. r \<noteq> (d, ip) \<longrightarrow> count (rules w') r = count (rules w) r)"
    and delete_absent: "(d, ip) \<notin># rules w \<Longrightarrow>
      \<exists>e w'. run (delete_command addr_text backend d ip) w = (Some e, w') \<and> rules w' = rules w"
begin

definition in_force :: "'w \<Rightarrow> ip_addr \<Rightarrow> bool" where
  "in_force w ip \<longleftrightarrow> count (rules w) (Incoming, ip) = 1 \<and> count (rules w) (Outgoing, ip) = 1"

definition lifted :: "'w \<Rightarrow> ip_addr \<Rightarrow> bool" where
  "lifted w ip \<longleftrightarrow> (\<forall>d. (d, ip) \<notin># rules w)"

text \<open>No rule is stacked: what makes one unblock lift a block.\<close>

definition unstacked :: "'w \<Rightarrow> bool" where
  "unstacked w \<longleftrightarrow> (\<forall>r. count (rules w) r \<le> 1)"

lemma delete_effect:
  assumes "count (rules w) (d, ip) \<le> 1"
  shows "rules (snd (run (delete_command addr_text backend d ip) w)) = filter_mset (\<lambda>r. r \<noteq> (d, ip)) (rules w)"
    and "fst (run (delete_command addr_text backend d ip) w) = None \<longleftrightarrow> (d, ip) \<in># rules w"
proof -
  have "rules (snd (run (delete_command addr_text backend d ip) w)) = filter_mset (\<lambda>r. r \<noteq> (d, ip)) (rules w)
     \<and> (fst (run (delete_command addr_text backend d ip) w) = None \<longleftrightarrow> (d, ip) \<in># rules w)"
  proof (cases "(d, ip) \<in># rules w")
    case True
    from delete_present [OF this] obtain w' where
      w': "run (delete_command addr_text backend d ip) w = (None, w')"
      "count (rules w') (d, ip) < count (rules w) (d, ip)"
      "\<forall>r. r \<noteq> (d, ip) \<longrightarrow> count (rules w') r = count (rules w) r" by blast
    with assms have "rules w' = filter_mset (\<lambda>r. r \<noteq> (d, ip)) (rules w)"
      by (intro multiset_eqI) auto
    with w'(1) True show ?thesis by simp
  next
    case False
    from delete_absent [OF this] obtain e w' where
      w': "run (delete_command addr_text backend d ip) w = (Some e, w')" "rules w' = rules w" by blast
    have "filter_mset (\<lambda>r. r \<noteq> (d, ip)) (rules w) = rules w"
      using False by (auto intro!: multiset_eqI simp: count_eq_zero_iff)
    with w' False show ?thesis by simp
  qed
  then show "rules (snd (run (delete_command addr_text backend d ip) w)) = filter_mset (\<lambda>r. r \<noteq> (d, ip)) (rules w)"
    and "fst (run (delete_command addr_text backend d ip) w) = None \<longleftrightarrow> (d, ip) \<in># rules w" by auto
qed

lemma lift_rules:
  assumes "unstacked w"
  shows "rules (lift_block run addr_text backend ip w) = filter_mset (\<lambda>r. snd r \<noteq> ip) (rules w)"
proof -
  let ?w1 = "snd (run (delete_command addr_text backend Incoming ip) w)"
  have w1: "rules ?w1 = filter_mset (\<lambda>r. r \<noteq> (Incoming, ip)) (rules w)"
    using assms by (intro delete_effect) (simp add: unstacked_def)
  then have "count (rules ?w1) (Outgoing, ip) \<le> 1" using assms by (simp add: unstacked_def)
  from delete_effect(1) [OF this] w1
  have "rules (lift_block run addr_text backend ip w)
      = filter_mset (\<lambda>r. r \<noteq> (Outgoing, ip)) (filter_mset (\<lambda>r. r \<noteq> (Incoming, ip)) (rules w))"
    by (simp add: lift_block_def unblock_commands_split)
  moreover have "r \<noteq> (Outgoing, ip) \<and> r \<noteq> (Incoming, ip) \<longleftrightarrow> snd r \<noteq> ip" for r
    by (cases r; cases "fst r") auto
  ultimately show ?thesis by (simp add: filter_filter_mset conj_commute)
qed

text \<open>A block sets one rule per direction, or leaves no rule of the address; the rules of other
  addresses are untouched either way, and no rule is ever stacked.\<close>

lemma block_rules:
  assumes "unstacked w"
  shows "rules (snd (block run addr_text backend ip w)) =
      filter_mset (\<lambda>r. snd r \<noteq> ip) (rules w) +
      (if fst (block run addr_text backend ip w) = None then {#(Incoming, ip), (Outgoing, ip)#} else {#})"
proof -
  let ?f = "filter_mset (\<lambda>r. snd r \<noteq> ip)"
  let ?w0 = "lift_block run addr_text backend ip w"
  have r0: "rules ?w0 = ?f (rules w)" by (rule lift_rules [OF assms])
  have stacked: "unstacked w'" if "rules w' = ?f (rules w)" for w'
    using that assms by (auto simp: unstacked_def)
  obtain e1 w1 where s1: "run (add_command addr_text backend Incoming ip) ?w0 = (e1, w1)" by force
  show ?thesis
  proof (cases e1)
    case (Some e)
    then have "rules w1 = ?f (rules w)" using add_fails s1 r0 by metis
    then have "rules (lift_block run addr_text backend ip w1) = ?f (rules w)"
      using lift_rules [OF stacked] by (simp add: filter_filter_mset)
    with s1 Some show ?thesis by (simp add: block_def block_commands_split)
  next
    case None
    then have r1: "rules w1 = add_mset (Incoming, ip) (?f (rules w))" using add_ok s1 r0 by metis
    then have u1: "unstacked w1" using assms by (auto simp: unstacked_def count_eq_zero_iff [symmetric])
    obtain e2 w2 where s2: "run (add_command addr_text backend Outgoing ip) w1 = (e2, w2)" by force
    show ?thesis
    proof (cases e2)
      case (Some e)
      then have "rules w2 = rules w1" using add_fails s2 by metis
      moreover from this u1 have "unstacked w2" by (simp add: unstacked_def)
      ultimately have "rules (lift_block run addr_text backend ip w2) = ?f (rules w)"
        using lift_rules [of w2 ip] r1 by (simp add: filter_filter_mset)
      with s1 s2 None Some show ?thesis by (simp add: block_def block_commands_split)
    next
      case None
      then have "rules w2 = add_mset (Outgoing, ip) (rules w1)" using add_ok s2 by metis
      with s1 s2 \<open>e1 = None\<close> None r1 show ?thesis
        by (simp add: block_def block_commands_split add_mset_commute)
    qed
  qed
qed

lemma block_unstacked:
  assumes "unstacked w"
  shows "unstacked (snd (block run addr_text backend ip w))"
  using assms by (auto simp: unstacked_def block_rules)

lemma unblock_rules:
  assumes "unstacked w"
  shows "rules (snd (unblock run addr_text backend ip w)) = filter_mset (\<lambda>r. snd r \<noteq> ip) (rules w)"
    and "fst (unblock run addr_text backend ip w) = None \<longleftrightarrow> \<not> lifted w ip"
proof -
  obtain e1 w1 where s1: "run (delete_command addr_text backend Incoming ip) w = (e1, w1)" by force
  obtain e2 w2 where s2: "run (delete_command addr_text backend Outgoing ip) w1 = (e2, w2)" by force
  have c1: "count (rules w) (Incoming, ip) \<le> 1" using assms by (simp add: unstacked_def)
  have w1: "rules w1 = filter_mset (\<lambda>r. r \<noteq> (Incoming, ip)) (rules w)"
    and e1: "e1 = None \<longleftrightarrow> (Incoming, ip) \<in># rules w"
    using delete_effect [OF c1] s1 by auto
  then have c2: "count (rules w1) (Outgoing, ip) \<le> 1" using assms by (simp add: unstacked_def)
  have e2: "e2 = None \<longleftrightarrow> (Outgoing, ip) \<in># rules w" using delete_effect(2) [OF c2] s2 w1 by auto
  have eq: "unblock run addr_text backend ip w
      = ((if e1 = None \<or> e2 = None then None else e2), w2)"
    using s1 s2 by (cases e1; cases e2) (simp_all add: unblock_def unblock_commands_split)
  have "lift_block run addr_text backend ip w = w2"
    using s1 s2 by (simp add: lift_block_def unblock_commands_split)
  with lift_rules [OF assms, of ip] eq
  show "rules (snd (unblock run addr_text backend ip w)) = filter_mset (\<lambda>r. snd r \<noteq> ip) (rules w)" by simp
  have "lifted w ip \<longleftrightarrow> (Incoming, ip) \<notin># rules w \<and> (Outgoing, ip) \<notin># rules w"
    unfolding lifted_def by (metis direction.exhaust)
  with eq e1 e2 show "fst (unblock run addr_text backend ip w) = None \<longleftrightarrow> \<not> lifted w ip" by auto
qed

text \<open>
  The sequences hold no lock: when two blocks of an address overlap so that both have removed its rules before either adds
  one, each direction gets two rules, and one unblock (with iptables) does not lift them.
\<close>

lemma overlapping_blocks_stack:
  assumes "add_rules run addr_text backend ip (block_commands addr_text backend ip)
      (lift_block run addr_text backend ip (lift_block run addr_text backend ip w)) = (None, w1)"
    and "add_rules run addr_text backend ip (block_commands addr_text backend ip) w1 = (None, w2)"
  shows "2 \<le> count (rules w2) (d, ip)"
proof -
  have "rules w2 = {#(Outgoing, ip), (Incoming, ip), (Outgoing, ip), (Incoming, ip)#} +
      rules (lift_block run addr_text backend ip (lift_block run addr_text backend ip w))"
    using assms by (auto simp: block_commands_split dest!: add_ok split: prod.splits option.splits)
  then show ?thesis by (cases d) simp_all
qed

end

end
