(* ===== verification/Iptables_Table.thy ===== *)
theory Iptables_Table imports Ip_Block begin

text \<open>
  The locale \<open>firewall\<close> holds of iptables as its manual documents it: a chain is a list of
  rules, \<open>-I chain 1 spec\<close> inserts in front, \<open>-D chain spec\<close> removes the first rule that is
  equal and fails when there is none. Addresses are written by \<open>plain_text\<close>, a concrete
  injective text with its parser.
\<close>

type_synonym rule_table = "(string \<times> string \<times> string list) list"

definition iptables_run :: "rule_table runner" where
  "iptables_run c w =
     (case args c of
        opt # chain # rest \<Rightarrow>
          if opt = ''-I'' then (None, (program c, chain, tl rest) # w)
          else if opt = ''-D'' then
            (if (program c, chain, rest) \<in> set w then (None, remove1 (program c, chain, rest) w)
             else (Some ''iptables: Bad rule (does a matching rule exist in that chain?).'', w))
          else (Some ''iptables: unknown option'', w)
      | _ \<Rightarrow> (Some ''iptables: no command specified'', w))"

definition plain_text :: "ip_addr \<Rightarrow> string" where
  "plain_text ip = (case ip of V4 w \<Rightarrow> CHR ''4'' # show_nat (unat w) | V6 w \<Rightarrow> CHR ''6'' # show_nat (unat w))"

definition plain_parse :: "string \<Rightarrow> ip_addr option" where
  "plain_parse s =
     (case s of [] \<Rightarrow> None
      | c # ds \<Rightarrow>
          if c = CHR ''4'' then map_option (\<lambda>n. V4 (of_nat n)) (parse_unsigned (2 ^ 32 - 1) ds)
          else if c = CHR ''6'' then map_option (\<lambda>n. V6 (of_nat n)) (parse_unsigned (2 ^ 128 - 1) ds)
          else None)"

lemma plain_parse_text [simp]: "plain_parse (plain_text ip) = Some ip"
proof (cases ip)
  case (V4 w)
  have "unat w \<le> 2 ^ 32 - 1" using unsigned_less [where ?'a = nat, of w] by simp
  with V4 show ?thesis by (simp add: plain_parse_def plain_text_def parse_show_nat)
next
  case (V6 w)
  have "unat w \<le> 2 ^ 128 - 1" using unsigned_less [where ?'a = nat, of w] by simp
  with V6 show ?thesis by (simp add: plain_parse_def plain_text_def parse_show_nat)
qed

definition entry :: "direction \<times> ip_addr \<Rightarrow> string \<times> string \<times> string list" where
  "entry r = (case r of (d, ip) \<Rightarrow>
     (iptables_program ip, (case d of Incoming \<Rightarrow> ''INPUT'' | Outgoing \<Rightarrow> ''OUTPUT''),
      [(case d of Incoming \<Rightarrow> ''-s'' | Outgoing \<Rightarrow> ''-d''), plain_text ip, ''-j'', ''DROP'']))"

lemma entry_inj: "entry r = entry r' \<Longrightarrow> r = r'"
  by (cases r; cases r') (auto simp: entry_def split: direction.splits dest: arg_cong [of _ _ plain_parse])

text \<open>The rule an entry stands for, when it is a drop rule of this module.\<close>

definition decode :: "string \<times> string \<times> string list \<Rightarrow> (direction \<times> ip_addr) option" where
  "decode e = (case e of (_, chain, spec) \<Rightarrow>
     (case plain_parse (concat (take 1 (drop 1 spec))) of None \<Rightarrow> None
      | Some ip \<Rightarrow>
          let d = (if chain = ''INPUT'' then Incoming else Outgoing)
          in if entry (d, ip) = e then Some (d, ip) else None))"

lemma decode_entry: "decode e = Some r \<longleftrightarrow> e = entry r"
proof
  assume "decode e = Some r"
  then show "e = entry r"
    by (auto simp: decode_def Let_def split: prod.splits option.splits if_splits)
next
  assume "e = entry r"
  moreover obtain d ip where "r = (d, ip)" by (cases r)
  ultimately show "decode e = Some r"
    by (cases d) (simp_all add: decode_def Let_def entry_def)
qed

definition table_rules :: "rule_table \<Rightarrow> (direction \<times> ip_addr) multiset" where
  "table_rules w = mset (List.map_filter decode w)"

lemma table_rules_Cons:
  "table_rules (e # w) = (case decode e of None \<Rightarrow> table_rules w | Some r \<Rightarrow> add_mset r (table_rules w))"
  by (simp add: table_rules_def List.map_filter_def split: option.split)

lemma table_rules_mem: "r \<in># table_rules w \<longleftrightarrow> entry r \<in> set w"
proof (induction w)
  case (Cons e w)
  show ?case
  proof (cases "decode e")
    case None
    then have "e \<noteq> entry r" using decode_entry [of e r] by simp
    with Cons None show ?thesis by (auto simp: table_rules_Cons)
  next
    case (Some r')
    then have "e = entry r'" using decode_entry by simp
    with Cons Some show ?thesis by (auto simp: table_rules_Cons dest: entry_inj)
  qed
qed (simp add: table_rules_def List.map_filter_def)

lemma table_rules_remove: "entry r \<in> set w \<Longrightarrow> table_rules (remove1 (entry r) w) = table_rules w - {#r#}"
proof (induction w)
  case (Cons e w)
  show ?case
  proof (cases "e = entry r")
    case True
    then have "decode e = Some r" by (simp add: decode_entry)
    with True show ?thesis by (simp add: table_rules_Cons)
  next
    case False
    then have d: "decode e \<noteq> Some r" by (simp add: decode_entry)
    from False Cons have "table_rules (remove1 (entry r) w) = table_rules w - {#r#}" and "r \<in># table_rules w"
      by (simp_all add: table_rules_mem)
    with False d show ?thesis by (auto simp: table_rules_Cons split: option.splits)
  qed
qed simp

lemma iptables_add:
  "iptables_run (add_command plain_text Iptables d ip) w = (None, entry (d, ip) # w)"
  by (cases d) (simp_all add: iptables_run_def add_command_def block_commands_def entry_def Let_def)

lemma iptables_delete:
  "iptables_run (delete_command plain_text Iptables d ip) w =
     (if entry (d, ip) \<in> set w then (None, remove1 (entry (d, ip)) w)
      else (Some ''iptables: Bad rule (does a matching rule exist in that chain?).'', w))"
  by (cases d) (simp_all add: iptables_run_def delete_command_def unblock_commands_def entry_def Let_def)

interpretation tables: firewall iptables_run plain_text Iptables table_rules
proof unfold_locales
  fix d ip and w w' :: rule_table and e
  show "table_rules w' = add_mset (d, ip) (table_rules w)"
    if "iptables_run (add_command plain_text Iptables d ip) w = (None, w')"
    using that decode_entry [of "entry (d, ip)" "(d, ip)"] by (auto simp: iptables_add table_rules_Cons)
  show "table_rules w' = table_rules w"
    if "iptables_run (add_command plain_text Iptables d ip) w = (Some e, w')"
    using that by (simp add: iptables_add)
  show "\<exists>w'. iptables_run (delete_command plain_text Iptables d ip) w = (None, w') \<and>
      count (table_rules w') (d, ip) < count (table_rules w) (d, ip) \<and>
      (\<forall>r. r \<noteq> (d, ip) \<longrightarrow> count (table_rules w') r = count (table_rules w) r)"
    if "(d, ip) \<in># table_rules w"
    using that by (auto simp: iptables_delete table_rules_mem table_rules_remove)
  show "\<exists>e w'. iptables_run (delete_command plain_text Iptables d ip) w = (Some e, w') \<and>
      table_rules w' = table_rules w"
    if "(d, ip) \<notin># table_rules w"
    using that by (auto simp: iptables_delete table_rules_mem)
qed

end
