(* ===== verification/Block_Lifecycle.thy ===== *)
theory Block_Lifecycle imports Iptables_Table begin

text \<open>
  The life of an address block (\<open>block_ip\<close>, \<open>unblock_ip\<close>, the pending-unblock ledger and its
  reconciliation in \<open>crates/agent-core/src/edr_actions.rs\<close>), on Linux and Windows.

  The state is the firewall, the ledger file, the timers of the running process (a timer is a
  spawned task that sleeps until a deadline and then unblocks), the cache of backend addresses
  and the clock. What the host answers during a call (privileges, configuration, DNS, network
  set-up) is a \<open>net_view\<close>. File writes are taken to succeed: the code ignores their failures.
\<close>

section \<open>State\<close>

datatype outcome = Done | Failed string | Panicked

datatype backend_url = BadUrl | NoHost | UrlHost string

record resp_env =
  en_parse :: "string \<Rightarrow> ip_addr option"
  en_text :: "ip_addr \<Rightarrow> string"
  en_backend :: backend

record net_view =
  nv_admin :: bool
  nv_server :: "backend_url option"
  nv_lookup :: "ip_addr list option"
  nv_resolvers :: "string list"
  nv_gateways :: "string list"

record 'w ip_host =
  ih_fw :: 'w
  ih_ledger :: "i64 str_map"
  ih_timers :: "(string \<times> int) list"
  ih_backend_ips :: "ip_addr list option"
  ih_now :: i64

section \<open>Guards\<close>

text \<open>Returns whether the backend is \<open>candidate\<close>, and the cache of resolved addresses.\<close>

definition resolves_to_backend ::
  "resp_env \<Rightarrow> net_view \<Rightarrow> ip_addr list option \<Rightarrow> backend_url \<Rightarrow> ip_addr \<Rightarrow> bool \<times> ip_addr list option" where
  "resolves_to_backend env nv cache url candidate =
     (case url of
        BadUrl \<Rightarrow> (False, cache)
      | NoHost \<Rightarrow> (False, cache)
      | UrlHost host \<Rightarrow>
          (case en_parse env host of
             Some configured \<Rightarrow> (configured = candidate, cache)
           | None \<Rightarrow>
               (case nv_lookup nv of
                  Some resolved \<Rightarrow> (candidate \<in> set resolved, Some resolved)
                | None \<Rightarrow>
                    (case cache of
                       Some ips \<Rightarrow> (candidate \<in> set ips, cache)
                     | None \<Rightarrow> (True, cache)))))"

definition parse_reported_address :: "resp_env \<Rightarrow> string \<Rightarrow> ip_addr option" where
  "parse_reported_address env v =
     map_option to_canonical (en_parse env (takeWhile (\<lambda>c. c \<noteq> CHR ''%'') (trim v)))"

definition essential_role :: "resp_env \<Rightarrow> ip_addr \<Rightarrow> string list \<Rightarrow> string list \<Rightarrow> string option" where
  "essential_role env ip resolvers gateways =
     (let listed = (\<lambda>addresses. list_ex (\<lambda>a. parse_reported_address env a = Some ip) addresses) in
      if listed resolvers then Some ''DNS resolver''
      else if listed gateways then Some ''network gateway''
      else None)"

section \<open>Ledger\<close>

definition record_pending_block :: "string \<Rightarrow> i64 \<Rightarrow> 'w ip_host \<Rightarrow> 'w ip_host" where
  "record_pending_block ip unblock_at st = st\<lparr>ih_ledger := AList.update ip unblock_at (ih_ledger st)\<rparr>"

definition clear_pending_block :: "string \<Rightarrow> 'w ip_host \<Rightarrow> 'w ip_host" where
  "clear_pending_block ip st = st\<lparr>ih_ledger := AList.delete ip (ih_ledger st)\<rparr>"

section \<open>Blocking and unblocking\<close>

definition schedule_unblock :: "string \<Rightarrow> u64 \<Rightarrow> 'w ip_host \<Rightarrow> outcome \<times> 'w ip_host" where
  "schedule_unblock ip duration_secs st =
     (if 0 < duration_secs then
        (case checked_i64 (ih_now st + u64_as_i64 duration_secs) of
           None \<Rightarrow> (Panicked, st)
         | Some unblock_at \<Rightarrow>
             (let st' = record_pending_block ip unblock_at st
              in (Done, st'\<lparr>ih_timers := ih_timers st' @ [(ip, ih_now st' + int duration_secs)]\<rparr>)))
      else (Done, st))"

text \<open>The checks between parsing and the firewall: why the block is refused, when it is, and the
  cache of backend addresses.\<close>

definition block_guards ::
  "resp_env \<Rightarrow> net_view \<Rightarrow> ip_addr list option \<Rightarrow> ip_addr \<Rightarrow> string option \<times> ip_addr list option" where
  "block_guards env nv cache parsed_ip =
     (if is_loopback parsed_ip \<or> is_unspecified parsed_ip
      then (Some ''Anti-Draper protection: Cannot block localhost'', cache)
      else
        let (is_backend, cache') =
              (case nv_server nv of
                 Some url \<Rightarrow> resolves_to_backend env nv cache url parsed_ip
               | None \<Rightarrow> (False, cache))
        in if is_backend
           then (Some ''Anti-Draper protection: Cannot block the backend API server'', cache')
           else (map_option
                  (\<lambda>role. ''Anti-Draper protection: Cannot block the '' @ role @ '' of this host'')
                  (essential_role env parsed_ip (nv_resolvers nv) (nv_gateways nv)), cache'))"

definition block_ip ::
  "'w runner \<Rightarrow> resp_env \<Rightarrow> (string \<Rightarrow> u64 \<Rightarrow> 'w ip_host \<Rightarrow> outcome \<times> 'w ip_host) \<Rightarrow> net_view \<Rightarrow>
     string \<Rightarrow> u64 \<Rightarrow> 'w ip_host \<Rightarrow> outcome \<times> 'w ip_host" where
  "block_ip run env delegate nv ip duration_secs st =
     (if \<not> nv_admin nv then delegate ip duration_secs st
      else case en_parse env ip of
        None \<Rightarrow> (Failed (''Invalid IP address: '' @ ip), st)
      | Some addr \<Rightarrow>
          let parsed_ip = to_canonical addr in
          (case block_guards env nv (ih_backend_ips st) parsed_ip of
             (Some refusal, cache) \<Rightarrow> (Failed refusal, st\<lparr>ih_backend_ips := cache\<rparr>)
           | (None, cache) \<Rightarrow>
               (case block run (en_text env) (en_backend env) parsed_ip (ih_fw st) of
                  (Some e, fw) \<Rightarrow>
                    (Failed (''Failed to apply firewall rules: '' @ e),
                     st\<lparr>ih_backend_ips := cache, ih_fw := fw\<rparr>)
                | (None, fw) \<Rightarrow>
                    schedule_unblock ip duration_secs (st\<lparr>ih_backend_ips := cache, ih_fw := fw\<rparr>))))"

definition unblock_ip ::
  "'w runner \<Rightarrow> resp_env \<Rightarrow> (string \<Rightarrow> 'w ip_host \<Rightarrow> outcome \<times> 'w ip_host) \<Rightarrow> bool \<Rightarrow>
     string \<Rightarrow> 'w ip_host \<Rightarrow> outcome \<times> 'w ip_host" where
  "unblock_ip run env delegate admin ip st =
     (if \<not> admin then delegate ip st
      else
        let st1 = clear_pending_block ip st in
        case en_parse env ip of
          None \<Rightarrow> (Failed (''Invalid IP address: '' @ ip), st1)
        | Some parsed_ip \<Rightarrow>
            (case unblock run (en_text env) (en_backend env) parsed_ip (ih_fw st1) of
               (Some e, fw) \<Rightarrow>
                 (if en_backend env = Iptables then Failed (''iptables unblock failed: '' @ e) else Done,
                  st1\<lparr>ih_fw := fw\<rparr>)
             | (None, fw) \<Rightarrow> (Done, st1\<lparr>ih_fw := fw\<rparr>)))"

text \<open>A sleeping task wakes once its deadline is reached, and unblocks.\<close>

definition fire_timer ::
  "'w runner \<Rightarrow> resp_env \<Rightarrow> (string \<Rightarrow> 'w ip_host \<Rightarrow> outcome \<times> 'w ip_host) \<Rightarrow> bool \<Rightarrow>
     nat \<Rightarrow> 'w ip_host \<Rightarrow> 'w ip_host option" where
  "fire_timer run env delegate admin i st =
     (if i < length (ih_timers st) \<and> snd (ih_timers st ! i) \<le> ih_now st
      then Some (snd (unblock_ip run env delegate admin (fst (ih_timers st ! i))
             (st\<lparr>ih_timers := take i (ih_timers st) @ drop (Suc i) (ih_timers st)\<rparr>)))
      else None)"

definition reconcile_one ::
  "'w runner \<Rightarrow> resp_env \<Rightarrow> (string \<Rightarrow> 'w ip_host \<Rightarrow> outcome \<times> 'w ip_host) \<Rightarrow> bool \<Rightarrow> i64 \<Rightarrow>
     string \<times> i64 \<Rightarrow> 'w ip_host \<Rightarrow> 'w ip_host" where
  "reconcile_one run env delegate admin now e st =
     (case e of (ip, unblock_at) \<Rightarrow>
        if unblock_at \<le> now then snd (unblock_ip run env delegate admin ip st)
        else st\<lparr>ih_timers := ih_timers st @ [(ip, ih_now st + (unblock_at - now))]\<rparr>)"

definition reconcile_pending_blocks ::
  "'w runner \<Rightarrow> resp_env \<Rightarrow> (string \<Rightarrow> 'w ip_host \<Rightarrow> outcome \<times> 'w ip_host) \<Rightarrow> bool \<Rightarrow>
     'w ip_host \<Rightarrow> 'w ip_host" where
  "reconcile_pending_blocks run env delegate admin st =
     fold (reconcile_one run env delegate admin (ih_now st)) (ih_ledger st) st"

text \<open>A restart loses the timers and the cache; start-up then reconciles.\<close>

definition restart ::
  "'w runner \<Rightarrow> resp_env \<Rightarrow> (string \<Rightarrow> 'w ip_host \<Rightarrow> outcome \<times> 'w ip_host) \<Rightarrow> bool \<Rightarrow> 'w ip_host \<Rightarrow> 'w ip_host" where
  "restart run env delegate admin st =
     reconcile_pending_blocks run env delegate admin (st\<lparr>ih_timers := [], ih_backend_ips := None\<rparr>)"

section \<open>The agent's service, step by step\<close>

text \<open>
  One step of the service (which runs as root, so nothing is delegated): the clock advances, an
  address is blocked or unblocked, a due timer fires, or the service restarts. Each operation runs to its end before the
  next: the steps are those of a service whose operations do not overlap. The code does not exclude an overlap, which can
  stack rules (\<open>overlapping_blocks_stack\<close> of \<open>Ip_Block\<close>) and, as reading and writing the ledger are two awaits, lose an
  entry. A duration is any value of its type.
\<close>

inductive ip_step :: "'w runner \<Rightarrow> resp_env \<Rightarrow> 'w ip_host \<Rightarrow> 'w ip_host \<Rightarrow> bool"
  for run :: "'w runner" and env :: resp_env where
  tick: "ih_now st \<le> t \<Longrightarrow> in_i64 t \<Longrightarrow> ip_step run env st (st\<lparr>ih_now := t\<rparr>)"
| block: "nv_admin nv \<Longrightarrow> secs \<le> u64_max \<Longrightarrow> block_ip run env delegate nv ip secs st = (r, st') \<Longrightarrow> ip_step run env st st'"
| unblock: "unblock_ip run env delegate True ip st = (r, st') \<Longrightarrow> ip_step run env st st'"
| fire: "fire_timer run env delegate True i st = Some st' \<Longrightarrow> ip_step run env st st'"
| restart: "restart run env delegate True st = st' \<Longrightarrow> ip_step run env st st'"

inductive ip_reachable :: "'w runner \<Rightarrow> resp_env \<Rightarrow> 'w ip_host \<Rightarrow> 'w ip_host \<Rightarrow> bool"
  for run :: "'w runner" and env :: resp_env and st0 :: "'w ip_host" where
  start: "ip_reachable run env st0 st0"
| step: "ip_reachable run env st0 st \<Longrightarrow> ip_step run env st st' \<Longrightarrow> ip_reachable run env st0 st'"

text \<open>
  The invariant: no firewall rule is stacked or cuts the loopback or the unspecified address;
  the ledger has distinct keys and a sleeping timer for each of its entries, due no later unless the entry is over already
  (a duration of \<open>2^63\<close> or more is negative as an \<open>i64\<close>: its deadline is recorded in the past).
\<close>

definition ledger_covered :: "'w ip_host \<Rightarrow> bool" where
  "ledger_covered st \<longleftrightarrow> (\<forall>(ip, at)\<in>set (ih_ledger st). \<exists>t. (ip, t) \<in> set (ih_timers st) \<and> (t \<le> at \<or> at < ih_now st))"

definition safe_rules :: "(direction \<times> ip_addr) multiset \<Rightarrow> bool" where
  "safe_rules m \<longleftrightarrow> (\<forall>r. count m r \<le> 1) \<and>
     (\<forall>(d, ip)\<in>#m. \<not> is_loopback ip \<and> \<not> is_unspecified ip)"

definition ip_inv :: "('w \<Rightarrow> (direction \<times> ip_addr) multiset) \<Rightarrow> 'w ip_host \<Rightarrow> bool" where
  "ip_inv rules st \<longleftrightarrow> safe_rules (rules (ih_fw st)) \<and> hm_wf (ih_ledger st) \<and> ledger_covered st"

lemma safe_rules_filter: "safe_rules m \<Longrightarrow> safe_rules (filter_mset P m)"
  by (auto simp: safe_rules_def)

lemma ip_inv_later: "ip_inv rules st \<Longrightarrow> ih_now st \<le> t \<Longrightarrow> ip_inv rules (st\<lparr>ih_now := t\<rparr>)"
  by (fastforce simp: ip_inv_def ledger_covered_def)

lemma to_canonical_idem: "to_canonical (to_canonical ip) = to_canonical ip"
  by (auto simp: to_canonical_def split: ip_addr.splits)


section \<open>Facts about the operations\<close>

lemma schedule_unblock_frame:
  "schedule_unblock ip secs st = (r, st') \<Longrightarrow> ih_fw st' = ih_fw st \<and> ih_now st' = ih_now st"
  by (auto simp: schedule_unblock_def record_pending_block_def Let_def split: if_splits option.splits)

text \<open>Either a guard refuses and the firewall is left alone, or every guard let the address pass.\<close>

definition passes_guards :: "resp_env \<Rightarrow> net_view \<Rightarrow> ip_addr list option \<Rightarrow> ip_addr \<Rightarrow> bool" where
  "passes_guards env nv cache ip \<longleftrightarrow>
     \<not> is_loopback ip \<and> \<not> is_unspecified ip \<and>
     (case nv_server nv of Some url \<Rightarrow> \<not> fst (resolves_to_backend env nv cache url ip) | None \<Rightarrow> True) \<and>
     list_all (\<lambda>a. parse_reported_address env a \<noteq> Some ip) (nv_resolvers nv @ nv_gateways nv)"

lemma essential_role_None:
  "essential_role env ip rs gs = None \<longleftrightarrow> list_all (\<lambda>a. parse_reported_address env a \<noteq> Some ip) (rs @ gs)"
  by (auto simp: essential_role_def Let_def list_ex_iff list_all_iff)

lemma block_guards_None:
  "block_guards env nv cache ip = (None, cache') \<Longrightarrow> passes_guards env nv cache ip"
  by (auto simp: block_guards_def passes_guards_def Let_def essential_role_None case_prod_beta
      split: if_splits option.splits)

lemma block_ip_admin_cases:
  assumes "nv_admin nv" and "block_ip run env delegate nv ip secs st = (r, st')"
  obtains (refused) e cache where "r = Failed e" "st' = st\<lparr>ih_backend_ips := cache\<rparr>"
  | (fw_failed) e addr cache where "r = Failed (''Failed to apply firewall rules: '' @ e)"
      "en_parse env ip = Some addr"
      "passes_guards env nv (ih_backend_ips st) (to_canonical addr)"
      "fst (Ip_Block.block run (en_text env) (en_backend env) (to_canonical addr) (ih_fw st)) = Some e"
      "st' = st\<lparr>ih_backend_ips := cache,
          ih_fw := snd (Ip_Block.block run (en_text env) (en_backend env) (to_canonical addr) (ih_fw st))\<rparr>"
  | (applied) addr cache where "en_parse env ip = Some addr"
      "passes_guards env nv (ih_backend_ips st) (to_canonical addr)"
      "fst (Ip_Block.block run (en_text env) (en_backend env) (to_canonical addr) (ih_fw st)) = None"
      "schedule_unblock ip secs (st\<lparr>ih_backend_ips := cache,
          ih_fw := snd (Ip_Block.block run (en_text env) (en_backend env) (to_canonical addr) (ih_fw st))\<rparr>) = (r, st')"
proof (cases "en_parse env ip")
  case None
  have "st = st\<lparr>ih_backend_ips := ih_backend_ips st\<rparr>" by simp
  with assms None show ?thesis by (intro refused [of _ "ih_backend_ips st"]) (auto simp: block_ip_def)
next
  case (Some addr)
  obtain g cache where g: "block_guards env nv (ih_backend_ips st) (to_canonical addr) = (g, cache)" by force
  obtain e fw where blk: "Ip_Block.block run (en_text env) (en_backend env) (to_canonical addr) (ih_fw st) = (e, fw)"
    by force
  show ?thesis
  proof (cases g)
    case None
    with g have "passes_guards env nv (ih_backend_ips st) (to_canonical addr)" by (auto intro: block_guards_None)
    with assms Some g None blk fw_failed [of _ addr cache] applied [of addr cache] show ?thesis
      by (cases e) (auto simp: block_ip_def)
  next
    case (Some msg)
    with assms \<open>en_parse env ip = Some addr\<close> g show ?thesis
      by (intro refused) (auto simp: block_ip_def)
  qed
qed


section \<open>The invariant is kept\<close>

lemma schedule_unblock_inv:
  assumes "ledger_covered st" and "hm_wf (ih_ledger st)" and "secs \<le> u64_max"
    and "schedule_unblock ip secs st = (r, st')"
  shows "ledger_covered st' \<and> hm_wf (ih_ledger st')"
  using assms
  by (fastforce simp: schedule_unblock_def record_pending_block_def Let_def ledger_covered_def
      hm_update_mem checked_i64_def u64_as_i64_def u64_max_def split: if_splits option.splits)

lemma unblock_ip_frame:
  assumes "unblock_ip run env delegate True ip st = (r, st')"
  shows "ih_ledger st' = AList.delete ip (ih_ledger st) \<and> ih_timers st' = ih_timers st \<and> ih_now st' = ih_now st
    \<and> ih_fw st' = (case en_parse env ip of None \<Rightarrow> ih_fw st
        | Some a \<Rightarrow> snd (Ip_Block.unblock run (en_text env) (en_backend env) a (ih_fw st)))"
  using assms
  by (auto simp: unblock_ip_def clear_pending_block_def Let_def split: option.splits prod.splits)

context firewall
begin

text \<open>Unblocking keeps the rules safe whatever the ledger and the timers are.\<close>

lemma unblock_ip_safe:
  assumes "safe_rules (rules (ih_fw st))" and "en_text env = addr_text" and "en_backend env = backend"
    and "unblock_ip run env delegate True ip st = (r, st')"
  shows "safe_rules (rules (ih_fw st'))"
proof -
  have "unstacked (ih_fw st)" using assms(1) by (simp add: safe_rules_def unstacked_def)
  then show ?thesis
    using assms(1-3) unblock_ip_frame [OF assms(4)]
    by (auto simp: unblock_rules(1) safe_rules_filter split: option.splits)
qed

lemma unblock_ip_keeps:
  assumes "ip_inv rules st" and "en_text env = addr_text" and "en_backend env = backend"
    and "unblock_ip run env delegate True ip st = (r, st')"
  shows "ip_inv rules st'"
  using assms unblock_ip_safe [of st env delegate ip r st'] unblock_ip_frame [OF assms(4)]
  by (auto simp: ip_inv_def ledger_covered_def AList.delete_eq)

lemma fire_timer_keeps:
  assumes "ip_inv rules st" and "en_text env = addr_text" and "en_backend env = backend"
    and "fire_timer run env delegate True i st = Some st'"
  shows "ip_inv rules st'"
proof -
  let ?ts = "take i (ih_timers st) @ drop (Suc i) (ih_timers st)"
  obtain ip t where it: "ih_timers st ! i = (ip, t)" by force
  from assms(4) it have i: "i < length (ih_timers st)"
    and u: "st' = snd (unblock_ip run env delegate True ip (st\<lparr>ih_timers := ?ts\<rparr>))"
    by (auto simp: fire_timer_def split: if_splits)
  obtain r where u: "unblock_ip run env delegate True ip (st\<lparr>ih_timers := ?ts\<rparr>) = (r, st')"
    using u by (metis prod.collapse)
  note fr = unblock_ip_frame [OF u]
  have ts: "(k, t') \<in> set ?ts" if "(k, t') \<in> set (ih_timers st)" "k \<noteq> ip" for k t'
  proof -
    have "ih_timers st = take i (ih_timers st) @ (ip, t) # drop (Suc i) (ih_timers st)"
      using i it by (metis id_take_nth_drop)
    then have "set (ih_timers st) = insert (ip, t) (set ?ts)" by (metis Un_insert_right list.simps(15) set_append)
    with that show ?thesis by auto
  qed
  have cov: "ledger_covered st'"
    using assms(1) fr ts by (fastforce simp: ip_inv_def ledger_covered_def AList.delete_eq)
  have "safe_rules (rules (ih_fw st'))"
    using assms(1-3) u by (auto simp: ip_inv_def elim: unblock_ip_safe [rotated 3])
  with assms(1) fr cov show ?thesis by (simp add: ip_inv_def)
qed

lemma block_ip_keeps:
  assumes "ip_inv rules st" and "en_text env = addr_text" and "en_backend env = backend"
    and "nv_admin nv" and "secs \<le> u64_max" and "block_ip run env delegate nv ip secs st = (r, st')"
  shows "ip_inv rules st'"
proof -
  have un: "unstacked (ih_fw st)" using assms(1) by (simp add: ip_inv_def safe_rules_def unstacked_def)
  have fw: "safe_rules (rules (snd (Ip_Block.block run (en_text env) (en_backend env) a (ih_fw st))))"
    if "passes_guards env nv cache a" for a cache
    using that assms(1-3) un
    by (auto simp: ip_inv_def block_rules safe_rules_def passes_guards_def)
  from assms(4,6) show ?thesis
  proof (cases rule: block_ip_admin_cases)
    case (refused e cache)
    with assms(1) show ?thesis by (simp add: ip_inv_def ledger_covered_def)
  next
    case (fw_failed e addr cache)
    with assms(1) fw show ?thesis by (simp add: ip_inv_def ledger_covered_def)
  next
    case (applied addr cache)
    from schedule_unblock_inv [OF _ _ assms(5) applied(4)] schedule_unblock_frame [OF applied(4)] assms(1) fw applied(2)
    show ?thesis by (simp add: ip_inv_def ledger_covered_def)
  qed
qed

text \<open>During a reconciliation the entries not yet looked at may lack a timer.\<close>

definition covered_but :: "(string \<times> i64) list \<Rightarrow> 'a ip_host \<Rightarrow> bool" where
  "covered_but es st \<longleftrightarrow>
     (\<forall>(ip, at)\<in>set (ih_ledger st).
        (\<exists>t. (ip, t) \<in> set (ih_timers st) \<and> (t \<le> at \<or> at < ih_now st)) \<or> (ip, at) \<in> set es)"

lemma reconcile_fold:
  assumes "safe_rules (rules (ih_fw st))" and "hm_wf (ih_ledger st)" and "covered_but es st"
    and "en_text env = addr_text" and "en_backend env = backend"
  shows "ip_inv rules (fold (reconcile_one run env delegate True (ih_now st)) es st)"
  using assms(1-3)
proof (induction es arbitrary: st)
  case Nil
  then show ?case by (simp add: ip_inv_def covered_but_def ledger_covered_def)
next
  case (Cons e es)
  obtain ip at where e: "e = (ip, at)" by force
  let ?st = "reconcile_one run env delegate True (ih_now st) e st"
  have "safe_rules (rules (ih_fw ?st)) \<and> hm_wf (ih_ledger ?st) \<and> covered_but es ?st \<and> ih_now ?st = ih_now st"
  proof (cases "at \<le> ih_now st")
    case True
    obtain r st' where u: "unblock_ip run env delegate True ip st = (r, st')" by force
    have "?st = st'" by (simp add: reconcile_one_def e u True)
    with unblock_ip_frame [OF u] unblock_ip_safe [OF Cons.prems(1) assms(4,5) u] Cons.prems(2,3) show ?thesis
      by (auto simp: covered_but_def e AList.delete_eq hm_wf_def intro: distinct_map_filter)
  next
    case False
    with Cons.prems show ?thesis by (fastforce simp: reconcile_one_def e covered_but_def)
  qed
  then show ?case using Cons.IH [of ?st] by simp
qed

lemma restart_keeps:
  assumes "ip_inv rules st" and "en_text env = addr_text" and "en_backend env = backend"
  shows "ip_inv rules (restart run env delegate True st)"
  using assms reconcile_fold [of "st\<lparr>ih_timers := [], ih_backend_ips := None\<rparr>" "ih_ledger st" env delegate]
  by (auto simp: restart_def reconcile_pending_blocks_def ip_inv_def covered_but_def)

lemma ip_step_keeps:
  assumes "ip_step run env st st'" and "ip_inv rules st" and "en_text env = addr_text" and "en_backend env = backend"
  shows "ip_inv rules st'"
  using assms(1)
proof cases
  case (tick t)
  with assms(2) show ?thesis by (simp add: ip_inv_later)
next
  case (block nv secs delegate ip r)
  with assms block_ip_keeps show ?thesis by blast
next
  case (unblock delegate ip r)
  with assms unblock_ip_keeps show ?thesis by blast
next
  case (fire delegate i)
  with assms fire_timer_keeps show ?thesis by blast
next
  case (restart delegate)
  with assms restart_keeps show ?thesis by blast
qed

lemma ip_reachable_inv:
  assumes "ip_reachable run env st0 st" and "ip_inv rules st0" and "en_text env = addr_text" and "en_backend env = backend"
  shows "ip_inv rules st"
  using assms by (induction rule: ip_reachable.induct) (auto intro: ip_step_keeps)

lemma block_ip_outcome_aux:
  assumes "safe_rules (rules (ih_fw st))" and "en_text env = addr_text" and "en_backend env = backend"
    and "nv_admin nv" and "block_ip run env delegate nv ip secs st = (r, st')"
  shows "case r of
      Failed e \<Rightarrow> rules (ih_fw st') \<subseteq># rules (ih_fw st) \<and> ih_ledger st' = ih_ledger st \<and> ih_timers st' = ih_timers st
    | _ \<Rightarrow> \<exists>addr. en_parse env ip = Some addr \<and> passes_guards env nv (ih_backend_ips st) (to_canonical addr) \<and>
        rules (ih_fw st') = filter_mset (\<lambda>x. snd x \<noteq> to_canonical addr) (rules (ih_fw st))
          + {#(Incoming, to_canonical addr), (Outgoing, to_canonical addr)#}"
proof -
  have un: "unstacked (ih_fw st)" using assms(1) by (simp add: safe_rules_def unstacked_def)
  from assms(4,5) show ?thesis
  proof (cases rule: block_ip_admin_cases)
    case (refused e cache)
    then show ?thesis by simp
  next
    case (fw_failed e addr cache)
    with assms(2,3) block_rules [OF un, of "to_canonical addr"] show ?thesis by simp
  next
    case (applied addr cache)
    have "r = Done \<or> r = Panicked"
      using applied(4) by (auto simp: schedule_unblock_def Let_def split: if_splits option.splits)
    with assms(2,3) block_rules [OF un, of "to_canonical addr"] applied schedule_unblock_frame [OF applied(4)]
    show ?thesis by auto
  qed
qed

lemma fire_lifts:
  assumes "safe_rules (rules (ih_fw st))" and "en_text env = addr_text" and "en_backend env = backend"
    and "fire_timer run env delegate True i st = Some st'" and "en_parse env (fst (ih_timers st ! i)) = Some a"
  shows "lifted (ih_fw st') a \<and> map_of (ih_ledger st') (fst (ih_timers st ! i)) = None"
proof -
  let ?ip = "fst (ih_timers st ! i)"
  obtain r where u: "unblock_ip run env delegate True ?ip
      (st\<lparr>ih_timers := take i (ih_timers st) @ drop (Suc i) (ih_timers st)\<rparr>) = (r, st')"
    using assms(4) by (auto simp: fire_timer_def split: if_splits) (metis prod.collapse)
  have "unstacked (ih_fw st)" using assms(1) by (simp add: safe_rules_def unstacked_def)
  from unblock_rules(1) [OF this, of a] unblock_ip_frame [OF u] assms(2,3,5) show ?thesis
    by (simp add: lifted_def delete_conv')
qed

end

section \<open>Properties\<close>

text \<open>C4: A block that succeeds (or dies on an absurd duration after the rules were set) put exactly
  one rule per direction on the canonical address, which is neither the loopback nor the unspecified
  address, nor the backend, a resolver or a gateway of the host; a block that fails adds no rule,
  records no deadline and starts no timer.\<close>

theorem block_ip_outcome:
  assumes "firewall run (en_text env) (en_backend env) rules" and "safe_rules (rules (ih_fw st))"
    and "nv_admin nv" and "block_ip run env delegate nv ip secs st = (r, st')"
  shows "case r of
      Failed e \<Rightarrow> rules (ih_fw st') \<subseteq># rules (ih_fw st) \<and> ih_ledger st' = ih_ledger st \<and> ih_timers st' = ih_timers st
    | _ \<Rightarrow> \<exists>addr. en_parse env ip = Some addr \<and> passes_guards env nv (ih_backend_ips st) (to_canonical addr) \<and>
        rules (ih_fw st') = filter_mset (\<lambda>x. snd x \<noteq> to_canonical addr) (rules (ih_fw st))
          + {#(Incoming, to_canonical addr), (Outgoing, to_canonical addr)#}"
  using firewall.block_ip_outcome_aux [OF assms(1,2) refl refl assms(3,4)] .

text \<open>C5: As long as its operations do not overlap, in every state the service reaches from one that satisfies it, whatever
  the order of blocks of any duration, unblocks, expiries, clock advances and restarts, no firewall rule is stacked, none
  cuts the loopback or the unspecified address, and every deadline of the ledger has a sleeping timer, due no later
  unless the deadline is in the past already: a timed block always has someone left to lift it.\<close>

theorem ip_service_invariant:
  assumes "firewall run (en_text env) (en_backend env) rules" and "ip_inv rules st0"
    and "ip_reachable run env st0 st"
  shows "ip_inv rules st"
  using firewall.ip_reachable_inv [OF assms(1,3,2) refl refl] .

text \<open>When a timer fires, no rule of the address its text parses to is left and the ledger no
  longer holds the text: a timed block written in canonical form ends at its deadline.\<close>

theorem expired_block_is_lifted:
  assumes "firewall run (en_text env) (en_backend env) rules" and "ip_inv rules st"
    and "fire_timer run env delegate True i st = Some st'" and "en_parse env (fst (ih_timers st ! i)) = Some a"
  shows "(\<forall>d. (d, a) \<notin># rules (ih_fw st')) \<and> map_of (ih_ledger st') (fst (ih_timers st ! i)) = None"
  using firewall.fire_lifts [OF assms(1) _ refl refl assms(3,4)] assms(2)
  by (simp add: ip_inv_def firewall.lifted_def [OF assms(1)])

text \<open>A block asked for with an IPv4 address written as IPv6 (\<open>::ffff:203.0.113.7\<close>) is never
  lifted: the rules are set on the canonical address, and when the deadline comes the unblock looks for
  rules of the address as written. Both rules stay in force while the ledger forgets the block.\<close>

theorem mapped_block_stays:
  assumes "firewall run (en_text env) (en_backend env) rules" and "safe_rules (rules (ih_fw st))"
    and "nv_admin nv" and "block_ip run env delegate nv ip secs st = (Done, st1)"
    and "en_parse env ip = Some a" and "to_canonical a \<noteq> a"
    and "ih_now st1 \<le> t" and "fire_timer run env delegate' True i (st1\<lparr>ih_now := t\<rparr>) = Some st2"
    and "fst (ih_timers st1 ! i) = ip"
  shows "(\<forall>d. (d, to_canonical a) \<in># rules (ih_fw st2)) \<and> map_of (ih_ledger st2) ip = None"
proof -
  have r1: "rules (ih_fw st1) = filter_mset (\<lambda>x. snd x \<noteq> to_canonical a) (rules (ih_fw st))
      + {#(Incoming, to_canonical a), (Outgoing, to_canonical a)#}"
    using firewall.block_ip_outcome_aux [OF assms(1,2) refl refl assms(3,4)] assms(5) by simp
  let ?st = "st1\<lparr>ih_now := t, ih_timers := take i (ih_timers st1) @ drop (Suc i) (ih_timers st1)\<rparr>"
  obtain r where u: "unblock_ip run env delegate' True ip ?st = (r, st2)"
    using assms(8,9) by (auto simp: fire_timer_def split: if_splits) (metis prod.collapse)
  have un: "firewall.unstacked rules (ih_fw st1)"
    using assms(2) unfolding firewall.unstacked_def [OF assms(1)] r1
    by (auto simp: safe_rules_def count_eq_zero_iff)
  have "rules (ih_fw st2) = filter_mset (\<lambda>x. snd x \<noteq> a) (rules (ih_fw st1))"
    using firewall.unblock_rules(1) [OF assms(1) un, of a] unblock_ip_frame [OF u] assms(5) by simp
  then have "(d, to_canonical a) \<in># rules (ih_fw st2)" for d
    using assms(6) r1 by (cases d) simp_all
  with unblock_ip_frame [OF u] show ?thesis by (simp add: delete_conv')
qed

text \<open>Blocking an address again does not outlive the timer of an earlier block of it: when that
  timer comes due the rules are removed and the new deadline is dropped from the ledger, however much
  longer (or however indefinitely) the second block was asked to last.\<close>

theorem earlier_timer_cuts_block_short:
  assumes "firewall run (en_text env) (en_backend env) rules" and "safe_rules (rules (ih_fw st))"
    and "i < length (ih_timers st)" and "ih_timers st ! i = (ip, due)"
    and "en_parse env ip = Some a" and "to_canonical a = a"
    and "nv_admin nv" and "block_ip run env delegate nv ip secs st = (Done, st1)" and "due \<le> t"
  shows "\<exists>st2. fire_timer run env delegate' True i (st1\<lparr>ih_now := t\<rparr>) = Some st2 \<and>
     (\<forall>d. (d, a) \<in># rules (ih_fw st1)) \<and> (\<forall>d. (d, a) \<notin># rules (ih_fw st2)) \<and> map_of (ih_ledger st2) ip = None"
proof -
  from assms(7,8) have timers: "take (length (ih_timers st)) (ih_timers st1) = ih_timers st"
  proof (cases rule: block_ip_admin_cases)
    case (applied addr cache)
    then show ?thesis
      by (auto simp: schedule_unblock_def record_pending_block_def Let_def split: if_splits option.splits)
  qed simp_all
  then have i1: "i < length (ih_timers st1)" "ih_timers st1 ! i = (ip, due)"
    using assms(3,4) by (metis length_take min_less_iff_conj, metis nth_take)
  then obtain st2 where st2: "fire_timer run env delegate' True i (st1\<lparr>ih_now := t\<rparr>) = Some st2"
    using assms(9) by (simp add: fire_timer_def)
  have r1: "rules (ih_fw st1) = filter_mset (\<lambda>x. snd x \<noteq> a) (rules (ih_fw st)) + {#(Incoming, a), (Outgoing, a)#}"
    using firewall.block_ip_outcome_aux [OF assms(1,2) refl refl assms(7,8)] assms(5,6) by simp
  have "(d, a) \<in># rules (ih_fw st1)" for d using r1 by (cases d) simp_all
  moreover have "safe_rules (rules (ih_fw st1))"
  proof -
    have "\<not> is_loopback a \<and> \<not> is_unspecified a"
      using firewall.block_ip_outcome_aux [OF assms(1,2) refl refl assms(7,8)] assms(5,6)
      by (simp add: passes_guards_def)
    with assms(2) r1 show ?thesis by (auto simp: safe_rules_def count_eq_zero_iff)
  qed
  ultimately show ?thesis
    using st2 i1 assms(5) firewall.fire_lifts [OF assms(1) _ refl refl st2, of a]
    by (simp add: firewall.lifted_def [OF assms(1)])
qed

section \<open>Witnesses\<close>

definition sample_env :: resp_env where
  "sample_env = \<lparr>en_parse = plain_parse, en_text = plain_text, en_backend = Iptables\<rparr>"

definition sample_view :: net_view where
  "sample_view = \<lparr>nv_admin = True, nv_server = None, nv_lookup = None, nv_resolvers = [], nv_gateways = []\<rparr>"

definition sample_host :: "rule_table ip_host" where
  "sample_host = \<lparr>ih_fw = [], ih_ledger = [], ih_timers = [], ih_backend_ips = None, ih_now = 0\<rparr>"

definition nobody :: "string \<Rightarrow> rule_table ip_host \<Rightarrow> outcome \<times> rule_table ip_host" where
  "nobody _ st = (Done, st)"

lemma sample_firewall: "firewall iptables_run (en_text sample_env) (en_backend sample_env) table_rules"
  using tables.firewall_axioms by (simp add: sample_env_def)

lemma sample_inv: "ip_inv table_rules sample_host"
  by (simp add: ip_inv_def sample_host_def safe_rules_def ledger_covered_def table_rules_def List.map_filter_def)

definition blocked_once :: "string \<Rightarrow> rule_table ip_host" where
  "blocked_once ip = snd (block_ip iptables_run sample_env (\<lambda>_ _ st. (Done, st)) sample_view ip 60 sample_host)"

lemma blocked_once_eq:
  "block_ip iptables_run sample_env (\<lambda>_ _ st. (Done, st)) sample_view ''4100'' 60 sample_host = (Done, blocked_once ''4100'')"
  "ih_timers (blocked_once ''4100'') = [(''4100'', 60)]" "ih_now (blocked_once ''4100'') = 0"
  by code_simp+

theorem block_ip_outcome_witness:
  "\<exists>addr. en_parse sample_env ''4100'' = Some addr \<and>
     passes_guards sample_env sample_view (ih_backend_ips sample_host) (to_canonical addr) \<and>
     table_rules (ih_fw (blocked_once ''4100'')) =
       filter_mset (\<lambda>x. snd x \<noteq> to_canonical addr) (table_rules (ih_fw sample_host))
       + {#(Incoming, to_canonical addr), (Outgoing, to_canonical addr)#}"
proof -
  have "safe_rules (table_rules (ih_fw sample_host))" "nv_admin sample_view"
    using sample_inv by (simp_all add: ip_inv_def sample_view_def)
  from block_ip_outcome [OF sample_firewall this blocked_once_eq(1)] show ?thesis by simp
qed

lemma sample_reachable: "ip_reachable iptables_run sample_env sample_host (blocked_once ''4100'')"
  by (rule ip_reachable.step [OF ip_reachable.start])
     (rule ip_step.block [OF _ _ blocked_once_eq(1)], simp_all add: sample_view_def u64_max_def)

theorem ip_service_invariant_witness: "ip_inv table_rules (blocked_once ''4100'')"
  by (rule ip_service_invariant [OF sample_firewall sample_inv sample_reachable])

lemma sample_fire:
  "fire_timer iptables_run sample_env nobody True 0 (blocked_once ''4100''\<lparr>ih_now := 60\<rparr>)
     = Some (snd (unblock_ip iptables_run sample_env nobody True ''4100''
         (blocked_once ''4100''\<lparr>ih_now := 60, ih_timers := []\<rparr>)))"
  by (simp add: fire_timer_def blocked_once_eq)

lemma blocked_once_inv: "ip_inv table_rules (blocked_once ''4100'')"
  by (rule firewall.ip_reachable_inv [OF sample_firewall sample_reachable sample_inv]) simp_all

theorem expired_block_is_lifted_witness:
  "\<forall>d. (d, V4 100) \<notin># table_rules (ih_fw (snd (unblock_ip iptables_run sample_env nobody True ''4100''
      (blocked_once ''4100''\<lparr>ih_now := 60, ih_timers := []\<rparr>))))"
proof -
  have inv: "ip_inv table_rules (blocked_once ''4100''\<lparr>ih_now := 60\<rparr>)"
    using blocked_once_inv by (rule ip_inv_later) (simp add: blocked_once_eq)
  have "en_parse sample_env (fst (ih_timers (blocked_once ''4100''\<lparr>ih_now := 60\<rparr>) ! 0)) = Some (V4 100)"
    by code_simp
  from expired_block_is_lifted [OF sample_firewall inv sample_fire this] show ?thesis by blast
qed

lemma blocked_mapped_eq:
  "block_ip iptables_run sample_env (\<lambda>_ _ st. (Done, st)) sample_view ''6281470681743460'' 60 sample_host
     = (Done, blocked_once ''6281470681743460'')"
  "ih_timers (blocked_once ''6281470681743460'') = [(''6281470681743460'', 60)]"
  "ih_now (blocked_once ''6281470681743460'') = 0"
  "en_parse sample_env ''6281470681743460'' = Some (V6 281470681743460)"
  "to_canonical (V6 281470681743460) = V4 100"
  by code_simp+

theorem mapped_block_stays_witness:
  "\<exists>st2. fire_timer iptables_run sample_env nobody True 0 (blocked_once ''6281470681743460''\<lparr>ih_now := 60\<rparr>) = Some st2
     \<and> (\<forall>d. (d, V4 100) \<in># table_rules (ih_fw st2)) \<and> map_of (ih_ledger st2) ''6281470681743460'' = None"
proof -
  let ?ip = "''6281470681743460''"
  have h: "safe_rules (table_rules (ih_fw sample_host))" "nv_admin sample_view"
    using sample_inv by (simp_all add: ip_inv_def sample_view_def)
  have ne: "to_canonical (V6 281470681743460) \<noteq> V6 281470681743460" by (simp add: blocked_mapped_eq)
  have le: "ih_now (blocked_once ?ip) \<le> 60" by (simp add: blocked_mapped_eq)
  obtain st2 where st2: "fire_timer iptables_run sample_env nobody True 0 (blocked_once ?ip\<lparr>ih_now := 60\<rparr>) = Some st2"
    by (simp add: fire_timer_def blocked_mapped_eq)
  have "fst (ih_timers (blocked_once ?ip) ! 0) = ?ip" by (simp add: blocked_mapped_eq)
  from mapped_block_stays [OF sample_firewall h blocked_mapped_eq(1,4) ne le st2 this] st2
  show ?thesis by (auto simp: blocked_mapped_eq(5))
qed

theorem earlier_timer_cuts_block_short_witness:
  "\<exists>st1 st2. block_ip iptables_run sample_env (\<lambda>_ _ st. (Done, st)) sample_view ''4100'' 7200 (blocked_once ''4100'') = (Done, st1)
     \<and> fire_timer iptables_run sample_env nobody True 0 (st1\<lparr>ih_now := 60\<rparr>) = Some st2
     \<and> (\<forall>d. (d, V4 100) \<in># table_rules (ih_fw st1)) \<and> (\<forall>d. (d, V4 100) \<notin># table_rules (ih_fw st2))"
proof -
  obtain st1 where b: "block_ip iptables_run sample_env (\<lambda>_ _ st. (Done, st)) sample_view ''4100'' 7200
      (blocked_once ''4100'') = (Done, st1)"
  proof -
    have "fst (block_ip iptables_run sample_env (\<lambda>_ _ st. (Done, st)) sample_view ''4100'' 7200
      (blocked_once ''4100'')) = Done" by code_simp
    with that show ?thesis by (metis prod.collapse)
  qed
  have h: "safe_rules (table_rules (ih_fw (blocked_once ''4100'')))" using blocked_once_inv by (simp add: ip_inv_def)
  have t: "0 < length (ih_timers (blocked_once ''4100''))" "ih_timers (blocked_once ''4100'') ! 0 = (''4100'', 60)"
    by (simp_all add: blocked_once_eq)
  have p: "en_parse sample_env ''4100'' = Some (V4 100)" "to_canonical (V4 100) = V4 100" by code_simp+
  have a: "nv_admin sample_view" by (simp add: sample_view_def)
  from earlier_timer_cuts_block_short [OF sample_firewall h t p a b, of 60 nobody] b show ?thesis by blast
qed

end
