(* ===== verification/Sync_Queue.thy ===== *)
theory Sync_Queue imports Prelude "HOL-Library.Multiset" "HOL-Library.Product_Lexorder" begin

text \<open>
  The offline upload queue (\<open>crates/agent-storage/src/repositories/sync_queue.rs\<close>): the table
  \<open>sync_queue\<close> and the operations of its repository, with the tables of editable records
  (playbooks, detection rules, risks, assets, alert rules, webhooks) as far as those operations
  touch them.

  A table is the list of its rows in scan order. The SQL statements are taken to succeed; what
  remains is their meaning: \<open>ORDER BY .. LIMIT\<close> is \<^const>\<open>order_limit\<close>, \<open>LIKE '%_delete'\<close> is
  \<open>like_delete\<close>. Times are whole seconds, as the code formats them. \<open>AUTOINCREMENT\<close> gives an id
  larger than any the table ever had (\<open>sq_next_id\<close>).
\<close>

section \<open>Types\<close>

definition MAX_SYNC_QUEUE_SIZE :: nat where "MAX_SYNC_QUEUE_SIZE = 10000"
definition DEFAULT_MAX_ATTEMPTS :: u32 where "DEFAULT_MAX_ATTEMPTS = 10"

datatype sync_entity_type =
    CheckResult | Proof | Heartbeat | Config | Playbook | PlaybookDelete | DetectionRule
  | DetectionRuleDelete | Risk | RiskDelete | Asset | Kpi | AlertRule | AlertRuleDelete
  | Webhook | WebhookDelete | Incident

fun as_str :: "sync_entity_type \<Rightarrow> string" where
  "as_str CheckResult = ''check_result''"
| "as_str Proof = ''proof''"
| "as_str Heartbeat = ''heartbeat''"
| "as_str Config = ''config''"
| "as_str Playbook = ''playbook''"
| "as_str PlaybookDelete = ''playbook_delete''"
| "as_str DetectionRule = ''detection_rule''"
| "as_str DetectionRuleDelete = ''detection_rule_delete''"
| "as_str Risk = ''risk''"
| "as_str RiskDelete = ''risk_delete''"
| "as_str Asset = ''asset''"
| "as_str Kpi = ''kpi''"
| "as_str AlertRule = ''alert_rule''"
| "as_str AlertRuleDelete = ''alert_rule_delete''"
| "as_str Webhook = ''webhook''"
| "as_str WebhookDelete = ''webhook_delete''"
| "as_str Incident = ''incident''"

definition parse_str :: "string \<Rightarrow> sync_entity_type option" where
  "parse_str s =
     (if s = ''check_result'' then Some CheckResult
      else if s = ''proof'' then Some Proof
      else if s = ''heartbeat'' then Some Heartbeat
      else if s = ''config'' then Some Config
      else if s = ''playbook'' then Some Playbook
      else if s = ''playbook_delete'' then Some PlaybookDelete
      else if s = ''detection_rule'' then Some DetectionRule
      else if s = ''detection_rule_delete'' then Some DetectionRuleDelete
      else if s = ''risk'' then Some Risk
      else if s = ''risk_delete'' then Some RiskDelete
      else if s = ''asset'' then Some Asset
      else if s = ''kpi'' then Some Kpi
      else if s = ''alert_rule'' then Some AlertRule
      else if s = ''alert_rule_delete'' then Some AlertRuleDelete
      else if s = ''webhook'' then Some Webhook
      else if s = ''webhook_delete'' then Some WebhookDelete
      else if s = ''incident'' then Some Incident
      else None)"

record sync_queue_entry =
  se_entity_type :: sync_entity_type
  se_entity_id :: string
  se_payload :: string
  se_priority :: int
  se_max_attempts :: u32

definition new_entry :: "sync_entity_type \<Rightarrow> string \<Rightarrow> string \<Rightarrow> sync_queue_entry" where
  "new_entry t eid payload =
     \<lparr>se_entity_type = t, se_entity_id = eid, se_payload = payload, se_priority = 0,
      se_max_attempts = DEFAULT_MAX_ATTEMPTS\<rparr>"

text \<open>A row of the table.\<close>

record queue_row =
  q_id :: nat
  q_entity_type :: string
  q_entity_id :: string
  q_payload :: string
  q_priority :: int
  q_attempts :: nat
  q_max_attempts :: nat
  q_last_attempt_at :: "int option"
  q_last_error :: "string option"
  q_created_at :: int
  q_next_retry_at :: int

record sync_queue_item =
  i_id :: nat
  i_entity_type :: sync_entity_type
  i_entity_id :: string
  i_payload :: string
  i_priority :: int
  i_attempts :: nat
  i_max_attempts :: nat
  i_last_attempt_at :: "int option"
  i_last_error :: "string option"
  i_created_at :: int
  i_next_retry_at :: int

record queue_stats =
  qs_total :: nat
  qs_pending :: nat
  qs_failed :: nat
  qs_oldest_age_secs :: "int option"

text \<open>The database: the queue, and per table the records with their \<open>synced\<close> flag.\<close>

record sync_db =
  sq_rows :: "queue_row list"
  sq_next_id :: nat
  sq_tables :: "string \<Rightarrow> bool str_map"

section \<open>SQL helpers\<close>

definition like_delete :: "string \<Rightarrow> bool" where
  "like_delete s \<longleftrightarrow> 6 < length s \<and> to_ascii_lowercase (drop (length s - 6) s) = ''delete''"

definition evictable :: "queue_row \<Rightarrow> bool" where
  "evictable r \<longleftrightarrow> \<not> like_delete (q_entity_type r)"

text \<open>\<open>DELETE .. WHERE id IN (SELECT id .. ORDER BY key LIMIT n)\<close>, and the number of rows deleted.\<close>

definition delete_ids :: "nat list \<Rightarrow> queue_row list \<Rightarrow> queue_row list" where
  "delete_ids ids rows = filter (\<lambda>r. q_id r \<notin> set ids) rows"

definition evict ::
  "(queue_row \<Rightarrow> bool) \<Rightarrow> (queue_row \<Rightarrow> 'k::linorder) \<Rightarrow> nat \<Rightarrow> queue_row list \<Rightarrow> queue_row list \<times> nat" where
  "evict P key n rows =
     (let rows' = delete_ids (map q_id (order_limit key n (filter P rows))) rows
      in (rows', length rows - length rows'))"

definition oldest_first :: "queue_row \<Rightarrow> int" where
  "oldest_first r = q_created_at r"

definition lowest_oldest :: "queue_row \<Rightarrow> int \<times> int" where
  "lowest_oldest r = (q_priority r, q_created_at r)"

definition highest_oldest :: "queue_row \<Rightarrow> int \<times> int" where
  "highest_oldest r = (- q_priority r, q_created_at r)"

definition insert_row ::
  "string \<Rightarrow> string \<Rightarrow> string \<Rightarrow> int \<Rightarrow> nat \<Rightarrow> int \<Rightarrow> sync_db \<Rightarrow> sync_db" where
  "insert_row t eid payload prio max_att now db =
     db\<lparr>sq_rows := sq_rows db @ [\<lparr>q_id = sq_next_id db, q_entity_type = t, q_entity_id = eid,
          q_payload = payload, q_priority = prio, q_attempts = 0, q_max_attempts = max_att,
          q_last_attempt_at = None, q_last_error = None, q_created_at = now, q_next_retry_at = now\<rparr>],
        sq_next_id := Suc (sq_next_id db)\<rparr>"

section \<open>Operations\<close>

definition make_room :: "queue_row list \<Rightarrow> queue_row list" where
  "make_room rows =
     (if MAX_SYNC_QUEUE_SIZE \<le> length rows then
        let excess = (length rows - MAX_SYNC_QUEUE_SIZE) + 1;
            (rows1, evicted) = evict (\<lambda>r. q_priority r = 0 \<and> evictable r) oldest_first excess rows
        in if 0 < excess - evicted
           then fst (evict evictable lowest_oldest (excess - evicted) rows1) else rows1
      else rows)"

definition enqueue :: "sync_queue_entry \<Rightarrow> int \<Rightarrow> sync_db \<Rightarrow> sync_db \<times> nat" where
  "enqueue e now db =
     (insert_row (as_str (se_entity_type e)) (se_entity_id e) (se_payload e) (se_priority e)
        (min (se_max_attempts e) (2 ^ 31 - 1)) now (db\<lparr>sq_rows := make_room (sq_rows db)\<rparr>),
      sq_next_id db)"

definition row_to_sync_queue_item :: "queue_row \<Rightarrow> sync_queue_item" where
  "row_to_sync_queue_item r =
     \<lparr>i_id = q_id r,
      i_entity_type = (case parse_str (q_entity_type r) of Some t \<Rightarrow> t | None \<Rightarrow> CheckResult),
      i_entity_id = q_entity_id r, i_payload = q_payload r, i_priority = q_priority r,
      i_attempts = q_attempts r, i_max_attempts = q_max_attempts r,
      i_last_attempt_at = q_last_attempt_at r, i_last_error = q_last_error r,
      i_created_at = q_created_at r, i_next_retry_at = q_next_retry_at r\<rparr>"

definition eligible :: "int \<Rightarrow> queue_row \<Rightarrow> bool" where
  "eligible now r \<longleftrightarrow> q_attempts r < q_max_attempts r \<and> q_next_retry_at r \<le> now"

text \<open>A negative \<open>LIMIT\<close> is no limit.\<close>

definition sql_limit :: "int \<Rightarrow> 'a list \<Rightarrow> nat" where
  "sql_limit n rows = (if n < 0 then length rows else nat n)"

definition get_pending :: "int \<Rightarrow> int \<Rightarrow> sync_db \<Rightarrow> sync_queue_item list" where
  "get_pending now limit db =
     map row_to_sync_queue_item
       (order_limit highest_oldest (sql_limit limit (sq_rows db)) (filter (eligible now) (sq_rows db)))"

definition get_pending_for :: "sync_entity_type \<Rightarrow> int \<Rightarrow> int \<Rightarrow> sync_db \<Rightarrow> sync_queue_item list" where
  "get_pending_for entity now limit db =
     map row_to_sync_queue_item
       (order_limit highest_oldest (sql_limit limit (sq_rows db))
          (filter (\<lambda>r. eligible now r \<and> q_entity_type r = as_str entity) (sq_rows db)))"

datatype 'a sq_result = SqOk 'a | SqNotFound | SqError string | SqPanic

text \<open>\<open>2u64.pow(attempts + 1)\<close>: both operations are checked.\<close>

definition backoff_delay :: "u32 \<Rightarrow> u64 option" where
  "backoff_delay attempts =
     (case checked_u32 (attempts + 1) of None \<Rightarrow> None
      | Some k \<Rightarrow> map_option (\<lambda>p. min p 3600) (checked_u64 (2 ^ k)))"

definition record_failure :: "nat \<Rightarrow> string \<Rightarrow> int \<Rightarrow> sync_db \<Rightarrow> sync_db sq_result" where
  "record_failure rid msg now db =
     (case find (\<lambda>r. q_id r = rid) (sq_rows db) of
        None \<Rightarrow> SqNotFound
      | Some row \<Rightarrow>
          (case backoff_delay (q_attempts row) of
             None \<Rightarrow> SqPanic
           | Some delay_secs \<Rightarrow>
               SqOk (db\<lparr>sq_rows := map (\<lambda>r. if q_id r = rid
                  then r\<lparr>q_attempts := q_attempts r + 1, q_last_attempt_at := Some now,
                         q_last_error := Some msg, q_next_retry_at := now + int delay_secs\<rparr>
                  else r) (sq_rows db)\<rparr>)))"

fun grc_delete_target :: "sync_entity_type \<Rightarrow> (string \<times> string) option" where
  "grc_delete_target Playbook = Some (''playbooks'', ''playbook_delete'')"
| "grc_delete_target DetectionRule = Some (''detection_rules'', ''detection_rule_delete'')"
| "grc_delete_target Risk = Some (''risks'', ''risk_delete'')"
| "grc_delete_target AlertRule = Some (''alert_rules'', ''alert_rule_delete'')"
| "grc_delete_target Webhook = Some (''webhooks'', ''webhook_delete'')"
| "grc_delete_target _ = None"

definition delete_grc :: "sync_entity_type \<Rightarrow> string \<Rightarrow> int \<Rightarrow> sync_db \<Rightarrow> sync_db sq_result" where
  "delete_grc entity rid now db =
     (case grc_delete_target entity of
        None \<Rightarrow> SqError ''Not a deletable GRC entity''
      | Some (table, tombstone) \<Rightarrow>
          SqOk (insert_row tombstone rid ''{}'' 10 2147483647 now
            (db\<lparr>sq_tables := (sq_tables db)(table := AList.delete rid (sq_tables db table)),
                sq_rows := filter (\<lambda>r. \<not> (q_entity_id r = rid \<and>
                  (q_entity_type r = as_str entity \<or> q_entity_type r = tombstone))) (sq_rows db)\<rparr>)))"

definition cancel_grc_delete :: "sync_entity_type \<Rightarrow> string \<Rightarrow> sync_db \<Rightarrow> sync_db sq_result" where
  "cancel_grc_delete entity rid db =
     (case grc_delete_target entity of
        None \<Rightarrow> SqError ''Not a deletable GRC entity''
      | Some (_, tombstone) \<Rightarrow>
          SqOk (db\<lparr>sq_rows := filter (\<lambda>r. \<not> (q_entity_id r = rid \<and> q_entity_type r = tombstone))
            (sq_rows db)\<rparr>))"

fun grc_table :: "sync_entity_type \<Rightarrow> string option" where
  "grc_table Playbook = Some ''playbooks''"
| "grc_table DetectionRule = Some ''detection_rules''"
| "grc_table Risk = Some ''risks''"
| "grc_table Asset = Some ''managed_assets''"
| "grc_table AlertRule = Some ''alert_rules''"
| "grc_table Webhook = Some ''webhooks''"
| "grc_table _ = None"

definition mark_synced :: "string \<Rightarrow> bool str_map \<Rightarrow> bool str_map" where
  "mark_synced rid t = map (\<lambda>(k, v). if k = rid then (k, True) else (k, v)) t"

definition acknowledge_one :: "sync_entity_type \<Rightarrow> string \<Rightarrow> nat \<Rightarrow> sync_db \<Rightarrow> sync_db" where
  "acknowledge_one entity table rid db =
     (case find (\<lambda>r. q_id r = rid \<and> q_entity_type r = as_str entity) (sq_rows db) of
        None \<Rightarrow> db
      | Some row \<Rightarrow>
          let eid = q_entity_id row;
              rows = delete_ids [rid] (sq_rows db);
              dirty = list_ex (\<lambda>r. q_entity_id r = eid \<and> q_entity_type r = as_str entity) rows
          in db\<lparr>sq_rows := rows,
                sq_tables := (if dirty then sq_tables db
                  else (sq_tables db)(table := mark_synced eid (sq_tables db table)))\<rparr>)"

definition acknowledge_grc :: "nat list \<Rightarrow> sync_entity_type \<Rightarrow> sync_db \<Rightarrow> sync_db sq_result" where
  "acknowledge_grc ids entity db =
     (case grc_table entity of
        None \<Rightarrow> SqError ''Not a mutable GRC entity''
      | Some table \<Rightarrow> SqOk (fold (acknowledge_one entity table) ids db))"

definition remove_items :: "nat list \<Rightarrow> sync_db \<Rightarrow> sync_db \<times> nat" where
  "remove_items ids db =
     (if ids = [] then (db, 0)
      else let rows = delete_ids ids (sq_rows db)
           in (db\<lparr>sq_rows := rows\<rparr>, length (sq_rows db) - length rows))"

definition enforce_queue_limit :: "sync_db \<Rightarrow> sync_db \<times> nat" where
  "enforce_queue_limit db =
     (if length (sq_rows db) \<le> MAX_SYNC_QUEUE_SIZE then (db, 0)
      else let (rows, evicted) =
                 evict evictable lowest_oldest (length (sq_rows db) - MAX_SYNC_QUEUE_SIZE) (sq_rows db)
           in (db\<lparr>sq_rows := rows\<rparr>, evicted))"

definition queue_stats_of :: "int \<Rightarrow> sync_db \<Rightarrow> queue_stats" where
  "queue_stats_of now db =
     (let rows = sq_rows db in
      \<lparr>qs_total = length rows,
       qs_pending = length (filter (\<lambda>r. q_attempts r < q_max_attempts r) rows),
       qs_failed = length (filter (\<lambda>r. q_max_attempts r \<le> q_attempts r) rows),
       qs_oldest_age_secs = (if rows = [] then None
         else Some (now - Min (set (map q_created_at rows))))\<rparr>)"

definition purge_failed :: "sync_db \<Rightarrow> sync_db \<times> nat" where
  "purge_failed db =
     (let rows = filter (\<lambda>r. \<not> (q_max_attempts r \<le> q_attempts r \<and> evictable r)) (sq_rows db)
      in (db\<lparr>sq_rows := rows\<rparr>, length (sq_rows db) - length rows))"

section \<open>Well-formed tables\<close>

definition db_wf :: "sync_db \<Rightarrow> bool" where
  "db_wf db \<longleftrightarrow> distinct (map q_id (sq_rows db)) \<and> (\<forall>r\<in>set (sq_rows db). q_id r < sq_next_id db)"

lemma parse_db_text: "parse_str (as_str t) = Some t"
  by (cases t) (simp_all add: parse_str_def)

lemma like_delete_iff:
  "like_delete (as_str t) \<longleftrightarrow> t \<in> {PlaybookDelete, DetectionRuleDelete, RiskDelete, AlertRuleDelete, WebhookDelete}"
  by (cases t; hypsubst; code_simp)

end
