(* ===== verification/Sync_Queue_Props.thy ===== *)
theory Sync_Queue_Props imports Sync_Queue begin

text \<open>
  What the offline upload queue promises: queueing never loses a deletion, keeps the bound and
  evicts in the right order; a batch is the most urgent eligible rows; a failed row waits twice
  as long each time, up to an hour, and overflows the exponent after 63 failures; a deletion and
  an acknowledgement touch exactly the rows of their record.
\<close>

text \<open>A text of the database reads as an entity type exactly when it is what that type is
  written as, so no queued upload is mistaken for another.\<close>

theorem entity_text_roundtrip: "parse_str s = Some t \<longleftrightarrow> s = as_str t"
proof
  assume "parse_str s = Some t"
  then show "s = as_str t" by (auto simp: parse_str_def split: if_splits)
qed (simp add: parse_db_text)

section \<open>Eviction\<close>

lemma ids_inj:
  "distinct (map q_id rows) \<Longrightarrow> r \<in> set rows \<Longrightarrow> s \<in> set rows \<Longrightarrow> q_id r = q_id s \<Longrightarrow> r = s"
  by (meson distinct_map inj_onD)

lemma set_delete_selected:
  assumes "distinct (map q_id rows)" and "set sel \<subseteq> set rows"
  shows "set (delete_ids (map q_id sel) rows) = set rows - set sel"
  using assms by (auto simp: delete_ids_def dest: ids_inj)

lemma distinct_rows: "distinct (map q_id rows) \<Longrightarrow> distinct rows"
  by (simp add: distinct_map)

lemma delete_ids_wf: "distinct (map q_id rows) \<Longrightarrow> distinct (map q_id (delete_ids ids rows))"
  by (simp add: delete_ids_def distinct_map_filter)

lemma length_delete_selected:
  assumes d: "distinct (map q_id rows)" and s: "set sel \<subseteq> set rows" and ds: "distinct sel"
  shows "length (delete_ids (map q_id sel) rows) = length rows - length sel"
proof -
  have "distinct (delete_ids (map q_id sel) rows)"
    using distinct_rows [OF delete_ids_wf [OF d]] .
  then have "length (delete_ids (map q_id sel) rows) = card (set rows - set sel)"
    by (simp add: set_delete_selected [OF d s] flip: distinct_card)
  then show ?thesis
    using s ds distinct_rows [OF d] by (simp add: card_Diff_subset distinct_card)
qed

lemma selected_subset: "set (order_limit key n (filter P rows)) \<subseteq> set rows"
  using set_order_limit [of key n "filter P rows"] by auto

lemma selected_P: "r \<in> set (order_limit key n (filter P rows)) \<Longrightarrow> P r"
  using set_order_limit [of key n "filter P rows"] by auto

lemma fst_evict: "fst (evict P key n rows) = delete_ids (map q_id (order_limit key n (filter P rows))) rows"
  by (simp add: evict_def Let_def)

lemma snd_evict: "snd (evict P key n rows) = length rows - length (fst (evict P key n rows))"
  by (simp add: evict_def Let_def)

lemma evict_set:
  "distinct (map q_id rows) \<Longrightarrow>
   set (fst (evict P key n rows)) = set rows - set (order_limit key n (filter P rows))"
  unfolding fst_evict by (rule set_delete_selected [OF _ selected_subset])

lemma evict_length:
  assumes "distinct (map q_id rows)"
  shows "length (fst (evict P key n rows)) = length rows - min n (length (filter P rows))"
proof -
  have "distinct (order_limit key n (filter P rows))"
    using distinct_rows [OF assms] by (simp add: distinct_order_limit)
  then show ?thesis
    by (simp only: fst_evict length_delete_selected [OF assms selected_subset] length_order_limit)
qed

lemma evict_count:
  assumes "distinct (map q_id rows)"
  shows "snd (evict P key n rows) = min n (length (filter P rows))"
proof -
  have "min n (length (filter P rows)) \<le> length rows"
    by (meson length_filter_le le_trans min.cobounded2)
  then show ?thesis by (simp add: snd_evict evict_length [OF assms])
qed

lemma evict_keeps:
  "distinct (map q_id rows) \<Longrightarrow> r \<in> set rows \<Longrightarrow> \<not> P r \<Longrightarrow> r \<in> set (fst (evict P key n rows))"
  using selected_P [of r key n P rows] by (auto simp: evict_set)

lemma evict_subset: "set (fst (evict P key n rows)) \<subseteq> set rows"
  by (auto simp: fst_evict delete_ids_def)

lemma evict_wf: "distinct (map q_id rows) \<Longrightarrow> distinct (map q_id (fst (evict P key n rows)))"
  by (simp add: fst_evict delete_ids_wf)

lemma evict_order:
  assumes "distinct (map q_id rows)" and "r \<in> set rows" and "r \<notin> set (fst (evict P key n rows))"
    and "s \<in> set (fst (evict P key n rows))" and "P s"
  shows "key r \<le> key s"
  using assms order_limit_least [of s "filter P rows" key n r] by (simp add: evict_set)

text \<open>Both passes of \<open>enqueue\<close>.\<close>

definition unimportant :: "queue_row \<Rightarrow> bool" where
  "unimportant r \<longleftrightarrow> q_priority r = 0 \<and> evictable r"

lemma make_room_passes:
  assumes "distinct (map q_id rows)" and "MAX_SYNC_QUEUE_SIZE \<le> length rows"
  defines "excess \<equiv> length rows - MAX_SYNC_QUEUE_SIZE + 1"
  defines "rows1 \<equiv> fst (evict unimportant oldest_first excess rows)"
  shows "make_room rows =
    (if excess \<le> length (filter unimportant rows) then rows1
     else fst (evict evictable lowest_oldest (excess - length (filter unimportant rows)) rows1))"
proof -
  have u: "(\<lambda>r. q_priority r = 0 \<and> evictable r) = unimportant" by (simp add: fun_eq_iff unimportant_def)
  have "snd (evict unimportant oldest_first excess rows) = min excess (length (filter unimportant rows))"
    by (rule evict_count [OF assms(1)])
  then show ?thesis
    using assms(2) unfolding make_room_def u
    by (auto simp: Let_def case_prod_beta excess_def rows1_def min_def)
qed

lemma make_room_subset: "set (make_room rows) \<subseteq> set rows"
  by (auto simp: make_room_def Let_def case_prod_beta split: if_splits
           dest!: evict_subset [THEN subsetD])

lemma make_room_keeps:
  assumes "distinct (map q_id rows)" and "r \<in> set rows" and "\<not> evictable r"
  shows "r \<in> set (make_room rows)"
  using assms by (auto simp: make_room_def Let_def case_prod_beta intro!: evict_keeps evict_wf)

lemma make_room_wf: "distinct (map q_id rows) \<Longrightarrow> distinct (map q_id (make_room rows))"
  by (auto simp: make_room_def Let_def case_prod_beta intro!: evict_wf)

lemma make_room_id: "length rows < MAX_SYNC_QUEUE_SIZE \<Longrightarrow> make_room rows = rows"
  by (simp add: make_room_def)

lemma count_after_pass:
  assumes "distinct (map q_id rows)" and "length (filter unimportant rows) \<le> n"
  shows "length (filter evictable (fst (evict unimportant oldest_first n rows)))
    = length (filter evictable rows) - length (filter unimportant rows)"
proof -
  let ?kept = "fst (evict unimportant oldest_first n rows)"
  have "set (order_limit oldest_first n (filter unimportant rows)) = {r \<in> set rows. unimportant r}"
    using assms(2) by (auto simp: order_limit_def)
  then have kept: "set ?kept = set rows - {r \<in> set rows. unimportant r}"
    by (simp add: evict_set [OF assms(1)])
  have d: "distinct rows" "distinct ?kept"
    using assms(1) by (simp_all add: distinct_rows evict_wf)
  have "length (filter evictable ?kept) = card {r \<in> set ?kept. evictable r}"
    using d(2) by (simp flip: distinct_card)
  also have "{r \<in> set ?kept. evictable r} = {r \<in> set rows. evictable r} - {r \<in> set rows. unimportant r}"
    by (auto simp: kept)
  also have "card \<dots> = card {r \<in> set rows. evictable r} - card {r \<in> set rows. unimportant r}"
    by (rule card_Diff_subset) (auto simp: unimportant_def)
  finally show ?thesis
    using d(1) by (simp flip: distinct_card)
qed

lemma unimportant_le: "length (filter unimportant rows) \<le> length (filter evictable rows)"
  by (induction rows) (auto simp: unimportant_def)

text \<open>Only a queue of deletions can stay above the bound.\<close>

lemma make_room_length:
  assumes "distinct (map q_id rows)"
  shows "length (make_room rows) \<le> max (MAX_SYNC_QUEUE_SIZE - 1) (length (filter (\<lambda>r. \<not> evictable r) rows))"
proof (cases "MAX_SYNC_QUEUE_SIZE \<le> length rows")
  case True
  define excess where "excess = length rows - MAX_SYNC_QUEUE_SIZE + 1"
  have sum: "length rows = length (filter evictable rows) + length (filter (\<lambda>r. \<not> evictable r) rows)"
    by (simp add: sum_length_filter_compl)
  show ?thesis
  proof (cases "excess \<le> length (filter unimportant rows)")
    case few: True
    then have "make_room rows = fst (evict unimportant oldest_first excess rows)"
      using make_room_passes [OF assms True] by (simp add: excess_def)
    with few show ?thesis by (simp add: evict_length [OF assms] excess_def)
  next
    case False
    let ?rows1 = "fst (evict unimportant oldest_first excess rows)"
    let ?u = "length (filter unimportant rows)"
    have "make_room rows = fst (evict evictable lowest_oldest (excess - ?u) ?rows1)"
      using False make_room_passes [OF assms True] by (simp add: excess_def)
    then have "length (make_room rows)
      = (length rows - ?u) - min (excess - ?u) (length (filter evictable rows) - ?u)"
      using False count_after_pass [OF assms, of excess]
      by (simp add: evict_length assms evict_wf)
    with sum unimportant_le [of rows] False show ?thesis by (simp add: excess_def min_def split: if_splits)
  qed
qed (simp add: make_room_id)

text \<open>With no negative priority, what goes is of lower priority, or older, than what stays.\<close>

lemma make_room_order:
  assumes d: "distinct (map q_id rows)" and nonneg: "\<forall>r\<in>set rows. 0 \<le> q_priority r"
    and r: "r \<in> set rows" "r \<notin> set (make_room rows)"
    and s: "s \<in> set (make_room rows)" "evictable s"
  shows "lowest_oldest r \<le> lowest_oldest s"
proof (cases "MAX_SYNC_QUEUE_SIZE \<le> length rows")
  case True
  define excess where "excess = length rows - MAX_SYNC_QUEUE_SIZE + 1"
  define rows1 where "rows1 = fst (evict unimportant oldest_first excess rows)"
  note passes = make_room_passes [OF d True, folded excess_def, folded rows1_def]
  have s1: "s \<in> set rows1" "s \<in> set rows"
    using s(1) passes by (auto simp: rows1_def split: if_splits dest!: evict_subset [THEN subsetD])
  have pass1: "lowest_oldest r \<le> lowest_oldest s" if "r \<notin> set rows1"
  proof (cases "q_priority s = 0")
    case True
    have "unimportant r"
      using that r(1) evict_keeps [OF d, of r unimportant oldest_first excess] by (auto simp: rows1_def)
    moreover have "oldest_first r \<le> oldest_first s"
      using evict_order [OF d r(1) that [unfolded rows1_def]] s1 s(2) True
      by (simp add: rows1_def unimportant_def)
    ultimately show ?thesis using True by (simp add: lowest_oldest_def unimportant_def oldest_first_def)
  next
    case False
    moreover have "q_priority r = 0"
      using that r(1) evict_keeps [OF d, of r unimportant oldest_first excess]
      by (auto simp: rows1_def unimportant_def)
    ultimately show ?thesis using nonneg s1(2) by (force simp: lowest_oldest_def)
  qed
  show ?thesis
  proof (cases "r \<in> set rows1 \<and> \<not> excess \<le> length (filter unimportant rows)")
    case True
    with r(2) s passes evict_order [of rows1 r evictable lowest_oldest _ s] show ?thesis
      by (auto simp: rows1_def d evict_wf)
  next
    case False
    with r(2) passes pass1 show ?thesis by auto
  qed
qed (use r in \<open>simp add: make_room_id\<close>)

lemma insert_row_wf: "db_wf db \<Longrightarrow> db_wf (insert_row t eid payload prio max_att now db)"
  by (fastforce simp: db_wf_def insert_row_def)

lemma filter_rows_wf: "db_wf db \<Longrightarrow> db_wf (db\<lparr>sq_tables := ts, sq_rows := filter P (sq_rows db)\<rparr>)"
  by (auto simp: db_wf_def distinct_map_filter)

section \<open>Queueing an upload\<close>

text \<open>C6: Queueing an upload keeps the table well formed, adds the new row under a fresh id, due at
  once, and loses no deletion; below the bound it loses nothing, and otherwise the queue ends with at
  most 10 000 rows, or the deletions and the new row. What is evicted never has a higher priority than
  an evictable row that stays, nor the same and a later creation.\<close>

theorem enqueue_keeps_deletions:
  assumes "db_wf db" and "\<forall>r\<in>set (sq_rows db). 0 \<le> q_priority r"
    and "enqueue e now db = (db', n)"
  shows "db_wf db'
    \<and> (\<exists>old new. sq_rows db' = old @ [new] \<and> set old \<subseteq> set (sq_rows db) \<and> n \<notin> q_id ` set (sq_rows db)
        \<and> q_id new = n \<and> parse_str (q_entity_type new) = Some (se_entity_type e)
        \<and> q_entity_id new = se_entity_id e \<and> q_payload new = se_payload e
        \<and> (1 \<le> se_max_attempts e \<longrightarrow> eligible now new)
        \<and> (length (sq_rows db) < MAX_SYNC_QUEUE_SIZE \<longrightarrow> old = sq_rows db)
        \<and> length (old @ [new])
            \<le> max MAX_SYNC_QUEUE_SIZE (length (filter (\<lambda>r. like_delete (q_entity_type r)) (sq_rows db)) + 1)
        \<and> (\<forall>r\<in>set (sq_rows db) - set old. \<not> like_delete (q_entity_type r)
            \<and> (\<forall>s\<in>set old. like_delete (q_entity_type s) \<or> lowest_oldest r \<le> lowest_oldest s)))"
proof -
  let ?rows = "sq_rows db"
  define new where "new = \<lparr>q_id = sq_next_id db, q_entity_type = as_str (se_entity_type e),
    q_entity_id = se_entity_id e, q_payload = se_payload e, q_priority = se_priority e, q_attempts = 0,
    q_max_attempts = min (se_max_attempts e) (2 ^ 31 - 1), q_last_attempt_at = None,
    q_last_error = None, q_created_at = now, q_next_retry_at = now\<rparr>"
  have d: "distinct (map q_id ?rows)" and fresh: "\<forall>r\<in>set ?rows. q_id r < sq_next_id db"
    using assms(1) by (auto simp: db_wf_def)
  have n: "n = sq_next_id db" and rows': "sq_rows db' = make_room ?rows @ [new]"
    and next': "sq_next_id db' = Suc (sq_next_id db)"
    using assms(3) by (auto simp: enqueue_def insert_row_def new_def)
  have id: "n \<notin> q_id ` set ?rows" using fresh n by auto
  have "db_wf db'"
    using make_room_wf [OF d] make_room_subset [of ?rows] fresh id n
    by (fastforce simp: db_wf_def rows' next' new_def)
  moreover have "\<not> like_delete (q_entity_type r)" if "r \<in> set ?rows - set (make_room ?rows)" for r
    using that make_room_keeps [OF d, of r] by (auto simp: evictable_def)
  moreover have "like_delete (q_entity_type s) \<or> lowest_oldest r \<le> lowest_oldest s"
    if "r \<in> set ?rows - set (make_room ?rows)" and "s \<in> set (make_room ?rows)" for r s
    using that make_room_order [OF d assms(2), of r s] by (auto simp: evictable_def)
  moreover have "length (make_room ?rows @ [new])
      \<le> max MAX_SYNC_QUEUE_SIZE (length (filter (\<lambda>r. like_delete (q_entity_type r)) ?rows) + 1)"
    using make_room_length [OF d] by (simp add: evictable_def MAX_SYNC_QUEUE_SIZE_def)
  moreover have "1 \<le> se_max_attempts e \<longrightarrow> eligible now new"
    and "q_id new = n" and "parse_str (q_entity_type new) = Some (se_entity_type e)"
    and "q_entity_id new = se_entity_id e" and "q_payload new = se_payload e"
    by (simp_all add: eligible_def new_def n parse_db_text)
  ultimately show ?thesis
    using id make_room_subset [of ?rows] make_room_id [of ?rows] rows' by blast
qed

definition empty_queue :: sync_db where
  "empty_queue = \<lparr>sq_rows = [], sq_next_id = 1, sq_tables = (\<lambda>_. [])\<rparr>"

definition one_deletion :: sync_db where
  "one_deletion = insert_row ''risk_delete'' ''r1'' ''{}'' 10 2147483647 100 empty_queue"

fun the_db :: "sync_db sq_result \<Rightarrow> sync_db" where
  "the_db (SqOk db) = db"
| "the_db _ = empty_queue"

lemma one_deletion_wf: "db_wf one_deletion \<and> (\<forall>r\<in>set (sq_rows one_deletion). 0 \<le> q_priority r)"
  by (simp add: one_deletion_def empty_queue_def insert_row_def db_wf_def)

theorem enqueue_keeps_deletions_witness:
  "db_wf (fst (enqueue (new_entry Playbook ''p1'' ''x'') 200 one_deletion))"
  using enqueue_keeps_deletions [OF conjunct1 [OF one_deletion_wf] conjunct2 [OF one_deletion_wf] prod.collapse [symmetric]]
  by blast

section \<open>Taking a batch\<close>

lemma highest_oldest_mono:
  "highest_oldest r \<le> highest_oldest s \<Longrightarrow>
   q_priority s \<le> q_priority r \<and> (q_priority r = q_priority s \<longrightarrow> q_created_at r \<le> q_created_at s)"
  by (auto simp: highest_oldest_def)

lemma item_of_row [simp]:
  "i_id (row_to_sync_queue_item r) = q_id r" "i_priority (row_to_sync_queue_item r) = q_priority r"
  "i_created_at (row_to_sync_queue_item r) = q_created_at r"
  by (simp_all add: row_to_sync_queue_item_def)

text \<open>A batch holds only rows that are due and have attempts left, most urgent first and oldest
  first among equals; it has as many as the limit allows, and a due row left out is no more urgent
  than any in the batch.\<close>

theorem get_pending_batch:
  assumes "batch = get_pending now (int limit) db"
  shows "length batch = min limit (length (filter (eligible now) (sq_rows db)))
    \<and> set batch \<subseteq> row_to_sync_queue_item ` {r \<in> set (sq_rows db). eligible now r}
    \<and> sorted_wrt (\<lambda>i j. i_priority j \<le> i_priority i
        \<and> (i_priority i = i_priority j \<longrightarrow> i_created_at i \<le> i_created_at j)) batch
    \<and> (\<forall>r\<in>set (sq_rows db). eligible now r \<and> row_to_sync_queue_item r \<notin> set batch \<longrightarrow>
        (\<forall>i\<in>set batch. q_priority r \<le> i_priority i
           \<and> (q_priority r = i_priority i \<longrightarrow> i_created_at i \<le> q_created_at r)))"
proof -
  let ?due = "filter (eligible now) (sq_rows db)"
  let ?sel = "order_limit highest_oldest limit ?due"
  have b: "batch = map row_to_sync_queue_item ?sel"
    by (simp add: assms get_pending_def sql_limit_def)
  have "sorted_wrt (\<lambda>r s. highest_oldest r \<le> highest_oldest s) ?sel"
    using order_limit_sorted [of highest_oldest limit ?due] by (simp add: sorted_wrt_map)
  then have "sorted_wrt (\<lambda>i j. i_priority j \<le> i_priority i
        \<and> (i_priority i = i_priority j \<longrightarrow> i_created_at i \<le> i_created_at j)) batch"
    unfolding b sorted_wrt_map by (rule sorted_wrt_mono_rel [rotated]) (auto dest: highest_oldest_mono)
  moreover have "q_priority r \<le> q_priority s \<and> (q_priority r = q_priority s \<longrightarrow> q_created_at s \<le> q_created_at r)"
    if "r \<in> set ?due" and "r \<notin> set ?sel" and "s \<in> set ?sel" for r s
    using highest_oldest_mono [OF order_limit_least [OF that]] by auto
  ultimately show ?thesis
    using set_order_limit [of highest_oldest limit ?due] by (fastforce simp: b)
qed

theorem get_pending_batch_witness:
  "map i_entity_type (get_pending 150 (int 5) one_deletion) = [RiskDelete]
   \<and> length (get_pending 150 (int 5) one_deletion) = min 5 (length (filter (eligible 150) (sq_rows one_deletion)))"
proof
  show "map i_entity_type (get_pending 150 (int 5) one_deletion) = [RiskDelete]" by code_simp
qed (use get_pending_batch [OF refl, of 150 5 one_deletion] in simp)

section \<open>Failures\<close>

lemma find_by_id:
  assumes "distinct (map q_id rows)" and "r \<in> set rows"
  shows "find (\<lambda>r'. q_id r' = q_id r) rows = Some r"
  using assms by (induction rows) auto

lemma two_pow_checked:
  assumes "a < 2 ^ 32 - 1"
  shows "backoff_delay a = (if a + 1 < 64 then Some (min (2 ^ (a + 1)) 3600) else None)"
proof (cases "a + 1 < 64")
  case True
  then have "(2::nat) ^ (a + 1) \<le> 2 ^ 63" by (intro power_increasing) auto
  then have "(2::nat) ^ (a + 1) \<le> 18446744073709551615" by simp
  with True show ?thesis
    by (simp add: backoff_delay_def checked_u32_def checked_u64_def u32_max_def u64_max_def)
next
  case False
  then have "(2::nat) ^ 64 \<le> 2 ^ (a + 1)" by (intro power_increasing) auto
  then have "\<not> (2::nat) ^ (a + 1) \<le> 18446744073709551615" by simp
  with False assms show ?thesis
    by (simp add: backoff_delay_def checked_u32_def checked_u64_def u32_max_def u64_max_def)
qed

lemma failure_step:
  assumes "db_wf db" and "r \<in> set (sq_rows db)" and "q_attempts r < 63"
  shows "\<exists>db'. record_failure (q_id r) msg now db = SqOk db'
        \<and> map q_id (sq_rows db') = map q_id (sq_rows db)
        \<and> {s \<in> set (sq_rows db'). q_id s \<noteq> q_id r} = {s \<in> set (sq_rows db). q_id s \<noteq> q_id r}
        \<and> r\<lparr>q_attempts := q_attempts r + 1, q_last_attempt_at := Some now, q_last_error := Some msg,
             q_next_retry_at := now + min (2 ^ (q_attempts r + 1)) 3600\<rparr> \<in> set (sq_rows db')"
proof -
  have d: "distinct (map q_id (sq_rows db))" using assms(1) by (simp add: db_wf_def)
  have b: "backoff_delay (q_attempts r) = Some (min (2 ^ (q_attempts r + 1)) 3600)"
    using two_pow_checked [of "q_attempts r"] assms(3) by simp
  define upd where "upd (s :: queue_row) = (if q_id s = q_id r
    then s\<lparr>q_attempts := q_attempts s + 1, q_last_attempt_at := Some now, q_last_error := Some msg,
           q_next_retry_at := now + int (min (2 ^ (q_attempts r + 1)) 3600)\<rparr> else s)" for s
  have ok: "record_failure (q_id r) msg now db = SqOk (db\<lparr>sq_rows := map upd (sq_rows db)\<rparr>)"
    by (simp add: record_failure_def find_by_id [OF d assms(2)] b upd_def cong: map_cong)
  have "upd r \<in> set (map upd (sq_rows db))" using assms(2) by simp
  moreover have "upd r = r\<lparr>q_attempts := q_attempts r + 1, q_last_attempt_at := Some now,
    q_last_error := Some msg, q_next_retry_at := now + min (2 ^ (q_attempts r + 1)) 3600\<rparr>"
    by (simp add: upd_def of_nat_min)
  moreover have "{s \<in> set (map upd (sq_rows db)). q_id s \<noteq> q_id r} = {s \<in> set (sq_rows db). q_id s \<noteq> q_id r}"
    by (auto simp: upd_def image_def)
  moreover have "map q_id (map upd (sq_rows db)) = map q_id (sq_rows db)" by (simp add: upd_def)
  ultimately show ?thesis using ok by auto
qed

lemma failure_overflow:
  assumes "db_wf db" and "r \<in> set (sq_rows db)" and "63 \<le> q_attempts r" and "q_attempts r < 2 ^ 32 - 1"
  shows "record_failure (q_id r) msg now db = SqPanic"
proof -
  have "distinct (map q_id (sq_rows db))" using assms(1) by (simp add: db_wf_def)
  from find_by_id [OF this assms(2)] show ?thesis
    using two_pow_checked [OF assms(4)] assms(3) by (simp add: record_failure_def)
qed

lemma failure_missing:
  "k \<notin> q_id ` set (sq_rows db) \<Longrightarrow> record_failure k msg now db = SqNotFound"
  by (auto simp: record_failure_def find_None_iff split: option.split dest: find_Some_iff [THEN iffD1])

text \<open>A failure of a queued row adds one attempt and delays the next by \<open>2 ^ (attempts + 1)\<close>
  seconds, at most an hour, and touches no other row; a row that is gone is reported; and from the
  64th failure of a row on, which only its attempt limit can prevent, the delay overflows and the
  call panics.\<close>

theorem record_failure_backoff:
  assumes "db_wf db" and "r \<in> set (sq_rows db)" and "q_attempts r < 2 ^ 32 - 1"
  shows "(q_attempts r < 63 \<longrightarrow>
      (\<exists>db'. record_failure (q_id r) msg now db = SqOk db'
        \<and> map q_id (sq_rows db') = map q_id (sq_rows db)
        \<and> {s \<in> set (sq_rows db'). q_id s \<noteq> q_id r} = {s \<in> set (sq_rows db). q_id s \<noteq> q_id r}
        \<and> r\<lparr>q_attempts := q_attempts r + 1, q_last_attempt_at := Some now, q_last_error := Some msg,
             q_next_retry_at := now + min (2 ^ (q_attempts r + 1)) 3600\<rparr> \<in> set (sq_rows db')))
    \<and> (63 \<le> q_attempts r \<longrightarrow> record_failure (q_id r) msg now db = SqPanic)
    \<and> (\<forall>k. k \<notin> q_id ` set (sq_rows db) \<longrightarrow> record_failure k msg now db = SqNotFound)"
  using failure_step [OF assms(1,2)] failure_overflow [OF assms(1,2)] assms(3) failure_missing by blast

theorem record_failure_backoff_witness:
  "\<exists>db' r. record_failure 1 ''timeout'' 150 one_deletion = SqOk db' \<and> r \<in> set (sq_rows db')
     \<and> q_attempts r = 1 \<and> q_next_retry_at r = 152"
proof -
  define row where "row = hd (sq_rows one_deletion)"
  have in_db: "row \<in> set (sq_rows one_deletion)" and q: "q_id row = 1" "q_attempts row = 0"
    by (simp_all add: row_def one_deletion_def empty_queue_def insert_row_def)
  from record_failure_backoff [OF conjunct1 [OF one_deletion_wf] in_db, of "''timeout''" 150] q
  obtain db' where "record_failure 1 ''timeout'' 150 one_deletion = SqOk db'"
    and "row\<lparr>q_attempts := 1, q_last_attempt_at := Some 150, q_last_error := Some ''timeout'',
           q_next_retry_at := 152\<rparr> \<in> set (sq_rows db')"
    by auto
  then show ?thesis
    by (intro exI [of _ db']
        exI [of _ "row\<lparr>q_attempts := 1, q_last_attempt_at := Some 150,
          q_last_error := Some ''timeout'', q_next_retry_at := 152\<rparr>"]) simp
qed

text \<open>The failures of one row, at the given times.\<close>

fun failures :: "int list \<Rightarrow> nat \<Rightarrow> string \<Rightarrow> sync_db \<Rightarrow> sync_db sq_result" where
  "failures [] rid msg db = SqOk db"
| "failures (t # ts) rid msg db =
     (case record_failure rid msg t db of SqOk db' \<Rightarrow> failures ts rid msg db' | e \<Rightarrow> e)"

lemma record_failure_ids:
  "record_failure rid msg now db = SqOk db' \<Longrightarrow>
   map q_id (sq_rows db') = map q_id (sq_rows db) \<and> sq_next_id db' = sq_next_id db"
  by (auto simp: record_failure_def split: option.splits)

lemma db_wf_ids: "db_wf db \<longleftrightarrow> distinct (map q_id (sq_rows db)) \<and> (\<forall>i\<in>set (map q_id (sq_rows db)). i < sq_next_id db)"
  by (auto simp: db_wf_def)

lemma record_failure_wf:
  "record_failure rid msg now db = SqOk db' \<Longrightarrow> db_wf db \<Longrightarrow> db_wf db'"
  by (drule record_failure_ids) (simp only: db_wf_ids, blast)

lemma failures_count:
  assumes "db_wf db" and "r \<in> set (sq_rows db)" and "q_attempts r + length ts \<le> 63"
  shows "\<exists>db' r'. failures ts (q_id r) msg db = SqOk db' \<and> db_wf db' \<and> r' \<in> set (sq_rows db')
    \<and> q_id r' = q_id r \<and> q_attempts r' = q_attempts r + length ts \<and> q_max_attempts r' = q_max_attempts r"
  using assms
proof (induction ts arbitrary: db r)
  case (Cons t ts)
  let ?r = "r\<lparr>q_attempts := q_attempts r + 1, q_last_attempt_at := Some t, q_last_error := Some msg,
             q_next_retry_at := t + min (2 ^ (q_attempts r + 1)) 3600\<rparr>"
  obtain db1 where ok: "record_failure (q_id r) msg t db = SqOk db1" and r1: "?r \<in> set (sq_rows db1)"
    using failure_step [OF Cons.prems(1,2), of msg t] Cons.prems(3) by auto
  show ?case
    using Cons.IH [OF record_failure_wf [OF ok Cons.prems(1)] r1] Cons.prems(3) by (simp add: ok)
qed auto

section \<open>Deleting a record\<close>

lemma grc_delete_target_names:
  "grc_delete_target entity = Some (tbl, tombstone) \<Longrightarrow>
   grc_table entity = Some tbl \<and> like_delete tombstone \<and> tombstone \<noteq> as_str entity
   \<and> (\<exists>d. tombstone = as_str d)"
  by (cases entity) (auto simp: like_delete_def to_ascii_lowercase_def to_ascii_lower_char_def
      is_ascii_uppercase_def byte_def intro: as_str.simps [symmetric])

definition concerns :: "sync_entity_type \<Rightarrow> string \<Rightarrow> queue_row \<Rightarrow> bool" where
  "concerns entity eid r \<longleftrightarrow> q_entity_id r = eid \<and>
     (q_entity_type r = as_str entity \<or> Some (q_entity_type r) = map_option snd (grc_delete_target entity))"

lemma map_of_delete_eq: "map_of (AList.delete k m) k' = (if k' = k then None else map_of m k')"
  by (simp add: delete_conv')

text \<open>Deleting a record removes it from its table and leaves, of everything queued for it, one
  deletion, due at once and never given up on; other records and their queued rows are untouched.
  Only the five kinds of record the platform can delete are accepted.\<close>

theorem delete_grc_one_tombstone:
  assumes "db_wf db"
  shows "case grc_delete_target entity of
      None \<Rightarrow> delete_grc entity eid now db = SqError ''Not a deletable GRC entity''
    | Some (tbl, tombstone) \<Rightarrow>
        (\<exists>db' r. delete_grc entity eid now db = SqOk db' \<and> db_wf db'
          \<and> grc_table entity = Some tbl
          \<and> map_of (sq_tables db' tbl) eid = None
          \<and> (\<forall>t k. (t, k) \<noteq> (tbl, eid) \<longrightarrow> map_of (sq_tables db' t) k = map_of (sq_tables db t) k)
          \<and> filter (concerns entity eid) (sq_rows db') = [r]
          \<and> filter (\<lambda>r. \<not> concerns entity eid r) (sq_rows db') = filter (\<lambda>r. \<not> concerns entity eid r) (sq_rows db)
          \<and> q_entity_type r = tombstone \<and> like_delete tombstone \<and> q_max_attempts r = 2 ^ 31 - 1
          \<and> eligible now r)"
proof (cases "grc_delete_target entity")
  case None
  then show ?thesis by (simp add: delete_grc_def)
next
  case (Some tt)
  obtain tbl tombstone where tt: "tt = (tbl, tombstone)" by (cases tt)
  note names = grc_delete_target_names [OF Some [unfolded tt]]
  define keep where "keep = filter (\<lambda>r. \<not> concerns entity eid r) (sq_rows db)"
  define new where "new = \<lparr>q_id = sq_next_id db, q_entity_type = tombstone, q_entity_id = eid,
    q_payload = ''{}'', q_priority = 10, q_attempts = 0, q_max_attempts = 2147483647,
    q_last_attempt_at = None, q_last_error = None, q_created_at = now, q_next_retry_at = now\<rparr>"
  define db' where "db' = db\<lparr>sq_tables := (sq_tables db)(tbl := AList.delete eid (sq_tables db tbl)),
    sq_rows := keep @ [new], sq_next_id := Suc (sq_next_id db)\<rparr>"
  have c: "concerns entity eid r \<longleftrightarrow> q_entity_id r = eid \<and>
      (q_entity_type r = as_str entity \<or> q_entity_type r = tombstone)" for r
    by (simp add: concerns_def Some tt)
  have "delete_grc entity eid now db = SqOk db'"
    by (simp add: delete_grc_def Some tt insert_row_def db'_def keep_def new_def c)
  moreover have "db_wf db'"
    using assms by (auto simp: db_wf_def db'_def keep_def new_def distinct_map_filter)
  moreover have "concerns entity eid new" by (simp add: c new_def)
  then have "filter (concerns entity eid) (sq_rows db') = [new]"
    and "filter (\<lambda>r. \<not> concerns entity eid r) (sq_rows db') = keep"
    by (simp_all add: db'_def keep_def)
  moreover have "eligible now new" by (simp add: eligible_def new_def)
  moreover have "map_of (sq_tables db' tbl) eid = None"
    and "\<forall>t k. (t, k) \<noteq> (tbl, eid) \<longrightarrow> map_of (sq_tables db' t) k = map_of (sq_tables db t) k"
    by (auto simp: db'_def map_of_delete_eq)
  ultimately show ?thesis
    using names by (simp add: Some tt keep_def) (auto simp: new_def)
qed

theorem delete_grc_one_tombstone_witness:
  "\<exists>db' r. delete_grc Risk ''r1'' 200 one_deletion = SqOk db' \<and> db_wf db'
     \<and> filter (concerns Risk ''r1'') (sq_rows db') = [r] \<and> eligible 200 r"
  using delete_grc_one_tombstone [OF conjunct1 [OF one_deletion_wf], of Risk "''r1''" 200] by auto

text \<open>A deletion that keeps failing panics the agent at its 64th attempt: deletions are queued
  with no practical attempt limit, so nothing stops the retries before \<open>2u64.pow\<close> overflows.\<close>

theorem deletion_retry_overflows:
  assumes "db_wf db" and "delete_grc entity eid now db = SqOk db1" and "length ts = 63"
  shows "\<exists>db2 r. failures ts (sq_next_id db) msg db1 = SqOk db2 \<and> r \<in> set (sq_rows db2)
    \<and> q_id r = sq_next_id db \<and> (\<forall>t. q_next_retry_at r \<le> t \<longrightarrow> eligible t r)
    \<and> (\<forall>t. record_failure (sq_next_id db) msg t db2 = SqPanic)"
proof -
  obtain tbl tombstone where t: "grc_delete_target entity = Some (tbl, tombstone)"
    using assms(2) by (auto simp: delete_grc_def split: option.splits)
  let ?new = "\<lparr>q_id = sq_next_id db, q_entity_type = tombstone, q_entity_id = eid,
    q_payload = ''{}'', q_priority = 10, q_attempts = 0, q_max_attempts = 2147483647,
    q_last_attempt_at = None, q_last_error = None, q_created_at = now, q_next_retry_at = now\<rparr>"
  have new: "?new \<in> set (sq_rows db1)" and wf: "db_wf db1"
    using assms(1,2) by (auto simp: delete_grc_def t intro!: insert_row_wf filter_rows_wf)
      (auto simp: insert_row_def)
  obtain db2 r where f: "failures ts (sq_next_id db) msg db1 = SqOk db2" and wf2: "db_wf db2"
    and r: "r \<in> set (sq_rows db2)" "q_id r = sq_next_id db" "q_attempts r = 63" "q_max_attempts r = 2147483647"
    using failures_count [OF wf new, of ts msg] assms(3) by auto
  moreover have "record_failure (sq_next_id db) msg t db2 = SqPanic" for t
    using failure_overflow [OF wf2 r(1), of msg t] r by simp
  moreover have "eligible t r" if "q_next_retry_at r \<le> t" for t
    using that r by (simp add: eligible_def)
  ultimately show ?thesis by blast
qed

theorem deletion_retry_overflows_witness:
  "\<exists>db1 db2. delete_grc Risk ''r2'' 200 one_deletion = SqOk db1
     \<and> failures (replicate 63 0) 2 ''offline'' db1 = SqOk db2
     \<and> record_failure 2 ''offline'' 9000 db2 = SqPanic"
proof -
  obtain db1 where d: "delete_grc Risk ''r2'' 200 one_deletion = SqOk db1" by (simp add: delete_grc_def)
  have "sq_next_id one_deletion = 2" by (simp add: one_deletion_def empty_queue_def insert_row_def)
  with deletion_retry_overflows [OF conjunct1 [OF one_deletion_wf] d, of "replicate 63 0" "''offline''"] d
  show ?thesis by auto
qed

section \<open>Withdrawing a deletion, acknowledging an upload\<close>

text \<open>A withdrawn deletion is gone from the queue and everything else stays: after a delete and
  its withdrawal nothing queued concerns the record.\<close>

theorem cancel_after_delete:
  assumes "delete_grc entity eid now db = SqOk db1"
  shows "\<exists>db2. cancel_grc_delete entity eid db1 = SqOk db2
    \<and> sq_rows db2 = filter (\<lambda>r. \<not> concerns entity eid r) (sq_rows db)
    \<and> sq_tables db2 = sq_tables db1"
proof -
  obtain tbl tombstone where t: "grc_delete_target entity = Some (tbl, tombstone)"
    using assms by (auto simp: delete_grc_def split: option.splits)
  have c: "concerns entity eid r \<longleftrightarrow> q_entity_id r = eid \<and>
      (q_entity_type r = as_str entity \<or> q_entity_type r = tombstone)" for r
    by (simp add: concerns_def t)
  show ?thesis
    using assms
    by (auto simp: delete_grc_def cancel_grc_delete_def t insert_row_def c
        intro!: arg_cong [where f = "\<lambda>P. filter P (sq_rows db)"])
qed

theorem cancel_after_delete_witness:
  "\<exists>db2. cancel_grc_delete Risk ''r1'' (the_db (delete_grc Risk ''r1'' 200 one_deletion)) = SqOk db2
     \<and> sq_rows db2 = []"
proof -
  obtain db1 where d: "delete_grc Risk ''r1'' 200 one_deletion = SqOk db1" by (simp add: delete_grc_def)
  have "filter (\<lambda>r. \<not> concerns Risk ''r1'' r) (sq_rows one_deletion) = []"
    by (simp add: one_deletion_def empty_queue_def insert_row_def concerns_def)
  with cancel_after_delete [OF d] show ?thesis by (auto simp: d)
qed

lemma acknowledge_one_eqs:
  assumes "distinct (map q_id (sq_rows db))"
  shows "sq_rows (acknowledge_one entity tbl rid db)
      = filter (\<lambda>r. \<not> (q_id r = rid \<and> q_entity_type r = as_str entity)) (sq_rows db)"
    and "sq_next_id (acknowledge_one entity tbl rid db) = sq_next_id db"
    and "t \<noteq> tbl \<Longrightarrow> sq_tables (acknowledge_one entity tbl rid db) t = sq_tables db t"
proof -
  let ?f = "find (\<lambda>r. q_id r = rid \<and> q_entity_type r = as_str entity) (sq_rows db)"
  show "sq_rows (acknowledge_one entity tbl rid db)
      = filter (\<lambda>r. \<not> (q_id r = rid \<and> q_entity_type r = as_str entity)) (sq_rows db)"
  proof (cases ?f)
    case None
    then have "\<forall>r\<in>set (sq_rows db). \<not> (q_id r = rid \<and> q_entity_type r = as_str entity)"
      by (auto simp: find_None_iff)
    then show ?thesis by (simp add: acknowledge_one_def None)
  next
    case (Some row)
    then have row: "row \<in> set (sq_rows db)" "q_id row = rid" "q_entity_type row = as_str entity"
      by (auto simp: find_Some_iff)
    have "q_id r = rid \<longleftrightarrow> q_id r = rid \<and> q_entity_type r = as_str entity" if "r \<in> set (sq_rows db)" for r
      using ids_inj [OF assms that row(1)] row by auto
    then show ?thesis by (auto simp: acknowledge_one_def Some Let_def delete_ids_def intro!: filter_cong)
  qed
  show "sq_next_id (acknowledge_one entity tbl rid db) = sq_next_id db"
    and "t \<noteq> tbl \<Longrightarrow> sq_tables (acknowledge_one entity tbl rid db) t = sq_tables db t"
    by (auto simp: acknowledge_one_def Let_def split: option.split)
qed

definition queued_edit :: "sync_entity_type \<Rightarrow> string \<Rightarrow> queue_row list \<Rightarrow> bool" where
  "queued_edit entity k rows \<longleftrightarrow> (\<exists>r\<in>set rows. q_entity_id r = k \<and> q_entity_type r = as_str entity)"

definition acknowledged :: "sync_entity_type \<Rightarrow> nat list \<Rightarrow> string \<Rightarrow> queue_row list \<Rightarrow> bool" where
  "acknowledged entity ids k rows \<longleftrightarrow>
     (\<exists>r\<in>set rows. q_id r \<in> set ids \<and> q_entity_type r = as_str entity \<and> q_entity_id r = k)"

lemma map_of_mark_synced:
  "map_of (mark_synced eid m) k = (if k = eid then map_option (\<lambda>_. True) (map_of m k) else map_of m k)"
  by (induction m) (auto simp: mark_synced_def)

lemma acknowledge_one_synced:
  assumes "distinct (map q_id (sq_rows db))"
  shows "map_of (sq_tables (acknowledge_one entity tbl rid db) tbl) k =
    (if acknowledged entity [rid] k (sq_rows db)
        \<and> \<not> queued_edit entity k (sq_rows (acknowledge_one entity tbl rid db))
     then map_option (\<lambda>_. True) (map_of (sq_tables db tbl) k) else map_of (sq_tables db tbl) k)"
proof (cases "find (\<lambda>r. q_id r = rid \<and> q_entity_type r = as_str entity) (sq_rows db)")
  case None
  then have "\<not> acknowledged entity [rid] k (sq_rows db)" by (auto simp: acknowledged_def find_None_iff)
  with None show ?thesis by (simp add: acknowledge_one_def)
next
  case (Some row)
  then have row: "row \<in> set (sq_rows db)" "q_id row = rid" "q_entity_type row = as_str entity"
    by (auto simp: find_Some_iff)
  have "acknowledged entity [rid] k (sq_rows db) \<longleftrightarrow> k = q_entity_id row"
  proof
    assume "acknowledged entity [rid] k (sq_rows db)"
    then obtain r where r: "r \<in> set (sq_rows db)" "q_id r = rid" "q_entity_id r = k"
      by (auto simp: acknowledged_def)
    with row have "r = row" by (intro ids_inj [OF assms r(1) row(1)]) simp
    with r show "k = q_entity_id row" by simp
  qed (use row in \<open>auto simp: acknowledged_def\<close>)
  moreover have "sq_tables (acknowledge_one entity tbl rid db) tbl =
      (if queued_edit entity (q_entity_id row) (sq_rows (acknowledge_one entity tbl rid db))
       then sq_tables db tbl else mark_synced (q_entity_id row) (sq_tables db tbl))"
    unfolding acknowledge_one_def Some option.case Let_def queued_edit_def list_ex_iff by auto
  ultimately show ?thesis
    by (cases "k = q_entity_id row") (simp_all add: map_of_mark_synced)
qed

lemma acknowledge_fold:
  fixes entity :: sync_entity_type and tbl :: string and ids :: "nat list"
  assumes "distinct (map q_id (sq_rows db))"
  defines "db' \<equiv> fold (acknowledge_one entity tbl) ids db"
  shows "sq_rows db' = filter (\<lambda>r. \<not> (q_id r \<in> set ids \<and> q_entity_type r = as_str entity)) (sq_rows db)
    \<and> sq_next_id db' = sq_next_id db
    \<and> (\<forall>t. t \<noteq> tbl \<longrightarrow> sq_tables db' t = sq_tables db t)
    \<and> (\<forall>k. map_of (sq_tables db' tbl) k =
        (if acknowledged entity ids k (sq_rows db) \<and> \<not> queued_edit entity k (sq_rows db')
         then map_option (\<lambda>_. True) (map_of (sq_tables db tbl) k) else map_of (sq_tables db tbl) k))"
  using assms(1) unfolding db'_def
proof (induction ids arbitrary: db)
  case Nil
  then show ?case by (simp add: acknowledged_def)
next
  case (Cons i ids)
  let ?db1 = "acknowledge_one entity tbl i db"
  note one = acknowledge_one_eqs [OF Cons.prems, where entity = entity and tbl = tbl and rid = i]
  have d1: "distinct (map q_id (sq_rows ?db1))"
    using Cons.prems by (simp add: one distinct_map_filter)
  let ?final = "fold (acknowledge_one entity tbl) ids ?db1"
  note IH = Cons.IH [OF d1]
  have rows: "sq_rows ?final
      = filter (\<lambda>r. \<not> (q_id r \<in> set (i # ids) \<and> q_entity_type r = as_str entity)) (sq_rows db)"
    using IH by (auto simp: one intro!: filter_cong)
  have split: "acknowledged entity (i # ids) k (sq_rows db) \<longleftrightarrow>
      acknowledged entity [i] k (sq_rows db) \<or> acknowledged entity ids k (sq_rows ?db1)" for k
    by (auto simp: acknowledged_def one)
  have later: "queued_edit entity k (sq_rows ?db1)" if "queued_edit entity k (sq_rows ?final)" for k
    using that by (auto simp: queued_edit_def rows one)
  have earlier: "acknowledged entity ids k (sq_rows ?db1)"
    if "queued_edit entity k (sq_rows ?db1)" and "\<not> queued_edit entity k (sq_rows ?final)" for k
    using that by (auto simp: queued_edit_def acknowledged_def rows one)
  show ?case
    using IH rows one split later earlier acknowledge_one_synced [OF Cons.prems, of entity tbl i]
    by (auto simp: option.map_comp comp_def)
qed

text \<open>An acknowledgement takes exactly the acknowledged uploads of that kind off the queue and
  marks a record synchronised when one of its uploads was acknowledged and no newer edit of it is
  queued; no other record changes, and kinds without editable records are refused.\<close>

theorem acknowledge_grc_exact:
  assumes "db_wf db"
  shows "case grc_table entity of
      None \<Rightarrow> acknowledge_grc ids entity db = SqError ''Not a mutable GRC entity''
    | Some tbl \<Rightarrow>
        (\<exists>db'. acknowledge_grc ids entity db = SqOk db' \<and> db_wf db'
          \<and> sq_rows db' = filter (\<lambda>r. \<not> (q_id r \<in> set ids \<and> q_entity_type r = as_str entity)) (sq_rows db)
          \<and> (\<forall>t. t \<noteq> tbl \<longrightarrow> sq_tables db' t = sq_tables db t)
          \<and> (\<forall>k. map_of (sq_tables db' tbl) k =
              (if acknowledged entity ids k (sq_rows db) \<and> \<not> queued_edit entity k (sq_rows db')
               then map_option (\<lambda>_. True) (map_of (sq_tables db tbl) k) else map_of (sq_tables db tbl) k)))"
proof (cases "grc_table entity")
  case (Some tbl)
  have d: "distinct (map q_id (sq_rows db))" using assms by (simp add: db_wf_def)
  note fold = acknowledge_fold [OF d, where entity = entity and tbl = tbl and ids = ids]
  then have "db_wf (fold (acknowledge_one entity tbl) ids db)"
    using assms by (simp add: db_wf_def distinct_map_filter)
  with fold show ?thesis by (simp add: Some acknowledge_grc_def)
qed (simp add: acknowledge_grc_def)

definition edited_twice :: sync_db where
  "edited_twice =
     insert_row ''risk'' ''r1'' ''new'' 0 10 100 (insert_row ''risk'' ''r1'' ''old'' 0 10 100
       (empty_queue\<lparr>sq_tables := (\<lambda>t. if t = ''risks'' then [(''r1'', False)] else [])\<rparr>))"

theorem acknowledge_grc_exact_witness:
  "\<exists>db'. acknowledge_grc [1] Risk edited_twice = SqOk db' \<and> map_of (sq_tables db' ''risks'') ''r1'' = Some False"
proof -
  have "db_wf edited_twice" by (simp add: edited_twice_def empty_queue_def insert_row_def db_wf_def)
  from acknowledge_grc_exact [OF this, where entity = Risk and ids = "[1]"] show ?thesis
    by (auto simp: edited_twice_def empty_queue_def insert_row_def acknowledged_def queued_edit_def)
qed

section \<open>A deletion survives\<close>

text \<open>What the agent does to the queue besides acknowledging, withdrawing or repeating a deletion.\<close>

inductive queue_step :: "sync_db \<Rightarrow> sync_db \<Rightarrow> bool" where
  step_enqueue: "queue_step db (fst (enqueue e now db))"
| step_failure: "record_failure rid msg now db = SqOk db' \<Longrightarrow> queue_step db db'"
| step_acknowledge: "acknowledge_grc ids entity db = SqOk db' \<Longrightarrow> queue_step db db'"
| step_enforce: "queue_step db (fst (enforce_queue_limit db))"
| step_purge: "queue_step db (fst (purge_failed db))"
| step_delete_other:
    "delete_grc entity eid now db = SqOk db' \<Longrightarrow> \<not> (\<exists>r\<in>set (sq_rows db). like_delete (q_entity_type r) \<and> concerns entity eid r)
     \<Longrightarrow> queue_step db db'"

definition same_deletion :: "queue_row \<Rightarrow> queue_row \<Rightarrow> bool" where
  "same_deletion r r' \<longleftrightarrow> q_id r' = q_id r \<and> q_entity_type r' = q_entity_type r
     \<and> q_entity_id r' = q_entity_id r \<and> q_max_attempts r' = q_max_attempts r"

lemma same_deletion_refl [simp]: "same_deletion r r"
  by (simp add: same_deletion_def)

lemma same_deletion_trans: "same_deletion r s \<Longrightarrow> same_deletion s t \<Longrightarrow> same_deletion r t"
  by (simp add: same_deletion_def)

lemma enqueue_parts:
  "db_wf db \<Longrightarrow> db_wf (fst (enqueue e now db))"
  "db_wf db \<Longrightarrow> r \<in> set (sq_rows db) \<Longrightarrow> like_delete (q_entity_type r) \<Longrightarrow>
   r \<in> set (sq_rows (fst (enqueue e now db)))"
proof -
  have wf: "db_wf (db\<lparr>sq_rows := make_room (sq_rows db)\<rparr>)" if "db_wf db"
    using that make_room_wf make_room_subset by (auto simp: db_wf_def)
  then show "db_wf db \<Longrightarrow> db_wf (fst (enqueue e now db))"
    by (simp add: enqueue_def insert_row_wf)
  show "db_wf db \<Longrightarrow> r \<in> set (sq_rows db) \<Longrightarrow> like_delete (q_entity_type r) \<Longrightarrow>
   r \<in> set (sq_rows (fst (enqueue e now db)))"
    using make_room_keeps [of "sq_rows db" r] by (simp add: enqueue_def insert_row_def db_wf_def evictable_def)
qed

lemma enforce_parts:
  "db_wf db \<Longrightarrow> db_wf (fst (enforce_queue_limit db))"
  "db_wf db \<Longrightarrow> r \<in> set (sq_rows db) \<Longrightarrow> like_delete (q_entity_type r) \<Longrightarrow>
   r \<in> set (sq_rows (fst (enforce_queue_limit db)))"
  by (auto simp: enforce_queue_limit_def case_prod_beta db_wf_def evictable_def evict_wf evict_keeps
           dest!: evict_subset [THEN subsetD])

lemma purge_parts:
  "db_wf db \<Longrightarrow> db_wf (fst (purge_failed db))"
  "r \<in> set (sq_rows db) \<Longrightarrow> like_delete (q_entity_type r) \<Longrightarrow> r \<in> set (sq_rows (fst (purge_failed db)))"
  by (auto simp: purge_failed_def Let_def db_wf_def distinct_map_filter evictable_def)

lemma record_failure_same:
  assumes "record_failure rid msg now db = SqOk db'" and "r \<in> set (sq_rows db)"
  shows "\<exists>r'\<in>set (sq_rows db'). same_deletion r r'"
proof -
  obtain f where "sq_rows db' = map f (sq_rows db)" and "\<And>r. same_deletion r (f r)"
    using assms(1) by (fastforce simp: record_failure_def same_deletion_def split: option.splits)
  with assms(2) show ?thesis by auto
qed

lemma acknowledge_parts:
  assumes "acknowledge_grc ids entity db = SqOk db'" and "db_wf db"
  shows "db_wf db'"
    and "r \<in> set (sq_rows db) \<Longrightarrow> like_delete (q_entity_type r) \<Longrightarrow> r \<in> set (sq_rows db')"
proof -
  obtain tbl where t: "grc_table entity = Some tbl" and db': "db' = fold (acknowledge_one entity tbl) ids db"
    using assms(1) by (auto simp: acknowledge_grc_def split: option.splits)
  have d: "distinct (map q_id (sq_rows db))" using assms(2) by (simp add: db_wf_def)
  note fold = acknowledge_fold [OF d, where entity = entity and tbl = tbl and ids = ids, folded db']
  show "db_wf db'" using fold assms(2) by (auto simp: db_wf_def distinct_map_filter)
  have "\<not> like_delete (as_str entity)" using t unfolding like_delete_iff by (cases entity) auto
  then show "r \<in> set (sq_rows db) \<Longrightarrow> like_delete (q_entity_type r) \<Longrightarrow> r \<in> set (sq_rows db')"
    using fold by auto
qed

lemma delete_parts:
  assumes "delete_grc entity eid now db = SqOk db'" and "db_wf db"
  shows "db_wf db'"
    and "r \<in> set (sq_rows db) \<Longrightarrow> \<not> concerns entity eid r \<Longrightarrow> r \<in> set (sq_rows db')"
proof -
  show "db_wf db'"
    using assms by (auto simp: delete_grc_def split: option.splits intro!: insert_row_wf filter_rows_wf)
  show "r \<in> set (sq_rows db) \<Longrightarrow> \<not> concerns entity eid r \<Longrightarrow> r \<in> set (sq_rows db')"
    using assms(1) by (auto simp: delete_grc_def insert_row_def concerns_def split: option.splits)
qed

lemma queue_step_keeps:
  assumes "queue_step db db'" and "db_wf db"
  shows "db_wf db' \<and> (\<forall>r\<in>set (sq_rows db). like_delete (q_entity_type r) \<longrightarrow>
    (\<exists>r'\<in>set (sq_rows db'). same_deletion r r'))"
  using assms
proof cases
  case (step_enqueue e now)
  then show ?thesis using assms(2) enqueue_parts by (auto intro: same_deletion_refl)
next
  case (step_failure rid msg now)
  then show ?thesis using assms(2) record_failure_wf record_failure_same by blast
next
  case (step_acknowledge ids entity)
  then show ?thesis using acknowledge_parts [OF _ assms(2)] same_deletion_refl by blast
next
  case step_enforce
  then show ?thesis using assms(2) enforce_parts same_deletion_refl by blast
next
  case step_purge
  then show ?thesis using assms(2) purge_parts same_deletion_refl by blast
next
  case (step_delete_other entity eid now)
  then show ?thesis using delete_parts [OF _ assms(2)] same_deletion_refl by blast
qed

text \<open>Through any sequence of queueings, failures, acknowledged uploads, evictions, purges and
  deletions of other records, a queued deletion stays queued, for the same record and with the same
  limit: only its own acknowledgement, withdrawal or repetition takes it off.\<close>

theorem deletion_survives:
  assumes "queue_step\<^sup>*\<^sup>* db db'" and "db_wf db"
    and "r \<in> set (sq_rows db)" and "like_delete (q_entity_type r)"
  shows "db_wf db' \<and> (\<exists>r'\<in>set (sq_rows db'). same_deletion r r')"
  using assms(1)
proof (induction rule: rtranclp_induct)
  case base
  show ?case using assms same_deletion_refl by blast
next
  case (step db1 db2)
  then obtain r1 where "db_wf db1" and r1: "r1 \<in> set (sq_rows db1)" and s: "same_deletion r r1" by blast
  moreover from s assms(4) have "like_delete (q_entity_type r1)" by (simp add: same_deletion_def)
  ultimately show ?case
    using queue_step_keeps [OF step.hyps(2)] same_deletion_trans by blast
qed

theorem deletion_survives_witness:
  "\<exists>r'\<in>set (sq_rows (fst (purge_failed (fst (enqueue (new_entry Playbook ''p1'' ''x'') 200 one_deletion))))).
     same_deletion (hd (sq_rows one_deletion)) r'"
proof -
  let ?db1 = "fst (enqueue (new_entry Playbook ''p1'' ''x'') 200 one_deletion)"
  have "queue_step\<^sup>*\<^sup>* one_deletion (fst (purge_failed ?db1))"
    by (rule converse_rtranclp_into_rtranclp [where b = ?db1], rule queue_step.step_enqueue,
        rule r_into_rtranclp, rule queue_step.step_purge)
  moreover have "hd (sq_rows one_deletion) \<in> set (sq_rows one_deletion)"
    and "like_delete (q_entity_type (hd (sq_rows one_deletion)))"
    by (simp_all add: one_deletion_def empty_queue_def insert_row_def like_delete_iff [of RiskDelete, simplified])
  ultimately show ?thesis
    using deletion_survives [OF _ conjunct1 [OF one_deletion_wf]] by blast
qed

end
