(* ===== verification/Offline.thy ===== *)
theory Offline imports Prelude begin

text \<open>
  Offline operation (\<open>crates/agent-sync/src/offline.rs\<close>): the retry rule of a queued item, the
  circuit breaker, the offline tracker and the resolution of conflicts.

  Instants are whole nanoseconds; chrono's \<open>num_seconds\<close> and \<open>num_hours\<close> truncate towards zero.
  The breaker's and the tracker's operations are first modelled as one step each; the writes
  of \<open>record_success\<close> and \<open>record_failure\<close>, which take their locks one after the other, are then
  modelled one by one to study their interleavings.
\<close>

section \<open>Constants and instants\<close>

definition MAX_OFFLINE_DAYS :: i64 where "MAX_OFFLINE_DAYS = 7"
definition MAX_RETRY_HOURS :: i64 where "MAX_RETRY_HOURS = 24"
definition INITIAL_RETRY_DELAY_SECS :: u64 where "INITIAL_RETRY_DELAY_SECS = 1"
definition MAX_RETRY_DELAY_SECS :: u64 where "MAX_RETRY_DELAY_SECS = 3600"
definition CIRCUIT_BREAKER_THRESHOLD :: u32 where "CIRCUIT_BREAKER_THRESHOLD = 5"
definition CIRCUIT_BREAKER_OPEN_SECS :: u64 where "CIRCUIT_BREAKER_OPEN_SECS = 300"

type_synonym instant = int

definition seconds :: "int \<Rightarrow> int" where
  "seconds n = n * 10 ^ 9"

definition num_seconds :: "int \<Rightarrow> int" where
  "num_seconds d = (if 0 \<le> d then d div 10 ^ 9 else - ((- d) div 10 ^ 9))"

definition num_hours :: "int \<Rightarrow> int" where
  "num_hours d = (if 0 \<le> num_seconds d then num_seconds d div 3600 else - ((- num_seconds d) div 3600))"

section \<open>Items\<close>

datatype entity_type =
    CheckResult | Proof | Heartbeat | Config | Playbook | DetectionRule | Risk | Asset | Kpi
  | AlertRule | Webhook

fun entity_text :: "entity_type \<Rightarrow> string" where
  "entity_text CheckResult = ''check_result''"
| "entity_text Proof = ''proof''"
| "entity_text Heartbeat = ''heartbeat''"
| "entity_text Config = ''config''"
| "entity_text Playbook = ''playbook''"
| "entity_text DetectionRule = ''detection_rule''"
| "entity_text Risk = ''risk''"
| "entity_text Asset = ''asset''"
| "entity_text Kpi = ''kpi''"
| "entity_text AlertRule = ''alert_rule''"
| "entity_text Webhook = ''webhook''"

definition parse_entity :: "string \<Rightarrow> entity_type option" where
  "parse_entity s =
     (if s = ''check_result'' then Some CheckResult
      else if s = ''proof'' then Some Proof
      else if s = ''heartbeat'' then Some Heartbeat
      else if s = ''config'' then Some Config
      else if s = ''playbook'' then Some Playbook
      else if s = ''detection_rule'' then Some DetectionRule
      else if s = ''risk'' then Some Risk
      else if s = ''asset'' then Some Asset
      else if s = ''kpi'' then Some Kpi
      else if s = ''alert_rule'' then Some AlertRule
      else if s = ''webhook'' then Some Webhook
      else None)"

record offline_item =
  oi_id :: i64
  oi_entity_type :: entity_type
  oi_entity_id :: i64
  oi_payload :: string
  oi_priority :: int
  oi_attempts :: u32
  oi_max_attempts :: u32
  oi_last_attempt_at :: "instant option"
  oi_last_error :: "string option"
  oi_created_at :: instant
  oi_next_retry_at :: instant

definition retry_delay_secs :: "u32 \<Rightarrow> u64" where
  "retry_delay_secs attempts =
     min (u64_saturating_mul INITIAL_RETRY_DELAY_SECS (min (2 ^ attempts) u64_max)) MAX_RETRY_DELAY_SECS"

definition calculate_next_retry :: "offline_item \<Rightarrow> instant \<Rightarrow> instant" where
  "calculate_next_retry item now = now + seconds (int (retry_delay_secs (oi_attempts item)))"

definition should_retry :: "offline_item \<Rightarrow> instant \<Rightarrow> bool" where
  "should_retry item now \<longleftrightarrow>
     \<not> oi_max_attempts item \<le> oi_attempts item
     \<and> \<not> oi_created_at item + seconds (MAX_RETRY_HOURS * 3600) \<le> now"

definition is_ready_for_retry :: "offline_item \<Rightarrow> instant \<Rightarrow> bool" where
  "is_ready_for_retry item now \<longleftrightarrow> should_retry item now \<and> oi_next_retry_at item \<le> now"

section \<open>Circuit breaker\<close>

datatype circuit_state = Closed | Open | HalfOpen

record circuit_breaker =
  cb_state :: circuit_state
  cb_failure_count :: u32
  cb_opened_at :: "instant option"

definition new_breaker :: circuit_breaker where
  "new_breaker = \<lparr>cb_state = Closed, cb_failure_count = 0, cb_opened_at = None\<rparr>"

definition is_allowed :: "instant \<Rightarrow> circuit_breaker \<Rightarrow> circuit_breaker \<times> bool" where
  "is_allowed now cb =
     (case cb_state cb of
        Closed \<Rightarrow> (cb, True)
      | Open \<Rightarrow>
          (case cb_opened_at cb of
             Some opened \<Rightarrow>
               if CIRCUIT_BREAKER_OPEN_SECS \<le> nat (max (num_seconds (now - opened)) 0)
               then (cb\<lparr>cb_state := HalfOpen\<rparr>, True) else (cb, False)
           | None \<Rightarrow> (cb, False))
      | HalfOpen \<Rightarrow> (cb, True))"

definition record_success :: "circuit_breaker \<Rightarrow> circuit_breaker" where
  "record_success cb = cb\<lparr>cb_failure_count := 0, cb_state := Closed, cb_opened_at := None\<rparr>"

text \<open>\<open>fetch_add\<close> wraps, the \<open>+ 1\<close> on what it returns is checked.\<close>

definition record_failure :: "instant \<Rightarrow> circuit_breaker \<Rightarrow> circuit_breaker option" where
  "record_failure now cb =
     (case checked_u32 (cb_failure_count cb + 1) of
        None \<Rightarrow> None
      | Some failures \<Rightarrow>
          let cb1 = cb\<lparr>cb_failure_count := (cb_failure_count cb + 1) mod 2 ^ 32\<rparr> in
          Some (if CIRCUIT_BREAKER_THRESHOLD \<le> failures \<and> cb_state cb1 \<noteq> Open
                then cb1\<lparr>cb_state := Open, cb_opened_at := Some now\<rparr> else cb1))"

section \<open>Offline tracker\<close>

record offline_tracker =
  ot_is_offline :: bool
  ot_offline_since :: "instant option"
  ot_last_connected :: "instant option"
  ot_queued_count :: u32

record offline_status =
  os_is_offline :: bool
  os_offline_since :: "instant option"
  os_last_connected :: "instant option"
  os_offline_duration_hours :: "u32 option"
  os_queued_item_count :: u32
  os_within_autonomy_period :: bool

definition new_tracker :: "instant \<Rightarrow> offline_tracker" where
  "new_tracker now = \<lparr>ot_is_offline = False, ot_offline_since = None,
     ot_last_connected = Some now, ot_queued_count = 0\<rparr>"

definition enter_offline_mode :: "instant \<Rightarrow> offline_tracker \<Rightarrow> offline_tracker" where
  "enter_offline_mode now t =
     (if ot_is_offline t then t else t\<lparr>ot_is_offline := True, ot_offline_since := Some now\<rparr>)"

definition exit_offline_mode :: "instant \<Rightarrow> offline_tracker \<Rightarrow> offline_tracker" where
  "exit_offline_mode now t =
     (if ot_is_offline t
      then t\<lparr>ot_is_offline := False, ot_offline_since := None, ot_last_connected := Some now\<rparr>
      else t)"

definition offline_duration :: "instant \<Rightarrow> offline_tracker \<Rightarrow> int option" where
  "offline_duration now t =
     (if ot_is_offline t then map_option (\<lambda>s. now - s) (ot_offline_since t) else None)"

definition is_within_autonomy_period :: "instant \<Rightarrow> offline_tracker \<Rightarrow> bool" where
  "is_within_autonomy_period now t =
     (case offline_duration now t of
        Some d \<Rightarrow> num_hours d \<le> MAX_OFFLINE_DAYS * 24 | None \<Rightarrow> True)"

definition tracker_status :: "instant \<Rightarrow> offline_tracker \<Rightarrow> offline_status" where
  "tracker_status now t =
     (let duration = (if ot_is_offline t then map_option (\<lambda>s. now - s) (ot_offline_since t) else None)
      in \<lparr>os_is_offline = ot_is_offline t, os_offline_since = ot_offline_since t,
          os_last_connected = ot_last_connected t,
          os_offline_duration_hours =
            map_option (\<lambda>d. nat (max (num_hours d) 0) mod 2 ^ 32) duration,
          os_queued_item_count = ot_queued_count t,
          os_within_autonomy_period =
            (case duration of Some d \<Rightarrow> num_hours d \<le> MAX_OFFLINE_DAYS * 24 | None \<Rightarrow> True)\<rparr>)"

definition set_queued_count :: "u32 \<Rightarrow> offline_tracker \<Rightarrow> offline_tracker" where
  "set_queued_count n t = t\<lparr>ot_queued_count := n\<rparr>"

definition increment_queued :: "offline_tracker \<Rightarrow> offline_tracker" where
  "increment_queued t = t\<lparr>ot_queued_count := (ot_queued_count t + 1) mod 2 ^ 32\<rparr>"

definition decrement_queued :: "offline_tracker \<Rightarrow> offline_tracker" where
  "decrement_queued t =
     (if ot_queued_count t = 0 then t else t\<lparr>ot_queued_count := ot_queued_count t - 1\<rparr>)"

section \<open>Conflicts\<close>

datatype conflict_strategy = ServerWins | ClientWins | MostRecent

record conflict_resolution =
  cr_key :: string
  cr_strategy :: conflict_strategy
  cr_before :: string
  cr_after :: string
  cr_needs_review :: bool

definition resolve_config_conflict :: "string \<Rightarrow> string \<Rightarrow> string \<Rightarrow> instant \<Rightarrow> instant \<Rightarrow> conflict_resolution" where
  "resolve_config_conflict key local_value remote_value local_timestamp remote_timestamp =
     \<lparr>cr_key = key, cr_strategy = ServerWins, cr_before = local_value, cr_after = remote_value,
      cr_needs_review = False\<rparr>"

definition resolve_rule_conflict :: "string \<Rightarrow> string \<Rightarrow> string \<Rightarrow> instant \<Rightarrow> instant \<Rightarrow> conflict_resolution" where
  "resolve_rule_conflict rule_id local_version remote_version local_timestamp remote_timestamp =
     (let (winner, loser) = (if local_timestamp < remote_timestamp
        then (remote_version, local_version) else (local_version, remote_version))
      in \<lparr>cr_key = rule_id, cr_strategy = MostRecent, cr_before = loser, cr_after = winner,
          cr_needs_review = False\<rparr>)"

section \<open>Guarded attempts\<close>

text \<open>
  How the orchestrator uses the breaker: it asks, and only an allowed attempt reports its
  result. An attempt is the instant it asks at, the instant it ends at and whether it succeeds.
\<close>

type_synonym attempt = "instant \<times> instant \<times> bool"

definition attempt_step :: "attempt \<Rightarrow> circuit_breaker \<Rightarrow> circuit_breaker option" where
  "attempt_step a cb =
     (case a of (asked, ended, ok) \<Rightarrow>
        (case is_allowed asked cb of
           (cb1, True) \<Rightarrow> if ok then Some (record_success cb1) else record_failure ended cb1
         | (cb1, False) \<Rightarrow> Some cb1))"

fun attempts :: "attempt list \<Rightarrow> circuit_breaker \<Rightarrow> circuit_breaker option" where
  "attempts [] cb = Some cb"
| "attempts (a # as) cb = (case attempt_step a cb of Some cb' \<Rightarrow> attempts as cb' | None \<Rightarrow> None)"

text \<open>
  What it is meant to do: count the failures in a row of the attempts it let through, and after
  five of them refuse every attempt within 300 seconds of the last.
\<close>

definition refuses :: "instant \<Rightarrow> nat \<times> instant \<Rightarrow> bool" where
  "refuses now s \<longleftrightarrow> 5 \<le> fst s \<and> now - snd s < seconds 300"

definition spec_step :: "attempt \<Rightarrow> nat \<times> instant \<Rightarrow> nat \<times> instant" where
  "spec_step a s =
     (case a of (asked, ended, ok) \<Rightarrow>
        if refuses asked s then s else if ok then (0, ended) else (fst s + 1, ended))"

definition breaker_abs :: "circuit_breaker \<Rightarrow> nat \<times> instant \<Rightarrow> bool" where
  "breaker_abs cb s \<longleftrightarrow> cb_failure_count cb = fst s \<and>
     (if fst s < 5 then cb_state cb = Closed
      else cb_state cb = Open \<and> cb_opened_at cb = Some (snd s))"

lemma num_seconds_less:
  assumes "0 < n"
  shows "num_seconds d < n \<longleftrightarrow> d < seconds n"
proof (cases "0 \<le> d")
  case True
  then show ?thesis unfolding num_seconds_def seconds_def by simp linarith
next
  case False
  then have "0 \<le> (- d) div 10 ^ 9" by simp
  with False assms show ?thesis by (simp add: num_seconds_def seconds_def)
qed

lemma open_refuses: "nat (max (num_seconds d) 0) < 300 \<longleftrightarrow> d < seconds 300"
proof -
  have "nat (max (num_seconds d) 0) < 300 \<longleftrightarrow> num_seconds d < 300" by auto
  with num_seconds_less [of 300 d] show ?thesis by simp
qed

lemma is_allowed_abs:
  assumes "breaker_abs cb s"
  shows "snd (is_allowed now cb) \<longleftrightarrow> \<not> refuses now s"
    and "refuses now s \<Longrightarrow> fst (is_allowed now cb) = cb"
    and "cb_failure_count (fst (is_allowed now cb)) = fst s"
    and "\<not> refuses now s \<Longrightarrow> cb_state (fst (is_allowed now cb)) = (if fst s < 5 then Closed else HalfOpen)"
  using assms
  by (auto simp: breaker_abs_def is_allowed_def refuses_def CIRCUIT_BREAKER_OPEN_SECS_def
      open_refuses not_less not_le simp flip: linorder_not_less split: if_splits)

lemma attempt_step_abs:
  assumes "breaker_abs cb s" and "fst s < 2 ^ 32 - 1"
  shows "\<exists>cb'. attempt_step a cb = Some cb' \<and> breaker_abs cb' (spec_step a s)"
proof -
  obtain asked ended ok where a: "a = (asked, ended, ok)" by (cases a)
  obtain cb1 r where i: "is_allowed asked cb = (cb1, r)" by fastforce
  note abs = is_allowed_abs [OF assms(1), of asked, unfolded i fst_conv snd_conv]
  show ?thesis
  proof (cases r)
    case False
    with abs assms(1) show ?thesis by (simp add: attempt_step_def a i spec_step_def)
  next
    case True
    with abs assms(2) show ?thesis
      by (auto simp: attempt_step_def a i spec_step_def record_success_def record_failure_def
          checked_u32_def u32_max_def Let_def breaker_abs_def CIRCUIT_BREAKER_THRESHOLD_def)
  qed
qed

lemma spec_step_le: "fst (spec_step a s) \<le> Suc (fst s)"
  by (auto simp: spec_step_def split: prod.split)

lemma attempts_abs:
  "breaker_abs cb s \<Longrightarrow> fst s + length as < 2 ^ 32 \<Longrightarrow>
   \<exists>cb'. attempts as cb = Some cb' \<and> breaker_abs cb' (fold spec_step as s)"
proof (induction as arbitrary: cb s)
  case (Cons a as)
  then obtain cb1 where "attempt_step a cb = Some cb1" and "breaker_abs cb1 (spec_step a s)"
    using attempt_step_abs [of cb s a] by auto
  then show ?case
    using Cons.IH [of cb1 "spec_step a s"] Cons.prems(2) spec_step_le [of a s] by auto
qed simp

text \<open>C7: Used as the orchestrator uses it, the circuit breaker implements its contract: it counts
  the failures in a row of the attempts it let through, refuses every attempt less than 300 seconds
  after the last of five or more, and lets every other attempt through; it never gets stuck open.\<close>

theorem breaker_refines_spec:
  assumes "length as < 2 ^ 32"
  shows "\<exists>cb. attempts as new_breaker = Some cb
    \<and> (\<forall>now. snd (is_allowed now cb) \<longleftrightarrow> \<not> refuses now (fold spec_step as (0, 0)))
    \<and> cb_failure_count cb = fst (fold spec_step as (0, 0))
    \<and> (cb_state cb = Open \<longrightarrow> cb_opened_at cb \<noteq> None)"
proof -
  have "breaker_abs new_breaker (0, 0)" by (simp add: breaker_abs_def new_breaker_def)
  from attempts_abs [OF this, of as] assms
  obtain cb where "attempts as new_breaker = Some cb" and abs: "breaker_abs cb (fold spec_step as (0, 0))"
    by auto
  with is_allowed_abs(1) [OF abs] show ?thesis by (auto simp: breaker_abs_def split: if_splits)
qed

theorem breaker_refines_spec_witness:
  "\<exists>cb. attempts (replicate 5 (0, 0, False)) new_breaker = Some cb
     \<and> \<not> snd (is_allowed (seconds 299) cb) \<and> snd (is_allowed (seconds 300) cb)"
proof -
  have "fold spec_step (replicate 5 (0, 0, False)) (0, 0) = (5, 0)"
    by (simp add: eval_nat_numeral spec_step_def refuses_def)
  with breaker_refines_spec [of "replicate 5 (0, 0, False)"] show ?thesis
    by (auto simp: refuses_def seconds_def)
qed

section \<open>Two attempts at once\<close>

text \<open>
  \<open>record_success\<close> and \<open>record_failure\<close> write their three cells one after the other, and hold
  no lock in between. A thread is where it stands in one of them; a schedule says which of the
  two threads moves next (\<open>True\<close>: the first).
\<close>

datatype breaker_thread =
    Success1 | Success2 | Success3 | Failure1 instant | Failure2 instant u32 | Failure3 instant | Finished

fun thread_step :: "breaker_thread \<Rightarrow> circuit_breaker \<Rightarrow> breaker_thread \<times> circuit_breaker" where
  "thread_step Success1 cb = (Success2, cb\<lparr>cb_failure_count := 0\<rparr>)"
| "thread_step Success2 cb = (Success3, cb\<lparr>cb_state := Closed\<rparr>)"
| "thread_step Success3 cb = (Finished, cb\<lparr>cb_opened_at := None\<rparr>)"
| "thread_step (Failure1 now) cb =
     (Failure2 now (cb_failure_count cb + 1), cb\<lparr>cb_failure_count := (cb_failure_count cb + 1) mod 2 ^ 32\<rparr>)"
| "thread_step (Failure2 now failures) cb =
     (if CIRCUIT_BREAKER_THRESHOLD \<le> failures \<and> cb_state cb \<noteq> Open
      then (Failure3 now, cb\<lparr>cb_state := Open\<rparr>) else (Finished, cb))"
| "thread_step (Failure3 now) cb = (Finished, cb\<lparr>cb_opened_at := Some now\<rparr>)"
| "thread_step Finished cb = (Finished, cb)"

fun run_schedule ::
  "bool list \<Rightarrow> breaker_thread \<Rightarrow> breaker_thread \<Rightarrow> circuit_breaker
   \<Rightarrow> breaker_thread \<times> breaker_thread \<times> circuit_breaker" where
  "run_schedule [] a b cb = (a, b, cb)"
| "run_schedule (True # sched) a b cb = (let (a', cb') = thread_step a cb in run_schedule sched a' b cb')"
| "run_schedule (False # sched) a b cb = (let (b', cb') = thread_step b cb in run_schedule sched a b' cb')"

text \<open>One after the other, the writes are the operations.\<close>

lemma threads_in_sequence:
  "snd (snd (run_schedule [True, True, True] Success1 b cb)) = record_success cb"
  "cb_failure_count cb + 1 \<le> u32_max \<Longrightarrow>
   record_failure now cb = Some (snd (snd (run_schedule [True, True, True] (Failure1 now) b cb)))"
  by (auto simp: record_success_def record_failure_def checked_u32_def Let_def)

lemma stuck_open:
  assumes "cb_state cb = Open" and "cb_opened_at cb = None"
  shows "attempts as cb = Some cb" and "\<not> snd (is_allowed now cb)"
proof -
  have a: "is_allowed now cb = (cb, False)" for now using assms by (simp add: is_allowed_def)
  then show "\<not> snd (is_allowed now cb)" by simp
  show "attempts as cb = Some cb" by (induction as) (auto simp: attempt_step_def a)
qed

text \<open>When a success and the fifth failure of concurrent attempts are recorded at once, the breaker
  can end open with no opening time: it then refuses every later attempt, for ever.\<close>

theorem breaker_race_stays_open:
  "\<exists>cb sched cb'. attempts (replicate 4 (0, 0, False)) new_breaker = Some cb
    \<and> (\<forall>now. snd (is_allowed now cb))
    \<and> run_schedule sched Success1 (Failure1 now) cb = (Finished, Finished, cb')
    \<and> (\<forall>as. attempts as cb' = Some cb') \<and> (\<forall>now. \<not> snd (is_allowed now cb'))"
proof -
  let ?cb = "\<lparr>cb_state = Closed, cb_failure_count = 4, cb_opened_at = None\<rparr>"
  let ?cb' = "\<lparr>cb_state = Open, cb_failure_count = 0, cb_opened_at = None\<rparr>"
  have "attempts (replicate 4 (0, 0, False)) new_breaker = Some ?cb" by code_simp
  moreover have "run_schedule [False, True, True, False, False, True] Success1 (Failure1 now) ?cb
      = (Finished, Finished, ?cb')"
    by (simp add: CIRCUIT_BREAKER_THRESHOLD_def)
  ultimately show ?thesis
    using stuck_open [of ?cb']
    by (intro exI [of _ ?cb] exI [of _ "[False, True, True, False, False, True]"] exI [of _ ?cb'])
       (simp add: is_allowed_def)
qed

section \<open>Offline time\<close>

datatype tracker_event = Enter instant | Exit instant | QueueUp | QueueDown | QueueSet u32

fun tracker_step :: "tracker_event \<Rightarrow> offline_tracker \<Rightarrow> offline_tracker" where
  "tracker_step (Enter t) = enter_offline_mode t"
| "tracker_step (Exit t) = exit_offline_mode t"
| "tracker_step QueueUp = increment_queued"
| "tracker_step QueueDown = decrement_queued"
| "tracker_step (QueueSet n) = set_queued_count n"

text \<open>Since when the agent is offline: the first \<open>Enter\<close> after the last \<open>Exit\<close>.\<close>

fun offline_since :: "tracker_event list \<Rightarrow> instant option \<Rightarrow> instant option" where
  "offline_since [] s = s"
| "offline_since (Enter t # es) s = offline_since es (case s of None \<Rightarrow> Some t | Some _ \<Rightarrow> s)"
| "offline_since (Exit t # es) s = offline_since es None"
| "offline_since (_ # es) s = offline_since es s"

lemma tracker_run:
  "ot_is_offline t = (ot_offline_since t \<noteq> None) \<Longrightarrow>
   ot_offline_since (fold tracker_step es t) = offline_since es (ot_offline_since t)
   \<and> ot_is_offline (fold tracker_step es t) = (offline_since es (ot_offline_since t) \<noteq> None)"
proof (induction es arbitrary: t)
  case (Cons e es)
  show ?case
  proof (cases e)
    case (Enter s)
    then show ?thesis
      using Cons.IH [of "enter_offline_mode s t"] Cons.prems
      by (auto simp: enter_offline_mode_def split: option.splits if_splits)
  next
    case (Exit s)
    then show ?thesis
      using Cons.IH [of "exit_offline_mode s t"] Cons.prems
      by (auto simp: exit_offline_mode_def)
  qed (use Cons.IH Cons.prems in \<open>auto simp: increment_queued_def decrement_queued_def set_queued_count_def\<close>)
qed simp

lemma num_hours_le: "num_hours d \<le> 168 \<longleftrightarrow> d < seconds (169 * 3600)"
proof -
  have "num_hours d \<le> 168 \<longleftrightarrow> num_seconds d < 169 * 3600"
    by (simp add: num_hours_def) linarith
  then show ?thesis using num_seconds_less [of "169 * 3600" d] by simp
qed

text \<open>Whatever sequence of disconnections and reconnections, the tracker measures the offline time
  from the first disconnection after the last reconnection, and the autonomy period holds exactly while
  that is less than 169 hours, an hour more than the seven days documented.\<close>

theorem autonomy_period:
  "is_within_autonomy_period now (fold tracker_step es (new_tracker t0)) \<longleftrightarrow>
     (case offline_since es None of None \<Rightarrow> True | Some s \<Rightarrow> now - s < seconds (169 * 3600))"
  using tracker_run [of "new_tracker t0" es]
  by (auto simp: is_within_autonomy_period_def offline_duration_def new_tracker_def
      MAX_OFFLINE_DAYS_def num_hours_le split: option.split)

end
