(* ===== verification/Sync_Orchestrator.thy ===== *)
theory Sync_Orchestrator imports Sync_Queue_Props Offline begin

text \<open>
  The sync orchestrator (\<open>crates/agent-sync/src/orchestrator.rs\<close>) with its error type
  (\<open>crates/agent-sync/src/error.rs\<close>): the drains of the upload queue and the guarded execution of
  a sync.

  The platform is a parameter: \<open>delete\<close> answers a deletion, \<open>upload\<close> an upload, \<open>download\<close> stands
  for \<open>download_grc_entities\<close>, which is not modelled, and \<open>decode\<close> for JSON decoding (the error
  text of a payload that does not decode). \<open>stamp\<close> gives the second in which the failure of a
  row is recorded. Nothing is assumed of any of them. Log lines are left out.
\<close>

section \<open>Errors\<close>

text \<open>The HTTP error of the client library is what the code asks of it: time-out, failed connect, text.\<close>

datatype sync_error =
    Http bool bool string
  | ServerError nat string
  | InvalidToken string
  | AlreadyEnrolled string
  | NotEnrolled
  | Certificate string
  | Storage string
  | Serialization string
  | ConfigError string
  | Timeout
  | ConnectionFailed string
  | CertificateValidation string

fun is_retryable :: "sync_error \<Rightarrow> bool" where
  "is_retryable (Http is_timeout is_connect _) = (is_timeout \<or> is_connect)"
| "is_retryable (ServerError status _) = (500 \<le> status \<or> status = 429)"
| "is_retryable Timeout = True"
| "is_retryable (ConnectionFailed _) = True"
| "is_retryable _ = False"

fun is_auth_error :: "sync_error \<Rightarrow> bool" where
  "is_auth_error (ServerError status _) = (status = 401 \<or> status = 403)"
| "is_auth_error (InvalidToken _) = True"
| "is_auth_error (Certificate _) = True"
| "is_auth_error _ = False"

fun error_text :: "sync_error \<Rightarrow> string" where
  "error_text (Http _ _ e) = ''HTTP request failed: '' @ e"
| "error_text (ServerError status message) =
     ''Server error (status '' @ show_nat status @ ''): '' @ message"
| "error_text (InvalidToken e) = ''Invalid or expired enrollment token: '' @ e"
| "error_text (AlreadyEnrolled e) = ''Agent already enrolled with ID: '' @ e"
| "error_text NotEnrolled = ''Agent not enrolled. Please enroll first.''"
| "error_text (Certificate e) = ''Certificate error: '' @ e"
| "error_text (Storage e) = ''Storage error: '' @ e"
| "error_text (Serialization e) = ''Serialization error: '' @ e"
| "error_text (ConfigError e) = ''Configuration error: '' @ e"
| "error_text Timeout = ''Request timed out''"
| "error_text (ConnectionFailed e) = ''Connection failed: '' @ e"
| "error_text (CertificateValidation e) = ''Server certificate validation failed: '' @ e"

text \<open>The outcome of a call: a value, an error, or a panic, after which the state means nothing.\<close>

datatype 'a outcome = Done 'a | Failed sync_error | Panicked

section \<open>Deletions\<close>

fun is_not_found :: "sync_error \<Rightarrow> bool" where
  "is_not_found (ServerError status _) = (status = 404)"
| "is_not_found _ = False"

definition deletion_type :: "sync_entity_type \<Rightarrow> bool" where
  "deletion_type t \<longleftrightarrow>
     t \<in> {PlaybookDelete, DetectionRuleDelete, RiskDelete, AlertRuleDelete, WebhookDelete}"

type_synonym delete_call = "sync_entity_type \<Rightarrow> string \<Rightarrow> sync_error + bool"

fun drain_deletions ::
  "delete_call \<Rightarrow> (nat \<Rightarrow> int) \<Rightarrow> sync_queue_item list \<Rightarrow> sync_db \<Rightarrow> nat \<Rightarrow> sync_db \<times> nat outcome" where
  "drain_deletions delete stamp [] db n = (db, Done n)"
| "drain_deletions delete stamp (i # items) db n =
     (if \<not> deletion_type (i_entity_type i) then drain_deletions delete stamp items db n
      else case delete (i_entity_type i) (i_entity_id i) of
        Inr True \<Rightarrow> drain_deletions delete stamp items (fst (remove_items [i_id i] db)) (n + 1)
      | Inr False \<Rightarrow> (db, Failed (ConfigError ''Platform did not acknowledge deletion''))
      | Inl e \<Rightarrow>
          if is_not_found e
          then drain_deletions delete stamp items (fst (remove_items [i_id i] db)) (n + 1)
          else (case Sync_Queue.record_failure (i_id i) (error_text e) (stamp (i_id i)) db of
                  SqOk db' \<Rightarrow> (db', Failed e)
                | SqNotFound \<Rightarrow> (db, Failed (Storage ''Sync queue item not found''))
                | SqError m \<Rightarrow> (db, Failed (Storage m))
                | SqPanic \<Rightarrow> (db, Panicked)))"

definition sync_edr_deletions ::
  "delete_call \<Rightarrow> (nat \<Rightarrow> int) \<Rightarrow> int \<Rightarrow> sync_db \<Rightarrow> sync_db \<times> nat outcome" where
  "sync_edr_deletions delete stamp now db = drain_deletions delete stamp (get_pending now 50 db) db 0"

section \<open>Uploads\<close>

text \<open>Record a failure whose result is ignored; only a panic gets out.\<close>

definition note_failure :: "nat \<Rightarrow> string \<Rightarrow> int \<Rightarrow> sync_db option \<Rightarrow> sync_db option" where
  "note_failure rid msg now db =
     (case db of None \<Rightarrow> None
      | Some d \<Rightarrow> (case Sync_Queue.record_failure rid msg now d of
          SqOk d' \<Rightarrow> Some d' | SqPanic \<Rightarrow> None | _ \<Rightarrow> Some d))"

definition undecodable :: "(sync_entity_type \<Rightarrow> string \<Rightarrow> string option) \<Rightarrow> sync_entity_type \<Rightarrow> sync_queue_item \<Rightarrow> bool" where
  "undecodable decode entity i \<longleftrightarrow> decode entity (i_payload i) \<noteq> None"

definition note_undecodable ::
  "(sync_entity_type \<Rightarrow> string \<Rightarrow> string option) \<Rightarrow> sync_entity_type \<Rightarrow> (nat \<Rightarrow> int)
   \<Rightarrow> sync_queue_item \<Rightarrow> sync_db option \<Rightarrow> sync_db option" where
  "note_undecodable decode entity stamp i db =
     (if undecodable decode entity i
      then note_failure (i_id i) (''Deserialization failed: '' @ the (decode entity (i_payload i)))
             (stamp (i_id i)) db
      else db)"

definition mutable_entity :: "sync_entity_type \<Rightarrow> bool" where
  "mutable_entity t \<longleftrightarrow> t \<in> {Sync_Queue.Playbook, Sync_Queue.DetectionRule, Sync_Queue.Risk,
     Sync_Queue.Asset, Sync_Queue.AlertRule, Sync_Queue.Webhook}"

type_synonym upload_call = "sync_entity_type \<Rightarrow> string list \<Rightarrow> sync_error + nat"

definition upload_batch ::
  "upload_call \<Rightarrow> sync_entity_type \<Rightarrow> (nat \<Rightarrow> int) \<Rightarrow> sync_queue_item list \<Rightarrow> sync_db \<Rightarrow> sync_db \<times> nat outcome" where
  "upload_batch upload entity stamp items db =
     (if items = [] then (db, Done 0)
      else case upload entity (map i_payload items) of
        Inr received \<Rightarrow>
          if received \<noteq> length items
          then (db, Failed (ConfigError ''Platform acknowledged an incomplete batch''))
          else if mutable_entity entity
          then (case acknowledge_grc (map i_id items) entity db of
                  SqOk db' \<Rightarrow> (db', Done (length items))
                | SqError m \<Rightarrow> (db, Failed (ConfigError m))
                | SqNotFound \<Rightarrow> (db, Failed (ConfigError ''not found''))
                | SqPanic \<Rightarrow> (db, Panicked))
          else (fst (remove_items (map i_id items) db), Done (length items))
      | Inl e \<Rightarrow>
          (case fold (\<lambda>i. note_failure (i_id i) (error_text e) (stamp (i_id i))) items (Some db) of
             Some db' \<Rightarrow> (db', Failed e) | None \<Rightarrow> (db, Panicked)))"

definition sync_entity ::
  "upload_call \<Rightarrow> (sync_entity_type \<Rightarrow> string \<Rightarrow> string option) \<Rightarrow> (nat \<Rightarrow> int) \<Rightarrow> sync_entity_type
   \<Rightarrow> int \<Rightarrow> sync_db \<Rightarrow> sync_db \<times> nat outcome" where
  "sync_entity upload decode stamp entity now db =
     (let pending = filter (\<lambda>i. i_entity_type i = entity) (get_pending_for entity now 50 db)
      in case fold (note_undecodable decode entity stamp) pending (Some db) of
           None \<Rightarrow> (db, Panicked)
         | Some db1 \<Rightarrow>
             upload_batch upload entity stamp (filter (\<lambda>i. \<not> undecodable decode entity i) pending) db1)"

section \<open>A full drain\<close>

text \<open>The calls of the platform, the download included, and the clock.\<close>

record platform =
  pl_delete :: delete_call
  pl_upload :: upload_call
  pl_decode :: "sync_entity_type \<Rightarrow> string \<Rightarrow> string option"
  pl_download :: "sync_db \<Rightarrow> sync_db \<times> nat outcome"
  pl_stamp :: "nat \<Rightarrow> int"
  pl_now :: int

text \<open>One step of the drain: on success it adds to the total, on failure to the list of errors.\<close>

type_synonym drain_state = "sync_db \<times> nat \<times> string list"

definition drain_step ::
  "string \<Rightarrow> (sync_db \<Rightarrow> sync_db \<times> nat outcome) \<Rightarrow> drain_state option \<Rightarrow> drain_state option" where
  "drain_step label step s =
     (case s of None \<Rightarrow> None
      | Some (db, acc, errors) \<Rightarrow>
          (case step db of
             (db', Done n) \<Rightarrow> map_option (\<lambda>acc'. (db', acc', errors)) (checked_u32 (acc + n))
           | (db', Failed e) \<Rightarrow> Some (db', acc, errors @ [label @ '': '' @ error_text e])
           | (_, Panicked) \<Rightarrow> None))"

definition drain_steps :: "platform \<Rightarrow> (string \<times> (sync_db \<Rightarrow> sync_db \<times> nat outcome)) list" where
  "drain_steps p =
     (let up = (\<lambda>entity. sync_entity (pl_upload p) (pl_decode p) (pl_stamp p) entity (pl_now p)) in
      [(''EDR deletions'', sync_edr_deletions (pl_delete p) (pl_stamp p) (pl_now p)),
       (''Playbooks queue drain'', up Sync_Queue.Playbook),
       (''Detection rules queue drain'', up Sync_Queue.DetectionRule),
       (''Risks queue drain'', up Sync_Queue.Risk),
       (''Assets queue drain'', up Sync_Queue.Asset),
       (''Alert rules queue drain'', up Sync_Queue.AlertRule),
       (''Webhooks queue drain'', up Sync_Queue.Webhook),
       (''GRC entity download failed'', pl_download p)])"

definition drain_grc_queues :: "platform \<Rightarrow> sync_db \<Rightarrow> sync_db \<times> nat outcome" where
  "drain_grc_queues p db =
     (case fold (\<lambda>(label, step). drain_step label step) (drain_steps p)
             (Some (fst (enforce_queue_limit db), 0, [])) of
        None \<Rightarrow> (db, Panicked)
      | Some (db', acc, errors) \<Rightarrow>
          (db', if errors = [] then Done acc else Failed (ConfigError (join_with ''; '' errors))))"

section \<open>Executing a sync\<close>

datatype sync_kind = Full | Manual | Playbooks | DetectionRules | Risks | Assets | Alerting

fun kind_text :: "sync_kind \<Rightarrow> string" where
  "kind_text Full = ''full''"
| "kind_text Manual = ''manual''"
| "kind_text Playbooks = ''playbooks''"
| "kind_text DetectionRules = ''detection_rules''"
| "kind_text Risks = ''risks''"
| "kind_text Assets = ''assets''"
| "kind_text Alerting = ''alerting''"

datatype sync_status = Idle | InProgress | Success | FailedStatus | Skipped

text \<open>An entry of the history, without its random identifier.\<close>

record sync_history_entry =
  sh_kind :: sync_kind
  sh_status :: sync_status
  sh_started_at :: instant
  sh_completed_at :: "instant option"
  sh_duration_ms :: "u64 option"
  sh_items_synced :: u32
  sh_error :: "string option"
  sh_conflicts_resolved :: u32

definition MAX_HISTORY_ENTRIES :: nat where "MAX_HISTORY_ENTRIES = 100"

record orchestrator =
  or_db :: sync_db
  or_status :: sync_status
  or_history :: "sync_history_entry list"
  or_last_success :: "instant option"
  or_last_error :: "string option"
  or_breaker :: circuit_breaker
  or_tracker :: offline_tracker

definition record_history ::
  "sync_kind \<Rightarrow> sync_status \<Rightarrow> u32 \<Rightarrow> u64 \<Rightarrow> string option \<Rightarrow> u32 \<Rightarrow> instant \<Rightarrow> orchestrator
   \<Rightarrow> orchestrator \<times> sync_history_entry" where
  "record_history kind status items_synced duration_ms error conflicts now o' =
     (let entry = \<lparr>sh_kind = kind, sh_status = status,
            sh_started_at = now - int duration_ms * 10 ^ 6, sh_completed_at = Some now,
            sh_duration_ms = Some duration_ms, sh_items_synced = items_synced, sh_error = error,
            sh_conflicts_resolved = conflicts\<rparr>
      in (o'\<lparr>or_history := take MAX_HISTORY_ENTRIES (entry # or_history o')\<rparr>, entry))"

definition perform :: "sync_kind \<Rightarrow> platform \<Rightarrow> sync_db \<Rightarrow> sync_db \<times> nat outcome" where
  "perform kind p db =
     (let up = (\<lambda>entity. sync_entity (pl_upload p) (pl_decode p) (pl_stamp p) entity (pl_now p) db) in
      case kind of
        Full \<Rightarrow> drain_grc_queues p db
      | Manual \<Rightarrow> drain_grc_queues p db
      | Playbooks \<Rightarrow> up Sync_Queue.Playbook
      | DetectionRules \<Rightarrow> up Sync_Queue.DetectionRule
      | Risks \<Rightarrow> up Sync_Queue.Risk
      | Assets \<Rightarrow> up Sync_Queue.Asset
      | Alerting \<Rightarrow> up Sync_Queue.AlertRule)"

text \<open>\<open>began\<close> and \<open>ended\<close> are the instants before and after the sync; the writes that follow it
  all carry \<open>ended\<close>.\<close>

definition execute_sync ::
  "sync_kind \<Rightarrow> platform \<Rightarrow> instant \<Rightarrow> instant \<Rightarrow> orchestrator
   \<Rightarrow> orchestrator \<times> sync_history_entry outcome" where
  "execute_sync kind p began ended o' =
     (case is_allowed began (or_breaker o') of
        (cb, False) \<Rightarrow>
          (let (o'', entry) = record_history kind Skipped 0 0 (Some ''Circuit breaker open'') 0 began
                 (o'\<lparr>or_breaker := cb\<rparr>)
           in (o'', Done entry))
      | (cb, True) \<Rightarrow>
          (let (db, result) = perform kind p (or_db o');
               duration_ms = nat (max ((ended - began) div 10 ^ 6) 0);
               o1 = o'\<lparr>or_db := db, or_breaker := cb, or_status := InProgress\<rparr>
           in case result of
                Panicked \<Rightarrow> (o1, Panicked)
              | Done items_synced \<Rightarrow>
                  (let o2 = o1\<lparr>or_breaker := record_success cb,
                              or_tracker := exit_offline_mode ended (or_tracker o1),
                              or_status := Success, or_last_success := Some ended, or_last_error := None\<rparr>;
                       (o3, entry) = record_history kind Success items_synced duration_ms None 0 ended o2
                   in (o3, Done entry))
              | Failed e \<Rightarrow>
                  (case Offline.record_failure ended cb of
                     None \<Rightarrow> (o1, Panicked)
                   | Some cb' \<Rightarrow>
                       (let o2 = o1\<lparr>or_breaker := cb',
                              or_tracker := (if is_retryable e then enter_offline_mode ended (or_tracker o1)
                                             else or_tracker o1),
                              or_status := FailedStatus, or_last_error := Some (error_text e)\<rparr>;
                            (o3, _) = record_history kind FailedStatus 0 duration_ms (Some (error_text e)) 0 ended o2
                        in (o3, Failed e)))))"

definition manual_sync :: "platform \<Rightarrow> instant \<Rightarrow> instant \<Rightarrow> orchestrator \<Rightarrow> orchestrator \<times> sync_history_entry outcome" where
  "manual_sync = execute_sync Manual"

definition history :: "nat \<Rightarrow> orchestrator \<Rightarrow> sync_history_entry list" where
  "history limit o' = take limit (or_history o')"

end
