(* ===== verification/Sync_Orchestrator_Props.thy ===== *)
theory Sync_Orchestrator_Props imports Sync_Orchestrator begin

text \<open>
  What the orchestrator promises: an upload leaves the queue only with the platform's
  acknowledgement of its whole batch, a refused sync does nothing, and how syncs drive the circuit
  breaker and the offline tracker.
\<close>

section \<open>No upload is lost\<close>

definition row_kept :: "queue_row \<Rightarrow> queue_row \<Rightarrow> bool" where
  "row_kept r r' \<longleftrightarrow> q_id r' = q_id r \<and> q_entity_type r' = q_entity_type r \<and> q_entity_id r' = q_entity_id r
     \<and> q_payload r' = q_payload r \<and> q_priority r' = q_priority r \<and> q_max_attempts r' = q_max_attempts r
     \<and> q_created_at r' = q_created_at r \<and> q_attempts r \<le> q_attempts r'"

lemma row_kept_refl [simp]: "row_kept r r"
  by (simp add: row_kept_def)

lemma row_kept_trans: "row_kept r s \<Longrightarrow> row_kept s t \<Longrightarrow> row_kept r t"
  by (simp add: row_kept_def)

definition rows_kept :: "sync_db \<Rightarrow> sync_db \<Rightarrow> bool" where
  "rows_kept db db' \<longleftrightarrow> map q_id (sq_rows db') = map q_id (sq_rows db) \<and> sq_next_id db' = sq_next_id db
     \<and> (\<forall>r\<in>set (sq_rows db). \<exists>r'\<in>set (sq_rows db'). row_kept r r')"

lemma rows_kept_refl [simp]: "rows_kept db db"
  by (auto simp: rows_kept_def intro: row_kept_refl)

lemma rows_kept_trans: "rows_kept a b \<Longrightarrow> rows_kept b c \<Longrightarrow> rows_kept a c"
  unfolding rows_kept_def by (metis row_kept_trans)

lemma rows_kept_wf: "rows_kept db db' \<Longrightarrow> db_wf db \<Longrightarrow> db_wf db'"
  by (simp only: rows_kept_def db_wf_ids, blast)

lemma record_failure_rows:
  assumes "Sync_Queue.record_failure rid msg now db = SqOk db'"
  shows "rows_kept db db'"
proof -
  obtain f where f: "sq_rows db' = map f (sq_rows db)" and "\<And>r. row_kept r (f r)"
    using assms by (fastforce simp: Sync_Queue.record_failure_def row_kept_def split: option.splits)
  with record_failure_ids [OF assms] show ?thesis by (auto simp: rows_kept_def)
qed

lemma note_failure_rows:
  "note_failure rid msg now (Some db) = Some db' \<Longrightarrow> rows_kept db db'"
  by (auto simp: note_failure_def split: sq_result.splits dest: record_failure_rows)

lemma note_failures_None: "fold (\<lambda>i. note_failure (f i) (g i) (h i)) items None = None"
  by (induction items) (auto simp: note_failure_def)

lemma note_failures_rows:
  "fold (\<lambda>i. note_failure (f i) (g i) (h i)) items (Some db) = Some db' \<Longrightarrow> rows_kept db db'"
proof (induction items arbitrary: db)
  case (Cons i items)
  then obtain db1 where "note_failure (f i) (g i) (h i) (Some db) = Some db1"
    by (cases "note_failure (f i) (g i) (h i) (Some db)") (auto simp: note_failures_None)
  with Cons show ?case using rows_kept_trans [OF note_failure_rows] by simp
qed simp

lemma note_undecodable_None: "fold (note_undecodable decode entity stamp) items None = None"
  by (induction items) (auto simp: note_undecodable_def note_failure_def)

lemma note_undecodable_rows:
  "fold (note_undecodable decode entity stamp) items (Some db) = Some db' \<Longrightarrow> rows_kept db db'"
proof (induction items arbitrary: db)
  case (Cons i items)
  show ?case
  proof (cases "note_undecodable decode entity stamp i (Some db)")
    case None
    with Cons.prems show ?thesis by (simp add: note_undecodable_None)
  next
    case (Some db1)
    then have "rows_kept db db1"
      by (auto simp: note_undecodable_def split: if_splits dest: note_failure_rows)
    with Cons Some show ?thesis using rows_kept_trans [of db db1] by simp
  qed
qed simp

text \<open>The items of the batch a sync uploads.\<close>

definition batch_of ::
  "(sync_entity_type \<Rightarrow> string \<Rightarrow> string option) \<Rightarrow> sync_entity_type \<Rightarrow> int \<Rightarrow> sync_db \<Rightarrow> sync_queue_item list" where
  "batch_of decode entity now db =
     filter (\<lambda>i. \<not> undecodable decode entity i)
       (filter (\<lambda>i. i_entity_type i = entity) (get_pending_for entity now 50 db))"

lemma upload_batch_rows:
  assumes "upload_batch upload entity stamp items db = (db', result)" and "result \<noteq> Panicked"
    and "db_wf db"
  shows "rows_kept db db' \<or>
    (items \<noteq> [] \<and> upload entity (map i_payload items) = Inr (length items) \<and> result = Done (length items)
     \<and> (\<forall>r\<in>set (sq_rows db). r \<in> set (sq_rows db') \<or> q_id r \<in> i_id ` set items))"
proof (cases "items = []")
  case False
  show ?thesis
  proof (cases "upload entity (map i_payload items)")
    case (Inl e)
    with assms False show ?thesis
      by (auto simp: upload_batch_def split: option.splits dest: note_failures_rows)
  next
    case (Inr received)
    show ?thesis
    proof (cases "received = length items")
      case True
      have d: "distinct (map q_id (sq_rows db))" using assms(3) by (simp add: db_wf_def)
      have "\<exists>tbl. grc_table entity = Some tbl" if "mutable_entity entity"
        using that by (auto simp: mutable_entity_def)
      then show ?thesis
        using assms(1) False Inr True acknowledge_fold [OF d, of entity _ "map i_id items"]
        by (auto simp: upload_batch_def acknowledge_grc_def remove_items_def Let_def delete_ids_def
            split: if_splits)
    next
      case False
      with assms(1,2) \<open>items \<noteq> []\<close> Inr show ?thesis by (simp add: upload_batch_def)
    qed
  qed
qed (use assms in \<open>simp add: upload_batch_def\<close>)

lemma rows_kept_id: "rows_kept db db1 \<Longrightarrow> r \<in> set (sq_rows db) \<Longrightarrow>
    \<exists>r1\<in>set (sq_rows db1). row_kept r r1"
  by (simp add: rows_kept_def)

lemma pending_ids:
  "i \<in> set (get_pending_for entity now limit db) \<Longrightarrow>
   \<exists>r\<in>set (sq_rows db). i = row_to_sync_queue_item r \<and> eligible now r \<and> q_entity_type r = as_str entity"
  using set_order_limit by (fastforce simp: get_pending_for_def)

text \<open>C8: One call of \<open>sync_entity\<close> takes an upload off the queue only when the platform received the whole batch it
  was part of, which holds only due uploads of that kind; every other row is kept, at most with more failed
  attempts. (Uploads also leave by other operations: evicted by \<open>enqueue\<close>, purged, or deleted.)\<close>

theorem sync_entity_loses_nothing:
  assumes "db_wf db"
    and "sync_entity upload decode stamp entity now db = (db', result)" and "result \<noteq> Panicked"
    and "r \<in> set (sq_rows db)"
  shows "(\<exists>r'\<in>set (sq_rows db'). row_kept r r') \<or>
    (let batch = batch_of decode entity now db in
       upload entity (map i_payload batch) = Inr (length batch) \<and> result = Done (length batch)
       \<and> row_to_sync_queue_item r \<in> set batch \<and> eligible now r \<and> q_entity_type r = as_str entity)"
proof -
  let ?batch = "batch_of decode entity now db"
  let ?pending = "filter (\<lambda>i. i_entity_type i = entity) (get_pending_for entity now 50 db)"
  obtain db1 where noted: "fold (note_undecodable decode entity stamp) ?pending (Some db) = Some db1"
    and up: "upload_batch upload entity stamp ?batch db1 = (db', result)"
    using assms(2,3) by (auto simp: sync_entity_def Let_def batch_of_def split: option.splits)
  note kept = note_undecodable_rows [OF noted]
  obtain r1 where r1: "r1 \<in> set (sq_rows db1)" "row_kept r r1"
    using rows_kept_id [OF kept assms(4)] by auto
  from upload_batch_rows [OF up assms(3) rows_kept_wf [OF kept assms(1)]]
  consider (kept) "rows_kept db1 db'"
    | (sent) "upload entity (map i_payload ?batch) = Inr (length ?batch)" "result = Done (length ?batch)"
        "\<forall>r\<in>set (sq_rows db1). r \<in> set (sq_rows db') \<or> q_id r \<in> i_id ` set ?batch"
    by blast
  then show ?thesis
  proof cases
    case kept
    then show ?thesis using rows_kept_id [OF kept r1(1)] r1(2) row_kept_trans by blast
  next
    case sent
    show ?thesis
    proof (cases "r1 \<in> set (sq_rows db')")
      case False
      then obtain i where i: "i \<in> set ?batch" "i_id i = q_id r"
        using sent(3) r1 by (auto simp: row_kept_def)
      then obtain r2 where r2: "r2 \<in> set (sq_rows db)" "i = row_to_sync_queue_item r2" "eligible now r2"
          "q_entity_type r2 = as_str entity"
        using pending_ids [of i entity now 50 db] by (auto simp: batch_of_def)
      with i ids_inj [OF _ r2(1) assms(4)] assms(1) have "r2 = r" by (simp add: db_wf_def)
      with sent i r2 show ?thesis by (simp add: Let_def)
    qed (use r1 in blast)
  qed
qed

definition risk_queue :: sync_db where
  "risk_queue = insert_row ''risk'' ''r1'' ''payload'' 0 10 100 empty_queue"

lemma risk_queue_wf: "db_wf risk_queue"
  by (simp add: risk_queue_def empty_queue_def insert_row_def db_wf_def)

definition no_answer :: upload_call where
  "no_answer entity payloads = Inl Timeout"

theorem sync_entity_loses_nothing_witness:
  "\<exists>r'\<in>set (sq_rows (fst (sync_entity no_answer (\<lambda>_ _. None) (\<lambda>_. 200) Sync_Queue.Risk 200 risk_queue))).
     row_kept (hd (sq_rows risk_queue)) r'"
proof -
  let ?s = "sync_entity no_answer (\<lambda>_ _. None) (\<lambda>_. 200) Sync_Queue.Risk 200 risk_queue"
  have s: "snd ?s = Failed Timeout" by code_simp
  have "hd (sq_rows risk_queue) \<in> set (sq_rows risk_queue)"
    by (simp add: risk_queue_def insert_row_def empty_queue_def)
  with sync_entity_loses_nothing [OF risk_queue_wf prod.collapse [symmetric], of no_answer "\<lambda>_ _. None" "\<lambda>_. 200"
      Sync_Queue.Risk 200] s
  show ?thesis by (auto simp: Let_def no_answer_def)
qed

section \<open>Breaker and history\<close>

lemma record_history_parts:
  assumes "record_history kind status n ms e c now o1 = (o2, entry)"
  shows "or_history o2 = take 100 (entry # or_history o1)" "or_breaker o2 = or_breaker o1"
    "or_db o2 = or_db o1" "or_tracker o2 = or_tracker o1" "sh_status entry = status"
  using assms by (auto simp: record_history_def Let_def MAX_HISTORY_ENTRIES_def)

text \<open>Every sync is a guarded attempt of the circuit breaker, successful exactly when its drain
  is. A refused one calls nothing: it changes neither queue, tracker nor last error and is recorded as
  skipped. The outcome of every sync heads a history of at most a hundred entries.\<close>

theorem execute_sync_guarded:
  assumes "execute_sync kind p began ended o1 = (o2, result)" and "result \<noteq> Panicked"
  shows "attempt_step (began, ended, \<exists>n. snd (perform kind p (or_db o1)) = Done n) (or_breaker o1)
      = Some (or_breaker o2)
    \<and> length (or_history o2) \<le> 100
    \<and> tl (or_history o2) = take 99 (or_history o1)
    \<and> (\<not> snd (is_allowed began (or_breaker o1)) \<longrightarrow>
        or_db o2 = or_db o1 \<and> or_tracker o2 = or_tracker o1 \<and> or_last_error o2 = or_last_error o1
        \<and> sh_status (hd (or_history o2)) = Skipped)
    \<and> (snd (is_allowed began (or_breaker o1)) \<longrightarrow>
        or_db o2 = fst (perform kind p (or_db o1))
        \<and> sh_status (hd (or_history o2)) =
            (if \<exists>n. snd (perform kind p (or_db o1)) = Done n then Success else FailedStatus))"
proof -
  obtain cb allowed where a: "is_allowed began (or_breaker o1) = (cb, allowed)" by fastforce
  obtain db res where r: "perform kind p (or_db o1) = (db, res)" by fastforce
  show ?thesis
  proof (cases allowed)
    case False
    with assms(1) a show ?thesis
      by (auto simp: execute_sync_def attempt_step_def record_history_def MAX_HISTORY_ENTRIES_def Let_def)
  next
    case True
    with assms a r show ?thesis
      by (cases res)
        (auto simp: execute_sync_def attempt_step_def record_history_def MAX_HISTORY_ENTRIES_def Let_def
           split: option.splits)
  qed
qed

definition unreachable :: platform where
  "unreachable = \<lparr>pl_delete = (\<lambda>_ _. Inl Timeout), pl_upload = no_answer, pl_decode = (\<lambda>_ _. None),
     pl_download = (\<lambda>db. (db, Failed Timeout)), pl_stamp = (\<lambda>_. 200), pl_now = 200\<rparr>"

definition fresh_orchestrator :: "sync_db \<Rightarrow> orchestrator" where
  "fresh_orchestrator db = \<lparr>or_db = db, or_status = Idle, or_history = [], or_last_success = None,
     or_last_error = None, or_breaker = new_breaker, or_tracker = new_tracker 0\<rparr>"

lemma unreachable_risks:
  "snd (execute_sync Risks unreachable 0 1 (fresh_orchestrator risk_queue)) = Failed Timeout"
  by code_simp

lemma unreachable_manual:
  "(case snd (execute_sync Manual unreachable 0 1 (fresh_orchestrator risk_queue)) of Failed _ \<Rightarrow> True | _ \<Rightarrow> False)"
  by code_simp

theorem execute_sync_guarded_witness:
  "attempt_step (0, 1, False) new_breaker
     = Some (or_breaker (fst (execute_sync Risks unreachable 0 1 (fresh_orchestrator risk_queue))))"
proof -
  have "snd (perform Risks unreachable risk_queue) = Failed Timeout" by code_simp
  with execute_sync_guarded [OF prod.collapse [symmetric], of Risks unreachable 0 1 "fresh_orchestrator risk_queue"]
  show ?thesis using unreachable_risks by (simp add: fresh_orchestrator_def)
qed

section \<open>Going offline\<close>

lemma drain_fails_with_config:
  "snd (drain_grc_queues p db) = Failed e \<Longrightarrow> \<exists>m. e = ConfigError m"
  by (auto simp: drain_grc_queues_def split: option.splits if_splits)

text \<open>The tracker goes offline when a sync of one kind fails with an error worth retrying (a
  time-out, a refused connection, a 5xx or 429), but never for a full or manual sync: the drain wraps
  whatever failed into a configuration error, which is never worth retrying.\<close>

theorem full_sync_never_goes_offline:
  assumes "execute_sync kind p began ended o1 = (o2, Failed e)"
  shows "if kind = Full \<or> kind = Manual
    then or_tracker o2 = or_tracker o1 \<and> (\<exists>m. e = ConfigError m)
    else or_tracker o2 = (if is_retryable e then enter_offline_mode ended (or_tracker o1) else or_tracker o1)"
proof -
  obtain cb allowed where a: "is_allowed began (or_breaker o1) = (cb, allowed)" by fastforce
  obtain db res where r: "perform kind p (or_db o1) = (db, res)" by fastforce
  have allowed: "allowed" and res: "res = Failed e"
    and t: "or_tracker o2 = (if is_retryable e then enter_offline_mode ended (or_tracker o1) else or_tracker o1)"
    using assms a r
    by (cases allowed; cases res;
        auto simp: execute_sync_def record_history_def Let_def split: option.splits)+
  have "\<exists>m. e = ConfigError m" if "kind = Full \<or> kind = Manual"
  proof -
    have "perform kind p (or_db o1) = drain_grc_queues p (or_db o1)"
      using that by (auto simp: perform_def)
    with r res have "snd (drain_grc_queues p (or_db o1)) = Failed e" by simp
    then show ?thesis by (rule drain_fails_with_config)
  qed
  with t show ?thesis by auto
qed

theorem full_sync_never_goes_offline_witness:
  "\<not> ot_is_offline (or_tracker (fst (execute_sync Manual unreachable 0 1 (fresh_orchestrator risk_queue))))
   \<and> ot_is_offline (or_tracker (fst (execute_sync Risks unreachable 0 1 (fresh_orchestrator risk_queue))))"
proof -
  obtain e where m: "snd (execute_sync Manual unreachable 0 1 (fresh_orchestrator risk_queue)) = Failed e"
    using unreachable_manual by (auto split: outcome.splits)
  have "execute_sync Manual unreachable 0 1 (fresh_orchestrator risk_queue)
      = (fst (execute_sync Manual unreachable 0 1 (fresh_orchestrator risk_queue)), Failed e)"
    and "execute_sync Risks unreachable 0 1 (fresh_orchestrator risk_queue)
      = (fst (execute_sync Risks unreachable 0 1 (fresh_orchestrator risk_queue)), Failed Timeout)"
    using m unreachable_risks by (metis prod.collapse)+
  from full_sync_never_goes_offline [OF this(1)] full_sync_never_goes_offline [OF this(2)]
  show ?thesis by (simp add: fresh_orchestrator_def new_tracker_def enter_offline_mode_def)
qed

end
