(* ===== verification/Correlation.thy ===== *)
theory Correlation imports Offline "HOL-Library.Multiset" begin

text \<open>
  The correlation engine of the SIEM forwarder (\<open>crates/agent-siem/src/correlation.rs\<close>): rules
  with a threshold in a sliding window, the state per rule, and the alerts.

  Regular expressions are a parameter: \<open>compiles\<close> says which patterns compile and \<open>is_match\<close>
  which texts they match; nothing is assumed of them. The clock is read once per event, where the
  code reads it a few times in a row. Windows are in seconds and taken to stay within chrono's range.
\<close>

section \<open>Types\<close>

datatype event_category =
    Compliance | Security | Network | FileIntegrity | System | Authentication | Configuration
  | Vulnerability

text \<open>A JSON value is its text.\<close>

record siem_event =
  ev_timestamp :: instant
  ev_severity :: nat
  ev_category :: event_category
  ev_name :: string
  ev_description :: string
  ev_source_host :: string
  ev_source_ip :: "string option"
  ev_destination_ip :: "string option"
  ev_destination_port :: "nat option"
  ev_user :: "string option"
  ev_process_name :: "string option"
  ev_process_id :: "u32 option"
  ev_file_path :: "string option"
  ev_custom_fields :: string
  ev_event_id :: string
  ev_agent_version :: string

record correlation_rule =
  cr_id :: string
  cr_name :: string
  cr_description :: string
  cr_categories :: "event_category list"
  cr_pattern :: string
  cr_min_severity :: nat
  cr_threshold :: u32
  cr_window_secs :: u64
  cr_alert_severity :: nat
  cr_enabled :: bool

record correlation_alert =
  ca_rule_id :: string
  ca_rule_name :: string
  ca_description :: string
  ca_severity :: nat
  ca_event_count :: u32
  ca_first_event :: instant
  ca_last_event :: instant
  ca_sample_event_ids :: "string list"
  ca_generated_at :: instant

record rule_state =
  rs_occurrences :: "instant list"
  rs_seen_ids :: "instant str_map"
  rs_sample_ids :: "string list"
  rs_last_alert :: "instant option"

definition new_rule_state :: rule_state where
  "new_rule_state = \<lparr>rs_occurrences = [], rs_seen_ids = [], rs_sample_ids = [], rs_last_alert = None\<rparr>"

section \<open>State of a rule\<close>

definition add_occurrence ::
  "instant \<Rightarrow> instant \<Rightarrow> string \<Rightarrow> int \<Rightarrow> rule_state \<Rightarrow> rule_state \<times> bool" where
  "add_occurrence now timestamp event_id window st =
     (let cutoff = now - window;
          seen = filter (\<lambda>(_, t). cutoff < t) (rs_seen_ids st)
      in if timestamp \<le> cutoff \<or> now + seconds 30 < timestamp \<or> map_of seen event_id \<noteq> None
         then (st\<lparr>rs_seen_ids := seen\<rparr>, False)
         else let seen' = AList.update event_id timestamp seen;
                  samples = filter (\<lambda>i. map_of seen' i \<noteq> None) (rs_sample_ids st)
              in (st\<lparr>rs_seen_ids := seen',
                     rs_occurrences := filter (\<lambda>t. cutoff < t) (rs_occurrences st) @ [timestamp],
                     rs_sample_ids := (if length samples < 10 then samples @ [event_id] else samples)\<rparr>,
                  True))"

definition count_within :: "instant \<Rightarrow> int \<Rightarrow> rule_state \<Rightarrow> u32" where
  "count_within now window st = length (filter (\<lambda>t. now - window < t) (rs_occurrences st)) mod 2 ^ 32"

section \<open>Engine\<close>

record correlation_engine =
  ce_rules :: "correlation_rule list"
  ce_state :: "rule_state str_map"
  ce_alerts :: "correlation_alert list"

definition new_engine :: "(string \<Rightarrow> bool) \<Rightarrow> correlation_rule list \<Rightarrow> correlation_engine" where
  "new_engine compiles rules =
     \<lparr>ce_rules = filter (\<lambda>r. compiles (cr_pattern r)) (filter cr_enabled rules), ce_state = [], ce_alerts = []\<rparr>"

definition event_matches :: "(string \<Rightarrow> string \<Rightarrow> bool) \<Rightarrow> siem_event \<Rightarrow> correlation_rule \<Rightarrow> bool" where
  "event_matches is_match event rule =
     (if ev_severity event < cr_min_severity rule then False
      else if cr_categories rule \<noteq> [] \<and> ev_category event \<notin> set (cr_categories rule) then False
      else is_match (cr_pattern rule) (ev_description event) \<or> is_match (cr_pattern rule) (ev_name event))"

definition rule_window :: "correlation_rule \<Rightarrow> int" where
  "rule_window rule = seconds (u64_as_i64 (cr_window_secs rule))"

text \<open>A matching event on the state of one rule: the new state and the alert, if any.\<close>

definition rule_event ::
  "instant \<Rightarrow> siem_event \<Rightarrow> correlation_rule \<Rightarrow> rule_state \<Rightarrow> rule_state \<times> correlation_alert option" where
  "rule_event now event rule st =
     (case add_occurrence now (ev_timestamp event) (ev_event_id event) (rule_window rule) st of
        (st1, False) \<Rightarrow> (st1, None)
      | (st1, True) \<Rightarrow>
          (let cnt = count_within now (rule_window rule) st1;
               should_alert = (case rs_last_alert st1 of Some l \<Rightarrow> rule_window rule < now - l
                               | None \<Rightarrow> True)
           in if cr_threshold rule \<le> cnt \<and> should_alert
              then (st1\<lparr>rs_last_alert := Some now, rs_sample_ids := []\<rparr>,
                    Some \<lparr>ca_rule_id = cr_id rule, ca_rule_name = cr_name rule,
                      ca_description = cr_description rule @ '': '' @ show_nat cnt @ '' events in ''
                        @ show_nat (cr_window_secs rule) @ '' seconds'',
                      ca_severity = cr_alert_severity rule, ca_event_count = cnt,
                      ca_first_event = (case rs_occurrences st1 of t # _ \<Rightarrow> t | [] \<Rightarrow> now),
                      ca_last_event = ev_timestamp event, ca_sample_event_ids = rs_sample_ids st1,
                      ca_generated_at = now\<rparr>)
              else (st1, None)))"

fun process_rules ::
  "(string \<Rightarrow> string \<Rightarrow> bool) \<Rightarrow> instant \<Rightarrow> siem_event \<Rightarrow> correlation_rule list \<Rightarrow> rule_state str_map
   \<Rightarrow> rule_state str_map \<times> correlation_alert list" where
  "process_rules is_match now event [] states = (states, [])"
| "process_rules is_match now event (rule # rules) states =
     (if \<not> event_matches is_match event rule then process_rules is_match now event rules states
      else let st = (case map_of states (cr_id rule) of Some st \<Rightarrow> st | None \<Rightarrow> new_rule_state);
               (st', alert) = rule_event now event rule st;
               (states', alerts) =
                 process_rules is_match now event rules (AList.update (cr_id rule) st' states)
           in (states', (case alert of Some a \<Rightarrow> [a] | None \<Rightarrow> []) @ alerts))"

definition process_event ::
  "(string \<Rightarrow> string \<Rightarrow> bool) \<Rightarrow> instant \<Rightarrow> siem_event \<Rightarrow> correlation_engine
   \<Rightarrow> correlation_engine \<times> correlation_alert list" where
  "process_event is_match now event e =
     (let (states, triggered) = process_rules is_match now event (ce_rules e) (ce_state e);
          alerts = ce_alerts e @ triggered
      in (e\<lparr>ce_state := states,
            ce_alerts := (if triggered = [] then ce_alerts e
              else if 1000 < length alerts then drop (length alerts - 1000) alerts else alerts)\<rparr>,
          triggered))"

text \<open>Each event comes with the instant it is processed at.\<close>

fun process_events ::
  "(string \<Rightarrow> string \<Rightarrow> bool) \<Rightarrow> (instant \<times> siem_event) list \<Rightarrow> correlation_engine
   \<Rightarrow> correlation_engine \<times> correlation_alert list" where
  "process_events is_match [] e = (e, [])"
| "process_events is_match ((now, ev) # evs) e =
     (let (e1, alerts) = process_event is_match now ev e;
          (e2, more) = process_events is_match evs e1
      in (e2, alerts @ more))"

definition recent_alerts :: "nat \<Rightarrow> correlation_engine \<Rightarrow> correlation_alert list" where
  "recent_alerts limit e = take limit (rev (ce_alerts e))"

definition rule_count :: "correlation_engine \<Rightarrow> nat" where
  "rule_count e = length (ce_rules e)"

section \<open>Built-in rules\<close>

definition em_dash :: string where
  "em_dash = [CHR 0xE2, CHR 0x80, CHR 0x94]"

definition default_rules :: "correlation_rule list" where
  "default_rules =
     [\<lparr>cr_id = ''brute_force'', cr_name = ''Brute Force Detection'',
       cr_description = ''Multiple authentication failures detected'',
       cr_categories = [Authentication],
       cr_pattern = ''(?i)(fail|denied|invalid|unauthorized|rejected)'',
       cr_min_severity = 3, cr_threshold = 5, cr_window_secs = 300, cr_alert_severity = 8,
       cr_enabled = True\<rparr>,
      \<lparr>cr_id = ''file_integrity_burst'', cr_name = ''Mass File Modification'',
       cr_description = ''Large number of file modifications detected'',
       cr_categories = [FileIntegrity],
       cr_pattern = ''(?i)(modified|changed|deleted|created)'',
       cr_min_severity = 4, cr_threshold = 50, cr_window_secs = 60, cr_alert_severity = 9,
       cr_enabled = True\<rparr>,
      \<lparr>cr_id = ''network_scan'', cr_name = ''Port Scan Detection'',
       cr_description = ''Possible port scan activity detected'',
       cr_categories = [Network],
       cr_pattern = ''(?i)(scan|probe|connection refused|reset)'',
       cr_min_severity = 3, cr_threshold = 20, cr_window_secs = 60, cr_alert_severity = 7,
       cr_enabled = True\<rparr>,
      \<lparr>cr_id = ''critical_errors'', cr_name = ''Critical Error Burst'',
       cr_description = ''Multiple critical errors in short period'',
       cr_categories = [],
       cr_pattern = ''(?i)(critical|emergency|panic|fatal)'',
       cr_min_severity = 7, cr_threshold = 3, cr_window_secs = 300, cr_alert_severity = 9,
       cr_enabled = True\<rparr>,
      \<lparr>cr_id = ''privilege_escalation'', cr_name = ''Privilege Escalation Attempt'',
       cr_description = ''Suspected privilege escalation activity'',
       cr_categories = [Authentication, Security],
       cr_pattern = ''(?i)(sudo|su |root|admin|privilege|escalat|setuid)'',
       cr_min_severity = 5, cr_threshold = 3, cr_window_secs = 600, cr_alert_severity = 9,
       cr_enabled = True\<rparr>,
      \<lparr>cr_id = ''windows_logon_failure_burst'', cr_name = ''Windows Logon Failure Burst'',
       cr_description = ''Multiple Windows logon failures (Event ID 4625) '' @ em_dash @ '' possible brute force'',
       cr_categories = [Authentication],
       cr_pattern = ''EventID=4625'',
       cr_min_severity = 0, cr_threshold = 5, cr_window_secs = 300, cr_alert_severity = 8,
       cr_enabled = True\<rparr>,
      \<lparr>cr_id = ''windows_account_changes'', cr_name = ''Rapid Account Changes'',
       cr_description = ''Multiple user account modifications in short time '' @ em_dash @ '' possible compromise'',
       cr_categories = [Authentication, Security],
       cr_pattern = ''EventID=(4720|4722|4725|4726|4728|4732|4756)'',
       cr_min_severity = 0, cr_threshold = 3, cr_window_secs = 300, cr_alert_severity = 9,
       cr_enabled = True\<rparr>,
      \<lparr>cr_id = ''windows_service_install_burst'', cr_name = ''Multiple Services Installed'',
       cr_description = ''Multiple new services installed (Event ID 7045) '' @ em_dash @ '' possible malware persistence'',
       cr_categories = [System],
       cr_pattern = ''EventID=7045'',
       cr_min_severity = 0, cr_threshold = 3, cr_window_secs = 600, cr_alert_severity = 8,
       cr_enabled = True\<rparr>,
      \<lparr>cr_id = ''windows_audit_log_cleared'', cr_name = ''Audit Log Cleared'',
       cr_description = ''Windows audit log was cleared (Event ID 1102) '' @ em_dash @ '' anti-forensics indicator'',
       cr_categories = [Security, System],
       cr_pattern = ''EventID=1102'',
       cr_min_severity = 0, cr_threshold = 1, cr_window_secs = 60, cr_alert_severity = 10,
       cr_enabled = True\<rparr>,
      \<lparr>cr_id = ''windows_firewall_changes'', cr_name = ''Firewall Configuration Changes'',
       cr_description = ''Multiple firewall rule changes '' @ em_dash @ '' possible lateral movement preparation'',
       cr_categories = [Network, Security],
       cr_pattern = ''EventID=(2003|2004|2005|2006)'',
       cr_min_severity = 0, cr_threshold = 5, cr_window_secs = 300, cr_alert_severity = 7,
       cr_enabled = True\<rparr>]"

definition with_default_rules :: "(string \<Rightarrow> bool) \<Rightarrow> correlation_engine" where
  "with_default_rules compiles = new_engine compiles default_rules"

definition with_default_rules_except :: "(string \<Rightarrow> bool) \<Rightarrow> string list \<Rightarrow> correlation_engine" where
  "with_default_rules_except compiles replaced =
     new_engine compiles (filter (\<lambda>rule. cr_id rule \<notin> set replaced) default_rules)"

section \<open>What a rule is meant to report\<close>

text \<open>
  The specification keeps every accepted event (its id and time) and the last alert. An event is
  accepted when its time is within the window and at most 30 seconds ahead, and no accepted event
  of the window has its id; it raises an alert when that makes the threshold and the last alert
  is more than a window old.
\<close>

type_synonym rule_history = "(string \<times> instant) list \<times> instant option"

definition accepts :: "instant \<Rightarrow> siem_event \<Rightarrow> int \<Rightarrow> (string \<times> instant) list \<Rightarrow> bool" where
  "accepts now ev window accepted \<longleftrightarrow>
     now - window < ev_timestamp ev \<and> ev_timestamp ev \<le> now + seconds 30
     \<and> \<not> (\<exists>(i, t)\<in>set accepted. i = ev_event_id ev \<and> now - window < t)"

definition in_window :: "instant \<Rightarrow> int \<Rightarrow> (string \<times> instant) list \<Rightarrow> nat" where
  "in_window now window accepted = length (filter (\<lambda>(_, t). now - window < t) accepted)"

definition spec_event ::
  "correlation_rule \<Rightarrow> instant \<times> siem_event \<Rightarrow> rule_history \<Rightarrow> rule_history \<times> (nat \<times> instant) list" where
  "spec_event rule ne h =
     (case (ne, h) of ((now, ev), (accepted, prev)) \<Rightarrow>
        if accepts now ev (rule_window rule) accepted
        then let accepted' = accepted @ [(ev_event_id ev, ev_timestamp ev)];
                 n = in_window now (rule_window rule) accepted'
             in if cr_threshold rule \<le> n \<and> (case prev of Some l \<Rightarrow> rule_window rule < now - l | None \<Rightarrow> True)
                then ((accepted', Some now), [(n, now)]) else ((accepted', prev), [])
        else ((accepted, prev), []))"

text \<open>The alerts of a rule over a sequence of events: how many events, and when.\<close>

fun spec_alerts ::
  "(string \<Rightarrow> string \<Rightarrow> bool) \<Rightarrow> correlation_rule \<Rightarrow> (instant \<times> siem_event) list \<Rightarrow> rule_history \<Rightarrow> (nat \<times> instant) list" where
  "spec_alerts is_match rule [] h = []"
| "spec_alerts is_match rule ((now, ev) # evs) h =
     (if event_matches is_match ev rule
      then let (h', alerts) = spec_event rule (now, ev) h in alerts @ spec_alerts is_match rule evs h'
      else spec_alerts is_match rule evs h)"

section \<open>Pruning changes nothing\<close>

definition tracks :: "instant \<Rightarrow> rule_state \<Rightarrow> rule_history \<Rightarrow> bool" where
  "tracks c st h \<longleftrightarrow> rs_last_alert st = snd h \<and> hm_wf (rs_seen_ids st)
     \<and> (\<forall>k t. c < t \<longrightarrow> (k, t) \<in> set (rs_seen_ids st) \<longleftrightarrow> (k, t) \<in> set (fst h))
     \<and> mset (filter (\<lambda>t. c < t) (rs_occurrences st)) = mset (filter (\<lambda>t. c < t) (map snd (fst h)))"

lemma tracks_new: "tracks c new_rule_state ([], None)"
  by (simp add: tracks_def new_rule_state_def)

lemma filter_later:
  assumes "c \<le> (c'::int)" and "mset (filter (\<lambda>t. c < t) xs) = mset (filter (\<lambda>t. c < t) ys)"
  shows "mset (filter (\<lambda>t. c' < t) xs) = mset (filter (\<lambda>t. c' < t) ys)"
proof -
  have f: "filter (\<lambda>t. c' < t) zs = filter (\<lambda>t. c' < t) (filter (\<lambda>t. c < t) zs)" for zs
    using assms(1) by (auto intro!: filter_cong)
  have "mset (filter (\<lambda>t. c' < t) (filter (\<lambda>t. c < t) xs)) = mset (filter (\<lambda>t. c' < t) (filter (\<lambda>t. c < t) ys))"
    using assms(2) by (metis mset_filter)
  then show ?thesis by (simp only: f [symmetric])
qed

lemma in_window_mset:
  "in_window now window acc = length (filter (\<lambda>t. now - window < t) (map snd acc))"
  by (induction acc) (auto simp: in_window_def)

lemma mset_eq_filter_length: "mset xs = mset ys \<Longrightarrow> length (filter P xs) = length (filter P ys)"
  by (metis mset_filter size_mset)

lemma map_of_known: "map_of m k \<noteq> None \<longleftrightarrow> (\<exists>v. (k, v) \<in> set m)"
  by (force simp: map_of_eq_None_iff)

lemma add_occurrence_refines:
  assumes "tracks c st (acc, prev)" and c: "c \<le> now - w"
    and a: "add_occurrence now (ev_timestamp ev) (ev_event_id ev) w st = (st', ok)"
  shows "ok = accepts now ev w acc"
    and "tracks (now - w) st' ((if ok then acc @ [(ev_event_id ev, ev_timestamp ev)] else acc), prev)"
proof -
  let ?c = "now - w"
  let ?seen = "filter (\<lambda>(_, t). ?c < t) (rs_seen_ids st)"
  from assms(1) have wf: "hm_wf (rs_seen_ids st)" and last: "rs_last_alert st = prev"
    and seen: "\<And>k t. c < t \<Longrightarrow> (k, t) \<in> set (rs_seen_ids st) \<longleftrightarrow> (k, t) \<in> set acc"
    and occ: "mset (filter (\<lambda>t. c < t) (rs_occurrences st)) = mset (filter (\<lambda>t. c < t) (map snd acc))"
    by (auto simp: tracks_def)
  have mem: "(k, t) \<in> set ?seen \<longleftrightarrow> ?c < t \<and> (k, t) \<in> set acc" for k t
    using c seen [of t k] by auto
  have wf': "hm_wf ?seen" using wf by simp
  have known: "map_of ?seen (ev_event_id ev) \<noteq> None \<longleftrightarrow>
      (\<exists>(i, t)\<in>set acc. i = ev_event_id ev \<and> ?c < t)"
    unfolding map_of_known mem by auto
  define bad where "bad \<longleftrightarrow> ev_timestamp ev \<le> ?c \<or> now + seconds 30 < ev_timestamp ev
    \<or> map_of ?seen (ev_event_id ev) \<noteq> None"
  have result: "(st', ok) = (if bad then (st\<lparr>rs_seen_ids := ?seen\<rparr>, False) else
      (let seen' = AList.update (ev_event_id ev) (ev_timestamp ev) ?seen;
           samples = filter (\<lambda>i. map_of seen' i \<noteq> None) (rs_sample_ids st)
       in (st\<lparr>rs_seen_ids := seen',
              rs_occurrences := filter (\<lambda>t. ?c < t) (rs_occurrences st) @ [ev_timestamp ev],
              rs_sample_ids := (if length samples < 10 then samples @ [ev_event_id ev] else samples)\<rparr>, True)))"
    unfolding a [symmetric] add_occurrence_def bad_def Let_def by (rule refl)
  then have "ok \<longleftrightarrow> \<not> bad" by (cases bad) (simp_all add: Let_def)
  then show ok: "ok = accepts now ev w acc"
    unfolding bad_def known accepts_def by auto
  note occ' = filter_later [OF c occ]
  show "tracks ?c st' ((if ok then acc @ [(ev_event_id ev, ev_timestamp ev)] else acc), prev)"
  proof (cases ok)
    case False
    then have "st' = st\<lparr>rs_seen_ids := ?seen\<rparr>"
      using result by (simp add: Let_def split: if_splits)
    moreover have "?c < t \<Longrightarrow> (k, t) \<in> set ?seen \<longleftrightarrow> (k, t) \<in> set acc" for k t
      using mem by blast
    ultimately show ?thesis using False wf' last occ' by (simp add: tracks_def)
  next
    case True
    then have st': "rs_seen_ids st' = AList.update (ev_event_id ev) (ev_timestamp ev) ?seen"
        "rs_occurrences st' = filter (\<lambda>t. ?c < t) (rs_occurrences st) @ [ev_timestamp ev]"
        "rs_last_alert st' = prev" and new: "map_of ?seen (ev_event_id ev) = None"
      using result last by (simp_all add: Let_def bad_def split: if_splits)
    have "(ev_event_id ev, t) \<notin> set ?seen" for t
      using new wf' hm_mem [OF wf'] by (metis option.distinct(1))
    then have "?c < t \<Longrightarrow> (k, t) \<in> set (rs_seen_ids st') \<longleftrightarrow>
        (k, t) \<in> set (acc @ [(ev_event_id ev, ev_timestamp ev)])" for k t
      unfolding st' hm_update_mem [OF wf'] using mem by auto
    then show ?thesis
      using True occ' wf' by (simp add: tracks_def st')
  qed
qed

lemma rule_event_refines:
  assumes "tracks c st h" and "c \<le> now - rule_window rule" and "length (fst h) + 1 < 2 ^ 32"
    and "rule_event now ev rule st = (st', alert)" and "spec_event rule (now, ev) h = (h', alerts)"
  shows "tracks (now - rule_window rule) st' h'"
    and "map (\<lambda>a. (ca_event_count a, ca_generated_at a)) (case alert of Some a \<Rightarrow> [a] | None \<Rightarrow> []) = alerts"
    and "\<And>a. alert = Some a \<Longrightarrow> ca_rule_id a = cr_id rule"
    and "length (fst h') \<le> length (fst h) + 1"
proof -
  obtain acc prev where h: "h = (acc, prev)" by (cases h)
  let ?w = "rule_window rule"
  obtain st1 ok where a: "add_occurrence now (ev_timestamp ev) (ev_event_id ev) ?w st = (st1, ok)"
    by fastforce
  note ref = add_occurrence_refines [OF assms(1) [unfolded h] assms(2) a]
  let ?acc = "acc @ [(ev_event_id ev, ev_timestamp ev)]"
  have cnt: "count_within now ?w st1 = in_window now ?w ?acc" if ok
  proof -
    have "mset (filter (\<lambda>t. now - ?w < t) (rs_occurrences st1)) = mset (filter (\<lambda>t. now - ?w < t) (map snd ?acc))"
      using ref(2) that by (simp add: tracks_def)
    then have "length (filter (\<lambda>t. now - ?w < t) (rs_occurrences st1)) = in_window now ?w ?acc"
      unfolding in_window_mset by (metis size_mset)
    moreover have "in_window now ?w ?acc \<le> length acc + 1"
      unfolding in_window_def by (metis length_append_singleton length_filter_le add.commute plus_1_eq_Suc)
    ultimately show ?thesis using assms(3) by (simp add: count_within_def h)
  qed
  have last: "rs_last_alert st1 = prev" using ref(2) by (simp add: tracks_def)
  have alerted: "tracks (now - ?w) (st1\<lparr>rs_last_alert := l, rs_sample_ids := s\<rparr>) (?acc, l)" if ok for l s
    using ref(2) that by (simp add: tracks_def)
  show "tracks (now - ?w) st' h'"
    using assms(4,5) ref cnt last alerted
    by (cases ok) (auto simp: rule_event_def spec_event_def h a Let_def split: if_splits)
  show "map (\<lambda>a. (ca_event_count a, ca_generated_at a)) (case alert of Some a \<Rightarrow> [a] | None \<Rightarrow> []) = alerts"
    using assms(4,5) ref cnt last
    by (cases ok) (auto simp: rule_event_def spec_event_def h a Let_def split: if_splits)
  show "\<And>a. alert = Some a \<Longrightarrow> ca_rule_id a = cr_id rule"
    using assms(4) by (cases ok) (auto simp: rule_event_def a Let_def split: if_splits)
  show "length (fst h') \<le> length (fst h) + 1"
    using assms(5) by (auto simp: spec_event_def h Let_def split: if_splits)
qed

section \<open>Rules do not interfere\<close>

definition state_of :: "rule_state str_map \<Rightarrow> correlation_rule \<Rightarrow> rule_state" where
  "state_of states rule = (case map_of states (cr_id rule) of Some st \<Rightarrow> st | None \<Rightarrow> new_rule_state)"

definition alerts_of :: "correlation_rule \<Rightarrow> correlation_alert list \<Rightarrow> correlation_alert list" where
  "alerts_of rule alerts = filter (\<lambda>a. ca_rule_id a = cr_id rule) alerts"

lemma rule_event_id: "rule_event now ev rule st = (st', Some a) \<Longrightarrow> ca_rule_id a = cr_id rule"
  by (auto simp: rule_event_def Let_def split: prod.splits bool.splits if_splits)

lemma process_rules_other:
  assumes "cr_id rule \<notin> cr_id ` set rules" and "process_rules is_match now ev rules states = (states', alerts)"
  shows "state_of states' rule = state_of states rule \<and> alerts_of rule alerts = []"
  using assms
proof (induction rules arbitrary: states states' alerts)
  case (Cons r rules)
  show ?case
  proof (cases "event_matches is_match ev r")
    case True
    obtain st' al where re: "rule_event now ev r
        (case map_of states (cr_id r) of Some st \<Rightarrow> st | None \<Rightarrow> new_rule_state) = (st', al)" by fastforce
    obtain states2 al2 where
      rest: "process_rules is_match now ev rules (AList.update (cr_id r) st' states) = (states2, al2)"
      by fastforce
    have id: "ca_rule_id a = cr_id r" if "al = Some a" for a
      using re that rule_event_id by blast
    from Cons.prems True re rest have s: "states' = states2" and al: "alerts = (case al of Some a \<Rightarrow> [a] | None \<Rightarrow> []) @ al2"
      by (auto simp: Let_def)
    have "state_of (AList.update (cr_id r) st' states) rule = state_of states rule"
      using Cons.prems(1) by (simp add: state_of_def update_conv')
    with Cons.IH [OF _ rest] Cons.prems(1) s al id show ?thesis
      by (auto simp: alerts_of_def split: option.split)
  next
    case False
    with Cons show ?thesis by auto
  qed
qed (simp add: alerts_of_def)

lemma process_rules_one:
  assumes "rule \<in> set rules" and "distinct (map cr_id rules)"
    and "process_rules is_match now ev rules states = (states', alerts)"
  shows "if event_matches is_match ev rule
    then (\<exists>al. rule_event now ev rule (state_of states rule) = (state_of states' rule, al)
        \<and> alerts_of rule alerts = (case al of Some a \<Rightarrow> [a] | None \<Rightarrow> []))
    else state_of states' rule = state_of states rule \<and> alerts_of rule alerts = []"
  using assms
proof (induction rules arbitrary: states states' alerts)
  case (Cons r rules)
  show ?case
  proof (cases "event_matches is_match ev r")
    case True
    obtain st' al where re: "rule_event now ev r (state_of states r) = (st', al)" by fastforce
    obtain states2 al2 where
      rest: "process_rules is_match now ev rules (AList.update (cr_id r) st' states) = (states2, al2)"
      by fastforce
    have id: "ca_rule_id a = cr_id r" if "al = Some a" for a
      using re that rule_event_id by blast
    from Cons.prems True re rest have s: "states' = states2" and al: "alerts = (case al of Some a \<Rightarrow> [a] | None \<Rightarrow> []) @ al2"
      by (auto simp: Let_def state_of_def)
    show ?thesis
    proof (cases "rule = r")
      case here: True
      then have "cr_id rule \<notin> cr_id ` set rules" using Cons.prems(2) by auto
      from process_rules_other [OF this rest] here
      have "state_of states' rule = st' \<and> alerts_of rule al2 = []"
        by (simp add: s state_of_def update_conv')
      with here True re al id show ?thesis
        by (auto simp: alerts_of_def split: option.split)
    next
      case False
      then have other: "cr_id rule \<noteq> cr_id r" and rule: "rule \<in> set rules"
        using Cons.prems(1,2) by (auto simp: image_iff)
      then have same: "state_of (AList.update (cr_id r) st' states) rule = state_of states rule"
        by (simp add: state_of_def update_conv')
      have eq: "alerts_of rule alerts = alerts_of rule al2"
        using al id other by (auto simp: alerts_of_def split: option.split)
      have "distinct (map cr_id rules)" using Cons.prems(2) by simp
      from Cons.IH [OF rule this rest] show ?thesis unfolding same eq s .
    qed
  next
    case False
    with Cons.prems process_rules_other [of rule rules is_match now ev states states' alerts]
    show ?thesis using Cons.IH [of states states' alerts] by auto
  qed
qed simp

section \<open>What the engine reports\<close>

lemma process_events_refines:
  assumes "rule \<in> set (ce_rules e)" and "distinct (map cr_id (ce_rules e))"
    and "tracks c (state_of (ce_state e) rule) h"
    and "sorted (map fst evs)" and "\<forall>(now, ev)\<in>set evs. c \<le> now - rule_window rule"
    and "length (fst h) + length evs < 2 ^ 32"
  shows "map (\<lambda>a. (ca_event_count a, ca_generated_at a)) (alerts_of rule (snd (process_events is_match evs e)))
    = spec_alerts is_match rule evs h"
  using assms
proof (induction evs arbitrary: e c h)
  case Nil
  then show ?case by (simp add: alerts_of_def)
next
  case (Cons ne evs)
  obtain now ev where ne: "ne = (now, ev)" by (cases ne)
  obtain states alerts where pr: "process_rules is_match now ev (ce_rules e) (ce_state e) = (states, alerts)"
    by fastforce
  obtain e1 where pe: "process_event is_match now ev e = (e1, alerts)"
      and e1: "ce_rules e1 = ce_rules e" "ce_state e1 = states"
    by (simp add: process_event_def pr Let_def)
  have later: "\<forall>(n, ev)\<in>set evs. now - rule_window rule \<le> n - rule_window rule"
    using Cons.prems(4) by (auto simp: ne)
  have split: "alerts_of rule (snd (process_events is_match (ne # evs) e))
      = alerts_of rule alerts @ alerts_of rule (snd (process_events is_match evs e1))"
    by (simp add: ne pe alerts_of_def case_prod_beta)
  note one = process_rules_one [OF Cons.prems(1,2) pr]
  note IH = Cons.IH [of e1, unfolded e1, OF Cons.prems(1,2)]
  show ?case
  proof (cases "event_matches is_match ev rule")
    case False
    with one have same: "state_of states rule = state_of (ce_state e) rule" "alerts_of rule alerts = []" by auto
    have "spec_alerts is_match rule (ne # evs) h = spec_alerts is_match rule evs h"
      using False by (simp add: ne)
    moreover have "map (\<lambda>a. (ca_event_count a, ca_generated_at a)) (alerts_of rule (snd (process_events is_match evs e1)))
        = spec_alerts is_match rule evs h"
      using IH [of c h] same(1) Cons.prems(3-6) by (simp add: ne)
    ultimately show ?thesis by (simp only: split same(2) append_Nil)
  next
    case True
    with one obtain al where re: "rule_event now ev rule (state_of (ce_state e) rule) = (state_of states rule, al)"
        and al: "alerts_of rule alerts = (case al of Some a \<Rightarrow> [a] | None \<Rightarrow> [])"
      by auto
    obtain h' out where sp: "spec_event rule (now, ev) h = (h', out)" by fastforce
    have "c \<le> now - rule_window rule" and "length (fst h) + 1 < 2 ^ 32"
      using Cons.prems(5,6) by (auto simp: ne)
    note ref = rule_event_refines [OF Cons.prems(3) this re sp]
    have "length (fst h') + length evs < 2 ^ 32" using ref(4) Cons.prems(6) by simp
    with IH [OF ref(1) _ later] Cons.prems(4) have
      "map (\<lambda>a. (ca_event_count a, ca_generated_at a)) (alerts_of rule (snd (process_events is_match evs e1)))
        = spec_alerts is_match rule evs h'"
      by simp
    moreover have "spec_alerts is_match rule (ne # evs) h = out @ spec_alerts is_match rule evs h'"
      using True by (simp add: ne sp)
    ultimately show ?thesis using ref(2) by (simp only: split al map_append)
  qed
qed

lemma new_engine_rules:
  "rule \<in> set rules \<Longrightarrow> cr_enabled rule \<Longrightarrow> compiles (cr_pattern rule) \<Longrightarrow> rule \<in> set (ce_rules (new_engine compiles rules))"
  "distinct (map cr_id rules) \<Longrightarrow> distinct (map cr_id (ce_rules (new_engine compiles rules)))"
  by (simp_all add: new_engine_def distinct_map_filter)

text \<open>C9: The alerts of every enabled rule of the engine, over any sequence of events processed on a
  clock that does not go back, are those of its specification: one whenever the distinct events of the
  window that match it reach the threshold and its last alert is more than a window old, with their
  number. Forgetting what has left the window changes nothing, and no rule influences another.\<close>

theorem correlation_alerts_exact:
  assumes "rule \<in> set rules" and "cr_enabled rule" and "compiles (cr_pattern rule)"
    and "distinct (map cr_id rules)" and "sorted (map fst evs)" and "length evs < 2 ^ 32"
  shows "map (\<lambda>a. (ca_event_count a, ca_generated_at a))
      (alerts_of rule (snd (process_events is_match evs (new_engine compiles rules))))
    = spec_alerts is_match rule evs ([], None)"
proof (cases evs)
  case Nil
  then show ?thesis by (simp add: alerts_of_def)
next
  case (Cons ne rest)
  let ?e = "new_engine compiles rules"
  have "tracks (fst ne - rule_window rule) (state_of (ce_state ?e) rule) ([], None)"
    by (simp add: state_of_def new_engine_def tracks_new)
  moreover have "\<forall>(now, ev)\<in>set evs. fst ne - rule_window rule \<le> now - rule_window rule"
    using assms(5) by (auto simp: Cons)
  moreover have "rule \<in> set (ce_rules ?e)" using assms(1-3) by (rule new_engine_rules)
  moreover have "distinct (map cr_id (ce_rules ?e))" using assms(4) by (rule new_engine_rules)
  ultimately show ?thesis
    using process_events_refines [of rule ?e _ "([], None)" evs is_match] assms(5,6) by simp
qed

definition failed_logon :: "instant \<Rightarrow> string \<Rightarrow> siem_event" where
  "failed_logon t eid = \<lparr>ev_timestamp = t, ev_severity = 5, ev_category = Authentication,
     ev_name = ''logon'', ev_description = ''EventID=4625'', ev_source_host = ''host'', ev_source_ip = None,
     ev_destination_ip = None, ev_destination_port = None, ev_user = None, ev_process_name = None,
     ev_process_id = None, ev_file_path = None, ev_custom_fields = ''{}'', ev_event_id = eid,
     ev_agent_version = ''1''\<rparr>"

text \<open>Five failed logons within five minutes, one of them delivered twice.\<close>

definition logon_burst :: "(instant \<times> siem_event) list" where
  "logon_burst = map (\<lambda>(t, eid). (seconds t, failed_logon (seconds t) eid))
     [(0, ''a''), (10, ''b''), (10, ''b''), (20, ''c''), (30, ''d''), (40, ''e''), (50, ''f'')]"

lemma default_rules_distinct: "distinct (map cr_id default_rules) \<and> list_all cr_enabled default_rules"
  by code_simp

theorem correlation_alerts_exact_witness:
  "map (\<lambda>a. (ca_event_count a, ca_generated_at a))
     (alerts_of (default_rules ! 5)
       (snd (process_events (\<lambda>p t. str_contains t p) logon_burst (new_engine (\<lambda>_. True) default_rules))))
   = [(5, seconds 40)]"
proof -
  have "spec_alerts (\<lambda>p t. str_contains t p) (default_rules ! 5) logon_burst ([], None) = [(5, seconds 40)]"
    by code_simp
  moreover have "default_rules ! 5 \<in> set default_rules" "cr_enabled (default_rules ! 5)"
    by (simp_all add: default_rules_def)
  moreover have "sorted (map fst logon_burst)" "length logon_burst < 2 ^ 32"
    by (simp_all add: logon_burst_def seconds_def)
  ultimately show ?thesis
    using correlation_alerts_exact [of "default_rules ! 5" default_rules "\<lambda>_. True" logon_burst "\<lambda>p t. str_contains t p"]
      default_rules_distinct by simp
qed

text \<open>The time an alert gives as that of its first event is that of the event received first.\<close>

lemma first_event_not_earliest:
  "map ca_first_event (snd (process_events (\<lambda>_ _. True)
      [(seconds 100, failed_logon (seconds 90) ''a''), (seconds 100, failed_logon (seconds 50) ''b'')]
      (new_engine (\<lambda>_. True) [(default_rules ! 5)\<lparr>cr_threshold := 2\<rparr>]))) = [seconds 90]"
  by code_simp

end
