(* ===== verification/Alert_Cooldown.thy ===== *)
theory Alert_Cooldown imports Offline begin

text \<open>
  The cooldown of network security alerts (\<open>crates/agent-network/src/detection/cooldown.rs\<close>) and
  its use (\<open>report_alerts\<close> in \<open>crates/agent-core/src/network_ops.rs\<close>): the detectors raise a lasting
  alert on every scan; it is uploaded again only once the window has elapsed.

  Instants are those of the monotonic clock, in nanoseconds.
\<close>

section \<open>Types\<close>

datatype network_alert_type =
    C2Communication | CryptoMining | DataExfiltration | SuspiciousPort | MaliciousDestination
  | DnsTunneling | AnonymizationNetwork | ConnectionAnomaly

datatype connection_protocol = Tcp | Udp | Tcp6 | Udp6

datatype connection_state =
    Established | Listen | TimeWait | CloseWait | SynSent | SynReceived | FinWait1 | FinWait2
  | Closing | LastAck | ConnClosed | Unknown

datatype alert_severity = Low | Medium | High | Critical

record network_connection =
  nc_protocol :: connection_protocol
  nc_local_address :: string
  nc_local_port :: nat
  nc_remote_address :: "string option"
  nc_remote_port :: "nat option"
  nc_state :: connection_state
  nc_pid :: "u32 option"
  nc_process_name :: "string option"
  nc_process_path :: "string option"

text \<open>The JSON value of the evidence is its text.\<close>

record network_alert =
  na_alert_type :: network_alert_type
  na_severity :: alert_severity
  na_title :: string
  na_description :: string
  na_connection :: "network_connection option"
  na_evidence :: string
  na_confidence :: nat
  na_detected_at :: instant
  na_iocs_matched :: "string list"

record alert_key =
  ak_alert_type :: network_alert_type
  ak_remote_address :: "string option"
  ak_remote_port :: "nat option"
  ak_process_name :: "string option"
  ak_local_port :: "nat option"
  ak_title :: "string option"

definition key_of :: "network_alert \<Rightarrow> alert_key" where
  "key_of alert =
     (case na_connection alert of
        Some conn \<Rightarrow>
          \<lparr>ak_alert_type = na_alert_type alert, ak_remote_address = nc_remote_address conn,
           ak_remote_port = nc_remote_port conn, ak_process_name = nc_process_name conn,
           ak_local_port = (if nc_remote_port conn = None then Some (nc_local_port conn) else None),
           ak_title = None\<rparr>
      | None \<Rightarrow>
          \<lparr>ak_alert_type = na_alert_type alert, ak_remote_address = None, ak_remote_port = None,
           ak_process_name = None, ak_local_port = None, ak_title = Some (na_title alert)\<rparr>)"

definition DEFAULT_ALERT_COOLDOWN :: int where "DEFAULT_ALERT_COOLDOWN = seconds 3600"
definition MAX_TRACKED_ALERTS :: nat where "MAX_TRACKED_ALERTS = 10000"

record alert_cooldown =
  ac_window :: int
  ac_last_reported :: "(alert_key \<times> instant) list"

definition new_cooldown :: "int \<Rightarrow> alert_cooldown" where
  "new_cooldown window = \<lparr>ac_window = window, ac_last_reported = []\<rparr>"

definition default_cooldown :: alert_cooldown where
  "default_cooldown = new_cooldown DEFAULT_ALERT_COOLDOWN"

section \<open>Operations\<close>

definition since :: "instant \<Rightarrow> instant \<Rightarrow> int" where
  "since now t = max (now - t) 0"

definition should_report :: "network_alert \<Rightarrow> instant \<Rightarrow> alert_cooldown \<Rightarrow> bool" where
  "should_report alert now c =
     (case map_of (ac_last_reported c) (key_of alert) of
        Some t \<Rightarrow> ac_window c \<le> since now t | None \<Rightarrow> True)"

definition prune :: "instant \<Rightarrow> alert_cooldown \<Rightarrow> alert_cooldown" where
  "prune now c = c\<lparr>ac_last_reported := filter (\<lambda>(_, t). since now t < ac_window c) (ac_last_reported c)\<rparr>"

text \<open>The first entry with the least instant.\<close>

fun oldest :: "('k \<times> instant) list \<Rightarrow> 'k option" where
  "oldest [] = None"
| "oldest ((k, t) # m) = (if \<forall>(_, u)\<in>set m. t \<le> u then Some k else oldest m)"

definition mark_reported :: "network_alert \<Rightarrow> instant \<Rightarrow> alert_cooldown \<Rightarrow> alert_cooldown" where
  "mark_reported alert now c =
     (let c1 = prune now c;
          m = (if MAX_TRACKED_ALERTS \<le> length (ac_last_reported c1)
               then (case oldest (ac_last_reported c1) of
                       Some k \<Rightarrow> AList.delete k (ac_last_reported c1) | None \<Rightarrow> ac_last_reported c1)
               else ac_last_reported c1)
      in c1\<lparr>ac_last_reported := AList.update (key_of alert) now m\<rparr>)"

text \<open>
  One pass over detected alerts: each with its instant and whether its upload would succeed. The
  log says which alerts were uploaded, in order.
\<close>

type_synonym detection = "instant \<times> network_alert \<times> bool"

fun upload_alerts :: "detection list \<Rightarrow> alert_cooldown \<Rightarrow> alert_cooldown \<times> (instant \<times> network_alert) list" where
  "upload_alerts [] c = (c, [])"
| "upload_alerts ((now, alert, ok) # ds) c =
     (if \<not> should_report alert now c then upload_alerts ds c
      else if ok
      then let (c', log) = upload_alerts ds (mark_reported alert now c) in (c', (now, alert) # log)
      else upload_alerts ds c)"

section \<open>What it is meant to do\<close>

text \<open>An alert is uploaded unless it was uploaded less than a window ago.\<close>

fun spec_uploads :: "int \<Rightarrow> detection list \<Rightarrow> (alert_key \<times> instant) list \<Rightarrow> (instant \<times> network_alert) list" where
  "spec_uploads w [] hist = []"
| "spec_uploads w ((now, alert, ok) # ds) hist =
     (if (\<exists>(k, t)\<in>set hist. k = key_of alert \<and> now - t < w) \<or> \<not> ok then spec_uploads w ds hist
      else (now, alert) # spec_uploads w ds (hist @ [(key_of alert, now)]))"

definition remembers :: "instant \<Rightarrow> alert_cooldown \<Rightarrow> (alert_key \<times> instant) list \<Rightarrow> bool" where
  "remembers c ac hist \<longleftrightarrow> hm_wf (ac_last_reported ac) \<and> set (ac_last_reported ac) \<subseteq> set hist
     \<and> (\<forall>k t. (k, t) \<in> set hist \<longrightarrow> t \<le> c \<and>
          (c - t < ac_window ac \<longrightarrow> (\<exists>t'. (k, t') \<in> set (ac_last_reported ac) \<and> t \<le> t')))"

lemma remembers_due:
  assumes r: "remembers c ac hist" and c: "c \<le> now"
  shows "should_report alert now ac \<longleftrightarrow>
    \<not> (\<exists>(k, t)\<in>set hist. k = key_of alert \<and> now - t < ac_window ac)"
proof -
  have wf: "hm_wf (ac_last_reported ac)" and sub: "set (ac_last_reported ac) \<subseteq> set hist"
    and le: "\<And>k t. (k, t) \<in> set hist \<Longrightarrow> t \<le> now"
    and rem: "\<And>k t. (k, t) \<in> set hist \<Longrightarrow> c - t < ac_window ac \<Longrightarrow>
        \<exists>t'. (k, t') \<in> set (ac_last_reported ac) \<and> t \<le> t'"
    using r c by (fastforce simp: remembers_def)+
  have "\<not> should_report alert now ac \<longleftrightarrow>
      (\<exists>t. (key_of alert, t) \<in> set (ac_last_reported ac) \<and> since now t < ac_window ac)"
    using wf by (auto simp: should_report_def hm_mem split: option.splits)
  also have "\<dots> \<longleftrightarrow> (\<exists>(k, t)\<in>set hist. k = key_of alert \<and> now - t < ac_window ac)"
  proof
    assume "\<exists>t. (key_of alert, t) \<in> set (ac_last_reported ac) \<and> since now t < ac_window ac"
    then obtain t where "(key_of alert, t) \<in> set (ac_last_reported ac)" "since now t < ac_window ac" by blast
    then show "\<exists>(k, t)\<in>set hist. k = key_of alert \<and> now - t < ac_window ac"
      using sub by (auto simp: since_def intro!: bexI [of _ "(key_of alert, t)"])
  next
    assume "\<exists>(k, t)\<in>set hist. k = key_of alert \<and> now - t < ac_window ac"
    then obtain t where t: "(key_of alert, t) \<in> set hist" "now - t < ac_window ac" by auto
    with rem [OF t(1)] c obtain t' where "(key_of alert, t') \<in> set (ac_last_reported ac)" "t \<le> t'" by force
    moreover from this have "t' \<le> now" using sub le by blast
    ultimately show "\<exists>t. (key_of alert, t) \<in> set (ac_last_reported ac) \<and> since now t < ac_window ac"
      using t(2) by (intro exI [of _ t']) (simp add: since_def)
  qed
  finally show ?thesis by blast
qed

lemma mark_reported_remembers:
  assumes r: "remembers c ac hist" and c: "c \<le> now" and due: "should_report alert now ac"
    and K: "fst ` set hist \<subseteq> K" "key_of alert \<in> K" "finite K" "card K \<le> MAX_TRACKED_ALERTS"
  shows "remembers now (mark_reported alert now ac) (hist @ [(key_of alert, now)])"
proof -
  let ?m = "ac_last_reported (prune now ac)"
  have wf: "hm_wf (ac_last_reported ac)" and sub: "set (ac_last_reported ac) \<subseteq> set hist"
    and le: "\<And>k t. (k, t) \<in> set hist \<Longrightarrow> t \<le> c"
    and rem: "\<And>k t. (k, t) \<in> set hist \<Longrightarrow> c - t < ac_window ac \<Longrightarrow>
        \<exists>t'. (k, t') \<in> set (ac_last_reported ac) \<and> t \<le> t'"
    using r by (auto simp: remembers_def)
  have wf': "hm_wf ?m" and w: "ac_window (prune now ac) = ac_window ac" using wf by (simp_all add: prune_def)
  have mem: "(k, t) \<in> set ?m \<longleftrightarrow> (k, t) \<in> set (ac_last_reported ac) \<and> since now t < ac_window ac" for k t
    by (simp add: prune_def)
  have absent: "key_of alert \<notin> fst ` set ?m"
    using due wf mem by (force simp: should_report_def hm_mem)
  have "length ?m = card (fst ` set ?m)"
    using wf' by (metis distinct_card hm_wf_def length_map set_map)
  also have "\<dots> \<le> card (K - {key_of alert})"
  proof (rule card_mono)
    have "fst ` set ?m \<subseteq> fst ` set (ac_last_reported ac)" by (auto simp: prune_def)
    also have "\<dots> \<subseteq> K" using sub K(1) by blast
    finally show "fst ` set ?m \<subseteq> K - {key_of alert}" using absent by blast
  qed (simp add: K(3))
  also have "\<dots> < MAX_TRACKED_ALERTS"
    using K by (metis card_Diff1_less less_le_trans)
  finally have m: "ac_last_reported (mark_reported alert now ac) = AList.update (key_of alert) now ?m"
      and win: "ac_window (mark_reported alert now ac) = ac_window ac"
    by (simp_all add: mark_reported_def Let_def w)
  have "\<exists>t'. (k, t') \<in> set (AList.update (key_of alert) now ?m) \<and> t \<le> t'"
    if "(k, t) \<in> set (hist @ [(key_of alert, now)])" and "now - t < ac_window ac" for k t
  proof (cases "k = key_of alert")
    case True
    have "t \<le> now" using that(1) le [of k t] c by auto
    with True show ?thesis by (intro exI [of _ now]) (simp add: hm_update_mem [OF wf'])
  next
    case False
    with that have h: "(k, t) \<in> set hist" by auto
    have "c - t < ac_window ac" using that(2) c by simp
    with rem [OF h] obtain t' where t': "(k, t') \<in> set (ac_last_reported ac)" "t \<le> t'" by blast
    moreover have "t' \<le> c" using t'(1) sub le by blast
    ultimately have "since now t' < ac_window ac" using that(2) c by (simp add: since_def)
    with t' False show ?thesis by (intro exI [of _ t']) (simp add: hm_update_mem [OF wf'] mem)
  qed
  moreover have "set (AList.update (key_of alert) now ?m) \<subseteq> set (hist @ [(key_of alert, now)])"
    using sub mem by (auto simp: hm_update_mem [OF wf'] split: if_splits)
  ultimately show ?thesis
    using wf' le c by (force simp: remembers_def m win)
qed

lemma upload_alerts_spec:
  assumes "remembers c ac hist" and "sorted (map fst ds)" and "\<forall>d\<in>set ds. c \<le> fst d"
    and "fst ` set hist \<union> (\<lambda>(_, a, _). key_of a) ` set ds \<subseteq> K" and "finite K" and "card K \<le> MAX_TRACKED_ALERTS"
  shows "snd (upload_alerts ds ac) = spec_uploads (ac_window ac) ds hist"
  using assms(1-4)
proof (induction ds arbitrary: c ac hist)
  case (Cons d ds)
  obtain now alert ok where d: "d = (now, alert, ok)" by (cases d) auto
  have now: "c \<le> now" and srt: "sorted (map fst ds)" and later: "\<forall>d\<in>set ds. now \<le> fst d"
    using Cons.prems(2,3) by (auto simp: d)
  have early: "\<forall>d\<in>set ds. c \<le> fst d" using now later by force
  note due = remembers_due [OF Cons.prems(1) now, of alert]
  show ?case
  proof (cases "should_report alert now ac \<and> ok")
    case True
    have "remembers now (mark_reported alert now ac) (hist @ [(key_of alert, now)])"
      using mark_reported_remembers [OF Cons.prems(1) now _ _ _ assms(5,6)] True Cons.prems(4)
      by (auto simp: d)
    from Cons.IH [OF this srt later] Cons.prems(4)
    have "snd (upload_alerts ds (mark_reported alert now ac))
        = spec_uploads (ac_window ac) ds (hist @ [(key_of alert, now)])"
      by (auto simp: d mark_reported_def prune_def Let_def)
    with True due show ?thesis by (auto simp: d case_prod_beta)
  next
    case False
    have "snd (upload_alerts ds ac) = spec_uploads (ac_window ac) ds hist"
      using Cons.IH [OF Cons.prems(1) srt early] Cons.prems(4) by auto
    with False due show ?thesis by (auto simp: d)
  qed
qed simp

lemma mark_reported_bound:
  "length (ac_last_reported c) \<le> MAX_TRACKED_ALERTS \<Longrightarrow>
   length (ac_last_reported (mark_reported alert now c)) \<le> MAX_TRACKED_ALERTS"
proof -
  let ?m = "ac_last_reported (prune now c)"
  assume "length (ac_last_reported c) \<le> MAX_TRACKED_ALERTS"
  then have le: "length ?m \<le> MAX_TRACKED_ALERTS"
    by (simp add: prune_def) (meson length_filter_le le_trans)
  have some: "\<exists>k \<in> fst ` set m. oldest m = Some k" if "m \<noteq> []" for m :: "(alert_key \<times> instant) list"
    using that
  proof (induction m)
    case (Cons kt m)
    obtain k t where kt: "kt = (k, t)" by (cases kt)
    show ?case
    proof (cases "m = []")
      case False
      with Cons.IH obtain k' where "k' \<in> fst ` set m" "oldest m = Some k'" by blast
      then show ?thesis by (auto simp: kt)
    qed (simp add: kt)
  qed simp
  have upd: "length (AList.update k v m) \<le> Suc (length m)" for k v and m :: "(alert_key \<times> instant) list"
    by (simp add: length_update)
  show ?thesis
  proof (cases "MAX_TRACKED_ALERTS \<le> length ?m")
    case True
    then have "?m \<noteq> []" by (auto simp: MAX_TRACKED_ALERTS_def)
    from some [OF this] obtain k where k: "k \<in> fst ` set ?m" "oldest ?m = Some k" by blast
    with length_delete_present [OF k(1)] upd [of "key_of alert" now "AList.delete k ?m"] True le show ?thesis
      by (simp add: mark_reported_def Let_def)
  next
    case False
    with upd [of "key_of alert" now ?m] show ?thesis by (simp add: mark_reported_def Let_def)
  qed
qed

lemma upload_alerts_bound:
  "length (ac_last_reported c) \<le> MAX_TRACKED_ALERTS \<Longrightarrow>
   length (ac_last_reported (fst (upload_alerts ds c))) \<le> MAX_TRACKED_ALERTS"
proof (induction ds arbitrary: c)
  case (Cons d ds)
  obtain now alert ok where d: "d = (now, alert, ok)" by (cases d) auto
  show ?case
    using Cons.IH [of c] Cons.IH [of "mark_reported alert now c"] mark_reported_bound Cons.prems
    by (simp add: d case_prod_beta)
qed simp

text \<open>The cooldown remembers at most 10 000 alerts, and while no more than that many distinct alerts
  are raised, an alert is uploaded exactly when its upload succeeds and no alert of the same key was
  uploaded less than a window before: forgetting the elapsed ones changes nothing.\<close>

theorem cooldown_uploads_exact:
  assumes "sorted (map fst ds)"
  shows "length (ac_last_reported (fst (upload_alerts ds (new_cooldown w)))) \<le> 10000
    \<and> (card ((\<lambda>(_, a, _). key_of a) ` set ds) \<le> 10000 \<longrightarrow>
        snd (upload_alerts ds (new_cooldown w)) = spec_uploads w ds [])"
proof -
  let ?K = "(\<lambda>(_, a, _). key_of a) ` set ds"
  have "snd (upload_alerts ds (new_cooldown w)) = spec_uploads w ds []" if "card ?K \<le> 10000"
  proof (cases ds)
    case (Cons d rest)
    have "remembers (fst d) (new_cooldown w) []" by (simp add: remembers_def new_cooldown_def)
    from upload_alerts_spec [OF this assms _ _ _ that [folded MAX_TRACKED_ALERTS_def]] show ?thesis
      using assms by (auto simp: Cons new_cooldown_def)
  qed simp
  moreover have "length (ac_last_reported (fst (upload_alerts ds (new_cooldown w)))) \<le> MAX_TRACKED_ALERTS"
    by (rule upload_alerts_bound) (simp add: new_cooldown_def)
  ultimately show ?thesis by (simp add: MAX_TRACKED_ALERTS_def)
qed

definition beacon :: network_alert where
  "beacon = \<lparr>na_alert_type = C2Communication, na_severity = High, na_title = ''Beacon'',
     na_description = ''Beacon'', na_connection = None, na_evidence = ''{}'', na_confidence = 90,
     na_detected_at = 0, na_iocs_matched = []\<rparr>"

theorem cooldown_uploads_exact_witness:
  "snd (upload_alerts [(0, beacon, False), (seconds 1, beacon, True), (seconds 60, beacon, True),
      (seconds 3601, beacon, True)] default_cooldown) = [(seconds 1, beacon), (seconds 3601, beacon)]"
proof -
  let ?ds = "[(0, beacon, False), (seconds 1, beacon, True), (seconds 60, beacon, True), (seconds 3601, beacon, True)]"
  have "spec_uploads (seconds 3600) ?ds [] = [(seconds 1, beacon), (seconds 3601, beacon)]"
    by (simp add: seconds_def)
  with cooldown_uploads_exact [of ?ds "seconds 3600"] show ?thesis
    by (simp add: default_cooldown_def DEFAULT_ALERT_COOLDOWN_def seconds_def)
qed

end
