(* ===== verification/Debian_Version.thy ===== *)
theory Debian_Version imports Prelude begin

text \<open>
  Ordering of Debian package versions
  (\<open>crates/agent-scanner/src/vulnerability/debian_version.rs\<close>), used to tell whether an installed
  package is older than the fixed one. The indices of the source are the suffixes still to be read.
\<close>

section \<open>The comparison\<close>

datatype ordering = Less | Equal | Greater

definition cmp :: "'a::linorder \<Rightarrow> 'a \<Rightarrow> ordering" where
  "cmp x y = (if x < y then Less else if x = y then Equal else Greater)"

fun then_with :: "ordering \<Rightarrow> ordering \<Rightarrow> ordering" where
  "then_with Equal r = r"
| "then_with r _ = r"

definition split_version :: "string \<Rightarrow> u64 \<times> string \<times> string" where
  "split_version version =
     (let v = trim version;
          (epoch, rest) =
            (case split_once (CHR '':'') v of
               Some (e, rest) \<Rightarrow>
                 if e \<noteq> [] \<and> list_all is_ascii_digit e
                 then ((case parse_u64 e of Some n \<Rightarrow> n | None \<Rightarrow> u64_max), rest) else (0, v)
             | None \<Rightarrow> (0, v))
      in case rsplit_once (CHR ''-'') rest of
           Some (upstream, revision) \<Rightarrow> (epoch, upstream, revision)
         | None \<Rightarrow> (epoch, rest, []))"

definition order :: "char option \<Rightarrow> int" where
  "order c =
     (case c of None \<Rightarrow> 0
      | Some c \<Rightarrow>
          if c = CHR ''~'' then -1
          else if is_ascii_digit c then 0
          else if is_ascii_alphabetic c then int (byte c)
          else int (byte c) + 256)"

fun starts_digit :: "string \<Rightarrow> bool" where
  "starts_digit [] = False"
| "starts_digit (c # _) = is_ascii_digit c"

fun starts_nondigit :: "string \<Rightarrow> bool" where
  "starts_nondigit [] = False"
| "starts_nondigit (c # _) = (\<not> is_ascii_digit c)"

definition weight :: "string \<Rightarrow> int" where
  "weight s = (if starts_nondigit s then order (Some (hd s)) else order None)"

definition skip_nondigit :: "string \<Rightarrow> string" where
  "skip_nondigit s = (if starts_nondigit s then tl s else s)"

text \<open>The loop over the non-digit runs: a decision, or what follows both runs.\<close>

function nondigit_run :: "string \<Rightarrow> string \<Rightarrow> ordering + string \<times> string" where
  "nondigit_run a b =
     (if starts_nondigit a \<or> starts_nondigit b
      then if weight a \<noteq> weight b then Inl (cmp (weight a) (weight b))
           else nondigit_run (skip_nondigit a) (skip_nondigit b)
      else Inr (a, b))"
  by pat_completeness auto
termination
proof (relation "measure (\<lambda>(a, b). length a + length b)", goal_cases)
  case (2 a b)
  then show ?case
    by (cases a; cases b) (auto simp: skip_nondigit_def)
qed simp

declare nondigit_run.simps [simp del]

definition skip_zeros :: "string \<Rightarrow> string" where
  "skip_zeros = dropWhile (\<lambda>c. c = CHR ''0'')"

fun digit_run :: "ordering \<Rightarrow> string \<Rightarrow> string \<Rightarrow> ordering \<times> string \<times> string" where
  "digit_run first_diff (x # a) (y # b) =
     (if is_ascii_digit x \<and> is_ascii_digit y
      then digit_run (if first_diff = Equal then cmp (byte x) (byte y) else first_diff) a b
      else (first_diff, x # a, y # b))"
| "digit_run first_diff a b = (first_diff, a, b)"

lemma nondigit_run_shrinks:
  "nondigit_run a b = Inr (a', b') \<Longrightarrow>
   length a' \<le> length a \<and> length b' \<le> length b \<and> \<not> starts_nondigit a' \<and> \<not> starts_nondigit b'"
proof (induction a b rule: nondigit_run.induct)
  case (1 a b)
  have le: "length (skip_nondigit s) \<le> length s" for s by (simp add: skip_nondigit_def)
  show ?case
  proof (cases "starts_nondigit a \<or> starts_nondigit b")
    case True
    with "1.prems" have w: "\<not> weight a \<noteq> weight b" and "nondigit_run (skip_nondigit a) (skip_nondigit b) = Inr (a', b')"
      by (simp_all add: nondigit_run.simps [of a b] split: if_splits)
    from "1.IH" [OF True this] le [of a] le [of b] show ?thesis by (meson order_trans)
  next
    case False
    with "1.prems" show ?thesis by (simp add: nondigit_run.simps [of a b])
  qed
qed

lemma digit_run_shrinks:
  "digit_run fd a b = (fd', a', b') \<Longrightarrow> length a' \<le> length a \<and> length b' \<le> length b
     \<and> (starts_digit a \<and> starts_digit b \<longrightarrow> length a' < length a)"
  by (induction fd a b rule: digit_run.induct) (fastforce split: if_splits)+

lemma skip_zeros_shrinks: "length (skip_zeros s) \<le> length s"
  by (simp add: skip_zeros_def length_dropWhile_le)

lemma digits_consumed:
  assumes "digit_run fd (skip_zeros a) (skip_zeros b) = (fd', a', b')"
    and "\<not> starts_digit a'" and "\<not> starts_digit b'" and "\<not> starts_nondigit a" and "a \<noteq> []"
  shows "length a' < length a"
proof (cases "skip_zeros a = a")
  case True
  from assms(4,5) have "starts_digit a" by (cases a) auto
  with True assms digit_run_shrinks [OF assms(1)] show ?thesis
    by (cases "starts_digit (skip_zeros b)") (cases a; cases "skip_zeros b"; auto)+
next
  case False
  then have "length (skip_zeros a) < length a"
    by (cases a) (auto simp: skip_zeros_def le_imp_less_Suc length_dropWhile_le split: if_splits)
  with digit_run_shrinks [OF assms(1)] show ?thesis by simp
qed

lemma compare_part_shrinks:
  assumes "nondigit_run a b = Inr (a1, b1)" and "a \<noteq> [] \<or> b \<noteq> []"
    and "digit_run Equal (skip_zeros a1) (skip_zeros b1) = (fd, a2, b2)"
    and "\<not> starts_digit a2" and "\<not> starts_digit b2"
  shows "length a2 + length b2 < length a + length b"
proof -
  note nd = nondigit_run_shrinks [OF assms(1)]
  note dr = digit_run_shrinks [OF assms(3)]
  have a2: "length a2 \<le> length a1" and b2: "length b2 \<le> length b1"
    using dr skip_zeros_shrinks order_trans by blast+
  show ?thesis
  proof (cases "a1 = [] \<and> b1 = []")
    case True
    with assms(2) a2 b2 show ?thesis by simp
  next
    case False
    have "length a2 < length a1" if "a1 \<noteq> []"
      using digits_consumed [OF assms(3-5)] nd that by blast
    moreover have "length b2 < length b1" if "a1 = []" "b1 \<noteq> []"
    proof -
      have "starts_digit (skip_zeros b1) \<or> length (skip_zeros b1) < length b1"
        using that nd by (cases b1) (auto simp: skip_zeros_def le_imp_less_Suc length_dropWhile_le)
      moreover have "(fd, a2, b2) = (Equal, [], skip_zeros b1)"
        using assms(3) that by (simp add: skip_zeros_def)
      ultimately show ?thesis using assms(5) by auto
    qed
    ultimately show ?thesis using False a2 b2 nd by (cases "a1 = []") auto
  qed
qed

function compare_part :: "string \<Rightarrow> string \<Rightarrow> ordering" where
  "compare_part a b =
     (if a = [] \<and> b = [] then Equal
      else case nondigit_run a b of
        Inl r \<Rightarrow> r
      | Inr (a1, b1) \<Rightarrow>
          (case digit_run Equal (skip_zeros a1) (skip_zeros b1) of
             (first_diff, a2, b2) \<Rightarrow>
               if starts_digit a2 then Greater
               else if starts_digit b2 then Less
               else if first_diff \<noteq> Equal then first_diff
               else compare_part a2 b2))"
  by pat_completeness auto
termination
  by (relation "measure (\<lambda>(a, b). length a + length b)") (auto dest!: sym [of "(_, _, _)"] intro: compare_part_shrinks)

declare compare_part.simps [simp del]

definition compare_debian_versions :: "string \<Rightarrow> string \<Rightarrow> ordering" where
  "compare_debian_versions a b =
     (case (split_version a, split_version b) of
        ((a_epoch, a_upstream, a_revision), (b_epoch, b_upstream, b_revision)) \<Rightarrow>
          then_with (then_with (cmp a_epoch b_epoch) (compare_part a_upstream b_upstream))
            (compare_part a_revision b_revision))"

section \<open>What dpkg means by it\<close>

text \<open>
  A version part reads as a sequence of integers: the weights of a run of non-digits, then 0,
  then the number that follows, and so on. Parts compare as these sequences do, each
  followed by zeros for ever.
\<close>

fun number :: "nat \<Rightarrow> string \<Rightarrow> nat" where
  "number n [] = n"
| "number n (c # cs) = (if is_ascii_digit c then number (n * 10 + (byte c - 48)) cs else n)"

definition after_number :: "string \<Rightarrow> string" where
  "after_number = dropWhile is_ascii_digit"

function reading :: "string \<Rightarrow> int list" where
  "reading s =
     (if s = [] then []
      else if starts_nondigit s then order (Some (hd s)) # reading (tl s)
      else 0 # int (number 0 s) # reading (after_number s))"
  by pat_completeness auto
termination
proof (relation "measure length", goal_cases)
  case (3 s)
  then show ?case by (cases s) (auto simp: after_number_def le_imp_less_Suc length_dropWhile_le)
qed auto

declare reading.simps [simp del]

definition head0 :: "int list \<Rightarrow> int" where
  "head0 xs = (case xs of [] \<Rightarrow> 0 | x # _ \<Rightarrow> x)"

function compare_padded :: "int list \<Rightarrow> int list \<Rightarrow> ordering" where
  "compare_padded xs ys =
     (if xs = [] \<and> ys = [] then Equal
      else then_with (cmp (head0 xs) (head0 ys)) (compare_padded (tl xs) (tl ys)))"
  by pat_completeness auto
termination
  by (relation "measure (\<lambda>(xs, ys). length xs + length ys)") (auto simp flip: length_greater_0_conv)

declare compare_padded.simps [simp del]

section \<open>The comparison is dpkg's\<close>

lemma compare_padded_step:
  "compare_padded xs ys = then_with (cmp (head0 xs) (head0 ys)) (compare_padded (tl xs) (tl ys))"
proof (cases "xs = [] \<and> ys = []")
  case True
  then show ?thesis by (simp add: compare_padded.simps [of "[]"] head0_def cmp_def)
qed (auto simp: compare_padded.simps [of xs ys])

lemma compare_padded_Cons:
  "compare_padded (x # xs) (y # ys) = then_with (cmp x y) (compare_padded xs ys)"
  by (subst compare_padded_step) (simp add: head0_def)

lemma compare_padded_zero:
  "compare_padded (0 # []) ys = compare_padded [] ys" "compare_padded xs (0 # []) = compare_padded xs []"
  by (subst (1 2) compare_padded_step, simp add: head0_def)+

lemma order_nondigit: "\<not> is_ascii_digit c \<Longrightarrow> order (Some c) \<noteq> 0"
  by (auto simp: order_def is_ascii_alphabetic_def is_ascii_lowercase_def is_ascii_uppercase_def)

lemma nondigit_weight: "starts_nondigit s \<Longrightarrow> weight s \<noteq> 0"
  by (cases s) (auto simp: weight_def order_nondigit)

lemma digit_weight: "\<not> starts_nondigit s \<Longrightarrow> weight s = 0"
  by (simp add: weight_def order_def)

lemma reading_head: "head0 (reading s) = weight s"
  by (subst reading.simps) (simp add: head0_def weight_def order_def)

lemma reading_tail: "starts_nondigit s \<Longrightarrow> tl (reading s) = reading (skip_nondigit s)"
  by (subst reading.simps) (auto simp: skip_nondigit_def)

lemma nondigit_run_reading:
  "case nondigit_run a b of
     Inl r \<Rightarrow> compare_padded (reading a) (reading b) = r
   | Inr (a1, b1) \<Rightarrow> compare_padded (reading a) (reading b) = compare_padded (reading a1) (reading b1)"
proof (induction a b rule: nondigit_run.induct)
  case (1 a b)
  show ?case
  proof (cases "starts_nondigit a \<or> starts_nondigit b")
    case nd: True
    show ?thesis
    proof (cases "weight a = weight b")
      case False
      then have "cmp (weight a) (weight b) \<noteq> Equal" by (simp add: cmp_def)
      then have "then_with (cmp (weight a) (weight b)) r = cmp (weight a) (weight b)" for r
        by (cases "cmp (weight a) (weight b)") auto
      with nd False show ?thesis
        by (subst nondigit_run.simps, subst compare_padded_step) (simp add: reading_head)
    next
      case True
      with nd have both: "starts_nondigit a" "starts_nondigit b"
        using nondigit_weight digit_weight by metis+
      have "compare_padded (reading a) (reading b)
          = compare_padded (reading (skip_nondigit a)) (reading (skip_nondigit b))"
        by (subst compare_padded_step) (simp add: reading_head True reading_tail both cmp_def)
      with "1.IH" nd True show ?thesis by (subst nondigit_run.simps) (simp split: sum.splits prod.splits)
    qed
  next
    case False
    then show ?thesis by (simp add: nondigit_run.simps [of a b])
  qed
qed

lemma number_skip_zeros: "number 0 (skip_zeros s) = number 0 s"
  by (induction s) (auto simp: skip_zeros_def is_ascii_digit_def byte_def)

lemma after_skip_zeros: "after_number (skip_zeros s) = after_number s"
  by (induction s) (auto simp: skip_zeros_def after_number_def is_ascii_digit_def byte_def)

lemma number_ge: "n \<le> number n s"
proof (induction s arbitrary: n)
  case (Cons c s)
  have "n \<le> n * 10 + (byte c - 48)" by simp
  with Cons [of "n * 10 + (byte c - 48)"] show ?case by simp
qed simp

lemma no_digit: "\<not> starts_digit s \<Longrightarrow> number n s = n" "\<not> starts_digit s \<Longrightarrow> after_number s = s"
  by (cases s; simp add: after_number_def)+

lemma digit_value: "is_ascii_digit c \<Longrightarrow> byte c - 48 < 10"
  by (auto simp: is_ascii_digit_def)

text \<open>\<open>k\<close> digits read on both sides, with the values \<open>m\<close> and \<open>n\<close> and no leading zero.\<close>

definition same_length :: "nat \<Rightarrow> nat \<Rightarrow> nat \<Rightarrow> string \<Rightarrow> string \<Rightarrow> bool" where
  "same_length k m n a b \<longleftrightarrow> m < 10 ^ k \<and> n < 10 ^ k \<and>
     (if k = 0 then (a \<noteq> [] \<longrightarrow> hd a \<noteq> CHR ''0'') \<and> (b \<noteq> [] \<longrightarrow> hd b \<noteq> CHR ''0'')
      else 10 ^ k \<le> 10 * m \<and> 10 ^ k \<le> 10 * n)"

lemma same_length_sym: "same_length k m n a b \<Longrightarrow> same_length k n m b a"
  by (auto simp: same_length_def)

lemma byte_zero: "byte c = 48 \<longleftrightarrow> c = CHR ''0''"
proof
  assume "byte c = 48"
  then have "char_of (of_char c :: nat) = (char_of (48 :: nat) :: char)" by (simp add: byte_def)
  moreover have "(char_of (48 :: nat) :: char) = CHR ''0''" by code_simp
  ultimately show "c = CHR ''0''" by simp
qed (simp add: byte_def)

lemma longer_is_greater:
  assumes "same_length k m n a b" and "starts_digit a" and "\<not> starts_digit b"
  shows "number n b < number m a"
proof -
  obtain c a' where a: "a = c # a'" and c: "is_ascii_digit c" using assms(2) by (cases a) auto
  have "n < m * 10 + (byte c - 48)"
  proof (cases "k = 0")
    case True
    with assms(1) a have "m = 0" "n = 0" "c \<noteq> CHR ''0''" by (auto simp: same_length_def)
    moreover have "byte c \<noteq> 48" using \<open>c \<noteq> CHR ''0''\<close> byte_zero by simp
    ultimately show ?thesis using c by (auto simp: is_ascii_digit_def)
  next
    case False
    with assms(1) show ?thesis by (auto simp: same_length_def)
  qed
  also have "\<dots> \<le> number m a" using number_ge c by (simp add: a)
  finally show ?thesis by (simp add: no_digit assms(3))
qed

lemma cmp_digits:
  assumes "x < (10::nat)" and "y < 10"
  shows "cmp (m * 10 + x) (n * 10 + y) = then_with (cmp m n) (cmp x y)"
proof -
  consider "m < n" | "m = n" | "n < m" by linarith
  then show ?thesis
  proof cases
    case 1
    then have "m * 10 + x < n * 10 + y" using assms by linarith
    with 1 show ?thesis by (simp add: cmp_def)
  next
    case 3
    then have "n * 10 + y < m * 10 + x" using assms by linarith
    with 3 show ?thesis by (simp add: cmp_def)
  qed (simp add: cmp_def)
qed

definition runs_as :: "ordering \<Rightarrow> string \<Rightarrow> string \<Rightarrow> nat \<Rightarrow> nat \<Rightarrow> bool" where
  "runs_as fd a b m n \<longleftrightarrow>
     (case digit_run fd a b of (fd', a', b') \<Rightarrow>
        cmp (number m a) (number n b) = (if starts_digit a' then Greater else if starts_digit b' then Less else fd')
        \<and> (\<not> starts_digit a' \<and> \<not> starts_digit b' \<longrightarrow> a' = after_number a \<and> b' = after_number b))"

lemma digit_run_stops:
  assumes "same_length k m n a b" and "\<not> (starts_digit a \<and> starts_digit b)"
  shows "runs_as (cmp m n) a b m n"
proof -
  have "digit_run fd a b = (fd, a, b)" for fd
    using assms(2) by (cases a; cases b) auto
  moreover have "cmp (number m a) (number n b) = Greater" if "starts_digit a" "\<not> starts_digit b"
    using longer_is_greater [OF assms(1) that] by (simp add: cmp_def)
  moreover have "cmp (number m a) (number n b) = Less" if "starts_digit b" "\<not> starts_digit a"
    using longer_is_greater [OF same_length_sym [OF assms(1)] that] by (simp add: cmp_def)
  ultimately show ?thesis using assms(2) no_digit by (auto simp: runs_as_def)
qed

lemma same_length_step:
  assumes "same_length k m n (x # a) (y # b)" and "is_ascii_digit x" and "is_ascii_digit y"
  shows "same_length (Suc k) (m * 10 + (byte x - 48)) (n * 10 + (byte y - 48)) a b"
proof -
  have nz: "1 \<le> byte c - 48" if "c \<noteq> CHR ''0''" "is_ascii_digit c" for c
  proof -
    have "byte c \<noteq> 48" using that(1) byte_zero by simp
    with that show ?thesis by (auto simp: is_ascii_digit_def)
  qed
  show ?thesis
  proof (cases "k = 0")
    case True
    with assms nz digit_value [OF assms(2)] digit_value [OF assms(3)] show ?thesis
      by (auto simp: same_length_def)
  next
    case False
    with assms(1) digit_value [OF assms(2)] digit_value [OF assms(3)] show ?thesis
      by (auto simp: same_length_def)
  qed
qed

lemma digit_run_number:
  "same_length k m n a b \<Longrightarrow> runs_as (cmp m n) a b m n"
proof (induction a arbitrary: b k m n)
  case Nil
  then show ?case by (intro digit_run_stops) auto
next
  case (Cons x a)
  show ?case
  proof (cases "starts_digit (x # a) \<and> starts_digit b")
    case False
    with Cons.prems show ?thesis by (intro digit_run_stops)
  next
    case True
    then obtain y b' where b: "b = y # b'" and d: "is_ascii_digit x" "is_ascii_digit y"
      by (cases b) auto
    let ?m = "m * 10 + (byte x - 48)" and ?n = "n * 10 + (byte y - 48)"
    have "cmp (byte x - 48) (byte y - 48) = cmp (byte x) (byte y)"
      using d by (auto simp: cmp_def is_ascii_digit_def)
    then have "cmp ?m ?n = (if cmp m n = Equal then cmp (byte x) (byte y) else cmp m n)"
      using cmp_digits [OF digit_value [OF d(1)] digit_value [OF d(2)], of m n]
      by (cases "cmp m n") auto
    moreover have "runs_as (cmp ?m ?n) a b' ?m ?n"
      using Cons.IH same_length_step [OF Cons.prems [unfolded b] d] by blast
    ultimately show ?thesis
      using d by (auto simp: runs_as_def b after_number_def split: prod.splits)
  qed
qed

lemma number_reading:
  "\<not> starts_nondigit s \<Longrightarrow>
   compare_padded (reading s) ys = then_with (cmp 0 (head0 ys))
     (then_with (cmp (int (number 0 s)) (head0 (tl ys))) (compare_padded (reading (after_number s)) (tl (tl ys))))"
proof (cases "s = []")
  case True
  have e: "compare_padded [] zs = then_with (cmp 0 (head0 zs)) (compare_padded [] (tl zs))" for zs
    by (subst compare_padded_step) (simp add: head0_def)
  from True show ?thesis
    by (simp add: reading.simps [of "[]"] after_number_def e [of ys] e [of "tl ys"])
next
  case False
  assume "\<not> starts_nondigit s"
  with False have "reading s = 0 # int (number 0 s) # reading (after_number s)"
    by (subst reading.simps) simp
  then show ?thesis by (subst compare_padded_step, subst compare_padded_step) (simp add: head0_def)
qed

lemma numbers_reading:
  assumes "\<not> starts_nondigit a" and "\<not> starts_nondigit b"
  shows "compare_padded (reading a) (reading b) = then_with (cmp (number 0 a) (number 0 b))
    (compare_padded (reading (after_number a)) (reading (after_number b)))"
proof -
  have b: "head0 (reading b) = 0" "head0 (tl (reading b)) = int (number 0 b)"
    "compare_padded xs (tl (tl (reading b))) = compare_padded xs (reading (after_number b))" for xs
    using assms(2) by (subst reading.simps; auto simp: head0_def after_number_def reading.simps [of "[]"])+
  show ?thesis
    by (simp only: number_reading [OF assms(1)] b) (simp add: cmp_def)
qed

definition swap :: "ordering \<Rightarrow> ordering" where
  "swap r = (case r of Less \<Rightarrow> Greater | Equal \<Rightarrow> Equal | Greater \<Rightarrow> Less)"

lemma cmp_swap: "cmp y x = swap (cmp x y)"
  by (auto simp: cmp_def swap_def)

lemma swap_then_with: "swap (then_with r s) = then_with (swap r) (swap s)"
  by (cases r) (simp_all add: swap_def)

lemma compare_padded_swap: "compare_padded ys xs = swap (compare_padded xs ys)"
proof (induction xs ys rule: compare_padded.induct)
  case (1 xs ys)
  show ?case
  proof (cases "xs = [] \<and> ys = []")
    case True
    then show ?thesis by (simp add: compare_padded.simps [of "[]"] swap_def)
  next
    case False
    from "1.IH" [OF this] show ?thesis
      by (subst (1 2) compare_padded_step) (simp add: swap_then_with cmp_swap [of "head0 ys"])
  qed
qed

lemma digit_run_from_zero:
  assumes "digit_run Equal (skip_zeros a1) (skip_zeros b1) = (fd, a2, b2)"
  shows "cmp (number 0 a1) (number 0 b1) =
      (if starts_digit a2 then Greater else if starts_digit b2 then Less else fd)"
    and "\<not> starts_digit a2 \<Longrightarrow> \<not> starts_digit b2 \<Longrightarrow> a2 = after_number a1 \<and> b2 = after_number b1"
proof -
  have "same_length 0 0 0 (skip_zeros a1) (skip_zeros b1)"
    using hd_dropWhile [of "\<lambda>c. c = CHR ''0''" a1] hd_dropWhile [of "\<lambda>c. c = CHR ''0''" b1]
    by (auto simp: same_length_def skip_zeros_def simp del: dropWhile_eq_Nil_conv)
  from digit_run_number [OF this] assms
  show "cmp (number 0 a1) (number 0 b1) =
      (if starts_digit a2 then Greater else if starts_digit b2 then Less else fd)"
    and "\<not> starts_digit a2 \<Longrightarrow> \<not> starts_digit b2 \<Longrightarrow> a2 = after_number a1 \<and> b2 = after_number b1"
    by (simp_all add: runs_as_def cmp_def [of "0::nat"] number_skip_zeros after_skip_zeros)
qed

text \<open>One version part compares with another as their readings do: run by run, characters by
  weight with \<open>~\<close> below the end of the part and letters below other characters, numbers by value
  whatever their leading zeros.\<close>

theorem compare_part_dpkg: "compare_part a b = compare_padded (reading a) (reading b)"
proof (induction a b rule: compare_part.induct)
  case (1 a b)
  show ?case
  proof (cases "a = [] \<and> b = []")
    case True
    then show ?thesis by (simp add: compare_part.simps [of "[]"] reading.simps [of "[]"] compare_padded.simps [of "[]"])
  next
    case ne: False
    show ?thesis
    proof (cases "nondigit_run a b")
      case (Inl r)
      with nondigit_run_reading [of a b] ne show ?thesis by (auto simp: compare_part.simps [of a b])
    next
      case (Inr ab)
      obtain a1 b1 where ab: "ab = (a1, b1)" by (cases ab)
      obtain fd a2 b2 where dr: "digit_run Equal (skip_zeros a1) (skip_zeros b1) = (fd, a2, b2)"
        by (cases "digit_run Equal (skip_zeros a1) (skip_zeros b1)")
      have nd: "\<not> starts_nondigit a1" "\<not> starts_nondigit b1"
        using nondigit_run_shrinks [of a b] Inr ab by auto
      have "compare_padded (reading a) (reading b) = compare_padded (reading a1) (reading b1)"
        using nondigit_run_reading [of a b] by (simp add: Inr ab)
      also have "\<dots> = then_with (cmp (number 0 a1) (number 0 b1))
          (compare_padded (reading (after_number a1)) (reading (after_number b1)))"
        by (rule numbers_reading [OF nd])
      finally have rhs: "compare_padded (reading a) (reading b) = then_with (cmp (number 0 a1) (number 0 b1))
          (compare_padded (reading (after_number a1)) (reading (after_number b1)))" .
      note run = digit_run_from_zero [OF dr]
      have lhs: "compare_part a b =
          (if starts_digit a2 then Greater else if starts_digit b2 then Less
           else if fd \<noteq> Equal then fd else compare_part a2 b2)"
        using ne by (auto simp: compare_part.simps [of a b] Inr ab dr)
      show ?thesis
      proof (cases "starts_digit a2 \<or> starts_digit b2 \<or> fd \<noteq> Equal")
        case True
        with lhs rhs run(1) show ?thesis by (cases fd) auto
      next
        case False
        with "1.IH" [OF ne Inr ab [symmetric] dr [symmetric]] lhs rhs run show ?thesis by auto
      qed
    qed
  qed
qed

section \<open>Comparisons\<close>

text \<open>What the scanners rely on when they pick the newer of two versions.\<close>

locale comparator =
  fixes compare :: "'a \<Rightarrow> 'a \<Rightarrow> ordering"
  assumes compare_swap: "compare y x = swap (compare x y)"
    and compare_trans: "compare x y \<noteq> Greater \<Longrightarrow> compare y z \<noteq> Greater \<Longrightarrow> compare x z \<noteq> Greater"
begin

lemma compare_refl: "compare x x = Equal"
  using compare_swap [of x x] by (cases "compare x x") (auto simp: swap_def)

lemma greater_swap: "compare x y = Greater \<longleftrightarrow> compare y x = Less"
  using compare_swap [of x y] by (auto simp: swap_def split: ordering.splits)

lemma equal_swap: "compare x y = Equal \<longleftrightarrow> compare y x = Equal"
  using compare_swap [of x y] by (auto simp: swap_def split: ordering.splits)

lemma equal_between:
  assumes "compare x y \<noteq> Greater" and "compare y z \<noteq> Greater" and "compare x z = Equal"
  shows "compare x y = Equal" and "compare y z = Equal"
proof -
  have "compare z x \<noteq> Greater" using assms(3) equal_swap [of x z] by simp
  with assms(1,2) have "compare y x \<noteq> Greater" and "compare z y \<noteq> Greater"
    using compare_trans by blast+
  with assms(1,2) greater_swap show "compare x y = Equal" and "compare y z = Equal"
    by (metis ordering.exhaust)+
qed

lemma chain:
  "compare x x = Equal \<and> compare y x = swap (compare x y)
   \<and> (compare x y \<noteq> Greater \<and> compare y z \<noteq> Greater \<longrightarrow>
       compare x z \<noteq> Greater \<and> (compare x z = Equal \<longleftrightarrow> compare x y = Equal \<and> compare y z = Equal))"
proof -
  have "compare x z = Equal" if "compare x y = Equal" "compare y z = Equal"
  proof -
    have "compare x z \<noteq> Greater" using that compare_trans [of x y z] by simp
    moreover have "compare z x \<noteq> Greater"
      using that equal_swap [of x y] equal_swap [of y z] compare_trans [of z y x] by simp
    ultimately show ?thesis using greater_swap [of z x] by (cases "compare x z") auto
  qed
  then show ?thesis
    using compare_refl compare_swap [of y x] compare_trans [of x y z] equal_between [of x y z] by blast
qed

end

lemma cmp_not_greater: "cmp x y \<noteq> Greater \<longleftrightarrow> x \<le> y"
  by (auto simp: cmp_def)

lemma then_with_not_greater:
  "then_with r s \<noteq> Greater \<longleftrightarrow> r = Less \<or> (r = Equal \<and> s \<noteq> Greater)"
  by (cases r) auto

interpretation int_order: comparator "cmp :: 'a::linorder \<Rightarrow> 'a \<Rightarrow> ordering"
  by unfold_locales (rule cmp_swap, auto simp: cmp_not_greater)

text \<open>Comparing first one way and then another.\<close>

lemma comparator_then:
  assumes f: "comparator f" and g: "comparator g"
  shows "comparator (\<lambda>x y. then_with (f (h x) (h y)) (g (k x) (k y)))"
proof
  show "then_with (f (h y) (h x)) (g (k y) (k x)) = swap (then_with (f (h x) (h y)) (g (k x) (k y)))" for x y
    using comparator.compare_swap [OF f, of "h y" "h x"] comparator.compare_swap [OF g, of "k y" "k x"]
    by (simp add: swap_then_with)
next
  fix x y z
  assume "then_with (f (h x) (h y)) (g (k x) (k y)) \<noteq> Greater"
    and "then_with (f (h y) (h z)) (g (k y) (k z)) \<noteq> Greater"
  then have fxy: "f (h x) (h y) \<noteq> Greater" "f (h y) (h z) \<noteq> Greater"
    and gxy: "f (h x) (h y) = Equal \<Longrightarrow> g (k x) (k y) \<noteq> Greater"
      "f (h y) (h z) = Equal \<Longrightarrow> g (k y) (k z) \<noteq> Greater"
    by (auto simp: then_with_not_greater)
  show "then_with (f (h x) (h z)) (g (k x) (k z)) \<noteq> Greater"
  proof (cases "f (h x) (h z) = Equal")
    case True
    with comparator.equal_between [OF f fxy] gxy comparator.compare_trans [OF g, of "k x" "k y" "k z"]
    show ?thesis by (simp add: then_with_not_greater)
  next
    case False
    with comparator.compare_trans [OF f fxy] show ?thesis
      by (cases "f (h x) (h z)") (auto simp: then_with_not_greater)
  qed
qed

lemma compare_padded_trans:
  "compare_padded xs ys \<noteq> Greater \<Longrightarrow> compare_padded ys zs \<noteq> Greater \<Longrightarrow> compare_padded xs zs \<noteq> Greater"
proof (induction xs ys arbitrary: zs rule: compare_padded.induct)
  case (1 xs ys)
  show ?case
  proof (cases "xs = [] \<and> ys = []")
    case True
    with "1.prems" show ?thesis by simp
  next
    case False
    have s: "compare_padded us vs \<noteq> Greater \<longleftrightarrow> head0 us < head0 vs
        \<or> (head0 us = head0 vs \<and> compare_padded (tl us) (tl vs) \<noteq> Greater)" for us vs
      by (subst compare_padded_step) (auto simp: then_with_not_greater cmp_def)
    from "1.prems" "1.IH" [OF False, of "tl zs"] show ?thesis
      unfolding s [of xs ys] s [of ys zs] s [of xs zs] by auto
  qed
qed

interpretation part_order: comparator compare_part
  by unfold_locales (unfold compare_part_dpkg, rule compare_padded_swap, rule compare_padded_trans)

lemma compare_versions_lex:
  "compare_debian_versions a b = then_with
     ((\<lambda>p q. then_with (cmp (fst p) (fst q)) (compare_part (fst (snd p)) (fst (snd q))))
        (split_version a) (split_version b))
     (compare_part (snd (snd (split_version a))) (snd (snd (split_version b))))"
  by (simp add: compare_debian_versions_def case_prod_beta)

lemma comparator_versions: "comparator compare_debian_versions"
proof -
  have "comparator (\<lambda>p q :: u64 \<times> string \<times> string. then_with (cmp (fst p) (fst q)) (compare_part (fst (snd p)) (fst (snd q))))"
    by (rule comparator_then [OF int_order.comparator_axioms part_order.comparator_axioms])
  from comparator_then [OF this part_order.comparator_axioms, where h = split_version
      and k = "\<lambda>v. snd (snd (split_version v))"]
  show ?thesis by (simp only: compare_versions_lex [symmetric])
qed

interpretation version_order: comparator compare_debian_versions
  by (rule comparator_versions)

text \<open>The comparison of Debian versions is a total preorder: every version equals itself, the two
  directions agree, and it is transitive, so that the newest of several versions does not depend on the
  order they are compared in.\<close>

theorem debian_versions_preorder:
  "compare_debian_versions x x = Equal \<and> compare_debian_versions y x = swap (compare_debian_versions x y)
   \<and> (compare_debian_versions x y \<noteq> Greater \<and> compare_debian_versions y z \<noteq> Greater \<longrightarrow>
       compare_debian_versions x z \<noteq> Greater
       \<and> (compare_debian_versions x z = Equal \<longleftrightarrow>
           compare_debian_versions x y = Equal \<and> compare_debian_versions y z = Equal))"
  by (rule version_order.chain)

theorem debian_versions_preorder_witness:
  "compare_debian_versions ''1.0~rc1-1'' ''1:0.9'' \<noteq> Greater"
proof -
  have "compare_debian_versions ''1.0~rc1-1'' ''1.0-1'' = Less"
    and "compare_debian_versions ''1.0-1'' ''1:0.9'' = Less"
    by code_simp+
  with debian_versions_preorder [of "''1.0~rc1-1''" "''1.0-1''" "''1:0.9''"] show ?thesis by simp
qed

end
