(* ===== verification/Quarantine.thy ===== *)
theory Quarantine imports Prelude begin

text \<open>
  Quarantine and restoration of files (\<open>quarantine_file\<close>, \<open>restore_quarantined_file\<close> in
  \<open>crates/agent-core/src/edr_actions.rs\<close>), on a Unix file system with symbolic links.

  A path text is read as Rust's \<open>Path\<close> reads it: components between slashes, empty ones and \<open>.\<close>
  dropped. The file system maps the canonical path of every entry but the root to what it is.
  It is one device, where \<open>rename\<close> follows POSIX; permissions are not modelled. The identifier of a
  quarantined file is fresh (a random UUID). The JSON text of a metadata file is a parameter
  (\<open>en_encode\<close>, \<open>en_decode\<close>): what serde_json writes and reads back of the original path.
\<close>

section \<open>Paths\<close>

datatype component = Normal string | ParentDir

record upath =
  absolute :: bool
  components :: "component list"

fun split_on :: "char \<Rightarrow> string \<Rightarrow> string list" where
  "split_on d [] = [[]]"
| "split_on d (c # cs) =
     (if c = d then [] # split_on d cs
      else case split_on d cs of w # ws \<Rightarrow> (c # w) # ws | [] \<Rightarrow> [[c]])"

definition parse_path :: "string \<Rightarrow> upath" where
  "parse_path s =
     \<lparr>absolute = prefix ''/'' s,
      components = map (\<lambda>w. if w = ''..'' then ParentDir else Normal w)
        (filter (\<lambda>w. w \<noteq> [] \<and> w \<noteq> ''.'') (split_on (CHR ''/'') s))\<rparr>"

definition file_name :: "upath \<Rightarrow> string option" where
  "file_name p =
     (if components p = [] then None
      else case last (components p) of Normal n \<Rightarrow> Some n | ParentDir \<Rightarrow> None)"

text \<open>A canonical path: the names below the root.\<close>

type_synonym cpath = "string list"

section \<open>File system\<close>

datatype node = File string | Dir | Symlink upath | Special

record file_system =
  fs_nodes :: "cpath \<Rightarrow> node option"
  fs_cwd :: cpath

definition node_at :: "file_system \<Rightarrow> cpath \<Rightarrow> node option" where
  "node_at fs p = (if p = [] then Some Dir else fs_nodes fs p)"

text \<open>Linux follows at most 40 links.\<close>

definition MAX_LINKS :: nat where "MAX_LINKS = 40"

function resolve :: "nat \<Rightarrow> file_system \<Rightarrow> cpath \<Rightarrow> component list \<Rightarrow> cpath option" where
  "resolve fuel fs cur [] = Some cur"
| "resolve fuel fs cur (ParentDir # cs) = resolve fuel fs (butlast cur) cs"
| "resolve fuel fs cur (Normal n # cs) =
     (case node_at fs (cur @ [n]) of
        None \<Rightarrow> None
      | Some Dir \<Rightarrow> resolve fuel fs (cur @ [n]) cs
      | Some (Symlink t) \<Rightarrow>
          if fuel = 0 then None
          else resolve (fuel - 1) fs (if absolute t then [] else cur) (components t @ cs)
      | Some _ \<Rightarrow> if cs = [] then Some (cur @ [n]) else None)"
  by pat_completeness auto
termination
  by (relation "measures [\<lambda>(fuel, _, _, _). fuel, \<lambda>(_, _, _, cs). length cs]") auto

definition canonicalize :: "file_system \<Rightarrow> upath \<Rightarrow> cpath option" where
  "canonicalize fs p = resolve MAX_LINKS fs (if absolute p then [] else fs_cwd fs) (components p)"

text \<open>The empty text names nothing.\<close>

definition canonicalize_text :: "file_system \<Rightarrow> string \<Rightarrow> cpath option" where
  "canonicalize_text fs s = (if s = [] then None else canonicalize fs (parse_path s))"

definition parent :: "upath \<Rightarrow> upath" where
  "parent p = p\<lparr>components := butlast (components p)\<rparr>"

definition join :: "upath \<Rightarrow> string \<Rightarrow> upath" where
  "join p name = (if name = [] then p else p\<lparr>components := components p @ [Normal name]\<rparr>)"

text \<open>The entry a path names, its last component not followed: its directory must exist.\<close>

definition entry :: "file_system \<Rightarrow> upath \<Rightarrow> cpath option" where
  "entry fs p =
     (case (file_name p, canonicalize fs (parent p)) of
        (Some n, Some d) \<Rightarrow> if node_at fs d = Some Dir then Some (d @ [n]) else None
      | _ \<Rightarrow> None)"

definition set_node :: "cpath \<Rightarrow> node option \<Rightarrow> file_system \<Rightarrow> file_system" where
  "set_node q n fs = fs\<lparr>fs_nodes := (fs_nodes fs)(q := n)\<rparr>"

text \<open>As the standard library makes directories: the parent when it is missing, then the directory;
  the flag says whether the directory is there at the end.\<close>

definition mkdir :: "upath \<Rightarrow> file_system \<Rightarrow> file_system \<times> bool" where
  "mkdir p fs =
     (case entry fs p of
        Some q \<Rightarrow> if node_at fs q = None then (set_node q (Some Dir) fs, True) else (fs, False)
      | None \<Rightarrow> (fs, False))"

function create_dir_all :: "upath \<Rightarrow> file_system \<Rightarrow> file_system \<times> bool" where
  "create_dir_all p fs =
     (if components p = [] then (fs, True)
      else case canonicalize fs p of
        Some q \<Rightarrow> (fs, node_at fs q = Some Dir)
      | None \<Rightarrow>
          if entry fs p \<noteq> None then mkdir p fs
          else (case create_dir_all (parent p) fs of
                  (fs1, True) \<Rightarrow> mkdir p fs1 | (fs1, False) \<Rightarrow> (fs1, False)))"
  by pat_completeness auto
termination
  by (relation "measure (\<lambda>(p, _). length (components p))") (auto simp: parent_def)

declare create_dir_all.simps [simp del]

definition write_file :: "upath \<Rightarrow> string \<Rightarrow> file_system \<Rightarrow> file_system option" where
  "write_file p text fs =
     (case entry fs p of
        None \<Rightarrow> None
      | Some q \<Rightarrow>
          (case node_at fs q of
             None \<Rightarrow> Some (set_node q (Some (File text)) fs)
           | Some (File _) \<Rightarrow> Some (set_node q (Some (File text)) fs)
           | _ \<Rightarrow> None))"

definition read_file :: "upath \<Rightarrow> file_system \<Rightarrow> string option" where
  "read_file p fs =
     (case canonicalize fs p of
        None \<Rightarrow> None
      | Some q \<Rightarrow> (case node_at fs q of Some (File text) \<Rightarrow> Some text | _ \<Rightarrow> None))"

definition remove_file :: "upath \<Rightarrow> file_system \<Rightarrow> file_system" where
  "remove_file p fs =
     (case entry fs p of
        None \<Rightarrow> fs
      | Some q \<Rightarrow> (case node_at fs q of None \<Rightarrow> fs | Some Dir \<Rightarrow> fs | Some _ \<Rightarrow> set_node q None fs))"

text \<open>
  \<open>rename\<close>: a directory takes what is below it along, and replaces only a missing entry (an
  empty directory would do too; it is refused here); anything else replaces anything but a directory.
\<close>

definition rename :: "cpath \<Rightarrow> upath \<Rightarrow> file_system \<Rightarrow> file_system option" where
  "rename src dst fs =
     (case (node_at fs src, entry fs dst) of
        (Some Dir, Some q) \<Rightarrow>
          if src = [] \<or> prefix src q \<or> node_at fs q \<noteq> None then None
          else Some (fs\<lparr>fs_nodes := (\<lambda>r. if prefix q r then fs_nodes fs (src @ drop (length q) r)
                                       else if prefix src r then None else fs_nodes fs r)\<rparr>)
      | (Some n, Some q) \<Rightarrow>
          if node_at fs q = Some Dir then None else Some (set_node q (Some n) (set_node src None fs))
      | _ \<Rightarrow> None)"

section \<open>Protected paths\<close>

text \<open>Where the agent lives (\<open>en_local_data_dir\<close> is the local data directory of the user, or the
  temporary one), and the texts of its metadata files.\<close>

record quarantine_env =
  en_data_dir :: string
  en_local_data_dir :: string
  en_config_path :: string
  en_exe :: "string option"
  en_log_dirs :: "string list"
  en_encode :: "string \<Rightarrow> string"
  en_decode :: "string \<Rightarrow> string option"

definition SYSTEM_CRITICAL_DIRS :: "string list" where
  "SYSTEM_CRITICAL_DIRS =
     [''/bin'', ''/sbin'', ''/usr/bin'', ''/usr/sbin'', ''/usr/lib'', ''/System'',
      ''/Library/LaunchDaemons'', ''/Library/LaunchAgents'', ''C:'' @ [CHR 0x5C] @ ''Windows'',
      ''C:'' @ [CHR 0x5C] @ ''Program Files'']"

definition quarantine_dir :: "quarantine_env \<Rightarrow> upath" where
  "quarantine_dir env = join (join (parse_path (en_local_data_dir env)) ''sentinel-grc'') ''quarantine''"

definition protected_path_candidates :: "quarantine_env \<Rightarrow> upath list" where
  "protected_path_candidates env =
     (let config = parse_path (en_config_path env) in
      [parse_path (en_data_dir env), quarantine_dir env]
      @ (if components config = [] then [] else [parent config])
      @ [config]
      @ (case en_exe env of Some exe \<Rightarrow> [parse_path exe] | None \<Rightarrow> [])
      @ map parse_path (en_log_dirs env)
      @ map parse_path SYSTEM_CRITICAL_DIRS)"

definition protected_paths :: "quarantine_env \<Rightarrow> file_system \<Rightarrow> cpath list" where
  "protected_paths env fs = List.map_filter (canonicalize fs) (protected_path_candidates env)"

definition is_protected_target :: "cpath \<Rightarrow> cpath list \<Rightarrow> bool" where
  "is_protected_target target protected \<longleftrightarrow>
     length target \<le> 1 \<or> list_ex (\<lambda>p. prefix p target \<or> prefix target p) protected"

definition resolve_restore_target :: "file_system \<Rightarrow> upath \<Rightarrow> cpath option" where
  "resolve_restore_target fs p =
     (case file_name p of
        None \<Rightarrow> None
      | Some name \<Rightarrow> map_option (\<lambda>d. d @ [name]) (canonicalize fs (parent p)))"

section \<open>Operations\<close>

datatype quarantine_error =
    FileNotFound string
  | ProtectedPath cpath
  | NotRegular cpath
  | CreateDirFailed
  | MetadataWriteFailed
  | MoveFailed
  | InvalidId
  | NotQuarantined string
  | MetadataUnreadable
  | MetadataInvalid
  | DestinationUnresolved string
  | ProtectedDestination string
  | RestoreFailed

definition quarantine_file ::
  "quarantine_env \<Rightarrow> string \<Rightarrow> string \<Rightarrow> file_system \<Rightarrow> file_system \<times> (quarantine_error + string)" where
  "quarantine_file env quarantine_id path fs =
     (case canonicalize_text fs path of
        None \<Rightarrow> (fs, Inl (FileNotFound path))
      | Some source \<Rightarrow>
          if is_protected_target source (protected_paths env fs) then (fs, Inl (ProtectedPath source))
          else (case node_at fs source of
            Some (File _) \<Rightarrow>
              (case create_dir_all (quarantine_dir env) fs of
                 (fs1, False) \<Rightarrow> (fs1, Inl CreateDirFailed)
               | (fs1, True) \<Rightarrow>
                   (case write_file (join (quarantine_dir env) (quarantine_id @ ''.meta''))
                           (en_encode env path) fs1 of
                      None \<Rightarrow> (fs1, Inl MetadataWriteFailed)
                    | Some fs2 \<Rightarrow>
                        (case rename source (join (quarantine_dir env) quarantine_id) fs2 of
                           None \<Rightarrow> (fs2, Inl MoveFailed)
                         | Some fs3 \<Rightarrow> (fs3, Inr quarantine_id))))
          | _ \<Rightarrow> (fs, Inl (NotRegular source))))"

definition restore_quarantined_file ::
  "quarantine_env \<Rightarrow> string \<Rightarrow> file_system \<Rightarrow> file_system \<times> (quarantine_error + unit)" where
  "restore_quarantined_file env quarantine_id fs =
     (let quarantined = join (quarantine_dir env) quarantine_id;
          metadata = join (quarantine_dir env) (quarantine_id @ ''.meta'') in
      if \<not> list_all (\<lambda>c. is_ascii_alphanumeric c \<or> c = CHR ''-'') quarantine_id then (fs, Inl InvalidId)
      else if canonicalize fs quarantined = None then (fs, Inl (NotQuarantined quarantine_id))
      else case read_file metadata fs of
        None \<Rightarrow> (fs, Inl MetadataUnreadable)
      | Some text \<Rightarrow>
          (case en_decode env text of
             None \<Rightarrow> (fs, Inl MetadataInvalid)
           | Some original_path \<Rightarrow>
               (case resolve_restore_target fs (parse_path original_path) of
                  None \<Rightarrow> (fs, Inl (DestinationUnresolved original_path))
                | Some target \<Rightarrow>
                    if is_protected_target target (protected_paths env fs)
                    then (fs, Inl (ProtectedDestination original_path))
                    else (case (case entry fs quarantined of
                                  Some src \<Rightarrow> rename src (parse_path original_path) fs | None \<Rightarrow> None) of
                            None \<Rightarrow> (fs, Inl RestoreFailed)
                          | Some fs1 \<Rightarrow> (remove_file metadata fs1, Inr ())))))"

section \<open>What a quarantine changes\<close>

text \<open>The file system only gained directories.\<close>

definition adds_dirs :: "file_system \<Rightarrow> file_system \<Rightarrow> bool" where
  "adds_dirs fs fs' \<longleftrightarrow> fs_cwd fs' = fs_cwd fs \<and>
     (\<forall>q. node_at fs' q = node_at fs q \<or> (node_at fs q = None \<and> node_at fs' q = Some Dir))"

lemma adds_dirs_refl [simp]: "adds_dirs fs fs"
  by (simp add: adds_dirs_def)

lemma adds_dirs_trans: "adds_dirs a b \<Longrightarrow> adds_dirs b c \<Longrightarrow> adds_dirs a c"
  unfolding adds_dirs_def by (metis option.distinct(1))

lemma adds_dirs_node: "adds_dirs fs fs' \<Longrightarrow> node_at fs q = Some n \<Longrightarrow> node_at fs' q = Some n"
  unfolding adds_dirs_def by (metis option.distinct(1))

lemma node_at_set [simp]:
  "q \<noteq> [] \<Longrightarrow> node_at (set_node q n fs) r = (if r = q then n else node_at fs r)"
  by (simp add: node_at_def set_node_def)

lemma fs_cwd_set [simp]: "fs_cwd (set_node q n fs) = fs_cwd fs"
  by (simp add: set_node_def)

lemma entry_Some:
  "entry fs p = Some q \<Longrightarrow> \<exists>d n. q = d @ [n] \<and> file_name p = Some n \<and> canonicalize fs (parent p) = Some d
     \<and> node_at fs d = Some Dir"
  by (auto simp: entry_def split: option.splits if_splits)

lemma mkdir_adds: "adds_dirs fs (fst (mkdir p fs))"
  by (auto simp: mkdir_def adds_dirs_def split: option.splits if_splits dest!: entry_Some)

lemma create_dir_all_adds: "adds_dirs fs (fst (create_dir_all p fs))"
proof (induction p fs rule: create_dir_all.induct)
  case (1 p fs)
  show ?case
  proof (cases "components p = [] \<or> canonicalize fs p \<noteq> None \<or> entry fs p \<noteq> None")
    case True
    then show ?thesis using mkdir_adds by (auto simp: create_dir_all.simps [of p fs] split: option.split)
  next
    case False
    then have "adds_dirs fs (fst (create_dir_all (parent p) fs))" using "1.IH" by auto
    with False adds_dirs_trans [OF _ mkdir_adds] show ?thesis
      by (auto simp: create_dir_all.simps [of p fs] split: prod.splits bool.splits)
  qed
qed

lemma file_name_join: "n \<noteq> [] \<Longrightarrow> file_name (join p n) = Some n \<and> parent (join p n) = p"
  by (simp add: join_def parent_def file_name_def)

lemma write_file_Some:
  assumes "write_file (join p n) text fs = Some fs'" and "n \<noteq> []"
  shows "\<exists>d. canonicalize fs p = Some d \<and> node_at fs d = Some Dir \<and> node_at fs (d @ [n]) \<noteq> Some Dir
    \<and> fs' = set_node (d @ [n]) (Some (File text)) fs"
proof -
  obtain q where "entry fs (join p n) = Some q" and fs': "fs' = set_node q (Some (File text)) fs"
      and "node_at fs q \<noteq> Some Dir"
    using assms(1) by (auto simp: write_file_def split: option.splits node.splits)
  with entry_Some [of fs "join p n" q] file_name_join [OF assms(2), of p] show ?thesis by auto
qed

text \<open>What resolves in a file system resolves to the same in one that has more entries.\<close>

definition extends :: "file_system \<Rightarrow> file_system \<Rightarrow> bool" where
  "extends fs fs' \<longleftrightarrow> fs_cwd fs' = fs_cwd fs \<and> (\<forall>q n. node_at fs q = Some n \<longrightarrow> node_at fs' q = Some n)"

lemma resolve_extends:
  "extends fs fs' \<Longrightarrow> resolve fuel fs cur cs = Some r \<Longrightarrow> resolve fuel fs' cur cs = Some r"
proof (induction fuel fs cur cs rule: resolve.induct)
  case (3 fuel fs cur n cs)
  from "3.prems" obtain m where m: "node_at fs (cur @ [n]) = Some m"
    by (auto split: option.splits)
  with "3.prems"(1) have m': "node_at fs' (cur @ [n]) = Some m" by (simp add: extends_def)
  from "3.prems" m m' "3.IH" [OF m] show ?case
    by (cases m) (auto split: if_splits)
qed simp_all

lemma canonicalize_extends: "extends fs fs' \<Longrightarrow> canonicalize fs p = Some r \<Longrightarrow> canonicalize fs' p = Some r"
  using resolve_extends by (auto simp: canonicalize_def extends_def)

lemma extends_set_new: "q \<noteq> [] \<Longrightarrow> node_at fs q = None \<Longrightarrow> extends fs (set_node q n fs)"
  by (auto simp: extends_def)

text \<open>An identifier no entry has been named with.\<close>

definition fresh_id :: "string \<Rightarrow> file_system \<Rightarrow> bool" where
  "fresh_id qid fs \<longleftrightarrow> qid \<noteq> [] \<and>
     (\<forall>q. q \<noteq> [] \<and> fs_nodes fs q \<noteq> None \<longrightarrow> last q \<noteq> qid \<and> last q \<noteq> qid @ ''.meta'')"

lemma fresh_node: "fresh_id qid fs \<Longrightarrow> node_at fs (d @ [qid]) = None \<and> node_at fs (d @ [qid @ ''.meta'']) = None"
  by (auto simp: fresh_id_def node_at_def)

lemma entry_join:
  "n \<noteq> [] \<Longrightarrow> entry fs (join p n) = Some q \<longleftrightarrow>
     (\<exists>d. canonicalize fs p = Some d \<and> node_at fs d = Some Dir \<and> q = d @ [n])"
  using file_name_join [of n p] by (auto simp: entry_def split: option.split)

lemma rename_file_Some:
  assumes "rename src (join p n) fs = Some fs'" and "n \<noteq> []" and "node_at fs src = Some (File c)"
  shows "\<exists>d. canonicalize fs p = Some d \<and> node_at fs d = Some Dir
    \<and> fs' = set_node (d @ [n]) (Some (File c)) (set_node src None fs)"
  using assms by (auto simp: rename_def entry_join split: option.splits if_splits node.splits)

text \<open>A quarantine that went through, step by step.\<close>

lemma quarantine_steps:
  assumes "quarantine_file env qid path fs = (fs', Inr r)" and "fresh_id qid fs"
  obtains source c fs1 d where "r = qid" and "canonicalize_text fs path = Some source"
    and "node_at fs source = Some (File c)" and "\<not> is_protected_target source (protected_paths env fs)"
    and "create_dir_all (quarantine_dir env) fs = (fs1, True)"
    and "canonicalize fs1 (quarantine_dir env) = Some d" and "node_at fs1 d = Some Dir"
    and "node_at fs1 (d @ [qid @ ''.meta'']) = None"
    and "fs' = set_node (d @ [qid]) (Some (File c)) (set_node source None
           (set_node (d @ [qid @ ''.meta'']) (Some (File (en_encode env path))) fs1))"
proof -
  obtain source where src: "canonicalize_text fs path = Some source"
      and prot: "\<not> is_protected_target source (protected_paths env fs)"
    using assms(1) by (auto simp: quarantine_file_def split: option.splits if_splits)
  obtain c where c: "node_at fs source = Some (File c)"
    using assms(1) src prot by (auto simp: quarantine_file_def split: option.splits node.splits)
  obtain fs1 where fs1: "create_dir_all (quarantine_dir env) fs = (fs1, True)"
    using assms(1) src prot c by (auto simp: quarantine_file_def split: prod.splits bool.splits)
  obtain fs2 where fs2: "write_file (join (quarantine_dir env) (qid @ ''.meta'')) (en_encode env path) fs1 = Some fs2"
      and ren: "rename source (join (quarantine_dir env) qid) fs2 = Some fs'" and r: "r = qid"
    using assms(1) src prot c fs1 by (auto simp: quarantine_file_def split: option.splits)
  obtain d where d: "canonicalize fs1 (quarantine_dir env) = Some d" "node_at fs1 d = Some Dir"
      and fs2_eq: "fs2 = set_node (d @ [qid @ ''.meta'']) (Some (File (en_encode env path))) fs1"
      and not_dir: "node_at fs1 (d @ [qid @ ''.meta'']) \<noteq> Some Dir"
    using write_file_Some [OF fs2] by auto
  have "node_at fs1 source = Some (File c)"
    using create_dir_all_adds [of fs "quarantine_dir env"] adds_dirs_node c fs1 by (metis fst_conv)
  moreover have "source \<noteq> d @ [qid @ ''.meta'']" using fresh_node [OF assms(2), of d] c by auto
  ultimately have "node_at fs2 source = Some (File c)" by (simp add: fs2_eq)
  from rename_file_Some [OF ren _ this] assms(2) obtain d' where d': "canonicalize fs2 (quarantine_dir env) = Some d'"
      and fs': "fs' = set_node (d' @ [qid]) (Some (File c)) (set_node source None fs2)"
    by (auto simp: fresh_id_def)
  have "adds_dirs fs fs1" using create_dir_all_adds [of fs "quarantine_dir env"] fs1 by simp
  then have "node_at fs1 (d @ [qid @ ''.meta'']) = node_at fs (d @ [qid @ ''.meta''])
      \<or> node_at fs1 (d @ [qid @ ''.meta'']) = Some Dir"
    unfolding adds_dirs_def by blast
  then have unused: "node_at fs1 (d @ [qid @ ''.meta'']) = None"
    using not_dir fresh_node [OF assms(2), of d] by simp
  have "extends fs1 fs2" unfolding fs2_eq by (rule extends_set_new [OF _ unused]) simp
  then have "canonicalize fs2 (quarantine_dir env) = Some d" using d(1) by (rule canonicalize_extends)
  with d' have "d' = d" by simp
  with that [OF r src c prot fs1 d unused] fs' fs2_eq show ?thesis by blast
qed

lemma quarantine_failure:
  assumes "quarantine_file env qid path fs = (fs', Inl e)" and "fresh_id qid fs"
    and "node_at fs q = Some n"
  shows "node_at fs' q = Some n"
proof -
  obtain fs1 ok where fs1: "create_dir_all (quarantine_dir env) fs = (fs1, ok)" by fastforce
  have n1: "node_at fs1 q = Some n"
    using create_dir_all_adds [of fs "quarantine_dir env"] adds_dirs_node assms(3) fs1 by (metis fst_conv)
  have "fs' = fs \<or> fs' = fs1 \<or> write_file (join (quarantine_dir env) (qid @ ''.meta'')) (en_encode env path) fs1 = Some fs'"
    using assms(1) fs1 by (auto simp: quarantine_file_def split: option.splits node.splits if_splits prod.splits bool.splits)
  then consider "fs' = fs" | "fs' = fs1"
    | "write_file (join (quarantine_dir env) (qid @ ''.meta'')) (en_encode env path) fs1 = Some fs'" by blast
  then show ?thesis
  proof cases
    case 3
    from write_file_Some [OF this] obtain d where "fs' = set_node (d @ [qid @ ''.meta'']) (Some (File (en_encode env path))) fs1"
      by auto
    moreover have "q \<noteq> d @ [qid @ ''.meta'']" using fresh_node [OF assms(2), of d] assms(3) by auto
    ultimately show ?thesis using n1 by simp
  qed (use assms(3) n1 in simp_all)
qed

text \<open>C10: A quarantine moves one regular file, which no path of the agent or of the system is, contains
  or is contained in, under the fresh identifier it returns, and records its path; nothing else changes
  but directories made for the store, so whatever is protected stays in place. One that fails takes
  nothing away.\<close>

theorem quarantine_file_guarded:
  assumes "fresh_id qid fs" and "quarantine_file env qid path fs = (fs', res)"
  shows "case res of
      Inr r \<Rightarrow> r = qid \<and> (\<exists>source c d. canonicalize_text fs path = Some source
        \<and> node_at fs source = Some (File c) \<and> 2 \<le> length source
        \<and> (\<forall>p\<in>set (protected_paths env fs). \<not> prefix p source \<and> \<not> prefix source p)
        \<and> node_at fs' source = None \<and> node_at fs' (d @ [qid]) = Some (File c)
        \<and> node_at fs' (d @ [qid @ ''.meta'']) = Some (File (en_encode env path))
        \<and> (\<forall>q. q \<noteq> source \<and> q \<noteq> d @ [qid] \<and> q \<noteq> d @ [qid @ ''.meta''] \<longrightarrow>
             node_at fs' q = node_at fs q \<or> (node_at fs q = None \<and> node_at fs' q = Some Dir))
        \<and> (\<forall>p\<in>set (protected_paths env fs). \<forall>q n. prefix p q \<and> node_at fs q = Some n \<longrightarrow> node_at fs' q = Some n))
    | Inl e \<Rightarrow> (\<forall>q n. node_at fs q = Some n \<longrightarrow> node_at fs' q = Some n)"
proof (cases res)
  case (Inl e)
  then show ?thesis using quarantine_failure [of env qid path fs fs' e] assms by simp
next
  case (Inr r)
  from quarantine_steps [OF assms(2) [unfolded Inr] assms(1)]
  obtain source c fs1 d where r: "r = qid" and src: "canonicalize_text fs path = Some source"
    and c: "node_at fs source = Some (File c)" and prot: "\<not> is_protected_target source (protected_paths env fs)"
    and fs1: "create_dir_all (quarantine_dir env) fs = (fs1, True)"
    and fs': "fs' = set_node (d @ [qid]) (Some (File c)) (set_node source None
           (set_node (d @ [qid @ ''.meta'']) (Some (File (en_encode env path))) fs1))"
    by metis
  have two: "2 \<le> length source" and free: "\<forall>p\<in>set (protected_paths env fs). \<not> prefix p source \<and> \<not> prefix source p"
    using prot by (auto simp: is_protected_target_def list_ex_iff)
  then have ne: "source \<noteq> []" by auto
  note fresh = fresh_node [OF assms(1), of d]
  have adds: "adds_dirs fs fs1" using create_dir_all_adds [of fs "quarantine_dir env"] fs1 by simp
  have node: "node_at fs' q = (if q = d @ [qid] then Some (File c) else if q = source then None
      else if q = d @ [qid @ ''.meta''] then Some (File (en_encode env path)) else node_at fs1 q)" for q
    using ne by (simp add: fs')
  have "source \<noteq> d @ [qid]" "source \<noteq> d @ [qid @ ''.meta'']" using fresh c by auto
  then have moved: "node_at fs' source = None" "node_at fs' (d @ [qid]) = Some (File c)"
      "node_at fs' (d @ [qid @ ''.meta'']) = Some (File (en_encode env path))"
    by (simp_all add: node)
  have rest: "node_at fs' q = node_at fs q \<or> (node_at fs q = None \<and> node_at fs' q = Some Dir)"
    if "q \<noteq> source" "q \<noteq> d @ [qid]" "q \<noteq> d @ [qid @ ''.meta'']" for q
    using that adds by (simp add: node adds_dirs_def)
  have safe: "node_at fs' q = Some n"
    if "p \<in> set (protected_paths env fs)" "prefix p q" "node_at fs q = Some n" for p q n
  proof -
    have "q \<noteq> source" using that(1,2) free by auto
    moreover have "q \<noteq> d @ [qid]" "q \<noteq> d @ [qid @ ''.meta'']" using fresh that(3) by auto
    ultimately show ?thesis using adds_dirs_node [OF adds that(3)] by (simp add: node)
  qed
  show ?thesis
    unfolding Inr sum.case using r src c two free moved rest safe
    by (intro conjI exI [of _ source] exI [of _ c] exI [of _ d]) auto
qed

section \<open>Restoring\<close>

lemma resolve_without:
  assumes "node_at fs source = Some (File c)" and "\<forall>q n. node_at fs q = Some n \<and> q \<noteq> source \<longrightarrow> node_at fs' q = Some n"
    and "resolve fuel fs cur cs = Some r" and "r \<noteq> source"
  shows "resolve fuel fs' cur cs = Some r"
  using assms
proof (induction fuel fs cur cs rule: resolve.induct)
  case (3 fuel fs cur n cs)
  obtain m where m: "node_at fs (cur @ [n]) = Some m"
    using "3.prems"(3) by (auto split: option.splits)
  show ?case
  proof (cases "cur @ [n] = source")
    case True
    then have "m = File c" using m "3.prems"(1) by simp
    with "3.prems"(3,4) m True show ?thesis by (auto split: if_splits)
  next
    case False
    with m "3.prems"(2) have m': "node_at fs' (cur @ [n]) = Some m" by blast
    from "3.prems" m m' "3.IH" [OF m] show ?thesis
      by (cases m) (auto split: if_splits)
  qed
qed simp_all

lemma resolve_back:
  assumes "\<forall>q. node_at fs' q = node_at fs q \<or> node_at fs' q = None \<or> (q \<in> X \<and> (\<exists>t. node_at fs' q = Some (File t)))"
    and "resolve fuel fs' cur cs = Some r"
  shows "resolve fuel fs cur cs = Some r \<or> r \<in> X"
  using assms
proof (induction fuel fs' cur cs rule: resolve.induct)
  case (3 fuel fs' cur n cs)
  obtain m where m: "node_at fs' (cur @ [n]) = Some m"
    using "3.prems"(2) by (auto split: option.splits)
  from "3.prems"(1) m consider "node_at fs (cur @ [n]) = Some m" | "cur @ [n] \<in> X" "\<exists>t. m = File t"
    by (metis option.distinct(1) option.inject)
  then show ?case
  proof cases
    case 1
    from "3.prems" m 1 "3.IH" [OF m] show ?thesis
      by (cases m) (auto split: if_splits)
  next
    case 2
    with "3.prems"(2) m show ?thesis by (auto split: if_splits)
  qed
qed simp_all

lemma resolve_into:
  assumes "resolve fuel fs cur cs = Some d" and "node_at fs d = Some Dir" and "node_at fs (d @ [n]) = Some (File t)"
  shows "resolve fuel fs cur (cs @ [Normal n]) = Some (d @ [n])"
  using assms
proof (induction fuel fs cur cs rule: resolve.induct)
  case (3 fuel fs cur m cs)
  obtain k where k: "node_at fs (cur @ [m]) = Some k"
    using "3.prems"(1) by (auto split: option.splits)
  from "3.prems" k "3.IH" [OF k] show ?case
    by (cases k) (auto split: if_splits)
qed simp_all

lemma canonicalize_into:
  "canonicalize fs p = Some d \<Longrightarrow> node_at fs d = Some Dir \<Longrightarrow> node_at fs (d @ [n]) = Some (File t) \<Longrightarrow> n \<noteq> []
   \<Longrightarrow> canonicalize fs (join p n) = Some (d @ [n])"
  by (auto simp: canonicalize_def join_def intro: resolve_into)

lemma file_system_eqI:
  "fs_cwd fs = fs_cwd fs' \<Longrightarrow> \<forall>q. q \<noteq> [] \<longrightarrow> node_at fs q = node_at fs' q \<Longrightarrow> fs_nodes fs [] = fs_nodes fs' [] \<Longrightarrow> fs = fs'"
proof (rule file_system.equality)
  assume a: "\<forall>q. q \<noteq> [] \<longrightarrow> node_at fs q = node_at fs' q" and b: "fs_nodes fs [] = fs_nodes fs' []"
  have "fs_nodes fs q = fs_nodes fs' q" for q
    using a b by (cases "q = []") (auto simp: node_at_def split: if_splits)
  then show "fs_nodes fs = fs_nodes fs'" by blast
qed simp_all

lemma quarantine_dir_components: "components (quarantine_dir env) \<noteq> []"
  by (simp add: quarantine_dir_def join_def)

lemma quarantine_into_existing:
  assumes "quarantine_file env qid path fs = (fs', Inr r)" and "fresh_id qid fs"
    and "canonicalize fs (quarantine_dir env) = Some d" and "node_at fs d = Some Dir"
  obtains source c where "canonicalize_text fs path = Some source" and "node_at fs source = Some (File c)"
    and "\<not> is_protected_target source (protected_paths env fs)"
    and "fs' = set_node (d @ [qid]) (Some (File c)) (set_node source None
           (set_node (d @ [qid @ ''.meta'']) (Some (File (en_encode env path))) fs))"
proof -
  have "create_dir_all (quarantine_dir env) fs = (fs, True)"
    using assms(3,4) quarantine_dir_components [of env]
    by (simp add: create_dir_all.simps [of "quarantine_dir env" fs])
  note existing = this
  show ?thesis
    by (rule quarantine_steps [OF assms(1,2)], rule that) (use existing assms(3) in auto)
qed

lemma quarantine_dir_protected:
  "canonicalize fs (quarantine_dir env) = Some d \<Longrightarrow> d \<in> set (protected_paths env fs)"
  by (force simp: protected_paths_def protected_path_candidates_def Let_def map_filter_def)

text \<open>After a quarantine into an existing store: what still resolves, and what is protected.\<close>

lemma after_quarantine:
  assumes f: "fresh_id qid fs" and d: "canonicalize fs (quarantine_dir env) = Some d" "node_at fs d = Some Dir"
    and c: "node_at fs source = Some (File c)" and prot: "\<not> is_protected_target source (protected_paths env fs)"
    and fs': "fs' = set_node (d @ [qid]) (Some (File c)) (set_node source None
           (set_node (d @ [qid @ ''.meta'']) (Some (File text)) fs))"
  shows "node_at fs' q = (if q = d @ [qid] then Some (File c) else if q = source then None
      else if q = d @ [qid @ ''.meta''] then Some (File text) else node_at fs q)"
    and "canonicalize fs p = Some r \<Longrightarrow> r \<noteq> source \<Longrightarrow> canonicalize fs' p = Some r"
    and "\<not> is_protected_target source (protected_paths env fs')"
proof -
  have two: "2 \<le> length source" and free: "\<forall>p\<in>set (protected_paths env fs). \<not> prefix p source \<and> \<not> prefix source p"
    using prot by (auto simp: is_protected_target_def list_ex_iff)
  then have ne: "source \<noteq> []" by auto
  note fresh = fresh_node [OF f, of d]
  have node: "node_at fs' q = (if q = d @ [qid] then Some (File c) else if q = source then None
      else if q = d @ [qid @ ''.meta''] then Some (File text) else node_at fs q)" for q
    using ne by (simp add: fs')
  have cwd: "fs_cwd fs' = fs_cwd fs" by (simp add: fs')
  show "node_at fs' q = (if q = d @ [qid] then Some (File c) else if q = source then None
      else if q = d @ [qid @ ''.meta''] then Some (File text) else node_at fs q)" by (rule node)
  have "\<forall>q n. node_at fs q = Some n \<and> q \<noteq> source \<longrightarrow> node_at fs' q = Some n"
    using fresh by (auto simp: node)
  from resolve_without [OF c this]
  show "canonicalize fs p = Some r \<Longrightarrow> r \<noteq> source \<Longrightarrow> canonicalize fs' p = Some r"
    unfolding canonicalize_def cwd by blast
  let ?X = "{d @ [qid], d @ [qid @ ''.meta'']}"
  have "\<forall>q. node_at fs' q = node_at fs q \<or> node_at fs' q = None \<or> (q \<in> ?X \<and> (\<exists>t. node_at fs' q = Some (File t)))"
    by (auto simp: node)
  from resolve_back [OF this]
  have before: "canonicalize fs p = Some r \<or> r \<in> ?X" if "canonicalize fs' p = Some r" for p r
    using that unfolding canonicalize_def cwd by blast
  have dfree: "\<not> prefix d source" "\<not> prefix source d"
    using free quarantine_dir_protected [OF d(1)] by blast+
  have "\<not> prefix p source \<and> \<not> prefix source p" if p: "p \<in> set (protected_paths env fs')" for p
  proof -
    obtain cand where cand: "cand \<in> set (protected_path_candidates env)" "canonicalize fs' cand = Some p"
      using p by (auto simp: protected_paths_def map_filter_def)
    from before [OF cand(2)] consider "canonicalize fs cand = Some p" | x where "p = d @ [x]" by auto
    then show ?thesis
    proof cases
      case 1
      then have "p \<in> set (protected_paths env fs)"
        using cand(1) by (force simp: protected_paths_def map_filter_def)
      then show ?thesis using free by blast
    next
      case 2
      have "\<not> prefix p source" using dfree(1) by (auto simp: 2 prefix_def)
      moreover have "\<not> prefix source p" using dfree by (auto simp: 2 prefix_snoc)
      ultimately show ?thesis by blast
    qed
  qed
  then show "\<not> is_protected_target source (protected_paths env fs')"
    using two by (auto simp: is_protected_target_def list_ex_iff)
qed

text \<open>C11: A file quarantined into an existing store, under a path whose last component is not a link,
  and then restored is back where it was, and the file system is what it was before.\<close>

theorem quarantine_restore_roundtrip:
  assumes "fresh_id qid fs" and "list_all (\<lambda>c. is_ascii_alphanumeric c \<or> c = CHR ''-'') qid"
    and "canonicalize fs (quarantine_dir env) = Some d" and "node_at fs d = Some Dir"
    and "en_decode env (en_encode env path) = Some path"
    and "entry fs (parse_path path) = canonicalize_text fs path"
    and "quarantine_file env qid path fs = (fs', Inr r)"
  shows "restore_quarantined_file env qid fs' = (fs, Inr ())"
proof -
  obtain source c where src: "canonicalize_text fs path = Some source" and c: "node_at fs source = Some (File c)"
    and prot: "\<not> is_protected_target source (protected_paths env fs)"
    and fs': "fs' = set_node (d @ [qid]) (Some (File c)) (set_node source None
           (set_node (d @ [qid @ ''.meta'']) (Some (File (en_encode env path))) fs))"
    using quarantine_into_existing [OF assms(7,1,3,4)] .
  note after = after_quarantine [OF assms(1,3,4) c prot fs']
  note fresh = fresh_node [OF assms(1), of d]
  have ne: "source \<noteq> []" using prot by (auto simp: is_protected_target_def)
  have qid: "qid \<noteq> []" using assms(1) by (simp add: fresh_id_def)
  have apart: "source \<noteq> d" "source \<noteq> d @ [qid]" "source \<noteq> d @ [qid @ ''.meta'']"
    using assms(4) c fresh by auto
  have store: "canonicalize fs' (quarantine_dir env) = Some d" "node_at fs' d = Some Dir"
    using after(2) [OF assms(3)] apart(1) assms(4) by (simp_all add: after(1))
  have "node_at fs' (d @ [qid]) = Some (File c)" and meta: "node_at fs' (d @ [qid @ ''.meta'']) = Some (File (en_encode env path))"
    using apart by (simp_all add: after(1))
  note there = canonicalize_into [OF store this(1) qid]
    and read = canonicalize_into [OF store meta]
  obtain pd n where e: "source = pd @ [n]" "file_name (parse_path path) = Some n"
      "canonicalize fs (parent (parse_path path)) = Some pd" "node_at fs pd = Some Dir"
    using entry_Some [of fs "parse_path path" source] assms(6) src by auto
  have "pd \<noteq> source" using e(1) by simp
  from after(2) [OF e(3) this] e(4) this fresh have pd: "canonicalize fs' (parent (parse_path path)) = Some pd"
      "node_at fs' pd = Some Dir"
    by (auto simp: after(1))
  have dest: "entry fs' (parse_path path) = Some source" "resolve_restore_target fs' (parse_path path) = Some source"
    using e pd by (simp_all add: entry_def resolve_restore_target_def)
  have moved_back: "rename (d @ [qid]) (parse_path path) fs'
      = Some (set_node source (Some (File c)) (set_node (d @ [qid]) None fs'))"
    using apart ne by (simp add: rename_def dest after(1))
  let ?fs1 = "set_node source (Some (File c)) (set_node (d @ [qid]) None fs')"
  have node1: "node_at ?fs1 q = (if q = d @ [qid @ ''.meta''] then Some (File (en_encode env path)) else node_at fs q)" for q
    using ne c fresh apart by (auto simp: after(1))
  have "fs_cwd ?fs1 = fs_cwd fs" by (simp add: fs')
  then have "extends fs ?fs1" using fresh by (auto simp: extends_def node1)
  from canonicalize_extends [OF this assms(3)] have "entry ?fs1 (join (quarantine_dir env) (qid @ ''.meta'')) = Some (d @ [qid @ ''.meta''])"
    using assms(4) node1 by (simp add: entry_join)
  then have "remove_file (join (quarantine_dir env) (qid @ ''.meta'')) ?fs1 = set_node (d @ [qid @ ''.meta'']) None ?fs1"
    by (simp add: remove_file_def node1)
  also have "\<dots> = fs"
  proof (rule file_system_eqI)
    show "\<forall>q. q \<noteq> [] \<longrightarrow> node_at (set_node (d @ [qid @ ''.meta'']) None ?fs1) q = node_at fs q"
      using fresh by (auto simp: node1 simp del: node_at_set simp: node_at_set [of "d @ [qid @ ''.meta'']"])
    show "fs_nodes (set_node (d @ [qid @ ''.meta'']) None ?fs1) [] = fs_nodes fs []"
      using ne by (simp add: fs' set_node_def)
  qed (simp add: fs')
  finally have clean: "remove_file (join (quarantine_dir env) (qid @ ''.meta'')) ?fs1 = fs" .
  have src_entry: "entry fs' (join (quarantine_dir env) qid) = Some (d @ [qid])"
    using store qid by (simp add: entry_join)
  show ?thesis
    using assms(2,5) there read meta dest after(3) moved_back clean src_entry
    by (simp add: restore_quarantined_file_def read_file_def)
qed

section \<open>A host\<close>

definition sample_nodes :: "(cpath \<times> node) list" where
  "sample_nodes =
     [([''home''], Dir), ([''home'', ''u''], Dir), ([''home'', ''u'', ''evil''], File ''x''),
      ([''tmp''], Dir), ([''tmp'', ''link''], Symlink (parse_path ''/home/u/evil'')),
      ([''var''], Dir), ([''var'', ''sentinel-grc''], Dir), ([''var'', ''sentinel-grc'', ''quarantine''], Dir)]"

definition sample_host :: file_system where
  "sample_host = \<lparr>fs_nodes = map_of sample_nodes, fs_cwd = []\<rparr>"

definition sample_env :: quarantine_env where
  "sample_env = \<lparr>en_data_dir = ''/var/lib'', en_local_data_dir = ''/var'', en_config_path = ''/etc/s/agent.json'',
     en_exe = None, en_log_dirs = [], en_encode = (\<lambda>p. p), en_decode = Some\<rparr>"

lemma sample_fresh: "fresh_id ''q-1'' sample_host"
  unfolding fresh_id_def
proof (intro conjI allI impI)
  fix q assume "q \<noteq> [] \<and> fs_nodes sample_host q \<noteq> None"
  then have "q \<in> fst ` set sample_nodes" by (auto simp: sample_host_def map_of_eq_None_iff)
  then show "last q \<noteq> ''q-1''" and "last q \<noteq> ''q-1'' @ ''.meta''"
    by (auto simp: sample_nodes_def)
qed simp

lemma sample_quarantined: "snd (quarantine_file sample_env ''q-1'' ''/home/u/evil'' sample_host) = Inr ''q-1''"
  by code_simp

theorem quarantine_file_guarded_witness:
  "node_at (fst (quarantine_file sample_env ''q-1'' ''/home/u/evil'' sample_host)) [''home'', ''u'', ''evil''] = None"
proof -
  have "canonicalize_text sample_host ''/home/u/evil'' = Some [''home'', ''u'', ''evil'']" by code_simp
  with quarantine_file_guarded [OF sample_fresh prod.collapse [symmetric], of sample_env "''/home/u/evil''"]
  show ?thesis unfolding sample_quarantined by auto
qed

theorem quarantine_restore_roundtrip_witness:
  "restore_quarantined_file sample_env ''q-1'' (fst (quarantine_file sample_env ''q-1'' ''/home/u/evil'' sample_host))
     = (sample_host, Inr ())"
proof (rule quarantine_restore_roundtrip [OF sample_fresh])
  show "list_all (\<lambda>c. is_ascii_alphanumeric c \<or> c = CHR ''-'') ''q-1''" by code_simp
  show "canonicalize sample_host (quarantine_dir sample_env) = Some [''var'', ''sentinel-grc'', ''quarantine'']" by code_simp
  show "node_at sample_host [''var'', ''sentinel-grc'', ''quarantine''] = Some Dir" by code_simp
  show "en_decode sample_env (en_encode sample_env ''/home/u/evil'') = Some ''/home/u/evil''"
    by (simp add: sample_env_def)
  show "entry sample_host (parse_path ''/home/u/evil'') = canonicalize_text sample_host ''/home/u/evil''" by code_simp
  show "quarantine_file sample_env ''q-1'' ''/home/u/evil'' sample_host
      = (fst (quarantine_file sample_env ''q-1'' ''/home/u/evil'' sample_host), Inr ''q-1'')"
    using sample_quarantined by (metis prod.collapse)
qed

text \<open>A file quarantined through a symbolic link is not restored to its place: the quarantine moves the
  file the link leads to, the restoration puts it where the link was, and the original stays missing.\<close>

theorem linked_file_restored_elsewhere:
  "let after = fst (quarantine_file sample_env ''q-1'' ''/tmp/link'' sample_host);
       (restored, result) = restore_quarantined_file sample_env ''q-1'' after
   in node_at sample_host [''home'', ''u'', ''evil''] = Some (File ''x'')
     \<and> node_at sample_host [''tmp'', ''link''] = Some (Symlink (parse_path ''/home/u/evil''))
     \<and> result = Inr () \<and> node_at restored [''home'', ''u'', ''evil''] = None
     \<and> node_at restored [''tmp'', ''link''] = Some (File ''x'')"
  by code_simp

end
