(* ===== verification/Process_Kill.thy ===== *)
theory Process_Kill imports Prelude begin

text \<open>
  Termination of a process by name and PID (\<open>kill_process\<close> and its guards in
  \<open>crates/agent-core/src/edr_actions.rs\<close>).

  The system is a parameter: \<open>names\<close> gives the names of the process that now has a PID, and \<open>runs\<close>
  what the kill command answers (\<open>None\<close> when it cannot be started). Unicode lower-casing is the
  parameter \<open>lower\<close>. The result carries the commands that were run.
\<close>

type_synonym command_line = "string \<times> string list"

datatype kill_error =
    ReservedPid nat
  | OwnProcess
  | NoName nat
  | NotRunning string nat
  | PidReused nat string string
  | CommandNotStarted
  | CommandFailed string

definition comparable_name :: "(string \<Rightarrow> string) \<Rightarrow> string \<Rightarrow> string" where
  "comparable_name lower name =
     (let n = lower (trim name) in
      if suffix ''.exe'' n then take (length n - 4) n else n)"

definition TRUNCATED_NAME_CHARS :: nat where "TRUNCATED_NAME_CHARS = 15"

definition same_name :: "string \<Rightarrow> string \<Rightarrow> bool" where
  "same_name expected name =
     (let (shorter, longer) = (if length name \<le> length expected then (name, expected) else (expected, name))
      in name = expected \<or> (TRUNCATED_NAME_CHARS \<le> char_count shorter \<and> prefix shorter longer))"

definition names_same_process :: "(string \<Rightarrow> string) \<Rightarrow> string \<Rightarrow> string list \<Rightarrow> bool" where
  "names_same_process lower expected actual =
     (let e = comparable_name lower expected in
      e \<noteq> [] \<and> list_ex (same_name e) (map (comparable_name lower) actual))"

definition confirm_process_identity ::
  "(string \<Rightarrow> string) \<Rightarrow> string \<Rightarrow> nat \<Rightarrow> string list option \<Rightarrow> kill_error option" where
  "confirm_process_identity lower process_name pid actual =
     (if trim process_name = [] then Some (NoName pid)
      else case actual of
        None \<Rightarrow> Some (NotRunning process_name pid)
      | Some names \<Rightarrow>
          if \<not> names_same_process lower process_name names
          then Some (PidReused pid process_name (case names of n # _ \<Rightarrow> n | [] \<Rightarrow> ''unknown''))
          else None)"

fun kill_command :: "platform_os \<Rightarrow> nat \<Rightarrow> command_line" where
  "kill_command Windows pid = (''taskkill'', [''/F'', ''/T'', ''/PID'', show_nat pid])"
| "kill_command _ pid = (''kill'', [''-9'', show_nat pid])"

definition kill_process ::
  "platform_os \<Rightarrow> (string \<Rightarrow> string) \<Rightarrow> (nat \<Rightarrow> string list option) \<Rightarrow> (command_line \<Rightarrow> (bool \<times> string) option)
   \<Rightarrow> nat \<Rightarrow> string \<Rightarrow> nat \<Rightarrow> command_line list \<times> (kill_error + unit)" where
  "kill_process os lower names runs my_pid process_name pid =
     (if pid = 0 \<or> pid = 1 then ([], Inl (ReservedPid pid))
      else if pid = my_pid then ([], Inl OwnProcess)
      else case confirm_process_identity lower process_name pid (names pid) of
        Some e \<Rightarrow> ([], Inl e)
      | None \<Rightarrow>
          (case runs (kill_command os pid) of
             None \<Rightarrow> ([kill_command os pid], Inl CommandNotStarted)
           | Some (success, stderr) \<Rightarrow>
               ([kill_command os pid], if success then Inr () else Inl (CommandFailed stderr))))"

text \<open>A kill command is run only for a PID that is neither reserved nor the agent's own and whose
  process now carries the name detected, up to case, white space, a \<open>.exe\<close> suffix and a cut to at least
  fifteen characters; it is then the one command, for that very PID, and the call succeeds exactly when
  the command does. In every other case nothing is run and an error is returned.\<close>

theorem kill_process_guarded:
  "kill_process os lower names runs my_pid process_name pid =
     (if 1 < pid \<and> pid \<noteq> my_pid \<and> trim process_name \<noteq> [] \<and> comparable_name lower process_name \<noteq> []
         \<and> (\<exists>actual n. names pid = Some actual \<and> n \<in> set actual \<and>
              (let e = comparable_name lower process_name; m = comparable_name lower n in
               m = e \<or> (prefix m e \<and> 15 \<le> char_count m) \<or> (prefix e m \<and> 15 \<le> char_count e)))
      then ([kill_command os pid],
            (case runs (kill_command os pid) of Some (True, _) \<Rightarrow> Inr ()
             | Some (False, stderr) \<Rightarrow> Inl (CommandFailed stderr) | None \<Rightarrow> Inl CommandNotStarted))
      else ([], Inl (if pid = 0 \<or> pid = 1 then ReservedPid pid else if pid = my_pid then OwnProcess
                     else if trim process_name = [] then NoName pid
                     else case names pid of None \<Rightarrow> NotRunning process_name pid
                       | Some actual \<Rightarrow> PidReused pid process_name
                           (case actual of n # _ \<Rightarrow> n | [] \<Rightarrow> ''unknown''))))"
proof -
  have same: "same_name e m \<longleftrightarrow> m = e \<or> (prefix m e \<and> 15 \<le> char_count m) \<or> (prefix e m \<and> 15 \<le> char_count e)" for e m
  proof -
    have "prefix e m \<Longrightarrow> length m \<le> length e \<Longrightarrow> m = e"
      by (auto simp: prefix_def)
    then show ?thesis
      by (auto simp: same_name_def Let_def TRUNCATED_NAME_CHARS_def dest: prefix_length_le)
  qed
  have m: "names_same_process lower process_name actual \<longleftrightarrow> comparable_name lower process_name \<noteq> [] \<and>
      (\<exists>n\<in>set actual. let e = comparable_name lower process_name; m = comparable_name lower n in
         m = e \<or> (prefix m e \<and> 15 \<le> char_count m) \<or> (prefix e m \<and> 15 \<le> char_count e))" for actual
    by (simp add: names_same_process_def Let_def list_ex_iff same)
  show ?thesis
    by (cases "pid = 0 \<or> pid = 1"; cases "pid = my_pid"; cases "names pid")
      (auto simp: kill_process_def confirm_process_identity_def m Let_def split: option.splits bool.splits)
qed

end
