(* ===== verification/Isolation_Rules.thy ===== *)
theory Isolation_Rules imports Ip_Block "HOL-Library.Product_Lexorder" begin

text \<open>
  The rules that cut the host off (\<open>crates/agent-core/src/host_isolation.rs\<close>): the pf rules, the
  iptables commands and the Windows Firewall commands, and the resolvers left reachable.

  \<open>text\<close> is the \<open>Display\<close> text of an address, \<open>parse\<close> its \<open>FromStr\<close>. The ranges of \<open>gaps\<close> are
  \<open>u128\<close> values; they never leave the width (\<open>end + 1\<close> is computed below the maximum and
  \<open>start - 1\<close> above a smaller cursor), so they are natural numbers.
\<close>

section \<open>pf\<close>

definition PF_ANCHOR :: string where "PF_ANCHOR = ''com.apple/sentinel-isolation''"

definition newline :: string where "newline = [CHR 0x0A]"

definition pf_rules :: "(ip_addr \<Rightarrow> string) \<Rightarrow> ip_addr list \<Rightarrow> ip_addr list \<Rightarrow> string" where
  "pf_rules text allowed dns_servers =
     ''# Sentinel GRC - host isolation. Managed by the agent, do not edit.'' @ newline @
     ''pass quick on lo0 all'' @ newline @
     ''pass out quick inet proto udp from any port 68 to 255.255.255.255 port 67 no state'' @ newline @
     ''pass in quick inet proto udp from any port 67 to any port 68 no state'' @ newline @
     concat (map (\<lambda>ip. ''pass out quick proto { tcp, udp } from any to '' @ text ip @ '' port 53 keep state'' @ newline)
       dns_servers) @
     (if list_ex is_ipv6 (allowed @ dns_servers) then ''pass quick inet6 proto icmp6 all'' @ newline else []) @
     concat (map (\<lambda>ip. ''pass out quick from any to '' @ text ip @ '' keep state'' @ newline) allowed) @
     ''block drop quick all'' @ newline"

definition token_of_line :: "string \<Rightarrow> string option" where
  "token_of_line line =
     (case split_once (CHR '':'') line of
        None \<Rightarrow> None
      | Some (label, value) \<Rightarrow>
          let v = trim value in
          if to_ascii_lowercase (trim label) = ''token'' \<and> v \<noteq> [] \<and> list_all is_ascii_digit v
          then Some v else None)"

fun find_map :: "('a \<Rightarrow> 'b option) \<Rightarrow> 'a list \<Rightarrow> 'b option" where
  "find_map f [] = None"
| "find_map f (x # xs) = (case f x of None \<Rightarrow> find_map f xs | Some y \<Rightarrow> Some y)"

definition pf_token :: "string \<Rightarrow> string option" where
  "pf_token output = find_map token_of_line (lines output)"

section \<open>iptables\<close>

definition IPTABLES_CHAIN_IN :: string where "IPTABLES_CHAIN_IN = ''SENTINEL_ISO_IN''"
definition IPTABLES_CHAIN_OUT :: string where "IPTABLES_CHAIN_OUT = ''SENTINEL_ISO_OUT''"

definition release_commands :: "string \<Rightarrow> command list" where
  "release_commands prog =
     map (\<lambda>a. \<lparr>program = prog, args = a\<rparr>)
       ([[''-D'', ''INPUT'', ''-j'', IPTABLES_CHAIN_IN],
         [''-D'', ''OUTPUT'', ''-j'', IPTABLES_CHAIN_OUT],
         [''-D'', ''FORWARD'', ''-j'', IPTABLES_CHAIN_OUT]] @
        concat (map (\<lambda>chain. [[''-F'', chain], [''-X'', chain]]) [IPTABLES_CHAIN_IN, IPTABLES_CHAIN_OUT]))"

definition iptables_release :: "command list" where
  "iptables_release = concat (map release_commands [''iptables'', ''ip6tables''])"

definition iptables_apply :: "(ip_addr \<Rightarrow> string) \<Rightarrow> ip_addr list \<Rightarrow> ip_addr list \<Rightarrow> bool \<Rightarrow> command list" where
  "iptables_apply text allowed dns_servers ipv6 =
     (let cmd = (\<lambda>a. \<lparr>program = (if ipv6 then ''ip6tables'' else ''iptables''), args = a\<rparr>);
          chain_in = IPTABLES_CHAIN_IN; chain_out = IPTABLES_CHAIN_OUT;
          in_family = (\<lambda>ip. is_ipv6 ip = ipv6);
          peers = remdups_adj (sort (filter in_family (allowed @ dns_servers)))
      in [cmd [''-N'', chain_in],
          cmd [''-N'', chain_out],
          cmd [''-A'', chain_in, ''-i'', ''lo'', ''-j'', ''ACCEPT''],
          cmd [''-A'', chain_out, ''-o'', ''lo'', ''-j'', ''ACCEPT'']] @
         (if ipv6
          then [cmd [''-A'', chain_in, ''-p'', ''ipv6-icmp'', ''-j'', ''ACCEPT''],
                cmd [''-A'', chain_out, ''-p'', ''ipv6-icmp'', ''-j'', ''ACCEPT'']]
          else [cmd [''-A'', chain_out, ''-p'', ''udp'', ''-d'', ''255.255.255.255'', ''--sport'', ''68'',
                     ''--dport'', ''67'', ''-j'', ''ACCEPT''],
                cmd [''-A'', chain_in, ''-p'', ''udp'', ''--sport'', ''67'', ''--dport'', ''68'', ''-j'', ''ACCEPT''],
                cmd [''-A'', chain_in, ''-p'', ''icmp'', ''-m'', ''conntrack'', ''--ctstate'', ''RELATED'',
                     ''-j'', ''ACCEPT'']]) @
         concat (map (\<lambda>ip. map (\<lambda>protocol. cmd [''-A'', chain_out, ''-p'', protocol, ''-d'', text ip,
                       ''--dport'', ''53'', ''-j'', ''ACCEPT'']) [''udp'', ''tcp''])
           (filter in_family dns_servers)) @
         map (\<lambda>ip. cmd [''-A'', chain_out, ''-d'', text ip, ''-j'', ''ACCEPT'']) (filter in_family allowed) @
         map (\<lambda>ip. cmd [''-A'', chain_in, ''-s'', text ip, ''-m'', ''conntrack'', ''--ctstate'', ''ESTABLISHED'',
                ''-j'', ''ACCEPT'']) peers @
         [cmd [''-A'', chain_in, ''-j'', ''DROP''],
          cmd [''-A'', chain_out, ''-j'', ''DROP''],
          cmd [''-I'', ''INPUT'', ''1'', ''-j'', chain_in],
          cmd [''-I'', ''OUTPUT'', ''1'', ''-j'', chain_out],
          cmd [''-I'', ''FORWARD'', ''1'', ''-j'', chain_out]])"

section \<open>Windows Firewall\<close>

definition NETSH_RULE_PREFIX :: string where "NETSH_RULE_PREFIX = ''SentinelIsolation_''"

definition NETSH_RULES :: "string list" where
  "NETSH_RULES = [''OutTCP'', ''OutUDP'', ''OutICMPv4'', ''OutDnsTCP'', ''OutDnsUDP'', ''OutDHCP'', ''InTCP'', ''InUDP'']"

text \<open>The loop of \<open>gaps\<close>; \<open>next\<close> is the first address not yet known to be allowed or blocked.\<close>

fun gaps_loop :: "nat \<Rightarrow> (nat \<times> nat) list \<Rightarrow> nat option \<Rightarrow> (nat \<times> nat) list" where
  "gaps_loop maximum [] nxt = (case nxt of Some cursor \<Rightarrow> [(cursor, maximum)] | None \<Rightarrow> [])"
| "gaps_loop maximum ((start, stop) # ranges) nxt =
     (case nxt of
        None \<Rightarrow> []
      | Some cursor \<Rightarrow>
          (if cursor < start then [(cursor, start - 1)] else []) @
          gaps_loop maximum ranges
            (if cursor \<le> stop then (if stop < maximum then Some (stop + 1) else None) else nxt))"

definition gaps :: "(nat \<times> nat) list \<Rightarrow> nat \<Rightarrow> (nat \<times> nat) list" where
  "gaps allowed maximum = gaps_loop maximum (sort allowed) (Some 0)"

text \<open>The ranges that stay open (\<open>keep\<close>), and the last address of the family.\<close>

definition kept_ranges :: "ip_addr list \<Rightarrow> bool \<Rightarrow> (nat \<times> nat) list" where
  "kept_ranges allowed ipv6 =
     (if ipv6
      then [(1, 1), (0xfe80 * 2 ^ 112, 0xfebf * 2 ^ 112 + (2 ^ 112 - 1)), (0xff00 * 2 ^ 112, 2 ^ 128 - 1)]
      else [(127 * 2 ^ 24, 127 * 2 ^ 24 + (2 ^ 24 - 1))]) @
     concat (map (\<lambda>ip. case ip of
        V4 v4 \<Rightarrow> if \<not> ipv6 then [(unat v4, unat v4)] else []
      | V6 v6 \<Rightarrow> if ipv6 then [(unat v6, unat v6)] else []) allowed)"

definition last_address :: "bool \<Rightarrow> nat" where
  "last_address ipv6 = (if ipv6 then 2 ^ 128 - 1 else 2 ^ 32 - 1)"

definition show_address :: "(ip_addr \<Rightarrow> string) \<Rightarrow> bool \<Rightarrow> nat \<Rightarrow> string" where
  "show_address text ipv6 value = (if ipv6 then text (V6 (of_nat value)) else text (V4 (of_nat (min value (2 ^ 32 - 1)))))"

definition show_range :: "(ip_addr \<Rightarrow> string) \<Rightarrow> bool \<Rightarrow> nat \<times> nat \<Rightarrow> string" where
  "show_range text ipv6 r =
     (case r of (start, stop) \<Rightarrow>
        if start = stop then show_address text ipv6 start
        else show_address text ipv6 start @ ''-'' @ show_address text ipv6 stop)"

definition netsh_blocked_addresses :: "(ip_addr \<Rightarrow> string) \<Rightarrow> ip_addr list \<Rightarrow> bool \<Rightarrow> string" where
  "netsh_blocked_addresses text allowed ipv6 =
     join_with '','' (map (show_range text ipv6) (gaps (kept_ranges allowed ipv6) (last_address ipv6)))"

definition netsh_rule_name :: "string \<Rightarrow> string" where
  "netsh_rule_name rule = ''name='' @ NETSH_RULE_PREFIX @ rule"

definition netsh_isolation_rule :: "string \<Rightarrow> string \<Rightarrow> string list \<Rightarrow> command" where
  "netsh_isolation_rule name dir extra =
     \<lparr>program = ''netsh'', args = [''advfirewall'', ''firewall'', ''add'', ''rule'', netsh_rule_name name,
        ''dir='' @ dir, ''action=block''] @ extra\<rparr>"

definition netsh_apply :: "(ip_addr \<Rightarrow> string) \<Rightarrow> ip_addr list \<Rightarrow> ip_addr list \<Rightarrow> command list" where
  "netsh_apply text allowed dns_servers =
     (let both_families = (\<lambda>keep. netsh_blocked_addresses text keep False @ '','' @ netsh_blocked_addresses text keep True);
          resolvers = filter (\<lambda>ip. ip \<notin> set allowed) dns_servers;
          keep = allowed @ resolvers;
          tcp_blocked = both_families keep;
          udp_blocked = both_families (keep @ [V4 (- 1)]);
          v4 = netsh_blocked_addresses text allowed False;
          all = both_families allowed
      in [netsh_isolation_rule ''OutTCP'' ''out'' [''protocol=TCP'', ''remoteip='' @ tcp_blocked],
          netsh_isolation_rule ''OutUDP'' ''out'' [''protocol=UDP'', ''remoteip='' @ udp_blocked],
          netsh_isolation_rule ''OutICMPv4'' ''out'' [''protocol=icmpv4'', ''remoteip='' @ v4]] @
         (if resolvers \<noteq> []
          then map (\<lambda>(name, protocol). netsh_isolation_rule name ''out''
                  [''protocol='' @ protocol, ''remoteport=1-52,54-65535'',
                   ''remoteip='' @ join_with '','' (map text resolvers)])
                [(''OutDnsTCP'', ''TCP''), (''OutDnsUDP'', ''UDP'')]
          else []) @
         [netsh_isolation_rule ''OutDHCP'' ''out''
            [''protocol=UDP'', ''remoteport=1-66,68-65535'', ''remoteip='' @ text (V4 (- 1))],
          netsh_isolation_rule ''InTCP'' ''in'' [''protocol=TCP'', ''remoteip='' @ all],
          netsh_isolation_rule ''InUDP'' ''in'' [''protocol=UDP'', ''localport=1-67,69-65535'', ''remoteip='' @ all]])"

definition netsh_release :: "command list" where
  "netsh_release =
     map (\<lambda>rule. \<lparr>program = ''netsh'', args = [''advfirewall'', ''firewall'', ''delete'', ''rule'', netsh_rule_name rule]\<rparr>)
       NETSH_RULES"

section \<open>Resolvers\<close>

definition resolver_address :: "(string \<Rightarrow> ip_addr option) \<Rightarrow> string \<Rightarrow> ip_addr option" where
  "resolver_address parse text = parse (trim (takeWhile (\<lambda>c. c \<noteq> CHR ''%'') text))"

definition nameserver_of_line :: "(string \<Rightarrow> ip_addr option) \<Rightarrow> string \<Rightarrow> ip_addr option" where
  "nameserver_of_line parse line =
     (case next_word line of
        None \<Rightarrow> None
      | Some (word, rest) \<Rightarrow>
          if word = ''nameserver''
          then (case next_word rest of None \<Rightarrow> None | Some (address, _) \<Rightarrow> resolver_address parse address)
          else None)"

definition resolv_conf_nameservers :: "(string \<Rightarrow> ip_addr option) \<Rightarrow> string \<Rightarrow> ip_addr list" where
  "resolv_conf_nameservers parse text = List.map_filter (nameserver_of_line parse) (lines text)"

definition scutil_nameservers :: "(string \<Rightarrow> ip_addr option) \<Rightarrow> string \<Rightarrow> ip_addr list" where
  "scutil_nameservers parse output =
     List.map_filter (\<lambda>line.
        case split_once (CHR '':'') line of
          None \<Rightarrow> None
        | Some (label, value) \<Rightarrow>
            if prefix ''nameserver['' (trim label) then resolver_address parse value else None)
       (lines output)"

text \<open>\<open>IpAddr::is_multicast\<close>: \<open>224.0.0.0/4\<close> and \<open>ff00::/8\<close>.\<close>

definition is_multicast :: "ip_addr \<Rightarrow> bool" where
  "is_multicast ip = (case ip of V4 w \<Rightarrow> drop_bit 28 w = 14 | V6 w \<Rightarrow> drop_bit 120 w = 0xff)"

definition needs_exception :: "ip_addr \<Rightarrow> bool" where
  "needs_exception ip \<longleftrightarrow>
     \<not> is_loopback ip \<and> \<not> is_unspecified ip \<and> \<not> is_multicast ip \<and>
     (case ip of V4 v4 \<Rightarrow> v4 \<noteq> - 1 | V6 v6 \<Rightarrow> and (drop_bit 112 v6) 0xffc0 \<noteq> 0xfec0)"

definition usable_resolvers :: "ip_addr list \<Rightarrow> ip_addr list" where
  "usable_resolvers found = remdups_adj (sort (filter needs_exception (map to_canonical found)))"

end
