(* ===== verification/Chain_Table.thy ===== *)
theory Chain_Table imports Isolation_Rules Iptables_Table begin

text \<open>
  What the isolation relies on of iptables and ip6tables. They are not under \<open>src/\<close>: the locale
  \<open>packet_filter\<close> states what their manual says of the commands the code issues, in terms of
  the chains of each program, and \<open>chain_verdict\<close> how the kernel decides about a packet by them.
  The locale is interpreted on a runner that keeps such chains.
\<close>

section \<open>Chains\<close>

type_synonym rule_spec = "string list"
type_synonym chain_table = "(string \<times> rule_spec list) list"

text \<open>Results of a command: \<^const>\<open>Inr\<close> what it printed, \<^const>\<open>Inl\<close> the text of its failure.\<close>

type_synonym 'w tool = "command \<Rightarrow> 'w \<Rightarrow> (string + string) \<times> 'w"

definition rule_target :: "rule_spec \<Rightarrow> string" where
  "rule_target r = (if r = [] then [] else last r)"

definition target_exists :: "chain_table \<Rightarrow> string \<Rightarrow> bool" where
  "target_exists t g \<longleftrightarrow> g \<in> {''ACCEPT'', ''DROP'', ''RETURN''} \<or> map_of t g \<noteq> None"

definition referenced :: "chain_table \<Rightarrow> string \<Rightarrow> bool" where
  "referenced t g \<longleftrightarrow> list_ex (\<lambda>(_, rules). list_ex (\<lambda>r. rule_target r = g) rules) t"

text \<open>The meaning of one command on the chains of its program; \<^const>\<open>None\<close> when it must fail.\<close>

definition chain_op :: "string list \<Rightarrow> chain_table \<Rightarrow> chain_table option" where
  "chain_op a t =
     (case a of opt # chain # rest \<Rightarrow>
        (case map_of t chain of
           None \<Rightarrow> if opt = ''-N'' then Some (AList.update chain [] t) else None
         | Some rules \<Rightarrow>
             if opt = ''-A'' then
               (if target_exists t (rule_target rest) then Some (AList.update chain (rules @ [rest]) t) else None)
             else if opt = ''-I'' then
               (if target_exists t (rule_target (tl rest)) then Some (AList.update chain (tl rest # rules) t) else None)
             else if opt = ''-D'' then
               (if rest \<in> set rules then Some (AList.update chain (remove1 rest rules) t) else None)
             else if opt = ''-F'' then Some (AList.update chain [] t)
             else if opt = ''-X'' then
               (if rules = [] \<and> \<not> referenced t chain then Some (AList.delete chain t) else None)
             else None)
      | _ \<Rightarrow> None)"

definition removes :: "string list \<Rightarrow> bool" where
  "removes a \<longleftrightarrow> (case a of opt # _ \<Rightarrow> opt \<in> {''-D'', ''-F'', ''-X''} | [] \<Rightarrow> False)"

definition is_filter_program :: "string \<Rightarrow> bool" where
  "is_filter_program p \<longleftrightarrow> p \<in> {''iptables'', ''ip6tables''}"

text \<open>
  A command that succeeds has its effect on the chains of its program and no other; one that fails
  changes nothing; and a removal fails only when there is nothing to remove. Additions may fail
  at any time.
\<close>

locale packet_filter =
  fixes run :: "'w tool"
    and table_of :: "'w \<Rightarrow> string \<Rightarrow> chain_table"
  assumes run_ok: "run \<lparr>program = p, args = a\<rparr> w = (Inr printed, w') \<Longrightarrow> is_filter_program p \<Longrightarrow>
      \<exists>t. chain_op a (table_of w p) = Some t \<and> table_of w' = (table_of w)(p := t)"
    and run_fails: "run \<lparr>program = p, args = a\<rparr> w = (Inl e, w') \<Longrightarrow> is_filter_program p \<Longrightarrow> table_of w' = table_of w"
    and run_removes: "removes a \<Longrightarrow> is_filter_program p \<Longrightarrow> chain_op a (table_of w p) = Some t \<Longrightarrow>
      \<exists>printed w'. run \<lparr>program = p, args = a\<rparr> w = (Inr printed, w')"
begin

text \<open>A removal, whether it succeeds or not, has its effect if it has one.\<close>

lemma removal_effect:
  assumes "removes a" and "is_filter_program p"
  shows "table_of (snd (run \<lparr>program = p, args = a\<rparr> w)) =
    (table_of w)(p := (case chain_op a (table_of w p) of None \<Rightarrow> table_of w p | Some t \<Rightarrow> t))"
proof -
  obtain r w' where r: "run \<lparr>program = p, args = a\<rparr> w = (r, w')" by force
  show ?thesis
  proof (cases r)
    case (Inl e)
    with r run_removes [OF assms] have "chain_op a (table_of w p) = None" by fastforce
    with r Inl run_fails [OF _ assms(2)] show ?thesis by simp
  next
    case (Inr printed)
    with r run_ok [OF _ assms(2)] show ?thesis by fastforce
  qed
qed

end

section \<open>Verdicts\<close>

record packet =
  pk_in :: string
  pk_out :: string
  pk_proto :: string
  pk_src :: ip_addr
  pk_dst :: ip_addr
  pk_sport :: nat
  pk_dport :: nat
  pk_state :: string

datatype verdict = Accept | Drop

text \<open>One option of a rule on a packet: interfaces, protocol, addresses, ports and the state
  conntrack gives it; \<open>-m\<close> only loads a module.\<close>

definition option_matches :: "(string \<Rightarrow> ip_addr option) \<Rightarrow> packet \<Rightarrow> string \<Rightarrow> string \<Rightarrow> bool" where
  "option_matches parse p opt v \<longleftrightarrow>
     (if opt = ''-i'' then pk_in p = v
      else if opt = ''-o'' then pk_out p = v
      else if opt = ''-p'' then pk_proto p = v
      else if opt = ''-s'' then parse v = Some (pk_src p)
      else if opt = ''-d'' then parse v = Some (pk_dst p)
      else if opt = ''--sport'' then parse_unsigned 65535 v = Some (pk_sport p)
      else if opt = ''--dport'' then parse_unsigned 65535 v = Some (pk_dport p)
      else if opt = ''--ctstate'' then pk_state p = v
      else opt = ''-m'')"

fun rule_matches :: "(string \<Rightarrow> ip_addr option) \<Rightarrow> packet \<Rightarrow> rule_spec \<Rightarrow> bool" where
  "rule_matches parse p (opt # v # rest) \<longleftrightarrow>
     opt = ''-j'' \<or> (option_matches parse p opt v \<and> rule_matches parse p rest)"
| "rule_matches parse p _ \<longleftrightarrow> False"

text \<open>A packet goes through the rules in order until one decides; a chain that decides nothing
  returns to the rule after the jump. \<open>depth\<close> bounds the jumps.\<close>

fun chain_verdict :: "(string \<Rightarrow> ip_addr option) \<Rightarrow> chain_table \<Rightarrow> packet \<Rightarrow> nat \<Rightarrow> rule_spec list \<Rightarrow> verdict option" where
  "chain_verdict parse t p depth [] = None"
| "chain_verdict parse t p depth (r # rules) =
     (if \<not> rule_matches parse p r then chain_verdict parse t p depth rules
      else if rule_target r = ''ACCEPT'' then Some Accept
      else if rule_target r = ''DROP'' then Some Drop
      else
        (case (case depth of 0 \<Rightarrow> None
               | Suc d \<Rightarrow> (case map_of t (rule_target r) of None \<Rightarrow> None
                          | Some inner \<Rightarrow> chain_verdict parse t p d inner)) of
           None \<Rightarrow> chain_verdict parse t p depth rules
         | Some v \<Rightarrow> Some v))"

section \<open>A runner with chains\<close>

type_synonym chain_world = "string \<Rightarrow> chain_table"

definition chain_run :: "chain_world tool" where
  "chain_run c w =
     (case chain_op (args c) (w (program c)) of
        None \<Rightarrow> (Inl (program c @ '' failed''), w)
      | Some t \<Rightarrow> (Inr [], w(program c := t)))"

interpretation linux: packet_filter chain_run "\<lambda>w. w"
proof unfold_locales
  fix p a printed e t and w w' :: chain_world
  show "\<exists>t. chain_op a (w p) = Some t \<and> w' = w(p := t)"
    if "chain_run \<lparr>program = p, args = a\<rparr> w = (Inr printed, w')"
    using that by (auto simp: chain_run_def split: option.splits)
  show "w' = w" if "chain_run \<lparr>program = p, args = a\<rparr> w = (Inl e, w')"
    using that by (auto simp: chain_run_def split: option.splits)
  show "\<exists>printed w'. chain_run \<lparr>program = p, args = a\<rparr> w = (Inr printed, w')"
    if "chain_op a (w p) = Some t"
    using that by (auto simp: chain_run_def)
qed

end
