(* ===== verification/Host_Isolation.thy ===== *)
theory Host_Isolation imports Chain_Table begin

text \<open>
  Isolation of the host (\<open>isolate_host\<close>, \<open>release_host\<close> and the reconciliation at start-up in
  \<open>crates/agent-core/src/host_isolation.rs\<close>).

  The state is the firewall, the record on disk, the flag in memory, the sleeping release tasks and
  the clock. The tools are the parameter \<open>ie_run\<close>; what the host answers during a call (privileges,
  configuration, name resolution, files, failures of the disk) is an \<open>iso_view\<close>. Parsing of URLs
  is the parameter \<open>ie_url\<close>: host and port of a URL. A write of the record that fails is taken to
  leave the record as it was.
\<close>

section \<open>State\<close>

record isolation_state =
  iso_isolated_at :: i64
  iso_release_at :: "i64 option"
  iso_reason :: string
  iso_allowed :: "ip_addr list"
  iso_dns_servers :: "ip_addr list option"
  iso_pf_token :: "string option"

record iso_config =
  ic_standalone :: bool
  ic_server_url :: string

record 'w iso_env =
  ie_os :: platform_os
  ie_run :: "'w tool"
  ie_write_pf :: "string \<Rightarrow> 'w \<Rightarrow> string option \<times> 'w"
  ie_remove_pf :: "'w \<Rightarrow> 'w"
  ie_pf_file :: string
  ie_text :: "ip_addr \<Rightarrow> string"
  ie_parse :: "string \<Rightarrow> ip_addr option"
  ie_url :: "string \<Rightarrow> (string option \<times> nat option) option"

record iso_view =
  iv_admin :: bool
  iv_config :: "string + iso_config"
  iv_lookup :: "string \<Rightarrow> nat \<Rightarrow> string + ip_addr list"
  iv_file :: "string \<Rightarrow> string option"
  iv_ipv6 :: bool
  iv_store :: "string option"
  iv_remove :: "string option"

record 'w iso_host =
  hi_fw :: 'w
  hi_record :: "isolation_state option"
  hi_isolated :: bool
  hi_timers :: "int list"
  hi_now :: i64

definition MAX_REASON_CHARS :: nat where "MAX_REASON_CHARS = 300"

section \<open>The platform and the resolvers\<close>

definition trim_brackets :: "string \<Rightarrow> string" where
  "trim_brackets s =
     (let d = dropWhile (\<lambda>c. c = CHR ''['' \<or> c = CHR '']'') in rev (d (rev (d s))))"

definition platform_endpoint :: "'w iso_env \<Rightarrow> string \<Rightarrow> (string \<times> nat) option" where
  "platform_endpoint env server_url =
     (case ie_url env server_url of
        Some (Some host, port) \<Rightarrow> Some (trim_brackets host, (case port of Some n \<Rightarrow> n | None \<Rightarrow> 443))
      | _ \<Rightarrow> None)"

definition control_channel_addresses :: "'w iso_env \<Rightarrow> iso_view \<Rightarrow> iso_config \<Rightarrow> string + ip_addr list" where
  "control_channel_addresses env view config =
     (if ic_standalone config then Inr []
      else case platform_endpoint env (ic_server_url config) of
        None \<Rightarrow> Inl ''Isolation refused: the platform address is not configured''
      | Some (host, port) \<Rightarrow>
          (case ie_parse env host of
             Some ip \<Rightarrow> Inr [ip]
           | None \<Rightarrow>
               (case iv_lookup view host port of
                  Inl e \<Rightarrow> Inl (''Isolation refused: the platform address ('' @ host @ '') cannot be resolved ('' @ e
                             @ ''), so the endpoint could not be released remotely'')
                | Inr found \<Rightarrow>
                    let addresses = remdups_adj (sort found) in
                    if addresses = []
                    then Inl (''Isolation refused: the platform address ('' @ host @ '') resolves to nothing'')
                    else Inr addresses)))"

definition WINDOWS_DNS_SERVERS :: string where
  "WINDOWS_DNS_SERVERS = ''$up = @(Get-NetIPInterface -ConnectionState Connected).InterfaceIndex; '' @
     ''Get-DnsClientServerAddress | Where-Object { $up -contains $_.InterfaceIndex } | '' @
     ''ForEach-Object { $_.ServerAddresses }''"

definition system_resolvers :: "'w iso_env \<Rightarrow> iso_view \<Rightarrow> 'w \<Rightarrow> ip_addr list \<times> 'w" where
  "system_resolvers env view w =
     (case ie_os env of
        MacOs \<Rightarrow>
          (case ie_run env \<lparr>program = ''scutil'', args = [''--dns'']\<rparr> w of
             (Inr printed, w') \<Rightarrow> (usable_resolvers (scutil_nameservers (ie_parse env) printed), w')
           | (Inl _, w') \<Rightarrow> (usable_resolvers [], w'))
      | Windows \<Rightarrow>
          (case ie_run env \<lparr>program = ''powershell'',
                 args = [''-NoProfile'', ''-NonInteractive'', ''-Command'', WINDOWS_DNS_SERVERS]\<rparr> w of
             (Inr printed, w') \<Rightarrow>
               (usable_resolvers (List.map_filter (resolver_address (ie_parse env)) (lines printed)), w')
           | (Inl _, w') \<Rightarrow> (usable_resolvers [], w'))
      | Linux \<Rightarrow>
          (usable_resolvers (concat (map (\<lambda>path. case iv_file view path of
              Some text \<Rightarrow> resolv_conf_nameservers (ie_parse env) text | None \<Rightarrow> [])
             [''/etc/resolv.conf'', ''/run/systemd/resolve/resolv.conf''])), w))"

section \<open>Running the commands\<close>

definition run_all_best_effort :: "'w tool \<Rightarrow> command list \<Rightarrow> 'w \<Rightarrow> 'w" where
  "run_all_best_effort run commands w = fold (\<lambda>c w. snd (run c w)) commands w"

text \<open>\<^const>\<open>None\<close> is \<open>Ok(())\<close>.\<close>

fun run_all_or_rollback :: "'w tool \<Rightarrow> command list \<Rightarrow> command list \<Rightarrow> 'w \<Rightarrow> string option \<times> 'w" where
  "run_all_or_rollback run [] rollback w = (None, w)"
| "run_all_or_rollback run (c # cs) rollback w =
     (case run c w of
        (Inl e, w') \<Rightarrow> (Some e, run_all_best_effort run rollback w')
      | (Inr _, w') \<Rightarrow> run_all_or_rollback run cs rollback w')"

definition profiles_off_command :: command where
  "profiles_off_command =
     \<lparr>program = ''powershell'', args = [''-NoProfile'', ''-NonInteractive'', ''-Command'',
        ''@(Get-NetFirewallProfile | Where-Object { -not $_.Enabled }).Count'']\<rparr>"

definition pfctl :: "string list \<Rightarrow> command" where
  "pfctl a = \<lparr>program = ''pfctl'', args = a\<rparr>"

definition apply_rules ::
  "'w iso_env \<Rightarrow> iso_view \<Rightarrow> ip_addr list \<Rightarrow> ip_addr list \<Rightarrow> 'w \<Rightarrow> (string + string option) \<times> 'w" where
  "apply_rules env view allowed dns_servers w =
     (let run = ie_run env in
      case ie_os env of
        MacOs \<Rightarrow>
          (case ie_write_pf env (pf_rules (ie_text env) allowed dns_servers) w of
             (Some e, w1) \<Rightarrow> (Inl e, w1)
           | (None, w1) \<Rightarrow>
               (case run (pfctl [''-a'', PF_ANCHOR, ''-f'', ie_pf_file env]) w1 of
                  (Inl e, w2) \<Rightarrow> (Inl e, w2)
                | (Inr _, w2) \<Rightarrow>
                    (case run (pfctl [''-E'']) w2 of
                       (Inl e, w3) \<Rightarrow>
                         (Inl e, run_all_best_effort run [pfctl [''-a'', PF_ANCHOR, ''-F'', ''all'']] w3)
                     | (Inr printed, w3) \<Rightarrow>
                         (Inr (pf_token printed), run_all_best_effort run [pfctl [''-F'', ''states'']] w3))))
      | Windows \<Rightarrow>
          (case run profiles_off_command w of
             (Inl e, w1) \<Rightarrow> (Inl e, w1)
           | (Inr profiles_off, w1) \<Rightarrow>
               if trim profiles_off \<noteq> ''0''
               then (Inl (''Windows Firewall is turned off for at least one profile: the isolation '' @
                          ''could not be enforced''), w1)
               else
                 (case run_all_or_rollback run (netsh_apply (ie_text env) allowed dns_servers) netsh_release
                         (run_all_best_effort run netsh_release w1) of
                    (Some e, w2) \<Rightarrow> (Inl e, w2)
                  | (None, w2) \<Rightarrow> (Inr None, w2)))
      | Linux \<Rightarrow>
          (case run_all_or_rollback run (iptables_apply (ie_text env) allowed dns_servers False) iptables_release
                  (run_all_best_effort run iptables_release w) of
             (Some e, w1) \<Rightarrow> (Inl e, w1)
           | (None, w1) \<Rightarrow>
               if iv_ipv6 view
               then (case run_all_or_rollback run (iptables_apply (ie_text env) allowed dns_servers True)
                            iptables_release w1 of
                       (Some e, w2) \<Rightarrow> (Inl e, w2)
                     | (None, w2) \<Rightarrow> (Inr None, w2))
               else (Inr None, w1)))"

definition remove_isolation_rules :: "'w iso_env \<Rightarrow> string option \<Rightarrow> 'w \<Rightarrow> 'w" where
  "remove_isolation_rules env token w =
     (case ie_os env of
        MacOs \<Rightarrow>
          ie_remove_pf env
            (run_all_best_effort (ie_run env)
               (pfctl [''-a'', PF_ANCHOR, ''-F'', ''all''] #
                (case token of Some t \<Rightarrow> [pfctl [''-X'', t]] | None \<Rightarrow> [])) w)
      | Windows \<Rightarrow> run_all_best_effort (ie_run env) netsh_release w
      | Linux \<Rightarrow> run_all_best_effort (ie_run env) iptables_release w)"

section \<open>Isolating and releasing\<close>

definition release_host ::
  "'w iso_env \<Rightarrow> ('w iso_host \<Rightarrow> (string + unit) \<times> 'w iso_host) \<Rightarrow> iso_view \<Rightarrow> 'w iso_host \<Rightarrow>
     (string + unit) \<times> 'w iso_host" where
  "release_host env delegate view st =
     (if \<not> iv_admin view then delegate st
      else
        let st1 = st\<lparr>hi_fw := remove_isolation_rules env (Option.bind (hi_record st) iso_pf_token) (hi_fw st),
                     hi_isolated := False\<rparr> in
        case iv_remove view of
          None \<Rightarrow> (Inr (), st1\<lparr>hi_record := None\<rparr>)
        | Some e \<Rightarrow> (Inl (''Isolation rules removed, but its record could not be deleted ('' @ e @ '')''), st1))"

definition schedule_release :: "nat \<Rightarrow> 'w iso_host \<Rightarrow> 'w iso_host" where
  "schedule_release after_secs st = st\<lparr>hi_timers := hi_timers st @ [hi_now st + int after_secs]\<rparr>"

text \<open>A sleeping task wakes: it releases only an isolation that is due by now.\<close>

definition release_due :: "'w iso_host \<Rightarrow> bool" where
  "release_due st \<longleftrightarrow>
     (case Option.bind (hi_record st) iso_release_at of Some release_at \<Rightarrow> release_at \<le> hi_now st | None \<Rightarrow> False)"

definition fire_release ::
  "'w iso_env \<Rightarrow> ('w iso_host \<Rightarrow> (string + unit) \<times> 'w iso_host) \<Rightarrow> iso_view \<Rightarrow> nat \<Rightarrow> 'w iso_host \<Rightarrow>
     'w iso_host option" where
  "fire_release env delegate view i st =
     (if i < length (hi_timers st) \<and> hi_timers st ! i \<le> hi_now st
      then (let st1 = st\<lparr>hi_timers := take i (hi_timers st) @ drop (Suc i) (hi_timers st)\<rparr>
            in Some (if release_due st1 then snd (release_host env delegate view st1) else st1))
      else None)"

definition isolation_end :: "i64 \<Rightarrow> nat \<Rightarrow> i64 option" where
  "isolation_end now duration_secs =
     (if 0 < duration_secs
      then Some (min (now + (if int duration_secs \<le> i64_max then int duration_secs else i64_max)) i64_max)
      else None)"

definition isolate_host ::
  "'w iso_env \<Rightarrow> (string \<Rightarrow> nat \<Rightarrow> 'w iso_host \<Rightarrow> (string + isolation_state option) \<times> 'w iso_host) \<Rightarrow> iso_view \<Rightarrow>
     string \<Rightarrow> nat \<Rightarrow> 'w iso_host \<Rightarrow> (string + isolation_state) \<times> 'w iso_host" where
  "isolate_host env delegate view reason duration_secs st =
     (if \<not> iv_admin view then
        (case delegate reason duration_secs st of
           (Inl e, st') \<Rightarrow> (Inl e, st')
         | (Inr None, st') \<Rightarrow> (Inl ''The service returned no isolation state'', st')
         | (Inr (Some s), st') \<Rightarrow> (Inr s, st'))
      else case iv_config view of
        Inl e \<Rightarrow> (Inl (''Isolation refused: '' @ e), st)
      | Inr config \<Rightarrow>
          (case control_channel_addresses env view config of
             Inl e \<Rightarrow> (Inl e, st)
           | Inr allowed \<Rightarrow>
               (case system_resolvers env view (hi_fw st) of
                  (dns_servers, w1) \<Rightarrow>
                    (case apply_rules env view allowed dns_servers w1 of
                       (Inl e, w2) \<Rightarrow> (Inl (''Host isolation failed: '' @ e), st\<lparr>hi_fw := w2\<rparr>)
                     | (Inr token, w2) \<Rightarrow>
                         (let state = \<lparr>iso_isolated_at = hi_now st,
                                iso_release_at = isolation_end (hi_now st) duration_secs,
                                iso_reason = take_chars MAX_REASON_CHARS reason,
                                iso_allowed = allowed, iso_dns_servers = Some dns_servers, iso_pf_token = token\<rparr>
                          in case iv_store view of
                               Some e \<Rightarrow>
                                 (Inl (''Host isolation cancelled: its state could not be recorded ('' @ e @ '')''),
                                  st\<lparr>hi_fw := remove_isolation_rules env token w2\<rparr>)
                             | None \<Rightarrow>
                                 (let st1 = st\<lparr>hi_fw := w2, hi_record := Some state, hi_isolated := True\<rparr>
                                  in (Inr state, if 0 < duration_secs then schedule_release duration_secs st1 else st1)))))))"

section \<open>Start-up\<close>

datatype reconcile = Release | Reapply "nat option"

definition reconcile_action :: "isolation_state \<Rightarrow> i64 \<Rightarrow> reconcile" where
  "reconcile_action state now =
     (case iso_release_at state of
        Some release_at \<Rightarrow>
          if release_at \<le> now then Release else Reapply (Some (nat (min (release_at - now) i64_max)))
      | None \<Rightarrow> Reapply None)"

definition reconcile_host_isolation ::
  "'w iso_env \<Rightarrow> ('w iso_host \<Rightarrow> (string + unit) \<times> 'w iso_host) \<Rightarrow> iso_view \<Rightarrow> 'w iso_host \<Rightarrow> 'w iso_host" where
  "reconcile_host_isolation env delegate view st =
     (case hi_record st of
        None \<Rightarrow> st
      | Some state \<Rightarrow>
          (case reconcile_action state (hi_now st) of
             Release \<Rightarrow> snd (release_host env delegate view st)
           | Reapply remaining_secs \<Rightarrow>
               (let (dns_servers, w1) = (case iso_dns_servers state of
                       Some servers \<Rightarrow> (servers, hi_fw st)
                     | None \<Rightarrow> system_resolvers env view (hi_fw st));
                    st1 = (case apply_rules env view (iso_allowed state) dns_servers w1 of
                       (Inr token, w2) \<Rightarrow>
                         st\<lparr>hi_fw := w2, hi_isolated := True,
                            hi_record := (if iv_store view = None
                              then Some (state\<lparr>iso_pf_token := token, iso_dns_servers := Some dns_servers\<rparr>)
                              else hi_record st)\<rparr>
                     | (Inl _, w2) \<Rightarrow> st\<lparr>hi_fw := w2\<rparr>)
                in case remaining_secs of Some remaining \<Rightarrow> schedule_release remaining st1 | None \<Rightarrow> st1)))"

text \<open>A restart of the agent loses the flag and the sleeping tasks, then reconciles. A reboot of the
  host also loses the rules: \<open>fw\<close> is the firewall the host boots with.\<close>

definition restart_agent ::
  "'w iso_env \<Rightarrow> ('w iso_host \<Rightarrow> (string + unit) \<times> 'w iso_host) \<Rightarrow> iso_view \<Rightarrow> 'w \<Rightarrow> 'w iso_host \<Rightarrow> 'w iso_host" where
  "restart_agent env delegate view fw st =
     reconcile_host_isolation env delegate view (st\<lparr>hi_fw := fw, hi_isolated := False, hi_timers := []\<rparr>)"

section \<open>The service, step by step\<close>

text \<open>The service runs as root on Linux; \<open>boot\<close> tells which firewalls a reboot may leave.\<close>

inductive iso_step :: "'w iso_env \<Rightarrow> ('w \<Rightarrow> bool) \<Rightarrow> 'w iso_host \<Rightarrow> 'w iso_host \<Rightarrow> bool"
  for env :: "'w iso_env" and boot :: "'w \<Rightarrow> bool" where
  tick: "hi_now st \<le> t \<Longrightarrow> in_i64 t \<Longrightarrow> iso_step env boot st (st\<lparr>hi_now := t\<rparr>)"
| isolate: "iv_admin view \<Longrightarrow> isolate_host env dh view reason secs st = (r, st') \<Longrightarrow> iso_step env boot st st'"
| release: "iv_admin view \<Longrightarrow> release_host env dr view st = (u, st') \<Longrightarrow> iso_step env boot st st'"
| fire: "iv_admin view \<Longrightarrow> fire_release env dr view i st = Some st' \<Longrightarrow> iso_step env boot st st'"
| restart: "iv_admin view \<Longrightarrow> iso_step env boot st (restart_agent env dr view (hi_fw st) st)"
| reboot: "iv_admin view \<Longrightarrow> boot fw \<Longrightarrow> iso_step env boot st (restart_agent env dr view fw st)"

inductive iso_reachable :: "'w iso_env \<Rightarrow> ('w \<Rightarrow> bool) \<Rightarrow> 'w iso_host \<Rightarrow> 'w iso_host \<Rightarrow> bool"
  for env :: "'w iso_env" and boot :: "'w \<Rightarrow> bool" and st0 :: "'w iso_host" where
  start: "iso_reachable env boot st0 st0"
| step: "iso_reachable env boot st0 st \<Longrightarrow> iso_step env boot st st' \<Longrightarrow> iso_reachable env boot st0 st'"

end
