(* ===== verification/Isolation_Verdicts.thy ===== *)
theory Isolation_Verdicts imports Host_Isolation begin

text \<open>
  What the iptables commands of an isolation do to the chains: applied to chains without a trace of an
  isolation they give \<open>isolated_table\<close>; interrupted anywhere, what they left is taken away by the release
  commands, which give back the chains as they were.
\<close>

section \<open>Chains with the isolation in place\<close>

abbreviation "chain_in \<equiv> IPTABLES_CHAIN_IN"
abbreviation "chain_out \<equiv> IPTABLES_CHAIN_OUT"

definition built_in_chains :: "string list" where
  "built_in_chains = [''INPUT'', ''OUTPUT'', ''FORWARD'']"

text \<open>No trace of the isolation, and the three chains of the filter table.\<close>

definition clean :: "chain_table \<Rightarrow> bool" where
  "clean t \<longleftrightarrow> distinct (map fst t) \<and> set built_in_chains \<subseteq> fst ` set t \<and>
     (\<forall>c\<in>{chain_in, chain_out}. c \<notin> fst ` set t \<and> \<not> referenced t c)"

definition hook_of :: "string \<Rightarrow> rule_spec" where
  "hook_of chain = [''-j'', if chain = ''INPUT'' then chain_in else chain_out]"

definition hooked :: "string set \<Rightarrow> chain_table \<Rightarrow> chain_table" where
  "hooked hs t = map (\<lambda>(c, rules). (c, if c \<in> hs then hook_of c # rules else rules)) t"

lemma hooked_empty [simp]: "hooked {} t = t"
  by (induction t) (auto simp: hooked_def)

lemma hooked_keys [simp]: "map fst (hooked hs t) = map fst t" "fst ` set (hooked hs t) = fst ` set t"
  by (auto simp: hooked_def case_prod_beta image_image)

lemma map_of_hooked:
  "map_of (hooked hs t) c = map_option (\<lambda>rules. if c \<in> hs then hook_of c # rules else rules) (map_of t c)"
  by (induction t) (auto simp: hooked_def)

lemma update_present:
  "distinct (map fst t) \<Longrightarrow> k \<in> fst ` set t \<Longrightarrow>
    AList.update k v t = map (\<lambda>(k', v'). (k', if k' = k then v else v')) t"
proof (induction t)
  case (Cons e t)
  obtain k' v' where e: "e = (k', v')" by force
  have "map (\<lambda>(k', v'). (k', if k' = k then v else v')) t = t" if "k \<notin> fst ` set t"
    using that by (induction t) auto
  with Cons show ?case by (auto simp: e)
qed simp

lemma update_append_left: "k \<in> fst ` set t \<Longrightarrow> AList.update k v (t @ e) = AList.update k v t @ e"
  by (induction t) auto

lemma update_append_right: "k \<notin> fst ` set t \<Longrightarrow> AList.update k v (t @ e) = t @ AList.update k v e"
  by (induction t) auto

lemma map_of_append_absent: "k \<notin> fst ` set t \<Longrightarrow> map_of (t @ e) k = map_of e k"
  by (auto simp: map_add_def map_of_eq_None_iff [THEN iffD2] split: option.split)

lemma delete_append: "AList.delete k (t @ e) = AList.delete k t @ AList.delete k e"
  by (simp add: AList.delete_eq)

lemma delete_absent: "k \<notin> fst ` set t \<Longrightarrow> AList.delete k t = t"
  by (induction t) (auto simp: AList.delete_eq)

text \<open>Hooking and unhooking one chain.\<close>

lemma update_hooked:
  assumes "distinct (map fst t)" and "map_of t c = Some rules"
  shows "AList.update c (if b then hook_of c # rules else rules) (hooked hs t) =
    hooked (if b then insert c hs else hs - {c}) t"
proof -
  have c: "c \<in> fst ` set t" using assms(2) by (metis domI dom_map_of_conv_image_fst)
  have eq: "r = rules" if "(c, r) \<in> set t" for r
    using assms that by (metis map_of_eq_Some_iff option.inject)
  show ?thesis
    using assms(1) c by (simp add: update_present) (auto simp: hooked_def dest!: eq)
qed

definition removal :: "string list \<Rightarrow> chain_table \<Rightarrow> chain_table" where
  "removal a t = (case chain_op a t of None \<Rightarrow> t | Some t' \<Rightarrow> t')"

definition release_table :: "chain_table \<Rightarrow> chain_table" where
  "release_table t = fold removal (map args (release_commands [])) t"

lemma clean_built_in: "clean t \<Longrightarrow> c \<in> set built_in_chains \<Longrightarrow> \<exists>rules. map_of t c = Some rules"
  unfolding clean_def by (metis map_of_eq_None_iff not_Some_eq subset_iff)

lemma clean_no_hook:
  assumes "clean t" and "map_of t c = Some rules"
  shows "hook_of c' \<notin> set rules"
proof
  assume "hook_of c' \<in> set rules"
  moreover have "(c, rules) \<in> set t" using assms(2) by (rule map_of_SomeD)
  moreover have "rule_target (hook_of c') \<in> {chain_in, chain_out}" by (simp add: hook_of_def rule_target_def)
  ultimately have "referenced t (rule_target (hook_of c'))"
    by (auto simp: referenced_def list_ex_iff intro!: bexI [of _ "(c, rules)"])
  with assms(1) \<open>rule_target (hook_of c') \<in> {chain_in, chain_out}\<close> show False by (auto simp: clean_def)
qed

lemma unhook:
  assumes "clean t" and "c \<in> set built_in_chains"
  shows "removal (''-D'' # c # hook_of c) (hooked hs t @ extra) = hooked (hs - {c}) t @ extra"
proof -
  obtain rules where r: "map_of t c = Some rules" using clean_built_in [OF assms] by blast
  have c: "c \<in> fst ` set (hooked hs t)" using r by (metis domI dom_map_of_conv_image_fst hooked_keys(2))
  have m: "map_of (hooked hs t @ extra) c = Some (if c \<in> hs then hook_of c # rules else rules)"
    using r by (simp add: map_of_hooked map_add_def split: option.split)
  have d: "distinct (map fst t)" using assms(1) by (simp add: clean_def)
  show ?thesis
  proof (cases "c \<in> hs")
    case True
    then show ?thesis
      using m c update_hooked [OF d r, of False hs]
      by (simp add: removal_def chain_op_def update_append_left)
  next
    case False
    with m clean_no_hook [OF assms(1) r] show ?thesis by (simp add: removal_def chain_op_def)
  qed
qed

text \<open>The chains of an isolation under way: none, the inbound one, or both, without jumps to them.\<close>

definition no_jumps :: "rule_spec list \<Rightarrow> bool" where
  "no_jumps rules \<longleftrightarrow> list_all (\<lambda>r. rule_target r \<in> {''ACCEPT'', ''DROP''}) rules"

inductive under_way :: "chain_table \<Rightarrow> bool" where
  none: "under_way []"
| inbound: "no_jumps ri \<Longrightarrow> under_way [(chain_in, ri)]"
| both: "no_jumps ri \<Longrightarrow> no_jumps ro \<Longrightarrow> under_way [(chain_in, ri), (chain_out, ro)]"

lemma chain_names [simp]:
  "chain_in \<noteq> chain_out" "chain_out \<noteq> chain_in"
  by (simp_all add: IPTABLES_CHAIN_IN_def IPTABLES_CHAIN_OUT_def)

lemma referenced_append: "referenced (t @ e) c \<longleftrightarrow> referenced t c \<or> referenced e c"
  by (auto simp: referenced_def)

lemma no_jumps_target: "no_jumps rules \<Longrightarrow> c \<in> {chain_in, chain_out} \<Longrightarrow>
    \<not> list_ex (\<lambda>r. rule_target r = c) rules"
  by (auto simp: no_jumps_def list_all_iff list_ex_iff IPTABLES_CHAIN_IN_def IPTABLES_CHAIN_OUT_def)

lemma clean_fresh: "clean t \<Longrightarrow> c \<in> {chain_in, chain_out} \<Longrightarrow> c \<notin> fst ` set t \<and> \<not> referenced t c"
  unfolding clean_def by blast

lemma removal_simps:
  "map_of t c = Some rules \<Longrightarrow> removal [''-F'', c] t = AList.update c [] t"
  "map_of t c = Some [] \<Longrightarrow> \<not> referenced t c \<Longrightarrow> removal [''-X'', c] t = AList.delete c t"
  "map_of t c = None \<Longrightarrow> opt \<noteq> ''-N'' \<Longrightarrow> removal (opt # c # rest) t = t"
  by (simp_all add: removal_def chain_op_def)

lemma delete_chain:
  assumes "clean t" and "c \<in> {chain_in, chain_out}" and "c \<notin> fst ` set e1" and "c \<notin> fst ` set e2"
    and "\<not> referenced e1 c" and "\<not> referenced e2 c"
  shows "removal [''-X'', c] (removal [''-F'', c] (t @ e1 @ (c, rules) # e2)) = t @ e1 @ e2"
proof -
  have t: "c \<notin> fst ` set t" "\<not> referenced t c" using clean_fresh [OF assms(1,2)] by simp_all
  have m: "map_of (t @ e1 @ (c, r) # e2) c = Some r" for r
    using t(1) assms(3) by (simp add: map_of_append_absent del: map_of_append)
  have "removal [''-F'', c] (t @ e1 @ (c, rules) # e2) = t @ e1 @ (c, []) # e2"
    using t(1) assms(3) by (simp add: removal_simps(1) [OF m] update_append_right)
  moreover have "\<not> referenced (t @ e1 @ (c, []) # e2) c"
    using t(2) assms(5,6) by (simp add: referenced_append) (simp add: referenced_def)
  ultimately show ?thesis
    using t(1) assms(3,4) by (simp add: removal_simps(2) [OF m] delete_append delete_absent AList.delete_eq)
      (simp add: delete_absent flip: AList.delete_eq)
qed

lemma delete_no_chain:
  assumes "clean t" and "c \<in> {chain_in, chain_out}" and "c \<notin> fst ` set e"
  shows "removal [''-X'', c] (removal [''-F'', c] (t @ e)) = t @ e"
proof -
  have "map_of (t @ e) c = None" using clean_fresh [OF assms(1,2)] assms(3)
    by (simp add: map_of_eq_None_iff image_Un)
  then show ?thesis by (simp add: removal_simps(3))
qed

lemma release_restores:
  assumes "clean t" and "under_way extra" and "hs \<subseteq> set built_in_chains"
  shows "release_table (hooked hs t @ extra) = t"
proof -
  have rel: "release_table x =
      removal [''-X'', chain_out] (removal [''-F'', chain_out] (removal [''-X'', chain_in] (removal [''-F'', chain_in]
       (removal (''-D'' # ''FORWARD'' # hook_of ''FORWARD'') (removal (''-D'' # ''OUTPUT'' # hook_of ''OUTPUT'')
         (removal (''-D'' # ''INPUT'' # hook_of ''INPUT'') x))))))" for x
    by (simp add: release_table_def release_commands_def hook_of_def)
  have hs: "hs - {''INPUT''} - {''OUTPUT''} - {''FORWARD''} = {}"
    using assms(3) by (auto simp: built_in_chains_def)
  have u: "removal (''-D'' # ''FORWARD'' # hook_of ''FORWARD'') (removal (''-D'' # ''OUTPUT'' # hook_of ''OUTPUT'')
         (removal (''-D'' # ''INPUT'' # hook_of ''INPUT'') (hooked hs t @ extra))) = t @ extra"
    using assms(1) by (simp add: unhook built_in_chains_def hs)
  have "removal [''-X'', chain_out] (removal [''-F'', chain_out] (removal [''-X'', chain_in] (removal [''-F'', chain_in]
      (t @ extra)))) = t"
    using assms(2)
  proof cases
    case none
    then show ?thesis
      using delete_no_chain [OF assms(1), of chain_in "[]"] delete_no_chain [OF assms(1), of chain_out "[]"] by simp
  next
    case (inbound ri)
    then show ?thesis
      using delete_chain [OF assms(1), of chain_in "[]" "[]" ri] delete_no_chain [OF assms(1), of chain_out "[]"]
      by (simp add: referenced_def)
  next
    case (both ri ro)
    then show ?thesis
      using delete_chain [OF assms(1), of chain_in "[]" "[(chain_out, ro)]" ri]
        delete_chain [OF assms(1), of chain_out "[]" "[]" ro] no_jumps_target [of ro chain_in]
      by (simp add: referenced_def)
  qed
  then show ?thesis unfolding rel u .
qed

section \<open>Applying the rules\<close>

fun chain_ops :: "string list list \<Rightarrow> chain_table \<Rightarrow> chain_table option" where
  "chain_ops [] t = Some t"
| "chain_ops (a # rest) t = Option.bind (chain_op a t) (chain_ops rest)"

lemma chain_ops_append: "chain_ops (xs @ ys) t = Option.bind (chain_ops xs t) (chain_ops ys)"
  by (induction xs arbitrary: t) (auto split: Option.bind_split)

definition add_args :: "string \<times> rule_spec \<Rightarrow> string list" where
  "add_args r = ''-A'' # fst r # snd r"

definition added :: "string \<Rightarrow> (string \<times> rule_spec) list \<Rightarrow> rule_spec list" where
  "added c rs = map snd (filter (\<lambda>r. fst r = c) rs)"

definition proper_additions :: "(string \<times> rule_spec) list \<Rightarrow> bool" where
  "proper_additions rs \<longleftrightarrow> list_all (\<lambda>(c, r). c \<in> {chain_in, chain_out} \<and> rule_target r \<in> {''ACCEPT'', ''DROP''}) rs"

lemma chain_ops_additions:
  assumes "clean t" and "proper_additions rs"
  shows "chain_ops (map add_args rs) (t @ [(chain_in, ri), (chain_out, ro)]) =
    Some (t @ [(chain_in, ri @ added chain_in rs), (chain_out, ro @ added chain_out rs)])"
  using assms(2)
proof (induction rs arbitrary: ri ro)
  case Nil
  then show ?case by (simp add: added_def)
next
  case (Cons r rs)
  obtain c s where r: "r = (c, s)" by force
  from Cons.prems have c: "c = chain_in \<or> c = chain_out" and s: "rule_target s = ''ACCEPT'' \<or> rule_target s = ''DROP''"
    and rs: "proper_additions rs" by (auto simp: r proper_additions_def)
  have i: "chain_in \<notin> fst ` set t" and out: "chain_out \<notin> fst ` set t"
    using clean_fresh [OF assms(1)] by blast+
  have "chain_op (add_args r) (t @ [(chain_in, ri), (chain_out, ro)]) =
      Some (t @ [(chain_in, if c = chain_in then ri @ [s] else ri), (chain_out, if c = chain_in then ro else ro @ [s])])"
    using c s i out
    by (auto simp: r add_args_def chain_op_def map_of_append_absent target_exists_def update_append_right
        simp del: map_of_append)
  with Cons.IH [OF rs] c show ?case by (auto simp: r added_def)
qed

lemma added_no_jumps: "proper_additions rs \<Longrightarrow> no_jumps (added c rs)"
  by (auto simp: proper_additions_def no_jumps_def added_def list_all_iff)

lemma proper_additions_take: "proper_additions rs \<Longrightarrow> proper_additions (take n rs)"
  unfolding proper_additions_def list_all_iff by (meson in_set_takeD)

lemma chain_op_hook:
  assumes "clean t" and "c \<in> set built_in_chains" and "c \<notin> hs" and "extra = [(chain_in, ri), (chain_out, ro)]"
  shows "chain_op (''-I'' # c # ''1'' # hook_of c) (hooked hs t @ extra) = Some (hooked (insert c hs) t @ extra)"
proof -
  obtain rules where r: "map_of t c = Some rules" using clean_built_in [OF assms(1,2)] by blast
  have c: "c \<in> fst ` set (hooked hs t)" using r by (metis domI dom_map_of_conv_image_fst hooked_keys(2))
  have "map_of (hooked hs t @ extra) c = Some rules"
    using r assms(3) by (simp add: map_of_hooked map_add_def split: option.split)
  moreover have "target_exists (hooked hs t @ extra) (rule_target (hook_of c))"
    using clean_fresh [OF assms(1)] assms(4)
    by (auto simp: target_exists_def hook_of_def rule_target_def map_of_append_absent simp del: map_of_append)
  moreover have "distinct (map fst t)" using assms(1) by (simp add: clean_def)
  ultimately show ?thesis
    using update_hooked [OF _ r, of True hs] c by (simp add: chain_op_def update_append_left)
qed

definition apply_args :: "(string \<times> rule_spec) list \<Rightarrow> string list list" where
  "apply_args rs =
     [[''-N'', chain_in], [''-N'', chain_out]] @ map add_args rs @ map (\<lambda>c. ''-I'' # c # ''1'' # hook_of c) built_in_chains"

lemma chain_ops_new:
  assumes "clean t"
  shows "chain_ops [[''-N'', chain_in]] t = Some (t @ [(chain_in, [])])"
    and "chain_ops [[''-N'', chain_in], [''-N'', chain_out]] t = Some (t @ [(chain_in, []), (chain_out, [])])"
proof -
  have i: "chain_in \<notin> fst ` set t" and out: "chain_out \<notin> fst ` set t"
    using clean_fresh [OF assms] by blast+
  have none: "map_of t chain_in = None" using i by (simp add: map_of_eq_None_iff)
  have first: "chain_op [''-N'', chain_in] t = Some (t @ [(chain_in, [])])"
    using i none update_append_right [OF i, of "[]" "[]"] by (simp add: chain_op_def)
  then show "chain_ops [[''-N'', chain_in]] t = Some (t @ [(chain_in, [])])" by simp
  have "chain_op [''-N'', chain_out] (t @ [(chain_in, [])]) = Some (t @ [(chain_in, []), (chain_out, [])])"
    using out by (simp add: chain_op_def map_of_append_absent update_append_right del: map_of_append)
  with first show "chain_ops [[''-N'', chain_in], [''-N'', chain_out]] t = Some (t @ [(chain_in, []), (chain_out, [])])"
    by simp
qed

lemma chain_ops_hooks:
  assumes "clean t" and "extra = [(chain_in, ri), (chain_out, ro)]"
  shows "\<exists>hs\<subseteq>set built_in_chains.
    chain_ops (take n (map (\<lambda>c. ''-I'' # c # ''1'' # hook_of c) built_in_chains)) (t @ extra) = Some (hooked hs t @ extra)
    \<and> (3 \<le> n \<longrightarrow> hs = set built_in_chains)"
proof -
  have h: "chain_op (''-I'' # c # ''1'' # hook_of c) (hooked hs t @ extra) = Some (hooked (insert c hs) t @ extra)"
    if "c \<in> set built_in_chains" "c \<notin> hs" for c hs
    using chain_op_hook [OF assms(1) that assms(2)] .
  have h0: "chain_op (''-I'' # ''INPUT'' # ''1'' # hook_of ''INPUT'') (t @ extra) = Some (hooked {''INPUT''} t @ extra)"
    using h [of "''INPUT''" "{}"] by (simp add: built_in_chains_def)
  consider "n = 0" | "n = 1" | "n = 2" | "3 \<le> n" by linarith
  then show ?thesis
  proof cases
    case 1
    then show ?thesis by (intro exI [of _ "{}"]) simp
  next
    case 2
    then show ?thesis by (intro exI [of _ "{''INPUT''}"]) (simp add: built_in_chains_def h0)
  next
    case 3
    then show ?thesis by (intro exI [of _ "{''OUTPUT'', ''INPUT''}"]) (simp add: built_in_chains_def h0 h)
  next
    case 4
    then show ?thesis
      by (intro exI [of _ "set built_in_chains"]) (simp add: built_in_chains_def h0 h insert_commute)
  qed
qed

definition isolated_table :: "(string \<times> rule_spec) list \<Rightarrow> chain_table \<Rightarrow> chain_table" where
  "isolated_table rs t = hooked (set built_in_chains) t @ [(chain_in, added chain_in rs), (chain_out, added chain_out rs)]"

lemma apply_stage:
  assumes "clean t" and "proper_additions rs"
  shows "\<exists>hs extra. chain_ops (take n (apply_args rs)) t = Some (hooked hs t @ extra) \<and> under_way extra
    \<and> hs \<subseteq> set built_in_chains"
proof -
  let ?hooks = "map (\<lambda>c. ''-I'' # c # ''1'' # hook_of c) built_in_chains"
  consider "n = 0" | "n = 1" | m where "n = Suc (Suc m)"
    by (metis One_nat_def nat.exhaust)
  then show ?thesis
  proof cases
    case 1
    then show ?thesis by (intro exI [of _ "{}"] exI [of _ "[]"]) (simp add: under_way.none)
  next
    case 2
    have "under_way [(chain_in, [])]" by (rule under_way.inbound) (simp add: no_jumps_def)
    with 2 chain_ops_new(1) [OF assms(1)] show ?thesis
      by (intro exI [of _ "{}"] exI [of _ "[(chain_in, [])]"]) (simp add: apply_args_def)
  next
    case (3 m)
    let ?rs = "take m rs"
    let ?extra = "[(chain_in, added chain_in ?rs), (chain_out, added chain_out ?rs)]"
    have split: "take n (apply_args rs) = [[''-N'', chain_in], [''-N'', chain_out]] @ map add_args ?rs @ take (m - length rs) ?hooks"
      using 3 by (simp add: apply_args_def take_map)
    have p: "proper_additions ?rs" using assms(2) by (rule proper_additions_take)
    from chain_ops_hooks [OF assms(1) refl] obtain hs where hs: "hs \<subseteq> set built_in_chains"
      "chain_ops (take (m - length rs) ?hooks) (t @ ?extra) = Some (hooked hs t @ ?extra)" by blast
    have "chain_ops (take n (apply_args rs)) t = Some (hooked hs t @ ?extra)"
      unfolding split
      using chain_ops_new(2) [OF assms(1)] chain_ops_additions [OF assms(1) p, of "[]" "[]"] hs(2)
      by (simp only: chain_ops_append Option.bind.simps append_Nil)
    moreover have "under_way ?extra" using p by (intro under_way.both added_no_jumps)
    ultimately show ?thesis using hs(1) by blast
  qed
qed

lemma apply_complete:
  assumes "clean t" and "proper_additions rs"
  shows "chain_ops (apply_args rs) t = Some (isolated_table rs t)"
proof -
  let ?hooks = "map (\<lambda>c. ''-I'' # c # ''1'' # hook_of c) built_in_chains"
  let ?extra = "[(chain_in, added chain_in rs), (chain_out, added chain_out rs)]"
  have "chain_ops ?hooks (t @ ?extra) = Some (hooked (set built_in_chains) t @ ?extra)"
    using chain_ops_hooks [OF assms(1) refl, of 3 "added chain_in rs" "added chain_out rs"]
    by (auto simp: built_in_chains_def)
  then show ?thesis
    unfolding apply_args_def isolated_table_def
    using chain_ops_new(2) [OF assms(1)] chain_ops_additions [OF assms, of "[]" "[]"]
    by (simp only: chain_ops_append Option.bind.simps append_Nil)
qed

section \<open>The commands of the code\<close>

definition isolation_additions ::
  "(ip_addr \<Rightarrow> string) \<Rightarrow> ip_addr list \<Rightarrow> ip_addr list \<Rightarrow> bool \<Rightarrow> (string \<times> rule_spec) list" where
  "isolation_additions text allowed dns_servers v6 =
     (let fam = filter (\<lambda>ip. is_ipv6 ip = v6) in
      [(chain_in, [''-i'', ''lo'', ''-j'', ''ACCEPT'']), (chain_out, [''-o'', ''lo'', ''-j'', ''ACCEPT''])] @
      (if v6
       then [(chain_in, [''-p'', ''ipv6-icmp'', ''-j'', ''ACCEPT'']), (chain_out, [''-p'', ''ipv6-icmp'', ''-j'', ''ACCEPT''])]
       else [(chain_out, [''-p'', ''udp'', ''-d'', ''255.255.255.255'', ''--sport'', ''68'', ''--dport'', ''67'', ''-j'', ''ACCEPT'']),
             (chain_in, [''-p'', ''udp'', ''--sport'', ''67'', ''--dport'', ''68'', ''-j'', ''ACCEPT'']),
             (chain_in, [''-p'', ''icmp'', ''-m'', ''conntrack'', ''--ctstate'', ''RELATED'', ''-j'', ''ACCEPT''])]) @
      concat (map (\<lambda>ip. map (\<lambda>protocol. (chain_out, [''-p'', protocol, ''-d'', text ip, ''--dport'', ''53'', ''-j'', ''ACCEPT'']))
         [''udp'', ''tcp'']) (fam dns_servers)) @
      map (\<lambda>ip. (chain_out, [''-d'', text ip, ''-j'', ''ACCEPT''])) (fam allowed) @
      map (\<lambda>ip. (chain_in, [''-s'', text ip, ''-m'', ''conntrack'', ''--ctstate'', ''ESTABLISHED'', ''-j'', ''ACCEPT'']))
        (remdups_adj (sort (fam (allowed @ dns_servers)))) @
      [(chain_in, [''-j'', ''DROP'']), (chain_out, [''-j'', ''DROP''])])"

definition family_program :: "bool \<Rightarrow> string" where
  "family_program v6 = (if v6 then ''ip6tables'' else ''iptables'')"

lemma iptables_apply_args: "map args (iptables_apply text allowed dns_servers v6) = apply_args (isolation_additions text allowed dns_servers v6)"
  by (simp add: iptables_apply_def apply_args_def isolation_additions_def add_args_def built_in_chains_def hook_of_def
      Let_def map_concat o_def)

lemma iptables_apply_program: "c \<in> set (iptables_apply text allowed dns_servers v6) \<Longrightarrow> program c = family_program v6"
  by (auto simp: iptables_apply_def family_program_def Let_def)

lemma isolation_additions_proper: "proper_additions (isolation_additions text allowed dns_servers v6)"
  by (auto simp: isolation_additions_def proper_additions_def rule_target_def Let_def list_all_iff)

lemma filter_programs [simp]: "is_filter_program (family_program v6)"
  by (simp add: is_filter_program_def family_program_def)

section \<open>The firewall during a call\<close>

context packet_filter
begin

lemma run_all_chains:
  assumes "run_all_or_rollback run cmds rollback w = (r, w')" and "\<forall>c\<in>set cmds. program c = p" and "is_filter_program p"
  shows "case r of
      None \<Rightarrow> \<exists>t. chain_ops (map args cmds) (table_of w p) = Some t \<and> table_of w' = (table_of w)(p := t)
    | Some e \<Rightarrow> \<exists>n t w1. chain_ops (take n (map args cmds)) (table_of w p) = Some t \<and> table_of w1 = (table_of w)(p := t)
        \<and> w' = run_all_best_effort run rollback w1"
  using assms(1,2)
proof (induction cmds arbitrary: w)
  case Nil
  then show ?case by auto
next
  case (Cons c cs)
  obtain res w2 where s: "run c w = (res, w2)" by force
  have c: "c = \<lparr>program = p, args = args c\<rparr>" using Cons.prems(2) by simp
  show ?case
  proof (cases res)
    case (Inl e)
    with s run_fails [of p "args c" w e w2] c assms(3) have "table_of w2 = table_of w" by simp
    with Cons.prems(1) s Inl show ?thesis
      by (auto intro!: exI [of _ 0] exI [of _ w2])
  next
    case (Inr printed)
    with s run_ok [of p "args c" w printed w2] c assms(3) obtain t where
      t: "chain_op (args c) (table_of w p) = Some t" "table_of w2 = (table_of w)(p := t)" by auto
    from Cons.prems(1) s Inr have "run_all_or_rollback run cs rollback w2 = (r, w')" by simp
    from Cons.IH [OF this] Cons.prems(2) t show ?thesis
      by (cases r) (fastforce intro: exI [of _ "Suc n" for n])+
  qed
qed

lemma release_program:
  assumes "is_filter_program p"
  shows "table_of (fold (\<lambda>c w. snd (run c w)) (release_commands p) w) = (table_of w)(p := release_table (table_of w p))"
proof -
  have "table_of (fold (\<lambda>c w. snd (run c w)) (map (\<lambda>a. \<lparr>program = p, args = a\<rparr>) as) w) =
      (table_of w)(p := fold removal as (table_of w p))" if "list_all removes as" for as
    using that
  proof (induction as arbitrary: w)
    case (Cons a as)
    then have "table_of (snd (run \<lparr>program = p, args = a\<rparr> w)) = (table_of w)(p := removal a (table_of w p))"
      using removal_effect [OF _ assms, of a w] by (simp add: removal_def)
    moreover from Cons.prems have "list_all removes as" by simp
    ultimately show ?case
      using Cons.IH [of "snd (run \<lparr>program = p, args = a\<rparr> w)"] by (auto simp: fun_upd_def)
  qed simp
  moreover have "list_all removes (map args (release_commands p))"
    by (simp add: release_commands_def removes_def)
  moreover have "release_commands p = map (\<lambda>a. \<lparr>program = p, args = a\<rparr>) (map args (release_commands p))"
    by (simp add: release_commands_def)
  moreover have "map args (release_commands p) = map args (release_commands [])"
    by (simp add: release_commands_def)
  ultimately show ?thesis unfolding release_table_def by metis
qed

lemma release_chains:
  "table_of (run_all_best_effort run iptables_release w) =
    (\<lambda>p. if is_filter_program p then release_table (table_of w p) else table_of w p)"
proof -
  have "is_filter_program ''iptables''" "is_filter_program ''ip6tables''" by (simp_all add: is_filter_program_def)
  then show ?thesis
    by (auto simp: run_all_best_effort_def iptables_release_def release_program is_filter_program_def)
qed

end

text \<open>
  What an isolated host lets through: the verdict of the three built-in chains on every packet,
  once the commands of \<open>iptables_apply\<close> have run. The locale \<open>address_text\<close> is the contract of the
  text of an address and its parser.
\<close>

section \<open>Verdicts\<close>

text \<open>What an isolated host may send, and receive.\<close>

definition may_leave :: "ip_addr list \<Rightarrow> ip_addr list \<Rightarrow> packet \<Rightarrow> bool" where
  "may_leave allowed dns_servers p \<longleftrightarrow>
     pk_out p = ''lo'' \<or>
     (if is_ipv6 (pk_dst p) then pk_proto p = ''ipv6-icmp''
      else pk_proto p = ''udp'' \<and> pk_dst p = V4 (- 1) \<and> pk_sport p = 68 \<and> pk_dport p = 67) \<or>
     pk_dst p \<in> set dns_servers \<and> pk_proto p \<in> {''udp'', ''tcp''} \<and> pk_dport p = 53 \<or>
     pk_dst p \<in> set allowed"

definition may_enter :: "ip_addr list \<Rightarrow> ip_addr list \<Rightarrow> packet \<Rightarrow> bool" where
  "may_enter allowed dns_servers p \<longleftrightarrow>
     pk_in p = ''lo'' \<or>
     (if is_ipv6 (pk_src p) then pk_proto p = ''ipv6-icmp''
      else pk_proto p = ''udp'' \<and> pk_sport p = 67 \<and> pk_dport p = 68 \<or>
           pk_proto p = ''icmp'' \<and> pk_state p = ''RELATED'') \<or>
     pk_src p \<in> set allowed \<union> set dns_servers \<and> pk_state p = ''ESTABLISHED''"

lemma chain_verdict_append:
  "chain_verdict parse t p d (xs @ ys) =
    (case chain_verdict parse t p d xs of None \<Rightarrow> chain_verdict parse t p d ys | Some v \<Rightarrow> Some v)"
  by (induction xs) (auto split: option.splits)

lemma chain_verdict_accepts:
  "list_all (\<lambda>r. rule_target r = ''ACCEPT'') rules \<Longrightarrow>
    chain_verdict parse t p d rules = (if list_ex (rule_matches parse p) rules then Some Accept else None)"
  by (induction rules) auto

lemma chain_verdict_closed:
  assumes "list_all (\<lambda>r. rule_target r = ''ACCEPT'') rules"
  shows "chain_verdict parse t p d (rules @ [[''-j'', ''DROP'']]) =
    Some (if list_ex (rule_matches parse p) rules then Accept else Drop)"
  using assms by (simp add: chain_verdict_append chain_verdict_accepts) (simp add: rule_target_def)

lemma parse_ports: "parse_unsigned 65535 ''53'' = Some 53" "parse_unsigned 65535 ''67'' = Some 67"
  "parse_unsigned 65535 ''68'' = Some 68"
  by code_simp+

text \<open>What an isolated machine does with a packet.\<close>

definition isolated_by :: "(string \<Rightarrow> ip_addr option) \<Rightarrow> ip_addr list \<Rightarrow> ip_addr list \<Rightarrow> bool \<Rightarrow> chain_table \<Rightarrow> bool" where
  "isolated_by parse allowed dns_servers v6 t \<longleftrightarrow>
     (\<forall>(p::packet) d. is_ipv6 (pk_src p) = v6 \<and> is_ipv6 (pk_dst p) = v6 \<longrightarrow>
        chain_verdict parse t p (Suc d) (the (map_of t ''INPUT'')) = Some (if may_enter allowed dns_servers p then Accept else Drop) \<and>
        chain_verdict parse t p (Suc d) (the (map_of t ''OUTPUT'')) = Some (if may_leave allowed dns_servers p then Accept else Drop) \<and>
        chain_verdict parse t p (Suc d) (the (map_of t ''FORWARD'')) = Some (if may_leave allowed dns_servers p then Accept else Drop))"

locale address_text =
  fixes addr :: "ip_addr \<Rightarrow> string" and parse :: "string \<Rightarrow> ip_addr option"
  assumes parse_text [simp]: "parse (addr a) = Some a"
    and parse_broadcast [simp]: "parse ''255.255.255.255'' = Some (V4 (- 1))"
begin

lemma out_rules:
  assumes "is_ipv6 (pk_dst p) = v6"
  shows "\<exists>rules. added chain_out (isolation_additions addr allowed dns_servers v6) = rules @ [[''-j'', ''DROP'']] \<and>
    list_all (\<lambda>r. rule_target r = ''ACCEPT'') rules \<and>
    list_ex (rule_matches parse p) rules = may_leave allowed dns_servers p"
proof -
  let ?fam = "filter (\<lambda>ip. is_ipv6 ip = v6)"
  let ?dns = "concat (map (\<lambda>ip. map (\<lambda>protocol. [''-p'', protocol, ''-d'', addr ip, ''--dport'', ''53'', ''-j'', ''ACCEPT''])
         [''udp'', ''tcp'']) (?fam dns_servers))"
  let ?direct = "map (\<lambda>ip. [''-d'', addr ip, ''-j'', ''ACCEPT'']) (?fam allowed)"
  let ?own = "if v6 then [''-p'', ''ipv6-icmp'', ''-j'', ''ACCEPT'']
     else [''-p'', ''udp'', ''-d'', ''255.255.255.255'', ''--sport'', ''68'', ''--dport'', ''67'', ''-j'', ''ACCEPT'']"
  let ?rules = "[''-o'', ''lo'', ''-j'', ''ACCEPT''] # ?own # ?dns @ ?direct"
  have "added chain_out (isolation_additions addr allowed dns_servers v6) = ?rules @ [[''-j'', ''DROP'']]"
    by (simp add: added_def isolation_additions_def Let_def filter_concat map_concat o_def)
  moreover have "list_all (\<lambda>r. rule_target r = ''ACCEPT'') ?rules"
    by (auto simp: list_all_iff rule_target_def)
  moreover have "list_ex (rule_matches parse p) ?dns \<longleftrightarrow>
      pk_dst p \<in> set dns_servers \<and> pk_proto p \<in> {''udp'', ''tcp''} \<and> pk_dport p = 53"
    using assms by (auto simp: list_ex_iff option_matches_def parse_ports)
  moreover have "list_ex (rule_matches parse p) ?direct \<longleftrightarrow> pk_dst p \<in> set allowed"
    using assms by (auto simp: list_ex_iff option_matches_def)
  moreover have "rule_matches parse p ?own \<longleftrightarrow>
      (if v6 then pk_proto p = ''ipv6-icmp''
       else pk_proto p = ''udp'' \<and> pk_dst p = V4 (- 1) \<and> pk_sport p = 68 \<and> pk_dport p = 67)"
    by (auto simp: option_matches_def parse_ports)
  ultimately show ?thesis
    using assms by (intro exI [of _ ?rules]) (auto simp: may_leave_def option_matches_def)
qed

lemma in_rules:
  assumes "is_ipv6 (pk_src p) = v6"
  shows "\<exists>rules. added chain_in (isolation_additions addr allowed dns_servers v6) = rules @ [[''-j'', ''DROP'']] \<and>
    list_all (\<lambda>r. rule_target r = ''ACCEPT'') rules \<and>
    list_ex (rule_matches parse p) rules = may_enter allowed dns_servers p"
proof -
  let ?peers = "map (\<lambda>ip. [''-s'', addr ip, ''-m'', ''conntrack'', ''--ctstate'', ''ESTABLISHED'', ''-j'', ''ACCEPT''])
        (remdups_adj (sort (filter (\<lambda>ip. is_ipv6 ip = v6) (allowed @ dns_servers))))"
  let ?own = "if v6 then [[''-p'', ''ipv6-icmp'', ''-j'', ''ACCEPT'']]
     else [[''-p'', ''udp'', ''--sport'', ''67'', ''--dport'', ''68'', ''-j'', ''ACCEPT''],
           [''-p'', ''icmp'', ''-m'', ''conntrack'', ''--ctstate'', ''RELATED'', ''-j'', ''ACCEPT'']]"
  let ?rules = "[''-i'', ''lo'', ''-j'', ''ACCEPT''] # ?own @ ?peers"
  have "added chain_in (isolation_additions addr allowed dns_servers v6) = ?rules @ [[''-j'', ''DROP'']]"
    by (simp add: added_def isolation_additions_def Let_def filter_concat map_concat o_def)
  moreover have "list_all (\<lambda>r. rule_target r = ''ACCEPT'') ?rules"
    by (auto simp: list_all_iff rule_target_def)
  moreover have "list_ex (rule_matches parse p) ?peers \<longleftrightarrow>
      pk_src p \<in> set allowed \<union> set dns_servers \<and> pk_state p = ''ESTABLISHED''"
    using assms by (auto simp: list_ex_iff option_matches_def)
  moreover have "list_ex (rule_matches parse p) ?own \<longleftrightarrow>
      (if v6 then pk_proto p = ''ipv6-icmp''
       else pk_proto p = ''udp'' \<and> pk_sport p = 67 \<and> pk_dport p = 68 \<or>
           pk_proto p = ''icmp'' \<and> pk_state p = ''RELATED'')"
    by (auto simp: option_matches_def parse_ports)
  ultimately show ?thesis
    using assms by (intro exI [of _ ?rules]) (auto simp: may_enter_def option_matches_def)
qed

lemma hooked_verdict:
  assumes "clean t0" and "c \<in> set built_in_chains" and "hook_of c = [''-j'', target]"
    and "map_of (hooked (set built_in_chains) t0 @ extra) target = Some (rules @ [[''-j'', ''DROP'']])"
    and "list_all (\<lambda>r. rule_target r = ''ACCEPT'') rules" and "target \<in> {chain_in, chain_out}"
  shows "chain_verdict parse (hooked (set built_in_chains) t0 @ extra) p (Suc d)
      (the (map_of (hooked (set built_in_chains) t0 @ extra) c)) =
    Some (if list_ex (rule_matches parse p) rules then Accept else Drop)"
proof -
  obtain r where "map_of t0 c = Some r" using clean_built_in [OF assms(1,2)] by blast
  then have "the (map_of (hooked (set built_in_chains) t0 @ extra) c) = hook_of c # r"
    using assms(2) by (simp add: map_of_hooked map_add_def)
  moreover have "rule_target (hook_of c) = target" by (simp add: assms(3) rule_target_def)
  moreover have "target \<noteq> ''ACCEPT''" "target \<noteq> ''DROP''"
    using assms(6) by (auto simp: IPTABLES_CHAIN_IN_def IPTABLES_CHAIN_OUT_def)
  ultimately show ?thesis
    using assms(3,4) chain_verdict_closed [OF assms(5)] by (simp del: map_of_append)
qed

lemma isolated_table_verdicts:
  assumes "clean t0"
  shows "isolated_by parse allowed dns_servers v6 (isolated_table (isolation_additions addr allowed dns_servers v6) t0)"
  unfolding isolated_by_def
proof (intro allI impI conjI)
  fix p :: packet and d assume p: "is_ipv6 (pk_src p) = v6 \<and> is_ipv6 (pk_dst p) = v6"
  let ?rs = "isolation_additions addr allowed dns_servers v6"
  let ?extra = "[(chain_in, added chain_in ?rs), (chain_out, added chain_out ?rs)]"
  let ?t = "hooked (set built_in_chains) t0 @ ?extra"
  have fresh: "chain_in \<notin> fst ` set t0" "chain_out \<notin> fst ` set t0" using clean_fresh [OF assms] by blast+
  then have m: "map_of ?t chain_in = Some (added chain_in ?rs)" "map_of ?t chain_out = Some (added chain_out ?rs)"
    by (simp_all add: map_of_append_absent del: map_of_append)
  obtain ri where ri: "added chain_in ?rs = ri @ [[''-j'', ''DROP'']]" "list_all (\<lambda>r. rule_target r = ''ACCEPT'') ri"
    "list_ex (rule_matches parse p) ri = may_enter allowed dns_servers p"
    using in_rules [of p v6] p by blast
  obtain ro where ro: "added chain_out ?rs = ro @ [[''-j'', ''DROP'']]" "list_all (\<lambda>r. rule_target r = ''ACCEPT'') ro"
    "list_ex (rule_matches parse p) ro = may_leave allowed dns_servers p"
    using out_rules [of p v6] p by blast
  have b: "''INPUT'' \<in> set built_in_chains" "''OUTPUT'' \<in> set built_in_chains" "''FORWARD'' \<in> set built_in_chains"
    by (simp_all add: built_in_chains_def)
  show "chain_verdict parse (isolated_table ?rs t0) p (Suc d) (the (map_of (isolated_table ?rs t0) ''INPUT''))
      = Some (if may_enter allowed dns_servers p then Accept else Drop)"
    unfolding isolated_table_def
    using hooked_verdict [OF assms b(1) _ _ ri(2), of chain_in ?extra p d] m(1) ri
    by (simp add: hook_of_def del: map_of_append)
  show "chain_verdict parse (isolated_table ?rs t0) p (Suc d) (the (map_of (isolated_table ?rs t0) ''OUTPUT''))
      = Some (if may_leave allowed dns_servers p then Accept else Drop)"
    unfolding isolated_table_def
    using hooked_verdict [OF assms b(2) _ _ ro(2), of chain_out ?extra p d] m(2) ro
    by (simp add: hook_of_def del: map_of_append)
  show "chain_verdict parse (isolated_table ?rs t0) p (Suc d) (the (map_of (isolated_table ?rs t0) ''FORWARD''))
      = Some (if may_leave allowed dns_servers p then Accept else Drop)"
    unfolding isolated_table_def
    using hooked_verdict [OF assms b(3) _ _ ro(2), of chain_out ?extra p d] m(2) ro
    by (simp add: hook_of_def del: map_of_append)
qed

end

end
