(* ===== verification/Isolation_Linux.thy ===== *)
theory Isolation_Linux imports Isolation_Verdicts begin

text \<open>
  The isolation on Linux, proved once for every tool that keeps the contracts \<open>packet_filter\<close> and
  \<open>address_text\<close>: what \<open>apply_rules\<close>, \<open>isolate_host\<close> and \<open>release_host\<close> leave the firewall in.
\<close>

definition loopless_parse :: "string \<Rightarrow> ip_addr option" where
  "loopless_parse s = (if s = ''255.255.255.255'' then Some (V4 (- 1)) else plain_parse s)"

interpretation plain: address_text plain_text loopless_parse
proof unfold_locales
  have "plain_text a \<noteq> ''255.255.255.255''" for a
    by (cases a) (simp_all add: plain_text_def)
  then show "loopless_parse (plain_text a) = Some a" for a by (simp add: loopless_parse_def)
qed (simp add: loopless_parse_def)

text \<open>\<open>table_of\<close> gives the chains of a firewall, \<open>t0\<close> those it has when nothing is isolated: a release
  gives them back, they are back, and an isolation is in force.\<close>

definition restorable :: "('w \<Rightarrow> string \<Rightarrow> chain_table) \<Rightarrow> (string \<Rightarrow> chain_table) \<Rightarrow> 'w \<Rightarrow> bool" where
  "restorable table_of t0 w \<longleftrightarrow> (\<forall>p. is_filter_program p \<longrightarrow> clean (t0 p) \<and> release_table (table_of w p) = t0 p)"

definition released :: "('w \<Rightarrow> string \<Rightarrow> chain_table) \<Rightarrow> (string \<Rightarrow> chain_table) \<Rightarrow> 'w \<Rightarrow> bool" where
  "released table_of t0 w \<longleftrightarrow> (\<forall>p. is_filter_program p \<longrightarrow> clean (t0 p) \<and> table_of w p = t0 p)"

definition in_force ::
  "(ip_addr \<Rightarrow> string) \<Rightarrow> ('w \<Rightarrow> string \<Rightarrow> chain_table) \<Rightarrow> (string \<Rightarrow> chain_table) \<Rightarrow> bool \<Rightarrow>
     ip_addr list \<Rightarrow> ip_addr list \<Rightarrow> 'w \<Rightarrow> bool" where
  "in_force text table_of t0 ipv6 allowed dns_servers w \<longleftrightarrow>
     (\<forall>p. is_filter_program p \<longrightarrow> clean (t0 p)) \<and>
     table_of w ''iptables'' = isolated_table (isolation_additions text allowed dns_servers False) (t0 ''iptables'') \<and>
     table_of w ''ip6tables'' =
       (if ipv6 then isolated_table (isolation_additions text allowed dns_servers True) (t0 ''ip6tables'')
        else t0 ''ip6tables'')"

locale linux_isolation =
  packet_filter "ie_run env" table_of + address_text "ie_text env" "ie_parse env"
  for env :: "'w iso_env" and table_of :: "'w \<Rightarrow> string \<Rightarrow> chain_table" +
  assumes linux: "ie_os env = Linux"
begin

lemma stage_restorable:
  "clean t \<Longrightarrow> proper_additions rs \<Longrightarrow> chain_ops (take n (apply_args rs)) t = Some t' \<Longrightarrow> release_table t' = t"
  using apply_stage [of t rs n] release_restores by auto

lemma clean_restores: "clean t \<Longrightarrow> release_table t = t"
  using release_restores [OF _ under_way.none, of t "{}"] by simp

lemma released_restorable: "released table_of t0 w \<Longrightarrow> restorable table_of t0 w"
  by (auto simp: released_def restorable_def clean_restores)

lemma isolated_restores: "clean t \<Longrightarrow> proper_additions rs \<Longrightarrow> release_table (isolated_table rs t) = t"
  using stage_restorable [of t rs "length (apply_args rs)"] apply_complete [of t rs] by simp

lemma in_force_restorable: "in_force (ie_text env) table_of t0 ipv6 allowed dns_servers w \<Longrightarrow> restorable table_of t0 w"
  by (auto simp: in_force_def restorable_def is_filter_program_def clean_restores
      intro!: isolated_restores isolation_additions_proper)

lemma release_released: "restorable table_of t0 w \<Longrightarrow> released table_of t0 (run_all_best_effort (ie_run env) iptables_release w)"
  by (simp add: restorable_def released_def release_chains)

lemma remove_released: "restorable table_of t0 w \<Longrightarrow> released table_of t0 (remove_isolation_rules env token w)"
  using release_released by (simp add: remove_isolation_rules_def linux)

text \<open>One family: it is isolated, or everything is given back.\<close>

lemma apply_family:
  assumes "restorable table_of t0 w" and "table_of w (family_program v6) = t0 (family_program v6)"
    and "run_all_or_rollback (ie_run env) (iptables_apply (ie_text env) allowed dns_servers v6) iptables_release w = (r, w')"
  shows "case r of
      None \<Rightarrow> table_of w' = (table_of w)(family_program v6 :=
        isolated_table (isolation_additions (ie_text env) allowed dns_servers v6) (t0 (family_program v6)))
    | Some e \<Rightarrow> released table_of t0 w'"
proof -
  let ?p = "family_program v6" and ?rs = "isolation_additions (ie_text env) allowed dns_servers v6"
  have c: "clean (t0 ?p)" using assms(1) by (simp add: restorable_def)
  have run: "case r of
      None \<Rightarrow> \<exists>t. chain_ops (apply_args ?rs) (t0 ?p) = Some t \<and> table_of w' = (table_of w)(?p := t)
    | Some e \<Rightarrow> \<exists>n t w1. chain_ops (take n (apply_args ?rs)) (t0 ?p) = Some t \<and> table_of w1 = (table_of w)(?p := t)
        \<and> w' = run_all_best_effort (ie_run env) iptables_release w1"
    using run_all_chains [OF assms(3) _ filter_programs, of v6] iptables_apply_program
    unfolding iptables_apply_args assms(2) by blast
  show ?thesis
  proof (cases r)
    case None
    with run apply_complete [OF c isolation_additions_proper] show ?thesis by auto
  next
    case (Some e)
    with run obtain n t w1 where s: "chain_ops (take n (apply_args ?rs)) (t0 ?p) = Some t"
      "table_of w1 = (table_of w)(?p := t)" "w' = run_all_best_effort (ie_run env) iptables_release w1" by auto
    then have "release_table t = t0 ?p" using stage_restorable [OF c isolation_additions_proper] by blast
    with s(2) assms(1) have "restorable table_of t0 w1" by (auto simp: restorable_def)
    with s(3) Some show ?thesis by (simp add: release_released)
  qed
qed

lemma apply_linux:
  assumes "restorable table_of t0 w" and "apply_rules env view allowed dns_servers w = (r, w')"
  shows "case r of Inl e \<Rightarrow> released table_of t0 w'
    | Inr token \<Rightarrow> token = None \<and> in_force (ie_text env) table_of t0 (iv_ipv6 view) allowed dns_servers w'"
proof -
  let ?w0 = "run_all_best_effort (ie_run env) iptables_release w"
  let ?rs = "isolation_additions (ie_text env) allowed dns_servers"
  have r0: "released table_of t0 ?w0" by (rule release_released [OF assms(1)])
  have c: "clean (t0 p)" if "is_filter_program p" for p using assms(1) that by (simp add: restorable_def)
  have names: "family_program False = ''iptables''" "family_program True = ''ip6tables''"
    "is_filter_program ''iptables''" "is_filter_program ''ip6tables''"
    by (simp_all add: family_program_def is_filter_program_def)
  have at: "table_of ?w0 p = t0 p" if "is_filter_program p" for p using r0 that by (simp add: released_def)
  obtain r1 w1 where s1: "run_all_or_rollback (ie_run env)
      (iptables_apply (ie_text env) allowed dns_servers False) iptables_release ?w0 = (r1, w1)" by force
  note f1 = apply_family [OF released_restorable [OF r0] at [OF filter_programs] s1]
  show ?thesis
  proof (cases r1)
    case (Some e)
    with f1 s1 assms(2) show ?thesis by (auto simp: apply_rules_def linux)
  next
    case None
    with f1 have w1: "table_of w1 = (table_of ?w0)(''iptables'' := isolated_table (?rs False) (t0 ''iptables''))"
      by (simp add: names)
    then have force4: "table_of w1 ''iptables'' = isolated_table (?rs False) (t0 ''iptables'')"
      "table_of w1 ''ip6tables'' = t0 ''ip6tables''" using at names by simp_all
    have rest1: "restorable table_of t0 w1"
      using force4 c names by (auto simp: restorable_def is_filter_program_def clean_restores
          intro: isolated_restores isolation_additions_proper)
    show ?thesis
    proof (cases "iv_ipv6 view")
      case False
      with s1 None assms(2) force4 c show ?thesis
        by (auto simp: apply_rules_def linux in_force_def)
    next
      case True
      obtain r2 w2 where s2: "run_all_or_rollback (ie_run env)
          (iptables_apply (ie_text env) allowed dns_servers True) iptables_release w1 = (r2, w2)" by force
      have "table_of w1 (family_program True) = t0 (family_program True)" using force4 names by simp
      note f2 = apply_family [OF rest1 this s2]
      from True s1 s2 None assms(2) have out: "r = (case r2 of Some e \<Rightarrow> Inl e | None \<Rightarrow> Inr None)" "w' = w2"
        by (auto simp: apply_rules_def linux split: option.splits)
      show ?thesis
      proof (cases r2)
        case (Some e)
        with f2 out show ?thesis by simp
      next
        case None
        with f2 out True force4 c show ?thesis by (auto simp: in_force_def names)
      qed
    qed
  qed
qed

lemma in_force_isolated:
  assumes "in_force (ie_text env) table_of t0 ipv6 allowed dns_servers w"
  shows "isolated_by (ie_parse env) allowed dns_servers False (table_of w ''iptables'')"
    and "ipv6 \<Longrightarrow> isolated_by (ie_parse env) allowed dns_servers True (table_of w ''ip6tables'')"
proof -
  have "clean (t0 ''iptables'')" "clean (t0 ''ip6tables'')"
    using assms by (simp_all add: in_force_def is_filter_program_def)
  then show "isolated_by (ie_parse env) allowed dns_servers False (table_of w ''iptables'')"
    "ipv6 \<Longrightarrow> isolated_by (ie_parse env) allowed dns_servers True (table_of w ''ip6tables'')"
    using assms isolated_table_verdicts by (simp_all add: in_force_def)
qed

text \<open>What the operations do to the firewall.\<close>

lemma release_host_released:
  assumes "iv_admin view" and "restorable table_of t0 (hi_fw st)" and "release_host env dr view st = (u, st')"
  shows "released table_of t0 (hi_fw st') \<and> hi_now st' = hi_now st \<and> hi_timers st' = hi_timers st"
  using assms remove_released by (auto simp: release_host_def Let_def split: option.splits)

lemma isolate_host_outcome:
  assumes "iv_admin view" and "restorable table_of t0 (hi_fw st)" and "isolate_host env dh view reason secs st = (r, st')"
  shows "case r of
      Inl e \<Rightarrow> \<exists>fw. (fw = hi_fw st \<or> released table_of t0 fw) \<and> st' = st\<lparr>hi_fw := fw\<rparr>
    | Inr s \<Rightarrow> \<exists>dns config. iv_config view = Inr config \<and> control_channel_addresses env view config = Inr (iso_allowed s) \<and>
        dns = fst (system_resolvers env view (hi_fw st)) \<and> iso_dns_servers s = Some dns \<and> in_force (ie_text env) table_of t0 (iv_ipv6 view) (iso_allowed s) dns (hi_fw st') \<and>
        hi_record st' = Some s \<and> hi_isolated st' \<and> hi_now st' = hi_now st \<and> iso_release_at s = isolation_end (hi_now st) secs \<and>
        hi_timers st' = hi_timers st @ (if 0 < secs then [hi_now st + int secs] else [])"
proof (cases "iv_config view")
  case (Inl e)
  with assms show ?thesis by (auto simp: isolate_host_def intro!: exI [of _ "hi_fw st"])
next
  case (Inr config)
  show ?thesis
  proof (cases "control_channel_addresses env view config")
    case (Inl e)
    with assms Inr show ?thesis by (auto simp: isolate_host_def intro!: exI [of _ "hi_fw st"])
  next
    case (Inr allowed)
    obtain dns where d: "system_resolvers env view (hi_fw st) = (dns, hi_fw st)"
      by (simp add: system_resolvers_def linux)
    obtain r1 w2 where a: "apply_rules env view allowed dns (hi_fw st) = (r1, w2)" by force
    note out = apply_linux [OF assms(2) a]
    show ?thesis
    proof (cases r1)
      case (Inl e)
      with assms(1,3) \<open>iv_config view = Inr config\<close> Inr d a out show ?thesis
        by (auto simp: isolate_host_def)
    next
      case (Inr token)
      with out have f: "token = None" "in_force (ie_text env) table_of t0 (iv_ipv6 view) allowed dns w2" by simp_all
      show ?thesis
      proof (cases "iv_store view")
        case None
        with assms(1,3) \<open>iv_config view = Inr config\<close> \<open>control_channel_addresses env view config = Inr allowed\<close> d a Inr f
        show ?thesis by (auto simp: isolate_host_def Let_def schedule_release_def split: if_splits)
      next
        case (Some e)
        have "released table_of t0 (remove_isolation_rules env token w2)"
          using in_force_restorable [OF f(2)] by (rule remove_released)
        with assms(1,3) \<open>iv_config view = Inr config\<close> \<open>control_channel_addresses env view config = Inr allowed\<close> d a Inr Some
        show ?thesis by (auto simp: isolate_host_def Let_def)
      qed
    qed
  qed
qed

lemma reisolation_fails:
  assumes "iv_admin view" and "iv_config view = Inr config" and "control_channel_addresses env view config = Inr allowed"
    and "restorable table_of t0 (hi_fw st)" and "isolate_host env dh view reason secs st = (Inl e, st')"
  shows "released table_of t0 (hi_fw st') \<and> hi_record st' = hi_record st \<and> hi_isolated st' = hi_isolated st"
proof -
  obtain dns where d: "system_resolvers env view (hi_fw st) = (dns, hi_fw st)"
    by (simp add: system_resolvers_def linux)
  obtain r1 w2 where a: "apply_rules env view allowed dns (hi_fw st) = (r1, w2)" by force
  note out = apply_linux [OF assms(4) a]
  show ?thesis
  proof (cases r1)
    case (Inl e')
    with assms d a out show ?thesis by (auto simp: isolate_host_def)
  next
    case (Inr token)
    with out have "released table_of t0 (remove_isolation_rules env token w2)"
      by (auto intro: remove_released in_force_restorable)
    with assms d a Inr show ?thesis by (auto simp: isolate_host_def Let_def split: option.splits)
  qed
qed

end

end
