(* ===== verification/Isolation_Service.thy ===== *)
theory Isolation_Service imports Isolation_Linux begin

text \<open>
  The isolation over time: an invariant of the service (nothing is isolated, or what is isolated is
  recorded and a timed isolation has a sleeping task due at its end) that every step keeps.
\<close>

section \<open>The service over time\<close>

text \<open>A sleeping task is due at \<open>r\<close>, or later when \<open>r\<close> was cut to the end of the clock.\<close>

definition timer_for :: "i64 \<Rightarrow> int list \<Rightarrow> bool" where
  "timer_for r timers \<longleftrightarrow> (\<exists>d\<in>set timers. r \<le> d \<and> (r < i64_max \<longrightarrow> d = r))"

definition isolation_recorded ::
  "(ip_addr \<Rightarrow> string) \<Rightarrow> ('w \<Rightarrow> string \<Rightarrow> chain_table) \<Rightarrow> (string \<Rightarrow> chain_table) \<Rightarrow> 'w iso_host \<Rightarrow> bool" where
  "isolation_recorded text table_of t0 st \<longleftrightarrow>
     (\<exists>s dns v6. hi_record st = Some s \<and> iso_dns_servers s \<in> {None, Some dns} \<and>
        in_force text table_of t0 v6 (iso_allowed s) dns (hi_fw st) \<and>
        (\<forall>r. iso_release_at s = Some r \<longrightarrow> timer_for r (hi_timers st)))"

definition record_in_range :: "isolation_state option \<Rightarrow> bool" where
  "record_in_range rec \<longleftrightarrow> (case Option.bind rec iso_release_at of Some r \<Rightarrow> r \<le> i64_max | None \<Rightarrow> True)"

definition iso_inv ::
  "(ip_addr \<Rightarrow> string) \<Rightarrow> ('w \<Rightarrow> string \<Rightarrow> chain_table) \<Rightarrow> (string \<Rightarrow> chain_table) \<Rightarrow> 'w iso_host \<Rightarrow> bool" where
  "iso_inv text table_of t0 st \<longleftrightarrow>
     0 \<le> hi_now st \<and> record_in_range (hi_record st) \<and>
     (released table_of t0 (hi_fw st) \<or> isolation_recorded text table_of t0 st)"

lemma timer_for_end:
  assumes "0 \<le> now" and "isolation_end now secs = Some r"
  shows "timer_for r (ts @ [now + int secs])"
  using assms by (auto simp: isolation_end_def timer_for_def i64_max_def split: if_splits)

lemma isolation_end_in_range: "isolation_end now secs = Some r \<Longrightarrow> r \<le> i64_max"
  by (auto simp: isolation_end_def split: if_splits)

lemma timer_for_append: "timer_for r ts \<Longrightarrow> timer_for r (ts @ us)"
  by (auto simp: timer_for_def)

lemma timer_for_fire:
  assumes "timer_for r ts" and "i < length ts" and "ts ! i < r"
  shows "timer_for r (take i ts @ drop (Suc i) ts)"
proof -
  from assms(1) obtain d where d: "d \<in> set ts" "r \<le> d" "r < i64_max \<longrightarrow> d = r" by (auto simp: timer_for_def)
  have "d \<noteq> ts ! i" using assms(3) d(2) by simp
  moreover have "d \<in> set (take i ts @ ts ! i # drop (Suc i) ts)" using d(1) assms(2) by (simp add: id_take_nth_drop [symmetric])
  ultimately have "d \<in> set (take i ts @ drop (Suc i) ts)" by auto
  with d show ?thesis by (auto simp: timer_for_def)
qed

context linux_isolation
begin

lemma inv_restorable: "iso_inv (ie_text env) table_of t0 st \<Longrightarrow> restorable table_of t0 (hi_fw st)"
  using released_restorable in_force_restorable by (auto simp: iso_inv_def isolation_recorded_def)

lemma inv_release:
  assumes "iv_admin view" and "restorable table_of t0 (hi_fw st)" and "0 \<le> hi_now st" and "record_in_range (hi_record st)"
    and "release_host env dr view st = (u, st')"
  shows "iso_inv (ie_text env) table_of t0 st'"
proof -
  have "hi_record st' \<in> {None, hi_record st}"
    using assms(1,5) by (auto simp: release_host_def Let_def split: option.splits)
  with assms(4) have "record_in_range (hi_record st')" by (auto simp: record_in_range_def)
  with release_host_released [OF assms(1,2,5)] assms(3) show ?thesis by (simp add: iso_inv_def)
qed

lemma inv_isolate:
  assumes "iv_admin view" and inv: "iso_inv (ie_text env) table_of t0 st" and "isolate_host env dh view reason secs st = (r, st')"
  shows "iso_inv (ie_text env) table_of t0 st'"
proof -
  have now: "0 \<le> hi_now st" using inv by (simp add: iso_inv_def)
  note out = isolate_host_outcome [OF assms(1) inv_restorable [OF inv] assms(3)]
  show ?thesis
  proof (cases r)
    case (Inl e)
    with out obtain fw where "fw = hi_fw st \<or> released table_of t0 fw" "st' = st\<lparr>hi_fw := fw\<rparr>" by auto
    with inv show ?thesis by (auto simp: iso_inv_def)
  next
    case (Inr s)
    with out obtain dns where o: "iso_dns_servers s = Some dns"
      "in_force (ie_text env) table_of t0 (iv_ipv6 view) (iso_allowed s) dns (hi_fw st')"
      "hi_record st' = Some s" "hi_now st' = hi_now st" "iso_release_at s = isolation_end (hi_now st) secs"
      "hi_timers st' = hi_timers st @ (if 0 < secs then [hi_now st + int secs] else [])" by auto
    have "timer_for r (hi_timers st')" if "iso_release_at s = Some r" for r
    proof -
      from that o(5) have e: "isolation_end (hi_now st) secs = Some r" by simp
      then have "0 < secs" by (auto simp: isolation_end_def split: if_splits)
      with timer_for_end [OF now e] o(6) show ?thesis by simp
    qed
    with o have "isolation_recorded (ie_text env) table_of t0 st'" by (auto simp: isolation_recorded_def)
    moreover have "record_in_range (hi_record st')"
      using o(3,5) isolation_end_in_range by (auto simp: record_in_range_def split: option.split)
    ultimately show ?thesis using now o(4) by (simp add: iso_inv_def)
  qed
qed

lemma inv_fire:
  assumes "iv_admin view" and inv: "iso_inv (ie_text env) table_of t0 st" and fire: "fire_release env dr view i st = Some st'"
  shows "iso_inv (ie_text env) table_of t0 st'"
proof -
  let ?ts = "take i (hi_timers st) @ drop (Suc i) (hi_timers st)"
  let ?st1 = "st\<lparr>hi_timers := ?ts\<rparr>"
  have i: "i < length (hi_timers st)" "hi_timers st ! i \<le> hi_now st"
    and st': "st' = (if release_due ?st1 then snd (release_host env dr view ?st1) else ?st1)"
    using fire by (auto simp: fire_release_def Let_def split: if_splits)
  have now: "0 \<le> hi_now ?st1" "record_in_range (hi_record ?st1)" using inv by (simp_all add: iso_inv_def)
  have rest: "restorable table_of t0 (hi_fw ?st1)" using inv_restorable [OF inv] by simp
  show ?thesis
  proof (cases "release_due ?st1")
    case True
    obtain u s2 where "release_host env dr view ?st1 = (u, s2)" by force
    with inv_release [OF assms(1) rest now this] True st' show ?thesis by simp
  next
    case False
    have "isolation_recorded (ie_text env) table_of t0 ?st1" if "isolation_recorded (ie_text env) table_of t0 st"
    proof -
      from that obtain s dns v6 where s: "hi_record st = Some s" "iso_dns_servers s \<in> {None, Some dns}"
        "in_force (ie_text env) table_of t0 v6 (iso_allowed s) dns (hi_fw st)"
        "\<forall>r. iso_release_at s = Some r \<longrightarrow> timer_for r (hi_timers st)" by (auto simp: isolation_recorded_def)
      have "timer_for r ?ts" if "iso_release_at s = Some r" for r
        using False s(1,4) that i by (intro timer_for_fire) (auto simp: release_due_def)
      with s show ?thesis unfolding isolation_recorded_def
        by (intro exI [of _ s] exI [of _ dns] exI [of _ v6]) simp
    qed
    with inv False st' now show ?thesis by (auto simp: iso_inv_def)
  qed
qed

lemma inv_restart:
  assumes "iv_admin view" and now: "0 \<le> hi_now st" and range: "record_in_range (hi_record st)"
    and fw: "released table_of t0 fw \<or> fw = hi_fw st \<and> iso_inv (ie_text env) table_of t0 st"
  shows "iso_inv (ie_text env) table_of t0 (restart_agent env dr view fw st)"
proof -
  let ?st = "st\<lparr>hi_fw := fw, hi_isolated := False, hi_timers := []\<rparr>"
  have rest: "restorable table_of t0 fw" using fw inv_restorable released_restorable by blast
  show ?thesis
  proof (cases "hi_record st")
    case None
    then have "released table_of t0 fw" using fw by (auto simp: iso_inv_def isolation_recorded_def)
    with None now range show ?thesis by (simp add: restart_agent_def reconcile_host_isolation_def iso_inv_def)
  next
    case (Some state)
    show ?thesis
    proof (cases "reconcile_action state (hi_now st)")
      case Release
      obtain u s2 where "release_host env dr view ?st = (u, s2)" by force
      with inv_release [OF assms(1) _ _ _ this, of t0] rest Release Some now range show ?thesis
        by (simp add: restart_agent_def reconcile_host_isolation_def)
    next
      case (Reapply remaining)
      obtain dns where dns: "(case iso_dns_servers state of Some servers \<Rightarrow> (servers, fw) | None \<Rightarrow> system_resolvers env view fw) = (dns, fw)"
        "iso_dns_servers state \<in> {None, Some dns}"
        by (cases "iso_dns_servers state") (auto simp: system_resolvers_def linux)
      obtain r w2 where a: "apply_rules env view (iso_allowed state) dns fw = (r, w2)" by force
      note out = apply_linux [OF rest a]
      let ?timers = "case remaining of Some s \<Rightarrow> [hi_now st + int s] | None \<Rightarrow> []"
      have after: "restart_agent env dr view fw st =
          (case r of
             Inr token \<Rightarrow> ?st\<lparr>hi_fw := w2, hi_isolated := True, hi_timers := ?timers,
               hi_record := (if iv_store view = None
                 then Some (state\<lparr>iso_pf_token := token, iso_dns_servers := Some dns\<rparr>) else hi_record st)\<rparr>
           | Inl e \<Rightarrow> ?st\<lparr>hi_fw := w2, hi_timers := ?timers\<rparr>)"
        using dns(1) a
        by (cases r; cases remaining; cases "iso_dns_servers state")
          (simp_all add: restart_agent_def reconcile_host_isolation_def Some Reapply schedule_release_def)
      show ?thesis
      proof (cases r)
        case (Inl e)
        with out after now range show ?thesis by (simp add: iso_inv_def)
      next
        case (Inr token)
        have timer: "timer_for r' ?timers" if "iso_release_at state = Some r'" for r'
        proof -
          from range Some that have "r' \<le> i64_max" by (simp add: record_in_range_def)
          with Reapply that now show ?thesis
            by (auto simp: reconcile_action_def timer_for_def i64_max_def split: if_splits)
        qed
        have range': "record_in_range (Some (state\<lparr>iso_pf_token := token, iso_dns_servers := Some dns\<rparr>))"
          using range Some by (simp add: record_in_range_def)
        show ?thesis
        proof (cases "iv_store view")
          case None
          with Inr out after now timer range' show ?thesis
            by (auto simp: iso_inv_def isolation_recorded_def intro!: exI [of _ dns])
        next
          case (Some e)
          with Inr out after now timer range dns(2) \<open>hi_record st = Some state\<close> show ?thesis
            by (auto simp: iso_inv_def isolation_recorded_def intro!: exI [of _ dns])
        qed
      qed
    qed
  qed
qed

lemma inv_step:
  assumes "iso_step env (released table_of t0) st st'" and "iso_inv (ie_text env) table_of t0 st"
  shows "iso_inv (ie_text env) table_of t0 st'"
  using assms
proof cases
  case (tick t)
  with assms(2) show ?thesis by (auto simp: iso_inv_def isolation_recorded_def)
next
  case (isolate view dh reason secs r)
  then show ?thesis using inv_isolate assms(2) by blast
next
  case (release view dr u)
  moreover have "0 \<le> hi_now st" "record_in_range (hi_record st)" using assms(2) by (simp_all add: iso_inv_def)
  ultimately show ?thesis using inv_release inv_restorable [OF assms(2)] by blast
next
  case (fire view dr i)
  then show ?thesis using inv_fire assms(2) by blast
next
  case (restart view dr)
  moreover have "0 \<le> hi_now st" "record_in_range (hi_record st)" using assms(2) by (simp_all add: iso_inv_def)
  ultimately show ?thesis using inv_restart assms(2) by blast
next
  case (reboot view fw dr)
  moreover have "0 \<le> hi_now st" "record_in_range (hi_record st)" using assms(2) by (simp_all add: iso_inv_def)
  ultimately show ?thesis using inv_restart by blast
qed

lemma inv_reachable:
  assumes "iso_reachable env (released table_of t0) st0 st" and "iso_inv (ie_text env) table_of t0 st0"
  shows "iso_inv (ie_text env) table_of t0 st"
  using assms by induction (auto intro: inv_step)

end

end
