(* ===== verification/Isolation_Ranges.thy ===== *)
theory Isolation_Ranges imports Isolation_Rules begin

text \<open>
  The ranges the Windows Firewall rules of an isolation block: exactly the addresses that neither
  the platform, the resolvers nor a working network stack need.
\<close>

definition in_ranges :: "nat \<Rightarrow> (nat \<times> nat) list \<Rightarrow> bool" where
  "in_ranges x rs \<longleftrightarrow> list_ex (\<lambda>(a, b). a \<le> x \<and> x \<le> b) rs"

lemma in_ranges_simps [simp]:
  "\<not> in_ranges x []"
  "in_ranges x ((a, b) # rs) \<longleftrightarrow> a \<le> x \<and> x \<le> b \<or> in_ranges x rs"
  "in_ranges x (rs @ rs') \<longleftrightarrow> in_ranges x rs \<or> in_ranges x rs'"
  by (auto simp: in_ranges_def)

definition proper_ranges :: "nat \<Rightarrow> (nat \<times> nat) list \<Rightarrow> bool" where
  "proper_ranges maximum rs \<longleftrightarrow> list_all (\<lambda>(a, b). a \<le> b \<and> b \<le> maximum) rs"

definition apart :: "nat \<times> nat \<Rightarrow> nat \<times> nat \<Rightarrow> bool" where
  "apart r s \<longleftrightarrow> snd r < fst s"

lemma gaps_loop_above:
  "proper_ranges m rs \<Longrightarrow> sorted (map fst rs) \<Longrightarrow> c \<le> m \<Longrightarrow>
    \<forall>(a, b)\<in>set (gaps_loop m rs (Some c)). c \<le> a \<and> a \<le> b \<and> b \<le> m"
proof (induction rs arbitrary: c)
  case (Cons r rs)
  obtain s e where r: "r = (s, e)" by force
  from Cons.prems have p: "s \<le> e" "e \<le> m" "proper_ranges m rs" "sorted (map fst rs)"
    by (auto simp: r proper_ranges_def)
  show ?case
  proof (cases "c \<le> e \<and> e < m")
    case True
    then have "e + 1 \<le> m" by simp
    from Cons.IH [OF p(3,4) this] True p Cons.prems(3) show ?thesis by (fastforce simp: r)
  next
    case False
    with Cons.IH [OF p(3,4) Cons.prems(3)] p Cons.prems(3) show ?thesis
      by (cases rs) (fastforce simp: r)+
  qed
qed simp

lemma gaps_loop_none [simp]: "gaps_loop m rs None = []"
  by (cases rs) auto

lemma gaps_loop_apart:
  "proper_ranges m rs \<Longrightarrow> sorted (map fst rs) \<Longrightarrow> c \<le> m \<Longrightarrow> sorted_wrt apart (gaps_loop m rs (Some c))"
proof (induction rs arbitrary: c)
  case (Cons r rs)
  obtain s e where r: "r = (s, e)" by force
  from Cons.prems have p: "s \<le> e" "e \<le> m" "proper_ranges m rs" "sorted (map fst rs)"
    by (auto simp: r proper_ranges_def)
  show ?case
  proof (cases "c \<le> e \<and> e < m")
    case True
    then have le: "e + 1 \<le> m" by simp
    from Cons.IH [OF p(3,4) le] gaps_loop_above [OF p(3,4) le] True p show ?thesis
      by (fastforce simp: r apart_def)
  next
    case False
    with Cons.IH [OF p(3,4) Cons.prems(3)] p show ?thesis by (auto simp: r)
  qed
qed simp

lemma gaps_loop_complement:
  "proper_ranges m rs \<Longrightarrow> sorted (map fst rs) \<Longrightarrow> c \<le> m \<Longrightarrow>
    in_ranges x (gaps_loop m rs (Some c)) \<longleftrightarrow> c \<le> x \<and> x \<le> m \<and> \<not> in_ranges x rs"
proof (induction rs arbitrary: c)
  case (Cons r rs)
  obtain s e where r: "r = (s, e)" by force
  from Cons.prems have p: "s \<le> e" "e \<le> m" "proper_ranges m rs" "sorted (map fst rs)"
    by (auto simp: r proper_ranges_def)
  have late: "s \<le> x" if "in_ranges x rs"
    using that Cons.prems(2) by (fastforce simp: r in_ranges_def list_ex_iff)
  show ?case
  proof (cases "c \<le> e")
    case True
    show ?thesis
    proof (cases "e < m")
      case True
      then have le: "e + 1 \<le> m" by simp
      from Cons.IH [OF p(3,4) le] \<open>c \<le> e\<close> True p late show ?thesis by (auto simp: r)
    next
      case False
      with \<open>c \<le> e\<close> p late show ?thesis by (auto simp: r)
    qed
  next
    case False
    with Cons.IH [OF p(3,4) Cons.prems(3)] p late show ?thesis by (auto simp: r)
  qed
qed auto

lemma gaps_complement:
  assumes "proper_ranges m rs"
  shows "in_ranges x (gaps rs m) \<longleftrightarrow> x \<le> m \<and> \<not> in_ranges x rs" and "sorted_wrt apart (gaps rs m)"
    and "proper_ranges m (gaps rs m)"
proof -
  have p: "proper_ranges m (sort rs)" using assms by (simp add: proper_ranges_def list_all_iff)
  have "sorted (sort rs)" by simp
  then have s: "sorted (map fst (sort rs))"
    unfolding sorted_wrt_map by (rule sorted_wrt_mono_rel [rotated]) (auto simp: less_eq_prod_def)
  have same: "in_ranges x (sort rs) = in_ranges x rs" by (simp add: in_ranges_def list_ex_iff)
  show "in_ranges x (gaps rs m) \<longleftrightarrow> x \<le> m \<and> \<not> in_ranges x rs"
    using gaps_loop_complement [OF p s le0, of x] same by (simp add: gaps_def)
  show "sorted_wrt apart (gaps rs m)" using gaps_loop_apart [OF p s le0] by (simp add: gaps_def)
  show "proper_ranges m (gaps rs m)"
    using gaps_loop_above [OF p s le0] by (auto simp: gaps_def proper_ranges_def list_all_iff)
qed

definition addr_value :: "ip_addr \<Rightarrow> nat" where
  "addr_value ip = (case ip of V4 w \<Rightarrow> unat w | V6 w \<Rightarrow> unat w)"

lemma proper_kept: "proper_ranges (last_address v6) (kept_ranges allowed v6)"
proof -
  have "unat (w :: 32 word) \<le> 4294967295" for w using unsigned_less [where ?'a = nat, of w] by simp
  moreover have "unat (w :: 128 word) \<le> 340282366920938463463374607431768211455" for w
    using unsigned_less [where ?'a = nat, of w] by simp
  ultimately show ?thesis
    by (auto simp: proper_ranges_def kept_ranges_def last_address_def list_all_iff split: ip_addr.splits if_splits)
qed

lemma addr_value_le: "addr_value ip \<le> last_address (is_ipv6 ip)"
proof -
  have "unat (w :: 32 word) \<le> 4294967295" for w using unsigned_less [where ?'a = nat, of w] by simp
  moreover have "unat (w :: 128 word) \<le> 340282366920938463463374607431768211455" for w
    using unsigned_less [where ?'a = nat, of w] by simp
  ultimately show ?thesis by (auto simp: addr_value_def last_address_def is_ipv6_def split: ip_addr.splits)
qed

text \<open>\<open>fe80::/10\<close>.\<close>

definition is_link_local_v6 :: "ip_addr \<Rightarrow> bool" where
  "is_link_local_v6 ip = (case ip of V4 _ \<Rightarrow> False | V6 w \<Rightarrow> drop_bit 118 w = 0x3fa)"

definition stays_open :: "ip_addr list \<Rightarrow> ip_addr \<Rightarrow> bool" where
  "stays_open allowed ip \<longleftrightarrow>
     ip \<in> set allowed \<or> is_loopback ip \<or> is_ipv6 ip \<and> (is_link_local_v6 ip \<or> is_multicast ip)"

lemma div_range: "0 < p \<Longrightarrow> a div p = v \<longleftrightarrow> v * p \<le> a \<and> a < v * p + p" for a p v :: nat
proof
  assume "0 < p" and v: "a div p = v"
  then have "a mod p < p" by simp
  moreover have "v * p + a mod p = a" using div_mult_mod_eq [of a p] by (simp add: v)
  ultimately show "v * p \<le> a \<and> a < v * p + p" by (intro conjI) linarith+
next
  assume "v * p \<le> a \<and> a < v * p + p"
  then show "a div p = v" by (intro div_nat_eqI) (simp_all add: mult.commute)
qed

lemma drop_bit_range: "drop_bit n w = v \<longleftrightarrow> unat v * 2 ^ n \<le> unat w \<and> unat w < unat v * 2 ^ n + 2 ^ n"
  for w v :: "'a::len word"
proof -
  have "drop_bit n w = v \<longleftrightarrow> unat w div 2 ^ n = unat v"
    by (simp only: word_unat_eq_iff unat_drop_bit_eq) (simp add: drop_bit_eq_div)
  then show ?thesis by (simp add: div_range)
qed

lemma in_ranges_concat: "in_ranges x (concat (map f xs)) \<longleftrightarrow> (\<exists>y\<in>set xs. in_ranges x (f y))"
  by (induction xs) auto

lemma kept_iff_v4: "in_ranges (unat w) (kept_ranges allowed False) \<longleftrightarrow> V4 w \<in> set allowed \<or> is_loopback (V4 w)"
proof -
  have "in_ranges (unat w) (case ip of V4 v4 \<Rightarrow> [(unat v4, unat v4)] | V6 v6 \<Rightarrow> []) \<longleftrightarrow> ip = V4 w" for ip
    by (cases ip) (auto simp: word_unat_eq_iff)
  then have "in_ranges (unat w) (concat (map (\<lambda>ip. case ip of V4 v4 \<Rightarrow> [(unat v4, unat v4)] | V6 v6 \<Rightarrow> []) allowed))
      \<longleftrightarrow> V4 w \<in> set allowed"
    by (simp add: in_ranges_concat)
  moreover have "is_loopback (V4 w) \<longleftrightarrow> 2130706432 \<le> unat w \<and> unat w \<le> 2147483647"
    by (simp add: is_loopback_def drop_bit_range less_Suc_eq_le) linarith
  ultimately show ?thesis by (auto simp: kept_ranges_def)
qed

lemma kept_iff_v6: "in_ranges (unat w) (kept_ranges allowed True) \<longleftrightarrow>
  V6 w \<in> set allowed \<or> is_loopback (V6 w) \<or> is_link_local_v6 (V6 w) \<or> is_multicast (V6 w)"
proof -
  have "in_ranges (unat w) (case ip of V4 v4 \<Rightarrow> [] | V6 v6 \<Rightarrow> [(unat v6, unat v6)]) \<longleftrightarrow> ip = V6 w" for ip
    by (cases ip) (auto simp: word_unat_eq_iff)
  then have "in_ranges (unat w) (concat (map (\<lambda>ip. case ip of V4 v4 \<Rightarrow> [] | V6 v6 \<Rightarrow> [(unat v6, unat v6)]) allowed))
      \<longleftrightarrow> V6 w \<in> set allowed"
    by (simp add: in_ranges_concat)
  moreover have "unat w \<le> 2 ^ 128 - 1"
    using unsigned_less [where ?'a = nat, of w] by simp
  moreover have "is_loopback (V6 w) \<longleftrightarrow> unat w = 1" by (simp add: is_loopback_def word_unat_eq_iff)
  ultimately show ?thesis
    by (auto simp: kept_ranges_def is_link_local_v6_def is_multicast_def drop_bit_range)
qed

lemma kept_iff: "in_ranges (addr_value ip) (kept_ranges allowed (is_ipv6 ip)) \<longleftrightarrow> stays_open allowed ip"
  by (cases ip) (auto simp: stays_open_def addr_value_def is_ipv6_def kept_iff_v4 kept_iff_v6 is_link_local_v6_def)

end
