(* ===== verification/Isolation_Props.thy ===== *)
theory Isolation_Props imports Isolation_Service Isolation_Ranges begin

text \<open>
  What the isolation of a host promises, on Linux for any tools that keep the contracts, and for the
  address ranges of the Windows rules. The witnesses run on a machine with bare chains.
\<close>

section \<open>A machine\<close>

definition linux_env :: "chain_world iso_env" where
  "linux_env = \<lparr>ie_os = Linux, ie_run = chain_run, ie_write_pf = (\<lambda>_ w. (None, w)), ie_remove_pf = (\<lambda>w. w),
     ie_pf_file = [], ie_text = plain_text, ie_parse = loopless_parse, ie_url = (\<lambda>url. Some (Some url, None))\<rparr>"

interpretation linux_host: linux_isolation linux_env "\<lambda>w. w"
  by (intro linux_isolation.intro linux_isolation_axioms.intro)
    (simp_all add: linux_env_def linux.packet_filter_axioms plain.address_text_axioms)

definition bare_chains :: "string \<Rightarrow> chain_table" where
  "bare_chains p = [(''INPUT'', []), (''OUTPUT'', []), (''FORWARD'', [])]"

lemma bare_released: "released (\<lambda>w. w) bare_chains bare_chains"
  by (auto simp: released_def clean_def bare_chains_def built_in_chains_def referenced_def IPTABLES_CHAIN_IN_def
      IPTABLES_CHAIN_OUT_def)

definition bare_host :: "chain_world iso_host" where
  "bare_host = \<lparr>hi_fw = bare_chains, hi_record = None, hi_isolated = False, hi_timers = [], hi_now = 1000\<rparr>"

definition root_view :: iso_view where
  "root_view = \<lparr>iv_admin = True, iv_config = Inr \<lparr>ic_standalone = False, ic_server_url = ''47''\<rparr>, iv_lookup = (\<lambda>_ _. Inl []),
     iv_file = (\<lambda>_. Some ''nameserver 45''), iv_ipv6 = True, iv_store = None, iv_remove = None\<rparr>"

definition isolated_state :: isolation_state where
  "isolated_state = \<lparr>iso_isolated_at = 1000, iso_release_at = Some 1060, iso_reason = ''test'', iso_allowed = [V4 7],
     iso_dns_servers = Some [V4 5], iso_pf_token = None\<rparr>"

lemma chain_run_all:
  "\<forall>c\<in>set cmds. program c = p \<Longrightarrow> chain_ops (map args cmds) (w p) = Some t \<Longrightarrow>
    run_all_or_rollback chain_run cmds rollback w = (None, w(p := t))"
proof (induction cmds arbitrary: w)
  case (Cons c cs)
  then obtain t1 where t1: "chain_op (args c) (w p) = Some t1" "chain_ops (map args cs) t1 = Some t"
    by (auto split: Option.bind_splits)
  with Cons.prems(1) have "chain_run c w = (Inr [], w(p := t1))" by (simp add: chain_run_def)
  moreover have "run_all_or_rollback chain_run cs rollback (w(p := t1)) = (None, (w(p := t1))(p := t))"
    using Cons.prems(1) t1(2) by (intro Cons.IH) simp_all
  ultimately show ?case by (auto simp: fun_upd_def)
qed auto

lemma linux_family:
  assumes "clean (w (family_program v6))"
  shows "run_all_or_rollback chain_run (iptables_apply plain_text allowed dns v6) rollback w =
    (None, w(family_program v6 := isolated_table (isolation_additions plain_text allowed dns v6) (w (family_program v6))))"
  using chain_run_all [of "iptables_apply plain_text allowed dns v6" "family_program v6" w]
    apply_complete [OF assms isolation_additions_proper] iptables_apply_program
  by (simp add: iptables_apply_args)

lemma linux_apply:
  assumes "released (\<lambda>w. w) t0 w"
  shows "fst (apply_rules linux_env view allowed dns w) = Inr None"
proof -
  let ?w0 = "run_all_best_effort chain_run iptables_release w"
  have env: "ie_os linux_env = Linux" "ie_run linux_env = chain_run" "ie_text linux_env = plain_text" by (simp_all add: linux_env_def)
  have "released (\<lambda>w. w) t0 ?w0"
    using linux_host.release_released [OF linux_host.released_restorable [OF assms]] by (simp add: env)
  then have "clean (?w0 (family_program v6))" for v6 by (simp add: released_def)
  then have c: "clean (?w0 ''iptables'')" "clean (?w0 ''ip6tables'')"
    by (metis family_program_def)+
  let ?w1 = "?w0(''iptables'' := isolated_table (isolation_additions plain_text allowed dns False) (?w0 ''iptables''))"
  have "run_all_or_rollback chain_run (iptables_apply plain_text allowed dns False) iptables_release ?w0 = (None, ?w1)"
    using linux_family [of ?w0 False] c by (simp add: family_program_def)
  moreover have "fst (run_all_or_rollback chain_run (iptables_apply plain_text allowed dns True) iptables_release ?w1) = None"
    using linux_family [of ?w1 True] c by (simp add: family_program_def)
  ultimately show ?thesis by (auto simp: apply_rules_def env split: option.splits prod.splits)
qed

lemma bare_addresses:
  "control_channel_addresses linux_env root_view \<lparr>ic_standalone = False, ic_server_url = ''47''\<rparr> = Inr [V4 7]"
  "system_resolvers linux_env root_view w = ([V4 5], w)"
proof -
  show "control_channel_addresses linux_env root_view \<lparr>ic_standalone = False, ic_server_url = ''47''\<rparr> = Inr [V4 7]"
    by code_simp
  have "fst (system_resolvers linux_env root_view (\<lambda>_. [])) = [V4 5]" by code_simp
  then show "system_resolvers linux_env root_view w = ([V4 5], w)"
    by (simp add: system_resolvers_def linux_env_def)
qed

section \<open>What the isolation promises\<close>

text \<open>C12: An isolation that succeeds on Linux cuts the host off exactly: every packet of a filtered
  family is let out only over the loopback, to DHCP, to the port 53 of a resolver or to the platform,
  and let in only from the loopback, as a DHCP answer or a related ICMP error, or as an answer of the platform or a
  resolver (neighbour discovery aside); the addresses left open are the platform's and the resolvers
  read at that time, and the isolation is recorded. One that fails leaves the chains alone or gives
  them back as they were, whatever command it failed at.\<close>

theorem isolate_host_cuts_off:
  assumes "linux_isolation env table_of" and "restorable table_of t0 (hi_fw st)" and "iv_admin view"
    and "isolate_host env delegate view reason secs st = (r, st')"
  shows "case r of
      Inl e \<Rightarrow> \<exists>fw. (fw = hi_fw st \<or> released table_of t0 fw) \<and> st' = st\<lparr>hi_fw := fw\<rparr>
    | Inr s \<Rightarrow> \<exists>config. iv_config view = Inr config \<and> hi_record st' = Some s \<and> hi_isolated st' \<and>
        control_channel_addresses env view config = Inr (iso_allowed s) \<and>
        (let dns = fst (system_resolvers env view (hi_fw st)) in
         iso_dns_servers s = Some dns \<and>
         isolated_by (ie_parse env) (iso_allowed s) dns False (table_of (hi_fw st') ''iptables'') \<and>
         (iv_ipv6 view \<longrightarrow> isolated_by (ie_parse env) (iso_allowed s) dns True (table_of (hi_fw st') ''ip6tables'')))"
  using linux_isolation.isolate_host_outcome [OF assms(1,3,2,4)] linux_isolation.in_force_isolated [OF assms(1)]
  by (auto simp: Let_def split: sum.splits)

theorem isolate_host_cuts_off_witness:
  "\<exists>s st'. isolate_host linux_env (\<lambda>_ _ st. (Inl [], st)) root_view ''test'' 60 bare_host = (Inr s, st') \<and>
     iso_allowed s = [V4 7] \<and> hi_isolated st' \<and>
     isolated_by loopless_parse [V4 7] [V4 5] False (hi_fw st' ''iptables'') \<and>
     isolated_by loopless_parse [V4 7] [V4 5] True (hi_fw st' ''ip6tables'')"
proof -
  obtain r st' where i: "isolate_host linux_env (\<lambda>_ _ st. (Inl [], st)) root_view ''test'' 60 bare_host = (r, st')" by force
  have rel: "released (\<lambda>w. w) bare_chains (hi_fw bare_host)" using bare_released by (simp add: bare_host_def)
  have "\<exists>s. r = Inr s \<and> iso_allowed s = [V4 7]"
    using i linux_apply [OF rel, of root_view "[V4 7]" "[V4 5]"]
    by (auto simp: isolate_host_def bare_addresses root_view_def [symmetric] Let_def split: prod.splits sum.splits)
      (auto simp: root_view_def bare_addresses [unfolded root_view_def] Let_def)
  then obtain s where s: "r = Inr s" "iso_allowed s = [V4 7]" by blast
  have view: "iv_admin root_view" "iv_ipv6 root_view" "ie_parse linux_env = loopless_parse"
    by (simp_all add: root_view_def linux_env_def)
  from isolate_host_cuts_off [OF linux_host.linux_isolation_axioms linux_host.released_restorable [OF rel] view(1) i]
  have "hi_isolated st' \<and> isolated_by loopless_parse [V4 7] [V4 5] False (hi_fw st' ''iptables'') \<and>
      isolated_by loopless_parse [V4 7] [V4 5] True (hi_fw st' ''ip6tables'')"
    by (auto simp: s bare_addresses view Let_def)
  with i s show ?thesis by blast
qed



text \<open>C14: A timed isolation ends when it should: no task that wakes before its end touches the firewall,
  and once its end has come a task is there to wake, which gives the chains back as they were without it.\<close>

theorem timed_isolation_ends:
  assumes "linux_isolation env table_of" and "isolation_recorded (ie_text env) table_of t0 st"
    and "hi_record st = Some s" and "iso_release_at s = Some r" and "r < i64_max" and "iv_admin view"
  shows "(t < r \<longrightarrow> (\<forall>i st'. fire_release env delegate view i (st\<lparr>hi_now := t\<rparr>) = Some st' \<longrightarrow> hi_fw st' = hi_fw st)) \<and>
    (r \<le> t \<longrightarrow> (\<exists>i st'. fire_release env delegate view i (st\<lparr>hi_now := t\<rparr>) = Some st' \<and>
       released table_of t0 (hi_fw st') \<and> \<not> hi_isolated st'))"
proof (intro conjI impI allI)
  fix i st' assume "t < r" and "fire_release env delegate view i (st\<lparr>hi_now := t\<rparr>) = Some st'"
  with assms(3,4) show "hi_fw st' = hi_fw st"
    by (auto simp: fire_release_def Let_def release_due_def split: if_splits)
next
  assume t: "r \<le> t"
  from assms(2-4) have "timer_for r (hi_timers st)" and rest: "restorable table_of t0 (hi_fw st)"
    using linux_isolation.in_force_restorable [OF assms(1)] by (auto simp: isolation_recorded_def)
  then obtain i where i: "i < length (hi_timers st)" "hi_timers st ! i = r"
    using assms(5) by (auto simp: timer_for_def in_set_conv_nth)
  let ?st1 = "st\<lparr>hi_now := t, hi_timers := take i (hi_timers st) @ drop (Suc i) (hi_timers st)\<rparr>"
  obtain u st' where rel: "release_host env delegate view ?st1 = (u, st')" by force
  from i t assms(3,4) rel have "fire_release env delegate view i (st\<lparr>hi_now := t\<rparr>) = Some st'"
    by (simp add: fire_release_def Let_def release_due_def)
  moreover have "released table_of t0 (hi_fw st')"
    using linux_isolation.release_host_released [OF assms(1,6) _ rel, of t0] rest by simp
  moreover have "\<not> hi_isolated st'"
    using rel assms(6) by (auto simp: release_host_def Let_def split: option.splits)
  ultimately show "\<exists>i st'. fire_release env delegate view i (st\<lparr>hi_now := t\<rparr>) = Some st' \<and>
       released table_of t0 (hi_fw st') \<and> \<not> hi_isolated st'" by blast
qed

definition isolated_bare_host :: "chain_world iso_host" where
  "isolated_bare_host = bare_host\<lparr>hi_isolated := True, hi_record := Some isolated_state, hi_timers := [1060],
     hi_fw := (\<lambda>p. if p = ''iptables'' then isolated_table (isolation_additions plain_text [V4 7] [V4 5] False) (bare_chains p)
       else bare_chains p)\<rparr>"

lemma isolated_bare_in_force: "in_force plain_text (\<lambda>w. w) bare_chains False [V4 7] [V4 5] (hi_fw isolated_bare_host)"
  using bare_released by (auto simp: in_force_def isolated_bare_host_def released_def)

lemma isolated_bare_recorded: "isolation_recorded plain_text (\<lambda>w. w) bare_chains isolated_bare_host"
  using isolated_bare_in_force unfolding isolation_recorded_def
  by (intro exI [of _ isolated_state] exI [of _ "[V4 5]"] exI [of _ False])
    (simp add: isolated_state_def timer_for_def isolated_bare_host_def)

theorem timed_isolation_ends_witness:
  "\<exists>i st'. fire_release linux_env (\<lambda>st. (Inr (), st)) root_view i (isolated_bare_host\<lparr>hi_now := 1060\<rparr>) = Some st' \<and>
     released (\<lambda>w. w) bare_chains (hi_fw st') \<and> \<not> hi_isolated st'"
proof -
  have "isolation_recorded (ie_text linux_env) (\<lambda>w. w) bare_chains isolated_bare_host"
    using isolated_bare_recorded by (simp add: linux_env_def)
  moreover have "hi_record isolated_bare_host = Some isolated_state" "iso_release_at isolated_state = Some 1060"
    "(1060::int) < i64_max" "iv_admin root_view"
    by (simp_all add: isolated_bare_host_def isolated_state_def root_view_def i64_max_def)
  ultimately show ?thesis using timed_isolation_ends [OF linux_host.linux_isolation_axioms, of bare_chains _ _ 1060] by blast
qed

text \<open>A second isolation that fails while the host is isolated opens the host: whether a command failed or the
  record could not be written, the chains are given back as they are without an isolation, while
  the record and the flag still say that the host is isolated.\<close>

theorem failed_reisolation_opens_host:
  assumes "linux_isolation env table_of" and "in_force (ie_text env) table_of t0 v6 (iso_allowed s) dns (hi_fw st)"
    and "hi_record st = Some s" and "hi_isolated st" and "iv_admin view" and "iv_config view = Inr config"
    and "control_channel_addresses env view config = Inr allowed"
    and "isolate_host env delegate view reason secs st = (Inl e, st')"
  shows "released table_of t0 (hi_fw st') \<and> hi_record st' = Some s \<and> hi_isolated st'"
  using linux_isolation.reisolation_fails [OF assms(1,5,6,7) _ assms(8)] linux_isolation.in_force_restorable [OF assms(1,2)]
    assms(3,4) by simp

theorem failed_reisolation_opens_host_witness:
  "\<exists>e st'. isolate_host linux_env (\<lambda>_ _ st. (Inl [], st)) (root_view\<lparr>iv_store := Some ''disk full''\<rparr>) ''again'' 60
       isolated_bare_host = (Inl e, st') \<and>
     released (\<lambda>w. w) bare_chains (hi_fw st') \<and> hi_record st' = Some isolated_state \<and> hi_isolated st'"
proof -
  let ?view = "root_view\<lparr>iv_store := Some ''disk full''\<rparr>" and ?config = "\<lparr>ic_standalone = False, ic_server_url = ''47''\<rparr>"
  obtain r st' where i: "isolate_host linux_env (\<lambda>_ _ st. (Inl [], st)) ?view ''again'' 60 isolated_bare_host = (r, st')" by force
  have v: "iv_admin ?view" "iv_config ?view = Inr ?config" "iv_store ?view = Some ''disk full''"
    by (simp_all add: root_view_def)
  have c: "control_channel_addresses linux_env ?view ?config = Inr [V4 7]"
    by code_simp
  have "\<exists>e. r = Inl e"
    using i v c by (auto simp: isolate_host_def Let_def split: prod.splits sum.splits)
  then obtain e where "r = Inl e" ..
  moreover have "in_force (ie_text linux_env) (\<lambda>w. w) bare_chains False (iso_allowed isolated_state) [V4 5] (hi_fw isolated_bare_host)"
    using isolated_bare_in_force by (simp add: linux_env_def isolated_state_def)
  moreover have "hi_record isolated_bare_host = Some isolated_state" "hi_isolated isolated_bare_host"
    by (simp_all add: isolated_bare_host_def)
  ultimately show ?thesis
    using i failed_reisolation_opens_host [OF linux_host.linux_isolation_axioms _ _ _ v(1,2) c] by blast
qed

text \<open>The addresses the Windows Firewall rules of an isolation block are exactly those of the family that are neither left
  open to the platform, nor loopback, nor needed by IPv6 (link-local and multicast), as ranges in
  increasing order that do not overlap.\<close>

theorem windows_blocks_all_but:
  "\<exists>ranges. netsh_blocked_addresses text allowed v6 = join_with '','' (map (show_range text v6) ranges) \<and>
     sorted_wrt apart ranges \<and> proper_ranges (last_address v6) ranges \<and>
     (\<forall>ip. is_ipv6 ip = v6 \<longrightarrow> in_ranges (addr_value ip) ranges = (\<not> stays_open allowed ip))"
proof (intro exI conjI allI impI)
  let ?ranges = "gaps (kept_ranges allowed v6) (last_address v6)"
  show "netsh_blocked_addresses text allowed v6 = join_with '','' (map (show_range text v6) ?ranges)"
    by (simp add: netsh_blocked_addresses_def)
  show "sorted_wrt apart ?ranges" "proper_ranges (last_address v6) ?ranges"
    by (rule gaps_complement [OF proper_kept])+
  show "in_ranges (addr_value ip) ?ranges = (\<not> stays_open allowed ip)" if "is_ipv6 ip = v6" for ip
    using that addr_value_le [of ip] by (auto simp: gaps_complement [OF proper_kept] simp flip: kept_iff)
qed

theorem windows_blocks_all_but_witness:
  "\<exists>ranges. netsh_blocked_addresses plain_text [V4 7] False = join_with '','' (map (show_range plain_text False) ranges) \<and>
     in_ranges 8 ranges \<and> \<not> in_ranges 7 ranges"
proof -
  from windows_blocks_all_but [of plain_text "[V4 7]" False] obtain ranges where
    r: "netsh_blocked_addresses plain_text [V4 7] False = join_with '','' (map (show_range plain_text False) ranges)"
    "\<forall>ip. is_ipv6 ip = False \<longrightarrow> in_ranges (addr_value ip) ranges = (\<not> stays_open [V4 7] ip)" by blast
  from r(2) [rule_format, of "V4 8"] r(2) [rule_format, of "V4 7"]
  have "in_ranges 8 ranges" "\<not> in_ranges 7 ranges"
    by (simp_all add: is_ipv6_def addr_value_def stays_open_def is_loopback_def drop_bit_range)
  with r(1) show ?thesis by blast
qed

end
