(* ===== verification/Sigma_Match.thy ===== *)
theory Sigma_Match imports Ip_Block begin

text \<open>
  Values of Sigma detection rules (\<open>crates/agent-scanner/src/security/sigma.rs\<close>): levels,
  networks, matchers, the modifiers of a field and the compilation of a search.

  The crates \<open>regex\<close>, \<open>base64\<close> and the parsing of floats and addresses are fields of \<open>env\<close>. A YAML
  document is the public \<open>Yaml\<close> type of \<open>yaml_rust2\<close>; parsing its text is a parameter.
\<close>

section \<open>YAML values\<close>

datatype yaml =
    YReal string
  | YInteger i64
  | YString string
  | YBoolean bool
  | YArray "yaml list"
  | YHash "(yaml \<times> yaml) list"
  | YAlias nat
  | YNull
  | YBadValue

text \<open>\<open>document["key"]\<close>: a missing key, and anything that is not a map, give \<open>BadValue\<close>.\<close>

definition yaml_index :: "yaml \<Rightarrow> string \<Rightarrow> yaml" where
  "yaml_index y key =
     (case y of
        YHash h \<Rightarrow> (case map_of h (YString key) of Some v \<Rightarrow> v | None \<Rightarrow> YBadValue)
      | _ \<Rightarrow> YBadValue)"

definition as_hash :: "yaml \<Rightarrow> (yaml \<times> yaml) list option" where
  "as_hash y = (case y of YHash h \<Rightarrow> Some h | _ \<Rightarrow> None)"

definition as_vec :: "yaml \<Rightarrow> yaml list option" where
  "as_vec y = (case y of YArray items \<Rightarrow> Some items | _ \<Rightarrow> None)"

definition as_bool :: "yaml \<Rightarrow> bool option" where
  "as_bool y = (case y of YBoolean b \<Rightarrow> Some b | _ \<Rightarrow> None)"

definition as_str :: "yaml \<Rightarrow> string option" where
  "as_str y = (case y of YString s \<Rightarrow> Some s | _ \<Rightarrow> None)"

definition as_i64 :: "yaml \<Rightarrow> i64 option" where
  "as_i64 y = (case y of YInteger n \<Rightarrow> Some n | _ \<Rightarrow> None)"

definition show_int :: "int \<Rightarrow> string" where
  "show_int i = (if i < 0 then CHR ''-'' # show_nat (nat (- i)) else show_nat (nat i))"

definition scalar_text :: "yaml \<Rightarrow> string option" where
  "scalar_text value =
     (case value of
        YString text' \<Rightarrow> Some text'
      | YInteger number \<Rightarrow> Some (show_int number)
      | YReal number \<Rightarrow> Some number
      | YBoolean flag \<Rightarrow> Some (if flag then ''true'' else ''false'')
      | _ \<Rightarrow> None)"

section \<open>Levels\<close>

datatype sigma_level = LInformational | LLow | LMedium | LHigh | LCritical

definition parse_level :: "string \<Rightarrow> sigma_level" where
  "parse_level level =
     (let t = to_ascii_lowercase (trim level) in
      if t = ''informational'' \<or> t = ''info'' then LInformational
      else if t = ''low'' then LLow
      else if t = ''high'' then LHigh
      else if t = ''critical'' then LCritical
      else LMedium)"

text \<open>The derived order, by position.\<close>

definition level_rank :: "sigma_level \<Rightarrow> nat" where
  "level_rank l = (case l of LInformational \<Rightarrow> 0 | LLow \<Rightarrow> 1 | LMedium \<Rightarrow> 2 | LHigh \<Rightarrow> 3 | LCritical \<Rightarrow> 4)"

instantiation sigma_level :: linorder
begin

definition less_eq_sigma_level :: "sigma_level \<Rightarrow> sigma_level \<Rightarrow> bool" where
  "less_eq_sigma_level a b \<longleftrightarrow> level_rank a \<le> level_rank b"

definition less_sigma_level :: "sigma_level \<Rightarrow> sigma_level \<Rightarrow> bool" where
  "less_sigma_level a b \<longleftrightarrow> level_rank a < level_rank b"

instance
proof
  fix a b :: sigma_level
  show "a \<le> b \<Longrightarrow> b \<le> a \<Longrightarrow> a = b"
    by (cases a; cases b) (simp_all add: less_eq_sigma_level_def level_rank_def)
qed (auto simp: less_eq_sigma_level_def less_sigma_level_def)

end

section \<open>Networks\<close>

record network =
  net_address :: ip_addr
  net_prefix :: nat

definition network_parse :: "(string \<Rightarrow> ip_addr option) \<Rightarrow> string \<Rightarrow> network option" where
  "network_parse parse_ip txt =
     (let t = trim txt;
          (address, pre) = (case split_once (CHR ''/'') t of Some (a, p) \<Rightarrow> (a, Some p) | None \<Rightarrow> (t, None))
      in case parse_ip address of
           None \<Rightarrow> None
         | Some ip \<Rightarrow>
             (let width = (if is_ipv6 ip then 128 else 32)
              in case pre of
                   None \<Rightarrow> Some \<lparr>net_address = ip, net_prefix = width\<rparr>
                 | Some p \<Rightarrow>
                     (case parse_unsigned 255 p of
                        None \<Rightarrow> None
                      | Some n \<Rightarrow> if n \<le> width then Some \<lparr>net_address = ip, net_prefix = n\<rparr> else None)))"

definition address_bits :: "ip_addr \<Rightarrow> 128 word" where
  "address_bits ip = (case ip of V4 w \<Rightarrow> push_bit 96 (ucast w) | V6 w \<Rightarrow> w)"

definition network_contains :: "network \<Rightarrow> ip_addr \<Rightarrow> bool" where
  "network_contains net ip =
     (let address = to_canonical ip in
      if is_ipv6 address \<noteq> is_ipv6 (net_address net) then False
      else if net_prefix net = 0 then True
      else let mask = push_bit (128 - net_prefix net) (- 1 :: 128 word)
           in and (address_bits address) mask = and (address_bits (net_address net)) mask)"

section \<open>The libraries\<close>

record ('re, 'num) sigma_env =
  se_build :: "bool \<Rightarrow> string \<Rightarrow> 're option"
  se_static :: "string \<Rightarrow> 're"
  se_is_match :: "'re \<Rightarrow> string \<Rightarrow> bool"
  se_replace_all :: "'re \<Rightarrow> string \<Rightarrow> string \<Rightarrow> string"
  se_escape :: "string \<Rightarrow> string"
  se_base64 :: "string \<Rightarrow> string"
  se_parse_f64 :: "string \<Rightarrow> 'num option"
  se_lt :: "'num \<Rightarrow> 'num \<Rightarrow> bool"
  se_le :: "'num \<Rightarrow> 'num \<Rightarrow> bool"
  se_parse_ip :: "string \<Rightarrow> ip_addr option"

text \<open>
  \<open>se_build case_insensitive pattern\<close> is the \<open>RegexBuilder\<close> chain of \<open>compile\<close>, which fails on an
  invalid or too large pattern; \<open>se_static\<close> is \<open>Regex::new(..).expect(..)\<close> on a constant.
\<close>

section \<open>Matching\<close>

type_synonym sigma_event = "string str_map"

datatype comparison = Lt | Lte | Gt | Gte

datatype ('re, 'num) matcher =
    MNull
  | MPattern 're
  | MCompare comparison 'num
  | MFieldRef string
  | MCidr network

definition compares :: "('re, 'num) sigma_env \<Rightarrow> comparison \<Rightarrow> 'num \<Rightarrow> 'num \<Rightarrow> bool" where
  "compares env c number threshold =
     (case c of
        Lt \<Rightarrow> se_lt env number threshold
      | Lte \<Rightarrow> se_le env number threshold
      | Gt \<Rightarrow> se_lt env threshold number
      | Gte \<Rightarrow> se_le env threshold number)"

definition matcher_matches ::
  "('re, 'num) sigma_env \<Rightarrow> ('re, 'num) matcher \<Rightarrow> string option \<Rightarrow> sigma_event \<Rightarrow> bool" where
  "matcher_matches env m value event =
     (case m of
        MNull \<Rightarrow> (case value of None \<Rightarrow> True | Some v \<Rightarrow> v = [])
      | MPattern regex \<Rightarrow> (case value of None \<Rightarrow> False | Some v \<Rightarrow> se_is_match env regex v)
      | MCompare c threshold \<Rightarrow>
          (case Option.bind value (\<lambda>v. se_parse_f64 env (trim v)) of
             None \<Rightarrow> False
           | Some number \<Rightarrow> compares env c number threshold)
      | MFieldRef other \<Rightarrow>
          (case (value, map_of event other) of
             (Some v, Some o') \<Rightarrow> to_ascii_lowercase v = to_ascii_lowercase o'
           | _ \<Rightarrow> False)
      | MCidr net \<Rightarrow>
          (case Option.bind value (\<lambda>v. se_parse_ip env (trim v)) of
             None \<Rightarrow> False
           | Some address \<Rightarrow> network_contains net address))"

record ('re, 'num) field_match =
  fm_field :: string
  fm_matchers :: "('re, 'num) matcher list"
  fm_all :: bool
  fm_exists :: "bool option"

definition field_matches ::
  "('re, 'num) sigma_env \<Rightarrow> ('re, 'num) field_match \<Rightarrow> sigma_event \<Rightarrow> bool" where
  "field_matches env fm event =
     (let value = map_of event (fm_field fm) in
      case fm_exists fm of
        Some expected \<Rightarrow> (value \<noteq> None) = expected
      | None \<Rightarrow>
          if fm_all fm then list_all (\<lambda>m. matcher_matches env m value event) (fm_matchers fm)
          else list_ex (\<lambda>m. matcher_matches env m value event) (fm_matchers fm))"

datatype ('re, 'num) search =
    Fields "('re, 'num) field_match list list"
  | Keywords "'re list"

definition search_matches ::
  "('re, 'num) sigma_env \<Rightarrow> ('re, 'num) search \<Rightarrow> sigma_event \<Rightarrow> bool" where
  "search_matches env s event =
     (case s of
        Fields alternatives \<Rightarrow> list_ex (\<lambda>fields. list_all (\<lambda>f. field_matches env f event) fields) alternatives
      | Keywords keywords \<Rightarrow> list_ex (\<lambda>k. list_ex (\<lambda>(_, value). se_is_match env k value) event) keywords)"

end
