(* ===== verification/Sigma_Compile.thy ===== *)
theory Sigma_Compile imports Sigma_Match begin

text \<open>
  Compilation of Sigma values (\<open>crates/agent-scanner/src/security/sigma.rs\<close>, value compilation):
  modifiers, wildcards, dash variants, encodings, and the searches of a rule.
\<close>

section \<open>Modifiers\<close>

datatype anchor = AExact | AContains | AStartsWith | AEndsWith

record modifiers =
  mo_anchor :: anchor
  mo_all :: bool
  mo_regex :: bool
  mo_cased :: bool
  mo_exists :: bool
  mo_windash :: bool
  mo_wide :: bool
  mo_base64 :: bool
  mo_base64_offset :: bool
  mo_comparison :: "comparison option"
  mo_fieldref :: bool
  mo_cidr :: bool

definition no_modifiers :: modifiers where
  "no_modifiers = \<lparr>mo_anchor = AExact, mo_all = False, mo_regex = False, mo_cased = False, mo_exists = False,
     mo_windash = False, mo_wide = False, mo_base64 = False, mo_base64_offset = False,
     mo_comparison = None, mo_fieldref = False, mo_cidr = False\<rparr>"

text \<open>The names, and what each sets.\<close>

definition modifier_table :: "(modifiers \<Rightarrow> modifiers) str_map" where
  "modifier_table =
     [(''contains'', \<lambda>m. m\<lparr>mo_anchor := AContains\<rparr>),
      (''startswith'', \<lambda>m. m\<lparr>mo_anchor := AStartsWith\<rparr>),
      (''endswith'', \<lambda>m. m\<lparr>mo_anchor := AEndsWith\<rparr>),
      (''all'', \<lambda>m. m\<lparr>mo_all := True\<rparr>),
      (''re'', \<lambda>m. m\<lparr>mo_regex := True\<rparr>),
      (''cased'', \<lambda>m. m\<lparr>mo_cased := True\<rparr>),
      (''exists'', \<lambda>m. m\<lparr>mo_exists := True\<rparr>),
      (''windash'', \<lambda>m. m\<lparr>mo_windash := True\<rparr>),
      (''wide'', \<lambda>m. m\<lparr>mo_wide := True\<rparr>),
      (''utf16le'', \<lambda>m. m\<lparr>mo_wide := True\<rparr>),
      (''utf16'', \<lambda>m. m\<lparr>mo_wide := True\<rparr>),
      (''base64'', \<lambda>m. m\<lparr>mo_base64 := True\<rparr>),
      (''base64offset'', \<lambda>m. m\<lparr>mo_base64_offset := True\<rparr>),
      (''lt'', \<lambda>m. m\<lparr>mo_comparison := Some Lt\<rparr>),
      (''lte'', \<lambda>m. m\<lparr>mo_comparison := Some Lte\<rparr>),
      (''gt'', \<lambda>m. m\<lparr>mo_comparison := Some Gt\<rparr>),
      (''gte'', \<lambda>m. m\<lparr>mo_comparison := Some Gte\<rparr>),
      (''fieldref'', \<lambda>m. m\<lparr>mo_fieldref := True\<rparr>),
      (''cidr'', \<lambda>m. m\<lparr>mo_cidr := True\<rparr>)]"

text \<open>The first unknown name is refused.\<close>

fun modifiers_loop :: "modifiers \<Rightarrow> string list \<Rightarrow> string + modifiers" where
  "modifiers_loop m [] = Inr m"
| "modifiers_loop m (name # names) =
     (case map_of modifier_table (to_ascii_lowercase name) of
        None \<Rightarrow> Inl (to_ascii_lowercase name)
      | Some set_it \<Rightarrow> modifiers_loop (set_it m) names)"

definition parse_modifiers :: "string list \<Rightarrow> string + modifiers" where
  "parse_modifiers = modifiers_loop no_modifiers"

section \<open>Characters\<close>

text \<open>\<open>chars()\<close>: each character with the bytes that continue it.\<close>

fun chars :: "string \<Rightarrow> string list" where
  "chars [] = []"
| "chars (c # cs) =
     (case chars cs of
        [] \<Rightarrow> [[c]]
      | u # us \<Rightarrow> (case u of [] \<Rightarrow> [c] # us | d # _ \<Rightarrow> if starts_char d then [c] # u # us else (c # u) # us))"

text \<open>\<open>encode_utf16\<close> of one UTF-8 character, as little-endian bytes.\<close>

definition code_point :: "string \<Rightarrow> nat" where
  "code_point u =
     (case map byte u of
        [a] \<Rightarrow> a
      | [a, b] \<Rightarrow> (a mod 32) * 64 + b mod 64
      | [a, b, c] \<Rightarrow> (a mod 16) * 4096 + (b mod 64) * 64 + c mod 64
      | [a, b, c, d] \<Rightarrow> (a mod 8) * 262144 + (b mod 64) * 4096 + (c mod 64) * 64 + d mod 64
      | _ \<Rightarrow> 0)"

definition u16_le :: "nat \<Rightarrow> string" where
  "u16_le n = [char_of (n mod 256), char_of (n div 256 mod 256)]"

definition utf16_le :: "string \<Rightarrow> string" where
  "utf16_le s =
     concat (map (\<lambda>u. let p = code_point u in
       if p < 0x10000 then u16_le p
       else u16_le (0xD800 + (p - 0x10000) div 0x400) @ u16_le (0xDC00 + (p - 0x10000) mod 0x400)) (chars s))"

section \<open>Patterns\<close>

fun glob_loop :: "(string \<Rightarrow> string) \<Rightarrow> string list \<Rightarrow> string" where
  "glob_loop escape [] = []"
| "glob_loop escape (c # rest) =
     (if c = [CHR 0x5C] then
        (case rest of
           next' # rest' \<Rightarrow>
             if next' \<in> {''*'', ''?'', [CHR 0x5C]} then escape next' @ glob_loop escape rest'
             else [CHR 0x5C, CHR 0x5C] @ glob_loop escape rest
         | [] \<Rightarrow> [CHR 0x5C, CHR 0x5C])
      else if c = ''*'' then ''.*'' @ glob_loop escape rest
      else if c = ''?'' then ''.'' @ glob_loop escape rest
      else escape c @ glob_loop escape rest)"

definition glob_to_regex :: "(string \<Rightarrow> string) \<Rightarrow> string \<Rightarrow> string" where
  "glob_to_regex escape value = glob_loop escape (chars value)"

text \<open>\<open>compile\<close>: the error keeps the pattern.\<close>

definition compile :: "('re, 'num) sigma_env \<Rightarrow> string \<Rightarrow> bool \<Rightarrow> string + 're" where
  "compile env pat cased = (case se_build env (\<not> cased) pat of None \<Rightarrow> Inl pat | Some re \<Rightarrow> Inr re)"

definition dashes :: "string list" where
  "dashes = [''-'', ''/'', [CHR 0xE2, CHR 0x80, CHR 0x93], [CHR 0xE2, CHR 0x80, CHR 0x94], [CHR 0xE2, CHR 0x80, CHR 0x95]]"

definition flag_pattern :: string where
  "flag_pattern = ''(^|'' @ [CHR 0x5C] @ ''s)[-/]''"

definition windash_variants :: "('re, 'num) sigma_env \<Rightarrow> string \<Rightarrow> string list" where
  "windash_variants env value =
     (let flag = se_static env flag_pattern in
      if \<not> se_is_match env flag value then [value]
      else map (\<lambda>dash. se_replace_all env flag value (''${1}'' @ dash)) dashes)"

definition trim_end_char :: "char \<Rightarrow> string \<Rightarrow> string" where
  "trim_end_char c s = rev (dropWhile (\<lambda>x. x = c) (rev s))"

definition base64_offset_variant :: "(string \<Rightarrow> string) \<Rightarrow> string \<Rightarrow> nat \<Rightarrow> string" where
  "base64_offset_variant encode bytes shift =
     (let encoded = encode (replicate shift (CHR '' '') @ bytes);
          end' = length encoded - [0, 3, 2] ! ((length bytes + shift) mod 3);
          start = [0, 2, 3] ! shift;
          upto = max end' start
      in if upto \<le> length encoded then trim_end_char (CHR ''='') (drop start (take upto encoded)) else [])"

definition base64_offset_variants :: "(string \<Rightarrow> string) \<Rightarrow> string \<Rightarrow> string list" where
  "base64_offset_variants encode bytes =
     filter (\<lambda>v. v \<noteq> []) (map (base64_offset_variant encode bytes) [0, 1, 2])"

text \<open>A fallible map stops at its first error.\<close>

fun try_map :: "('a \<Rightarrow> 'e + 'b) \<Rightarrow> 'a list \<Rightarrow> 'e + 'b list" where
  "try_map f [] = Inr []"
| "try_map f (x # xs) =
     (case f x of
        Inl e \<Rightarrow> Inl e
      | Inr y \<Rightarrow> (case try_map f xs of Inl e \<Rightarrow> Inl e | Inr ys \<Rightarrow> Inr (y # ys)))"

definition transformed :: "('re, 'num) sigma_env \<Rightarrow> modifiers \<Rightarrow> string \<Rightarrow> string list" where
  "transformed env mo variant =
     (let bytes = (if mo_wide mo then utf16_le variant else variant) in
      if mo_base64_offset mo then base64_offset_variants (se_base64 env) bytes
      else if mo_base64 mo then [se_base64 env bytes]
      else [variant])"

definition anchored :: "anchor \<Rightarrow> string \<Rightarrow> string" where
  "anchored a body =
     (case a of
        AExact \<Rightarrow> ''^'' @ body @ ''$''
      | AContains \<Rightarrow> body
      | AStartsWith \<Rightarrow> ''^'' @ body
      | AEndsWith \<Rightarrow> body @ ''$'')"

definition string_matchers ::
  "('re, 'num) sigma_env \<Rightarrow> string \<Rightarrow> modifiers \<Rightarrow> string + ('re, 'num) matcher list" where
  "string_matchers env value mo =
     (if mo_regex mo then map_sum id (\<lambda>re. [MPattern re]) (compile env value True)
      else
        let variants = (if mo_windash mo then windash_variants env value else [value]);
            variants' = (if mo_wide mo \<or> mo_base64 mo \<or> mo_base64_offset mo
                         then concat (map (transformed env mo) variants) else variants)
        in try_map (\<lambda>variant.
             let body = (if mo_base64 mo \<or> mo_base64_offset mo then se_escape env variant
                         else glob_to_regex (se_escape env) variant);
                 cased = (mo_cased mo \<or> mo_base64 mo \<or> mo_base64_offset mo)
             in map_sum id MPattern (compile env (anchored (mo_anchor mo) body) cased)) variants')"

section \<open>Fields and searches\<close>

datatype search_error =
    NoFieldName string
  | UnsupportedModifier string string
  | ExistsTakesBool string
  | NoValue string
  | UnsupportedValue string
  | NotANumber string string
  | NotANetwork string string
  | BadPattern string string
  | Mixed string
  | NonTextFieldName string
  | BadKeyword string
  | NeitherMapNorList string

text \<open>\<open>split(c)\<close>.\<close>

fun split_on :: "char \<Rightarrow> string \<Rightarrow> string list" where
  "split_on d [] = [[]]"
| "split_on d (c # cs) =
     (if c = d then [] # split_on d cs
      else case split_on d cs of [] \<Rightarrow> [[c]] | w # ws \<Rightarrow> (c # w) # ws)"

text \<open>The matchers of one value of a field.\<close>

definition value_matchers ::
  "('re, 'num) sigma_env \<Rightarrow> string \<Rightarrow> modifiers \<Rightarrow> yaml \<Rightarrow> search_error + ('re, 'num) matcher list" where
  "value_matchers env key mo value =
     (if value = YNull then Inr [MNull]
      else case scalar_text value of
        None \<Rightarrow> Inl (UnsupportedValue key)
      | Some txt \<Rightarrow>
          (case mo_comparison mo of
             Some c \<Rightarrow>
               (case se_parse_f64 env (trim txt) of
                  None \<Rightarrow> Inl (NotANumber key txt)
                | Some number \<Rightarrow> Inr [MCompare c number])
           | None \<Rightarrow>
               if mo_fieldref mo then Inr [MFieldRef (to_ascii_lowercase (trim txt))]
               else if mo_cidr mo then
                 (case network_parse (se_parse_ip env) txt of
                    None \<Rightarrow> Inl (NotANetwork key txt)
                  | Some net \<Rightarrow> Inr [MCidr net])
               else map_sum (BadPattern key) id (string_matchers env txt mo)))"

definition field_match ::
  "('re, 'num) sigma_env \<Rightarrow> string \<Rightarrow> yaml \<Rightarrow> search_error + ('re, 'num) field_match" where
  "field_match env key value =
     (let parts = split_on (CHR ''|'') key;
          field = to_ascii_lowercase (trim (hd parts))
      in if field = [] then Inl (NoFieldName key)
         else case parse_modifiers (tl parts) of
           Inl e \<Rightarrow> Inl (UnsupportedModifier key e)
         | Inr mo \<Rightarrow>
             if mo_exists mo then
               (case as_bool value of
                  None \<Rightarrow> Inl (ExistsTakesBool key)
                | Some expected \<Rightarrow>
                    Inr \<lparr>fm_field = field, fm_matchers = [], fm_all = False, fm_exists = Some expected\<rparr>)
             else
               let values = (case value of YArray items \<Rightarrow> items | single \<Rightarrow> [single])
               in if values = [] then Inl (NoValue key)
                  else case try_map (value_matchers env key mo) values of
                    Inl e \<Rightarrow> Inl e
                  | Inr ms \<Rightarrow> Inr \<lparr>fm_field = field, fm_matchers = concat ms, fm_all = mo_all mo, fm_exists = None\<rparr>)"

definition field_map ::
  "('re, 'num) sigma_env \<Rightarrow> yaml \<Rightarrow> string \<Rightarrow> search_error + ('re, 'num) field_match list" where
  "field_map env m sname =
     (case as_hash m of
        None \<Rightarrow> Inl (Mixed sname)
      | Some h \<Rightarrow>
          try_map (\<lambda>(key, value). case as_str key of
             None \<Rightarrow> Inl (NonTextFieldName sname)
           | Some k \<Rightarrow> field_match env k value) h)"

definition compile_search ::
  "('re, 'num) sigma_env \<Rightarrow> string \<Rightarrow> yaml \<Rightarrow> search_error + ('re, 'num) search" where
  "compile_search env name d =
     (case d of
        YHash _ \<Rightarrow> map_sum id (\<lambda>fields. Fields [fields]) (field_map env d name)
      | YArray items \<Rightarrow>
          if list_all (\<lambda>item. as_hash item \<noteq> None) items
          then map_sum id Fields (try_map (\<lambda>item. field_map env item name) items)
          else map_sum id Keywords (try_map (\<lambda>item. case scalar_text item of
                 None \<Rightarrow> Inl (Mixed name)
               | Some keyword \<Rightarrow> map_sum BadKeyword id (compile env (glob_to_regex (se_escape env) keyword) False)) items)
      | _ \<Rightarrow> Inl (NeitherMapNorList name))"

end
