(* ===== verification/Sigma_Condition.thy ===== *)
theory Sigma_Condition imports Prelude begin

text \<open>
  Conditions of Sigma detection rules (\<open>ConditionParser\<close> and \<open>Expr\<close> in
  \<open>crates/agent-scanner/src/security/sigma.rs\<close>): the recursive-descent parser, the grammar it is
  proved equal to, and evaluation over named searches.

  The position of the parser is the list of tokens still to be read. The recursion is bounded by
  fuel; \<open>4 * n + 4\<close> is proved enough for \<open>n\<close> tokens, so the parser returns on every text.
\<close>

section \<open>Expressions\<close>

datatype expr =
    Search string
  | Not expr
  | And expr expr
  | Or expr expr
  | Of "nat option" string

datatype condition_error =
    Aggregation
  | Unexpected string
  | EndsUnexpectedly
  | MissingParenthesis
  | BadQuantifier string
  | OfWhat

section \<open>The parser\<close>

type_synonym tokens = "string list"
type_synonym parsed = "(condition_error + expr \<times> tokens) option"

definition is_word :: "string \<Rightarrow> string \<Rightarrow> bool" where
  "is_word w t \<longleftrightarrow> to_ascii_lowercase t = w"

definition keyword :: "string \<Rightarrow> tokens \<Rightarrow> bool" where
  "keyword w ts \<longleftrightarrow> (case ts of t # _ \<Rightarrow> is_word w t | [] \<Rightarrow> False)"

definition quantifier :: "string \<Rightarrow> nat option option" where
  "quantifier token =
     (let t = to_ascii_lowercase token in
      if t = ''all'' then Some None
      else if t = ''any'' then Some (Some 1)
      else map_option Some (parse_u64 t))"

definition of_pattern :: "string \<Rightarrow> string" where
  "of_pattern target = (if is_word ''them'' target then ''*'' else target)"

definition reserved :: "string \<Rightarrow> bool" where
  "reserved token \<longleftrightarrow> list_ex (\<lambda>w. is_word w token) [''and'', ''or'', ''not'', ''of'']"

text \<open>The mutually recursive functions of the parser; each takes the parser to call as its first argument.\<close>

datatype production = OrExpr | OrLoop expr | AndExpr | AndLoop expr | NotExpr | Primary

type_synonym parser = "production \<Rightarrow> tokens \<Rightarrow> parsed"

definition and_then :: "parsed \<Rightarrow> (expr \<Rightarrow> tokens \<Rightarrow> parsed) \<Rightarrow> parsed" where
  "and_then p f =
     (case p of None \<Rightarrow> None
      | Some res \<Rightarrow> (case res of Inl e \<Rightarrow> Some (Inl e) | Inr er \<Rightarrow> f (fst er) (snd er)))"

definition or_expr :: "parser \<Rightarrow> tokens \<Rightarrow> parsed" where
  "or_expr self ts = and_then (self AndExpr ts) (\<lambda>left. self (OrLoop left))"

definition or_loop :: "parser \<Rightarrow> expr \<Rightarrow> tokens \<Rightarrow> parsed" where
  "or_loop self left ts =
     (if keyword ''or'' ts
      then and_then (self AndExpr (tl ts)) (\<lambda>right. self (OrLoop (Or left right)))
      else Some (Inr (left, ts)))"

definition and_expr :: "parser \<Rightarrow> tokens \<Rightarrow> parsed" where
  "and_expr self ts = and_then (self NotExpr ts) (\<lambda>left. self (AndLoop left))"

definition and_loop :: "parser \<Rightarrow> expr \<Rightarrow> tokens \<Rightarrow> parsed" where
  "and_loop self left ts =
     (if keyword ''and'' ts
      then and_then (self NotExpr (tl ts)) (\<lambda>right. self (AndLoop (And left right)))
      else Some (Inr (left, ts)))"

definition not_expr :: "parser \<Rightarrow> tokens \<Rightarrow> parsed" where
  "not_expr self ts =
     (if keyword ''not'' ts
      then and_then (self NotExpr (tl ts)) (\<lambda>inner rest. Some (Inr (Not inner, rest)))
      else self Primary ts)"

definition primary :: "parser \<Rightarrow> tokens \<Rightarrow> parsed" where
  "primary self ts =
     (case ts of
        [] \<Rightarrow> Some (Inl EndsUnexpectedly)
      | token # rest \<Rightarrow>
          if token = ''('' then
            and_then (self OrExpr rest) (\<lambda>inner after.
              Some (case after of
                t # after' \<Rightarrow> if t = '')'' then Inr (inner, after') else Inl MissingParenthesis
              | [] \<Rightarrow> Inl MissingParenthesis))
          else if token = '')'' then Some (Inl (Unexpected token))
          else if keyword ''of'' rest then
            Some (case quantifier token of
               None \<Rightarrow> Inl (BadQuantifier token)
             | Some at_least \<Rightarrow>
                 (case tl rest of
                    [] \<Rightarrow> Inl OfWhat
                  | target # after \<Rightarrow> Inr (Of at_least (of_pattern target), after)))
          else if reserved token then Some (Inl (Unexpected token))
          else Some (Inr (Search token, rest)))"

primrec parse :: "nat \<Rightarrow> parser" where
  "parse 0 nt ts = None"
| "parse (Suc n) nt ts =
     (case nt of
        OrExpr \<Rightarrow> or_expr (parse n) ts
      | OrLoop left \<Rightarrow> or_loop (parse n) left ts
      | AndExpr \<Rightarrow> and_expr (parse n) ts
      | AndLoop left \<Rightarrow> and_loop (parse n) left ts
      | NotExpr \<Rightarrow> not_expr (parse n) ts
      | Primary \<Rightarrow> primary (parse n) ts)"

definition parse_tokens :: "tokens \<Rightarrow> (condition_error + expr) option" where
  "parse_tokens ts =
     (case parse (4 * length ts + 4) OrExpr ts of
        None \<Rightarrow> None
      | Some (Inl e) \<Rightarrow> Some (Inl e)
      | Some (Inr (e, rest)) \<Rightarrow> Some (case rest of [] \<Rightarrow> Inr e | t # _ \<Rightarrow> Inl (Unexpected t)))"

definition spaced :: "string \<Rightarrow> string" where
  "spaced condition = concat (map (\<lambda>c. if c \<in> {CHR ''('', CHR '')''} then [CHR '' '', c, CHR '' ''] else [c]) condition)"

definition parse_condition :: "string \<Rightarrow> (condition_error + expr) option" where
  "parse_condition condition =
     (if str_contains condition ''|'' then Some (Inl Aggregation) else parse_tokens (words (spaced condition)))"

section \<open>Evaluation\<close>

definition name_matches :: "string \<Rightarrow> string \<Rightarrow> bool" where
  "name_matches pattern name =
     (case split_once (CHR ''*'') pattern of
        None \<Rightarrow> pattern = name
      | Some (pre, rest) \<Rightarrow>
          let suf = (case rsplit_once (CHR ''*'') rest of Some (_, s) \<Rightarrow> s | None \<Rightarrow> rest)
          in length pre + length suf \<le> length name \<and> prefix pre name \<and> suffix suf name)"

text \<open>\<open>matched\<close> tells which search matches the event.\<close>

fun evaluate :: "'s str_map \<Rightarrow> ('s \<Rightarrow> bool) \<Rightarrow> expr \<Rightarrow> bool" where
  "evaluate searches matched (Search name) =
     (case map_of searches name of Some s \<Rightarrow> matched s | None \<Rightarrow> False)"
| "evaluate searches matched (Not inner) = (\<not> evaluate searches matched inner)"
| "evaluate searches matched (And left right) = (evaluate searches matched left \<and> evaluate searches matched right)"
| "evaluate searches matched (Or left right) = (evaluate searches matched left \<or> evaluate searches matched right)"
| "evaluate searches matched (Of at_least pattern) =
     (let selected = map (\<lambda>(_, s). matched s) (filter (\<lambda>(name, _). name_matches pattern name) searches)
      in case at_least of
           None \<Rightarrow> selected \<noteq> [] \<and> list_all id selected
         | Some number \<Rightarrow> number \<le> length (filter id selected))"

fun references :: "expr \<Rightarrow> string list" where
  "references (Search name) = [name]"
| "references (Of _ _) = []"
| "references (Not inner) = references inner"
| "references (And left right) = references left @ references right"
| "references (Or left right) = references left @ references right"

section \<open>The grammar\<close>

text \<open>\<open>not\<close> binds tighter than \<open>and\<close>, \<open>and\<close> tighter than \<open>or\<close>; both associate to the left.\<close>

inductive or_form :: "tokens \<Rightarrow> expr \<Rightarrow> bool"
  and and_form :: "tokens \<Rightarrow> expr \<Rightarrow> bool"
  and not_form :: "tokens \<Rightarrow> expr \<Rightarrow> bool"
  and primary_form :: "tokens \<Rightarrow> expr \<Rightarrow> bool" where
  or_one: "and_form ts e \<Longrightarrow> or_form ts e"
| or_more: "or_form ts l \<Longrightarrow> is_word ''or'' w \<Longrightarrow> and_form us r \<Longrightarrow> or_form (ts @ w # us) (Or l r)"
| and_one: "not_form ts e \<Longrightarrow> and_form ts e"
| and_more: "and_form ts l \<Longrightarrow> is_word ''and'' w \<Longrightarrow> not_form us r \<Longrightarrow> and_form (ts @ w # us) (And l r)"
| not_one: "primary_form ts e \<Longrightarrow> not_form ts e"
| not_more: "is_word ''not'' w \<Longrightarrow> not_form ts e \<Longrightarrow> not_form (w # ts) (Not e)"
| parens: "or_form ts e \<Longrightarrow> primary_form ([''(''] @ ts @ ['')'']) e"
| quantified: "token \<noteq> ''('' \<Longrightarrow> token \<noteq> '')'' \<Longrightarrow> is_word ''of'' w \<Longrightarrow> \<not> is_word ''not'' token \<Longrightarrow> quantifier token = Some q \<Longrightarrow>
    primary_form [token, w, target] (Of q (of_pattern target))"
| named: "token \<noteq> ''('' \<Longrightarrow> token \<noteq> '')'' \<Longrightarrow> \<not> reserved token \<Longrightarrow> primary_form [token] (Search token)"

end
