(* ===== verification/Sigma_Rules.thy ===== *)
theory Sigma_Rules imports Sigma_Compile Sigma_Condition begin

text \<open>
  Sigma rules (\<open>crates/agent-scanner/src/security/sigma.rs\<close>): reading a rule out of a YAML document,
  matching it against an event, the events of processes, and what a rule is evaluated on.
\<close>

section \<open>Rules\<close>

record ('re, 'num) sigma_rule =
  sr_id :: string
  sr_title :: string
  sr_description :: string
  sr_level :: sigma_level
  sr_tags :: "string list"
  sr_category :: "string option"
  sr_product :: "string option"
  sr_service :: "string option"
  sr_name :: "string option"
  sr_searches :: "('re, 'num) search str_map"
  sr_conditions :: "expr list"

definition rule_matches :: "('re, 'num) sigma_env \<Rightarrow> ('re, 'num) sigma_rule \<Rightarrow> sigma_event \<Rightarrow> bool" where
  "rule_matches env rule event =
     list_ex (evaluate (sr_searches rule) (\<lambda>s. search_matches env s event)) (sr_conditions rule)"

definition to_ascii_upper_char :: "char \<Rightarrow> char" where
  "to_ascii_upper_char c = (if is_ascii_lowercase c then char_of (byte c - 32) else c)"

definition attack_technique :: "string \<Rightarrow> string option" where
  "attack_technique tag =
     (let t = to_ascii_lowercase tag in
      if prefix ''attack.t'' t then
        (let rest = drop 8 t in
         if rest \<noteq> [] \<and> is_ascii_digit (hd rest) then Some (CHR ''T'' # map to_ascii_upper_char rest) else None)
      else None)"

definition attack_techniques :: "string list \<Rightarrow> string list" where
  "attack_techniques tags = List.map_filter attack_technique tags"

definition tags_of :: "yaml \<Rightarrow> string list" where
  "tags_of d = (case as_vec (yaml_index d ''tags'') of None \<Rightarrow> [] | Some tags \<Rightarrow> List.map_filter scalar_text tags)"

definition text_field :: "yaml \<Rightarrow> string \<Rightarrow> string option" where
  "text_field d key =
     (case scalar_text (yaml_index d key) of
        None \<Rightarrow> None
      | Some t \<Rightarrow> if trim t = [] then None else Some (trim t))"

section \<open>Reading a rule\<close>

datatype rule_error =
    NoTitle
  | NoDetection
  | NonTextKey
  | Timeframe
  | SearchError search_error
  | NoCondition
  | ConditionError condition_error
  | UnknownSearch string

text \<open>The entries of the detection section: searches, and the last \<open>condition\<close>.\<close>

fun detection_loop ::
  "('re, 'num) sigma_env \<Rightarrow> (yaml \<times> yaml) list \<Rightarrow> ('re, 'num) search str_map \<Rightarrow> yaml option \<Rightarrow>
     rule_error + ('re, 'num) search str_map \<times> yaml option" where
  "detection_loop env [] searches condition = Inr (searches, condition)"
| "detection_loop env ((key, value) # rest) searches condition =
     (case as_str key of
        None \<Rightarrow> Inl NonTextKey
      | Some name \<Rightarrow>
          if name = ''condition'' then detection_loop env rest searches (Some value)
          else if name = ''timeframe'' then Inl Timeframe
          else case compile_search env name value of
            Inl e \<Rightarrow> Inl (SearchError e)
          | Inr s \<Rightarrow> detection_loop env rest (AList.update name s searches) condition)"

definition condition_texts :: "yaml option \<Rightarrow> string list" where
  "condition_texts source =
     (case source of
        None \<Rightarrow> []
      | Some (YArray items) \<Rightarrow> List.map_filter scalar_text items
      | Some single \<Rightarrow> (case scalar_text single of None \<Rightarrow> [] | Some t \<Rightarrow> [t]))"

text \<open>\<^const>\<open>None\<close>: a parser out of fuel, which never happens.\<close>

fun conditions_loop :: "string list \<Rightarrow> string list \<Rightarrow> (rule_error + expr list) option" where
  "conditions_loop known [] = Some (Inr [])"
| "conditions_loop known (txt # texts) =
     (case parse_condition txt of
        None \<Rightarrow> None
      | Some (Inl e) \<Rightarrow> Some (Inl (ConditionError e))
      | Some (Inr expr) \<Rightarrow>
          (case find (\<lambda>r. r \<notin> set known) (references expr) of
             Some r \<Rightarrow> Some (Inl (UnknownSearch r))
           | None \<Rightarrow> map_option (map_sum id (\<lambda>es. expr # es)) (conditions_loop known texts)))"

definition level_of :: "yaml \<Rightarrow> sigma_level" where
  "level_of d = (case text_field d ''level'' of None \<Rightarrow> LMedium | Some level \<Rightarrow> parse_level level)"

definition or_else :: "'a option \<Rightarrow> 'a \<Rightarrow> 'a" where
  "or_else x d = (case x of None \<Rightarrow> d | Some y \<Rightarrow> y)"

definition rule_from_document ::
  "('re, 'num) sigma_env \<Rightarrow> yaml \<Rightarrow> (rule_error + ('re, 'num) sigma_rule) option" where
  "rule_from_document env d =
     (case text_field d ''title'' of
        None \<Rightarrow> Some (Inl NoTitle)
      | Some title \<Rightarrow>
     (case as_hash (yaml_index d ''detection'') of
        None \<Rightarrow> Some (Inl NoDetection)
      | Some detection \<Rightarrow>
     (case detection_loop env detection [] None of
        Inl e \<Rightarrow> Some (Inl e)
      | Inr (searches, source) \<Rightarrow>
          let texts = condition_texts source in
          if texts = [] then Some (Inl NoCondition)
          else map_option (map_sum id (\<lambda>conditions.
            let logsource = yaml_index d ''logsource'';
                lower = (\<lambda>key. map_option to_ascii_lowercase (text_field logsource key))
            in \<lparr>sr_id = or_else (text_field d ''id'') title,
                sr_title = title,
                sr_description = or_else (text_field d ''description'') [],
                sr_level = level_of d,
                sr_tags = tags_of d,
                sr_category = lower ''category'',
                sr_product = lower ''product'',
                sr_service = lower ''service'',
                sr_name = text_field d ''name'',
                sr_searches = searches,
                sr_conditions = conditions\<rparr>)) (conditions_loop (map fst searches) texts))))"

section \<open>What a rule is evaluated on\<close>

definition host_product :: "platform_os \<Rightarrow> string" where
  "host_product os = (case os of Windows \<Rightarrow> ''windows'' | MacOs \<Rightarrow> ''macos'' | Linux \<Rightarrow> ''linux'')"

record log_coverage =
  lc_services :: "string list"
  lc_categories :: "string list"

datatype rule_target = Processes | Logs | NoTarget string

text \<open>The first of the category and the service that is not collected.\<close>

definition missing_source :: "('re, 'num) sigma_rule \<Rightarrow> log_coverage \<Rightarrow> rule_target" where
  "missing_source rule coverage =
     (let uncovered = (\<lambda>source known. case source of None \<Rightarrow> None | Some x \<Rightarrow> if x \<in> set known then None else Some x);
          missing = (case uncovered (sr_category rule) (lc_categories coverage) of
                       Some c \<Rightarrow> Some c
                     | None \<Rightarrow> uncovered (sr_service rule) (lc_services coverage))
      in case missing of
           Some source \<Rightarrow> NoTarget (''log source '' @ [CHR 0x27] @ source @ [CHR 0x27] @ '' is not collected'')
         | None \<Rightarrow> Logs)"

definition target_of :: "('re, 'num) sigma_rule \<Rightarrow> string \<Rightarrow> log_coverage \<Rightarrow> rule_target" where
  "target_of rule host coverage =
     (case sr_product rule of
        Some wanted \<Rightarrow>
          if wanted \<noteq> host then NoTarget (''written for '' @ wanted)
          else if sr_category rule = Some ''process_creation'' then Processes
          else if sr_category rule = None \<and> sr_service rule = None then Logs
          else missing_source rule coverage
      | None \<Rightarrow>
          if sr_category rule = Some ''process_creation'' then Processes
          else if sr_category rule = None \<and> sr_service rule = None then NoTarget ''no log source''
          else missing_source rule coverage)"

section \<open>Processes as events\<close>

record scanned_process =
  sp_pid :: u32
  sp_name :: string
  sp_path :: "string option"
  sp_cmdline :: "string option"
  sp_ppid :: "u32 option"
  sp_user :: "string option"

definition image :: "scanned_process \<Rightarrow> string" where
  "image p = or_else (sp_path p) (sp_name p)"

definition insert_some :: "string \<Rightarrow> string option \<Rightarrow> sigma_event \<Rightarrow> sigma_event" where
  "insert_some k v event = (case v of None \<Rightarrow> event | Some x \<Rightarrow> AList.update k x event)"

definition process_event :: "scanned_process \<Rightarrow> scanned_process option \<Rightarrow> sigma_event" where
  "process_event p parent =
     (let event = AList.update ''image'' (image p) [];
          event = AList.update ''commandline'' (or_else (sp_cmdline p) (image p)) event;
          event = AList.update ''processid'' (show_nat (sp_pid p)) event;
          event = insert_some ''user'' (sp_user p) event;
          event = insert_some ''parentprocessid'' (map_option show_nat (sp_ppid p)) event
      in case parent of
           None \<Rightarrow> event
         | Some q \<Rightarrow>
             insert_some ''parentcommandline'' (sp_cmdline q) (AList.update ''parentimage'' (image q) event))"

text \<open>\<open>SigmaEngine::evaluate\<close> over the rules of the engine.\<close>

definition engine_evaluate ::
  "('re, 'num) sigma_env \<Rightarrow> ('re, 'num) sigma_rule list \<Rightarrow> sigma_event \<Rightarrow> ('re, 'num) sigma_rule list" where
  "engine_evaluate env rules event = filter (\<lambda>rule. rule_matches env rule event) rules"

end
