(* ===== verification/Sigma_Logs.thy ===== *)
theory Sigma_Logs imports Sigma_Rules begin

text \<open>
  Sigma correlation rules and the engine of log rules
  (\<open>crates/agent-scanner/src/security/sigma_logs.rs\<close>): parsing of a correlation, counting its
  matches, building the engine and evaluating an event.

  A timespan is in seconds, an instant in nanoseconds; subtracting a timespan, of at most 30 days,
  from the instant of an event is taken to stay in chrono's range.
\<close>

section \<open>Correlation rules\<close>

datatype correlation_kind = EventCount | ValueCount | Temporal | TemporalOrdered

definition kind_str :: "correlation_kind \<Rightarrow> string" where
  "kind_str k = (case k of EventCount \<Rightarrow> ''event_count'' | ValueCount \<Rightarrow> ''value_count''
     | Temporal \<Rightarrow> ''temporal'' | TemporalOrdered \<Rightarrow> ''temporal_ordered'')"

record log_correlation =
  lr_id :: string
  lr_title :: string
  lr_description :: string
  lr_level :: sigma_level
  lr_tags :: "string list"
  lr_name :: "string option"
  lr_kind :: correlation_kind
  lr_rules :: "string list"
  lr_group_by :: "string list"
  lr_timespan :: i64
  lr_at_least :: u64
  lr_value_field :: "string option"
  lr_generate :: bool

datatype correlation_error =
    CNoTitle
  | CNotAMap
  | CAliases
  | CUnsupportedKind string
  | CNoKind
  | CNoRule
  | CNoTimespan
  | TimespanInvalid string
  | TimespanNotPositive string
  | TimespanTooLong string
  | NotPositiveNumber string
  | DescribesAbsence string
  | UnsupportedCondition string
  | AtLeastOne
  | CNoCondition
  | TooFewRules correlation_kind
  | CNoField

definition MAX_TIMESPAN_DAYS :: int where
  "MAX_TIMESPAN_DAYS = 30"

text \<open>\<open>str::parse\<close> for \<open>i64\<close>: an optional sign, at least one digit, and no overflow.\<close>

definition parse_i64 :: "string \<Rightarrow> i64 option" where
  "parse_i64 s =
     (let (neg, ds) = (case s of
            [] \<Rightarrow> (False, [])
          | c # cs \<Rightarrow> if c = CHR ''-'' then (True, cs) else if c = CHR ''+'' then (False, cs) else (False, s))
      in if ds = [] then None
         else case digits_value 0 ds of
           None \<Rightarrow> None
         | Some v \<Rightarrow> checked_i64 (if neg then - int v else int v))"

definition unit_seconds :: "string \<Rightarrow> int option" where
  "unit_seconds u =
     map_of [(''s'', 1), (''m'', 60), (''h'', 3600), (''d'', 86400), (''w'', 604800)] u"

definition parse_timespan :: "string \<Rightarrow> correlation_error + i64" where
  "parse_timespan txt =
     (let t = trim txt; cs = chars t in
      if cs = [] then Inl (TimespanInvalid t)
      else case parse_i64 (concat (butlast cs)) of
        None \<Rightarrow> Inl (TimespanInvalid t)
      | Some number \<Rightarrow>
          (case unit_seconds (List.last cs) of
             None \<Rightarrow> Inl (TimespanInvalid t)
           | Some seconds \<Rightarrow>
               (case checked_i64 (number * seconds) of
                  None \<Rightarrow> Inl (TimespanInvalid t)
                | Some span \<Rightarrow>
                    if span \<le> 0 then Inl (TimespanNotPositive t)
                    else if MAX_TIMESPAN_DAYS * 86400 < span then Inl (TimespanTooLong t)
                    else Inr span)))"

definition text_list :: "yaml \<Rightarrow> string list" where
  "text_list value =
     (case value of
        YArray items \<Rightarrow> List.map_filter scalar_text items
      | single \<Rightarrow> (case scalar_text single of None \<Rightarrow> [] | Some t \<Rightarrow> [t]))"

definition parse_kind :: "string option \<Rightarrow> correlation_error + correlation_kind" where
  "parse_kind k =
     (case k of
        None \<Rightarrow> Inl CNoKind
      | Some other \<Rightarrow>
          (case map_of [(kind_str EventCount, EventCount), (kind_str ValueCount, ValueCount),
                        (kind_str Temporal, Temporal), (kind_str TemporalOrdered, TemporalOrdered)] other of
             Some kind \<Rightarrow> Inr kind
           | None \<Rightarrow> Inl (CUnsupportedKind other)))"

text \<open>The entries of \<open>condition\<close>; the last of \<open>gte\<close> and \<open>gt\<close> decides.\<close>

fun threshold_loop :: "(yaml \<times> yaml) list \<Rightarrow> u64 option \<Rightarrow> correlation_error + u64 option" where
  "threshold_loop [] threshold = Inr threshold"
| "threshold_loop ((key, value) # rest) threshold =
     (let k = to_ascii_lowercase (or_else (as_str key) []);
          number = (case as_i64 value of None \<Rightarrow> None | Some n \<Rightarrow> if n < 0 then None else Some (nat n))
      in if k = ''gte'' then
           (case number of None \<Rightarrow> Inl (NotPositiveNumber k) | Some n \<Rightarrow> threshold_loop rest (Some n))
         else if k = ''gt'' then
           (case number of None \<Rightarrow> Inl (NotPositiveNumber k)
            | Some n \<Rightarrow> threshold_loop rest (Some (min (n + 1) u64_max)))
         else if k = ''field'' then threshold_loop rest threshold
         else if k \<in> {''lt'', ''lte'', ''eq'', ''neq''} then Inl (DescribesAbsence k)
         else Inl (UnsupportedCondition k))"

definition is_temporal :: "correlation_kind \<Rightarrow> bool" where
  "is_temporal k \<longleftrightarrow> k = Temporal \<or> k = TemporalOrdered"

definition at_least_of :: "u64 option \<Rightarrow> correlation_kind \<Rightarrow> string list \<Rightarrow> correlation_error + u64" where
  "at_least_of threshold kind rules =
     (case threshold of
        Some n \<Rightarrow> if n = 0 then Inl AtLeastOne else Inr n
      | None \<Rightarrow> if is_temporal kind then Inr (length rules) else Inl CNoCondition)"

text \<open>The first error ends the parsing.\<close>

definition try_bind :: "'e + 'a \<Rightarrow> ('a \<Rightarrow> 'e + 'b) \<Rightarrow> 'e + 'b" where
  "try_bind r f = (case r of Inl e \<Rightarrow> Inl e | Inr a \<Rightarrow> f a)"

definition need :: "'e \<Rightarrow> 'a option \<Rightarrow> 'e + 'a" where
  "need e x = (case x of None \<Rightarrow> Inl e | Some a \<Rightarrow> Inr a)"

definition require :: "'e \<Rightarrow> bool \<Rightarrow> 'e + unit" where
  "require e b = (if b then Inr () else Inl e)"

definition parse_correlation :: "yaml \<Rightarrow> correlation_error + log_correlation" where
  "parse_correlation d =
     try_bind (need CNoTitle (text_field d ''title'')) (\<lambda>title.
     let correlation = yaml_index d ''correlation''; condition = yaml_index correlation ''condition'' in
     try_bind (require CNotAMap (as_hash correlation \<noteq> None)) (\<lambda>_.
     try_bind (require CAliases (yaml_index correlation ''aliases'' = YBadValue)) (\<lambda>_.
     try_bind (parse_kind (map_option to_ascii_lowercase (text_field correlation ''type''))) (\<lambda>kind.
     let rules = text_list (yaml_index correlation ''rules'') in
     try_bind (require CNoRule (rules \<noteq> [])) (\<lambda>_.
     try_bind (need CNoTimespan
       (case text_field correlation ''timespan'' of Some t \<Rightarrow> Some t | None \<Rightarrow> text_field correlation ''timeframe'')) (\<lambda>txt.
     try_bind (parse_timespan txt) (\<lambda>timespan.
     try_bind (threshold_loop (or_else (as_hash condition) []) None) (\<lambda>threshold.
     try_bind (at_least_of threshold kind rules) (\<lambda>at_least.
     try_bind (require (TooFewRules kind) (\<not> (is_temporal kind \<and> (length rules < 2 \<or> length rules < at_least)))) (\<lambda>_.
     let value_field = map_option to_ascii_lowercase (text_field condition ''field'') in
     try_bind (require CNoField (\<not> (kind = ValueCount \<and> value_field = None))) (\<lambda>_.
     Inr \<lparr>lr_id = or_else (text_field d ''id'') title,
          lr_title = title,
          lr_description = or_else (text_field d ''description'') [],
          lr_level = level_of d,
          lr_tags = tags_of d,
          lr_name = text_field d ''name'',
          lr_kind = kind,
          lr_rules = rules,
          lr_group_by = map (\<lambda>f. to_ascii_lowercase (trim f)) (text_list (yaml_index correlation ''group-by'')),
          lr_timespan = timespan,
          lr_at_least = at_least,
          lr_value_field = value_field,
          lr_generate = (case as_bool (yaml_index correlation ''generate'') of
             Some b \<Rightarrow> b
           | None \<Rightarrow> or_else (as_bool (yaml_index d ''generate'')) False)\<rparr>)))))))))))"

section \<open>Counting\<close>

datatype source = SRule nat | SCorrelation nat

record correlation_hit =
  ch_kind :: correlation_kind
  ch_count :: u64
  ch_timespan_secs :: i64
  ch_group :: "(string \<times> string) list"

record window =
  w_times :: "int list"
  w_values :: "int str_map"
  w_per_rule :: "int option list"
  w_latest :: "int option"

definition no_window :: window where
  "no_window = \<lparr>w_times = [], w_values = [], w_per_rule = [], w_latest = None\<rparr>"

record live_correlation =
  lv_rule :: log_correlation
  lv_sources :: "source list"
  lv_alerts :: bool
  lv_groups :: "(string list \<times> window) list"

definition MAX_GROUPS :: nat where
  "MAX_GROUPS = 10000"

definition MAX_VALUES :: nat where
  "MAX_VALUES = 1000"

definition NANOS :: int where
  "NANOS = 1000000000"

text \<open>The values the match is grouped under; none when a field is absent or empty.\<close>

definition present :: "sigma_event \<Rightarrow> string \<Rightarrow> string option" where
  "present event field =
     (case map_of event field of None \<Rightarrow> None | Some v \<Rightarrow> if v = [] then None else Some v)"

definition group_key :: "string list \<Rightarrow> sigma_event \<Rightarrow> string list option" where
  "group_key group_by event = those (map (present event) group_by)"

fun position_of :: "'a \<Rightarrow> 'a list \<Rightarrow> nat option" where
  "position_of x [] = None"
| "position_of x (y # ys) = (if x = y then Some 0 else map_option Suc (position_of x ys))"

definition recent :: "int \<Rightarrow> int option \<Rightarrow> bool" where
  "recent oldest time \<longleftrightarrow> (case time of None \<Rightarrow> False | Some t \<Rightarrow> oldest < t)"

definition resize :: "nat \<Rightarrow> 'a \<Rightarrow> 'a list \<Rightarrow> 'a list" where
  "resize n x xs = take n xs @ replicate (n - length xs) x"

definition make_room :: "int \<Rightarrow> string list \<Rightarrow> (string list \<times> window) list \<Rightarrow> (string list \<times> window) list" where
  "make_room oldest key groups =
     (if map_of groups key = None \<and> MAX_GROUPS \<le> length groups
      then filter (\<lambda>(_, w). recent oldest (w_latest w)) groups else groups)"

text \<open>What each kind does to the window of the group, and what it counts.\<close>

definition count_event :: "int \<Rightarrow> int \<Rightarrow> window \<Rightarrow> window \<times> u64" where
  "count_event oldest at w =
     (let times = filter (\<lambda>t. oldest < t) (w_times w) @ [at] in (w\<lparr>w_times := times\<rparr>, length times))"

definition count_value :: "int \<Rightarrow> int \<Rightarrow> string \<Rightarrow> window \<Rightarrow> window \<times> u64" where
  "count_value oldest at value w =
     (let values = filter (\<lambda>(_, t). oldest < t) (w_values w);
          values' = (if length values < MAX_VALUES \<or> map_of values value \<noteq> None
                     then AList.update value at values else values)
      in (w\<lparr>w_values := values'\<rparr>, length values'))"

definition count_temporal :: "int \<Rightarrow> int \<Rightarrow> nat \<Rightarrow> nat \<Rightarrow> window \<Rightarrow> window \<times> u64" where
  "count_temporal oldest at listed position w =
     (let per_rule = (resize listed None (w_per_rule w))[position := Some at]
      in (w\<lparr>w_per_rule := per_rule\<rparr>, length (filter (recent oldest) per_rule)))"

definition count_ordered :: "int \<Rightarrow> int \<Rightarrow> nat \<Rightarrow> nat \<Rightarrow> window \<Rightarrow> window \<times> u64" where
  "count_ordered oldest at listed position w =
     (let per_rule = resize listed None (w_per_rule w);
          in_order = (position = 0 \<or>
            (case per_rule ! (position - 1) of None \<Rightarrow> False | Some before \<Rightarrow> oldest < before \<and> before \<le> at));
          per_rule' = (if in_order
            then take position per_rule @ Some at # replicate (listed - Suc position) None else per_rule)
      in (w\<lparr>w_per_rule := per_rule'\<rparr>, length (takeWhile (recent oldest) per_rule')))"

text \<open>\<open>None\<close> as the count: a \<open>value_count\<close> match without the value.\<close>

definition count_in :: "live_correlation \<Rightarrow> nat \<Rightarrow> sigma_event \<Rightarrow> int \<Rightarrow> int \<Rightarrow> window \<Rightarrow> window \<times> u64 option" where
  "count_in c position event oldest at w =
     (case lr_kind (lv_rule c) of
        EventCount \<Rightarrow> map_prod id Some (count_event oldest at w)
      | ValueCount \<Rightarrow>
          (case Option.bind (lr_value_field (lv_rule c)) (present event) of
             None \<Rightarrow> (w, None)
           | Some value \<Rightarrow> map_prod id Some (count_value oldest at value w))
      | Temporal \<Rightarrow> map_prod id Some (count_temporal oldest at (length (lv_sources c)) position w)
      | TemporalOrdered \<Rightarrow> map_prod id Some (count_ordered oldest at (length (lv_sources c)) position w))"

definition count_match ::
  "live_correlation \<Rightarrow> source \<Rightarrow> sigma_event \<Rightarrow> int \<Rightarrow> live_correlation \<times> correlation_hit option" where
  "count_match c source event at =
     (case group_key (lr_group_by (lv_rule c)) event of
        None \<Rightarrow> (c, None)
      | Some key \<Rightarrow>
     (case position_of source (lv_sources c) of
        None \<Rightarrow> (c, None)
      | Some position \<Rightarrow>
          let oldest = at - lr_timespan (lv_rule c) * NANOS;
              groups = make_room oldest key (lv_groups c)
          in if map_of groups key = None \<and> MAX_GROUPS \<le> length groups then (c\<lparr>lv_groups := groups\<rparr>, None)
             else
               let w = or_else (map_of groups key) no_window;
                   w1 = w\<lparr>w_latest := Some (case w_latest w of None \<Rightarrow> at | Some l \<Rightarrow> max l at)\<rparr>;
                   (w2, number) = count_in c position event oldest at w1;
                   kept = c\<lparr>lv_groups := AList.update key w2 groups\<rparr>
               in case number of
                    None \<Rightarrow> (kept, None)
                  | Some n \<Rightarrow>
                      if n < lr_at_least (lv_rule c) then (kept, None)
                      else (c\<lparr>lv_groups := AList.delete key groups\<rparr>,
                            Some \<lparr>ch_kind = lr_kind (lv_rule c), ch_count = n,
                                  ch_timespan_secs = lr_timespan (lv_rule c),
                                  ch_group = zip (lr_group_by (lv_rule c)) key\<rparr>)))"

end
