(* ===== verification/Sigma_Engine.thy ===== *)
theory Sigma_Engine imports Sigma_Logs begin

text \<open>
  \<open>LogRuleEngine\<close> of \<open>crates/agent-scanner/src/security/sigma_logs.rs\<close>: building the engine out of
  rules and correlations, and evaluating an event.

  An index into the rules or the correlations is a number; \<open>Sigma_Engine_Props\<close> shows that a built
  engine only holds numbers in range.
\<close>

section \<open>The engine\<close>

record detection =
  de_rule_id :: string
  de_title :: string
  de_description :: string
  de_level :: sigma_level
  de_tags :: "string list"
  de_correlation :: "correlation_hit option"

definition is_incident :: "detection \<Rightarrow> bool" where
  "is_incident d \<longleftrightarrow> LMedium \<le> de_level d"

record ('re, 'num) log_rule =
  lg_rule :: "('re, 'num) sigma_rule"
  lg_alerts :: bool

record ('re, 'num) log_engine =
  le_rules :: "('re, 'num) log_rule list"
  le_correlations :: "live_correlation list"
  le_by_service :: "nat list str_map"
  le_by_category :: "nat list str_map"
  le_every_log :: "nat list"
  le_counted_by :: "(source \<times> nat list) list"

definition empty_engine :: "('re, 'num) log_engine" where
  "empty_engine = \<lparr>le_rules = [], le_correlations = [], le_by_service = [], le_by_category = [],
     le_every_log = [], le_counted_by = []\<rparr>"

text \<open>\<open>entry(k).or_default().push(x)\<close>.\<close>

definition push_at :: "'k \<Rightarrow> 'a \<Rightarrow> ('k \<times> 'a list) list \<Rightarrow> ('k \<times> 'a list) list" where
  "push_at k x m = AList.update k (or_else (map_of m k) [] @ [x]) m"

section \<open>Building\<close>

datatype engine_error =
    NotLoaded string string
  | ListsItself string

text \<open>Both names of a rule, its identifier and its \<open>name\<close>, lead to it.\<close>

definition add_name :: "source \<Rightarrow> string \<Rightarrow> string option \<Rightarrow> source str_map \<Rightarrow> source str_map" where
  "add_name src ident name names =
     (let names = AList.update ident src names
      in case name of None \<Rightarrow> names | Some n \<Rightarrow> AList.update n src names)"

fun rule_names :: "nat \<Rightarrow> ('re, 'num) sigma_rule list \<Rightarrow> source str_map \<Rightarrow> source str_map" where
  "rule_names i [] names = names"
| "rule_names i (r # rs) names = rule_names (Suc i) rs (add_name (SRule i) (sr_id r) (sr_name r) names)"

fun correlation_names :: "nat \<Rightarrow> log_correlation list \<Rightarrow> source str_map \<Rightarrow> source str_map" where
  "correlation_names i [] names = names"
| "correlation_names i (r # rs) names =
     correlation_names (Suc i) rs (add_name (SCorrelation i) (lr_id r) (lr_name r) names)"

text \<open>What a pass of \<open>retain\<close> keeps, and what it changes.\<close>

record settling =
  st_absent :: "string list"
  st_not_applicable :: nat
  st_errors :: "engine_error list"

definition unknown_of :: "source str_map \<Rightarrow> log_correlation \<Rightarrow> string option" where
  "unknown_of known r = find (\<lambda>listed. map_of known listed = None) (lr_rules r)"

fun retain_pass :: "source str_map \<Rightarrow> log_correlation list \<Rightarrow> settling \<Rightarrow> log_correlation list \<times> settling" where
  "retain_pass known [] st = ([], st)"
| "retain_pass known (r # rs) st =
     (case unknown_of known r of
        None \<Rightarrow> (case retain_pass known rs st of (kept, st') \<Rightarrow> (r # kept, st'))
      | Some missing \<Rightarrow>
          retain_pass known rs
            (if missing \<in> set (st_absent st)
             then st\<lparr>st_not_applicable := st_not_applicable st + 1,
                     st_absent := lr_id r # (case lr_name r of None \<Rightarrow> [] | Some n \<Rightarrow> [n]) @ st_absent st\<rparr>
             else st\<lparr>st_errors := st_errors st @ [NotLoaded (lr_title r) missing]\<rparr>))"

lemma retain_pass_length: "length (fst (retain_pass known rs st)) \<le> length rs"
proof (induction rs arbitrary: st)
  case (Cons r rs)
  then show ?case by (auto split: option.split prod.split) (metis fst_conv le_SucI)+
qed simp

function settle :: "source str_map \<Rightarrow> log_correlation list \<Rightarrow> settling \<Rightarrow> log_correlation list \<times> settling" where
  "settle names kept st =
     (let known = correlation_names 0 kept names; (kept', st') = retain_pass known kept st
      in if length kept' = length kept then (kept', st') else settle names kept' st')"
  by pat_completeness auto
termination
proof (relation "measure (\<lambda>(_, kept, _). length kept)")
  fix names kept st known p kept' st'
  assume p: "p = retain_pass known kept st" "(kept', st') = p" and ne: "length kept' \<noteq> length kept"
  have "length kept' \<le> length kept" using retain_pass_length [of known kept st] p by (metis fst_conv)
  with ne show "((names, kept', st'), names, kept, st) \<in> measure (\<lambda>(_, kept, _). length kept)" by simp
qed simp

declare settle.simps [simp del]

section \<open>Cycles\<close>

text \<open>The correlations a list of sources names.\<close>

fun listed_correlations :: "source list \<Rightarrow> nat list" where
  "listed_correlations [] = []"
| "listed_correlations (SRule _ # ss) = listed_correlations ss"
| "listed_correlations (SCorrelation i # ss) = i # listed_correlations ss"

definition listed_at :: "source list list \<Rightarrow> nat \<Rightarrow> nat list" where
  "listed_at listed i = (if i < length listed then listed_correlations (listed ! i) else [])"

text \<open>The inner loop: stop at \<open>start\<close>, otherwise push what was not seen.\<close>

fun push_unseen :: "nat list \<Rightarrow> nat list \<Rightarrow> nat list \<Rightarrow> nat list \<times> nat list" where
  "push_unseen [] seen pending = (seen, pending)"
| "push_unseen (n # ns) seen pending =
     (if n \<in> set seen then push_unseen ns seen pending else push_unseen ns (n # seen) (n # pending))"

definition unseen :: "source list list \<Rightarrow> nat list \<Rightarrow> nat" where
  "unseen listed seen = card (set (concat (map listed_correlations listed)) - set seen)"

lemma listed_at_subset: "set (listed_at listed i) \<subseteq> set (concat (map listed_correlations listed))"
  by (auto simp: listed_at_def intro: nth_mem)

lemma push_unseen_measure:
  "set ns \<subseteq> set (concat (map listed_correlations listed)) \<Longrightarrow> push_unseen ns seen pending = (seen', pending') \<Longrightarrow>
     unseen listed seen' + length pending' \<le> unseen listed seen + length pending"
proof (induction ns arbitrary: seen pending)
  case (Cons n ns)
  show ?case
  proof (cases "n \<in> set seen")
    case True
    with Cons show ?thesis by simp
  next
    case False
    let ?U = "set (concat (map listed_correlations listed))"
    have "n \<in> ?U - set seen" using False Cons.prems(1) by simp
    moreover have "?U - set (n # seen) = (?U - set seen) - {n}" by auto
    ultimately have "Suc (unseen listed (n # seen)) = unseen listed seen"
      unfolding unseen_def by (metis card_Suc_Diff1 finite_Diff finite_set)
    with Cons.IH [of "n # seen" "n # pending"] Cons.prems False show ?thesis by simp
  qed
qed simp

function lists_start :: "source list list \<Rightarrow> nat \<Rightarrow> nat list \<Rightarrow> nat list \<Rightarrow> bool" where
  "lists_start listed start seen [] = False"
| "lists_start listed start seen (i # pending) =
     (if start \<in> set (listed_at listed i) then True
      else case push_unseen (listed_at listed i) seen pending of
        (seen', pending') \<Rightarrow> lists_start listed start seen' pending')"
  by pat_completeness auto
termination
proof (relation "measure (\<lambda>(listed, _, seen, pending). unseen listed seen + length pending)")
  fix listed :: "source list list" and start i :: nat and seen pending seen' pending'
  assume "(seen', pending') = push_unseen (listed_at listed i) seen pending"
  then have "push_unseen (listed_at listed i) seen pending = (seen', pending')" by simp
  from push_unseen_measure [OF listed_at_subset this]
  show "((listed, start, seen', pending'), listed, start, seen, i # pending)
      \<in> measure (\<lambda>(listed, _, seen, pending). unseen listed seen + length pending)" by simp
qed simp

definition cyclic :: "source list list \<Rightarrow> nat list" where
  "cyclic listed = filter (\<lambda>start. lists_start listed start [] [start]) [0..<length listed]"

definition without :: "nat list \<Rightarrow> 'a list \<Rightarrow> 'a list" where
  "without is xs = map snd (filter (\<lambda>(i, _). i \<notin> set is) (zip [0..<length xs] xs))"

section \<open>The finished engine\<close>

text \<open>Which correlations count each source, and the sources that still raise a detection of their own.\<close>

fun count_listing :: "bool \<Rightarrow> nat \<Rightarrow> source list \<Rightarrow> (source \<times> nat list) list \<times> source list \<Rightarrow>
    (source \<times> nat list) list \<times> source list" where
  "count_listing gen i [] acc = acc"
| "count_listing gen i (s # ss) (counted, generated) =
     count_listing gen i ss (push_at s i counted, if gen then List.insert s generated else generated)"

fun count_listings :: "nat \<Rightarrow> (log_correlation \<times> source list) list \<Rightarrow> (source \<times> nat list) list \<times> source list \<Rightarrow>
    (source \<times> nat list) list \<times> source list" where
  "count_listings i [] acc = acc"
| "count_listings i ((r, ss) # rest) acc = count_listings (Suc i) rest (count_listing (lr_generate r) i ss acc)"

definition alerts_of :: "(source \<times> nat list) list \<times> source list \<Rightarrow> source \<Rightarrow> bool" where
  "alerts_of acc s \<longleftrightarrow> map_of (fst acc) s = None \<or> s \<in> set (snd acc)"

definition file_rule :: "(source \<Rightarrow> bool) \<Rightarrow> nat \<Rightarrow> ('re, 'num) sigma_rule \<Rightarrow> ('re, 'num) log_engine \<Rightarrow> ('re, 'num) log_engine" where
  "file_rule alerts i r e =
     (let e = (case (sr_service r, sr_category r) of
            (Some s, _) \<Rightarrow> e\<lparr>le_by_service := push_at s i (le_by_service e)\<rparr>
          | (None, Some c) \<Rightarrow> e\<lparr>le_by_category := push_at c i (le_by_category e)\<rparr>
          | (None, None) \<Rightarrow> e\<lparr>le_every_log := le_every_log e @ [i]\<rparr>)
      in e\<lparr>le_rules := le_rules e @ [\<lparr>lg_rule = r, lg_alerts = alerts (SRule i)\<rparr>]\<rparr>)"

fun file_rules :: "(source \<Rightarrow> bool) \<Rightarrow> nat \<Rightarrow> ('re, 'num) sigma_rule list \<Rightarrow> ('re, 'num) log_engine \<Rightarrow> ('re, 'num) log_engine" where
  "file_rules alerts i [] e = e"
| "file_rules alerts i (r # rs) e = file_rules alerts (Suc i) rs (file_rule alerts i r e)"

definition start_counting :: "(source \<Rightarrow> bool) \<Rightarrow> nat \<times> log_correlation \<times> source list \<Rightarrow> live_correlation" where
  "start_counting alerts = (\<lambda>(i, r, ss).
     \<lparr>lv_rule = r, lv_sources = ss, lv_alerts = alerts (SCorrelation i), lv_groups = []\<rparr>)"

definition finish_engine :: "('re, 'num) sigma_rule list \<Rightarrow> log_correlation list \<Rightarrow> source list list \<Rightarrow> ('re, 'num) log_engine" where
  "finish_engine rules kept listed =
     (let acc = count_listings 0 (zip kept listed) ([], []);
          e = file_rules (alerts_of acc) 0 rules empty_engine
      in e\<lparr>le_correlations := map (start_counting (alerts_of acc)) (zip [0..<length kept] (zip kept listed)),
           le_counted_by := fst acc\<rparr>)"

text \<open>\<open>None\<close>: the panic of indexing a map with a name that is not in it.\<close>

definition sources_of :: "source str_map \<Rightarrow> log_correlation \<Rightarrow> source list option" where
  "sources_of names r = those (map (map_of names) (lr_rules r))"

lemma length_without:
  assumes "i \<in> set is" "i < length xs"
  shows "length (without is xs) < length xs"
proof -
  let ?z = "zip [0..<length xs] xs"
  have "?z ! i = (i, xs ! i)" "i < length ?z" using assms(2) by simp_all
  then have "(i, xs ! i) \<in> set ?z" by (metis nth_mem)
  then have "length (filter (\<lambda>(i, _). i \<notin> set is) ?z) < length ?z"
    using assms(1) by (intro length_filter_less [where x = "(i, xs ! i)"]) auto
  then show ?thesis by (simp add: without_def)
qed

lemma those_length: "those xs = Some ys \<Longrightarrow> length ys = length xs"
  by (induction xs arbitrary: ys) (auto split: option.splits)

lemma settle_length: "length (fst (settle names kept st)) \<le> length kept"
proof (induction names kept st rule: settle.induct)
  case (1 names kept st)
  obtain kept' st' where p: "retain_pass (correlation_names 0 kept names) kept st = (kept', st')" by force
  have le: "length kept' \<le> length kept" using retain_pass_length [of _ kept st] p by (metis fst_conv)
  with 1 [OF refl p [symmetric] refl] show ?case
    by (subst settle.simps) (auto simp: p Let_def)
qed

function with_absent ::
  "('re, 'num) sigma_rule list \<Rightarrow> log_correlation list \<Rightarrow> string list \<Rightarrow>
     (('re, 'num) log_engine \<times> engine_error list \<times> nat) option" where
  "with_absent rules correlations absent =
     (let names = rule_names 0 rules [];
          (kept, st) = settle names correlations \<lparr>st_absent = absent, st_not_applicable = 0, st_errors = []\<rparr>
      in case those (map (sources_of (correlation_names 0 kept names)) kept) of
           None \<Rightarrow> None
         | Some listed \<Rightarrow>
             let bad = cyclic listed;
                 errors = st_errors st @ map (\<lambda>i. ListsItself (lr_title (kept ! i))) bad
             in if bad = [] then Some (finish_engine rules kept listed, errors, st_not_applicable st)
                else map_option (\<lambda>(engine, more, others). (engine, errors @ more, st_not_applicable st + others))
                       (with_absent rules (without bad kept) (st_absent st)))"
  by pat_completeness auto
termination
proof (relation "measure (\<lambda>(_, correlations, _). length correlations)")
  fix rules :: "('re, 'num) sigma_rule list" and correlations kept :: "log_correlation list"
    and absent names p st listed bad errors
  assume p: "p = settle names correlations \<lparr>st_absent = absent, st_not_applicable = 0, st_errors = []\<rparr>"
      "(kept, st) = p"
    and listed: "those (map (sources_of (correlation_names 0 kept names)) kept) = Some listed"
    and bad: "bad = cyclic listed" "bad \<noteq> []"
  have kept: "length kept \<le> length correlations"
    using settle_length [of names correlations] p by (metis fst_conv)
  have "length listed = length kept" using those_length [OF listed] by simp
  with bad(1) have "set bad \<subseteq> {..<length kept}" by (auto simp: cyclic_def)
  moreover obtain i where "i \<in> set bad" using bad(2) by (cases bad) auto
  ultimately have "length (without bad kept) < length kept" by (intro length_without [of i]) auto
  with kept show "((rules, without bad kept, st_absent st), rules, correlations, absent)
      \<in> measure (\<lambda>(_, correlations, _). length correlations)" by simp
qed simp

declare with_absent.simps [simp del]

text \<open>\<open>LogRuleEngine::new\<close>.\<close>

definition new_engine ::
  "('re, 'num) sigma_rule list \<Rightarrow> log_correlation list \<Rightarrow> (('re, 'num) log_engine \<times> engine_error list) option" where
  "new_engine rules correlations =
     map_option (\<lambda>(engine, errors, _). (engine, errors)) (with_absent rules correlations [])"

section \<open>Evaluating an event\<close>

record log_event =
  lo_services :: "string list"
  lo_categories :: "string list"
  lo_fields :: sigma_event
  lo_timestamp :: int

definition candidates :: "('re, 'num) log_engine \<Rightarrow> log_event \<Rightarrow> nat list" where
  "candidates e ev =
     le_every_log e
       @ concat (map (\<lambda>s. or_else (map_of (le_by_service e) s) []) (lo_services ev))
       @ concat (map (\<lambda>c. or_else (map_of (le_by_category e) c) []) (lo_categories ev))"

definition candidate_matches :: "('re, 'num) sigma_env \<Rightarrow> ('re, 'num) sigma_rule \<Rightarrow> log_event \<Rightarrow> bool" where
  "candidate_matches env r ev \<longleftrightarrow>
     \<not> (sr_service r \<noteq> None \<and> (case sr_category r of None \<Rightarrow> False | Some c \<Rightarrow> c \<notin> set (lo_categories ev)))
     \<and> rule_matches env r (lo_fields ev)"

definition rule_detection :: "('re, 'num) sigma_rule \<Rightarrow> detection" where
  "rule_detection r = \<lparr>de_rule_id = sr_id r, de_title = sr_title r, de_description = sr_description r,
     de_level = sr_level r, de_tags = sr_tags r, de_correlation = None\<rparr>"

definition correlation_detection :: "log_correlation \<Rightarrow> correlation_hit \<Rightarrow> detection" where
  "correlation_detection r hit = \<lparr>de_rule_id = lr_id r, de_title = lr_title r, de_description = lr_description r,
     de_level = lr_level r, de_tags = lr_tags r, de_correlation = Some hit\<rparr>"

text \<open>The matches of the rules: detections in order, and the stack of sources to count, its top first.\<close>

fun match_loop :: "('re, 'num) sigma_env \<Rightarrow> ('re, 'num) log_engine \<Rightarrow> log_event \<Rightarrow> nat list \<Rightarrow>
    detection list \<times> source list \<Rightarrow> detection list \<times> source list" where
  "match_loop env e ev [] acc = acc"
| "match_loop env e ev (i # is) (ds, pending) =
     (let lg = le_rules e ! i; r = lg_rule lg in
      if candidate_matches env r ev
      then match_loop env e ev is (ds @ (if lg_alerts lg then [rule_detection r] else []), SRule i # pending)
      else match_loop env e ev is (ds, pending))"

text \<open>One source counted by every correlation that lists it.\<close>

fun counting_loop :: "log_event \<Rightarrow> source \<Rightarrow> nat list \<Rightarrow> live_correlation list \<times> source list \<times> detection list \<Rightarrow>
    live_correlation list \<times> source list \<times> detection list" where
  "counting_loop ev s [] acc = acc"
| "counting_loop ev s (i # is) (cs, pending, ds) =
     (case count_match (cs ! i) s (lo_fields ev) (lo_timestamp ev) of
        (c, None) \<Rightarrow> counting_loop ev s is (cs[i := c], pending, ds)
      | (c, Some hit) \<Rightarrow>
          counting_loop ev s is
            (cs[i := c], SCorrelation i # pending,
             ds @ (if lv_alerts c then [correlation_detection (lv_rule c) hit] else [])))"

text \<open>The loop over the stack. A cycle would keep it from ending: \<^const>\<open>None\<close>.\<close>

partial_function (option) drain ::
  "(source \<times> nat list) list \<Rightarrow> log_event \<Rightarrow> live_correlation list \<Rightarrow> source list \<Rightarrow> detection list \<Rightarrow>
     (live_correlation list \<times> detection list) option" where
  "drain counted ev cs pending ds =
     (case pending of
        [] \<Rightarrow> Some (cs, ds)
      | s # rest \<Rightarrow>
          (case counting_loop ev s (or_else (map_of counted s) []) (cs, rest, ds) of
             (cs', pending', ds') \<Rightarrow> drain counted ev cs' pending' ds'))"

definition evaluate_event ::
  "('re, 'num) sigma_env \<Rightarrow> ('re, 'num) log_engine \<Rightarrow> log_event \<Rightarrow> (('re, 'num) log_engine \<times> detection list) option" where
  "evaluate_event env e ev =
     (case match_loop env e ev (candidates e ev) ([], []) of
        (ds, pending) \<Rightarrow>
          map_option (\<lambda>(cs, ds'). (e\<lparr>le_correlations := cs\<rparr>, ds'))
            (drain (le_counted_by e) ev (le_correlations e) pending ds))"

end
