(* ===== verification/Sigma_Load.thy ===== *)
theory Sigma_Load imports Sigma_Engine begin

text \<open>
  Loading Sigma rules (\<open>sigma.rs\<close> and \<open>sigma_logs.rs\<close> of \<open>crates/agent-scanner/src/security\<close>):
  the documents of a file, the files of a directory, the shipped rules and those that replace
  them, and the incident a detection becomes.

  Parameters: \<open>load_yaml\<close> parses the text of a file into documents (the crate \<open>yaml_rust2\<close>); the
  directory walk is the list of entries it yields, with what the file system says of each.
\<close>

section \<open>Documents\<close>

datatype ('re, 'num) sigma_document =
    DRule "('re, 'num) sigma_rule"
  | DCorrelation log_correlation

datatype document_error =
    Unreadable string
  | InvalidYaml string
  | EmptyFile
  | ActionCollection
  | RuleRefused rule_error
  | CorrelationRefused correlation_error
  | NotADetectionRule
  | SeveralDocuments

definition parse_document ::
  "('re, 'num) sigma_env \<Rightarrow> yaml \<Rightarrow> (document_error + ('re, 'num) sigma_document) option" where
  "parse_document env d =
     (if yaml_index d ''action'' \<noteq> YBadValue then Some (Inl ActionCollection)
      else if yaml_index d ''correlation'' \<noteq> YBadValue
      then Some (map_sum CorrelationRefused DCorrelation (parse_correlation d))
      else map_option (map_sum RuleRefused DRule) (rule_from_document env d))"

fun parse_each ::
  "('re, 'num) sigma_env \<Rightarrow> yaml list \<Rightarrow> (document_error + ('re, 'num) sigma_document list) option" where
  "parse_each env [] = Some (Inr [])"
| "parse_each env (d # ds) =
     (case parse_document env d of
        None \<Rightarrow> None
      | Some (Inl e) \<Rightarrow> Some (Inl e)
      | Some (Inr x) \<Rightarrow> map_option (map_sum id (\<lambda>xs. x # xs)) (parse_each env ds))"

definition parse_documents ::
  "('re, 'num) sigma_env \<Rightarrow> (string \<Rightarrow> string + yaml list) \<Rightarrow> string \<Rightarrow>
     (document_error + ('re, 'num) sigma_document list) option" where
  "parse_documents env load_yaml txt =
     (case load_yaml txt of
        Inl e \<Rightarrow> Some (Inl (InvalidYaml e))
      | Inr ds \<Rightarrow> if ds = [] then Some (Inl EmptyFile) else parse_each env ds)"

definition parse_rule ::
  "('re, 'num) sigma_env \<Rightarrow> (string \<Rightarrow> string + yaml list) \<Rightarrow> string \<Rightarrow>
     (document_error + ('re, 'num) sigma_rule) option" where
  "parse_rule env load_yaml txt =
     map_option (\<lambda>r. case r of
         Inl e \<Rightarrow> Inl e
       | Inr ds \<Rightarrow> (case ds of
             [DRule rule] \<Rightarrow> Inr rule
           | [DCorrelation _] \<Rightarrow> Inl NotADetectionRule
           | _ \<Rightarrow> Inl SeveralDocuments)) (parse_documents env load_yaml txt)"

section \<open>Sorting documents\<close>

datatype load_error =
    DirectoryIgnored string
  | FileUntrusted string string
  | FileTooLarge string
  | FileRefused string document_error
  | BuiltinRefused string document_error
  | EngineError engine_error

record load_report =
  rp_loaded :: nat
  rp_log_rules :: nat
  rp_correlations :: nat
  rp_reasons :: "nat str_map"
  rp_not_applicable :: nat
  rp_errors :: "load_error list"

record ('re, 'num) loaded_rules =
  ld_processes :: "('re, 'num) sigma_rule list"
  ld_logs :: "('re, 'num) sigma_rule list"
  ld_correlations :: "log_correlation list"
  ld_absent :: "string list"
  ld_report :: load_report

definition nothing_loaded :: "('re, 'num) loaded_rules" where
  "nothing_loaded = \<lparr>ld_processes = [], ld_logs = [], ld_correlations = [], ld_absent = [],
     ld_report = \<lparr>rp_loaded = 0, rp_log_rules = 0, rp_correlations = 0, rp_reasons = [],
                 rp_not_applicable = 0, rp_errors = []\<rparr>\<rparr>"

definition add_error :: "load_error \<Rightarrow> ('re, 'num) loaded_rules \<Rightarrow> ('re, 'num) loaded_rules" where
  "add_error e l = l\<lparr>ld_report := (ld_report l)\<lparr>rp_errors := rp_errors (ld_report l) @ [e]\<rparr>\<rparr>"

definition document_id :: "('re, 'num) sigma_document \<Rightarrow> string" where
  "document_id d = (case d of DRule r \<Rightarrow> sr_id r | DCorrelation r \<Rightarrow> lr_id r)"

definition not_for_this_endpoint :: "string \<Rightarrow> ('re, 'num) sigma_rule \<Rightarrow> ('re, 'num) loaded_rules \<Rightarrow> ('re, 'num) loaded_rules" where
  "not_for_this_endpoint reason rule l =
     (let rp = ld_report l in
      l\<lparr>ld_absent := sr_id rule # (case sr_name rule of None \<Rightarrow> [] | Some n \<Rightarrow> [n]) @ ld_absent l,
        ld_report := rp\<lparr>rp_not_applicable := rp_not_applicable rp + 1,
          rp_reasons := AList.update reason (or_else (map_of (rp_reasons rp) reason) 0 + 1) (rp_reasons rp)\<rparr>\<rparr>)"

definition add_document ::
  "log_coverage \<Rightarrow> string list \<Rightarrow> string \<Rightarrow> ('re, 'num) sigma_document \<Rightarrow> ('re, 'num) loaded_rules \<Rightarrow> ('re, 'num) loaded_rules" where
  "add_document coverage disabled host d l =
     (if document_id d \<in> set disabled then l
      else case d of
        DRule rule \<Rightarrow>
          (case target_of rule host coverage of
             Processes \<Rightarrow> l\<lparr>ld_processes := ld_processes l @ [rule]\<rparr>
           | Logs \<Rightarrow> l\<lparr>ld_logs := ld_logs l @ [rule]\<rparr>
           | NoTarget reason \<Rightarrow> not_for_this_endpoint reason rule l)
      | DCorrelation rule \<Rightarrow> l\<lparr>ld_correlations := ld_correlations l @ [rule]\<rparr>)"

definition add_documents ::
  "log_coverage \<Rightarrow> string list \<Rightarrow> string \<Rightarrow> ('re, 'num) sigma_document list \<Rightarrow> ('re, 'num) loaded_rules \<Rightarrow> ('re, 'num) loaded_rules" where
  "add_documents coverage disabled host ds l =
     (let l' = fold (add_document coverage disabled host) ds l
      in l'\<lparr>ld_report := (ld_report l')\<lparr>rp_loaded := length (ld_processes l'), rp_log_rules := length (ld_logs l'),
             rp_correlations := length (ld_correlations l')\<rparr>\<rparr>)"

section \<open>A rules directory\<close>

definition MAX_RULE_FILE_BYTES :: nat where
  "MAX_RULE_FILE_BYTES = 512 * 1024"

definition MAX_RULE_FILES :: nat where
  "MAX_RULE_FILES = 10000"

text \<open>An entry of the walk: its path, extension and kind, why it is not trusted, its size and its text.\<close>

record walk_entry =
  we_path :: string
  we_extension :: "string option"
  we_is_file :: bool
  we_untrusted :: "string option"
  we_bytes :: "nat option"
  we_text :: "string + string"

record rules_directory =
  rd_is_dir :: bool
  rd_untrusted :: "string option"
  rd_entries :: "walk_entry list"
  rd_disabled :: "string option"

definition disabled_rules :: "rules_directory \<Rightarrow> string list" where
  "disabled_rules dir =
     (case rd_disabled dir of
        None \<Rightarrow> []
      | Some txt \<Rightarrow> filter (\<lambda>i. i \<noteq> []) (map (\<lambda>line. trim (hd (split_on (CHR ''#'') line))) (lines txt)))"

definition rule_files :: "(walk_entry list \<Rightarrow> walk_entry list) \<Rightarrow> rules_directory \<Rightarrow> walk_entry list" where
  "rule_files sort_paths dir =
     sort_paths (take MAX_RULE_FILES
       (filter (\<lambda>e. we_is_file e \<and> we_extension e \<in> {Some ''yml'', Some ''yaml''}) (rd_entries dir)))"

definition file_documents ::
  "('re, 'num) sigma_env \<Rightarrow> (string \<Rightarrow> string + yaml list) \<Rightarrow> walk_entry \<Rightarrow>
     (document_error + ('re, 'num) sigma_document list) option" where
  "file_documents env load_yaml f =
     (case we_text f of Inl e \<Rightarrow> Some (Inl (Unreadable e)) | Inr txt \<Rightarrow> parse_documents env load_yaml txt)"

fun load_files ::
  "('re, 'num) sigma_env \<Rightarrow> (string \<Rightarrow> string + yaml list) \<Rightarrow> log_coverage \<Rightarrow> string list \<Rightarrow> string \<Rightarrow> walk_entry list \<Rightarrow>
     ('re, 'num) loaded_rules \<Rightarrow> ('re, 'num) loaded_rules option" where
  "load_files env load_yaml coverage disabled host [] l = Some l"
| "load_files env load_yaml coverage disabled host (f # fs) l =
     (case we_untrusted f of
        Some reason \<Rightarrow> load_files env load_yaml coverage disabled host fs (add_error (FileUntrusted (we_path f) reason) l)
      | None \<Rightarrow>
          if (case we_bytes f of None \<Rightarrow> False | Some n \<Rightarrow> MAX_RULE_FILE_BYTES < n)
          then load_files env load_yaml coverage disabled host fs (add_error (FileTooLarge (we_path f)) l)
          else case file_documents env load_yaml f of
            None \<Rightarrow> None
          | Some (Inl e) \<Rightarrow> load_files env load_yaml coverage disabled host fs (add_error (FileRefused (we_path f) e) l)
          | Some (Inr ds) \<Rightarrow>
              load_files env load_yaml coverage disabled host fs (add_documents coverage disabled host ds l))"

definition load_rules_for ::
  "('re, 'num) sigma_env \<Rightarrow> (string \<Rightarrow> string + yaml list) \<Rightarrow> (walk_entry list \<Rightarrow> walk_entry list) \<Rightarrow>
     rules_directory \<Rightarrow> log_coverage \<Rightarrow> string \<Rightarrow> ('re, 'num) loaded_rules option" where
  "load_rules_for env load_yaml sort_paths dir coverage host =
     (if \<not> rd_is_dir dir then Some nothing_loaded
      else case rd_untrusted dir of
        Some reason \<Rightarrow> Some (add_error (DirectoryIgnored reason) nothing_loaded)
      | None \<Rightarrow> load_files env load_yaml coverage (disabled_rules dir) host (rule_files sort_paths dir) nothing_loaded)"

section \<open>The shipped rules\<close>

fun builtin_documents ::
  "('re, 'num) sigma_env \<Rightarrow> (string \<Rightarrow> string + yaml list) \<Rightarrow> (string \<times> string) list \<Rightarrow>
     (('re, 'num) sigma_document list \<times> load_error list) option" where
  "builtin_documents env load_yaml [] = Some ([], [])"
| "builtin_documents env load_yaml ((name, txt) # rest) =
     (case parse_documents env load_yaml txt of
        None \<Rightarrow> None
      | Some (Inl e) \<Rightarrow> map_option (\<lambda>(ds, es). (ds, BuiltinRefused name e # es)) (builtin_documents env load_yaml rest)
      | Some (Inr xs) \<Rightarrow> map_option (\<lambda>(ds, es). (xs @ ds, es)) (builtin_documents env load_yaml rest))"

text \<open>A shipped document is left out when a log rule or correlation of the directory has its identifier.\<close>

definition add_shipped ::
  "log_coverage \<Rightarrow> string list \<Rightarrow> string \<Rightarrow> ('re, 'num) sigma_document list \<times> load_error list \<Rightarrow>
     ('re, 'num) loaded_rules \<Rightarrow> ('re, 'num) loaded_rules" where
  "add_shipped coverage disabled host shipped l =
     (let replaced = map sr_id (ld_logs l) @ map lr_id (ld_correlations l);
          rp = ld_report l
      in add_documents coverage disabled host
           (filter (\<lambda>d. document_id d \<notin> set replaced) (fst shipped))
           (l\<lparr>ld_report := rp\<lparr>rp_errors := rp_errors rp @ snd shipped\<rparr>\<rparr>))"

definition build_log_engine ::
  "('re, 'num) loaded_rules \<Rightarrow> (('re, 'num) loaded_rules \<times> ('re, 'num) log_engine) option" where
  "build_log_engine l =
     map_option (\<lambda>(engine, refused, not_applicable).
       let rp = ld_report l in
       (l\<lparr>ld_logs := [], ld_correlations := [],
          ld_report := rp\<lparr>rp_errors := rp_errors rp @ map EngineError refused,
            rp_not_applicable := rp_not_applicable rp + not_applicable,
            rp_log_rules := length (le_rules engine),
            rp_correlations := length (le_correlations engine)\<rparr>\<rparr>, engine))
       (with_absent (ld_logs l) (ld_correlations l) (ld_absent l))"

definition load_for ::
  "('re, 'num) sigma_env \<Rightarrow> (string \<Rightarrow> string + yaml list) \<Rightarrow> (walk_entry list \<Rightarrow> walk_entry list) \<Rightarrow> (string \<times> string) list \<Rightarrow>
     rules_directory \<Rightarrow> log_coverage \<Rightarrow> string \<Rightarrow> (('re, 'num) loaded_rules \<times> ('re, 'num) log_engine) option" where
  "load_for env load_yaml sort_paths shipped dir coverage host =
     (case load_rules_for env load_yaml sort_paths dir coverage host of
        None \<Rightarrow> None
      | Some l \<Rightarrow>
          (case builtin_documents env load_yaml shipped of
             None \<Rightarrow> None
           | Some builtin \<Rightarrow> build_log_engine (add_shipped coverage (disabled_rules dir) host builtin l)))"

section \<open>Incidents\<close>

datatype incident_kind =
    Malware | SuspiciousProcess | UnauthorizedChange | DataExfiltration | CryptoMiner | ReverseShell
  | CredentialTheft | PrivilegeEscalation | FirewallDisabled | AntivirusDisabled

datatype incident_severity = IncCritical | IncHigh | IncMedium | IncLow

definition has_tactic :: "string list \<Rightarrow> string \<Rightarrow> bool" where
  "has_tactic tags tactic \<longleftrightarrow> list_ex (\<lambda>tag. to_ascii_lowercase tag = ''attack.'' @ tactic) tags"

definition incident_type :: "string list \<Rightarrow> incident_kind" where
  "incident_type tags =
     (if has_tactic tags ''credential_access'' \<or> has_tactic tags ''credential-access'' then CredentialTheft
      else if has_tactic tags ''privilege_escalation'' \<or> has_tactic tags ''privilege-escalation'' then PrivilegeEscalation
      else if has_tactic tags ''exfiltration'' then DataExfiltration
      else if has_tactic tags ''persistence'' \<or> has_tactic tags ''defense_evasion'' \<or> has_tactic tags ''defense-evasion''
      then UnauthorizedChange
      else SuspiciousProcess)"

definition severity_confidence :: "sigma_level \<Rightarrow> incident_severity \<times> nat" where
  "severity_confidence l =
     (case l of LCritical \<Rightarrow> (IncCritical, 90) | LHigh \<Rightarrow> (IncHigh, 80) | LMedium \<Rightarrow> (IncMedium, 60)
      | LLow \<Rightarrow> (IncLow, 40) | LInformational \<Rightarrow> (IncLow, 20))"

definition MAX_EVIDENCE_CHARS :: nat where
  "MAX_EVIDENCE_CHARS = 512"

definition excerpt :: "string \<Rightarrow> string" where
  "excerpt value =
     (if char_count value \<le> MAX_EVIDENCE_CHARS then value
      else take_chars MAX_EVIDENCE_CHARS value @ [CHR 0xE2, CHR 0x80, CHR 0xA6])"

end
