(* ===== verification/Sigma_Grammar.thy ===== *)
theory Sigma_Grammar imports Sigma_Condition begin

text \<open>
  The parser of Sigma conditions against its grammar: with the fuel it is given it returns, what it
  returns is in the grammar, and what is in the grammar it returns.
\<close>

section \<open>The parser returns\<close>

fun fuel_for :: "production \<Rightarrow> nat \<Rightarrow> nat" where
  "fuel_for OrExpr k = 4 * k + 4"
| "fuel_for AndExpr k = 4 * k + 3"
| "fuel_for NotExpr k = 4 * k + 2"
| "fuel_for _ k = 4 * k + 1"

fun is_loop :: "production \<Rightarrow> bool" where
  "is_loop (OrLoop _) = True"
| "is_loop (AndLoop _) = True"
| "is_loop _ = False"

definition returns :: "production \<Rightarrow> tokens \<Rightarrow> parsed \<Rightarrow> bool" where
  "returns nt ts p \<longleftrightarrow> (case p of None \<Rightarrow> False
     | Some (Inl _) \<Rightarrow> True
     | Some (Inr (_, rest)) \<Rightarrow> if is_loop nt then length rest \<le> length ts else length rest < length ts)"

lemma and_then_simps [simp]:
  "and_then None f = None" "and_then (Some (Inl err)) f = Some (Inl err)" "and_then (Some (Inr (e, rest))) f = f e rest"
  by (simp_all add: and_then_def)

lemma and_then_Inr: "and_then p f = Some (Inr r) \<longleftrightarrow> (\<exists>e rest. p = Some (Inr (e, rest)) \<and> f e rest = Some (Inr r))"
  by (auto simp: and_then_def split: option.splits sum.splits)

lemma and_then_Some: "and_then p f = Some r \<longleftrightarrow>
    (\<exists>err. p = Some (Inl err) \<and> r = Inl err) \<or> (\<exists>e rest. p = Some (Inr (e, rest)) \<and> f e rest = Some r)"
  by (auto simp: and_then_def split: option.splits sum.splits)

text \<open>After a part that consumed something, the loop that follows has fuel enough.\<close>

lemma returns_then:
  assumes "returns nt ts p" and "\<not> is_loop nt" and "length ts \<le> length ts'"
    and "\<And>e rest. length rest < length ts \<Longrightarrow> returns (nt'' e) rest (f e rest)"
  shows "returns nt' ts' (and_then p f)"
proof (cases p)
  case None
  with assms(1) show ?thesis by (simp add: returns_def)
next
  case (Some res)
  show ?thesis
  proof (cases res)
    case (Inl e)
    with Some show ?thesis by (simp add: returns_def)
  next
    case (Inr er)
    obtain e rest where er: "er = (e, rest)" by force
    with assms(1,2) Some Inr have l: "length rest < length ts" by (simp add: returns_def)
    from assms(4) [OF this, of e] l assms(3) show ?thesis
      by (auto simp: Some Inr er returns_def split: option.splits sum.splits prod.splits if_splits)
  qed
qed

lemma keyword_Cons: "keyword w ts \<Longrightarrow> \<exists>t us. ts = t # us"
  by (cases ts) (auto simp: keyword_def)

lemma parse_returns: "fuel_for nt (length ts) \<le> n \<Longrightarrow> returns nt ts (parse n nt ts)"
proof (induction n arbitrary: nt ts)
  case 0
  then show ?case by (cases nt) auto
next
  case (Suc n)
  show ?case
  proof (cases nt)
    case OrExpr
    have "returns AndExpr ts (parse n AndExpr ts)" using Suc.prems OrExpr by (intro Suc.IH) simp
    then have "returns OrExpr ts (or_expr (parse n) ts)"
      unfolding or_expr_def
      by (rule returns_then [where nt'' = OrLoop]) (use Suc.prems OrExpr in \<open>auto intro!: Suc.IH\<close>)
    with OrExpr show ?thesis by simp
  next
    case AndExpr
    have "returns NotExpr ts (parse n NotExpr ts)" using Suc.prems AndExpr by (intro Suc.IH) simp
    then have "returns AndExpr ts (and_expr (parse n) ts)"
      unfolding and_expr_def
      by (rule returns_then [where nt'' = AndLoop]) (use Suc.prems AndExpr in \<open>auto intro!: Suc.IH\<close>)
    with AndExpr show ?thesis by simp
  next
    case (OrLoop left)
    show ?thesis
    proof (cases "keyword ''or'' ts")
      case True
      then obtain t us where k: "ts = t # us" using keyword_Cons by blast
      have "returns AndExpr (tl ts) (parse n AndExpr (tl ts))" using Suc.prems OrLoop k by (intro Suc.IH) simp
      then have "returns (OrLoop left) ts (and_then (parse n AndExpr (tl ts)) (\<lambda>right. parse n (OrLoop (Or left right))))"
        by (rule returns_then [where nt'' = "\<lambda>right. OrLoop (Or left right)"])
          (use Suc.prems OrLoop k in \<open>auto intro!: Suc.IH\<close>)
      with OrLoop True show ?thesis by (simp add: or_loop_def)
    next
      case False
      with OrLoop show ?thesis by (simp add: or_loop_def returns_def)
    qed
  next
    case (AndLoop left)
    show ?thesis
    proof (cases "keyword ''and'' ts")
      case True
      then obtain t us where k: "ts = t # us" using keyword_Cons by blast
      have "returns NotExpr (tl ts) (parse n NotExpr (tl ts))" using Suc.prems AndLoop k by (intro Suc.IH) simp
      then have "returns (AndLoop left) ts (and_then (parse n NotExpr (tl ts)) (\<lambda>right. parse n (AndLoop (And left right))))"
        by (rule returns_then [where nt'' = "\<lambda>right. AndLoop (And left right)"])
          (use Suc.prems AndLoop k in \<open>auto intro!: Suc.IH\<close>)
      with AndLoop True show ?thesis by (simp add: and_loop_def)
    next
      case False
      with AndLoop show ?thesis by (simp add: and_loop_def returns_def)
    qed
  next
    case NotExpr
    show ?thesis
    proof (cases "keyword ''not'' ts")
      case True
      then obtain t us where k: "ts = t # us" using keyword_Cons by blast
      have "returns NotExpr (tl ts) (parse n NotExpr (tl ts))" using Suc.prems NotExpr k by (intro Suc.IH) simp
      then have "returns NotExpr ts (and_then (parse n NotExpr (tl ts)) (\<lambda>inner rest. Some (Inr (Not inner, rest))))"
        by (rule returns_then [where nt'' = OrLoop]) (use k in \<open>auto simp: returns_def\<close>)
      with NotExpr True show ?thesis by (simp add: not_expr_def)
    next
      case False
      have "returns Primary ts (parse n Primary ts)" using Suc.prems NotExpr by (intro Suc.IH) simp
      with NotExpr False show ?thesis
        by (auto simp: not_expr_def returns_def split: option.splits sum.splits)
    qed
  next
    case Primary
    show ?thesis
    proof (cases ts)
      case Nil
      with Primary show ?thesis by (simp add: primary_def returns_def)
    next
      case (Cons token rest)
      have "returns OrExpr rest (parse n OrExpr rest)" using Suc.prems Primary Cons by (intro Suc.IH) simp
      then have "returns Primary ts (and_then (parse n OrExpr rest) (\<lambda>inner after. Some (case after of
          t # after' \<Rightarrow> if t = '')'' then Inr (inner, after') else Inl MissingParenthesis | [] \<Rightarrow> Inl MissingParenthesis)))"
        by (rule returns_then [where nt'' = OrLoop]) (auto simp: Cons returns_def split: list.splits)
      moreover have "length after < length ts" if "tl rest = target # after" for target after
        using that Cons by (cases rest) auto
      ultimately show ?thesis
        using Primary Cons by (auto simp: primary_def returns_def split: option.splits list.splits)
    qed
  qed
qed

section \<open>More fuel changes nothing\<close>

lemma and_then_mono:
  assumes "and_then p f = Some r" and "\<And>x. p = Some x \<Longrightarrow> q = Some x" and "\<And>e rest x. f e rest = Some x \<Longrightarrow> g e rest = Some x"
  shows "and_then q g = Some r"
  using assms by (fastforce simp: and_then_Some)

lemma parse_Suc: "parse n nt ts = Some r \<Longrightarrow> parse (Suc n) nt ts = Some r"
proof (induction n arbitrary: nt ts r)
  case 0
  then show ?case by simp
next
  case (Suc n)
  note step = and_then_mono [OF _ Suc.IH]
  note mono = Suc.IH
  have unfold: "parse (Suc m) nt ts = (case nt of
        OrExpr \<Rightarrow> or_expr (parse m) ts | OrLoop left \<Rightarrow> or_loop (parse m) left ts | AndExpr \<Rightarrow> and_expr (parse m) ts
      | AndLoop left \<Rightarrow> and_loop (parse m) left ts | NotExpr \<Rightarrow> not_expr (parse m) ts | Primary \<Rightarrow> primary (parse m) ts)" for m
    by simp
  from Suc.prems show ?case
    unfolding unfold [of n] unfold [of "Suc n"]
    by (cases nt)
      (auto simp: or_expr_def or_loop_def and_expr_def and_loop_def not_expr_def primary_def
        simp del: parse.simps intro!: step mono split: if_splits list.split_asm)
qed

lemma parse_mono: "parse n nt ts = Some r \<Longrightarrow> n \<le> m \<Longrightarrow> parse m nt ts = Some r"
  by (induction m) (auto simp: le_Suc_eq simp del: parse.simps intro: parse_Suc)

section \<open>What is parsed is in the grammar\<close>

fun sound :: "production \<Rightarrow> tokens \<Rightarrow> expr \<Rightarrow> tokens \<Rightarrow> bool" where
  "sound OrExpr ts e rest = (\<exists>us. ts = us @ rest \<and> or_form us e)"
| "sound (OrLoop l) ts e rest = (\<forall>ps. or_form ps l \<longrightarrow> (\<exists>us. ts = us @ rest \<and> or_form (ps @ us) e))"
| "sound AndExpr ts e rest = (\<exists>us. ts = us @ rest \<and> and_form us e)"
| "sound (AndLoop l) ts e rest = (\<forall>ps. and_form ps l \<longrightarrow> (\<exists>us. ts = us @ rest \<and> and_form (ps @ us) e))"
| "sound NotExpr ts e rest = (\<exists>us. ts = us @ rest \<and> not_form us e)"
| "sound Primary ts e rest = (\<exists>us. ts = us @ rest \<and> primary_form us e)"

lemma keyword_split: "keyword w ts \<Longrightarrow> \<exists>t us. ts = t # us \<and> is_word w t"
  by (cases ts) (auto simp: keyword_def)

lemma closes:
  "(case after of [] \<Rightarrow> Inl err | t # after' \<Rightarrow> if t = c then Inr (i, after') else Inl err) = Inr (e, rest) \<longleftrightarrow>
   after = c # rest \<and> i = e"
  by (cases after) auto

lemma parse_sound: "parse n nt ts = Some (Inr (e, rest)) \<Longrightarrow> keyword ''not'' ts = False \<or> nt \<noteq> Primary \<Longrightarrow> sound nt ts e rest"
proof (induction n arbitrary: nt ts e rest)
  case 0
  then show ?case by simp
next
  case (Suc n)
  show ?case
  proof (cases nt)
    case OrExpr
    with Suc.prems obtain l r1 where p: "parse n AndExpr ts = Some (Inr (l, r1))" "parse n (OrLoop l) r1 = Some (Inr (e, rest))"
      by (auto simp: or_expr_def and_then_Inr)
    from Suc.IH [OF p(1)] obtain us where us: "ts = us @ r1" "and_form us l" by auto
    with Suc.IH [OF p(2)] OrExpr show ?thesis by (fastforce dest: or_one)
  next
    case AndExpr
    with Suc.prems obtain l r1 where p: "parse n NotExpr ts = Some (Inr (l, r1))" "parse n (AndLoop l) r1 = Some (Inr (e, rest))"
      by (auto simp: and_expr_def and_then_Inr)
    from Suc.IH [OF p(1)] obtain us where us: "ts = us @ r1" "not_form us l" by auto
    with Suc.IH [OF p(2)] AndExpr show ?thesis by (fastforce dest: and_one)
  next
    case (OrLoop l)
    show ?thesis
    proof (cases "keyword ''or'' ts")
      case True
      then obtain w us where ts: "ts = w # us" "is_word ''or'' w" using keyword_split by blast
      with Suc.prems OrLoop True obtain r r1 where p: "parse n AndExpr us = Some (Inr (r, r1))"
        "parse n (OrLoop (Or l r)) r1 = Some (Inr (e, rest))"
        by (auto simp: or_loop_def and_then_Inr)
      from Suc.IH [OF p(1)] obtain vs where vs: "us = vs @ r1" "and_form vs r" by auto
      have "\<exists>us'. ts = us' @ rest \<and> or_form (ps @ us') e" if "or_form ps l" for ps
      proof -
        from Suc.IH [OF p(2)] or_more [OF that ts(2) vs(2)] obtain ws where "r1 = ws @ rest" "or_form ((ps @ w # vs) @ ws) e"
          by fastforce
        with ts vs show ?thesis by (intro exI [of _ "w # vs @ ws"]) simp
      qed
      with OrLoop show ?thesis by simp
    next
      case False
      with Suc.prems OrLoop show ?thesis by (auto simp: or_loop_def)
    qed
  next
    case (AndLoop l)
    show ?thesis
    proof (cases "keyword ''and'' ts")
      case True
      then obtain w us where ts: "ts = w # us" "is_word ''and'' w" using keyword_split by blast
      with Suc.prems AndLoop True obtain r r1 where p: "parse n NotExpr us = Some (Inr (r, r1))"
        "parse n (AndLoop (And l r)) r1 = Some (Inr (e, rest))"
        by (auto simp: and_loop_def and_then_Inr)
      from Suc.IH [OF p(1)] obtain vs where vs: "us = vs @ r1" "not_form vs r" by auto
      have "\<exists>us'. ts = us' @ rest \<and> and_form (ps @ us') e" if "and_form ps l" for ps
      proof -
        from Suc.IH [OF p(2)] and_more [OF that ts(2) vs(2)] obtain ws where "r1 = ws @ rest" "and_form ((ps @ w # vs) @ ws) e"
          by fastforce
        with ts vs show ?thesis by (intro exI [of _ "w # vs @ ws"]) simp
      qed
      with AndLoop show ?thesis by simp
    next
      case False
      with Suc.prems AndLoop show ?thesis by (auto simp: and_loop_def)
    qed
  next
    case NotExpr
    show ?thesis
    proof (cases "keyword ''not'' ts")
      case True
      then obtain w us where ts: "ts = w # us" "is_word ''not'' w" using keyword_split by blast
      with Suc.prems NotExpr True obtain i where p: "parse n NotExpr us = Some (Inr (i, rest))" "e = Not i"
        by (auto simp: not_expr_def and_then_Inr)
      from Suc.IH [OF p(1)] obtain vs where "us = vs @ rest" "not_form vs i" by auto
      with ts p(2) NotExpr show ?thesis by (auto intro!: exI [of _ "w # vs"] not_more)
    next
      case False
      with Suc.prems NotExpr have "parse n Primary ts = Some (Inr (e, rest))" by (simp add: not_expr_def)
      from Suc.IH [OF this] False NotExpr show ?thesis by (auto intro: not_one)
    qed
  next
    case Primary
    with Suc.prems have no: "\<not> keyword ''not'' ts" by simp
    from Suc.prems Primary obtain token ts' where ts: "ts = token # ts'"
      by (cases ts) (auto simp: primary_def)
    show ?thesis
    proof (cases "token = ''(''")
      case True
      with Suc.prems Primary ts obtain r1 where p: "parse n OrExpr ts' = Some (Inr (e, r1))" "r1 = '')'' # rest"
        by (auto simp: primary_def and_then_Inr closes)
      from Suc.IH [OF p(1)] obtain us where "ts' = us @ '')'' # rest" "or_form us e" using p(2) by auto
      with ts True Primary show ?thesis
        using parens [of us e] by (auto intro!: exI [of _ "[''(''] @ us @ ['')'']"])
    next
      case False
      note p = Suc.prems(1) Primary ts False
      from p have close: "token \<noteq> '')''" by (auto simp: primary_def)
      show ?thesis
      proof (cases "keyword ''of'' ts'")
        case True
        then obtain w us where ts': "ts' = w # us" "is_word ''of'' w" using keyword_split by blast
        with p close True obtain q target where "quantifier token = Some q" "us = target # rest" "e = Of q (of_pattern target)"
          by (auto simp: primary_def split: option.splits list.splits)
        moreover have "\<not> is_word ''not'' token" using no ts by (simp add: keyword_def)
        ultimately show ?thesis
          using quantified [OF False close ts'(2)] ts ts' Primary by (auto intro!: exI [of _ "[token, w, target]"])
      next
        case False
        with p close have "\<not> reserved token" "e = Search token" "ts' = rest" by (auto simp: primary_def split: if_splits)
        with named [OF \<open>token \<noteq> ''(''\<close> close] ts Primary show ?thesis by (auto intro!: exI [of _ "[token]"])
      qed
    qed
  qed
qed

section \<open>What is in the grammar is parsed\<close>

definition parses :: "production \<Rightarrow> tokens \<Rightarrow> (condition_error + expr \<times> tokens) \<Rightarrow> bool" where
  "parses nt ts r \<longleftrightarrow> (\<exists>n. parse n nt ts = Some r)"

lemma parsesI: "parse (Suc n) nt ts = Some x \<Longrightarrow> parses nt ts x"
  unfolding parses_def by (rule exI)

lemma parses_seq:
  assumes "parses nt ts (Inr (e, rest))" and "parses nt' rest x"
    and "\<And>n. parse n nt ts = Some (Inr (e, rest)) \<Longrightarrow> parse n nt' rest = Some x \<Longrightarrow> parse (Suc n) nt'' us = Some y"
  shows "parses nt'' us y"
proof -
  from assms(1,2) obtain n m where p: "parse n nt ts = Some (Inr (e, rest))" "parse m nt' rest = Some x" by (auto simp: parses_def)
  from assms(3) [OF parse_mono [OF p(1) max.cobounded1] parse_mono [OF p(2) max.cobounded2]] show ?thesis by (rule parsesI)
qed

lemma parses_or: "parses AndExpr ts (Inr (l, r)) \<Longrightarrow> parses (OrLoop l) r x \<Longrightarrow> parses OrExpr ts x"
  by (erule (1) parses_seq) (simp add: or_expr_def)

lemma parses_and: "parses NotExpr ts (Inr (l, r)) \<Longrightarrow> parses (AndLoop l) r x \<Longrightarrow> parses AndExpr ts x"
  by (erule (1) parses_seq) (simp add: and_expr_def)

lemma parses_or_more:
  "is_word ''or'' w \<Longrightarrow> parses AndExpr ts (Inr (r, rest)) \<Longrightarrow> parses (OrLoop (Or l r)) rest x \<Longrightarrow> parses (OrLoop l) (w # ts) x"
  by (erule (1) parses_seq) (simp add: or_loop_def keyword_def)

lemma parses_and_more:
  "is_word ''and'' w \<Longrightarrow> parses NotExpr ts (Inr (r, rest)) \<Longrightarrow> parses (AndLoop (And l r)) rest x \<Longrightarrow> parses (AndLoop l) (w # ts) x"
  by (erule (1) parses_seq) (simp add: and_loop_def keyword_def)

lemma parses_or_stop: "\<not> keyword ''or'' ts \<Longrightarrow> parses (OrLoop l) ts (Inr (l, ts))"
  by (rule parsesI) (simp add: or_loop_def)

lemma parses_and_stop: "\<not> keyword ''and'' ts \<Longrightarrow> parses (AndLoop l) ts (Inr (l, ts))"
  by (rule parsesI) (simp add: and_loop_def)

lemma parses_not:
  assumes "is_word ''not'' w" and "parses NotExpr ts (Inr (e, rest))"
  shows "parses NotExpr (w # ts) (Inr (Not e, rest))"
proof -
  from assms(2) obtain n where "parse n NotExpr ts = Some (Inr (e, rest))" by (auto simp: parses_def)
  with assms(1) show ?thesis by (intro parsesI [of n]) (simp add: not_expr_def keyword_def)
qed

lemma parses_primary:
  assumes "\<not> keyword ''not'' ts" and "parses Primary ts x"
  shows "parses NotExpr ts x"
proof -
  from assms(2) obtain n where "parse n Primary ts = Some x" by (auto simp: parses_def)
  with assms(1) show ?thesis by (intro parsesI [of n]) (simp add: not_expr_def)
qed

lemma parses_parens:
  assumes "parses OrExpr ts (Inr (e, '')'' # rest))"
  shows "parses Primary (''('' # ts) (Inr (e, rest))"
proof -
  from assms obtain n where "parse n OrExpr ts = Some (Inr (e, '')'' # rest))" by (auto simp: parses_def)
  then show ?thesis by (intro parsesI [of n]) (simp add: primary_def)
qed

lemma word_exclusive: "is_word v w \<Longrightarrow> keyword u (w # ts) \<longleftrightarrow> u = v"
  by (auto simp: is_word_def keyword_def)

lemma close_word: "\<not> keyword ''or'' ('')'' # ts)" "\<not> keyword ''and'' ('')'' # ts)" "\<not> keyword ''of'' ('')'' # ts)"
  "\<not> keyword ''not'' (''('' # ts)"
  by (code_simp | simp add: keyword_def is_word_def to_ascii_lowercase_def to_ascii_lower_char_def is_ascii_uppercase_def byte_def)+

lemma grammar_parses:
  "or_form us e \<Longrightarrow> \<not> keyword ''and'' rest \<Longrightarrow> \<not> keyword ''of'' rest \<Longrightarrow> parses (OrLoop e) rest x \<Longrightarrow> parses OrExpr (us @ rest) x"
  "and_form us e \<Longrightarrow> \<not> keyword ''of'' rest \<Longrightarrow> parses (AndLoop e) rest x \<Longrightarrow> parses AndExpr (us @ rest) x"
  "not_form us e \<Longrightarrow> \<not> keyword ''of'' rest \<Longrightarrow> parses NotExpr (us @ rest) (Inr (e, rest))"
  "primary_form us e \<Longrightarrow> \<not> keyword ''of'' rest \<Longrightarrow>
     parses Primary (us @ rest) (Inr (e, rest)) \<and> \<not> keyword ''not'' (us @ rest)"
proof (induction arbitrary: rest x and rest x and rest and rest rule: or_form_and_form_not_form_primary_form.inducts)
  case (or_one ts e)
  then show ?case using parses_or parses_and_stop by blast
next
  case (or_more ts l w us r)
  have "parses AndExpr (us @ rest) (Inr (r, rest))" using or_more parses_and_stop by blast
  then have "parses (OrLoop l) (w # us @ rest) x" using or_more.hyps or_more.prems parses_or_more by blast
  with or_more show ?case by (simp add: word_exclusive)
next
  case (and_one ts e)
  then show ?case using parses_and by blast
next
  case (and_more ts l w us r)
  then have "parses (AndLoop l) (w # us @ rest) x" using parses_and_more by blast
  with and_more show ?case by (simp add: word_exclusive)
next
  case (not_one ts e)
  then show ?case using parses_primary by blast
next
  case (not_more w ts e)
  then show ?case using parses_not by simp
next
  case (parens ts e)
  have "parses OrExpr (ts @ '')'' # rest) (Inr (e, '')'' # rest))"
    using parens.IH [of "'')'' # rest"] parses_or_stop close_word by blast
  then show ?case using parses_parens close_word by simp
next
  case (quantified token w q target)
  then show ?case
    by (auto simp: parses_def primary_def keyword_def intro!: exI [of _ "Suc 0"])
next
  case (named token)
  then show ?case
    by (auto simp: parses_def primary_def reserved_def keyword_def intro!: exI [of _ "Suc 0"])
qed

lemma parse_tokens_grammar: "\<exists>r. parse_tokens ts = Some r \<and> (\<forall>e. r = Inr e \<longleftrightarrow> or_form ts e)"
proof -
  have "returns OrExpr ts (parse (4 * length ts + 4) OrExpr ts)" by (rule parse_returns) simp
  then obtain p where p: "parse (4 * length ts + 4) OrExpr ts = Some p"
    by (auto simp: returns_def split: option.splits)
  obtain r where r: "parse_tokens ts = Some r"
    by (cases p) (auto simp: parse_tokens_def p)
  have "r = Inr e \<longleftrightarrow> or_form ts e" for e
  proof
    assume "r = Inr e"
    with r p have "p = Inr (e, [])" by (auto simp: parse_tokens_def split: sum.splits list.splits)
    with parse_sound [of _ OrExpr ts e "[]"] p show "or_form ts e" by auto
  next
    assume "or_form ts e"
    then have "parses OrExpr (ts @ []) (Inr (e, []))"
      by (rule grammar_parses) (simp_all add: keyword_def parses_or_stop)
    then obtain n where n: "parse n OrExpr ts = Some (Inr (e, []))" by (auto simp: parses_def)
    have "p = Inr (e, [])"
      using parse_mono [OF n, of "max n (4 * length ts + 4)"] parse_mono [OF p, of "max n (4 * length ts + 4)"] by simp
    with r p show "r = Inr e" by (simp add: parse_tokens_def)
  qed
  with r show ?thesis by blast
qed

end
