(* ===== verification/Sigma_Rule_Props.thy ===== *)
theory Sigma_Rule_Props imports Sigma_Rules Sigma_Grammar begin

text \<open>
  Properties of Sigma rules: conditions are read by their grammar, a loaded rule is closed, a network
  is its leading bits, and what dash variants do under \<open>all\<close>.
\<close>

section \<open>Conditions\<close>

text \<open>C15: Parsing a condition always ends, and it succeeds with exactly the expression the grammar
  gives the words of the condition: \<open>not\<close> before \<open>and\<close> before \<open>or\<close>, both to the left. A condition with a
  vertical bar is refused.\<close>

theorem condition_is_grammar:
  "\<exists>r. parse_condition c = Some r \<and>
       (\<forall>e. r = Inr e \<longleftrightarrow> \<not> str_contains c ''|'' \<and> or_form (words (spaced c)) e)"
proof (cases "str_contains c ''|''")
  case True
  then show ?thesis by (simp add: parse_condition_def)
next
  case False
  with parse_tokens_grammar [of "words (spaced c)"] show ?thesis by (simp add: parse_condition_def)
qed

lemma parse_condition_returns: "parse_condition c \<noteq> None"
  using parse_tokens_grammar [of "words (spaced c)"] by (auto simp: parse_condition_def)

section \<open>Rules\<close>

lemma conditions_loop_returns: "conditions_loop known texts \<noteq> None"
  by (induction texts) (auto simp: parse_condition_returns split: option.splits sum.splits)

lemma rule_from_document_returns: "rule_from_document env d \<noteq> None"
  using conditions_loop_returns by (auto simp: rule_from_document_def Let_def split: option.splits sum.splits)

lemma conditions_loop_closed:
  "conditions_loop known texts = Some (Inr es) \<Longrightarrow>
     length es = length texts \<and> (\<forall>e\<in>set es. set (references e) \<subseteq> set known)"
proof (induction texts arbitrary: es)
  case (Cons t ts)
  obtain e where e: "parse_condition t = Some (Inr e)" and f: "find (\<lambda>r. r \<notin> set known) (references e) = None"
    using Cons.prems by (auto split: option.splits sum.splits)
  with Cons.prems obtain r where r: "conditions_loop known ts = Some r" "map_sum id (\<lambda>es. e # es) r = Inr es" by auto
  then obtain es' where "r = Inr es'" "es = e # es'" by (cases r) auto
  with Cons.IH r f show ?case by (auto simp: find_None_iff)
qed simp

lemma detection_loop_names:
  "detection_loop env kvs searches c = Inr (searches', c') \<Longrightarrow> fst ` set searches \<inter> {''condition'', ''timeframe''} = {} \<Longrightarrow>
     hm_wf searches \<Longrightarrow> hm_wf searches' \<and> fst ` set searches' \<inter> {''condition'', ''timeframe''} = {}"
proof (induction env kvs searches c rule: detection_loop.induct)
  case (2 env key v rest searches c0)
  then show ?case by (auto split: option.splits if_splits sum.splits simp: dom_update)
qed simp

lemma rule_from_document_parts:
  assumes "rule_from_document env d = Some (Inr rule)"
  obtains det src where "detection_loop env det [] None = Inr (sr_searches rule, src)" "condition_texts src \<noteq> []"
    "conditions_loop (map fst (sr_searches rule)) (condition_texts src) = Some (Inr (sr_conditions rule))"
proof -
  from assms obtain det where 1: "as_hash (yaml_index d ''detection'') = Some det"
    by (auto simp: rule_from_document_def split: option.splits)
  with assms obtain ss src where 2: "detection_loop env det [] None = Inr (ss, src)"
    by (auto simp: rule_from_document_def split: option.splits sum.splits)
  with assms 1 have 3: "condition_texts src \<noteq> []"
    by (auto simp: rule_from_document_def split: option.splits if_splits)
  with assms 1 2 obtain r where 4: "conditions_loop (map fst ss) (condition_texts src) = Some r"
    by (auto simp: rule_from_document_def Let_def split: option.splits)
  then obtain cs where "r = Inr cs" "sr_conditions rule = cs" "sr_searches rule = ss"
    using assms 1 2 3 by (cases r) (auto simp: rule_from_document_def Let_def split: option.splits)
  with 2 3 4 that show thesis by simp
qed

text \<open>C16: A rule that is loaded has a condition, searches of distinct names, and refers to no search
  it does not define; \<open>condition\<close> and \<open>timeframe\<close> are not searches.\<close>

theorem loaded_rule_is_closed:
  assumes "rule_from_document env d = Some (Inr rule)"
  shows "sr_conditions rule \<noteq> [] \<and> hm_wf (sr_searches rule)
    \<and> (\<forall>c\<in>set (sr_conditions rule). set (references c) \<subseteq> fst ` set (sr_searches rule))
    \<and> ''condition'' \<notin> fst ` set (sr_searches rule) \<and> ''timeframe'' \<notin> fst ` set (sr_searches rule)"
proof -
  obtain det src where p: "detection_loop env det [] None = Inr (sr_searches rule, src)" "condition_texts src \<noteq> []"
    "conditions_loop (map fst (sr_searches rule)) (condition_texts src) = Some (Inr (sr_conditions rule))"
    using rule_from_document_parts [OF assms] .
  from conditions_loop_closed [OF p(3)] p(2) detection_loop_names [OF p(1)] show ?thesis by auto
qed

section \<open>Networks\<close>

definition address_width :: "ip_addr \<Rightarrow> nat" where
  "address_width ip = (if is_ipv6 ip then 128 else 32)"

definition leading_bit :: "ip_addr \<Rightarrow> nat \<Rightarrow> bool" where
  "leading_bit ip i = (case ip of V4 w \<Rightarrow> bit w (31 - i) | V6 w \<Rightarrow> bit w (127 - i))"

lemma bit_address_bits: "i < address_width ip \<Longrightarrow> bit (address_bits ip) (127 - i) = leading_bit ip i"
  by (cases ip) (auto simp: address_bits_def leading_bit_def address_width_def is_ipv6_def bit_simps)

lemma masked_equal:
  assumes "0 < p" "p \<le> 128"
  shows "and a (push_bit (128 - p) (- 1)) = and b (push_bit (128 - p) (- 1 :: 128 word)) \<longleftrightarrow>
    (\<forall>i<p. bit a (127 - i) = bit b (127 - i))"
proof -
  have "and a (push_bit (128 - p) (- 1)) = and b (push_bit (128 - p) (- 1 :: 128 word)) \<longleftrightarrow>
      (\<forall>n<128. 128 - p \<le> n \<longrightarrow> bit a n = bit b n)"
    by (auto simp: bit_eq_iff bit_simps)
  also have "\<dots> \<longleftrightarrow> (\<forall>i<p. bit a (127 - i) = bit b (127 - i))"
  proof (rule iffI; intro allI impI)
    fix i assume *: "\<forall>n<128. 128 - p \<le> n \<longrightarrow> bit a n = bit b n" "i < p"
    with assms show "bit a (127 - i) = bit b (127 - i)" by auto
  next
    fix n assume *: "\<forall>i<p. bit a (127 - i) = bit b (127 - i)" "n < 128" "128 - p \<le> n"
    then have "127 - n < p" "127 - (127 - n) = n" by auto
    with * show "bit a n = bit b n" by metis
  qed
  finally show ?thesis .
qed

lemma network_is_its_leading_bits:
  assumes "net_prefix net \<le> address_width (net_address net)"
  shows "network_contains net ip \<longleftrightarrow>
    is_ipv6 (to_canonical ip) = is_ipv6 (net_address net) \<and>
    (\<forall>i<net_prefix net. leading_bit (to_canonical ip) i = leading_bit (net_address net) i)"
proof (cases "is_ipv6 (to_canonical ip) = is_ipv6 (net_address net)")
  case True
  then have w: "address_width (to_canonical ip) = address_width (net_address net)" by (simp add: address_width_def)
  show ?thesis
  proof (cases "net_prefix net = 0")
    case False
    then have "0 < net_prefix net" "net_prefix net \<le> 128" using assms by (auto simp: address_width_def split: if_splits)
    note m = masked_equal [OF this, of "address_bits (to_canonical ip)" "address_bits (net_address net)"]
    have "(\<forall>i<net_prefix net. bit (address_bits (to_canonical ip)) (127 - i) = bit (address_bits (net_address net)) (127 - i))
        \<longleftrightarrow> (\<forall>i<net_prefix net. leading_bit (to_canonical ip) i = leading_bit (net_address net) i)"
      using assms w by (auto simp: bit_address_bits)
    with m True False show ?thesis by (simp add: network_contains_def Let_def)
  qed (simp add: network_contains_def True)
qed (simp add: network_contains_def)

section \<open>Dash variants\<close>

text \<open>\<open>|all\<close> over the variants of one value asks for all of them at once.\<close>

lemma try_map_Inr: "try_map f xs = Inr ys \<Longrightarrow> list_all2 (\<lambda>x y. f x = Inr y) xs ys"
  by (induction xs arbitrary: ys) (auto split: sum.splits)

definition dash_pattern :: "('re, 'num) sigma_env \<Rightarrow> modifiers \<Rightarrow> string \<Rightarrow> string \<Rightarrow> string" where
  "dash_pattern env mo txt dash =
     anchored (mo_anchor mo)
       (glob_to_regex (se_escape env) (se_replace_all env (se_static env flag_pattern) txt (''${1}'' @ dash)))"

definition plain_text :: "modifiers \<Rightarrow> bool" where
  "plain_text mo \<longleftrightarrow> \<not> mo_exists mo \<and> \<not> mo_regex mo \<and> \<not> mo_wide mo \<and> \<not> mo_base64 mo \<and> \<not> mo_base64_offset mo
     \<and> mo_comparison mo = None \<and> \<not> mo_fieldref mo \<and> \<not> mo_cidr mo"

lemma windash_matchers:
  assumes "plain_text mo" "mo_windash mo" "se_is_match env (se_static env flag_pattern) txt"
    and "string_matchers env txt mo = Inr ms"
  shows "list_all2 (\<lambda>dash m. \<exists>re. compile env (dash_pattern env mo txt dash) (mo_cased mo) = Inr re \<and> m = MPattern re) dashes ms"
  using assms
  by (auto simp: string_matchers_def plain_text_def windash_variants_def Let_def map_sum_Inr list_all2_map1 dash_pattern_def
      dest!: try_map_Inr)

lemma list_all_by: "list_all2 (\<lambda>x y. P x = Q y) xs ys \<Longrightarrow> list_all Q ys \<longleftrightarrow> list_all P xs"
  by (induction xs ys rule: list_all2_induct) auto

text \<open>With \<open>windash\<close> and \<open>all\<close> together a value that starts with a flag matches only a field in
  which every dash variant of it occurs at once, not one that has the flag with some dash.\<close>

theorem windash_all_needs_every_dash:
  assumes "parse_modifiers (tl (split_on (CHR ''|'') key)) = Inr mo" "plain_text mo" "mo_windash mo" "mo_all mo"
    and "se_is_match env (se_static env flag_pattern) txt"
    and "field_match env key (YString txt) = Inr fm"
  shows "field_matches env fm event \<longleftrightarrow>
    (\<exists>v. map_of event (fm_field fm) = Some v \<and>
      (\<forall>dash\<in>set dashes. \<exists>re. compile env (dash_pattern env mo txt dash) (mo_cased mo) = Inr re \<and> se_is_match env re v))"
proof -
  from assms obtain ms where sm: "string_matchers env txt mo = Inr ms"
    and fm: "fm_matchers fm = ms" "fm_all fm" "fm_exists fm = None"
    by (auto simp: field_match_def Let_def plain_text_def value_matchers_def scalar_text_def map_sum_Inr
        split: if_splits sum.splits)
  note w = windash_matchers [OF assms(2,3,5) sm]
  let ?v = "map_of event (fm_field fm)"
  have "list_all2 (\<lambda>dash m. (\<exists>re. compile env (dash_pattern env mo txt dash) (mo_cased mo) = Inr re
      \<and> (case ?v of None \<Rightarrow> False | Some v \<Rightarrow> se_is_match env re v)) = matcher_matches env m ?v event) dashes ms"
    using w by (rule list_all2_mono) (auto simp: matcher_matches_def)
  from list_all_by [OF this] fm have "field_matches env fm event \<longleftrightarrow>
      list_all (\<lambda>dash. \<exists>re. compile env (dash_pattern env mo txt dash) (mo_cased mo) = Inr re
        \<and> (case ?v of None \<Rightarrow> False | Some v \<Rightarrow> se_is_match env re v)) dashes"
    by (simp add: field_matches_def)
  moreover have "dashes \<noteq> []" by (simp add: dashes_def)
  ultimately show ?thesis by (cases ?v) (auto simp: list_all_iff dest: hd_in_set)
qed

section \<open>Examples\<close>

definition plain_env :: "(string, nat) sigma_env" where
  "plain_env = \<lparr>se_build = \<lambda>_ pat. Some pat, se_static = id,
     se_is_match = \<lambda>re v. re = flag_pattern \<or> str_contains v re,
     se_replace_all = \<lambda>_ v r. drop 4 r @ tl v, se_escape = id, se_base64 = id,
     se_parse_f64 = parse_u64, se_lt = (<), se_le = (\<le>), se_parse_ip = \<lambda>_. None\<rparr>"

definition sample_document :: yaml where
  "sample_document = YHash
     [(YString ''title'', YString ''Encoded command''),
      (YString ''logsource'', YHash [(YString ''category'', YString ''process_creation'')]),
      (YString ''detection'', YHash
        [(YString ''sel'', YHash [(YString ''CommandLine|contains'', YArray [YString ''-enc'', YInteger 7])]),
         (YString ''condition'', YString ''sel and not 1 of filter_*'')])]"

theorem loaded_rule_is_closed_witness: "\<exists>rule. rule_from_document plain_env sample_document = Some (Inr rule) \<and>
   sr_conditions rule \<noteq> [] \<and> hm_wf (sr_searches rule)"
proof -
  have "case rule_from_document plain_env sample_document of Some (Inr rule) \<Rightarrow> True | _ \<Rightarrow> False" by code_simp
  then obtain rule where r: "rule_from_document plain_env sample_document = Some (Inr rule)"
    by (auto split: option.splits sum.splits)
  with loaded_rule_is_closed [OF r] show ?thesis by blast
qed

theorem windash_all_needs_every_dash_witness:
  "\<exists>fm. field_match plain_env ''CommandLine|contains|windash|all'' (YString ''-enc'') = Inr fm \<and>
     \<not> field_matches plain_env fm [(''commandline'', ''powershell -enc aQBl'')]"
proof -
  let ?key = "''CommandLine|contains|windash|all''"
  have "case field_match plain_env ?key (YString ''-enc'') of Inr fm \<Rightarrow> fm_field fm = ''commandline'' | _ \<Rightarrow> False" by code_simp
  then obtain fm where fm: "field_match plain_env ?key (YString ''-enc'') = Inr fm" "fm_field fm = ''commandline''"
    by (auto split: sum.splits)
  let ?mo = "no_modifiers\<lparr>mo_anchor := AContains, mo_windash := True, mo_all := True\<rparr>"
  have 1: "parse_modifiers (tl (split_on (CHR ''|'') ?key)) = Inr ?mo" by (simp add: parse_modifiers_def modifier_table_def to_ascii_lowercase_def to_ascii_lower_char_def is_ascii_uppercase_def byte_def)
  have 2: "plain_text ?mo" "mo_windash ?mo" "mo_all ?mo" by (simp_all add: plain_text_def no_modifiers_def)
  have 3: "se_is_match plain_env (se_static plain_env flag_pattern) ''-enc''" by code_simp
  let ?ev = "[(''commandline'', ''powershell -enc aQBl'')]" and ?slash = "dash_pattern plain_env ?mo ''-enc'' ''/''"
  have no: "\<not> str_contains ''powershell -enc aQBl'' ?slash" "?slash \<noteq> flag_pattern" by code_simp+
  have re: "re = p" if "compile plain_env p c = Inr re" for p c re
    using that by (simp add: compile_def plain_env_def)
  have is_match: "se_is_match plain_env re v \<longleftrightarrow> re = flag_pattern \<or> str_contains v re" for re v by (simp add: plain_env_def)
  have "''/'' \<in> set dashes" by (simp add: dashes_def)
  with windash_all_needs_every_dash [OF 1 2 3 fm(1), of ?ev]
  have "field_matches plain_env fm ?ev \<Longrightarrow> \<exists>re. compile plain_env ?slash (mo_cased ?mo) = Inr re
      \<and> se_is_match plain_env re ''powershell -enc aQBl''"
    unfolding fm(2) by auto
  with no re is_match have "\<not> field_matches plain_env fm ?ev" by metis
  with fm(1) show ?thesis by blast
qed

theorem network_is_its_leading_bits_witness:
  "network_contains \<lparr>net_address = V4 0x0A000000, net_prefix = 8\<rparr> (V4 0x0A010203)"
  using network_is_its_leading_bits [of "\<lparr>net_address = V4 0x0A000000, net_prefix = 8\<rparr>" "V4 0x0A010203"]
  by (simp add: address_width_def is_ipv6_def to_canonical_def leading_bit_def All_less_Suc numeral_eq_Suc)

end
