(* ===== verification/Sigma_Engine_Props.thy ===== *)
theory Sigma_Engine_Props imports Sigma_Engine "HOL-Library.Multiset" begin

text \<open>
  The engine of log rules: settling keeps the correlations whose rules exist, the search for cycles
  finds exactly those that feed themselves, and so the stack of an evaluation always empties.
\<close>

section \<open>Settling\<close>

lemma retain_pass_filter: "fst (retain_pass known rs st) = filter (\<lambda>r. unknown_of known r = None) rs"
proof (induction rs arbitrary: st)
  case (Cons r rs)
  then show ?case by (auto split: option.split prod.split) (metis fst_conv)+
qed simp

lemma settle_fixpoint:
  "settle names kept st = (kept', st') \<Longrightarrow>
     set kept' \<subseteq> set kept \<and> (\<forall>r\<in>set kept'. unknown_of (correlation_names 0 kept' names) r = None)"
proof (induction names kept st rule: settle.induct)
  case (1 names kept st)
  let ?known = "correlation_names 0 kept names"
  obtain k s where p: "retain_pass ?known kept st = (k, s)" by force
  then have k: "k = filter (\<lambda>r. unknown_of ?known r = None) kept" using retain_pass_filter [of ?known kept st] by simp
  show ?case
  proof (cases "length k = length kept")
    case True
    with 1 p have "kept' = k" by (subst (asm) settle.simps) (simp add: Let_def)
    moreover from True k have all: "\<forall>r\<in>set kept. unknown_of ?known r = None"
      by (metis (mono_tags, lifting) length_filter_less less_irrefl)
    moreover from all k have "k = kept" by (simp add: filter_id_conv)
    ultimately show ?thesis by simp
  next
    case False
    with 1(2) p have "settle names k s = (kept', st')" by (subst (asm) settle.simps) (simp add: Let_def)
    with 1(1) [OF refl p [symmetric] refl False] k show ?thesis by auto
  qed
qed

lemma those_Some: "(\<forall>x\<in>set xs. x \<noteq> None) \<Longrightarrow> those xs \<noteq> None"
  by (induction xs) auto

lemma those_nth: "those xs = Some ys \<Longrightarrow> i < length xs \<Longrightarrow> xs ! i = Some (ys ! i)"
proof (induction xs arbitrary: ys i)
  case (Cons x xs)
  then show ?case by (cases i) (auto split: option.splits)
qed simp

lemma sources_known: "unknown_of names r = None \<Longrightarrow> sources_of names r \<noteq> None"
  unfolding sources_of_def unknown_of_def by (rule those_Some) (auto simp: find_None_iff)

section \<open>What is built\<close>

definition settled :: "('re, 'num) sigma_rule list \<Rightarrow> log_correlation list \<Rightarrow> source list list \<Rightarrow> bool" where
  "settled rules kept listed \<longleftrightarrow>
     those (map (sources_of (correlation_names 0 kept (rule_names 0 rules []))) kept) = Some listed \<and> cyclic listed = []"

lemma set_without: "set (without is xs) \<subseteq> set xs"
  by (auto simp: without_def dest: set_zip_rightD)

lemma with_absent_built:
  "\<exists>kept listed errors n. with_absent rules correlations absent = Some (finish_engine rules kept listed, errors, n)
     \<and> settled rules kept listed \<and> set kept \<subseteq> set correlations"
proof (induction rules correlations absent rule: with_absent.induct)
  case (1 rules correlations absent)
  let ?names = "rule_names 0 rules []"
  obtain kept st where s: "settle ?names correlations \<lparr>st_absent = absent, st_not_applicable = 0, st_errors = []\<rparr> = (kept, st)"
    by force
  let ?all = "correlation_names 0 kept ?names"
  note fp = settle_fixpoint [OF s]
  have "those (map (sources_of ?all) kept) \<noteq> None" using fp by (intro those_Some) (auto dest: sources_known)
  then obtain listed where l: "those (map (sources_of ?all) kept) = Some listed" by auto
  show ?case
  proof (cases "cyclic listed = []")
    case True
    with s l fp show ?thesis by (subst with_absent.simps) (auto simp: settled_def Let_def)
  next
    case False
    from 1 [OF refl s [symmetric] refl l refl refl False]
    obtain kept' listed' errors n where
      "with_absent rules (without (cyclic listed) kept) (st_absent st) = Some (finish_engine rules kept' listed', errors, n)"
      "settled rules kept' listed'" "set kept' \<subseteq> set (without (cyclic listed) kept)" by blast
    with s l False have "\<exists>errors n. with_absent rules correlations absent = Some (finish_engine rules kept' listed', errors, n)"
      by (subst with_absent.simps) (simp add: Let_def)
    moreover have "set kept' \<subseteq> set correlations"
      using fp set_without [of "cyclic listed" kept] \<open>set kept' \<subseteq> _\<close> by blast
    ultimately show ?thesis using \<open>settled rules kept' listed'\<close> by blast
  qed
qed

lemma file_rules_rules: "map lg_rule (le_rules (file_rules al i rs e)) = map lg_rule (le_rules e) @ rs"
  by (induction rs arbitrary: i e) (auto simp: file_rule_def Let_def split: option.split)

lemma file_rules_others [simp]:
  "le_correlations (file_rules al i rs e) = le_correlations e" "le_counted_by (file_rules al i rs e) = le_counted_by e"
  by (induction rs arbitrary: i e) (auto simp: file_rule_def Let_def split: option.split)

lemma finish_rules: "map lg_rule (le_rules (finish_engine rules kept listed)) = rules"
  by (simp add: finish_engine_def Let_def file_rules_rules empty_engine_def)

lemma finish_correlations:
  "length listed = length kept \<Longrightarrow> map lv_rule (le_correlations (finish_engine rules kept listed)) = kept"
  "length listed = length kept \<Longrightarrow> map lv_sources (le_correlations (finish_engine rules kept listed)) = listed"
  by (auto simp: finish_engine_def Let_def start_counting_def intro!: nth_equalityI)

lemma settled_length: "settled rules kept listed \<Longrightarrow> length listed = length kept"
  by (auto simp: settled_def dest: those_length)

section \<open>Cycles\<close>

definition feeds :: "source list list \<Rightarrow> (nat \<times> nat) set" where
  "feeds listed = {(i, n). n \<in> set (listed_at listed i)}"

lemma push_unseen_sets:
  "push_unseen ns seen pending = (seen', pending') \<Longrightarrow>
     set seen' = set seen \<union> set ns \<and> set pending' = set pending \<union> (set ns - set seen)"
  by (induction ns arbitrary: seen pending) (auto split: if_splits)

text \<open>Without an answer, the start and all it leads to is closed and never leads back.\<close>

lemma lists_start_closed:
  "\<not> lists_start listed start seen pending \<Longrightarrow> start \<notin> set seen \<Longrightarrow>
     \<forall>i\<in>insert start (set seen). i \<in> set pending \<or> set (listed_at listed i) \<subseteq> set seen \<Longrightarrow>
     \<exists>C. start \<in> C \<and> (\<forall>i\<in>C. set (listed_at listed i) \<subseteq> C - {start})"
proof (induction listed start seen pending rule: lists_start.induct)
  case (1 listed start seen)
  then show ?case by (intro exI [of _ "insert start (set seen)"]) auto
next
  case (2 listed start seen i pending)
  obtain seen' pending' where p: "push_unseen (listed_at listed i) seen pending = (seen', pending')" by force
  from 2(2) have no: "start \<notin> set (listed_at listed i)" by auto
  from push_unseen_sets [OF p] 2(3,4) no show ?case
    by (intro 2(1) [OF no p [symmetric]]) (use 2(2) no p in \<open>auto\<close>)
qed

lemma lists_start_reaches:
  "lists_start listed start seen pending \<Longrightarrow> \<forall>i\<in>set pending. (start, i) \<in> (feeds listed)\<^sup>* \<Longrightarrow>
     (start, start) \<in> (feeds listed)\<^sup>+"
proof (induction listed start seen pending rule: lists_start.induct)
  case (2 listed start seen i pending)
  have step: "(start, n) \<in> (feeds listed)\<^sup>+" if "n \<in> set (listed_at listed i)" for n
    using 2(3) that by (auto simp: feeds_def intro: rtrancl_into_trancl1)
  show ?case
  proof (cases "start \<in> set (listed_at listed i)")
    case True
    then show ?thesis by (rule step)
  next
    case False
    obtain seen' pending' where p: "push_unseen (listed_at listed i) seen pending = (seen', pending')" by force
    with 2(2) False have "lists_start listed start seen' pending'" by simp
    from 2(1) [OF False p [symmetric] this] push_unseen_sets [OF p] 2(3) show ?thesis
      using step by (auto dest: trancl_into_rtrancl)
  qed
qed simp

lemma lists_start_iff: "lists_start listed i [] [i] \<longleftrightarrow> (i, i) \<in> (feeds listed)\<^sup>+"
proof
  assume "lists_start listed i [] [i]"
  then show "(i, i) \<in> (feeds listed)\<^sup>+" by (rule lists_start_reaches) simp
next
  assume c: "(i, i) \<in> (feeds listed)\<^sup>+"
  show "lists_start listed i [] [i]"
  proof (rule ccontr)
    assume "\<not> lists_start listed i [] [i]"
    from lists_start_closed [OF this] obtain C where C: "i \<in> C" "\<forall>j\<in>C. set (listed_at listed j) \<subseteq> C - {i}" by auto
    have "(a, b) \<in> (feeds listed)\<^sup>+ \<Longrightarrow> a \<in> C \<Longrightarrow> b \<in> C - {i}" for a b
      by (induction rule: trancl_induct) (use C in \<open>auto simp: feeds_def\<close>)
    with c C(1) show False by blast
  qed
qed

lemma feeds_range: "(i, n) \<in> feeds listed \<Longrightarrow> i < length listed"
  by (auto simp: feeds_def listed_at_def split: if_splits)

lemma cyclic_iff: "i \<in> set (cyclic listed) \<longleftrightarrow> (i, i) \<in> (feeds listed)\<^sup>+"
proof -
  have "i < length listed" if "(i, i) \<in> (feeds listed)\<^sup>+" using that by (auto dest!: tranclD intro: feeds_range)
  then show ?thesis by (auto simp: cyclic_def lists_start_iff simp del: lists_start.simps)
qed

lemma feeds_wf:
  assumes "cyclic listed = []"
  shows "wf (feeds listed)"
proof (rule finite_acyclic_wf)
  have "feeds listed \<subseteq> (\<Union>i<length listed. Pair i ` set (listed_at listed i))"
    using feeds_range by (fastforce simp: feeds_def)
  then show "finite (feeds listed)" by (rule finite_subset) simp
  show "acyclic (feeds listed)" using assms cyclic_iff [of _ listed] by (auto simp: acyclic_def)
qed

section \<open>The listings\<close>

definition counters :: "(source \<times> nat list) list \<Rightarrow> source \<Rightarrow> nat set" where
  "counters m s = set (or_else (map_of m s) [])"

lemma counters_push: "counters (push_at s i m) t = (if t = s then insert i (counters m t) else counters m t)"
  by (auto simp: counters_def push_at_def or_else_def update_conv split: option.split)

lemma count_listing_counters:
  "counters (fst (count_listing g i ss acc)) t = counters (fst acc) t \<union> (if t \<in> set ss then {i} else {})"
proof (induction ss arbitrary: acc)
  case (Cons s ss)
  obtain m gen where "acc = (m, gen)" by force
  with Cons show ?case by (auto simp: counters_push)
qed simp

lemma count_listings_counters:
  "counters (fst (count_listings i rs acc)) t = counters (fst acc) t \<union> {j. \<exists>k<length rs. j = i + k \<and> t \<in> set (snd (rs ! k))}"
proof (induction rs arbitrary: i acc)
  case (Cons x rs)
  obtain r ss where x: "x = (r, ss)" by force
  have "{j. \<exists>k<length (x # rs). j = i + k \<and> t \<in> set (snd ((x # rs) ! k))} =
      (if t \<in> set ss then {i} else {}) \<union> {j. \<exists>k<length rs. j = Suc i + k \<and> t \<in> set (snd (rs ! k))}" (is "?l = ?r")
  proof (intro set_eqI iffI)
    fix j assume "j \<in> ?l"
    then obtain k where "k < length (x # rs)" "j = i + k" "t \<in> set (snd ((x # rs) ! k))" by blast
    then show "j \<in> ?r" using x by (cases k) auto
  next
    fix j assume "j \<in> ?r"
    then consider "j = i" "t \<in> set ss" | k where "k < length rs" "j = Suc i + k" "t \<in> set (snd (rs ! k))"
      by (auto split: if_splits)
    then show "j \<in> ?l"
    proof cases
      case 1
      with x show ?thesis by (intro CollectI exI [of _ 0]) simp
    next
      case 2
      then show ?thesis by (intro CollectI exI [of _ "Suc k"]) simp
    qed
  qed
  with Cons.IH x show ?case by (simp add: count_listing_counters Un_assoc)
qed simp

lemma counters_finish:
  assumes "length listed = length kept"
  shows "counters (le_counted_by (finish_engine rules kept listed)) s = {i. i < length kept \<and> s \<in> set (listed ! i)}"
  using assms by (auto simp: finish_engine_def Let_def count_listings_counters counters_def [of "[]"] or_else_def)

section \<open>The stack empties\<close>

text \<open>A correlation comes after what it lists.\<close>

definition later :: "(source \<times> nat list) list \<Rightarrow> (source \<times> source) set" where
  "later m = {(SCorrelation i, s) | i s. i \<in> counters m s}"

lemma listed_correlations_set: "n \<in> set (listed_correlations ss) \<longleftrightarrow> SCorrelation n \<in> set ss"
  by (induction ss rule: listed_correlations.induct) auto

lemma later_wf:
  assumes "settled rules kept listed"
  shows "wf (later (le_counted_by (finish_engine rules kept listed)))"
proof -
  note len = settled_length [OF assms]
  have wf: "wf (feeds listed)" using assms by (intro feeds_wf) (simp add: settled_def)
  let ?R = "later (le_counted_by (finish_engine rules kept listed))"
  have step: "(i, n) \<in> feeds listed" if "(SCorrelation i, SCorrelation n) \<in> ?R" for i n
    using that len by (auto simp: later_def counters_finish feeds_def listed_at_def listed_correlations_set)
  have corr: "SCorrelation n \<in> Wellfounded.acc ?R" for n
  proof (induction n rule: wf_induct_rule [OF wf])
    case (1 n)
    show ?case
    proof (rule accI)
      fix s assume s: "(s, SCorrelation n) \<in> ?R"
      then obtain i where "s = SCorrelation i" by (auto simp: later_def)
      with step s 1 show "s \<in> Wellfounded.acc ?R" by auto
    qed
  qed
  have "s \<in> Wellfounded.acc ?R" for s
  proof (rule accI)
    fix s' assume "(s', s) \<in> ?R"
    then show "s' \<in> Wellfounded.acc ?R" using corr by (auto simp: later_def)
  qed
  then show ?thesis by (rule acc_wfI [rule_format])
qed

lemma counting_loop_pending:
  "counting_loop ev s is (cs, pending, ds) = (cs', pending', ds') \<Longrightarrow>
     \<exists>new. pending' = new @ pending \<and> set new \<subseteq> SCorrelation ` set is \<and> length cs' = length cs"
proof (induction "is" arbitrary: cs pending ds)
  case (Cons i "is")
  obtain c hit where c: "count_match (cs ! i) s (lo_fields ev) (lo_timestamp ev) = (c, hit)" by force
  show ?case
  proof (cases hit)
    case None
    with Cons c show ?thesis by fastforce
  next
    case (Some h)
    with Cons.prems c Cons.IH obtain new where "pending' = new @ SCorrelation i # pending"
      "set new \<subseteq> SCorrelation ` set is" "length cs' = length cs" by fastforce
    then show ?thesis by (intro exI [of _ "new @ [SCorrelation i]"]) auto
  qed
qed simp

lemma drain_returns:
  assumes "wf (later counted)"
  shows "\<exists>cs' ds'. drain counted ev cs pending ds = Some (cs', ds') \<and> length cs' = length cs"
proof (induction "mset pending" arbitrary: pending cs ds rule: wf_induct_rule [OF wf_mult1 [OF assms]])
  case 1
  show ?case
  proof (cases pending)
    case Nil
    then show ?thesis by (simp add: drain.simps)
  next
    case (Cons s rest)
    let ?is = "or_else (map_of counted s) []"
    obtain cs' pending' ds' where l: "counting_loop ev s ?is (cs, rest, ds) = (cs', pending', ds')"
      by (metis prod_cases3)
    from counting_loop_pending [OF l] obtain new where
      new: "pending' = new @ rest" "set new \<subseteq> SCorrelation ` set ?is" "length cs' = length cs" by blast
    have "\<forall>b. b \<in># mset new \<longrightarrow> (b, s) \<in> later counted" using new(2) by (auto simp: later_def counters_def)
    then have "(mset pending', mset pending) \<in> mult1 (later counted)"
      unfolding mult1_def mem_Collect_eq case_prod_conv
      by (intro exI [of _ s] exI [of _ "mset rest"] exI [of _ "mset new"]) (simp add: new(1) Cons)
    from 1 [OF this, of cs' ds'] new l Cons show ?thesis by (subst drain.simps) simp
  qed
qed

lemma evaluate_event_returns:
  assumes "wf (later (le_counted_by e))"
  shows "\<exists>cs ds. evaluate_event env e ev = Some (e\<lparr>le_correlations := cs\<rparr>, ds) \<and> length cs = length (le_correlations e)"
proof -
  obtain ds pending where m: "match_loop env e ev (candidates e ev) ([], []) = (ds, pending)" by force
  from drain_returns [OF assms, of ev "le_correlations e" pending ds] m show ?thesis
    by (auto simp: evaluate_event_def)
qed

fun evaluate_events ::
  "('re, 'num) sigma_env \<Rightarrow> ('re, 'num) log_engine \<Rightarrow> log_event list \<Rightarrow> (('re, 'num) log_engine \<times> detection list) option" where
  "evaluate_events env e [] = Some (e, [])"
| "evaluate_events env e (ev # evs) =
     (case evaluate_event env e ev of
        None \<Rightarrow> None
      | Some (e', ds) \<Rightarrow> map_option (\<lambda>(e'', ds'). (e'', ds @ ds')) (evaluate_events env e' evs))"

lemma evaluate_events_returns: "wf (later (le_counted_by e)) \<Longrightarrow> evaluate_events env e evs \<noteq> None"
proof (induction evs arbitrary: e)
  case (Cons ev evs)
  from evaluate_event_returns [OF Cons.prems] obtain cs ds where
    ev: "evaluate_event env e ev = Some (e\<lparr>le_correlations := cs\<rparr>, ds)" by blast
  from Cons.IH [of "e\<lparr>le_correlations := cs\<rparr>"] Cons.prems ev show ?case by simp
qed simp

text \<open>C17: Building the engine never panics and keeps all rules and only correlations it was given;
  evaluating any sequence of events on it then returns, since no correlation feeds itself.\<close>

theorem log_engine_always_returns:
  "\<exists>engine errors n. with_absent rules correlations absent = Some (engine, errors, n)
     \<and> map lg_rule (le_rules engine) = rules \<and> map lv_rule (le_correlations engine) \<in> lists (set correlations)
     \<and> evaluate_events env engine evs \<noteq> None"
proof -
  from with_absent_built [of rules correlations absent] obtain kept listed errors n where
    b: "with_absent rules correlations absent = Some (finish_engine rules kept listed, errors, n)"
      "settled rules kept listed" "set kept \<subseteq> set correlations" by blast
  have "map lv_rule (le_correlations (finish_engine rules kept listed)) \<in> lists (set correlations)"
    unfolding finish_correlations(1) [OF settled_length [OF b(2)]] using b(3) by auto
  with evaluate_events_returns [OF later_wf [OF b(2)]] finish_rules b(1) show ?thesis by blast
qed

end
