(* ===== verification/Sigma_Load_Props.thy ===== *)
theory Sigma_Load_Props imports Sigma_Load Sigma_Rule_Props Sigma_Engine_Props begin

text \<open>Loading Sigma rules: it always returns, and what is disabled is not evaluated.\<close>

section \<open>Disabled rules\<close>

definition none_of :: "string list \<Rightarrow> ('re, 'num) loaded_rules \<Rightarrow> bool" where
  "none_of ids l \<longleftrightarrow> (\<forall>r\<in>set (ld_processes l) \<union> set (ld_logs l). sr_id r \<notin> set ids) \<and> (\<forall>r\<in>set (ld_correlations l). lr_id r \<notin> set ids)"

lemma none_of_report [simp]: "none_of ids (l\<lparr>ld_report := rp\<rparr>) = none_of ids l"
  by (simp add: none_of_def)

lemma none_of_add: "none_of ids l \<Longrightarrow> none_of ids (add_document cov ids host d l)"
  by (auto simp: none_of_def add_document_def document_id_def not_for_this_endpoint_def Let_def
      split: sigma_document.splits rule_target.splits)

lemma none_of_fold: "none_of ids l \<Longrightarrow> none_of ids (fold (add_document cov ids host) ds l)"
  by (induction ds arbitrary: l) (simp_all add: none_of_add)

lemma none_of_documents: "none_of ids l \<Longrightarrow> none_of ids (add_documents cov ids host ds l)"
  by (simp add: add_documents_def Let_def none_of_fold)

lemma none_of_error: "none_of ids l \<Longrightarrow> none_of ids (add_error e l)"
  by (simp add: add_error_def)

lemma none_of_files: "none_of ids l \<Longrightarrow> load_files env ly cov ids host fs l = Some l' \<Longrightarrow> none_of ids l'"
proof (induction fs arbitrary: l)
  case (Cons f fs)
  then show ?case by (auto split: option.splits if_splits sum.splits intro: none_of_error none_of_documents)
qed simp

lemma none_of_load:
  assumes "load_rules_for env ly sp dir cov host = Some l"
  shows "none_of (disabled_rules dir) l"
proof -
  have "none_of ids nothing_loaded" for ids by (simp add: none_of_def nothing_loaded_def)
  with assms show ?thesis
    by (auto simp: load_rules_for_def split: if_splits option.splits intro: none_of_error none_of_files)
qed

lemma parse_document_returns: "\<exists>r. parse_document env d = Some r"
  by (simp add: parse_document_def rule_from_document_returns [simplified])

lemma parse_each_returns: "\<exists>r. parse_each env ds = Some r"
  by (induction ds) (auto simp: parse_document_returns split: option.split sum.split)

lemma parse_documents_returns: "\<exists>r. parse_documents env ly txt = Some r"
  by (simp add: parse_documents_def parse_each_returns split: sum.split)

lemma load_files_returns: "\<exists>r. load_files env ly cov ids host fs l = Some r"
proof (induction fs arbitrary: l)
  case (Cons f fs)
  have "\<exists>r. file_documents env ly f = Some r" by (simp add: file_documents_def parse_documents_returns split: sum.split)
  with Cons show ?case by (auto split: option.split sum.split)
qed simp

lemma builtin_documents_returns: "\<exists>r. builtin_documents env ly shipped = Some r"
proof (induction shipped)
  case (Cons x xs)
  then show ?case using parse_documents_returns [of env ly "snd x"] by (cases x) (auto split: option.split sum.split)
qed simp

lemma load_for_returns: "\<exists>l engine. load_for env ly sp shipped dir cov host = Some (l, engine)"
proof -
  have "\<exists>l. load_rules_for env ly sp dir cov host = Some l"
    by (auto simp: load_rules_for_def load_files_returns split: option.split)
  then obtain l where l: "load_rules_for env ly sp dir cov host = Some l" by blast
  obtain b where b: "builtin_documents env ly shipped = Some b" using builtin_documents_returns by blast
  let ?l = "add_shipped cov (disabled_rules dir) host b l"
  from with_absent_built [of "ld_logs ?l" "ld_correlations ?l" "ld_absent ?l"] l b show ?thesis
    by (auto simp: load_for_def build_log_engine_def Let_def)
qed

lemma disabled_rule_not_loaded:
  assumes "load_for env ly sp shipped dir cov host = Some (l, engine)" and "i \<in> set (disabled_rules dir)"
  shows "i \<notin> set (map sr_id (ld_processes l)) \<and> i \<notin> set (map (\<lambda>r. sr_id (lg_rule r)) (le_rules engine))
    \<and> i \<notin> set (map (\<lambda>c. lr_id (lv_rule c)) (le_correlations engine))"
proof -
  from assms(1) obtain l0 builtin where l0: "load_rules_for env ly sp dir cov host = Some l0"
    and load: "build_log_engine (add_shipped cov (disabled_rules dir) host builtin l0) = Some (l, engine)"
    by (auto simp: load_for_def split: option.splits)
  define l1 where "l1 = add_shipped cov (disabled_rules dir) host builtin l0"
  have none: "none_of (disabled_rules dir) l1"
    unfolding l1_def add_shipped_def Let_def by (rule none_of_documents) (simp add: none_of_load [OF l0])
  from with_absent_built [of "ld_logs l1" "ld_correlations l1" "ld_absent l1"] obtain kept listed errors n where
    b: "with_absent (ld_logs l1) (ld_correlations l1) (ld_absent l1) = Some (finish_engine (ld_logs l1) kept listed, errors, n)"
      "settled (ld_logs l1) kept listed" "set kept \<subseteq> set (ld_correlations l1)" by blast
  have l: "ld_processes l = ld_processes l1" "engine = finish_engine (ld_logs l1) kept listed"
    using load b(1) by (auto simp: build_log_engine_def Let_def simp flip: l1_def)
  have "map (\<lambda>r. sr_id (lg_rule r)) (le_rules engine) = map sr_id (ld_logs l1)"
    using arg_cong [OF finish_rules, of "map sr_id" "ld_logs l1" kept listed] by (simp add: l(2) comp_def)
  moreover have "map (\<lambda>c. lr_id (lv_rule c)) (le_correlations engine) = map lr_id kept"
    using arg_cong [OF finish_correlations(1) [OF settled_length [OF b(2)]], of "map lr_id" "ld_logs l1"] by (simp add: l(2) comp_def)
  ultimately show ?thesis using none assms(2) b(3) l(1) by (auto simp: none_of_def)
qed

text \<open>Loading always returns, and no rule or correlation with an identifier listed in
  \<open>disabled-rules.txt\<close> is evaluated; this includes the list of a directory that is not trusted.\<close>

theorem disabled_rules_are_not_evaluated:
  "\<exists>l engine. load_for env ly sp shipped dir cov host = Some (l, engine) \<and>
     set (disabled_rules dir) \<inter> (sr_id ` set (ld_processes l) \<union> (\<lambda>r. sr_id (lg_rule r)) ` set (le_rules engine)
       \<union> (\<lambda>c. lr_id (lv_rule c)) ` set (le_correlations engine)) = {}"
proof -
  from load_for_returns [of env ly sp shipped dir cov host] obtain l engine where
    l: "load_for env ly sp shipped dir cov host = Some (l, engine)" by blast
  have "set (disabled_rules dir) \<inter> (sr_id ` set (ld_processes l) \<union> (\<lambda>r. sr_id (lg_rule r)) ` set (le_rules engine)
       \<union> (\<lambda>c. lr_id (lv_rule c)) ` set (le_correlations engine)) = {}"
    using disabled_rule_not_loaded [OF l] by auto
  with l show ?thesis by blast
qed

end
