(* ===== verification/Sigma_Counting.thy ===== *)
theory Sigma_Counting imports Sigma_Logs begin

text \<open>
  What a correlation counts, over runs of matches: \<open>event_count\<close> against a specification that
  forgets nothing, late events, and \<open>temporal_ordered\<close>.
\<close>

section \<open>Runs of matches\<close>

type_synonym matched = "source \<times> sigma_event \<times> int"

fun count_all :: "live_correlation \<Rightarrow> matched list \<Rightarrow> correlation_hit option list" where
  "count_all c [] = []"
| "count_all c ((s, ev, at) # rest) = (case count_match c s ev at of (c', hit) \<Rightarrow> hit # count_all c' rest)"

text \<open>
  What \<open>event_count\<close> promises: per group, the matches since it last held; it holds when enough of them are within the
  timespan. A match that would open a group while ten thousand others have a match within the timespan is not counted.
\<close>

type_synonym history = "(string list \<times> int list) list"

definition in_timespan :: "log_correlation \<Rightarrow> int \<Rightarrow> int list \<Rightarrow> nat" where
  "in_timespan r at ts = length (filter (\<lambda>t. at - lr_timespan r * NANOS < t) ts)"

definition other_groups :: "log_correlation \<Rightarrow> history \<Rightarrow> string list \<Rightarrow> int \<Rightarrow> nat" where
  "other_groups r h key at = length (filter (\<lambda>(k, ts). k \<noteq> key \<and> 0 < in_timespan r at ts) h)"

definition event_count_step :: "log_correlation \<Rightarrow> history \<Rightarrow> string list \<Rightarrow> int \<Rightarrow> history \<times> u64 option" where
  "event_count_step r h key at =
     (let ts = unwrap_or (map_of h key) [] @ [at]; n = in_timespan r at ts
      in if MAX_GROUPS \<le> other_groups r h key at then (h, None)
         else if n < lr_at_least r then (AList.update key ts h, None)
         else (AList.delete key h, Some n))"

fun event_count_all :: "log_correlation \<Rightarrow> history \<Rightarrow> matched list \<Rightarrow> u64 option list" where
  "event_count_all r h [] = []"
| "event_count_all r h ((s, ev, at) # rest) =
     (case group_key (lr_group_by r) ev of
        None \<Rightarrow> None # event_count_all r h rest
      | Some key \<Rightarrow> (case event_count_step r h key at of (h', n) \<Rightarrow> n # event_count_all r h' rest))"

text \<open>
  How the windows show the history: a window holds the latest matches of its group, and a group without one has no match
  that can still count.
\<close>

definition window_shows :: "log_correlation \<Rightarrow> int \<Rightarrow> int list \<Rightarrow> window option \<Rightarrow> bool" where
  "window_shows r now ts w \<longleftrightarrow>
     (\<forall>t\<in>set ts. t \<le> now) \<and>
     (case w of
        None \<Rightarrow> in_timespan r now ts = 0
      | Some w \<Rightarrow> ts \<noteq> [] \<and> w_latest w = Some (last ts) \<and> (\<forall>t\<in>set ts. t \<le> last ts) \<and>
          (\<exists>b\<le>now. w_times w = filter (\<lambda>t. b - lr_timespan r * NANOS < t) ts))"

definition shows_history :: "int \<Rightarrow> live_correlation \<Rightarrow> history \<Rightarrow> bool" where
  "shows_history now c h \<longleftrightarrow>
     hm_wf (lv_groups c) \<and> hm_wf h \<and> length (lv_groups c) \<le> MAX_GROUPS \<and>
     (\<forall>key. window_shows (lv_rule c) now (unwrap_or (map_of h key) []) (map_of (lv_groups c) key))"

lemma position_of_None: "position_of x xs = None \<longleftrightarrow> x \<notin> set xs"
  by (induction xs) auto

lemma in_timespan_mono: "now \<le> now' \<Longrightarrow> in_timespan r now' ts \<le> in_timespan r now ts"
  unfolding in_timespan_def by (induction ts) auto

lemma window_shows_mono: "window_shows r now ts w \<Longrightarrow> now \<le> now' \<Longrightarrow> window_shows r now' ts w"
  using in_timespan_mono [of now now' r ts]
  unfolding window_shows_def by (cases w) (simp_all, (meson order_trans)+)

text \<open>A group whose last match is in the timespan has one in it, and the other way round.\<close>

lemma live_iff:
  assumes "window_shows r now ts (Some w)"
  shows "recent (at - lr_timespan r * NANOS) (w_latest w) \<longleftrightarrow> 0 < in_timespan r at ts"
proof -
  have w: "ts \<noteq> []" "w_latest w = Some (last ts)" "\<forall>t\<in>set ts. t \<le> last ts" using assms by (auto simp: window_shows_def)
  then show ?thesis by (auto simp: recent_def in_timespan_def filter_empty_conv intro: bexI [of _ "last ts"])
qed

text \<open>The groups that count at a time are the same in the windows and in the history.\<close>

definition live_keys :: "log_correlation \<Rightarrow> history \<Rightarrow> int \<Rightarrow> string list set" where
  "live_keys r h at = {k. 0 < in_timespan r at (unwrap_or (map_of h k) [])}"

lemma other_groups_card:
  assumes "hm_wf h"
  shows "other_groups r h key at = card (live_keys r h at - {key})"
proof -
  let ?P = "\<lambda>(k, ts). k \<noteq> key \<and> 0 < in_timespan r at ts"
  have "distinct (map fst (filter ?P h))" using hm_wf_filter [OF assms, of ?P] by (simp only: hm_wf_def)
  from distinct_card [OF this] have "other_groups r h key at = card (fst ` set (filter ?P h))"
    by (simp only: other_groups_def length_map list.set_map)
  moreover have "fst ` set (filter ?P h) = live_keys r h at - {key}"
  proof -
    have "k \<in> fst ` set (filter ?P h) \<longleftrightarrow> k \<in> live_keys r h at - {key}" for k
    proof -
      have "k \<in> fst ` set (filter ?P h) \<longleftrightarrow> (\<exists>ts. (k, ts) \<in> set h \<and> k \<noteq> key \<and> 0 < in_timespan r at ts)" by force
      then show ?thesis
        using hm_mem [OF assms, of k]
        by (cases "map_of h k") (auto simp: live_keys_def unwrap_or_def in_timespan_def)
    qed
    then show ?thesis by blast
  qed
  ultimately show ?thesis by simp
qed

lemma live_keys_shown:
  assumes "shows_history now c h" and "now \<le> at"
  shows "live_keys (lv_rule c) h at =
    {k. \<exists>w. map_of (lv_groups c) k = Some w \<and> recent (at - lr_timespan (lv_rule c) * NANOS) (w_latest w)}"
proof -
  have "0 < in_timespan (lv_rule c) at (unwrap_or (map_of h k) []) \<longleftrightarrow>
      (\<exists>w. map_of (lv_groups c) k = Some w \<and> recent (at - lr_timespan (lv_rule c) * NANOS) (w_latest w))" for k
  proof -
    have ws: "window_shows (lv_rule c) now (unwrap_or (map_of h k) []) (map_of (lv_groups c) k)"
      using assms(1) by (simp add: shows_history_def)
    show ?thesis
    proof (cases "map_of (lv_groups c) k")
      case None
      with ws in_timespan_mono [OF assms(2), of "lv_rule c" "unwrap_or (map_of h k) []"] show ?thesis
        by (simp add: window_shows_def)
    next
      case (Some w)
      with ws live_iff [of "lv_rule c" now _ w at] show ?thesis by simp
    qed
  qed
  then show ?thesis by (simp add: live_keys_def)
qed

lemma card_keys: "hm_wf m \<Longrightarrow> card (dom (map_of m)) = length m"
  by (metis distinct_card dom_map_of_conv_image_fst hm_wf_def length_map list.set_map)

lemma other_groups_room:
  assumes inv: "shows_history now c h" and "now \<le> at"
    and g: "g = make_room (at - lr_timespan (lv_rule c) * NANOS) key (lv_groups c)"
  shows "MAX_GROUPS \<le> other_groups (lv_rule c) h key at \<longleftrightarrow> map_of g key = None \<and> MAX_GROUPS \<le> length g"
proof -
  let ?g = "lv_groups c" and ?live = "live_keys (lv_rule c) h at"
  let ?P = "\<lambda>(_ :: string list) w. recent (at - lr_timespan (lv_rule c) * NANOS) (w_latest w)"
  have wf: "hm_wf ?g" "hm_wf h" "length ?g \<le> MAX_GROUPS" using inv by (auto simp: shows_history_def)
  note other = other_groups_card [OF wf(2)] and live = live_keys_shown [OF inv assms(2)]
  have sub: "?live \<subseteq> dom (map_of ?g)" unfolding live by auto
  consider (known) "map_of ?g key \<noteq> None" | (free) "map_of ?g key = None" "length ?g < MAX_GROUPS"
    | (full) "map_of ?g key = None" "MAX_GROUPS \<le> length ?g" by fastforce
  then show ?thesis
  proof cases
    case known
    then have "?live - {key} \<subset> dom (map_of ?g)" using sub by blast
    then have "card (?live - {key}) < length ?g" using card_keys [OF wf(1)] finite_dom_map_of psubset_card_mono by metis
    moreover have "g = ?g" using known unfolding g make_room_def by auto
    ultimately show ?thesis using known wf(3) by (simp add: other)
  next
    case free
    have "card (?live - {key}) \<le> length ?g"
      using sub card_keys [OF wf(1)] finite_dom_map_of [of ?g] by (metis Diff_subset card_mono order_trans)
    with free g show ?thesis by (simp add: other make_room_def)
  next
    case full
    then have gf: "g = filter (\<lambda>(k, w). ?P k w) ?g" using g by (simp add: make_room_def)
    note m = map_of_filter_wf [OF wf(1), of ?P, folded gf]
    have "dom (map_of g) = ?live" unfolding live by (auto simp: m split: option.splits if_splits)
    moreover have "hm_wf g" unfolding gf using wf(1) by (rule hm_wf_filter)
    ultimately have "length g = card ?live" using card_keys by metis
    moreover have "key \<notin> ?live" using full(1) sub by blast
    ultimately show ?thesis using full(1) m by (simp add: other)
  qed
qed

lemma room_shows:
  assumes inv: "shows_history now c h" and "now \<le> at"
  shows "shows_history at (c\<lparr>lv_groups := make_room (at - lr_timespan (lv_rule c) * NANOS) key (lv_groups c)\<rparr>) h"
proof -
  let ?g = "lv_groups c" and ?old = "at - lr_timespan (lv_rule c) * NANOS"
  let ?P = "\<lambda>(_ :: string list) w. recent ?old (w_latest w)"
  have wf: "hm_wf ?g" "length ?g \<le> MAX_GROUPS" using inv by (auto simp: shows_history_def)
  have ws: "window_shows (lv_rule c) at (unwrap_or (map_of h k) []) (map_of ?g k)" for k
    using inv window_shows_mono [OF _ assms(2)] by (simp add: shows_history_def)
  have "window_shows (lv_rule c) at (unwrap_or (map_of h k) []) (map_of (filter (\<lambda>(k, w). ?P k w) ?g) k)" for k
  proof (cases "map_of ?g k")
    case None
    with ws [of k] show ?thesis by (simp add: map_of_filter_wf [OF wf(1)])
  next
    case (Some w)
    with ws [of k] have w: "window_shows (lv_rule c) at (unwrap_or (map_of h k) []) (Some w)" by simp
    with Some live_iff [OF w, of at] show ?thesis
      by (simp add: map_of_filter_wf [OF wf(1)]) (simp add: window_shows_def)
  qed
  moreover have "length (filter (\<lambda>(k, w). ?P k w) ?g) \<le> MAX_GROUPS" using wf(2) le_trans length_filter_le by blast
  ultimately show ?thesis using inv ws by (simp add: shows_history_def make_room_def)
qed

lemma window_counts:
  assumes ws: "window_shows r at ts mw" and pos: "0 < lr_timespan r"
    and w: "w = or_else mw no_window"
  shows "filter (\<lambda>t. at - lr_timespan r * NANOS < t) (w_times w) = filter (\<lambda>t. at - lr_timespan r * NANOS < t) ts"
    and "(case w_latest w of None \<Rightarrow> at | Some l \<Rightarrow> max l at) = at"
proof -
  have "filter (\<lambda>t. at - lr_timespan r * NANOS < t) (w_times w) = filter (\<lambda>t. at - lr_timespan r * NANOS < t) ts \<and>
    (case w_latest w of None \<Rightarrow> at | Some l \<Rightarrow> max l at) = at"
  proof (cases mw)
    case None
    with ws w show ?thesis by (simp add: window_shows_def or_else_def no_window_def in_timespan_def)
  next
    case (Some w')
    with ws w obtain b where b: "b \<le> at" "w_times w = filter (\<lambda>t. b - lr_timespan r * NANOS < t) ts"
      and l: "w_latest w = Some (last ts)" "ts \<noteq> []" "\<forall>t\<in>set ts. t \<le> at"
      by (auto simp: window_shows_def or_else_def)
    from b have "filter (\<lambda>t. at - lr_timespan r * NANOS < t) (w_times w) = filter (\<lambda>t. at - lr_timespan r * NANOS < t) ts"
      by (auto intro!: filter_cong)
    with l show ?thesis by (simp add: max_absorb2)
  qed
  then show "filter (\<lambda>t. at - lr_timespan r * NANOS < t) (w_times w) = filter (\<lambda>t. at - lr_timespan r * NANOS < t) ts"
    and "(case w_latest w of None \<Rightarrow> at | Some l \<Rightarrow> max l at) = at" by blast+
qed

lemma count_match_event_count:
  assumes inv: "shows_history now c h" and "lr_kind (lv_rule c) = EventCount" "s \<in> set (lv_sources c)"
    and "now \<le> at" and key: "group_key (lr_group_by (lv_rule c)) ev = Some key"
    and pos: "0 < lr_timespan (lv_rule c)" and step: "event_count_step (lv_rule c) h key at = (h', n)"
  shows "\<exists>c' hit. count_match c s ev at = (c', hit) \<and> map_option ch_count hit = n \<and> shows_history at c' h'
    \<and> lv_rule c' = lv_rule c \<and> lv_sources c' = lv_sources c"
proof -
  let ?r = "lv_rule c"
  let ?old = "at - lr_timespan ?r * NANOS"
  define g where "g = make_room ?old key (lv_groups c)"
  note room = other_groups_room [OF inv assms(4) g_def]
  have inv': "shows_history at (c\<lparr>lv_groups := g\<rparr>) h" unfolding g_def by (rule room_shows [OF inv assms(4)])
  then have wf: "hm_wf g" "hm_wf h" "length g \<le> MAX_GROUPS"
    and ws: "window_shows ?r at (unwrap_or (map_of h k) []) (map_of g k)" for k by (auto simp: shows_history_def)
  obtain p where p: "position_of s (lv_sources c) = Some p"
    using assms(3) position_of_None [of s "lv_sources c"] by auto
  show ?thesis
  proof (cases "map_of g key = None \<and> MAX_GROUPS \<le> length g")
    case True
    then have "count_match c s ev at = (c\<lparr>lv_groups := g\<rparr>, None)"
      by (simp add: count_match_def key p Let_def flip: g_def)
    moreover have "h' = h" "n = None" using step room True by (auto simp: event_count_step_def)
    ultimately show ?thesis using inv' by auto
  next
    case False
    define ts where "ts = unwrap_or (map_of h key) []"
    define w where "w = or_else (map_of g key) no_window"
    note counts = window_counts [OF ws pos w_def, folded ts_def]
    define w1 where "w1 = w\<lparr>w_latest := Some at\<rparr>"
    define w2 where "w2 = w1\<lparr>w_times := filter (\<lambda>t. ?old < t) ts @ [at]\<rparr>"
    have old: "?old < at" using pos by (simp add: NANOS_def)
    let ?n = "in_timespan ?r at (ts @ [at])"
    have n: "length (filter (\<lambda>t. ?old < t) ts) + 1 = ?n" using old by (simp add: in_timespan_def)
    have count: "count_in c p ev ?old at w1 = (w2, Some ?n)"
      using assms(2) counts(1) n by (simp add: count_in_def count_event_def w1_def w2_def Let_def)
    let ?kept = "c\<lparr>lv_groups := AList.update key w2 g\<rparr>" and ?gone = "c\<lparr>lv_groups := AList.delete key g\<rparr>"
    have res: "count_match c s ev at =
        (if ?n < lr_at_least ?r then (?kept, None)
         else (?gone, Some \<lparr>ch_kind = lr_kind ?r, ch_count = ?n, ch_timespan_secs = lr_timespan ?r,
                 ch_group = zip (lr_group_by ?r) key\<rparr>))"
      using False by (auto simp: count_match_def key p counts(2) count Let_def simp flip: g_def w_def w1_def)
    have kept: "shows_history at ?kept (AList.update key (ts @ [at]) h)"
    proof -
      have "w_times w2 = filter (\<lambda>t. ?old < t) (ts @ [at])" using old by (simp add: w2_def)
      moreover have "\<forall>t\<in>set ts. t \<le> at" using ws [of key] by (simp add: window_shows_def ts_def)
      moreover have "w_latest w2 = Some at" by (simp add: w2_def w1_def)
      ultimately have "window_shows ?r at (ts @ [at]) (Some w2)"
        unfolding window_shows_def option.case by (intro conjI exI [of _ at]) simp_all
      moreover have "length (AList.update key w2 g) \<le> MAX_GROUPS"
        using False wf(3) by (auto simp: length_update map_of_eq_None_iff)
      ultimately show ?thesis
        using wf ws by (auto simp: shows_history_def update_conv unwrap_or_def)
    qed
    have gone: "shows_history at ?gone (AList.delete key h)"
      using wf ws length_delete_le [of key g] by (auto simp: shows_history_def delete_conv window_shows_def in_timespan_def unwrap_or_def)
    from step room False have "(h', n) = (if ?n < lr_at_least ?r then (AList.update key (ts @ [at]) h, None) else (AList.delete key h, Some ?n))"
      by (auto simp: event_count_step_def Let_def ts_def)
    with res kept gone show ?thesis by (auto split: if_splits)
  qed
qed

definition times_of :: "matched list \<Rightarrow> int list" where
  "times_of xs = map (\<lambda>(_, _, at). at) xs"

lemma count_all_event_count:
  "shows_history now c h \<Longrightarrow> lr_kind (lv_rule c) = EventCount \<Longrightarrow> fst ` set xs \<subseteq> set (lv_sources c) \<Longrightarrow>
     0 < lr_timespan (lv_rule c) \<Longrightarrow> sorted (now # times_of xs) \<Longrightarrow>
     map (map_option ch_count) (count_all c xs) = event_count_all (lv_rule c) h xs"
proof (induction xs arbitrary: now c h)
  case (Cons x xs)
  obtain s ev at where x: "x = (s, ev, at)" by (metis prod_cases3)
  have s: "s \<in> set (lv_sources c)" using Cons.prems(3) x by auto
  show ?case
  proof (cases "group_key (lr_group_by (lv_rule c)) ev")
    case None
    then have "count_match c s ev at = (c, None)" by (simp add: count_match_def)
    with Cons x None show ?thesis by (auto simp: times_of_def)
  next
    case (Some key)
    obtain h' n where step: "event_count_step (lv_rule c) h key at = (h', n)" by force
    have "now \<le> at" using Cons.prems(5) x by (simp add: times_of_def)
    from count_match_event_count [OF Cons.prems(1,2) s this Some Cons.prems(4) step] obtain c' hit where
      m: "count_match c s ev at = (c', hit)" "map_option ch_count hit = n" "shows_history at c' h'"
        "lv_rule c' = lv_rule c" "lv_sources c' = lv_sources c" by blast
    from Cons.IH [OF m(3)] m Cons.prems x have "map (map_option ch_count) (count_all c' xs) = event_count_all (lv_rule c') h' xs"
      by (auto simp: times_of_def)
    with m x Some step show ?thesis by simp
  qed
qed simp

text \<open>C18: For matches of its rules read in the order of their times, an \<open>event_count\<close> correlation holds exactly when, in one
  group, enough matches since it last held lie within the timespan, as if every match were remembered; only a match
  that finds ten thousand other groups with a match within the timespan is not counted.\<close>

theorem event_count_counts_recent:
  assumes "lv_groups c = []" "lr_kind (lv_rule c) = EventCount" "fst ` set xs \<subseteq> set (lv_sources c)"
    and "0 < lr_timespan (lv_rule c)" "sorted (times_of xs)"
  shows "map (map_option ch_count) (count_all c xs) = event_count_all (lv_rule c) [] xs"
proof (cases xs)
  case (Cons x xs')
  obtain s ev at where x: "x = (s, ev, at)" by (metis prod_cases3)
  have "shows_history at c []"
    using assms(1) by (simp add: shows_history_def window_shows_def unwrap_or_def in_timespan_def)
  then show ?thesis
    using assms Cons x by (intro count_all_event_count [of at]) (auto simp: times_of_def)
qed simp

section \<open>Late events\<close>

lemma position_of_Some: "position_of x xs = Some p \<Longrightarrow> p < length xs \<and> xs ! p = x"
  by (induction xs arbitrary: p) (auto split: if_splits)

text \<open>A match read late completes an \<open>event_count\<close> of two with any match after it, however far
  apart the two are: the window has no upper end.\<close>

theorem late_event_counts_the_future:
  assumes "lv_groups c = []" "lr_kind (lv_rule c) = EventCount" "s \<in> set (lv_sources c)" "lr_at_least (lv_rule c) = 2"
    and "group_key (lr_group_by (lv_rule c)) ev = Some key" "group_key (lr_group_by (lv_rule c)) ev' = Some key"
    and "0 < lr_timespan (lv_rule c)" "late \<le> at"
  shows "map (map_option ch_count) (count_all c [(s, ev, at), (s, ev', late)]) = [None, Some 2]"
proof -
  obtain p where p: "position_of s (lv_sources c) = Some p"
    using assms(3) position_of_None [of s "lv_sources c"] by auto
  have "0 < lr_timespan (lv_rule c) * NANOS" using assms(7) by (simp add: NANOS_def)
  with assms p show ?thesis
    by (simp add: count_match_def Let_def make_room_def MAX_GROUPS_def count_in_def count_event_def no_window_def or_else_def)
qed

section \<open>Ordered correlations\<close>

text \<open>
  Per listed rule, the time of its last match in order: each is a match of that rule in the group, and
  the one before it in the list is set and no later.
\<close>

definition ordered_slots :: "live_correlation \<Rightarrow> matched list \<Rightarrow> string list \<Rightarrow> int option list \<Rightarrow> bool" where
  "ordered_slots c past key slots \<longleftrightarrow>
     (\<forall>i<length slots. \<forall>t. slots ! i = Some t \<longrightarrow>
        (\<exists>ev. (lv_sources c ! i, ev, t) \<in> set past \<and> group_key (lr_group_by (lv_rule c)) ev = Some key) \<and>
        (0 < i \<longrightarrow> (\<exists>t'. slots ! (i - 1) = Some t' \<and> t' \<le> t)))"

definition ordered_inv :: "live_correlation \<Rightarrow> matched list \<Rightarrow> bool" where
  "ordered_inv c past \<longleftrightarrow>
     (\<forall>(key, w)\<in>set (lv_groups c). length (w_per_rule w) \<in> {0, length (lv_sources c)} \<and> ordered_slots c past key (w_per_rule w))"

lemma ordered_slots_mono: "ordered_slots c past key slots \<Longrightarrow> set past \<subseteq> set past' \<Longrightarrow> ordered_slots c past' key slots"
  unfolding ordered_slots_def by blast

lemma ordered_slots_fill:
  assumes "ordered_slots c past key slots" "p < length slots"
    and "(lv_sources c ! p, ev, at) \<in> set past" "group_key (lr_group_by (lv_rule c)) ev = Some key"
    and "p = 0 \<or> (\<exists>t. slots ! (p - 1) = Some t \<and> t \<le> at)"
  shows "ordered_slots c past key (take p slots @ Some at # replicate (length slots - Suc p) None)"
proof -
  let ?new = "take p slots @ Some at # replicate (length slots - Suc p) None"
  have nth: "?new ! i = (if i < p then slots ! i else if i = p then Some at else None)" if "i < length slots" for i
    using assms(2) that by (auto simp: nth_append nth_Cons')
  have len: "length ?new = length slots" using assms(2) by simp
  show ?thesis
    unfolding ordered_slots_def len
  proof (intro allI impI)
    fix i t assume i: "i < length slots" "?new ! i = Some t"
    then have "i < p \<or> i = p \<and> t = at" using nth by (auto split: if_splits)
    then show "(\<exists>ev. (lv_sources c ! i, ev, t) \<in> set past \<and> group_key (lr_group_by (lv_rule c)) ev = Some key) \<and>
        (0 < i \<longrightarrow> (\<exists>t'. ?new ! (i - 1) = Some t' \<and> t' \<le> t))"
    proof
      assume "i < p"
      with i nth assms(1,2) show ?thesis by (auto simp: ordered_slots_def)
    next
      assume "i = p \<and> t = at"
      with assms(2-5) nth show ?thesis by auto
    qed
  qed
qed

lemma ordered_slots_resize:
  assumes "ordered_slots c past key slots" "length slots \<in> {0, n}"
  shows "ordered_slots c past key (resize n None slots)" "length (resize n None slots) = n"
  using assms by (auto simp: resize_def ordered_slots_def)

lemma count_ordered_inv:
  assumes "ordered_slots c past key (w_per_rule w)" "length (w_per_rule w) \<in> {0, listed}" "listed = length (lv_sources c)"
    and "p < listed" "(lv_sources c ! p, ev, at) \<in> set past" "group_key (lr_group_by (lv_rule c)) ev = Some key"
    and "count_ordered oldest at listed p w = (w', n)"
  shows "ordered_slots c past key (w_per_rule w') \<and> length (w_per_rule w') = listed
    \<and> n = length (takeWhile (recent oldest) (w_per_rule w'))"
proof -
  let ?pr = "resize listed None (w_per_rule w)"
  note pr = ordered_slots_resize [OF assms(1,2)]
  define good where "good \<longleftrightarrow> p = 0 \<or>
     (case ?pr ! (p - 1) of None \<Rightarrow> False | Some before \<Rightarrow> oldest < before \<and> before \<le> at)"
  from assms(7) have w': "w_per_rule w' = (if good then take p ?pr @ Some at # replicate (listed - Suc p) None else ?pr)"
    and n: "n = length (takeWhile (recent oldest) (w_per_rule w'))"
    by (auto simp: count_ordered_def Let_def good_def)
  show ?thesis
  proof (cases good)
    case True
    then have "p = 0 \<or> (\<exists>t. ?pr ! (p - 1) = Some t \<and> t \<le> at)" by (auto simp: good_def split: option.splits)
    from ordered_slots_fill [OF pr(1) _ assms(5,6) this] True w' n pr(2) assms(4) show ?thesis by simp
  next
    case False
    with w' n pr show ?thesis by simp
  qed
qed

text \<open>What the prefix of recent slots shows.\<close>

definition happened_in_order :: "live_correlation \<Rightarrow> matched list \<Rightarrow> string list \<Rightarrow> int \<Rightarrow> nat \<Rightarrow> bool" where
  "happened_in_order c past key oldest n \<longleftrightarrow>
     (\<exists>ts. length ts = n \<and> sorted ts \<and> (\<forall>t\<in>set ts. oldest < t) \<and>
        (\<forall>i<n. \<exists>ev. (lv_sources c ! i, ev, ts ! i) \<in> set past \<and> group_key (lr_group_by (lv_rule c)) ev = Some key))"

lemma slots_in_order:
  assumes "ordered_slots c past key slots"
  shows "happened_in_order c past key oldest (length (takeWhile (recent oldest) slots))"
proof -
  let ?tw = "takeWhile (recent oldest) slots"
  let ?ts = "map the ?tw"
  have slot: "slots ! i = Some (?ts ! i)" "oldest < ?ts ! i" if "i < length ?tw" for i
  proof -
    have "slots ! i = ?tw ! i" using that by (simp add: takeWhile_nth)
    moreover have "recent oldest (?tw ! i)" using that by (metis nth_mem set_takeWhileD)
    ultimately show "slots ! i = Some (?ts ! i)" "oldest < ?ts ! i"
      using that by (auto simp: recent_def split: option.splits)
  qed
  have le: "length ?tw \<le> length slots" by (rule length_takeWhile_le)
  have "?ts ! i \<le> ?ts ! Suc i" if "Suc i < length ?tw" for i
  proof -
    from that le have "Suc i < length slots" by simp
    with assms slot(1) [OF that] obtain t' where "slots ! i = Some t'" "t' \<le> ?ts ! Suc i"
      unfolding ordered_slots_def by (metis diff_Suc_1 zero_less_Suc)
    with slot(1) [of i] that show ?thesis by simp
  qed
  then have "sorted ?ts" by (simp add: sorted_iff_nth_Suc)
  moreover have "\<forall>t\<in>set ?ts. oldest < t" using slot(2) by (metis in_set_conv_nth length_map)
  moreover have "\<forall>i<length ?tw. \<exists>ev. (lv_sources c ! i, ev, ?ts ! i) \<in> set past \<and> group_key (lr_group_by (lv_rule c)) ev = Some key"
    using assms slot(1) le unfolding ordered_slots_def by (meson less_le_trans)
  ultimately show ?thesis unfolding happened_in_order_def by (intro exI [of _ ?ts]) simp
qed

lemma ordered_slots_groups [simp]: "ordered_slots (c\<lparr>lv_groups := g\<rparr>) = ordered_slots c"
  by (simp add: ordered_slots_def fun_eq_iff)

lemma set_update_cases: "x \<in> set (AList.update k v m) \<Longrightarrow> x = (k, v) \<or> x \<in> set m"
  by (induction m) (auto split: if_splits)

lemma ball_subset: "\<forall>x\<in>B. P x \<Longrightarrow> A \<subseteq> B \<Longrightarrow> \<forall>x\<in>A. P x"
  by blast

lemma ordered_inv_entries:
  "ordered_inv (c\<lparr>lv_groups := g\<rparr>) past \<longleftrightarrow> (\<forall>(key, w)\<in>set g.
     length (w_per_rule w) \<in> {0, length (lv_sources c)} \<and> ordered_slots c past key (w_per_rule w))"
  by (simp add: ordered_inv_def)

lemma count_match_ordered:
  assumes "ordered_inv c past" "lr_kind (lv_rule c) = TemporalOrdered" "count_match c s ev at = (c', hit)"
  shows "lv_rule c' = lv_rule c \<and> lv_sources c' = lv_sources c \<and> ordered_inv c' ((s, ev, at) # past) \<and>
    (case hit of None \<Rightarrow> True | Some h \<Rightarrow> lr_at_least (lv_rule c) \<le> ch_count h \<and>
      (\<exists>key. group_key (lr_group_by (lv_rule c)) ev = Some key \<and>
        happened_in_order c ((s, ev, at) # past) key (at - lr_timespan (lv_rule c) * NANOS) (ch_count h)))"
proof -
  let ?r = "lv_rule c" and ?past = "(s, ev, at) # past"
  let ?old = "at - lr_timespan ?r * NANOS"
  have keep: "ordered_inv c ?past"
    using assms(1) by (auto simp: ordered_inv_def intro: ordered_slots_mono)
  have sub: "ordered_inv (c\<lparr>lv_groups := g\<rparr>) ?past" if "set g \<subseteq> set (lv_groups c)" for g
    using keep that unfolding ordered_inv_entries unfolding ordered_inv_def by (rule ball_subset)
  show ?thesis
  proof (cases "group_key (lr_group_by ?r) ev")
    case None
    with assms(3) keep show ?thesis by (auto simp: count_match_def)
  next
    case (Some key)
    show ?thesis
    proof (cases "position_of s (lv_sources c)")
      case None
      with Some assms(3) keep show ?thesis by (auto simp: count_match_def)
    next
      case (Some p)
      note p = position_of_Some [OF Some]
      define g where "g = make_room ?old key (lv_groups c)"
      have g: "set g \<subseteq> set (lv_groups c)" by (auto simp: g_def make_room_def)
      define w where "w = (or_else (map_of g key) no_window)\<lparr>w_latest :=
        Some (case w_latest (or_else (map_of g key) no_window) of None \<Rightarrow> at | Some l \<Rightarrow> max l at)\<rparr>"
      obtain w2 n where cnt: "count_ordered ?old at (length (lv_sources c)) p w = (w2, n)" by force
      have w: "ordered_slots c ?past key (w_per_rule w)" "length (w_per_rule w) \<in> {0, length (lv_sources c)}"
      proof -
        consider "map_of g key = None" | w' where "map_of g key = Some w'" "(key, w') \<in> set (lv_groups c)"
          using g by (metis map_of_SomeD not_None_eq subsetD)
        then have "ordered_slots c ?past key (w_per_rule w) \<and> length (w_per_rule w) \<in> {0, length (lv_sources c)}"
        proof cases
          case 1
          then show ?thesis by (simp add: w_def or_else_def no_window_def ordered_slots_def)
        next
          case 2
          with keep show ?thesis by (auto simp: w_def or_else_def ordered_inv_def)
        qed
        then show "ordered_slots c ?past key (w_per_rule w)" "length (w_per_rule w) \<in> {0, length (lv_sources c)}" by simp_all
      qed
      have "(lv_sources c ! p, ev, at) \<in> set ?past" using p by simp
      from count_ordered_inv [OF w refl conjunct1 [OF p] this \<open>group_key _ ev = Some key\<close> cnt]
      have w2: "ordered_slots c ?past key (w_per_rule w2)" "length (w_per_rule w2) = length (lv_sources c)"
        "n = length (takeWhile (recent ?old) (w_per_rule w2))" by auto
      let ?hit = "\<lparr>ch_kind = TemporalOrdered, ch_count = n, ch_timespan_secs = lr_timespan ?r, ch_group = zip (lr_group_by ?r) key\<rparr>"
      have res: "(c', hit) = (if map_of g key = None \<and> MAX_GROUPS \<le> length g then (c\<lparr>lv_groups := g\<rparr>, None)
          else if n < lr_at_least ?r then (c\<lparr>lv_groups := AList.update key w2 g\<rparr>, None)
          else (c\<lparr>lv_groups := AList.delete key g\<rparr>, Some ?hit))"
        unfolding assms(3) [symmetric]
        by (simp add: count_match_def \<open>group_key _ ev = Some key\<close> Some Let_def count_in_def assms(2) cnt flip: g_def w_def)
      have upd: "ordered_inv (c\<lparr>lv_groups := AList.update key w2 g\<rparr>) ?past"
        using sub [OF g] w2 unfolding ordered_inv_entries by (auto dest!: set_update_cases)
      have del: "ordered_inv (c\<lparr>lv_groups := AList.delete key g\<rparr>) ?past"
        using g by (intro sub) (auto simp: AList.delete_eq)
      from slots_in_order [OF w2(1)] w2(3) have "happened_in_order c ?past key ?old n" by simp
      with res sub [OF g] upd del \<open>group_key _ ev = Some key\<close> show ?thesis by (auto split: if_splits)
    qed
  qed
qed

lemma happened_in_order_cong:
  "lv_rule c' = lv_rule c \<Longrightarrow> lv_sources c' = lv_sources c \<Longrightarrow> set past = set past' \<Longrightarrow>
     happened_in_order c' past = happened_in_order c past'"
  by (simp add: happened_in_order_def fun_eq_iff)

lemma count_all_ordered:
  "ordered_inv c past \<Longrightarrow> lr_kind (lv_rule c) = TemporalOrdered \<Longrightarrow> i < length xs \<Longrightarrow> xs ! i = (s, ev, at) \<Longrightarrow>
     count_all c xs ! i = Some h \<Longrightarrow> lr_at_least (lv_rule c) \<le> ch_count h \<and>
       (\<exists>key. group_key (lr_group_by (lv_rule c)) ev = Some key \<and>
         happened_in_order c (rev (take (Suc i) xs) @ past) key (at - lr_timespan (lv_rule c) * NANOS) (ch_count h))"
proof (induction xs arbitrary: c past i)
  case (Cons x xs)
  obtain s0 ev0 at0 where x: "x = (s0, ev0, at0)" by (metis prod_cases3)
  obtain c' hit where m: "count_match c s0 ev0 at0 = (c', hit)" by force
  note step = count_match_ordered [OF Cons.prems(1,2) m]
  show ?case
  proof (cases i)
    case 0
    with Cons.prems x m step show ?thesis by simp
  next
    case (Suc j)
    with Cons.prems x m have "j < length xs" "xs ! j = (s, ev, at)" "count_all c' xs ! j = Some h" by auto
    with Cons.IH [of c' "(s0, ev0, at0) # past" j] step Cons.prems(2) Suc x
      happened_in_order_cong [of c' c "rev (take (Suc j) xs) @ (s0, ev0, at0) # past" "rev (take (Suc i) (x # xs)) @ past"]
    show ?thesis by auto
  qed
qed simp

text \<open>A \<open>temporal_ordered\<close> correlation holds only after its first rules matched in the listed
  order, at least as many as it asks for, in one group and within the timespan.\<close>

theorem ordered_correlation_needs_the_order:
  assumes "lv_groups c = []" "lr_kind (lv_rule c) = TemporalOrdered"
    and "i < length xs" "xs ! i = (s, ev, at)" "count_all c xs ! i = Some h"
  shows "lr_at_least (lv_rule c) \<le> ch_count h \<and>
    (\<exists>key. group_key (lr_group_by (lv_rule c)) ev = Some key \<and>
      happened_in_order c (take (Suc i) xs) key (at - lr_timespan (lv_rule c) * NANOS) (ch_count h))"
proof -
  have "ordered_inv c []" using assms(1) by (simp add: ordered_inv_def)
  from count_all_ordered [OF this assms(2-5)] happened_in_order_cong [of c c "rev (take (Suc i) xs) @ []" "take (Suc i) xs"]
  show ?thesis by simp
qed

section \<open>Examples\<close>

definition ssh_burst :: log_correlation where
  "ssh_burst = \<lparr>lr_id = ''c'', lr_title = ''c'', lr_description = [], lr_level = LHigh, lr_tags = [], lr_name = None,
     lr_kind = EventCount, lr_rules = [''r''], lr_group_by = [''src_ip''], lr_timespan = 60, lr_at_least = 2,
     lr_value_field = None, lr_generate = False\<rparr>"

definition from_ip :: "string \<Rightarrow> int \<Rightarrow> matched" where
  "from_ip ip secs = (SRule 0, [(''src_ip'', ip)], secs * NANOS)"

theorem event_count_counts_recent_witness:
  "map (map_option ch_count) (count_all \<lparr>lv_rule = ssh_burst, lv_sources = [SRule 0], lv_alerts = True, lv_groups = []\<rparr>
     [from_ip ''a'' 0, from_ip ''b'' 10, from_ip ''a'' 70, from_ip ''a'' 80, from_ip ''a'' 81]) = [None, None, None, Some 2, None]"
proof -
  let ?c = "\<lparr>lv_rule = ssh_burst, lv_sources = [SRule 0], lv_alerts = True, lv_groups = []\<rparr>"
  let ?xs = "[from_ip ''a'' 0, from_ip ''b'' 10, from_ip ''a'' 70, from_ip ''a'' 80, from_ip ''a'' 81]"
  have "event_count_all ssh_burst [] ?xs = [None, None, None, Some 2, None]" by code_simp
  with event_count_counts_recent [of ?c ?xs] show ?thesis
    by (simp add: ssh_burst_def from_ip_def times_of_def NANOS_def)
qed

theorem late_event_counts_the_future_witness:
  "map (map_option ch_count) (count_all \<lparr>lv_rule = ssh_burst, lv_sources = [SRule 0], lv_alerts = True, lv_groups = []\<rparr>
     [from_ip ''a'' 3600, from_ip ''a'' 0]) = [None, Some 2]"
  using late_event_counts_the_future [of "\<lparr>lv_rule = ssh_burst, lv_sources = [SRule 0], lv_alerts = True, lv_groups = []\<rparr>"
      "SRule 0" "[(''src_ip'', ''a'')]" "[''a'']" "[(''src_ip'', ''a'')]" 0 "3600 * NANOS"]
  by (simp add: ssh_burst_def from_ip_def group_key_def present_def NANOS_def)

definition then_login :: log_correlation where
  "then_login = ssh_burst\<lparr>lr_kind := TemporalOrdered, lr_rules := [''failed'', ''login'']\<rparr>"

theorem ordered_correlation_needs_the_order_witness:
  "\<exists>h. count_all \<lparr>lv_rule = then_login, lv_sources = [SRule 0, SRule 1], lv_alerts = True, lv_groups = []\<rparr>
      [(SRule 0, [(''src_ip'', ''a'')], 0), (SRule 1, [(''src_ip'', ''a'')], 5)] ! 1 = Some h \<and> 2 \<le> ch_count h"
proof -
  let ?c = "\<lparr>lv_rule = then_login, lv_sources = [SRule 0, SRule 1], lv_alerts = True, lv_groups = []\<rparr>"
  let ?xs = "[(SRule 0, [(''src_ip'', ''a'')], 0), (SRule 1, [(''src_ip'', ''a'')], 5)]"
  have "case count_all ?c ?xs ! 1 of Some h \<Rightarrow> True | None \<Rightarrow> False" by code_simp
  then obtain h where h: "count_all ?c ?xs ! 1 = Some h" by (auto split: option.splits)
  from ordered_correlation_needs_the_order [of ?c 1 ?xs "SRule 1" "[(''src_ip'', ''a'')]" 5 h] h show ?thesis
    by (simp add: then_login_def ssh_burst_def)
qed

end
