(* ===== verification/Threat_Pipeline.thy ===== *)
theory Threat_Pipeline imports Playbook_Run begin

text \<open>
  The threat pipeline (\<open>crates/agent-core/src/threat_pipeline.rs\<close>): detection rules evaluated on
  what the engines flagged and on what is observed on the host, the memory of what was reported,
  the responses of a rule, and the pass that runs playbooks and rules.

  Instants of the memory are nanoseconds. Identifiers drawn at random and the times stamped on log
  entries and notifications are left out. With the \<open>llm\<close> feature a model annotates the matches:
  \<open>annotate\<close>, which is \<^const>\<open>None\<close> where it says nothing.
\<close>

section \<open>Types\<close>

datatype detection_condition_type =
  ProcessNameContains | NetworkPort | FimPathMatch | CommandLineContains | SeverityLevel

datatype rule_severity = SevCritical | SevHigh | SevMedium | SevLow | SevInfo

record detection_condition =
  dc_type :: detection_condition_type
  dc_value :: string

record detection_rule =
  dr_id :: string
  dr_name :: string
  dr_description :: string
  dr_severity :: rule_severity
  dr_conditions :: "detection_condition list"
  dr_actions :: "playbook_action_type list"
  dr_enabled :: bool
  dr_created_at :: int
  dr_last_match :: "int option"
  dr_match_count :: u32

datatype rule_target =
    TProcess string u32
  | TConnection string nat
  | TFile string bool   \<comment> \<open>whether it was removed\<close>

record rule_match =
  rm_rule_id :: string
  rm_rule_name :: string
  rm_severity :: string
  rm_matched_value :: string
  rm_confidence :: rat
  rm_ai_classification :: "string option"
  rm_targets :: "rule_target list"

record observed_connection =
  oc_remote_ip :: string
  oc_port :: nat
  oc_process_name :: "string option"

record observed_activity =
  oa_processes :: "process_info list"
  oa_connections :: "observed_connection list"

definition severity_str :: "rule_severity \<Rightarrow> string" where
  "severity_str s = (case s of SevCritical \<Rightarrow> ''critical'' | SevHigh \<Rightarrow> ''high'' | SevMedium \<Rightarrow> ''medium''
     | SevLow \<Rightarrow> ''low'' | SevInfo \<Rightarrow> ''info'')"

definition severity_to_level :: "(string \<Rightarrow> string) \<Rightarrow> string \<Rightarrow> nat option" where
  "severity_to_level lower severity =
     map_of [(''critical'', 4), (''high'', 3), (''medium'', 2), (''low'', 1), (''info'', 0)] (lower (trim severity))"

section \<open>Texts\<close>

definition e_acute :: string where "e_acute = [CHR 0xC3, CHR 0xA9]"
definition quote_open :: string where "quote_open = [CHR 0xC2, CHR 0xAB] @ '' ''"
definition quote_close :: string where "quote_close = '' '' @ [CHR 0xC2, CHR 0xBB]"

definition command_excerpt :: "string \<Rightarrow> string" where
  "command_excerpt command_line =
     (let t = trim command_line in
      if char_count t \<le> 160 then t else take_chars 160 t @ [CHR 0xE2, CHR 0x80, CHR 0xA6])"

definition process_text :: "process_info \<Rightarrow> string" where
  "process_text p = ''Processus '' @ pi_name p @ '' (PID '' @ show_nat (pi_pid p) @ '')''"

definition command_text :: "process_info \<Rightarrow> string" where
  "command_text p = process_text p @ '' : '' @ command_excerpt (pi_command_line p)"

definition connection_text :: "observed_connection \<Rightarrow> string" where
  "connection_text c =
     ''Connexion vers '' @ oc_remote_ip c @ '':'' @ show_nat (oc_port c)
     @ (case oc_process_name c of
          Some p \<Rightarrow> if trim p = [] then [] else '' par '' @ p
        | None \<Rightarrow> [])"

section \<open>What was reported\<close>

type_synonym rule_hit_memory = "int str_map"

definition REMINDER :: int where "REMINDER = 24 * 60 * 60 * 1000000000"
definition CAPACITY :: nat where "CAPACITY = 20000"

definition still_fresh :: "int \<Rightarrow> int \<Rightarrow> bool" where
  "still_fresh now since \<longleftrightarrow> max 0 (now - since) < REMINDER"

definition forget_oldest :: "int \<Rightarrow> rule_hit_memory \<Rightarrow> rule_hit_memory" where
  "forget_oldest now mem =
     (let kept = filter (\<lambda>(_, since). still_fresh now since) mem in
      if length kept < CAPACITY then kept
      else let ages = sort (map snd kept); median = ages ! (length ages div 2)
           in filter (\<lambda>(_, since). median < since) kept)"

definition report :: "int \<Rightarrow> string \<Rightarrow> rule_hit_memory \<Rightarrow> bool \<times> rule_hit_memory" where
  "report now key mem =
     (case map_of mem key of
        Some since \<Rightarrow>
          if still_fresh now since then (False, mem)
          else (True, AList.update key now (if CAPACITY \<le> length mem then forget_oldest now mem else mem))
      | None \<Rightarrow> (True, AList.update key now (if CAPACITY \<le> length mem then forget_oldest now mem else mem)))"

section \<open>Observed activity\<close>

definition unit_sep :: string where "unit_sep = [CHR 0x1F]"

definition process_key :: "(string \<Rightarrow> string) \<Rightarrow> string \<Rightarrow> process_info \<Rightarrow> string" where
  "process_key lower rule_id p =
     rule_id @ unit_sep @ ''process'' @ unit_sep @ show_nat (pi_pid p) @ unit_sep @ lower (pi_name p)"

definition connection_key :: "string \<Rightarrow> observed_connection \<Rightarrow> string" where
  "connection_key rule_id c =
     rule_id @ unit_sep @ ''connection'' @ unit_sep @ oc_remote_ip c @ unit_sep @ show_nat (oc_port c)"

text \<open>The loop over observations: each that matches and is to be reported adds its text and target.\<close>

fun new_hits ::
  "int \<Rightarrow> ('o \<Rightarrow> string) \<Rightarrow> ('o \<Rightarrow> string) \<Rightarrow> ('o \<Rightarrow> rule_target) \<Rightarrow> 'o list \<Rightarrow> rule_hit_memory \<Rightarrow>
     (string \<times> rule_target) list \<times> rule_hit_memory" where
  "new_hits now key txt target [] mem = ([], mem)"
| "new_hits now key txt target (o' # os) mem =
     (case report now (key o') mem of
        (fresh, mem1) \<Rightarrow>
          (case new_hits now key txt target os mem1 of
             (hits, mem2) \<Rightarrow> (if fresh then (txt o', target o') # hits else hits, mem2)))"

definition process_hit :: "(string \<Rightarrow> string) \<Rightarrow> bool \<Rightarrow> string \<Rightarrow> process_info \<Rightarrow> bool" where
  "process_hit lower by_name needle p \<longleftrightarrow>
     str_contains (lower (if by_name then pi_name p else pi_command_line p)) needle"

definition process_target :: "process_info \<Rightarrow> rule_target" where
  "process_target p = TProcess (pi_name p) (pi_pid p)"

definition connection_target :: "observed_connection \<Rightarrow> rule_target" where
  "connection_target c = TConnection (oc_remote_ip c) (oc_port c)"

definition parse_port :: "string \<Rightarrow> nat option" where
  "parse_port v = parse_unsigned 65535 (trim v)"

definition condition_hits ::
  "(string \<Rightarrow> string) \<Rightarrow> string \<Rightarrow> detection_condition \<Rightarrow> observed_activity \<Rightarrow> int \<Rightarrow> rule_hit_memory \<Rightarrow>
     (string \<times> rule_target) list \<times> rule_hit_memory" where
  "condition_hits lower rule_id c obs now mem =
     (let needle = lower (dc_value c) in
      case dc_type c of
        ProcessNameContains \<Rightarrow>
          new_hits now (process_key lower rule_id) process_text process_target
            (filter (process_hit lower True needle) (oa_processes obs)) mem
      | CommandLineContains \<Rightarrow>
          new_hits now (process_key lower rule_id) command_text process_target
            (filter (process_hit lower False needle) (oa_processes obs)) mem
      | NetworkPort \<Rightarrow>
          (case parse_port (dc_value c) of
             None \<Rightarrow> ([], mem)
           | Some port \<Rightarrow>
               new_hits now (connection_key rule_id) connection_text connection_target
                 (filter (\<lambda>oc. oc_port oc = port) (oa_connections obs)) mem)
      | FimPathMatch \<Rightarrow> ([], mem)
      | SeverityLevel \<Rightarrow> ([], mem))"

definition others_text :: "nat \<Rightarrow> string" where
  "others_text others =
     (if 0 < others then '' (+'' @ show_nat others @ '' autre'' @ (if 1 < others then ''s'' else []) @ '')'' else [])"

definition observed_match ::
  "(string \<Rightarrow> string) \<Rightarrow> string \<Rightarrow> detection_condition \<Rightarrow> observed_activity \<Rightarrow> int \<Rightarrow> rule_hit_memory \<Rightarrow>
     (string \<times> rule_target list) option \<times> rule_hit_memory" where
  "observed_match lower rule_id c obs now mem =
     (case condition_hits lower rule_id c obs now mem of
        (hits, mem') \<Rightarrow>
          (case hits of
             [] \<Rightarrow> (None, mem')
           | h # rest \<Rightarrow> (Some (fst h @ others_text (length rest), map snd hits), mem')))"

section \<open>What the engines flagged\<close>

definition file_target :: "(string \<Rightarrow> string) \<Rightarrow> fim_alert_info \<Rightarrow> rule_target" where
  "file_target lower a =
     (let change = lower (fa_change_type a)
      in TFile (fa_path a) (str_contains change ''delet'' \<or> str_contains change ''remov''))"

definition network_alert_target :: "network_alert_info \<Rightarrow> rule_target list" where
  "network_alert_target a =
     (case na_remote_ip a of
        None \<Rightarrow> []
      | Some ip \<Rightarrow> if trim ip = [] then [] else [TConnection ip (unwrap_or (na_port a) 0)])"

definition reaches_level :: "(string \<Rightarrow> string) \<Rightarrow> nat \<Rightarrow> network_alert_info \<Rightarrow> bool" where
  "reaches_level lower threshold a \<longleftrightarrow>
     (case severity_to_level lower (na_severity a) of None \<Rightarrow> False | Some level \<Rightarrow> threshold \<le> level)"

definition port_alert_text :: "nat \<Rightarrow> network_alert_info \<Rightarrow> string" where
  "port_alert_text port a =
     ''Alerte r'' @ e_acute @ ''seau sur le port '' @ show_nat port @ '' : '' @ na_description a"

definition file_alert_text :: "fim_alert_info \<Rightarrow> string" where
  "file_alert_text f = ''Fichier '' @ fa_path f @ '' ('' @ fa_change_type f @ '')''"

definition severity_alert_text :: "string \<Rightarrow> network_alert_info \<Rightarrow> string" where
  "severity_alert_text threshold a =
     ''S'' @ e_acute @ ''v'' @ e_acute @ ''rit'' @ e_acute @ '' '' @ na_severity a @ '' >= '' @ threshold
     @ '' : '' @ na_description a"

definition flagged_match ::
  "(string \<Rightarrow> string) \<Rightarrow> detection_condition \<Rightarrow> threat_context \<Rightarrow> (string \<times> rule_target list) option" where
  "flagged_match lower c ctx =
     (let needle = lower (dc_value c) in
      case dc_type c of
        ProcessNameContains \<Rightarrow>
          map_option (\<lambda>p. (process_text p, [process_target p]))
            (find (process_hit lower True needle) (suspicious_processes ctx))
      | CommandLineContains \<Rightarrow>
          map_option (\<lambda>p. (command_text p, [process_target p]))
            (find (process_hit lower False needle) (suspicious_processes ctx))
      | NetworkPort \<Rightarrow>
          (case parse_port (dc_value c) of
             None \<Rightarrow> None
           | Some port \<Rightarrow>
               map_option (\<lambda>a. (port_alert_text port a, network_alert_target a))
                 (find (\<lambda>a. na_port a = Some port) (network_alerts ctx)))
      | FimPathMatch \<Rightarrow>
          map_option (\<lambda>f. (file_alert_text f, [file_target lower f]))
            (find (\<lambda>f. str_contains (lower (fa_path f)) needle) (fim_alerts ctx))
      | SeverityLevel \<Rightarrow>
          (case severity_to_level lower (dc_value c) of
             None \<Rightarrow> None
           | Some threshold \<Rightarrow>
               map_option (\<lambda>a. (severity_alert_text (dc_value c) a, network_alert_target a))
                 (find (reaches_level lower threshold) (network_alerts ctx))))"

section \<open>Evaluating the rules\<close>

definition match_of :: "detection_rule \<Rightarrow> string \<times> rule_target list \<Rightarrow> rule_match" where
  "match_of rule m =
     \<lparr>rm_rule_id = dr_id rule, rm_rule_name = dr_name rule, rm_severity = severity_str (dr_severity rule),
      rm_matched_value = fst m, rm_confidence = f32 (7 / 10),
      rm_ai_classification = None, rm_targets = snd m\<rparr>"

text \<open>
  The observations are looked at even when an engine flagged something. For a severity that does not
  parse the code goes on to the next condition; such a condition looks at no observation anyway.
\<close>

definition evaluate_condition ::
  "(string \<Rightarrow> string) \<Rightarrow> threat_context \<Rightarrow> observed_activity \<Rightarrow> int \<Rightarrow> detection_rule \<Rightarrow> detection_condition \<Rightarrow> rule_hit_memory \<Rightarrow>
     rule_match list \<times> rule_hit_memory" where
  "evaluate_condition lower ctx obs now rule c mem =
     (if trim (dc_value c) = [] then ([], mem)
      else case observed_match lower (dr_id rule) c obs now mem of
        (observed_hit, mem') \<Rightarrow>
          (case (case flagged_match lower c ctx of Some m \<Rightarrow> Some m | None \<Rightarrow> observed_hit) of
             None \<Rightarrow> ([], mem')
           | Some m \<Rightarrow> ([match_of rule m], mem')))"

fun evaluate_conditions ::
  "(string \<Rightarrow> string) \<Rightarrow> threat_context \<Rightarrow> observed_activity \<Rightarrow> int \<Rightarrow> detection_rule \<Rightarrow> detection_condition list \<Rightarrow> rule_hit_memory \<Rightarrow>
     rule_match list \<times> rule_hit_memory" where
  "evaluate_conditions lower ctx obs now rule [] mem = ([], mem)"
| "evaluate_conditions lower ctx obs now rule (c # cs) mem =
     (case evaluate_condition lower ctx obs now rule c mem of
        (ms, mem1) \<Rightarrow> (case evaluate_conditions lower ctx obs now rule cs mem1 of (ms', mem2) \<Rightarrow> (ms @ ms', mem2)))"

fun evaluate_detection_rules ::
  "(string \<Rightarrow> string) \<Rightarrow> threat_context \<Rightarrow> observed_activity \<Rightarrow> int \<Rightarrow> detection_rule list \<Rightarrow> rule_hit_memory \<Rightarrow>
     rule_match list \<times> rule_hit_memory" where
  "evaluate_detection_rules lower ctx obs now [] mem = ([], mem)"
| "evaluate_detection_rules lower ctx obs now (r # rs) mem =
     (if \<not> dr_enabled r then evaluate_detection_rules lower ctx obs now rs mem
      else case evaluate_conditions lower ctx obs now r (dr_conditions r) mem of
        (ms, mem1) \<Rightarrow>
          (case evaluate_detection_rules lower ctx obs now rs mem1 of (ms', mem2) \<Rightarrow> (ms @ ms', mem2)))"

section \<open>The responses of a rule\<close>

definition triggered_title :: "string \<Rightarrow> string" where
  "triggered_title name =
     ''R'' @ [CHR 0xC3, CHR 0xA8] @ ''gle '' @ quote_open @ name @ quote_close @ '' d'' @ e_acute @ ''clench'' @ e_acute @ ''e''"

definition actions_for :: "detection_rule \<Rightarrow> rule_match \<Rightarrow> playbook_action_type \<Rightarrow> resolved_action list" where
  "actions_for rule m action =
     (case action of
        KillProcessAction \<Rightarrow>
          List.map_filter (\<lambda>t. case t of TProcess name pid \<Rightarrow> Some (KillProcess name pid) | _ \<Rightarrow> None) (rm_targets m)
      | QuarantineFileAction \<Rightarrow>
          List.map_filter (\<lambda>t. case t of TFile path removed \<Rightarrow> if removed then None else Some (QuarantineFile path)
                            | _ \<Rightarrow> None) (rm_targets m)
      | BlockIpAction \<Rightarrow>
          List.map_filter (\<lambda>t. case t of TConnection ip _ \<Rightarrow> Some (BlockIp ip DEFAULT_BLOCK_SECS) | _ \<Rightarrow> None) (rm_targets m)
      | IsolateHostAction \<Rightarrow> [IsolateHost (isolation_duration [])]
      | SendSiemAlertAction \<Rightarrow>
          [Alert (triggered_title (dr_name rule)) (severity_str (dr_severity rule)) (rm_matched_value m)]
      | CreateNotificationAction \<Rightarrow> []
      | DisableAccountAction \<Rightarrow> []
      | RunCommandAction \<Rightarrow> [])"

fun push_new :: "resolved_action list \<Rightarrow> resolved_action list \<Rightarrow> resolved_action list" where
  "push_new resolved [] = resolved"
| "push_new resolved (a # as) = push_new (if a \<in> set resolved then resolved else resolved @ [a]) as"

definition resolve_rule_actions :: "detection_rule \<Rightarrow> rule_match \<Rightarrow> resolved_action list" where
  "resolve_rule_actions rule m = push_new [] (concat (map (actions_for rule m) (dr_actions rule)))"

section \<open>A pass of the pipeline\<close>

record playbook_log_entry =
  pl_playbook_id :: string
  pl_playbook_name :: string
  pl_trigger_event :: string
  pl_actions_executed :: "string list"
  pl_success :: bool
  pl_error :: "string option"

datatype pipeline_event =
    PlaybookTriggered playbook_log_entry
  | RuleNotification string rule_match "resolved_action list" "action_result list"   \<comment> \<open>title and what the body says\<close>
  | DetectionRuleMatched string

definition log_entry :: "playbook \<Rightarrow> playbook_evaluation \<Rightarrow> action_result list \<Rightarrow> playbook_log_entry" where
  "log_entry pb ev results =
     (let total = length results; ok = length (filter ar_success results) in
      \<lparr>pl_playbook_id = pb_id pb, pl_playbook_name = pe_playbook_name ev,
       pl_trigger_event = join_with ''; '' (matched_conditions ev),
       pl_actions_executed = map ar_action results,
       pl_success = (0 < total \<and> ok = total),
       pl_error = (if total = 0 then Some ''No executable action resolved for the configured playbook''
                   else if ok < total then Some (join_with ''; '' (List.map_filter ar_error results))
                   else None)\<rparr>)"

text \<open>
  What a pass works with: the response layer and its parameters, the clock of the escalation, whether
  the interface listens. What it changes: the repeated offences, the world, the events sent.
\<close>

record 'w pipeline =
  pp_perform :: "'w response_layer"
  pp_run :: run_params
  pp_now :: i64
  pp_simulate :: bool
  pp_gui :: bool

record 'w pass_state =
  ps_offences :: "offence str_map"
  ps_world :: 'w
  ps_events :: "pipeline_event list"

definition emit :: "'w pipeline \<Rightarrow> pipeline_event list \<Rightarrow> 'w pass_state \<Rightarrow> 'w pass_state" where
  "emit pp es st = (if pp_gui pp then st\<lparr>ps_events := ps_events st @ es\<rparr> else st)"

text \<open>Run or simulate the actions under a label. \<^const>\<open>None\<close>: the escalation overflows, which panics.\<close>

definition respond ::
  "'w pipeline \<Rightarrow> string \<Rightarrow> resolved_action list \<Rightarrow> 'w pass_state \<Rightarrow> (resolved_action list \<times> action_result list \<times> 'w pass_state) option" where
  "respond pp label actions st =
     (if pp_simulate pp then
        (case simulate_playbook_actions (pp_perform pp) ((pp_run pp)\<lparr>rp_name := label\<rparr>) actions (ps_world st) of
           (results, w) \<Rightarrow> Some (actions, results, st\<lparr>ps_world := w\<rparr>))
      else
        (case escalate_repeated_blocks (ps_offences st) (pp_now pp) actions of
           None \<Rightarrow> None
         | Some (offences, actions') \<Rightarrow>
             (case execute_playbook_actions_with_delivery (pp_perform pp) ((pp_run pp)\<lparr>rp_name := label\<rparr>) actions' (ps_world st) of
                (results, w) \<Rightarrow> Some (actions', results, st\<lparr>ps_offences := offences, ps_world := w\<rparr>))))"

fun run_playbooks ::
  "'w pipeline \<Rightarrow> (string \<Rightarrow> string) \<Rightarrow> threat_context \<Rightarrow> playbook list \<Rightarrow> 'w pass_state \<Rightarrow>
     (playbook_log_entry list \<times> 'w pass_state) option" where
  "run_playbooks pp lower ctx [] st = Some ([], st)"
| "run_playbooks pp lower ctx (pb # pbs) st =
     (let ev = evaluate_playbook lower ctx pb in
      if \<not> pb_enabled pb \<or> \<not> triggered ev then run_playbooks pp lower ctx pbs st
      else case respond pp (pe_playbook_name ev) (pe_actions ev) st of
        None \<Rightarrow> None
      | Some (_, results, st1) \<Rightarrow>
          (let entry = log_entry pb ev results in
           map_option (\<lambda>(es, st2). (entry # es, st2))
             (run_playbooks pp lower ctx pbs (emit pp [PlaybookTriggered entry] st1))))"

definition rule_label :: "string \<Rightarrow> string" where
  "rule_label name = ''R'' @ [CHR 0xC3, CHR 0xA8] @ ''gle '' @ quote_open @ name @ quote_close"

definition responses_of :: "detection_rule list \<Rightarrow> rule_match \<Rightarrow> resolved_action list" where
  "responses_of rules m =
     (case find (\<lambda>r. dr_id r = rm_rule_id m) rules of None \<Rightarrow> [] | Some rule \<Rightarrow> resolve_rule_actions rule m)"

fun run_rule_responses ::
  "'w pipeline \<Rightarrow> detection_rule list \<Rightarrow> rule_match list \<Rightarrow> 'w pass_state \<Rightarrow> 'w pass_state option" where
  "run_rule_responses pp rules [] st = Some st"
| "run_rule_responses pp rules (m # ms) st =
     (let actions = responses_of rules m in
      case (if actions = [] then Some ([], [], st) else respond pp (rule_label (rm_rule_name m)) actions st) of
        None \<Rightarrow> None
      | Some (actions', results, st1) \<Rightarrow>
          run_rule_responses pp rules ms
            (emit pp [RuleNotification (triggered_title (rm_rule_name m)) m actions' results,
                      DetectionRuleMatched (rm_rule_id m)] st1))"

text \<open>The model annotates the first ten matches; it changes nothing else.\<close>

definition ai_classify_matches :: "(rule_match \<Rightarrow> string option) \<Rightarrow> rule_match list \<Rightarrow> rule_match list" where
  "ai_classify_matches annotate ms =
     map (\<lambda>m. case annotate m of None \<Rightarrow> m | Some c \<Rightarrow> m\<lparr>rm_ai_classification := Some c\<rparr>) (take 10 ms) @ drop 10 ms"

definition run_threat_pipeline ::
  "'w pipeline \<Rightarrow> (string \<Rightarrow> string) \<Rightarrow> (rule_match \<Rightarrow> string option) \<Rightarrow> detection_rule list \<Rightarrow> playbook list \<Rightarrow>
     threat_context \<Rightarrow> observed_activity \<Rightarrow> int \<Rightarrow> rule_hit_memory \<Rightarrow> 'w pass_state \<Rightarrow>
     (rule_match list \<times> playbook_log_entry list \<times> rule_hit_memory \<times> 'w pass_state) option" where
  "run_threat_pipeline pp lower annotate rules pbs ctx obs now mem st =
     (case evaluate_detection_rules lower ctx obs now rules mem of
        (found, mem') \<Rightarrow>
          let ms = ai_classify_matches annotate found in
          (case run_playbooks pp lower ctx pbs st of
             None \<Rightarrow> None
           | Some (logs, st1) \<Rightarrow>
               map_option (\<lambda>st2. (ms, logs, mem', st2)) (run_rule_responses pp rules ms st1)))"

end
