(* ===== verification/Threat_Context.thy ===== *)
theory Threat_Context imports Threat_Pipeline begin

text \<open>
  The glue of the threat pipeline (\<open>crates/agent-core/src/threat_pipeline.rs\<close>): the threat context
  built from the findings of the scanners, the observed activity, and the notification of a rule.
\<close>

section \<open>Evidence\<close>

text \<open>A \<open>serde_json::Value\<close>; a number is an unsigned integer or the text of another number.\<close>

datatype evidence =
    EvNull
  | EvBool bool
  | EvU64 u64
  | EvNumber string
  | EvStr string
  | EvArr "evidence list"
  | EvObj "(string \<times> evidence) list"

definition ev_get :: "evidence \<Rightarrow> string \<Rightarrow> evidence option" where
  "ev_get e k = (case e of EvObj o' \<Rightarrow> map_of o' k | _ \<Rightarrow> None)"

definition ev_str :: "evidence option \<Rightarrow> string option" where
  "ev_str e = (case e of Some (EvStr s) \<Rightarrow> Some s | _ \<Rightarrow> None)"

definition ev_u64 :: "evidence option \<Rightarrow> u64 option" where
  "ev_u64 e = (case e of Some (EvU64 n) \<Rightarrow> Some n | _ \<Rightarrow> None)"

datatype found_severity = FoundCritical | FoundHigh | FoundMedium | FoundLow

definition found_severity_str :: "found_severity \<Rightarrow> string" where
  "found_severity_str s =
     (case s of FoundCritical \<Rightarrow> ''critical'' | FoundHigh \<Rightarrow> ''high'' | FoundMedium \<Rightarrow> ''medium'' | FoundLow \<Rightarrow> ''low'')"

record security_incident =
  si_severity :: found_severity
  si_title :: string
  si_evidence :: evidence

datatype network_alert_kind =
    C2Communication | CryptoMining | DataExfiltration | SuspiciousPort | MaliciousDestination
  | DnsTunneling | AnonymizationNetwork | ConnectionAnomaly

record security_alert =
  sa_kind :: network_alert_kind
  sa_severity :: found_severity
  sa_description :: string
  sa_connection :: "(string option \<times> nat option) option"   \<comment> \<open>remote address and port\<close>

definition alert_type_str :: "network_alert_kind \<Rightarrow> string" where
  "alert_type_str k =
     (case k of C2Communication \<Rightarrow> ''c2_communication'' | CryptoMining \<Rightarrow> ''crypto_mining''
      | DataExfiltration \<Rightarrow> ''data_exfiltration'' | SuspiciousPort \<Rightarrow> ''suspicious_port''
      | MaliciousDestination \<Rightarrow> ''malicious_destination'' | DnsTunneling \<Rightarrow> ''dns_tunneling''
      | AnonymizationNetwork \<Rightarrow> ''anonymization_network'' | ConnectionAnomaly \<Rightarrow> ''connection_anomaly'')"

definition upper_byte :: "char \<Rightarrow> char" where
  "upper_byte c = (if is_ascii_lowercase c then char_of (byte c - 32) else c)"

definition log_detection_type :: "evidence \<Rightarrow> string" where
  "log_detection_type e =
     (let brute_force = (case ev_get e ''attack_techniques'' of
            Some (EvArr ts) \<Rightarrow> list_ex (\<lambda>t. case ev_str (Some t) of
                None \<Rightarrow> False | Some s \<Rightarrow> prefix ''T1110'' (map upper_byte s)) ts
          | _ \<Rightarrow> False)
      in if brute_force then ''brute_force'' else ''log_detection'')"

section \<open>The threat context\<close>

definition incident_process :: "security_incident \<Rightarrow> process_info option" where
  "incident_process i =
     (let e = si_evidence i in
      case (ev_str (ev_get e ''process_name''), ev_u64 (ev_get e ''pid'')) of
        (Some name, Some pid) \<Rightarrow>
          if pid \<le> u32_max \<and> trim name \<noteq> [] \<and> 1 < pid then
            Some \<lparr>pi_name = name, pi_pid = pid,
              pi_command_line = (case ev_str (ev_get e ''cmdline'') of
                  Some c \<Rightarrow> c
                | None \<Rightarrow> unwrap_or (ev_str (ev_get e ''command_line'')) [])\<rparr>
          else None
      | _ \<Rightarrow> None)"

definition alert_info :: "security_alert \<Rightarrow> network_alert_info" where
  "alert_info a =
     (let (remote_ip, port) = unwrap_or (sa_connection a) (None, None)
      in \<lparr>na_alert_type = alert_type_str (sa_kind a), na_remote_ip = remote_ip, na_port = port,
          na_severity = found_severity_str (sa_severity a), na_description = sa_description a, na_user = None\<rparr>)"

text \<open>A detection on the logs that names a remote address.\<close>

definition log_alert :: "(string \<Rightarrow> bool) \<Rightarrow> security_incident \<Rightarrow> network_alert_info option" where
  "log_alert parse_ip i =
     (let e = si_evidence i in
      if ev_str (ev_get e ''detection'') \<noteq> Some ''sigma_log'' then None
      else case ev_get e ''event'' of
        None \<Rightarrow> None
      | Some event \<Rightarrow>
          (case ev_str (ev_get event ''src_ip'') of
             None \<Rightarrow> None
           | Some address \<Rightarrow>
               if \<not> parse_ip address then None
               else Some \<lparr>na_alert_type = log_detection_type e, na_remote_ip = Some address, na_port = None,
                 na_severity = found_severity_str (si_severity i), na_description = si_title i,
                 na_user = (if ev_str (ev_get event ''action'') = Some ''login_success''
                            then ev_str (ev_get event ''user'') else None)\<rparr>))"

definition build_threat_context ::
  "(string \<Rightarrow> bool) \<Rightarrow> security_incident list \<Rightarrow> security_alert list \<Rightarrow> (string \<times> string) list \<Rightarrow> threat_context" where
  "build_threat_context parse_ip incidents alerts fim =
     \<lparr>suspicious_processes = List.map_filter incident_process incidents,
      network_alerts = map alert_info alerts @ List.map_filter (log_alert parse_ip) incidents,
      fim_alerts = map (\<lambda>(path, change). \<lparr>fa_path = path, fa_change_type = change\<rparr>) fim\<rparr>"

section \<open>Observed activity\<close>

record seen_process =
  sn_pid :: u32
  sn_name :: string
  sn_cmdline :: "string option"

record seen_connection =
  sc_remote_address :: "string option"
  sc_remote_port :: "nat option"
  sc_process_name :: "string option"

definition add_processes :: "u32 \<Rightarrow> seen_process list \<Rightarrow> observed_activity \<Rightarrow> observed_activity" where
  "add_processes own_pid ps obs =
     obs\<lparr>oa_processes := oa_processes obs @
       map (\<lambda>p. \<lparr>pi_name = sn_name p, pi_pid = sn_pid p, pi_command_line = unwrap_or (sn_cmdline p) []\<rparr>)
         (filter (\<lambda>p. sn_pid p \<noteq> own_pid \<and> trim (sn_name p) \<noteq> []) ps)\<rparr>"

definition observe_connection :: "seen_connection \<Rightarrow> observed_connection option" where
  "observe_connection c =
     (case (map_option trim (sc_remote_address c), sc_remote_port c) of
        (Some ip, Some port) \<Rightarrow>
          if port \<noteq> 0 \<and> ip \<noteq> [] then Some \<lparr>oc_remote_ip = ip, oc_port = port, oc_process_name = sc_process_name c\<rparr>
          else None
      | _ \<Rightarrow> None)"

definition add_connections :: "seen_connection list \<Rightarrow> observed_activity \<Rightarrow> observed_activity" where
  "add_connections cs obs = obs\<lparr>oa_connections := oa_connections obs @ List.map_filter observe_connection cs\<rparr>"

section \<open>The notification of a rule\<close>

definition thin_space :: string where "thin_space = [CHR 0xE2, CHR 0x80, CHR 0xAF]"

definition two_digits :: "nat \<Rightarrow> string" where
  "two_digits n = (if n < 10 then CHR ''0'' # show_nat n else show_nat n)"

definition duration_short :: "u64 \<Rightarrow> string" where
  "duration_short secs =
     (let d = secs div 86400; h = secs div 3600 mod 24; m = secs div 60 mod 60; s = secs mod 60
      in if 0 < d then show_nat d @ thin_space @ ''j '' @ two_digits h @ thin_space @ ''h''
         else if 0 < h then show_nat h @ thin_space @ ''h '' @ two_digits m @ thin_space @ ''min''
         else if 0 < m then show_nat m @ thin_space @ ''min''
         else show_nat s @ thin_space @ ''s'')"

definition response_label :: "resolved_action \<Rightarrow> string" where
  "response_label a =
     (case a of
        KillProcess name pid \<Rightarrow> ''arr'' @ [CHR 0xC3, CHR 0xAA] @ ''t du processus '' @ name @ '' (PID '' @ show_nat pid @ '')''
      | QuarantineFile path \<Rightarrow> ''mise en quarantaine de '' @ path
      | BlockIp ip secs \<Rightarrow>
          if secs = 0 then ''blocage de '' @ ip @ '' jusqu'' @ [CHR 0x27] @ ''au d'' @ e_acute @ ''blocage''
          else ''blocage de '' @ ip @ '' pendant '' @ duration_short secs
      | IsolateHost _ \<Rightarrow> ''isolement du poste''
      | Alert _ _ _ \<Rightarrow> ''alerte envoy'' @ e_acute @ ''e au SIEM''
      | Notify _ \<Rightarrow> ''notification''
      | DisableAccount user _ \<Rightarrow> ''verrouillage du compte '' @ user
      | RunCommand name _ \<Rightarrow> ''commande de r'' @ e_acute @ ''ponse '' @ name)"

definition result_line :: "bool \<Rightarrow> resolved_action \<times> action_result \<Rightarrow> string" where
  "result_line simulated x =
     (let what = response_label (fst x) in
      CHR 0x0A # (case ar_error (snd x) of
        None \<Rightarrow> if simulated then ''Simulation, rien n'' @ [CHR 0x27] @ ''a '' @ e_acute @ ''t'' @ e_acute @ '' fait : '' @ what
                else ''R'' @ e_acute @ ''ponse : '' @ what
      | Some err \<Rightarrow> ''R'' @ e_acute @ ''ponse en '' @ e_acute @ ''chec : '' @ what @ '' ('' @ err @ '')''))"

definition rule_notification_body :: "rule_match \<Rightarrow> resolved_action list \<Rightarrow> action_result list \<Rightarrow> bool \<Rightarrow> string" where
  "rule_notification_body m actions results simulated =
     rm_matched_value m
     @ (case rm_ai_classification m of None \<Rightarrow> [] | Some c \<Rightarrow> CHR 0x0A # ''Analyse IA : '' @ c)
     @ concat (map (result_line simulated) (zip actions results))"

section \<open>Rules and playbooks in the database\<close>

text \<open>
  The JSON texts of a stored rule, and its dates, are read and written by libraries: \<open>rule_text\<close>
  gives the readers and the writers. A writer that fails is \<^const>\<open>None\<close>.
\<close>

record rule_text =
  rt_read_conditions :: "string \<Rightarrow> detection_condition list option"
  rt_read_actions :: "string \<Rightarrow> playbook_action_type list option"
  rt_read_date :: "string \<Rightarrow> int option"
  rt_write_conditions :: "detection_condition list \<Rightarrow> string option"
  rt_write_actions :: "playbook_action_type list \<Rightarrow> string option"
  rt_write_date :: "int \<Rightarrow> string"

record stored_rule =
  sd_id :: string
  sd_name :: string
  sd_description :: string
  sd_severity :: string
  sd_conditions :: string
  sd_actions :: string
  sd_enabled :: bool
  sd_created_at :: string
  sd_last_match :: "string option"
  sd_match_count :: int
  sd_synced :: bool

definition stored_severity :: "(string \<Rightarrow> string) \<Rightarrow> string \<Rightarrow> rule_severity" where
  "stored_severity lower s =
     unwrap_or (map_of [(''critical'', SevCritical), (''high'', SevHigh), (''medium'', SevMedium), (''low'', SevLow),
       (''info'', SevInfo)] (lower s)) SevMedium"

definition stored_rule_to_single_dto :: "rule_text \<Rightarrow> (string \<Rightarrow> string) \<Rightarrow> int \<Rightarrow> stored_rule \<Rightarrow> detection_rule" where
  "stored_rule_to_single_dto rt lower now s =
     (let conditions = rt_read_conditions rt (sd_conditions s); actions = rt_read_actions rt (sd_actions s);
          valid = (conditions \<noteq> None \<and> actions \<noteq> None)
      in \<lparr>dr_id = sd_id s, dr_name = sd_name s, dr_description = sd_description s,
          dr_severity = stored_severity lower (sd_severity s),
          dr_conditions = unwrap_or conditions [], dr_actions = unwrap_or actions [],
          dr_enabled = (sd_enabled s \<and> valid),
          dr_created_at = unwrap_or (rt_read_date rt (sd_created_at s)) now,
          dr_last_match = Option.bind (sd_last_match s) (rt_read_date rt),
          dr_match_count = nat (max 0 (sd_match_count s))\<rparr>)"

definition rule_to_stored :: "rule_text \<Rightarrow> detection_rule \<Rightarrow> bool \<Rightarrow> stored_rule" where
  "rule_to_stored rt r synced =
     \<lparr>sd_id = dr_id r, sd_name = dr_name r, sd_description = dr_description r,
      sd_severity = severity_str (dr_severity r),
      sd_conditions = unwrap_or (rt_write_conditions rt (dr_conditions r)) ''[]'',
      sd_actions = unwrap_or (rt_write_actions rt (dr_actions r)) ''[]'',
      sd_enabled = dr_enabled r, sd_created_at = rt_write_date rt (dr_created_at r),
      sd_last_match = map_option (rt_write_date rt) (dr_last_match r),
      sd_match_count = int (min (dr_match_count r) (2 ^ 31 - 1)), sd_synced = synced\<rparr>"

definition stored_rules_to_dto :: "rule_text \<Rightarrow> (string \<Rightarrow> string) \<Rightarrow> int \<Rightarrow> stored_rule list \<Rightarrow> detection_rule list" where
  "stored_rules_to_dto rt lower now stored = map (stored_rule_to_single_dto rt lower now) stored"

end
