(* ===== verification/Threat_Pipeline_Props.thy ===== *)
theory Threat_Pipeline_Props imports Threat_Context Playbook_Props begin

text \<open>
  What a pass of the threat pipeline promises: the memory of what was reported, what a match found,
  what the responses of a rule act on, and what a simulated pass does.
\<close>

section \<open>The memory\<close>

lemma forget_oldest_subset: "set (forget_oldest now mem) \<subseteq> set mem"
  by (auto simp: forget_oldest_def Let_def)

lemma forget_oldest_wf: "hm_wf mem \<Longrightarrow> hm_wf (forget_oldest now mem)"
  by (simp add: forget_oldest_def Let_def)

lemma forget_oldest_length:
  assumes "length mem \<le> CAPACITY"
  shows "length (forget_oldest now mem) < CAPACITY"
proof -
  define kept where "kept = filter (\<lambda>(_, since). still_fresh now since) mem"
  show ?thesis
  proof (cases "length kept < CAPACITY")
    case True
    then show ?thesis by (simp add: forget_oldest_def Let_def flip: kept_def)
  next
    case False
    define median where "median = sort (map snd kept) ! (length kept div 2)"
    have "length kept div 2 < length (sort (map snd kept))" using False by (simp add: CAPACITY_def)
    then have "median \<in> set (sort (map snd kept))" unfolding median_def by (rule nth_mem)
    then obtain x where "x \<in> set kept" "snd x = median" by auto
    then have "length (filter (\<lambda>(_, since). median < since) kept) < length kept"
      by (intro length_filter_less [of x]) auto
    moreover have "length kept \<le> length mem" by (simp add: kept_def)
    ultimately show ?thesis
      using assms False by (simp add: forget_oldest_def Let_def median_def flip: kept_def)
  qed
qed

definition memory_ok :: "rule_hit_memory \<Rightarrow> bool" where
  "memory_ok mem \<longleftrightarrow> hm_wf mem \<and> length mem \<le> CAPACITY"

lemma report_memory_ok: "memory_ok mem \<Longrightarrow> memory_ok (snd (report now key mem))"
  using forget_oldest_length [of mem now]
  by (auto simp: memory_ok_def report_def length_update forget_oldest_wf CAPACITY_def split: option.split)

lemma new_hits_memory_ok: "memory_ok mem \<Longrightarrow> memory_ok (snd (new_hits now key txt target os mem))"
proof (induction os arbitrary: mem)
  case (Cons x os)
  obtain fresh mem1 where r: "report now (key x) mem = (fresh, mem1)" by force
  with report_memory_ok [OF Cons.prems, of now "key x"] have "memory_ok mem1" by simp
  from Cons.IH [OF this] r show ?case by (auto split: prod.split)
qed simp

text \<open>Observations of one instant that fill the memory are all forgotten at once.\<close>

lemma forget_oldest_one_instant:
  assumes "CAPACITY \<le> length mem" "\<forall>x\<in>set mem. snd x = since" "still_fresh now since"
  shows "forget_oldest now mem = []"
proof -
  have kept: "filter (\<lambda>(_, t). still_fresh now t) mem = mem" using assms(2,3) by (auto simp: filter_id_conv)
  have "map snd mem = replicate (length mem) since" using assms(2) by (auto simp: map_replicate_const [symmetric])
  then have "sort (map snd mem) ! (length mem div 2) = since" using assms(1)
    by (simp add: CAPACITY_def sorted_sort_id)
  then show ?thesis using assms(1,2) by (simp add: forget_oldest_def Let_def kept filter_empty_conv case_prod_beta)
qed

text \<open>While there is room, a loop over observations remembers each of them and forgets nothing.\<close>

definition remembered_fresh :: "int \<Rightarrow> rule_hit_memory \<Rightarrow> string \<Rightarrow> bool" where
  "remembered_fresh now mem k \<longleftrightarrow> (\<exists>t. map_of mem k = Some t \<and> still_fresh now t)"

lemma report_room:
  assumes "length mem < CAPACITY"
  shows "report now k mem = (\<not> remembered_fresh now mem k, if remembered_fresh now mem k then mem else AList.update k now mem)"
  using assms by (auto simp: report_def remembered_fresh_def split: option.split)

lemma still_fresh_now [simp]: "still_fresh now now"
  by (simp add: still_fresh_def REMINDER_def)

lemma new_hits_room:
  assumes "length mem + length os \<le> CAPACITY"
  shows "map_of (snd (new_hits now key txt target os mem)) k =
      (if k \<in> key ` set os \<and> \<not> remembered_fresh now mem k then Some now else map_of mem k)
    \<and> length (snd (new_hits now key txt target os mem)) \<le> length mem + length os"
  using assms
proof (induction os arbitrary: mem)
  case (Cons x os)
  define mem1 where "mem1 = (if remembered_fresh now mem (key x) then mem else AList.update (key x) now mem)"
  have r: "report now (key x) mem = (\<not> remembered_fresh now mem (key x), mem1)"
    using Cons.prems by (simp add: report_room mem1_def)
  have len: "length mem1 \<le> Suc (length mem)" by (simp add: mem1_def length_update)
  have fresh: "remembered_fresh now mem1 k \<longleftrightarrow> k = key x \<or> remembered_fresh now mem k"
    by (auto simp: mem1_def remembered_fresh_def update_conv)
  have m1: "map_of mem1 k = (if k = key x \<and> \<not> remembered_fresh now mem k then Some now else map_of mem k)"
    by (auto simp: mem1_def update_conv)
  have "length mem1 + length os \<le> CAPACITY" using len Cons.prems by simp
  from Cons.IH [OF this] len show ?case
    by (auto simp: r fresh m1 split: prod.split) (auto simp: mem1_def update_conv)
qed simp

section \<open>What a match found\<close>

lemma new_hits_targets: "snd ` set (fst (new_hits now key txt target os mem)) \<subseteq> target ` set os"
proof (induction os arbitrary: mem)
  case (Cons x os)
  obtain fresh mem1 hits mem2 where r: "report now (key x) mem = (fresh, mem1)" "new_hits now key txt target os mem1 = (hits, mem2)"
    by force
  with Cons.IH [of mem1] show ?case by auto
qed simp

text \<open>A target satisfies a condition when it was flagged or observed and has what the condition asks for.\<close>

definition process_satisfies :: "(string \<Rightarrow> string) \<Rightarrow> detection_condition \<Rightarrow> process_info \<Rightarrow> bool" where
  "process_satisfies lower c p \<longleftrightarrow>
     (dc_type c = ProcessNameContains \<and> str_contains (lower (pi_name p)) (lower (dc_value c))) \<or>
     (dc_type c = CommandLineContains \<and> str_contains (lower (pi_command_line p)) (lower (dc_value c)))"

definition alert_satisfies :: "(string \<Rightarrow> string) \<Rightarrow> detection_condition \<Rightarrow> network_alert_info \<Rightarrow> bool" where
  "alert_satisfies lower c a \<longleftrightarrow>
     (dc_type c = NetworkPort \<and> na_port a \<noteq> None \<and> parse_port (dc_value c) = na_port a) \<or>
     (dc_type c = SeverityLevel \<and> (\<exists>threshold level. severity_to_level lower (dc_value c) = Some threshold \<and>
        severity_to_level lower (na_severity a) = Some level \<and> threshold \<le> level))"

definition satisfies ::
  "(string \<Rightarrow> string) \<Rightarrow> threat_context \<Rightarrow> observed_activity \<Rightarrow> detection_condition \<Rightarrow> rule_target \<Rightarrow> bool" where
  "satisfies lower ctx obs c t \<longleftrightarrow>
     (case t of
        TProcess name pid \<Rightarrow>
          \<exists>p\<in>set (suspicious_processes ctx) \<union> set (oa_processes obs).
            pi_name p = name \<and> pi_pid p = pid \<and> process_satisfies lower c p
      | TConnection ip port \<Rightarrow>
          (\<exists>o'\<in>set (oa_connections obs). oc_remote_ip o' = ip \<and> oc_port o' = port \<and>
             dc_type c = NetworkPort \<and> parse_port (dc_value c) = Some port) \<or>
          (\<exists>a\<in>set (network_alerts ctx). na_remote_ip a = Some ip \<and> trim ip \<noteq> [] \<and> alert_satisfies lower c a)
      | TFile path removed \<Rightarrow>
          \<exists>f\<in>set (fim_alerts ctx). t = file_target lower f \<and> dc_type c = FimPathMatch \<and>
            str_contains (lower (fa_path f)) (lower (dc_value c)))"

lemma find_Some_mem: "find P xs = Some x \<Longrightarrow> x \<in> set xs \<and> P x"
  by (auto simp: find_Some_iff)

lemma set_network_alert_target:
  "t \<in> set (network_alert_target a) \<longleftrightarrow>
     (\<exists>ip. na_remote_ip a = Some ip \<and> trim ip \<noteq> [] \<and> t = TConnection ip (unwrap_or (na_port a) 0))"
  by (cases "na_remote_ip a") (auto simp: network_alert_target_def)

lemma alert_target_satisfies:
  assumes "a \<in> set (network_alerts ctx)" "alert_satisfies lower c a" "t \<in> set (network_alert_target a)"
  shows "satisfies lower ctx obs c t"
proof -
  from assms(3) obtain ip port where "na_remote_ip a = Some ip" "trim ip \<noteq> []" "t = TConnection ip port"
    by (auto simp: set_network_alert_target)
  with assms(1,2) show ?thesis unfolding satisfies_def by auto
qed

lemma process_target_satisfies:
  "p \<in> set (suspicious_processes ctx) \<union> set (oa_processes obs) \<Longrightarrow> process_satisfies lower c p \<Longrightarrow>
     satisfies lower ctx obs c (process_target p)"
  unfolding satisfies_def process_target_def rule_target.case by (rule bexI) auto

lemma flagged_process:
  assumes "map_option f (find P xs) = Some m" and "\<And>p. snd (f p) = [process_target p]"
  shows "\<exists>p\<in>set xs. P p \<and> snd m = [process_target p]"
  using assms by (auto dest!: find_Some_mem)

lemma flagged_alert:
  assumes "map_option f (find P xs) = Some m" and "\<And>a. snd (f a) = network_alert_target a"
  shows "\<exists>a\<in>set xs. P a \<and> snd m = network_alert_target a"
  using assms by (auto dest!: find_Some_mem)

lemma flagged_satisfies:
  assumes "flagged_match lower c ctx = Some m" and "t \<in> set (snd m)"
  shows "satisfies lower ctx obs c t"
proof (cases "dc_type c")
  case ProcessNameContains
  with assms(1) have "\<exists>p\<in>set (suspicious_processes ctx). process_hit lower True (lower (dc_value c)) p \<and> snd m = [process_target p]"
    by (intro flagged_process [where f = "\<lambda>p. (process_text p, [process_target p])"]) (simp_all add: flagged_match_def Let_def)
  with ProcessNameContains assms(2) show ?thesis
    by (auto simp: process_hit_def process_satisfies_def intro!: process_target_satisfies)
next
  case CommandLineContains
  with assms(1) have "\<exists>p\<in>set (suspicious_processes ctx). process_hit lower False (lower (dc_value c)) p \<and> snd m = [process_target p]"
    by (intro flagged_process [where f = "\<lambda>p. (command_text p, [process_target p])"]) (simp_all add: flagged_match_def Let_def)
  with CommandLineContains assms(2) show ?thesis
    by (auto simp: process_hit_def process_satisfies_def intro!: process_target_satisfies)
next
  case NetworkPort
  with assms(1) obtain port where port: "parse_port (dc_value c) = Some port"
    by (auto simp: flagged_match_def split: option.splits)
  with NetworkPort assms(1) have "\<exists>a\<in>set (network_alerts ctx). na_port a = Some port \<and> snd m = network_alert_target a"
    by (intro flagged_alert [where f = "\<lambda>a. (port_alert_text port a, network_alert_target a)"]) (simp_all add: flagged_match_def Let_def)
  with NetworkPort assms(2) port show ?thesis
    by (auto simp: alert_satisfies_def intro!: alert_target_satisfies)
next
  case FimPathMatch
  with assms obtain f where "f \<in> set (fim_alerts ctx)" "str_contains (lower (fa_path f)) (lower (dc_value c))" "t = file_target lower f"
    by (auto simp: flagged_match_def Let_def dest!: find_Some_mem)
  with FimPathMatch show ?thesis by (auto simp: satisfies_def file_target_def Let_def)
next
  case SeverityLevel
  with assms(1) obtain threshold where th: "severity_to_level lower (dc_value c) = Some threshold"
    by (auto simp: flagged_match_def split: option.splits)
  with SeverityLevel assms(1) have "\<exists>a\<in>set (network_alerts ctx). reaches_level lower threshold a \<and> snd m = network_alert_target a"
    by (intro flagged_alert [where f = "\<lambda>a. (severity_alert_text (dc_value c) a, network_alert_target a)"]) (simp_all add: flagged_match_def Let_def)
  with SeverityLevel assms(2) th show ?thesis
    by (auto simp: alert_satisfies_def reaches_level_def split: option.splits intro!: alert_target_satisfies)
qed

lemma new_hits_target:
  fixes os :: "'o list"
  assumes "t \<in> snd ` set (fst (new_hits now key txt target os mem))"
  obtains o' where "o' \<in> set os" "t = target o'"
  using assms new_hits_targets by fast

lemma observed_satisfies:
  assumes "t \<in> snd ` set (fst (condition_hits lower id' c obs now mem))"
  shows "satisfies lower ctx obs c t"
proof (cases "dc_type c")
  case ProcessNameContains
  with assms obtain p where "p \<in> set (filter (process_hit lower True (lower (dc_value c))) (oa_processes obs))" "t = process_target p"
    by (auto simp: condition_hits_def Let_def simp del: set_filter intro: new_hits_target [OF imageI])
  with ProcessNameContains show ?thesis
    by (auto simp: process_hit_def process_satisfies_def intro!: process_target_satisfies)
next
  case CommandLineContains
  with assms obtain p where "p \<in> set (filter (process_hit lower False (lower (dc_value c))) (oa_processes obs))" "t = process_target p"
    by (auto simp: condition_hits_def Let_def simp del: set_filter intro: new_hits_target [OF imageI])
  with CommandLineContains show ?thesis
    by (auto simp: process_hit_def process_satisfies_def intro!: process_target_satisfies)
next
  case NetworkPort
  with assms obtain port where port: "parse_port (dc_value c) = Some port"
    by (auto simp: condition_hits_def split: option.splits)
  with NetworkPort assms obtain oc where "oc \<in> set (filter (\<lambda>oc. oc_port oc = port) (oa_connections obs))" "t = connection_target oc"
    by (auto simp: condition_hits_def Let_def simp del: set_filter intro: new_hits_target [OF imageI])
  with NetworkPort port show ?thesis by (auto simp: connection_target_def satisfies_def)
qed (use assms in \<open>simp_all add: condition_hits_def Let_def\<close>)

definition found_by :: "(string \<Rightarrow> string) \<Rightarrow> threat_context \<Rightarrow> observed_activity \<Rightarrow> detection_rule \<Rightarrow> rule_match \<Rightarrow> bool" where
  "found_by lower ctx obs r m \<longleftrightarrow> dr_enabled r \<and> dr_id r = rm_rule_id m \<and>
     (\<exists>c\<in>set (dr_conditions r). trim (dc_value c) \<noteq> [] \<and> (\<forall>t\<in>set (rm_targets m). satisfies lower ctx obs c t))"

lemma evaluate_condition_found:
  assumes "m \<in> set (fst (evaluate_condition lower ctx obs now r c mem))" "c \<in> set (dr_conditions r)" "dr_enabled r"
  shows "found_by lower ctx obs r m"
proof -
  obtain hit mem' where o: "observed_match lower (dr_id r) c obs now mem = (hit, mem')" by force
  from assms(1) have v: "trim (dc_value c) \<noteq> []" by (auto simp: evaluate_condition_def)
  have "\<exists>x. m = match_of r x \<and> (flagged_match lower c ctx = Some x \<or> hit = Some x)"
    using assms(1) v o by (auto simp: evaluate_condition_def split: option.splits)
  then obtain x where x: "m = match_of r x" "flagged_match lower c ctx = Some x \<or> hit = Some x" by blast
  have "satisfies lower ctx obs c t" if "t \<in> set (snd x)" for t
    using x(2)
  proof
    assume "hit = Some x"
    with o that have "t \<in> snd ` set (fst (condition_hits lower (dr_id r) c obs now mem))"
      by (auto simp: observed_match_def split: prod.splits list.splits)
    then show ?thesis by (rule observed_satisfies)
  qed (use that flagged_satisfies in blast)
  with x(1) v assms(2,3) show ?thesis by (auto simp: found_by_def match_of_def)
qed

lemma evaluate_conditions_found:
  "m \<in> set (fst (evaluate_conditions lower ctx obs now r cs mem)) \<Longrightarrow> set cs \<subseteq> set (dr_conditions r) \<Longrightarrow> dr_enabled r \<Longrightarrow>
     found_by lower ctx obs r m"
proof (induction cs arbitrary: mem)
  case (Cons c cs)
  then show ?case
    using evaluate_condition_found [of m lower ctx obs now r c mem] by (auto split: prod.splits) (metis fst_conv)
qed simp

lemma evaluate_rules_found:
  "m \<in> set (fst (evaluate_detection_rules lower ctx obs now rules mem)) \<Longrightarrow> \<exists>r\<in>set rules. found_by lower ctx obs r m"
proof (induction rules arbitrary: mem)
  case (Cons r rules)
  obtain ms mem1 where c: "evaluate_conditions lower ctx obs now r (dr_conditions r) mem = (ms, mem1)" by force
  obtain ms' mem2 where d: "evaluate_detection_rules lower ctx obs now rules mem1 = (ms', mem2)" by force
  from Cons.prems c d have "\<not> dr_enabled r \<and> m \<in> set (fst (evaluate_detection_rules lower ctx obs now rules mem))
      \<or> dr_enabled r \<and> (m \<in> set ms \<or> m \<in> set ms')" by (auto split: if_splits)
  then consider "m \<in> set (fst (evaluate_detection_rules lower ctx obs now rules mem))"
    | "dr_enabled r" "m \<in> set ms" | "m \<in> set ms'" by blast
  then show ?case
  proof cases
    case 2
    with c evaluate_conditions_found [of m lower ctx obs now r "dr_conditions r" mem] show ?thesis by auto
  qed (use Cons.IH [of mem] Cons.IH [of mem1] d in auto)
qed simp

section \<open>What the responses of a rule act on\<close>

fun kind_of :: "resolved_action \<Rightarrow> playbook_action_type" where
  "kind_of (KillProcess _ _) = KillProcessAction"
| "kind_of (QuarantineFile _) = QuarantineFileAction"
| "kind_of (BlockIp _ _) = BlockIpAction"
| "kind_of (IsolateHost _) = IsolateHostAction"
| "kind_of (Alert _ _ _) = SendSiemAlertAction"
| "kind_of (Notify _) = CreateNotificationAction"
| "kind_of (DisableAccount _ _) = DisableAccountAction"
| "kind_of (RunCommand _ _) = RunCommandAction"

text \<open>The target of an action, where it has one; a file is acted on only when it was not removed.\<close>

definition acts_on :: "resolved_action \<Rightarrow> (rule_target \<Rightarrow> bool) \<Rightarrow> bool" where
  "acts_on a P \<longleftrightarrow>
     (case a of
        KillProcess name pid \<Rightarrow> P (TProcess name pid)
      | QuarantineFile path \<Rightarrow> P (TFile path False)
      | BlockIp ip secs \<Rightarrow> secs = DEFAULT_BLOCK_SECS \<and> (\<exists>port. P (TConnection ip port))
      | IsolateHost _ \<Rightarrow> True
      | Alert _ _ _ \<Rightarrow> True
      | _ \<Rightarrow> False)"

lemma set_push_new: "set (push_new resolved as) = set resolved \<union> set as"
  by (induction as arbitrary: resolved) auto

lemma push_new_distinct: "distinct resolved \<Longrightarrow> distinct (push_new resolved as)"
  by (induction as arbitrary: resolved) auto

lemma set_map_filter: "x \<in> set (List.map_filter f xs) \<longleftrightarrow> (\<exists>y\<in>set xs. f y = Some x)"
  by (force simp: map_filter_def)

lemma Bex_rule_target:
  "(\<exists>t\<in>S. P t) \<longleftrightarrow> (\<exists>name pid. TProcess name pid \<in> S \<and> P (TProcess name pid)) \<or>
     (\<exists>ip port. TConnection ip port \<in> S \<and> P (TConnection ip port)) \<or>
     (\<exists>path removed. TFile path removed \<in> S \<and> P (TFile path removed))"
  by (metis rule_target.exhaust)

lemma actions_for_acts:
  "a \<in> set (actions_for rule m action) \<Longrightarrow>
     kind_of a = action \<and> acts_on a (\<lambda>t. t \<in> set (rm_targets m))"
  by (cases action) (auto simp: actions_for_def acts_on_def set_map_filter Bex_rule_target split: if_split_asm)

lemma resolve_rule_actions_acts:
  "a \<in> set (resolve_rule_actions rule m) \<Longrightarrow>
     kind_of a \<in> set (dr_actions rule) \<and> acts_on a (\<lambda>t. t \<in> set (rm_targets m))"
  by (auto simp: resolve_rule_actions_def set_push_new dest: actions_for_acts)

lemma acts_on_mono: "acts_on a P \<Longrightarrow> (\<And>t. P t \<Longrightarrow> Q t) \<Longrightarrow> acts_on a Q"
  by (auto simp: acts_on_def split: resolved_action.splits)

lemma find_unique_id:
  assumes "distinct (map dr_id rules)" "r \<in> set rules" "dr_id r = k"
  shows "find (\<lambda>r. dr_id r = k) rules = Some r"
  using assms by (induction rules) (auto simp: image_iff)

lemma ai_classify_keeps:
  assumes "m \<in> set (ai_classify_matches annotate ms)"
  obtains m' where "m' \<in> set ms" "rm_rule_id m = rm_rule_id m'" "rm_targets m = rm_targets m'"
  using assms by (fastforce simp: ai_classify_matches_def dest: in_set_takeD in_set_dropD split: option.splits)

lemma pipeline_matches:
  assumes "run_threat_pipeline pp lower annotate rules pbs ctx obs now mem st = Some (ms, logs, mem', st')"
  shows "ms = ai_classify_matches annotate (fst (evaluate_detection_rules lower ctx obs now rules mem))"
    and "mem' = snd (evaluate_detection_rules lower ctx obs now rules mem)"
  using assms by (auto simp: run_threat_pipeline_def Let_def split: prod.splits option.splits)

section \<open>What a simulated pass does\<close>

text \<open>What a pass works on: the actions of each playbook that fires, then those of each match.\<close>

definition playbook_work :: "(string \<Rightarrow> string) \<Rightarrow> threat_context \<Rightarrow> playbook list \<Rightarrow> (string \<times> resolved_action list) list" where
  "playbook_work lower ctx pbs =
     map (\<lambda>pb. (pe_playbook_name (evaluate_playbook lower ctx pb), pe_actions (evaluate_playbook lower ctx pb)))
       (filter (\<lambda>pb. pb_enabled pb \<and> triggered (evaluate_playbook lower ctx pb)) pbs)"

definition rule_work :: "detection_rule list \<Rightarrow> rule_match list \<Rightarrow> (string \<times> resolved_action list) list" where
  "rule_work rules ms =
     map (\<lambda>m. (rule_label (rm_rule_name m), responses_of rules m)) (filter (\<lambda>m. responses_of rules m \<noteq> []) ms)"

definition record_simulated :: "'w pipeline \<Rightarrow> string \<times> resolved_action list \<Rightarrow> 'w \<Rightarrow> 'w" where
  "record_simulated pp work w =
     (if rp_audit (pp_run pp)
      then fold (\<lambda>a w. snd (pp_perform pp (AuditLog (fst work) (SIMULATION_PREFIX @ describe a) True None) w))
             (let_through (pp_run pp) 0 (snd work)) w
      else w)"

lemma let_through_named [simp]: "let_through (rp\<lparr>rp_name := n\<rparr>) k as = let_through rp k as"
  by (induction as arbitrary: k) (simp_all add: valid_def)

lemma fold_same: "fold (\<lambda>a w. w) xs w = w"
  by (induction xs) simp_all

lemma simulated_response:
  assumes "pp_simulate pp"
  obtains results where
    "respond pp label actions st = Some (actions, results, st\<lparr>ps_world := record_simulated pp (label, actions) (ps_world st)\<rparr>)"
proof -
  obtain results w where r: "simulate_playbook_actions (pp_perform pp) ((pp_run pp)\<lparr>rp_name := label\<rparr>) actions (ps_world st) = (results, w)"
    by force
  have "w = record_simulated pp (label, actions) (ps_world st)"
    using simulate_playbook_actions_harmless [of "pp_perform pp" "(pp_run pp)\<lparr>rp_name := label\<rparr>" actions "ps_world st"] r
    by (auto simp: record_simulated_def fold_same)
  with r assms that show ?thesis by (auto simp: respond_def)
qed

lemma emit_state [simp]: "ps_world (emit pp es st) = ps_world st" "ps_offences (emit pp es st) = ps_offences st"
  by (simp_all add: emit_def)

lemma simulated_playbooks:
  assumes "pp_simulate pp"
  shows "\<exists>logs st'. run_playbooks pp lower ctx pbs st = Some (logs, st') \<and> ps_offences st' = ps_offences st
    \<and> ps_world st' = fold (record_simulated pp) (playbook_work lower ctx pbs) (ps_world st)"
proof (induction pbs arbitrary: st)
  case (Cons pb pbs)
  show ?case
  proof (cases "pb_enabled pb \<and> triggered (evaluate_playbook lower ctx pb)")
    case True
    let ?ev = "evaluate_playbook lower ctx pb"
    obtain results where r: "respond pp (pe_playbook_name ?ev) (pe_actions ?ev) st = Some (pe_actions ?ev, results,
        st\<lparr>ps_world := record_simulated pp (pe_playbook_name ?ev, pe_actions ?ev) (ps_world st)\<rparr>)"
      by (rule simulated_response [OF assms])
    from True Cons.IH [of "emit pp [PlaybookTriggered (log_entry pb ?ev results)]
        (st\<lparr>ps_world := record_simulated pp (pe_playbook_name ?ev, pe_actions ?ev) (ps_world st)\<rparr>)"]
    show ?thesis by (auto simp: r Let_def playbook_work_def)
  qed (use Cons.IH [of st] in \<open>auto simp: playbook_work_def Let_def\<close>)
qed (simp add: playbook_work_def)

lemma simulated_rules:
  assumes "pp_simulate pp"
  shows "\<exists>st'. run_rule_responses pp rules ms st = Some st' \<and> ps_offences st' = ps_offences st
    \<and> ps_world st' = fold (record_simulated pp) (rule_work rules ms) (ps_world st)"
proof (induction ms arbitrary: st)
  case (Cons m ms)
  let ?as = "responses_of rules m"
  define work where "work = (if ?as = [] then [] else [(rule_label (rm_rule_name m), ?as)])"
  have "\<exists>results. (if ?as = [] then Some ([], [], st) else respond pp (rule_label (rm_rule_name m)) ?as st)
      = Some (?as, results, st\<lparr>ps_world := fold (record_simulated pp) work (ps_world st)\<rparr>)"
    by (cases "?as = []") (auto simp: work_def intro: simulated_response [OF assms, of "rule_label (rm_rule_name m)" ?as st])
  then obtain results where r: "(if ?as = [] then Some ([], [], st) else respond pp (rule_label (rm_rule_name m)) ?as st)
      = Some (?as, results, st\<lparr>ps_world := fold (record_simulated pp) work (ps_world st)\<rparr>)" ..
  have "rule_work rules (m # ms) = work @ rule_work rules ms" by (simp add: rule_work_def work_def)
  with Cons.IH [of "emit pp [RuleNotification (triggered_title (rm_rule_name m)) m ?as results, DetectionRuleMatched (rm_rule_id m)]
      (st\<lparr>ps_world := fold (record_simulated pp) work (ps_world st)\<rparr>)"]
  show ?case by (simp only: run_rule_responses.simps Let_def r option.case prod.case) simp
qed (simp add: rule_work_def)

section \<open>Properties\<close>

text \<open>C19: Whatever the rules make the agent do, an enabled rule asked for that kind of action, and
  what is acted on was flagged or observed and is what a condition of that rule, which is not
  blank, asks for: a process by its name or its command line, the address of a connection by its
  port or of an alert by its port or severity, a file by its path. A file already removed is not put
  in quarantine, and an address is blocked for the default duration.\<close>

theorem rule_responses_hit_what_matched:
  assumes "run_threat_pipeline pp lower annotate rules pbs ctx obs now mem st = Some (ms, logs, mem', st')"
    and "m \<in> set ms" and "a \<in> set (responses_of rules m)" and "distinct (map dr_id rules)"
  shows "\<exists>r\<in>set rules. dr_enabled r \<and> dr_id r = rm_rule_id m \<and> kind_of a \<in> set (dr_actions r) \<and>
    (\<exists>c\<in>set (dr_conditions r). trim (dc_value c) \<noteq> [] \<and> acts_on a (satisfies lower ctx obs c))"
proof -
  from assms(1,2) obtain m' where m': "m' \<in> set (fst (evaluate_detection_rules lower ctx obs now rules mem))"
      "rm_rule_id m = rm_rule_id m'" "rm_targets m = rm_targets m'"
    by (auto dest!: pipeline_matches(1) elim: ai_classify_keeps)
  from evaluate_rules_found [OF m'(1)] obtain r where r: "r \<in> set rules" "found_by lower ctx obs r m'" by blast
  then have "find (\<lambda>r. dr_id r = rm_rule_id m) rules = Some r"
    using assms(4) m'(2) by (intro find_unique_id) (auto simp: found_by_def)
  with assms(3) have "a \<in> set (resolve_rule_actions r m)" by (simp add: responses_of_def)
  then have "kind_of a \<in> set (dr_actions r)" "acts_on a (\<lambda>t. t \<in> set (rm_targets m))"
    by (auto dest: resolve_rule_actions_acts)
  with r m'(2,3) show ?thesis by (fastforce simp: found_by_def intro: acts_on_mono)
qed

text \<open>C20: A simulated pass always returns and leaves the repeated offences as they were; the only
  calls it makes are audit entries, labelled as simulated: for each playbook that fires, in order,
  then for each match of a rule, one per action that a real run would let through.\<close>

theorem simulated_pass_is_harmless:
  assumes "pp_simulate pp"
  shows "\<exists>ms logs mem' st'. run_threat_pipeline pp lower annotate rules pbs ctx obs now mem st = Some (ms, logs, mem', st')
    \<and> ps_offences st' = ps_offences st
    \<and> ps_world st' = fold (record_simulated pp) (playbook_work lower ctx pbs @ rule_work rules ms) (ps_world st)"
proof -
  obtain found mem' where e: "evaluate_detection_rules lower ctx obs now rules mem = (found, mem')" by force
  obtain logs st1 where p: "run_playbooks pp lower ctx pbs st = Some (logs, st1)" "ps_offences st1 = ps_offences st"
      "ps_world st1 = fold (record_simulated pp) (playbook_work lower ctx pbs) (ps_world st)"
    using simulated_playbooks [OF assms] by blast
  obtain st2 where "run_rule_responses pp rules (ai_classify_matches annotate found) st1 = Some st2"
      "ps_offences st2 = ps_offences st1"
      "ps_world st2 = fold (record_simulated pp) (rule_work rules (ai_classify_matches annotate found)) (ps_world st1)"
    using simulated_rules [OF assms] by blast
  with e p show ?thesis by (simp add: run_threat_pipeline_def Let_def)
qed

text \<open>When an engine flagged a process for a condition on processes, another process observed
  on the host that satisfies it is remembered as reported, but it is neither in the match nor among
  its targets: no response acts on it, and until a day has passed the rule does not report it.\<close>

theorem flagged_hides_observed:
  assumes "dc_type c = CommandLineContains \<or> dc_type c = ProcessNameContains"
    and "flagged_match lower c ctx = Some found" and "process_target p \<notin> set (snd found)"
    and "trim (dc_value c) \<noteq> []" and "p \<in> set (oa_processes obs)" and "process_satisfies lower c p"
    and "length mem + length (oa_processes obs) \<le> CAPACITY"
    and "map_of mem (process_key lower (dr_id r) p) = None"
    and "still_fresh later now" and "flagged_match lower c ctx' = None"
  shows "\<exists>mem'. evaluate_condition lower ctx obs now r c mem = ([match_of r found], mem')
    \<and> process_target p \<notin> set (rm_targets (match_of r found))
    \<and> evaluate_condition lower ctx' \<lparr>oa_processes = [p], oa_connections = []\<rparr> later r c mem' = ([], mem')"
proof -
  let ?by = "dc_type c = ProcessNameContains"
  define hits where "hits = filter (process_hit lower ?by (lower (dc_value c))) (oa_processes obs)"
  define shown where "shown = (if ?by then process_text else command_text)"
  have ch: "condition_hits lower (dr_id r) c obs' t mem'' =
      new_hits t (process_key lower (dr_id r)) shown process_target (filter (process_hit lower ?by (lower (dc_value c))) (oa_processes obs')) mem''"
    for obs' t mem''
    using assms(1) by (auto simp: condition_hits_def shown_def Let_def)
  define mem' where "mem' = snd (new_hits now (process_key lower (dr_id r)) shown process_target hits mem)"
  have hit: "process_hit lower ?by (lower (dc_value c)) p"
    using assms(1,6) by (auto simp: process_satisfies_def process_hit_def)
  have "length hits \<le> length (oa_processes obs)" by (simp add: hits_def)
  with assms(7) have "length mem + length hits \<le> CAPACITY" by linarith
  from new_hits_room [OF this, of now "process_key lower (dr_id r)" shown process_target "process_key lower (dr_id r) p"]
  have known: "map_of mem' (process_key lower (dr_id r) p) = Some now"
    using assms(5,8) hit by (auto simp: mem'_def hits_def remembered_fresh_def)
  have "snd (observed_match lower (dr_id r) c obs now mem) = mem'"
    by (simp add: observed_match_def ch mem'_def hits_def split: prod.split list.split)
  then have "evaluate_condition lower ctx obs now r c mem = ([match_of r found], mem')"
    using assms(2,4) by (auto simp: evaluate_condition_def split: prod.split)
  moreover have "evaluate_condition lower ctx' \<lparr>oa_processes = [p], oa_connections = []\<rparr> later r c mem' = ([], mem')"
    using assms(4,9,10) hit known by (simp add: evaluate_condition_def observed_match_def ch report_def)
  ultimately show ?thesis using assms(3) by (auto simp: match_of_def)
qed

section \<open>At concrete inputs\<close>

definition miner_condition :: detection_condition where
  "miner_condition = \<lparr>dc_type = ProcessNameContains, dc_value = ''mine''\<rparr>"

definition miner_rule :: detection_rule where
  "miner_rule = \<lparr>dr_id = ''r1'', dr_name = ''n'', dr_description = [], dr_severity = SevHigh, dr_conditions = [miner_condition],
     dr_actions = [KillProcessAction], dr_enabled = True, dr_created_at = 0, dr_last_match = None, dr_match_count = 0\<rparr>"

definition miner :: "u32 \<Rightarrow> process_info" where
  "miner pid = \<lparr>pi_name = ''miner'', pi_pid = pid, pi_command_line = []\<rparr>"

definition no_threat :: threat_context where
  "no_threat = \<lparr>suspicious_processes = [], network_alerts = [], fim_alerts = []\<rparr>"

definition one_miner :: observed_activity where
  "one_miner = \<lparr>oa_processes = [miner 7], oa_connections = []\<rparr>"

definition dry_run :: "unit pipeline" where
  "dry_run = \<lparr>pp_perform = (\<lambda>_ w. (None, w)),
     pp_run = \<lparr>rp_parse_ip = (\<lambda>_. False), rp_absolute = (\<lambda>_. True), rp_debug = (\<lambda>_. []), rp_name = [], rp_audit = True,
       rp_delivery = \<lparr>dl_notifications = False, dl_siem = None\<rparr>, rp_simulate = True\<rparr>,
     pp_now = 0, pp_simulate = True, pp_gui = False\<rparr>"

definition miner_found :: rule_match where
  "miner_found = match_of miner_rule (process_text (miner 7), [TProcess ''miner'' 7])"

lemma miner_satisfies: "process_hit (\<lambda>s. s) True ''mine'' (miner pid)"
  by (simp add: process_hit_def miner_def)

lemma miner_not_blank: "trim ''mine'' \<noteq> []"
  by code_simp

lemma miner_evaluated:
  "fst (evaluate_detection_rules (\<lambda>s. s) no_threat one_miner 0 [miner_rule] []) = [miner_found]"
  using miner_satisfies [of 7] miner_not_blank
  by (simp add: miner_rule_def miner_condition_def one_miner_def no_threat_def evaluate_condition_def
      flagged_match_def observed_match_def condition_hits_def report_def others_text_def CAPACITY_def
      miner_found_def process_target_def miner_def split: prod.split)

lemma miner_responses: "KillProcess ''miner'' 7 \<in> set (responses_of [miner_rule] miner_found)"
  by (simp add: responses_of_def miner_found_def match_of_def resolve_rule_actions_def set_push_new actions_for_def
      set_map_filter miner_rule_def)

lemma miner_pass:
  "\<exists>logs mem' st'. run_threat_pipeline dry_run (\<lambda>s. s) (\<lambda>_. None) [miner_rule] [] no_threat one_miner 0 []
     \<lparr>ps_offences = [], ps_world = (), ps_events = []\<rparr> = Some ([miner_found], logs, mem', st')"
proof -
  obtain st' where "run_rule_responses dry_run [miner_rule] [miner_found] \<lparr>ps_offences = [], ps_world = (), ps_events = []\<rparr> = Some st'"
    using simulated_rules [of dry_run "[miner_rule]" "[miner_found]"] by (auto simp: dry_run_def)
  moreover obtain mem' where "evaluate_detection_rules (\<lambda>s. s) no_threat one_miner 0 [miner_rule] [] = ([miner_found], mem')"
    using miner_evaluated by (metis prod.collapse)
  ultimately show ?thesis by (simp add: run_threat_pipeline_def ai_classify_matches_def)
qed

theorem rule_responses_hit_what_matched_witness:
  "acts_on (KillProcess ''miner'' 7) (satisfies (\<lambda>s. s) no_threat one_miner miner_condition)"
  using miner_pass rule_responses_hit_what_matched [OF _ _ miner_responses, where ms = "[miner_found]"]
  by (fastforce simp: miner_rule_def)

theorem simulated_pass_is_harmless_witness:
  "\<exists>ms logs mem' st'. run_threat_pipeline dry_run (\<lambda>s. s) (\<lambda>_. None) [miner_rule] [] no_threat one_miner 0 []
     \<lparr>ps_offences = [], ps_world = (), ps_events = []\<rparr> = Some (ms, logs, mem', st') \<and> ps_offences st' = []"
  using simulated_pass_is_harmless [of dry_run "\<lambda>s. s" "\<lambda>_. None" "[miner_rule]" "[]" no_threat one_miner 0 "[]"
      "\<lparr>ps_offences = [], ps_world = (), ps_events = []\<rparr>"]
  by (auto simp: dry_run_def)

text \<open>An engine flags one miner; the other one, observed in the same pass, is not reported an hour later.\<close>

definition flagged_miner :: threat_context where
  "flagged_miner = no_threat\<lparr>suspicious_processes := [miner 3]\<rparr>"

theorem flagged_hides_observed_witness:
  "\<exists>mem'. evaluate_condition (\<lambda>s. s) flagged_miner one_miner 0 miner_rule miner_condition []
       = ([match_of miner_rule (process_text (miner 3), [TProcess ''miner'' 3])], mem')
     \<and> evaluate_condition (\<lambda>s. s) no_threat one_miner (60 * 60 * 1000000000) miner_rule miner_condition mem' = ([], mem')"
proof -
  have "flagged_match (\<lambda>s. s) miner_condition flagged_miner = Some (process_text (miner 3), [TProcess ''miner'' 3])"
    using miner_satisfies [of 3]
    by (simp add: flagged_match_def miner_condition_def flagged_miner_def process_target_def) (simp add: miner_def)
  from flagged_hides_observed [OF _ this, of "miner 7" one_miner "[]" miner_rule "60 * 60 * 1000000000" 0 no_threat]
  show ?thesis
    using miner_not_blank
    by (simp add: miner_condition_def process_target_def miner_def one_miner_def process_satisfies_def CAPACITY_def
        still_fresh_def REMINDER_def flagged_match_def no_threat_def) blast
qed

section \<open>Rules in the database\<close>

text \<open>What the texts of a rule have to promise: what was written is read back.\<close>

definition text_reads_back :: "rule_text \<Rightarrow> detection_rule \<Rightarrow> bool" where
  "text_reads_back rt r \<longleftrightarrow>
     Option.bind (rt_write_conditions rt (dr_conditions r)) (rt_read_conditions rt) = Some (dr_conditions r) \<and>
     Option.bind (rt_write_actions rt (dr_actions r)) (rt_read_actions rt) = Some (dr_actions r) \<and>
     rt_read_date rt (rt_write_date rt (dr_created_at r)) = Some (dr_created_at r) \<and>
     pred_option (\<lambda>d. rt_read_date rt (rt_write_date rt d) = Some d) (dr_last_match r)"

lemma stored_severity_roundtrip:
  assumes "lower (severity_str s) = severity_str s"
  shows "stored_severity lower (severity_str s) = s"
  using assms by (cases s) (simp_all add: stored_severity_def severity_str_def unwrap_or_def)

lemma stored_rule_roundtrip_gen:
  fixes r :: detection_rule
  assumes "text_reads_back rt r" and "lower (severity_str (dr_severity r)) = severity_str (dr_severity r)"
  shows "stored_rule_to_single_dto rt lower now (rule_to_stored rt r synced)
    = r\<lparr>dr_match_count := min (dr_match_count r) (2 ^ 31 - 1)\<rparr>"
  using assms
  by (cases "dr_last_match r")
     (auto simp: stored_rule_to_single_dto_def rule_to_stored_def text_reads_back_def Let_def stored_severity_roundtrip
       unwrap_or_def bind_eq_Some_conv intro!: detection_rule.equality)

text \<open>A detection rule written to the database and read back is the rule, whatever the time it is
  read at, except that a count of matches above that of a signed integer is cut to it; a stored
  rule whose conditions or actions cannot be read is disabled.\<close>

lemma stored_rule_roundtrip:
  fixes r :: detection_rule
  assumes "text_reads_back rt r" and "lower (severity_str (dr_severity r)) = severity_str (dr_severity r)"
  shows "stored_rule_to_single_dto rt lower now (rule_to_stored rt r synced)
      = r\<lparr>dr_match_count := min (dr_match_count r) (2 ^ 31 - 1)\<rparr>
    \<and> (rt_read_conditions rt (sd_conditions s) = None \<or> rt_read_actions rt (sd_actions s) = None
       \<longleftrightarrow> dr_enabled (stored_rule_to_single_dto rt lower now (s\<lparr>sd_enabled := True\<rparr>)) = False)"
  using stored_rule_roundtrip_gen [where r = r and lower = lower, OF assms] by (auto simp: stored_rule_to_single_dto_def Let_def)

text \<open>A text that holds the miner rule alone: an empty list is written as nothing.\<close>

definition miner_text :: rule_text where
  "miner_text = \<lparr>rt_read_conditions = (\<lambda>t. if t = ''c'' then Some [miner_condition] else None),
     rt_read_actions = (\<lambda>t. if t = ''a'' then Some [KillProcessAction] else None), rt_read_date = (\<lambda>t. Some (int (length t))),
     rt_write_conditions = (\<lambda>_. Some ''c''), rt_write_actions = (\<lambda>_. Some ''a''),
     rt_write_date = (\<lambda>d. replicate (nat d) CHR ''x'')\<rparr>"

lemma stored_rule_roundtrip_witness:
  "stored_rule_to_single_dto miner_text (\<lambda>s. s) 5 (rule_to_stored miner_text miner_rule True) = miner_rule"
  using stored_rule_roundtrip [of miner_text miner_rule "\<lambda>s. s" 5 True]
  by (simp add: text_reads_back_def miner_text_def miner_rule_def)

end
