(* ===== verification/Sca_Rules.thy ===== *)
theory Sca_Rules imports Sigma_Compile begin

text \<open>
  The rules of compliance policies (\<open>crates/agent-scanner/src/checks/sca.rs\<close>): the OSSEC dialect of
  regular expressions, terms and contents, command lines, and the parsing of a rule.

  Regular expressions and floats are libraries: the fields of \<open>sca_env\<close>.
\<close>

section \<open>Splitting a text\<close>

text \<open>\<open>split_once\<close>, \<open>rsplit_once\<close>, \<open>split\<close> and \<open>splitn\<close> on a text that is not empty.\<close>

fun split_once_at :: "string \<Rightarrow> string \<Rightarrow> (string \<times> string) option" where
  "split_once_at sep [] = None"
| "split_once_at sep (c # cs) =
     (if prefix sep (c # cs) then Some ([], drop (length sep) (c # cs))
      else map_option (\<lambda>(a, b). (c # a, b)) (split_once_at sep cs))"

definition rsplit_once_at :: "string \<Rightarrow> string \<Rightarrow> (string \<times> string) option" where
  "rsplit_once_at sep s = map_option (\<lambda>(a, b). (rev b, rev a)) (split_once_at (rev sep) (rev s))"

lemma split_once_at_Some: "split_once_at sep s = Some (a, b) \<Longrightarrow> s = a @ sep @ b"
  by (induction s arbitrary: a b) (auto simp: prefix_def split: if_splits)

lemma split_once_at_shrinks: "split_once_at sep s = Some (a, b) \<Longrightarrow> sep \<noteq> [] \<Longrightarrow> length b < length s"
  by (drule split_once_at_Some) (cases sep, auto)

fun split_n :: "nat \<Rightarrow> string \<Rightarrow> string \<Rightarrow> string list" where
  "split_n n sep s =
     (case n of
        0 \<Rightarrow> []
      | Suc 0 \<Rightarrow> [s]
      | Suc m \<Rightarrow> (case split_once_at sep s of None \<Rightarrow> [s] | Some (a, b) \<Rightarrow> a # split_n m sep b))"

declare split_n.simps [simp del]

function split_at :: "string \<Rightarrow> string \<Rightarrow> string list" where
  "split_at sep s =
     (if sep = [] then [s]
      else case split_once_at sep s of None \<Rightarrow> [s] | Some (a, b) \<Rightarrow> a # split_at sep b)"
  by pat_completeness auto
termination
  by (relation "measure (\<lambda>(sep, s). length s)") (auto dest: split_once_at_shrinks)

declare split_at.simps [simp del]

definition strip_prefix :: "string \<Rightarrow> string \<Rightarrow> string option" where
  "strip_prefix p s = (if prefix p s then Some (drop (length p) s) else None)"

section \<open>The libraries\<close>

datatype sca_comparison = CLt | CLte | CEq | CNe | CGte | CGt

text \<open>
  \<open>sx_build case_insensitive pattern\<close>; \<open>sx_groups\<close> is \<open>captures_len\<close>; \<open>sx_capture\<close> is group 1 of the
  first match; \<open>sx_near\<close> and \<open>sx_far\<close> compare \<open>(left - right).abs()\<close> with \<open>f64::EPSILON\<close> (both fail on
  what is not a number).
\<close>

record ('re, 'num) sca_env =
  sx_build :: "bool \<Rightarrow> string \<Rightarrow> 're option"
  sx_is_match :: "'re \<Rightarrow> string \<Rightarrow> bool"
  sx_groups :: "'re \<Rightarrow> nat"
  sx_capture :: "'re \<Rightarrow> string \<Rightarrow> string option"
  sx_escape :: "string \<Rightarrow> string"
  sx_parse_f64 :: "string \<Rightarrow> 'num option"
  sx_lt :: "'num \<Rightarrow> 'num \<Rightarrow> bool"
  sx_le :: "'num \<Rightarrow> 'num \<Rightarrow> bool"
  sx_near :: "'num \<Rightarrow> 'num \<Rightarrow> bool"
  sx_far :: "'num \<Rightarrow> 'num \<Rightarrow> bool"

datatype sca_error =
    BadRegexType string
  | InvalidPattern string
  | NoCompare string
  | NoOperator string
  | ComparesNoNumber string
  | NoGroup string
  | UnsupportedComparison string
  | NoRuleType string
  | UnsupportedRule string
  | NamesNothing string
  | BadScaCondition string
  | NoScaRule
  | NoTitle
  | UnknownSeverity string
  | UnknownCategory string

section \<open>Regular expressions\<close>

datatype regex_type = OsRegex | Pcre2

definition parse_regex_type :: "string \<Rightarrow> sca_error + regex_type" where
  "parse_regex_type txt =
     (let t = to_ascii_lowercase (trim txt) in
      if t = ''osregex'' \<or> t = ''os_regex'' then Inr OsRegex
      else if t = ''pcre2'' \<or> t = ''pcre'' then Inr Pcre2
      else Inl (BadRegexType t))"

definition backslash :: string where "backslash = [CHR 0x5C]"
definition apostrophe :: string where "apostrophe = [CHR 0x27]"
definition quotation :: string where "quotation = [CHR 0x22]"

definition punctuation_class :: string where
  "punctuation_class =
     ''[()*+,'' @ backslash @ ''-.:;<=>?'' @ backslash @ ''['' @ backslash @ '']!'' @ quotation @ apostrophe @ ''#$%&|{}]''"

definition class_of :: "(string \<Rightarrow> string) \<Rightarrow> string \<Rightarrow> string" where
  "class_of escape c =
     (case map_of
        [(''w'', ''[A-Za-z0-9@_-]''), (''W'', ''[^A-Za-z0-9@_-]''), (''d'', ''[0-9]''), (''D'', ''[^0-9]''),
         (''s'', backslash @ ''s''), (''S'', backslash @ ''S''), (''p'', punctuation_class),
         (''t'', backslash @ ''t''), (''.'', ''.'')] c of
        Some class \<Rightarrow> class
      | None \<Rightarrow> escape c)"

text \<open>The flag: what was just written can take \<open>+\<close> or \<open>*\<close>.\<close>

fun osregex_loop :: "(string \<Rightarrow> string) \<Rightarrow> bool \<Rightarrow> string list \<Rightarrow> string" where
  "osregex_loop escape repeatable [] = []"
| "osregex_loop escape repeatable (c # rest) =
     (if c = backslash then
        (case rest of
           [] \<Rightarrow> backslash @ backslash
         | d # rest' \<Rightarrow> class_of escape d @ osregex_loop escape True rest')
      else if c \<in> {''^'', ''$'', ''|'', ''(''} then c @ osregex_loop escape False rest
      else if c = '')'' then c @ osregex_loop escape True rest
      else if c \<in> {''+'', ''*''} \<and> repeatable then c @ osregex_loop escape False rest
      else escape c @ osregex_loop escape False rest)"

definition osregex_to_regex :: "(string \<Rightarrow> string) \<Rightarrow> string \<Rightarrow> string" where
  "osregex_to_regex escape pat = osregex_loop escape False (chars pat)"

definition sca_compile :: "('re, 'num) sca_env \<Rightarrow> string \<Rightarrow> regex_type \<Rightarrow> sca_error + 're" where
  "sca_compile env pat kind =
     (let translated = (case kind of OsRegex \<Rightarrow> osregex_to_regex (sx_escape env) pat | Pcre2 \<Rightarrow> pat)
      in case sx_build env (kind = OsRegex) translated of
           None \<Rightarrow> Inl (InvalidPattern pat)
         | Some re \<Rightarrow> Inr re)"

section \<open>Terms\<close>

definition parse_comparison :: "string \<Rightarrow> sca_comparison option" where
  "parse_comparison operator =
     map_of [(''<'', CLt), (''<='', CLte), (''=='', CEq), (''='', CEq), (''!='', CNe), (''>='', CGte), (''>'', CGt)]
       operator"

definition comparison_holds :: "('re, 'num) sca_env \<Rightarrow> sca_comparison \<Rightarrow> 'num \<Rightarrow> 'num \<Rightarrow> bool" where
  "comparison_holds env c left right =
     (case c of
        CLt \<Rightarrow> sx_lt env left right
      | CLte \<Rightarrow> sx_le env left right
      | CEq \<Rightarrow> sx_near env left right
      | CNe \<Rightarrow> sx_far env left right
      | CGte \<Rightarrow> sx_le env right left
      | CGt \<Rightarrow> sx_lt env right left)"

datatype ('re, 'num) sca_pattern =
    PEquals string
  | PMatches 're
  | PNumber 're sca_comparison 'num

definition parse_number_pattern ::
  "('re, 'num) sca_env \<Rightarrow> string \<Rightarrow> string \<Rightarrow> regex_type \<Rightarrow> sca_error + ('re, 'num) sca_pattern" where
  "parse_number_pattern env txt rest kind =
     (case rsplit_once_at '' compare '' rest of
        None \<Rightarrow> Inl (NoCompare txt)
      | Some (pat, comparison) \<Rightarrow>
          (let parts = words comparison in
           case Option.bind (case parts of [] \<Rightarrow> None | p # _ \<Rightarrow> Some p) parse_comparison of
             None \<Rightarrow> Inl (NoOperator txt)
           | Some operator \<Rightarrow>
               (case Option.bind (case parts of _ # v # _ \<Rightarrow> Some v | _ \<Rightarrow> None) (sx_parse_f64 env) of
                  None \<Rightarrow> Inl (ComparesNoNumber txt)
                | Some value \<Rightarrow>
                    (case sca_compile env (trim pat) kind of
                       Inl e \<Rightarrow> Inl e
                     | Inr regex \<Rightarrow>
                         if sx_groups env regex < 2 then Inl (NoGroup txt)
                         else Inr (PNumber regex operator value)))))"

definition parse_pattern :: "('re, 'num) sca_env \<Rightarrow> string \<Rightarrow> regex_type \<Rightarrow> sca_error + ('re, 'num) sca_pattern" where
  "parse_pattern env raw kind =
     (let txt = trim raw in
      case strip_prefix ''r:'' txt of
        Some pat \<Rightarrow> map_sum id PMatches (sca_compile env pat kind)
      | None \<Rightarrow>
          (case strip_prefix ''n:'' txt of
             Some rest \<Rightarrow> parse_number_pattern env txt rest kind
           | None \<Rightarrow>
               (case find (\<lambda>p. prefix p txt) [''<:'', ''>:''] of
                  Some p \<Rightarrow> Inl (UnsupportedComparison p)
                | None \<Rightarrow> Inr (PEquals (unwrap_or (strip_prefix ''=:'' txt) txt)))))"

definition pattern_matches :: "('re, 'num) sca_env \<Rightarrow> ('re, 'num) sca_pattern \<Rightarrow> string \<Rightarrow> bool" where
  "pattern_matches env p line =
     (case p of
        PEquals txt \<Rightarrow> to_ascii_lowercase (trim line) = to_ascii_lowercase txt
      | PMatches regex \<Rightarrow> sx_is_match env regex line
      | PNumber regex comparison value \<Rightarrow>
          (case Option.bind (sx_capture env regex line) (\<lambda>t. sx_parse_f64 env (trim t)) of
             None \<Rightarrow> False
           | Some number \<Rightarrow> comparison_holds env comparison number value))"

section \<open>Contents\<close>

text \<open>Terms one line must all satisfy, each with whether it is inverted.\<close>

type_synonym ('re, 'num) content = "(bool \<times> ('re, 'num) sca_pattern) list"

definition parse_term :: "('re, 'num) sca_env \<Rightarrow> regex_type \<Rightarrow> string \<Rightarrow> sca_error + (bool \<times> ('re, 'num) sca_pattern)" where
  "parse_term env kind raw =
     (let term' = trim raw in
      case strip_prefix ''!'' term' of
        Some inverted \<Rightarrow> map_sum id (\<lambda>p. (True, p)) (parse_pattern env inverted kind)
      | None \<Rightarrow> map_sum id (\<lambda>p. (False, p)) (parse_pattern env term' kind))"

definition parse_content :: "('re, 'num) sca_env \<Rightarrow> regex_type \<Rightarrow> string \<Rightarrow> sca_error + ('re, 'num) content" where
  "parse_content env kind txt = try_map (parse_term env kind) (split_at '' && '' txt)"

definition line_matches :: "('re, 'num) sca_env \<Rightarrow> ('re, 'num) content \<Rightarrow> string \<Rightarrow> bool" where
  "line_matches env terms line \<longleftrightarrow> list_all (\<lambda>(inverted, p). pattern_matches env p line \<noteq> inverted) terms"

definition content_find :: "('re, 'num) sca_env \<Rightarrow> ('re, 'num) content \<Rightarrow> string \<Rightarrow> string option" where
  "content_find env terms txt = find (line_matches env terms) (lines txt)"

section \<open>Command lines\<close>

text \<open>The quote that is open, whether a word started, the word so far.\<close>

fun split_command_loop :: "string option \<Rightarrow> bool \<Rightarrow> string \<Rightarrow> string list \<Rightarrow> string list" where
  "split_command_loop quote started word [] = (if started \<or> word \<noteq> [] then [word] else [])"
| "split_command_loop quote started word (c # rest) =
     (if quote = Some c then split_command_loop None started word rest
      else if quote = None \<and> c \<in> {quotation, apostrophe} then split_command_loop (Some c) True word rest
      else if quote \<in> {None, Some quotation} \<and> c = backslash then
        (case rest of
           [] \<Rightarrow> split_command_loop quote started word []
         | next' # rest' \<Rightarrow> split_command_loop quote True (word @ next') rest')
      else if quote = None \<and> c \<in> set white_space then
        (if started \<or> word \<noteq> [] then word # split_command_loop None False [] rest
         else split_command_loop None False [] rest)
      else split_command_loop quote True (word @ c) rest)"

definition split_command :: "string \<Rightarrow> string list" where
  "split_command line = split_command_loop None False [] (chars line)"

definition comma_list :: "string \<Rightarrow> string list" where
  "comma_list txt = filter (\<lambda>item. item \<noteq> []) (map trim (split_on (CHR '','') txt))"

section \<open>Rules\<close>

datatype ('re, 'num) sca_target =
    TgFile "string list" "('re, 'num) content option"
  | TgDirectory "string list" "('re, 'num) content option" "('re, 'num) content option"
  | TgProcess "('re, 'num) sca_pattern"
  | TgCommand "string list" "('re, 'num) content option"
  | TgRegistry string "string option" "('re, 'num) content option"

record ('re, 'num) sca_rule =
  ru_source :: string
  ru_negated :: bool
  ru_target :: "('re, 'num) sca_target"

text \<open>The part number \<open>i\<close> of a rule, where it has one.\<close>

definition part :: "string list \<Rightarrow> nat \<Rightarrow> string option" where
  "part ps i = (if i < length ps then Some (ps ! i) else None)"

definition optional_content ::
  "('re, 'num) sca_env \<Rightarrow> regex_type \<Rightarrow> string option \<Rightarrow> sca_error + ('re, 'num) content option" where
  "optional_content env kind txt =
     (case txt of None \<Rightarrow> Inr None | Some t \<Rightarrow> map_sum id Some (parse_content env kind t))"

definition parse_target ::
  "('re, 'num) sca_env \<Rightarrow> regex_type \<Rightarrow> string \<Rightarrow> string \<Rightarrow> sca_error + ('re, 'num) sca_target" where
  "parse_target env rx kind rest =
     (let two = split_n 2 '' -> '' rest; three = split_n 3 '' -> '' rest; first = unwrap_or (part two 0) []
      in if kind = ''f'' then
           map_sum id (TgFile (comma_list first)) (optional_content env rx (part two 1))
         else if kind = ''d'' then
           (case optional_content env rx (part three 1) of
              Inl e \<Rightarrow> Inl e
            | Inr names \<Rightarrow>
                map_sum id (TgDirectory (comma_list first) names) (optional_content env rx (part three 2)))
         else if kind = ''p'' then map_sum id TgProcess (parse_pattern env rest rx)
         else if kind = ''c'' then
           map_sum id (TgCommand (split_command first)) (optional_content env rx (part two 1))
         else if kind = ''r'' then
           map_sum id (TgRegistry (trim first) (map_option trim (part three 1))) (optional_content env rx (part three 2))
         else Inl (UnsupportedRule kind))"

definition names_nothing :: "string \<Rightarrow> ('re, 'num) sca_target \<Rightarrow> bool" where
  "names_nothing rest t \<longleftrightarrow>
     (case t of
        TgFile paths _ \<Rightarrow> paths = []
      | TgDirectory paths _ _ \<Rightarrow> paths = []
      | TgCommand command _ \<Rightarrow> command = []
      | TgRegistry key _ _ \<Rightarrow> key = []
      | TgProcess _ \<Rightarrow> trim rest = [])"

definition parse_sca_rule :: "('re, 'num) sca_env \<Rightarrow> regex_type \<Rightarrow> string \<Rightarrow> sca_error + ('re, 'num) sca_rule" where
  "parse_sca_rule env rx source =
     (let (negated, txt) = (case strip_prefix ''not '' (trim source) of
                              Some rest \<Rightarrow> (True, trim_start rest)
                            | None \<Rightarrow> (False, trim source))
      in case split_once (CHR '':'') txt of
           None \<Rightarrow> Inl (NoRuleType source)
         | Some (kind, rest) \<Rightarrow>
             (case parse_target env rx kind rest of
                Inl e \<Rightarrow> Inl e
              | Inr t \<Rightarrow>
                  if names_nothing rest t then Inl (NamesNothing source)
                  else Inr \<lparr>ru_source = trim source, ru_negated = negated, ru_target = t\<rparr>))"

end
