(* ===== verification/Sca_Eval.thy ===== *)
theory Sca_Eval imports Sca_Rules "HOL-Library.List_Lexorder" "HOL-Library.Char_ord" begin

text \<open>
  The evaluation of compliance policies (\<open>crates/agent-scanner/src/checks/sca.rs\<close>): the value of a
  rule on a host, the outcome of a check, and its output.

  A host answers as the trait \<open>Host\<close> does; during one evaluation it does not change.
\<close>

section \<open>The host\<close>

datatype unavailable = Missing | Other string

record sca_host =
  ho_read_file :: "string \<Rightarrow> unavailable + string"
  ho_file_exists :: "string \<Rightarrow> bool"
  ho_directory_exists :: "string \<Rightarrow> bool"
  ho_list_directory :: "string \<Rightarrow> unavailable + string list"
  ho_processes :: "string list"
  ho_run :: "string list \<Rightarrow> unavailable + string"
  ho_registry_key_exists :: "string \<Rightarrow> unavailable + bool"
  ho_registry_values :: "string \<Rightarrow> unavailable + (string \<times> string) list"

datatype truth = TTrue | TFalse | TUnknown string

definition truth_from :: "bool \<Rightarrow> truth" where
  "truth_from value = (if value then TTrue else TFalse)"

definition inverted :: "truth \<Rightarrow> truth" where
  "inverted t = (case t of TTrue \<Rightarrow> TFalse | TFalse \<Rightarrow> TTrue | TUnknown why \<Rightarrow> TUnknown why)"

section \<open>Files and directories\<close>

definition MAX_DIRECTORY_FILES :: nat where "MAX_DIRECTORY_FILES = 200"

text \<open>The loop over the paths, with why the value is unknown so far and whether one was read.\<close>

fun files_loop ::
  "('re, 'num) sca_env \<Rightarrow> sca_host \<Rightarrow> ('re, 'num) content \<Rightarrow> string option \<Rightarrow> bool \<Rightarrow> string list \<Rightarrow> truth" where
  "files_loop env host content unknown read_any [] =
     (case unknown of
        None \<Rightarrow> TFalse
      | Some why \<Rightarrow> if read_any then TFalse else TUnknown why)"
| "files_loop env host content unknown read_any (path # paths) =
     (case ho_read_file host path of
        Inr txt \<Rightarrow>
          if content_find env content txt \<noteq> None then TTrue
          else files_loop env host content unknown True paths
      | Inl Missing \<Rightarrow>
          files_loop env host content (Some (unwrap_or unknown (path @ '' does not exist''))) read_any paths
      | Inl (Other why) \<Rightarrow>
          files_loop env host content (Some (path @ '' cannot be read: '' @ why)) read_any paths)"

definition evaluate_files :: "('re, 'num) sca_env \<Rightarrow> sca_host \<Rightarrow> string list \<Rightarrow> ('re, 'num) content \<Rightarrow> truth" where
  "evaluate_files env host paths content = files_loop env host content None False paths"

text \<open>Whether one of the entries taken satisfies the rule.\<close>

definition entries_match ::
  "('re, 'num) sca_env \<Rightarrow> sca_host \<Rightarrow> ('re, 'num) content \<Rightarrow> ('re, 'num) content option \<Rightarrow> string \<Rightarrow> string list \<Rightarrow> bool" where
  "entries_match env host names content path entries =
     list_ex (\<lambda>name. case content of
         None \<Rightarrow> True
       | Some c \<Rightarrow>
           (case ho_read_file host (trim_end_char (CHR ''/'') path @ ''/'' @ name) of
              Inl _ \<Rightarrow> False
            | Inr txt \<Rightarrow> content_find env c txt \<noteq> None))
       (take MAX_DIRECTORY_FILES (filter (line_matches env names) entries))"

fun directories_loop ::
  "('re, 'num) sca_env \<Rightarrow> sca_host \<Rightarrow> ('re, 'num) content \<Rightarrow> ('re, 'num) content option \<Rightarrow> string option \<Rightarrow> bool \<Rightarrow>
     string list \<Rightarrow> truth" where
  "directories_loop env host names content unknown listed_any [] =
     (case unknown of
        None \<Rightarrow> TFalse
      | Some why \<Rightarrow> if listed_any then TFalse else TUnknown why)"
| "directories_loop env host names content unknown listed_any (path # paths) =
     (case ho_list_directory host path of
        Inr entries \<Rightarrow>
          if entries_match env host names content path entries then TTrue
          else directories_loop env host names content unknown True paths
      | Inl Missing \<Rightarrow>
          directories_loop env host names content (Some (unwrap_or unknown (path @ '' does not exist''))) listed_any paths
      | Inl (Other why) \<Rightarrow>
          directories_loop env host names content (Some (path @ '' cannot be listed: '' @ why)) listed_any paths)"

definition evaluate_directories ::
  "('re, 'num) sca_env \<Rightarrow> sca_host \<Rightarrow> string list \<Rightarrow> ('re, 'num) content \<Rightarrow> ('re, 'num) content option \<Rightarrow> truth" where
  "evaluate_directories env host paths names content = directories_loop env host names content None False paths"

section \<open>The registry\<close>

definition evaluate_registry ::
  "('re, 'num) sca_env \<Rightarrow> sca_host \<Rightarrow> string \<Rightarrow> string option \<Rightarrow> ('re, 'num) content option \<Rightarrow> truth" where
  "evaluate_registry env host key value content =
     (case value of
        None \<Rightarrow>
          (case ho_registry_key_exists host key of
             Inr exists \<Rightarrow> truth_from exists
           | Inl Missing \<Rightarrow> TFalse
           | Inl (Other why) \<Rightarrow> TUnknown why)
      | Some v \<Rightarrow>
          (case ho_registry_values host key of
             Inl Missing \<Rightarrow> TFalse
           | Inl (Other why) \<Rightarrow> TUnknown why
           | Inr vals \<Rightarrow>
               (case (find (\<lambda>(name, _). to_ascii_lowercase name = to_ascii_lowercase v) vals, content) of
                  (None, _) \<Rightarrow> TFalse
                | (Some _, None) \<Rightarrow> TTrue
                | (Some (_, data), Some c) \<Rightarrow> truth_from (line_matches env c data))))"

section \<open>A rule\<close>

definition command_name :: "string list \<Rightarrow> string" where
  "command_name command = (case command of [] \<Rightarrow> [] | word # _ \<Rightarrow> word)"

definition evaluate_target :: "('re, 'num) sca_env \<Rightarrow> sca_host \<Rightarrow> ('re, 'num) sca_target \<Rightarrow> truth" where
  "evaluate_target env host target =
     (case target of
        TgFile paths content \<Rightarrow>
          (case content of
             None \<Rightarrow> truth_from (list_ex (ho_file_exists host) paths)
           | Some c \<Rightarrow> evaluate_files env host paths c)
      | TgDirectory paths names content \<Rightarrow>
          (case names of
             None \<Rightarrow> truth_from (list_ex (ho_directory_exists host) paths)
           | Some n \<Rightarrow> evaluate_directories env host paths n content)
      | TgProcess p \<Rightarrow> truth_from (list_ex (pattern_matches env p) (ho_processes host))
      | TgCommand command content \<Rightarrow>
          (case ho_run host command of
             Inr output \<Rightarrow>
               (case content of None \<Rightarrow> TTrue | Some c \<Rightarrow> truth_from (content_find env c output \<noteq> None))
           | Inl Missing \<Rightarrow> TUnknown (''command '' @ apostrophe @ command_name command @ apostrophe @ '' is not installed'')
           | Inl (Other why) \<Rightarrow>
               TUnknown (''command '' @ apostrophe @ command_name command @ apostrophe @ '' failed: '' @ why))
      | TgRegistry key value content \<Rightarrow> evaluate_registry env host key value content)"

definition evaluate_sca_rule :: "('re, 'num) sca_env \<Rightarrow> sca_host \<Rightarrow> ('re, 'num) sca_rule \<Rightarrow> truth" where
  "evaluate_sca_rule env host r =
     (let t = evaluate_target env host (ru_target r) in if ru_negated r then inverted t else t)"

section \<open>The outcome of a check\<close>

datatype sca_condition = CAll | CAny | CNone

definition parse_sca_condition :: "string \<Rightarrow> sca_error + sca_condition" where
  "parse_sca_condition txt =
     (let t = to_ascii_lowercase (trim txt) in
      if t = ''all'' then Inr CAll
      else if t = ''any'' then Inr CAny
      else if t = ''none'' then Inr CNone
      else Inl (BadScaCondition t))"

definition condition_str :: "sca_condition \<Rightarrow> string" where
  "condition_str c = (case c of CAll \<Rightarrow> ''all'' | CAny \<Rightarrow> ''any'' | CNone \<Rightarrow> ''none'')"

datatype sca_outcome = OPassed | OFailed | ONotApplicable string

fun first_unknown :: "truth list \<Rightarrow> string option" where
  "first_unknown [] = None"
| "first_unknown (t # ts) = (case t of TUnknown why \<Rightarrow> Some why | _ \<Rightarrow> first_unknown ts)"

definition combine :: "sca_condition \<Rightarrow> truth list \<Rightarrow> sca_outcome" where
  "combine condition truths =
     (let any_true = TTrue \<in> set truths; any_false = TFalse \<in> set truths;
          decided = (if condition = CAll \<and> any_false then Some OFailed
                     else if condition = CAny \<and> any_true then Some OPassed
                     else if condition = CNone \<and> any_true then Some OFailed
                     else None)
      in case (decided, first_unknown truths) of
           (Some outcome, _) \<Rightarrow> outcome
         | (None, Some why) \<Rightarrow> ONotApplicable why
         | (None, None) \<Rightarrow> (case condition of CAll \<Rightarrow> OPassed | CNone \<Rightarrow> OPassed | CAny \<Rightarrow> OFailed))"

definition evaluate_check ::
  "('re, 'num) sca_env \<Rightarrow> sca_host \<Rightarrow> sca_condition \<Rightarrow> ('re, 'num) sca_rule list \<Rightarrow> sca_outcome \<times> truth list" where
  "evaluate_check env host condition rules =
     (let truths = map (evaluate_sca_rule env host) rules in (combine condition truths, truths))"

section \<open>The output of a check\<close>

text \<open>\<open>CheckOutput\<close> (\<open>check.rs\<close>); the evidence is the condition and, per rule, what became of it.\<close>

record check_output =
  co_passed :: bool
  co_message :: string
  co_evidence :: "string \<times> (string \<times> string) list"
  co_metadata :: "string str_map"

definition NOT_APPLICABLE :: string where "NOT_APPLICABLE = ''not_applicable''"

definition output_pass :: "string \<Rightarrow> string \<times> (string \<times> string) list \<Rightarrow> check_output" where
  "output_pass message data = \<lparr>co_passed = True, co_message = message, co_evidence = data, co_metadata = []\<rparr>"

definition output_fail :: "string \<Rightarrow> string \<times> (string \<times> string) list \<Rightarrow> check_output" where
  "output_fail message data = \<lparr>co_passed = False, co_message = message, co_evidence = data, co_metadata = []\<rparr>"

definition with_metadata :: "string \<Rightarrow> string \<Rightarrow> check_output \<Rightarrow> check_output" where
  "with_metadata key value out = out\<lparr>co_metadata := AList.update key value (co_metadata out)\<rparr>"

definition not_applicable :: "string \<Rightarrow> string \<times> (string \<times> string) list \<Rightarrow> check_output" where
  "not_applicable message data = with_metadata NOT_APPLICABLE ''true'' (output_fail message data)"

definition is_not_applicable :: "check_output \<Rightarrow> bool" where
  "is_not_applicable out \<longleftrightarrow> map_of (co_metadata out) NOT_APPLICABLE \<noteq> None"

definition SCA_EVIDENCE_CHARS :: nat where "SCA_EVIDENCE_CHARS = 300"

definition sca_excerpt :: "string \<Rightarrow> string" where
  "sca_excerpt txt =
     (take_chars SCA_EVIDENCE_CHARS txt
      @ (if SCA_EVIDENCE_CHARS < char_count txt then [CHR 0xE2, CHR 0x80, CHR 0xA6] else []))"

definition truth_text :: "truth \<Rightarrow> string" where
  "truth_text t = (case t of TTrue \<Rightarrow> ''true'' | TFalse \<Rightarrow> ''false'' | TUnknown why \<Rightarrow> ''unknown: '' @ sca_excerpt why)"

text \<open>The first rule that makes the check fail.\<close>

definition blamed :: "sca_condition \<Rightarrow> truth \<Rightarrow> bool" where
  "blamed condition t = (case condition of CAll \<Rightarrow> t = TFalse | CAny \<Rightarrow> t \<noteq> TTrue | CNone \<Rightarrow> t = TTrue)"

definition failing_rule :: "sca_condition \<Rightarrow> (('re, 'num) sca_rule \<times> truth) list \<Rightarrow> string" where
  "failing_rule condition evaluated =
     (case find (\<lambda>(_, t). blamed condition t) evaluated of
        None \<Rightarrow> []
      | Some (r, _) \<Rightarrow> sca_excerpt (ru_source r))"

definition fail_message :: "sca_condition \<Rightarrow> string \<Rightarrow> string" where
  "fail_message condition failing =
     (case condition of
        CNone \<Rightarrow> ''Holds, and should not: '' @ failing
      | _ \<Rightarrow> ''Not satisfied: '' @ failing)"

definition execute_sca :: "('re, 'num) sca_env \<Rightarrow> sca_condition \<Rightarrow> ('re, 'num) sca_rule list \<Rightarrow> sca_host \<Rightarrow> check_output" where
  "execute_sca env condition rules host =
     (let (outcome, truths) = evaluate_check env host condition rules;
          evaluated = zip rules truths;
          evidence = (condition_str condition, map (\<lambda>(r, t). (sca_excerpt (ru_source r), truth_text t)) evaluated);
          output = (case outcome of
              OPassed \<Rightarrow> output_pass ''Every rule of the check is satisfied'' evidence
            | OFailed \<Rightarrow> output_fail (fail_message condition (failing_rule condition evaluated)) evidence
            | ONotApplicable why \<Rightarrow> not_applicable (''Not applicable: '' @ sca_excerpt why) evidence)
      in with_metadata ''sca'' ''true'' output)"

text \<open>
  The system the policies are evaluated on: \<open>SystemHost\<close> of
  \<open>crates/agent-scanner/src/checks/sca.rs\<close>, above the calls of the system, which are the fields of
  \<open>system_calls\<close> (\<open>sy_run\<close> is \<open>run_with_timeout\<close>, \<open>sy_lossy\<close> is \<open>String::from_utf8_lossy\<close>).
\<close>

section \<open>Calls\<close>

datatype io_error = IoNotFound | IoNotADirectory | IoOther string

record file_kind =
  fk_is_file :: bool
  fk_is_dir :: bool

record system_calls =
  sy_windows :: bool
  sy_metadata :: "string \<Rightarrow> io_error + file_kind"
  sy_read :: "string \<Rightarrow> io_error + string"
  sy_read_dir :: "string \<Rightarrow> io_error + string list"
  sy_run :: "string list \<Rightarrow> unavailable + string"
  sy_lossy :: "string \<Rightarrow> string"

definition io_unavailable :: "io_error \<Rightarrow> unavailable" where
  "io_unavailable e = (case e of IoNotFound \<Rightarrow> Missing | IoNotADirectory \<Rightarrow> Missing | IoOther why \<Rightarrow> Other why)"

definition MAX_READ_BYTES :: nat where "MAX_READ_BYTES = 4 * 1024 * 1024"

definition read_host_file :: "system_calls \<Rightarrow> string \<Rightarrow> unavailable + string" where
  "read_host_file sy path =
     (case sy_metadata sy path of
        Inl e \<Rightarrow> Inl (io_unavailable e)
      | Inr k \<Rightarrow>
          if \<not> fk_is_file k then Inl Missing
          else case sy_read sy path of
            Inl e \<Rightarrow> Inl (io_unavailable e)
          | Inr bytes \<Rightarrow> Inr (sy_lossy sy (take MAX_READ_BYTES bytes)))"

definition host_file_exists :: "system_calls \<Rightarrow> string \<Rightarrow> bool" where
  "host_file_exists sy path = (case sy_metadata sy path of Inl _ \<Rightarrow> False | Inr k \<Rightarrow> fk_is_file k)"

definition host_directory_exists :: "system_calls \<Rightarrow> string \<Rightarrow> bool" where
  "host_directory_exists sy path = (case sy_metadata sy path of Inl _ \<Rightarrow> False | Inr k \<Rightarrow> fk_is_dir k)"

definition list_host_directory :: "system_calls \<Rightarrow> string \<Rightarrow> unavailable + string list" where
  "list_host_directory sy path =
     (case sy_read_dir sy path of
        Inl e \<Rightarrow> Inl (io_unavailable e)
      | Inr entries \<Rightarrow> Inr (sort (map (sy_lossy sy) entries)))"

section \<open>Processes\<close>

definition trim_char :: "char \<Rightarrow> string \<Rightarrow> string" where
  "trim_char c s = rev (dropWhile (\<lambda>x. x = c) (rev (dropWhile (\<lambda>x. x = c) s)))"

text \<open>The name of the program, without its directory.\<close>

definition base_name :: "string \<Rightarrow> string" where
  "base_name name = rev (takeWhile (\<lambda>c. c \<noteq> CHR ''/'' \<and> c \<noteq> CHR 0x5C) (rev name))"

definition process_line_name :: "bool \<Rightarrow> string \<Rightarrow> string" where
  "process_line_name windows line =
     base_name (if windows then trim_char (CHR 0x22) (takeWhile (\<lambda>c. c \<noteq> CHR '','') line) else trim line)"

definition process_command :: "bool \<Rightarrow> string list" where
  "process_command windows = (if windows then [''tasklist'', ''/fo'', ''csv'', ''/nh''] else [''ps'', ''-axo'', ''comm=''])"

definition host_processes :: "system_calls \<Rightarrow> string list" where
  "host_processes sy =
     (case sy_run sy (process_command (sy_windows sy)) of
        Inl _ \<Rightarrow> []
      | Inr output \<Rightarrow> filter (\<lambda>name. name \<noteq> []) (map (process_line_name (sy_windows sy)) (lines output)))"

section \<open>The registry\<close>

definition hex_digit :: "char \<Rightarrow> nat option" where
  "hex_digit c =
     (if is_ascii_digit c then Some (byte c - 48)
      else if 97 \<le> byte c \<and> byte c \<le> 102 then Some (byte c - 87)
      else if 65 \<le> byte c \<and> byte c \<le> 70 then Some (byte c - 55)
      else None)"

fun hex_value :: "nat \<Rightarrow> string \<Rightarrow> nat option" where
  "hex_value acc [] = Some acc"
| "hex_value acc (c # cs) = (case hex_digit c of None \<Rightarrow> None | Some d \<Rightarrow> hex_value (acc * 16 + d) cs)"

text \<open>\<open>u64::from_str_radix(_, 16)\<close>.\<close>

definition parse_hex_u64 :: "string \<Rightarrow> nat option" where
  "parse_hex_u64 s =
     (let ds = (case s of c # cs \<Rightarrow> (if c = CHR ''+'' then cs else s) | [] \<Rightarrow> s)
      in if ds = [] then None
         else case hex_value 0 ds of None \<Rightarrow> None | Some v \<Rightarrow> if v \<le> u64_max then Some v else None)"

definition registry_data :: "string \<Rightarrow> string \<Rightarrow> string" where
  "registry_data kind data =
     (if kind \<in> {''REG_DWORD'', ''REG_QWORD''} then
        (case Option.bind (strip_prefix ''0x'' data) parse_hex_u64 of None \<Rightarrow> data | Some n \<Rightarrow> show_nat n)
      else data)"

definition reg_query_line :: "string \<Rightarrow> (string \<times> string) option" where
  "reg_query_line line =
     (case split_n 3 ''    '' (trim line) of
        name # kind # rest \<Rightarrow>
          if prefix ''REG_'' (trim kind)
          then Some (trim name, registry_data (trim kind) (case rest of [] \<Rightarrow> [] | data # _ \<Rightarrow> trim data))
          else None
      | _ \<Rightarrow> None)"

definition parse_reg_query :: "string \<Rightarrow> (string \<times> string) list" where
  "parse_reg_query output = List.map_filter reg_query_line (filter (prefix ''    '') (lines output))"

definition host_registry_values :: "system_calls \<Rightarrow> string \<Rightarrow> unavailable + (string \<times> string) list" where
  "host_registry_values sy key =
     (if \<not> sy_windows sy then Inl (Other ''no registry on this system'')
      else case sy_run sy [''reg'', ''query'', key] of
        Inl e \<Rightarrow> Inl e
      | Inr output \<Rightarrow>
          if \<not> str_contains (map (\<lambda>c. if is_ascii_lowercase c then char_of (byte c - 32) else c) output) ''HKEY_''
          then Inl Missing
          else Inr (parse_reg_query output))"

definition host_registry_key_exists :: "system_calls \<Rightarrow> string \<Rightarrow> unavailable + bool" where
  "host_registry_key_exists sy key =
     (if \<not> sy_windows sy then Inl (Other ''no registry on this system'')
      else Inr (case host_registry_values sy key of Inl _ \<Rightarrow> False | Inr _ \<Rightarrow> True))"

definition system_host :: "system_calls \<Rightarrow> sca_host" where
  "system_host sy =
     \<lparr>ho_read_file = read_host_file sy, ho_file_exists = host_file_exists sy,
      ho_directory_exists = host_directory_exists sy, ho_list_directory = list_host_directory sy,
      ho_processes = host_processes sy, ho_run = sy_run sy,
      ho_registry_key_exists = host_registry_key_exists sy, ho_registry_values = host_registry_values sy\<rparr>"

end
