(* ===== verification/Check_Runner.thy ===== *)
theory Check_Runner imports Sca_Eval Rust_Float begin

text \<open>
  Compliance checks: their types (\<open>agent-common/src/types/check.rs\<close>), frameworks
  (\<open>agent-common/src/frameworks/mod.rs\<close>), the registry (\<open>agent-scanner/src/check.rs\<close>), the runner
  (\<open>runner.rs\<close>) and the score (\<open>score.rs\<close>).

  Durations, proofs, identifiers drawn at random and times are left out. What the future of a check
  ends with, in time or not, is a value: \<open>execution\<close>.
\<close>

section \<open>Types\<close>

datatype check_status = StPass | StFail | StError | StSkipped | StPending

datatype check_severity = ChkCritical | ChkHigh | ChkMedium | ChkLow | ChkInfo

datatype check_category =
    CatEncryption | CatAntivirus | CatFirewall | CatAuthentication | CatSessionLock | CatUpdates | CatProtocols
  | CatBackup | CatAccounts | CatMfa | CatRemoteAccess | CatAuditLogging | CatDeviceControl | CatKernelSecurity
  | CatNetworkHardening | CatTimeSync | CatBrowserSecurity | CatDirectoryPolicy | CatPrivilegedAccess | CatGeneral
  | CatNetworkSecurity | CatAccessControl | CatContainerSecurity | CatCertificateManagement | CatDataProtection
  | CatCloudSecurity

definition category_names :: "check_category str_map" where
  "category_names =
     [(''encryption'', CatEncryption), (''antivirus'', CatAntivirus), (''firewall'', CatFirewall),
      (''authentication'', CatAuthentication), (''session_lock'', CatSessionLock), (''updates'', CatUpdates),
      (''protocols'', CatProtocols), (''backup'', CatBackup), (''accounts'', CatAccounts), (''mfa'', CatMfa),
      (''remote_access'', CatRemoteAccess), (''audit_logging'', CatAuditLogging), (''device_control'', CatDeviceControl),
      (''kernel_security'', CatKernelSecurity), (''network_hardening'', CatNetworkHardening), (''time_sync'', CatTimeSync),
      (''browser_security'', CatBrowserSecurity), (''directory_policy'', CatDirectoryPolicy),
      (''privileged_access'', CatPrivilegedAccess), (''general'', CatGeneral), (''network_security'', CatNetworkSecurity),
      (''access_control'', CatAccessControl), (''container_security'', CatContainerSecurity),
      (''certificate_management'', CatCertificateManagement), (''data_protection'', CatDataProtection),
      (''cloud_security'', CatCloudSecurity)]"

definition severity_names :: "check_severity str_map" where
  "severity_names = [(''critical'', ChkCritical), (''high'', ChkHigh), (''medium'', ChkMedium), (''low'', ChkLow), (''info'', ChkInfo)]"

text \<open>The parameters of a definition: those of a policy check, or of another one.\<close>

record sca_parameters =
  sp_policy :: string
  sp_policy_name :: string
  sp_rationale :: "string option"
  sp_remediation :: "string option"
  sp_compliance :: "string list str_map"

record check_definition =
  cd_id :: string
  cd_name :: string
  cd_description :: string
  cd_category :: check_category
  cd_severity :: check_severity
  cd_frameworks :: "string list"
  cd_enabled :: bool
  cd_platforms :: "string list"
  cd_parameters :: "sca_parameters option"

record check_result =
  cr_check_id :: string
  cr_status :: check_status
  cr_message :: "string option"
  cr_details :: "(string \<times> (string \<times> string) list) option"

definition result_pass :: "string \<Rightarrow> check_result" where
  "result_pass check_id = \<lparr>cr_check_id = check_id, cr_status = StPass, cr_message = None, cr_details = None\<rparr>"

definition result_fail :: "string \<Rightarrow> string \<Rightarrow> check_result" where
  "result_fail check_id message =
     \<lparr>cr_check_id = check_id, cr_status = StFail, cr_message = Some message, cr_details = None\<rparr>"

definition result_error :: "string \<Rightarrow> string \<Rightarrow> check_result" where
  "result_error check_id message =
     \<lparr>cr_check_id = check_id, cr_status = StError, cr_message = Some message, cr_details = None\<rparr>"

section \<open>Frameworks\<close>

text \<open>Upper case, each run of anything but letters and digits one \<open>_\<close>; the flag: the last was a \<open>_\<close>.\<close>

definition to_upper_char :: "char \<Rightarrow> char" where
  "to_upper_char c = (if is_ascii_lowercase c then char_of (byte c - 32) else c)"

fun framework_key :: "bool \<Rightarrow> string \<Rightarrow> string" where
  "framework_key prev_sep [] = []"
| "framework_key prev_sep (c # cs) =
     (if is_ascii_alphanumeric c then c # framework_key False cs
      else if prev_sep then framework_key True cs
      else CHR ''_'' # framework_key True cs)"

definition trim_underscores :: "string \<Rightarrow> string" where
  "trim_underscores s = rev (dropWhile (\<lambda>c. c = CHR ''_'') (rev (dropWhile (\<lambda>c. c = CHR ''_'') s)))"

definition framework_spellings :: "(string list \<times> string) list" where
  "framework_spellings =
     [([''CIS'', ''CIS_V8'', ''CIS_CONTROLS'', ''CIS_CONTROLS_V8'', ''CISV8'', ''CIS_8''], ''CIS_V8''),
      ([''NIST'', ''NIST_CSF'', ''CSF'', ''NISTCSF'', ''NIST_CSF_2_0'', ''NIST_CSF_2'', ''NIST_800_53''], ''NIST_CSF''),
      ([''ISO'', ''ISO27001'', ''ISO_27001'', ''ISO_27001_2022'', ''ISO_IEC_27001'', ''ISO_IEC_27001_2022'', ''ISO27001_2022''],
       ''ISO_27001''),
      ([''PCI'', ''PCIDSS'', ''PCI_DSS'', ''PCI_DSS_V4'', ''PCI_DSS_V4_0''], ''PCI_DSS''),
      ([''ANSSI'', ''ANSSI_HYGIENE'', ''ANSSI_HYGIENE_INFORMATIQUE'', ''ANSSI_GUIDE_HYGIENE''], ''ANSSI_HYGIENE''),
      ([''NIS2'', ''NIS_2'', ''NISII'', ''NIS_DIRECTIVE_2''], ''NIS2''),
      ([''DORA'', ''DIGITAL_OPERATIONAL_RESILIENCE_ACT''], ''DORA''),
      ([''SOC2'', ''SOC_2'', ''SOC_2_TYPE_II'', ''SOC_2_TYPE_2''], ''SOC2''),
      ([''RGPD'', ''GDPR''], ''RGPD''),
      ([''HDS'', ''HDS_V2'', ''HEBERGEUR_DE_DONNEES_DE_SANTE'', ''HEBERGEMENT_DE_DONNEES_DE_SANTE''], ''HDS'')]"

definition normalize_framework_id :: "string \<Rightarrow> string option" where
  "normalize_framework_id raw =
     (let key = trim_underscores (framework_key False (map to_upper_char (trim raw)))
      in map_option snd (find (\<lambda>(spellings, _). key \<in> set spellings) framework_spellings))"

section \<open>The registry\<close>

text \<open>\<open>'x\<close> is what executing a check means.\<close>

record 'x check =
  ck_definition :: check_definition
  ck_execute :: 'x

record 'x check_registry =
  rg_checks :: "'x check str_map"
  rg_disabled :: "string set"

definition check_id :: "'x check \<Rightarrow> string" where
  "check_id c = cd_id (ck_definition c)"

definition platform_str :: "platform_os \<Rightarrow> string" where
  "platform_str os = (case os of MacOs \<Rightarrow> ''macos'' | Linux \<Rightarrow> ''linux'' | Windows \<Rightarrow> ''windows'')"

definition is_platform_supported :: "platform_os \<Rightarrow> 'x check \<Rightarrow> bool" where
  "is_platform_supported os c \<longleftrightarrow>
     (let ps = cd_platforms (ck_definition c)
      in ps = [] \<or> list_ex (\<lambda>p. to_ascii_lowercase p = to_ascii_lowercase (platform_str os)) ps)"

definition new_registry :: "'x check_registry" where
  "new_registry = \<lparr>rg_checks = [], rg_disabled = {}\<rparr>"

definition register :: "'x check \<Rightarrow> 'x check_registry \<Rightarrow> 'x check_registry" where
  "register c rg = rg\<lparr>rg_checks := AList.update (check_id c) c (rg_checks rg)\<rparr>"

definition get_check :: "'x check_registry \<Rightarrow> string \<Rightarrow> 'x check option" where
  "get_check rg k = map_of (rg_checks rg) k"

definition framework_or_upper :: "string \<Rightarrow> string" where
  "framework_or_upper s = unwrap_or (normalize_framework_id s) (map to_upper_char (trim s))"

definition framework_selected :: "string list option \<Rightarrow> 'x check \<Rightarrow> bool" where
  "framework_selected active c \<longleftrightarrow>
     (case active of
        None \<Rightarrow> True
      | Some names \<Rightarrow>
          (let fws = cd_frameworks (ck_definition c) in
           names = [] \<or> fws = [] \<or>
           list_ex (\<lambda>fw. framework_or_upper fw \<in> framework_or_upper ` set names) fws))"

definition enabled_checks_for_frameworks :: "platform_os \<Rightarrow> string list option \<Rightarrow> 'x check_registry \<Rightarrow> 'x check list" where
  "enabled_checks_for_frameworks os active rg =
     filter (\<lambda>c. cd_enabled (ck_definition c) \<and> is_platform_supported os c \<and> check_id c \<notin> rg_disabled rg
                 \<and> framework_selected active c) (map snd (rg_checks rg))"

definition by_category :: "check_category \<Rightarrow> 'x check_registry \<Rightarrow> 'x check list" where
  "by_category cat rg = filter (\<lambda>c. cd_category (ck_definition c) = cat) (map snd (rg_checks rg))"

definition apply_rule :: "check_definition \<Rightarrow> 'x check_registry \<Rightarrow> 'x check_registry" where
  "apply_rule rule rg =
     (if get_check rg (cd_id rule) = None then rg
      else if cd_enabled rule then rg\<lparr>rg_disabled := rg_disabled rg - {cd_id rule}\<rparr>
      else rg\<lparr>rg_disabled := insert (cd_id rule) (rg_disabled rg)\<rparr>)"

definition apply_rules :: "check_definition list \<Rightarrow> 'x check_registry \<Rightarrow> 'x check_registry" where
  "apply_rules rules rg = fold apply_rule rules rg"

section \<open>The runner\<close>

datatype execution =
    Returned check_output
  | Raised string
  | Panicked string

text \<open>
  \<open>slow\<close>: the checks that do not answer within the timeout, and after how many milliseconds they are
  given up. \<^const>\<open>None\<close>: the panic of the check goes on.
\<close>

definition execute_check :: "(string \<Rightarrow> nat option) \<Rightarrow> 'h \<Rightarrow> ('h \<Rightarrow> execution) check \<Rightarrow> check_result option" where
  "execute_check slow host c =
     (case slow (check_id c) of
        Some ms \<Rightarrow> Some (result_error (check_id c) (''Check timed out after '' @ show_nat ms @ ''ms''))
      | None \<Rightarrow> (case ck_execute c host of
        Returned out \<Rightarrow>
          Some ((if is_not_applicable out then (result_fail (check_id c) (co_message out))\<lparr>cr_status := StSkipped\<rparr>
                 else if co_passed out then result_pass (check_id c)
                 else result_fail (check_id c) (co_message out))\<lparr>cr_details := Some (co_evidence out)\<rparr>)
      | Raised e \<Rightarrow> Some (result_error (check_id c) e)
      | Panicked e \<Rightarrow> None))"

definition panic_text :: "'h \<Rightarrow> ('h \<Rightarrow> execution) check \<Rightarrow> string" where
  "panic_text host c = (case ck_execute c host of Panicked e \<Rightarrow> e | _ \<Rightarrow> [])"

definition run_checks :: "(string \<Rightarrow> nat option) \<Rightarrow> 'h \<Rightarrow> ('h \<Rightarrow> execution) check list \<Rightarrow> check_result list" where
  "run_checks slow host cs =
     map (\<lambda>c. unwrap_or (execute_check slow host c) (result_error ''unknown'' (''Check panicked: '' @ panic_text host c))) cs"

definition run_filtered ::
  "platform_os \<Rightarrow> (string \<Rightarrow> nat option) \<Rightarrow> 'h \<Rightarrow> string list option \<Rightarrow> ('h \<Rightarrow> execution) check_registry \<Rightarrow> check_result list" where
  "run_filtered os slow host active rg = run_checks slow host (enabled_checks_for_frameworks os active rg)"

definition run_all :: "platform_os \<Rightarrow> (string \<Rightarrow> nat option) \<Rightarrow> 'h \<Rightarrow> ('h \<Rightarrow> execution) check_registry \<Rightarrow> check_result list" where
  "run_all os slow host rg = run_checks slow host (enabled_checks_for_frameworks os None rg)"

datatype run_error = CheckNotFound string | CheckDisabled string | PlatformNotSupported string

definition run_check ::
  "platform_os \<Rightarrow> (string \<Rightarrow> nat option) \<Rightarrow> 'h \<Rightarrow> ('h \<Rightarrow> execution) check_registry \<Rightarrow> string \<Rightarrow> (run_error + check_result) option" where
  "run_check os slow host rg k =
     (case get_check rg k of
        None \<Rightarrow> Some (Inl (CheckNotFound k))
      | Some c \<Rightarrow>
          if \<not> cd_enabled (ck_definition c) then Some (Inl (CheckDisabled k))
          else if \<not> is_platform_supported os c then Some (Inl (PlatformNotSupported k))
          else map_option Inr (execute_check slow host c))"

text \<open>
  The compliance score (\<open>crates/agent-scanner/src/score.rs\<close>), in \<open>f64\<close>: every sum, quotient and
  product is rounded.
\<close>

section \<open>Weights\<close>

record scoring_config =
  weight_critical :: rat
  weight_high :: rat
  weight_medium :: rat
  weight_low :: rat
  weight_info :: rat

definition default_weights :: scoring_config where
  "default_weights =
     \<lparr>weight_critical = 4, weight_high = 3, weight_medium = 2, weight_low = 1, weight_info = 1 / 2\<rparr>"

definition weight_for :: "scoring_config \<Rightarrow> check_severity \<Rightarrow> rat" where
  "weight_for config severity =
     (case severity of
        ChkCritical \<Rightarrow> weight_critical config
      | ChkHigh \<Rightarrow> weight_high config
      | ChkMedium \<Rightarrow> weight_medium config
      | ChkLow \<Rightarrow> weight_low config
      | ChkInfo \<Rightarrow> weight_info config)"

section \<open>Scores\<close>

record score_input =
  in_result :: check_result
  in_severity :: check_severity
  in_category :: string
  in_frameworks :: "string list"

record category_score =
  cs_score :: rat
  cs_passed :: nat
  cs_failed :: nat
  cs_total :: nat

record compliance_score =
  sc_score :: rat
  sc_previous :: "rat option"
  sc_delta :: "rat option"
  sc_passed :: nat
  sc_failed :: nat
  sc_errors :: nat
  sc_skipped :: nat
  sc_total :: nat
  sc_categories :: "category_score str_map"
  sc_frameworks :: "rat str_map"

text \<open>What the loop over the inputs accumulates; a category has what passed, the total and the errors.\<close>

record tally =
  ta_passed :: nat
  ta_failed :: nat
  ta_errors :: nat
  ta_skipped :: nat
  ta_weighted_pass :: rat
  ta_weighted_total :: rat
  ta_categories :: "(nat \<times> nat \<times> nat) str_map"
  ta_frameworks :: "(rat \<times> rat) str_map"

definition no_tally :: tally where
  "no_tally = \<lparr>ta_passed = 0, ta_failed = 0, ta_errors = 0, ta_skipped = 0, ta_weighted_pass = 0, ta_weighted_total = 0,
     ta_categories = [], ta_frameworks = []\<rparr>"

definition tally_category :: "nat \<times> nat \<times> nat \<Rightarrow> string \<Rightarrow> (nat \<times> nat \<times> nat) str_map \<Rightarrow> (nat \<times> nat \<times> nat) str_map" where
  "tally_category d category m =
     (case (d, unwrap_or (map_of m category) (0, 0, 0)) of
        ((p', t', e'), (p, t, e)) \<Rightarrow> AList.update category (p + p', t + t', e + e') m)"

text \<open>The weight earned, if any, and the weight in scope.\<close>

fun tally_frameworks :: "rat option \<Rightarrow> rat \<Rightarrow> string list \<Rightarrow> (rat \<times> rat) str_map \<Rightarrow> (rat \<times> rat) str_map" where
  "tally_frameworks earned weight [] m = m"
| "tally_frameworks earned weight (fw # fws) m =
     (case unwrap_or (map_of m fw) (0, 0) of
        (p, t) \<Rightarrow> tally_frameworks earned weight fws (AList.update fw
             (case earned of None \<Rightarrow> p | Some w \<Rightarrow> f64 (p + w), f64 (t + weight)) m))"

definition tally_input :: "scoring_config \<Rightarrow> score_input \<Rightarrow> tally \<Rightarrow> tally" where
  "tally_input config i ta =
     (let w = weight_for config (in_severity i) in
      case cr_status (in_result i) of
        StPass \<Rightarrow> ta\<lparr>ta_passed := ta_passed ta + 1,
            ta_weighted_pass := f64 (ta_weighted_pass ta + w), ta_weighted_total := f64 (ta_weighted_total ta + w),
            ta_categories := tally_category (1, 1, 0) (in_category i) (ta_categories ta),
            ta_frameworks := tally_frameworks (Some w) w (in_frameworks i) (ta_frameworks ta)\<rparr>
      | StFail \<Rightarrow> ta\<lparr>ta_failed := ta_failed ta + 1, ta_weighted_total := f64 (ta_weighted_total ta + w),
            ta_categories := tally_category (0, 1, 0) (in_category i) (ta_categories ta),
            ta_frameworks := tally_frameworks None w (in_frameworks i) (ta_frameworks ta)\<rparr>
      | StError \<Rightarrow> ta\<lparr>ta_errors := ta_errors ta + 1, ta_weighted_total := f64 (ta_weighted_total ta + w),
            ta_categories := tally_category (0, 1, 1) (in_category i) (ta_categories ta),
            ta_frameworks := tally_frameworks None w (in_frameworks i) (ta_frameworks ta)\<rparr>
      | StSkipped \<Rightarrow> ta\<lparr>ta_skipped := ta_skipped ta + 1\<rparr>
      | StPending \<Rightarrow> ta)"

definition percent :: "rat \<Rightarrow> rat \<Rightarrow> rat" where
  "percent earned whole = (if 0 < whole then f64 (f64 (earned / whole) * 100) else 0)"

definition category_score_of :: "nat \<times> nat \<times> nat \<Rightarrow> category_score" where
  "category_score_of x =
     (case x of (passed, whole, errors) \<Rightarrow>
        \<lparr>cs_score = percent (f64 (of_nat passed)) (f64 (of_nat whole)), cs_passed = passed,
         cs_failed = whole - passed - errors, cs_total = whole\<rparr>)"

definition calculate_with_previous ::
  "scoring_config \<Rightarrow> score_input list \<Rightarrow> rat option \<Rightarrow> compliance_score" where
  "calculate_with_previous config inputs previous =
     (if inputs = [] then
        \<lparr>sc_score = 0, sc_previous = previous, sc_delta = None, sc_passed = 0, sc_failed = 0, sc_errors = 0,
         sc_skipped = 0, sc_total = 0, sc_categories = [], sc_frameworks = []\<rparr>
      else
        let ta = fold (tally_input config) inputs no_tally;
            score = percent (ta_weighted_pass ta) (ta_weighted_total ta)
        in \<lparr>sc_score = score, sc_previous = previous, sc_delta = map_option (\<lambda>prev. f64 (score - prev)) previous,
            sc_passed = ta_passed ta, sc_failed = ta_failed ta, sc_errors = ta_errors ta, sc_skipped = ta_skipped ta,
            sc_total = length inputs,
            sc_categories = map (\<lambda>(category, x). (category, category_score_of x)) (ta_categories ta),
            sc_frameworks = map (\<lambda>(fw, p, t). (fw, percent p t)) (ta_frameworks ta)\<rparr>)"

definition calculate_simple :: "check_result list \<Rightarrow> rat" where
  "calculate_simple results =
     (let countable = filter (\<lambda>r. cr_status r \<in> {StPass, StFail, StError}) results in
      if countable = [] then 0
      else percent (f64 (of_nat (length (filter (\<lambda>r. cr_status r = StPass) countable)))) (f64 (of_nat (length countable))))"

end
