(* ===== verification/Sca_Policy.thy ===== *)
theory Sca_Policy imports Check_Runner begin

text \<open>
  Compliance policies (\<open>crates/agent-scanner/src/checks/sca.rs\<close>): parsing a policy file, whether it
  applies, registering its checks, the directory of policies, and the parts of the real host that
  are not calls of the system.

  The YAML text is read by a library: \<open>load_yaml\<close>. The directory is a listing of its entries with
  what reading each gives; whether an entry can be trusted is a field (\<open>custom::is_trusted\<close>).
\<close>

section \<open>Texts\<close>

definition yaml_text :: "yaml \<Rightarrow> string option" where
  "yaml_text value =
     (case (case value of
              YString txt \<Rightarrow> Some (trim txt)
            | YInteger number \<Rightarrow> Some (show_int number)
            | YReal number \<Rightarrow> Some number
            | YBoolean flag \<Rightarrow> Some (if flag then ''true'' else ''false'')
            | _ \<Rightarrow> None) of
        None \<Rightarrow> None
      | Some txt \<Rightarrow> if txt = [] then None else Some txt)"

definition text_list :: "yaml \<Rightarrow> string list" where
  "text_list value =
     (case value of
        YArray items \<Rightarrow> List.map_filter yaml_text items
      | single \<Rightarrow> (case yaml_text single of None \<Rightarrow> [] | Some txt \<Rightarrow> [txt]))"

fun identifier_loop :: "string \<Rightarrow> string \<Rightarrow> string" where
  "identifier_loop sofar [] = sofar"
| "identifier_loop sofar (c # cs) =
     (if is_ascii_alphanumeric c then identifier_loop (sofar @ [to_ascii_lower_char c]) cs
      else if suffix ''_'' sofar then identifier_loop sofar cs
      else identifier_loop (sofar @ ''_'') cs)"

definition policy_identifier :: "string \<Rightarrow> string" where
  "policy_identifier raw = trim_underscores (identifier_loop [] (trim raw))"

section \<open>Parts of a policy\<close>

definition as_list :: "yaml \<Rightarrow> yaml list" where
  "as_list y = unwrap_or (as_vec y) []"

definition as_pairs :: "yaml \<Rightarrow> (yaml \<times> yaml) list" where
  "as_pairs y = unwrap_or (as_hash y) []"

text \<open>\<open>key.split("_v").next()\<close>.\<close>

definition framework_family :: "string \<Rightarrow> string" where
  "framework_family key = (case split_once_at ''_v'' key of None \<Rightarrow> key | Some (a, _) \<Rightarrow> a)"

definition known_framework :: "string \<Rightarrow> string option" where
  "known_framework key =
     (case normalize_framework_id key of
        Some fw \<Rightarrow> Some fw
      | None \<Rightarrow>
          (case normalize_framework_id (framework_family key) of
             Some fw \<Rightarrow> Some fw
           | None \<Rightarrow> if prefix ''cis'' key then Some ''CIS_V8'' else None))"

fun compliance_loop ::
  "(yaml \<times> yaml) list \<Rightarrow> string list \<times> string list str_map \<Rightarrow> string list \<times> string list str_map" where
  "compliance_loop [] acc = acc"
| "compliance_loop ((key, value) # pairs) (frameworks, references) =
     (case as_str key of
        None \<Rightarrow> compliance_loop pairs (frameworks, references)
      | Some k \<Rightarrow>
          compliance_loop pairs
            (case known_framework k of
               Some fw \<Rightarrow> if fw \<in> set frameworks then frameworks else frameworks @ [fw]
             | None \<Rightarrow> frameworks,
             AList.update k (text_list value) references))"

definition compliance_of :: "yaml \<Rightarrow> string list \<times> string list str_map" where
  "compliance_of c = compliance_loop (concat (map as_pairs (as_list (yaml_index c ''compliance'')))) ([], [])"

definition str_replace :: "string \<Rightarrow> string \<Rightarrow> string \<Rightarrow> string" where
  "str_replace old new' s = join_with new' (split_at old s)"

definition replace_variables :: "string \<Rightarrow> (string \<times> string) list \<Rightarrow> string" where
  "replace_variables txt vars = fold (\<lambda>(name, value) t. str_replace name value t) vars txt"

definition parse_rules ::
  "('re, 'num) sca_env \<Rightarrow> yaml \<Rightarrow> (string \<times> string) list \<Rightarrow> regex_type \<Rightarrow> sca_error + ('re, 'num) sca_rule list" where
  "parse_rules env sect vars rx =
     (let rules = text_list (yaml_index sect ''rules'') in
      if rules = [] then Inl NoScaRule
      else try_map (\<lambda>r. parse_sca_rule env rx (replace_variables r vars)) rules)"

text \<open>Longest names first; the sort is stable.\<close>

definition variables_of :: "yaml \<Rightarrow> (string \<times> string) list" where
  "variables_of document =
     sort_key (\<lambda>(name, _). - int (length name))
       (filter (\<lambda>(name, _). prefix ''$'' name)
         (List.map_filter (\<lambda>(name, value). case (as_str name, yaml_text value) of
              (Some n, Some v) \<Rightarrow> Some (n, v)
            | _ \<Rightarrow> None)
           (as_pairs (yaml_index document ''variables''))))"

definition regex_type_of :: "yaml \<Rightarrow> regex_type \<Rightarrow> sca_error + regex_type" where
  "regex_type_of y default' =
     (case yaml_text (yaml_index y ''regex_type'') of Some k \<Rightarrow> parse_regex_type k | None \<Rightarrow> Inr default')"

definition condition_of :: "yaml \<Rightarrow> sca_error + sca_condition" where
  "condition_of y = parse_sca_condition (unwrap_or (yaml_text (yaml_index y ''condition'')) [])"

section \<open>A policy\<close>

type_synonym ('re, 'num) policy_check = "check_definition \<times> sca_condition \<times> ('re, 'num) sca_rule list"

datatype declaration_error = CheckWithoutId | BadCheck string sca_error

record ('re, 'num) policy =
  po_id :: string
  po_name :: string
  po_platforms :: "string list"
  po_requirements :: "(sca_condition \<times> ('re, 'num) sca_rule list) option"
  po_checks :: "('re, 'num) policy_check list"
  po_errors :: "declaration_error list"

datatype policy_error =
    InvalidYaml | EmptyFile | NoPolicyId | BadPolicy sca_error | BadRequirements sca_error | NoCheck

definition SCA_ID_PREFIX :: string where "SCA_ID_PREFIX = ''sca_''"

text \<open>What the checks of a policy share: its identifier, name, platforms, variables and dialect.\<close>

record policy_head =
  ph_id :: string
  ph_name :: string
  ph_platforms :: "string list"
  ph_variables :: "(string \<times> string) list"
  ph_regex :: regex_type

definition named :: "'a str_map \<Rightarrow> (string \<Rightarrow> sca_error) \<Rightarrow> 'a \<Rightarrow> string option \<Rightarrow> sca_error + 'a" where
  "named names unknown default' txt =
     (case txt of
        None \<Rightarrow> Inr default'
      | Some t \<Rightarrow> (case map_of names t of None \<Rightarrow> Inl (unknown t) | Some v \<Rightarrow> Inr v))"

definition sca_definition ::
  "policy_head \<Rightarrow> yaml \<Rightarrow> string \<Rightarrow> string \<Rightarrow> check_severity \<Rightarrow> check_category \<Rightarrow> check_definition" where
  "sca_definition head check cid title severity category =
     (let (frameworks, compliance) = compliance_of check in
      \<lparr>cd_id = SCA_ID_PREFIX @ ph_id head @ ''_'' @ policy_identifier cid, cd_name = title,
       cd_description = unwrap_or (yaml_text (yaml_index check ''description'')) [],
       cd_category = category, cd_severity = severity, cd_frameworks = frameworks, cd_enabled = True,
       cd_platforms = ph_platforms head,
       cd_parameters = Some \<lparr>sp_policy = ph_id head, sp_policy_name = ph_name head,
         sp_rationale = yaml_text (yaml_index check ''rationale''),
         sp_remediation = yaml_text (yaml_index check ''remediation''), sp_compliance = compliance\<rparr>\<rparr>)"

definition parse_check ::
  "('re, 'num) sca_env \<Rightarrow> policy_head \<Rightarrow> yaml \<Rightarrow> string \<Rightarrow> sca_error + ('re, 'num) policy_check" where
  "parse_check env head check cid =
     (case yaml_text (yaml_index check ''title'') of
        None \<Rightarrow> Inl NoTitle
      | Some title \<Rightarrow>
          (case condition_of check of
             Inl e \<Rightarrow> Inl e
           | Inr condition \<Rightarrow>
               (case regex_type_of check (ph_regex head) of
                  Inl e \<Rightarrow> Inl e
                | Inr rx \<Rightarrow>
                    (case parse_rules env check (ph_variables head) rx of
                       Inl e \<Rightarrow> Inl e
                     | Inr rules \<Rightarrow>
                         (case named severity_names UnknownSeverity ChkMedium (yaml_text (yaml_index check ''severity'')) of
                            Inl e \<Rightarrow> Inl e
                          | Inr severity \<Rightarrow>
                              map_sum id (\<lambda>category. (sca_definition head check cid title severity category, condition, rules))
                                (named category_names UnknownCategory CatGeneral (yaml_text (yaml_index check ''category''))))))))"

fun parse_checks ::
  "('re, 'num) sca_env \<Rightarrow> policy_head \<Rightarrow> yaml list \<Rightarrow> ('re, 'num) policy_check list \<times> declaration_error list" where
  "parse_checks env head [] = ([], [])"
| "parse_checks env head (c # cs) =
     (case parse_checks env head cs of (checks, errors) \<Rightarrow>
        (case yaml_text (yaml_index c ''id'') of
           None \<Rightarrow> (checks, CheckWithoutId # errors)
         | Some cid \<Rightarrow>
             (case parse_check env head c cid of
                Inl e \<Rightarrow> (checks, BadCheck cid e # errors)
              | Inr parsed \<Rightarrow> (parsed # checks, errors))))"

definition parse_requirements ::
  "('re, 'num) sca_env \<Rightarrow> yaml \<Rightarrow> (string \<times> string) list \<Rightarrow> regex_type \<Rightarrow>
     sca_error + (sca_condition \<times> ('re, 'num) sca_rule list) option" where
  "parse_requirements env requirements vars rx =
     (if requirements = YBadValue then Inr None
      else case condition_of requirements of
        Inl e \<Rightarrow> Inl e
      | Inr condition \<Rightarrow> map_sum id (\<lambda>rules. Some (condition, rules)) (parse_rules env requirements vars rx))"

definition parse_policy ::
  "('re, 'num) sca_env \<Rightarrow> (string \<Rightarrow> yaml list option) \<Rightarrow> string \<Rightarrow> policy_error + ('re, 'num) policy" where
  "parse_policy env load_yaml txt =
     (case load_yaml txt of
        None \<Rightarrow> Inl InvalidYaml
      | Some [] \<Rightarrow> Inl EmptyFile
      | Some (document # _) \<Rightarrow>
          (let section' = yaml_index document ''policy'';
               policy_id = map_option policy_identifier (yaml_text (yaml_index section' ''id''))
           in if policy_id = None \<or> policy_id = Some [] then Inl NoPolicyId
              else case regex_type_of section' OsRegex of
                Inl e \<Rightarrow> Inl (BadPolicy e)
              | Inr rx \<Rightarrow>
                  (let pid = the policy_id; vars = variables_of document;
                       head = \<lparr>ph_id = pid, ph_name = unwrap_or (yaml_text (yaml_index section' ''name'')) pid,
                               ph_platforms = map to_ascii_lowercase (text_list (yaml_index section' ''platforms'')),
                               ph_variables = vars, ph_regex = rx\<rparr>
                   in case parse_requirements env (yaml_index document ''requirements'') vars rx of
                        Inl e \<Rightarrow> Inl (BadRequirements e)
                      | Inr requirements \<Rightarrow>
                          (case parse_checks env head (as_list (yaml_index document ''checks'')) of
                             (checks, errors) \<Rightarrow>
                               if checks = [] \<and> errors = [] then Inl NoCheck
                               else Inr \<lparr>po_id = pid, po_name = ph_name head, po_platforms = ph_platforms head,
                                         po_requirements = requirements, po_checks = checks, po_errors = errors\<rparr>))))"

datatype not_applied = WrittenFor "string list" | RequirementsNotMet | RequirementsUnknown string

definition policy_applies ::
  "('re, 'num) sca_env \<Rightarrow> platform_os \<Rightarrow> sca_host \<Rightarrow> ('re, 'num) policy \<Rightarrow> not_applied option" where
  "policy_applies env os host p =
     (if po_platforms p \<noteq> [] \<and> platform_str os \<notin> set (po_platforms p) then Some (WrittenFor (po_platforms p))
      else case po_requirements p of
        None \<Rightarrow> None
      | Some (condition, rules) \<Rightarrow>
          (case fst (evaluate_check env host condition rules) of
             OPassed \<Rightarrow> None
           | OFailed \<Rightarrow> Some RequirementsNotMet
           | ONotApplicable why \<Rightarrow> Some (RequirementsUnknown why)))"

section \<open>Registering\<close>

datatype sca_load_error =
    DirectoryIgnored string
  | FileIgnored string string
  | FileTooLarge string
  | UnreadableFile string
  | BadFile string policy_error
  | DeclarationError string declaration_error
  | AlreadyDefined string string

record sca_report =
  rp_policies :: "(string \<times> nat) list"
  rp_skipped :: "(string \<times> not_applied) list"
  rp_load_errors :: "sca_load_error list"

definition empty_report :: sca_report where
  "empty_report = \<lparr>rp_policies = [], rp_skipped = [], rp_load_errors = []\<rparr>"

definition report_checks :: "sca_report \<Rightarrow> nat" where
  "report_checks rp = sum_list (map snd (rp_policies rp))"

type_synonym sca_registry = "(sca_host \<Rightarrow> execution) check_registry"

definition sca_check :: "('re, 'num) sca_env \<Rightarrow> ('re, 'num) policy_check \<Rightarrow> (sca_host \<Rightarrow> execution) check" where
  "sca_check env c =
     (case c of (d, condition, rules) \<Rightarrow>
        \<lparr>ck_definition = d, ck_execute = (\<lambda>host. Returned (execute_sca env condition rules host))\<rparr>)"

fun register_checks ::
  "('re, 'num) sca_env \<Rightarrow> string \<Rightarrow> ('re, 'num) policy_check list \<Rightarrow> sca_registry \<Rightarrow>
     nat \<times> sca_load_error list \<times> sca_registry" where
  "register_checks env label [] rg = (0, [], rg)"
| "register_checks env label (c # cs) rg =
     (if get_check rg (cd_id (fst c)) \<noteq> None then
        (case register_checks env label cs rg of
           (n, errors, rg') \<Rightarrow> (n, AlreadyDefined label (cd_id (fst c)) # errors, rg'))
      else
        (case register_checks env label cs (register (sca_check env c) rg) of
           (n, errors, rg') \<Rightarrow> (n + 1, errors, rg')))"

definition register_policy ::
  "('re, 'num) sca_env \<Rightarrow> platform_os \<Rightarrow> sca_host \<Rightarrow> string \<Rightarrow> ('re, 'num) policy \<Rightarrow> sca_registry \<times> sca_report \<Rightarrow>
     sca_registry \<times> sca_report" where
  "register_policy env os host label p st =
     (case st of (rg, rp) \<Rightarrow>
        (let rp1 = rp\<lparr>rp_load_errors := rp_load_errors rp @ map (DeclarationError label) (po_errors p)\<rparr> in
         case policy_applies env os host p of
           Some why \<Rightarrow> (rg, rp1\<lparr>rp_skipped := rp_skipped rp1 @ [(label, why)]\<rparr>)
         | None \<Rightarrow>
             (case register_checks env label (po_checks p) rg of
                (n, errors, rg') \<Rightarrow>
                  (rg', rp1\<lparr>rp_load_errors := rp_load_errors rp1 @ errors,
                            rp_policies := rp_policies rp1 @ (if 0 < n then [(po_id p, n)] else [])\<rparr>))))"

definition add_load_error :: "sca_load_error \<Rightarrow> sca_registry \<times> sca_report \<Rightarrow> sca_registry \<times> sca_report" where
  "add_load_error e st = (fst st, (snd st)\<lparr>rp_load_errors := rp_load_errors (snd st) @ [e]\<rparr>)"

definition register_text ::
  "('re, 'num) sca_env \<Rightarrow> (string \<Rightarrow> yaml list option) \<Rightarrow> platform_os \<Rightarrow> sca_host \<Rightarrow> string \<Rightarrow> string \<Rightarrow>
     sca_registry \<times> sca_report \<Rightarrow> sca_registry \<times> sca_report" where
  "register_text env load_yaml os host label txt st =
     (case parse_policy env load_yaml txt of
        Inl e \<Rightarrow> add_load_error (BadFile label e) st
      | Inr p \<Rightarrow> register_policy env os host label p st)"

text \<open>The shipped policies, by name and text.\<close>

definition register_builtin_policies ::
  "('re, 'num) sca_env \<Rightarrow> (string \<Rightarrow> yaml list option) \<Rightarrow> platform_os \<Rightarrow> sca_host \<Rightarrow> (string \<times> string) list \<Rightarrow>
     sca_registry \<Rightarrow> sca_registry \<times> sca_report" where
  "register_builtin_policies env load_yaml os host shipped rg =
     fold (\<lambda>(name, txt). register_text env load_yaml os host name txt) shipped (rg, empty_report)"

record policy_file =
  pf_path :: string
  pf_distrust :: "string option"
  pf_bytes :: "nat option"
  pf_text :: "string option"

record policy_directory =
  pd_path :: string
  pd_distrust :: "string option"
  pd_files :: "policy_file list"

definition MAX_POLICY_FILE_BYTES :: nat where "MAX_POLICY_FILE_BYTES = 4 * 1024 * 1024"

definition register_file ::
  "('re, 'num) sca_env \<Rightarrow> (string \<Rightarrow> yaml list option) \<Rightarrow> platform_os \<Rightarrow> sca_host \<Rightarrow> policy_file \<Rightarrow>
     sca_registry \<times> sca_report \<Rightarrow> sca_registry \<times> sca_report" where
  "register_file env load_yaml os host f st =
     (case pf_distrust f of
        Some why \<Rightarrow> add_load_error (FileIgnored (pf_path f) why) st
      | None \<Rightarrow>
          if (case pf_bytes f of None \<Rightarrow> False | Some n \<Rightarrow> MAX_POLICY_FILE_BYTES < n)
          then add_load_error (FileTooLarge (pf_path f)) st
          else case pf_text f of
            None \<Rightarrow> add_load_error (UnreadableFile (pf_path f)) st
          | Some txt \<Rightarrow> register_text env load_yaml os host (pf_path f) txt st)"

text \<open>The directory when it can be read, its entries being those with a policy extension, sorted.\<close>

definition register_policies ::
  "('re, 'num) sca_env \<Rightarrow> (string \<Rightarrow> yaml list option) \<Rightarrow> platform_os \<Rightarrow> sca_host \<Rightarrow> policy_directory option \<Rightarrow>
     sca_registry \<Rightarrow> sca_registry \<times> sca_report" where
  "register_policies env load_yaml os host dir rg =
     (case dir of
        None \<Rightarrow> (rg, empty_report)
      | Some d \<Rightarrow>
          (case pd_distrust d of
             Some why \<Rightarrow> add_load_error (DirectoryIgnored why) (rg, empty_report)
           | None \<Rightarrow> fold (register_file env load_yaml os host) (pd_files d) (rg, empty_report)))"

end
