(* ===== verification/Sca_Props.thy ===== *)
theory Sca_Props imports Sca_Policy Sca_Eval begin

text \<open>
  What compliance policies promise: the outcome of a check as a verdict on what could not be
  evaluated, the value of a rule, and the registration of policies.
\<close>

section \<open>The outcome of a check\<close>

text \<open>The values the rules may have: what could not be evaluated may be either.\<close>

fun completions :: "truth list \<Rightarrow> bool list list" where
  "completions [] = [[]]"
| "completions (t # ts) =
     concat (map (\<lambda>b. map ((#) b) (completions ts))
       (case t of TTrue \<Rightarrow> [True] | TFalse \<Rightarrow> [False] | TUnknown _ \<Rightarrow> [True, False]))"

definition meets :: "sca_condition \<Rightarrow> bool list \<Rightarrow> bool" where
  "meets c bs \<longleftrightarrow> (case c of CAll \<Rightarrow> list_all id bs | CAny \<Rightarrow> list_ex id bs | CNone \<Rightarrow> \<not> list_ex id bs)"

lemma first_unknown_None: "first_unknown ts = None \<longleftrightarrow> (\<forall>why. TUnknown why \<notin> set ts)"
  by (induction ts) (auto split: truth.splits)

text \<open>Two completions decide: every unknown false, every unknown true.\<close>

lemma completion_low: "map (\<lambda>t. t = TTrue) ts \<in> set (completions ts)"
  by (induction ts) (auto split: truth.split)

lemma completion_high: "map (\<lambda>t. t \<noteq> TFalse) ts \<in> set (completions ts)"
  by (induction ts) (auto split: truth.split)

lemma completion_between:
  "bs \<in> set (completions ts) \<Longrightarrow>
     (list_ex id bs \<longrightarrow> list_ex (\<lambda>t. t \<noteq> TFalse) ts) \<and> (TTrue \<in> set ts \<longrightarrow> list_ex id bs) \<and>
     (list_all id bs \<longrightarrow> TFalse \<notin> set ts) \<and> (list_all (\<lambda>t. t = TTrue) ts \<longrightarrow> list_all id bs)"
  by (induction ts arbitrary: bs) (auto split: truth.splits)

lemma meets_low: "meets c (map (\<lambda>t. t = TTrue) ts) \<longleftrightarrow>
    (case c of CAll \<Rightarrow> set ts \<subseteq> {TTrue} | CAny \<Rightarrow> TTrue \<in> set ts | CNone \<Rightarrow> TTrue \<notin> set ts)"
  by (auto simp: meets_def list_all_iff list_ex_iff split: sca_condition.split)

lemma meets_high: "meets c (map (\<lambda>t. t \<noteq> TFalse) ts) \<longleftrightarrow>
    (case c of CAll \<Rightarrow> TFalse \<notin> set ts | CAny \<Rightarrow> \<not> set ts \<subseteq> {TFalse} | CNone \<Rightarrow> set ts \<subseteq> {TFalse})"
  by (auto simp: meets_def list_all_iff list_ex_iff split: sca_condition.split)

lemma meets_between:
  assumes "bs \<in> set (completions ts)"
  shows "meets c (map (\<lambda>t. t = TTrue) ts) \<Longrightarrow> meets c (map (\<lambda>t. t \<noteq> TFalse) ts) \<Longrightarrow> meets c bs"
    and "meets c bs \<Longrightarrow> meets c (map (\<lambda>t. t = TTrue) ts) \<or> meets c (map (\<lambda>t. t \<noteq> TFalse) ts)"
  using completion_between [OF assms] by (cases c; auto simp: meets_def list_all_iff list_ex_iff)+

lemma all_meet: "set (completions ts) \<subseteq> {bs. meets c bs} \<longleftrightarrow>
    meets c (map (\<lambda>t. t = TTrue) ts) \<and> meets c (map (\<lambda>t. t \<noteq> TFalse) ts)"
  using completion_low [of ts] completion_high [of ts] meets_between(1) by blast

lemma none_meet: "set (completions ts) \<inter> {bs. meets c bs} = {} \<longleftrightarrow>
    \<not> meets c (map (\<lambda>t. t = TTrue) ts) \<and> \<not> meets c (map (\<lambda>t. t \<noteq> TFalse) ts)"
  using completion_low [of ts] completion_high [of ts] meets_between(2) by blast

lemma only_known: "first_unknown ts = None \<Longrightarrow> set ts \<subseteq> {TTrue, TFalse}"
  by (induction ts) (auto split: truth.splits)

lemma some_unknown: "first_unknown ts = Some why \<Longrightarrow> TUnknown why \<in> set ts"
  by (induction ts) (auto split: truth.splits)

text \<open>C21: A check passes exactly when its condition holds whatever the rules that could not be
  evaluated are worth, fails exactly when it fails whatever they are worth, and is not applicable
  exactly when that depends on them; the reason given is that of such a rule.\<close>

theorem combine_is_supervaluation:
  "(combine c ts = OPassed \<longleftrightarrow> set (completions ts) \<subseteq> {bs. meets c bs})
   \<and> (combine c ts = OFailed \<longleftrightarrow> set (completions ts) \<inter> {bs. meets c bs} = {})
   \<and> ({why. combine c ts = ONotApplicable why} \<subseteq> {why. TUnknown why \<in> set ts})"
proof (cases "first_unknown ts")
  case None
  with only_known show ?thesis
    by (cases c) (auto simp: combine_def Let_def all_meet none_meet meets_low meets_high)
next
  case (Some why)
  with some_unknown [OF this] show ?thesis
    by (cases c) (auto simp: combine_def Let_def all_meet none_meet meets_low meets_high)
qed

section \<open>The value of a rule\<close>

definition has_line :: "('re, 'num) sca_env \<Rightarrow> ('re, 'num) content \<Rightarrow> unavailable + string \<Rightarrow> bool" where
  "has_line env c answer \<longleftrightarrow>
     (case answer of Inl _ \<Rightarrow> False | Inr txt \<Rightarrow> list_ex (line_matches env c) (lines txt))"

definition readable :: "unavailable + string \<Rightarrow> bool" where
  "readable answer \<longleftrightarrow> (case answer of Inl _ \<Rightarrow> False | Inr _ \<Rightarrow> True)"

lemma readable_simps [simp]: "readable (Inr txt)" "\<not> readable (Inl e)"
  by (simp_all add: readable_def)

lemma case_Inr_only: "(case x of Inl _ \<Rightarrow> False | Inr t \<Rightarrow> P t) \<longleftrightarrow> (\<exists>t. x = Inr t \<and> P t)"
  by (cases x) auto

lemma has_line_readable: "has_line env c answer \<Longrightarrow> readable answer"
  by (cases answer) (simp_all add: has_line_def)

lemma content_find_None: "content_find env c txt = None \<longleftrightarrow> \<not> list_ex (line_matches env c) (lines txt)"
  by (auto simp: content_find_def find_None_iff list_ex_iff)

lemma files_loop_True:
  "files_loop env host c unknown seen paths = TTrue \<longleftrightarrow> list_ex (\<lambda>p. has_line env c (ho_read_file host p)) paths"
  by (induction paths arbitrary: unknown seen)
     (auto simp: has_line_def content_find_None split: sum.split unavailable.split option.split)

lemma files_loop_Unknown:
  "(\<exists>why. files_loop env host c unknown seen paths = TUnknown why) \<longleftrightarrow>
     \<not> seen \<and> \<not> list_ex (\<lambda>p. readable (ho_read_file host p)) paths \<and> (unknown \<noteq> None \<or> paths \<noteq> [])"
proof (induction paths arbitrary: unknown seen)
  case (Cons p paths)
  show ?case
  proof (cases "ho_read_file host p")
    case (Inl u)
    then show ?thesis using Cons.IH by (cases u) auto
  next
    case (Inr content)
    then show ?thesis using Cons.IH [of unknown True] by (auto simp: content_find_None)
  qed
qed (auto split: option.split)

lemma truth_False_iff: "t = TFalse \<longleftrightarrow> t \<noteq> TTrue \<and> \<not> (\<exists>why. t = TUnknown why)"
  by (cases t) auto

text \<open>A rule on the content of files is true exactly when a line of one of them satisfies it,
  unknown exactly when none of them can be read, and false otherwise.\<close>

theorem file_rule_exact:
  "(evaluate_files env host paths c = TTrue \<longleftrightarrow> list_ex (\<lambda>p. has_line env c (ho_read_file host p)) paths)
   \<and> ((\<exists>why. evaluate_files env host paths c = TUnknown why) \<longleftrightarrow>
        paths \<noteq> [] \<and> \<not> list_ex (\<lambda>p. readable (ho_read_file host p)) paths)
   \<and> (evaluate_files env host paths c = TFalse \<longleftrightarrow>
        \<not> list_ex (\<lambda>p. has_line env c (ho_read_file host p)) paths
        \<and> (paths = [] \<or> list_ex (\<lambda>p. readable (ho_read_file host p)) paths))"
proof -
  note True = files_loop_True [of env host c None False paths]
  note Unknown = files_loop_Unknown [of env host c None False paths]
  have "list_ex (\<lambda>p. has_line env c (ho_read_file host p)) paths \<Longrightarrow> list_ex (\<lambda>p. readable (ho_read_file host p)) paths"
    by (auto simp: list_ex_iff dest: has_line_readable)
  with True Unknown show ?thesis
    unfolding evaluate_files_def truth_False_iff [of "files_loop env host c None False paths"] by auto
qed

text \<open>What cannot be read counts as read and without the line.\<close>

lemma entries_unread:
  assumes "\<And>name. name \<in> set entries \<Longrightarrow> line_matches env names name \<Longrightarrow>
    \<not> readable (ho_read_file host (trim_end_char (CHR ''/'') path @ ''/'' @ name))"
  shows "\<not> entries_match env host names (Some c) path entries"
proof
  assume "entries_match env host names (Some c) path entries"
  then obtain name where n: "name \<in> set (take MAX_DIRECTORY_FILES (filter (line_matches env names) entries))"
      "readable (ho_read_file host (trim_end_char (CHR ''/'') path @ ''/'' @ name))"
    by (auto simp: entries_match_def list_ex_iff case_Inr_only)
  then have "name \<in> set (filter (line_matches env names) entries)" by (meson in_set_takeD)
  with assms n(2) show False by auto
qed

text \<open>A rule that asks that no entry of a directory has a line is true, and a check of that rule
  passes, when the directory can be listed and none of the files the rule asks about can be read.\<close>

theorem unread_files_pass:
  assumes "ho_list_directory host path = Inr entries"
    and "\<forall>name\<in>set entries. line_matches env names name \<longrightarrow>
      \<not> readable (ho_read_file host (trim_end_char (CHR ''/'') path @ ''/'' @ name))"
    and "ru_target r = TgDirectory [path] (Some names) (Some c)" and "ru_negated r"
  shows "evaluate_check env host CAll [r] = (OPassed, [TTrue])"
proof -
  have "\<not> entries_match env host names (Some c) path entries" using assms(2) by (intro entries_unread) auto
  with assms show ?thesis
    by (simp add: evaluate_check_def evaluate_sca_rule_def evaluate_target_def evaluate_directories_def
        inverted_def combine_def Let_def)
qed

text \<open>Likewise a registry key, when \<open>reg\<close> cannot be run or does not answer.\<close>

lemma unread_key_passes:
  assumes "sy_windows sy" and "sy_run sy [''reg'', ''query'', key] = Inl e"
    and "ru_target r = TgRegistry key None c" and "ru_negated r"
  shows "evaluate_check env (system_host sy) CAll [r] = (OPassed, [TTrue])"
  using assms
  by (simp add: evaluate_check_def evaluate_sca_rule_def evaluate_target_def evaluate_registry_def system_host_def
      host_registry_key_exists_def host_registry_values_def inverted_def truth_from_def combine_def Let_def)

section \<open>Registering policies\<close>

text \<open>What a registration may do to a registry: add enabled checks of policies, with rules, and no more.\<close>

definition only_adds :: "sca_registry \<Rightarrow> sca_registry \<Rightarrow> bool" where
  "only_adds rg rg' \<longleftrightarrow>
     map_of (rg_checks rg) \<subseteq>\<^sub>m map_of (rg_checks rg') \<and> rg_disabled rg' = rg_disabled rg \<and>
     dom (map_of (rg_checks rg')) - dom (map_of (rg_checks rg)) \<subseteq> {k. prefix SCA_ID_PREFIX k}"

lemma only_adds_refl [simp]: "only_adds rg rg"
  by (simp add: only_adds_def)

lemma only_adds_trans: "only_adds a b \<Longrightarrow> only_adds b c \<Longrightarrow> only_adds a c"
  unfolding only_adds_def by (auto dest: map_le_trans) blast

lemma only_adds_register:
  assumes "get_check rg (check_id c) = None" and "prefix SCA_ID_PREFIX (check_id c)"
  shows "only_adds rg (register c rg)"
  using assms by (auto simp: only_adds_def register_def get_check_def map_le_def update_conv' dom_def split: if_splits)

lemma check_id_sca [simp]: "check_id (sca_check env c) = cd_id (fst c)"
  by (cases c) (simp add: check_id_def sca_check_def)

definition sca_named :: "('re, 'num) policy_check \<Rightarrow> bool" where
  "sca_named c \<longleftrightarrow> prefix SCA_ID_PREFIX (cd_id (fst c))"

lemma register_checks_only_adds:
  "list_all sca_named cs \<Longrightarrow> only_adds rg (snd (snd (register_checks env label cs rg)))
     \<and> card (dom (map_of (rg_checks (snd (snd (register_checks env label cs rg)))))) =
         card (dom (map_of (rg_checks rg))) + fst (register_checks env label cs rg)"
proof (induction cs arbitrary: rg)
  case (Cons c cs)
  show ?case
  proof (cases "get_check rg (cd_id (fst c)) = None")
    case True
    let ?rg = "register (sca_check env c) rg"
    obtain n es rg' where r: "register_checks env label cs ?rg = (n, es, rg')" by (cases "register_checks env label cs ?rg")
    have a: "only_adds rg ?rg" using Cons.prems True by (intro only_adds_register) (simp_all add: sca_named_def)
    have "card (dom (map_of (rg_checks ?rg))) = Suc (card (dom (map_of (rg_checks rg))))"
      using True by (simp add: register_def update_conv' get_check_def finite_dom_map_of domIff)
    with Cons.IH [of ?rg] Cons.prems only_adds_trans [OF a] True r show ?thesis by simp
  next
    case False
    obtain n es rg' where r: "register_checks env label cs rg = (n, es, rg')" by (cases "register_checks env label cs rg")
    with Cons.IH [of rg] Cons.prems False show ?thesis by auto
  qed
qed simp

lemma sca_definition_id: "cd_id (sca_definition head c k title sev cat) = SCA_ID_PREFIX @ ph_id head @ ''_'' @ policy_identifier k"
  by (simp add: sca_definition_def case_prod_beta)

lemma parse_check_named: "parse_check env head c k = Inr x \<Longrightarrow> sca_named x"
  by (auto simp: parse_check_def sca_named_def sca_definition_id map_sum_Inr
      split: option.splits sum.splits prod.splits)

lemma parse_checks_named: "list_all sca_named (fst (parse_checks env head cs))"
  by (induction cs) (auto split: prod.splits option.splits sum.splits dest: parse_check_named)

lemma parse_policy_named:
  assumes "parse_policy env load_yaml s = Inr p"
  shows "list_all sca_named (po_checks p)"
proof -
  obtain head cs errors where "parse_checks env head cs = (po_checks p, errors)"
    using assms by (auto simp: parse_policy_def Let_def split: option.splits list.splits if_splits sum.splits prod.splits)
  then show ?thesis using parse_checks_named [of env head cs] by simp
qed

text \<open>The state of a registration that began with a registry and an empty report.\<close>

definition registering :: "sca_registry \<Rightarrow> sca_registry \<times> sca_report \<Rightarrow> bool" where
  "registering rg st \<longleftrightarrow> only_adds rg (fst st) \<and>
     card (dom (map_of (rg_checks (fst st)))) = card (dom (map_of (rg_checks rg))) + report_checks (snd st)"

lemma registering_start [simp]: "registering rg (rg, empty_report)"
  by (simp add: registering_def empty_report_def report_checks_def)

lemma registering_error: "registering rg st \<Longrightarrow> registering rg (add_load_error e st)"
  by (simp add: registering_def add_load_error_def report_checks_def)

lemma registering_policy:
  assumes "registering rg st" and "list_all sca_named (po_checks p)"
  shows "registering rg (register_policy env os host label p st)"
proof (cases "policy_applies env os host p")
  case None
  obtain rg1 rp where st: "st = (rg1, rp)" by force
  obtain n es rg2 where r: "register_checks env label (po_checks p) rg1 = (n, es, rg2)"
    by (cases "register_checks env label (po_checks p) rg1")
  with register_checks_only_adds [OF assms(2), of rg1 env label] assms(1) None show ?thesis
    by (auto simp: st registering_def register_policy_def Let_def report_checks_def dest: only_adds_trans)
next
  case (Some why)
  with assms(1) show ?thesis
    by (auto simp: registering_def register_policy_def Let_def report_checks_def split: prod.split)
qed

lemma registering_text: "registering rg st \<Longrightarrow> registering rg (register_text env load_yaml os host label s st)"
  by (auto simp: register_text_def split: sum.split intro: registering_error registering_policy dest: parse_policy_named)

lemma registering_file: "registering rg st \<Longrightarrow> registering rg (register_file env load_yaml os host f st)"
  by (auto simp: register_file_def split: option.split intro: registering_error registering_text)

lemma registering_fold:
  "(\<And>x st. registering rg st \<Longrightarrow> registering rg (f x st)) \<Longrightarrow> registering rg st \<Longrightarrow> registering rg (fold f xs st)"
  by (induction xs arbitrary: st) auto

text \<open>Loading policies, those shipped with the agent or those of a directory, replaces and disables no
  check: what was registered stays, every check added has an identifier of policies, and as many
  are added as the report says.\<close>

theorem policies_only_add:
  "registering rg (register_policies env load_yaml os host dir rg)
   \<and> registering rg (register_builtin_policies env load_yaml os host shipped rg)"
  by (auto simp: register_policies_def register_builtin_policies_def split: option.split
      intro!: registering_fold registering_file registering_text registering_error)

section \<open>At concrete inputs\<close>

text \<open>Regular expressions that match a text that contains them, and no numbers.\<close>

definition plain_env :: "(string, nat) sca_env" where
  "plain_env =
     \<lparr>sx_build = (\<lambda>_ p. Some p), sx_is_match = (\<lambda>re l. str_contains l re), sx_groups = (\<lambda>_. 1), sx_capture = (\<lambda>_ _. None),
      sx_escape = (\<lambda>s. s), sx_parse_f64 = (\<lambda>_. None), sx_lt = (<), sx_le = (\<le>), sx_near = (=), sx_far = (\<noteq>)\<rparr>"

definition locked_host :: sca_host where
  "locked_host =
     \<lparr>ho_read_file = (\<lambda>_. Inl (Other ''denied'')), ho_file_exists = (\<lambda>_. True), ho_directory_exists = (\<lambda>_. True),
      ho_list_directory = (\<lambda>_. Inr [''a.conf'']), ho_processes = [], ho_run = (\<lambda>_. Inl Missing),
      ho_registry_key_exists = (\<lambda>_. Inr False), ho_registry_values = (\<lambda>_. Inr [])\<rparr>"

definition no_bad_line :: "(string, nat) sca_rule" where
  "no_bad_line = \<lparr>ru_source = [], ru_negated = True,
     ru_target = TgDirectory [''/d''] (Some [(False, PMatches ''conf'')]) (Some [(False, PEquals ''bad'')])\<rparr>"

theorem unread_files_pass_witness:
  "evaluate_check plain_env locked_host CAll [no_bad_line] = (OPassed, [TTrue])"
  using unread_files_pass [of locked_host "''/d''" "[''a.conf'']" plain_env "[(False, PMatches ''conf'')]" no_bad_line "[(False, PEquals ''bad'')]"]
  by (simp add: locked_host_def no_bad_line_def)

end
