(* ===== verification/Check_Props.thy ===== *)
theory Check_Props imports Sca_Props Check_Runner begin

text \<open>What running and scoring checks promises, those of policies among them.\<close>

section \<open>Running checks\<close>

definition status_of :: "sca_outcome \<Rightarrow> check_status" where
  "status_of o' = (case o' of OPassed \<Rightarrow> StPass | OFailed \<Rightarrow> StFail | ONotApplicable _ \<Rightarrow> StSkipped)"

lemma execute_sca_output:
  "is_not_applicable (execute_sca env c rules host) \<longleftrightarrow> (\<exists>why. fst (evaluate_check env host c rules) = ONotApplicable why)"
  "co_passed (execute_sca env c rules host) \<longleftrightarrow> fst (evaluate_check env host c rules) = OPassed"
  by (auto simp: execute_sca_def is_not_applicable_def with_metadata_def not_applicable_def output_pass_def output_fail_def
      NOT_APPLICABLE_def update_conv' Let_def split: prod.split sca_outcome.split)

lemma policy_check_status:
  "\<exists>res. execute_check (\<lambda>_. None) host (sca_check env (d, c, rules)) = Some res \<and> cr_check_id res = cd_id d
     \<and> cr_status res = status_of (fst (evaluate_check env host c rules))"
  using execute_sca_output [of env c rules host]
  by (auto simp: execute_check_def sca_check_def check_id_def status_of_def result_pass_def result_fail_def
      split: sca_outcome.split)

definition counts :: "score_input \<Rightarrow> bool" where
  "counts i \<longleftrightarrow> cr_status (in_result i) \<in> {StPass, StFail, StError}"

definition same_scores :: "tally \<Rightarrow> tally \<Rightarrow> bool" where
  "same_scores a b \<longleftrightarrow> a\<lparr>ta_skipped := 0\<rparr> = b\<lparr>ta_skipped := 0\<rparr>"

lemma tally_counts: "same_scores a b \<Longrightarrow> counts i \<Longrightarrow> same_scores (tally_input config i a) (tally_input config i b)"
  by (cases a; cases b) (auto simp: same_scores_def tally_input_def counts_def Let_def)

lemma tally_ignored: "\<not> counts i \<Longrightarrow> same_scores (tally_input config i a) a"
  by (cases "cr_status (in_result i)") (auto simp: same_scores_def tally_input_def counts_def Let_def)

lemma tally_filter: "same_scores a b \<Longrightarrow> same_scores (fold (tally_input config) is a) (fold (tally_input config) (filter counts is) b)"
proof (induction "is" arbitrary: a b)
  case (Cons i "is")
  show ?case
  proof (cases "counts i")
    case True
    with Cons.IH [OF tally_counts [OF Cons.prems]] show ?thesis by simp
  next
    case False
    have "same_scores (tally_input config i a) b" using tally_ignored [OF False, of config a] Cons.prems by (simp add: same_scores_def)
    from Cons.IH [OF this] False show ?thesis by simp
  qed
qed simp

lemma same_scoresD: "same_scores a b \<Longrightarrow> ta_weighted_pass a = ta_weighted_pass b \<and> ta_weighted_total a = ta_weighted_total b
    \<and> ta_categories a = ta_categories b \<and> ta_frameworks a = ta_frameworks b"
  by (cases a; cases b) (simp add: same_scores_def)

text \<open>A check of a policy passes, fails or is skipped as its outcome is passed, failed or not
  applicable; and what is skipped counts neither for nor against: the score, those of the categories and
  those of the frameworks are the scores of the other checks.\<close>

theorem not_applicable_never_scores:
  "(\<exists>res. execute_check (\<lambda>_. None) host (sca_check env (d, c, rules)) = Some res \<and> cr_check_id res = cd_id d
      \<and> cr_status res = status_of (fst (evaluate_check env host c rules)))
   \<and> (let whole = calculate_with_previous config inputs prev;
          counted = calculate_with_previous config (filter counts inputs) prev
      in sc_score whole = sc_score counted \<and> sc_categories whole = sc_categories counted
         \<and> sc_frameworks whole = sc_frameworks counted)"
proof -
  have "same_scores (fold (tally_input config) inputs no_tally) (fold (tally_input config) (filter counts inputs) no_tally)"
    by (rule tally_filter) (simp add: same_scores_def)
  note same = same_scoresD [OF this]
  show ?thesis
    using policy_check_status [of host env d c rules] same
    by (auto simp: calculate_with_previous_def Let_def no_tally_def percent_def)
qed

text \<open>Disabling a check by a rule keeps it out of every scan, but not of a run by its identifier:
  \<open>run_check\<close> executes it.\<close>

theorem run_check_ignores_rules:
  assumes "get_check rg (cd_id rule) = Some c" and "\<not> cd_enabled rule" and "check_id c = cd_id rule"
    and "cd_enabled (ck_definition c)" and "is_platform_supported os c"
  shows "run_check os slow host (apply_rules [rule] rg) (cd_id rule) = map_option Inr (execute_check slow host c)
    \<and> c \<notin> set (enabled_checks_for_frameworks os active (apply_rules [rule] rg))"
  using assms by (simp add: apply_rules_def apply_rule_def run_check_def get_check_def enabled_checks_for_frameworks_def)

section \<open>The score\<close>

lemma percent_bounds: "0 \<le> earned \<Longrightarrow> earned \<le> whole \<Longrightarrow> 0 \<le> percent earned whole \<and> percent earned whole \<le> 100"
proof (cases "0 < whole")
  case True
  assume e: "0 \<le> earned" "earned \<le> whole"
  have "f64 (earned / whole) \<le> f64 1" using True e by (intro fround_mono) (simp_all add: field_simps)
  also have "\<dots> = 1" using fround_of_nat [of 1 53] by simp
  finally have le: "f64 (earned / whole) \<le> 1" .
  have ge: "0 \<le> f64 (earned / whole)" using True e by (intro fround_nonneg) simp_all
  have "f64 (f64 (earned / whole) * 100) \<le> f64 100" using le ge by (intro fround_mono) simp_all
  also have "\<dots> = 100" using fround_of_nat [of 100 53] by simp
  finally show ?thesis using True ge by (auto simp: percent_def intro: fround_nonneg)
qed (simp add: percent_def)

definition fraction_ok :: "rat \<times> rat \<Rightarrow> bool" where
  "fraction_ok x \<longleftrightarrow> 0 \<le> fst x \<and> fst x \<le> snd x \<and> f64 (snd x) = snd x"

definition category_ok :: "nat \<times> nat \<times> nat \<Rightarrow> bool" where
  "category_ok x \<longleftrightarrow> fst x + snd (snd x) \<le> fst (snd x)"

definition tally_ok :: "tally \<Rightarrow> bool" where
  "tally_ok ta \<longleftrightarrow> fraction_ok (ta_weighted_pass ta, ta_weighted_total ta) \<and>
     list_all (\<lambda>(_, x). category_ok x) (ta_categories ta) \<and> list_all (\<lambda>(_, x). fraction_ok x) (ta_frameworks ta)"

lemma list_all_update: "list_all (\<lambda>(_, x). P x) m \<Longrightarrow> P v \<Longrightarrow> list_all (\<lambda>(_, x). P x) (AList.update k v m)"
  by (induction m) auto

lemma list_all_unwrap: "list_all (\<lambda>(_, x). P x) m \<Longrightarrow> P d \<Longrightarrow> P (unwrap_or (map_of m k) d)"
  by (induction m) (auto simp: unwrap_or_def)

lemma fraction_earn: "fraction_ok (p, t) \<Longrightarrow> 0 \<le> w \<Longrightarrow> fraction_ok (f64 (p + w), f64 (t + w))"
  by (auto simp: fraction_ok_def fround_idem intro: fround_nonneg fround_mono)

lemma fraction_lose:
  assumes "fraction_ok (p, t)" and "0 \<le> w"
  shows "fraction_ok (p, f64 (t + w))"
proof -
  from assms have "t = f64 t" "0 \<le> t" by (auto simp: fraction_ok_def)
  with assms(2) have "t \<le> f64 (t + w)" by (metis fround_mono le_add_same_cancel1 one_le_numeral)
  with assms show ?thesis by (auto simp: fraction_ok_def fround_idem)
qed

lemma tally_frameworks_ok:
  assumes "list_all (\<lambda>(_, x). fraction_ok x) m" and "0 \<le> w" and "earned \<in> {None, Some w}"
  shows "list_all (\<lambda>(_, x). fraction_ok x) (tally_frameworks earned w fws m)"
  using assms(1)
proof (induction fws arbitrary: m)
  case (Cons fw fws)
  obtain p t where u: "unwrap_or (map_of m fw) (0, 0) = (p, t)" by force
  have "fraction_ok (p, t)" using list_all_unwrap [OF Cons.prems, of "(0, 0)" fw] by (simp add: u fraction_ok_def)
  then have "fraction_ok (case earned of None \<Rightarrow> p | Some w \<Rightarrow> f64 (p + w), f64 (t + w))"
    using assms(2,3) fraction_earn [of p t w] fraction_lose [of p t w] by (auto split: option.split)
  with Cons show ?case by (simp add: u list_all_update)
qed simp

lemma tally_category_ok:
  assumes "list_all (\<lambda>(_, x). category_ok x) m" and "category_ok d"
  shows "list_all (\<lambda>(_, x). category_ok x) (tally_category d k m)"
  using assms list_all_unwrap [OF assms(1), of "(0, 0, 0)" k]
  by (auto simp: tally_category_def category_ok_def split: prod.split intro!: list_all_update)

lemma category_ok_steps: "category_ok (1, 1, 0)" "category_ok (0, 1, 0)" "category_ok (0, 1, 1)"
  by (simp_all add: category_ok_def)

lemma tally_input_ok:
  assumes "tally_ok ta" and "0 \<le> weight_for config (in_severity i)"
  shows "tally_ok (tally_input config i ta)"
  using assms
  by (cases "cr_status (in_result i)")
     (auto simp: tally_ok_def tally_input_def Let_def category_ok_steps [simplified]
       intro: fraction_earn fraction_lose tally_category_ok tally_frameworks_ok)

lemma tally_fold_ok:
  "tally_ok ta \<Longrightarrow> (\<And>s. 0 \<le> weight_for config s) \<Longrightarrow> tally_ok (fold (tally_input config) is ta)"
  by (induction "is" arbitrary: ta) (simp_all add: tally_input_ok)

definition in_percent :: "rat \<Rightarrow> bool" where
  "in_percent x \<longleftrightarrow> 0 \<le> x \<and> x \<le> 100"

lemma in_percent_fraction: "fraction_ok (p, t) \<Longrightarrow> in_percent (percent p t)"
  using percent_bounds [of p t] by (simp add: in_percent_def fraction_ok_def)

lemma category_score_ok: "category_ok x \<Longrightarrow> in_percent (cs_score (category_score_of x))
    \<and> cs_passed (category_score_of x) + cs_failed (category_score_of x) \<le> cs_total (category_score_of x)"
proof (cases x)
  case (fields p t e)
  assume "category_ok x"
  then have "p + e \<le> t" by (simp add: fields category_ok_def)
  then have "0 \<le> f64 (of_nat p)" "f64 (of_nat p) \<le> f64 (of_nat t)" by (auto intro: fround_nonneg fround_mono)
  with percent_bounds [of "f64 (of_nat p)" "f64 (of_nat t)"] \<open>p + e \<le> t\<close> show ?thesis
    by (simp add: fields category_score_of_def in_percent_def)
qed

text \<open>With the default weights the score, those of the categories and those of the frameworks are
  between 0 and 100, in the rounded arithmetic of the code too; and the failures of a category are its
  total less what passed and the errors, which never underflows.\<close>

theorem score_bounds:
  "in_percent (sc_score (calculate_with_previous default_weights inputs prev))
   \<and> list_all (\<lambda>(_, c). in_percent (cs_score c) \<and> cs_passed c + cs_failed c \<le> cs_total c)
       (sc_categories (calculate_with_previous default_weights inputs prev))
   \<and> list_all (\<lambda>(_, x). in_percent x) (sc_frameworks (calculate_with_previous default_weights inputs prev))
   \<and> tally_ok (fold (tally_input default_weights) inputs no_tally)"
proof -
  have "tally_ok (fold (tally_input default_weights) inputs no_tally)"
    by (rule tally_fold_ok)
       (simp_all add: tally_ok_def no_tally_def fraction_ok_def weight_for_def default_weights_def split: check_severity.split)
  then show ?thesis
    by (auto simp: calculate_with_previous_def Let_def tally_ok_def list_all_iff in_percent_fraction category_score_ok
        in_percent_def [of 0])
qed

section \<open>At a concrete input\<close>

definition sample_definition :: check_definition where
  "sample_definition = \<lparr>cd_id = ''x'', cd_name = [], cd_description = [], cd_category = CatGeneral, cd_severity = ChkHigh,
     cd_frameworks = [], cd_enabled = True, cd_platforms = [], cd_parameters = None\<rparr>"

definition sample_check :: "(unit \<Rightarrow> execution) check" where
  "sample_check = \<lparr>ck_definition = sample_definition, ck_execute = (\<lambda>_. Raised ''e'')\<rparr>"

theorem run_check_ignores_rules_witness:
  "run_check Linux (\<lambda>_. None) () (apply_rules [sample_definition\<lparr>cd_enabled := False\<rparr>] (register sample_check new_registry)) ''x''
     = Some (Inr (result_error ''x'' ''e''))"
  using run_check_ignores_rules [of "register sample_check new_registry" "sample_definition\<lparr>cd_enabled := False\<rparr>" sample_check
      Linux "\<lambda>_. None" "()"]
  by (simp add: register_def new_registry_def get_check_def sample_check_def sample_definition_def check_id_def
      is_platform_supported_def execute_check_def)

end
