(* ===== verification/Self_Update.thy ===== *)
theory Self_Update imports Prelude "HOL-Library.Word" begin

text \<open>
  The update of the agent by itself: \<open>update_manager.rs\<close> and \<open>self_update.rs\<close> of \<open>agent-core\<close>, the
  manifest of \<open>agent-common/src/types/update.rs\<close>, and the two downloads of \<open>api_client.rs\<close>.

  The libraries are fields of \<open>update_env\<close>: \<open>semver\<close> parses a version into any linear order, \<open>hex\<close>
  decodes, \<open>ring\<close> verifies, \<open>sha2\<close> hashes, \<open>serde_json\<close> reads a manifest. What the host and the
  network answer during one run is an \<open>update_host\<close>. The record on disk of the last attempt is what
  it parses to, \<^const>\<open>None\<close> when it is missing or unreadable.
\<close>

unbundle bit_operations_syntax

section \<open>Data\<close>

text \<open>Errors keep their class, not their message.\<close>

datatype common_error = Validation | IoFailure | Network | NotSupported | SystemFailure

record update_info =
  ui_version :: string
  ui_date :: string

record update_manifest =
  um_version :: string
  um_package :: string
  um_sha256 :: string
  um_size :: u64

record update_attempt =
  ua_from :: string
  ua_target :: string
  ua_started :: i64
  ua_reported :: bool

datatype update_outcome = Completed string | Failed string

record 'v update_env =
  ue_version :: string
  ue_pubkey :: "string option"
  ue_parse :: "string \<Rightarrow> 'v option"
  ue_hex :: "string \<Rightarrow> string option"
  ue_verify :: "string \<Rightarrow> string \<Rightarrow> string \<Rightarrow> bool"
  ue_sha256 :: "string \<Rightarrow> string"
  ue_manifest :: "string \<Rightarrow> update_manifest option"
  ue_release :: "string \<Rightarrow> update_info option"
  ue_lower :: "string \<Rightarrow> string"
  ue_utf8 :: "string \<Rightarrow> bool"

text \<open>An answer: its status, the announced length, the chunks of the body, and the body as text.\<close>

record http_answer =
  ha_success :: bool
  ha_length :: "nat option"
  ha_chunks :: "string option list"
  ha_text :: "string option"

datatype stored = Stored | Untouched | Truncated

record update_host =
  uh_os :: platform_os
  uh_admin :: bool
  uh_debian :: bool
  uh_aarch64 :: bool
  uh_enrolled :: bool
  uh_client :: "common_error option"
  uh_web :: "string \<Rightarrow> http_answer option"
  uh_temp :: "string option"
  uh_create :: bool
  uh_write :: "nat \<Rightarrow> bool"
  uh_flush :: bool
  uh_read :: bool
  uh_store :: stored
  uh_checked :: i64
  uh_started :: i64
  uh_instant :: nat
  uh_osascript :: "string \<Rightarrow> bool option"
  uh_spawn :: "string list \<Rightarrow> bool"

text \<open>What a run leaves behind, in order.\<close>

datatype update_effect =
    Report string "string option" bool
  | WroteAttempt update_attempt stored
  | KillGui
  | StartInstaller "string list" string
  | ScheduleRelaunch

section \<open>Paths and packages\<close>

definition UNSAFE_PATH_CHARS :: string where
  "UNSAFE_PATH_CHARS =
     [CHR '';'', CHR ''|'', CHR ''&'', CHR ''$'', CHR 0x60, CHR 0x27, CHR 0x22, CHR 0x5C, CHR 0x0A, CHR 0x0D,
      CHR ''('', CHR '')'', CHR ''{'', CHR ''}'', CHR ''<'', CHR ''>'', CHR ''*'', CHR ''?'',
      CHR ''['', CHR '']'', CHR ''!'', CHR ''#'', CHR ''~'']"

definition validate_installer_path_for_platform :: "string \<Rightarrow> bool \<Rightarrow> common_error + unit" where
  "validate_installer_path_for_platform path_str windows =
     (if path_str = [] \<or> CHR 0x00 \<in> set path_str \<or>
         list_ex (\<lambda>c. c \<in> set UNSAFE_PATH_CHARS \<and> \<not> (windows \<and> c = CHR 0x5C)) path_str
      then Inl Validation else Inr ())"

definition validate_installer_path :: "platform_os \<Rightarrow> string \<Rightarrow> common_error + unit" where
  "validate_installer_path os path_str = validate_installer_path_for_platform path_str (os = Windows)"

definition linux_package_details :: "bool \<Rightarrow> bool \<Rightarrow> string \<times> string" where
  "linux_package_details debian aarch64 =
     (case (debian, aarch64) of
        (True, False) \<Rightarrow> (''sentinel-agent-latest-amd64.deb'', ''sentinel-agent-latest-amd64.deb.sha256'')
      | (True, True) \<Rightarrow> (''sentinel-agent-latest-arm64.deb'', ''sentinel-agent-latest-arm64.deb.sha256'')
      | (False, False) \<Rightarrow> (''sentinel-agent-latest.x86_64.rpm'', ''sentinel-agent-latest.x86_64.rpm.sha256'')
      | (False, True) \<Rightarrow> (''sentinel-agent-latest.aarch64.rpm'', ''sentinel-agent-latest.aarch64.rpm.sha256''))"

definition get_platform_folder :: "update_host \<Rightarrow> string" where
  "get_platform_folder host =
     (case uh_os host of
        MacOs \<Rightarrow> ''macos''
      | Windows \<Rightarrow> ''windows''
      | Linux \<Rightarrow> if uh_debian host then ''linux_deb'' else ''linux_rpm'')"

definition get_platform_package_details :: "update_host \<Rightarrow> string \<times> string" where
  "get_platform_package_details host =
     (case uh_os host of
        MacOs \<Rightarrow> (''SentinelAgent-latest.pkg'', ''SentinelAgent-latest.pkg.sha256'')
      | Windows \<Rightarrow> (''SentinelAgentSetup-latest.msi'', ''SentinelAgentSetup-latest.msi.sha256'')
      | Linux \<Rightarrow> linux_package_details (uh_debian host) (uh_aarch64 host))"

text \<open>\<open>Path::join\<close> for a file name.\<close>

definition path_join :: "platform_os \<Rightarrow> string \<Rightarrow> string \<Rightarrow> string" where
  "path_join os dir name =
     (let sep = (if os = Windows then CHR 0x5C else CHR ''/'')
      in if dir \<noteq> [] \<and> last dir = sep then dir @ name else dir @ [sep] @ name)"

section \<open>The signed manifest\<close>

definition eq_ignore_ascii_case :: "string \<Rightarrow> string \<Rightarrow> bool" where
  "eq_ignore_ascii_case a b \<longleftrightarrow> to_ascii_lowercase a = to_ascii_lowercase b"

definition signed_message :: "update_manifest \<Rightarrow> string" where
  "signed_message m =
     ''sentinel-update-manifest-v1'' @ [CHR 0x0A] @ um_version m @ [CHR 0x0A] @ um_package m @ [CHR 0x0A] @
     to_ascii_lowercase (um_sha256 m) @ [CHR 0x0A] @ show_nat (um_size m) @ [CHR 0x0A]"

definition version_char :: "char \<Rightarrow> bool" where
  "version_char c \<longleftrightarrow> is_ascii_alphanumeric c \<or> c \<in> {CHR ''.'', CHR ''-'', CHR ''+''}"

definition package_char :: "char \<Rightarrow> bool" where
  "package_char c \<longleftrightarrow> is_ascii_alphanumeric c \<or> c \<in> {CHR ''.'', CHR ''-'', CHR ''_''}"

definition validate_manifest :: "update_manifest \<Rightarrow> bool" where
  "validate_manifest m \<longleftrightarrow>
     (um_version m \<noteq> [] \<and> list_all version_char (um_version m)) \<and>
     (um_package m \<noteq> [] \<and> \<not> prefix ''.'' (um_package m) \<and> list_all package_char (um_package m)) \<and>
     (length (um_sha256 m) = 64 \<and> list_all is_ascii_hexdigit (um_sha256 m)) \<and>
     um_size m \<noteq> 0"

definition embedded_update_public_key :: "'v update_env \<Rightarrow> common_error + string option" where
  "embedded_update_public_key env =
     (case ue_pubkey env of
        None \<Rightarrow> Inr None
      | Some hex_key \<Rightarrow>
          (let hex_key = trim hex_key in
           if hex_key = [] then Inr None
           else case ue_hex env hex_key of
             None \<Rightarrow> Inl Validation
           | Some bytes \<Rightarrow> if length bytes \<noteq> 32 then Inl Validation else Inr (Some bytes)))"

definition first_word :: "string \<Rightarrow> string option" where
  "first_word s = map_option fst (next_word s)"

definition verify_ed25519_signature ::
  "'v update_env \<Rightarrow> string \<Rightarrow> string \<Rightarrow> string \<Rightarrow> common_error + unit" where
  "verify_ed25519_signature env public_key package_bytes signature_text =
     (let sig_hex = trim (unwrap_or (first_word signature_text) []) in
      case ue_hex env sig_hex of
        None \<Rightarrow> Inl Validation
      | Some signature \<Rightarrow>
          if length signature \<noteq> 64 then Inl Validation
          else if ue_verify env public_key package_bytes signature then Inr () else Inl Validation)"

definition same_version :: "('v::linorder) update_env \<Rightarrow> string \<Rightarrow> string \<Rightarrow> bool" where
  "same_version env a b \<longleftrightarrow>
     (case (ue_parse env a, ue_parse env b) of (Some v, Some announced) \<Rightarrow> v = announced | _ \<Rightarrow> False)"

definition verify_manifest ::
  "('v::linorder) update_env \<Rightarrow> string \<Rightarrow> string \<Rightarrow> string \<Rightarrow> string \<Rightarrow> string \<Rightarrow> string \<Rightarrow> u64 \<Rightarrow>
     common_error + update_manifest" where
  "verify_manifest env public_key manifest_json signature_text announced_version package_name package_sha256 package_size =
     (case ue_manifest env manifest_json of
        None \<Rightarrow> Inl Validation
      | Some manifest \<Rightarrow>
          if \<not> validate_manifest manifest then Inl Validation
          else case verify_ed25519_signature env public_key (signed_message manifest) signature_text of
            Inl e \<Rightarrow> Inl e
          | Inr _ \<Rightarrow>
              if \<not> same_version env (um_version manifest) announced_version then Inl Validation
              else if um_package manifest \<noteq> package_name then Inl Validation
              else if \<not> eq_ignore_ascii_case (um_sha256 manifest) package_sha256 \<or> um_size manifest \<noteq> package_size
              then Inl Validation
              else Inr manifest)"

section \<open>Downloads\<close>

definition MAX_DOWNLOAD_SIZE :: u64 where "MAX_DOWNLOAD_SIZE = 500 * 1024 * 1024"

definition fetch_text :: "update_host \<Rightarrow> string \<Rightarrow> common_error + string" where
  "fetch_text host url =
     (case uh_web host url of
        None \<Rightarrow> Inl Network
      | Some response \<Rightarrow>
          if \<not> ha_success response then Inl Network
          else case ha_text response of None \<Rightarrow> Inl Network | Some body \<Rightarrow> Inr (trim body))"

text \<open>The loop over the chunks of the body: \<open>file\<close> is what has been written.\<close>

fun download_chunks :: "(nat \<Rightarrow> bool) \<Rightarrow> string option list \<Rightarrow> string \<Rightarrow> common_error + string" where
  "download_chunks write [] file = Inr file"
| "download_chunks write (None # chunks) file = Inl Network"
| "download_chunks write (Some chunk # chunks) file =
     (if MAX_DOWNLOAD_SIZE < length file + length chunk then Inl Network
      else if \<not> write (length file + length chunk) then Inl IoFailure
      else download_chunks write chunks (file @ chunk))"

definition download_file :: "update_host \<Rightarrow> string \<Rightarrow> common_error + string" where
  "download_file host url =
     (case uh_web host url of
        None \<Rightarrow> Inl Network
      | Some response \<Rightarrow>
          if \<not> ha_success response then Inl Network
          else if (case ha_length response of None \<Rightarrow> False | Some n \<Rightarrow> MAX_DOWNLOAD_SIZE < n) then Inl Network
          else if \<not> uh_create host then Inl IoFailure
          else case download_chunks (uh_write host) (ha_chunks response) [] of
            Inl e \<Rightarrow> Inl e
          | Inr file \<Rightarrow> if uh_flush host then Inr file else Inl IoFailure)"

definition get_latest_release_info :: "'v update_env \<Rightarrow> update_host \<Rightarrow> string \<Rightarrow> common_error + update_info" where
  "get_latest_release_info env host base =
     (case uh_web host (base @ ''/release-info.json'') of
        None \<Rightarrow> Inl Network
      | Some response \<Rightarrow>
          if \<not> ha_success response then Inl Network
          else case ha_text response of
            None \<Rightarrow> Inl Network
          | Some body \<Rightarrow> (case ue_release env body of None \<Rightarrow> Inl Network | Some info \<Rightarrow> Inr info))"

text \<open>\<open>sha256_file\<close>: the file read is the one downloaded.\<close>

definition sha256_file :: "'v update_env \<Rightarrow> update_host \<Rightarrow> string \<Rightarrow> common_error + string" where
  "sha256_file env host file = (if uh_read host then Inr (ue_sha256 env file) else Inl IoFailure)"

section \<open>The record of the last attempt\<close>

definition RETRY_AFTER_FAILURE_SECS :: i64 where "RETRY_AFTER_FAILURE_SECS = 24 * 60 * 60"

definition store_attempt :: "stored \<Rightarrow> update_attempt \<Rightarrow> update_attempt option \<Rightarrow> update_attempt option" where
  "store_attempt how a old = (case how of Stored \<Rightarrow> Some a | Untouched \<Rightarrow> old | Truncated \<Rightarrow> None)"

definition reached :: "('v::linorder) update_env \<Rightarrow> string \<Rightarrow> string \<Rightarrow> bool" where
  "reached env running_version target_version \<longleftrightarrow>
     (case (ue_parse env running_version, ue_parse env target_version) of
        (Some running, Some target) \<Rightarrow> target \<le> running
      | _ \<Rightarrow> running_version = target_version)"

definition settle_attempt :: "('v::linorder) update_env \<Rightarrow> update_attempt \<Rightarrow> string \<Rightarrow> update_outcome option" where
  "settle_attempt env a running_version =
     (if ua_reported a then None
      else Some (if reached env running_version (ua_target a) then Completed (ua_target a) else Failed (ua_target a)))"

text \<open>\<^const>\<open>None\<close>: \<open>now - started_at\<close> overflows, which panics.\<close>

definition attempt_delays_retry :: "update_attempt \<Rightarrow> string \<Rightarrow> i64 \<Rightarrow> bool option" where
  "attempt_delays_retry a target_version now =
     (if ua_target a = target_version
      then map_option (\<lambda>d. 0 \<le> d \<and> d < RETRY_AFTER_FAILURE_SECS) (checked_i64 (now - ua_started a))
      else Some False)"

definition retry_delayed :: "update_attempt option \<Rightarrow> string \<Rightarrow> i64 \<Rightarrow> bool option" where
  "retry_delayed stored_attempt target_version now =
     (case stored_attempt of None \<Rightarrow> Some False | Some a \<Rightarrow> attempt_delays_retry a target_version now)"

text \<open>\<open>take_outcome_at\<close>; \<open>removed\<close>: whether the record could be removed, \<open>how\<close>: what writing it did.\<close>

definition take_outcome ::
  "('v::linorder) update_env \<Rightarrow> bool \<Rightarrow> stored \<Rightarrow> string \<Rightarrow> update_attempt option \<Rightarrow>
     update_outcome option \<times> update_attempt option" where
  "take_outcome env removed how running_version stored_attempt =
     (case stored_attempt of
        None \<Rightarrow> (None, None)
      | Some a \<Rightarrow>
          (case settle_attempt env a running_version of
             None \<Rightarrow> (None, stored_attempt)
           | Some (Completed v) \<Rightarrow> (Some (Completed v), if removed then None else stored_attempt)
           | Some (Failed v) \<Rightarrow>
               (Some (Failed v), store_attempt how (a\<lparr>ua_reported := True\<rparr>) stored_attempt)))"

section \<open>Checking, verifying, installing\<close>

definition check_for_update ::
  "('v::linorder) update_env \<Rightarrow> update_host \<Rightarrow> string \<Rightarrow> common_error + update_info option" where
  "check_for_update env host base =
     (case get_latest_release_info env host base of
        Inl e \<Rightarrow> Inl e
      | Inr latest_info \<Rightarrow>
          (case (ue_parse env (ue_version env), ue_parse env (ui_version latest_info)) of
             (Some current, Some latest) \<Rightarrow> Inr (if current < latest then Some latest_info else None)
           | _ \<Rightarrow> Inl Validation))"

text \<open>The comparison of the two hashes, in constant time.\<close>

definition xor_bytes :: "string \<Rightarrow> string \<Rightarrow> 8 word" where
  "xor_bytes a b =
     fold (\<lambda>(x, y) acc. acc OR ((of_nat (byte x) :: 8 word) XOR of_nat (byte y))) (zip a b) 0"

definition ct_equal :: "string \<Rightarrow> string \<Rightarrow> bool" where
  "ct_equal hash expected \<longleftrightarrow> length hash = length expected \<and> xor_bytes hash expected = 0"

definition verify_checksum :: "'v update_env \<Rightarrow> update_host \<Rightarrow> string \<Rightarrow> string \<Rightarrow> common_error + unit" where
  "verify_checksum env host file expected =
     (case sha256_file env host file of
        Inl e \<Rightarrow> Inl e
      | Inr hash \<Rightarrow>
          (let expected_hash = ue_lower env (unwrap_or (first_word expected) expected) in
           if length expected_hash \<noteq> 64 \<or> \<not> list_all is_ascii_hexdigit expected_hash then Inl Validation
           else if ct_equal hash expected_hash then Inr () else Inl Validation))"

definition verify_signature ::
  "('v::linorder) update_env \<Rightarrow> update_host \<Rightarrow> string \<Rightarrow> string \<Rightarrow> string \<Rightarrow> string \<Rightarrow> string \<Rightarrow>
     common_error + unit" where
  "verify_signature env host base file folder package_name version =
     (case embedded_update_public_key env of
        Inl e \<Rightarrow> Inl e
      | Inr None \<Rightarrow> Inr ()
      | Inr (Some public_key) \<Rightarrow>
          (let manifest_url = base @ ''/'' @ folder @ ''/'' @ package_name @ ''.manifest.json'' in
           case fetch_text host manifest_url of
             Inl e \<Rightarrow> Inl Validation
           | Inr manifest_json \<Rightarrow>
               (case fetch_text host (manifest_url @ ''.sig'') of
                  Inl e \<Rightarrow> Inl Validation
                | Inr signature_text \<Rightarrow>
                    (case sha256_file env host file of
                       Inl e \<Rightarrow> Inl e
                     | Inr hash \<Rightarrow>
                         (case verify_manifest env public_key manifest_json signature_text version package_name
                                 hash (length file) of
                            Inl e \<Rightarrow> Inl e
                          | Inr _ \<Rightarrow> Inr ())))))"

section \<open>The installer\<close>

definition elevated_script :: "string \<Rightarrow> string" where
  "elevated_script pkg_path =
     (let safe_path = replace_char CHR 0x27 [CHR 0x27, CHR 0x5C, CHR 0x27, CHR 0x27]
                        (replace_char CHR 0x22 [CHR 0x5C, CHR 0x22]
                          (replace_char CHR 0x5C [CHR 0x5C, CHR 0x5C] pkg_path))
      in ''do shell script '' @ [CHR 0x22] @ ''/usr/sbin/installer -pkg '' @ [CHR 0x27] @ safe_path @ [CHR 0x27] @
         '' -target /'' @ [CHR 0x22] @ '' with administrator privileges'')"

text \<open>
  \<open>run_installer_elevated\<close>: \<open>osascript\<close> runs the installer and waits for it; it cannot be started
  (\<^const>\<open>None\<close>), or ends with or without success.
\<close>

definition run_installer_elevated :: "update_host \<Rightarrow> string \<Rightarrow> string \<Rightarrow> update_effect list \<times> common_error option" where
  "run_installer_elevated host path_str file =
     (let script = elevated_script path_str in
      case uh_osascript host script of
        None \<Rightarrow> ([], Some SystemFailure)
      | Some success \<Rightarrow>
          ([StartInstaller [''osascript'', ''-e'', script] file], if success then None else Some SystemFailure))"

definition spawn_installer :: "update_host \<Rightarrow> string list \<Rightarrow> string \<Rightarrow> update_effect list \<times> common_error option" where
  "spawn_installer host command file =
     (if uh_spawn host command then ([StartInstaller command file], None) else ([], Some SystemFailure))"

text \<open>Without an error the process exits; nothing after the call runs.\<close>

definition trigger_installer ::
  "'v update_env \<Rightarrow> update_host \<Rightarrow> string \<Rightarrow> string \<Rightarrow> update_effect list \<times> common_error option" where
  "trigger_installer env host path_str file =
     (if \<not> ue_utf8 env path_str then ([], Some Validation)
      else case validate_installer_path (uh_os host) path_str of
        Inl e \<Rightarrow> ([], Some e)
      | Inr _ \<Rightarrow>
          (case uh_os host of
             MacOs \<Rightarrow>
               (if uh_admin host
                then spawn_installer host [''/usr/sbin/installer'', ''-pkg'', path_str, ''-target'', ''/''] file
                else case run_installer_elevated host path_str file of
                  (started, Some e) \<Rightarrow> (started, Some e)
                | (started, None) \<Rightarrow> (started @ [ScheduleRelaunch], None))
           | Windows \<Rightarrow>
               (case spawn_installer host [''msiexec'', ''/i'', path_str, ''/quiet''] file of
                  (started, failure) \<Rightarrow> (KillGui # started, failure))
           | Linux \<Rightarrow>
               (if uh_debian host then spawn_installer host [''dpkg'', ''-i'', path_str] file
                else spawn_installer host [''rpm'', ''-Uvh'', path_str] file)))"

datatype run_end = RunOk | RunErr common_error | RunExit | RunPanic

text \<open>What has to hold of the download before anything is started: the path and the content of the package.\<close>

definition obtain_package ::
  "('v::linorder) update_env \<Rightarrow> update_host \<Rightarrow> string \<Rightarrow> update_info \<Rightarrow> common_error + string \<times> string" where
  "obtain_package env host base info =
     (if uh_os host = Linux \<and> \<not> uh_admin host then Inl Validation
      else
        (let (package_name, checksum_file) = get_platform_package_details host;
             folder = get_platform_folder host
         in case fetch_text host (base @ ''/'' @ folder @ ''/'' @ checksum_file) of
              Inl e \<Rightarrow> Inl e
            | Inr expected_checksum \<Rightarrow>
                (case uh_temp host of
                   None \<Rightarrow> Inl IoFailure
                 | Some temp_dir \<Rightarrow>
                     (case download_file host (base @ ''/'' @ folder @ ''/'' @ package_name) of
                        Inl e \<Rightarrow> Inl e
                      | Inr file \<Rightarrow>
                          (case verify_checksum env host file expected_checksum of
                             Inl e \<Rightarrow> Inl e
                           | Inr _ \<Rightarrow>
                               (case verify_signature env host base file folder package_name (ui_version info) of
                                  Inl e \<Rightarrow> Inl e
                                | Inr _ \<Rightarrow> Inr (path_join (uh_os host) temp_dir package_name, file)))))))"

definition perform_update ::
  "('v::linorder) update_env \<Rightarrow> update_host \<Rightarrow> string \<Rightarrow> update_info \<Rightarrow> update_attempt option \<Rightarrow>
     update_effect list \<times> update_attempt option \<times> run_end" where
  "perform_update env host base info stored_attempt =
     (case obtain_package env host base info of
        Inl e \<Rightarrow> ([], stored_attempt, RunErr e)
      | Inr (download_path, file) \<Rightarrow>
          (let attempt = \<lparr>ua_from = ue_version env, ua_target = ui_version info,
                          ua_started = uh_started host, ua_reported = False\<rparr>;
               (started, failure) = trigger_installer env host download_path file
           in (WroteAttempt attempt (uh_store host) # started, store_attempt (uh_store host) attempt stored_attempt,
               case failure of Some e \<Rightarrow> RunErr e | None \<Rightarrow> RunExit)))"

section \<open>The update task\<close>

record update_state =
  us_last :: "nat option"
  us_attempt :: "update_attempt option"

text \<open>Instants are in nanoseconds.\<close>

definition reserve_update_check :: "nat option \<Rightarrow> nat \<Rightarrow> bool \<times> nat option" where
  "reserve_update_check last_check now =
     (case last_check of
        Some previous \<Rightarrow> if (now - previous) div 10 ^ 9 < 300 then (False, last_check) else (True, Some now)
      | None \<Rightarrow> (True, Some now))"

definition report_update :: "bool \<Rightarrow> string \<Rightarrow> string option \<Rightarrow> bool \<Rightarrow> update_effect list" where
  "report_update enrolled status version failed = (if enrolled then [Report status version failed] else [])"

definition report_previous_update_outcome ::
  "('v::linorder) update_env \<Rightarrow> bool \<Rightarrow> bool \<Rightarrow> stored \<Rightarrow> update_state \<Rightarrow> update_state \<times> update_effect list" where
  "report_previous_update_outcome env enrolled removed how st =
     (case take_outcome env removed how (ue_version env) (us_attempt st) of
        (Some (Completed v), kept) \<Rightarrow> (st\<lparr>us_attempt := kept\<rparr>, report_update enrolled ''completed'' (Some v) False)
      | (Some (Failed v), kept) \<Rightarrow> (st\<lparr>us_attempt := kept\<rparr>, report_update enrolled ''failed'' (Some v) True)
      | (None, kept) \<Rightarrow> (st, []))"

definition start_update ::
  "('v::linorder) update_env \<Rightarrow> update_host \<Rightarrow> string \<Rightarrow> update_info \<Rightarrow> update_state \<Rightarrow>
     update_state \<times> update_effect list \<times> run_end" where
  "start_update env host base info st =
     (let target_version = ui_version info;
          before = report_update (uh_enrolled host) ''downloading'' (Some target_version) False @
                   report_update (uh_enrolled host) ''installing'' (Some target_version) False
      in case perform_update env host base info (us_attempt st) of
           (effects, kept, RunErr e) \<Rightarrow>
             (st\<lparr>us_attempt := kept\<rparr>,
              before @ effects @ report_update (uh_enrolled host) ''failed'' (Some target_version) True, RunErr e)
         | (effects, kept, RunOk) \<Rightarrow>
             (st\<lparr>us_attempt := kept\<rparr>,
              before @ effects @ report_update (uh_enrolled host) ''completed'' (Some target_version) False, RunOk)
         | (effects, kept, ended) \<Rightarrow> (st\<lparr>us_attempt := kept\<rparr>, before @ effects, ended))"

definition check_and_update ::
  "('v::linorder) update_env \<Rightarrow> update_host \<Rightarrow> string \<Rightarrow> bool \<Rightarrow> update_state \<Rightarrow>
     update_state \<times> update_effect list \<times> run_end" where
  "check_and_update env host base interactive st =
     (case check_for_update env host base of
        Inr (Some info) \<Rightarrow>
          (case (if interactive then Some False
                 else retry_delayed (us_attempt st) (ui_version info) (uh_checked host)) of
             None \<Rightarrow> (st, [], RunPanic)
           | Some True \<Rightarrow> (st, [], RunOk)
           | Some False \<Rightarrow> start_update env host base info st)
      | Inr None \<Rightarrow> (st, [], RunOk)
      | Inl e \<Rightarrow> (st, if interactive then report_update (uh_enrolled host) ''failed'' None True else [], RunErr e))"

definition self_update ::
  "('v::linorder) update_env \<Rightarrow> update_host \<Rightarrow> string \<Rightarrow> bool \<Rightarrow> update_state \<Rightarrow>
     update_state \<times> update_effect list \<times> run_end" where
  "self_update env host base interactive st =
     (let (allowed, last_check) =
            (if interactive then reserve_update_check (us_last st) (uh_instant host) else (True, us_last st));
          st1 = st\<lparr>us_last := last_check\<rparr>
      in if \<not> allowed then (st1, [], RunOk)
         else case (uh_enrolled host, uh_client host) of
           (False, Some e) \<Rightarrow> (st1, [], RunErr e)
         | _ \<Rightarrow> check_and_update env host base interactive st1)"

section \<open>Runs over restarts\<close>

text \<open>
  The process restarts, as any version and at any moment, or a check runs: \<open>Check interactive host\<close>.
  The events of a run are the attempts that were recorded, with the time of the check, and the moments
  at which nothing is remembered any more.
\<close>

datatype update_step = Restart string bool bool stored | Check bool update_host

datatype update_event = Tried bool i64 update_attempt | Forgotten

definition check_events :: "bool \<Rightarrow> update_host \<Rightarrow> update_effect list \<Rightarrow> update_event list" where
  "check_events interactive host effects =
     concat (map (\<lambda>e. case e of
         WroteAttempt a Stored \<Rightarrow> [Tried (\<not> interactive) (uh_checked host) a]
       | WroteAttempt a _ \<Rightarrow> [Forgotten]
       | _ \<Rightarrow> []) effects)"

fun take_update_step ::
  "('v::linorder) update_env \<Rightarrow> string \<Rightarrow> update_step \<Rightarrow> string \<times> update_state \<Rightarrow>
     (string \<times> update_state) \<times> update_event list" where
  "take_update_step env base (Restart version enrolled removed how) (_, st) =
     (case report_previous_update_outcome (env\<lparr>ue_version := version\<rparr>) enrolled removed how (st\<lparr>us_last := None\<rparr>) of
        (st', _) \<Rightarrow> ((version, st'), if us_attempt st' = None then [Forgotten] else []))"
| "take_update_step env base (Check interactive host) (version, st) =
     (case self_update (env\<lparr>ue_version := version\<rparr>) host base interactive st of
        (st', effects, _) \<Rightarrow> ((version, st'), check_events interactive host effects))"

fun update_events ::
  "('v::linorder) update_env \<Rightarrow> string \<Rightarrow> update_step list \<Rightarrow> string \<times> update_state \<Rightarrow> update_event list" where
  "update_events env base [] w = []"
| "update_events env base (s # ss) w = (case take_update_step env base s w of (w', evs) \<Rightarrow> evs @ update_events env base ss w')"

text \<open>A scheduled attempt at the version of the attempt before it is made outside the day after that.\<close>

definition waited :: "update_event \<Rightarrow> update_event \<Rightarrow> bool" where
  "waited earlier later \<longleftrightarrow>
     (case (earlier, later) of
        (Tried _ _ a, Tried scheduled checked b) \<Rightarrow>
          \<not> (scheduled \<and> ua_target b = ua_target a \<and>
             ua_started a \<le> checked \<and> checked < ua_started a + RETRY_AFTER_FAILURE_SECS)
      | _ \<Rightarrow> True)"

end
