(* ===== verification/Self_Update_Props.thy ===== *)
theory Self_Update_Props imports Self_Update begin

text \<open>
  What an update can install, and how often it is tried: the signed message determines the release, an
  installer is started on a verified package only, and the record of the last attempt spaces out the next.
\<close>

section \<open>The signed message\<close>

lemma cut_at: "c \<notin> set a \<Longrightarrow> c \<notin> set b \<Longrightarrow> a @ c # x = b @ c # y \<longleftrightarrow> a = b \<and> x = y"
proof (induction a arbitrary: b)
  case Nil
  then show ?case by (cases b) auto
next
  case (Cons d a)
  then show ?case by (cases b) auto
qed

lemma show_nat_inject: "show_nat m = show_nat n \<longleftrightarrow> m = n"
  using digits_value_show [of m] digits_value_show [of n] by (metis option.inject)

lemma byte_newline: "byte CHR 0x0A = 10"
  by (simp add: byte_def)

lemma to_ascii_lower_char_newline: "CHR 0x0A = to_ascii_lower_char c \<longleftrightarrow> c = CHR 0x0A"
proof -
  have "byte (char_of (byte c + 32)) \<noteq> 10" if "is_ascii_uppercase c"
    using that by (simp add: byte_def is_ascii_uppercase_def)
  then show ?thesis
    by (cases "is_ascii_uppercase c")
       (auto simp: to_ascii_lower_char_def byte_newline is_ascii_uppercase_def dest: arg_cong [where f = byte])
qed

lemma no_newline:
  assumes "validate_manifest m"
  shows "CHR 0x0A \<notin> set (um_version m)" "CHR 0x0A \<notin> set (um_package m)"
    "CHR 0x0A \<notin> set (to_ascii_lowercase (um_sha256 m))" "CHR 0x0A \<notin> set (show_nat n)"
proof -
  show "CHR 0x0A \<notin> set (um_version m)" "CHR 0x0A \<notin> set (um_package m)"
    using assms by (auto simp: validate_manifest_def list_all_iff version_char_def package_char_def
        sentinel_simps byte_newline)
  show "CHR 0x0A \<notin> set (to_ascii_lowercase (um_sha256 m))"
    using assms by (auto simp: validate_manifest_def list_all_iff to_ascii_lowercase_def is_ascii_hexdigit_def
        sentinel_simps to_ascii_lower_char_newline byte_newline)
  show "CHR 0x0A \<notin> set (show_nat n)"
    using show_nat_digits [of "CHR 0x0A" n] by (auto simp: is_ascii_digit_def byte_newline)
qed

lemma signed_message_inject:
  assumes "validate_manifest m" "validate_manifest m'"
  shows "signed_message m = signed_message m' \<longleftrightarrow>
    um_version m = um_version m' \<and> um_package m = um_package m' \<and>
    eq_ignore_ascii_case (um_sha256 m) (um_sha256 m') \<and> um_size m = um_size m'"
  using no_newline [OF assms(1)] no_newline [OF assms(2)]
  by (simp add: signed_message_def cut_at show_nat_inject eq_ignore_ascii_case_def)

section \<open>The constant-time comparison\<close>

lemma byte_inject: "byte a = byte b \<longleftrightarrow> a = b"
  by (simp add: byte_def)

lemma xor_byte: "((of_nat (byte x) :: 8 word) XOR of_nat (byte y) = 0) \<longleftrightarrow> x = y"
proof -
  have "(of_nat (byte x) :: 8 word) = of_nat (byte y) \<longleftrightarrow> x = y"
    using byte_less [of x] byte_less [of y]
    by (auto simp: byte_inject of_nat_inverse word_eq_iff_unsigned unat_of_nat dest: arg_cong [where f = unat])
  moreover have "((a :: 8 word) XOR b = 0) \<longleftrightarrow> a = b" for a b
    by (metis xor_self_eq xor.right_neutral xor.assoc)
  ultimately show ?thesis by simp
qed

lemma xor_bytes_zero:
  "length a = length b \<Longrightarrow> xor_bytes a b = 0 \<longleftrightarrow> a = b"
proof -
  assume len: "length a = length b"
  have "fold (\<lambda>(x, y) acc. acc OR ((of_nat (byte x) :: 8 word) XOR of_nat (byte y))) (zip a b) acc = 0 \<longleftrightarrow>
      acc = 0 \<and> a = b" for acc
    using len
    by (induction a b arbitrary: acc rule: list_induct2) (simp_all add: or_eq_0_iff xor_byte)
  then show ?thesis by (simp add: xor_bytes_def)
qed

lemma ct_equal_iff [simp]: "ct_equal hash expected \<longleftrightarrow> hash = expected"
  using xor_bytes_zero [of hash expected] by (auto simp: ct_equal_def)

section \<open>What is installed\<close>

lemma trigger_installer_starts:
  assumes "StartInstaller command file \<in> set (fst (trigger_installer env host path_str contents))"
  shows "file = contents \<and> validate_installer_path (uh_os host) path_str = Inr ()"
  using assms
  by (auto simp: trigger_installer_def spawn_installer_def run_installer_elevated_def Let_def
      split: if_splits sum.splits option.splits prod.splits platform_os.splits)

lemma obtain_package_Inr:
  assumes "obtain_package env host base info = Inr (path_str, file)"
  shows "(\<exists>checksum. fetch_text host (base @ ''/'' @ get_platform_folder host @ ''/'' @
              snd (get_platform_package_details host)) = Inr checksum \<and>
            verify_checksum env host file checksum = Inr ()) \<and>
     verify_signature env host base file (get_platform_folder host) (fst (get_platform_package_details host))
       (ui_version info) = Inr () \<and>
     (\<exists>dir. uh_temp host = Some dir \<and>
        path_str = path_join (uh_os host) dir (fst (get_platform_package_details host)))"
  using assms
  by (auto simp: obtain_package_def Let_def split: if_splits sum.splits option.splits prod.splits)

lemma start_update_starts:
  assumes "StartInstaller command file \<in> set effects"
    and "start_update env host base info st = (st', effects, ended)"
  obtains path_str where "obtain_package env host base info = Inr (path_str, file)"
    and "validate_installer_path (uh_os host) path_str = Inr ()"
proof (cases "obtain_package env host base info")
  case (Inl e)
  with assms show ?thesis
    by (auto simp: start_update_def perform_update_def report_update_def Let_def split: if_splits)
next
  case (Inr p)
  obtain path_str contents where p: "p = (path_str, contents)" by (cases p)
  obtain started failure where t: "trigger_installer env host path_str contents = (started, failure)"
    by (cases "trigger_installer env host path_str contents")
  have "StartInstaller command file \<in> set started"
    using assms Inr p t
    by (auto simp: start_update_def perform_update_def report_update_def Let_def split: if_splits option.splits)
  then show ?thesis
    using trigger_installer_starts [of command "file" env host path_str contents] t Inr p that by simp
qed

lemma self_update_starts:
  assumes "StartInstaller command file \<in> set effects"
    and "self_update env host base interactive st = (st', effects, ended)"
  obtains info path_str where "check_for_update env host base = Inr (Some info)"
    and "\<not> interactive \<Longrightarrow> retry_delayed (us_attempt st) (ui_version info) (uh_checked host) = Some False"
    and "obtain_package env host base info = Inr (path_str, file)"
    and "validate_installer_path (uh_os host) path_str = Inr ()"
proof -
  have "\<exists>st1. us_attempt st1 = us_attempt st \<and>
      check_and_update env host base interactive st1 = (st', effects, ended)"
  proof -
    obtain allowed last_check
      where "(if interactive then reserve_update_check (us_last st) (uh_instant host) else (True, us_last st))
        = (allowed, last_check)" by fastforce
    then show ?thesis
      using assms
      by (intro exI [of _ "st\<lparr>us_last := last_check\<rparr>"])
         (auto simp: self_update_def Let_def simp del: if_split_asm split: if_splits bool.splits option.splits)
  qed
  then obtain st1 where st1: "us_attempt st1 = us_attempt st"
    and "check_and_update env host base interactive st1 = (st', effects, ended)" by blast
  with assms(1) obtain info where i: "check_for_update env host base = Inr (Some info)"
    and d: "interactive \<or> retry_delayed (us_attempt st) (ui_version info) (uh_checked host) = Some False"
    and s: "start_update env host base info st1 = (st', effects, ended)"
    by (auto simp: check_and_update_def st1 report_update_def
        split: sum.splits option.splits if_splits bool.splits)
  show ?thesis
    using start_update_starts [OF assms(1) s] that i d by metis
qed

lemma check_for_update_newer:
  assumes "check_for_update env host base = Inr (Some info)"
  shows "\<exists>v c. ue_parse env (ui_version info) = Some v \<and> ue_parse env (ue_version env) = Some c \<and> c < v"
  using assms by (auto simp: check_for_update_def split: sum.splits option.splits if_splits)

lemma verify_signature_Inr:
  assumes "embedded_update_public_key env = Inr (Some key)"
    and "verify_signature env host base file folder package_name version = Inr ()"
  shows "\<exists>m signature. validate_manifest m \<and> ue_verify env key (signed_message m) signature \<and>
     same_version env (um_version m) version \<and> um_package m = package_name \<and>
     eq_ignore_ascii_case (um_sha256 m) (ue_sha256 env file) \<and> um_size m = length file"
  using assms
  by (auto simp: verify_signature_def verify_manifest_def verify_ed25519_signature_def sha256_file_def Let_def
      split: sum.splits option.splits if_splits)

lemma verify_checksum_Inr:
  assumes "verify_checksum env host file checksum = Inr ()"
  shows "ue_sha256 env file = ue_lower env (unwrap_or (first_word checksum) checksum)"
  using assms by (auto simp: verify_checksum_def sha256_file_def Let_def split: if_splits)

section \<open>A run\<close>

definition demo_release :: update_manifest where
  "demo_release = \<lparr>um_version = ''2'', um_package = ''sentinel-agent-latest-amd64.deb'',
     um_sha256 = replicate 64 CHR ''a'', um_size = 1\<rparr>"

definition demo_env :: "nat update_env" where
  "demo_env = \<lparr>ue_version = ''1'', ue_pubkey = Some ''k'',
     ue_parse = (\<lambda>s. if s = ''1'' then Some 1 else if s = ''2'' then Some 2 else None),
     ue_hex = (\<lambda>s. Some (replicate (if s = ''k'' then 32 else 64) CHR 0x00)),
     ue_verify = (\<lambda>key msg signature. msg = signed_message demo_release),
     ue_sha256 = (\<lambda>bytes. replicate 64 CHR ''a''), ue_manifest = (\<lambda>json. Some demo_release),
     ue_release = (\<lambda>json. Some \<lparr>ui_version = ''2'', ui_date = ''2026-01-01''\<rparr>),
     ue_lower = to_ascii_lowercase, ue_utf8 = (\<lambda>s. True)\<rparr>"

definition demo_answer :: http_answer where
  "demo_answer = \<lparr>ha_success = True, ha_length = Some 1, ha_chunks = [Some ''x''],
     ha_text = Some (replicate 64 CHR ''A'')\<rparr>"

definition demo_host :: "platform_os \<Rightarrow> string \<Rightarrow> update_host" where
  "demo_host os temp = \<lparr>uh_os = os, uh_admin = True, uh_debian = True, uh_aarch64 = False, uh_enrolled = False,
     uh_client = None, uh_web = (\<lambda>url. Some demo_answer), uh_temp = Some temp, uh_create = True,
     uh_write = (\<lambda>n. True), uh_flush = True, uh_read = True, uh_store = Stored, uh_checked = 0, uh_started = 1,
     uh_instant = 0, uh_osascript = (\<lambda>script. None), uh_spawn = (\<lambda>command. True)\<rparr>"

lemma demo_run:
  "self_update demo_env (demo_host Linux ''/tmp'') [] False \<lparr>us_last = None, us_attempt = None\<rparr> =
     (\<lparr>us_last = None, us_attempt = Some \<lparr>ua_from = ''1'', ua_target = ''2'', ua_started = 1, ua_reported = False\<rparr>\<rparr>,
      [WroteAttempt \<lparr>ua_from = ''1'', ua_target = ''2'', ua_started = 1, ua_reported = False\<rparr> Stored,
       StartInstaller [''dpkg'', ''-i'', ''/tmp/sentinel-agent-latest-amd64.deb''] ''x''], RunExit)"
  by code_simp

lemma demo_key: "embedded_update_public_key demo_env = Inr (Some (replicate 32 CHR 0x00))"
  by code_simp

lemma demo_valid: "validate_manifest demo_release"
  by code_simp
section \<open>What may be installed\<close>

text \<open>C22: In a build that embeds a public key whose signatures cannot be forged (a message that verifies
  is the signed message of a valid release manifest of \<open>releases\<close>), an installer is only ever
  started, whatever the release server, the network and the disk answer, on bytes with the hash and the size of a release whose
  package is the one for this platform and whose version is newer than the running one.\<close>

theorem only_newer_releases_installed:
  assumes "embedded_update_public_key env = Inr (Some key)"
    and "\<And>msg signature. ue_verify env key msg signature \<Longrightarrow>
           \<exists>r \<in> releases. validate_manifest r \<and> msg = signed_message r"
    and "self_update env host base interactive st = (st', effects, ended)"
    and "StartInstaller command file \<in> set effects"
  shows "\<exists>r \<in> releases. um_package r = fst (get_platform_package_details host) \<and>
     eq_ignore_ascii_case (um_sha256 r) (ue_sha256 env file) \<and> um_size r = length file \<and>
     (\<exists>v c. ue_parse env (um_version r) = Some v \<and> ue_parse env (ue_version env) = Some c \<and> c < v)"
proof -
  from self_update_starts [OF assms(4,3)] obtain info path_str
    where info: "check_for_update env host base = Inr (Some info)"
      and package: "obtain_package env host base info = Inr (path_str, file)" by metis
  from verify_signature_Inr [OF assms(1)] obtain_package_Inr [OF package] obtain m signature
    where m: "validate_manifest m" "ue_verify env key (signed_message m) signature"
      "same_version env (um_version m) (ui_version info)"
      "um_package m = fst (get_platform_package_details host)"
      "eq_ignore_ascii_case (um_sha256 m) (ue_sha256 env file)" "um_size m = length file"
    by metis
  from assms(2) [OF m(2)] obtain r where r: "r \<in> releases" "validate_manifest r" "signed_message m = signed_message r"
    by auto
  have "um_version m = um_version r \<and> um_package m = um_package r \<and>
    eq_ignore_ascii_case (um_sha256 m) (um_sha256 r) \<and> um_size m = um_size r"
    using signed_message_inject [OF m(1) r(2)] r(3) by simp
  with m r(1) check_for_update_newer [OF info] show ?thesis
    by (auto simp: same_version_def eq_ignore_ascii_case_def split: option.splits)
qed

theorem only_newer_releases_installed_witness:
  "\<exists>r \<in> {demo_release}. um_package r = fst (get_platform_package_details (demo_host Linux ''/tmp'')) \<and>
     eq_ignore_ascii_case (um_sha256 r) (ue_sha256 demo_env ''x'') \<and> um_size r = length ''x'' \<and>
     (\<exists>v c. ue_parse demo_env (um_version r) = Some v \<and> ue_parse demo_env (ue_version demo_env) = Some c \<and> c < v)"
proof (rule only_newer_releases_installed [OF demo_key _ demo_run])
  show "\<exists>r \<in> {demo_release}. validate_manifest r \<and> msg = signed_message r"
    if "ue_verify demo_env (replicate 32 CHR 0x00) msg signature" for msg signature
    using that demo_valid by (simp add: demo_env_def)
qed simp

text \<open>Without a key it is the published checksum that the package has to match.\<close>

lemma checksum_always_matches:
  assumes "self_update env host base interactive st = (st', effects, ended)"
    and "StartInstaller command file \<in> set effects"
  shows "\<exists>checksum. ue_sha256 env file = ue_lower env (unwrap_or (first_word checksum) checksum) \<and>
    fetch_text host (base @ ''/'' @ get_platform_folder host @ ''/'' @ snd (get_platform_package_details host))
      = Inr checksum"
proof -
  from self_update_starts [OF assms(2,1)] obtain info path_str
    where "obtain_package env host base info = Inr (path_str, file)" by metis
  from obtain_package_Inr [OF this] show ?thesis using verify_checksum_Inr by metis
qed

text \<open>
  \<open>trigger_installer\<close> ends the process or fails, so the process that starts an update never reports it
  completed: what follows its call in \<open>perform_update\<close> and in \<open>self_update\<close> is not reached.
\<close>

lemma perform_update_never_returns: "snd (snd (perform_update env host base info kept)) \<noteq> RunOk"
  by (auto simp: perform_update_def Let_def split: sum.splits prod.splits option.splits)

lemma update_never_reported_completed:
  "Report ''completed'' version failed \<notin> set (fst (snd (start_update env host base info st)))"
proof -
  obtain effects kept ended where p: "perform_update env host base info (us_attempt st) = (effects, kept, ended)"
    by (cases "perform_update env host base info (us_attempt st)")
  have quiet: "Report status v f \<notin> set (fst (trigger_installer env host path_str contents))"
    for status v f path_str contents
    by (auto simp: trigger_installer_def spawn_installer_def run_installer_elevated_def Let_def
        split: if_splits sum.splits option.splits prod.splits platform_os.splits)
  have "Report status v f \<notin> set effects" for status v f
  proof (cases "obtain_package env host base info")
    case (Inr q)
    obtain path_str contents where q: "q = (path_str, contents)" by (cases q)
    with Inr p quiet [of status v f path_str contents] show ?thesis
      by (auto simp: perform_update_def Let_def split: prod.splits)
  qed (use p in \<open>simp add: perform_update_def\<close>)
  with p perform_update_never_returns [of env host base info "us_attempt st"] show ?thesis
    by (auto simp: start_update_def report_update_def Let_def split: run_end.splits)
qed

section \<open>How often\<close>

definition remembers :: "update_event \<Rightarrow> update_state \<Rightarrow> bool" where
  "remembers ev st \<longleftrightarrow>
     (case ev of
        Tried _ _ a \<Rightarrow> (\<exists>b. us_attempt st = Some b \<and> ua_target b = ua_target a \<and> ua_started b = ua_started a)
      | Forgotten \<Rightarrow> True)"

lemma trigger_installer_writes_nothing:
  "WroteAttempt a how \<notin> set (fst (trigger_installer env host path_str contents))"
  by (auto simp: trigger_installer_def spawn_installer_def run_installer_elevated_def Let_def
      split: if_splits sum.splits option.splits prod.splits platform_os.splits)

lemma check_events_quiet:
  assumes "\<And>a how. WroteAttempt a how \<notin> set effects"
  shows "check_events interactive host effects = []"
proof -
  have "(case e of WroteAttempt a Stored \<Rightarrow> [Tried (\<not> interactive) (uh_checked host) a]
       | WroteAttempt a _ \<Rightarrow> [Forgotten] | _ \<Rightarrow> []) = []" if "e \<in> set effects" for e
  proof (cases e)
    case (WroteAttempt a how)
    with that assms show ?thesis by blast
  qed simp_all
  then show ?thesis unfolding check_events_def concat_eq_Nil_conv by auto
qed

lemma check_events_append:
  "check_events interactive host (xs @ ys) = check_events interactive host xs @ check_events interactive host ys"
  by (simp add: check_events_def)

lemma check_events_simps [simp]:
  "check_events interactive host [] = []"
  "check_events interactive host (WroteAttempt a how # xs) =
     (if how = Stored then Tried (\<not> interactive) (uh_checked host) a else Forgotten) #
     check_events interactive host xs"
  "check_events interactive host (report_update enrolled status version failed) = []"
  by (auto simp: check_events_def report_update_def split: stored.splits)

lemma perform_update_events:
  assumes "perform_update env host base info kept = (effects, kept', ended)"
  shows "(check_events interactive host effects = [] \<and> kept' = kept) \<or>
    (\<exists>a. check_events interactive host effects =
           [if uh_store host = Stored then Tried (\<not> interactive) (uh_checked host) a else Forgotten] \<and>
       kept' = store_attempt (uh_store host) a kept \<and> ua_target a = ui_version info)"
proof -
  have quiet: "check_events interactive host (fst (trigger_installer env host path_str contents)) = []" for path_str contents
    using check_events_quiet trigger_installer_writes_nothing by metis
  show ?thesis
  proof (cases "obtain_package env host base info")
    case (Inl e)
    with assms show ?thesis by (simp add: perform_update_def)
  next
    case (Inr p)
    obtain path_str contents where p: "p = (path_str, contents)" by (cases p)
    obtain started failure where t: "trigger_installer env host path_str contents = (started, failure)"
      by (cases "trigger_installer env host path_str contents")
    with quiet [of path_str contents] have "check_events interactive host started = []" by simp
    with assms Inr p t show ?thesis by (auto simp: perform_update_def Let_def)
  qed
qed

lemma start_update_events:
  assumes "start_update env host base info st = (st', effects, ended)"
  shows "(check_events interactive host effects = [] \<and> us_attempt st' = us_attempt st) \<or>
    (\<exists>a. check_events interactive host effects =
           [if uh_store host = Stored then Tried (\<not> interactive) (uh_checked host) a else Forgotten] \<and>
       us_attempt st' = store_attempt (uh_store host) a (us_attempt st) \<and> ua_target a = ui_version info)"
proof -
  obtain effects' kept' ended' where p: "perform_update env host base info (us_attempt st) = (effects', kept', ended')"
    by (cases "perform_update env host base info (us_attempt st)")
  from assms p have "check_events interactive host effects = check_events interactive host effects'"
    and "us_attempt st' = kept'"
    by (auto simp: start_update_def Let_def check_events_append split: run_end.splits)
  with perform_update_events [OF p, of interactive] show ?thesis by simp
qed

lemma self_update_events:
  assumes "self_update env host base interactive st = (st', effects, ended)"
  shows "(check_events interactive host effects = [] \<and> us_attempt st' = us_attempt st) \<or>
    (\<exists>a. check_events interactive host effects =
           [if uh_store host = Stored then Tried (\<not> interactive) (uh_checked host) a else Forgotten] \<and>
       us_attempt st' = store_attempt (uh_store host) a (us_attempt st) \<and>
       (interactive \<or> retry_delayed (us_attempt st) (ua_target a) (uh_checked host) = Some False))"
proof -
  have check: "(check_events interactive host effects = [] \<and> us_attempt st' = us_attempt st1) \<or>
      (\<exists>a. check_events interactive host effects =
           [if uh_store host = Stored then Tried (\<not> interactive) (uh_checked host) a else Forgotten] \<and>
         us_attempt st' = store_attempt (uh_store host) a (us_attempt st1) \<and>
         (interactive \<or> retry_delayed (us_attempt st1) (ua_target a) (uh_checked host) = Some False))"
    if "check_and_update env host base interactive st1 = (st', effects, ended)" for st1
    using that start_update_events [of env host base _ st1 st' effects ended interactive]
    by (fastforce simp: check_and_update_def split: sum.splits option.splits if_splits bool.splits)
  obtain allowed last_check
    where r: "(if interactive then reserve_update_check (us_last st) (uh_instant host) else (True, us_last st))
      = (allowed, last_check)" by fastforce
  show ?thesis
  proof (cases "check_and_update env host base interactive (st\<lparr>us_last := last_check\<rparr>) = (st', effects, ended)")
    case True
    from check [OF this] show ?thesis by auto
  next
    case False
    with assms r show ?thesis
      by (auto simp: self_update_def Let_def simp del: if_split_asm split: if_splits bool.splits option.splits)
  qed
qed

lemma restart_remembers:
  assumes "report_previous_update_outcome env enrolled removed how st = (st', effects)"
    and "remembers ev st" and "us_attempt st' \<noteq> None"
  shows "remembers ev st'"
  using assms
  by (auto simp: report_previous_update_outcome_def take_outcome_def settle_attempt_def store_attempt_def remembers_def
      split: option.splits update_outcome.splits update_event.splits if_splits stored.splits)

lemma step_waits:
  assumes "take_update_step env base s w = (w', evs)" and "remembers ev (snd w)"
  shows "(evs = [] \<and> remembers ev (snd w')) \<or> (\<exists>e. evs = [e] \<and> waited ev e \<and> remembers e (snd w'))"
proof (cases s)
  case (Restart version enrolled removed how)
  with assms restart_remembers show ?thesis
    by (cases w) (fastforce simp: remembers_def waited_def split: prod.splits if_splits update_event.splits)
next
  case (Check interactive host)
  obtain version st where w: "w = (version, st)" by (cases w)
  obtain st' effects ended where u: "self_update (env\<lparr>ue_version := version\<rparr>) host base interactive st = (st', effects, ended)"
    by (cases "self_update (env\<lparr>ue_version := version\<rparr>) host base interactive st")
  with assms Check w have ev: "w' = (version, st')" "evs = check_events interactive host effects" by auto
  from self_update_events [OF u] consider
    (quiet) "check_events interactive host effects = []" "us_attempt st' = us_attempt st"
  | (tried) a where "check_events interactive host effects =
        [if uh_store host = Stored then Tried (\<not> interactive) (uh_checked host) a else Forgotten]"
      "us_attempt st' = store_attempt (uh_store host) a (us_attempt st)"
      "interactive \<or> retry_delayed (us_attempt st) (ua_target a) (uh_checked host) = Some False"
    by blast
  then show ?thesis
  proof cases
    case quiet
    with ev assms(2) w show ?thesis by (cases ev) (simp_all add: remembers_def)
  next
    case tried
    with ev assms(2) w show ?thesis
      by (auto simp: remembers_def waited_def store_attempt_def retry_delayed_def attempt_delays_retry_def
          RETRY_AFTER_FAILURE_SECS_def checked_i64_def split: update_event.splits if_splits)
  qed
qed

text \<open>Whatever the checks and the restarts of the process, and whatever hosts and servers answer: when
  two attempts recorded one after the other are for the same version and the later one was scheduled, its check took
  place outside the 24 hours that follow the earlier attempt (unless the record was lost or removed between them).\<close>

theorem scheduled_retries_wait_a_day:
  "successively waited (update_events env base steps (version, st))"
proof -
  have "successively waited (ev # update_events env base steps w)" if "remembers ev (snd w)" for ev w
    using that
  proof (induction steps arbitrary: ev w)
    case (Cons s steps)
    obtain w' evs where s: "take_update_step env base s w = (w', evs)" by (cases "take_update_step env base s w")
    from step_waits [OF s Cons.prems] Cons.IH [of _ w'] s show ?case by auto
  qed simp
  from this [of Forgotten "(version, st)"] show ?thesis
    by (cases "update_events env base steps (version, st)") (auto simp: remembers_def)
qed
section \<open>A refused path\<close>

text \<open>When the path of a downloaded and verified package is refused, nothing is
  installed, and the attempt is recorded all the same: scheduled checks then leave this version alone for 24
  hours. \<open>~\<close> is refused on Windows too, where the temporary directory may well be written with short names.\<close>

theorem refused_path_delays_retries:
  assumes "obtain_package env host base info = Inr (path_str, file)"
    and "validate_installer_path (uh_os host) path_str = Inl Validation"
    and "uh_store host = Stored"
  shows "\<exists>a. perform_update env host base info kept = ([WroteAttempt a Stored], Some a, RunErr Validation) \<and>
     list_all (\<lambda>d. retry_delayed (Some a) (ui_version info) (uh_started host + int d) = Some True) [0..<86400]"
proof -
  have "trigger_installer env host path_str file = ([], Some Validation)"
    using assms(2) by (simp add: trigger_installer_def)
  with assms show ?thesis
    by (simp add: perform_update_def Let_def store_attempt_def retry_delayed_def attempt_delays_retry_def
        list_all_iff RETRY_AFTER_FAILURE_SECS_def sentinel_simps)
qed

definition short_name_temp :: string where
  "short_name_temp = ''C:'' @ [CHR 0x5C] @ ''Users'' @ [CHR 0x5C] @ ''ADMINI~1'' @ [CHR 0x5C] @ ''Temp''"

theorem refused_path_delays_retries_witness:
  "\<exists>a. perform_update (demo_env\<lparr>ue_pubkey := None\<rparr>) (demo_host Windows short_name_temp) []
       \<lparr>ui_version = ''2'', ui_date = []\<rparr> None = ([WroteAttempt a Stored], Some a, RunErr Validation) \<and>
     list_all (\<lambda>d. retry_delayed (Some a) (ui_version \<lparr>ui_version = ''2'', ui_date = []\<rparr>)
       (uh_started (demo_host Windows short_name_temp) + int d) = Some True) [0..<86400]"
proof (rule refused_path_delays_retries)
  show "obtain_package (demo_env\<lparr>ue_pubkey := None\<rparr>) (demo_host Windows short_name_temp) []
      \<lparr>ui_version = ''2'', ui_date = []\<rparr> =
    Inr (short_name_temp @ [CHR 0x5C] @ ''SentinelAgentSetup-latest.msi'', ''x'')"
    by code_simp
  show "validate_installer_path (uh_os (demo_host Windows short_name_temp))
      (short_name_temp @ [CHR 0x5C] @ ''SentinelAgentSetup-latest.msi'') = Inl Validation"
    by code_simp
  show "uh_store (demo_host Windows short_name_temp) = Stored" by (simp add: demo_host_def)
qed

end
