(* ===== verification/Net_Rules.thy ===== *)
theory Net_Rules imports Alert_Cooldown Ip_Block begin

text \<open>
  The detectors of \<open>crates/agent-network/src/detection\<close> that look at one snapshot of connections: known
  command-and-control ports and addresses, miners, many connections to one destination, suspicious
  ports, and the rules they share (\<open>rules.rs\<close>).

  A detector that only asks whether its sets contain something keeps them as lists. An alert is
  reduced to what is decided here: its type, severity, connection, confidence and indicators; the
  title, the description and the JSON evidence are text made from the same connection.

  Parameters: \<open>lower\<close> is Unicode lower-casing, \<open>parse_ip\<close> the parsing of an address. Both are of
  the standard library.
\<close>

unbundle bit_operations_syntax

section \<open>Alerts\<close>

record net_alert =
  da_type :: network_alert_type
  da_severity :: alert_severity
  da_connection :: "network_connection option"
  da_confidence :: nat
  da_iocs :: "string list"

definition alert_on ::
  "network_connection \<Rightarrow> network_alert_type \<Rightarrow> alert_severity \<Rightarrow> nat \<Rightarrow> string \<Rightarrow> net_alert" where
  "alert_on conn t s confidence ioc =
     \<lparr>da_type = t, da_severity = s, da_connection = Some conn, da_confidence = confidence, da_iocs = [ioc]\<rparr>"

section \<open>Rules\<close>

record threat_intelligence =
  ti_malicious_ips :: "string list"
  ti_malicious_domains :: "string list"
  ti_c2_ports :: "nat list"
  ti_mining_pools :: "string list"

record detection_rules =
  dr_malicious_ips :: "string list"
  dr_malicious_domains :: "string list"
  dr_c2_ports :: "nat list"
  dr_mining_pools :: "string list"
  dr_miner_processes :: "string list"
  dr_suspicious_ports :: "nat list"
  dr_tor_ports :: "nat list"
  dr_irc_ports :: "nat list"

definition default_rules :: detection_rules where
  "default_rules =
     \<lparr>dr_malicious_ips = [], dr_malicious_domains = [],
      dr_c2_ports = [4444, 1337, 31337, 5555, 6666, 9999, 12345, 20000, 65535],
      dr_mining_pools =
        [''pool.minexmr.com'', ''xmr.pool.minergate.com'', ''xmr-eu1.nanopool.org'', ''xmr-us-east1.nanopool.org'',
         ''pool.supportxmr.com'', ''xmrpool.eu'', ''monerohash.com'', ''moneroocean.stream'', ''hashvault.pro'',
         ''gulf.moneroocean.stream'', ''pool.hashvault.pro'', ''stratum+tcp://'', ''nicehash.com'', ''2miners.com'',
         ''f2pool.com'', ''ethermine.org'', ''sparkpool.com''],
      dr_miner_processes =
        [''xmrig'', ''cpuminer'', ''cgminer'', ''bfgminer'', ''minerd'', ''ethminer'', ''phoenixminer'', ''nbminer'',
         ''t-rex'', ''gminer'', ''lolminer'', ''nanominer'', ''teamredminer'', ''claymore'', ''nicehash'', ''minergate'',
         ''kryptex'', ''honeyminer'', ''cudo''],
      dr_suspicious_ports = [22, 23, 3389, 5900, 5901, 5902],
      dr_tor_ports = [9001, 9030, 9050, 9051, 9150],
      dr_irc_ports = [6665, 6666, 6667, 6668, 6669, 6697, 7000]\<rparr>"

definition from_threat_intel :: "threat_intelligence \<Rightarrow> detection_rules" where
  "from_threat_intel intel =
     (let rules = default_rules in
      rules\<lparr>dr_malicious_ips := dr_malicious_ips rules @ ti_malicious_ips intel,
            dr_malicious_domains := dr_malicious_domains rules @ ti_malicious_domains intel,
            dr_c2_ports := dr_c2_ports rules @ ti_c2_ports intel,
            dr_mining_pools := dr_mining_pools rules @ ti_mining_pools intel\<rparr>)"

section \<open>Command and control\<close>

definition c2_detect_one :: "detection_rules \<Rightarrow> network_connection \<Rightarrow> net_alert list" where
  "c2_detect_one rules conn =
     (if nc_state conn \<noteq> Established then []
      else (case nc_remote_port conn of
              Some remote_port \<Rightarrow>
                if remote_port \<in> set (dr_c2_ports rules)
                then [alert_on conn SuspiciousPort Medium 40 (''port:'' @ show_nat remote_port)] else []
            | None \<Rightarrow> []) @
           (case nc_remote_address conn of
              Some remote_addr \<Rightarrow>
                if remote_addr \<in> set (dr_malicious_ips rules)
                then [alert_on conn MaliciousDestination Critical 95 (''ip:'' @ remote_addr)] else []
            | None \<Rightarrow> []))"

definition c2_detect :: "detection_rules \<Rightarrow> network_connection list \<Rightarrow> net_alert list" where
  "c2_detect rules connections = concat (map (c2_detect_one rules) connections)"

section \<open>Miners\<close>

definition STRATUM_PORT_MIN :: nat where "STRATUM_PORT_MIN = 3333"
definition STRATUM_PORT_MAX :: nat where "STRATUM_PORT_MAX = 9999"

text \<open>\<open>trim_end_matches\<close> of a text, and \<open>rsplit(['/', '\']).next()\<close>.\<close>

definition trim_end_matches :: "string \<Rightarrow> string \<Rightarrow> string" where
  "trim_end_matches what s = rev (strip_front [rev what] (rev s))"

definition executable_name :: "string \<Rightarrow> string" where
  "executable_name s = rev (takeWhile (\<lambda>c. c \<noteq> CHR ''/'' \<and> c \<noteq> CHR 0x5C) (rev s))"

definition is_miner_process :: "(string \<Rightarrow> string) \<Rightarrow> detection_rules \<Rightarrow> string \<Rightarrow> bool" where
  "is_miner_process lower rules name =
     (let executable = executable_name (lower name) in
      list_ex (\<lambda>p. trim_end_matches ''.exe'' executable = trim_end_matches ''.exe'' (lower p)) (dr_miner_processes rules))"

definition is_stratum_port :: "nat \<Rightarrow> bool" where
  "is_stratum_port port \<longleftrightarrow> STRATUM_PORT_MIN \<le> port \<and> port \<le> STRATUM_PORT_MAX"

definition is_mining_pool :: "(string \<Rightarrow> string) \<Rightarrow> detection_rules \<Rightarrow> string \<Rightarrow> bool" where
  "is_mining_pool lower rules addr =
     (let host = lower (trim_end_matches ''.'' addr) in
      list_ex (\<lambda>pool. host = pool \<or> suffix (''.'' @ pool) host) (dr_mining_pools rules))"

definition pool_alerts :: "(string \<Rightarrow> string) \<Rightarrow> detection_rules \<Rightarrow> network_connection \<Rightarrow> net_alert list" where
  "pool_alerts lower rules conn =
     (case nc_remote_port conn of
        Some remote_port \<Rightarrow>
          if is_stratum_port remote_port \<and>
             (case nc_remote_address conn of None \<Rightarrow> False | Some addr \<Rightarrow> is_mining_pool lower rules addr)
          then [alert_on conn CryptoMining High 95
                  (''pool:'' @ unwrap_or (nc_remote_address conn) ''inconnue'')]
          else []
      | None \<Rightarrow> [])"

definition miner_detect_one :: "(string \<Rightarrow> string) \<Rightarrow> detection_rules \<Rightarrow> network_connection \<Rightarrow> net_alert list" where
  "miner_detect_one lower rules conn =
     (if nc_state conn \<noteq> Established then []
      else case nc_process_name conn of
        Some process_name \<Rightarrow>
          if is_miner_process lower rules process_name
          then [alert_on conn CryptoMining High 90 (''process:'' @ process_name)]
          else pool_alerts lower rules conn
      | None \<Rightarrow> pool_alerts lower rules conn)"

definition miner_detect :: "(string \<Rightarrow> string) \<Rightarrow> detection_rules \<Rightarrow> network_connection list \<Rightarrow> net_alert list" where
  "miner_detect lower rules connections = concat (map (miner_detect_one lower rules) connections)"

section \<open>Many connections to one destination\<close>

definition CONNECTIONS_THRESHOLD :: nat where "CONNECTIONS_THRESHOLD = 10"

text \<open>\<open>Ipv4Addr::is_private\<close> and \<open>is_link_local\<close> of the standard library.\<close>

definition v4_private :: "32 word \<Rightarrow> bool" where
  "v4_private w \<longleftrightarrow> drop_bit 24 w = 10 \<or> drop_bit 20 w = 0xAC1 \<or> drop_bit 16 w = 0xC0A8"

definition v4_link_local :: "32 word \<Rightarrow> bool" where
  "v4_link_local w \<longleftrightarrow> drop_bit 16 w = 0xA9FE"

text \<open>The text that does not parse: \<open>nth(1)\<close> of \<open>split('.')\<close> is what lies between the first two dots.\<close>

definition second_part :: "string \<Rightarrow> string option" where
  "second_part s =
     (case split_once CHR ''.'' s of
        None \<Rightarrow> None
      | Some (_, rest) \<Rightarrow> Some (case split_once CHR ''.'' rest of None \<Rightarrow> rest | Some (part, _) \<Rightarrow> part))"

definition looks_private :: "string \<Rightarrow> bool" where
  "looks_private ip \<longleftrightarrow>
     prefix ''10.'' ip \<or> prefix ''192.168.'' ip \<or>
     (prefix ''172.'' ip \<and>
        (case second_part ip of
           None \<Rightarrow> False
         | Some s \<Rightarrow> (case parse_unsigned 255 s of None \<Rightarrow> False | Some n \<Rightarrow> 16 \<le> n \<and> n \<le> 31))) \<or>
     ip = ''127.0.0.1'' \<or> prefix ''::1'' ip \<or> prefix ''fe80:'' ip \<or> prefix ''fc00:'' ip \<or> prefix ''fd00:'' ip"

definition is_private_ip :: "(string \<Rightarrow> ip_addr option) \<Rightarrow> string \<Rightarrow> bool" where
  "is_private_ip parse_ip ip =
     (case parse_ip ip of
        Some addr \<Rightarrow>
          (case addr of
             V4 v4 \<Rightarrow> is_loopback addr \<or> v4_private v4 \<or> v4_link_local v4 \<or> is_unspecified addr
           | V6 v6 \<Rightarrow>
               is_loopback addr \<or> is_unspecified addr \<or>
               drop_bit 112 v6 AND 0xFFC0 = 0xFE80 \<or> drop_bit 112 v6 AND 0xFE00 = 0xFC00 \<or>
               (drop_bit 32 v6 = 0xFFFF \<and>
                  (let v4 = (ucast v6 :: 32 word) in is_loopback (V4 v4) \<or> v4_private v4 \<or> v4_link_local v4)))
      | None \<Rightarrow> looks_private ip)"

definition public_destination :: "(string \<Rightarrow> ip_addr option) \<Rightarrow> network_connection \<Rightarrow> string option" where
  "public_destination parse_ip conn =
     (if nc_state conn \<noteq> Established then None
      else case nc_remote_address conn of
        None \<Rightarrow> None
      | Some remote_addr \<Rightarrow> if is_private_ip parse_ip remote_addr then None else Some remote_addr)"

text \<open>The map of the connections by destination, each list in the order of the snapshot.\<close>

definition count_one ::
  "(string \<Rightarrow> ip_addr option) \<Rightarrow> network_connection \<Rightarrow> (string \<times> network_connection list) list \<Rightarrow>
     (string \<times> network_connection list) list" where
  "count_one parse_ip conn m =
     (case public_destination parse_ip conn of
        None \<Rightarrow> m
      | Some dest \<Rightarrow> AList.update dest (unwrap_or (map_of m dest) [] @ [conn]) m)"

definition count_destinations ::
  "(string \<Rightarrow> ip_addr option) \<Rightarrow> network_connection list \<Rightarrow> (string \<times> network_connection list) list" where
  "count_destinations parse_ip connections = fold (count_one parse_ip) connections []"

definition multiple_connections_alert :: "string \<Rightarrow> network_connection list \<Rightarrow> net_alert" where
  "multiple_connections_alert destination connections =
     \<lparr>da_type = ConnectionAnomaly, da_severity = Low,
      da_connection = (case connections of [] \<Rightarrow> None | c # cs \<Rightarrow> Some c),
      da_confidence = 30, da_iocs = [''multi_conn:'' @ destination]\<rparr>"

definition exfil_detect :: "(string \<Rightarrow> ip_addr option) \<Rightarrow> network_connection list \<Rightarrow> net_alert list" where
  "exfil_detect parse_ip connections =
     map (\<lambda>(dest, conns). multiple_connections_alert dest conns)
       (filter (\<lambda>(dest, conns). CONNECTIONS_THRESHOLD \<le> length conns) (count_destinations parse_ip connections))"

section \<open>Ports\<close>

definition is_suspicious_listening_port :: "nat \<Rightarrow> bool" where
  "is_suspicious_listening_port port \<longleftrightarrow>
     port \<in> {4444, 5555, 6666, 7777, 8888, 9999, 1337, 31337, 12345, 65535}"

definition suspicious_use :: "detection_rules \<Rightarrow> network_connection \<Rightarrow> net_alert list" where
  "suspicious_use rules conn =
     (case nc_remote_port conn of
        Some remote_port \<Rightarrow>
          if nc_state conn = Established \<and> remote_port \<in> set (dr_suspicious_ports rules)
          then [alert_on conn SuspiciousPort Low 40 (''suspicious_port:'' @ show_nat remote_port)] else []
      | None \<Rightarrow> []) @
     (if nc_state conn = Listen \<and> is_suspicious_listening_port (nc_local_port conn)
      then [alert_on conn SuspiciousPort High 65 (''backdoor_port:'' @ show_nat (nc_local_port conn))] else [])"

definition port_detect_one :: "detection_rules \<Rightarrow> network_connection \<Rightarrow> net_alert list" where
  "port_detect_one rules conn =
     (if nc_state conn \<noteq> Established \<and> nc_state conn \<noteq> Listen then []
      else case nc_remote_port conn of
        Some remote_port \<Rightarrow>
          if remote_port \<in> set (dr_tor_ports rules)
          then [alert_on conn AnonymizationNetwork Medium 80 (''tor_port:'' @ show_nat remote_port)]
          else if remote_port \<in> set (dr_irc_ports rules)
          then [alert_on conn SuspiciousPort Medium 70 (''irc_port:'' @ show_nat remote_port)]
          else suspicious_use rules conn
      | None \<Rightarrow> suspicious_use rules conn)"

definition port_detect :: "detection_rules \<Rightarrow> network_connection list \<Rightarrow> net_alert list" where
  "port_detect rules connections = concat (map (port_detect_one rules) connections)"

end
