(* ===== verification/Net_Beacon.thy ===== *)
theory Net_Beacon imports Net_Rules Rust_Float begin

text \<open>
  The beaconing detector (\<open>crates/agent-network/src/detection/beaconing_detector.rs\<close>): the sockets
  newly seen in a snapshot are events of their destination; a destination whose events keep a steady
  interval is a beacon.

  Instants are in nanoseconds; one operation reads the clock once. The key of a socket is the tuple
  the code prints, each part of which has one text. Hash maps are association lists.

  Parameters: \<open>lower\<close>, \<open>parse_ip\<close> and \<open>addr_text\<close>, the text of a parsed address.
\<close>

section \<open>Square roots\<close>

fun isqrt :: "nat \<Rightarrow> nat" where
  "isqrt n = (if n = 0 then 0 else let r = 2 * isqrt (n div 4) in if (r + 1) * (r + 1) \<le> n then r + 1 else r)"

declare isqrt.simps [simp del]

lemma isqrt_bounds: "isqrt n * isqrt n \<le> n \<and> n < (isqrt n + 1) * (isqrt n + 1)"
proof (induction n rule: less_induct)
  case (less n)
  show ?case
  proof (cases "n = 0")
    case True
    then show ?thesis by (simp add: isqrt.simps)
  next
    case False
    define s where "s = isqrt (n div 4)"
    from False have "n div 4 < n" by simp
    from less.IH [OF this] have s: "s * s \<le> n div 4" "n div 4 < (s + 1) * (s + 1)" by (simp_all add: s_def)
    then have lo: "(2 * s) * (2 * s) \<le> n" by linarith
    have "n < 4 * ((s + 1) * (s + 1))" using s(2) by linarith
    then have hi: "n < (2 * s + 2) * (2 * s + 2)" by (simp add: algebra_simps)
    have "isqrt n = (if (2 * s + 1) * (2 * s + 1) \<le> n then 2 * s + 1 else 2 * s)"
      using False by (subst isqrt.simps) (simp add: s_def Let_def)
    with lo hi show ?thesis by (auto simp: not_le)
  qed
qed

text \<open>
  \<open>f64::sqrt\<close> is correctly rounded. The root is cut to more bits than \<open>f64\<close> has; when it is not exact,
  half a unit more of it rounds like the root itself, which lies strictly between two neighbours.
\<close>

definition f64_sqrt :: "rat \<Rightarrow> rat" where
  "f64_sqrt x =
     (if x \<le> 0 then 0
      else let k = 60 - binary_exponent x div 2;
               y = x * 4 powi k;
               s = isqrt (nat \<lfloor>y\<rfloor>)
           in f64 ((of_nat s + (if of_nat (s * s) = y then 0 else 1 / 2)) / 2 powi k))"

section \<open>Types\<close>

record beaconing_config =
  bc_min_connections :: nat
  bc_max_jitter_percent :: rat
  bc_min_confidence :: nat
  bc_analysis_window_secs :: int
  bc_min_beacon_interval_secs :: int
  bc_max_beacon_interval_secs :: int
  bc_max_tracked_destinations :: nat
  bc_max_events_per_destination :: nat

definition default_beaconing_config :: beaconing_config where
  "default_beaconing_config =
     \<lparr>bc_min_connections = 5, bc_max_jitter_percent = 15, bc_min_confidence = 70,
      bc_analysis_window_secs = 3600, bc_min_beacon_interval_secs = 30, bc_max_beacon_interval_secs = 3600,
      bc_max_tracked_destinations = 10000, bc_max_events_per_destination = 1000\<rparr>"

record connection_event =
  ce_destination :: string
  ce_timestamp :: instant
  ce_process_name :: "string option"
  ce_pid :: "u32 option"

record beaconing_analysis =
  ba_destination :: string
  ba_avg_interval_secs :: rat
  ba_std_dev_secs :: rat
  ba_jitter_percent :: rat
  ba_connection_count :: nat
  ba_confidence :: nat
  ba_is_beaconing :: bool

type_synonym socket_key =
  "connection_protocol \<times> string \<times> nat \<times> string option \<times> nat option \<times> u32 option"

record beaconing_detector =
  bd_config :: beaconing_config
  bd_history :: "(string \<times> connection_event list) list"
  bd_whitelist :: "string list"
  bd_observed :: "socket_key list"

definition beacon_whitelist :: "string list" where
  "beacon_whitelist =
     [''cloudfunctions.net'', ''run.app'', ''googleapis.com'', ''google.com'', ''microsoft.com'', ''azure.com'',
      ''amazonaws.com'', ''cloudflare.com'', ''apple.com'', ''icloud.com'', ''dropbox.com'', ''slack.com'',
      ''zoom.us'', ''teams.microsoft.com'', ''pool.ntp.org'', ''127.0.0.1'', ''localhost'', ''::1'']"

definition with_config :: "beaconing_config \<Rightarrow> beaconing_detector" where
  "with_config config =
     \<lparr>bd_config = config, bd_history = [], bd_whitelist = beacon_whitelist, bd_observed = []\<rparr>"

definition new_beaconing_detector :: beaconing_detector where
  "new_beaconing_detector = with_config default_beaconing_config"

section \<open>Recording\<close>

record net_env =
  ne_lower :: "string \<Rightarrow> string"
  ne_parse_ip :: "string \<Rightarrow> ip_addr option"
  ne_addr_text :: "ip_addr \<Rightarrow> string"
  ne_log2 :: "rat \<Rightarrow> rat"
  ne_pid :: u32

definition whitelist_host :: "net_env \<Rightarrow> string \<Rightarrow> string" where
  "whitelist_host env destination =
     (case ne_parse_ip env destination of
        Some ip \<Rightarrow> ne_addr_text env ip
      | None \<Rightarrow>
          (let host = (case rsplit_once CHR '':'' destination of
                         Some (host, port) \<Rightarrow> if parse_unsigned 65535 port \<noteq> None then host else destination
                       | None \<Rightarrow> destination)
           in ne_lower env (trim_end_matches ''.'' host)))"

definition beacon_whitelisted :: "net_env \<Rightarrow> beaconing_detector \<Rightarrow> string \<Rightarrow> bool" where
  "beacon_whitelisted env det destination =
     (let host = whitelist_host env destination in
      (case ne_parse_ip env host of None \<Rightarrow> False | Some ip \<Rightarrow> is_loopback ip) \<or>
      list_ex (\<lambda>domain. host = domain \<or> suffix (''.'' @ domain) host) (bd_whitelist det))"

definition socket_key :: "network_connection \<Rightarrow> socket_key" where
  "socket_key conn =
     (nc_protocol conn, nc_local_address conn, nc_local_port conn, nc_remote_address conn, nc_remote_port conn,
      nc_pid conn)"

definition destination_text :: "string \<Rightarrow> nat \<Rightarrow> string" where
  "destination_text address port = address @ '':'' @ show_nat port"

definition cleanup_old_events :: "instant \<Rightarrow> beaconing_detector \<Rightarrow> beaconing_detector" where
  "cleanup_old_events now det =
     (let cutoff = now - seconds (bc_analysis_window_secs (bd_config det)) in
      det\<lparr>bd_history := filter (\<lambda>(_, v). v \<noteq> [])
            (map (\<lambda>(k, v). (k, filter (\<lambda>e. cutoff < ce_timestamp e) v)) (bd_history det))\<rparr>)"

text \<open>\<open>min_by_key\<close>: the first entry with the fewest events.\<close>

fun fewest_events :: "(string \<times> 'e list) list \<Rightarrow> string option" where
  "fewest_events [] = None"
| "fewest_events ((k, v) # m) =
     (if \<forall>(_, w) \<in> set m. length v \<le> length w then Some k else fewest_events m)"

definition make_place :: "string \<Rightarrow> beaconing_detector \<Rightarrow> (string \<times> connection_event list) list" where
  "make_place destination det =
     (if map_of (bd_history det) destination = None \<and>
         bc_max_tracked_destinations (bd_config det) \<le> length (bd_history det)
      then (case fewest_events (bd_history det) of
              Some k \<Rightarrow> AList.delete k (bd_history det) | None \<Rightarrow> bd_history det)
      else bd_history det)"

definition keep_last :: "nat \<Rightarrow> 'e list \<Rightarrow> 'e list" where
  "keep_last n events = drop (length events - n) events"

definition store_event :: "connection_event \<Rightarrow> beaconing_detector \<Rightarrow> beaconing_detector" where
  "store_event event det =
     (let destination = ce_destination event;
          m = make_place destination det;
          events = keep_last (bc_max_events_per_destination (bd_config det))
                     (unwrap_or (map_of m destination) [] @ [event])
      in det\<lparr>bd_history := AList.update destination events m\<rparr>)"

definition record_connection :: "net_env \<Rightarrow> instant \<Rightarrow> network_connection \<Rightarrow> beaconing_detector \<Rightarrow> beaconing_detector" where
  "record_connection env now conn det =
     (if nc_state conn \<noteq> Established then det
      else case (nc_remote_address conn, nc_remote_port conn) of
        (Some remote_addr, Some remote_port) \<Rightarrow>
          (let destination = destination_text remote_addr remote_port in
           if beacon_whitelisted env det destination \<or> beacon_whitelisted env det remote_addr then det
           else cleanup_old_events now
                  (store_event \<lparr>ce_destination = destination, ce_timestamp = now,
                                ce_process_name = nc_process_name conn, ce_pid = nc_pid conn\<rparr> det))
      | _ \<Rightarrow> det)"

text \<open>The loop of \<open>record_snapshot\<close>: \<open>current\<close> holds the keys met so far.\<close>

fun record_sockets ::
  "net_env \<Rightarrow> instant \<Rightarrow> network_connection list \<Rightarrow> socket_key list \<Rightarrow> beaconing_detector \<Rightarrow>
     socket_key list \<times> beaconing_detector" where
  "record_sockets env now [] current det = (current, det)"
| "record_sockets env now (conn # connections) current det =
     (if nc_state conn \<noteq> Established then record_sockets env now connections current det
      else if socket_key conn \<in> set current then record_sockets env now connections current det
      else record_sockets env now connections (socket_key conn # current)
             (if socket_key conn \<in> set (bd_observed det) then det else record_connection env now conn det))"

definition record_snapshot ::
  "net_env \<Rightarrow> instant \<Rightarrow> network_connection list \<Rightarrow> beaconing_detector \<Rightarrow> beaconing_detector" where
  "record_snapshot env now connections det =
     (case record_sockets env now connections [] det of
        (current, det') \<Rightarrow> cleanup_old_events now (det'\<lparr>bd_observed := current\<rparr>))"

section \<open>Analysis\<close>

definition data_score :: "nat \<Rightarrow> rat" where
  "data_score interval_count = f64 (min (f64 (f64 (of_nat interval_count) / 20)) 1 * 30)"

definition beacon_confidence :: "nat \<Rightarrow> rat \<Rightarrow> rat \<Rightarrow> connection_event list \<Rightarrow> nat" where
  "beacon_confidence interval_count jitter_percent avg_interval events =
     (let score = (if jitter_percent < 5 then 40 else if jitter_percent < 10 then 30
                   else if jitter_percent < 15 then 20 else if jitter_percent < 20 then 10 else 0);
          score = f64 (score + data_score interval_count);
          score = (if 60 \<le> avg_interval \<and> avg_interval \<le> 900 then f64 (score + 20)
                   else if 30 \<le> avg_interval \<and> avg_interval \<le> 1800 then f64 (score + 10) else score);
          score = (case events of
                     [] \<Rightarrow> score
                   | e # es \<Rightarrow>
                       if list_all (\<lambda>e'. ce_process_name e' = ce_process_name e) events \<and> ce_process_name e \<noteq> None
                       then f64 (score + 10) else score)
      in min (nat \<lfloor>min score 100\<rfloor>) 100)"

fun intervals :: "instant list \<Rightarrow> rat list" where
  "intervals (t # u # ts) = f64 (of_int (num_seconds (u - t))) # intervals (u # ts)"
| "intervals ts = []"

definition f64_sum :: "rat list \<Rightarrow> rat" where
  "f64_sum xs = foldl (\<lambda>acc x. f64 (acc + x)) 0 xs"

definition analyze_destination ::
  "beaconing_config \<Rightarrow> string \<Rightarrow> connection_event list \<Rightarrow> beaconing_analysis option" where
  "analyze_destination config destination events =
     (if length events < bc_min_connections config then None
      else
        let sorted_events = sort_key ce_timestamp events;
            ivs = intervals (map ce_timestamp sorted_events)
        in if list_ex (\<lambda>i. i < f64 (of_int (bc_min_beacon_interval_secs config)) \<or>
                          f64 (of_int (bc_max_beacon_interval_secs config)) < i) ivs then None
           else if length ivs < bc_min_connections config - 1 then None
           else if ivs = [] then None
           else
             let count = f64 (of_nat (length ivs));
                 avg_interval = f64 (f64_sum ivs / count);
                 variance = f64 (f64_sum (map (\<lambda>i. let d = f64 (i - avg_interval) in f64 (d * d)) ivs) / count);
                 std_dev = f64_sqrt variance;
                 jitter_percent = (if 0 < avg_interval then f64 (f64 (std_dev / avg_interval) * 100) else 100);
                 confidence = beacon_confidence (length ivs) jitter_percent avg_interval sorted_events
             in Some \<lparr>ba_destination = destination, ba_avg_interval_secs = avg_interval, ba_std_dev_secs = std_dev,
                      ba_jitter_percent = jitter_percent, ba_connection_count = length events,
                      ba_confidence = confidence,
                      ba_is_beaconing = (jitter_percent \<le> bc_max_jitter_percent config \<and>
                                         bc_min_confidence config \<le> confidence)\<rparr>)"

definition beacon_alert :: "network_connection \<Rightarrow> beaconing_analysis \<Rightarrow> net_alert" where
  "beacon_alert conn analysis =
     alert_on conn C2Communication
       (if 90 \<le> ba_confidence analysis then Critical else if 80 \<le> ba_confidence analysis then High else Medium)
       (ba_confidence analysis) (''beacon:'' @ ba_destination analysis)"

definition connected_to :: "string \<Rightarrow> network_connection \<Rightarrow> bool" where
  "connected_to destination c \<longleftrightarrow>
     nc_state c = Established \<and>
     (case (nc_remote_address c, nc_remote_port c) of
        (Some address, Some port) \<Rightarrow> destination_text address port = destination
      | _ \<Rightarrow> False)"

definition detect_destination ::
  "instant \<Rightarrow> beaconing_detector \<Rightarrow> network_connection list \<Rightarrow> string \<times> connection_event list \<Rightarrow> net_alert list" where
  "detect_destination now det connections entry =
     (case entry of (destination, history) \<Rightarrow>
        let cutoff = now - seconds (bc_analysis_window_secs (bd_config det));
            recent = filter (\<lambda>e. cutoff < ce_timestamp e) history
        in case analyze_destination (bd_config det) destination recent of
             Some analysis \<Rightarrow>
               if ba_is_beaconing analysis
               then (case find (connected_to destination) connections of
                       Some conn \<Rightarrow> [beacon_alert conn analysis] | None \<Rightarrow> [])
               else []
           | None \<Rightarrow> [])"

definition beacon_detect :: "instant \<Rightarrow> beaconing_detector \<Rightarrow> network_connection list \<Rightarrow> net_alert list" where
  "beacon_detect now det connections = concat (map (detect_destination now det connections) (bd_history det))"

definition clear_history :: "beaconing_detector \<Rightarrow> beaconing_detector" where
  "clear_history det = det\<lparr>bd_history := [], bd_observed := []\<rparr>"

end
