(* ===== verification/Net_Detect.thy ===== *)
theory Net_Detect imports Net_Beacon begin

text \<open>
  The detector of generated domain names (\<open>crates/agent-network/src/detection/dga_detector.rs\<close>): five
  measures of the label before the top-level domain and the confidence made of them.

  A text is its bytes, and the measures only look at ASCII letters and digits, so bytes and characters
  give the same counts. \<open>log2\<close> of the mathematical library is the parameter \<open>ne_log2\<close>.
\<close>

record dga_config =
  dc_entropy_threshold :: rat
  dc_min_domain_length :: nat
  dc_max_consonant_ratio :: rat
  dc_min_confidence :: nat

definition default_dga_config :: dga_config where
  "default_dga_config =
     \<lparr>dc_entropy_threshold = 7 / 2, dc_min_domain_length = 8, dc_max_consonant_ratio = f64 (8 / 10),
      dc_min_confidence = 60\<rparr>"

definition known_tlds :: "string list" where
  "known_tlds =
     [''com'', ''net'', ''org'', ''io'', ''co'', ''info'', ''biz'', ''ru'', ''cn'', ''de'', ''uk'',
      ''fr'', ''jp'', ''br'', ''it'', ''es'', ''nl'', ''au'', ''ca'', ''in'', ''mx'', ''kr'', ''pl'',
      ''se'', ''ch'', ''be'', ''at'', ''cz'', ''dk'', ''fi'', ''gr'', ''hu'', ''ie'', ''no'', ''pt'',
      ''ro'', ''sk'', ''ua'', ''za'', ''nz'', ''sg'', ''hk'', ''tw'', ''my'', ''th'', ''vn'', ''ph'',
      ''id'', ''tr'', ''il'', ''ae'', ''sa'', ''eg'', ''ng'', ''ke'', ''xyz'', ''top'', ''site'',
      ''online'', ''club'', ''work'', ''live'', ''tech'', ''store'', ''app'']"

definition common_words :: "string list" where
  "common_words =
     [''google'', ''facebook'', ''amazon'', ''microsoft'', ''apple'', ''netflix'', ''twitter'',
      ''instagram'', ''linkedin'', ''github'', ''youtube'', ''yahoo'', ''mail'', ''cloud'', ''server'',
      ''login'', ''account'', ''secure'', ''update'', ''download'', ''support'', ''service'', ''online'',
      ''shop'', ''store'', ''news'', ''blog'', ''forum'', ''game'', ''play'', ''music'', ''video'',
      ''photo'', ''image'', ''file'', ''data'', ''backup'', ''sync'', ''connect'', ''network'',
      ''system'', ''admin'', ''user'', ''home'', ''work'']"

definition dga_whitelist :: "string list" where
  "dga_whitelist =
     [''cloudfunctions.net'', ''run.app'', ''sentinel-grc.com'', ''web.app'', ''google.com'',
      ''googleapis.com'', ''gstatic.com'', ''microsoft.com'', ''windows.com'', ''azure.com'',
      ''office.com'', ''live.com'', ''apple.com'', ''icloud.com'', ''amazon.com'', ''amazonaws.com'',
      ''cloudfront.net'', ''facebook.com'', ''fbcdn.net'', ''twitter.com'', ''twimg.com'',
      ''github.com'', ''githubusercontent.com'', ''linkedin.com'', ''akamai.net'', ''akamaiedge.net'',
      ''cloudflare.com'', ''fastly.net'']"

definition common_bigrams :: "string list" where
  "common_bigrams =
     [''th'', ''he'', ''in'', ''er'', ''an'', ''re'', ''on'', ''at'', ''en'', ''nd'', ''ti'', ''es'',
      ''or'', ''te'', ''of'', ''ed'', ''is'', ''it'', ''al'', ''ar'', ''st'', ''to'', ''nt'', ''ng'',
      ''se'', ''ha'', ''as'', ''ou'', ''io'', ''le'', ''ve'', ''co'', ''me'', ''de'', ''hi'', ''ri'',
      ''ro'', ''ic'', ''ne'', ''ea'', ''ra'', ''ce'']"

section \<open>Measures\<close>

definition calculate_entropy :: "net_env \<Rightarrow> string \<Rightarrow> rat" where
  "calculate_entropy env s =
     (if s = [] then 0
      else
        let len = f64 (of_nat (length s))
        in fold (\<lambda>b entropy.
             let c = length (filter (\<lambda>x. byte x = b) s) in
             if 0 < c then (let p = f64 (f64 (of_nat c) / len) in f64 (entropy - f64 (p * ne_log2 env p)))
             else entropy) [0..<256] 0)"

definition is_vowel :: "char \<Rightarrow> bool" where
  "is_vowel c \<longleftrightarrow> to_ascii_lower_char c \<in> {CHR ''a'', CHR ''e'', CHR ''i'', CHR ''o'', CHR ''u''}"

definition calculate_consonant_ratio :: "string \<Rightarrow> rat" where
  "calculate_consonant_ratio s =
     (let letters = filter is_ascii_alphabetic s;
          consonants = filter (\<lambda>c. \<not> is_vowel c) letters
      in if length letters = 0 then 0
         else f64 (f64 (of_nat (length consonants)) / f64 (of_nat (length letters))))"

fun letter_bigrams :: "string \<Rightarrow> string list" where
  "letter_bigrams (a # b # s) =
     (if is_ascii_alphabetic a \<and> is_ascii_alphabetic b then [a, b] # letter_bigrams (b # s)
      else letter_bigrams (b # s))"
| "letter_bigrams s = []"

definition calculate_ngram_score :: "string \<Rightarrow> rat" where
  "calculate_ngram_score s =
     (if length s < 3 then 0
      else
        let bigrams = letter_bigrams s;
            unusual = filter (\<lambda>b. to_ascii_lowercase b \<notin> set common_bigrams) bigrams
        in if length bigrams = 0 then 0
           else f64 (f64 (of_nat (length unusual)) / f64 (of_nat (length bigrams))))"

definition calculate_dictionary_score :: "net_env \<Rightarrow> string \<Rightarrow> rat" where
  "calculate_dictionary_score env s =
     (let s_lower = ne_lower env s in
      if list_ex (\<lambda>w. 4 \<le> length w \<and> str_contains s_lower w) common_words then 0 else 1)"

definition calculate_digit_ratio :: "string \<Rightarrow> rat" where
  "calculate_digit_ratio s =
     (if s = [] then 0
      else f64 (f64 (of_nat (length (filter is_ascii_digit s))) / f64 (of_nat (length s))))"

definition dga_confidence :: "dga_config \<Rightarrow> rat \<Rightarrow> rat \<Rightarrow> rat \<Rightarrow> rat \<Rightarrow> rat \<Rightarrow> nat" where
  "dga_confidence config entropy consonant_ratio ngram_score dictionary_score digit_ratio =
     (let score = 0;
          score = (if dc_entropy_threshold config < entropy
                   then f64 (score + f64 (30 * min (f64 (max (f64 (entropy - dc_entropy_threshold config)) 0 / (3 / 2))) 1))
                   else score);
          score = (if dc_max_consonant_ratio config < consonant_ratio
                   then f64 (score + f64 (20 * min (f64 (max (f64 (consonant_ratio - dc_max_consonant_ratio config)) 0
                                                         / f64 (15 / 100))) 1))
                   else score);
          score = f64 (score + f64 (25 * ngram_score));
          score = f64 (score + f64 (15 * dictionary_score));
          score = (if f64 (1 / 10) < digit_ratio \<and> digit_ratio < 1 / 2 then f64 (score + 10) else score)
      in min (nat \<lfloor>min score 100\<rfloor>) 100)"

section \<open>Domains\<close>

text \<open>The loop of \<open>extract_sld\<close>, from the last part: \<open>rev_parts\<close> are the parts up to the current one, last first.\<close>

fun label_before_tld :: "string list \<Rightarrow> string option" where
  "label_before_tld (part # before # parts) =
     (if part \<in> set known_tlds then Some before else label_before_tld (before # parts))"
| "label_before_tld parts = None"

definition extract_sld :: "string \<Rightarrow> string option" where
  "extract_sld domain =
     (if 253 < length domain then None
      else
        let parts = split_at_char CHR ''.'' domain
        in if length parts < 2 then Some domain
           else case label_before_tld (rev parts) of
             Some label \<Rightarrow> Some label
           | None \<Rightarrow> Some (hd parts))"

definition is_ip_address :: "string \<Rightarrow> bool" where
  "is_ip_address s \<longleftrightarrow>
     (length (split_at_char CHR ''.'' s) = 4 \<and> list_all (\<lambda>c. is_ascii_digit c \<or> c = CHR ''.'') s) \<or>
     (CHR '':'' \<in> set s \<and> list_all (\<lambda>c. is_ascii_hexdigit c \<or> c = CHR '':'') s)"

definition dga_whitelisted :: "string \<Rightarrow> bool" where
  "dga_whitelisted domain \<longleftrightarrow> list_ex (\<lambda>w. domain = w \<or> suffix (''.'' @ w) domain) dga_whitelist"

definition dga_alert :: "network_connection \<Rightarrow> string \<Rightarrow> nat \<Rightarrow> net_alert" where
  "dga_alert conn domain confidence =
     alert_on conn C2Communication
       (if 90 \<le> confidence then Critical else if 75 \<le> confidence then High else Medium)
       confidence (''dga:'' @ domain)"

definition analyze_domain :: "net_env \<Rightarrow> dga_config \<Rightarrow> string \<Rightarrow> network_connection \<Rightarrow> net_alert option" where
  "analyze_domain env config domain conn =
     (let domain_lower = ne_lower env domain in
      if dga_whitelisted domain_lower then None
      else case extract_sld domain_lower of
        None \<Rightarrow> None
      | Some sld \<Rightarrow>
          if length sld < dc_min_domain_length config then None
          else
            let confidence = dga_confidence config (calculate_entropy env sld) (calculate_consonant_ratio sld)
                  (calculate_ngram_score sld) (calculate_dictionary_score env sld) (calculate_digit_ratio sld)
            in if dc_min_confidence config \<le> confidence then Some (dga_alert conn domain confidence) else None)"

text \<open>The loop of \<open>detect\<close>: \<open>seen\<close> are the domains analysed so far.\<close>

fun dga_loop :: "net_env \<Rightarrow> dga_config \<Rightarrow> network_connection list \<Rightarrow> string list \<Rightarrow> net_alert list" where
  "dga_loop env config [] seen = []"
| "dga_loop env config (conn # connections) seen =
     (case (if nc_state conn \<noteq> Established then None else nc_remote_address conn) of
        None \<Rightarrow> dga_loop env config connections seen
      | Some remote_addr \<Rightarrow>
          if \<not> is_ip_address remote_addr \<and> remote_addr \<notin> set seen
          then (case analyze_domain env config remote_addr conn of
                  Some a \<Rightarrow> a # dga_loop env config connections (remote_addr # seen)
                | None \<Rightarrow> dga_loop env config connections (remote_addr # seen))
          else dga_loop env config connections seen)"

definition dga_detect :: "net_env \<Rightarrow> dga_config \<Rightarrow> network_connection list \<Rightarrow> net_alert list" where
  "dga_detect env config connections = dga_loop env config connections []"

text \<open>
  All detectors together (\<open>SecurityDetector\<close> of \<open>crates/agent-network/src/detection/mod.rs\<close>), as the
  network manager (\<open>crates/agent-network/src/lib.rs\<close>) and the detection pass
  (\<open>run_network_security_detection\<close> of \<open>crates/agent-core/src/network_ops.rs\<close>) use them.

  The detectors of a snapshot hold nothing but what they take from the rules, and the detector of
  domains holds its configuration: the rules and the beaconing detector are the state.
\<close>

record security_detector =
  sd_rules :: detection_rules
  sd_beaconing :: beaconing_detector

definition new_security_detector :: security_detector where
  "new_security_detector = \<lparr>sd_rules = default_rules, sd_beaconing = new_beaconing_detector\<rparr>"

definition with_threat_intel :: "threat_intelligence \<Rightarrow> security_detector" where
  "with_threat_intel intel = \<lparr>sd_rules = from_threat_intel intel, sd_beaconing = new_beaconing_detector\<rparr>"

definition update_threat_intel :: "threat_intelligence \<Rightarrow> security_detector \<Rightarrow> security_detector" where
  "update_threat_intel intel det =
     det\<lparr>sd_rules := from_threat_intel intel, sd_beaconing := new_beaconing_detector\<rparr>"

fun severity_rank :: "alert_severity \<Rightarrow> nat" where
  "severity_rank Low = 0"
| "severity_rank Medium = 1"
| "severity_rank High = 2"
| "severity_rank Critical = 3"

definition not_own :: "net_env \<Rightarrow> network_connection \<Rightarrow> bool" where
  "not_own env c \<longleftrightarrow> nc_pid c \<noteq> Some (ne_pid env)"

definition raised :: "net_env \<Rightarrow> instant \<Rightarrow> security_detector \<Rightarrow> network_connection list \<Rightarrow> net_alert list" where
  "raised env now det filtered =
     c2_detect (sd_rules det) filtered @
     miner_detect (ne_lower env) (sd_rules det) filtered @
     exfil_detect (ne_parse_ip env) filtered @
     port_detect (sd_rules det) filtered @
     dga_detect env default_dga_config filtered @
     beacon_detect now (sd_beaconing det) filtered"

definition analyze :: "net_env \<Rightarrow> instant \<Rightarrow> security_detector \<Rightarrow> network_connection list \<Rightarrow> net_alert list" where
  "analyze env now det connections =
     (let filtered = filter (not_own env) connections
      in sort_key (\<lambda>a. 3 - severity_rank (da_severity a)) (raised env now det filtered))"

definition record_connections_for_beaconing ::
  "net_env \<Rightarrow> instant \<Rightarrow> network_connection list \<Rightarrow> security_detector \<Rightarrow> security_detector" where
  "record_connections_for_beaconing env now connections det =
     det\<lparr>sd_beaconing := record_snapshot env now (filter (not_own env) connections) (sd_beaconing det)\<rparr>"

definition run_network_security_detection ::
  "net_env \<Rightarrow> instant \<Rightarrow> network_connection list \<Rightarrow> security_detector \<Rightarrow> security_detector \<times> net_alert list" where
  "run_network_security_detection env now connections det =
     (let det' = record_connections_for_beaconing env now connections det
      in (det', analyze env now det' connections))"

text \<open>What the manager goes through: detection passes and updates of the intelligence, in any order.\<close>

datatype net_step =
    Pass instant "network_connection list"
  | Intel threat_intelligence

fun net_run :: "net_env \<Rightarrow> net_step list \<Rightarrow> security_detector \<Rightarrow> security_detector" where
  "net_run env [] det = det"
| "net_run env (Pass now connections # steps) det =
     net_run env steps (fst (run_network_security_detection env now connections det))"
| "net_run env (Intel intel # steps) det = net_run env steps (update_threat_intel intel det)"

end
