(* ===== verification/Net_Detect_Props.thy ===== *)
theory Net_Detect_Props imports Net_Detect begin

text \<open>
  What the detectors report about a snapshot, exactly; that the memory of the beaconing detector
  stays bounded; and which regular traffic it recognises.
\<close>


section \<open>What is reported\<close>

text \<open>The connections the alerts of a type are about.\<close>

definition about :: "network_alert_type \<Rightarrow> net_alert list \<Rightarrow> network_connection set" where
  "about t alerts = {c. \<exists>a \<in> set alerts. da_type a = t \<and> da_connection a = Some c}"

lemma alert_on_simps [simp]:
  "da_type (alert_on c t s confidence ioc) = t" "da_connection (alert_on c t s confidence ioc) = Some c"
  "da_iocs (alert_on c t s confidence ioc) = [ioc]"
  by (simp_all add: alert_on_def)

lemma about_append [simp]: "about t (xs @ ys) = about t xs \<union> about t ys"
  by (auto simp: about_def)

lemma about_simps [simp]:
  "about t [] = {}"
  "about t (alert_on c t' s confidence ioc # as) = (if t = t' then insert c (about t as) else about t as)"
  by (auto simp: about_def)

lemma about_concat: "about t (concat (map f xs)) = (\<Union>x \<in> set xs. about t (f x))"
  by (auto simp: about_def)

lemma about_cong: "set xs = set ys \<Longrightarrow> about t xs = about t ys"
  by (simp add: about_def)

lemma about_c2_one:
  "about t (c2_detect_one rules c) =
     (if nc_state c = Established \<and>
        ((t = SuspiciousPort \<and> (\<exists>p. nc_remote_port c = Some p \<and> p \<in> set (dr_c2_ports rules))) \<or>
         (t = MaliciousDestination \<and> (\<exists>ip. nc_remote_address c = Some ip \<and> ip \<in> set (dr_malicious_ips rules))))
      then {c} else {})"
  by (cases "nc_remote_port c"; cases "nc_remote_address c") (auto simp: c2_detect_one_def)

lemma about_pool:
  "about t (pool_alerts lower rules c) =
     (if t = CryptoMining \<and> (\<exists>p addr. nc_remote_port c = Some p \<and> is_stratum_port p \<and>
            nc_remote_address c = Some addr \<and> is_mining_pool lower rules addr)
      then {c} else {})"
  by (cases "nc_remote_port c"; cases "nc_remote_address c") (auto simp: pool_alerts_def)

lemma about_miner_one:
  "about t (miner_detect_one lower rules c) =
     (if t = CryptoMining \<and> nc_state c = Established \<and>
        ((\<exists>name. nc_process_name c = Some name \<and> is_miner_process lower rules name) \<or>
         (\<exists>p addr. nc_remote_port c = Some p \<and> is_stratum_port p \<and>
            nc_remote_address c = Some addr \<and> is_mining_pool lower rules addr))
      then {c} else {})"
  by (cases "nc_process_name c") (auto simp: miner_detect_one_def about_pool)

lemma about_suspicious_types: "t \<noteq> SuspiciousPort \<Longrightarrow> about t (suspicious_use rules c) = {}"
  by (cases "nc_remote_port c") (auto simp: suspicious_use_def)

lemma about_port_one:
  "about AnonymizationNetwork (port_detect_one rules c) =
     (if (nc_state c = Established \<or> nc_state c = Listen) \<and>
         (\<exists>p. nc_remote_port c = Some p \<and> p \<in> set (dr_tor_ports rules))
      then {c} else {})"
  by (cases "nc_remote_port c") (auto simp: port_detect_one_def about_suspicious_types)

lemma about_port_types:
  "t \<noteq> SuspiciousPort \<Longrightarrow> t \<noteq> AnonymizationNetwork \<Longrightarrow> about t (port_detect_one rules c) = {}"
  by (cases "nc_remote_port c") (auto simp: port_detect_one_def about_suspicious_types)

lemma about_exfil: "t \<noteq> ConnectionAnomaly \<Longrightarrow> about t (exfil_detect parse_ip conns) = {}"
  by (auto simp: about_def exfil_detect_def multiple_connections_alert_def)

lemma analyze_domain_type: "analyze_domain env config domain conn = Some a \<Longrightarrow> da_type a = C2Communication"
  by (auto simp: analyze_domain_def dga_alert_def Let_def split: if_splits option.splits)

lemma about_Cons: "da_type a \<noteq> t \<Longrightarrow> about t (a # as) = about t as"
  by (auto simp: about_def)

lemma about_dga: "t \<noteq> C2Communication \<Longrightarrow> about t (dga_loop env config conns seen) = {}"
  by (induction env config conns seen rule: dga_loop.induct)
     (simp_all add: about_Cons analyze_domain_type split: option.splits)

lemma about_beacon: "t \<noteq> C2Communication \<Longrightarrow> about t (beacon_detect now det conns) = {}"
  unfolding beacon_detect_def about_concat
  by (auto simp: detect_destination_def beacon_alert_def Let_def split: if_splits option.splits prod.splits)

lemma about_raised:
  assumes "t \<noteq> C2Communication" "t \<noteq> ConnectionAnomaly" "t \<noteq> SuspiciousPort"
  shows "about t (analyze env now det conns) =
    (\<Union>c \<in> {c \<in> set conns. not_own env c}. about t (c2_detect_one (sd_rules det) c) \<union>
       about t (miner_detect_one (ne_lower env) (sd_rules det) c) \<union> about t (port_detect_one (sd_rules det) c))"
proof -
  have "about t (analyze env now det conns) = about t (raised env now det (filter (not_own env) conns))"
    by (rule about_cong) (simp add: analyze_def Let_def)
  with assms show ?thesis
    by (auto simp: raised_def about_exfil about_dga dga_detect_def about_beacon about_concat
        c2_detect_def miner_detect_def port_detect_def)
qed

section \<open>Many connections\<close>

lemma fold_destinations:
  assumes "hm_wf m"
  shows "hm_wf (fold (count_one parse_ip) conns m) \<and>
    unwrap_or (map_of (fold (count_one parse_ip) conns m) d) [] =
      unwrap_or (map_of m d) [] @ filter (\<lambda>c. public_destination parse_ip c = Some d) conns"
  using assms
proof (induction conns arbitrary: m)
  case (Cons c conns)
  have "hm_wf (count_one parse_ip c m)" using Cons.prems by (auto simp: count_one_def split: option.splits)
  from Cons.IH [OF this] show ?case
    by (auto simp: count_one_def update_conv unwrap_or_def split: option.splits)
qed simp

lemma count_destinations_lookup:
  "hm_wf (count_destinations parse_ip conns)"
  "unwrap_or (map_of (count_destinations parse_ip conns) d) [] =
     filter (\<lambda>c. public_destination parse_ip c = Some d) conns"
  using fold_destinations [of "[]" parse_ip conns d]
  by (simp_all add: count_destinations_def unwrap_or_def)

lemma count_destinations_many:
  "(\<exists>cs. (d, cs) \<in> set (count_destinations parse_ip conns) \<and> 10 \<le> length cs) \<longleftrightarrow>
     10 \<le> length (filter (\<lambda>c. public_destination parse_ip c = Some d) conns)"
  using count_destinations_lookup(2) [of parse_ip conns d] hm_mem [OF count_destinations_lookup(1), of d _ parse_ip conns]
  by (auto simp: unwrap_or_def split: option.splits)
section \<open>Everything hostile, nothing else\<close>

text \<open>The rewriting of \<open>set (case \<dots>)\<close> to a comprehension does not cope with these cases.\<close>

lemma detect_destination_cases:
  obtains "detect_destination now det conns entry = []"
  | conn analysis where "detect_destination now det conns entry = [beacon_alert conn analysis]"
proof -
  obtain d history where e: "entry = (d, history)" by (cases entry)
  let ?recent = "filter (\<lambda>e. now - seconds (bc_analysis_window_secs (bd_config det)) < ce_timestamp e) history"
  let ?analysis = "analyze_destination (bd_config det) d ?recent"
  show ?thesis
    using that
    by (cases ?analysis; cases "find (connected_to d) conns"; cases "ba_is_beaconing (the ?analysis)")
       (simp_all add: detect_destination_def e Let_def)
qed

lemma detect_destination_type:
  "a \<in> set (detect_destination now det conns entry) \<Longrightarrow> da_type a = C2Communication"
  by (cases rule: detect_destination_cases [of now det conns entry]) (simp_all add: beacon_alert_def)

lemma exfil_type: "a \<in> set (exfil_detect parse_ip conns) \<Longrightarrow> da_type a = ConnectionAnomaly"
  by (auto simp: exfil_detect_def multiple_connections_alert_def)

lemma not_raised_about_volume:
  "a \<in> set (raised env now det conns) \<Longrightarrow> da_type a = ConnectionAnomaly \<Longrightarrow>
   a \<in> set (exfil_detect (ne_parse_ip env) conns)"
proof -
  have c2: "da_type b \<noteq> ConnectionAnomaly" if "b \<in> set (c2_detect_one rules c)" for b rules c
    using that by (cases "nc_remote_port c"; cases "nc_remote_address c") (auto simp: c2_detect_one_def split: if_splits)
  have pool: "da_type b = CryptoMining" if "b \<in> set (pool_alerts lower rules c)" for b lower rules c
    using that by (cases "nc_remote_port c") (auto simp: pool_alerts_def split: if_splits)
  have miner: "da_type b \<noteq> ConnectionAnomaly" if "b \<in> set (miner_detect_one lower rules c)" for b lower rules c
    using that by (cases "nc_process_name c") (auto simp: miner_detect_one_def split: if_splits dest: pool)
  have susp: "da_type b = SuspiciousPort" if "b \<in> set (suspicious_use rules c)" for b rules c
    using that by (cases "nc_remote_port c") (auto simp: suspicious_use_def split: if_splits)
  have port: "da_type b \<noteq> ConnectionAnomaly" if "b \<in> set (port_detect_one rules c)" for b rules c
    using that by (cases "nc_remote_port c") (auto simp: port_detect_one_def split: if_splits dest: susp)
  have dga: "da_type b = C2Communication" if "b \<in> set (dga_loop env config conns seen)" for b config conns seen
    using that
    by (induction env config conns seen rule: dga_loop.induct)
       (auto dest: analyze_domain_type split: option.splits if_splits)
  have beacon: "da_type b = C2Communication" if "b \<in> set (beacon_detect now bd conns)" for b bd conns
  proof -
    from that obtain entry where "b \<in> set (detect_destination now bd conns entry)"
      by (auto simp: beacon_detect_def)
    then show ?thesis by (rule detect_destination_type)
  qed
  assume "a \<in> set (raised env now det conns)" "da_type a = ConnectionAnomaly"
  then show ?thesis
    by (auto simp: raised_def c2_detect_def miner_detect_def port_detect_def dga_detect_def
        dest: c2 miner port dga beacon)
qed

text \<open>Over any snapshot, with the agent's own connections left out: the connections reported as going to a malicious
  address are exactly the established ones to an address of the rules; those reported as mining
  exactly the established ones of a known miner or to a known pool on a stratum port; those reported
  as Tor exactly the established or listening ones on a Tor port; and the destinations reported for their many connections
  are exactly the public ones with ten established connections or more.\<close>

theorem hostile_connections_reported:
  "about MaliciousDestination (analyze env now det conns) =
     {c \<in> set conns. not_own env c \<and> nc_state c = Established \<and>
        (\<exists>ip. nc_remote_address c = Some ip \<and> ip \<in> set (dr_malicious_ips (sd_rules det)))} \<and>
   about CryptoMining (analyze env now det conns) =
     {c \<in> set conns. not_own env c \<and> nc_state c = Established \<and>
        ((\<exists>name. nc_process_name c = Some name \<and> is_miner_process (ne_lower env) (sd_rules det) name) \<or>
         (\<exists>p addr. nc_remote_port c = Some p \<and> is_stratum_port p \<and>
            nc_remote_address c = Some addr \<and> is_mining_pool (ne_lower env) (sd_rules det) addr))} \<and>
   about AnonymizationNetwork (analyze env now det conns) =
     {c \<in> set conns. not_own env c \<and> (nc_state c = Established \<or> nc_state c = Listen) \<and>
        (\<exists>p. nc_remote_port c = Some p \<and> p \<in> set (dr_tor_ports (sd_rules det)))} \<and>
   {d. \<exists>a \<in> set (analyze env now det conns). da_type a = ConnectionAnomaly \<and> da_iocs a = [''multi_conn:'' @ d]} =
     {d. 10 \<le> length (filter (\<lambda>c. public_destination (ne_parse_ip env) c = Some d) (filter (not_own env) conns))}"
proof (intro conjI)
  let ?own = "filter (not_own env) conns"
  have "a \<in> set (analyze env now det conns) \<and> da_type a = ConnectionAnomaly \<longleftrightarrow>
      a \<in> set (exfil_detect (ne_parse_ip env) ?own)" for a
    using not_raised_about_volume [of a env now det ?own] exfil_type [of a "ne_parse_ip env" ?own]
    by (auto simp: analyze_def Let_def raised_def)
  then have "(\<exists>a \<in> set (analyze env now det conns). da_type a = ConnectionAnomaly \<and> da_iocs a = [''multi_conn:'' @ d]) \<longleftrightarrow>
      (\<exists>a \<in> set (exfil_detect (ne_parse_ip env) ?own). da_iocs a = [''multi_conn:'' @ d])" for d
    by blast
  also have "(\<exists>a \<in> set (exfil_detect (ne_parse_ip env) ?own). da_iocs a = [''multi_conn:'' @ d]) \<longleftrightarrow>
      (\<exists>cs. (d, cs) \<in> set (count_destinations (ne_parse_ip env) ?own) \<and> 10 \<le> length cs)" for d
    by (force simp: exfil_detect_def multiple_connections_alert_def CONNECTIONS_THRESHOLD_def)
  finally show "{d. \<exists>a \<in> set (analyze env now det conns). da_type a = ConnectionAnomaly \<and>
        da_iocs a = [''multi_conn:'' @ d]} =
      {d. 10 \<le> length (filter (\<lambda>c. public_destination (ne_parse_ip env) c = Some d) ?own)}"
    unfolding count_destinations_many by simp
qed (subst about_raised; auto simp: about_c2_one about_miner_one about_port_one about_port_types split: if_splits)+

text \<open>
  The beaconing detector over time: its memory stays bounded, steady traffic of a named process is
  reported, and traffic that is too slow for the window of analysis never is.
\<close>

section \<open>The memory stays bounded\<close>

definition beacon_memory :: "beaconing_detector \<Rightarrow> bool" where
  "beacon_memory det \<longleftrightarrow>
     hm_wf (bd_history det) \<and> length (bd_history det) \<le> bc_max_tracked_destinations (bd_config det) \<and>
     list_all (\<lambda>(d, events). length events \<le> bc_max_events_per_destination (bd_config det) \<and>
        list_all (\<lambda>e. ce_destination e = d) events) (bd_history det)"

lemma cleanup_config [simp]:
  "bd_config (cleanup_old_events now det) = bd_config det"
  "bd_whitelist (cleanup_old_events now det) = bd_whitelist det"
  "bd_observed (cleanup_old_events now det) = bd_observed det"
  by (simp_all add: cleanup_old_events_def Let_def)

lemma hm_wf_map_snd: "hm_wf (map (\<lambda>(k, v). (k, f v)) m) = hm_wf m"
  by (simp add: hm_wf_def case_prod_unfold comp_def)

lemma cleanup_memory: "beacon_memory det \<Longrightarrow> beacon_memory (cleanup_old_events now det)"
  by (fastforce simp: beacon_memory_def cleanup_old_events_def Let_def hm_wf_map_snd list_all_iff
      intro: le_trans [OF length_filter_le] hm_wf_filter)

lemma fewest_events_key: "m \<noteq> [] \<Longrightarrow> \<exists>k. fewest_events m = Some k \<and> k \<in> fst ` set m"
proof (induction m)
  case (Cons kv m)
  show ?case
  proof (cases m)
    case (Cons kv' m')
    with Cons.IH show ?thesis by (cases kv) auto
  qed (cases kv; simp)
qed simp

lemma make_place_wf: "hm_wf (bd_history det) \<Longrightarrow> hm_wf (make_place d det)"
  by (auto simp: make_place_def split: option.splits)

lemma make_place_subset: "set (make_place d det) \<subseteq> set (bd_history det)"
  by (auto simp: make_place_def AList.delete_eq split: option.splits)

lemma make_place_length:
  assumes "length (bd_history det) \<le> n" "n = bc_max_tracked_destinations (bd_config det)" "0 < n"
  shows "length (AList.update d v (make_place d det)) \<le> n"
proof (cases "map_of (bd_history det) d = None \<and> n \<le> length (bd_history det)")
  case True
  with assms have "bd_history det \<noteq> []" by auto
  then obtain k where k: "fewest_events (bd_history det) = Some k" "k \<in> fst ` set (bd_history det)"
    using fewest_events_key by blast
  with True assms(2) have "make_place d det = AList.delete k (bd_history det)" by (simp add: make_place_def)
  with length_delete_present [OF k(2)] assms(1) show ?thesis by (simp add: length_update)
next
  case False
  with assms(2) have "make_place d det = bd_history det" by (auto simp: make_place_def)
  moreover have "length (bd_history det) < n \<or> d \<in> fst ` set (bd_history det)"
    using False by (auto simp: map_of_eq_None_iff not_le)
  ultimately show ?thesis using assms(1) by (auto simp: length_update)
qed

lemma keep_last_length: "length (keep_last n xs) \<le> n"
  by (simp add: keep_last_def)

lemma keep_last_set: "set (keep_last n xs) \<subseteq> set xs"
  by (simp add: keep_last_def set_drop_subset)

lemma keep_last_all: "list_all P xs \<Longrightarrow> P e \<Longrightarrow> list_all P (keep_last n (xs @ [e]))"
  using keep_last_set [of n "xs @ [e]"] unfolding list_all_iff by auto

lemma store_config [simp]:
  "bd_config (store_event event det) = bd_config det"
  "bd_whitelist (store_event event det) = bd_whitelist det"
  "bd_observed (store_event event det) = bd_observed det"
  by (simp_all add: store_event_def Let_def)

lemma record_config [simp]:
  "bd_config (record_connection env now conn det) = bd_config det"
  "bd_whitelist (record_connection env now conn det) = bd_whitelist det"
  "bd_observed (record_connection env now conn det) = bd_observed det"
  by (auto simp: record_connection_def Let_def split: option.splits)

lemma store_event_memory:
  assumes m: "beacon_memory det" and pos: "0 < bc_max_tracked_destinations (bd_config det)"
  shows "beacon_memory (store_event event det)"
proof -
  let ?d = "ce_destination event"
  let ?place = "make_place ?d det"
  let ?events = "keep_last (bc_max_events_per_destination (bd_config det)) (unwrap_or (map_of ?place ?d) [] @ [event])"
  have wf: "hm_wf ?place" using m make_place_wf by (auto simp: beacon_memory_def)
  have old: "list_all (\<lambda>e. ce_destination e = ?d) (unwrap_or (map_of ?place ?d) [])"
  proof (cases "map_of ?place ?d")
    case (Some v)
    then have "(?d, v) \<in> set (bd_history det)" using map_of_SomeD make_place_subset by fastforce
    with m Some show ?thesis by (auto simp: beacon_memory_def list_all_iff unwrap_or_def)
  qed (simp add: unwrap_or_def)
  have new: "list_all (\<lambda>e. ce_destination e = ?d) ?events"
    by (rule keep_last_all [OF old refl])
  have len: "length (AList.update ?d ?events ?place) \<le> bc_max_tracked_destinations (bd_config det)"
    using make_place_length m pos by (auto simp: beacon_memory_def)
  have "length v \<le> bc_max_events_per_destination (bd_config det) \<and> list_all (\<lambda>e. ce_destination e = k) v"
    if "(k, v) \<in> set (AList.update ?d ?events ?place)" for k v
  proof (cases "k = ?d")
    case True
    with that wf new keep_last_length show ?thesis by (simp add: hm_update_mem)
  next
    case False
    with that wf have "(k, v) \<in> set (bd_history det)" using make_place_subset by (auto simp: hm_update_mem)
    with m show ?thesis by (auto simp: beacon_memory_def list_all_iff)
  qed
  then have "list_all (\<lambda>(k, v). length v \<le> bc_max_events_per_destination (bd_config det) \<and>
      list_all (\<lambda>e. ce_destination e = k) v) (AList.update ?d ?events ?place)"
    unfolding list_all_iff [of "\<lambda>(k, v). length v \<le> bc_max_events_per_destination (bd_config det) \<and>
      list_all (\<lambda>e. ce_destination e = k) v"] by blast
  with len wf show ?thesis by (simp add: store_event_def Let_def beacon_memory_def)
qed

lemma record_connection_memory:
  assumes "beacon_memory det" and "0 < bc_max_tracked_destinations (bd_config det)"
  shows "beacon_memory (record_connection env now conn det)"
  using assms store_event_memory [OF assms]
  by (auto simp: record_connection_def Let_def intro: cleanup_memory split: option.splits)

lemma record_sockets_memory:
  assumes "beacon_memory det" and "0 < bc_max_tracked_destinations (bd_config det)"
  shows "beacon_memory (snd (record_sockets env now conns current det)) \<and>
    bd_config (snd (record_sockets env now conns current det)) = bd_config det"
  using assms
  by (induction env now conns current det rule: record_sockets.induct) (auto simp: record_connection_memory)

lemma record_snapshot_memory:
  assumes "beacon_memory det" and "0 < bc_max_tracked_destinations (bd_config det)"
  shows "beacon_memory (record_snapshot env now conns det) \<and> bd_config (record_snapshot env now conns det) = bd_config det"
proof -
  obtain current det' where s: "record_sockets env now conns [] det = (current, det')"
    by (cases "record_sockets env now conns [] det")
  with record_sockets_memory [OF assms, of env now conns "[]"] have "beacon_memory det'" "bd_config det' = bd_config det"
    by simp_all
  then have "beacon_memory (det'\<lparr>bd_observed := current\<rparr>)" by (simp add: beacon_memory_def)
  with s \<open>bd_config det' = bd_config det\<close> show ?thesis by (simp add: record_snapshot_def cleanup_memory)
qed

lemma new_detector_memory:
  "beacon_memory new_beaconing_detector" "bd_config new_beaconing_detector = default_beaconing_config"
  by (simp_all add: new_beaconing_detector_def with_config_def beacon_memory_def)

lemma net_run_memory:
  assumes "beacon_memory (sd_beaconing det)" and "bd_config (sd_beaconing det) = default_beaconing_config"
  shows "beacon_memory (sd_beaconing (net_run env steps det)) \<and>
    bd_config (sd_beaconing (net_run env steps det)) = default_beaconing_config"
  using assms
proof (induction env steps det rule: net_run.induct)
  case (2 env now conns steps det)
  have "0 < bc_max_tracked_destinations (bd_config (sd_beaconing det))"
    using 2 by (simp add: default_beaconing_config_def)
  with 2 record_snapshot_memory [of "sd_beaconing det" env now "filter (not_own env) conns"] show ?case
    by (simp add: run_network_security_detection_def record_connections_for_beaconing_def Let_def)
next
  case (3 env intel steps det)
  then show ?case by (simp add: update_threat_intel_def new_detector_memory)
qed simp

text \<open>C23: Whatever snapshots are analysed, at whatever times, and whenever the intelligence is updated: the
  beaconing detector remembers at most 10000 destinations, each once, and for each at most 1000 events,
  which are its own.\<close>

theorem beacon_memory_bounded:
  "length (bd_history (sd_beaconing (net_run env steps new_security_detector))) \<le> 10000 \<and>
   distinct (map fst (bd_history (sd_beaconing (net_run env steps new_security_detector)))) \<and>
   list_all (\<lambda>(d, events). length events \<le> 1000 \<and> list_all (\<lambda>e. ce_destination e = d) events)
     (bd_history (sd_beaconing (net_run env steps new_security_detector)))"
proof -
  let ?det = "sd_beaconing (net_run env steps new_security_detector)"
  have "beacon_memory ?det" and config: "bd_config ?det = default_beaconing_config"
    using net_run_memory [of new_security_detector env steps]
    by (simp_all add: new_security_detector_def new_detector_memory)
  then show ?thesis
    unfolding beacon_memory_def hm_wf_def config by (simp add: default_beaconing_config_def)
qed

section \<open>Too slow for the window\<close>

lemma slow_gaps:
  assumes "sorted_wrt (\<lambda>s t. s + seconds 900 \<le> t) ts" and "k < length ts"
  shows "hd ts + int k * seconds 900 \<le> ts ! k"
  using assms
proof (induction k)
  case 0
  then show ?case by (cases ts) auto
next
  case (Suc k)
  then have "ts ! k + seconds 900 \<le> ts ! Suc k" by (simp add: sorted_wrt_iff_nth_less)
  with Suc show ?case by (simp add: algebra_simps)
qed

lemma slow_events_are_few:
  assumes "successively (\<lambda>e f. ce_timestamp e + seconds 900 \<le> ce_timestamp f) events"
    and "list_all (\<lambda>e. ce_timestamp e \<le> now) events"
  shows "length (filter (\<lambda>e. now - seconds 3600 < ce_timestamp e) events) < 5"
proof (rule ccontr)
  let ?recent = "filter (\<lambda>e. now - seconds 3600 < ce_timestamp e) events"
  assume "\<not> length ?recent < 5"
  then have five: "4 < length (map ce_timestamp ?recent)" by simp
  have "transp (\<lambda>e f. ce_timestamp e + seconds 900 \<le> ce_timestamp f)"
    by (rule transpI) (simp add: seconds_def)
  with assms(1) have "sorted_wrt (\<lambda>e f. ce_timestamp e + seconds 900 \<le> ce_timestamp f) events"
    using successively_conv_sorted_wrt by blast
  then have "sorted_wrt (\<lambda>s t. s + seconds 900 \<le> t) (map ce_timestamp ?recent)"
    by (simp add: sorted_wrt_map sorted_wrt_filter)
  from slow_gaps [OF this five] have "hd (map ce_timestamp ?recent) + 4 * seconds 900 \<le> map ce_timestamp ?recent ! 4"
    by simp
  moreover have "map ce_timestamp ?recent ! 4 \<in> set (map ce_timestamp ?recent)" using five by (rule nth_mem)
  moreover have "hd (map ce_timestamp ?recent) \<in> set (map ce_timestamp ?recent)" using five by (intro hd_in_set) auto
  ultimately show False using assms(2) by (auto simp: list_all_iff seconds_def)
qed

text \<open>Traffic whose connections are fifteen minutes apart or more is never reported, however regular: the
  hour of analysis never holds the five connections that are asked for. The intervals of up to an hour the
  configuration allows, and those of fifteen to thirty minutes the confidence counts for, are out of reach.\<close>

theorem slow_beacons_are_missed:
  assumes "bd_config det = default_beaconing_config"
    and "list_all (\<lambda>(d, events). successively (\<lambda>e f. ce_timestamp e + seconds 900 \<le> ce_timestamp f) events \<and>
           list_all (\<lambda>e. ce_timestamp e \<le> now) events) (bd_history det)"
  shows "beacon_detect now det conns = []"
proof -
  have "detect_destination now det conns (d, events) = []" if "(d, events) \<in> set (bd_history det)" for d events
  proof -
    have "length (filter (\<lambda>e. now - seconds 3600 < ce_timestamp e) events) < 5"
      using assms(2) that by (intro slow_events_are_few) (auto simp: list_all_iff)
    then show ?thesis
      using assms(1) by (simp add: detect_destination_def analyze_destination_def default_beaconing_config_def Let_def)
  qed
  then show ?thesis by (auto simp: beacon_detect_def)
qed

section \<open>A steady beacon\<close>

lemma num_seconds_seconds: "num_seconds (seconds i) = i"
  by (cases "0 \<le> i") (auto simp: num_seconds_def seconds_def)

lemma f64_int: "0 \<le> i \<Longrightarrow> i < 2 ^ 53 \<Longrightarrow> f64 (of_int i) = of_int i"
  using fround_of_nat [of "nat i" 53] by simp

lemma intervals_steady:
  assumes "0 \<le> i" "i < 2 ^ 53"
  shows "intervals (map (\<lambda>k. t + seconds i * int k) [a..<b]) = replicate (b - a - 1) (of_int i)"
proof (induction "b - a" arbitrary: a)
  case (Suc n)
  then have ab: "[a..<b] = a # [Suc a..<b]" by (simp add: upt_conv_Cons)
  show ?case
  proof (cases "Suc a < b")
    case True
    then have "[Suc a..<b] = Suc a # [Suc (Suc a)..<b]" by (simp add: upt_conv_Cons)
    moreover have "t + seconds i * int (Suc a) - (t + seconds i * int a) = seconds i" by (simp add: algebra_simps)
    moreover have "b - a - 1 = Suc (b - Suc a - 1)" using True by simp
    moreover have "intervals (map (\<lambda>k. t + seconds i * int k) [Suc a..<b]) = replicate (b - Suc a - 1) (of_int i)"
      using Suc by simp
    ultimately show ?thesis using ab f64_int [OF assms] num_seconds_seconds [of i]
      by (simp only: list.map intervals.simps replicate_Suc)
  qed (use ab in simp)
qed simp

lemma f64_sum_replicate:
  assumes "0 \<le> i" "int m * i < 2 ^ 53"
  shows "f64_sum (replicate m (of_int i)) = of_int (int m * i)"
proof -
  have "foldl (\<lambda>acc x. f64 (acc + x)) (of_int (int a * i)) (replicate b (of_int i)) = of_int (int (a + b) * i)"
    if "int (a + b) * i < 2 ^ 53" for a b
    using that
  proof (induction b arbitrary: a)
    case (Suc b)
    have "int (Suc a) * i \<le> int (a + Suc b) * i" using assms(1) by (intro mult_right_mono) auto
    then have "f64 (of_int (int (Suc a) * i)) = of_int (int (Suc a) * i)"
      using Suc.prems assms(1) by (intro f64_int) auto
    then have "f64 (of_int (int a * i) + of_int i) = of_int (int (Suc a) * i)"
      by (simp add: algebra_simps)
    with Suc.IH [of "Suc a"] Suc.prems show ?case by simp
  qed simp
  from this [of 0 m] assms(2) show ?thesis by (simp add: f64_sum_def)
qed

lemma f64_sqrt_0 [simp]: "f64_sqrt 0 = 0"
  by (simp add: f64_sqrt_def)

lemma steady_confidence:
  assumes "4 \<le> m" and "60 \<le> i" "i \<le> 900" and "events \<noteq> []"
    and "list_all (\<lambda>e. ce_process_name e = Some p) events"
  shows "70 \<le> beacon_confidence m 0 (of_int i) events"
proof -
  have "(1 / 8 :: rat) = f64 (1 / 8)" by code_simp
  also have "\<dots> \<le> f64 (f64 (of_nat m) / 20)"
  proof (rule fround_mono)
    have "f64 4 \<le> f64 (of_nat m)" using assms(1) by (intro fround_mono) auto
    moreover have "f64 4 = (4 :: rat)" by code_simp
    ultimately show "(1 / 8 :: rat) \<le> f64 (of_nat m) / 20" by simp
  qed auto
  finally have "(2 :: rat) \<le> min (f64 (f64 (of_nat m) / 20)) 1 * 30" by (simp add: min_def)
  then have "f64 2 \<le> data_score m" unfolding data_score_def by (intro fround_mono) auto
  moreover have "f64 2 = (2 :: rat)" "f64 42 = (42 :: rat)" "f64 62 = (62 :: rat)" "f64 72 = (72 :: rat)" by code_simp+
  ultimately have "2 \<le> data_score m" "f64 42 = (42 :: rat)" "f64 62 = (62 :: rat)" "f64 72 = (72 :: rat)" by simp_all
  then have "42 \<le> f64 (40 + data_score m)"
    using fround_mono [of 53 42 "40 + data_score m"] by simp
  then have "62 \<le> f64 (f64 (40 + data_score m) + 20)"
    using fround_mono [of 53 62 "f64 (40 + data_score m) + 20"] \<open>f64 62 = (62 :: rat)\<close> by simp
  then have "72 \<le> f64 (f64 (f64 (40 + data_score m) + 20) + 10)"
    using fround_mono [of 53 72 "f64 (f64 (40 + data_score m) + 20) + 10"] \<open>f64 72 = (72 :: rat)\<close> by simp
  moreover obtain e es where ev: "events = e # es" using assms(4) by (cases events) auto
  moreover have "list_all (\<lambda>e'. ce_process_name e' = ce_process_name e) events" "ce_process_name e = Some p"
    using assms(5) ev by (auto simp: list_all_iff)
  moreover have "(60 :: rat) \<le> of_int i" "of_int i \<le> (900 :: rat)" using assms(2,3) by linarith+
  ultimately have "beacon_confidence m 0 (of_int i) events =
      min (nat \<lfloor>min (f64 (f64 (f64 (40 + data_score m) + 20) + 10)) 100\<rfloor>) 100"
    by (simp add: beacon_confidence_def Let_def)
  moreover have "70 \<le> nat \<lfloor>min (f64 (f64 (f64 (40 + data_score m) + 20) + 10)) 100\<rfloor>"
  proof -
    have floor: "70 \<le> nat \<lfloor>x\<rfloor>" if "(70 :: rat) \<le> x" for x
      using that by (metis le_floor_iff nat_le_iff nat_mono nat_numeral of_int_numeral)
    show ?thesis
      using \<open>72 \<le> f64 (f64 (f64 (40 + data_score m) + 20) + 10)\<close> by (intro floor) simp
  qed
  ultimately show ?thesis by simp
qed


lemma analyze_steady:
  assumes n: "5 \<le> n" "n \<le> 1000" and i: "60 \<le> i" "i \<le> 900"
    and ts: "map ce_timestamp events = map (\<lambda>k. t + seconds i * int k) [0..<n]"
    and proc: "list_all (\<lambda>e. ce_process_name e = Some p) events"
  shows "\<exists>a. analyze_destination default_beaconing_config d events = Some a \<and> ba_is_beaconing a \<and>
    ba_destination a = d"
proof -
  have len: "length events = n" using ts by (metis diff_zero length_map length_upt)
  have "sorted (map ce_timestamp events)"
    unfolding ts using i by (auto simp: sorted_iff_nth_mono seconds_def)
  then have sorted: "sort_key ce_timestamp events = events" by (rule sort_key_id_if_sorted)
  define m where "m = n - 1"
  have m: "4 \<le> m" "m \<le> 999" using n by (simp_all add: m_def)
  have "intervals (map (\<lambda>k. t + seconds i * int k) [0..<n]) = replicate (n - 0 - 1) (of_int i)"
    using i by (intro intervals_steady) auto
  then have ivs: "intervals (map ce_timestamp events) = replicate m (of_int i)" by (simp add: ts m_def)
  have "int m * i \<le> 999 * 900" using m i by (intro mult_mono) auto
  then have small: "int m * i < 2 ^ 53" by simp
  have fm: "f64 (of_nat m) = of_nat m" using m by (intro fround_of_nat) auto
  have "f64 (of_int i) = of_int i" using i by (intro f64_int) auto
  moreover have "f64_sum (replicate m (of_int i)) = of_int (int m * i)"
    using small i by (intro f64_sum_replicate) auto
  ultimately have avg: "f64 (f64_sum (replicate m (of_int i)) / f64 (of_nat m)) = of_int i"
    using m by (simp add: fm)
  have zero: "f64_sum (replicate m 0) = 0" using f64_sum_replicate [of 0 m] by simp
  have "events \<noteq> []" using len n by auto
  with m i proc have conf: "70 \<le> beacon_confidence m 0 (of_int i) events" by (intro steady_confidence)
  have i64: "f64 30 = (30 :: rat)" "f64 3600 = (3600 :: rat)" by code_simp+
  have bounds: "(30 :: rat) \<le> of_int i" "of_int i \<le> (3600 :: rat)" "(0 :: rat) < of_int i" using i by linarith+
  show ?thesis
    using len n m conf bounds
    by (simp add: analyze_destination_def default_beaconing_config_def Let_def sorted ivs i64 avg zero list_ex_iff)
qed



section \<open>From sockets to events\<close>

definition events_of :: "string \<Rightarrow> beaconing_detector \<Rightarrow> connection_event list" where
  "events_of d det = unwrap_or (map_of (bd_history det) d) []"

definition event_of :: "instant \<Rightarrow> string \<Rightarrow> network_connection \<Rightarrow> connection_event" where
  "event_of now d c =
     \<lparr>ce_destination = d, ce_timestamp = now, ce_process_name = nc_process_name c, ce_pid = nc_pid c\<rparr>"

text \<open>A detector of the default configuration with room for \<open>n\<close> more destinations.\<close>

definition roomy :: "nat \<Rightarrow> beaconing_detector \<Rightarrow> bool" where
  "roomy n det \<longleftrightarrow>
     bd_config det = default_beaconing_config \<and> bd_whitelist det = beacon_whitelist \<and>
     hm_wf (bd_history det) \<and> length (bd_history det) + n \<le> 10000"

lemma cleanup_events:
  assumes "hm_wf (bd_history det)" and "bd_config det = default_beaconing_config"
  shows "events_of d (cleanup_old_events now det) = filter (\<lambda>e. now - seconds 3600 < ce_timestamp e) (events_of d det)"
proof -
  have "hm_wf (map (\<lambda>(k, v). (k, filter (\<lambda>e. now - seconds 3600 < ce_timestamp e) v)) (bd_history det))"
    using assms(1) by (simp add: hm_wf_map_snd)
  from map_of_filter_wf [OF this, of "\<lambda>k v. v \<noteq> []" d] assms(2) show ?thesis
    by (auto simp: events_of_def cleanup_old_events_def Let_def map_of_map default_beaconing_config_def unwrap_or_def
        split: option.splits)
qed

lemma cleanup_roomy: "roomy n det \<Longrightarrow> roomy n (cleanup_old_events now det)"
  by (auto simp: roomy_def cleanup_old_events_def Let_def hm_wf_map_snd
      intro: order_trans [OF add_right_mono [OF length_filter_le]])

lemma store_event_roomy:
  assumes "roomy (Suc n) det"
  shows "roomy n (store_event e det)"
    and "length (events_of (ce_destination e) det) < 1000 \<Longrightarrow>
      events_of (ce_destination e) (store_event e det) = events_of (ce_destination e) det @ [e]"
    and "d \<noteq> ce_destination e \<Longrightarrow> events_of d (store_event e det) = events_of d det"
proof -
  have place: "make_place (ce_destination e) det = bd_history det"
    using assms by (auto simp: roomy_def make_place_def default_beaconing_config_def)
  show "roomy n (store_event e det)"
    using assms by (auto simp: roomy_def store_event_def Let_def place length_update)
  show "length (events_of (ce_destination e) det) < 1000 \<Longrightarrow>
      events_of (ce_destination e) (store_event e det) = events_of (ce_destination e) det @ [e]"
    using assms
    by (simp add: store_event_def Let_def place events_of_def update_conv keep_last_def roomy_def
        default_beaconing_config_def unwrap_or_def)
  show "d \<noteq> ce_destination e \<Longrightarrow> events_of d (store_event e det) = events_of d det"
    by (simp add: store_event_def Let_def place events_of_def update_conv)
qed

text \<open>A connection the detector records.\<close>

definition recorded :: "net_env \<Rightarrow> network_connection \<Rightarrow> bool" where
  "recorded env c \<longleftrightarrow>
     (\<exists>a p. nc_remote_address c = Some a \<and> nc_remote_port c = Some p \<and>
        \<not> beacon_whitelisted env new_beaconing_detector (destination_text a p) \<and>
        \<not> beacon_whitelisted env new_beaconing_detector a)"

lemma whitelisted_default:
  "bd_whitelist det = beacon_whitelist \<Longrightarrow>
   beacon_whitelisted env det x = beacon_whitelisted env new_beaconing_detector x"
  by (simp add: beacon_whitelisted_def new_beaconing_detector_def with_config_def)

lemma record_connection_cases:
  assumes "roomy (Suc n) det"
  obtains (ignored) "record_connection env now c det = det" "\<not> (recorded env c \<and> nc_state c = Established)"
  | (stored) a p where "nc_remote_address c = Some a" "nc_remote_port c = Some p" "nc_state c = Established"
      "record_connection env now c det = cleanup_old_events now (store_event (event_of now (destination_text a p) c) det)"
  using assms that
  by (cases "nc_remote_address c"; cases "nc_remote_port c"; cases "nc_state c = Established";
      cases "recorded env c")
     (auto simp: record_connection_def recorded_def event_of_def roomy_def Let_def whitelisted_default split: if_splits)

lemma record_connection_events:
  assumes room: "roomy (Suc n) det"
    and recent: "list_all (\<lambda>e. now - seconds 3600 < ce_timestamp e) (events_of d det)"
    and short: "length (events_of d det) < 1000"
  shows "roomy n (record_connection env now c det)"
    and "connected_to d c \<Longrightarrow> recorded env c \<Longrightarrow>
      events_of d (record_connection env now c det) = events_of d det @ [event_of now d c]"
    and "\<not> connected_to d c \<Longrightarrow> events_of d (record_connection env now c det) = events_of d det"
proof -
  have now: "now - seconds 3600 < now" by (simp add: seconds_def)
  have weaken: "roomy n det" using room by (simp add: roomy_def)
  have "roomy n (record_connection env now c det) \<and>
    (connected_to d c \<longrightarrow> recorded env c \<longrightarrow>
      events_of d (record_connection env now c det) = events_of d det @ [event_of now d c]) \<and>
    (\<not> connected_to d c \<longrightarrow> events_of d (record_connection env now c det) = events_of d det)"
    using room
  proof (cases rule: record_connection_cases [of n det env now c])
    case ignored
    with weaken show ?thesis by (auto simp: connected_to_def)
  next
    case (stored a p)
    let ?e = "event_of now (destination_text a p) c"
    have e: "ce_destination ?e = destination_text a p" "ce_timestamp ?e = now" by (simp_all add: event_of_def)
    have conn: "connected_to d c \<longleftrightarrow> destination_text a p = d" using stored by (simp add: connected_to_def)
    note store = store_event_roomy [OF room, where e = ?e]
    have "hm_wf (bd_history (store_event ?e det))" "bd_config (store_event ?e det) = default_beaconing_config"
      using store(1) by (simp_all add: roomy_def)
    note clean = cleanup_events [OF this, of d now]
    have "filter (\<lambda>e. now - seconds 3600 < ce_timestamp e) (events_of d det) = events_of d det"
      using recent by (simp add: list_all_iff)
    then show ?thesis
      using cleanup_roomy [OF store(1)] store(2) store(3) [of d] clean conn short e stored(4) now by (auto simp: e)
  qed
  then show "roomy n (record_connection env now c det)"
    and "connected_to d c \<Longrightarrow> recorded env c \<Longrightarrow>
      events_of d (record_connection env now c det) = events_of d det @ [event_of now d c]"
    and "\<not> connected_to d c \<Longrightarrow> events_of d (record_connection env now c det) = events_of d det"
    by blast+
qed



lemma record_sockets_keys:
  "set (fst (record_sockets env now conns current det)) =
     set current \<union> socket_key ` {c \<in> set conns. nc_state c = Established}"
  by (induction env now conns current det rule: record_sockets.induct) auto

lemma record_sockets_observed: "bd_observed (snd (record_sockets env now conns current det)) = bd_observed det"
  by (induction env now conns current det rule: record_sockets.induct) auto

lemma same_socket_connected:
  "socket_key c = socket_key c' \<Longrightarrow> nc_state c' = Established \<Longrightarrow> connected_to d c \<Longrightarrow> connected_to d c'"
  by (auto simp: socket_key_def connected_to_def)

lemma record_sockets_events:
  assumes "roomy (n + length conns) det"
    and "list_all (\<lambda>e. now - seconds 3600 < ce_timestamp e) (events_of d det)"
    and "length (events_of d det) + length (filter (connected_to d) conns) < 1000"
    and "length (filter (connected_to d) conns) \<le> 1"
    and "\<And>c. c \<in> set conns \<Longrightarrow> connected_to d c \<Longrightarrow>
           recorded env c \<and> socket_key c \<notin> set current \<and> socket_key c \<notin> set (bd_observed det)"
  shows "roomy n (snd (record_sockets env now conns current det)) \<and>
    events_of d (snd (record_sockets env now conns current det)) =
      events_of d det @ map (event_of now d) (filter (connected_to d) conns)"
  using assms
proof (induction env now conns current det rule: record_sockets.induct)
  case (2 env now conn conns current det)
  have room: "roomy (Suc (n + length conns)) det" "roomy (n + length conns) det" using 2(4) by (simp_all add: roomy_def)
  show ?case
  proof (cases "nc_state conn = Established \<and> socket_key conn \<notin> set current")
    case False
    then have "\<not> connected_to d conn" using 2(8) [of conn] by (auto simp: connected_to_def)
    with False 2 room show ?thesis by auto
  next
    case new: True
    let ?det = "if socket_key conn \<in> set (bd_observed det) then det else record_connection env now conn det"
    have rest: "\<not> connected_to d c" if "connected_to d conn" "c \<in> set conns" for c
      using 2(7) that by (auto simp: filter_empty_conv)
    have step: "roomy (n + length conns) ?det \<and> bd_observed ?det = bd_observed det \<and>
        events_of d ?det = events_of d det @ (if connected_to d conn then [event_of now d conn] else [])"
    proof (cases "socket_key conn \<in> set (bd_observed det)")
      case True
      then show ?thesis using 2(8) [of conn] room by auto
    next
      case False
      have "length (events_of d det) < 1000" using 2(6) by simp
      from record_connection_events [OF room(1) 2(5) this, where env = env and c = conn] 2(8) [of conn] False
      show ?thesis by auto
    qed
    have recent: "list_all (\<lambda>e. now - seconds 3600 < ce_timestamp e) (events_of d ?det)"
      using 2(5) step by (simp add: event_of_def seconds_def)
    have fresh: "recorded env c \<and> socket_key c \<notin> set (socket_key conn # current) \<and>
        socket_key c \<notin> set (bd_observed ?det)" if "c \<in> set conns" "connected_to d c" for c
      using 2(8) [of c] that rest step new same_socket_connected [of c conn d] by auto
    have len: "length (events_of d ?det) + length (filter (connected_to d) conns) < 1000"
      using 2(6) step by auto
    have one: "length (filter (connected_to d) conns) \<le> 1" using 2(7) by (auto split: if_splits)
    from 2(3) [OF _ _ _ recent len one fresh] new step
    have "roomy n (snd (record_sockets env now conns (socket_key conn # current) ?det)) \<and>
      events_of d (snd (record_sockets env now conns (socket_key conn # current) ?det)) =
        events_of d ?det @ map (event_of now d) (filter (connected_to d) conns)" by simp
    with new step rest show ?thesis by auto
  qed
qed simp



lemma record_snapshot_events:
  assumes "roomy (n + length conns) det"
    and "list_all (\<lambda>e. now - seconds 3600 < ce_timestamp e) (events_of d det)"
    and "length (events_of d det) + length (filter (connected_to d) conns) < 1000"
    and "length (filter (connected_to d) conns) \<le> 1"
    and "\<And>c. c \<in> set conns \<Longrightarrow> connected_to d c \<Longrightarrow> recorded env c \<and> socket_key c \<notin> set (bd_observed det)"
  shows "roomy n (record_snapshot env now conns det) \<and>
    events_of d (record_snapshot env now conns det) =
      events_of d det @ map (event_of now d) (filter (connected_to d) conns) \<and>
    set (bd_observed (record_snapshot env now conns det)) = socket_key ` {c \<in> set conns. nc_state c = Established}"
proof -
  obtain current det' where s: "record_sockets env now conns [] det = (current, det')"
    by (cases "record_sockets env now conns [] det")
  with record_sockets_events [OF assms(1-4), of env "[]"] assms(5)
  have r: "roomy n det'" "events_of d det' = events_of d det @ map (event_of now d) (filter (connected_to d) conns)"
    by auto
  let ?det = "det'\<lparr>bd_observed := current\<rparr>"
  have room: "roomy n ?det" and ev: "events_of d ?det = events_of d det'"
    using r(1) by (simp_all add: roomy_def events_of_def)
  then have "hm_wf (bd_history ?det)" "bd_config ?det = default_beaconing_config" by (simp_all add: roomy_def)
  from cleanup_events [OF this, of d now] ev r(2)
  have "events_of d (cleanup_old_events now ?det) =
      filter (\<lambda>e. now - seconds 3600 < ce_timestamp e) (events_of d det @ map (event_of now d) (filter (connected_to d) conns))"
    by simp
  also have "\<dots> = events_of d det @ map (event_of now d) (filter (connected_to d) conns)"
    using assms(2) by (auto simp: list_all_iff event_of_def seconds_def filter_map comp_def)
  finally show ?thesis
    using record_sockets_keys [of env now conns "[]" det] s cleanup_roomy [OF room]
    by (simp add: record_snapshot_def)
qed

lemma net_run_append: "net_run env (xs @ ys) det = net_run env ys (net_run env xs det)"
  by (induction env xs det rule: net_run.induct) auto

lemma find_filter: "filter P xs = [y] \<Longrightarrow> find P xs = Some y"
  by (induction xs) (auto split: if_splits)

lemma within_hour:
  assumes "0 \<le> i" "k \<le> m" "i * int m < 3600"
  shows "t + seconds i * int k - seconds 3600 < t + seconds i * int j"
proof -
  have "i * int k \<le> i * int m" "0 \<le> i * int j" using assms by (simp_all add: mult_left_mono)
  with assms(3) have "10 ^ 9 * (i * int k) < 10 ^ 9 * (3600 + i * int j)" by simp
  moreover have "seconds x * y = 10 ^ 9 * (x * y)" for x y by (simp add: seconds_def)
  ultimately show ?thesis by (simp add: seconds_def)
qed

lemma steady_run:
  fixes conns :: "nat \<Rightarrow> network_connection list" and t i :: int
  defines "steps \<equiv> \<lambda>k. map (\<lambda>j. Pass (t + seconds i * int j) (conns j)) [0..<k]"
  assumes start: "sd_beaconing det = new_beaconing_detector"
    and one: "\<And>k. k < n \<Longrightarrow> filter (connected_to d) (filter (not_own env) (conns k)) = [c k]"
    and rec: "\<And>k. k < n \<Longrightarrow> recorded env (c k)"
    and fresh: "\<And>k. Suc k < n \<Longrightarrow> socket_key (c (Suc k)) \<noteq> socket_key (c k)"
    and few: "(\<Sum>k<n. length (conns k)) \<le> 10000" "n < 1000"
    and i: "0 \<le> i" "i * int (n - 1) < 3600"
    and k: "k \<le> n"
  shows "roomy (\<Sum>j \<in> {k..<n}. length (conns j)) (sd_beaconing (net_run env (steps k) det)) \<and>
    events_of d (sd_beaconing (net_run env (steps k) det)) =
      map (\<lambda>j. event_of (t + seconds i * int j) d (c j)) [0..<k] \<and>
    set (bd_observed (sd_beaconing (net_run env (steps k) det))) =
      (if k = 0 then {} else socket_key ` {x \<in> set (conns (k - 1)). not_own env x \<and> nc_state x = Established})"
  using k
proof (induction k)
  case 0
  have "{0..<n} = {..<n}" by auto
  with few start show ?case
    by (simp add: steps_def roomy_def new_beaconing_detector_def with_config_def events_of_def unwrap_or_def)
next
  case (Suc k)
  let ?bd = "sd_beaconing (net_run env (steps k) det)"
  let ?now = "t + seconds i * int k"
  let ?own = "filter (not_own env) (conns k)"
  have IH: "roomy (\<Sum>j \<in> {k..<n}. length (conns j)) ?bd"
    "events_of d ?bd = map (\<lambda>j. event_of (t + seconds i * int j) d (c j)) [0..<k]"
    "set (bd_observed ?bd) = (if k = 0 then {} else socket_key ` {x \<in> set (conns (k - 1)). not_own env x \<and> nc_state x = Established})"
    using Suc by simp_all
  have kn: "k < n" using Suc.prems by simp
  have "{k..<n} = insert k {Suc k..<n}" using kn by auto
  then have "(\<Sum>j \<in> {k..<n}. length (conns j)) = length (conns k) + (\<Sum>j \<in> {Suc k..<n}. length (conns j))" by simp
  with length_filter_le [of "not_own env" "conns k"]
  have "(\<Sum>j \<in> {Suc k..<n}. length (conns j)) + length ?own \<le> (\<Sum>j \<in> {k..<n}. length (conns j))" by linarith
  with IH(1) have room: "roomy ((\<Sum>j \<in> {Suc k..<n}. length (conns j)) + length ?own) ?bd"
    unfolding roomy_def by linarith
  have recent: "list_all (\<lambda>e. ?now - seconds 3600 < ce_timestamp e) (events_of d ?bd)"
    using within_hour [OF i(1) _ i(2), of k t] kn by (auto simp: IH(2) list_all_iff event_of_def)
  have new: "recorded env x \<and> socket_key x \<notin> set (bd_observed ?bd)" if "x \<in> set ?own" "connected_to d x" for x
  proof -
    have "x \<in> set (filter (connected_to d) ?own)" using that by simp
    then have x: "x = c k" unfolding one [OF kn] by simp
    have "socket_key x \<notin> set (bd_observed ?bd)"
    proof (cases k)
      case (Suc m)
      have "socket_key y \<noteq> socket_key x" if "y \<in> set (conns m)" "not_own env y" "nc_state y = Established" for y
      proof
        assume "socket_key y = socket_key x"
        with that \<open>connected_to d x\<close> same_socket_connected [of x y d] have "connected_to d y" by simp
        with that have "y \<in> set (filter (connected_to d) (filter (not_own env) (conns m)))" by simp
        moreover have "m < n" using kn Suc by simp
        ultimately have "y = c m" unfolding one [OF \<open>m < n\<close>] by simp
        with \<open>socket_key y = socket_key x\<close> x Suc fresh [of m] kn show False by simp
      qed
      then show ?thesis unfolding IH(3) using Suc by fastforce
    qed (use IH(3) in simp)
    with rec [OF kn] x show ?thesis by simp
  qed
  have len: "length (events_of d ?bd) + length (filter (connected_to d) ?own) < 1000"
    "length (filter (connected_to d) ?own) \<le> 1"
    using IH(2) one [OF kn] kn few(2) by auto
  have run: "sd_beaconing (net_run env (steps (Suc k)) det) = record_snapshot env ?now ?own ?bd"
    by (simp add: steps_def net_run_append run_network_security_detection_def Let_def
        record_connections_for_beaconing_def)
  have "{x \<in> set ?own. nc_state x = Established} = {x \<in> set (conns k). not_own env x \<and> nc_state x = Established}"
    by auto
  with record_snapshot_events [OF room recent len new] one [OF kn] IH(2) show ?case
    unfolding run by simp
qed

text \<open>From a fresh detector: when snapshots are analysed every \<open>i\<close> seconds, one to fifteen minutes apart, and
  each shows exactly one new socket of the same named program to a destination that is not whitelisted (among at most
  10000 sockets in all), then after five snapshots or more within the hour the connection is reported as
  command-and-control traffic.\<close>

theorem steady_beacon_is_reported:
  fixes conns :: "nat \<Rightarrow> network_connection list" and t i :: int
  assumes "sd_beaconing det = new_beaconing_detector"
    and "\<And>k. k < n \<Longrightarrow> filter (connected_to d) (filter (not_own env) (conns k)) = [c k]"
    and "\<And>k. k < n \<Longrightarrow> recorded env (c k) \<and> nc_process_name (c k) = Some p"
    and "\<And>k. Suc k < n \<Longrightarrow> socket_key (c (Suc k)) \<noteq> socket_key (c k)"
    and "(\<Sum>k<n. length (conns k)) \<le> 10000"
    and "5 \<le> n" "60 \<le> i" "i \<le> 900" "i * int (n - 1) < 3600"
  shows "c (n - 1) \<in> about C2Communication (snd (run_network_security_detection env (t + seconds i * int (n - 1))
      (conns (n - 1)) (net_run env (map (\<lambda>k. Pass (t + seconds i * int k) (conns k)) [0..<n - 1]) det)))"
proof -
  let ?steps = "\<lambda>k. map (\<lambda>j. Pass (t + seconds i * int j) (conns j)) [0..<k]"
  let ?now = "t + seconds i * int (n - 1)"
  let ?det = "net_run env (?steps n) det"
  let ?ev = "map (\<lambda>j. event_of (t + seconds i * int j) d (c j)) [0..<n]"
  have "60 * int (n - 1) \<le> i * int (n - 1)" using assms(7) by (intro mult_right_mono) auto
  with assms(9) have n: "n < 1000" by linarith
  from steady_run [OF assms(1,2) _ assms(4,5) n _ assms(9) order_refl, of t] assms(3,7)
  have room: "roomy 0 (sd_beaconing ?det)" and ev: "events_of d (sd_beaconing ?det) = ?ev" by simp_all
  have nonempty: "?ev \<noteq> []" using assms(6) by simp
  have upto: "[0..<n] = [0..<n - 1] @ [n - 1]" using assms(6) by (metis Suc_diff_1 bot_nat_0.extremum_strict
        not_gr_zero numeral_le_iff upt_Suc_append zero_le not_numeral_le_zero)
  have last: "run_network_security_detection env ?now (conns (n - 1)) (net_run env (?steps (n - 1)) det) =
      (?det, analyze env ?now ?det (conns (n - 1)))"
    unfolding upto by (simp add: net_run_append run_network_security_detection_def Let_def)
  have recent: "filter (\<lambda>e. ?now - seconds 3600 < ce_timestamp e) ?ev = ?ev"
    using within_hour [OF _ order_refl assms(9), of t] assms(7)
    by (intro filter_True) (auto simp: event_of_def simp del: of_nat_diff One_nat_def)
  obtain a where a: "analyze_destination default_beaconing_config d ?ev = Some a" "ba_is_beaconing a"
    using analyze_steady [of n i ?ev t p d] assms(3,6,7,8) n by (auto simp: event_of_def list_all_iff comp_def)
  have found: "find (connected_to d) (filter (not_own env) (conns (n - 1))) = Some (c (n - 1))"
    using assms(2) [of "n - 1"] assms(6) by (intro find_filter) simp
  have "map_of (bd_history (sd_beaconing ?det)) d = Some ?ev"
    using ev nonempty by (auto simp: events_of_def unwrap_or_def split: option.splits)
  then have "(d, ?ev) \<in> set (bd_history (sd_beaconing ?det))" by (rule map_of_SomeD)
  moreover have "detect_destination ?now (sd_beaconing ?det) (filter (not_own env) (conns (n - 1))) (d, ?ev) =
      [beacon_alert (c (n - 1)) a]"
    using a found recent room by (simp add: detect_destination_def Let_def roomy_def default_beaconing_config_def)
  ultimately have "beacon_alert (c (n - 1)) a \<in> set (beacon_detect ?now (sd_beaconing ?det) (filter (not_own env) (conns (n - 1))))"
    unfolding beacon_detect_def by force
  then have "beacon_alert (c (n - 1)) a \<in> set (analyze env ?now ?det (conns (n - 1)))"
    by (simp add: analyze_def raised_def Let_def)
  then show ?thesis unfolding last by (force simp: about_def beacon_alert_def)
qed

definition demo_net_env :: net_env where
  "demo_net_env = \<lparr>ne_lower = (\<lambda>s. s), ne_parse_ip = (\<lambda>s. None), ne_addr_text = (\<lambda>ip. []), ne_log2 = (\<lambda>x. 0), ne_pid = 1\<rparr>"

definition demo_socket :: "nat \<Rightarrow> network_connection" where
  "demo_socket k = \<lparr>nc_protocol = Tcp, nc_local_address = ''10.0.0.5'', nc_local_port = 50000 + k,
     nc_remote_address = Some ''203.0.113.7'', nc_remote_port = Some 443, nc_state = Established, nc_pid = Some 42,
     nc_process_name = Some ''implant'', nc_process_path = None\<rparr>"

lemma demo_recorded: "recorded demo_net_env (demo_socket k)"
proof -
  have "\<not> beacon_whitelisted demo_net_env new_beaconing_detector (destination_text ''203.0.113.7'' 443) \<and>
      \<not> beacon_whitelisted demo_net_env new_beaconing_detector ''203.0.113.7''"
    by code_simp
  then show ?thesis by (simp add: recorded_def demo_socket_def)
qed

theorem steady_beacon_is_reported_witness:
  "demo_socket 4 \<in> about C2Communication (snd (run_network_security_detection demo_net_env (0 + seconds 60 * int (5 - 1))
      [demo_socket (5 - 1)]
      (net_run demo_net_env (map (\<lambda>k. Pass (0 + seconds 60 * int k) [demo_socket k]) [0..<5 - 1]) new_security_detector)))"
proof -
  have "connected_to (destination_text ''203.0.113.7'' 443) (demo_socket k)" "not_own demo_net_env (demo_socket k)"
    "nc_process_name (demo_socket k) = Some ''implant''" "socket_key (demo_socket (Suc k)) \<noteq> socket_key (demo_socket k)" for k
    by (simp_all add: connected_to_def demo_socket_def not_own_def demo_net_env_def socket_key_def)
  then have "demo_socket (5 - 1) \<in> about C2Communication (snd (run_network_security_detection demo_net_env
      (0 + seconds 60 * int (5 - 1)) [demo_socket (5 - 1)]
      (net_run demo_net_env (map (\<lambda>k. Pass (0 + seconds 60 * int k) [demo_socket k]) [0..<5 - 1]) new_security_detector)))"
    by (intro steady_beacon_is_reported [where n = 5 and c = demo_socket and p = "''implant''" and
          d = "destination_text ''203.0.113.7'' 443"])
       (auto simp: new_security_detector_def demo_recorded)
  then show ?thesis by simp
qed

definition quarter_hours :: beaconing_detector where
  "quarter_hours = new_beaconing_detector\<lparr>bd_history := [(''203.0.113.7:443'',
     map (\<lambda>k. \<lparr>ce_destination = ''203.0.113.7:443'', ce_timestamp = seconds (900 * int k),
                ce_process_name = Some ''implant'', ce_pid = Some 42\<rparr>) [0..<5])]\<rparr>"

theorem slow_beacons_are_missed_witness:
  "length (snd (hd (bd_history quarter_hours))) = 5 \<and>
   beacon_detect (seconds 3600) quarter_hours [demo_socket 4] = []"
proof
  show "beacon_detect (seconds 3600) quarter_hours [demo_socket 4] = []"
    by (rule slow_beacons_are_missed)
       (simp_all add: quarter_hours_def new_beaconing_detector_def with_config_def upt_rec seconds_def)
qed (simp add: quarter_hours_def)

section \<open>Updates of the intelligence\<close>

text \<open>
  An update replaces the beaconing detector: what it had observed is forgotten, and a beacon is reported only after five
  more snapshots; sockets that stay open count as new at the next one.
\<close>

lemma update_forgets_beacons:
  "beacon_detect now (sd_beaconing (update_threat_intel intel det)) conns = []"
  "bd_observed (sd_beaconing (update_threat_intel intel det)) = []"
  by (simp_all add: update_threat_intel_def new_beaconing_detector_def with_config_def beacon_detect_def)

section \<open>Domains under a suffix of two labels\<close>

lemma tlds_short: "list_all (\<lambda>t. CHR ''.'' \<notin> set t \<and> length t < 8) known_tlds"
  by code_simp

text \<open>
  Under a suffix such as \<open>co.uk\<close>, whose labels are both known top-level domains, the label analysed is the
  first of the two; it is too short, so no domain there is ever found generated.
\<close>

lemma two_label_suffix_is_skipped:
  assumes "s \<in> set known_tlds" "t \<in> set known_tlds"
    and "ne_lower env domain = host @ ''.'' @ s @ ''.'' @ t"
  shows "analyze_domain env default_dga_config domain conn = None"
proof -
  have dots: "CHR ''.'' \<notin> set s" "CHR ''.'' \<notin> set t" and short: "length s < 8"
    using assms(1,2) tlds_short by (auto simp: list_all_iff)
  have "split_at_char CHR ''.'' (ne_lower env domain) = split_at_char CHR ''.'' host @ [s, t]"
    using split_at_char_append [of "CHR ''.''" "host @ ''.'' @ s" t] split_at_char_append [of "CHR ''.''" host s] dots assms(3)
    by (simp add: split_at_char_no)
  then have "extract_sld (ne_lower env domain) \<in> {None, Some s}"
    using assms(1,2) by (simp add: extract_sld_def Let_def)
  with short show ?thesis by (auto simp: analyze_domain_def default_dga_config_def Let_def)
qed

end
