(* ===== verification/Supervised_Tasks.thy ===== *)
theory Supervised_Tasks imports Prelude begin

text \<open>
  The watched background tasks (\<open>TaskSet\<close> of \<open>crates/agent-core/src/supervised_tasks.rs\<close>) and the queue
  of uploads that one of them drains (\<open>Outbox\<close> of \<open>crates/agent-core/src/main_loop/outbox.rs\<close>).

  A task is its identifier: what it does is not looked at, only how it ends, which the runtime
  (\<open>tokio\<close>) tells. Instants and durations are in nanoseconds of the monotonic clock; one operation reads
  it once. The map of tracked tasks is an association list.
\<close>

section \<open>Types\<close>

type_synonym task_id = nat

definition secs :: "nat \<Rightarrow> nat" where "secs n = n * 10 ^ 9"

definition RESTART_DELAY :: nat where "RESTART_DELAY = secs 1"
definition MAX_RESTART_DELAY :: nat where "MAX_RESTART_DELAY = secs 60"
definition HEALTHY_AFTER :: nat where "HEALTHY_AFTER = secs 300"

text \<open>\<open>Duration::MAX\<close>.\<close>

definition DURATION_MAX :: nat where "DURATION_MAX = secs u64_max + 999999999"

datatype task_event =
    Finished string
  | Panicked string string bool
  | Cancelled string
  | Slow string

datatype panic_payload = StaticText string | OwnedText string | OtherPayload

text \<open>Why a task did not run to its end.\<close>

datatype join_error = PanicError panic_payload | CancelledError

text \<open>\<open>tk_restart\<close>: the panics in a row of a task that can be started again.\<close>

record tracked =
  tk_name :: string
  tk_started :: nat
  tk_expected :: "nat option"
  tk_reported_slow :: bool
  tk_restart :: "u32 option"

text \<open>\<open>ts_tasks\<close>: the tasks of the \<open>JoinSet\<close>; \<open>ts_next\<close>: the identifier the runtime gives next.\<close>

record task_set =
  ts_tasks :: "task_id list"
  ts_tracked :: "(task_id \<times> tracked) list"
  ts_restart_delay :: nat
  ts_next :: task_id

definition new_task_set :: task_set where
  "new_task_set = \<lparr>ts_tasks = [], ts_tracked = [], ts_restart_delay = RESTART_DELAY, ts_next = 0\<rparr>"

section \<open>Operations\<close>

definition panic_message :: "panic_payload \<Rightarrow> string" where
  "panic_message payload =
     (case payload of
        StaticText txt \<Rightarrow> txt
      | OwnedText txt \<Rightarrow> txt
      | OtherPayload \<Rightarrow> ''panic without a message'')"

definition restart_delay :: "nat \<Rightarrow> u32 \<Rightarrow> nat" where
  "restart_delay base panics =
     (let doublings = min (panics - 1) 16 in min (min (base * 2 ^ doublings) DURATION_MAX) MAX_RESTART_DELAY)"

definition track :: "string \<Rightarrow> nat option \<Rightarrow> u32 option \<Rightarrow> nat \<Rightarrow> task_set \<Rightarrow> task_id \<times> task_set" where
  "track name expected restart now ts =
     (ts_next ts,
      ts\<lparr>ts_tasks := ts_tasks ts @ [ts_next ts],
         ts_tracked := AList.update (ts_next ts)
           \<lparr>tk_name = name, tk_started = now, tk_expected = expected, tk_reported_slow = False, tk_restart = restart\<rparr>
           (ts_tracked ts),
         ts_next := Suc (ts_next ts)\<rparr>)"

definition spawn :: "string \<Rightarrow> nat \<Rightarrow> task_set \<Rightarrow> task_id \<times> task_set" where
  "spawn name now ts = track name None None now ts"

definition spawn_expected :: "string \<Rightarrow> nat \<Rightarrow> nat \<Rightarrow> task_set \<Rightarrow> task_id \<times> task_set" where
  "spawn_expected name expected now ts = track name (Some expected) None now ts"

definition spawn_restartable :: "string \<Rightarrow> nat \<Rightarrow> task_set \<Rightarrow> task_id \<times> task_set" where
  "spawn_restartable name now ts = track name None (Some 0) now ts"

definition len :: "task_set \<Rightarrow> nat" where
  "len ts = length (ts_tracked ts)"

definition is_running :: "string \<Rightarrow> task_set \<Rightarrow> bool" where
  "is_running name ts \<longleftrightarrow> list_ex (\<lambda>(_, task). tk_name task = name) (ts_tracked ts)"

text \<open>The task started again and the pause it begins with.\<close>

definition restart_task :: "string \<Rightarrow> u32 \<Rightarrow> nat \<Rightarrow> nat \<Rightarrow> task_set \<Rightarrow> (task_id \<times> nat) \<times> task_set" where
  "restart_task name panics ran_for now ts =
     (let panics' = (if HEALTHY_AFTER \<le> ran_for then 1 else u32_saturating_add panics 1);
          delay = restart_delay (ts_restart_delay ts) panics'
      in case track name None (Some panics') now ts of (i, ts') \<Rightarrow> ((i, delay), ts'))"

text \<open>How a task ended: the event, the task started in its place, the set.\<close>

definition ended ::
  "nat \<Rightarrow> tracked \<Rightarrow> join_error option \<Rightarrow> task_set \<Rightarrow> task_event \<times> (task_id \<times> nat) option \<times> task_set" where
  "ended now task failure ts =
     (let ran_for = now - tk_started task in
      case failure of
        None \<Rightarrow> (Finished (tk_name task), None, ts)
      | Some CancelledError \<Rightarrow> (Cancelled (tk_name task), None, ts)
      | Some (PanicError payload) \<Rightarrow>
          (case tk_restart task of
             None \<Rightarrow> (Panicked (tk_name task) (panic_message payload) False, None, ts)
           | Some panics \<Rightarrow>
               (case restart_task (tk_name task) panics ran_for now ts of
                  (started, ts') \<Rightarrow> (Panicked (tk_name task) (panic_message payload) True, Some started, ts'))))"

text \<open>
  The loop over the tasks that ended, in the order the \<open>JoinSet\<close> yields them: the events, and the tasks started with
  their pauses.
\<close>

fun reap_ended ::
  "nat \<Rightarrow> (task_id \<times> join_error option) list \<Rightarrow> task_set \<Rightarrow> task_event list \<times> (task_id \<times> nat) list \<times> task_set" where
  "reap_ended now [] ts = ([], [], ts)"
| "reap_ended now ((i, failure) # joined) ts =
     (let ts1 = ts\<lparr>ts_tasks := remove1 i (ts_tasks ts)\<rparr> in
      case map_of (ts_tracked ts1) i of
        None \<Rightarrow> reap_ended now joined ts1
      | Some task \<Rightarrow>
          (case ended now task failure (ts1\<lparr>ts_tracked := AList.delete i (ts_tracked ts1)\<rparr>) of
             (event, started, ts2) \<Rightarrow>
               (case reap_ended now joined ts2 of
                  (events, starts, ts3) \<Rightarrow>
                    (event # events, (case started of None \<Rightarrow> [] | Some s \<Rightarrow> [s]) @ starts, ts3))))"

definition is_slow :: "nat \<Rightarrow> tracked \<Rightarrow> bool" where
  "is_slow now task \<longleftrightarrow>
     (case tk_expected task of
        None \<Rightarrow> False
      | Some expected \<Rightarrow> \<not> tk_reported_slow task \<and> expected < now - tk_started task)"

definition reap ::
  "nat \<Rightarrow> (task_id \<times> join_error option) list \<Rightarrow> task_set \<Rightarrow> task_event list \<times> (task_id \<times> nat) list \<times> task_set" where
  "reap now joined ts =
     (case reap_ended now joined ts of
        (events, starts, ts1) \<Rightarrow>
          (events @ map (\<lambda>(_, task). Slow (tk_name task)) (filter (\<lambda>(_, task). is_slow now task) (ts_tracked ts1)),
           starts,
           ts1\<lparr>ts_tracked := map (\<lambda>(i, task). (i, if is_slow now task then task\<lparr>tk_reported_slow := True\<rparr> else task))
                 (ts_tracked ts1)\<rparr>))"

definition detach :: "task_set \<Rightarrow> task_set" where
  "detach ts = ts\<lparr>ts_tracked := [], ts_tasks := []\<rparr>"

definition shutdown :: "task_set \<Rightarrow> task_set" where
  "shutdown ts = ts\<lparr>ts_tracked := [], ts_tasks := []\<rparr>"

section \<open>The queue of uploads\<close>

definition OUTBOX_TASK :: string where "OUTBOX_TASK = ''platform uploads''"
definition OUTBOX_CAPACITY :: nat where "OUTBOX_CAPACITY = 256"

text \<open>The task that sends: it runs, it panicked and has not been reaped, or it pauses until an instant.\<close>

datatype sender = Sending | Crashed panic_payload | Pausing nat

text \<open>
  \<open>ob_waiting\<close> are the stages that wait for room, first come first; \<open>ob_current\<close> the item being sent;
  \<open>ob_unsent\<close> the counter. \<open>ob_pushed\<close> and \<open>ob_handled\<close> record what was pushed and what was
  taken out and sent, or lost to a panic while it was sent.
\<close>

record 'i outbox =
  ob_clock :: nat
  ob_queue :: "'i list"
  ob_waiting :: "'i list"
  ob_current :: "'i option"
  ob_unsent :: nat
  ob_sender :: sender
  ob_task :: task_id
  ob_tasks :: task_set
  ob_pushed :: "'i list"
  ob_handled :: "'i list"

definition start_outbox :: "nat \<Rightarrow> task_set \<Rightarrow> 'i outbox" where
  "start_outbox now ts =
     (case spawn_restartable OUTBOX_TASK now ts of
        (i, ts') \<Rightarrow>
          \<lparr>ob_clock = now, ob_queue = [], ob_waiting = [], ob_current = None, ob_unsent = 0, ob_sender = Sending,
           ob_task = i, ob_tasks = ts', ob_pushed = [], ob_handled = []\<rparr>)"

definition push :: "'i \<Rightarrow> 'i outbox \<Rightarrow> 'i outbox" where
  "push item ob =
     (let ob1 = ob\<lparr>ob_unsent := ob_unsent ob + 1, ob_pushed := ob_pushed ob @ [item]\<rparr> in
      if ob_waiting ob = [] \<and> length (ob_queue ob) < OUTBOX_CAPACITY
      then ob1\<lparr>ob_queue := ob_queue ob @ [item]\<rparr>
      else ob1\<lparr>ob_waiting := ob_waiting ob @ [item]\<rparr>)"

text \<open>\<open>recv\<close>: the first item leaves, and its place goes to the first stage that waits.\<close>

definition receive :: "'i outbox \<Rightarrow> 'i outbox option" where
  "receive ob =
     (case (ob_sender ob, ob_current ob, ob_queue ob) of
        (Sending, None, item # rest) \<Rightarrow>
          Some (ob\<lparr>ob_current := Some item, ob_queue := rest @ take 1 (ob_waiting ob),
                   ob_waiting := drop 1 (ob_waiting ob)\<rparr>)
      | _ \<Rightarrow> None)"

text \<open>The item is done with: \<open>Sent\<close> is dropped when it was sent, or when sending it panicked.\<close>

definition sent :: "'i outbox \<Rightarrow> 'i outbox option" where
  "sent ob =
     (case (ob_sender ob, ob_current ob) of
        (Sending, Some item) \<Rightarrow>
          Some (ob\<lparr>ob_current := None, ob_unsent := ob_unsent ob - 1, ob_handled := ob_handled ob @ [item]\<rparr>)
      | _ \<Rightarrow> None)"

definition crash :: "panic_payload \<Rightarrow> 'i outbox \<Rightarrow> 'i outbox option" where
  "crash payload ob = map_option (\<lambda>ob'. ob'\<lparr>ob_sender := Crashed payload\<rparr>) (sent ob)"

text \<open>The owner reaps: a crashed sender is found and started again after its pause.\<close>

definition reap_outbox :: "'i outbox \<Rightarrow> 'i outbox \<times> task_event list" where
  "reap_outbox ob =
     (case reap (ob_clock ob)
             (case ob_sender ob of Crashed payload \<Rightarrow> [(ob_task ob, Some (PanicError payload))] | _ \<Rightarrow> [])
             (ob_tasks ob) of
        (events, [], ts) \<Rightarrow> (ob\<lparr>ob_tasks := ts\<rparr>, events)
      | (events, (i, delay) # _, ts) \<Rightarrow>
          (ob\<lparr>ob_tasks := ts, ob_task := i, ob_sender := Pausing (ob_clock ob + delay)\<rparr>, events))"

definition wake :: "'i outbox \<Rightarrow> 'i outbox option" where
  "wake ob =
     (case ob_sender ob of
        Pausing until \<Rightarrow> if until \<le> ob_clock ob then Some (ob\<lparr>ob_sender := Sending\<rparr>) else None
      | _ \<Rightarrow> None)"

inductive outbox_step :: "'i outbox \<Rightarrow> 'i outbox \<Rightarrow> bool" where
  "outbox_step ob (push item ob)"
| "receive ob = Some ob' \<Longrightarrow> outbox_step ob ob'"
| "sent ob = Some ob' \<Longrightarrow> outbox_step ob ob'"
| "crash payload ob = Some ob' \<Longrightarrow> outbox_step ob ob'"
| "outbox_step ob (fst (reap_outbox ob))"
| "wake ob = Some ob' \<Longrightarrow> outbox_step ob ob'"
| "outbox_step ob (ob\<lparr>ob_clock := ob_clock ob + d\<rparr>)"

inductive outbox_reachable :: "'i outbox \<Rightarrow> bool" where
  "outbox_reachable (start_outbox now new_task_set)"
| "outbox_reachable ob \<Longrightarrow> outbox_step ob ob' \<Longrightarrow> outbox_reachable ob'"

end
