(* ===== verification/Supervised_Tasks_Props.thy ===== *)
theory Supervised_Tasks_Props imports Supervised_Tasks begin

text \<open>
  What the watched tasks guarantee: the pauses between restarts, that every end is reported, and
  that the queue of uploads loses nothing but the item a panic interrupts.
\<close>

section \<open>Pauses\<close>

lemma restart_delay_doubles:
  "restart_delay RESTART_DELAY panics = min (secs (2 ^ (panics - 1))) (secs 60)"
proof (cases "panics - 1 \<le> 16")
  case True
  then have "(2::nat) ^ (panics - 1) \<le> 2 ^ 16" by (intro power_increasing) auto
  with True show ?thesis
    by (simp add: restart_delay_def RESTART_DELAY_def MAX_RESTART_DELAY_def DURATION_MAX_def secs_def u64_max_def
        Let_def)
next
  case False
  have "(2::nat) ^ 16 \<le> 2 ^ (panics - 1)" using False by (intro power_increasing) auto
  then have "60 \<le> (2::nat) ^ (panics - 1)" by simp
  with False show ?thesis
    by (simp add: restart_delay_def RESTART_DELAY_def MAX_RESTART_DELAY_def DURATION_MAX_def secs_def u64_max_def
        min_def)
qed

lemma restart_delay_bounded: "restart_delay base panics \<le> secs 60"
  by (simp add: restart_delay_def MAX_RESTART_DELAY_def Let_def)

section \<open>Every end is reported\<close>

lemma slow_events:
  "reap_ended now joined ts = (events, starts, ts') \<Longrightarrow> Slow n \<notin> set events"
proof (induction now joined ts arbitrary: events starts ts' rule: reap_ended.induct)
  case (2 now i failure joined ts)
  show ?case
  proof (cases "map_of (ts_tracked ts) i")
    case None
    with 2 show ?thesis by (simp add: Let_def)
  next
    case (Some task)
    obtain event started ts2 where e: "ended now task failure (ts\<lparr>ts_tasks := remove1 i (ts_tasks ts),
        ts_tracked := AList.delete i (ts_tracked ts)\<rparr>) = (event, started, ts2)"
      by (cases "ended now task failure (ts\<lparr>ts_tasks := remove1 i (ts_tasks ts),
        ts_tracked := AList.delete i (ts_tracked ts)\<rparr>)")
    then have "event \<noteq> Slow n"
      by (auto simp: ended_def Let_def split: option.splits join_error.splits prod.splits)
    moreover obtain events' starts' ts3 where "reap_ended now joined ts2 = (events', starts', ts3)"
      by (cases "reap_ended now joined ts2")
    ultimately show ?thesis using 2(2) [of "ts\<lparr>ts_tasks := remove1 i (ts_tasks ts)\<rparr>" task] 2(3) Some e
      by (auto simp: Let_def)
  qed
qed simp

text \<open>A task is reported as slow once: \<^const>\<open>reap\<close> leaves none that the next one at the same instant would report.\<close>

lemma reported_is_not_slow: "\<not> is_slow now (if is_slow now task then task\<lparr>tk_reported_slow := True\<rparr> else task)"
  by (simp add: is_slow_def split: option.splits)

lemma slow_once:
  assumes "reap now joined ts = (events, starts, ts')"
  shows "\<not> list_ex (\<lambda>(_, task). is_slow now task) (ts_tracked ts')"
  using assms reported_is_not_slow by (auto simp: reap_def list_ex_iff split: prod.splits)

section \<open>The queue\<close>

definition outbox_ok :: "'i outbox \<Rightarrow> bool" where
  "outbox_ok ob \<longleftrightarrow>
     ob_pushed ob = ob_handled ob @ (case ob_current ob of None \<Rightarrow> [] | Some i \<Rightarrow> [i]) @ ob_queue ob @ ob_waiting ob \<and>
     ob_unsent ob = (case ob_current ob of None \<Rightarrow> 0 | Some _ \<Rightarrow> 1) + length (ob_queue ob) + length (ob_waiting ob) \<and>
     length (ob_queue ob) \<le> OUTBOX_CAPACITY \<and>
     (ob_waiting ob \<noteq> [] \<longrightarrow> length (ob_queue ob) = OUTBOX_CAPACITY) \<and>
     (ob_sender ob \<noteq> Sending \<longrightarrow> ob_current ob = None) \<and>
     (\<exists>started panics. ts_tracked (ob_tasks ob) =
        [(ob_task ob, \<lparr>tk_name = OUTBOX_TASK, tk_started = started, tk_expected = None, tk_reported_slow = False,
                       tk_restart = Some panics\<rparr>)]) \<and>
     (\<forall>until. ob_sender ob = Pausing until \<longrightarrow> until \<le> ob_clock ob + secs 60)"

lemma start_ok: "outbox_ok (start_outbox now new_task_set)"
  by (simp add: start_outbox_def spawn_restartable_def track_def new_task_set_def outbox_ok_def)

lemma push_ok: "outbox_ok ob \<Longrightarrow> outbox_ok (push item ob)"
  by (auto simp: outbox_ok_def push_def Let_def split: option.splits)

lemma receive_ok: "outbox_ok ob \<Longrightarrow> receive ob = Some ob' \<Longrightarrow> outbox_ok ob'"
  by (cases "ob_waiting ob")
     (auto simp: outbox_ok_def receive_def OUTBOX_CAPACITY_def split: option.splits sender.splits list.splits)

lemma sent_ok: "outbox_ok ob \<Longrightarrow> sent ob = Some ob' \<Longrightarrow> outbox_ok ob' \<and> ob_current ob' = None"
  by (auto simp: outbox_ok_def sent_def split: option.splits sender.splits)

lemma crash_ok:
  assumes "outbox_ok ob" and "crash payload ob = Some ob'"
  shows "outbox_ok ob'"
proof -
  from assms(2) obtain ob1 where ob1: "sent ob = Some ob1" and ob': "ob' = ob1\<lparr>ob_sender := Crashed payload\<rparr>"
    by (auto simp: crash_def)
  from sent_ok [OF assms(1) ob1] show ?thesis unfolding ob' outbox_ok_def by simp
qed

text \<open>What the set of the outbox tracks.\<close>

definition only_sender :: "task_id \<Rightarrow> task_set \<Rightarrow> bool" where
  "only_sender i ts \<longleftrightarrow> (\<exists>started panics. ts_tracked ts =
     [(i, \<lparr>tk_name = OUTBOX_TASK, tk_started = started, tk_expected = None, tk_reported_slow = False,
           tk_restart = Some panics\<rparr>)])"

lemma reap_idle:
  assumes "only_sender (ob_task ob) (ob_tasks ob)" and "\<And>payload. ob_sender ob \<noteq> Crashed payload"
  shows "reap_outbox ob = (ob, [])"
proof -
  from assms(1) have "reap (ob_clock ob) [] (ob_tasks ob) = ([], [], ob_tasks ob)"
    by (cases "ob_tasks ob") (auto simp: reap_def is_slow_def only_sender_def)
  then show ?thesis
  proof (cases "ob_sender ob")
    case (Crashed payload)
    with assms(2) show ?thesis by blast
  qed (simp_all add: reap_outbox_def)
qed

lemma reap_crashed:
  assumes "only_sender (ob_task ob) (ob_tasks ob)" and "ob_sender ob = Crashed payload"
  obtains ts i delay where "only_sender i ts" and "delay \<le> secs 60"
    and "reap_outbox ob = (ob\<lparr>ob_tasks := ts, ob_task := i, ob_sender := Pausing (ob_clock ob + delay)\<rparr>,
       [Panicked OUTBOX_TASK (panic_message payload) True])"
proof -
  let ?joined = "[(ob_task ob, Some (PanicError payload))]"
  have "\<exists>ts i delay. only_sender i ts \<and> delay \<le> secs 60 \<and> reap (ob_clock ob) ?joined (ob_tasks ob) =
      ([Panicked OUTBOX_TASK (panic_message payload) True], [(i, delay)], ts)"
  proof -
    from assms(1) obtain started panics where t: "ts_tracked (ob_tasks ob) =
        [(ob_task ob, \<lparr>tk_name = OUTBOX_TASK, tk_started = started, tk_expected = None, tk_reported_slow = False,
           tk_restart = Some panics\<rparr>)]"
      by (auto simp: only_sender_def)
    obtain events starts ts where r: "reap (ob_clock ob) ?joined (ob_tasks ob) = (events, starts, ts)"
      by (cases "reap (ob_clock ob) ?joined (ob_tasks ob)")
    with t have "events = [Panicked OUTBOX_TASK (panic_message payload) True]" "only_sender (ts_next (ob_tasks ob)) ts"
      "\<exists>k. starts = [(ts_next (ob_tasks ob), restart_delay (ts_restart_delay (ob_tasks ob)) k)]"
      by (auto simp: reap_def ended_def restart_task_def track_def is_slow_def only_sender_def Let_def)
    with r restart_delay_bounded show ?thesis by blast
  qed
  with assms(2) that show ?thesis by (auto simp: reap_outbox_def)
qed

lemma outbox_ok_sender: "outbox_ok ob \<Longrightarrow> only_sender (ob_task ob) (ob_tasks ob)"
  by (auto simp: outbox_ok_def only_sender_def)

lemma reap_ok:
  assumes "outbox_ok ob"
  shows "outbox_ok (fst (reap_outbox ob))"
proof (cases "ob_sender ob")
  case (Crashed payload)
  from reap_crashed [OF outbox_ok_sender [OF assms] this] obtain ts i delay
    where "only_sender i ts" "delay \<le> secs 60" "fst (reap_outbox ob) =
      ob\<lparr>ob_tasks := ts, ob_task := i, ob_sender := Pausing (ob_clock ob + delay)\<rparr>" by (metis fst_conv)
  with assms Crashed show ?thesis by (simp add: outbox_ok_def only_sender_def)
qed (use assms reap_idle [OF outbox_ok_sender [OF assms]] in simp_all)

lemma wake_ok: "outbox_ok ob \<Longrightarrow> wake ob = Some ob' \<Longrightarrow> outbox_ok ob'"
  by (auto simp: outbox_ok_def wake_def split: sender.splits if_splits)

lemma outbox_reachable_ok: "outbox_reachable ob \<Longrightarrow> outbox_ok ob"
proof (induction rule: outbox_reachable.induct)
  case (2 ob ob')
  from 2(2,3) show ?case
  proof (cases rule: outbox_step.cases)
    case (7 d)
    with 2(3) show ?thesis by (fastforce simp: outbox_ok_def)
  qed (auto intro: push_ok receive_ok crash_ok reap_ok wake_ok dest: sent_ok)
qed (rule start_ok)

text \<open>C24: In every reachable state of the upload queue, whatever is pushed, however sending panics
  and whenever tasks are reaped: what was pushed is, in order, what was taken out and handled once, the item being sent,
  the queue, and the stages that wait for room; the counter is the number of items not handled yet;
  and the queue holds at most 256.\<close>

theorem outbox_sends_in_order:
  assumes "outbox_reachable ob"
  shows "ob_pushed ob = ob_handled ob @ (case ob_current ob of None \<Rightarrow> [] | Some i \<Rightarrow> [i]) @ ob_queue ob @ ob_waiting ob \<and>
    ob_unsent ob = length (ob_pushed ob) - length (ob_handled ob) \<and> length (ob_queue ob) \<le> 256"
  using outbox_reachable_ok [OF assms]
  by (auto simp: outbox_ok_def OUTBOX_CAPACITY_def split: option.splits)

definition demo_crash :: "nat outbox" where
  "demo_crash = the (crash OtherPayload (the (receive (push 2 (push 1 (start_outbox 0 new_task_set))))))"

lemmas outbox_steps = outbox_reachable.intros(2) [OF _ outbox_step.intros(1)]
  outbox_reachable.intros(2) [OF _ outbox_step.intros(2)] outbox_reachable.intros(2) [OF _ outbox_step.intros(4)]

lemma demo_crash_reachable: "outbox_reachable demo_crash"
proof -
  let ?ob = "push 2 (push (1::nat) (start_outbox 0 new_task_set))"
  have 1: "outbox_reachable ?ob"
    by (rule outbox_steps(1) [OF outbox_steps(1) [OF outbox_reachable.intros(1)]])
  have 2: "receive ?ob = Some (the (receive ?ob))"
    by (simp add: receive_def push_def start_outbox_def spawn_restartable_def track_def new_task_set_def
        OUTBOX_CAPACITY_def)
  have 3: "crash OtherPayload (the (receive ?ob)) = Some demo_crash"
    by (simp add: demo_crash_def crash_def sent_def receive_def push_def start_outbox_def spawn_restartable_def
        track_def new_task_set_def OUTBOX_CAPACITY_def)
  from outbox_steps(3) [OF outbox_steps(2) [OF 1 2] 3] show ?thesis .
qed

theorem outbox_sends_in_order_witness:
  "ob_handled demo_crash = [1] \<and> ob_pushed demo_crash = ob_handled demo_crash @
     (case ob_current demo_crash of None \<Rightarrow> [] | Some i \<Rightarrow> [i]) @ ob_queue demo_crash @ ob_waiting demo_crash"
  using outbox_sends_in_order [OF demo_crash_reachable]
  by (auto simp: demo_crash_def crash_def sent_def receive_def push_def start_outbox_def spawn_restartable_def
      track_def new_task_set_def OUTBOX_CAPACITY_def)

text \<open>When sending panicked, the next reaping reports the panic by the name of the task and starts it
  again: once a minute has passed from then on, it sends again, with the queue as it was.\<close>

theorem crashed_sender_comes_back:
  assumes "outbox_reachable ob" and "ob_sender ob = Crashed payload" and "secs 60 \<le> d"
  shows "\<exists>ob1 ob2. reap_outbox ob = (ob1, [Panicked OUTBOX_TASK (panic_message payload) True]) \<and>
    wake (ob1\<lparr>ob_clock := ob_clock ob1 + d\<rparr>) = Some ob2 \<and> outbox_reachable ob2 \<and> ob_sender ob2 = Sending \<and>
    ob_queue ob2 = ob_queue ob \<and> ob_waiting ob2 = ob_waiting ob"
proof -
  from reap_crashed [OF outbox_ok_sender [OF outbox_reachable_ok [OF assms(1)]] assms(2)] obtain ts i delay
    where r: "reap_outbox ob =
      (ob\<lparr>ob_tasks := ts, ob_task := i, ob_sender := Pausing (ob_clock ob + delay)\<rparr>,
       [Panicked OUTBOX_TASK (panic_message payload) True])" and d: "delay \<le> secs 60"
    by metis
  let ?ob1 = "fst (reap_outbox ob)"
  let ?ob2 = "?ob1\<lparr>ob_clock := ob_clock ?ob1 + d, ob_sender := Sending\<rparr>"
  have w: "wake (?ob1\<lparr>ob_clock := ob_clock ?ob1 + d\<rparr>) = Some ?ob2" using r d assms(3) by (simp add: wake_def)
  have re: "outbox_reachable (?ob1\<lparr>ob_clock := ob_clock ?ob1 + d\<rparr>)"
    by (rule outbox_reachable.intros(2) [OF outbox_reachable.intros(2) [OF assms(1) outbox_step.intros(5)]
          outbox_step.intros(7)])
  have re2: "outbox_reachable ?ob2" by (rule outbox_reachable.intros(2) [OF re outbox_step.intros(6) [OF w]])
  from r w re2 show ?thesis by auto
qed

theorem crashed_sender_comes_back_witness:
  "\<exists>ob1 ob2. reap_outbox demo_crash = (ob1, [Panicked OUTBOX_TASK (panic_message OtherPayload) True]) \<and>
    wake (ob1\<lparr>ob_clock := ob_clock ob1 + secs 60\<rparr>) = Some ob2 \<and> outbox_reachable ob2 \<and> ob_sender ob2 = Sending \<and>
    ob_queue ob2 = ob_queue demo_crash \<and> ob_waiting ob2 = ob_waiting demo_crash"
  by (rule crashed_sender_comes_back [OF demo_crash_reachable _ order_refl])
     (simp add: demo_crash_def crash_def sent_def receive_def push_def start_outbox_def spawn_restartable_def
      track_def new_task_set_def OUTBOX_CAPACITY_def)

end
