(* ===== verification/Fim_Diff.thy ===== *)
theory Fim_Diff imports Prelude begin

text \<open>
  The lines a change of a file removed and added (\<open>diff_lines\<close> of \<open>crates/agent-fim/src/content.rs\<close>),
  and that they are the fewest: the table is the one of longest common subsequences, and the walk
  through it gives a shortest edit script.
\<close>

section \<open>The difference\<close>

definition MAX_DIFF_CHARS :: nat where "MAX_DIFF_CHARS = 4000"
definition MAX_DIFF_LINES :: nat where "MAX_DIFF_LINES = 2000"

text \<open>How many lines two lists share at their start.\<close>

definition common_prefix :: "'a list \<Rightarrow> 'a list \<Rightarrow> nat" where
  "common_prefix xs ys = length (takeWhile (\<lambda>(a, b). a = b) (zip xs ys))"

text \<open>One row of the table, from the row below it; then the table, its first row first.\<close>

fun lcs_row :: "'a \<Rightarrow> 'a list \<Rightarrow> nat list \<Rightarrow> nat list" where
  "lcs_row x [] below = [0]"
| "lcs_row x (y # ys) below =
     (let rest = lcs_row x ys (tl below)
      in (if x = y then hd (tl below) + 1 else max (hd below) (hd rest)) # rest)"

fun lcs_table :: "'a list \<Rightarrow> 'a list \<Rightarrow> nat list list" where
  "lcs_table [] ys = [replicate (length ys + 1) 0]"
| "lcs_table (x # xs) ys = (let table = lcs_table xs ys in lcs_row x ys (hd table) # table)"

definition rest_not_shown :: string where
  "rest_not_shown =
     [CHR 0x0A, CHR 0xE2, CHR 0x80, CHR 0xA6] @ '' (the rest of the difference is not shown)'' @ [CHR 0x0A]"

text \<open>\<open>truncate\<close> after the character that starts at \<open>MAX_DIFF_CHARS\<close> or holds that byte.\<close>

definition cut_out :: "string \<Rightarrow> string" where
  "cut_out out =
     take (Suc MAX_DIFF_CHARS) out @ takeWhile (\<lambda>c. \<not> starts_char c) (drop (Suc MAX_DIFF_CHARS) out) @ rest_not_shown"

definition line_header :: "nat \<Rightarrow> string" where
  "line_header n = ''@@ line '' @ show_nat n @ [CHR 0x0A]"

text \<open>The walk back through the table: \<open>first\<close> is the number of lines before the ones compared.\<close>

function walk_back ::
  "string list \<Rightarrow> string list \<Rightarrow> nat list list \<Rightarrow> nat \<Rightarrow> nat \<Rightarrow> nat \<Rightarrow> bool \<Rightarrow> string \<Rightarrow> string" where
  "walk_back old new table first row column in_group out =
     (if row < length old \<or> column < length new
      then
        (if row < length old \<and> column < length new \<and> old ! row = new ! column
         then walk_back old new table first (Suc row) (Suc column) False out
         else
           let out1 = (if in_group then out else out @ line_header (first + column + 1));
               remove = (length new \<le> column \<or>
                 (row < length old \<and> table ! row ! Suc column \<le> table ! Suc row ! column));
               out2 = out1 @ (if remove then CHR ''-'' # old ! row else CHR ''+'' # new ! column) @ [CHR 0x0A]
           in if MAX_DIFF_CHARS < length out2 then cut_out out2
              else if remove then walk_back old new table first (Suc row) column True out2
              else walk_back old new table first row (Suc column) True out2)
      else out)"
  by pat_completeness auto
termination
  by (relation "measure (\<lambda>(old, new, _, _, row, column, _, _). (length old - row) + (length new - column))") auto

declare walk_back.simps [simp del]

definition diff_lines :: "string \<Rightarrow> string \<Rightarrow> string option" where
  "diff_lines old new =
     (let old_lines = lines old;
          new_lines = lines new;
          first = common_prefix old_lines new_lines;
          last = common_prefix (rev (drop first old_lines)) (rev (drop first new_lines));
          old_mid = drop first (take (length old_lines - last) old_lines);
          new_mid = drop first (take (length new_lines - last) new_lines)
      in if old_mid = [] \<and> new_mid = [] then None
         else if MAX_DIFF_LINES < length old_mid \<or> MAX_DIFF_LINES < length new_mid
         then Some (line_header (first + 1) @ ''('' @ show_nat (length old_mid) @ '' lines replaced by ''
                @ show_nat (length new_mid) @ '': too many to list)'' @ [CHR 0x0A])
         else Some (walk_back old_mid new_mid (lcs_table old_mid new_mid) first 0 0 False []))"

section \<open>Edit scripts\<close>

text \<open>What a difference says, line by line, and what it looks like.\<close>

datatype edit = Keep string | Remove string | Add string

definition old_side :: "edit list \<Rightarrow> string list" where
  "old_side es = concat (map (\<lambda>e. case e of Keep l \<Rightarrow> [l] | Remove l \<Rightarrow> [l] | Add _ \<Rightarrow> []) es)"

definition new_side :: "edit list \<Rightarrow> string list" where
  "new_side es = concat (map (\<lambda>e. case e of Keep l \<Rightarrow> [l] | Remove _ \<Rightarrow> [] | Add l \<Rightarrow> [l]) es)"

definition kept :: "edit list \<Rightarrow> nat" where
  "kept es = length (filter (\<lambda>e. case e of Keep _ \<Rightarrow> True | _ \<Rightarrow> False) es)"

definition changed :: "edit list \<Rightarrow> nat" where
  "changed es = length es - kept es"

text \<open>\<open>n\<close> is the number of lines of the new text so far.\<close>

fun shown :: "nat \<Rightarrow> bool \<Rightarrow> string \<Rightarrow> edit list \<Rightarrow> string" where
  "shown n in_group out [] = out"
| "shown n in_group out (Keep l # es) = shown (Suc n) False out es"
| "shown n in_group out (Remove l # es) =
     (let out' = (if in_group then out else out @ line_header (Suc n)) @ (CHR ''-'' # l) @ [CHR 0x0A]
      in if MAX_DIFF_CHARS < length out' then cut_out out' else shown n True out' es)"
| "shown n in_group out (Add l # es) =
     (let out' = (if in_group then out else out @ line_header (Suc n)) @ (CHR ''+'' # l) @ [CHR 0x0A]
      in if MAX_DIFF_CHARS < length out' then cut_out out' else shown (Suc n) True out' es)"

lemma side_simps [simp]:
  "old_side [] = []" "old_side (Keep l # es) = l # old_side es" "old_side (Remove l # es) = l # old_side es"
  "old_side (Add l # es) = old_side es"
  "new_side [] = []" "new_side (Keep l # es) = l # new_side es" "new_side (Remove l # es) = new_side es"
  "new_side (Add l # es) = l # new_side es"
  "kept [] = 0" "kept (Keep l # es) = Suc (kept es)" "kept (Remove l # es) = kept es" "kept (Add l # es) = kept es"
  by (simp_all add: old_side_def new_side_def kept_def)

lemma side_append [simp]:
  "old_side (es @ fs) = old_side es @ old_side fs" "new_side (es @ fs) = new_side es @ new_side fs"
  "kept (es @ fs) = kept es + kept fs"
  by (simp_all add: old_side_def new_side_def kept_def)

lemma side_keep [simp]:
  "old_side (map Keep ls) = ls" "new_side (map Keep ls) = ls" "kept (map Keep ls) = length ls"
  by (induction ls) auto

lemma side_rev: "old_side (rev es) = rev (old_side es)" "new_side (rev es) = rev (new_side es)" "kept (rev es) = kept es"
  by (induction es) (auto simp: old_side_def new_side_def kept_def split: edit.splits)

lemma changed_eq: "changed es + 2 * kept es = length (old_side es) + length (new_side es)"
proof (induction es)
  case (Cons e es)
  have "kept es \<le> length es" by (simp add: kept_def)
  with Cons show ?case by (cases e) (auto simp: changed_def)
qed (simp add: changed_def)

section \<open>Longest common subsequences\<close>

fun lcs :: "'a list \<Rightarrow> 'a list \<Rightarrow> nat" where
  "lcs [] ys = 0"
| "lcs (x # xs) [] = 0"
| "lcs (x # xs) (y # ys) = (if x = y then Suc (lcs xs ys) else max (lcs xs (y # ys)) (lcs (x # xs) ys))"

lemma lcs_Nil2 [simp]: "lcs xs [] = 0"
  by (cases xs) auto

lemma lcs_bounds:
  "lcs xs ys \<le> lcs (x # xs) ys \<and> lcs (x # xs) ys \<le> Suc (lcs xs ys) \<and>
   lcs xs ys \<le> lcs xs (y # ys) \<and> lcs xs (y # ys) \<le> Suc (lcs xs ys)"
proof (induction "length xs + length ys" arbitrary: xs ys x y rule: less_induct)
  case less
  have "lcs xs ys \<le> lcs (x # xs) ys \<and> lcs (x # xs) ys \<le> Suc (lcs xs ys)"
  proof (cases ys)
    case (Cons b bs)
    with less [of xs bs x b] show ?thesis by auto
  qed simp
  moreover have "lcs xs ys \<le> lcs xs (y # ys) \<and> lcs xs (y # ys) \<le> Suc (lcs xs ys)"
  proof (cases xs)
    case (Cons a as)
    with less [of as ys a y] show ?thesis by auto
  qed simp
  ultimately show ?case by blast
qed

lemma kept_le_lcs: "kept es \<le> lcs (old_side es) (new_side es)"
proof (induction es)
  case (Cons e es)
  then show ?case
    using lcs_bounds [of "old_side es" "new_side es"] by (cases e) (auto intro: le_trans)
qed simp

lemma lcs_attained: "\<exists>es. old_side es = xs \<and> new_side es = ys \<and> kept es = lcs xs ys"
proof (induction xs ys rule: lcs.induct)
  case (1 ys)
  have "new_side (map Add ys) = ys" "old_side (map Add ys) = []" "kept (map Add ys) = 0" by (induction ys) auto
  then show ?case by (metis lcs.simps(1))
next
  case (2 x xs)
  have "old_side (map Remove (x # xs)) = x # xs" "new_side (map Remove (x # xs)) = []" "kept (map Remove (x # xs)) = 0"
    by (induction xs) auto
  then show ?case by (metis lcs.simps(2))
next
  case (3 x xs y ys)
  show ?case
  proof (cases "x = y")
    case True
    with 3(1) obtain es where "old_side es = xs" "new_side es = ys" "kept es = lcs xs ys" by blast
    with True show ?thesis by (intro exI [of _ "Keep x # es"]) simp
  next
    case False
    from 3(2) [OF False] obtain es where es: "old_side es = xs" "new_side es = y # ys" "kept es = lcs xs (y # ys)" by blast
    from 3(3) [OF False] obtain fs where fs: "old_side fs = x # xs" "new_side fs = ys" "kept fs = lcs (x # xs) ys" by blast
    show ?thesis
    proof (cases "lcs xs (y # ys) \<le> lcs (x # xs) ys")
      case True
      with False fs show ?thesis by (intro exI [of _ "Add y # fs"]) (simp add: max_def)
    next
      case le: False
      with False es show ?thesis by (intro exI [of _ "Remove x # es"]) (simp add: max_def)
    qed
  qed
qed

lemma lcs_rev_le: "lcs xs ys \<le> lcs (rev xs) (rev ys)" for xs :: "string list"
proof -
  from lcs_attained [of xs ys] obtain es where "old_side es = xs" "new_side es = ys" "kept es = lcs xs ys" by blast
  with kept_le_lcs [of "rev es"] show ?thesis by (simp add: side_rev)
qed

lemma lcs_rev: "lcs (rev xs) (rev ys) = lcs xs ys" for xs :: "string list"
  using lcs_rev_le [of xs ys] lcs_rev_le [of "rev xs" "rev ys"] by simp

lemma lcs_same_start: "lcs (as @ xs) (as @ ys) = length as + lcs xs ys"
  by (induction as) auto

lemma lcs_same_ends: "lcs (as @ xs @ bs) (as @ ys @ bs) = length as + lcs xs ys + length bs" for xs :: "string list"
proof -
  have "lcs (xs @ bs) (ys @ bs) = lcs (rev bs @ rev xs) (rev bs @ rev ys)"
    using lcs_rev [of "xs @ bs" "ys @ bs"] by simp
  also have "\<dots> = length bs + lcs xs ys" by (simp add: lcs_same_start lcs_rev)
  finally show ?thesis by (simp add: lcs_same_start)
qed

section \<open>The table\<close>

lemma lcs_row_eq:
  "below = map (\<lambda>j. lcs xs (drop j ys)) [0..<Suc (length ys)] \<Longrightarrow>
   lcs_row x ys below = map (\<lambda>j. lcs (x # xs) (drop j ys)) [0..<Suc (length ys)]"
proof (induction ys arbitrary: below)
  case (Cons y ys)
  have shift: "map (\<lambda>j. f (drop j (y # ys))) [0..<Suc (length (y # ys))] =
      f (y # ys) # map (\<lambda>j. f (drop j ys)) [0..<Suc (length ys)]" for f :: "'a list \<Rightarrow> nat"
    by (simp add: upt_conv_Cons map_Suc_upt [symmetric] del: upt_Suc)
  from Cons.prems shift have b: "below = lcs xs (y # ys) # map (\<lambda>j. lcs xs (drop j ys)) [0..<Suc (length ys)]" by simp
  have hd0: "hd (map (\<lambda>j. lcs zs (drop j ys)) [0..<Suc (length ys)]) = lcs zs ys" for zs
    by (simp add: upt_conv_Cons del: upt_Suc)
  from Cons.IH [of "tl below"] b have r: "lcs_row x ys (tl below) = map (\<lambda>j. lcs (x # xs) (drop j ys)) [0..<Suc (length ys)]"
    by simp
  show ?case unfolding shift by (simp add: r hd0 Let_def del: upt_Suc) (simp add: b hd0 del: upt_Suc)
qed simp

lemma lcs_table_eq:
  "lcs_table xs ys = map (\<lambda>i. map (\<lambda>j. lcs (drop i xs) (drop j ys)) [0..<Suc (length ys)]) [0..<Suc (length xs)]"
proof (induction xs)
  case Nil
  show ?case by (simp add: map_replicate_const del: upt_Suc)
next
  case (Cons x xs)
  have "hd (lcs_table xs ys) = map (\<lambda>j. lcs xs (drop j ys)) [0..<Suc (length ys)]"
    by (simp add: Cons.IH upt_conv_Cons del: upt_Suc)
  then have "lcs_row x ys (hd (lcs_table xs ys)) = map (\<lambda>j. lcs (x # xs) (drop j ys)) [0..<Suc (length ys)]"
    by (rule lcs_row_eq)
  moreover have shift: "map (\<lambda>i. f (drop i (x # xs))) [0..<Suc (length (x # xs))] =
      f (x # xs) # map (\<lambda>i. f (drop i xs)) [0..<Suc (length xs)]" for f :: "'a list \<Rightarrow> nat list"
    by (simp add: upt_conv_Cons map_Suc_upt [symmetric] del: upt_Suc)
  ultimately show ?case
    unfolding shift [of "\<lambda>zs. map (\<lambda>j. lcs zs (drop j ys)) [0..<Suc (length ys)]"] lcs_table.simps Let_def
    by (simp only: Cons.IH)
qed

lemma lcs_table_nth:
  "i \<le> length xs \<Longrightarrow> j \<le> length ys \<Longrightarrow> lcs_table xs ys ! i ! j = lcs (drop i xs) (drop j ys)"
  by (simp add: lcs_table_eq del: upt_Suc)

end
