(* ===== verification/Fim_Diff_Props.thy ===== *)
theory Fim_Diff_Props imports Fim_Diff begin

text \<open>
  What the reported difference of two texts is: a rendering of an edit script that turns the lines of the
  one into the lines of the other with the fewest changes.
\<close>

section \<open>The walk renders a shortest script\<close>

lemma walk_back_shown:
  assumes "row \<le> length old" and "column \<le> length new"
  shows "\<exists>es. old_side es = drop row old \<and> new_side es = drop column new \<and>
    kept es = lcs (drop row old) (drop column new) \<and>
    walk_back old new (lcs_table old new) first row column g out = shown (first + column) g out es"
  using assms
proof (induction "(length old - row) + (length new - column)" arbitrary: row column g out rule: less_induct)
  case less
  let ?xs = "drop row old" and ?ys = "drop column new"
  let ?walk = "walk_back old new (lcs_table old new) first"
  have nth: "?xs = old ! row # drop (Suc row) old" if "row < length old" using that by (simp add: Cons_nth_drop_Suc)
  have nth': "?ys = new ! column # drop (Suc column) new" if "column < length new"
    using that by (simp add: Cons_nth_drop_Suc)
  consider (over) "row = length old" "column = length new"
    | (same) "row < length old" "column < length new" "old ! row = new ! column"
    | (edit) "row < length old \<or> column < length new"
        "\<not> (row < length old \<and> column < length new \<and> old ! row = new ! column)"
    using less(2,3) by fastforce
  then show ?case
  proof cases
    case over
    then show ?thesis by (subst walk_back.simps) (auto intro: exI [of _ "[]"])
  next
    case same
    then have "(length old - Suc row) + (length new - Suc column) < (length old - row) + (length new - column)" by linarith
    from less(1) [OF this, of False out] same obtain es where
      "old_side es = drop (Suc row) old" "new_side es = drop (Suc column) new"
      "kept es = lcs (drop (Suc row) old) (drop (Suc column) new)"
      "?walk (Suc row) (Suc column) False out = shown (first + Suc column) False out es" by auto
    with same show ?thesis
      by (subst walk_back.simps) (auto simp: nth nth' intro!: exI [of _ "Keep (old ! row) # es"])
  next
    case edit
    define remove where "remove \<longleftrightarrow> length new \<le> column \<or>
      (row < length old \<and> lcs_table old new ! row ! Suc column \<le> lcs_table old new ! Suc row ! column)"
    define out2 where "out2 = (if g then out else out @ line_header (first + column + 1)) @
      (if remove then CHR ''-'' # old ! row else CHR ''+'' # new ! column) @ [CHR 0x0A]"
    have walk: "?walk row column g out =
      (if MAX_DIFF_CHARS < length out2 then cut_out out2
       else if remove then ?walk (Suc row) column True out2 else ?walk row (Suc column) True out2)"
      by (subst walk_back.simps)
         (simp only: if_P [OF edit(1)] if_not_P [OF edit(2)] Let_def remove_def [symmetric] out2_def)
    show ?thesis
    proof (cases remove)
      case True
      with edit have row: "row < length old" by (auto simp: remove_def)
      then have m: "(length old - Suc row) + (length new - column) < (length old - row) + (length new - column)" by linarith
      have "lcs ?xs ?ys = lcs (drop (Suc row) old) ?ys"
        using True edit row less(2,3)
        by (cases "column < length new") (auto simp: remove_def nth nth' lcs_table_nth not_le max_def)
      moreover obtain es where es: "old_side es = drop (Suc row) old" "new_side es = ?ys"
          "kept es = lcs (drop (Suc row) old) ?ys"
          "\<not> MAX_DIFF_CHARS < length out2 \<Longrightarrow> ?walk (Suc row) column True out2 = shown (first + column) True out2 es"
        using less(1) [OF m, of True out2] row less(3) lcs_attained [of "drop (Suc row) old" ?ys] by auto
      ultimately show ?thesis using row True es
        by (intro exI [of _ "Remove (old ! row) # es"]) (auto simp: walk nth out2_def Let_def)
    next
      case False
      with edit have column: "column < length new" by (auto simp: remove_def)
      then have m: "(length old - row) + (length new - Suc column) < (length old - row) + (length new - column)" by linarith
      have "lcs ?xs ?ys = lcs ?xs (drop (Suc column) new)"
        using False edit column less(2,3)
        by (cases "row < length old") (auto simp: remove_def nth nth' lcs_table_nth not_le max_def)
      moreover obtain es where es: "old_side es = ?xs" "new_side es = drop (Suc column) new"
          "kept es = lcs ?xs (drop (Suc column) new)"
          "\<not> MAX_DIFF_CHARS < length out2 \<Longrightarrow>
             ?walk row (Suc column) True out2 = shown (first + Suc column) True out2 es"
        using less(1) [OF m, of True out2] column less(2) lcs_attained [of ?xs "drop (Suc column) new"] by auto
      ultimately show ?thesis using column False es
        by (intro exI [of _ "Add (new ! column) # es"]) (auto simp: walk nth' out2_def Let_def)
    qed
  qed
qed

section \<open>What both texts share\<close>

lemma common_prefix_take: "take (common_prefix xs ys) xs = take (common_prefix xs ys) ys"
  unfolding common_prefix_def
  by (induction xs ys rule: list_induct2') auto

lemma common_prefix_le: "common_prefix xs ys \<le> length xs \<and> common_prefix xs ys \<le> length ys"
  unfolding common_prefix_def
  by (induction xs ys rule: list_induct2') auto

lemma common_prefix_Nil [simp]: "common_prefix [] ys = 0" "common_prefix xs [] = 0"
  by (simp_all add: common_prefix_def)

lemma common_prefix_Cons [simp]: "common_prefix (x # xs) (y # ys) = (if x = y then Suc (common_prefix xs ys) else 0)"
  by (simp add: common_prefix_def)

text \<open>What follows the common prefix differs at once.\<close>

lemma common_prefix_drop: "common_prefix (drop (common_prefix xs ys) xs) (drop (common_prefix xs ys) ys) = 0"
  by (induction xs ys rule: list_induct2') auto

lemma common_prefix_appends: "common_prefix xs ys \<le> common_prefix (xs @ zs) (ys @ ws)"
  by (induction xs ys rule: list_induct2') auto

lemma common_prefix_same: "common_prefix xs xs = length xs"
  by (induction xs) (auto simp: common_prefix_def)

lemma shown_keeps: "shown n g out (map Keep ls) = out"
  by (induction ls arbitrary: n g) auto

lemma shown_keep_front: "shown n False out (map Keep ls @ es) = shown (n + length ls) False out es"
  by (induction ls arbitrary: n) auto

lemma shown_keep_back: "shown n g out (es @ map Keep ls) = shown n g out es"
  by (induction n g out es rule: shown.induct) (auto simp: shown_keeps Let_def)

text \<open>The two texts as the lines they share at both ends around the lines that are compared.\<close>

definition middle :: "'a list \<Rightarrow> 'a list \<Rightarrow> 'a list \<times> 'a list" where
  "middle xs ys =
     (let first = common_prefix xs ys; last = common_prefix (rev (drop first xs)) (rev (drop first ys))
      in (drop first (take (length xs - last) xs), drop first (take (length ys - last) ys)))"

lemma middle_split:
  assumes "middle xs ys = (om, nm)"
  obtains as bs where "length as = common_prefix xs ys" and "xs = as @ om @ bs" and "ys = as @ nm @ bs"
    and "common_prefix om nm = 0" and "common_prefix (rev om) (rev nm) = 0"
proof -
  let ?f = "common_prefix xs ys"
  let ?l = "common_prefix (rev (drop ?f xs)) (rev (drop ?f ys))"
  have le: "?f \<le> length xs" "?f \<le> length ys" "?l \<le> length xs - ?f" "?l \<le> length ys - ?f"
    using common_prefix_le [of xs ys] common_prefix_le [of "rev (drop ?f xs)" "rev (drop ?f ys)"] by auto
  have split: "zs = take ?f zs @ drop ?f (take (length zs - ?l) zs) @ drop (length zs - ?l) zs"
    if "?f \<le> length zs" "?l \<le> length zs - ?f" for zs
  proof -
    have "?f \<le> length zs - ?l" using that by linarith
    then have "take ?f (take (length zs - ?l) zs) = take ?f zs" by (simp add: min_def)
    then have "take (length zs - ?l) zs = take ?f zs @ drop ?f (take (length zs - ?l) zs)"
      by (metis append_take_drop_id)
    then show ?thesis by (metis append.assoc append_take_drop_id)
  qed
  have tail: "rev (take ?l (rev (drop ?f zs))) = drop (length zs - ?l) zs"
    if "?f \<le> length zs" "?l \<le> length zs - ?f" for zs
    using that by (simp add: rev_take)
  have "drop (length xs - ?l) xs = drop (length ys - ?l) ys"
    using tail [OF le(1,3)] tail [OF le(2,4)] common_prefix_take [of "rev (drop ?f xs)" "rev (drop ?f ys)"] by simp
  moreover have "take ?f xs = take ?f ys" by (rule common_prefix_take)
  moreover define bs where "bs = drop (length xs - ?l) xs"
  ultimately have parts: "xs = take ?f xs @ om @ bs" "ys = take ?f xs @ nm @ bs"
    using split [OF le(1,3)] split [OF le(2,4)] assms by (auto simp: middle_def Let_def)
  have lens: "length (take ?f xs) = ?f" "length bs = ?l" using le by (simp_all add: bs_def)
  have rest: "drop ?f xs = om @ bs" "drop ?f ys = nm @ bs"
    using parts lens(1) by (metis append_eq_conv_conj)+
  have "common_prefix om nm = 0"
    using common_prefix_drop [of xs ys] common_prefix_appends [of om nm bs bs] rest by simp
  moreover have "common_prefix (rev om) (rev nm) = 0"
    using common_prefix_drop [of "rev (om @ bs)" "rev (nm @ bs)"] lens(2) rest by simp
  ultimately show ?thesis using parts lens(1) by (intro that)
qed

lemma diff_lines_middle:
  "diff_lines old new =
     (case middle (lines old) (lines new) of
        (om, nm) \<Rightarrow>
          if om = [] \<and> nm = [] then None
          else if MAX_DIFF_LINES < length om \<or> MAX_DIFF_LINES < length nm
          then Some (line_header (common_prefix (lines old) (lines new) + 1) @ ''('' @ show_nat (length om)
                 @ '' lines replaced by '' @ show_nat (length nm) @ '': too many to list)'' @ [CHR 0x0A])
          else Some (walk_back om nm (lcs_table om nm) (common_prefix (lines old) (lines new)) 0 0 False []))"
  by (simp add: diff_lines_def middle_def Let_def)

text \<open>No difference is reported exactly when the lines are the same.\<close>

lemma diff_lines_None: "diff_lines old new = None \<longleftrightarrow> lines old = lines new"
proof
  assume "diff_lines old new = None"
  then have "middle (lines old) (lines new) = ([], [])"
    by (auto simp: diff_lines_middle split: prod.splits if_splits)
  then show "lines old = lines new" by (rule middle_split) simp
next
  assume "lines old = lines new"
  then show "diff_lines old new = None"
    by (simp add: diff_lines_def common_prefix_same Let_def)
qed

section \<open>The reported difference\<close>

lemma walk_back_minimal:
  assumes old: "lines old = as @ om @ bs" and new: "lines new = as @ nm @ bs"
    and d: "d = walk_back om nm (lcs_table om nm) (length as) 0 0 False []"
  shows "\<exists>es. d = shown 0 False [] es \<and> old_side es = lines old \<and> new_side es = lines new \<and>
    (\<forall>fs\<in>{fs. old_side fs = lines old \<and> new_side fs = lines new}. changed es \<le> changed fs)"
proof -
  from walk_back_shown [of 0 om 0 nm "length as" False "[]"] obtain es where
    es: "old_side es = om" "new_side es = nm" "kept es = lcs om nm" "d = shown (length as) False [] es"
    using d by auto
  let ?es = "map Keep as @ es @ map Keep bs"
  have "kept ?es = lcs (lines old) (lines new)" by (simp add: es old new lcs_same_ends)
  moreover have sides: "old_side ?es = lines old" "new_side ?es = lines new" by (simp_all add: es old new)
  ultimately have "changed ?es \<le> changed fs" if "old_side fs = lines old" "new_side fs = lines new" for fs
    using kept_le_lcs [of fs] changed_eq [of fs] changed_eq [of ?es] that by simp
  moreover have "d = shown 0 False [] ?es" by (simp add: es(4) shown_keep_front shown_keep_back)
  ultimately show ?thesis using sides by blast
qed

text \<open>C25: Whatever two texts are compared, nothing is reported exactly when their lines are the same. Otherwise, around the
  lines they share at both ends: if what lies between is more than 2000 lines in one of them, only the two numbers of
  lines are reported; if not, the report is the rendering of an edit script that turns the lines of the old text into
  those of the new one, and no such script changes fewer lines.\<close>

theorem diff_lines_minimal:
  "case diff_lines old new of
     None \<Rightarrow> lines old = lines new
   | Some d \<Rightarrow> lines old \<noteq> lines new \<and>
       (\<exists>as om nm bs. lines old = as @ om @ bs \<and> lines new = as @ nm @ bs \<and>
          common_prefix om nm = 0 \<and> common_prefix (rev om) (rev nm) = 0 \<and>
          (if MAX_DIFF_LINES < length om \<or> MAX_DIFF_LINES < length nm
           then d = line_header (length as + 1) @ ''('' @ show_nat (length om) @ '' lines replaced by '' @ show_nat (length nm)
                      @ '': too many to list)'' @ [CHR 0x0A]
           else \<exists>es. d = shown 0 False [] es \<and> old_side es = lines old \<and> new_side es = lines new \<and>
             (\<forall>fs\<in>{fs. old_side fs = lines old \<and> new_side fs = lines new}. changed es \<le> changed fs)))"
proof (cases "diff_lines old new")
  case None
  then have "lines old = lines new" using diff_lines_None [of old new] by simp
  with None show ?thesis by (simp only: option.case)
next
  case (Some d)
  then have differ: "lines old \<noteq> lines new" using diff_lines_None [of old new] by simp
  obtain om nm where m: "middle (lines old) (lines new) = (om, nm)" by (cases "middle (lines old) (lines new)")
  then obtain as bs where as: "length as = common_prefix (lines old) (lines new)"
    and old: "lines old = as @ om @ bs" and new: "lines new = as @ nm @ bs"
    and ends: "common_prefix om nm = 0" "common_prefix (rev om) (rev nm) = 0" by (rule middle_split)
  have ne: "\<not> (om = [] \<and> nm = [])" using differ old new by auto
  let ?many = "MAX_DIFF_LINES < length om \<or> MAX_DIFF_LINES < length nm"
  let ?numbers = "line_header (length as + 1) @ ''('' @ show_nat (length om) @ '' lines replaced by '' @ show_nat (length nm)
    @ '': too many to list)'' @ [CHR 0x0A]"
  have d: "d = (if ?many then ?numbers else walk_back om nm (lcs_table om nm) (length as) 0 0 False [])"
    using Some m as ne by (auto simp: diff_lines_middle)
  have "if ?many then d = ?numbers
    else \<exists>es. d = shown 0 False [] es \<and> old_side es = lines old \<and> new_side es = lines new \<and>
      (\<forall>fs\<in>{fs. old_side fs = lines old \<and> new_side fs = lines new}. changed es \<le> changed fs)"
  proof (cases ?many)
    case True
    with d show ?thesis by (simp only: if_True)
  next
    case False
    with d have "d = walk_back om nm (lcs_table om nm) (length as) 0 0 False []" by (simp only: if_False)
    from walk_back_minimal [OF old new this] False show ?thesis by (simp only: if_False)
  qed
  with differ old new ends show ?thesis
    unfolding Some option.case by (intro conjI exI [of _ as] exI [of _ om] exI [of _ nm] exI [of _ bs])
qed

theorem diff_lines_minimal_witness:
  "\<exists>es. ''@@ line 2'' @ [CHR 0x0A] @ ''-b'' @ [CHR 0x0A] @ ''+c'' @ [CHR 0x0A] = shown 0 False [] es \<and>
    old_side es = [''a'', ''b''] \<and> new_side es = [''a'', ''c''] \<and>
    (\<forall>fs\<in>{fs. old_side fs = [''a'', ''b''] \<and> new_side fs = [''a'', ''c'']}. changed es \<le> changed fs)"
proof -
  let ?old = "''a'' @ [CHR 0x0A] @ ''b'' @ [CHR 0x0A]" and ?new = "''a'' @ [CHR 0x0A] @ ''c'' @ [CHR 0x0A]"
  have l: "lines ?old = [''a'', ''b'']" "lines ?new = [''a'', ''c'']" by simp_all
  have d: "diff_lines ?old ?new = Some (''@@ line 2'' @ [CHR 0x0A] @ ''-b'' @ [CHR 0x0A] @ ''+c'' @ [CHR 0x0A])"
    by code_simp
  have short: "length om \<le> 2000" if "as @ om @ bs = [x, y]" for as om bs :: "string list" and x y
    using arg_cong [OF that, of length] by simp
  show ?thesis using diff_lines_minimal [of ?old ?new] unfolding d l MAX_DIFF_LINES_def
    by (auto dest!: short [OF sym] simp flip: not_le)
qed

end
