(* ===== verification/Fim_Types.thy ===== *)
theory Fim_Types imports Prelude "HOL-Library.Word" begin

text \<open>
  The data of file integrity monitoring (\<open>crates/agent-common/src/types/fim.rs\<close>), its policies
  (\<open>crates/agent-fim/src/policy.rs\<close>) and the patterns that exclude a path (\<open>crates/agent-fim/src/watcher.rs\<close>).

  A path is the list of the components of an absolute Unix path, so \<open>Path::starts_with\<close> is \<^const>\<open>prefix\<close>.
  Permission bits are a \<open>32 word\<close>, an instant or a date is an \<^typ>\<open>int\<close> of nanoseconds.
\<close>

unbundle bit_operations_syntax

section \<open>Paths\<close>

type_synonym fpath = "string list"

definition path_text :: "fpath \<Rightarrow> string" where
  "path_text p = (if p = [] then ''/'' else concat (map (\<lambda>c. CHR ''/'' # c) p))"

text \<open>The names of a text between its slashes.\<close>

definition name_parts :: "string \<Rightarrow> string list" where
  "name_parts s = filter (\<lambda>c. c \<noteq> []) (split_at_char CHR ''/'' s)"

section \<open>Types\<close>

datatype fim_change_type = Created | Modified | Deleted | PermissionChanged | Renamed

datatype fim_detection = Realtime | Startup | Rescan

datatype fim_attribute = Content | Permissions | Owner | Group

record fim_owner =
  fo_uid :: u32
  fo_gid :: u32

record fim_actor =
  fa_user :: "string option"
  fa_process :: "string option"
  fa_pid :: "u32 option"
  fa_command :: "string option"
  fa_exact :: bool
  fa_source :: string

record fim_alert =
  al_path :: fpath
  al_change :: fim_change_type
  al_old_hash :: "string option"
  al_new_hash :: "string option"
  al_new_size :: "u64 option"
  al_timestamp :: int
  al_acknowledged :: bool
  al_new_sha256 :: "string option"
  al_detection :: fim_detection
  al_changed_attributes :: "fim_attribute list"
  al_old_permissions :: "32 word option"
  al_new_permissions :: "32 word option"
  al_old_owner :: "fim_owner option"
  al_new_owner :: "fim_owner option"
  al_diff :: "string option"
  al_actor :: "fim_actor option"

record fim_baseline =
  fb_path :: fpath
  fb_hash :: string
  fb_permissions :: "32 word"
  fb_size :: u64
  fb_modified_at :: int
  fb_captured_at :: int
  fb_uid :: "u32 option"
  fb_gid :: "u32 option"

record fim_policy =
  fp_watched_paths :: "fpath list"
  fp_ignore_patterns :: "string list"
  fp_recursive :: bool
  fp_debounce_ms :: u64
  fp_rescan_interval_secs :: u64

section \<open>Alerts\<close>

definition new_alert :: "fpath \<Rightarrow> fim_change_type \<Rightarrow> fim_detection \<Rightarrow> int \<Rightarrow> fim_alert" where
  "new_alert path change detection now =
     \<lparr>al_path = path, al_change = change, al_old_hash = None, al_new_hash = None, al_new_size = None,
      al_timestamp = now, al_acknowledged = False, al_new_sha256 = None, al_detection = detection,
      al_changed_attributes = [], al_old_permissions = None, al_new_permissions = None, al_old_owner = None,
      al_new_owner = None, al_diff = None, al_actor = None\<rparr>"

definition PERMISSION_BITS :: "32 word" where "PERMISSION_BITS = 0xFFF"

text \<open>\<open>0o7777\<close> above, and here \<open>0o6022\<close>: set-user-ID, set-group-ID, and the write bits of group and others.\<close>

definition SENSITIVE :: "32 word" where "SENSITIVE = 0xC12"

definition widens_access :: "fim_alert \<Rightarrow> bool" where
  "widens_access a \<longleftrightarrow>
     (case (al_old_permissions a, al_new_permissions a) of
        (Some old, Some new) \<Rightarrow> new AND SENSITIVE AND NOT old \<noteq> 0
      | _ \<Rightarrow> False) \<or>
     (case (al_old_owner a, al_new_owner a) of
        (Some old, Some new) \<Rightarrow> fo_uid old \<noteq> fo_uid new
      | _ \<Rightarrow> False)"

text \<open>\<open>format!("{:o}")\<close>.\<close>

fun show_octal :: "nat \<Rightarrow> string" where
  "show_octal n = (if n < 8 then [digit_char n] else show_octal (n div 8) @ [digit_char (n mod 8)])"

declare show_octal.simps [simp del]

definition attribute_summary :: "fim_alert \<Rightarrow> string" where
  "attribute_summary a =
     (let octal = (\<lambda>mode. show_octal (unat (mode AND PERMISSION_BITS)))
      in join_with '', ''
        ((if Content \<in> set (al_changed_attributes a) then [''content''] else []) @
         (case (al_old_permissions a, al_new_permissions a) of
            (Some old, Some new) \<Rightarrow> [''permissions '' @ octal old @ '' -> '' @ octal new]
          | _ \<Rightarrow> []) @
         (case (al_old_owner a, al_new_owner a) of
            (Some old, Some new) \<Rightarrow>
              [''owner '' @ show_nat (fo_uid old) @ '':'' @ show_nat (fo_gid old) @ '' -> ''
                @ show_nat (fo_uid new) @ '':'' @ show_nat (fo_gid new)]
          | _ \<Rightarrow> [])))"

definition actor_label :: "fim_actor \<Rightarrow> string" where
  "actor_label a =
     (case (fa_process a, fa_user a) of
        (Some process, Some user) \<Rightarrow> process @ '' ('' @ user @ '')''
      | (Some process, None) \<Rightarrow> process
      | (None, Some user) \<Rightarrow> user
      | (None, None) \<Rightarrow> ''unknown'')"

definition alert_description :: "fim_alert \<Rightarrow> string" where
  "alert_description a =
     (let what = (case al_change a of
                    Created \<Rightarrow> ''was created''
                  | Modified \<Rightarrow> ''was modified''
                  | Deleted \<Rightarrow> ''was deleted''
                  | PermissionChanged \<Rightarrow> ''had its permissions or owner changed''
                  | Renamed \<Rightarrow> ''was renamed'');
          summary = attribute_summary a
      in ''File '' @ path_text (al_path a) @ '' '' @ what
        @ (if summary \<noteq> [] \<and> summary \<noteq> ''content'' then '' ('' @ summary @ '')'' else [])
        @ ''.''
        @ (case al_actor a of
             None \<Rightarrow> []
           | Some actor \<Rightarrow> '' '' @ (if fa_exact actor then ''By'' else ''Probably by'') @ '' '' @ actor_label actor @ ''.'')
        @ (case al_detection a of
             Realtime \<Rightarrow> []
           | Startup \<Rightarrow> '' Found at start: the change was made while the agent was not running.''
           | Rescan \<Rightarrow> '' Found by a full scan: the operating system did not report the change.''))"

section \<open>Exclusions\<close>

definition SELF_EXCLUSION_PATTERNS :: "string list" where
  "SELF_EXCLUSION_PATTERNS =
     [''sentinel/**'', ''sentinel-grc/**'', ''SentinelGRC/**'', ''SentinelAgent.app/**'',
      ''com.sentinel-grc.Sentinel/**'', ''sentinel-logs/**'', ''SentinelAgent/**'',
      ''com.CyberThreatConsulting.SentinelAgent/**'', ''var/log/sentinel-agent.log'',
      ''var/log/sentinel-agent.err'', ''var/log/sentinel-agent-helper.log'']"

text \<open>Append what is not there yet.\<close>

definition add_missing :: "string list \<Rightarrow> string list \<Rightarrow> string list" where
  "add_missing patterns = fold (\<lambda>p ps. if p \<in> set ps then ps else ps @ [p]) patterns"

definition with_self_exclusions :: "fim_policy \<Rightarrow> fim_policy" where
  "with_self_exclusions policy =
     policy\<lparr>fp_ignore_patterns := add_missing SELF_EXCLUSION_PATTERNS (fp_ignore_patterns policy)\<rparr>"

definition DEFAULT_RESCAN_INTERVAL_SECS :: u64 where "DEFAULT_RESCAN_INTERVAL_SECS = 6 * 60 * 60"

text \<open>The watched paths of macOS and Linux.\<close>

definition default_watched_paths :: "bool \<Rightarrow> fpath list" where
  "default_watched_paths macos =
     map name_parts
       (if macos
        then [''/etc'', ''/Library/LaunchDaemons'', ''/Library/LaunchAgents'', ''/Library/StartupItems'',
              ''/Library/PrivilegedHelperTools'', ''/Library/Security/SecurityAgentPlugins'', ''/usr/local/bin'']
        else [''/etc'', ''/usr/bin'', ''/usr/sbin'', ''/bin'', ''/sbin'', ''/boot'', ''/usr/local/bin'',
              ''/usr/local/sbin'', ''/usr/lib/systemd/system'', ''/lib/systemd/system''])"

definition default_policy :: "bool \<Rightarrow> fim_policy" where
  "default_policy macos =
     with_self_exclusions
       \<lparr>fp_watched_paths = default_watched_paths macos,
        fp_ignore_patterns =
          [''*.log'', ''*.tmp'', ''*.swp'', ''.git/**'', ''passwd.lock'', ''shadow.lock'', ''group.lock'',
           ''gshadow.lock'', ''subuid.lock'', ''subgid.lock'', ''systemprofile/AppData/**''],
        fp_recursive = True, fp_debounce_ms = 500, fp_rescan_interval_secs = DEFAULT_RESCAN_INTERVAL_SECS\<rparr>"

definition build_policy :: "bool \<Rightarrow> fpath list option \<Rightarrow> string list option \<Rightarrow> fim_policy" where
  "build_policy macos custom_watched_paths custom_ignore_patterns =
     (let defaults = default_policy macos
      in with_self_exclusions
        \<lparr>fp_watched_paths =
           (case custom_watched_paths of
              Some paths \<Rightarrow> if paths \<noteq> [] then paths else default_watched_paths macos
            | None \<Rightarrow> default_watched_paths macos),
         fp_ignore_patterns =
           (case custom_ignore_patterns of
              None \<Rightarrow> fp_ignore_patterns defaults
            | Some patterns \<Rightarrow> add_missing patterns (fp_ignore_patterns defaults)),
         fp_recursive = True, fp_debounce_ms = 500,
         fp_rescan_interval_secs = fp_rescan_interval_secs defaults\<rparr>)"

text \<open>The runs of \<open>n\<close> consecutive elements, \<open>slice::windows\<close>.\<close>

definition windows :: "nat \<Rightarrow> 'a list \<Rightarrow> 'a list list" where
  "windows n xs = map (\<lambda>i. take n (drop i xs)) [0..<Suc (length xs) - n]"

definition has_component_run :: "string list \<Rightarrow> string \<Rightarrow> bool \<Rightarrow> bool" where
  "has_component_run components wanted needs_child =
     (let wanted' = name_parts wanted
      in if wanted' = [] then False
         else let searchable = (if needs_child then butlast components else components)
              in list_ex (\<lambda>run. run = wanted') (windows (length wanted') searchable))"

text \<open>\<open>lower\<close> is \<open>str::to_lowercase\<close>; backslashes become slashes.\<close>

definition norm_text :: "(string \<Rightarrow> string) \<Rightarrow> string \<Rightarrow> string" where
  "norm_text lower s = map (\<lambda>c. if c = CHR 0x5C then CHR ''/'' else c) (lower s)"

definition pattern_matches :: "string \<Rightarrow> string list \<Rightarrow> bool \<Rightarrow> string \<Rightarrow> bool" where
  "pattern_matches path_norm components is_dir pattern_norm =
     (if prefix ''*'' pattern_norm then suffix (drop 1 pattern_norm) path_norm
      else if suffix ''/**'' pattern_norm
      then has_component_run components (take (length pattern_norm - 3) pattern_norm) (\<not> is_dir)
      else has_component_run components pattern_norm False)"

definition matches_ignore_pattern :: "(string \<Rightarrow> string) \<Rightarrow> fpath \<Rightarrow> string list \<Rightarrow> bool \<Rightarrow> bool" where
  "matches_ignore_pattern lower path patterns is_dir =
     (let path_norm = norm_text lower (path_text path)
      in list_ex (\<lambda>pattern. pattern_matches path_norm (name_parts path_norm) is_dir (norm_text lower pattern)) patterns)"

definition is_ignored_path :: "(string \<Rightarrow> string) \<Rightarrow> fpath \<Rightarrow> string list \<Rightarrow> bool" where
  "is_ignored_path lower path patterns = matches_ignore_pattern lower path patterns False"

definition is_ignored_dir :: "(string \<Rightarrow> string) \<Rightarrow> fpath \<Rightarrow> string list \<Rightarrow> bool" where
  "is_ignored_dir lower dir patterns = matches_ignore_pattern lower dir patterns True"

section \<open>Facts\<close>

lemma add_missing_set [simp]: "set (add_missing ps qs) = set ps \<union> set qs"
  unfolding add_missing_def by (induction ps arbitrary: qs) auto

lemma add_missing_prefix: "\<exists>more. add_missing ps qs = qs @ more"
proof (induction ps arbitrary: qs)
  case (Cons p ps)
  from Cons [of "if p \<in> set qs then qs else qs @ [p]"] show ?case by (auto simp: add_missing_def split: if_splits)
qed (simp add: add_missing_def)

lemma add_missing_distinct: "distinct qs \<Longrightarrow> distinct (add_missing ps qs)"
  unfolding add_missing_def by (induction ps arbitrary: qs) auto

lemma windows_iff:
  assumes "w \<noteq> []"
  shows "w \<in> set (windows (length w) xs) \<longleftrightarrow> (\<exists>a b. xs = a @ w @ b)"
proof
  assume "w \<in> set (windows (length w) xs)"
  then obtain i where "w = take (length w) (drop i xs)" by (auto simp: windows_def)
  then have "xs = take i xs @ w @ drop (length w) (drop i xs)" by (metis append_take_drop_id)
  then show "\<exists>a b. xs = a @ w @ b" by blast
next
  assume "\<exists>a b. xs = a @ w @ b"
  then obtain a b where xs: "xs = a @ w @ b" by blast
  then have "take (length w) (drop (length a) xs) = w" and "length a < Suc (length xs) - length w" using assms by auto
  then show "w \<in> set (windows (length w) xs)"
    unfolding windows_def set_map by (intro image_eqI [of _ _ "length a"]) auto
qed

lemma has_component_run_iff:
  "has_component_run components wanted needs_child \<longleftrightarrow>
     name_parts wanted \<noteq> [] \<and>
     (\<exists>a b. components = a @ name_parts wanted @ b \<and> (needs_child \<longrightarrow> b \<noteq> []))"
proof (cases "name_parts wanted = []")
  case False
  have *: "(\<exists>a b. butlast components = a @ w @ b) \<longleftrightarrow> (\<exists>a b. components = a @ w @ b \<and> b \<noteq> [])"
    if "w \<noteq> []" for w :: "string list"
  proof (cases components rule: rev_cases)
    case (snoc xs x)
    show ?thesis
    proof
      assume "\<exists>a b. butlast components = a @ w @ b"
      with snoc obtain a b where "xs = a @ w @ b" by auto
      then have "components = a @ w @ (b @ [x])" using snoc by simp
      then show "\<exists>a b. components = a @ w @ b \<and> b \<noteq> []" by blast
    next
      assume "\<exists>a b. components = a @ w @ b \<and> b \<noteq> []"
      then obtain a b where ab: "components = a @ w @ b" "b \<noteq> []" by blast
      then obtain b' y where "b = b' @ [y]" by (metis rev_exhaust)
      with ab(1) snoc have "butlast components = a @ w @ b'" by (simp add: butlast_append)
      then show "\<exists>a b. butlast components = a @ w @ b" by blast
    qed
  qed (use that in auto)
  from False show ?thesis
    by (simp add: has_component_run_def Let_def list_ex_iff windows_iff * cong: conj_cong)
qed (simp add: has_component_run_def)

end
