(* ===== verification/Fim_Baseline.thy ===== *)
theory Fim_Baseline imports Fim_Types Fim_Diff "HOL-Library.List_Lexorder" "HOL-Library.Char_ord" begin

text \<open>
  The baseline of the watched files and what differs from it (\<open>BaselineManager\<close> of
  \<open>crates/agent-fim/src/baseline.rs\<close>), with the copies of small texts (\<open>ContentStore\<close> of
  \<open>crates/agent-fim/src/content.rs\<close>).

  The file system is one state that does not change while it is read: what the calls of the standard library
  return on it are the fields of \<open>fim_env\<close>, as are the two hash functions and the directory walker
  (the \<open>walkdir\<close> crate), which yields the entries below a root down to a depth, leaving out what
  its filter refuses. The model is the one of a Unix system.
\<close>

section \<open>What the file system says\<close>

datatype io_error = NotFound | NotADirectory | PermissionDenied | OtherError

record fs_metadata =
  md_is_file :: bool
  md_mode :: "32 word"
  md_len :: u64
  md_modified :: "int option"
  md_uid :: u32
  md_gid :: u32

text \<open>\<open>fe_walk root depth keep\<close>: the entries, each with whether it is a regular file; \<open>keep\<close> is given a path
  and whether it is a directory. \<open>fe_store_writable\<close>: whether copies can be written and removed.\<close>

record fim_env =
  fe_lower :: "string \<Rightarrow> string"
  fe_symlink_metadata :: "fpath \<Rightarrow> io_error + fs_metadata"
  fe_metadata :: "fpath \<Rightarrow> io_error + fs_metadata"
  fe_read :: "fpath \<Rightarrow> io_error + string"
  fe_canonicalize :: "fpath \<Rightarrow> fpath option"
  fe_walk :: "fpath \<Rightarrow> nat \<Rightarrow> (fpath \<Rightarrow> bool \<Rightarrow> bool) \<Rightarrow> (fpath \<times> bool) list"
  fe_is_dir :: "fpath \<Rightarrow> bool"
  fe_blake3 :: "string \<Rightarrow> string"
  fe_sha256 :: "string \<Rightarrow> string"
  fe_utf8 :: "string \<Rightarrow> bool"
  fe_store_writable :: bool
  fe_now :: int

definition MAX_SCAN_DEPTH :: nat where "MAX_SCAN_DEPTH = 32"
definition MAX_BASELINE_FILES :: nat where "MAX_BASELINE_FILES = 100000"
definition STREAMING_THRESHOLD :: u64 where "STREAMING_THRESHOLD = 64 * 1024 * 1024"

section \<open>Copies of small texts\<close>

definition MAX_FILE_BYTES :: u64 where "MAX_FILE_BYTES = 256 * 1024"
definition MAX_STORE_BYTES :: u64 where "MAX_STORE_BYTES = 256 * 1024 * 1024"

text \<open>The copies by the name of their file in the store, and the bytes they take as far as this run knows.\<close>

record content_store =
  cs_copies :: "(string \<times> string) list"
  cs_used :: u64

definition new_store :: "(string \<times> string) list \<Rightarrow> content_store" where
  "new_store copies = \<lparr>cs_copies = copies, cs_used = sum_list (map (length \<circ> snd) copies)\<rparr>"

definition text_to_keep :: "fim_env \<Rightarrow> fs_metadata \<Rightarrow> string \<Rightarrow> string option" where
  "text_to_keep env md content =
     (if MAX_FILE_BYTES < length content \<or> CHR 0x00 \<in> set content then None
      else if md_mode md AND 4 = 0 then None
      else if fe_utf8 env content then Some content else None)"

definition slot :: "fim_env \<Rightarrow> fpath \<Rightarrow> string" where
  "slot env path = fe_blake3 env (path_text path)"

definition previous :: "fim_env \<Rightarrow> fpath \<Rightarrow> content_store \<Rightarrow> string option" where
  "previous env path st = map_of (cs_copies st) (slot env path)"

definition holds :: "fim_env \<Rightarrow> fpath \<Rightarrow> content_store \<Rightarrow> bool" where
  "holds env path st \<longleftrightarrow> map_of (cs_copies st) (slot env path) \<noteq> None"

definition forget :: "fim_env \<Rightarrow> fpath \<Rightarrow> content_store \<Rightarrow> content_store" where
  "forget env path st =
     (case map_of (cs_copies st) (slot env path) of
        None \<Rightarrow> st
      | Some copy \<Rightarrow>
          if fe_store_writable env
          then st\<lparr>cs_copies := AList.delete (slot env path) (cs_copies st), cs_used := cs_used st - length copy\<rparr>
          else st)"

definition remember :: "fim_env \<Rightarrow> fpath \<Rightarrow> string \<Rightarrow> content_store \<Rightarrow> content_store" where
  "remember env path txt st =
     (let before = (case map_of (cs_copies st) (slot env path) of None \<Rightarrow> 0 | Some copy \<Rightarrow> length copy);
          used = cs_used st - before
      in if MAX_STORE_BYTES < used + length txt then forget env path st
         else if fe_store_writable env
         then st\<lparr>cs_copies := AList.update (slot env path) txt (cs_copies st), cs_used := used + length txt\<rparr>
         else st)"

section \<open>Reading a file\<close>

definition baseline_with_text ::
  "fim_env \<Rightarrow> fpath \<Rightarrow> fs_metadata \<Rightarrow> bool \<Rightarrow> io_error + fim_baseline \<times> string option" where
  "baseline_with_text env path md keep_text =
     (let entry = (\<lambda>hash. \<lparr>fb_path = path, fb_hash = hash, fb_permissions = md_mode md, fb_size = md_len md,
                           fb_modified_at = unwrap_or (md_modified md) (fe_now env), fb_captured_at = fe_now env,
                           fb_uid = Some (md_uid md), fb_gid = Some (md_gid md)\<rparr>)
      in case fe_read env path of
           Inr contents \<Rightarrow>
             Inr (entry (fe_blake3 env contents),
                  if STREAMING_THRESHOLD < md_len md \<or> \<not> keep_text then None else text_to_keep env md contents)
         | Inl PermissionDenied \<Rightarrow> Inr (entry [], None)
         | Inl e \<Rightarrow> Inl e)"

definition compute_file_baseline :: "fim_env \<Rightarrow> fpath \<Rightarrow> io_error + fim_baseline" where
  "compute_file_baseline env path =
     (case fe_metadata env path of
        Inl e \<Rightarrow> Inl e
      | Inr md \<Rightarrow> map_sum id fst (baseline_with_text env path md False))"

definition compute_sha256_proof :: "fim_env \<Rightarrow> fpath \<Rightarrow> io_error + string" where
  "compute_sha256_proof env path = map_sum id (fe_sha256 env) (fe_read env path)"

datatype file_state = Present fim_baseline "string option" | Missing | Unreadable

definition read_state :: "fim_env \<Rightarrow> fpath \<Rightarrow> bool \<Rightarrow> file_state" where
  "read_state env path keep_text =
     (case fe_symlink_metadata env path of
        Inr md \<Rightarrow>
          if \<not> md_is_file md then Missing
          else (case baseline_with_text env path md keep_text of
                  Inr (baseline, txt) \<Rightarrow> Present baseline txt
                | Inl _ \<Rightarrow> Unreadable)
      | Inl NotFound \<Rightarrow> Missing
      | Inl NotADirectory \<Rightarrow> Missing
      | Inl _ \<Rightarrow> Unreadable)"

definition entry_path :: "fim_env \<Rightarrow> fpath \<Rightarrow> fpath" where
  "entry_path env path =
     (if path = [] then path
      else case fe_canonicalize env (butlast path) of
             Some parent \<Rightarrow> parent @ [last path]
           | None \<Rightarrow> path)"

definition baseline_path :: "fim_env \<Rightarrow> fpath \<Rightarrow> fpath" where
  "baseline_path env path =
     (case fe_canonicalize env path of
        Some p \<Rightarrow> p
      | None \<Rightarrow> entry_path env path)"

section \<open>Comparing\<close>

definition changed_attributes :: "fim_baseline \<Rightarrow> fim_baseline \<Rightarrow> fim_attribute list" where
  "changed_attributes old new =
     (let content = (if fb_hash old = [] \<or> fb_hash new = []
                     then fb_size old \<noteq> fb_size new \<or> fb_modified_at old \<noteq> fb_modified_at new
                     else fb_hash old \<noteq> fb_hash new);
          differ = (\<lambda>a b. case (a, b) of (Some x, Some y) \<Rightarrow> x \<noteq> y | _ \<Rightarrow> False)
      in (if content then [Content] else []) @
         (if fb_permissions old \<noteq> fb_permissions new then [Permissions] else []) @
         (if differ (fb_uid old) (fb_uid new) then [Owner] else []) @
         (if differ (fb_gid old) (fb_gid new) then [Group] else []))"

datatype observation =
    Unchanged
  | ObsCreated fim_baseline
  | ObsDeleted fim_baseline
  | ObsChanged fim_baseline fim_baseline "fim_attribute list" "string option"

definition is_change :: "observation \<Rightarrow> bool" where
  "is_change obs \<longleftrightarrow> obs \<noteq> Unchanged"

definition known_hash :: "string \<Rightarrow> string option" where
  "known_hash hash = (if hash = [] then None else Some hash)"

definition owner_of :: "fim_baseline \<Rightarrow> fim_owner option" where
  "owner_of entry =
     (case (fb_uid entry, fb_gid entry) of
        (Some uid, Some gid) \<Rightarrow> Some \<lparr>fo_uid = uid, fo_gid = gid\<rparr>
      | _ \<Rightarrow> None)"

definition into_alert :: "fim_env \<Rightarrow> fim_detection \<Rightarrow> observation \<Rightarrow> fim_alert option" where
  "into_alert env detection obs =
     (let sha256 = (\<lambda>path. case compute_sha256_proof env path of Inr h \<Rightarrow> Some h | Inl _ \<Rightarrow> None)
      in case obs of
           Unchanged \<Rightarrow> None
         | ObsCreated new \<Rightarrow>
             Some ((new_alert (fb_path new) Created detection (fe_now env))
               \<lparr>al_new_sha256 := sha256 (fb_path new), al_new_hash := known_hash (fb_hash new),
                al_new_size := Some (fb_size new)\<rparr>)
         | ObsDeleted old \<Rightarrow>
             Some ((new_alert (fb_path old) Deleted detection (fe_now env))\<lparr>al_old_hash := known_hash (fb_hash old)\<rparr>)
         | ObsChanged old new attributes diff \<Rightarrow>
             (let content = (Content \<in> set attributes);
                  permissions = (Permissions \<in> set attributes);
                  ownership = (Owner \<in> set attributes \<or> Group \<in> set attributes)
              in Some ((new_alert (fb_path new) (if content then Modified else PermissionChanged) detection (fe_now env))
                   \<lparr>al_old_hash := known_hash (fb_hash old), al_new_hash := known_hash (fb_hash new),
                    al_new_size := Some (fb_size new),
                    al_new_sha256 := (if content then sha256 (fb_path new) else None),
                    al_old_permissions := (if permissions then Some (fb_permissions old) else None),
                    al_new_permissions := (if permissions then Some (fb_permissions new) else None),
                    al_old_owner := (if ownership then owner_of old else None),
                    al_new_owner := (if ownership then owner_of new else None),
                    al_changed_attributes := attributes, al_diff := diff\<rparr>)))"

section \<open>The manager\<close>

record manager =
  bm_baselines :: "(fpath \<times> fim_baseline) list"
  bm_dirty :: bool
  bm_content :: "content_store option"

definition new_manager :: manager where
  "new_manager = \<lparr>bm_baselines = [], bm_dirty = False, bm_content = None\<rparr>"

definition with_content_store :: "content_store \<Rightarrow> manager \<Rightarrow> manager" where
  "with_content_store st m = m\<lparr>bm_content := Some st\<rparr>"

definition baseline_count :: "manager \<Rightarrow> nat" where
  "baseline_count m = length (bm_baselines m)"

definition has_entry :: "fpath \<Rightarrow> manager \<Rightarrow> bool" where
  "has_entry path m \<longleftrightarrow> map_of (bm_baselines m) path \<noteq> None"

definition get_entry :: "fim_env \<Rightarrow> fpath \<Rightarrow> manager \<Rightarrow> fim_baseline option" where
  "get_entry env path m = map_of (bm_baselines m) (baseline_path env path)"

definition take_dirty :: "manager \<Rightarrow> bool \<times> manager" where
  "take_dirty m = (bm_dirty m, m\<lparr>bm_dirty := False\<rparr>)"

definition mark_dirty :: "manager \<Rightarrow> manager" where
  "mark_dirty m = m\<lparr>bm_dirty := True\<rparr>"

text \<open>The comparison of a state with the entry of its path: the observation and the entries.\<close>

definition compare_state ::
  "fpath \<Rightarrow> file_state \<Rightarrow> manager \<Rightarrow> observation \<times> manager" where
  "compare_state key state m =
     (let bs = bm_baselines m in
      case state of
        Unreadable \<Rightarrow> (Unchanged, m)
      | Missing \<Rightarrow>
          (case map_of bs key of
             Some old \<Rightarrow> (ObsDeleted old, m\<lparr>bm_baselines := AList.delete key bs\<rparr>)
           | None \<Rightarrow> (Unchanged, m))
      | Present new _ \<Rightarrow>
          (case map_of bs key of
             None \<Rightarrow>
               (ObsCreated new,
                if length bs < MAX_BASELINE_FILES then m\<lparr>bm_baselines := AList.update key new bs\<rparr> else m)
           | Some old \<Rightarrow>
               (let attributes = changed_attributes old new in
                if attributes = []
                then (Unchanged,
                      if fb_modified_at old \<noteq> fb_modified_at new
                      then m\<lparr>bm_baselines := AList.update key new bs, bm_dirty := True\<rparr> else m)
                else (ObsChanged old new attributes None, m\<lparr>bm_baselines := AList.update key new bs\<rparr>))))"

text \<open>The copy of the file follows, and says which lines changed.\<close>

definition follow_content ::
  "fim_env \<Rightarrow> fpath \<Rightarrow> file_state \<Rightarrow> observation \<Rightarrow> content_store \<Rightarrow> observation \<times> content_store" where
  "follow_content env key state obs st =
     (let txt = (case state of Present _ t \<Rightarrow> t | _ \<Rightarrow> None) in
      case obs of
        ObsDeleted old \<Rightarrow> (obs, forget env key st)
      | ObsChanged old new attributes diff \<Rightarrow>
          ((if Content \<in> set attributes
            then (case (previous env key st, txt) of
                    (Some before, Some after) \<Rightarrow> ObsChanged old new attributes (diff_lines before after)
                  | _ \<Rightarrow> obs)
            else obs),
           (case txt of Some t \<Rightarrow> remember env key t st | None \<Rightarrow> forget env key st))
      | ObsCreated new \<Rightarrow> (obs, (case txt of Some t \<Rightarrow> remember env key t st | None \<Rightarrow> st))
      | Unchanged \<Rightarrow>
          (obs, (case txt of Some t \<Rightarrow> if holds env key st then st else remember env key t st | None \<Rightarrow> st)))"

definition observe_key :: "fim_env \<Rightarrow> fpath \<Rightarrow> manager \<Rightarrow> observation \<times> manager" where
  "observe_key env key m =
     (let state = read_state env key (bm_content m \<noteq> None) in
      case compare_state key state m of
        (obs, m1) \<Rightarrow>
          (case bm_content m1 of
             None \<Rightarrow> (obs, if is_change obs then mark_dirty m1 else m1)
           | Some st \<Rightarrow>
               (case follow_content env key state obs st of
                  (obs', st') \<Rightarrow>
                    (let m2 = m1\<lparr>bm_content := Some st'\<rparr>
                     in (obs', if is_change obs' then mark_dirty m2 else m2)))))"

definition observe :: "fim_env \<Rightarrow> fpath \<Rightarrow> manager \<Rightarrow> observation \<times> manager" where
  "observe env path m = observe_key env (entry_path env path) m"

section \<open>Full scans\<close>

record scan_report =
  sr_changes :: "observation list"
  sr_files :: nat
  sr_truncated :: bool

definition empty_report :: scan_report where
  "empty_report = \<lparr>sr_changes = [], sr_files = 0, sr_truncated = False\<rparr>"

text \<open>What the walk and the scan thread: the paths met, the report, the manager.\<close>

type_synonym scan_state = "fpath list \<times> scan_report \<times> manager"

definition walk_filter :: "fim_env \<Rightarrow> string list \<Rightarrow> fpath \<Rightarrow> bool \<Rightarrow> bool" where
  "walk_filter env patterns path is_dir \<longleftrightarrow>
     (if is_dir then \<not> is_ignored_dir (fe_lower env) path patterns
      else \<not> is_ignored_path (fe_lower env) path patterns)"

definition note_change :: "observation \<Rightarrow> scan_report \<Rightarrow> scan_report" where
  "note_change obs rep = (if is_change obs then rep\<lparr>sr_changes := sr_changes rep @ [obs]\<rparr> else rep)"

definition walk_entry :: "fim_env \<Rightarrow> fpath \<times> bool \<Rightarrow> scan_state \<Rightarrow> scan_state" where
  "walk_entry env entry s =
     (case (entry, s) of
        ((path, is_file), (visited, rep, m)) \<Rightarrow>
          if \<not> is_file \<or> path \<in> set visited then s
          else if MAX_BASELINE_FILES \<le> baseline_count m \<and> map_of (bm_baselines m) path = None
          then (path # visited, rep\<lparr>sr_truncated := True\<rparr>, m)
          else (case observe_key env path m of
                  (obs, m') \<Rightarrow> (path # visited, note_change obs (rep\<lparr>sr_files := sr_files rep + 1\<rparr>), m')))"

definition walk :: "fim_env \<Rightarrow> string list \<Rightarrow> nat \<Rightarrow> fpath \<Rightarrow> scan_state \<Rightarrow> scan_state" where
  "walk env patterns depth root s = fold (walk_entry env) (fe_walk env root depth (walk_filter env patterns)) s"

definition scope :: "fim_env \<Rightarrow> fpath list \<Rightarrow> fpath list" where
  "scope env roots = map (\<lambda>root. unwrap_or (fe_canonicalize env root) root) roots"

definition create_baseline :: "fim_env \<Rightarrow> fpath \<Rightarrow> string list \<Rightarrow> manager \<Rightarrow> nat \<times> manager" where
  "create_baseline env root patterns m =
     (case walk env patterns MAX_SCAN_DEPTH (unwrap_or (fe_canonicalize env root) root) ([], empty_report, m) of
        (_, rep, m') \<Rightarrow> (sr_files rep, m'))"

text \<open>An entry the walk did not meet: dropped when nothing covers it any more, read otherwise.\<close>

definition unvisited_entry ::
  "fim_env \<Rightarrow> fpath list \<Rightarrow> string list \<Rightarrow> fpath \<Rightarrow> scan_report \<times> manager \<Rightarrow> scan_report \<times> manager" where
  "unvisited_entry env roots patterns path s =
     (case s of
        (rep, m) \<Rightarrow>
          if \<not> list_ex (\<lambda>root. prefix root path) roots \<or> is_ignored_path (fe_lower env) path patterns
          then (rep, if has_entry path m
                     then m\<lparr>bm_baselines := AList.delete path (bm_baselines m), bm_dirty := True\<rparr> else m)
          else (case observe_key env path m of (obs, m') \<Rightarrow> (note_change obs rep, m')))"

definition scan :: "fim_env \<Rightarrow> fpath list \<Rightarrow> string list \<Rightarrow> bool \<Rightarrow> manager \<Rightarrow> scan_report \<times> manager" where
  "scan env roots patterns recursive m =
     (let scope_roots = scope env roots;
          depth = (if recursive then MAX_SCAN_DEPTH else 1)
      in case fold (walk env patterns depth) scope_roots ([], empty_report, m) of
           (visited, rep, m1) \<Rightarrow>
             fold (unvisited_entry env scope_roots patterns)
               (filter (\<lambda>path. path \<notin> set visited) (map fst (bm_baselines m1))) (rep, m1))"

section \<open>The other operations\<close>

definition restore :: "fim_baseline list \<Rightarrow> manager \<Rightarrow> manager" where
  "restore entries m =
     m\<lparr>bm_baselines := fold (\<lambda>e bs. AList.update (fb_path e) e bs) (take MAX_BASELINE_FILES entries) []\<rparr>"

definition entries :: "manager \<Rightarrow> fim_baseline list" where
  "entries m = sort_key fb_path (map snd (bm_baselines m))"

text \<open>\<^const>\<open>None\<close> is an error of the file system.\<close>

definition update_entry :: "fim_env \<Rightarrow> fpath \<Rightarrow> manager \<Rightarrow> fim_baseline option option \<times> manager" where
  "update_entry env path m =
     (case fe_canonicalize env path of
        None \<Rightarrow> (None, m)
      | Some p \<Rightarrow>
          (case compute_file_baseline env p of
             Inl _ \<Rightarrow> (None, m)
           | Inr new \<Rightarrow>
               (Some (map_of (bm_baselines m) p),
                m\<lparr>bm_baselines := AList.update p new (bm_baselines m), bm_dirty := True\<rparr>)))"

definition remove_entry :: "fim_env \<Rightarrow> fpath \<Rightarrow> manager \<Rightarrow> fim_baseline option \<times> manager" where
  "remove_entry env path m =
     (let p = baseline_path env path in
      case map_of (bm_baselines m) p of
        None \<Rightarrow> (None, m)
      | Some old \<Rightarrow> (Some old, m\<lparr>bm_baselines := AList.delete p (bm_baselines m), bm_dirty := True\<rparr>))"

end
