(* ===== verification/Fim_Baseline_Props.thy ===== *)
theory Fim_Baseline_Props imports Fim_Baseline begin

text \<open>
  What a reading of a file and a full scan find: exactly the differences between the baseline and the
  disk, each once, and the baseline they leave behind is the disk.
\<close>

section \<open>The difference of one path\<close>

text \<open>What differs between the entry of a path and the disk, and the entry that reading it leaves.\<close>

definition difference :: "fim_env \<Rightarrow> fpath \<Rightarrow> fim_baseline option \<Rightarrow> observation" where
  "difference env p e =
     (case read_state env p False of
        Unreadable \<Rightarrow> Unchanged
      | Missing \<Rightarrow> (case e of Some old \<Rightarrow> ObsDeleted old | None \<Rightarrow> Unchanged)
      | Present new _ \<Rightarrow>
          (case e of
             None \<Rightarrow> ObsCreated new
           | Some old \<Rightarrow>
               if changed_attributes old new = [] then Unchanged
               else ObsChanged old new (changed_attributes old new) None))"

definition entry_after :: "fim_env \<Rightarrow> fpath \<Rightarrow> fim_baseline option \<Rightarrow> fim_baseline option" where
  "entry_after env p e =
     (case read_state env p False of
        Unreadable \<Rightarrow> e
      | Missing \<Rightarrow> None
      | Present new _ \<Rightarrow>
          (case e of
             None \<Rightarrow> Some new
           | Some old \<Rightarrow>
               if changed_attributes old new = [] \<and> fb_modified_at old = fb_modified_at new then Some old
               else Some new))"

fun strip_diff :: "observation \<Rightarrow> observation" where
  "strip_diff (ObsChanged old new attributes diff) = ObsChanged old new attributes None"
| "strip_diff obs = obs"

definition bm_ok :: "manager \<Rightarrow> bool" where
  "bm_ok m \<longleftrightarrow>
     hm_wf (bm_baselines m) \<and> length (bm_baselines m) \<le> MAX_BASELINE_FILES \<and>
     (\<forall>p e. map_of (bm_baselines m) p = Some e \<longrightarrow> fb_path e = p)"

lemma read_state_text:
  "read_state env p b =
     (case read_state env p False of
        Present new _ \<Rightarrow> Present new (case read_state env p b of Present _ t \<Rightarrow> t | _ \<Rightarrow> None)
      | s \<Rightarrow> s)"
  by (auto simp: read_state_def baseline_with_text_def Let_def split: sum.splits io_error.splits)

lemma read_state_path: "read_state env p b = Present new t \<Longrightarrow> fb_path new = p"
  by (auto simp: read_state_def baseline_with_text_def Let_def split: sum.splits io_error.splits if_splits)

lemma changed_attributes_refl [simp]: "changed_attributes e e = []"
  by (simp add: changed_attributes_def split: option.splits)

lemma difference_after: "difference env p (entry_after env p e) = Unchanged"
  by (auto simp: difference_def entry_after_def split: file_state.splits option.splits)

lemma difference_is_change: "is_change (strip_diff obs) \<longleftrightarrow> is_change obs"
  by (cases obs) (auto simp: is_change_def)

section \<open>Reading one path\<close>

lemma compare_state_difference:
  "fst (compare_state p (read_state env p b) m) = difference env p (map_of (bm_baselines m) p)"
  using read_state_text [of env p b]
  by (auto simp: compare_state_def difference_def Let_def split: file_state.splits option.splits)

lemma compare_state_after:
  assumes "map_of (bm_baselines m) p \<noteq> None \<or> length (bm_baselines m) < MAX_BASELINE_FILES" and "hm_wf (bm_baselines m)"
  shows "map_of (bm_baselines (snd (compare_state p (read_state env p b) m))) =
    (map_of (bm_baselines m))(p := entry_after env p (map_of (bm_baselines m) p))"
  using read_state_text [of env p b] assms
  by (auto simp: compare_state_def entry_after_def Let_def update_conv' delete_conv' fun_upd_idem
      split: file_state.splits option.splits)

lemma compare_state_ok:
  assumes "bm_ok m"
  shows "bm_ok (snd (compare_state p (read_state env p b) m))"
proof -
  have "fb_path new = p" if "read_state env p b = Present new t" for new t using that by (rule read_state_path)
  moreover have "length (AList.update p new (bm_baselines m)) \<le> MAX_BASELINE_FILES"
    if "map_of (bm_baselines m) p \<noteq> None \<or> length (bm_baselines m) < MAX_BASELINE_FILES" for new
    using that assms by (auto simp: length_update bm_ok_def map_of_eq_None_iff)
  ultimately show ?thesis using assms order_trans [OF length_delete_le]
    by (auto simp: compare_state_def bm_ok_def Let_def update_conv delete_conv
        split: file_state.splits option.splits if_splits)
qed

lemma compare_state_content [simp]: "bm_content (snd (compare_state p s m)) = bm_content m"
  by (auto simp: compare_state_def Let_def split: file_state.splits option.splits)

lemma follow_content_strip: "strip_diff (fst (follow_content env p s obs st)) = strip_diff obs"
  by (cases obs) (auto simp: follow_content_def Let_def split: option.splits)

lemma strip_difference [simp]: "strip_diff (difference env p e) = difference env p e"
  by (auto simp: difference_def split: file_state.splits option.splits)

lemma observe_key_facts:
  assumes "observe_key env p m = (obs, m')"
  shows "strip_diff obs = difference env p (map_of (bm_baselines m) p)"
    and "\<exists>b. bm_baselines m' = bm_baselines (snd (compare_state p (read_state env p b) m))"
    and "bm_dirty m' \<longleftrightarrow> is_change obs \<or> bm_dirty (snd (compare_state p (read_state env p (bm_content m \<noteq> None)) m))"
proof -
  let ?s = "read_state env p (bm_content m \<noteq> None)"
  obtain obs1 m1 where c: "compare_state p ?s m = (obs1, m1)" by (cases "compare_state p ?s m")
  have d: "obs1 = difference env p (map_of (bm_baselines m) p)"
    using compare_state_difference [of p env "bm_content m \<noteq> None" m] c by simp
  note o = assms [unfolded observe_key_def Let_def c prod.case]
  show "strip_diff obs = difference env p (map_of (bm_baselines m) p)"
    using o follow_content_strip [of env p ?s obs1] d by (auto simp: Let_def split: option.splits prod.splits) (metis fst_conv)+
  show "\<exists>b. bm_baselines m' = bm_baselines (snd (compare_state p (read_state env p b) m))"
    using o c by (intro exI [of _ "bm_content m \<noteq> None"])
      (auto simp: mark_dirty_def Let_def split: option.splits prod.splits if_splits)
  show "bm_dirty m' \<longleftrightarrow> is_change obs \<or> bm_dirty (snd (compare_state p ?s m))"
    using o c by (auto simp: mark_dirty_def Let_def split: option.splits prod.splits if_splits)
qed

lemma observe_key_ok: "bm_ok m \<Longrightarrow> bm_ok (snd (observe_key env p m))"
  using observe_key_facts(2) [of env p m] compare_state_ok [of m p env]
  by (cases "observe_key env p m") (fastforce simp: bm_ok_def)

lemma observe_key_map:
  assumes "observe_key env p m = (obs, m')" and "bm_ok m"
    and "map_of (bm_baselines m) p \<noteq> None \<or> length (bm_baselines m) < MAX_BASELINE_FILES"
  shows "map_of (bm_baselines m') = (map_of (bm_baselines m))(p := entry_after env p (map_of (bm_baselines m) p))"
  using observe_key_facts(2) [OF assms(1)] compare_state_after [OF assms(3)] assms(2) by (auto simp: bm_ok_def)

text \<open>An entry that changes marks the baseline for saving.\<close>

lemma observe_key_dirty:
  assumes "observe_key env p m = (obs, m')" and "bm_baselines m' \<noteq> bm_baselines m"
  shows "bm_dirty m'"
proof -
  let ?s = "read_state env p (bm_content m \<noteq> None)"
  have "bm_baselines m' = bm_baselines (snd (compare_state p ?s m))"
    using assms(1) by (auto simp: observe_key_def mark_dirty_def Let_def split: prod.splits option.splits if_splits)
  with assms(2) have "is_change (fst (compare_state p ?s m)) \<or> bm_dirty (snd (compare_state p ?s m))"
    by (auto simp: compare_state_def is_change_def Let_def split: file_state.splits option.splits if_splits)
  moreover have "is_change (fst (compare_state p ?s m)) \<longleftrightarrow> is_change obs"
    using observe_key_facts(1) [OF assms(1)] difference_is_change [of obs] by (simp add: compare_state_difference)
  ultimately show ?thesis using observe_key_facts(3) [OF assms(1)] by simp
qed

section \<open>A full scan\<close>

text \<open>What a scan has done when it has read the paths \<open>O'\<close> and dropped the entries \<open>D\<close>.\<close>

definition scan_inv ::
  "fim_env \<Rightarrow> manager \<Rightarrow> fpath set \<Rightarrow> fpath set \<Rightarrow> scan_report \<Rightarrow> manager \<Rightarrow> bool" where
  "scan_inv env m0 O' D rep m \<longleftrightarrow>
     bm_ok m \<and>
     (\<forall>p. map_of (bm_baselines m) p =
        (if p \<in> D then None
         else if p \<in> O' then entry_after env p (map_of (bm_baselines m0) p) else map_of (bm_baselines m0) p)) \<and>
     strip_diff ` set (sr_changes rep) =
       {difference env p (map_of (bm_baselines m0) p) | p. p \<in> O'} - {Unchanged}"

lemma scan_inv_report: "sr_changes rep = sr_changes rep' \<Longrightarrow> scan_inv env m0 O' D rep m = scan_inv env m0 O' D rep' m"
  by (simp add: scan_inv_def)

lemma observe_scan_inv:
  assumes i: "scan_inv env m0 O' D rep m" and new: "p \<notin> O'" "p \<notin> D"
    and room: "map_of (bm_baselines m) p \<noteq> None \<or> length (bm_baselines m) < MAX_BASELINE_FILES"
    and o: "observe_key env p m = (obs, m')"
  shows "scan_inv env m0 (insert p O') D (note_change obs rep) m'"
proof -
  from i new have e: "map_of (bm_baselines m) p = map_of (bm_baselines m0) p" and ok: "bm_ok m" by (auto simp: scan_inv_def)
  have "bm_ok m'" using observe_key_ok [OF ok, of env p] o by simp
  moreover have "map_of (bm_baselines m') q =
     (if q \<in> D then None else if q \<in> insert p O' then entry_after env q (map_of (bm_baselines m0) q)
      else map_of (bm_baselines m0) q)" for q
    using i new observe_key_map [OF o ok room] e by (auto simp: scan_inv_def)
  moreover have "strip_diff ` set (sr_changes (note_change obs rep)) =
      {difference env q (map_of (bm_baselines m0) q) | q. q \<in> insert p O'} - {Unchanged}"
  proof -
    have d: "strip_diff obs = difference env p (map_of (bm_baselines m0) p)"
      using observe_key_facts(1) [OF o] e by simp
    show ?thesis
    proof (cases "is_change obs")
      case True
      then have "strip_diff obs \<noteq> Unchanged" by (cases obs) (auto simp: is_change_def)
      with True d i show ?thesis by (auto simp: scan_inv_def note_change_def)
    next
      case False
      then have "strip_diff obs = Unchanged" by (simp add: is_change_def)
      with False d i show ?thesis by (auto simp: scan_inv_def note_change_def)
    qed
  qed
  ultimately show ?thesis by (simp add: scan_inv_def)
qed

lemma drop_scan_inv:
  assumes "scan_inv env m0 O' D rep m" and "p \<notin> O'"
  shows "scan_inv env m0 O' (insert p D) rep
    (if has_entry p m then m\<lparr>bm_baselines := AList.delete p (bm_baselines m), bm_dirty := True\<rparr> else m)"
  using assms order_trans [OF length_delete_le]
  by (auto simp: scan_inv_def bm_ok_def has_entry_def delete_conv')

text \<open>The walk: the paths it met but did not read had no entry, and then it says so.\<close>

definition walk_inv :: "fim_env \<Rightarrow> manager \<Rightarrow> scan_state \<Rightarrow> bool" where
  "walk_inv env m0 s \<longleftrightarrow>
     (case s of (visited, rep, m) \<Rightarrow>
        \<exists>O'. O' \<subseteq> set visited \<and> scan_inv env m0 O' {} rep m \<and>
          (\<forall>p\<in>set visited - O'. map_of (bm_baselines m0) p = None \<and> sr_truncated rep))"

lemma walk_entry_inv:
  assumes "walk_inv env m0 (visited, rep, m)"
  shows "walk_inv env m0 (walk_entry env (p, is_file) (visited, rep, m)) \<and>
    set (fst (walk_entry env (p, is_file) (visited, rep, m))) = set visited \<union> (if is_file then {p} else {})"
proof -
  from assms obtain O' where O': "O' \<subseteq> set visited" and i: "scan_inv env m0 O' {} rep m"
    and rest: "\<forall>p\<in>set visited - O'. map_of (bm_baselines m0) p = None \<and> sr_truncated rep"
    by (auto simp: walk_inv_def)
  consider (skip) "\<not> is_file \<or> p \<in> set visited"
    | (full) "is_file" "p \<notin> set visited" "MAX_BASELINE_FILES \<le> baseline_count m" "map_of (bm_baselines m) p = None"
    | (read) "is_file" "p \<notin> set visited" "map_of (bm_baselines m) p \<noteq> None \<or> length (bm_baselines m) < MAX_BASELINE_FILES"
    unfolding baseline_count_def using not_le by blast
  then show ?thesis
  proof cases
    case skip
    with assms show ?thesis by (auto simp: walk_entry_def)
  next
    case full
    from full(2) O' have "p \<notin> O'" by blast
    with full(4) i have "map_of (bm_baselines m0) p = None" by (auto simp: scan_inv_def)
    moreover have "scan_inv env m0 O' {} (rep\<lparr>sr_truncated := True\<rparr>) m" using i by (simp add: scan_inv_def)
    ultimately show ?thesis using full O' rest by (auto simp: walk_entry_def walk_inv_def intro!: exI [of _ O'])
  next
    case read
    obtain obs m' where o: "observe_key env p m = (obs, m')" by (cases "observe_key env p m")
    from read O' have "p \<notin> O'" by blast
    from observe_scan_inv [OF i this _ read(3) o]
    have "scan_inv env m0 (insert p O') {} (note_change obs rep) m'" by simp
    moreover have "sr_changes (note_change obs rep) = sr_changes (note_change obs (rep\<lparr>sr_files := sr_files rep + 1\<rparr>))"
      by (simp add: note_change_def)
    ultimately have "scan_inv env m0 (insert p O') {} (note_change obs (rep\<lparr>sr_files := sr_files rep + 1\<rparr>)) m'"
      using scan_inv_report by metis
    moreover have "sr_truncated (note_change obs (rep\<lparr>sr_files := sr_files rep + 1\<rparr>)) = sr_truncated rep"
      by (simp add: note_change_def)
    ultimately show ?thesis using read O' rest o
      by (auto simp: walk_entry_def walk_inv_def baseline_count_def intro!: exI [of _ "insert p O'"])
  qed
qed

lemma walk_entries_inv:
  assumes "walk_inv env m0 s"
  shows "walk_inv env m0 (fold (walk_entry env) es s) \<and>
    set (fst (fold (walk_entry env) es s)) = set (fst s) \<union> {p. (p, True) \<in> set es}"
  using assms
proof (induction es arbitrary: s)
  case (Cons e es)
  obtain p is_file where e: "e = (p, is_file)" by (cases e)
  obtain visited rep m where s: "s = (visited, rep, m)" by (cases s)
  from walk_entry_inv [of env m0 visited rep m p is_file] Cons.prems e s
  have "walk_inv env m0 (walk_entry env e s)"
    and "set (fst (walk_entry env e s)) = set (fst s) \<union> (if is_file then {p} else {})" by auto
  with Cons.IH [of "walk_entry env e s"] e show ?case by auto
qed simp

text \<open>The regular files the walks of the watched paths meet.\<close>

definition walked :: "fim_env \<Rightarrow> fpath list \<Rightarrow> string list \<Rightarrow> bool \<Rightarrow> fpath set" where
  "walked env roots patterns recursive =
     {p. \<exists>root\<in>set (scope env roots).
        (p, True) \<in> set (fe_walk env root (if recursive then MAX_SCAN_DEPTH else 1) (walk_filter env patterns))}"

lemma walks_inv:
  assumes "walk_inv env m0 s"
  shows "walk_inv env m0 (fold (walk env patterns depth) roots s) \<and>
    set (fst (fold (walk env patterns depth) roots s)) =
      set (fst s) \<union> {p. \<exists>root\<in>set roots. (p, True) \<in> set (fe_walk env root depth (walk_filter env patterns))}"
  using assms
proof (induction roots arbitrary: s)
  case (Cons root roots)
  from walk_entries_inv [OF Cons.prems, of "fe_walk env root depth (walk_filter env patterns)"]
    Cons.IH [of "walk env patterns depth root s"]
  show ?case by (auto simp: walk_def)
qed simp

text \<open>The entries a scan still answers for.\<close>

definition followed :: "fim_env \<Rightarrow> fpath list \<Rightarrow> string list \<Rightarrow> fpath \<Rightarrow> bool" where
  "followed env roots patterns p \<longleftrightarrow>
     list_ex (\<lambda>root. prefix root p) (scope env roots) \<and> \<not> is_ignored_path (fe_lower env) p patterns"

lemma unvisited_inv:
  assumes "scan_inv env m0 O' D rep m" and "distinct ks" and "set ks \<inter> (O' \<union> D) = {}"
    and "\<forall>p\<in>set ks. map_of (bm_baselines m0) p \<noteq> None"
  shows "\<exists>rep' m'. fold (unvisited_entry env (scope env roots) patterns) ks (rep, m) = (rep', m') \<and>
    sr_truncated rep' = sr_truncated rep \<and>
    scan_inv env m0 (O' \<union> {p\<in>set ks. followed env roots patterns p}) (D \<union> {p\<in>set ks. \<not> followed env roots patterns p})
      rep' m'"
  using assms
proof (induction ks arbitrary: O' D rep m)
  case (Cons k ks)
  from Cons.prems have k: "k \<notin> O'" "k \<notin> D" "map_of (bm_baselines m0) k \<noteq> None" and ks: "k \<notin> set ks" "distinct ks" by auto
  show ?case
  proof (cases "followed env roots patterns k")
    case True
    obtain obs m1 where o: "observe_key env k m = (obs, m1)" by (cases "observe_key env k m")
    from Cons.prems(1) k have "map_of (bm_baselines m) k \<noteq> None" by (auto simp: scan_inv_def)
    with observe_scan_inv [OF Cons.prems(1) k(1,2) _ o] have
      "scan_inv env m0 (insert k O') D (note_change obs rep) m1" by blast
    from Cons.IH [OF this ks(2)] Cons.prems(3,4) ks obtain rep' m' where
      f: "fold (unvisited_entry env (scope env roots) patterns) ks (note_change obs rep, m1) = (rep', m')"
      "sr_truncated rep' = sr_truncated (note_change obs rep)"
      "scan_inv env m0 (insert k O' \<union> {p\<in>set ks. followed env roots patterns p})
         (D \<union> {p\<in>set ks. \<not> followed env roots patterns p}) rep' m'" by auto
    have "insert k O' \<union> {p\<in>set ks. followed env roots patterns p} = O' \<union> {p\<in>set (k # ks). followed env roots patterns p}"
      and "D \<union> {p\<in>set ks. \<not> followed env roots patterns p} = D \<union> {p\<in>set (k # ks). \<not> followed env roots patterns p}"
      using True by auto
    moreover have "unvisited_entry env (scope env roots) patterns k (rep, m) = (note_change obs rep, m1)"
      using True o by (simp add: unvisited_entry_def followed_def)
    ultimately show ?thesis using f by (simp add: note_change_def split: if_splits)
  next
    case False
    let ?m1 = "if has_entry k m then m\<lparr>bm_baselines := AList.delete k (bm_baselines m), bm_dirty := True\<rparr> else m"
    from Cons.IH [OF drop_scan_inv [OF Cons.prems(1) k(1)] ks(2)] Cons.prems(3,4) ks obtain rep' m' where
      f: "fold (unvisited_entry env (scope env roots) patterns) ks (rep, ?m1) = (rep', m')"
      "sr_truncated rep' = sr_truncated rep"
      "scan_inv env m0 (O' \<union> {p\<in>set ks. followed env roots patterns p})
         (insert k D \<union> {p\<in>set ks. \<not> followed env roots patterns p}) rep' m'" by auto
    have "O' \<union> {p\<in>set ks. followed env roots patterns p} = O' \<union> {p\<in>set (k # ks). followed env roots patterns p}"
      and "insert k D \<union> {p\<in>set ks. \<not> followed env roots patterns p} =
        D \<union> {p\<in>set (k # ks). \<not> followed env roots patterns p}"
      using False by auto
    moreover have "unvisited_entry env (scope env roots) patterns k (rep, m) = (rep, ?m1)"
      using False by (auto simp: unvisited_entry_def followed_def)
    ultimately show ?thesis using f by simp
  qed
qed auto

lemma scan_result:
  assumes ok: "bm_ok m0" and scan: "scan env roots patterns recursive m0 = (rep, m')"
  obtains S where "S \<subseteq> walked env roots patterns recursive - dom (map_of (bm_baselines m0))"
    and "S = {} \<or> sr_truncated rep"
    and "scan_inv env m0
      (walked env roots patterns recursive \<union> {p\<in>dom (map_of (bm_baselines m0)). followed env roots patterns p} - S)
      {p\<in>dom (map_of (bm_baselines m0)). \<not> followed env roots patterns p \<and> p \<notin> walked env roots patterns recursive}
      rep m'"
proof -
  let ?W = "walked env roots patterns recursive" and ?dom = "dom (map_of (bm_baselines m0))"
  let ?depth = "if recursive then MAX_SCAN_DEPTH else 1"
  have "walk_inv env m0 ([], empty_report, m0)"
    using ok by (auto simp: walk_inv_def scan_inv_def empty_report_def)
  from walks_inv [OF this, of patterns ?depth "scope env roots"] obtain V rep1 m1 where
    f: "fold (walk env patterns ?depth) (scope env roots) ([], empty_report, m0) = (V, rep1, m1)"
    and V: "set V = ?W" and w: "walk_inv env m0 (V, rep1, m1)"
    by (cases "fold (walk env patterns ?depth) (scope env roots) ([], empty_report, m0)") (auto simp: walked_def)
  from w obtain O' where O': "O' \<subseteq> set V" and i: "scan_inv env m0 O' {} rep1 m1"
    and S: "\<forall>p\<in>set V - O'. map_of (bm_baselines m0) p = None \<and> sr_truncated rep1"
    by (auto simp: walk_inv_def)
  let ?ks = "filter (\<lambda>p. p \<notin> set V) (map fst (bm_baselines m1))"
  have m1: "map_of (bm_baselines m1) p = map_of (bm_baselines m0) p" if "p \<notin> set V" for p
    using i O' that by (auto simp: scan_inv_def)
  have ks: "set ?ks = ?dom - set V"
  proof -
    have "set ?ks = dom (map_of (bm_baselines m1)) - set V" by (auto simp: dom_map_of_conv_image_fst)
    also have "\<dots> = ?dom - set V" using m1 by (auto simp: dom_def)
    finally show ?thesis .
  qed
  have "distinct ?ks" using i by (simp add: scan_inv_def bm_ok_def hm_wf_def)
  moreover have "\<forall>p\<in>set ?ks. map_of (bm_baselines m0) p \<noteq> None" unfolding ks by auto
  moreover have "set ?ks \<inter> (O' \<union> {}) = {}" unfolding ks using O' by auto
  ultimately obtain rep2 m2 where
    u: "fold (unvisited_entry env (scope env roots) patterns) ?ks (rep1, m1) = (rep2, m2)"
      "sr_truncated rep2 = sr_truncated rep1"
      "scan_inv env m0 (O' \<union> {p\<in>set ?ks. followed env roots patterns p}) ({} \<union> {p\<in>set ?ks. \<not> followed env roots patterns p})
         rep2 m2"
    using unvisited_inv [OF i, of ?ks roots patterns] by blast
  have r: "rep2 = rep" "m2 = m'" using scan f u(1) by (simp_all add: scan_def Let_def)
  have read: "O' \<union> {p\<in>set ?ks. followed env roots patterns p} = ?W \<union> {p\<in>?dom. followed env roots patterns p} - (?W - O')"
    unfolding ks using O' V S by (auto simp: dom_def)
  have gone: "{} \<union> {p\<in>set ?ks. \<not> followed env roots patterns p} = {p\<in>?dom. \<not> followed env roots patterns p \<and> p \<notin> ?W}"
    unfolding ks unfolding V by auto
  have S': "?W - O' \<subseteq> ?W - ?dom" "?W - O' = {} \<or> sr_truncated rep"
    using S V u(2) r(1) by (auto simp: dom_def)
  show ?thesis by (rule that [OF S' u(3) [unfolded r read gone]])
qed

lemma scan_ok: "bm_ok m0 \<Longrightarrow> bm_ok (snd (scan env roots patterns recursive m0))"
  by (cases "scan env roots patterns recursive m0") (auto simp: scan_inv_def elim: scan_result)

text \<open>What a scan answers for: the files it meets and the entries of paths that are still watched.\<close>

definition answered :: "fim_env \<Rightarrow> fpath list \<Rightarrow> string list \<Rightarrow> bool \<Rightarrow> manager \<Rightarrow> fpath set" where
  "answered env roots patterns recursive m =
     walked env roots patterns recursive \<union> {p\<in>dom (map_of (bm_baselines m)). followed env roots patterns p}"

definition demo_env :: fim_env where
  "demo_env =
     \<lparr>fe_lower = to_ascii_lowercase,
      fe_symlink_metadata = (\<lambda>p. if p = [''etc'', ''hosts'']
        then Inr \<lparr>md_is_file = True, md_mode = 0x1A4, md_len = 1, md_modified = Some 7, md_uid = 0, md_gid = 0\<rparr>
        else Inl NotFound),
      fe_metadata = (\<lambda>_. Inl NotFound),
      fe_read = (\<lambda>p. if p = [''etc'', ''hosts''] then Inr ''b'' else Inl NotFound),
      fe_canonicalize = (\<lambda>p. if p \<in> {[''etc''], [''etc'', ''hosts'']} then Some p else None),
      fe_walk = (\<lambda>root depth keep. if root = [''etc''] then [([''etc''], False), ([''etc'', ''hosts''], True)] else []),
      fe_is_dir = (\<lambda>p. p = [''etc'']), fe_blake3 = (\<lambda>s. CHR ''h'' # s), fe_sha256 = (\<lambda>s. CHR ''s'' # s),
      fe_utf8 = (\<lambda>_. True), fe_store_writable = True, fe_now = 9\<rparr>"

definition demo_entry :: fim_baseline where
  "demo_entry =
     \<lparr>fb_path = [''etc'', ''hosts''], fb_hash = ''ha'', fb_permissions = 0x1A4, fb_size = 1, fb_modified_at = 3,
      fb_captured_at = 4, fb_uid = Some 0, fb_gid = Some 0\<rparr>"

definition demo_manager :: manager where
  "demo_manager = \<lparr>bm_baselines = [([''etc'', ''hosts''], demo_entry)], bm_dirty = False, bm_content = None\<rparr>"

lemma demo_manager_ok: "bm_ok demo_manager"
  by (simp add: bm_ok_def demo_manager_def demo_entry_def hm_wf_def MAX_BASELINE_FILES_def)

text \<open>C26: A full scan reports exactly the differences between the baseline and the disk of the files it meets and
  of the entries still watched, and leaves the disk as the baseline; only files that had no entry can be left out,
  and only when the baseline is full, which the report says.\<close>

theorem scan_exact:
  assumes "bm_ok m" and "scan env roots patterns recursive m = (rep, m')"
  shows "\<exists>S. S \<subseteq> walked env roots patterns recursive - dom (map_of (bm_baselines m)) \<and> (S = {} \<or> sr_truncated rep) \<and>
    strip_diff ` set (sr_changes rep) =
      {difference env p (map_of (bm_baselines m) p) | p. p \<in> answered env roots patterns recursive m - S} - {Unchanged} \<and>
    map_of (bm_baselines m') =
      (\<lambda>p. if p \<in> answered env roots patterns recursive m - S then entry_after env p (map_of (bm_baselines m) p) else None)"
proof -
  let ?W = "walked env roots patterns recursive" and ?A = "answered env roots patterns recursive m"
  obtain S where S: "S \<subseteq> ?W - dom (map_of (bm_baselines m))" "S = {} \<or> sr_truncated rep"
    and i: "scan_inv env m (?A - S) {p\<in>dom (map_of (bm_baselines m)). \<not> followed env roots patterns p \<and> p \<notin> ?W} rep m'"
    using scan_result [OF assms] unfolding answered_def by blast
  have "map_of (bm_baselines m') p = (if p \<in> ?A - S then entry_after env p (map_of (bm_baselines m) p) else None)" for p
  proof (cases "p \<in> ?A - S")
    case True
    with i show ?thesis by (auto simp: scan_inv_def answered_def)
  next
    case False
    then have "p \<in> dom (map_of (bm_baselines m)) \<Longrightarrow> \<not> followed env roots patterns p \<and> p \<notin> ?W"
      using S(1) by (auto simp: answered_def)
    with False i show ?thesis by (auto simp: scan_inv_def dom_def)
  qed
  then have "map_of (bm_baselines m') = (\<lambda>p. if p \<in> ?A - S then entry_after env p (map_of (bm_baselines m) p) else None)"
    by (rule ext)
  moreover have "strip_diff ` set (sr_changes rep) =
      {difference env p (map_of (bm_baselines m) p) | p. p \<in> ?A - S} - {Unchanged}"
    using i unfolding scan_inv_def by (elim conjE)
  ultimately show ?thesis using S by (intro exI conjI)
qed

theorem scan_exact_witness:
  "let (rep, m') = scan demo_env [[''etc'']] [] True demo_manager in
     length (sr_changes rep) = 1 \<and>
     (\<exists>S. S \<subseteq> walked demo_env [[''etc'']] [] True - dom (map_of (bm_baselines demo_manager)) \<and>
       (S = {} \<or> sr_truncated rep) \<and>
       strip_diff ` set (sr_changes rep) =
         {difference demo_env p (map_of (bm_baselines demo_manager) p)
           | p. p \<in> answered demo_env [[''etc'']] [] True demo_manager - S} - {Unchanged} \<and>
       map_of (bm_baselines m') =
         (\<lambda>p. if p \<in> answered demo_env [[''etc'']] [] True demo_manager - S
              then entry_after demo_env p (map_of (bm_baselines demo_manager) p) else None))"
proof -
  have "length (sr_changes (fst (scan demo_env [[''etc'']] [] True demo_manager))) = 1" by code_simp
  with scan_exact [OF demo_manager_ok, of demo_env "[[''etc'']]" "[]" True] show ?thesis
    by (cases "scan demo_env [[''etc'']] [] True demo_manager") simp
qed

end
