(* ===== verification/Fim_Watcher.thy ===== *)
theory Fim_Watcher imports Fim_Baseline_Props begin

text \<open>
  The event loop of the file watcher (\<open>EventLoop\<close> of \<open>crates/agent-fim/src/watcher.rs\<close>): events of the operating
  system are debounced, and a path is read against the baseline once its burst of events is over.

  The notifications come from the \<open>notify\<close> crate: an event is its kind and its paths. A pass of the loop is
  atomic, and reads the clock once; instants are nanoseconds. The bounded channel to the runtime is the list of
  the alerts that wait in it.
\<close>

section \<open>Types\<close>

text \<open>\<open>EvOther\<close> is every kind the loop ignores: access, \<open>Modify(Any)\<close>, \<open>Modify(Other)\<close> and the like.\<close>

datatype event_kind = EvCreate | EvData | EvMetadata | EvName | EvRemove | EvOther

definition MAX_TRACKED_PATHS :: nat where "MAX_TRACKED_PATHS = 10000"

record event_loop =
  el_manager :: manager
  el_queue :: "fim_alert list"
  el_capacity :: nat
  el_debounce :: int
  el_ignore_patterns :: "string list"
  el_last_reported :: "(fpath \<times> int) list"
  el_pending :: "(fpath \<times> int) list"

definition new_event_loop :: "manager \<Rightarrow> nat \<Rightarrow> fim_policy \<Rightarrow> event_loop" where
  "new_event_loop m capacity policy =
     \<lparr>el_manager = m, el_queue = [], el_capacity = capacity, el_debounce = int (fp_debounce_ms policy) * 1000000,
      el_ignore_patterns = fp_ignore_patterns policy, el_last_reported = [], el_pending = []\<rparr>"

section \<open>Operations\<close>

definition next_wait :: "event_loop \<Rightarrow> int" where
  "next_wait el =
     (let second = 1000000000
      in if el_pending el = [] then second else min (max (el_debounce el) 50000000) second)"

definition targets :: "fim_env \<Rightarrow> event_loop \<Rightarrow> fpath \<Rightarrow> fpath list" where
  "targets env el raw_path =
     (let literal = entry_path env raw_path in
      case fe_canonicalize env raw_path of
        Some resolved \<Rightarrow>
          if resolved = literal then [resolved]
          else if has_entry literal (el_manager el) then [literal, resolved] else [resolved]
      | None \<Rightarrow> if has_entry literal (el_manager el) then [literal] else [])"

definition hint_of :: "event_kind \<Rightarrow> fim_change_type option" where
  "hint_of kind =
     (case kind of
        EvCreate \<Rightarrow> Some Created
      | EvData \<Rightarrow> Some Modified
      | EvMetadata \<Rightarrow> Some PermissionChanged
      | EvName \<Rightarrow> Some Renamed
      | EvRemove \<Rightarrow> Some Deleted
      | EvOther \<Rightarrow> None)"

text \<open>What the event says of the change where the baseline cannot.\<close>

definition named_change :: "fim_change_type option \<Rightarrow> fim_change_type \<Rightarrow> fim_change_type" where
  "named_change hint observed =
     (if hint = Some Renamed \<and> observed \<in> {Created, Deleted} then Renamed
      else if observed = Created \<and> hint = Some Modified then Modified
      else if observed = Created \<and> hint = Some PermissionChanged then PermissionChanged
      else observed)"

definition try_send :: "fim_alert \<Rightarrow> event_loop \<Rightarrow> event_loop" where
  "try_send alert el =
     (if length (el_queue el) < el_capacity el then el\<lparr>el_queue := el_queue el @ [alert]\<rparr> else el)"

definition read_path :: "fim_env \<Rightarrow> fpath \<Rightarrow> fim_change_type option \<Rightarrow> int \<Rightarrow> event_loop \<Rightarrow> event_loop" where
  "read_path env path hint now el =
     (case observe env path (el_manager el) of
        (obs, m) \<Rightarrow>
          (let el1 = el\<lparr>el_manager := m\<rparr> in
           case into_alert env Realtime obs of
             None \<Rightarrow> el1
           | Some alert \<Rightarrow>
               try_send (alert\<lparr>al_change := named_change hint (al_change alert)\<rparr>)
                 (el1\<lparr>el_last_reported := AList.update path now (el_last_reported el1)\<rparr>)))"

definition defer_read :: "fim_env \<Rightarrow> fpath \<Rightarrow> int \<Rightarrow> int \<Rightarrow> event_loop \<Rightarrow> event_loop" where
  "defer_read env path due now el =
     (if MAX_TRACKED_PATHS \<le> length (el_pending el) \<and> map_of (el_pending el) path = None
      then read_path env path None now el
      else if map_of (el_pending el) path = None
      then el\<lparr>el_pending := AList.update path due (el_pending el)\<rparr>
      else el)"

definition read_due :: "fim_env \<Rightarrow> int \<Rightarrow> fpath \<Rightarrow> event_loop \<Rightarrow> event_loop" where
  "read_due env now path el = read_path env path None now (el\<lparr>el_pending := AList.delete path (el_pending el)\<rparr>)"

definition read_pending :: "fim_env \<Rightarrow> int \<Rightarrow> event_loop \<Rightarrow> event_loop" where
  "read_pending env now el =
     fold (read_due env now) (map fst (filter (\<lambda>(path, due). due \<le> now) (el_pending el))) el"

definition forget_old :: "int \<Rightarrow> event_loop \<Rightarrow> event_loop" where
  "forget_old now el =
     (if MAX_TRACKED_PATHS < length (el_last_reported el)
      then el\<lparr>el_last_reported := filter (\<lambda>(_, reported). max 0 (now - reported) < el_debounce el) (el_last_reported el)\<rparr>
      else el)"

definition handle_target :: "fim_env \<Rightarrow> fim_change_type \<Rightarrow> bool \<Rightarrow> int \<Rightarrow> fpath \<Rightarrow> event_loop \<Rightarrow> event_loop" where
  "handle_target env hint ready now path el =
     (if (if fe_is_dir env path then is_ignored_dir (fe_lower env) path (el_ignore_patterns el)
          else is_ignored_path (fe_lower env) path (el_ignore_patterns el))
      then el
      else if \<not> ready then defer_read env path now now el
      else case map_of (el_last_reported el) path of
             Some reported \<Rightarrow>
               if max 0 (now - reported) < el_debounce el \<and> hint \<noteq> Deleted \<and> hint \<noteq> Renamed
               then defer_read env path (reported + el_debounce el) now el
               else read_path env path (Some hint) now el
           | None \<Rightarrow> read_path env path (Some hint) now el)"

definition handle_raw :: "fim_env \<Rightarrow> fim_change_type \<Rightarrow> bool \<Rightarrow> int \<Rightarrow> fpath \<Rightarrow> event_loop \<Rightarrow> event_loop" where
  "handle_raw env hint ready now raw_path el = fold (handle_target env hint ready now) (targets env el raw_path) el"

definition handle :: "fim_env \<Rightarrow> event_kind \<Rightarrow> fpath list \<Rightarrow> bool \<Rightarrow> int \<Rightarrow> event_loop \<Rightarrow> event_loop" where
  "handle env kind paths ready now el =
     (case hint_of kind of
        None \<Rightarrow> el
      | Some hint \<Rightarrow> fold (handle_raw env hint ready now) paths (forget_old now el))"

text \<open>One turn of the loop of \<open>watch_files\<close>: an event, or none within the time waited, then the reads that are due.\<close>

definition watch_pass ::
  "fim_env \<Rightarrow> bool \<Rightarrow> int \<Rightarrow> (event_kind \<times> fpath list) option \<Rightarrow> event_loop \<Rightarrow> event_loop" where
  "watch_pass env ready now event el =
     (let el1 = (case event of None \<Rightarrow> el | Some (kind, paths) \<Rightarrow> handle env kind paths ready now el)
      in if ready then read_pending env now el1 else el1)"

section \<open>What the loop remembers\<close>

definition loop_ok :: "event_loop \<Rightarrow> bool" where
  "loop_ok el \<longleftrightarrow>
     bm_ok (el_manager el) \<and> hm_wf (el_pending el) \<and> hm_wf (el_last_reported el) \<and>
     length (el_pending el) \<le> MAX_TRACKED_PATHS \<and> length (el_queue el) \<le> el_capacity el"

lemma read_path_fields [simp]:
  "el_pending (read_path env path hint now el) = el_pending el"
  "el_capacity (read_path env path hint now el) = el_capacity el"
  "el_debounce (read_path env path hint now el) = el_debounce el"
  "el_ignore_patterns (read_path env path hint now el) = el_ignore_patterns el"
  "el_manager (read_path env path hint now el) = snd (observe env path (el_manager el))"
  by (auto simp: read_path_def try_send_def Let_def split: prod.splits option.splits)

lemma read_path_ok: "loop_ok el \<Longrightarrow> loop_ok (read_path env path hint now el)"
  using observe_key_ok [of "el_manager el" env "entry_path env path"]
  by (auto simp: loop_ok_def read_path_def observe_def try_send_def Let_def split: prod.splits option.splits)

lemma defer_read_ok: "loop_ok el \<Longrightarrow> loop_ok (defer_read env path due now el)"
  using read_path_ok [of el env path None now]
  by (auto simp: defer_read_def loop_ok_def length_update)

lemma read_due_ok: "loop_ok el \<Longrightarrow> loop_ok (read_due env now path el)"
  unfolding read_due_def
  by (rule read_path_ok) (auto simp: loop_ok_def intro: order_trans [OF length_delete_le])

lemma fold_ok: "(\<And>x el. loop_ok el \<Longrightarrow> loop_ok (f x el)) \<Longrightarrow> loop_ok el \<Longrightarrow> loop_ok (fold f xs el)"
  by (induction xs arbitrary: el) auto

lemma handle_target_ok: "loop_ok el \<Longrightarrow> loop_ok (handle_target env hint ready now path el)"
  by (auto simp: handle_target_def intro: defer_read_ok read_path_ok split: option.splits)

lemma watch_pass_ok:
  assumes "loop_ok el"
  shows "loop_ok (watch_pass env ready now event el)"
proof -
  have "loop_ok (forget_old now el)" using assms by (simp add: forget_old_def loop_ok_def)
  then have "loop_ok (handle env kind paths ready now el)" for kind paths
    using assms by (auto simp: handle_def handle_raw_def intro!: fold_ok handle_target_ok split: option.splits)
  then have "loop_ok (case event of None \<Rightarrow> el | Some (kind, paths) \<Rightarrow> handle env kind paths ready now el)"
    using assms by (auto split: option.splits)
  then show ?thesis
    by (auto simp: watch_pass_def read_pending_def Let_def intro!: fold_ok read_due_ok)
qed

end
