(* ===== verification/Fim_Watcher_Props.thy ===== *)
theory Fim_Watcher_Props imports Fim_Watcher begin

text \<open>
  What the watcher guarantees: a change the system reports of a file the baseline holds is read and
  reported within the debounce interval, and what is lost when the channel is full.
\<close>

lemma update_absent: "k \<notin> fst ` set m \<Longrightarrow> AList.update k v m = m @ [(k, v)]"
  by (induction m) auto

section \<open>Reading leaves no difference\<close>

lemma observe_key_other:
  assumes "observe_key env q m = (obs, m')" and "p \<noteq> q"
  shows "map_of (bm_baselines m') p = map_of (bm_baselines m) p"
proof -
  from observe_key_facts(2) [OF assms(1)] obtain b where
    "bm_baselines m' = bm_baselines (snd (compare_state q (read_state env q b) m))" by blast
  with assms(2) show ?thesis
    by (cases "read_state env q b")
       (auto simp: compare_state_def update_conv' delete_conv' Let_def split: option.splits if_splits)
qed

lemma observe_key_settled:
  assumes o: "observe_key env q m = (obs, m')" and ok: "bm_ok m"
    and d: "difference env p (map_of (bm_baselines m) p) = Unchanged"
  shows "difference env p (map_of (bm_baselines m') p) = Unchanged"
proof (cases "p = q")
  case False
  with d observe_key_other [OF o] show ?thesis by simp
next
  case True
  show ?thesis
  proof (cases "map_of (bm_baselines m) q")
    case (Some e)
    with True observe_key_map [OF o ok] show ?thesis by (simp add: difference_after)
  next
    case None
    with d True have "\<And>new t. read_state env q False \<noteq> Present new t"
      by (auto simp: difference_def split: file_state.splits)
    then have "read_state env q b = Missing \<or> read_state env q b = Unreadable" for b
      using read_state_text [of env q b] by (cases "read_state env q False") auto
    note gone = this
    from observe_key_facts(2) [OF o] obtain b where
      "bm_baselines m' = bm_baselines (snd (compare_state q (read_state env q b) m))" by blast
    with None gone [of b] have "map_of (bm_baselines m') q = None" by (auto simp: compare_state_def)
    with d True None show ?thesis by simp
  qed
qed

text \<open>The alert of a difference names its path.\<close>

lemma observed_alert:
  assumes o: "observe_key env p m = (obs, m')" and ok: "bm_ok m" and e: "map_of (bm_baselines m) p = Some old"
    and d: "difference env p (Some old) \<noteq> Unchanged"
  shows "\<exists>a. into_alert env detection obs = Some a \<and> al_path a = p"
proof -
  have s: "strip_diff obs = difference env p (Some old)" using observe_key_facts(1) [OF o] e by simp
  have old: "fb_path old = p" using ok e by (auto simp: bm_ok_def)
  have new: "fb_path new = p" if "read_state env p False = Present new t" for new t
    using that by (rule read_state_path)
  show ?thesis using s d old new
    by (cases obs)
       (auto simp: difference_def into_alert_def new_alert_def Let_def split: file_state.splits if_splits)
qed

section \<open>A known file\<close>

text \<open>
  The file \<open>p\<close>, whose entry was \<open>old\<close> and differs from the disk: still to be read, read and reported, or
  waiting to be read by the time \<open>T\<close>.
\<close>

definition unread :: "fpath \<Rightarrow> fim_baseline \<Rightarrow> event_loop \<Rightarrow> bool" where
  "unread p old el \<longleftrightarrow> map_of (bm_baselines (el_manager el)) p = Some old"

definition reported :: "fim_env \<Rightarrow> fpath \<Rightarrow> event_loop \<Rightarrow> bool" where
  "reported env p el \<longleftrightarrow>
     difference env p (map_of (bm_baselines (el_manager el)) p) = Unchanged \<and>
     ((\<exists>a\<in>set (el_queue el). al_path a = p) \<or> el_capacity el \<le> length (el_queue el))"

definition awaited :: "fim_env \<Rightarrow> fpath \<Rightarrow> fim_baseline \<Rightarrow> int \<Rightarrow> event_loop \<Rightarrow> bool" where
  "awaited env p old T el \<longleftrightarrow>
     unread p old el \<and> (\<exists>(q, due)\<in>set (el_pending el). entry_path env q = p \<and> due \<le> T)"

lemma try_send_queue:
  "set (el_queue el) \<subseteq> set (el_queue (try_send a el))" "length (el_queue el) \<le> length (el_queue (try_send a el))"
  "a \<in> set (el_queue (try_send a el)) \<or> el_capacity el \<le> length (el_queue (try_send a el))"
  by (auto simp: try_send_def)

lemma read_path_grows:
  "set (el_queue el) \<subseteq> set (el_queue (read_path env path hint now el))"
  "length (el_queue el) \<le> length (el_queue (read_path env path hint now el))"
  by (auto simp: read_path_def try_send_def Let_def split: prod.splits option.splits)

lemma read_path_reported:
  assumes "reported env p el" and "loop_ok el"
  shows "reported env p (read_path env path hint now el)"
proof -
  obtain obs m where o: "observe_key env (entry_path env path) (el_manager el) = (obs, m)"
    by (cases "observe_key env (entry_path env path) (el_manager el)")
  have "difference env p (map_of (bm_baselines m) p) = Unchanged"
    using observe_key_settled [OF o] assms by (simp add: reported_def loop_ok_def)
  with assms(1) read_path_grows [of el env path hint now] o show ?thesis
    by (fastforce simp: reported_def observe_def)
qed

lemma read_path_unread:
  assumes "unread p old el" and "entry_path env path \<noteq> p"
  shows "unread p old (read_path env path hint now el)"
  using assms observe_key_other [of env "entry_path env path" "el_manager el" _ _ p]
  by (cases "observe_key env (entry_path env path) (el_manager el)") (auto simp: unread_def observe_def)

lemma read_path_reports:
  assumes u: "unread p old el" and p: "entry_path env path = p" and ok: "loop_ok el"
    and d: "difference env p (Some old) \<noteq> Unchanged"
  shows "reported env p (read_path env path hint now el)"
proof -
  obtain obs m where o: "observe_key env p (el_manager el) = (obs, m)" by (cases "observe_key env p (el_manager el)")
  have bm: "bm_ok (el_manager el)" using ok by (simp add: loop_ok_def)
  from u have e: "map_of (bm_baselines (el_manager el)) p = Some old" by (simp add: unread_def)
  from observed_alert [OF o bm e d] obtain a where a: "into_alert env Realtime obs = Some a" "al_path a = p" by blast
  have "difference env p (map_of (bm_baselines m) p) = Unchanged"
    using observe_key_map [OF o bm] e by (simp add: difference_after)
  moreover define el1 where "el1 = el\<lparr>el_manager := m, el_last_reported := AList.update path now (el_last_reported el)\<rparr>"
  have "read_path env path hint now el = try_send (a\<lparr>al_change := named_change hint (al_change a)\<rparr>) el1"
    using o p a by (simp add: read_path_def observe_def el1_def)
  moreover have "al_path (a\<lparr>al_change := named_change hint (al_change a)\<rparr>) = p" using a(2) by simp
  ultimately show ?thesis
    using try_send_queue(3) [of "a\<lparr>al_change := named_change hint (al_change a)\<rparr>" el1] o p
    by (auto simp: reported_def try_send_def el1_def observe_def)
qed

section \<open>Steps\<close>

text \<open>Every step keeps a path that is reported reported, and reads the awaited one or keeps it awaited.\<close>

definition followed_up :: "fim_env \<Rightarrow> fpath \<Rightarrow> fim_baseline \<Rightarrow> int \<Rightarrow> event_loop \<Rightarrow> bool" where
  "followed_up env p old T el \<longleftrightarrow> loop_ok el \<and> (reported env p el \<or> awaited env p old T el)"

lemma read_path_followed_up:
  assumes "followed_up env p old T el" and "difference env p (Some old) \<noteq> Unchanged"
  shows "followed_up env p old T (read_path env path hint now el)"
proof (cases "entry_path env path = p")
  case True
  with assms read_path_reported [of env p el path hint now] read_path_reports [of p old el env path hint now]
    read_path_ok [of el env path hint now]
  show ?thesis by (auto simp: followed_up_def awaited_def)
next
  case False
  with assms read_path_reported [of env p el path hint now] read_path_unread [of p old el env path hint now]
    read_path_ok [of el env path hint now]
  show ?thesis by (auto simp: followed_up_def awaited_def)
qed

lemma defer_read_followed_up:
  assumes "followed_up env p old T el" and "difference env p (Some old) \<noteq> Unchanged"
  shows "followed_up env p old T (defer_read env path due now el)"
proof (cases "MAX_TRACKED_PATHS \<le> length (el_pending el) \<and> map_of (el_pending el) path = None")
  case True
  with read_path_followed_up [OF assms] show ?thesis by (simp add: defer_read_def)
next
  case False
  have "set (el_pending el) \<subseteq> set (el_pending (defer_read env path due now el))"
    using False by (auto simp: defer_read_def map_of_eq_None_iff update_absent)
  with False assms(1) defer_read_ok [of el env path due now] show ?thesis
    by (fastforce simp: followed_up_def reported_def awaited_def unread_def defer_read_def split: if_splits)
qed

lemma read_due_followed_up:
  assumes "followed_up env p old T el" and "difference env p (Some old) \<noteq> Unchanged"
  shows "followed_up env p old T (read_due env now q el)"
proof -
  let ?el = "el\<lparr>el_pending := AList.delete q (el_pending el)\<rparr>"
  have ok: "loop_ok el" "loop_ok ?el"
    using assms(1) by (auto simp: followed_up_def loop_ok_def intro: order_trans [OF length_delete_le])
  show ?thesis
  proof (cases "entry_path env q = p \<and> unread p old el")
    case True
    then have "reported env p (read_due env now q el)"
      unfolding read_due_def using read_path_reports [of p old ?el env q None now] ok assms(2) by (simp add: unread_def)
    with read_due_ok [OF ok(1)] show ?thesis by (simp add: followed_up_def)
  next
    case False
    have "followed_up env p old T ?el"
      using assms(1) ok False by (auto simp: followed_up_def reported_def awaited_def unread_def AList.delete_eq)
    with read_path_followed_up assms(2) show ?thesis by (simp add: read_due_def)
  qed
qed

lemma fold_followed_up:
  "(\<And>x el. followed_up env p old T el \<Longrightarrow> followed_up env p old T (f x el)) \<Longrightarrow> followed_up env p old T el \<Longrightarrow>
   followed_up env p old T (fold f xs el)"
  by (induction xs arbitrary: el) auto

lemma read_pending_followed_up:
  "followed_up env p old T el \<Longrightarrow> difference env p (Some old) \<noteq> Unchanged \<Longrightarrow> followed_up env p old T (read_pending env now el)"
  unfolding read_pending_def by (rule fold_followed_up) (rule read_due_followed_up)

text \<open>When its time has come, an awaited path is read.\<close>

lemma fold_read_due_reports:
  assumes "loop_ok el" and "difference env p (Some old) \<noteq> Unchanged"
    and "reported env p el \<or> unread p old el \<and> (\<exists>q\<in>set qs. entry_path env q = p)"
  shows "reported env p (fold (read_due env now) qs el)"
  using assms
proof (induction qs arbitrary: el)
  case (Cons q qs)
  let ?el = "el\<lparr>el_pending := AList.delete q (el_pending el)\<rparr>"
  have ok: "loop_ok ?el" using Cons.prems(1) by (auto simp: loop_ok_def intro: order_trans [OF length_delete_le])
  have "reported env p (read_due env now q el) \<or>
      unread p old (read_due env now q el) \<and> (\<exists>q\<in>set qs. entry_path env q = p)"
  proof (cases "reported env p el")
    case True
    with read_path_reported [OF _ ok, of env p q None now] show ?thesis by (simp add: read_due_def reported_def)
  next
    case False
    with Cons.prems(3) have u: "unread p old ?el" by (simp add: unread_def)
    with False Cons.prems(2,3) read_path_reports [OF u _ ok, of env q None now] read_path_unread [OF u, of env q None now]
    show ?thesis by (auto simp: read_due_def)
  qed
  with Cons.IH [OF read_due_ok [OF Cons.prems(1)] Cons.prems(2)] show ?case by simp
qed simp

lemma read_pending_reports:
  assumes "followed_up env p old T el" and "difference env p (Some old) \<noteq> Unchanged" and "T \<le> now"
  shows "reported env p (read_pending env now el)"
proof -
  let ?due = "map fst (filter (\<lambda>(path, due). due \<le> now) (el_pending el))"
  have "\<exists>q\<in>set ?due. entry_path env q = p" if "awaited env p old T el"
  proof -
    from that obtain q due where "(q, due) \<in> set (el_pending el)" "entry_path env q = p" "due \<le> T"
      by (auto simp: awaited_def)
    with assms(3) have "(q, due) \<in> set (filter (\<lambda>(path, due). due \<le> now) (el_pending el))" by simp
    then have "q \<in> set ?due" by (auto simp del: set_filter intro: rev_image_eqI)
    with \<open>entry_path env q = p\<close> show ?thesis by blast
  qed
  with assms(1) show ?thesis
    unfolding read_pending_def by (intro fold_read_due_reports [OF _ assms(2)]) (auto simp: followed_up_def awaited_def)
qed

section \<open>The event of a path\<close>

text \<open>What was reported lies in the past, and what is pending is due within the debounce interval.\<close>

definition times_ok :: "int \<Rightarrow> event_loop \<Rightarrow> bool" where
  "times_ok now el \<longleftrightarrow>
     0 \<le> el_debounce el \<and> (\<forall>(_, r)\<in>set (el_last_reported el). r \<le> now) \<and>
     (\<forall>(_, due)\<in>set (el_pending el). due \<le> now + el_debounce el)"

lemma update_all:
  "(\<forall>(_, v)\<in>set m. v \<le> b) \<Longrightarrow> v \<le> (b::int) \<Longrightarrow> \<forall>(_, v)\<in>set (AList.update k v m). v \<le> b"
  by (induction m) auto

lemma read_path_times: "times_ok now el \<Longrightarrow> times_ok now (read_path env path hint now el)"
  using update_all [of "el_last_reported el" now now path]
  by (auto simp: times_ok_def read_path_def try_send_def Let_def split: prod.splits option.splits)

lemma defer_read_times: "times_ok now el \<Longrightarrow> due \<le> now + el_debounce el \<Longrightarrow> times_ok now (defer_read env path due now el)"
  using read_path_times [of now el env path None] update_all [of "el_pending el" "now + el_debounce el" due path]
  by (simp add: defer_read_def times_ok_def)

lemma handle_target_times:
  assumes "times_ok now el"
  shows "times_ok now (handle_target env hint ready now path el)"
proof -
  have "r \<le> now" if "map_of (el_last_reported el) path = Some r" for r
    using assms that by (auto simp: times_ok_def dest!: map_of_SomeD)
  with assms show ?thesis
    by (auto simp: handle_target_def times_ok_def [of now el] intro!: defer_read_times read_path_times split: option.splits)
qed

lemma read_due_times: "times_ok now el \<Longrightarrow> times_ok now (read_due env now q el)"
  unfolding read_due_def by (rule read_path_times) (auto simp: times_ok_def AList.delete_eq)

lemma fold_times: "(\<And>x el. times_ok now el \<Longrightarrow> times_ok now (f x el)) \<Longrightarrow> times_ok now el \<Longrightarrow> times_ok now (fold f xs el)"
  by (induction xs arbitrary: el) auto

lemma watch_pass_times:
  assumes "times_ok now el"
  shows "times_ok now (watch_pass env ready now event el)"
proof -
  have "times_ok now (forget_old now el)" using assms by (auto simp: forget_old_def times_ok_def)
  then have "times_ok now (handle env kind paths ready now el)" for kind paths
    using assms by (auto simp: handle_def handle_raw_def intro!: fold_times handle_target_times split: option.splits)
  then have "times_ok now (case event of None \<Rightarrow> el | Some (kind, paths) \<Rightarrow> handle env kind paths ready now el)"
    using assms by (auto split: option.splits)
  then show ?thesis
    by (auto simp: watch_pass_def read_pending_def Let_def intro!: fold_times read_due_times)
qed

lemma times_later: "times_ok now el \<Longrightarrow> now \<le> now' \<Longrightarrow> times_ok now' el"
  by (force simp: times_ok_def)

lemma handle_target_debounce [simp]: "el_debounce (handle_target env hint ready now path el) = el_debounce el"
  "el_ignore_patterns (handle_target env hint ready now path el) = el_ignore_patterns el"
  by (auto simp: handle_target_def defer_read_def split: option.splits)

lemma handle_target_followed_up:
  assumes "followed_up env p old T el" and "difference env p (Some old) \<noteq> Unchanged"
  shows "followed_up env p old T (handle_target env hint ready now path el)"
  using assms read_path_followed_up [OF assms] defer_read_followed_up [OF assms]
  by (auto simp: handle_target_def split: option.splits)

lemma handle_target_unread:
  assumes "loop_ok el" and "unread p old el \<or> reported env p el" and "difference env p (Some old) \<noteq> Unchanged"
  shows "unread p old (handle_target env hint ready now path el) \<or> reported env p (handle_target env hint ready now path el)"
proof -
  have r: "unread p old (read_path env path h now el) \<or> reported env p (read_path env path h now el)" for h
    using assms read_path_reported [of env p el] read_path_reports [of p old el env path] read_path_unread [of p old el env path]
    by blast
  moreover have "unread p old (defer_read env path due now el) \<or> reported env p (defer_read env path due now el)" for due
    using r [of None] assms(2) by (auto simp: defer_read_def unread_def reported_def)
  ultimately show ?thesis using assms(2) by (auto simp: handle_target_def split: option.splits)
qed

definition ignored_target :: "fim_env \<Rightarrow> string list \<Rightarrow> fpath \<Rightarrow> bool" where
  "ignored_target env patterns path \<longleftrightarrow>
     (if fe_is_dir env path then is_ignored_dir (fe_lower env) path patterns
      else is_ignored_path (fe_lower env) path patterns)"

lemma handle_target_takes_up:
  assumes ok: "loop_ok el" and t: "times_ok now el" and u: "unread p old el \<or> reported env p el"
    and p: "entry_path env path = p" and ign: "\<not> ignored_target env (el_ignore_patterns el) path"
    and d: "difference env p (Some old) \<noteq> Unchanged"
  shows "followed_up env p old (now + el_debounce el) (handle_target env hint True now path el)"
proof -
  have ok': "loop_ok (handle_target env hint True now path el)" using ok by (rule handle_target_ok)
  have read: "reported env p (read_path env path h now el)" for h
    using u read_path_reported [OF _ ok] read_path_reports [OF _ p ok d] by blast
  have h: "handle_target env hint True now path el =
      (case map_of (el_last_reported el) path of
         Some r \<Rightarrow>
           if max 0 (now - r) < el_debounce el \<and> hint \<noteq> Deleted \<and> hint \<noteq> Renamed
           then defer_read env path (r + el_debounce el) now el
           else read_path env path (Some hint) now el
       | None \<Rightarrow> read_path env path (Some hint) now el)"
    using ign by (simp add: handle_target_def ignored_target_def)
  show ?thesis
  proof (cases "\<exists>h. handle_target env hint True now path el = read_path env path h now el")
    case True
    with read ok' show ?thesis by (auto simp: followed_up_def)
  next
    case False
    with h obtain r where r: "map_of (el_last_reported el) path = Some r"
      by (cases "map_of (el_last_reported el) path") auto
    with t have "r \<le> now" by (auto simp: times_ok_def dest!: map_of_SomeD)
    from False h r have later: "handle_target env hint True now path el = defer_read env path (r + el_debounce el) now el"
      by (cases "max 0 (now - r) < el_debounce el \<and> hint \<noteq> Deleted \<and> hint \<noteq> Renamed") auto
    show ?thesis
    proof (cases "map_of (el_pending el) path")
      case (Some v)
      then have "handle_target env hint True now path el = el" using later by (simp add: defer_read_def)
      moreover from Some have "(path, v) \<in> set (el_pending el)" by (rule map_of_SomeD)
      ultimately show ?thesis using t u p ok by (auto simp: followed_up_def awaited_def times_ok_def)
    next
      case None
      with False later have "handle_target env hint True now path el =
          el\<lparr>el_pending := AList.update path (r + el_debounce el) (el_pending el)\<rparr>"
        by (auto simp: defer_read_def split: if_splits)
      moreover from None have "path \<notin> fst ` set (el_pending el)" by (simp add: map_of_eq_None_iff)
      ultimately show ?thesis using \<open>r \<le> now\<close> u p ok'
        by (auto simp: followed_up_def awaited_def unread_def reported_def update_absent)
    qed
  qed
qed

lemma handle_raw_takes_up:
  assumes ok: "loop_ok el" and t: "times_ok now el" and u: "unread p old el"
    and path: "path \<in> set (targets env el raw)" "entry_path env path = p"
    and ign: "\<not> ignored_target env (el_ignore_patterns el) path"
    and d: "difference env p (Some old) \<noteq> Unchanged"
  shows "followed_up env p old (now + el_debounce el) (handle_raw env hint True now raw el)"
proof -
  from path(1) obtain as bs where ts: "targets env el raw = as @ path # bs" by (meson split_list)
  define el1 where "el1 = fold (handle_target env hint True now) as el"
  have "loop_ok e \<and> times_ok now e \<and> (unread p old e \<or> reported env p e) \<Longrightarrow>
      loop_ok (fold (handle_target env hint True now) as e) \<and> times_ok now (fold (handle_target env hint True now) as e) \<and>
      (unread p old (fold (handle_target env hint True now) as e) \<or> reported env p (fold (handle_target env hint True now) as e)) \<and>
      el_debounce (fold (handle_target env hint True now) as e) = el_debounce e \<and>
      el_ignore_patterns (fold (handle_target env hint True now) as e) = el_ignore_patterns e" for e
  proof (induction as arbitrary: e)
    case (Cons a as)
    from Cons.IH [of "handle_target env hint True now a e"] Cons.prems d handle_target_ok [of e env hint True now a]
      handle_target_times [of now e env hint True a] handle_target_unread [of e p old env hint True now a]
    show ?case by auto
  qed auto
  from this [of el] ok t u have el1: "loop_ok el1" "times_ok now el1" "unread p old el1 \<or> reported env p el1"
    "el_debounce el1 = el_debounce el" "el_ignore_patterns el1 = el_ignore_patterns el" by (auto simp: el1_def)
  have "followed_up env p old (now + el_debounce el) (handle_target env hint True now path el1)"
    using handle_target_takes_up [OF el1(1-3) path(2) _ d, of hint] ign el1(4,5) by simp
  then have "followed_up env p old (now + el_debounce el)
      (fold (handle_target env hint True now) bs (handle_target env hint True now path el1))"
    by (rule fold_followed_up [rotated]) (rule handle_target_followed_up [OF _ d])
  then show ?thesis by (simp add: handle_raw_def ts el1_def)
qed

section \<open>The change of a known file is reported\<close>

text \<open>The states of a watcher: passes, the runtime taking alerts out, and scans that read the same baseline.\<close>

inductive watching :: "int \<Rightarrow> event_loop \<Rightarrow> bool" where
  "bm_ok m \<Longrightarrow> watching now (new_event_loop m capacity policy)"
| "watching now el \<Longrightarrow> now \<le> now' \<Longrightarrow> watching now' (watch_pass env ready now' event el)"
| "watching now el \<Longrightarrow> watching now (el\<lparr>el_queue := drop n (el_queue el)\<rparr>)"
| "watching now el \<Longrightarrow> watching now (el\<lparr>el_manager := snd (scan env roots patterns recursive (el_manager el))\<rparr>)"

lemma watching_ok: "watching now el \<Longrightarrow> loop_ok el \<and> times_ok now el"
proof (induction rule: watching.induct)
  case (1 m now capacity policy)
  then show ?case by (simp add: new_event_loop_def loop_ok_def times_ok_def MAX_TRACKED_PATHS_def)
next
  case (2 now el now' env ready event)
  then show ?case using watch_pass_ok watch_pass_times times_later by blast
next
  case (3 now el n)
  then show ?case by (auto simp: loop_ok_def times_ok_def)
next
  case (4 now el env roots patterns recursive)
  then show ?case using scan_ok by (auto simp: loop_ok_def times_ok_def)
qed

text \<open>C27: A change the system reports of a file the baseline holds is recorded, and its alert sent, by the first pass
  after the debounce interval, unless the channel is full.\<close>

theorem known_change_is_reported:
  assumes "watching before el" and "before \<le> now" and "now + el_debounce el \<le> later" and "hint_of kind = Some hint"
    and "path \<in> set (targets env el raw)" and "\<not> ignored_target env (el_ignore_patterns el) path"
    and "map_of (bm_baselines (el_manager el)) (entry_path env path) = Some old"
    and "difference env (entry_path env path) (Some old) \<noteq> Unchanged"
  shows "let el' = watch_pass env True later None (watch_pass env True now (Some (kind, [raw])) el) in
    difference env (entry_path env path) (map_of (bm_baselines (el_manager el')) (entry_path env path)) = Unchanged \<and>
    ((\<exists>a\<in>set (el_queue el'). al_path a = entry_path env path) \<or> el_capacity el' \<le> length (el_queue el'))"
proof -
  let ?p = "entry_path env path" and ?el0 = "forget_old now el"
  from watching_ok [OF assms(1)] times_later [OF _ assms(2)] have "loop_ok el" "times_ok now el" by auto
  then have ok: "loop_ok ?el0" and t: "times_ok now ?el0" by (auto simp: forget_old_def loop_ok_def times_ok_def)
  have m: "el_manager ?el0 = el_manager el" by (simp add: forget_old_def)
  have same: "targets env ?el0 raw = targets env el raw" "el_ignore_patterns ?el0 = el_ignore_patterns el"
    "unread ?p old ?el0 = unread ?p old el" "el_debounce ?el0 = el_debounce el"
    unfolding targets_def unread_def m by (simp_all add: forget_old_def)
  have "followed_up env ?p old (now + el_debounce el) (handle_raw env hint True now raw ?el0)"
    using handle_raw_takes_up [OF ok t _ _ refl _ assms(8), of raw hint] assms(5-7) same by (simp add: unread_def)
  then have "followed_up env ?p old (now + el_debounce el) (handle env kind [raw] True now el)"
    using assms(4) by (simp add: handle_def)
  then have "followed_up env ?p old (now + el_debounce el) (watch_pass env True now (Some (kind, [raw])) el)"
    using read_pending_followed_up assms(8) by (simp add: watch_pass_def)
  then have "reported env ?p (watch_pass env True later None (watch_pass env True now (Some (kind, [raw])) el))"
    using read_pending_reports assms(3,8) by (simp add: watch_pass_def)
  then show ?thesis by (simp add: reported_def Let_def)
qed

definition demo_policy :: fim_policy where
  "demo_policy =
     \<lparr>fp_watched_paths = [[''etc'']], fp_ignore_patterns = [], fp_recursive = True, fp_debounce_ms = 500,
      fp_rescan_interval_secs = 0\<rparr>"

theorem known_change_is_reported_witness:
  "let el = new_event_loop demo_manager 1000 demo_policy;
       el' = watch_pass demo_env True 500000000 None (watch_pass demo_env True 0 (Some (EvData, [[''etc'', ''hosts'']])) el)
   in difference demo_env [''etc'', ''hosts''] (map_of (bm_baselines (el_manager el')) [''etc'', ''hosts'']) = Unchanged \<and>
     ((\<exists>a\<in>set (el_queue el'). al_path a = [''etc'', ''hosts'']) \<or> el_capacity el' \<le> length (el_queue el'))"
proof -
  let ?el = "new_event_loop demo_manager 1000 demo_policy"
  have p: "entry_path demo_env [''etc'', ''hosts''] = [''etc'', ''hosts'']" by (simp add: entry_path_def demo_env_def)
  have "[''etc'', ''hosts''] \<in> set (targets demo_env ?el [''etc'', ''hosts''])"
    using p by (simp add: targets_def demo_env_def)
  moreover have "\<not> ignored_target demo_env (el_ignore_patterns ?el) [''etc'', ''hosts'']"
    by (simp add: ignored_target_def is_ignored_path_def matches_ignore_pattern_def new_event_loop_def demo_policy_def demo_env_def
        is_ignored_dir_def)
  moreover have "map_of (bm_baselines (el_manager ?el)) [''etc'', ''hosts''] = Some demo_entry"
    by (simp add: new_event_loop_def demo_manager_def)
  moreover have "difference demo_env [''etc'', ''hosts''] (Some demo_entry) \<noteq> Unchanged" by code_simp
  moreover have "0 + el_debounce ?el \<le> 500000000" by (simp add: new_event_loop_def demo_policy_def)
  ultimately show ?thesis
    using known_change_is_reported [OF watching.intros(1) [OF demo_manager_ok], of 0 0 1000 demo_policy 500000000 EvData Modified
        "[''etc'', ''hosts'']" demo_env "[''etc'', ''hosts'']" demo_entry]
    by (simp add: p hint_of_def)
qed

end
