(* ===== verification/Fim_Engine.thy ===== *)
theory Fim_Engine imports Fim_Watcher_Props begin

text \<open>
  The engine of file integrity monitoring (\<open>crates/agent-fim/src/lib.rs\<close>): the baseline saved between two runs
  (\<open>crates/agent-fim/src/store.rs\<close>), the scans at start and on a period, and the changes of policy; and the
  bounded history of alerts (\<open>crates/agent-fim/src/alerts.rs\<close>).

  Serialisation is the \<open>serde_json\<close> crate: \<open>se_encode\<close> gives the bytes of a saved baseline, or nothing when it
  fails, \<open>se_decode\<close> reads them. The alerts of an operation are returned; the engine's task delivers all of them.
\<close>

section \<open>The saved baseline\<close>

definition SNAPSHOT_VERSION :: u32 where "SNAPSHOT_VERSION = 1"
definition MAX_SNAPSHOT_BYTES :: u64 where "MAX_SNAPSHOT_BYTES = 256 * 1024 * 1024"

record coverage =
  cv_roots :: "fpath list"
  cv_ignore_patterns :: "string list"

definition new_coverage :: "fim_env \<Rightarrow> fpath list \<Rightarrow> string list \<Rightarrow> coverage" where
  "new_coverage env roots patterns =
     \<lparr>cv_roots = remdups_adj (sort (scope env roots)), cv_ignore_patterns = remdups_adj (sort patterns)\<rparr>"

definition knew :: "coverage \<Rightarrow> fpath \<Rightarrow> coverage \<Rightarrow> bool" where
  "knew before path now \<longleftrightarrow>
     cv_ignore_patterns before = cv_ignore_patterns now \<and> list_ex (\<lambda>root. prefix root path) (cv_roots before)"

record snapshot =
  sn_version :: u32
  sn_saved_at :: int
  sn_coverage :: coverage
  sn_entries :: "fim_baseline list"

definition new_snapshot :: "fim_env \<Rightarrow> coverage \<Rightarrow> fim_baseline list \<Rightarrow> snapshot" where
  "new_snapshot env cov es =
     \<lparr>sn_version = SNAPSHOT_VERSION, sn_saved_at = fe_now env, sn_coverage = cov, sn_entries = es\<rparr>"

record save_env =
  se_encode :: "snapshot \<Rightarrow> string option"
  se_decode :: "string \<Rightarrow> snapshot option"
  se_writable :: bool

datatype load_error = CannotBeRead | TooLarge u64 | NotABaseline | WrongVersion u32

text \<open>The state of the file is what reading it gives.\<close>

definition load_snapshot :: "save_env \<Rightarrow> io_error + string \<Rightarrow> load_error + snapshot option" where
  "load_snapshot se on_disk =
     (case on_disk of
        Inl NotFound \<Rightarrow> Inr None
      | Inl _ \<Rightarrow> Inl CannotBeRead
      | Inr bytes \<Rightarrow>
          if MAX_SNAPSHOT_BYTES < length bytes then Inl (TooLarge (length bytes))
          else (case se_decode se bytes of
                  None \<Rightarrow> Inl NotABaseline
                | Some snapshot \<Rightarrow>
                    if sn_version snapshot \<noteq> SNAPSHOT_VERSION then Inl (WrongVersion (sn_version snapshot))
                    else Inr (Some snapshot)))"

text \<open>Written beside its destination and moved over it: a failure leaves the file as it was.\<close>

definition save_snapshot :: "save_env \<Rightarrow> snapshot \<Rightarrow> io_error + string \<Rightarrow> bool \<times> (io_error + string)" where
  "save_snapshot se snapshot on_disk =
     (if \<not> se_writable se then (False, on_disk)
      else case se_encode se snapshot of
             None \<Rightarrow> (False, on_disk)
           | Some bytes \<Rightarrow> (True, Inr bytes))"

section \<open>The engine\<close>

text \<open>\<open>en_state_file\<close>: the file of the saved baseline, when one is kept.\<close>

record engine =
  en_policy :: fim_policy
  en_manager :: manager
  en_coverage :: "coverage option"
  en_state_file :: "(io_error + string) option"
  en_startup_findings :: nat

definition new_engine :: "fim_policy \<Rightarrow> engine" where
  "new_engine policy =
     \<lparr>en_policy = policy, en_manager = new_manager, en_coverage = None, en_state_file = None, en_startup_findings = 0\<rparr>"

definition with_state_file :: "io_error + string \<Rightarrow> engine \<Rightarrow> engine" where
  "with_state_file on_disk en = en\<lparr>en_state_file := Some on_disk\<rparr>"

definition with_content_dir :: "(string \<times> string) list \<Rightarrow> engine \<Rightarrow> engine" where
  "with_content_dir copies en = en\<lparr>en_manager := with_content_store (new_store copies) new_manager\<rparr>"

text \<open>The differences that are reported: a file that has no entry is new only where the baseline already looked.\<close>

definition reportable :: "coverage \<Rightarrow> coverage \<Rightarrow> observation \<Rightarrow> bool" where
  "reportable before now change \<longleftrightarrow>
     (case change of ObsCreated new \<Rightarrow> knew before (fb_path new) now | _ \<Rightarrow> True)"

definition scanner_scan :: "fim_env \<Rightarrow> fim_policy \<Rightarrow> fim_detection \<Rightarrow> engine \<Rightarrow> fim_alert list \<times> engine" where
  "scanner_scan env policy detection en =
     (let now = new_coverage env (fp_watched_paths policy) (fp_ignore_patterns policy) in
      case scan env (fp_watched_paths policy) (fp_ignore_patterns policy) (fp_recursive policy) (en_manager en) of
        (rep, m) \<Rightarrow>
          (case en_coverage en of
             None \<Rightarrow> []
           | Some before \<Rightarrow>
               List.map_filter (into_alert env detection) (filter (reportable before now) (sr_changes rep)),
           en\<lparr>en_manager := m, en_coverage := Some now\<rparr>))"

definition save_if_changed :: "fim_env \<Rightarrow> save_env \<Rightarrow> engine \<Rightarrow> engine" where
  "save_if_changed env se en =
     (case en_state_file en of
        None \<Rightarrow> en
      | Some on_disk \<Rightarrow>
          (case take_dirty (en_manager en) of
             (dirty, m) \<Rightarrow>
               if \<not> dirty then en\<lparr>en_manager := m\<rparr>
               else
                 (let cov = unwrap_or (en_coverage en) \<lparr>cv_roots = [], cv_ignore_patterns = []\<rparr> in
                  case save_snapshot se (new_snapshot env cov (entries m)) on_disk of
                    (ok, on_disk') \<Rightarrow>
                      en\<lparr>en_manager := (if ok then m else mark_dirty m), en_state_file := Some on_disk'\<rparr>)))"

definition restore_saved_baseline :: "save_env \<Rightarrow> engine \<Rightarrow> bool \<times> engine" where
  "restore_saved_baseline se en =
     (case en_state_file en of
        None \<Rightarrow> (False, en)
      | Some on_disk \<Rightarrow>
          if en_coverage en \<noteq> None then (False, en)
          else (case load_snapshot se on_disk of
                  Inr (Some snapshot) \<Rightarrow>
                    (True, en\<lparr>en_manager := restore (sn_entries snapshot) (en_manager en),
                              en_coverage := Some (sn_coverage snapshot)\<rparr>)
                | _ \<Rightarrow> (False, en)))"

definition start :: "fim_env \<Rightarrow> save_env \<Rightarrow> engine \<Rightarrow> fim_alert list \<times> engine" where
  "start env se en =
     (case restore_saved_baseline se en of
        (restored, en1) \<Rightarrow>
          (let detection = (if restored then Startup else Rescan) in
           case scanner_scan env (en_policy en1) detection en1 of
             (alerts, en2) \<Rightarrow>
               (let en3 = (if detection = Startup
                           then en2\<lparr>en_startup_findings := en_startup_findings en2 + length alerts\<rparr> else en2)
                in (alerts, save_if_changed env se (en3\<lparr>en_manager := mark_dirty (en_manager en3)\<rparr>)))))"

definition rescan :: "fim_env \<Rightarrow> save_env \<Rightarrow> engine \<Rightarrow> fim_alert list \<times> engine" where
  "rescan env se en =
     (case scanner_scan env (en_policy en) Rescan en of (alerts, en1) \<Rightarrow> (alerts, save_if_changed env se en1))"

text \<open>One turn of the periodic task: \<open>elapsed\<close> seconds since the last scan; whether one was made is returned.\<close>

definition periodic_turn :: "fim_env \<Rightarrow> save_env \<Rightarrow> u64 \<Rightarrow> engine \<Rightarrow> bool \<times> fim_alert list \<times> engine" where
  "periodic_turn env se elapsed en =
     (let every = fp_rescan_interval_secs (en_policy en) in
      if every \<noteq> 0 \<and> every \<le> elapsed
      then (case scanner_scan env (en_policy en) Rescan en of
              (alerts, en1) \<Rightarrow> (True, alerts, save_if_changed env se en1))
      else (False, [], save_if_changed env se en))"

definition stop :: "fim_env \<Rightarrow> save_env \<Rightarrow> engine \<Rightarrow> engine" where
  "stop env se en = save_if_changed env se en"

definition update_config :: "fim_env \<Rightarrow> save_env \<Rightarrow> fim_policy \<Rightarrow> engine \<Rightarrow> fim_alert list \<times> engine" where
  "update_config env se policy en =
     start env se ((stop env se en)\<lparr>en_policy := with_self_exclusions policy\<rparr>)"

definition refresh_baseline :: "fim_env \<Rightarrow> fpath \<Rightarrow> engine \<Rightarrow> nat \<times> engine" where
  "refresh_baseline env path en =
     (case create_baseline env path (fp_ignore_patterns (en_policy en)) (en_manager en) of
        (files, m) \<Rightarrow> (files, en\<lparr>en_manager := m\<rparr>))"

section \<open>History of alerts\<close>

definition MAX_ALERTS :: nat where "MAX_ALERTS = 1000"

record alert_manager =
  am_alerts :: "fim_alert list"
  am_max_alerts :: nat

definition new_alert_manager :: alert_manager where
  "new_alert_manager = \<lparr>am_alerts = [], am_max_alerts = MAX_ALERTS\<rparr>"

definition push_alert :: "fim_alert \<Rightarrow> alert_manager \<Rightarrow> alert_manager" where
  "push_alert a am =
     (let kept = (if am_max_alerts am \<le> length (am_alerts am) then tl (am_alerts am) else am_alerts am)
      in am\<lparr>am_alerts := kept @ [a]\<rparr>)"

definition recent_alerts :: "int \<Rightarrow> int \<Rightarrow> alert_manager \<Rightarrow> fim_alert list" where
  "recent_alerts now hours am = filter (\<lambda>a. now - hours * 3600 * 10 ^ 9 < al_timestamp a) (am_alerts am)"

definition unacknowledged :: "alert_manager \<Rightarrow> fim_alert list" where
  "unacknowledged am = filter (\<lambda>a. \<not> al_acknowledged a) (am_alerts am)"

fun acknowledge_first :: "int \<Rightarrow> fim_alert list \<Rightarrow> bool \<times> fim_alert list" where
  "acknowledge_first t [] = (False, [])"
| "acknowledge_first t (a # as) =
     (if al_timestamp a = t then (True, a\<lparr>al_acknowledged := True\<rparr> # as)
      else case acknowledge_first t as of (found, as') \<Rightarrow> (found, a # as'))"

definition acknowledge :: "int \<Rightarrow> alert_manager \<Rightarrow> bool \<times> alert_manager" where
  "acknowledge t am = (case acknowledge_first t (am_alerts am) of (found, as) \<Rightarrow> (found, am\<lparr>am_alerts := as\<rparr>))"

definition acknowledge_all :: "alert_manager \<Rightarrow> alert_manager" where
  "acknowledge_all am = am\<lparr>am_alerts := map (\<lambda>a. a\<lparr>al_acknowledged := True\<rparr>) (am_alerts am)\<rparr>"

definition count_of :: "fim_change_type \<Rightarrow> alert_manager \<Rightarrow> nat" where
  "count_of change am = length (filter (\<lambda>a. al_change a = change) (am_alerts am))"

definition clear_alerts :: "alert_manager \<Rightarrow> alert_manager" where
  "clear_alerts am = am\<lparr>am_alerts := []\<rparr>"

end
