(* ===== verification/Fim_Engine_Props.thy ===== *)
theory Fim_Engine_Props imports Fim_Engine begin

text \<open>
  What the engine guarantees across runs: a change made while the agent is stopped is found at the next
  start, when saving fails and what is lost then, and which paths the agent's own exclusions leave out.
\<close>

section \<open>Scans of the engine\<close>

lemma in_set_map_filter: "y \<in> set (List.map_filter f xs) \<longleftrightarrow> (\<exists>x\<in>set xs. f x = Some y)"
  by (force simp: List.map_filter_def)

lemma alert_of_change:
  assumes "into_alert env detection o1 = Some a" and "strip_diff o1 = strip_diff o2"
  shows "\<exists>b. into_alert env detection o2 = Some b \<and> al_path b = al_path a"
  using assms by (cases o1; cases o2) (auto simp: into_alert_def new_alert_def Let_def)

lemma difference_alert:
  assumes "difference env p before \<noteq> Unchanged" and "\<And>old. before = Some old \<Longrightarrow> fb_path old = p"
  shows "\<exists>a. into_alert env detection (difference env p before) = Some a \<and> al_path a = p"
  using assms
  by (cases before) (auto simp: difference_def into_alert_def new_alert_def Let_def split: file_state.splits if_splits
      dest: read_state_path)

lemma into_alert_detection: "into_alert env detection obs = Some a \<Longrightarrow> al_detection a = detection"
  by (cases obs) (auto simp: into_alert_def new_alert_def Let_def)

text \<open>A difference a scan answers for is an alert of it, but for a new file the coverage does not reach.\<close>

lemma scanner_reports:
  assumes s: "scanner_scan env policy detection en = (alerts, en')" and ok: "bm_ok (en_manager en)"
    and cov: "en_coverage en = Some before"
    and sc: "scan env (fp_watched_paths policy) (fp_ignore_patterns policy) (fp_recursive policy) (en_manager en) = (rep, m)"
    and p: "p \<in> answered env (fp_watched_paths policy) (fp_ignore_patterns policy) (fp_recursive policy) (en_manager en)"
    and d: "difference env p (map_of (bm_baselines (en_manager en)) p) \<noteq> Unchanged"
    and new: "map_of (bm_baselines (en_manager en)) p \<noteq> None \<or>
      \<not> sr_truncated rep \<and> knew before p (new_coverage env (fp_watched_paths policy) (fp_ignore_patterns policy))"
  shows "\<exists>a\<in>set alerts. al_path a = p \<and> al_detection a = detection"
proof -
  let ?m = "en_manager en" and ?roots = "fp_watched_paths policy" and ?patterns = "fp_ignore_patterns policy"
  define R where "R = walked env ?roots ?patterns (fp_recursive policy) \<union>
    {q\<in>dom (map_of (bm_baselines ?m)). followed env ?roots ?patterns q}"
  obtain S D where S: "S \<inter> dom (map_of (bm_baselines ?m)) = {}" "S = {} \<or> sr_truncated rep"
    and i: "scan_inv env ?m (R - S) D rep m"
  proof (rule scan_result [OF ok sc], fold R_def)
    fix S' assume "S' \<subseteq> walked env ?roots ?patterns (fp_recursive policy) - dom (map_of (bm_baselines ?m))"
    then have "S' \<inter> dom (map_of (bm_baselines ?m)) = {}" by blast
    moreover assume "S' = {} \<or> sr_truncated rep"
    moreover assume "scan_inv env ?m (R - S') {q\<in>dom (map_of (bm_baselines ?m)). \<not> followed env ?roots ?patterns q \<and>
      q \<notin> walked env ?roots ?patterns (fp_recursive policy)} rep m"
    ultimately show thesis by (rule that)
  qed
  let ?d = "difference env p (map_of (bm_baselines ?m) p)"
  have "p \<in> R - S" using S new p unfolding R_def answered_def by auto
  then have "?d \<in> {difference env q (map_of (bm_baselines ?m) q) | q. q \<in> R - S} - {Unchanged}"
    using d by auto
  moreover have "strip_diff ` set (sr_changes rep) =
      {difference env q (map_of (bm_baselines ?m) q) | q. q \<in> R - S} - {Unchanged}"
    using i unfolding scan_inv_def by (elim conjE)
  ultimately have "?d \<in> strip_diff ` set (sr_changes rep)" by simp
  then obtain obs where obs: "obs \<in> set (sr_changes rep)" "strip_diff obs = ?d" by auto
  have "\<exists>a. into_alert env detection ?d = Some a \<and> al_path a = p"
    using ok d difference_alert [of env p] by (cases "map_of (bm_baselines ?m) p") (auto simp: bm_ok_def)
  then obtain a0 where a0: "into_alert env detection ?d = Some a0" "al_path a0 = p" by blast
  from alert_of_change [OF a0(1), of obs] obs(2) a0(2) obtain a where
    a: "into_alert env detection obs = Some a" "al_path a = p" by auto
  have "reportable before (new_coverage env ?roots ?patterns) obs"
  proof (cases obs)
    case (ObsCreated created)
    with a have "fb_path created = p" by (auto simp: into_alert_def new_alert_def Let_def)
    moreover have "map_of (bm_baselines ?m) p = None"
      using obs(2) ObsCreated by (auto simp: difference_def split: option.splits file_state.splits if_splits)
    ultimately show ?thesis using new ObsCreated by (simp add: reportable_def)
  qed (simp_all add: reportable_def)
  then have r: "obs \<in> set (filter (reportable before (new_coverage env ?roots ?patterns)) (sr_changes rep))" using obs(1) by simp
  from s sc cov have "alerts = List.map_filter (into_alert env detection)
      (filter (reportable before (new_coverage env ?roots ?patterns)) (sr_changes rep))"
    by (simp add: scanner_scan_def Let_def)
  with r a have "a \<in> set alerts" by (simp add: in_set_map_filter) blast
  with a into_alert_detection show ?thesis by blast
qed

text \<open>Without a previous baseline nothing is reported.\<close>

lemma first_scan_is_silent: "en_coverage en = None \<Longrightarrow> fst (scanner_scan env policy detection en) = []"
  by (simp add: scanner_scan_def Let_def split: prod.splits)

section \<open>Saving and loading\<close>

lemma restore_map:
  assumes "length es \<le> MAX_BASELINE_FILES" and "distinct (map fb_path es)"
  shows "map_of (bm_baselines (restore es m)) = map_of (map (\<lambda>e. (fb_path e, e)) es)" and "bm_ok (restore es m)"
proof -
  have "fold (\<lambda>e bs. AList.update (fb_path e) e bs) xs bs = bs @ map (\<lambda>e. (fb_path e, e)) xs"
    if "distinct (map fb_path xs)" "fst ` set bs \<inter> fb_path ` set xs = {}" for xs bs
    using that
  proof (induction xs arbitrary: bs)
    case (Cons x xs)
    then show ?case using Cons.IH [of "AList.update (fb_path x) x bs"] by (auto simp: update_absent)
  qed simp
  from this [OF assms(2), of "[]"] assms(1) have r: "bm_baselines (restore es m) = map (\<lambda>e. (fb_path e, e)) es"
    by (simp add: restore_def)
  then show "map_of (bm_baselines (restore es m)) = map_of (map (\<lambda>e. (fb_path e, e)) es)" by simp
  have "map fst (map (\<lambda>e. (fb_path e, e)) es) = map fb_path es" by simp
  with assms r show "bm_ok (restore es m)"
    unfolding bm_ok_def hm_wf_def by (auto simp: o_def dest!: map_of_SomeD)
qed

lemma option_same: "(\<And>e. x = Some e \<longleftrightarrow> y = Some e) \<Longrightarrow> x = y"
  by (metis not_Some_eq)

lemma distinct_map_sort_key: "distinct (map f (sort_key g xs)) = distinct (map f xs)"
  by (simp only: distinct_map distinct_sort set_sort)

lemma entries_paths:
  assumes "bm_ok m"
  shows "distinct (map fb_path (entries m))" and "length (entries m) = length (bm_baselines m)"
    and "map_of (map (\<lambda>e. (fb_path e, e)) (entries m)) = map_of (bm_baselines m)"
proof -
  have wf: "hm_wf (bm_baselines m)" and path: "\<And>p e. (p, e) \<in> set (bm_baselines m) \<Longrightarrow> fb_path e = p"
    using assms by (auto simp: bm_ok_def hm_mem)
  have keys: "map fb_path (map snd (bm_baselines m)) = map fst (bm_baselines m)"
    using path by (auto simp: o_def split_beta)
  have "distinct (map fb_path (map snd (bm_baselines m)))" unfolding keys using wf by (simp only: hm_wf_def)
  then show d: "distinct (map fb_path (entries m))" unfolding entries_def by (simp only: distinct_map_sort_key)
  show "length (entries m) = length (bm_baselines m)" by (simp add: entries_def)
  have "(p, e) \<in> set (map (\<lambda>e. (fb_path e, e)) (entries m)) \<longleftrightarrow> (p, e) \<in> set (bm_baselines m)" for p e
  proof -
    have "(p, e) \<in> set (map (\<lambda>e. (fb_path e, e)) (entries m)) \<longleftrightarrow> fb_path e = p \<and> e \<in> snd ` set (bm_baselines m)"
      by (auto simp: entries_def)
    also have "\<dots> \<longleftrightarrow> (p, e) \<in> set (bm_baselines m)"
    proof
      assume "fb_path e = p \<and> e \<in> snd ` set (bm_baselines m)"
      then obtain q where q: "(q, e) \<in> set (bm_baselines m)" "fb_path e = p" by auto
      with path [OF q(1)] show "(p, e) \<in> set (bm_baselines m)" by simp
    next
      assume "(p, e) \<in> set (bm_baselines m)"
      with path show "fb_path e = p \<and> e \<in> snd ` set (bm_baselines m)" by (auto intro: rev_image_eqI)
    qed
    finally show ?thesis .
  qed
  moreover have "hm_wf (map (\<lambda>e. (fb_path e, e)) (entries m))" using d by (simp add: hm_wf_def o_def)
  ultimately have "map_of (map (\<lambda>e. (fb_path e, e)) (entries m)) p = Some e \<longleftrightarrow> map_of (bm_baselines m) p = Some e" for p e
    unfolding hm_mem [OF wf, symmetric] by (metis (no_types, lifting) hm_mem)
  then have "map_of (map (\<lambda>e. (fb_path e, e)) (entries m)) p = map_of (bm_baselines m) p" for p
    by (rule option_same)
  then show "map_of (map (\<lambda>e. (fb_path e, e)) (entries m)) = map_of (bm_baselines m)" by (rule ext)
qed

text \<open>A baseline that was saved is the one the next run starts from.\<close>

lemma saved_is_restored:
  assumes rt: "\<And>s t. se_encode se s = Some t \<Longrightarrow> se_decode se t = Some s"
    and ok: "bm_ok (en_manager en)" and dirty: "bm_dirty (en_manager en)" and w: "se_writable se"
    and saved: "en_state_file en = Some f" and cov: "en_coverage en = Some cov"
    and enc: "se_encode se (new_snapshot env cov (entries (en_manager en))) = Some bytes"
    and size: "length bytes \<le> MAX_SNAPSHOT_BYTES"
    and fresh: "en_state_file en2 = en_state_file (stop env se en)" "en_coverage en2 = None"
  shows "\<exists>en3. restore_saved_baseline se en2 = (True, en3) \<and> bm_ok (en_manager en3) \<and> en_coverage en3 = Some cov \<and>
    en_policy en3 = en_policy en2 \<and> en_startup_findings en3 = en_startup_findings en2 \<and>
    map_of (bm_baselines (en_manager en3)) = map_of (bm_baselines (en_manager en))"
proof -
  have e: "entries (en_manager en\<lparr>bm_dirty := False\<rparr>) = entries (en_manager en)" by (simp add: entries_def)
  with dirty w saved cov enc have "en_state_file (stop env se en) = Some (Inr bytes)"
    by (simp add: stop_def save_if_changed_def take_dirty_def save_snapshot_def unwrap_or_def)
  moreover have "load_snapshot se (Inr bytes) = Inr (Some (new_snapshot env cov (entries (en_manager en))))"
    using rt [OF enc] size by (simp add: load_snapshot_def new_snapshot_def)
  ultimately have "restore_saved_baseline se en2 =
      (True, en2\<lparr>en_manager := restore (entries (en_manager en)) (en_manager en2), en_coverage := Some cov\<rparr>)"
    using fresh by (simp add: restore_saved_baseline_def new_snapshot_def)
  moreover have "length (entries (en_manager en)) \<le> MAX_BASELINE_FILES"
    using entries_paths(2) [OF ok] ok by (simp add: bm_ok_def)
  ultimately show ?thesis
    using restore_map [OF _ entries_paths(1) [OF ok]] entries_paths(3) [OF ok] by simp
qed

section \<open>Across a stop\<close>

text \<open>C28: When the engine stops with its baseline saved, the next run reports at its start, as made while the agent was
  stopped, every change or removal of a file of that baseline in the paths it still watches, and every file created in
  the paths it watches, where the saved baseline had looked with the same exclusions, unless its first scan finds the
  baseline full, which its report says. A file that cannot be read counts as unchanged.\<close>

theorem stopped_change_is_found:
  assumes rt: "\<And>s t. se_encode se s = Some t \<Longrightarrow> se_decode se t = Some s"
    and "bm_ok (en_manager en)" and "bm_dirty (en_manager en)" and "se_writable se"
    and "en_state_file en = Some f" and "en_coverage en = Some cov"
    and "se_encode se (new_snapshot env cov (entries (en_manager en))) = Some bytes"
    and "length bytes \<le> MAX_SNAPSHOT_BYTES"
    and "en_state_file en2 = en_state_file (stop env se en)" and "en_coverage en2 = None"
    and scan: "scan env2 (fp_watched_paths (en_policy en2)) (fp_ignore_patterns (en_policy en2)) (fp_recursive (en_policy en2))
      (en_manager (snd (restore_saved_baseline se en2))) = (rep, m)"
    and watched: "case map_of (bm_baselines (en_manager en)) p of
      Some old \<Rightarrow> followed env2 (fp_watched_paths (en_policy en2)) (fp_ignore_patterns (en_policy en2)) p
    | None \<Rightarrow> p \<in> walked env2 (fp_watched_paths (en_policy en2)) (fp_ignore_patterns (en_policy en2)) (fp_recursive (en_policy en2)) \<and>
        knew cov p (new_coverage env2 (fp_watched_paths (en_policy en2)) (fp_ignore_patterns (en_policy en2))) \<and> \<not> sr_truncated rep"
    and "difference env2 p (map_of (bm_baselines (en_manager en)) p) \<noteq> Unchanged"
  shows "(\<exists>a\<in>set (fst (start env2 se en2)). al_path a = p \<and> al_detection a = Startup) \<and>
    en_startup_findings en2 < en_startup_findings (snd (start env2 se en2))"
proof -
  from saved_is_restored [OF assms(1-10)] obtain en3 where
    r: "restore_saved_baseline se en2 = (True, en3)" and ok: "bm_ok (en_manager en3)" and cov: "en_coverage en3 = Some cov"
    and same: "en_policy en3 = en_policy en2" "en_startup_findings en3 = en_startup_findings en2"
      "map_of (bm_baselines (en_manager en3)) = map_of (bm_baselines (en_manager en))" by blast
  obtain alerts en4 where s: "scanner_scan env2 (en_policy en3) Startup en3 = (alerts, en4)"
    by (cases "scanner_scan env2 (en_policy en3) Startup en3")
  have "\<exists>a\<in>set alerts. al_path a = p \<and> al_detection a = Startup"
  proof (rule scanner_reports [OF s ok cov, unfolded same])
    show "scan env2 (fp_watched_paths (en_policy en2)) (fp_ignore_patterns (en_policy en2)) (fp_recursive (en_policy en2))
      (en_manager en3) = (rep, m)" using scan r by simp
  qed (use watched assms(13) same in \<open>auto simp: answered_def split: option.splits\<close>)
  moreover from this have "alerts \<noteq> []" by auto
  moreover have "fst (start env2 se en2) = alerts" using r s by (simp add: start_def)
  moreover have "en_startup_findings (snd (start env2 se en2)) = en_startup_findings en2 + length alerts"
  proof -
    have "en_startup_findings (save_if_changed env2 se x) = en_startup_findings x" for x
      by (simp add: save_if_changed_def take_dirty_def Let_def split: option.splits prod.splits)
    moreover have "en_startup_findings en4 = en_startup_findings en3"
      using s by (auto simp: scanner_scan_def Let_def split: prod.splits)
    ultimately show ?thesis using r s same by (simp add: start_def)
  qed
  ultimately show ?thesis by simp
qed

definition demo_engine :: engine where
  "demo_engine =
     \<lparr>en_policy = demo_policy, en_manager = mark_dirty demo_manager,
      en_coverage = Some \<lparr>cv_roots = [[''etc'']], cv_ignore_patterns = []\<rparr>, en_state_file = Some (Inl NotFound),
      en_startup_findings = 0\<rparr>"

text \<open>The file is in the saved baseline and was changed; it is not, and was created.\<close>

definition any_codec :: "fim_baseline list \<Rightarrow> save_env" where
  "any_codec es =
     (let saved = new_snapshot demo_env \<lparr>cv_roots = [[''etc'']], cv_ignore_patterns = []\<rparr> es
      in \<lparr>se_encode = (\<lambda>s. if s = saved then Some ''1'' else None), se_decode = (\<lambda>t. if t = ''1'' then Some saved else None),
          se_writable = True\<rparr>)"

lemma demo_start:
  assumes "entries m = es" "entries (m\<lparr>bm_dirty := False\<rparr>) = es" "bm_ok m" "bm_dirty m"
    and en: "en = demo_engine\<lparr>en_manager := m\<rparr>"
    and en2: "en2 = with_state_file (Inr ''1'') (new_engine demo_policy)"
  shows "se_encode (any_codec es) (new_snapshot demo_env \<lparr>cv_roots = [[''etc'']], cv_ignore_patterns = []\<rparr> (entries (en_manager en)))
      = Some ''1''"
    and "en_state_file en2 = en_state_file (stop demo_env (any_codec es) en)"
    and "se_encode (any_codec es) s = Some t \<Longrightarrow> se_decode (any_codec es) t = Some s"
    and "se_writable (any_codec es)" and "length ''1'' \<le> MAX_SNAPSHOT_BYTES" and "en_coverage en2 = None"
    and "en_state_file en = Some (Inl NotFound)" and "en_coverage en = Some \<lparr>cv_roots = [[''etc'']], cv_ignore_patterns = []\<rparr>"
  using assms(1-4)
  by (auto simp: en en2 any_codec_def stop_def save_if_changed_def take_dirty_def save_snapshot_def unwrap_or_def demo_engine_def
      with_state_file_def new_engine_def MAX_SNAPSHOT_BYTES_def Let_def split: if_splits)

theorem stopped_change_is_found_witness:
  "let en2 = with_state_file (Inr ''1'') (new_engine demo_policy) in
     (\<exists>a\<in>set (fst (start demo_env (any_codec [demo_entry]) en2)). al_path a = [''etc'', ''hosts''] \<and> al_detection a = Startup) \<and>
     (\<exists>a\<in>set (fst (start demo_env (any_codec []) en2)). al_path a = [''etc'', ''hosts''] \<and> al_detection a = Startup)"
proof -
  let ?en2 = "with_state_file (Inr ''1'') (new_engine demo_policy)" and ?p = "[''etc'', ''hosts'']"
  let ?scan = "\<lambda>es. scan demo_env (fp_watched_paths (en_policy ?en2)) (fp_ignore_patterns (en_policy ?en2))
    (fp_recursive (en_policy ?en2)) (en_manager (snd (restore_saved_baseline (any_codec es) ?en2)))"
  have known: "entries (mark_dirty demo_manager) = [demo_entry]" "entries (mark_dirty demo_manager\<lparr>bm_dirty := False\<rparr>) = [demo_entry]"
    "bm_ok (mark_dirty demo_manager)" "bm_dirty (mark_dirty demo_manager)"
    using demo_manager_ok by (simp_all add: entries_def mark_dirty_def demo_manager_def bm_ok_def)
  have none: "entries (mark_dirty new_manager) = []" "entries (mark_dirty new_manager\<lparr>bm_dirty := False\<rparr>) = []"
    "bm_ok (mark_dirty new_manager)" "bm_dirty (mark_dirty new_manager)"
    by (simp_all add: entries_def mark_dirty_def new_manager_def bm_ok_def hm_wf_def)
  note k = demo_start [OF known refl refl] and n = demo_start [OF none refl refl]
  have policy: "en_policy ?en2 = demo_policy" by (simp add: with_state_file_def new_engine_def)
  have f: "followed demo_env (fp_watched_paths demo_policy) (fp_ignore_patterns demo_policy) ?p" by code_simp
  have w: "?p \<in> walked demo_env (fp_watched_paths demo_policy) (fp_ignore_patterns demo_policy) (fp_recursive demo_policy)"
    by (simp add: walked_def demo_policy_def scope_def demo_env_def unwrap_or_def)
  have kn: "knew \<lparr>cv_roots = [[''etc'']], cv_ignore_patterns = []\<rparr> ?p
      (new_coverage demo_env (fp_watched_paths demo_policy) (fp_ignore_patterns demo_policy))" by code_simp
  have d: "difference demo_env ?p (Some demo_entry) \<noteq> Unchanged" "difference demo_env ?p None \<noteq> Unchanged" by code_simp+
  have e: "map_of (bm_baselines (en_manager (demo_engine\<lparr>en_manager := mark_dirty demo_manager\<rparr>))) ?p = Some demo_entry"
    "map_of (bm_baselines (en_manager (demo_engine\<lparr>en_manager := mark_dirty new_manager\<rparr>))) ?p = None"
    by (simp_all add: mark_dirty_def demo_manager_def new_manager_def)
  have t: "\<not> sr_truncated (fst (?scan []))" unfolding policy by code_simp
  have "\<exists>a\<in>set (fst (start demo_env (any_codec [demo_entry]) ?en2)). al_path a = ?p \<and> al_detection a = Startup"
    using stopped_change_is_found [OF k(3), of "demo_engine\<lparr>en_manager := mark_dirty demo_manager\<rparr>", OF _ _ _ k(4,7,8,1,5,2,6)
        prod.collapse [symmetric], of ?p] known(3,4) e(1) d(1) f policy by simp
  moreover have "\<exists>a\<in>set (fst (start demo_env (any_codec []) ?en2)). al_path a = ?p \<and> al_detection a = Startup"
    using stopped_change_is_found [OF n(3), of "demo_engine\<lparr>en_manager := mark_dirty new_manager\<rparr>", OF _ _ _ n(4,7,8,1,5,2,6)
        prod.collapse [symmetric], of ?p] none(3,4) e(2) d(2) w kn t policy by simp
  ultimately show ?thesis by (simp only: Let_def)
qed

section \<open>A name that cannot be saved\<close>

text \<open>As long as the baseline holds a file whose name is not UTF-8, which \<open>serde\<close> refuses to write as a path,
  nothing of the baseline is saved, and a run that had none to start from reports no change made while it was stopped.\<close>

theorem unsaved_name_blinds_next_start:
  assumes refuses: "\<And>s. \<exists>e\<in>set (sn_entries s). \<exists>c\<in>set (fb_path e). \<not> fe_utf8 env c \<Longrightarrow> se_encode se s = None"
    and "bm_ok (en_manager en)" and "map_of (bm_baselines (en_manager en)) p = Some old"
    and "c \<in> set p" and "\<not> fe_utf8 env c"
  shows "en_state_file (stop env se en) = en_state_file en \<and>
    fst (start env2 se ((new_engine policy)\<lparr>en_state_file := Some (Inl NotFound)\<rparr>)) = []"
proof -
  have "entries (en_manager en\<lparr>bm_dirty := False\<rparr>) = entries (en_manager en)" by (simp add: entries_def)
  moreover have "old \<in> set (entries (en_manager en))" "fb_path old = p"
    using assms(2,3) by (auto simp: entries_def bm_ok_def dest: map_of_SomeD intro: rev_image_eqI)
  then have "se_encode se (new_snapshot env cov (entries (en_manager en))) = None" for cov
    using assms(4,5) by (intro refuses) (auto simp: new_snapshot_def)
  ultimately have "en_state_file (stop env se en) = en_state_file en"
    by (simp add: stop_def save_if_changed_def take_dirty_def save_snapshot_def Let_def split: option.splits)
  moreover have "fst (start env2 se ((new_engine policy)\<lparr>en_state_file := Some (Inl NotFound)\<rparr>)) = []"
  proof -
    let ?en = "(new_engine policy)\<lparr>en_state_file := Some (Inl NotFound)\<rparr>"
    obtain alerts en' where s: "scanner_scan env2 policy Rescan ?en = (alerts, en')"
      by (cases "scanner_scan env2 policy Rescan ?en")
    then have "alerts = []" using first_scan_is_silent [of ?en env2 policy Rescan] by (simp add: new_engine_def)
    moreover have "restore_saved_baseline se ?en = (False, ?en)" "en_policy ?en = policy"
      by (simp_all add: restore_saved_baseline_def load_snapshot_def new_engine_def)
    ultimately show ?thesis using s by (simp add: start_def)
  qed
  ultimately show ?thesis by blast
qed

definition demo_refusing :: save_env where
  "demo_refusing =
     \<lparr>se_encode = (\<lambda>s. if sn_entries s = [] then Some [] else None), se_decode = (\<lambda>_. None), se_writable = True\<rparr>"

theorem unsaved_name_blinds_next_start_witness:
  "en_state_file (stop (demo_env\<lparr>fe_utf8 := (\<lambda>_. False)\<rparr>) demo_refusing demo_engine) = en_state_file demo_engine \<and>
   fst (start demo_env demo_refusing ((new_engine demo_policy)\<lparr>en_state_file := Some (Inl NotFound)\<rparr>)) = []"
proof (rule unsaved_name_blinds_next_start)
  show "bm_ok (en_manager demo_engine)" using demo_manager_ok by (simp add: demo_engine_def mark_dirty_def bm_ok_def)
  show "map_of (bm_baselines (en_manager demo_engine)) [''etc'', ''hosts''] = Some demo_entry"
    by (simp add: demo_engine_def mark_dirty_def demo_manager_def)
  show "''etc'' \<in> set [''etc'', ''hosts'']" by simp
qed (auto simp: demo_refusing_def)

section \<open>What is lost\<close>

text \<open>An alert the full channel refuses is lost: the baseline has recorded the change, so no scan finds it again.\<close>

lemma refused_alert_is_lost:
  assumes "loop_ok el" and "el_capacity el \<le> length (el_queue el)" and "entry_path env path = p"
    and "map_of (bm_baselines (el_manager el)) p = Some old"
  shows "el_queue (read_path env path hint now el) = el_queue el"
    and "difference env p (map_of (bm_baselines (el_manager (read_path env path hint now el))) p) = Unchanged"
proof -
  show "el_queue (read_path env path hint now el) = el_queue el"
    using assms(2) by (auto simp: read_path_def try_send_def Let_def split: prod.splits option.splits)
  obtain obs m where o: "observe_key env p (el_manager el) = (obs, m)" by (cases "observe_key env p (el_manager el)")
  have "bm_ok (el_manager el)" using assms(1) by (simp add: loop_ok_def)
  from observe_key_map [OF o this] assms(3,4) o
  show "difference env p (map_of (bm_baselines (el_manager (read_path env path hint now el))) p) = Unchanged"
    by (simp add: observe_def difference_after)
qed

text \<open>
  The coverage of a baseline does not say how deep it looked: a file below a watched directory counts as known to a
  baseline whose scan did not descend, so it is reported as created once the policy is recursive.
\<close>

lemma depth_is_not_covered:
  "knew (new_coverage env roots patterns) p (new_coverage env roots patterns) \<longleftrightarrow>
     (\<exists>root\<in>set (scope env roots). prefix root p)"
  by (auto simp: knew_def new_coverage_def list_ex_iff)

text \<open>The history of alerts is bounded.\<close>

lemma push_alert_bounded:
  "0 < am_max_alerts am \<Longrightarrow> length (am_alerts am) \<le> am_max_alerts am \<Longrightarrow>
   length (am_alerts (push_alert a am)) \<le> am_max_alerts am \<and> last (am_alerts (push_alert a am)) = a"
  by (auto simp: push_alert_def Let_def)

end
