(* ===== verification/Fim_Exclusion_Props.thy ===== *)
theory Fim_Exclusion_Props imports Fim_Types begin

text \<open>
  Which paths the agent's own exclusions leave out of file integrity monitoring: what lies in a directory
  with one of its names, its log files, and nothing else.
\<close>

section \<open>Paths as texts\<close>

definition ascii_norm :: "string \<Rightarrow> string" where
  "ascii_norm = norm_text to_ascii_lowercase"

text \<open>A component of a path: not empty, no slash, and no backslash, which would count as one.\<close>

definition plain_component :: "string \<Rightarrow> bool" where
  "plain_component c \<longleftrightarrow> c \<noteq> [] \<and> CHR ''/'' \<notin> set c \<and> CHR 0x5C \<notin> set c"

lemma name_parts_path:
  "list_all (\<lambda>c. c \<noteq> [] \<and> CHR ''/'' \<notin> set c) p \<Longrightarrow> name_parts (concat (map (\<lambda>c. CHR ''/'' # c) p)) = p"
proof (induction p rule: rev_induct)
  case (snoc c p)
  have "split_at_char CHR ''/'' (concat (map (\<lambda>c. CHR ''/'' # c) p) @ CHR ''/'' # c) =
      split_at_char CHR ''/'' (concat (map (\<lambda>c. CHR ''/'' # c) p)) @ [c]"
    using snoc.prems by (simp add: split_at_char_append split_at_char_no)
  with snoc show ?case by (simp add: name_parts_def)
qed (simp add: name_parts_def)

lemma lower_char_keeps:
  assumes "byte d < 65 \<or> (90 < byte d \<and> byte d < 97)"
  shows "to_ascii_lower_char c = d \<longleftrightarrow> c = d"
proof (cases "is_ascii_uppercase c")
  case True
  then have "byte (to_ascii_lower_char c) = byte c + 32" "65 \<le> byte c" "byte c \<le> 90"
    by (simp_all add: to_ascii_lower_char_def is_ascii_uppercase_def byte_def)
  with assms show ?thesis by auto
qed (simp add: to_ascii_lower_char_def)

lemma lower_char_slash: "to_ascii_lower_char c = CHR ''/'' \<longleftrightarrow> c = CHR ''/''"
  by (rule lower_char_keeps) (simp add: byte_def)

lemma lower_char_backslash: "to_ascii_lower_char c = CHR 0x5C \<longleftrightarrow> c = CHR 0x5C"
  by (rule lower_char_keeps) (simp add: byte_def)

lemma lower_slash: "CHR ''/'' \<in> set (to_ascii_lowercase c) \<longleftrightarrow> CHR ''/'' \<in> set c"
  unfolding to_ascii_lowercase_def set_map image_iff using lower_char_slash by metis

lemma ascii_norm_plain: "CHR 0x5C \<notin> set c \<Longrightarrow> ascii_norm c = to_ascii_lowercase c"
  by (auto simp: ascii_norm_def norm_text_def to_ascii_lowercase_def lower_char_backslash)

lemma ascii_norm_path:
  "ascii_norm (concat (map (\<lambda>c. CHR ''/'' # c) p)) = concat (map (\<lambda>c. CHR ''/'' # c) (map ascii_norm p))"
proof -
  have "ascii_norm (xs @ ys) = ascii_norm xs @ ascii_norm ys" "ascii_norm (CHR ''/'' # xs) = CHR ''/'' # ascii_norm xs" for xs ys
    by (auto simp: ascii_norm_def norm_text_def to_ascii_lowercase_def to_ascii_lower_char_def sentinel_simps byte_def)
  moreover have "ascii_norm [] = []" by (simp add: ascii_norm_def norm_text_def to_ascii_lowercase_def)
  ultimately show ?thesis by (induction p) auto
qed

lemma path_components:
  assumes "list_all plain_component p" and "p \<noteq> []"
  shows "name_parts (ascii_norm (path_text p)) = map to_ascii_lowercase p"
proof -
  have "map ascii_norm p = map to_ascii_lowercase p"
    using assms(1) by (auto simp: list_all_iff plain_component_def intro: ascii_norm_plain)
  moreover have "list_all (\<lambda>c. c \<noteq> [] \<and> CHR ''/'' \<notin> set c) (map to_ascii_lowercase p)"
    using assms(1) by (auto simp: list_all_iff plain_component_def lower_slash) (simp add: to_ascii_lowercase_def)
  ultimately have "name_parts (concat (map (\<lambda>c. CHR ''/'' # c) (map ascii_norm p))) = map to_ascii_lowercase p"
    by (simp only: name_parts_path)
  then show ?thesis using assms(2) by (simp only: path_text_def ascii_norm_path if_False)
qed

section \<open>The agent's own exclusions\<close>

text \<open>In lower case: the names of its directories, and of its log files in \<open>/var/log\<close>.\<close>

definition agent_directories :: "string list" where
  "agent_directories =
     [''sentinel'', ''sentinel-grc'', ''sentinelgrc'', ''sentinelagent.app'', ''com.sentinel-grc.sentinel'',
      ''sentinel-logs'', ''sentinelagent'', ''com.cyberthreatconsulting.sentinelagent'']"

definition agent_log_files :: "string list" where
  "agent_log_files = [''sentinel-agent.log'', ''sentinel-agent.err'', ''sentinel-agent-helper.log'']"

lemma self_patterns_norm:
  "map ascii_norm SELF_EXCLUSION_PATTERNS =
     map (\<lambda>d. d @ ''/**'') agent_directories @ map (\<lambda>f. ''var/log/'' @ f) agent_log_files"
  by code_simp

lemma pattern_dir:
  "d \<in> set agent_directories \<Longrightarrow>
   pattern_matches text cs is_dir (d @ ''/**'') \<longleftrightarrow> (\<exists>a b. cs = a @ d # b \<and> (is_dir \<or> b \<noteq> []))"
proof -
  assume d: "d \<in> set agent_directories"
  have "list_all (\<lambda>d. name_parts d = [d] \<and> \<not> prefix ''*'' (d @ ''/**'')) agent_directories" by code_simp
  with d have "name_parts d = [d]" "\<not> prefix ''*'' (d @ ''/**'')" unfolding list_all_iff by blast+
  moreover have "suffix ''/**'' (d @ ''/**'')" by (simp add: suffix_def)
  ultimately have "pattern_matches text cs is_dir (d @ ''/**'') \<longleftrightarrow> has_component_run cs d (\<not> is_dir)"
    unfolding pattern_matches_def by simp
  with \<open>name_parts d = [d]\<close> show ?thesis by (auto simp: has_component_run_iff)
qed

lemma pattern_log:
  "f \<in> set agent_log_files \<Longrightarrow>
   pattern_matches text cs is_dir (''var/log/'' @ f) \<longleftrightarrow> (\<exists>a b. cs = a @ [''var'', ''log'', f] @ b)"
proof -
  assume f: "f \<in> set agent_log_files"
  have "list_all (\<lambda>f. name_parts (''var/log/'' @ f) = [''var'', ''log'', f] \<and> \<not> prefix ''*'' (''var/log/'' @ f) \<and>
    \<not> suffix ''/**'' (''var/log/'' @ f)) agent_log_files" by code_simp
  with f have "name_parts (''var/log/'' @ f) = [''var'', ''log'', f]" "\<not> prefix ''*'' (''var/log/'' @ f)"
    "\<not> suffix ''/**'' (''var/log/'' @ f)" unfolding list_all_iff by blast+
  then show ?thesis unfolding pattern_matches_def by (simp only: has_component_run_iff) simp
qed

text \<open>For an ASCII path, the agent's own exclusions leave out exactly what lies in a directory named like one of
  its own, whatever the case of the letters, and its log files under \<open>var/log\<close>; a file that only resembles
  them, or that merely has the name of such a directory, stays monitored.\<close>

theorem self_exclusions_exact:
  assumes "\<And>s. list_all (\<lambda>c. byte c < 128) s \<Longrightarrow> lower s = to_ascii_lowercase s"
    and "list_all (\<lambda>c. byte c < 128) (path_text p)" and "list_all plain_component p" and "p \<noteq> []"
  shows "is_ignored_path lower p SELF_EXCLUSION_PATTERNS \<longleftrightarrow>
    (\<exists>d\<in>set agent_directories. \<exists>a b. map to_ascii_lowercase p = a @ d # b \<and> b \<noteq> []) \<or>
    (\<exists>f\<in>set agent_log_files. \<exists>a b. map to_ascii_lowercase p = a @ [''var'', ''log'', f] @ b)"
proof -
  have "list_all (\<lambda>pat. list_all (\<lambda>c. byte c < 128) pat) SELF_EXCLUSION_PATTERNS" by code_simp
  then have pats: "norm_text lower pat = ascii_norm pat" if "pat \<in> set SELF_EXCLUSION_PATTERNS" for pat
    using that assms(1) by (auto simp: list_all_iff ascii_norm_def norm_text_def)
  have "norm_text lower (path_text p) = ascii_norm (path_text p)"
    using assms(1,2) by (simp add: ascii_norm_def norm_text_def)
  then have "is_ignored_path lower p SELF_EXCLUSION_PATTERNS \<longleftrightarrow>
      (\<exists>pat\<in>set (map ascii_norm SELF_EXCLUSION_PATTERNS).
         pattern_matches (ascii_norm (path_text p)) (map to_ascii_lowercase p) False pat)"
    using pats by (auto simp: is_ignored_path_def matches_ignore_pattern_def list_ex_iff path_components [OF assms(3,4)] Let_def)
  then show ?thesis unfolding self_patterns_norm by (simp only: set_append set_map bex_Un bex_simps pattern_dir pattern_log cong: bex_cong) simp
qed

theorem self_exclusions_exact_witness:
  "is_ignored_path to_ascii_lowercase [''etc'', ''Sentinel'', ''agent.json''] SELF_EXCLUSION_PATTERNS \<longleftrightarrow>
    (\<exists>d\<in>set agent_directories. \<exists>a b. map to_ascii_lowercase [''etc'', ''Sentinel'', ''agent.json''] = a @ d # b \<and> b \<noteq> []) \<or>
    (\<exists>f\<in>set agent_log_files. \<exists>a b. map to_ascii_lowercase [''etc'', ''Sentinel'', ''agent.json''] = a @ [''var'', ''log'', f] @ b)"
  by (rule self_exclusions_exact) (simp_all add: path_text_def plain_component_def byte_def)

end
