(* ===== verification/Fim_Canary.thy ===== *)
theory Fim_Canary imports Fim_Types "HOL-Library.List_Lexorder" "HOL-Library.Char_ord" begin

text \<open>
  The ransomware canaries (\<open>crates/agent-fim/src/canary.rs\<close>): decoy folders are deployed in the directories of the
  users, judged on their state, and removed when the protection is turned off.

  The file system is an association list from paths to nodes that the operations change. What the
  libraries give is a parameter: the hash, the stream of bytes that fills the decoys, and the name drawn
  for a folder. \<open>ce_write_ok\<close> says which decoys can be written, \<open>ce_manifest_writable\<close> whether the list of decoys can.
  The model is the one of a Unix system.
\<close>

section \<open>File system\<close>

text \<open>A file with its contents and whether it can be read, a directory with its owner, or anything else.\<close>

datatype node = NFile string bool | NDir u32 | NOther

type_synonym cfs = "(fpath \<times> node) list"

definition names_in :: "fpath \<Rightarrow> cfs \<Rightarrow> string list" where
  "names_in dir fs =
     (case map_of fs dir of
        Some (NDir _) \<Rightarrow> map last (filter (\<lambda>p. p \<noteq> [] \<and> butlast p = dir) (map fst fs))
      | _ \<Rightarrow> [])"

definition remove_file :: "fpath \<Rightarrow> cfs \<Rightarrow> cfs" where
  "remove_file p fs =
     (case map_of fs p of
        Some (NDir _) \<Rightarrow> fs
      | _ \<Rightarrow> AList.delete p fs)"

definition remove_dir :: "fpath \<Rightarrow> cfs \<Rightarrow> bool \<times> cfs" where
  "remove_dir p fs =
     (case map_of fs p of
        Some (NDir _) \<Rightarrow> if names_in p fs = [] then (True, AList.delete p fs) else (False, fs)
      | _ \<Rightarrow> (False, fs))"

section \<open>Types\<close>

record canary_env =
  ce_blake3 :: "string \<Rightarrow> string"
  ce_xof :: "string \<Rightarrow> nat \<Rightarrow> string"
  ce_name_hash :: "fpath \<Rightarrow> string"
  ce_write_ok :: "string \<Rightarrow> bool"
  ce_manifest_writable :: bool
  ce_euid :: u32
  ce_now :: int

definition DECOYS :: "(string \<times> string \<times> nat) list" where
  "DECOYS =
     [(''budget-previsionnel.xlsx'', ''PK'' @ [CHR 0x03, CHR 0x04], 18 * 1024),
      (''contrat-signe.pdf'', ''%PDF-1.7'' @ [CHR 0x0A], 24 * 1024),
      (''notes-reunion.docx'', ''PK'' @ [CHR 0x03, CHR 0x04], 12 * 1024),
      (''photo-identite.jpg'', [CHR 0xFF, CHR 0xD8, CHR 0xFF, CHR 0xE0, CHR 0x00, CHR 0x10] @ ''JFIF'' @ [CHR 0x00], 16 * 1024)]"

definition OS_METADATA_FILES :: "string list" where
  "OS_METADATA_FILES = [''.DS_Store'', ''.localized'', ''desktop.ini'', ''Thumbs.db'']"

definition SETTLE_DELAY :: int where "SETTLE_DELAY = 500 * 10 ^ 6"
definition FULL_CHECK_INTERVAL :: int where "FULL_CHECK_INTERVAL = 30 * 10 ^ 9"
definition MANIFEST_VERSION :: u32 where "MANIFEST_VERSION = 1"

record canary_target =
  ct_directory :: fpath
  ct_owner :: "(u32 \<times> u32) option"

record decoy_file =
  df_name :: string
  df_hash :: string

record decoy_folder =
  dd_path :: fpath
  dd_files :: "decoy_file list"
  dd_deployed_at :: int
  dd_tripped :: bool

record manifest =
  mf_version :: u32
  mf_folders :: "decoy_folder list"

datatype canary_tamper = Encrypted | Removed

record canary_incident =
  ci_folder :: fpath
  ci_tamper :: canary_tamper
  ci_modified :: "fpath list"
  ci_missing :: "fpath list"
  ci_foreign :: "fpath list"
  ci_detected_at :: int
  ci_while_stopped :: bool

record deploy_report =
  dr_active :: nat
  dr_incidents :: "canary_incident list"
  dr_skipped :: "fpath list"

text \<open>The list of decoys in memory, and as it is on disk when it can be read.\<close>

record canary_manager =
  cm_manifest :: manifest
  cm_saved :: "manifest option"

section \<open>Judging a folder\<close>

definition is_intact :: "canary_env \<Rightarrow> cfs \<Rightarrow> fpath \<Rightarrow> decoy_file \<Rightarrow> bool" where
  "is_intact env fs dir file =
     (case map_of fs (dir @ [df_name file]) of
        Some (NFile content readable) \<Rightarrow> readable \<and> ce_blake3 env content = df_hash file
      | _ \<Rightarrow> False)"

definition is_present :: "cfs \<Rightarrow> fpath \<Rightarrow> decoy_file \<Rightarrow> bool" where
  "is_present fs dir file = (case map_of fs (dir @ [df_name file]) of Some (NFile _ _) \<Rightarrow> True | _ \<Rightarrow> False)"

definition known_name :: "decoy_folder \<Rightarrow> string \<Rightarrow> bool" where
  "known_name folder name \<longleftrightarrow>
     list_ex (\<lambda>f. df_name f = name) (dd_files folder) \<or> name \<in> set OS_METADATA_FILES \<or> prefix ''._'' name"

definition judge :: "canary_env \<Rightarrow> cfs \<Rightarrow> decoy_folder \<Rightarrow> canary_incident option" where
  "judge env fs folder =
     (let dir = dd_path folder;
          modified = map (\<lambda>f. dir @ [df_name f])
            (filter (\<lambda>f. is_present fs dir f \<and> \<not> is_intact env fs dir f) (dd_files folder));
          missing = map (\<lambda>f. dir @ [df_name f]) (filter (\<lambda>f. \<not> is_present fs dir f) (dd_files folder));
          foreign = sort (map (\<lambda>name. dir @ [name]) (filter (\<lambda>name. \<not> known_name folder name) (names_in dir fs)));
          incident = (\<lambda>tamper. \<lparr>ci_folder = dir, ci_tamper = tamper, ci_modified = modified, ci_missing = missing,
                                ci_foreign = foreign, ci_detected_at = ce_now env, ci_while_stopped = False\<rparr>)
      in if modified \<noteq> [] \<or> (missing \<noteq> [] \<and> foreign \<noteq> []) then Some (incident Encrypted)
         else if missing \<noteq> [] then Some (incident Removed)
         else None)"

section \<open>Creating a folder\<close>

definition decoy_content :: "canary_env \<Rightarrow> string \<Rightarrow> nat \<Rightarrow> string \<Rightarrow> string" where
  "decoy_content env magic bytes seed =
     magic @ drop (length magic) (ce_xof env seed (max bytes (length magic)))"

definition folder_name :: "canary_env \<Rightarrow> fpath \<Rightarrow> string" where
  "folder_name env target = ''.0-archives-'' @ take 6 (ce_name_hash env target)"

text \<open>The files one after the other, up to the first that cannot be written or is there already.\<close>

fun write_files :: "canary_env \<Rightarrow> fpath \<Rightarrow> (string \<times> string) list \<Rightarrow> cfs \<Rightarrow> bool \<times> cfs" where
  "write_files env dir [] fs = (True, fs)"
| "write_files env dir ((name, content) # files) fs =
     (if map_of fs (dir @ [name]) \<noteq> None \<or> \<not> ce_write_ok env name then (False, fs)
      else write_files env dir files (AList.update (dir @ [name]) (NFile content True) fs))"

definition write_folder ::
  "canary_env \<Rightarrow> canary_target \<Rightarrow> string \<Rightarrow> (string \<times> string) list \<Rightarrow> cfs \<Rightarrow> bool \<times> cfs" where
  "write_folder env target name files fs =
     (let dir = ct_directory target @ [name] in
      case map_of fs (ct_directory target) of
        Some (NDir owner) \<Rightarrow>
          if (case ct_owner target of Some (uid, _) \<Rightarrow> owner \<noteq> uid | None \<Rightarrow> False) then (False, fs)
          else if map_of fs dir \<noteq> None then (False, fs)
          else (case write_files env dir files (AList.update dir (NDir (ce_euid env)) fs) of
                  (False, fs1) \<Rightarrow> (False, fs1)
                | (True, fs1) \<Rightarrow>
                    (True, case ct_owner target of
                             Some (uid, _) \<Rightarrow> AList.update dir (NDir uid) fs1
                           | None \<Rightarrow> fs1))
      | _ \<Rightarrow> (False, fs))"

definition create_folder :: "canary_env \<Rightarrow> canary_target \<Rightarrow> cfs \<Rightarrow> decoy_folder option \<times> cfs" where
  "create_folder env target fs =
     (let name = folder_name env (ct_directory target);
          files = map (\<lambda>(file_name, magic, bytes).
            (file_name, decoy_content env magic bytes (name @ ''/'' @ file_name))) DECOYS
      in case write_folder env target name files fs of
           (False, fs1) \<Rightarrow> (None, fs1)
         | (True, fs1) \<Rightarrow>
             (Some \<lparr>dd_path = ct_directory target @ [name],
                    dd_files = map (\<lambda>(file_name, content). \<lparr>df_name = file_name, df_hash = ce_blake3 env content\<rparr>) files,
                    dd_deployed_at = ce_now env, dd_tripped = False\<rparr>, fs1))"

section \<open>The manager\<close>

definition open_manager :: "manifest option \<Rightarrow> canary_manager" where
  "open_manager saved =
     \<lparr>cm_manifest =
        (case saved of
           Some m \<Rightarrow> if mf_version m = MANIFEST_VERSION then m else \<lparr>mf_version = MANIFEST_VERSION, mf_folders = []\<rparr>
         | None \<Rightarrow> \<lparr>mf_version = MANIFEST_VERSION, mf_folders = []\<rparr>),
      cm_saved = saved\<rparr>"

definition save_manifest :: "canary_env \<Rightarrow> canary_manager \<Rightarrow> canary_manager" where
  "save_manifest env cm = (if ce_manifest_writable env then cm\<lparr>cm_saved := Some (cm_manifest cm)\<rparr> else cm)"

definition set_folders :: "decoy_folder list \<Rightarrow> canary_manager \<Rightarrow> canary_manager" where
  "set_folders folders cm = cm\<lparr>cm_manifest := (cm_manifest cm)\<lparr>mf_folders := folders\<rparr>\<rparr>"

definition active_folders :: "canary_manager \<Rightarrow> fpath list" where
  "active_folders cm = map dd_path (filter (\<lambda>f. \<not> dd_tripped f) (mf_folders (cm_manifest cm)))"

text \<open>What was deployed earlier: the folders kept, and the incidents found at start.\<close>

definition judge_deployed ::
  "canary_env \<Rightarrow> cfs \<Rightarrow> decoy_folder list \<Rightarrow> decoy_folder list \<times> canary_incident list" where
  "judge_deployed env fs folders =
     (filter (\<lambda>f. \<not> dd_tripped f \<and> judge env fs f = None) folders,
      map (\<lambda>i. i\<lparr>ci_while_stopped := True\<rparr>)
        (filter (\<lambda>i. ci_tamper i = Encrypted)
           (List.map_filter (judge env fs) (filter (\<lambda>f. \<not> dd_tripped f) folders))))"

fun deploy_targets ::
  "canary_env \<Rightarrow> canary_target list \<Rightarrow> decoy_folder list \<times> fpath list \<times> cfs \<Rightarrow> decoy_folder list \<times> fpath list \<times> cfs" where
  "deploy_targets env [] s = s"
| "deploy_targets env (target # targets) (folders, skipped, fs) =
     (if list_ex (\<lambda>f. dd_path f \<noteq> [] \<and> butlast (dd_path f) = ct_directory target) folders
      then deploy_targets env targets (folders, skipped, fs)
      else case create_folder env target fs of
             (Some folder, fs1) \<Rightarrow> deploy_targets env targets (folders @ [folder], skipped, fs1)
           | (None, fs1) \<Rightarrow> deploy_targets env targets (folders, skipped @ [ct_directory target], fs1))"

definition deploy ::
  "canary_env \<Rightarrow> canary_target list \<Rightarrow> cfs \<Rightarrow> canary_manager \<Rightarrow> deploy_report \<times> cfs \<times> canary_manager" where
  "deploy env targets fs cm =
     (case judge_deployed env fs (mf_folders (cm_manifest cm)) of
        (kept, incidents) \<Rightarrow>
          (case deploy_targets env targets (kept, [], fs) of
             (folders, skipped, fs1) \<Rightarrow>
               (\<lparr>dr_active = length folders, dr_incidents = incidents, dr_skipped = skipped\<rparr>, fs1,
                save_manifest env (set_folders folders cm))))"

text \<open>The first active folder of that path is judged, and marked when it was tampered with.\<close>

fun check_folders ::
  "canary_env \<Rightarrow> cfs \<Rightarrow> fpath \<Rightarrow> decoy_folder list \<Rightarrow> canary_incident option \<times> decoy_folder list" where
  "check_folders env fs path [] = (None, [])"
| "check_folders env fs path (f # folders) =
     (if \<not> dd_tripped f \<and> dd_path f = path
      then case judge env fs f of
             None \<Rightarrow> (None, f # folders)
           | Some incident \<Rightarrow> (Some incident, f\<lparr>dd_tripped := True\<rparr> # folders)
      else case check_folders env fs path folders of (incident, folders') \<Rightarrow> (incident, f # folders'))"

definition check :: "canary_env \<Rightarrow> cfs \<Rightarrow> fpath \<Rightarrow> canary_manager \<Rightarrow> canary_incident option \<times> canary_manager" where
  "check env fs path cm =
     (case check_folders env fs path (mf_folders (cm_manifest cm)) of
        (None, _) \<Rightarrow> (None, cm)
      | (Some incident, folders) \<Rightarrow> (Some incident, save_manifest env (set_folders folders cm)))"

definition remove_decoy :: "canary_env \<Rightarrow> fpath \<Rightarrow> decoy_file \<Rightarrow> cfs \<Rightarrow> cfs" where
  "remove_decoy env dir file fs = (if is_intact env fs dir file then remove_file (dir @ [df_name file]) fs else fs)"

definition remove_folder :: "canary_env \<Rightarrow> decoy_folder \<Rightarrow> nat \<times> cfs \<Rightarrow> nat \<times> cfs" where
  "remove_folder env folder s =
     (case s of
        (removed, fs) \<Rightarrow>
          (case map_of fs (dd_path folder) of
             Some (NDir _) \<Rightarrow>
               (let dir = dd_path folder;
                    fs1 = fold (remove_decoy env dir) (dd_files folder) fs;
                    fs2 = fold (\<lambda>name. remove_file (dir @ [name])) OS_METADATA_FILES fs1
                in case remove_dir dir fs2 of (ok, fs3) \<Rightarrow> (if ok then Suc removed else removed, fs3))
           | _ \<Rightarrow> s))"

definition remove_all :: "canary_env \<Rightarrow> cfs \<Rightarrow> canary_manager \<Rightarrow> nat \<times> cfs \<times> canary_manager" where
  "remove_all env fs cm =
     (case fold (remove_folder env) (mf_folders (cm_manifest cm)) (0, fs) of
        (removed, fs1) \<Rightarrow> (removed, fs1, save_manifest env (set_folders [] cm)))"

section \<open>The watcher\<close>

text \<open>The folders with an event not yet followed by a check, since when; the last check of all; what waits for the runtime.\<close>

record canary_watch =
  cw_pending :: "(fpath \<times> int) list"
  cw_last_full_check :: int
  cw_queue :: "canary_incident list"
  cw_capacity :: nat

text \<open>\<open>spellings\<close>: the resolved and the given paths of the folders, each with its folder.\<close>

definition note_event :: "(fpath \<times> fpath) list \<Rightarrow> int \<Rightarrow> fpath \<Rightarrow> canary_watch \<Rightarrow> canary_watch" where
  "note_event spellings now path cw =
     (case find (\<lambda>(spelling, _). prefix spelling path) spellings of
        None \<Rightarrow> cw
      | Some (_, folder) \<Rightarrow>
          if map_of (cw_pending cw) folder = None then cw\<lparr>cw_pending := AList.update folder now (cw_pending cw)\<rparr> else cw)"

definition check_due ::
  "canary_env \<Rightarrow> cfs \<Rightarrow> fpath \<Rightarrow> canary_watch \<times> canary_manager \<Rightarrow> canary_watch \<times> canary_manager" where
  "check_due env fs folder s =
     (case s of
        (cw, cm) \<Rightarrow>
          (let cw1 = cw\<lparr>cw_pending := AList.delete folder (cw_pending cw)\<rparr> in
           case check env fs folder cm of
             (None, cm1) \<Rightarrow> (cw1, cm1)
           | (Some incident, cm1) \<Rightarrow>
               (if length (cw_queue cw1) < cw_capacity cw1 then cw1\<lparr>cw_queue := cw_queue cw1 @ [incident]\<rparr> else cw1, cm1)))"

definition watch_turn ::
  "canary_env \<Rightarrow> cfs \<Rightarrow> (fpath \<times> fpath) list \<Rightarrow> fpath list \<Rightarrow> int \<Rightarrow> fpath list \<Rightarrow>
   canary_watch \<times> canary_manager \<Rightarrow> canary_watch \<times> canary_manager" where
  "watch_turn env fs spellings folders now paths s =
     (case s of
        (cw, cm) \<Rightarrow>
          (let cw1 = fold (note_event spellings now) paths cw;
               due = map fst (filter (\<lambda>(_, first_event). SETTLE_DELAY \<le> now - first_event) (cw_pending cw1));
               full = FULL_CHECK_INTERVAL \<le> now - cw_last_full_check cw1;
               cw2 = (if full then cw1\<lparr>cw_last_full_check := now\<rparr> else cw1)
           in fold (check_due env fs) (if full then folders else due) (cw2, cm)))"

end
