(* ===== verification/Fim_Canary_Props.thy ===== *)
theory Fim_Canary_Props imports Fim_Canary begin

text \<open>
  What the canaries guarantee: a folder just deployed is intact, tampering is reported once, and turning the
  protection off removes nothing but decoys still as deployed; and what the list of decoys forgets.
\<close>

section \<open>Judging\<close>

lemma judge_None_iff: "judge env fs folder = None \<longleftrightarrow> list_all (is_intact env fs (dd_path folder)) (dd_files folder)"
proof -
  have "is_intact env fs d f \<Longrightarrow> is_present fs d f" for d f
    by (auto simp: is_intact_def is_present_def split: option.splits node.splits)
  then show ?thesis by (auto simp: judge_def Let_def filter_empty_conv list_all_iff)
qed

section \<open>Creating\<close>

lemma write_files_result:
  assumes "write_files env dir files fs = (True, fs')" and "distinct (map fst files)"
  shows "map_of fs' = (\<lambda>p. case map_of (map (\<lambda>(name, content). (dir @ [name], NFile content True)) files) p of
    Some n \<Rightarrow> Some n | None \<Rightarrow> map_of fs p)"
  using assms
proof (induction files arbitrary: fs)
  case (Cons d files)
  obtain name content where f: "d = (name, content)" by (cases d)
  let ?m = "map (\<lambda>(name, content). (dir @ [name], NFile content True)) files"
  from Cons f have "map_of fs' = (\<lambda>p. case map_of ?m p of Some n \<Rightarrow> Some n
      | None \<Rightarrow> map_of (AList.update (dir @ [name]) (NFile content True) fs) p)"
    by (auto split: if_splits)
  moreover have "map_of ?m (dir @ [name]) = None"
    using Cons.prems(2) f by (auto simp: map_of_eq_None_iff image_iff)
  ultimately show ?case using f by (auto simp: update_conv' fun_eq_iff split: option.splits)
qed auto

lemma decoy_names: "distinct (map fst DECOYS)"
  by (simp add: DECOYS_def)

text \<open>A folder that was created is intact.\<close>

lemma created_is_intact:
  assumes "create_folder env target fs = (Some folder, fs')"
  shows "judge env fs' folder = None" and "dd_path folder \<noteq> []" and "butlast (dd_path folder) = ct_directory target"
    and "\<not> dd_tripped folder"
proof -
  let ?name = "folder_name env (ct_directory target)"
  let ?dir = "ct_directory target @ [?name]"
  define files where "files = map (\<lambda>(file_name, magic, bytes).
    (file_name, decoy_content env magic bytes (?name @ ''/'' @ file_name))) DECOYS"
  from assms have w: "write_folder env target ?name files fs = (True, fs')"
    and folder: "folder = \<lparr>dd_path = ?dir,
        dd_files = map (\<lambda>(file_name, content). \<lparr>df_name = file_name, df_hash = ce_blake3 env content\<rparr>) files,
        dd_deployed_at = ce_now env, dd_tripped = False\<rparr>"
    by (auto simp: create_folder_def files_def Let_def split: prod.splits bool.splits)
  have names: "distinct (map fst files)" using decoy_names by (simp add: files_def o_def split_beta)
  from w obtain fs1 where f1: "write_files env ?dir files (AList.update ?dir (NDir (ce_euid env)) fs) = (True, fs1)"
    and fs': "fs' = fs1 \<or> (\<exists>uid. fs' = AList.update ?dir (NDir uid) fs1)"
    by (auto simp: write_folder_def Let_def split: option.splits node.splits if_splits prod.splits bool.splits)
  have "map_of fs' (?dir @ [n]) = Some (NFile c True)" if "(n, c) \<in> set files" for n c
  proof -
    have "map_of (map (\<lambda>(name, content). (?dir @ [name], NFile content True)) files) (?dir @ [n]) = Some (NFile c True)"
      using that names by (intro map_of_is_SomeI) (force simp: o_def split_beta distinct_map inj_on_def)+
    with write_files_result [OF f1 names] fs' show ?thesis by (auto simp: update_conv')
  qed
  then show "judge env fs' folder = None"
    by (auto simp: judge_None_iff folder list_all_iff is_intact_def)
  show "dd_path folder \<noteq> []" "butlast (dd_path folder) = ct_directory target" "\<not> dd_tripped folder"
    by (simp_all add: folder)
qed

section \<open>Checking\<close>

lemma check_folders_once:
  assumes "check_folders env fs path folders = (Some incident, folders')" and "distinct (map dd_path folders)"
  shows "path \<notin> dd_path ` set (filter (\<lambda>f. \<not> dd_tripped f) folders') \<and> map dd_path folders' = map dd_path folders"
  using assms
proof (induction folders arbitrary: folders')
  case (Cons f folders)
  show ?case
  proof (cases "\<not> dd_tripped f \<and> dd_path f = path")
    case True
    then have "folders' = f\<lparr>dd_tripped := True\<rparr> # folders"
      using Cons.prems(1) by (cases "judge env fs f") simp_all
    moreover have "path \<notin> dd_path ` set folders" using Cons.prems(2) True by simp
    ultimately show ?thesis by auto
  next
    case False
    then obtain fs2 where "check_folders env fs path folders = (Some incident, fs2)" "folders' = f # fs2"
      using Cons.prems(1) by (auto split: prod.splits)
    with Cons.IH [of fs2] Cons.prems(2) False show ?thesis by auto
  qed
qed simp

lemma check_folders_exact:
  "fst (check_folders env fs path folders) =
     (case find (\<lambda>f. \<not> dd_tripped f \<and> dd_path f = path) folders of
        None \<Rightarrow> None | Some f \<Rightarrow> judge env fs f)"
  by (induction folders) (auto split: option.splits prod.splits)

lemma check_folders_inactive:
  "path \<notin> dd_path ` set (filter (\<lambda>f. \<not> dd_tripped f) folders) \<Longrightarrow> fst (check_folders env fs path folders) = None"
  by (induction folders) (auto split: prod.splits if_splits)

section \<open>Removing\<close>

text \<open>What \<open>remove_all\<close> may delete: decoys still as deployed, files of the operating system beside them, and folders.\<close>

definition removable :: "canary_env \<Rightarrow> decoy_folder list \<Rightarrow> cfs \<Rightarrow> fpath \<Rightarrow> bool" where
  "removable env folders fs p \<longleftrightarrow>
     (\<exists>folder\<in>set folders.
        (\<exists>file\<in>set (dd_files folder). p = dd_path folder @ [df_name file] \<and> is_intact env fs (dd_path folder) file) \<or>
        (\<exists>name\<in>set OS_METADATA_FILES. p = dd_path folder @ [name]) \<or>
        p = dd_path folder)"

lemma remove_file_map: "map_of (remove_file p fs) q = map_of fs q \<or> q = p \<and> map_of (remove_file p fs) q = None"
  by (auto simp: remove_file_def delete_conv' split: option.splits node.splits)

lemma remove_dir_map: "map_of (snd (remove_dir p fs)) q = map_of fs q \<or> q = p \<and> map_of (snd (remove_dir p fs)) q = None"
  by (auto simp: remove_dir_def delete_conv' split: option.splits node.splits)

text \<open>Whatever a step leaves is as it was.\<close>

definition only_removed :: "(fpath \<Rightarrow> bool) \<Rightarrow> cfs \<Rightarrow> cfs \<Rightarrow> bool" where
  "only_removed P fs fs' \<longleftrightarrow> (\<forall>p. map_of fs' p = map_of fs p \<or> P p \<and> map_of fs' p = None)"

lemma only_removed_refl [simp]: "only_removed P fs fs"
  by (simp add: only_removed_def)

lemma only_removed_trans: "only_removed P fs fs1 \<Longrightarrow> only_removed P fs1 fs2 \<Longrightarrow> only_removed P fs fs2"
  by (auto simp: only_removed_def) metis+

lemma is_intact_before:
  "only_removed P fs fs' \<Longrightarrow> is_intact env fs' dir file \<Longrightarrow> is_intact env fs dir file"
  by (auto simp: only_removed_def is_intact_def split: option.splits) (metis option.distinct(1) option.inject)+

lemma fold_only_removed:
  assumes "\<And>x fs'. x \<in> set xs \<Longrightarrow> only_removed P fs fs' \<Longrightarrow> only_removed P fs' (f x fs')" and "only_removed P fs fs1"
  shows "only_removed P fs (fold f xs fs1)"
  using assms
proof (induction xs arbitrary: fs1)
  case (Cons x xs)
  from Cons.prems have "only_removed P fs (f x fs1)" using only_removed_trans by (metis list.set_intros(1))
  with Cons show ?case by simp
qed simp

lemma remove_folder_only:
  assumes folder: "folder \<in> set folders" and before: "only_removed (removable env folders fs) fs fs1"
  shows "only_removed (removable env folders fs) fs (snd (remove_folder env folder (n, fs1)))"
proof (cases "\<exists>uid. map_of fs1 (dd_path folder) = Some (NDir uid)")
  case True
  let ?P = "removable env folders fs" and ?dir = "dd_path folder"
  have decoy: "only_removed ?P fs' (remove_decoy env ?dir d fs')"
    if "d \<in> set (dd_files folder)" "only_removed ?P fs fs'" for d fs'
  proof (cases "is_intact env fs' ?dir d")
    case True
    from is_intact_before [OF that(2) True] that(1) folder have "?P (?dir @ [df_name d])"
      unfolding removable_def by blast
    with True show ?thesis using remove_file_map [of "?dir @ [df_name d]" fs']
      unfolding remove_decoy_def only_removed_def by auto
  qed (simp add: remove_decoy_def)
  have os: "only_removed ?P fs' (remove_file (?dir @ [name]) fs')" if "name \<in> set OS_METADATA_FILES" for name fs'
    using that folder remove_file_map [of "?dir @ [name]" fs'] unfolding removable_def only_removed_def by blast
  let ?fs1 = "fold (remove_decoy env ?dir) (dd_files folder) fs1"
  let ?fs2 = "fold (\<lambda>name. remove_file (?dir @ [name])) OS_METADATA_FILES ?fs1"
  have "only_removed ?P fs ?fs2"
    by (intro fold_only_removed decoy os before)
  moreover have "only_removed ?P ?fs2 (snd (remove_dir ?dir ?fs2))"
    unfolding only_removed_def removable_def using folder remove_dir_map [of ?dir ?fs2] by blast
  ultimately have "only_removed ?P fs (snd (remove_dir ?dir ?fs2))" by (rule only_removed_trans)
  with True show ?thesis by (auto simp: remove_folder_def Let_def split: prod.splits)
next
  case False
  then have "remove_folder env folder (n, fs1) = (n, fs1)"
    by (auto simp: remove_folder_def split: option.splits node.splits)
  with before show ?thesis by simp
qed

lemma remove_folders_only:
  "set xs \<subseteq> set folders \<Longrightarrow> only_removed (removable env folders fs) fs (snd s) \<Longrightarrow>
   only_removed (removable env folders fs) fs (snd (fold (remove_folder env) xs s))"
proof (induction xs arbitrary: s)
  case (Cons x xs)
  then have "only_removed (removable env folders fs) fs (snd (remove_folder env x s))"
    using remove_folder_only [of x folders env fs "snd s" "fst s"] by simp
  with Cons show ?case by simp
qed simp

text \<open>C29: Turning the protection off deletes nothing but decoys still exactly as deployed, files the operating system
  drops into any folder, and the decoy folders themselves; everything else stays as it is.\<close>

theorem remove_all_keeps_the_rest:
  "map_of (fst (snd (remove_all env fs cm))) p = map_of fs p \<or>
   removable env (mf_folders (cm_manifest cm)) fs p \<and> map_of (fst (snd (remove_all env fs cm))) p = None"
  using remove_folders_only [of "mf_folders (cm_manifest cm)" "mf_folders (cm_manifest cm)" env fs "(0, fs)"]
  by (cases "fold (remove_folder env) (mf_folders (cm_manifest cm)) (0, fs)")
     (simp add: remove_all_def only_removed_def)

section \<open>Reporting\<close>

lemma check_exact:
  "fst (check env fs path cm) =
     (case find (\<lambda>f. \<not> dd_tripped f \<and> dd_path f = path) (mf_folders (cm_manifest cm)) of
        None \<Rightarrow> None | Some f \<Rightarrow> judge env fs f)"
  using check_folders_exact [of env fs path "mf_folders (cm_manifest cm)"]
  by (auto simp: check_def split: prod.splits option.splits)

lemma check_folders_after:
  "snd (check env fs path cm) = cm \<and> fst (check env fs path cm) = None \<or>
   (\<exists>i folders. check_folders env fs path (mf_folders (cm_manifest cm)) = (Some i, folders) \<and>
      fst (check env fs path cm) = Some i \<and> mf_folders (cm_manifest (snd (check env fs path cm))) = folders)"
  by (auto simp: check_def save_manifest_def set_folders_def split: prod.splits option.splits)

lemma find_other:
  "path \<noteq> q \<Longrightarrow> find (\<lambda>f. \<not> dd_tripped f \<and> dd_path f = q) (snd (check_folders env fs path folders)) =
     find (\<lambda>f. \<not> dd_tripped f \<and> dd_path f = q) folders"
  by (induction folders) (auto split: option.splits prod.splits)

lemma check_other:
  assumes "path \<noteq> q"
  shows "fst (check env fs q (snd (check env fs path cm))) = fst (check env fs q cm)"
proof -
  have "find (\<lambda>f. \<not> dd_tripped f \<and> dd_path f = q) (mf_folders (cm_manifest (snd (check env fs path cm)))) =
      find (\<lambda>f. \<not> dd_tripped f \<and> dd_path f = q) (mf_folders (cm_manifest cm))"
    using check_folders_after [of env fs path cm]
  proof
    assume "\<exists>i folders. check_folders env fs path (mf_folders (cm_manifest cm)) = (Some i, folders) \<and>
        fst (check env fs path cm) = Some i \<and> mf_folders (cm_manifest (snd (check env fs path cm))) = folders"
    then obtain i folders where "check_folders env fs path (mf_folders (cm_manifest cm)) = (Some i, folders)"
      "mf_folders (cm_manifest (snd (check env fs path cm))) = folders" by blast
    with find_other [OF assms, of env fs "mf_folders (cm_manifest cm)"] show ?thesis by simp
  qed simp
  then show ?thesis by (simp add: check_exact)
qed

lemma judge_folder: "judge env fs f = Some i \<Longrightarrow> ci_folder i = dd_path f"
  by (auto simp: judge_def Let_def split: if_splits)

lemma check_folder: "fst (check env fs path cm) = Some i \<Longrightarrow> ci_folder i = path"
  by (auto simp: check_exact find_Some_iff dest!: judge_folder split: option.splits)

definition demo_canary_env :: canary_env where
  "demo_canary_env =
     \<lparr>ce_blake3 = (\<lambda>s. CHR ''h'' # s), ce_xof = (\<lambda>seed n. replicate n (CHR ''x'')), ce_name_hash = (\<lambda>_. ''abcdef''),
      ce_write_ok = (\<lambda>_. True), ce_manifest_writable = True, ce_euid = 0, ce_now = 5\<rparr>"

definition demo_folder :: decoy_folder where
  "demo_folder =
     \<lparr>dd_path = [''home'', ''d''], dd_files = [\<lparr>df_name = ''a.pdf'', df_hash = ''ha''\<rparr>], dd_deployed_at = 1, dd_tripped = False\<rparr>"

definition demo_canaries :: canary_manager where
  "demo_canaries = \<lparr>cm_manifest = \<lparr>mf_version = 1, mf_folders = [demo_folder]\<rparr>, cm_saved = None\<rparr>"

text \<open>The decoy was rewritten.\<close>

definition demo_cfs :: cfs where
  "demo_cfs = [([''home''], NDir 7), ([''home'', ''d''], NDir 7), ([''home'', ''d'', ''a.pdf''], NFile ''z'' True)]"

text \<open>A check reports a folder exactly when it is watched and one of its decoys is no longer as deployed, and having
  reported it never reports it again, whatever happens to it.\<close>

theorem tampering_is_reported_once:
  assumes "distinct (map dd_path (mf_folders (cm_manifest cm)))" and "check env fs path cm = (incident, cm')"
  shows "(incident \<noteq> None \<longleftrightarrow>
      (\<exists>folder\<in>set (mf_folders (cm_manifest cm)). \<not> dd_tripped folder \<and> dd_path folder = path \<and>
         \<not> list_all (is_intact env fs path) (dd_files folder))) \<and>
    (incident = None \<or> fst (check env2 fs2 path cm') = None)"
proof -
  let ?folders = "mf_folders (cm_manifest cm)"
  have inc: "incident = (case find (\<lambda>f. \<not> dd_tripped f \<and> dd_path f = path) ?folders of
      None \<Rightarrow> None | Some f \<Rightarrow> judge env fs f)"
    using check_exact [of env fs path cm] assms(2) by simp
  have "incident \<noteq> None \<longleftrightarrow> (\<exists>folder\<in>set ?folders. \<not> dd_tripped folder \<and> dd_path folder = path \<and>
      \<not> list_all (is_intact env fs path) (dd_files folder))"
  proof (cases "find (\<lambda>f. \<not> dd_tripped f \<and> dd_path f = path) ?folders")
    case None
    with inc show ?thesis by (auto simp: find_None_iff)
  next
    case (Some f)
    then have f: "f \<in> set ?folders" "\<not> dd_tripped f" "dd_path f = path" by (auto simp: find_Some_iff)
    have u: "g = f" if "g \<in> set ?folders" "dd_path g = path" for g
      using assms(1) that f by (auto simp: distinct_map inj_on_def)
    have "incident \<noteq> None \<longleftrightarrow> \<not> list_all (is_intact env fs path) (dd_files f)"
      using inc Some judge_None_iff [of env fs f] f(3) by simp
    with f u show ?thesis by blast
  qed
  moreover have "incident = None \<or> fst (check env2 fs2 path cm') = None"
  proof (cases incident)
    case (Some i)
    then obtain folders where c: "check_folders env fs path ?folders = (Some i, folders)" "mf_folders (cm_manifest cm') = folders"
      using check_folders_after [of env fs path cm] assms(2) by auto
    from check_folders_once [OF c(1) assms(1)] c(2) check_folders_inactive have
      "fst (check_folders env2 fs2 path (mf_folders (cm_manifest cm'))) = None" by blast
    then show ?thesis by (simp add: check_exact check_folders_exact)
  qed simp
  ultimately show ?thesis by blast
qed

theorem tampering_is_reported_once_witness:
  "fst (check demo_canary_env demo_cfs [''home'', ''d''] demo_canaries) \<noteq> None \<and>
   fst (check demo_canary_env demo_cfs [''home'', ''d''] (snd (check demo_canary_env demo_cfs [''home'', ''d''] demo_canaries))) = None"
proof -
  have "distinct (map dd_path (mf_folders (cm_manifest demo_canaries)))" by (simp add: demo_canaries_def)
  from tampering_is_reported_once [OF this, of demo_canary_env demo_cfs "[''home'', ''d'']" _ _ demo_canary_env demo_cfs]
  have t: "fst (check demo_canary_env demo_cfs [''home'', ''d''] demo_canaries) \<noteq> None \<longleftrightarrow>
      (\<exists>folder\<in>set (mf_folders (cm_manifest demo_canaries)). \<not> dd_tripped folder \<and> dd_path folder = [''home'', ''d''] \<and>
         \<not> list_all (is_intact demo_canary_env demo_cfs [''home'', ''d'']) (dd_files folder))"
    "fst (check demo_canary_env demo_cfs [''home'', ''d''] demo_canaries) = None \<or>
     fst (check demo_canary_env demo_cfs [''home'', ''d''] (snd (check demo_canary_env demo_cfs [''home'', ''d''] demo_canaries))) = None"
    by (metis prod.collapse)+
  have "\<not> list_all (is_intact demo_canary_env demo_cfs [''home'', ''d'']) (dd_files demo_folder)"
    by (simp add: demo_folder_def is_intact_def demo_cfs_def demo_canary_env_def)
  with t show ?thesis by (auto simp: demo_canaries_def demo_folder_def)
qed

section \<open>In time\<close>

text \<open>A tampered folder among those checked is reported, or the channel is full.\<close>

lemma check_due_facts:
  assumes "check_due env fs q (cw, cm) = (cw', cm')"
  shows "cm' = snd (check env fs q cm)" and "cw_capacity cw' = cw_capacity cw"
    and "set (cw_queue cw) \<subseteq> set (cw_queue cw') \<and> length (cw_queue cw) \<le> length (cw_queue cw')"
    and "fst (check env fs q cm) = Some i \<Longrightarrow> i \<in> set (cw_queue cw') \<or> cw_capacity cw' \<le> length (cw_queue cw')"
  using assms by (auto simp: check_due_def Let_def split: prod.splits option.splits if_splits)

lemma fold_check_due:
  assumes "fst (check env fs p cm) \<noteq> None \<and> p \<in> set qs \<or>
      ((\<exists>i\<in>set (cw_queue cw). ci_folder i = p) \<or> cw_capacity cw \<le> length (cw_queue cw))"
    and "fold (check_due env fs) qs (cw, cm) = (cw', cm')"
  shows "(\<exists>i\<in>set (cw_queue cw'). ci_folder i = p) \<or> cw_capacity cw' \<le> length (cw_queue cw')"
  using assms
proof (induction qs arbitrary: cw cm)
  case (Cons q qs)
  obtain cw1 cm1 where c: "check_due env fs q (cw, cm) = (cw1, cm1)" by (cases "check_due env fs q (cw, cm)")
  note facts = check_due_facts [OF c]
  have "fst (check env fs p cm1) \<noteq> None \<and> p \<in> set qs \<or>
      ((\<exists>i\<in>set (cw_queue cw1). ci_folder i = p) \<or> cw_capacity cw1 \<le> length (cw_queue cw1))"
  proof (cases "(\<exists>i\<in>set (cw_queue cw). ci_folder i = p) \<or> cw_capacity cw \<le> length (cw_queue cw)")
    case True
    with facts(2,3) show ?thesis by auto
  next
    case False
    with Cons.prems(1) have p: "fst (check env fs p cm) \<noteq> None" "p \<in> set (q # qs)" by auto
    show ?thesis
    proof (cases "q = p")
      case True
      with p facts(4) check_folder show ?thesis by blast
    next
      case q: False
      with p facts(1) check_other [OF q, of env fs cm] show ?thesis by auto
    qed
  qed
  with Cons.IH [of cm1 cw1] Cons.prems(2) c show ?case by simp
qed auto

text \<open>C30: A decoy folder that is watched and tampered with is reported by the turn of the watcher that comes thirty seconds
  after the last check of all folders, with or without a file system event, unless the channel is full.\<close>

theorem tampering_is_reported_in_time:
  assumes "folder \<in> set (mf_folders (cm_manifest cm))" and "\<not> dd_tripped folder"
    and "distinct (map dd_path (mf_folders (cm_manifest cm)))"
    and "\<not> list_all (is_intact env fs (dd_path folder)) (dd_files folder)"
    and "dd_path folder \<in> set folders" and "FULL_CHECK_INTERVAL \<le> now - cw_last_full_check cw"
    and "watch_turn env fs spellings folders now paths (cw, cm) = (cw', cm')"
  shows "(\<exists>i\<in>set (cw_queue cw'). ci_folder i = dd_path folder) \<or> cw_capacity cw' \<le> length (cw_queue cw')"
proof -
  let ?cw1 = "fold (note_event spellings now) paths cw"
  have "cw_last_full_check (fold (note_event spellings now) ps x) = cw_last_full_check x" for ps x
    by (induction ps arbitrary: x) (auto simp: note_event_def split: option.splits)
  then have "watch_turn env fs spellings folders now paths (cw, cm) =
      fold (check_due env fs) folders (?cw1\<lparr>cw_last_full_check := now\<rparr>, cm)"
    using assms(6) by (simp add: watch_turn_def Let_def)
  moreover have "fst (check env fs (dd_path folder) cm) \<noteq> None"
  proof -
    from assms(1,2) obtain f where f: "find (\<lambda>f. \<not> dd_tripped f \<and> dd_path f = dd_path folder) (mf_folders (cm_manifest cm)) = Some f"
      by (cases "find (\<lambda>f. \<not> dd_tripped f \<and> dd_path f = dd_path folder) (mf_folders (cm_manifest cm))")
         (auto simp: find_None_iff)
    then have "f \<in> set (mf_folders (cm_manifest cm))" "dd_path f = dd_path folder" by (auto simp: find_Some_iff)
    with assms(1,3) have "f = folder" by (auto simp: distinct_map inj_on_def)
    with f assms(4) judge_None_iff show ?thesis by (auto simp: check_exact)
  qed
  ultimately show ?thesis
    using fold_check_due [of env fs "dd_path folder" cm folders "?cw1\<lparr>cw_last_full_check := now\<rparr>" cw' cm'] assms(5,7)
    by simp
qed

theorem tampering_is_reported_in_time_witness:
  "let cw' = fst (watch_turn demo_canary_env demo_cfs [] [[''home'', ''d'']] (31 * 10 ^ 9) []
        (\<lparr>cw_pending = [], cw_last_full_check = 0, cw_queue = [], cw_capacity = 64\<rparr>, demo_canaries))
   in (\<exists>i\<in>set (cw_queue cw'). ci_folder i = [''home'', ''d'']) \<or> cw_capacity cw' \<le> length (cw_queue cw')"
proof -
  have "demo_folder \<in> set (mf_folders (cm_manifest demo_canaries))" "\<not> dd_tripped demo_folder"
    "distinct (map dd_path (mf_folders (cm_manifest demo_canaries)))" "dd_path demo_folder = [''home'', ''d'']"
    by (simp_all add: demo_canaries_def demo_folder_def)
  moreover have "\<not> list_all (is_intact demo_canary_env demo_cfs (dd_path demo_folder)) (dd_files demo_folder)"
    by (simp add: demo_folder_def is_intact_def demo_cfs_def demo_canary_env_def)
  ultimately show ?thesis
    using tampering_is_reported_in_time [of demo_folder demo_canaries demo_canary_env demo_cfs "[[''home'', ''d'']]" "31 * 10 ^ 9"
        "\<lparr>cw_pending = [], cw_last_full_check = 0, cw_queue = [], cw_capacity = 64\<rparr>" "[]" "[]"]
    by (simp add: FULL_CHECK_INTERVAL_def Let_def) (metis prod.collapse)
qed

section \<open>What is forgotten\<close>

text \<open>
  A folder that lost a decoy while the agent was stopped leaves the list without being deleted: the decoys
  left in it are no longer known, so turning the protection off does not remove them.
\<close>

lemma deploy_targets_folders:
  "deploy_targets env targets (folders, skipped, fs) = (folders', skipped', fs') \<Longrightarrow>
   f \<in> set folders' \<Longrightarrow> f \<in> set folders \<or> dd_deployed_at f = ce_now env"
proof (induction env targets "(folders, skipped, fs)" arbitrary: folders skipped fs rule: deploy_targets.induct)
  case (2 env target targets folders skipped fs)
  show ?case
  proof (cases "list_ex (\<lambda>f. dd_path f \<noteq> [] \<and> butlast (dd_path f) = ct_directory target) folders")
    case True
    with 2 show ?thesis by simp
  next
    case False
    obtain r fs1 where c: "create_folder env target fs = (r, fs1)" by (cases "create_folder env target fs")
    show ?thesis
    proof (cases r)
      case None
      with 2(2) [OF False c [symmetric] None] 2(4,5) False c show ?thesis by auto
    next
      case (Some folder)
      have "dd_deployed_at folder = ce_now env"
        using c Some by (auto simp: create_folder_def Let_def split: prod.splits bool.splits)
      with 2(3) [OF False c [symmetric] Some] 2(4,5) False c Some show ?thesis by auto
    qed
  qed
qed simp

lemma tampered_folder_is_forgotten:
  assumes "deploy env targets fs cm = (rep, fs', cm')" and "judge env fs folder \<noteq> None" and "dd_deployed_at folder \<noteq> ce_now env"
  shows "folder \<notin> set (mf_folders (cm_manifest cm'))"
proof
  assume f: "folder \<in> set (mf_folders (cm_manifest cm'))"
  obtain folders skipped fs1 where d: "deploy_targets env targets
      (filter (\<lambda>f. \<not> dd_tripped f \<and> judge env fs f = None) (mf_folders (cm_manifest cm)), [], fs) = (folders, skipped, fs1)"
    by (cases "deploy_targets env targets
      (filter (\<lambda>f. \<not> dd_tripped f \<and> judge env fs f = None) (mf_folders (cm_manifest cm)), [], fs)") auto
  with assms(1) f have "folder \<in> set folders"
    by (auto simp: deploy_def judge_deployed_def save_manifest_def set_folders_def split: if_splits)
  from deploy_targets_folders [OF d this] assms(2,3) show False by simp
qed

end
