(* ===== verification/Pf_Blocklist.thy ===== *)
theory Pf_Blocklist imports Ip_Block begin

text \<open>
  The blocklist of macOS (\<open>crates/agent-core/src/edr_actions/pf_blocklist.rs\<close>): a recorded set of addresses, from which
  the rules of one anchor of pf are rewritten as a whole, and the reference that keeps pf enabled.

  \<open>pfctl\<close> is reached through the trait \<open>Pfctl\<close>, the parameter \<open>run\<close>; what the rules file holds is an argument of it, since
  one of its commands reads that file. The text of an address and the JSON of the record are parameters. Every write
  and removal of a file takes one element of \<open>ph_faults\<close>, which says whether it fails.
\<close>

section \<open>Rules and arguments\<close>

definition PF_ANCHOR :: string where "PF_ANCHOR = ''com.apple/sentinel-blocklist''"

text \<open>The addresses are in order and without duplicates.\<close>

record blocklist =
  bl_blocked :: "ip_addr list"
  bl_pf_token :: "string option"

definition pf_rules :: "(ip_addr \<Rightarrow> string) \<Rightarrow> ip_addr list \<Rightarrow> string" where
  "pf_rules addr_text blocked =
     ''# Sentinel GRC - blocked IP addresses. Managed by the agent, do not edit.'' @ [CHR 0x0A] @
     concat (map (\<lambda>ip. ''block drop quick from '' @ addr_text ip @ '' to any'' @ [CHR 0x0A] @
                       ''block drop quick from any to '' @ addr_text ip @ [CHR 0x0A]) blocked)"

definition load_args :: "string \<Rightarrow> string list" where "load_args rules_file = [''-a'', PF_ANCHOR, ''-f'', rules_file]"
definition flush_args :: "string list" where "flush_args = [''-a'', PF_ANCHOR, ''-F'', ''all'']"
definition enable_args :: "string list" where "enable_args = [''-E'']"
definition release_args :: "string \<Rightarrow> string list" where "release_args token = [''-X'', token]"

definition kill_states_args :: "(ip_addr \<Rightarrow> string) \<Rightarrow> ip_addr \<Rightarrow> string list list" where
  "kill_states_args addr_text ip =
     [[''-k'', addr_text ip], [''-k'', if is_ipv6 ip then ''::/0'' else ''0.0.0.0/0'', ''-k'', addr_text ip]]"

definition token_of_line :: "string \<Rightarrow> string option" where
  "token_of_line line =
     (case split_once CHR '':'' line of
        None \<Rightarrow> None
      | Some (label, val) \<Rightarrow>
          if to_ascii_lowercase (trim label) = ''token'' \<and> trim val \<noteq> [] \<and> list_all is_ascii_digit (trim val)
          then Some (trim val) else None)"

definition pf_token :: "string \<Rightarrow> string option" where
  "pf_token out = (case List.map_filter token_of_line (lines out) of [] \<Rightarrow> None | t # _ \<Rightarrow> Some t)"

section \<open>The host\<close>

text \<open>\<^const>\<open>Inr\<close> is what \<open>pfctl\<close> printed, \<^const>\<open>Inl\<close> the text of its failure.\<close>

type_synonym 'w pfctl = "string option \<Rightarrow> string list \<Rightarrow> 'w \<Rightarrow> (string + string) \<times> 'w"

record pf_env =
  pe_text :: "ip_addr \<Rightarrow> string"
  pe_encode :: "blocklist \<Rightarrow> string"
  pe_decode :: "string \<Rightarrow> blocklist option"
  pe_rules_path :: string

text \<open>The packet filter, the record and the rules file with what reading them gives, the faults of the disk to come.\<close>

record 'w pf_host =
  ph_pf :: 'w
  ph_state :: "string option"
  ph_rules :: "string option"
  ph_faults :: "bool list"

definition run_pf :: "'w pfctl \<Rightarrow> string list \<Rightarrow> 'w pf_host \<Rightarrow> (string + string) \<times> 'w pf_host" where
  "run_pf run argv h = (case run (ph_rules h) argv (ph_pf h) of (res, w) \<Rightarrow> (res, h\<lparr>ph_pf := w\<rparr>))"

definition disk_fails :: "'w pf_host \<Rightarrow> bool" where
  "disk_fails h \<longleftrightarrow> ph_faults h \<noteq> [] \<and> hd (ph_faults h)"

definition disk_used :: "'w pf_host \<Rightarrow> 'w pf_host" where
  "disk_used h = h\<lparr>ph_faults := tl (ph_faults h)\<rparr>"

definition load_record :: "pf_env \<Rightarrow> 'w pf_host \<Rightarrow> blocklist" where
  "load_record env h =
     (let default = \<lparr>bl_blocked = [], bl_pf_token = None\<rparr> in
      case ph_state h of
        Some bytes \<Rightarrow> unwrap_or (pe_decode env bytes) default
      | None \<Rightarrow> default)"

text \<open>As in \<open>Ip_Block\<close>, \<^const>\<open>None\<close> is \<open>Ok(())\<close>. A file is written beside its destination and moved over it.\<close>

definition save_record :: "pf_env \<Rightarrow> blocklist \<Rightarrow> 'w pf_host \<Rightarrow> string option \<times> 'w pf_host" where
  "save_record env bl h =
     (if disk_fails h then (Some ''cannot write'', disk_used h)
      else (None, (disk_used h)\<lparr>ph_state := Some (pe_encode env bl)\<rparr>))"

definition write_rules_file :: "string \<Rightarrow> 'w pf_host \<Rightarrow> string option \<times> 'w pf_host" where
  "write_rules_file contents h =
     (if disk_fails h then (Some ''cannot write'', disk_used h)
      else (None, (disk_used h)\<lparr>ph_rules := Some contents\<rparr>))"

definition remove_record :: "'w pf_host \<Rightarrow> string option \<times> 'w pf_host" where
  "remove_record h =
     (if ph_state h = None then (None, h)
      else if disk_fails h then (Some ''cannot delete'', disk_used h)
      else (None, (disk_used h)\<lparr>ph_state := None\<rparr>))"

definition remove_rules_file :: "'w pf_host \<Rightarrow> 'w pf_host" where
  "remove_rules_file h = (if disk_fails h then disk_used h else (disk_used h)\<lparr>ph_rules := None\<rparr>)"

section \<open>Blocking and unblocking\<close>

definition load_anchor :: "'w pfctl \<Rightarrow> pf_env \<Rightarrow> ip_addr list \<Rightarrow> 'w pf_host \<Rightarrow> string option \<times> 'w pf_host" where
  "load_anchor run env blocked h =
     (if blocked = [] then
        (case run_pf run flush_args h of
           (Inl e, h1) \<Rightarrow> (Some e, h1)
         | (Inr _, h1) \<Rightarrow> (None, remove_rules_file h1))
      else
        (case write_rules_file (pf_rules (pe_text env) blocked) h of
           (Some e, h1) \<Rightarrow> (Some e, h1)
         | (None, h1) \<Rightarrow>
             (case run_pf run (load_args (pe_rules_path env)) h1 of
                (Inl e, h2) \<Rightarrow> (Some e, h2)
              | (Inr _, h2) \<Rightarrow> (None, h2))))"

definition release :: "'w pfctl \<Rightarrow> string option \<Rightarrow> 'w pf_host \<Rightarrow> 'w pf_host" where
  "release run token h = (case token of None \<Rightarrow> h | Some t \<Rightarrow> snd (run_pf run (release_args t) h))"

text \<open>The rules are loaded, then recorded; the first failure counts.\<close>

definition load_and_save :: "'w pfctl \<Rightarrow> pf_env \<Rightarrow> blocklist \<Rightarrow> 'w pf_host \<Rightarrow> string option \<times> 'w pf_host" where
  "load_and_save run env bl h =
     (case load_anchor run env (bl_blocked bl) h of
        (None, h1) \<Rightarrow> save_record env bl h1
      | (Some e, h1) \<Rightarrow> (Some e, h1))"

definition apply_blocklist ::
  "'w pfctl \<Rightarrow> pf_env \<Rightarrow> blocklist \<Rightarrow> ip_addr list \<Rightarrow> 'w pf_host \<Rightarrow> string option \<times> 'w pf_host" where
  "apply_blocklist run env previous blocked h =
     (if blocked = [] then
        (case load_anchor run env blocked h of
           (Some e, h1) \<Rightarrow> (Some e, h1)
         | (None, h1) \<Rightarrow> remove_record (release run (bl_pf_token previous) h1))
      else
        (case run_pf run enable_args h of
           (Inl e, h1) \<Rightarrow> (Some e, h1)
         | (Inr out, h1) \<Rightarrow>
             (let next_list = \<lparr>bl_blocked = blocked, bl_pf_token = pf_token out\<rparr> in
              case load_and_save run env next_list h1 of
                (None, h2) \<Rightarrow> (None, release run (bl_pf_token previous) h2)
              | (Some e, h2) \<Rightarrow>
                  (Some e, release run (bl_pf_token next_list)
                             (snd (load_anchor run env (bl_blocked previous) h2))))))"

definition pf_block :: "'w pfctl \<Rightarrow> pf_env \<Rightarrow> ip_addr \<Rightarrow> 'w pf_host \<Rightarrow> string option \<times> 'w pf_host" where
  "pf_block run env ip h =
     (let current = load_record env h in
      case apply_blocklist run env current (List.insort_insert ip (bl_blocked current)) h of
        (Some e, h1) \<Rightarrow> (Some e, h1)
      | (None, h1) \<Rightarrow> (None, fold (\<lambda>argv h. snd (run_pf run argv h)) (kill_states_args (pe_text env) ip) h1))"

definition pf_unblock :: "'w pfctl \<Rightarrow> pf_env \<Rightarrow> ip_addr \<Rightarrow> 'w pf_host \<Rightarrow> string option \<times> 'w pf_host" where
  "pf_unblock run env ip h =
     (let current = load_record env h in
      if ip \<notin> set (bl_blocked current) then (None, h)
      else apply_blocklist run env current (remove1 ip (bl_blocked current)) h)"

text \<open>\<^const>\<open>Inr\<close>: how many addresses are blocked again.\<close>

definition pf_restore :: "'w pfctl \<Rightarrow> pf_env \<Rightarrow> 'w pf_host \<Rightarrow> (string + nat) \<times> 'w pf_host" where
  "pf_restore run env h =
     (let current = load_record env h;
          count = length (bl_blocked current)
      in if 0 < count
         then (case apply_blocklist run env current (bl_blocked current) h of
                 (Some e, h1) \<Rightarrow> (Inl e, h1)
               | (None, h1) \<Rightarrow> (Inr count, h1))
         else (Inr count, h))"

end
