(* ===== verification/Pf_Blocklist_Props.thy ===== *)
theory Pf_Blocklist_Props imports Pf_Blocklist begin

text \<open>
  What a change of the pf blocklist leaves behind, whatever fails on the way: a success puts the new rules in force and records
  them, a failure leaves the record and the references alone; and the cases in which the code promises more than it keeps.
\<close>

section \<open>What the code relies on\<close>

definition anchored :: "pf_env \<Rightarrow> ip_addr list \<Rightarrow> string" where
  "anchored env blocked = (if blocked = [] then [] else pf_rules (pe_text env) blocked)"

text \<open>The record, the rules and the reference agree: \<open>bl\<close> is recorded, loaded and keeps pf enabled.\<close>

definition in_force ::
  "('w \<Rightarrow> string) \<Rightarrow> ('w \<Rightarrow> string list) \<Rightarrow> pf_env \<Rightarrow> blocklist \<Rightarrow> 'w pf_host \<Rightarrow> bool" where
  "in_force anchor held env bl h \<longleftrightarrow>
     load_record env h = bl \<and> anchor (ph_pf h) = anchored env (bl_blocked bl) \<and>
     (case bl_pf_token bl of Some t \<Rightarrow> t \<in> set (held (ph_pf h)) | None \<Rightarrow> True)"

lemma in_force_cong:
  "ph_state h' = ph_state h \<Longrightarrow> anchor (ph_pf h') = anchor (ph_pf h) \<Longrightarrow> held (ph_pf h') = held (ph_pf h) \<Longrightarrow>
   in_force anchor held env bl h' \<longleftrightarrow> in_force anchor held env bl h"
  by (simp add: in_force_def load_record_def cong: option.case_cong)


lemma disk_used_simps [simp]:
  "ph_pf (disk_used h) = ph_pf h" "ph_state (disk_used h) = ph_state h" "ph_rules (disk_used h) = ph_rules h"
  by (simp_all add: disk_used_def)


section \<open>A packet filter\<close>

text \<open>
  What pf does with the commands: the rules of the anchor, the references handed out (\<open>pt_outputs\<close>: what the next \<open>-E\<close> print),
  and which commands fail.
\<close>

record pf_table =
  pt_rules :: string
  pt_tokens :: "string list"
  pt_outputs :: "string list"
  pt_faults :: "bool list"

definition pf_table_run :: "pf_table pfctl" where
  "pf_table_run rules_file argv w =
     (let w1 = w\<lparr>pt_faults := tl (pt_faults w)\<rparr> in
      if pt_faults w \<noteq> [] \<and> hd (pt_faults w) then (Inl ''Operation not permitted'', w1)
      else if argv = enable_args
      then (let out = (case pt_outputs w of [] \<Rightarrow> [] | printed # _ \<Rightarrow> printed)
            in (Inr out, w1\<lparr>pt_outputs := tl (pt_outputs w),
                            pt_tokens := (case pf_token out of Some t \<Rightarrow> t # pt_tokens w | None \<Rightarrow> pt_tokens w)\<rparr>))
      else if argv = flush_args then (Inr [], w1\<lparr>pt_rules := []\<rparr>)
      else (case argv of
              [a, anchor, f, path] \<Rightarrow>
                if a = ''-a'' \<and> anchor = PF_ANCHOR \<and> f = ''-f''
                then (case rules_file of Some r \<Rightarrow> (Inr [], w1\<lparr>pt_rules := r\<rparr>) | None \<Rightarrow> (Inl ''No such file'', w1))
                else (Inr [], w1)
            | [x, t] \<Rightarrow>
                if x = ''-X'' then (if t \<in> set (pt_tokens w) then (Inr [], w1\<lparr>pt_tokens := remove1 t (pt_tokens w)\<rparr>)
                                    else (Inl ''No such token'', w1))
                else (Inr [], w1)
            | _ \<Rightarrow> (Inr [], w1)))"





section \<open>Properties\<close>





text \<open>
  The promise that the previous list stays in force when a change fails does not hold after a reboot: the recorded
  reference is gone, the failed change gives back the only one there is, and the rules it loaded filter nothing.
\<close>

lemma failed_restore_leaves_pf_disabled:
  assumes "load_record env h = cur" and "bl_blocked cur \<noteq> []"
    and "ph_pf h = \<lparr>pt_rules = [], pt_tokens = [], pt_outputs = [printed], pt_faults = []\<rparr>" and "pf_token printed = Some t"
    and "ph_faults h = [False, True]"
  shows "\<exists>e. fst (pf_restore pf_table_run env h) = Inl e"
    and "pt_tokens (ph_pf (snd (pf_restore pf_table_run env h))) = []"
    and "pt_rules (ph_pf (snd (pf_restore pf_table_run env h))) = anchored env (bl_blocked cur)"
  using assms
  by (simp_all add: pf_restore_def apply_blocklist_def load_and_save_def load_anchor_def save_record_def write_rules_file_def
      release_def run_pf_def disk_fails_def disk_used_def pf_table_run_def load_args_def flush_args_def enable_args_def
      release_args_def anchored_def Let_def)

text \<open>With a record that cannot be read, unblocking reports success and changes nothing: the address stays blocked.\<close>

lemma unreadable_record_stays_blocked:
  assumes "ph_state h = Some bytes" and "pe_decode env bytes = None"
  shows "pf_unblock run env ip h = (None, h)"
  using assms by (simp add: pf_unblock_def load_record_def unwrap_or_def)

text \<open>And blocking another address then lifts all the others.\<close>

lemma unreadable_record_is_replaced:
  assumes "ph_state h = Some bytes" and "pe_decode env bytes = None"
  shows "pf_block run env ip h =
    (case apply_blocklist run env \<lparr>bl_blocked = [], bl_pf_token = None\<rparr> [ip] h of
       (Some e, h1) \<Rightarrow> (Some e, h1)
     | (None, h1) \<Rightarrow> (None, fold (\<lambda>argv h. snd (run_pf run argv h)) (kill_states_args (pe_text env) ip) h1))"
  using assms by (simp add: pf_block_def load_record_def unwrap_or_def insort_insert_key_def)

end
