(* ===== verification/Async.thy ===== *)
theory Async imports Main begin

text \<open>
  Asynchronous functions (\<open>async fn\<close> run by \<open>tokio\<close>): a task either has its result or, given the state, runs to its next
  await point. Other tasks may run between two await points. \<open>run_alone\<close> is a task nothing interleaves with, a list of tasks
  stepped at any index is the general case.
\<close>

section \<open>Tasks\<close>

datatype ('s, 'a) async = Ret 'a | Await "'s \<Rightarrow> ('s, 'a) async \<times> 's"

text \<open>One call that is awaited.\<close>

definition await :: "('s \<Rightarrow> 'a \<times> 's) \<Rightarrow> ('s, 'a) async" where
  "await f = Await (\<lambda>s. case f s of (a, s') \<Rightarrow> (Ret a, s'))"

primrec after :: "('s, 'a) async \<Rightarrow> ('a \<Rightarrow> ('s, 'b) async) \<Rightarrow> ('s, 'b) async" where
  "after (Ret a) k = k a"
| "after (Await f) k = Await (\<lambda>s. map_prod (\<lambda>m. after m k) id (f s))"

primrec advance :: "('s, 'a) async \<Rightarrow> 's \<Rightarrow> ('s, 'a) async \<times> 's" where
  "advance (Ret a) s = (Ret a, s)"
| "advance (Await f) s = f s"

primrec run_alone :: "('s, 'a) async \<Rightarrow> 's \<Rightarrow> 'a \<times> 's" where
  "run_alone (Ret a) = (\<lambda>s. (a, s))"
| "run_alone (Await f) = (\<lambda>s. case map_prod run_alone id (f s) of (g, s') \<Rightarrow> g s')"

lemma run_await [simp]: "run_alone (await f) = f"
  by (rule ext) (simp add: await_def split: prod.split)

lemma run_after [simp]: "run_alone (after m k) s = (case run_alone m s of (a, s') \<Rightarrow> run_alone (k a) s')"
proof (induction m arbitrary: s)
  case (Await f)
  have "fst (f s) \<in> Basic_BNFs.fsts (f s)" by (simp add: fsts.simps prod_eq_iff)
  from Await [OF rangeI this] show ?case by (simp add: case_prod_beta)
qed simp

lemma after_await: "after (await f) k = Await (\<lambda>s. case f s of (a, s') \<Rightarrow> (k a, s'))"
  by (simp add: await_def fun_eq_iff split: prod.split)

section \<open>Interleaving\<close>

inductive tasks_step :: "'s \<times> ('s, 'a) async list \<Rightarrow> 's \<times> ('s, 'a) async list \<Rightarrow> bool" where
  advances: "i < length ts \<Longrightarrow> advance (ts ! i) s = (t, s') \<Longrightarrow> tasks_step (s, ts) (s', ts[i := t])"

text \<open>A task run alone is one of the ways the tasks can be interleaved.\<close>

lemma alone_interleaves:
  assumes "i < length ts" and "ts ! i = m" and "run_alone m s = (a, s')"
  shows "tasks_step\<^sup>*\<^sup>* (s, ts) (s', ts[i := Ret a])"
  using assms
proof (induction m arbitrary: s ts)
  case (Ret b)
  then have "ts[i := Ret a] = ts" by (metis Pair_inject list_update_id run_alone.simps(1))
  with Ret show ?case by simp
next
  case (Await f)
  obtain t s1 where f: "f s = (t, s1)" by (cases "f s")
  then have "t \<in> Basic_BNFs.fsts (f s)" by (simp add: fsts.simps prod_eq_iff)
  from Await.IH [OF rangeI this, of "ts[i := t]" s1] Await.prems f
  have "tasks_step\<^sup>*\<^sup>* (s1, ts[i := t]) (s', ts[i := Ret a])" by simp
  moreover have "tasks_step (s, ts) (s1, ts[i := t])" using Await.prems f by (intro advances) simp_all
  ultimately show ?case by (rule converse_rtranclp_into_rtranclp [rotated])
qed

end
