(* ===== verification/Account_Lock.thy ===== *)
theory Account_Lock imports Prelude Async "HOL-Library.List_Lexorder" "HOL-Library.Char_ord" "HOL-Library.AList" begin

text \<open>
  Locking a local account (\<open>crates/agent-core/src/edr_actions/account.rs\<close>): what is refused, the commands, the
  locks still to be lifted and the tasks that wait for their end; and the accounts and groups of a Linux host, as the
  inventory reads them (\<open>crates/agent-scanner/src/inventory.rs\<close>).

  The host is a parameter: \<open>ac_run\<close> runs a command on a state of type \<open>'w\<close>, \<open>ac_inventory\<close> lists its accounts and
  groups, \<open>ac_delegate\<close> hands a request to the privileged service, \<open>ac_writable\<close> says whether the file of pending locks can
  be written. That file is the map it holds (\<^const>\<open>None\<close>: absent or unreadable). Times are whole seconds.

  The operations are tasks: between two awaits (a command, reading or writing the file) others may run. Run alone they are
  \<open>disable_account\<close>, \<open>enable_account\<close> and \<open>reconcile_pending_locks\<close>.
\<close>

section \<open>Accounts\<close>

record user_account =
  ua_name :: string
  ua_id :: string
  ua_group_id :: "string option"
  ua_home :: "string option"
  ua_shell :: "string option"
  ua_can_log_in :: bool

record group_entry =
  ge_name :: string
  ge_id :: "string option"
  ge_members :: "string list"

text \<open>The part of the inventory the locks use.\<close>

record inventory =
  iv_users :: "user_account list"
  iv_groups :: "group_entry list"

definition is_root_equivalent :: "user_account \<Rightarrow> bool" where
  "is_root_equivalent u \<longleftrightarrow> ua_id u = ''0''"

section \<open>The inventory of Linux\<close>

definition MAX_ENTRIES :: nat where "MAX_ENTRIES = 5000"

definition NO_LOGIN_SHELLS :: "string list" where
  "NO_LOGIN_SHELLS = [''nologin'', ''false'', ''sync'', ''halt'', ''shutdown'']"

definition can_log_in :: "string option \<Rightarrow> bool" where
  "can_log_in shell =
     (case shell of
        None \<Rightarrow> False
      | Some sh \<Rightarrow> trim sh \<noteq> [] \<and> last (split_at_char CHR ''/'' sh) \<notin> set NO_LOGIN_SHELLS)"

definition field_of :: "string list \<Rightarrow> nat \<Rightarrow> string option" where
  "field_of fs i = (if i < length fs \<and> trim (fs ! i) \<noteq> [] then Some (trim (fs ! i)) else None)"

definition entry_lines :: "string \<Rightarrow> string list" where
  "entry_lines content = filter (\<lambda>l. \<not> prefix ''#'' l \<and> \<not> prefix ''+'' l) (lines content)"

definition parse_user :: "string \<Rightarrow> user_account option" where
  "parse_user line =
     (let fs = split_at_char CHR '':'' line in
      if length fs \<le> 2 \<or> trim (fs ! 0) = [] \<or> trim (fs ! 2) = [] then None
      else Some \<lparr>ua_name = trim (fs ! 0), ua_id = trim (fs ! 2), ua_group_id = field_of fs 3, ua_home = field_of fs 5,
                 ua_shell = field_of fs 6, ua_can_log_in = can_log_in (field_of fs 6)\<rparr>)"

definition parse_passwd :: "string \<Rightarrow> user_account list" where
  "parse_passwd content = take MAX_ENTRIES (List.map_filter parse_user (entry_lines content))"

definition parse_group_line :: "string \<Rightarrow> group_entry option" where
  "parse_group_line line =
     (let fs = split_at_char CHR '':'' line in
      if trim (fs ! 0) = [] then None
      else Some \<lparr>ge_name = trim (fs ! 0), ge_id = field_of fs 2,
                 ge_members = (if 3 < length fs
                               then filter (\<lambda>m. m \<noteq> []) (map trim (split_at_char CHR '','' (fs ! 3))) else [])\<rparr>)"

definition parse_group :: "string \<Rightarrow> group_entry list" where
  "parse_group content = take MAX_ENTRIES (List.map_filter parse_group_line (entry_lines content))"

text \<open>\<open>collect\<close> on Linux, from the texts of \<open>/etc/passwd\<close> and \<open>/etc/group\<close> (empty when they cannot be read).\<close>

definition linux_inventory :: "string \<Rightarrow> string \<Rightarrow> inventory" where
  "linux_inventory passwd_text group_text =
     \<lparr>iv_users = sort_key ua_name (parse_passwd passwd_text), iv_groups = sort_key ge_name (parse_group group_text)\<rparr>"

section \<open>What is refused\<close>

definition ADMIN_GROUPS :: "string list" where
  "ADMIN_GROUPS = [''sudo'', ''wheel'', ''admin'', ''administrators'', ''administrateurs'']"

definition is_account_name :: "string \<Rightarrow> bool" where
  "is_account_name name \<longleftrightarrow>
     name \<noteq> [] \<and> length name \<le> 64 \<and> \<not> prefix ''-'' name \<and>
     list_all (\<lambda>c. is_ascii_alphanumeric c \<or> c \<in> set ''._-'') name"

text \<open>Whether two names are of the same account.\<close>

definition same_name :: "platform_os \<Rightarrow> string \<Rightarrow> string \<Rightarrow> bool" where
  "same_name os a b \<longleftrightarrow> (if os = Linux then a = b else to_ascii_lowercase a = to_ascii_lowercase b)"

text \<open>The members of the administration groups that can log in, other than root.\<close>

definition administrators :: "platform_os \<Rightarrow> inventory \<Rightarrow> string list" where
  "administrators os ivt =
     filter (\<lambda>member. list_ex (\<lambda>u. same_name os (ua_name u) member \<and> ua_can_log_in u \<and> \<not> is_root_equivalent u) (iv_users ivt))
       (map (\<lambda>member. last (split_at_char CHR 0x5C member))
         (concat (map ge_members (filter (\<lambda>g. to_ascii_lowercase (ge_name g) \<in> set ADMIN_GROUPS) (iv_groups ivt)))))"

datatype refused = NotAName | NoSuchAccount | BuiltinAdministrator | SystemAccount | OwnAccount | ConsoleAccount | LastAdministrator

definition is_builtin :: "platform_os \<Rightarrow> string \<Rightarrow> user_account \<Rightarrow> bool" where
  "is_builtin os user account \<longleftrightarrow>
     list_ex (\<lambda>name. to_ascii_lowercase user = name) [''root'', ''administrator'', ''administrateur''] \<or>
     is_root_equivalent account \<or> (os = Windows \<and> suffix ''-500'' (ua_id account))"

definition is_system_account :: "platform_os \<Rightarrow> string \<Rightarrow> user_account \<Rightarrow> bool" where
  "is_system_account os user account \<longleftrightarrow>
     prefix ''_'' user \<or>
     (os \<noteq> Windows \<and>
      (case parse_u64 (ua_id account) of None \<Rightarrow> False | Some uid \<Rightarrow> uid < (if os = MacOs then 500 else 1000)))"

definition refusal ::
  "string \<Rightarrow> inventory \<Rightarrow> string option \<Rightarrow> string option \<Rightarrow> platform_os \<Rightarrow> refused option" where
  "refusal user ivt own console os =
     (if \<not> is_account_name user then Some NotAName
      else case find (\<lambda>u. same_name os (ua_name u) user) (iv_users ivt) of
             None \<Rightarrow> Some NoSuchAccount
           | Some account \<Rightarrow>
               if is_builtin os user account then Some BuiltinAdministrator
               else if is_system_account os user account then Some SystemAccount
               else if (case own of Some o' \<Rightarrow> same_name os o' user | None \<Rightarrow> False) then Some OwnAccount
               else if (case console of Some c \<Rightarrow> same_name os c user | None \<Rightarrow> False) then Some ConsoleAccount
               else let admins = administrators os ivt in
                 if list_ex (\<lambda>m. same_name os m user) admins \<and> filter (\<lambda>m. \<not> same_name os m user) admins = []
                 then Some LastAdministrator else None)"

section \<open>Commands\<close>

definition lock_command :: "platform_os \<Rightarrow> string \<Rightarrow> bool \<Rightarrow> string list" where
  "lock_command os user lock =
     (case os of
        Linux \<Rightarrow> if lock then [''usermod'', ''--lock'', ''--expiredate'', ''1'', user]
                 else [''usermod'', ''--unlock'', ''--expiredate'', [], user]
      | MacOs \<Rightarrow> [''/usr/bin/dscl'', ''.'', if lock then ''-append'' else ''-delete'', ''/Users/'' @ user,
                   ''AuthenticationAuthority'', '';DisabledUser;'']
      | Windows \<Rightarrow> [''net'', ''user'', user, if lock then ''/active:no'' else ''/active:yes''])"

definition says_locked :: "platform_os \<Rightarrow> string \<Rightarrow> bool" where
  "says_locked os out =
     (case os of
        Linux \<Rightarrow> (case words out of _ # state # _ \<Rightarrow> prefix ''L'' state | _ \<Rightarrow> False)
      | MacOs \<Rightarrow> str_contains out '';DisabledUser;''
      | Windows \<Rightarrow> False)"

section \<open>The host\<close>

datatype acct_request = DisableAccountRequest string u64 | EnableAccountRequest string

text \<open>As elsewhere \<^const>\<open>None\<close> is \<open>Ok(())\<close> and \<^const>\<open>Some\<close> the text of the failure.\<close>

record 'w acct_env =
  ac_system :: platform_os
  ac_admin :: bool
  ac_delegate :: "acct_request \<Rightarrow> 'w \<Rightarrow> string option \<times> 'w"
  ac_run :: "string list \<Rightarrow> 'w \<Rightarrow> (string + string) \<times> 'w"
  ac_inventory :: "'w \<Rightarrow> string + inventory"
  ac_vars :: "(string \<times> string) list"
  ac_writable :: "'w \<Rightarrow> bool"

text \<open>\<open>ah_timers\<close>: the tasks asleep, with the account each will unlock and when.\<close>

record 'w acct_host =
  ah_world :: 'w
  ah_pending :: "(string \<times> i64) list option"
  ah_timers :: "(string \<times> int) list"
  ah_now :: int

definition run_tool :: "'w acct_env \<Rightarrow> string list \<Rightarrow> 'w acct_host \<Rightarrow> (string + string) \<times> 'w acct_host" where
  "run_tool env argv h = (case ac_run env argv (ah_world h) of (res, w) \<Rightarrow> (res, h\<lparr>ah_world := w\<rparr>))"

definition is_locked :: "'w acct_env \<Rightarrow> string \<Rightarrow> inventory \<Rightarrow> 'w acct_host \<Rightarrow> bool \<times> 'w acct_host" where
  "is_locked env user ivt h =
     (case ac_system env of
        Windows \<Rightarrow>
          (list_ex (\<lambda>u. to_ascii_lowercase (ua_name u) = to_ascii_lowercase user \<and> \<not> ua_can_log_in u) (iv_users ivt), h)
      | os \<Rightarrow>
          (case run_tool env (if os = Linux then [''passwd'', ''-S'', user]
                              else [''/usr/bin/dscl'', ''.'', ''-read'', ''/Users/'' @ user, ''AuthenticationAuthority'']) h of
             (Inl _, h1) \<Rightarrow> (False, h1)
           | (Inr out, h1) \<Rightarrow> (says_locked os out, h1)))"

definition console_user :: "'w acct_env \<Rightarrow> 'w acct_host \<Rightarrow> string option \<times> 'w acct_host" where
  "console_user env h =
     (if ac_system env \<noteq> MacOs then (None, h)
      else case run_tool env [''/usr/bin/stat'', ''-f'', ''%Su'', ''/dev/console''] h of
             (Inl _, h1) \<Rightarrow> (None, h1)
           | (Inr out, h1) \<Rightarrow> (if trim out \<noteq> [] \<and> trim out \<noteq> ''root'' then Some (trim out) else None, h1))"

definition own_user :: "'w acct_env \<Rightarrow> string option" where
  "own_user env =
     find (\<lambda>user. user \<noteq> [] \<and> user \<noteq> ''root'')
       (List.map_filter (map_of (ac_vars env)) [''SUDO_USER'', ''USER'', ''USERNAME'', ''LOGNAME''])"

definition load_pending :: "'w acct_host \<Rightarrow> (string \<times> i64) list" where
  "load_pending h = unwrap_or (ah_pending h) []"

definition store_pending :: "'w acct_env \<Rightarrow> (string \<times> i64) list \<Rightarrow> 'w acct_host \<Rightarrow> 'w acct_host" where
  "store_pending env es h = (if ac_writable env (ah_world h) then h\<lparr>ah_pending := Some es\<rparr> else h)"

text \<open>Which recorded locks are over, and which still run, with the seconds left.\<close>

definition due :: "(string \<times> i64) list \<Rightarrow> i64 \<Rightarrow> string list \<times> (string \<times> u64) list" where
  "due es now =
     (let ending = filter (\<lambda>(_, until). until \<noteq> i64_max) es in
      (sort (map fst (filter (\<lambda>(_, until). until \<le> now) ending)),
       sort_key fst (map (\<lambda>(user, until). (user, nat (until - now))) (filter (\<lambda>(_, until). now < until) ending))))"

definition unlock_later :: "string \<Rightarrow> u64 \<Rightarrow> 'w acct_host \<Rightarrow> 'w acct_host" where
  "unlock_later user seconds h = h\<lparr>ah_timers := ah_timers h @ [(user, ah_now h + int seconds)]\<rparr>"

section \<open>Locking and unlocking\<close>

type_synonym ('w, 'a) acct_task = "('w acct_host, 'a) async"

text \<open>The sessions of a locked account are ended.\<close>

definition end_sessions_task :: "'w acct_env \<Rightarrow> string \<Rightarrow> ('w, unit) acct_task" where
  "end_sessions_task env user =
     (if ac_system env = Windows then Ret ()
      else after (await (run_tool env [''loginctl'', ''terminate-user'', user])) (\<lambda>res.
        case res of
          Inr _ \<Rightarrow> Ret ()
        | Inl _ \<Rightarrow> after (await (run_tool env [''pkill'', ''-KILL'', ''-u'', user])) (\<lambda>_. Ret ())))"

text \<open>The end is computed before the file is read; once it is written a task is spawned that sleeps for the duration.\<close>

definition lock_end :: "u64 \<Rightarrow> 'w acct_host \<Rightarrow> i64" where
  "lock_end duration_secs h =
     (if 0 < duration_secs then min (ah_now h + int duration_secs) i64_max else i64_max)"

definition record_lock_task :: "'w acct_env \<Rightarrow> string \<Rightarrow> u64 \<Rightarrow> ('w, unit) acct_task" where
  "record_lock_task env user duration_secs =
     after (await (\<lambda>h. ((lock_end duration_secs h, load_pending h), h))) (\<lambda>(until, pending).
     after (await (\<lambda>h. ((), store_pending env (AList.update user until pending) h))) (\<lambda>_.
       if 0 < duration_secs then await (\<lambda>h. ((), unlock_later user duration_secs h)) else Ret ()))"

definition disable_task :: "'w acct_env \<Rightarrow> string \<Rightarrow> u64 \<Rightarrow> ('w, string option) acct_task" where
  "disable_task env user duration_secs =
     (if \<not> ac_admin env
      then await (\<lambda>h. case ac_delegate env (DisableAccountRequest user duration_secs) (ah_world h) of
                        (res, w) \<Rightarrow> (res, h\<lparr>ah_world := w\<rparr>))
      else
        after (await (\<lambda>h. (ac_inventory env (ah_world h), h))) (\<lambda>listed.
        case listed of
          Inl e \<Rightarrow> Ret (Some e)
        | Inr ivt \<Rightarrow>
            if iv_users ivt = [] then Ret (Some ''accounts could not be listed'')
            else
              after (await (console_user env)) (\<lambda>console.
              if refusal user ivt (own_user env) console (ac_system env) \<noteq> None then Ret (Some ''Refusing to lock'')
              else
                after (await (is_locked env user ivt)) (\<lambda>locked.
                if locked then Ret None
                else
                  after (await (run_tool env (lock_command (ac_system env) user True))) (\<lambda>res.
                  case res of
                    Inl e \<Rightarrow> Ret (Some e)
                  | Inr _ \<Rightarrow>
                      after (end_sessions_task env user) (\<lambda>_.
                      after (record_lock_task env user duration_secs) (\<lambda>_. Ret None)))))))"

definition enable_task :: "'w acct_env \<Rightarrow> string \<Rightarrow> ('w, string option) acct_task" where
  "enable_task env user =
     (if \<not> ac_admin env
      then await (\<lambda>h. case ac_delegate env (EnableAccountRequest user) (ah_world h) of (res, w) \<Rightarrow> (res, h\<lparr>ah_world := w\<rparr>))
      else if \<not> is_account_name user then Ret (Some ''not an account name'')
      else
        after (await (\<lambda>h. (load_pending h, h))) (\<lambda>pending.
        if map_of pending user = None then Ret (Some ''was not locked by the agent'')
        else
          after (await (run_tool env (lock_command (ac_system env) user False))) (\<lambda>res.
          case res of
            Inl e \<Rightarrow> Ret (Some e)
          | Inr _ \<Rightarrow>
              after (await (\<lambda>h. ((), store_pending env (AList.delete user pending) h))) (\<lambda>_. Ret None))))"

primrec enable_all_task :: "'w acct_env \<Rightarrow> string list \<Rightarrow> ('w, unit) acct_task" where
  "enable_all_task env [] = Ret ()"
| "enable_all_task env (user # users) = after (enable_task env user) (\<lambda>_. enable_all_task env users)"

definition reconcile_task :: "'w acct_env \<Rightarrow> ('w, unit) acct_task" where
  "reconcile_task env =
     (if \<not> ac_admin env then Ret ()
      else
        after (await (\<lambda>h. ((load_pending h, ah_now h), h))) (\<lambda>(pending, now).
        if pending = [] then Ret ()
        else
          case due pending now of
            (over, running) \<Rightarrow>
              after (enable_all_task env over) (\<lambda>_.
                await (\<lambda>h. ((), fold (\<lambda>(user, seconds). unlock_later user seconds) running h)))))"

section \<open>The operations alone\<close>

definition end_sessions :: "'w acct_env \<Rightarrow> string \<Rightarrow> 'w acct_host \<Rightarrow> 'w acct_host" where
  "end_sessions env user h = snd (run_alone (end_sessions_task env user) h)"

definition record_lock :: "'w acct_env \<Rightarrow> string \<Rightarrow> u64 \<Rightarrow> 'w acct_host \<Rightarrow> 'w acct_host" where
  "record_lock env user duration_secs h = snd (run_alone (record_lock_task env user duration_secs) h)"

definition disable_account :: "'w acct_env \<Rightarrow> string \<Rightarrow> u64 \<Rightarrow> 'w acct_host \<Rightarrow> string option \<times> 'w acct_host" where
  "disable_account env user duration_secs = run_alone (disable_task env user duration_secs)"

definition enable_account :: "'w acct_env \<Rightarrow> string \<Rightarrow> 'w acct_host \<Rightarrow> string option \<times> 'w acct_host" where
  "enable_account env user = run_alone (enable_task env user)"

definition reconcile_pending_locks :: "'w acct_env \<Rightarrow> 'w acct_host \<Rightarrow> 'w acct_host" where
  "reconcile_pending_locks env h = snd (run_alone (reconcile_task env) h)"

text \<open>What each of them does, when nothing interleaves.\<close>

lemma end_sessions_eq:
  "end_sessions env user h =
     (if ac_system env = Windows then h
      else case run_tool env [''loginctl'', ''terminate-user'', user] h of
             (Inr _, h1) \<Rightarrow> h1
           | (Inl _, h1) \<Rightarrow> snd (run_tool env [''pkill'', ''-KILL'', ''-u'', user] h1))"
  by (simp add: end_sessions_def end_sessions_task_def split: prod.split sum.split)

lemma record_lock_eq:
  "record_lock env user duration_secs h =
     (let h1 = store_pending env (AList.update user (lock_end duration_secs h) (load_pending h)) h
      in if 0 < duration_secs then unlock_later user duration_secs h1 else h1)"
  by (simp add: record_lock_def record_lock_task_def)

lemma disable_account_eq:
  "disable_account env user duration_secs h =
     (if \<not> ac_admin env
      then (case ac_delegate env (DisableAccountRequest user duration_secs) (ah_world h) of
              (res, w) \<Rightarrow> (res, h\<lparr>ah_world := w\<rparr>))
      else case ac_inventory env (ah_world h) of
             Inl e \<Rightarrow> (Some e, h)
           | Inr ivt \<Rightarrow>
               if iv_users ivt = [] then (Some ''accounts could not be listed'', h)
               else
                 (case console_user env h of
                    (console, h1) \<Rightarrow>
                      if refusal user ivt (own_user env) console (ac_system env) \<noteq> None then (Some ''Refusing to lock'', h1)
                      else
                        (case is_locked env user ivt h1 of
                           (True, h2) \<Rightarrow> (None, h2)
                         | (False, h2) \<Rightarrow>
                             (case run_tool env (lock_command (ac_system env) user True) h2 of
                                (Inl e, h3) \<Rightarrow> (Some e, h3)
                              | (Inr _, h3) \<Rightarrow> (None, record_lock env user duration_secs (end_sessions env user h3))))))"
  by (auto simp: disable_account_def disable_task_def record_lock_def end_sessions_def split: prod.splits sum.splits bool.splits)

lemma enable_account_eq:
  "enable_account env user h =
     (if \<not> ac_admin env
      then (case ac_delegate env (EnableAccountRequest user) (ah_world h) of (res, w) \<Rightarrow> (res, h\<lparr>ah_world := w\<rparr>))
      else if \<not> is_account_name user then (Some ''not an account name'', h)
      else if map_of (load_pending h) user = None then (Some ''was not locked by the agent'', h)
      else
        (case run_tool env (lock_command (ac_system env) user False) h of
           (Inl e, h1) \<Rightarrow> (Some e, h1)
         | (Inr _, h1) \<Rightarrow> (None, store_pending env (AList.delete user (load_pending h)) h1)))"
  by (simp add: enable_account_def enable_task_def split: prod.split sum.split)

lemma enable_all_eq: "run_alone (enable_all_task env users) h = ((), fold (\<lambda>user h. snd (enable_account env user h)) users h)"
  by (induction users arbitrary: h) (simp_all add: enable_account_def split: prod.split)

lemma reconcile_pending_locks_eq:
  "reconcile_pending_locks env h =
     (if \<not> ac_admin env \<or> load_pending h = [] then h
      else
        (case due (load_pending h) (ah_now h) of
           (over, running) \<Rightarrow>
             fold (\<lambda>(user, seconds). unlock_later user seconds) running
               (fold (\<lambda>user h. snd (enable_account env user h)) over h)))"
  by (simp add: reconcile_pending_locks_def reconcile_task_def enable_all_eq split: prod.split)

section \<open>What happens to the agent\<close>

text \<open>A sleeping task ends and unlocks its account.\<close>

definition woken :: "nat \<Rightarrow> 'w acct_host \<Rightarrow> (string \<times> 'w acct_host) option" where
  "woken i h =
     (if i < length (ah_timers h) \<and> snd (ah_timers h ! i) \<le> ah_now h
      then Some (fst (ah_timers h ! i), h\<lparr>ah_timers := take i (ah_timers h) @ drop (Suc i) (ah_timers h)\<rparr>)
      else None)"

definition wake :: "'w acct_env \<Rightarrow> nat \<Rightarrow> 'w acct_host \<Rightarrow> 'w acct_host option" where
  "wake env i h = map_option (\<lambda>(user, h1). snd (enable_account env user h1)) (woken i h)"

text \<open>The agent is stopped for some seconds and started again.\<close>

definition stopped :: "nat \<Rightarrow> 'w acct_host \<Rightarrow> 'w acct_host" where
  "stopped seconds h = h\<lparr>ah_timers := [], ah_now := ah_now h + int seconds\<rparr>"

definition restart_agent :: "'w acct_env \<Rightarrow> nat \<Rightarrow> 'w acct_host \<Rightarrow> 'w acct_host" where
  "restart_agent env seconds h = reconcile_pending_locks env (stopped seconds h)"

text \<open>
  Operations that do not overlap. The set holds the accounts whose unlock has been tried since the start and left the lock
  recorded: by a request, by a task that woke, or at the start, for all whose end had come.
\<close>

definition still_locked :: "string \<Rightarrow> 'w acct_host \<Rightarrow> string set" where
  "still_locked user h = (if map_of (load_pending h) user = None then {} else {user})"

inductive acct_step :: "'w acct_env \<Rightarrow> string set \<times> 'w acct_host \<Rightarrow> string set \<times> 'w acct_host \<Rightarrow> bool" for env where
  lock: "disable_account env user secs h = (res, h') \<Longrightarrow> acct_step env (F, h) (F, h')"
| unlock: "enable_account env user h = (res, h') \<Longrightarrow> acct_step env (F, h) (F \<union> still_locked user h', h')"
| wakes: "wake env i h = Some h' \<Longrightarrow> acct_step env (F, h) (F \<union> still_locked (fst (ah_timers h ! i)) h', h')"
| time: "acct_step env (F, h) (F, h\<lparr>ah_now := ah_now h + int seconds\<rparr>)"
| restarts: "acct_step env (F, h)
    ({user. \<exists>until\<le>ah_now h + int seconds. map_of (load_pending (restart_agent env seconds h)) user = Some until},
     restart_agent env seconds h)"

text \<open>All interleavings: requests and tasks that wake join the tasks, any of which goes on to its next await; a stop ends them.\<close>

inductive acct_async_step ::
  "'w acct_env \<Rightarrow> 'w acct_host \<times> ('w, unit) acct_task list \<Rightarrow> 'w acct_host \<times> ('w, unit) acct_task list \<Rightarrow> bool" for env where
  asks_lock: "acct_async_step env (h, ts) (h, ts @ [after (disable_task env user secs) (\<lambda>_. Ret ())])"
| asks_unlock: "acct_async_step env (h, ts) (h, ts @ [after (enable_task env user) (\<lambda>_. Ret ())])"
| task_wakes: "woken i h = Some (user, h') \<Longrightarrow> acct_async_step env (h, ts) (h', ts @ [after (enable_task env user) (\<lambda>_. Ret ())])"
| goes_on: "tasks_step (h, ts) (h', ts') \<Longrightarrow> acct_async_step env (h, ts) (h', ts')"
| time_passes: "acct_async_step env (h, ts) (h\<lparr>ah_now := ah_now h + int seconds\<rparr>, ts)"
| stops: "acct_async_step env (h, ts) (stopped seconds h, [reconcile_task env])"

end
