(* ===== verification/Account_Lock_Props.thy ===== *)
theory Account_Lock_Props imports Account_Lock begin

text \<open>
  What the account locks keep while operations do not overlap, whatever the tools do: a lock with an end has a task that
  tries to lift it. And where the code does not keep its word: all administrators can be locked one after the other, a lock
  can end before its time, and operations that overlap can lose a lock. What a Linux host documents of its tools are the
  locales \<open>linux_accounts\<close> and \<open>linux_unlocks\<close>, interpreted on a host with its files.
\<close>

section \<open>Timed locks\<close>









lemma refusal_name: "refusal user ivt own console os = None \<Longrightarrow> is_account_name user"
  by (auto simp: refusal_def split: if_splits)











section \<open>The tools of Linux\<close>

text \<open>
  What is documented of a Linux host: the inventory reads \<open>/etc/passwd\<close> and \<open>/etc/group\<close>; \<open>usermod --lock\<close> works for an
  account that exists and changes the shadow file alone; \<open>passwd -S\<close> says which passwords are locked; ending sessions
  changes none of these files.
\<close>

definition same_files :: "('w \<Rightarrow> string) \<Rightarrow> ('w \<Rightarrow> string) \<Rightarrow> 'w \<Rightarrow> 'w \<Rightarrow> bool" where
  "same_files passwd_of group_of w w' \<longleftrightarrow> passwd_of w' = passwd_of w \<and> group_of w' = group_of w"

definition accounts_of :: "('w \<Rightarrow> string) \<Rightarrow> 'w \<Rightarrow> string set" where
  "accounts_of passwd_of w = ua_name ` set (parse_passwd (passwd_of w))"

locale linux_accounts =
  fixes env :: "'w acct_env" and passwd_of group_of :: "'w \<Rightarrow> string" and locked :: "'w \<Rightarrow> string set"
  assumes served: "ac_system env = Linux" "ac_admin env"
    and listed: "ac_inventory env w = Inr (linux_inventory (passwd_of w) (group_of w))"
    and locks: "user \<in> accounts_of passwd_of w \<Longrightarrow> \<exists>out w'. ac_run env (lock_command Linux user True) w = (Inr out, w') \<and>
      locked w' = insert user (locked w) \<and> same_files passwd_of group_of w w'"
    and status: "user \<in> accounts_of passwd_of w \<Longrightarrow> \<exists>out w'. ac_run env [''passwd'', ''-S'', user] w = (Inr out, w') \<and>
      (says_locked Linux out \<longleftrightarrow> user \<in> locked w) \<and> locked w' = locked w \<and> same_files passwd_of group_of w w'"
    and sessions: "ac_run env [''loginctl'', ''terminate-user'', user] w = (res, w') \<Longrightarrow>
      locked w' = locked w \<and> same_files passwd_of group_of w w'"
    and killed: "ac_run env [''pkill'', ''-KILL'', ''-u'', user] w = (res, w') \<Longrightarrow>
      locked w' = locked w \<and> same_files passwd_of group_of w w'"
begin

lemma end_sessions_world:
  "\<exists>w. end_sessions env user h = h\<lparr>ah_world := w\<rparr> \<and> locked w = locked (ah_world h) \<and> same_files passwd_of group_of (ah_world h) w"
proof -
  obtain r1 w1 where 1: "ac_run env [''loginctl'', ''terminate-user'', user] (ah_world h) = (r1, w1)" by fastforce
  obtain r2 w2 where 2: "ac_run env [''pkill'', ''-KILL'', ''-u'', user] w1 = (r2, w2)" by fastforce
  from 1 2 sessions [OF 1] killed [OF 2] served show ?thesis
    by (cases r1) (auto simp: end_sessions_eq run_tool_def same_files_def)
qed

lemma refusal_listed:
  assumes "refusal user (linux_inventory p g) own console Linux = None"
  shows "user \<in> ua_name ` set (parse_passwd p)"
proof -
  from assms obtain account where "find (\<lambda>u. ua_name u = user) (iv_users (linux_inventory p g)) = Some account"
    by (cases "find (\<lambda>u. ua_name u = user) (iv_users (linux_inventory p g))") (auto simp: refusal_def same_name_def split: if_splits)
  then have "account \<in> set (iv_users (linux_inventory p g))" "ua_name account = user" by (auto simp: find_Some_iff)
  then show ?thesis by (auto simp: linux_inventory_def)
qed

text \<open>An account that is not refused is locked, if it is not already.\<close>

lemma disable_accepted:
  assumes "refusal user (linux_inventory (passwd_of (ah_world h)) (group_of (ah_world h))) (own_user env) None Linux = None"
  shows "\<exists>w. disable_account env user secs h =
      (None, if user \<in> locked (ah_world h) then h\<lparr>ah_world := w\<rparr> else record_lock env user secs (h\<lparr>ah_world := w\<rparr>)) \<and>
    locked w = insert user (locked (ah_world h)) \<and> same_files passwd_of group_of (ah_world h) w"
proof -
  let ?ivt = "linux_inventory (passwd_of (ah_world h)) (group_of (ah_world h))"
  from refusal_listed [OF assms] have user: "user \<in> accounts_of passwd_of (ah_world h)" by (simp add: accounts_of_def)
  from status [OF user] obtain out w1 where s: "ac_run env [''passwd'', ''-S'', user] (ah_world h) = (Inr out, w1)"
    "says_locked Linux out \<longleftrightarrow> user \<in> locked (ah_world h)" "locked w1 = locked (ah_world h)"
    "same_files passwd_of group_of (ah_world h) w1" by blast
  with user have "user \<in> accounts_of passwd_of w1" by (simp add: accounts_of_def same_files_def)
  from locks [OF this] obtain out2 w2 where l: "ac_run env (lock_command Linux user True) w1 = (Inr out2, w2)"
    "locked w2 = insert user (locked w1)" "same_files passwd_of group_of w1 w2" by blast
  obtain w3 where e: "end_sessions env user (h\<lparr>ah_world := w2\<rparr>) = h\<lparr>ah_world := w3\<rparr>" "locked w3 = locked w2"
    "same_files passwd_of group_of w2 w3" using end_sessions_world [of user "h\<lparr>ah_world := w2\<rparr>"] by auto
  have "iv_users ?ivt \<noteq> []" using assms by (auto simp: refusal_def split: if_splits)
  then have d: "disable_account env user secs h =
      (if user \<in> locked (ah_world h) then (None, h\<lparr>ah_world := w1\<rparr>)
       else (None, record_lock env user secs (h\<lparr>ah_world := w3\<rparr>)))"
    using assms s l e served listed by (simp add: disable_account_eq console_user_def is_locked_def run_tool_def)
  show ?thesis
  proof (cases "user \<in> locked (ah_world h)")
    case True
    with d s show ?thesis by (intro exI [of _ w1]) auto
  next
    case False
    with d s l e show ?thesis by (intro exI [of _ w3]) (simp add: same_files_def)
  qed
qed

end

lemma record_lock_world [simp]: "ah_world (record_lock env user secs h) = ah_world h"
  by (simp add: record_lock_eq unlock_later_def store_pending_def Let_def)

section \<open>The last administrator\<close>

text \<open>Requests to lock accounts, one after the other.\<close>

primrec lock_all :: "'w acct_env \<Rightarrow> u64 \<Rightarrow> string list \<Rightarrow> 'w acct_host \<Rightarrow> string option list \<times> 'w acct_host" where
  "lock_all env secs [] h = ([], h)"
| "lock_all env secs (user # users) h =
     (case disable_account env user secs h of (res, h1) \<Rightarrow> case lock_all env secs users h1 of (rs, h2) \<Rightarrow> (res # rs, h2))"

text \<open>An account none of the other rules protects.\<close>

definition ordinary :: "inventory \<Rightarrow> string option \<Rightarrow> string \<Rightarrow> bool" where
  "ordinary ivt own user \<longleftrightarrow> is_account_name user \<and> own \<noteq> Some user \<and>
     (\<forall>account\<in>set (iv_users ivt). ua_name account = user \<longrightarrow>
        \<not> is_builtin Linux user account \<and> \<not> is_system_account Linux user account)"

lemma one_of_two_accepted:
  assumes "user \<in> set (administrators Linux ivt)" and "other \<in> set (administrators Linux ivt)" and "user \<noteq> other"
    and "ordinary ivt own user"
  shows "refusal user ivt own None Linux = None"
proof -
  from assms(1) have "\<exists>u\<in>set (iv_users ivt). ua_name u = user"
    by (auto simp: administrators_def same_name_def list_ex_iff)
  then obtain account where f: "find (\<lambda>u. ua_name u = user) (iv_users ivt) = Some account"
    by (metis (mono_tags, lifting) find_None_iff not_None_eq)
  then have "account \<in> set (iv_users ivt)" "ua_name account = user" by (auto simp: find_Some_iff)
  moreover have "filter (\<lambda>m. m \<noteq> user) (administrators Linux ivt) \<noteq> []" using assms(2,3) by (auto simp: filter_empty_conv)
  ultimately show ?thesis
    using assms(4) f by (auto simp: refusal_def ordinary_def same_name_def split: option.splits)
qed

context linux_accounts
begin

lemma lock_all_accepted:
  assumes "ivt = linux_inventory (passwd_of (ah_world h)) (group_of (ah_world h))"
    and "\<forall>user\<in>set users. refusal user ivt (own_user env) None Linux = None"
    and "lock_all env secs users h = (rs, h')"
  shows "rs = replicate (length users) None \<and> locked (ah_world h') = set users \<union> locked (ah_world h) \<and>
    same_files passwd_of group_of (ah_world h) (ah_world h')"
  using assms
proof (induction users arbitrary: h rs h')
  case Nil
  then show ?case by (simp add: same_files_def)
next
  case (Cons user users)
  obtain w where w: "disable_account env user secs h =
      (None, if user \<in> locked (ah_world h) then h\<lparr>ah_world := w\<rparr> else record_lock env user secs (h\<lparr>ah_world := w\<rparr>))"
    "locked w = insert user (locked (ah_world h))" "same_files passwd_of group_of (ah_world h) w"
    using disable_accepted [of user h secs] Cons.prems(1,2) by auto
  obtain h1 where d: "disable_account env user secs h = (None, h1)" "ah_world h1 = w" using w(1) by (simp split: if_splits)
  obtain rs1 h2 where l: "lock_all env secs users h1 = (rs1, h2)" by fastforce
  from Cons.IH [OF _ _ l] Cons.prems w d have
    "rs1 = replicate (length users) None \<and> locked (ah_world h2) = set users \<union> locked w \<and>
     same_files passwd_of group_of w (ah_world h2)" by (simp add: same_files_def)
  with Cons.prems(3) d l w show ?case by (auto simp: same_files_def)
qed

end

text \<open>C33: On a Linux host whose tools do what they document, a locked account still counts as one that can log in, because only
  its shell is looked at: requests to lock all the administrators, one after the other, are none of them refused, if there are
  two or more and no other rule protects them. The last administrator is documented never to be locked.\<close>

theorem all_administrators_can_be_locked:
  assumes "linux_accounts env passwd_of group_of locked"
    and "ivt = linux_inventory (passwd_of (ah_world h)) (group_of (ah_world h))"
    and "set users = set (administrators Linux ivt)" and "2 \<le> card (set users)"
    and "\<forall>user\<in>set users. ordinary ivt (own_user env) user"
    and "lock_all env secs users h = (rs, h')"
  shows "rs = replicate (length users) None \<and> set users \<subseteq> locked (ah_world h') \<and>
    set (administrators Linux (linux_inventory (passwd_of (ah_world h')) (group_of (ah_world h')))) = set users"
proof -
  have "refusal user ivt (own_user env) None Linux = None" if user: "user \<in> set users" for user
  proof -
    have "\<not> set users \<subseteq> {user}" using assms(4) card_mono [of "{user}" "set users"] by auto
    then obtain other where "other \<in> set users" "user \<noteq> other" by blast
    with user assms(3,5) show ?thesis by (intro one_of_two_accepted [of user _ other]) auto
  qed
  then have "\<forall>user\<in>set users. refusal user ivt (own_user env) None Linux = None" by blast
  from linux_accounts.lock_all_accepted [OF assms(1,2) this assms(6)] assms(2,3) show ?thesis by (auto simp: same_files_def)
qed

section \<open>A Linux host\<close>

text \<open>Its files and the accounts \<open>usermod\<close> has locked; it refuses an account there is not.\<close>

record linux_host =
  lh_passwd :: string
  lh_group :: string
  lh_locked :: "string set"

definition linux_run :: "string list \<Rightarrow> linux_host \<Rightarrow> (string + string) \<times> linux_host" where
  "linux_run argv w =
     (case argv of
        [tool, flag, _, _, user] \<Rightarrow>
          if tool = ''usermod'' \<and> user \<in> accounts_of lh_passwd w
          then (Inr [], w\<lparr>lh_locked := (if flag = ''--lock'' then insert user (lh_locked w) else lh_locked w - {user})\<rparr>)
          else (Inl ''no such user'', w)
      | [tool, flag, user] \<Rightarrow>
          if tool = ''passwd'' then (Inr (''account '' @ (if user \<in> lh_locked w then ''L'' else ''P'')), w) else (Inr [], w)
      | _ \<Rightarrow> (Inr [], w))"

definition linux_env :: "linux_host acct_env" where
  "linux_env =
     \<lparr>ac_system = Linux, ac_admin = True, ac_delegate = (\<lambda>_ w. (None, w)), ac_run = linux_run,
      ac_inventory = (\<lambda>w. Inr (linux_inventory (lh_passwd w) (lh_group w))), ac_vars = [], ac_writable = (\<lambda>_. True)\<rparr>"

lemma linux_says: "says_locked Linux ''account L''" "\<not> says_locked Linux ''account P''"
  by code_simp+

interpretation linux: linux_accounts linux_env lh_passwd lh_group lh_locked
  by standard (auto simp: linux_env_def linux_run_def lock_command_def same_files_def accounts_of_def linux_says)

text \<open>Two administrators and an ordinary account.\<close>

definition demo_host :: linux_host where
  "demo_host =
     \<lparr>lh_passwd = join_with [CHR 0x0A] [''root:x:0:0:root:/root:/bin/bash'', ''ann:x:1000:1000:Ann:/home/ann:/bin/bash'',
                                 ''bob:x:1001:1001::/home/bob:/bin/sh'', ''eve:x:1002:1002::/home/eve:/bin/sh''],
      lh_group = join_with [CHR 0x0A] [''root:x:0:'', ''sudo:x:27:ann,bob''], lh_locked = {}\<rparr>"

definition fresh_accounts :: "linux_host acct_host" where
  "fresh_accounts = \<lparr>ah_world = demo_host, ah_pending = None, ah_timers = [], ah_now = 0\<rparr>"

definition demo_inventory :: inventory where
  "demo_inventory = linux_inventory (lh_passwd demo_host) (lh_group demo_host)"

lemma demo_accounts:
  "set [''ann'', ''bob''] = set (administrators Linux demo_inventory)"
  "\<forall>user\<in>set [''ann'', ''bob'']. ordinary demo_inventory None user"
  "refusal ''ann'' demo_inventory None None Linux = None"
  by code_simp+

lemma linux_own_user [simp]: "own_user linux_env = None"
  by (simp add: own_user_def linux_env_def map_filter_def)

theorem all_administrators_can_be_locked_witness:
  "fst (lock_all linux_env 0 [''ann'', ''bob''] fresh_accounts) = [None, None] \<and>
   {''ann'', ''bob''} \<subseteq> lh_locked (ah_world (snd (lock_all linux_env 0 [''ann'', ''bob''] fresh_accounts)))"
proof -
  obtain rs h' where l: "lock_all linux_env 0 [''ann'', ''bob''] fresh_accounts = (rs, h')" by fastforce
  have ivt: "demo_inventory = linux_inventory (lh_passwd (ah_world fresh_accounts)) (lh_group (ah_world fresh_accounts))"
    by (simp add: demo_inventory_def fresh_accounts_def)
  have own: "\<forall>user\<in>set [''ann'', ''bob'']. ordinary demo_inventory (own_user linux_env) user" using demo_accounts(2) by simp
  have two: "2 \<le> card (set [''ann'', ''bob''])" by simp
  from all_administrators_can_be_locked [OF linux.linux_accounts_axioms ivt demo_accounts(1) two own l] l show ?thesis
    by (simp add: numeral_2_eq_2)
qed


section \<open>Where the code does not keep its word\<close>

text \<open>A request served alone is one of the interleavings.\<close>

lemma alone_is_async:
  assumes "run_alone m h = (res, h')" and "acct_async_step env (h, ts) (h, ts @ [after m (\<lambda>_. Ret ())])"
  shows "(acct_async_step env)\<^sup>*\<^sup>* (h, ts) (h', ts @ [Ret ()])"
proof -
  have "tasks_step\<^sup>*\<^sup>* (h, ts @ [after m (\<lambda>_. Ret ())]) (h', ts @ [Ret ()])"
    using alone_interleaves [of "length ts" "ts @ [after m (\<lambda>_. Ret ())]" _ h "()" h'] assms(1) by simp
  then have "(acct_async_step env)\<^sup>*\<^sup>* (h, ts @ [after m (\<lambda>_. Ret ())]) (h', ts @ [Ret ()])"
    by (rule rtranclp_mono [THEN predicate2D, rotated]) (auto intro: acct_async_step.goes_on)
  with assms(2) show ?thesis by (rule converse_rtranclp_into_rtranclp)
qed

lemma disable_is_async: "disable_account env user secs h = (res, h') \<Longrightarrow> (acct_async_step env)\<^sup>*\<^sup>* (h, ts) (h', ts @ [Ret ()])"
  unfolding disable_account_def by (rule alone_is_async [OF _ acct_async_step.asks_lock])

lemma enable_is_async: "enable_account env user h = (res, h') \<Longrightarrow> (acct_async_step env)\<^sup>*\<^sup>* (h, ts) (h', ts @ [Ret ()])"
  unfolding enable_account_def by (rule alone_is_async [OF _ acct_async_step.asks_unlock])

text \<open>
  Operations that overlap: an unlock reads the file, runs its command and writes what it had read. A lock of another
  account that is recorded in between is lost, and no longer one the agent may lift.
\<close>

lemma overlapping_unlock_loses_lock:
  assumes "ac_admin env" and "is_account_name a" and "is_account_name b"
    and "map_of (load_pending h) a \<noteq> None" and "map_of (load_pending h) b = None"
    and unlocked: "run_tool env (lock_command (ac_system env) a False) h = (Inr out, h1)"
    and locks: "disable_account env b secs h1 = (None, h2)" and "ac_writable env (ah_world h2)"
  shows "\<exists>h3. (tasks_step)\<^sup>*\<^sup>* (h, [enable_task env a, disable_task env b secs]) (h3, [Ret None, Ret None]) \<and>
    ah_world h3 = ah_world h2 \<and> enable_account env b h3 = (Some ''was not locked by the agent'', h3)"
proof -
  let ?d = "disable_task env b secs"
  let ?es = "AList.delete a (load_pending h)"
  let ?store = "after (await (\<lambda>h. ((), store_pending env ?es h))) (\<lambda>_. Ret None)"
  let ?run = "after (await (run_tool env (lock_command (ac_system env) a False))) (\<lambda>res. case res of Inl e \<Rightarrow> Ret (Some e) | Inr _ \<Rightarrow> ?store)"
  let ?h3 = "store_pending env ?es h2"
  have "advance (enable_task env a) h = (?run, h)" using assms(1,2,4) by (auto simp: enable_task_def after_await fun_eq_iff split: prod.split sum.split)
  then have 1: "tasks_step (h, [enable_task env a, ?d]) (h, [?run, ?d])"
    using advances [of 0 "[enable_task env a, ?d]"] by simp
  have "advance ?run h = (?store, h1)" using unlocked by (simp add: after_await)
  then have 2: "tasks_step (h, [?run, ?d]) (h1, [?store, ?d])" using advances [of 0 "[?run, ?d]"] by simp
  have 3: "tasks_step\<^sup>*\<^sup>* (h1, [?store, ?d]) (h2, [?store, Ret None])"
    using alone_interleaves [of 1 "[?store, ?d]" ?d h1 None h2] locks by (simp add: disable_account_def)
  have "advance ?store h2 = (Ret None, ?h3)" by (simp add: after_await)
  then have 4: "tasks_step (h2, [?store, Ret None]) (?h3, [Ret None, Ret None])"
    using advances [of 0 "[?store, Ret None]"] by simp
  have "tasks_step\<^sup>*\<^sup>* (h, [enable_task env a, ?d]) (?h3, [Ret None, Ret None])"
    by (rule converse_rtranclp_into_rtranclp [OF 1 converse_rtranclp_into_rtranclp [OF 2 rtranclp.rtrancl_into_rtrancl [OF 3 4]]])
  moreover have "map_of (load_pending ?h3) b = None" "ah_world ?h3 = ah_world h2"
    using assms(5,8) by (simp_all add: store_pending_def load_pending_def unwrap_or_def delete_conv')
  ultimately show ?thesis using assms(1,3) by (intro exI [of _ ?h3]) (simp add: enable_account_eq)
qed

text \<open>A host on which an unlock works as well, and the record can be written.\<close>

locale linux_unlocks = linux_accounts +
  assumes unlocks: "user \<in> accounts_of passwd_of w \<Longrightarrow> \<exists>out w'. ac_run env (lock_command Linux user False) w = (Inr out, w') \<and>
      locked w' = locked w - {user} \<and> same_files passwd_of group_of w w'"
    and writable: "ac_writable env w"
begin

lemma enable_recorded:
  assumes "user \<in> accounts_of passwd_of (ah_world h)" and "is_account_name user" and "map_of (load_pending h) user \<noteq> None"
  shows "\<exists>w. enable_account env user h = (None, h\<lparr>ah_world := w, ah_pending := Some (AList.delete user (load_pending h))\<rparr>) \<and>
    locked w = locked (ah_world h) - {user} \<and> same_files passwd_of group_of (ah_world h) w"
  using unlocks [OF assms(1)] assms(2,3) served writable
  by (auto simp: enable_account_eq run_tool_def store_pending_def load_pending_def unwrap_or_def)

text \<open>
  A lock lifted by hand leaves its task asleep: a second lock of the account is lifted when the task of the first one ends,
  long before its own end.
\<close>

lemma stale_task_unlocks_early:
  assumes "refusal user (linux_inventory (passwd_of (ah_world h)) (group_of (ah_world h))) (own_user env) None Linux = None"
    and "user \<notin> locked (ah_world h)" and "ah_pending h = None" and "ah_timers h = []"
    and "0 < d1" and "int d1 < t + int d2" and "0 \<le> t" and "ah_now h + t + int d2 < i64_max" and "0 < d2"
    and h1: "disable_account env user d1 h = (r1, h1)"
    and h2: "enable_account env user (h1\<lparr>ah_now := ah_now h + t\<rparr>) = (r2, h2)"
    and h3: "disable_account env user d2 h2 = (r3, h3)"
  shows "map_of (load_pending h3) user = Some (ah_now h + t + int d2)"
    and "\<exists>h4. wake env 0 (h3\<lparr>ah_now := ah_now h + int d1\<rparr>) = Some h4 \<and> user \<notin> locked (ah_world h4)"
proof -
  have name: "is_account_name user" using assms(1) by (rule refusal_name)
  have user: "user \<in> accounts_of passwd_of w" if "same_files passwd_of group_of (ah_world h) w" for w
    using refusal_listed [OF assms(1)] that by (simp add: accounts_of_def same_files_def)
  obtain w1 where w1: "h1 = record_lock env user d1 (h\<lparr>ah_world := w1\<rparr>)" "same_files passwd_of group_of (ah_world h) w1"
    using disable_accepted [OF assms(1), of d1] assms(2) h1 by auto
  have p1: "load_pending h1 = [(user, ah_now h + int d1)]" "ah_timers h1 = [(user, ah_now h + int d1)]" "ah_world h1 = w1"
    using assms(3-8) writable
    by (simp_all add: w1 record_lock_eq lock_end_def unlock_later_def store_pending_def load_pending_def unwrap_or_def Let_def)
  let ?h1 = "h1\<lparr>ah_now := ah_now h + t\<rparr>"
  have "map_of (load_pending ?h1) user \<noteq> None" using p1 by (simp add: load_pending_def)
  from enable_recorded [of user ?h1, OF _ name this] user [OF w1(2)] p1 h2 obtain w2 where
    w2: "h2 = ?h1\<lparr>ah_world := w2, ah_pending := Some []\<rparr>" "user \<notin> locked w2" "same_files passwd_of group_of w1 w2"
    by (auto simp: load_pending_def)
  with w1(2) have files: "same_files passwd_of group_of (ah_world h) w2" by (simp add: same_files_def)
  with assms(1) w2(1,2) disable_accepted [of user h2 d2] h3 obtain w3 where
    w3: "h3 = record_lock env user d2 (h2\<lparr>ah_world := w3\<rparr>)" "same_files passwd_of group_of w2 w3"
    by (auto simp: same_files_def)
  have p3: "load_pending h3 = [(user, ah_now h + t + int d2)]" "ah_timers h3 ! 0 = (user, ah_now h + int d1)"
    "0 < length (ah_timers h3)" "ah_world h3 = w3"
    using assms(8,9) p1 writable
    by (simp_all add: w3 w2(1) record_lock_eq lock_end_def unlock_later_def store_pending_def load_pending_def unwrap_or_def Let_def)
  then show "map_of (load_pending h3) user = Some (ah_now h + t + int d2)" by simp
  let ?h3 = "h3\<lparr>ah_now := ah_now h + int d1\<rparr>"
  let ?h4 = "?h3\<lparr>ah_timers := take 0 (ah_timers ?h3) @ drop (Suc 0) (ah_timers ?h3)\<rparr>"
  have "map_of (load_pending ?h4) user \<noteq> None" using p3(1) by (simp add: load_pending_def)
  moreover from files w3(2) have "same_files passwd_of group_of (ah_world h) w3" by (simp add: same_files_def)
  from user [OF this] p3(4) have "user \<in> accounts_of passwd_of (ah_world ?h4)" by simp
  ultimately obtain w4 where "ah_world (snd (enable_account env user ?h4)) = w4" "user \<notin> locked w4"
    using enable_recorded [of user ?h4, OF _ name] by fastforce
  moreover have "wake env 0 ?h3 = Some (snd (enable_account env user ?h4))" using p3(2,3) by (simp add: wake_def woken_def)
  ultimately show "\<exists>h4. wake env 0 ?h3 = Some h4 \<and> user \<notin> locked (ah_world h4)" by simp
qed

end

interpretation linux_later: linux_unlocks linux_env lh_passwd lh_group lh_locked
  by standard (auto simp: linux_env_def linux_run_def lock_command_def same_files_def accounts_of_def)

end
