(* ===== verification/Siem_Format.thy ===== *)
theory Siem_Format imports Correlation begin

text \<open>
  The texts of SIEM events: the common event format and the log event extended format
  (\<open>crates/agent-siem/src/formats/cef.rs\<close> and \<open>leef.rs\<close>), and the frame of a syslog message
  (\<open>crates/agent-siem/src/transports/syslog.rs\<close>).

  The text of an instant (\<open>chrono\<close>) and the members of a JSON object with the texts of their values (\<open>serde_json\<close>)
  are parameters. Text is the bytes of its UTF-8 form; all characters that are escaped are ASCII.
\<close>

section \<open>Types\<close>

record format_env =
  fm_cef_time :: "instant \<Rightarrow> string"
  fm_leef_time :: "instant \<Rightarrow> string"
  fm_members :: "string \<Rightarrow> (string \<times> string) list option"
  fm_agent_version :: string

record formatter =
  fr_vendor :: string
  fr_product :: string
  fr_version :: string

definition new_formatter :: "format_env \<Rightarrow> formatter" where
  "new_formatter env = \<lparr>fr_vendor = ''Sentinel'', fr_product = ''GRC Agent'', fr_version = fm_agent_version env\<rparr>"

definition with_vendor :: "string \<Rightarrow> string \<Rightarrow> string \<Rightarrow> formatter" where
  "with_vendor vendor product version = \<lparr>fr_vendor = vendor, fr_product = product, fr_version = version\<rparr>"

definition category_text :: "event_category \<Rightarrow> string" where
  "category_text c =
     (case c of
        Compliance \<Rightarrow> ''compliance'' | Security \<Rightarrow> ''security'' | Network \<Rightarrow> ''network''
      | FileIntegrity \<Rightarrow> ''file_integrity'' | System \<Rightarrow> ''system'' | Authentication \<Rightarrow> ''authentication''
      | Configuration \<Rightarrow> ''configuration'' | Vulnerability \<Rightarrow> ''vulnerability'')"

text \<open>\<open>trim_matches('"')\<close>.\<close>

definition trim_quotes :: "string \<Rightarrow> string" where
  "trim_quotes s =
     (let front = dropWhile (\<lambda>c. c = CHR 0x22) s in rev (dropWhile (\<lambda>c. c = CHR 0x22) (rev front)))"

section \<open>CEF\<close>

definition escape_field :: "string \<Rightarrow> string" where
  "escape_field s =
     replace_char CHR 0x0D [CHR 0x5C, CHR ''r'']
       (replace_char CHR 0x0A [CHR 0x5C, CHR ''n'']
         (replace_char CHR ''|'' [CHR 0x5C, CHR ''|'']
           (replace_char CHR 0x5C [CHR 0x5C, CHR 0x5C] s)))"

definition escape_extension :: "string \<Rightarrow> string" where
  "escape_extension s =
     replace_char CHR 0x0D [CHR 0x5C, CHR ''r'']
       (replace_char CHR 0x0A [CHR 0x5C, CHR ''n'']
         (replace_char CHR ''='' [CHR 0x5C, CHR ''='']
           (replace_char CHR 0x5C [CHR 0x5C, CHR 0x5C] s)))"

definition cef_severity :: "nat \<Rightarrow> nat" where
  "cef_severity severity = min severity 10"

text \<open>A key with its value, escaped or not.\<close>

definition plain_pair :: "string \<Rightarrow> string \<Rightarrow> string" where
  "plain_pair key val = key @ ''='' @ val"

definition escaped_pair :: "string \<Rightarrow> string \<Rightarrow> string" where
  "escaped_pair key val = plain_pair key (escape_extension val)"

text \<open>What an optional part adds.\<close>

definition maybe :: "('a \<Rightarrow> string) \<Rightarrow> 'a option \<Rightarrow> string list" where
  "maybe f x = (case x of None \<Rightarrow> [] | Some y \<Rightarrow> [f y])"

definition custom_extensions :: "(string \<times> string) list \<Rightarrow> string list" where
  "custom_extensions members =
     map (\<lambda>(i, key, val). ''cs'' @ show_nat (i + 2) @ ''Label='' @ escape_extension key @ '' cs'' @ show_nat (i + 2) @ ''=''
            @ escape_extension (trim_quotes val))
       (filter (\<lambda>(i, _). i + 2 \<le> 6) (enumerate 0 (take 6 members)))"

definition cef_extensions :: "format_env \<Rightarrow> siem_event \<Rightarrow> string list" where
  "cef_extensions env ev =
     [plain_pair ''rt'' (fm_cef_time env (ev_timestamp ev)), escaped_pair ''cat'' (category_text (ev_category ev)),
      escaped_pair ''msg'' (ev_description ev), escaped_pair ''shost'' (ev_source_host ev)] @
     maybe (escaped_pair ''src'') (ev_source_ip ev) @
     maybe (escaped_pair ''dst'') (ev_destination_ip ev) @
     maybe (plain_pair ''dpt'' \<circ> show_nat) (ev_destination_port ev) @
     maybe (escaped_pair ''suser'') (ev_user ev) @
     maybe (escaped_pair ''sproc'') (ev_process_name ev) @
     maybe (plain_pair ''spid'' \<circ> show_nat) (ev_process_id ev) @
     maybe (escaped_pair ''filePath'') (ev_file_path ev) @
     [escaped_pair ''externalId'' (ev_event_id ev),
      ''cs1Label=agentVersion '' @ escaped_pair ''cs1'' (ev_agent_version ev)] @
     (case fm_members env (ev_custom_fields ev) of None \<Rightarrow> [] | Some members \<Rightarrow> custom_extensions members)"

definition cef_format :: "format_env \<Rightarrow> formatter \<Rightarrow> siem_event \<Rightarrow> string" where
  "cef_format env f ev =
     ''CEF:'' @ join_with ''|''
       [''0'', escape_field (fr_vendor f), escape_field (fr_product f), escape_field (fr_version f),
        escape_field (ev_event_id ev), escape_field (ev_name ev), show_nat (cef_severity (ev_severity ev)),
        join_with '' '' (cef_extensions env ev)]"

section \<open>LEEF\<close>

definition escape_header :: "string \<Rightarrow> string" where
  "escape_header s =
     replace_char CHR 0x0D [CHR 0x5C, CHR ''r'']
       (replace_char CHR 0x0A [CHR 0x5C, CHR ''n''] (replace_char CHR ''|'' [CHR 0x5C, CHR ''|''] s))"

definition escape_value :: "string \<Rightarrow> string" where
  "escape_value s =
     replace_char CHR ''='' [CHR 0x5C, CHR ''='']
       (replace_char CHR 0x0D [CHR 0x5C, CHR ''r'']
         (replace_char CHR 0x0A [CHR 0x5C, CHR ''n''] (replace_char CHR 0x09 '' '' s)))"

definition leef_severity :: "nat \<Rightarrow> string" where
  "leef_severity severity =
     (if severity \<le> 2 then ''Low'' else if severity \<le> 4 then ''Medium'' else if severity \<le> 7 then ''High''
      else if severity \<le> 10 then ''Critical'' else ''Unknown'')"

definition leef_pair :: "string \<Rightarrow> string \<Rightarrow> string" where
  "leef_pair key val = plain_pair key (escape_value val)"

definition leef_attributes :: "format_env \<Rightarrow> siem_event \<Rightarrow> string list" where
  "leef_attributes env ev =
     [plain_pair ''devTime'' (fm_leef_time env (ev_timestamp ev)), ''devTimeFormat=MMM dd yyyy HH:mm:ss z'',
      leef_pair ''cat'' (category_text (ev_category ev)), plain_pair ''sev'' (leef_severity (ev_severity ev)),
      leef_pair ''src'' (ev_source_host ev)] @
     maybe (leef_pair ''srcIP'') (ev_source_ip ev) @
     maybe (leef_pair ''dstIP'') (ev_destination_ip ev) @
     maybe (plain_pair ''dstPort'' \<circ> show_nat) (ev_destination_port ev) @
     maybe (leef_pair ''usrName'') (ev_user ev) @
     maybe (leef_pair ''procName'') (ev_process_name ev) @
     maybe (plain_pair ''procId'' \<circ> show_nat) (ev_process_id ev) @
     maybe (leef_pair ''fileName'') (ev_file_path ev) @
     [leef_pair ''msg'' (ev_description ev), leef_pair ''eventId'' (ev_event_id ev),
      leef_pair ''agentVersion'' (ev_agent_version ev)] @
     (case fm_members env (ev_custom_fields ev) of
        None \<Rightarrow> []
      | Some members \<Rightarrow> map (\<lambda>(key, val). leef_pair (escape_value key) (trim_quotes val)) members)"

definition leef_format :: "format_env \<Rightarrow> formatter \<Rightarrow> siem_event \<Rightarrow> string" where
  "leef_format env f ev =
     ''LEEF:'' @ join_with ''|''
       [''2.0'', escape_header (fr_vendor f), escape_header (fr_product f), escape_header (fr_version f),
        escape_header (ev_name ev), join_with [CHR 0x09] (leef_attributes env ev)]"

section \<open>Syslog\<close>

record syslog_env =
  sy_facility :: nat
  sy_timestamp :: string
  sy_hostname :: string
  sy_app_name :: string
  sy_pid :: u32

definition build_syslog_message :: "syslog_env \<Rightarrow> nat \<Rightarrow> string \<Rightarrow> string" where
  "build_syslog_message env severity message =
     ''<'' @ show_nat (sy_facility env * 8 + min severity 7) @ ''>1 '' @ sy_timestamp env @ '' '' @ sy_hostname env @ '' ''
       @ sy_app_name env @ '' '' @ show_nat (sy_pid env) @ '' - - '' @ message"

end
