(* ===== verification/Siem_Format_Props.thy ===== *)
theory Siem_Format_Props imports Siem_Format begin

text \<open>
  What a receiver reads from a CEF message are the header and the fields of the event, whatever they hold: nothing in an event
  can end a field, start another one or begin a new line. Of the custom fields it reads the first five, a value with quotes
  altered. In the header of a LEEF message a field can swallow the next one.
\<close>

section \<open>Reading\<close>

text \<open>Up to the first \<open>d\<close> that is not escaped, and what follows it.\<close>

fun ucut :: "char \<Rightarrow> string \<Rightarrow> (string \<times> string) option" where
  "ucut d [] = None"
| "ucut d (c # cs) =
     (if c = d then Some ([], cs)
      else if c = CHR 0x5C then (case cs of [] \<Rightarrow> None | e # es \<Rightarrow> map_option (\<lambda>(a, r). (c # e # a, r)) (ucut d es))
      else map_option (\<lambda>(a, r). (c # a, r)) (ucut d cs))"

lemma ucut_length: "ucut d s = Some (a, r) \<Longrightarrow> length r < length s"
  by (induction d s arbitrary: a r rule: ucut.induct) (fastforce split: if_splits list.splits)+

function usplit :: "char \<Rightarrow> string \<Rightarrow> string list" where
  "usplit d s = (case ucut d s of None \<Rightarrow> [s] | Some (a, r) \<Rightarrow> a # usplit d r)"
  by pat_completeness auto
termination
  by (relation "measure (\<lambda>(d, s). length s)") (auto dest: ucut_length)

declare usplit.simps [simp del]

fun unescape :: "string \<Rightarrow> string" where
  "unescape [] = []"
| "unescape (c # cs) =
     (if c = CHR 0x5C
      then (case cs of
              [] \<Rightarrow> [c]
            | e # es \<Rightarrow> (if e = CHR ''n'' then CHR 0x0A else if e = CHR ''r'' then CHR 0x0D else e) # unescape es)
      else c # unescape cs)"

text \<open>The next \<open>n\<close> fields of a header, and the rest.\<close>

fun read_fields :: "nat \<Rightarrow> string \<Rightarrow> (string list \<times> string) option" where
  "read_fields 0 s = Some ([], s)"
| "read_fields (Suc n) s =
     (case ucut CHR ''|'' s of
        None \<Rightarrow> None
      | Some (a, r) \<Rightarrow> map_option (\<lambda>(fs, rest). (unescape a # fs, rest)) (read_fields n r))"

text \<open>A value ends at the last space before the key of the next one.\<close>

fun read_pairs :: "string \<Rightarrow> string list \<Rightarrow> (string \<times> string) list" where
  "read_pairs key [] = []"
| "read_pairs key [seg] = [(key, unescape seg)]"
| "read_pairs key (seg # s # segs) =
     (case rsplit_once CHR '' '' seg of
        None \<Rightarrow> []
      | Some (val, key') \<Rightarrow> (key, unescape val) # read_pairs key' (s # segs))"

definition read_extensions :: "string \<Rightarrow> (string \<times> string) list" where
  "read_extensions s = (case usplit CHR ''='' s of [] \<Rightarrow> [] | key # segs \<Rightarrow> read_pairs key segs)"

definition read_cef :: "string \<Rightarrow> (string list \<times> (string \<times> string) list) option" where
  "read_cef s =
     (if prefix ''CEF:'' s then map_option (\<lambda>(fs, rest). (fs, read_extensions rest)) (read_fields 7 (drop 4 s)) else None)"

section \<open>Texts a delimiter cannot hide in\<close>

definition closed :: "char \<Rightarrow> string \<Rightarrow> bool" where
  "closed d t \<longleftrightarrow> (\<forall>rest. ucut d (t @ rest) = map_option (\<lambda>(a, r). (t @ a, r)) (ucut d rest))"

lemma closed_Nil [simp]: "closed d []"
  by (simp add: closed_def case_prod_beta option.map_id0 id_def [symmetric] option.map_ident)

lemma closed_append [intro]: "closed d a \<Longrightarrow> closed d b \<Longrightarrow> closed d (a @ b)"
  by (simp add: closed_def option.map_comp comp_def split_beta')

lemma closed_char: "c \<noteq> d \<Longrightarrow> c \<noteq> CHR 0x5C \<Longrightarrow> closed d [c]"
  by (simp add: closed_def)

lemma closed_escape: "d \<noteq> CHR 0x5C \<Longrightarrow> closed d [CHR 0x5C, e]"
  by (simp add: closed_def)

lemma closed_plain: "d \<notin> set t \<Longrightarrow> CHR 0x5C \<notin> set t \<Longrightarrow> closed d t"
proof (induction t)
  case (Cons c t)
  then have "closed d ([c] @ t)" by (intro closed_append closed_char) auto
  then show ?case by simp
qed simp

lemma closed_map: "(\<And>c. c \<in> set s \<Longrightarrow> closed d (f c)) \<Longrightarrow> closed d (concat (map f s))"
  by (induction s) auto

lemma ucut_closed: "closed d t \<Longrightarrow> ucut d (t @ d # rest) = Some (t, rest)"
  by (simp add: closed_def)

lemma ucut_closed_end: "closed d t \<Longrightarrow> ucut d t = None"
  by (drule spec [of _ "[]", OF iffD1 [OF closed_def]]) simp

text \<open>Both escapings treat one character after the other.\<close>

definition escape_char :: "char \<Rightarrow> char \<Rightarrow> string" where
  "escape_char d c =
     (if c = CHR 0x5C then [CHR 0x5C, CHR 0x5C] else if c = d then [CHR 0x5C, d]
      else if c = CHR 0x0A then [CHR 0x5C, CHR ''n''] else if c = CHR 0x0D then [CHR 0x5C, CHR ''r''] else [c])"

lemma replace_char_Cons [simp]: "replace_char c by (x # s) = (if x = c then by else [x]) @ replace_char c by s"
  by (simp add: replace_char_def)

lemma replace_char_Nil [simp]: "replace_char c by [] = []"
  by (simp add: replace_char_def)

lemma escape_field_chars: "escape_field s = concat (map (escape_char CHR ''|'') s)"
  by (induction s) (auto simp: escape_field_def escape_char_def)

lemma escape_extension_chars: "escape_extension s = concat (map (escape_char CHR ''='') s)"
  by (induction s) (auto simp: escape_extension_def escape_char_def)

lemma closed_escape_char: "d \<noteq> CHR 0x5C \<Longrightarrow> closed d (escape_char d c)"
  by (auto simp: escape_char_def intro: closed_char closed_escape)

lemma unescape_char:
  "d \<noteq> CHR ''n'' \<Longrightarrow> d \<noteq> CHR ''r'' \<Longrightarrow> d \<noteq> CHR 0x5C \<Longrightarrow> unescape (escape_char d c @ rest) = c # unescape rest"
  by (auto simp: escape_char_def)

lemma unescape_chars:
  "d \<noteq> CHR ''n'' \<Longrightarrow> d \<noteq> CHR ''r'' \<Longrightarrow> d \<noteq> CHR 0x5C \<Longrightarrow> unescape (concat (map (escape_char d) s)) = s"
  by (induction s) (simp_all add: unescape_char)

lemma escape_field_facts [simp]:
  "closed CHR ''|'' (escape_field s)" "unescape (escape_field s) = s" "CHR 0x0A \<notin> set (escape_field s)"
  by (auto simp: escape_field_chars unescape_chars escape_char_def intro!: closed_map closed_char closed_escape split: if_splits)

lemma escape_extension_facts [simp]:
  "closed CHR ''='' (escape_extension s)" "unescape (escape_extension s) = s" "CHR 0x0A \<notin> set (escape_extension s)"
  by (auto simp: escape_extension_chars unescape_chars escape_char_def intro!: closed_map closed_char closed_escape split: if_splits)

lemma unescape_plain: "CHR 0x5C \<notin> set t \<Longrightarrow> unescape t = t"
  by (induction t) auto

section \<open>Fields and pairs\<close>

lemma read_fields_join:
  "list_all (closed CHR ''|'') fs \<Longrightarrow>
   read_fields (length fs) (join_with ''|'' (fs @ [rest])) = Some (map unescape fs, rest)"
proof (induction fs)
  case (Cons f fs)
  have "join_with ''|'' ((f # fs) @ [rest]) = f @ CHR ''|'' # join_with ''|'' (fs @ [rest])" by (cases fs) simp_all
  with Cons show ?case by (simp add: ucut_closed)
qed simp

lemma usplit_nonempty [simp]: "usplit d s \<noteq> []"
  by (subst usplit.simps) (auto split: option.splits prod.splits)

lemma usplit_closed: "closed d t \<Longrightarrow> usplit d (t @ d # rest) = t # usplit d rest"
  by (subst usplit.simps) (simp add: ucut_closed)

lemma usplit_end: "closed d t \<Longrightarrow> usplit d t = [t]"
  by (subst usplit.simps) (simp add: ucut_closed_end)

lemma usplit_prepend:
  assumes "closed d t" and "usplit d rest = a # others"
  shows "usplit d (t @ rest) = (t @ a) # others"
proof (cases "ucut d rest")
  case None
  with assms have "a = rest" "others = []" by (auto simp: usplit.simps [of d rest])
  with None assms(1) show ?thesis by (subst usplit.simps) (simp add: closed_def)
next
  case (Some p)
  with assms(2) have "a = fst p" "others = usplit d (snd p)" by (auto simp: usplit.simps [of d rest] split: prod.splits)
  with Some assms(1) show ?thesis by (subst usplit.simps) (simp add: closed_def case_prod_beta)
qed

definition plain_key :: "string \<Rightarrow> bool" where
  "plain_key k \<longleftrightarrow> list_all (\<lambda>c. c \<noteq> CHR '' '' \<and> c \<noteq> CHR ''='' \<and> c \<noteq> CHR 0x5C) k"

lemma plain_key_closed: "plain_key k \<Longrightarrow> closed CHR ''='' k"
  by (intro closed_plain) (auto simp: plain_key_def list_all_iff)

lemma rsplit_key: "plain_key k \<Longrightarrow> rsplit_once CHR '' '' (v @ CHR '' '' # k) = Some (v, k)"
proof -
  assume "plain_key k"
  then have "CHR '' '' \<notin> set (rev k)" by (auto simp: plain_key_def list_all_iff)
  then have "split_once CHR '' '' (rev k @ CHR '' '' # rev v) = Some (rev k, rev v)"
    by (rule split_once_first)
  then show ?thesis by (simp add: rsplit_once_def)
qed

definition pair_text :: "string \<times> string \<Rightarrow> string" where
  "pair_text p = plain_pair (fst p) (snd p)"

lemma usplit_pairs:
  assumes "ps \<noteq> []" and "\<forall>(k, v)\<in>set ps. plain_key k \<and> closed CHR ''='' v"
  shows "\<exists>segs. usplit CHR ''='' (join_with '' '' (map pair_text ps)) = fst (hd ps) # segs \<and> segs \<noteq> [] \<and>
    read_pairs (fst (hd ps)) segs = map (\<lambda>(k, v). (k, unescape v)) ps"
  using assms
proof (induction ps)
  case (Cons p ps)
  obtain k v where p: "p = (k, v)" by (cases p)
  from Cons.prems p have k: "closed CHR ''='' k" and v: "closed CHR ''='' v" by (auto intro: plain_key_closed)
  show ?case
  proof (cases ps)
    case Nil
    with p k v show ?thesis by (simp add: pair_text_def plain_pair_def usplit_closed usplit_end)
  next
    case (Cons q qs)
    from Cons.IH Cons.prems Cons obtain segs where
      segs: "usplit CHR ''='' (join_with '' '' (map pair_text ps)) = fst (hd ps) # segs" "segs \<noteq> []"
      "read_pairs (fst (hd ps)) segs = map (\<lambda>(k, v). (k, unescape v)) ps" by auto
    have "join_with '' '' (map pair_text (p # ps)) = k @ CHR ''='' # ((v @ '' '') @ join_with '' '' (map pair_text ps))"
      using Cons p by (simp add: pair_text_def plain_pair_def)
    moreover have "closed CHR ''='' (v @ '' '')" using v by (intro closed_append closed_char) simp_all
    ultimately have "usplit CHR ''='' (join_with '' '' (map pair_text (p # ps))) = k # ((v @ '' '') @ fst (hd ps)) # segs"
      using usplit_closed [OF k] usplit_prepend [of "CHR ''=''" "v @ '' ''", OF _ segs(1)] by simp
    moreover have "plain_key (fst (hd ps))" using Cons.prems(2) Cons by auto
    then have "rsplit_once CHR '' '' ((v @ '' '') @ fst (hd ps)) = Some (v, fst (hd ps))" using rsplit_key by simp
    ultimately show ?thesis using segs(2,3) p by (cases segs) (simp_all)
  qed
qed simp

lemma read_pairs_join:
  "ps \<noteq> [] \<Longrightarrow> \<forall>(k, v)\<in>set ps. plain_key k \<and> closed CHR ''='' v \<Longrightarrow>
   read_extensions (join_with '' '' (map pair_text ps)) = map (\<lambda>(k, v). (k, unescape v)) ps"
  using usplit_pairs [of ps] by (auto simp: read_extensions_def)

section \<open>CEF\<close>

text \<open>
  The value of a custom field, and its JSON: a string that needs no escape stands between quotes, every other value is the
  text of a number, a truth value, null, an array or an object, or a string with escapes.
\<close>

datatype custom_value = PlainString string | OtherJson string

definition json_text :: "custom_value \<Rightarrow> string" where
  "json_text v = (case v of PlainString t \<Rightarrow> [CHR 0x22] @ t @ [CHR 0x22] | OtherJson t \<Rightarrow> t)"

definition plain_value :: "custom_value \<Rightarrow> bool" where
  "plain_value v \<longleftrightarrow>
     (case v of
        PlainString t \<Rightarrow> list_all (\<lambda>c. c \<noteq> CHR 0x22 \<and> c \<noteq> CHR 0x5C \<and> 32 \<le> byte c) t
      | OtherJson t \<Rightarrow> t \<noteq> [] \<and> hd t \<noteq> CHR 0x22 \<and> last t \<noteq> CHR 0x22)"

definition value_of :: "custom_value \<Rightarrow> string" where
  "value_of v = (case v of PlainString t \<Rightarrow> t | OtherJson t \<Rightarrow> t)"

text \<open>The keys and values of an event besides its custom fields, and the slots CEF has left for those.\<close>

definition maybe_pair :: "string \<Rightarrow> string option \<Rightarrow> (string \<times> string) list" where
  "maybe_pair key val = (case val of None \<Rightarrow> [] | Some v \<Rightarrow> [(key, v)])"

definition event_pairs :: "format_env \<Rightarrow> siem_event \<Rightarrow> (string \<times> string) list" where
  "event_pairs env ev =
     [(''rt'', fm_cef_time env (ev_timestamp ev)), (''cat'', category_text (ev_category ev)), (''msg'', ev_description ev),
      (''shost'', ev_source_host ev)] @
     maybe_pair ''src'' (ev_source_ip ev) @ maybe_pair ''dst'' (ev_destination_ip ev) @
     maybe_pair ''dpt'' (map_option show_nat (ev_destination_port ev)) @ maybe_pair ''suser'' (ev_user ev) @
     maybe_pair ''sproc'' (ev_process_name ev) @ maybe_pair ''spid'' (map_option show_nat (ev_process_id ev)) @
     maybe_pair ''filePath'' (ev_file_path ev) @
     [(''externalId'', ev_event_id ev), (''cs1Label'', ''agentVersion''), (''cs1'', ev_agent_version ev)]"

definition free_slots :: "string list" where
  "free_slots = [''cs2'', ''cs3'', ''cs4'', ''cs5'', ''cs6'']"

definition slot_pairs :: "string \<times> string \<times> string \<Rightarrow> (string \<times> string) list" where
  "slot_pairs p = (case p of (slot, key, val) \<Rightarrow> [(slot @ ''Label'', key), (slot, val)])"

text \<open>What the formatter writes.\<close>

definition written_custom :: "(string \<times> string) list \<Rightarrow> (string \<times> string) list" where
  "written_custom members =
     concat (map (\<lambda>(i, key, val). [(''cs'' @ show_nat (i + 2) @ ''Label'', key), (''cs'' @ show_nat (i + 2), trim_quotes val)])
       (enumerate 0 (take 5 members)))"

definition written_pairs :: "format_env \<Rightarrow> siem_event \<Rightarrow> (string \<times> string) list" where
  "written_pairs env ev = event_pairs env ev @ written_custom (unwrap_or (fm_members env (ev_custom_fields ev)) [])"

text \<open>Each part of the list of extensions is the text of its pairs.\<close>

definition escaped :: "string \<times> string \<Rightarrow> string" where
  "escaped p = pair_text (fst p, escape_extension (snd p))"

definition spaced :: "string list \<Rightarrow> string" where
  "spaced xs = concat (map (\<lambda>x. CHR '' '' # x) xs)"

lemma spaced_append [simp]: "spaced (xs @ ys) = spaced xs @ spaced ys"
  by (simp add: spaced_def)

lemma spaced_Cons: "spaced (x # xs) = CHR '' '' # x @ spaced xs"
  by (simp add: spaced_def)

lemma spaced_Nil [simp]: "spaced [] = []"
  by (simp add: spaced_def)

lemma join_spaced: "xs \<noteq> [] \<Longrightarrow> CHR '' '' # join_with '' '' xs = spaced xs"
  by (induction "'' ''" xs rule: join_with.induct) (simp_all add: spaced_def)

lemma show_nat_plain:
  assumes "c \<in> set (show_nat n)"
  shows "c \<noteq> CHR 0x5C \<and> c \<noteq> CHR ''='' \<and> c \<noteq> CHR '' '' \<and> c \<noteq> CHR 0x0A \<and> c \<noteq> CHR 0x0D \<and> c \<noteq> CHR ''|''"
  using show_nat_digits [OF assms] by (auto simp: is_ascii_digit_def byte_def)

lemma show_nat_chars [simp]:
  "CHR 0x5C \<notin> set (show_nat n)" "CHR ''='' \<notin> set (show_nat n)" "CHR '' '' \<notin> set (show_nat n)"
  "CHR 0x0A \<notin> set (show_nat n)" "CHR 0x0D \<notin> set (show_nat n)" "CHR ''|'' \<notin> set (show_nat n)"
  using show_nat_plain by blast+

lemma escape_plain:
  "\<forall>c\<in>set t. c \<noteq> CHR 0x5C \<and> c \<noteq> CHR ''='' \<and> c \<noteq> CHR 0x0A \<and> c \<noteq> CHR 0x0D \<Longrightarrow> escape_extension t = t"
  by (induction t) (auto simp: escape_extension_def)

lemma spaced_maybe [simp]:
  "spaced (maybe (escaped_pair key) x) = spaced (map escaped (maybe_pair key x))"
  "spaced (maybe (plain_pair key \<circ> show_nat) n) = spaced (map escaped (maybe_pair key (map_option show_nat n)))"
proof -
  have "escape_extension (show_nat k) = show_nat k" for k using show_nat_plain by (intro escape_plain) blast
  then show "spaced (maybe (plain_pair key \<circ> show_nat) n) = spaced (map escaped (maybe_pair key (map_option show_nat n)))"
    by (auto simp: maybe_def maybe_pair_def escaped_def pair_text_def split: option.splits)
qed (auto simp: maybe_def maybe_pair_def escaped_def pair_text_def escaped_pair_def split: option.splits)

lemma spaced_custom: "spaced (custom_extensions members) = spaced (map escaped (written_custom members))"
proof -
  have "filter (\<lambda>(i, _). i + 2 \<le> 6) (enumerate n xs) = enumerate n (take (5 - n) xs)" for n and xs :: "(string \<times> string) list"
    by (induction xs arbitrary: n) (auto simp: take_Cons')
  from this [of 0 "take 6 members"]
  have "filter (\<lambda>(i, _). i + 2 \<le> 6) (enumerate 0 (take 6 members)) = enumerate 0 (take 5 members)" by simp
  then have "custom_extensions members = map (\<lambda>(i, key, val). ''cs'' @ show_nat (i + 2) @ ''Label='' @ escape_extension key
      @ '' cs'' @ show_nat (i + 2) @ ''='' @ escape_extension (trim_quotes val)) (enumerate 0 (take 5 members))"
    by (simp add: custom_extensions_def)
  moreover have "spaced (map (\<lambda>(i, key, val). ''cs'' @ show_nat (i + 2) @ ''Label='' @ escape_extension key
      @ '' cs'' @ show_nat (i + 2) @ ''='' @ escape_extension (trim_quotes val)) ms) =
    spaced (map escaped (concat (map (\<lambda>(i, key, val). [(''cs'' @ show_nat (i + 2) @ ''Label'', key),
      (''cs'' @ show_nat (i + 2), trim_quotes val)]) ms)))" for ms
    by (induction ms) (auto simp: spaced_Cons escaped_def pair_text_def plain_pair_def)
  ultimately show ?thesis by (simp add: written_custom_def)
qed

lemma cef_extensions_text:
  assumes "escape_extension (fm_cef_time env (ev_timestamp ev)) = fm_cef_time env (ev_timestamp ev)"
  shows "join_with '' '' (cef_extensions env ev) = join_with '' '' (map escaped (written_pairs env ev))"
proof -
  have "escape_extension ''agentVersion'' = ''agentVersion''" by (rule escape_plain) simp
  then have "spaced (cef_extensions env ev) = spaced (map escaped (written_pairs env ev))"
    using assms spaced_custom
    by (simp add: written_custom_def [of "[]"] unwrap_or_def cef_extensions_def written_pairs_def event_pairs_def spaced_Cons escaped_def [of "(_, _)"] pair_text_def escaped_pair_def plain_pair_def
        split: option.splits)
  moreover have "cef_extensions env ev \<noteq> []" "written_pairs env ev \<noteq> []" by (simp_all add: cef_extensions_def written_pairs_def event_pairs_def)
  then have "CHR '' '' # join_with '' '' (cef_extensions env ev) = spaced (cef_extensions env ev)"
    "CHR '' '' # join_with '' '' (map escaped (written_pairs env ev)) = spaced (map escaped (written_pairs env ev))"
    using join_spaced by auto
  ultimately show ?thesis by (metis list.inject)
qed

lemma written_keys_plain: "(k, v) \<in> set (written_pairs env ev) \<Longrightarrow> plain_key k"
  by (auto simp: written_pairs_def event_pairs_def maybe_pair_def written_custom_def plain_key_def list_all_iff split: option.splits)

lemma cef_reads_written:
  assumes "\<And>t. list_all (\<lambda>c. c \<notin> {CHR 0x5C, CHR ''='', CHR 0x0A, CHR 0x0D}) (fm_cef_time env t)"
  shows "read_cef (cef_format env f ev) =
      Some ([''0'', fr_vendor f, fr_product f, fr_version f, ev_event_id ev, ev_name ev, show_nat (cef_severity (ev_severity ev))],
        written_pairs env ev)" and
    "CHR 0x0A \<notin> set (cef_format env f ev)"
proof -
  have time: "escape_extension (fm_cef_time env t) = fm_cef_time env t" for t
    using assms [of t] by (intro escape_plain) (auto simp: list_all_iff)
  note ext = cef_extensions_text [OF time]
  let ?ext = "join_with '' '' (cef_extensions env ev)"
  define fs where "fs = [''0'', escape_field (fr_vendor f), escape_field (fr_product f), escape_field (fr_version f),
    escape_field (ev_event_id ev), escape_field (ev_name ev), show_nat (cef_severity (ev_severity ev))]"
  have cef: "cef_format env f ev = ''CEF:'' @ join_with ''|'' (fs @ [?ext])"
    by (simp only: cef_format_def fs_def append.simps)
  have n: "closed CHR ''|'' (show_nat k)" "unescape (show_nat k) = show_nat k" for k
    by (simp_all add: closed_plain unescape_plain)
  have "list_all (closed CHR ''|'') fs" by (simp add: fs_def n closed_plain)
  moreover have "length fs = 7" by (simp add: fs_def)
  ultimately have fields: "read_fields 7 (join_with ''|'' (fs @ [?ext])) = Some (map unescape fs, ?ext)"
    using read_fields_join by metis
  have exts: "read_extensions ?ext = written_pairs env ev"
  proof -
    let ?raw = "map (\<lambda>p. (fst p, escape_extension (snd p))) (written_pairs env ev)"
    have "?ext = join_with '' '' (map pair_text ?raw)" unfolding ext by (simp add: comp_def escaped_def [abs_def])
    moreover have "?raw \<noteq> []" by (simp add: written_pairs_def event_pairs_def)
    moreover have "\<forall>(k, v)\<in>set ?raw. plain_key k \<and> closed CHR ''='' v" using written_keys_plain by auto
    ultimately have "read_extensions ?ext = map (\<lambda>(k, v). (k, unescape v)) ?raw" using read_pairs_join [of ?raw] by simp
    then show ?thesis by (simp add: comp_def case_prod_beta)
  qed
  have "read_cef (cef_format env f ev) = Some (map unescape fs, written_pairs env ev)"
    using fields exts by (simp add: read_cef_def cef)
  moreover have "CHR 0x0A \<notin> set (cef_format env f ev)"
  proof -
    have "CHR 0x0A \<notin> set (escaped (k, v))" if "(k, v) \<in> set (written_pairs env ev)" for k v
      using that
      by (auto simp: escaped_def pair_text_def plain_pair_def written_pairs_def event_pairs_def maybe_pair_def written_custom_def split: option.splits)
    then have "CHR 0x0A \<notin> set (spaced (map escaped (written_pairs env ev)))" by (auto simp: spaced_def)
    moreover have "map escaped (written_pairs env ev) \<noteq> []" by (simp add: written_pairs_def event_pairs_def)
    then have "CHR '' '' # ?ext = spaced (map escaped (written_pairs env ev))" unfolding ext by (rule join_spaced)
    then have "set ?ext \<subseteq> set (spaced (map escaped (written_pairs env ev)))" by (metis set_subset_Cons)
    ultimately have "CHR 0x0A \<notin> set ?ext" by blast
    then show ?thesis by (simp add: cef_format_def)
  qed
  ultimately show "read_cef (cef_format env f ev) =
      Some ([''0'', fr_vendor f, fr_product f, fr_version f, ev_event_id ev, ev_name ev, show_nat (cef_severity (ev_severity ev))],
        written_pairs env ev)" and "CHR 0x0A \<notin> set (cef_format env f ev)" by (simp_all add: fs_def n(2))
qed

lemma trim_quotes_plain: "plain_value v \<Longrightarrow> trim_quotes (json_text v) = value_of v"
proof (cases v)
  case (PlainString t)
  assume "plain_value v"
  with PlainString have t: "CHR 0x22 \<notin> set t" by (auto simp: plain_value_def list_all_iff)
  then have "dropWhile (\<lambda>c. c = CHR 0x22) (t @ [CHR 0x22]) = (if t = [] then [] else t @ [CHR 0x22])"
    by (cases t) auto
  moreover have "dropWhile (\<lambda>c. c = CHR 0x22) (rev t) = rev t"
    using t by (cases t rule: rev_cases) auto
  ultimately show ?thesis using PlainString by (simp add: trim_quotes_def json_text_def value_of_def)
next
  case (OtherJson t)
  assume "plain_value v"
  with OtherJson have t: "t \<noteq> []" "hd t \<noteq> CHR 0x22" "hd (rev t) \<noteq> CHR 0x22" by (auto simp: plain_value_def hd_rev)
  have keep: "dropWhile (\<lambda>c. c = CHR 0x22) xs = xs" if "hd xs \<noteq> CHR 0x22" for xs
    using that by (cases xs) simp_all
  note keep [OF t(2)] keep [OF t(3)]
  with OtherJson show ?thesis by (simp add: trim_quotes_def json_text_def value_of_def Let_def)
qed

lemma written_slots:
  "written_custom (map (\<lambda>(k, v). (k, json_text v)) custom) =
    concat (map slot_pairs (zip free_slots (map (\<lambda>(k, v). (k, trim_quotes (json_text v))) custom)))"
proof -
  have "map (\<lambda>i. ''cs'' @ show_nat (i + 2)) [0..<5] = free_slots" by code_simp
  moreover have "enumerate 0 (take 5 xs) = zip [0..<5] xs" for xs :: "(string \<times> string) list"
  proof -
    have "enumerate n (take m xs) = zip [n..<n + m] xs" for n m
      by (induction xs arbitrary: n m) (auto simp: take_Cons' upt_rec)
    from this [of 0 5] show ?thesis by simp
  qed
  moreover have "map (\<lambda>(i, key, val). [(''cs'' @ show_nat (i + 2) @ ''Label'', key), (''cs'' @ show_nat (i + 2), trim_quotes val)])
      (zip is (map (\<lambda>(k, v). (k, json_text v)) custom)) =
    map slot_pairs (zip (map (\<lambda>i. ''cs'' @ show_nat (i + 2)) is) (map (\<lambda>(k, v). (k, trim_quotes (json_text v))) custom))" for "is"
    by (induction "is" custom rule: list_induct2') (auto simp: slot_pairs_def)
  ultimately show ?thesis unfolding written_custom_def by (simp only:)
qed

text \<open>C34: The CEF message of an event is one line, and reading it back, each field and value up to the next delimiter that
  is not escaped, gives the header, exactly the fields and values of the event whatever they hold, and for its custom
  fields, in the five slots CEF has left, the keys exactly, and the values exactly but for strings whose JSON has escapes.
  Custom fields after the fifth are not in the message.\<close>

theorem cef_roundtrip:
  assumes "\<And>t. list_all (\<lambda>c. c \<notin> {CHR 0x5C, CHR ''='', CHR 0x0A, CHR 0x0D}) (fm_cef_time env t)"
    and "unwrap_or (fm_members env (ev_custom_fields ev)) [] = map (\<lambda>(k, v). (k, json_text v)) custom"
  shows "CHR 0x0A \<notin> set (cef_format env f ev) \<and>
    (\<exists>vals. read_cef (cef_format env f ev) =
       Some ([''0'', fr_vendor f, fr_product f, fr_version f, ev_event_id ev, ev_name ev, show_nat (cef_severity (ev_severity ev))],
         event_pairs env ev @ concat (map slot_pairs (zip free_slots (zip (map fst custom) vals)))) \<and>
       length vals = length custom \<and>
       (\<forall>i<length custom. plain_value (snd (custom ! i)) \<longrightarrow> vals ! i = value_of (snd (custom ! i))))"
proof -
  let ?vals = "map (\<lambda>(k, v). trim_quotes (json_text v)) custom"
  have "zip (map fst custom) ?vals = map (\<lambda>(k, v). (k, trim_quotes (json_text v))) custom"
    by (induction custom) auto
  then have "written_pairs env ev = event_pairs env ev @ concat (map slot_pairs (zip free_slots (zip (map fst custom) ?vals)))"
    by (simp add: written_pairs_def assms(2) written_slots)
  with cef_reads_written [OF assms(1), where f = f and ev = ev] trim_quotes_plain show ?thesis
    by (intro conjI exI [of _ ?vals]) (auto simp: split_beta)
qed

definition sample_env :: format_env where
  "sample_env = \<lparr>fm_cef_time = \<lambda>_. ''Jan 01 2026 00:00:00'', fm_leef_time = \<lambda>_. ''Jan 01 2026 00:00:00 UTC'',
     fm_members = (\<lambda>_. Some [(''a=b'', [CHR 0x22] @ ''|x'' @ [CHR 0x22])]), fm_agent_version = ''1.0''\<rparr>"

definition sample_event :: siem_event where
  "sample_event = \<lparr>ev_timestamp = 0, ev_severity = 12, ev_category = Security, ev_name = ''a|b'' @ [CHR 0x5C],
     ev_description = ''x=1 y=2'' @ [CHR 0x0A] @ ''CEF:0|'', ev_source_host = ''h'', ev_source_ip = None, ev_destination_ip = None,
     ev_destination_port = None, ev_user = None, ev_process_name = None, ev_process_id = Some 7, ev_file_path = None,
     ev_custom_fields = ''{}'', ev_event_id = ''e'', ev_agent_version = ''1.0''\<rparr>"

theorem cef_roundtrip_witness:
  "read_cef (cef_format sample_env (new_formatter sample_env) sample_event) =
     Some ([''0'', ''Sentinel'', ''GRC Agent'', ''1.0'', ''e'', ''a|b'' @ [CHR 0x5C], ''10''],
       [(''rt'', ''Jan 01 2026 00:00:00''), (''cat'', ''security''), (''msg'', ''x=1 y=2'' @ [CHR 0x0A] @ ''CEF:0|''),
        (''shost'', ''h''), (''spid'', ''7''), (''externalId'', ''e''), (''cs1Label'', ''agentVersion''), (''cs1'', ''1.0''),
        (''cs2Label'', ''a=b''), (''cs2'', ''|x'')])"
proof -
  have "list_all (\<lambda>c. c \<notin> {CHR 0x5C, CHR ''='', CHR 0x0A, CHR 0x0D}) (fm_cef_time sample_env t)" for t
    by (simp add: sample_env_def)
  moreover have "unwrap_or (fm_members sample_env (ev_custom_fields sample_event)) [] =
      map (\<lambda>(k, v). (k, json_text v)) [(''a=b'', PlainString ''|x'')]"
    by (simp add: unwrap_or_def sample_env_def json_text_def)
  ultimately obtain vals where
    r: "read_cef (cef_format sample_env (new_formatter sample_env) sample_event) =
      Some ([''0'', ''Sentinel'', ''GRC Agent'', ''1.0'', ''e'', ''a|b'' @ [CHR 0x5C], show_nat 10],
        event_pairs sample_env sample_event @ concat (map slot_pairs (zip free_slots (zip [''a=b''] vals))))"
    and v: "length vals = 1" "plain_value (PlainString ''|x'') \<Longrightarrow> vals ! 0 = ''|x''"
    using cef_roundtrip [of sample_env sample_event "[(''a=b'', PlainString ''|x'')]" "new_formatter sample_env"]
    by (auto simp: new_formatter_def sample_env_def sample_event_def cef_severity_def value_of_def)
  have "plain_value (PlainString ''|x'')" by code_simp
  with v have "vals = [''|x'']" by (cases vals) auto
  moreover have "event_pairs sample_env sample_event @ concat (map slot_pairs (zip free_slots (zip [''a=b''] [''|x'']))) =
    [(''rt'', ''Jan 01 2026 00:00:00''), (''cat'', ''security''), (''msg'', ''x=1 y=2'' @ [CHR 0x0A] @ ''CEF:0|''),
     (''shost'', ''h''), (''spid'', ''7''), (''externalId'', ''e''), (''cs1Label'', ''agentVersion''), (''cs1'', ''1.0''),
     (''cs2Label'', ''a=b''), (''cs2'', ''|x'')]"
    by code_simp
  moreover have "show_nat 10 = ''10''" by code_simp
  ultimately show ?thesis using r by simp
qed

section \<open>LEEF\<close>

text \<open>The header of a LEEF message does not escape a backslash: a name that ends in one hides the delimiter before the
  attributes, and the first attribute is read as part of the name.\<close>

lemma leef_name_swallows_delimiter:
  assumes "ev_name ev = n @ [CHR 0x5C]" "CHR 0x5C \<notin> set n" "CHR ''|'' \<notin> set n" "CHR 0x0A \<notin> set n" "CHR 0x0D \<notin> set n"
  shows "ucut CHR ''|'' (join_with ''|'' [escape_header (ev_name ev), attrs]) =
    map_option (\<lambda>(a, r). (n @ [CHR 0x5C, CHR ''|''] @ a, r)) (ucut CHR ''|'' attrs)"
proof -
  have plain: "\<forall>c\<in>set s. c \<noteq> CHR ''|'' \<and> c \<noteq> CHR 0x0A \<and> c \<noteq> CHR 0x0D \<Longrightarrow> escape_header s = s" for s
    by (induction s) (auto simp: escape_header_def)
  have "escape_header (ev_name ev) = n @ [CHR 0x5C]" unfolding assms(1) using assms(3-5) by (intro plain) auto
  moreover have "closed CHR ''|'' n" using assms(2,3) by (rule closed_plain [rotated])
  ultimately show ?thesis by (simp add: closed_def option.map_comp comp_def split_beta')
qed

end
