(* ===== verification/Siem_Forward.thy ===== *)
theory Siem_Forward imports Siem_Format begin

text \<open>
  The forwarder of SIEM events (\<open>crates/agent-siem/src/lib.rs\<close>): its buffer, its statistics, the events it keeps for the
  platform, and the transports behind it (\<open>transports/syslog.rs\<close> and \<open>transports/http.rs\<close>). Then the stages of the main
  loop that drive it: what the log collector and the correlation engine found, the settings of the interface and the report to
  the platform (\<open>crates/agent-core/src/main_loop/siem.rs\<close> and \<open>platform.rs\<close>).

  What the network answers is a parameter, per call: the answer to an HTTP request (\<open>reqwest\<close>), whether a connection opens
  and a write goes through. So are the clock, the text of an event in JSON and the identifiers drawn. \<open>lk_sent\<close> is what a
  transport has said to be sent, in order, \<open>lk_slept\<close> the milliseconds waited between attempts.
\<close>

section \<open>Types\<close>

datatype siem_format = Cef | Leef | Json

datatype syslog_protocol = Udp | Tcp

datatype siem_transport =
    SyslogTo string nat syslog_protocol bool "string option" "string option"
  | HttpTo string "string option" "string option" bool "string option" "string option"

datatype siem_error =
    FormatError string | ConnectionError string | SendError string | ConfigError string | SerializationError string
  | IoError string | TlsError string | AuthError string | RateLimitExceeded | TimedOut

definition siem_error_text :: "siem_error \<Rightarrow> string" where
  "siem_error_text e =
     (case e of
        FormatError s \<Rightarrow> ''Failed to format event: '' @ s | ConnectionError s \<Rightarrow> ''Connection error: '' @ s
      | SendError s \<Rightarrow> ''Send error: '' @ s | ConfigError s \<Rightarrow> ''Configuration error: '' @ s
      | SerializationError s \<Rightarrow> ''Serialization error: '' @ s | IoError s \<Rightarrow> ''IO error: '' @ s
      | TlsError s \<Rightarrow> ''TLS error: '' @ s | AuthError s \<Rightarrow> ''Authentication error: '' @ s
      | RateLimitExceeded \<Rightarrow> ''Rate limit exceeded'' | TimedOut \<Rightarrow> ''Operation timed out'')"

record siem_config =
  sc_enabled :: bool
  sc_format :: siem_format
  sc_transport :: siem_transport
  sc_batch_size :: nat
  sc_flush_interval_secs :: u64
  sc_use_compression :: bool
  sc_min_severity :: nat
  sc_include_categories :: "event_category list"
  sc_custom_fields :: string

definition default_siem_config :: siem_config where
  "default_siem_config =
     \<lparr>sc_enabled = False, sc_format = Json, sc_transport = SyslogTo ''localhost'' 514 Tcp False None None,
      sc_batch_size = 100, sc_flush_interval_secs = 30, sc_use_compression = True, sc_min_severity = 0,
      sc_include_categories = [], sc_custom_fields = ''null''\<rparr>"

record siem_stats =
  ss_events_sent :: u64
  ss_events_dropped :: u64
  ss_bytes_sent :: u64
  ss_last_success :: "instant option"
  ss_last_error :: "string option"
  ss_is_connected :: bool

definition default_siem_stats :: siem_stats where
  "default_siem_stats =
     \<lparr>ss_events_sent = 0, ss_events_dropped = 0, ss_bytes_sent = 0, ss_last_success = None, ss_last_error = None,
      ss_is_connected = False\<rparr>"

definition RECENT_EVENTS_LIMIT :: nat where "RECENT_EVENTS_LIMIT = 100"
definition MAX_BUFFER_SIZE :: nat where "MAX_BUFFER_SIZE = 10000"
definition MAX_RETRIES :: nat where "MAX_RETRIES = 3"
definition BASE_RETRY_DELAY_MS :: nat where "BASE_RETRY_DELAY_MS = 500"

definition u64_saturating_add :: "u64 \<Rightarrow> u64 \<Rightarrow> u64" where
  "u64_saturating_add a b = min (a + b) u64_max"

section \<open>Transports\<close>

text \<open>The answer to a request: no connection, no answer in time, another failure, or a status with its text and the body.\<close>

datatype http_reply = NoConnection string | NoAnswer | BadRequest string | HttpStatus nat string string

record siem_env =
  se_format :: format_env
  se_json :: "siem_event \<Rightarrow> string + string"
  se_now :: "nat \<Rightarrow> instant"
  se_http :: "nat \<Rightarrow> http_reply"
  se_connect :: "nat \<Rightarrow> string option"
  se_tls :: "nat \<Rightarrow> siem_error option"
  se_write :: "nat \<Rightarrow> string option"
  se_datagram :: "nat \<Rightarrow> string + nat"
  se_hostname :: string
  se_stamp :: "nat \<Rightarrow> string"
  se_pid :: u32

record siem_link =
  lk_calls :: nat
  lk_sent :: "string list"
  lk_slept :: "nat list"
  lk_tcp :: bool
  lk_tls :: bool
  lk_udp :: bool
  lk_http :: bool

text \<open>A transport just made has no connection.\<close>

definition new_transport :: "siem_link \<Rightarrow> siem_link" where
  "new_transport l = l\<lparr>lk_tcp := False, lk_tls := False, lk_udp := False, lk_http := False\<rparr>"

definition send_once :: "siem_env \<Rightarrow> string \<Rightarrow> string \<Rightarrow> siem_link \<Rightarrow> siem_link \<times> (siem_error + nat)" where
  "send_once env url data l =
     (let called = l\<lparr>lk_calls := lk_calls l + 1\<rparr>
      in case se_http env (lk_calls l) of
        NoConnection e \<Rightarrow> (called\<lparr>lk_http := False\<rparr>, Inl (ConnectionError (''Failed to connect to '' @ url @ '': '' @ e)))
      | NoAnswer \<Rightarrow> (called\<lparr>lk_http := False\<rparr>, Inl TimedOut)
      | BadRequest e \<Rightarrow> (called\<lparr>lk_http := False\<rparr>, Inl (SendError (''Request failed: '' @ e)))
      | HttpStatus code status body \<Rightarrow>
          if 200 \<le> code \<and> code \<le> 299
          then (called\<lparr>lk_http := True, lk_sent := lk_sent l @ [data]\<rparr>, Inr (length data))
          else if code = 401 \<or> code = 403
          then (called\<lparr>lk_http := False\<rparr>, Inl (AuthError (''Authentication failed (HTTP '' @ status @ '')'')))
          else if code = 429 then (called, Inl RateLimitExceeded)
          else (called, Inl (SendError (''HTTP '' @ status @ '' - '' @ take_chars 200 body))))"

definition is_final_error :: "siem_error \<Rightarrow> bool" where
  "is_final_error e = (case e of AuthError _ \<Rightarrow> True | ConfigError _ \<Rightarrow> True | _ \<Rightarrow> False)"

definition retry_wait :: "nat \<Rightarrow> siem_link \<Rightarrow> siem_link" where
  "retry_wait attempt l =
     (if attempt = 0 then l else l\<lparr>lk_slept := lk_slept l @ [BASE_RETRY_DELAY_MS * 2 ^ (attempt - 1)]\<rparr>)"

fun send_attempts ::
  "siem_env \<Rightarrow> string \<Rightarrow> string \<Rightarrow> nat list \<Rightarrow> siem_error option \<Rightarrow> siem_link \<Rightarrow> siem_link \<times> (siem_error + nat)" where
  "send_attempts env url data [] before l =
     (l, Inl (case before of Some e \<Rightarrow> e | None \<Rightarrow> SendError ''All retries exhausted''))"
| "send_attempts env url data (attempt # rest) before l =
     (case send_once env url data (retry_wait attempt l) of
        (l1, Inr n) \<Rightarrow> (l1, Inr n)
      | (l1, Inl e) \<Rightarrow> if is_final_error e then (l1, Inl e) else send_attempts env url data rest (Some e) l1)"

definition send_with_retry :: "siem_env \<Rightarrow> string \<Rightarrow> string \<Rightarrow> siem_link \<Rightarrow> siem_link \<times> (siem_error + nat)" where
  "send_with_retry env url data = send_attempts env url data [0..<MAX_RETRIES + 1] None"

text \<open>The frame at the time of a call, in the facility local0.\<close>

definition new_syslog :: "siem_env \<Rightarrow> nat \<Rightarrow> syslog_env" where
  "new_syslog env n =
     \<lparr>sy_facility = 16, sy_timestamp = se_stamp env n, sy_hostname = se_hostname env, sy_app_name = ''sentinel-agent'',
      sy_pid = se_pid env\<rparr>"

definition siem_addr :: "string \<Rightarrow> nat \<Rightarrow> string" where
  "siem_addr host port = host @ '':'' @ show_nat port"

definition ensure_tcp_connection :: "siem_env \<Rightarrow> string \<Rightarrow> nat \<Rightarrow> siem_link \<Rightarrow> siem_link \<times> (siem_error + unit)" where
  "ensure_tcp_connection env host port l =
     (if lk_tcp l then (l, Inr ())
      else let called = l\<lparr>lk_calls := lk_calls l + 1\<rparr>
           in case se_connect env (lk_calls l) of
                None \<Rightarrow> (called\<lparr>lk_tcp := True\<rparr>, Inr ())
              | Some e \<Rightarrow> (called, Inl (ConnectionError (''Failed to connect to syslog server '' @ siem_addr host port @ '': '' @ e))))"

definition ensure_tls_connection :: "siem_env \<Rightarrow> siem_link \<Rightarrow> siem_link \<times> (siem_error + unit)" where
  "ensure_tls_connection env l =
     (if lk_tls l then (l, Inr ())
      else let called = l\<lparr>lk_calls := lk_calls l + 1\<rparr>
           in case se_tls env (lk_calls l) of
                None \<Rightarrow> (called\<lparr>lk_tls := True\<rparr>, Inr ())
              | Some e \<Rightarrow> (called, Inl e))"

definition ensure_udp_socket :: "siem_env \<Rightarrow> siem_link \<Rightarrow> siem_link \<times> (siem_error + unit)" where
  "ensure_udp_socket env l =
     (if lk_udp l then (l, Inr ())
      else let called = l\<lparr>lk_calls := lk_calls l + 1\<rparr>
           in case se_connect env (lk_calls l) of
                None \<Rightarrow> (called\<lparr>lk_udp := True\<rparr>, Inr ())
              | Some e \<Rightarrow> (called, Inl (ConnectionError (''Failed to bind UDP socket: '' @ e))))"

definition send_tcp :: "siem_env \<Rightarrow> string \<Rightarrow> nat \<Rightarrow> string \<Rightarrow> siem_link \<Rightarrow> siem_link \<times> (siem_error + nat)" where
  "send_tcp env host port message l =
     (case ensure_tcp_connection env host port l of
        (l1, Inl e) \<Rightarrow> (l1, Inl e)
      | (l1, Inr _) \<Rightarrow>
          let data = message @ [CHR 0x0A];
              called = l1\<lparr>lk_calls := lk_calls l1 + 1\<rparr>
          in case se_write env (lk_calls l1) of
               None \<Rightarrow> (called\<lparr>lk_sent := lk_sent l1 @ [data]\<rparr>, Inr (length data))
             | Some e \<Rightarrow> (called\<lparr>lk_tcp := False\<rparr>, Inl (SendError (''Failed to send: '' @ e))))"

definition send_tls :: "siem_env \<Rightarrow> string \<Rightarrow> siem_link \<Rightarrow> siem_link \<times> (siem_error + nat)" where
  "send_tls env message l =
     (case ensure_tls_connection env l of
        (l1, Inl e) \<Rightarrow> (l1, Inl e)
      | (l1, Inr _) \<Rightarrow>
          let data = message @ [CHR 0x0A];
              called = l1\<lparr>lk_calls := lk_calls l1 + 1\<rparr>
          in case se_write env (lk_calls l1) of
               None \<Rightarrow> (called\<lparr>lk_sent := lk_sent l1 @ [data]\<rparr>, Inr (length data))
             | Some e \<Rightarrow> (called\<lparr>lk_tls := False\<rparr>, Inl (SendError (''Failed to send via TLS: '' @ e))))"

definition send_udp :: "siem_env \<Rightarrow> string \<Rightarrow> siem_link \<Rightarrow> siem_link \<times> (siem_error + nat)" where
  "send_udp env message l =
     (case ensure_udp_socket env l of
        (l1, Inl e) \<Rightarrow> (l1, Inl e)
      | (l1, Inr _) \<Rightarrow>
          let called = l1\<lparr>lk_calls := lk_calls l1 + 1\<rparr>
          in case se_datagram env (lk_calls l1) of
               Inr sent \<Rightarrow> (called\<lparr>lk_sent := lk_sent l1 @ [message]\<rparr>, Inr sent)
             | Inl e \<Rightarrow> (called, Inl (SendError (''Failed to send UDP: '' @ e))))"

text \<open>\<open>SyslogTransport::send\<close> and \<open>HttpTransport::send\<close>.\<close>

definition transport_send :: "siem_env \<Rightarrow> siem_transport \<Rightarrow> string \<Rightarrow> siem_link \<Rightarrow> siem_link \<times> (siem_error + nat)" where
  "transport_send env t data l =
     (case t of
        HttpTo url _ _ _ _ _ \<Rightarrow> send_with_retry env url data l
      | SyslogTo host port protocol tls _ _ \<Rightarrow>
          (let message = build_syslog_message (new_syslog env (lk_calls l)) 6 data
           in if tls then send_tls env message l
              else case protocol of Tcp \<Rightarrow> send_tcp env host port message l | Udp \<Rightarrow> send_udp env message l))"

definition transport_is_connected :: "siem_transport \<Rightarrow> siem_link \<Rightarrow> bool" where
  "transport_is_connected t l =
     (case t of
        HttpTo _ _ _ _ _ _ \<Rightarrow> lk_http l
      | SyslogTo _ _ protocol tls _ _ \<Rightarrow> if tls then lk_tls l else case protocol of Tcp \<Rightarrow> lk_tcp l | Udp \<Rightarrow> True)"

section \<open>Forwarder\<close>

record siem_forwarder =
  fw_config :: siem_config
  fw_format :: siem_format
  fw_link :: siem_link
  fw_buffer :: "siem_event list"
  fw_stats :: siem_stats
  fw_recent :: "siem_event list"

definition new_forwarder :: "siem_config \<Rightarrow> siem_link \<Rightarrow> siem_forwarder" where
  "new_forwarder cfg world =
     \<lparr>fw_config = cfg, fw_format = sc_format cfg, fw_link = new_transport world, fw_buffer = [], fw_stats = default_siem_stats,
      fw_recent = []\<rparr>"

definition format_event :: "siem_env \<Rightarrow> siem_format \<Rightarrow> siem_event \<Rightarrow> siem_error + string" where
  "format_event env fmt ev =
     (case fmt of
        Cef \<Rightarrow> Inr (cef_format (se_format env) (new_formatter (se_format env)) ev)
      | Leef \<Rightarrow> Inr (leef_format (se_format env) (new_formatter (se_format env)) ev)
      | Json \<Rightarrow> (case se_json env ev of Inl e \<Rightarrow> Inl (SerializationError e) | Inr t \<Rightarrow> Inr t))"

definition unconfigured :: "siem_transport \<Rightarrow> bool" where
  "unconfigured t = (case t of SyslogTo host port _ _ _ _ \<Rightarrow> host = ''localhost'' \<and> port = 514 | _ \<Rightarrow> False)"

definition filtered :: "siem_config \<Rightarrow> siem_event \<Rightarrow> bool" where
  "filtered cfg ev \<longleftrightarrow>
     ev_severity ev < sc_min_severity cfg
     \<or> (sc_include_categories cfg \<noteq> [] \<and> ev_category ev \<notin> set (sc_include_categories cfg))"

definition push_recent :: "siem_event \<Rightarrow> siem_event list \<Rightarrow> siem_event list" where
  "push_recent ev recent = (let more = recent @ [ev] in drop (length more - RECENT_EVENTS_LIMIT) more)"

definition record_event :: "siem_event \<Rightarrow> siem_forwarder \<Rightarrow> siem_forwarder" where
  "record_event ev f = f\<lparr>fw_recent := push_recent ev (fw_recent f)\<rparr>"

definition take_recent_events :: "siem_forwarder \<Rightarrow> siem_forwarder \<times> siem_event list" where
  "take_recent_events f = (f\<lparr>fw_recent := []\<rparr>, fw_recent f)"

definition sent_stats :: "instant \<Rightarrow> u64 \<Rightarrow> nat \<Rightarrow> siem_stats \<Rightarrow> siem_stats" where
  "sent_stats now events bytes st =
     st\<lparr>ss_events_sent := u64_saturating_add (ss_events_sent st) events,
        ss_bytes_sent := u64_saturating_add (ss_bytes_sent st) bytes, ss_last_success := Some now, ss_is_connected := True\<rparr>"

definition dropped_stats :: "siem_error \<Rightarrow> u64 \<Rightarrow> siem_stats \<Rightarrow> siem_stats" where
  "dropped_stats e events st =
     st\<lparr>ss_events_dropped := u64_saturating_add (ss_events_dropped st) events, ss_is_connected := False,
        ss_last_error := Some (siem_error_text e)\<rparr>"

definition send_event :: "siem_env \<Rightarrow> siem_event \<Rightarrow> siem_forwarder \<Rightarrow> siem_forwarder \<times> (siem_error + unit)" where
  "send_event env ev f =
     (if \<not> sc_enabled (fw_config f) then (f, Inr ())
      else if unconfigured (sc_transport (fw_config f)) then (f, Inr ())
      else if filtered (fw_config f) ev then (f, Inr ())
      else case format_event env (fw_format f) ev of
        Inl e \<Rightarrow> (f, Inl e)
      | Inr text \<Rightarrow>
          (case transport_send env (sc_transport (fw_config f)) text (fw_link f) of
             (l, Inr bytes) \<Rightarrow>
               (record_event ev
                  (f\<lparr>fw_link := l,
                     fw_stats := (sent_stats (se_now env (lk_calls l)) 1 bytes (fw_stats f))\<lparr>ss_last_error := None\<rparr>\<rparr>),
                Inr ())
           | (l, Inl e) \<Rightarrow> (f\<lparr>fw_link := l, fw_stats := dropped_stats e 1 (fw_stats f)\<rparr>, Inl e)))"

definition send_required_event ::
  "siem_env \<Rightarrow> siem_event \<Rightarrow> siem_forwarder \<Rightarrow> siem_forwarder \<times> (siem_error + unit)" where
  "send_required_event env ev f =
     (if \<not> sc_enabled (fw_config f) \<or> unconfigured (sc_transport (fw_config f))
      then (f, Inl (ConfigError ''SIEM destination is not enabled/configured''))
      else if filtered (fw_config f) ev then (f, Inl (ConfigError ''SIEM policy filters this response action''))
      else send_event env ev f)"

definition siem_flush :: "siem_env \<Rightarrow> siem_forwarder \<Rightarrow> siem_forwarder \<times> (siem_error + unit)" where
  "siem_flush env f =
     (let events = fw_buffer f; f1 = f\<lparr>fw_buffer := []\<rparr>
      in if events = [] then (f1, Inr ())
         else let formatted = List.map_filter (\<lambda>ev. case format_event env (fw_format f1) ev of Inr t \<Rightarrow> Some t | Inl _ \<Rightarrow> None) events
              in case transport_send env (sc_transport (fw_config f1)) (join_with [CHR 0x0A] formatted) (fw_link f1) of
                   (l, Inr bytes) \<Rightarrow>
                     (f1\<lparr>fw_link := l, fw_stats := sent_stats (se_now env (lk_calls l)) (length events) bytes (fw_stats f1)\<rparr>, Inr ())
                 | (l, Inl e) \<Rightarrow> (f1\<lparr>fw_link := l, fw_stats := dropped_stats e (length events) (fw_stats f1)\<rparr>, Inl e))"

definition queue_event :: "siem_env \<Rightarrow> siem_event \<Rightarrow> siem_forwarder \<Rightarrow> siem_forwarder \<times> bool" where
  "queue_event env ev f =
     (if \<not> sc_enabled (fw_config f) then (f, True)
      else if MAX_BUFFER_SIZE \<le> length (fw_buffer f)
      then (f\<lparr>fw_stats := (fw_stats f)\<lparr>ss_events_dropped := u64_saturating_add (ss_events_dropped (fw_stats f)) 1\<rparr>\<rparr>, False)
      else let f1 = f\<lparr>fw_buffer := fw_buffer f @ [ev]\<rparr>
           in if sc_batch_size (fw_config f1) \<le> length (fw_buffer f1) then (fst (siem_flush env f1), True) else (f1, True))"

definition update_config :: "siem_config \<Rightarrow> siem_forwarder \<Rightarrow> siem_forwarder" where
  "update_config cfg f =
     f\<lparr>fw_config := cfg, fw_format := sc_format cfg, fw_link := new_transport (fw_link f)\<rparr>"

section \<open>Main loop\<close>

text \<open>\<open>record_siem_events\<close>, and the same loop in \<open>record_log_events_in_siem\<close> and \<open>record_correlation_alerts_in_siem\<close>.\<close>

definition record_and_forward :: "siem_env \<Rightarrow> siem_event \<Rightarrow> siem_forwarder \<Rightarrow> siem_forwarder" where
  "record_and_forward env ev f =
     (let f1 = record_event ev f in if sc_enabled (fw_config f1) then fst (send_event env ev f1) else f1)"

definition record_siem_events :: "siem_env \<Rightarrow> siem_event list \<Rightarrow> siem_forwarder option \<Rightarrow> siem_forwarder option" where
  "record_siem_events env events = map_option (\<lambda>f. fold (record_and_forward env) events f)"

text \<open>The JSON of an alert and the identifier drawn for its event are arguments.\<close>

definition alert_to_event :: "string \<Rightarrow> string \<Rightarrow> string \<Rightarrow> correlation_alert \<Rightarrow> string \<Rightarrow> siem_event" where
  "alert_to_event json uuid version alert hostname =
     \<lparr>ev_timestamp = ca_generated_at alert, ev_severity = ca_severity alert, ev_category = Security,
      ev_name = ''correlation_alert_'' @ ca_rule_id alert, ev_description = ca_description alert, ev_source_host = hostname,
      ev_source_ip = None, ev_destination_ip = None, ev_destination_port = None, ev_user = None, ev_process_name = None,
      ev_process_id = None, ev_file_path = None, ev_custom_fields = json, ev_event_id = uuid, ev_agent_version = version\<rparr>"

record log_stage =
  ls_forwarder :: "siem_forwarder option"
  ls_engine :: "correlation_engine option"
  ls_outbox :: "correlation_alert list list"

definition correlate_log_events ::
  "siem_env \<Rightarrow> (string \<Rightarrow> string \<Rightarrow> bool) \<Rightarrow> (correlation_alert \<Rightarrow> string \<times> string) \<Rightarrow> (instant \<times> siem_event) list
   \<Rightarrow> log_stage \<Rightarrow> log_stage" where
  "correlate_log_events env is_match draw events s =
     (case ls_engine s of
        None \<Rightarrow> s
      | Some engine \<Rightarrow>
          (let (engine', alerts) = process_events is_match events engine; s1 = s\<lparr>ls_engine := Some engine'\<rparr>
           in if alerts = [] then s1
              else s1\<lparr>ls_forwarder := record_siem_events env
                        (map (\<lambda>a. alert_to_event (fst (draw a)) (snd (draw a)) (fm_agent_version (se_format env)) a (se_hostname env)) alerts)
                        (ls_forwarder s1),
                      ls_outbox := ls_outbox s1 @ [alerts]\<rparr>))"

definition handle_collected_logs ::
  "siem_env \<Rightarrow> (string \<Rightarrow> string \<Rightarrow> bool) \<Rightarrow> (correlation_alert \<Rightarrow> string \<times> string) \<Rightarrow> (instant \<times> siem_event) list
   \<Rightarrow> log_stage \<Rightarrow> log_stage" where
  "handle_collected_logs env is_match draw events s =
     correlate_log_events env is_match draw events
       (s\<lparr>ls_forwarder := record_siem_events env (map snd events) (ls_forwarder s)\<rparr>)"

definition siem_format_from_label :: "string \<Rightarrow> siem_format" where
  "siem_format_from_label label = (if label = ''CEF'' then Cef else if label = ''LEEF'' then Leef else Json)"

definition siem_transport_from_gui :: "string \<Rightarrow> string \<Rightarrow> siem_transport" where
  "siem_transport_from_gui transport destination =
     (if transport = ''HTTP'' then HttpTo destination None None True None None
      else case split_once CHR '':'' destination of
             None \<Rightarrow> SyslogTo destination 514 Tcp False None None
           | Some (host, port) \<Rightarrow> SyslogTo host (unwrap_or (parse_unsigned 65535 port) 514) Tcp False None None)"

record gui_siem =
  gs_enabled :: bool
  gs_destination :: string
  gs_format :: string
  gs_transport :: string

text \<open>\<open>free\<close>: the forwarder can be locked at once.\<close>

definition sync_gui_siem_config :: "gui_siem \<Rightarrow> bool \<Rightarrow> siem_forwarder option \<Rightarrow> siem_forwarder option" where
  "sync_gui_siem_config g free fw =
     (let has_destination = gs_destination g \<noteq> []; effective_enabled = (gs_enabled g \<and> has_destination)
      in case fw of
           None \<Rightarrow> None
         | Some f \<Rightarrow>
             if sc_enabled (fw_config f) = effective_enabled then Some f
             else if \<not> free then Some f
             else let cfg = (fw_config f)\<lparr>sc_enabled := effective_enabled, sc_format := siem_format_from_label (gs_format g)\<rparr>;
                      cfg' = (if has_destination
                              then cfg\<lparr>sc_transport := siem_transport_from_gui (gs_transport g) (gs_destination g)\<rparr> else cfg)
                  in Some (update_config cfg' f))"

text \<open>The report to the platform: its events and the statistics at that time; \<open>accepted\<close> says whether the platform took it.\<close>

definition sync_siem_to_platform ::
  "bool \<Rightarrow> siem_forwarder option \<Rightarrow> siem_forwarder option \<times> (siem_event list \<times> siem_stats \<times> siem_config) option" where
  "sync_siem_to_platform accepted fw =
     (case fw of
        None \<Rightarrow> (None, None)
      | Some f \<Rightarrow>
          (let stats = fw_stats f; (f1, recent) = take_recent_events f
           in (Some f1, if accepted then Some (recent, stats, fw_config f1) else None)))"

end
