(* ===== verification/Siem_Forward_Props.thy ===== *)
theory Siem_Forward_Props imports Siem_Forward begin

text \<open>
  What the forwarder promises: every event it takes charge of is counted once, as sent, as dropped or as waiting; what it holds is
  bounded; an HTTP collector is asked four times at most. What the platform is told is another matter: an event that was also
  forwarded is reported to it twice.
\<close>

section \<open>Accounting\<close>

datatype siem_op =
    QueueOp siem_event | FlushOp | SendOp siem_event | RequiredOp siem_event | RecordOp siem_event | TakeOp | ConfigOp siem_config

fun siem_step :: "siem_env \<Rightarrow> siem_op \<Rightarrow> siem_forwarder \<Rightarrow> siem_forwarder" where
  "siem_step env (QueueOp ev) f = fst (queue_event env ev f)"
| "siem_step env FlushOp f = fst (siem_flush env f)"
| "siem_step env (SendOp ev) f = fst (send_event env ev f)"
| "siem_step env (RequiredOp ev) f = fst (send_required_event env ev f)"
| "siem_step env (RecordOp ev) f = record_event ev f"
| "siem_step env TakeOp f = fst (take_recent_events f)"
| "siem_step env (ConfigOp cfg) f = update_config cfg f"

fun siem_steps :: "siem_env \<Rightarrow> siem_op list \<Rightarrow> siem_forwarder \<Rightarrow> siem_forwarder" where
  "siem_steps env [] f = f"
| "siem_steps env (op # ops) f = siem_steps env ops (siem_step env op f)"

text \<open>The events an operation makes the forwarder answer for.\<close>

definition to_send :: "siem_env \<Rightarrow> siem_event \<Rightarrow> siem_forwarder \<Rightarrow> bool" where
  "to_send env ev f \<longleftrightarrow>
     sc_enabled (fw_config f) \<and> \<not> unconfigured (sc_transport (fw_config f)) \<and> \<not> filtered (fw_config f) ev
     \<and> (\<exists>t. format_event env (fw_format f) ev = Inr t)"

fun charge :: "siem_env \<Rightarrow> siem_op \<Rightarrow> siem_forwarder \<Rightarrow> nat" where
  "charge env (QueueOp ev) f = of_bool (sc_enabled (fw_config f))"
| "charge env (SendOp ev) f = of_bool (to_send env ev f)"
| "charge env (RequiredOp ev) f = of_bool (to_send env ev f)"
| "charge env _ f = 0"

fun charged :: "siem_env \<Rightarrow> siem_op list \<Rightarrow> siem_forwarder \<Rightarrow> nat" where
  "charged env [] f = 0"
| "charged env (op # ops) f = charge env op f + charged env ops (siem_step env op f)"

definition accounted :: "siem_forwarder \<Rightarrow> nat" where
  "accounted f = ss_events_sent (fw_stats f) + ss_events_dropped (fw_stats f) + length (fw_buffer f)"

definition within_bounds :: "siem_forwarder \<Rightarrow> bool" where
  "within_bounds f \<longleftrightarrow> length (fw_recent f) \<le> RECENT_EVENTS_LIMIT \<and> length (fw_buffer f) \<le> MAX_BUFFER_SIZE"

lemma stats_simps [simp]:
  "ss_events_sent (sent_stats now n b st) = u64_saturating_add (ss_events_sent st) n"
  "ss_events_dropped (sent_stats now n b st) = ss_events_dropped st"
  "ss_events_sent (dropped_stats e n st) = ss_events_sent st"
  "ss_events_dropped (dropped_stats e n st) = u64_saturating_add (ss_events_dropped st) n"
  by (simp_all add: sent_stats_def dropped_stats_def)

lemma record_simps [simp]:
  "fw_stats (record_event ev f) = fw_stats f" "fw_buffer (record_event ev f) = fw_buffer f"
  "fw_config (record_event ev f) = fw_config f" "fw_format (record_event ev f) = fw_format f"
  "fw_link (record_event ev f) = fw_link f" "fw_recent (record_event ev f) = push_recent ev (fw_recent f)"
  by (simp_all add: record_event_def)

lemma push_recent_bounded [simp]: "length (push_recent ev recent) \<le> RECENT_EVENTS_LIMIT"
  by (simp add: push_recent_def Let_def)

lemma no_saturation [simp]: "a + b \<le> u64_max \<Longrightarrow> u64_saturating_add a b = a + b"
  by (simp add: u64_saturating_add_def)

lemma send_accounted:
  assumes "accounted f < u64_max"
  shows "accounted (fst (send_event env ev f)) = accounted f + of_bool (to_send env ev f)"
  using assms
  by (auto simp: send_event_def to_send_def accounted_def split: sum.splits prod.splits)

lemma required_accounted:
  assumes "accounted f < u64_max"
  shows "accounted (fst (send_required_event env ev f)) = accounted f + of_bool (to_send env ev f)"
  using send_accounted [OF assms] by (auto simp: send_required_event_def to_send_def)

lemma flush_accounted:
  assumes "accounted f \<le> u64_max"
  shows "accounted (fst (siem_flush env f)) = accounted f"
  using assms by (auto simp: siem_flush_def accounted_def Let_def split: sum.splits prod.splits)

lemma queue_accounted:
  assumes "accounted f < u64_max"
  shows "accounted (fst (queue_event env ev f)) = accounted f + of_bool (sc_enabled (fw_config f))"
proof -
  have more: "accounted (f\<lparr>fw_buffer := fw_buffer f @ [ev]\<rparr>) = accounted f + 1" by (simp add: accounted_def)
  then have "accounted (fst (siem_flush env (f\<lparr>fw_buffer := fw_buffer f @ [ev]\<rparr>))) = accounted f + 1"
    using assms by (subst flush_accounted) simp_all
  then show ?thesis using more assms by (auto simp: queue_event_def Let_def accounted_def)
qed

lemma step_accounted: "accounted f < u64_max \<Longrightarrow> accounted (siem_step env op f) = accounted f + charge env op f"
  by (cases op)
    (auto simp: send_accounted required_accounted flush_accounted queue_accounted, auto simp: accounted_def take_recent_events_def update_config_def)

lemma charge_le: "charge env op f \<le> 1"
  by (cases op) auto

lemma send_bounds: "within_bounds f \<Longrightarrow> within_bounds (fst (send_event env ev f))"
  by (auto simp: send_event_def within_bounds_def split: sum.splits prod.splits)

lemma flush_bounds: "length (fw_recent f) \<le> RECENT_EVENTS_LIMIT \<Longrightarrow> within_bounds (fst (siem_flush env f))"
  by (auto simp: siem_flush_def within_bounds_def Let_def split: sum.splits prod.splits)

lemma step_bounds: "within_bounds f \<Longrightarrow> within_bounds (siem_step env op f)"
proof (cases op)
  case (QueueOp ev)
  assume "within_bounds f"
  then show ?thesis using QueueOp flush_bounds by (auto simp: queue_event_def Let_def within_bounds_def)
next
  case FlushOp
  assume "within_bounds f"
  then show ?thesis using FlushOp flush_bounds by (simp add: within_bounds_def)
next
  case (RequiredOp ev)
  assume "within_bounds f"
  then show ?thesis using RequiredOp send_bounds by (simp add: send_required_event_def)
qed (use send_bounds in \<open>auto simp: within_bounds_def take_recent_events_def update_config_def\<close>)

lemma steps_account:
  "accounted f + length ops \<le> u64_max \<Longrightarrow> within_bounds f \<Longrightarrow>
    accounted (siem_steps env ops f) = accounted f + charged env ops f \<and> within_bounds (siem_steps env ops f)"
proof (induction ops arbitrary: f)
  case (Cons op ops)
  have step: "accounted (siem_step env op f) = accounted f + charge env op f" using Cons.prems by (intro step_accounted) simp
  have "accounted (siem_step env op f) + length ops \<le> u64_max" using Cons.prems step charge_le [of env op f] by simp
  with Cons.IH [OF this step_bounds [OF Cons.prems(2)]] step show ?case by simp
qed simp

text \<open>C35: After any sequence of operations, each event the forwarder took charge of is counted exactly once, as sent, as dropped or
  as waiting in the buffer, and what it keeps never exceeds its two limits, a hundred recent and ten thousand waiting events.\<close>

theorem every_siem_event_is_accounted:
  assumes "length ops \<le> u64_max"
  shows "let f = siem_steps env ops (new_forwarder cfg world)
    in ss_events_sent (fw_stats f) + ss_events_dropped (fw_stats f) + length (fw_buffer f)
         = charged env ops (new_forwarder cfg world)
       \<and> length (fw_recent f) \<le> 100 \<and> length (fw_buffer f) \<le> 10000"
proof -
  have "accounted (new_forwarder cfg world) = 0" "within_bounds (new_forwarder cfg world)"
    by (simp_all add: accounted_def within_bounds_def new_forwarder_def default_siem_stats_def)
  with steps_account [of "new_forwarder cfg world" ops env] assms show ?thesis
    by (simp add: accounted_def within_bounds_def RECENT_EVENTS_LIMIT_def MAX_BUFFER_SIZE_def Let_def)
qed

section \<open>What the platform is told\<close>

definition last_hundred :: "siem_event list \<Rightarrow> siem_event list" where
  "last_hundred evs = drop (length evs - 100) evs"

lemma push_last_hundred: "push_recent ev (last_hundred evs) = last_hundred (evs @ [ev])"
proof (cases "length evs \<le> 100")
  case False
  then have "Suc (length evs - 100) = length evs - 99" by simp
  with False show ?thesis by (simp add: push_recent_def last_hundred_def RECENT_EVENTS_LIMIT_def)
qed (simp add: push_recent_def last_hundred_def RECENT_EVENTS_LIMIT_def)

definition delivers :: "siem_env \<Rightarrow> siem_forwarder \<Rightarrow> siem_event \<Rightarrow> bool" where
  "delivers env f ev \<longleftrightarrow>
     (\<forall>l. \<exists>t. format_event env (fw_format f) ev = Inr t \<and> (\<exists>l' n. transport_send env (sc_transport (fw_config f)) t l = (l', Inr n)))"

lemma forward_records_twice:
  assumes "sc_enabled (fw_config f)" "\<not> unconfigured (sc_transport (fw_config f))" "\<not> filtered (fw_config f) ev" "delivers env f ev"
  shows "fw_recent (record_and_forward env ev f) = push_recent ev (push_recent ev (fw_recent f)) \<and>
    fw_config (record_and_forward env ev f) = fw_config f \<and> fw_format (record_and_forward env ev f) = fw_format f"
proof -
  from assms(4) obtain t l n where "format_event env (fw_format f) ev = Inr t"
    "transport_send env (sc_transport (fw_config f)) t (fw_link f) = (l, Inr n)"
    unfolding delivers_def by blast
  then show ?thesis using assms(1-3) by (simp add: record_and_forward_def send_event_def)
qed

lemma record_twice:
  assumes "sc_enabled (fw_config f)" "\<not> unconfigured (sc_transport (fw_config f))"
    "\<forall>ev\<in>set events. \<not> filtered (fw_config f) ev \<and> delivers env f ev" "fw_recent f = last_hundred before"
  shows "fw_recent (fold (record_and_forward env) events f) = last_hundred (before @ concat (map (\<lambda>ev. [ev, ev]) events))"
  using assms
proof (induction events arbitrary: f before)
  case (Cons ev events)
  let ?f = "record_and_forward env ev f"
  from forward_records_twice [of f ev env] Cons.prems
  have f: "fw_recent ?f = last_hundred (before @ [ev, ev])" "fw_config ?f = fw_config f" "fw_format ?f = fw_format f"
    by (simp_all add: push_last_hundred)
  moreover have "delivers env ?f e = delivers env f e" for e by (simp add: delivers_def f)
  ultimately have "fw_recent (fold (record_and_forward env) events ?f)
    = last_hundred ((before @ [ev, ev]) @ concat (map (\<lambda>ev. [ev, ev]) events))"
    using Cons.prems by (intro Cons.IH) simp_all
  then show ?case by simp
qed simp

text \<open>C36: With a collector that accepts everything, the report to the platform holds each event twice, so that of more than fifty
  events between two reports the first are lost although a hundred are kept.\<close>

theorem forwarded_events_are_reported_twice:
  assumes "sc_enabled (fw_config f)" "\<not> unconfigured (sc_transport (fw_config f))" "fw_recent f = []"
    "\<And>ev. ev \<in> set events \<Longrightarrow> \<not> filtered (fw_config f) ev \<and> delivers env f ev"
    "record_siem_events env events (Some f) = Some g" "sync_siem_to_platform True (Some g) = (Some h, Some (report, rest))"
  shows "report = last_hundred (concat (map (\<lambda>ev. [ev, ev]) events)) \<and>
    (length events = 100 \<longrightarrow> report = concat (map (\<lambda>ev. [ev, ev]) (drop 50 events)))"
proof -
  have "fw_recent g = last_hundred ([] @ concat (map (\<lambda>ev. [ev, ev]) events))"
    using assms(5) record_twice [OF assms(1,2), of events env "[]"] assms(3,4)
    by (auto simp: record_siem_events_def last_hundred_def)
  then have report: "report = last_hundred (concat (map (\<lambda>ev. [ev, ev]) events))"
    using assms(6) by (auto simp: sync_siem_to_platform_def take_recent_events_def)
  have twice: "length (concat (map (\<lambda>ev. [ev, ev]) es)) = 2 * length es" for es :: "siem_event list"
    by (induction es) simp_all
  have "drop (n + n) (concat (map (\<lambda>ev. [ev, ev]) es)) = concat (map (\<lambda>ev. [ev, ev]) (drop n es))" for n and es :: "siem_event list"
  proof (induction n arbitrary: es)
    case (Suc n)
    then show ?case by (cases es) simp_all
  qed simp
  from this [of 50 events] show ?thesis by (simp add: report last_hundred_def twice)
qed

definition accepting :: siem_env where
  "accepting = \<lparr>se_format = \<lparr>fm_cef_time = (\<lambda>_. ''t''), fm_leef_time = (\<lambda>_. ''t''), fm_members = (\<lambda>_. None), fm_agent_version = ''1.0''\<rparr>, se_json = (\<lambda>ev. Inr (ev_name ev)), se_now = (\<lambda>_. 0),
     se_http = (\<lambda>_. HttpStatus 200 ''200 OK'' []), se_connect = (\<lambda>_. None), se_tls = (\<lambda>_. None), se_write = (\<lambda>_. None),
     se_datagram = (\<lambda>_. Inr 0), se_hostname = ''h'', se_stamp = (\<lambda>_. ''t''), se_pid = 1\<rparr>"

definition named_event :: "string \<Rightarrow> siem_event" where
  "named_event n = \<lparr>ev_timestamp = 0, ev_severity = 5, ev_category = Security, ev_name = n, ev_description = [], ev_source_host = ''h'',
     ev_source_ip = None, ev_destination_ip = None, ev_destination_port = None, ev_user = None, ev_process_name = None,
     ev_process_id = None, ev_file_path = None, ev_custom_fields = ''{}'', ev_event_id = n, ev_agent_version = ''1.0''\<rparr>"

definition idle_link :: siem_link where
  "idle_link = \<lparr>lk_calls = 0, lk_sent = [], lk_slept = [], lk_tcp = False, lk_tls = False, lk_udp = False, lk_http = False\<rparr>"

definition to_collector :: siem_config where
  "to_collector = default_siem_config\<lparr>sc_enabled := True, sc_transport := HttpTo ''https://c'' None None True None None\<rparr>"

lemma accepting_delivers: "fw_format f = Json \<Longrightarrow> sc_transport (fw_config f) = HttpTo u a b c d e \<Longrightarrow> delivers accepting f ev"
  by (simp add: delivers_def format_event_def accepting_def transport_send_def send_with_retry_def MAX_RETRIES_def upt_rec
      retry_wait_def send_once_def Let_def)

theorem every_siem_event_is_accounted_witness:
  "let f = siem_steps accepting [QueueOp (named_event ''a''), SendOp (named_event ''b''), QueueOp (named_event ''c''), FlushOp,
       QueueOp (named_event ''d'')] (new_forwarder to_collector idle_link)
   in ss_events_sent (fw_stats f) + ss_events_dropped (fw_stats f) + length (fw_buffer f) = 4"
proof -
  let ?ops = "[QueueOp (named_event ''a''), SendOp (named_event ''b''), QueueOp (named_event ''c''), FlushOp,
    QueueOp (named_event ''d'')]"
  have charged: "charged accepting ?ops (new_forwarder to_collector idle_link) = 4"
    by (simp add: to_send_def new_forwarder_def to_collector_def default_siem_config_def unconfigured_def filtered_def
        format_event_def accepting_def named_event_def queue_event_def send_event_def siem_flush_def Let_def transport_send_def
        send_with_retry_def MAX_RETRIES_def MAX_BUFFER_SIZE_def upt_rec retry_wait_def send_once_def new_transport_def
        record_event_def)
  have "length ?ops \<le> u64_max" by (simp add: u64_max_def)
  from every_siem_event_is_accounted [OF this, of accepting to_collector idle_link] charged show ?thesis
    unfolding Let_def by simp
qed

theorem forwarded_events_are_reported_twice_witness:
  "\<exists>g h rest. record_siem_events accepting [named_event ''a'', named_event ''b''] (Some (new_forwarder to_collector idle_link)) = Some g
     \<and> sync_siem_to_platform True (Some g)
         = (Some h, Some ([named_event ''a'', named_event ''a'', named_event ''b'', named_event ''b''], rest))"
proof -
  let ?f = "new_forwarder to_collector idle_link" and ?events = "[named_event ''a'', named_event ''b'']"
  obtain g where g: "record_siem_events accepting ?events (Some ?f) = Some g" by (simp add: record_siem_events_def)
  obtain h report rest where sync: "sync_siem_to_platform True (Some g) = (Some h, Some (report, rest))"
    by (simp add: sync_siem_to_platform_def take_recent_events_def)
  have f: "sc_enabled (fw_config ?f)" "\<not> unconfigured (sc_transport (fw_config ?f))" "fw_recent ?f = []"
    "\<not> filtered (fw_config ?f) ev \<and> delivers accepting ?f ev" for ev
    using accepting_delivers [of ?f]
    by (simp_all add: new_forwarder_def to_collector_def default_siem_config_def unconfigured_def filtered_def)
  from conjunct1 [OF forwarded_events_are_reported_twice [OF f(1-3) f(4) g sync]]
  have "report = [named_event ''a'', named_event ''a'', named_event ''b'', named_event ''b'']" by (simp add: last_hundred_def)
  then show ?thesis using g sync by blast
qed

section \<open>The contract of a transport\<close>

text \<open>What the forwarder relies on: a send that fails has sent nothing, one that succeeds has sent one text with the data in it.\<close>

locale siem_sender =
  fixes send :: "string \<Rightarrow> siem_link \<Rightarrow> siem_link \<times> (siem_error + nat)"
  assumes failure: "send data l = (l', Inl e) \<Longrightarrow> lk_sent l' = lk_sent l"
    and success: "send data l = (l', Inr n) \<Longrightarrow> \<exists>head foot. lk_sent l' = lk_sent l @ [head @ data @ foot]"
begin

lemma never_taken_back: "\<exists>more. lk_sent (fst (send data l)) = lk_sent l @ more"
proof (cases "send data l")
  case (Pair l' r)
  then show ?thesis using failure [of data l l'] success [of data l l'] by (cases r) fastforce+
qed

lemma log_says_whether: "(\<exists>n. snd (send data l) = Inr n) \<longleftrightarrow> length (lk_sent (fst (send data l))) = length (lk_sent l) + 1"
proof (cases "send data l")
  case (Pair l' r)
  then show ?thesis using failure [of data l l'] success [of data l l'] by (cases r) fastforce+
qed

end

lemma send_once_sent:
  "send_once env url data l = (l', Inl e) \<Longrightarrow> lk_sent l' = lk_sent l"
  "send_once env url data l = (l', Inr n) \<Longrightarrow> lk_sent l' = lk_sent l @ [data]"
  by (auto simp: send_once_def Let_def split: http_reply.splits if_splits)

lemma retry_wait_sent [simp]: "lk_sent (retry_wait k l) = lk_sent l"
  by (simp add: retry_wait_def)

lemma send_attempts_sent:
  "send_attempts env url data ks before l = (l', r) \<Longrightarrow>
    lk_sent l' = lk_sent l @ (case r of Inl _ \<Rightarrow> [] | Inr _ \<Rightarrow> [data])"
proof (induction ks arbitrary: before l)
  case (Cons k ks)
  obtain l1 r1 where once: "send_once env url data (retry_wait k l) = (l1, r1)" by fastforce
  show ?case
  proof (cases r1)
    case (Inl e)
    then have "lk_sent l1 = lk_sent l" using send_once_sent(1) once by fastforce
    then show ?thesis using Cons.prems Cons.IH [of "Some e" l1] once Inl by (auto split: if_splits)
  next
    case (Inr n)
    then show ?thesis using Cons.prems once send_once_sent(2) by fastforce
  qed
qed (auto split: option.splits)

lemma ensure_sent:
  "ensure_tcp_connection env host port l = (l1, r) \<Longrightarrow> lk_sent l1 = lk_sent l"
  "ensure_tls_connection env l = (l1, r) \<Longrightarrow> lk_sent l1 = lk_sent l"
  "ensure_udp_socket env l = (l1, r) \<Longrightarrow> lk_sent l1 = lk_sent l"
  by (auto simp: ensure_tcp_connection_def ensure_tls_connection_def ensure_udp_socket_def Let_def split: option.splits if_splits)

lemma stream_sent:
  "send_tcp env host port m l = (l', r) \<Longrightarrow> lk_sent l' = lk_sent l @ (case r of Inl _ \<Rightarrow> [] | Inr _ \<Rightarrow> [m @ [CHR 0x0A]])"
  "send_tls env m l = (l', r) \<Longrightarrow> lk_sent l' = lk_sent l @ (case r of Inl _ \<Rightarrow> [] | Inr _ \<Rightarrow> [m @ [CHR 0x0A]])"
  "send_udp env m l = (l', r) \<Longrightarrow> lk_sent l' = lk_sent l @ (case r of Inl _ \<Rightarrow> [] | Inr _ \<Rightarrow> [m])"
  by (auto dest: ensure_sent simp: send_tcp_def send_tls_def send_udp_def Let_def split: prod.splits sum.splits option.splits)

lemma transport_sent:
  assumes "transport_send env t data l = (l', r)"
  shows "\<exists>head foot. lk_sent l' = lk_sent l @ (case r of Inl _ \<Rightarrow> [] | Inr _ \<Rightarrow> [head @ data @ foot])"
proof (cases t)
  case (SyslogTo host port protocol tls cert key)
  let ?m = "build_syslog_message (new_syslog env (lk_calls l)) 6 data"
  obtain head where m: "?m = head @ data" by (simp add: build_syslog_message_def)
  have "lk_sent l' = lk_sent l @ (case r of Inl _ \<Rightarrow> [] | Inr _ \<Rightarrow> [?m @ [CHR 0x0A]]) \<or>
    lk_sent l' = lk_sent l @ (case r of Inl _ \<Rightarrow> [] | Inr _ \<Rightarrow> [?m])"
    using assms SyslogTo stream_sent
    by (auto simp: transport_send_def Let_def split: if_splits syslog_protocol.splits)
  then show ?thesis using m by (cases r) fastforce+
next
  case (HttpTo url a b c d e)
  then have "lk_sent l' = lk_sent l @ (case r of Inl _ \<Rightarrow> [] | Inr _ \<Rightarrow> [data])"
    using assms send_attempts_sent by (simp add: transport_send_def send_with_retry_def)
  then show ?thesis by (intro exI [of _ "[]"]) (simp split: sum.split)
qed

interpretation transport: siem_sender "transport_send env t" for env t
proof
  fix data l l' e
  assume "transport_send env t data l = (l', Inl e)"
  then show "lk_sent l' = lk_sent l" using transport_sent by fastforce
next
  fix data l l' n
  assume "transport_send env t data l = (l', Inr n)"
  then show "\<exists>head foot. lk_sent l' = lk_sent l @ [head @ data @ foot]" using transport_sent by fastforce
qed

text \<open>A batch counted as sent left as one text; one that failed left nothing.\<close>

lemma flush_is_all_or_nothing:
  assumes "fw_buffer f \<noteq> []"
  shows "snd (siem_flush env f) = Inr () \<longleftrightarrow> length (lk_sent (fw_link (fst (siem_flush env f)))) = length (lk_sent (fw_link f)) + 1"
proof -
  let ?data = "join_with [CHR 0x0A]
    (List.map_filter (\<lambda>ev. case format_event env (fw_format f) ev of Inr t \<Rightarrow> Some t | Inl _ \<Rightarrow> None) (fw_buffer f))"
  obtain l r where send: "transport_send env (sc_transport (fw_config f)) ?data (fw_link f) = (l, r)" by fastforce
  from transport.log_says_whether [of env "sc_transport (fw_config f)" ?data "fw_link f"]
  show ?thesis using assms send by (cases r) (simp_all add: siem_flush_def)
qed

section \<open>Losses\<close>

text \<open>A report the platform does not take is lost: its events are not kept for the next one.\<close>

lemma refused_report_is_lost:
  "sync_siem_to_platform False (Some f) = (Some (f\<lparr>fw_recent := []\<rparr>), None)"
  by (simp add: sync_siem_to_platform_def take_recent_events_def)

text \<open>A destination changed in the interface while forwarding is on is not applied.\<close>

lemma changed_destination_is_ignored:
  assumes "sc_enabled (fw_config f)" "gs_enabled g" "gs_destination g \<noteq> []"
  shows "sync_gui_siem_config g free (Some f) = Some f"
  using assms by (simp add: sync_gui_siem_config_def)

text \<open>A queued event is sent whatever the policy says of it, and the whole batch is lost when the transport fails.\<close>

lemma queue_ignores_the_policy:
  assumes "sc_enabled (fw_config f)" "filtered (fw_config f) ev" "length (fw_buffer f) < MAX_BUFFER_SIZE"
    "length (fw_buffer f) + 1 < sc_batch_size (fw_config f)"
  shows "fw_buffer (fst (queue_event env ev f)) = fw_buffer f @ [ev]"
  using assms by (simp add: queue_event_def)

lemma failed_flush_drops_everything:
  assumes "siem_flush env f = (g, Inl e)"
  shows "fw_buffer g = [] \<and> ss_events_dropped (fw_stats g) = u64_saturating_add (ss_events_dropped (fw_stats f)) (length (fw_buffer f))"
  using assms by (auto simp: siem_flush_def Let_def split: if_splits prod.splits sum.splits)

section \<open>Retries\<close>

lemma send_once_log [simp]:
  "lk_calls (fst (send_once env url data l)) = lk_calls l + 1" "lk_slept (fst (send_once env url data l)) = lk_slept l"
  by (auto simp: send_once_def Let_def split: http_reply.splits)

lemma retry_wait_calls [simp]: "lk_calls (retry_wait attempt l) = lk_calls l"
  by (simp add: retry_wait_def)

lemma send_attempts_calls: "lk_calls (fst (send_attempts env url data ks before l)) \<le> lk_calls l + length ks"
proof (induction ks arbitrary: before l)
  case (Cons k ks)
  obtain l1 r where once: "send_once env url data (retry_wait k l) = (l1, r)" by fastforce
  then have calls: "lk_calls l1 = lk_calls l + 1" using send_once_log(1) [of env url data "retry_wait k l"] by simp
  show ?case
  proof (cases r)
    case (Inl e)
    then show ?thesis using once calls Cons.IH [of "Some e" l1] by simp
  qed (use once calls in simp)
qed simp

text \<open>A collector is asked four times at most, and one that refuses the token once only.\<close>

lemma http_send_bounded: "lk_calls (fst (send_with_retry env url data l)) \<le> lk_calls l + 4"
  using send_attempts_calls [of env url data "[0..<MAX_RETRIES + 1]" None l] by (simp add: send_with_retry_def MAX_RETRIES_def)

lemma refused_token_is_not_retried:
  assumes "se_http env (lk_calls l) = HttpStatus 401 status body"
  shows "lk_calls (fst (send_with_retry env url data l)) = lk_calls l + 1"
  using assms by (simp add: send_with_retry_def MAX_RETRIES_def upt_rec retry_wait_def send_once_def Let_def is_final_error_def)

text \<open>A request answered with success is not repeated, and its text is what was sent.\<close>

lemma http_send_succeeds:
  assumes "se_http env (lk_calls l) = HttpStatus 200 status body"
  shows "snd (send_with_retry env url data l) = Inr (length data) \<and>
    lk_sent (fst (send_with_retry env url data l)) = lk_sent l @ [data]"
  using assms by (simp add: send_with_retry_def MAX_RETRIES_def upt_rec retry_wait_def send_once_def Let_def)

end
