(* ===== verification/Evidence_Store.thy ===== *)
theory Evidence_Store
  imports Sync_Queue "HOL-Library.List_Lexorder" "HOL-Library.Char_ord" "HOL-Library.Word"
begin

unbundle bit_operations_syntax

text \<open>
  The evidence of the compliance checks: the results of checks and their proofs
  (\<open>crates/agent-storage/src/repositories/check_results.rs\<close> and \<open>proofs.rs\<close>).

  As in \<open>Sync_Queue\<close> a table is the list of its rows in scan order, and a statement fails only where a constraint of the
  schema is violated: foreign keys are on (the bundled SQLite sets \<open>SQLITE_DEFAULT_FOREIGN_KEYS\<close>), so deleting a result
  deletes its proofs. Instants are nanoseconds. The tables hold times as the text of a whole second, which is kept as that
  second; comparisons with the text of an instant follow the order of the texts, whose first nineteen characters have a
  fixed width in the years 0 to 9999. The hash function and the text of a second are parameters.
\<close>

section \<open>Times as text\<close>

type_synonym second = int
type_synonym ns_instant = int

definition second_of :: "ns_instant \<Rightarrow> second" where
  "second_of t = t div 1000000000"

definition padded :: "nat \<Rightarrow> nat \<Rightarrow> string" where
  "padded width n = replicate (width - length (show_nat n)) CHR ''0'' @ show_nat n"

text \<open>What \<open>to_rfc3339\<close> writes after the seconds.\<close>

definition fraction :: "ns_instant \<Rightarrow> string" where
  "fraction t =
     (let ns = nat (t mod 1000000000)
      in if ns = 0 then []
         else if ns mod 1000000 = 0 then CHR ''.'' # padded 3 (ns div 1000000)
         else if ns mod 1000 = 0 then CHR ''.'' # padded 6 (ns div 1000)
         else CHR ''.'' # padded 9 ns)"

text \<open>A text: the second its first nineteen characters show, and the rest.\<close>

type_synonym time_text = "second \<times> string"

definition stored_text :: "second \<Rightarrow> time_text" where
  "stored_text s = (s, ''Z'')"

definition rfc3339 :: "ns_instant \<Rightarrow> time_text" where
  "rfc3339 t = (second_of t, fraction t @ ''+00:00'')"

definition text_less :: "time_text \<Rightarrow> time_text \<Rightarrow> bool" where
  "text_less a b \<longleftrightarrow> fst a < fst b \<or> (fst a = fst b \<and> snd a < snd b)"

section \<open>Rows\<close>

datatype check_state = StatePass | StateFail | StateError | StateSkip | StateNotApplicable

definition check_state_str :: "check_state \<Rightarrow> string" where
  "check_state_str s =
     (case s of StatePass \<Rightarrow> ''pass'' | StateFail \<Rightarrow> ''fail'' | StateError \<Rightarrow> ''error'' | StateSkip \<Rightarrow> ''skip''
      | StateNotApplicable \<Rightarrow> ''not_applicable'')"

definition parse_check_state :: "string \<Rightarrow> check_state option" where
  "parse_check_state s =
     (if s = ''pass'' then Some StatePass else if s = ''fail'' then Some StateFail else if s = ''error'' then Some StateError
      else if s = ''skip'' then Some StateSkip else if s = ''not_applicable'' then Some StateNotApplicable else None)"

record check_result =
  cr_row_id :: "nat option"
  cr_check_rule_id :: string
  cr_status :: check_state
  cr_score :: "int option"
  cr_message :: "string option"
  cr_raw_data :: "string option"
  cr_executed_at :: ns_instant
  cr_duration_ms :: "int option"
  cr_synced :: bool

definition new_check_result :: "ns_instant \<Rightarrow> string \<Rightarrow> check_state \<Rightarrow> check_result" where
  "new_check_result now rule status =
     \<lparr>cr_row_id = None, cr_check_rule_id = rule, cr_status = status, cr_score = None, cr_message = None, cr_raw_data = None,
      cr_executed_at = now, cr_duration_ms = None, cr_synced = False\<rparr>"

definition with_score :: "int \<Rightarrow> check_result \<Rightarrow> check_result" where
  "with_score score r = r\<lparr>cr_score := Some (max 0 (min 100 score))\<rparr>"

record result_row =
  rr_id :: nat
  rr_check_rule_id :: string
  rr_status :: string
  rr_score :: "int option"
  rr_message :: "string option"
  rr_raw_data :: "string option"
  rr_executed_at :: second
  rr_duration_ms :: "int option"
  rr_synced :: bool

record stored_proof =
  pr_id :: "nat option"
  pr_check_result_id :: nat
  pr_data :: string
  pr_hash :: string
  pr_created_at :: ns_instant
  pr_synced :: bool

record proof_row =
  pw_id :: nat
  pw_check_result_id :: nat
  pw_data :: string
  pw_hash :: string
  pw_created_at :: second
  pw_synced :: bool

record rule_row =
  ru_id :: string
  ru_category :: string
  ru_severity :: string
  ru_frameworks :: "string list"

record evidence_db =
  eb_rules :: "rule_row list"
  eb_results :: "result_row list"
  eb_proofs :: "proof_row list"
  eb_queue :: "queue_row list"
  eb_next_result :: nat
  eb_next_proof :: nat

datatype evidence_error = IntegrityError | QueryError string

section \<open>Hashes\<close>

record hash_env =
  he_sha256 :: "string \<Rightarrow> string"
  he_stamp :: "second \<Rightarrow> string"

definition le_bytes :: "nat \<Rightarrow> string" where
  "le_bytes n = map (\<lambda>i. char_of (n div 256 ^ i mod 256)) [0..<8]"

definition compute_hash :: "hash_env \<Rightarrow> nat \<Rightarrow> string \<Rightarrow> ns_instant \<Rightarrow> string" where
  "compute_hash env result_id data created_at =
     he_sha256 env (le_bytes result_id @ data @ he_stamp env (second_of created_at))"

text \<open>Comparing without stopping at the first difference.\<close>

definition byte_word :: "char \<Rightarrow> 8 word" where
  "byte_word c = of_nat (byte c)"

definition same_bytes :: "string \<Rightarrow> string \<Rightarrow> bool" where
  "same_bytes a b \<longleftrightarrow>
     length a = length b \<and> fold (\<lambda>(x, y) acc. acc OR (byte_word x XOR byte_word y)) (zip a b) 0 = 0"

definition verify_proof :: "hash_env \<Rightarrow> stored_proof \<Rightarrow> bool" where
  "verify_proof env p \<longleftrightarrow> same_bytes (pr_hash p) (compute_hash env (pr_check_result_id p) (pr_data p) (pr_created_at p))"

text \<open>\<open>Proof::with_timestamp\<close>, and \<open>Proof::new\<close> at the time of the call.\<close>

definition new_proof :: "hash_env \<Rightarrow> nat \<Rightarrow> string \<Rightarrow> ns_instant \<Rightarrow> stored_proof" where
  "new_proof env result_id data created_at =
     \<lparr>pr_id = None, pr_check_result_id = result_id, pr_data = data, pr_hash = compute_hash env result_id data created_at,
      pr_created_at = created_at, pr_synced = False\<rparr>"

datatype integrity_status = ProofValid | ProofTampered string string | ProofNotFound

section \<open>Results\<close>

definition MAX_CHECK_RESULTS_SIZE :: nat where "MAX_CHECK_RESULTS_SIZE = 10000"
definition MAX_PROOFS_SIZE :: nat where "MAX_PROOFS_SIZE = 10000"

text \<open>\<open>DELETE FROM check_results\<close> with the rows of a condition, and the proofs of the deleted results.\<close>

definition delete_results :: "(result_row \<Rightarrow> bool) \<Rightarrow> evidence_db \<Rightarrow> evidence_db" where
  "delete_results P db =
     db\<lparr>eb_results := filter (\<lambda>r. \<not> P r) (eb_results db),
        eb_proofs := filter (\<lambda>p. \<not> list_ex (\<lambda>r. P r \<and> rr_id r = pw_check_result_id p) (eb_results db)) (eb_proofs db)\<rparr>"

definition delete_proofs :: "(proof_row \<Rightarrow> bool) \<Rightarrow> evidence_db \<Rightarrow> evidence_db" where
  "delete_proofs P db = db\<lparr>eb_proofs := filter (\<lambda>p. \<not> P p) (eb_proofs db)\<rparr>"

text \<open>Before an insertion the oldest rows beyond the limit are deleted.\<close>

definition evict_results :: "evidence_db \<Rightarrow> evidence_db" where
  "evict_results db =
     (if MAX_CHECK_RESULTS_SIZE \<le> length (eb_results db)
      then let oldest = map rr_id (order_limit rr_executed_at (length (eb_results db) - MAX_CHECK_RESULTS_SIZE + 1) (eb_results db))
           in delete_results (\<lambda>r. rr_id r \<in> set oldest) db
      else db)"

definition insert_result :: "check_result \<Rightarrow> evidence_db \<Rightarrow> evidence_db \<times> (evidence_error + nat)" where
  "insert_result r db =
     (let db1 = evict_results db
      in if \<not> list_ex (\<lambda>rule. ru_id rule = cr_check_rule_id r) (eb_rules db1)
            \<or> (case cr_score r of None \<Rightarrow> False | Some s \<Rightarrow> s < 0 \<or> 100 < s)
         then (db1, Inl (QueryError ''Failed to insert check result''))
         else (db1\<lparr>eb_results := eb_results db1 @
                     [\<lparr>rr_id = eb_next_result db1, rr_check_rule_id = cr_check_rule_id r, rr_status = check_state_str (cr_status r),
                       rr_score = cr_score r, rr_message = cr_message r, rr_raw_data = cr_raw_data r,
                       rr_executed_at = second_of (cr_executed_at r), rr_duration_ms = cr_duration_ms r,
                       rr_synced = cr_synced r\<rparr>],
                   eb_next_result := eb_next_result db1 + 1\<rparr>,
               Inr (eb_next_result db1)))"

definition row_to_check_result :: "result_row \<Rightarrow> check_result" where
  "row_to_check_result w =
     \<lparr>cr_row_id = Some (rr_id w), cr_check_rule_id = rr_check_rule_id w,
      cr_status = unwrap_or (parse_check_state (rr_status w)) StateError, cr_score = rr_score w, cr_message = rr_message w,
      cr_raw_data = rr_raw_data w, cr_executed_at = rr_executed_at w * 1000000000, cr_duration_ms = rr_duration_ms w,
      cr_synced = rr_synced w\<rparr>"

definition get_result :: "nat \<Rightarrow> evidence_db \<Rightarrow> check_result option" where
  "get_result i db = map_option row_to_check_result (find (\<lambda>w. rr_id w = i) (eb_results db))"

record result_query =
  rq_check_rule_id :: "string option"
  rq_status :: "check_state option"
  rq_from_date :: "ns_instant option"
  rq_to_date :: "ns_instant option"
  rq_synced :: "bool option"
  rq_limit :: "int option"
  rq_offset :: "int option"

definition query_selects :: "result_query \<Rightarrow> result_row \<Rightarrow> bool" where
  "query_selects q w \<longleftrightarrow>
     (case rq_check_rule_id q of None \<Rightarrow> True | Some i \<Rightarrow> rr_check_rule_id w = i) \<and>
     (case rq_status q of None \<Rightarrow> True | Some s \<Rightarrow> rr_status w = check_state_str s) \<and>
     (case rq_from_date q of None \<Rightarrow> True | Some t \<Rightarrow> \<not> text_less (stored_text (rr_executed_at w)) (rfc3339 t)) \<and>
     (case rq_to_date q of None \<Rightarrow> True | Some t \<Rightarrow> \<not> text_less (rfc3339 t) (stored_text (rr_executed_at w))) \<and>
     (case rq_synced q of None \<Rightarrow> True | Some b \<Rightarrow> rr_synced w = b)"

text \<open>\<open>LIMIT\<close>: a negative one is none.\<close>

definition limited :: "int \<Rightarrow> 'a list \<Rightarrow> 'a list" where
  "limited n xs = (if n < 0 then xs else take (nat n) xs)"

text \<open>SQL has no \<open>OFFSET\<close> without a \<open>LIMIT\<close>. Of rows with the same time the later one comes first.\<close>

definition query_results :: "result_query \<Rightarrow> evidence_db \<Rightarrow> evidence_error + check_result list" where
  "query_results q db =
     (let rows = rev (sort_key rr_executed_at (filter (query_selects q) (eb_results db)))
      in case (rq_limit q, rq_offset q) of
           (None, Some _) \<Rightarrow> Inl (QueryError ''Failed to prepare query'')
         | (None, None) \<Rightarrow> Inr (map row_to_check_result rows)
         | (Some n, None) \<Rightarrow> Inr (map row_to_check_result (limited n rows))
         | (Some n, Some k) \<Rightarrow> Inr (map row_to_check_result (limited n (drop (nat k) rows))))"

definition get_unsynced_results :: "int \<Rightarrow> evidence_db \<Rightarrow> check_result list" where
  "get_unsynced_results limit db =
     map row_to_check_result (limited limit (sort_key rr_executed_at (filter (\<lambda>w. \<not> rr_synced w) (eb_results db))))"

definition mark_results_synced :: "nat list \<Rightarrow> evidence_db \<Rightarrow> evidence_db \<times> nat" where
  "mark_results_synced ids db =
     (db\<lparr>eb_results := map (\<lambda>w. if rr_id w \<in> set ids then w\<lparr>rr_synced := True\<rparr> else w) (eb_results db)\<rparr>,
      length (filter (\<lambda>w. rr_id w \<in> set ids) (eb_results db)))"

definition delete_results_older_than :: "ns_instant \<Rightarrow> evidence_db \<Rightarrow> evidence_db \<times> nat" where
  "delete_results_older_than before db =
     (let old = (\<lambda>w. text_less (stored_text (rr_executed_at w)) (rfc3339 before))
      in (delete_results old db, length (filter old (eb_results db))))"

definition latest_per_rule :: "evidence_db \<Rightarrow> check_result list" where
  "latest_per_rule db =
     map row_to_check_result
       (sort_key rr_check_rule_id
         (filter (\<lambda>w. list_all (\<lambda>v. rr_check_rule_id v = rr_check_rule_id w \<longrightarrow> rr_executed_at v \<le> rr_executed_at w)
                      (eb_results db)) (eb_results db)))"

section \<open>Proofs\<close>

definition evict_proofs :: "evidence_db \<Rightarrow> evidence_db" where
  "evict_proofs db =
     (if MAX_PROOFS_SIZE \<le> length (eb_proofs db)
      then let oldest = map pw_id (order_limit pw_created_at (length (eb_proofs db) - MAX_PROOFS_SIZE + 1) (eb_proofs db))
           in delete_proofs (\<lambda>p. pw_id p \<in> set oldest) db
      else db)"

definition insert_proof :: "hash_env \<Rightarrow> stored_proof \<Rightarrow> evidence_db \<Rightarrow> evidence_db \<times> (evidence_error + nat)" where
  "insert_proof env p db =
     (if \<not> verify_proof env p then (db, Inl IntegrityError)
      else
        let db1 = evict_proofs db
        in if \<not> list_ex (\<lambda>r. rr_id r = pr_check_result_id p) (eb_results db1)
           then (db1, Inl (QueryError ''Failed to insert proof''))
           else (db1\<lparr>eb_proofs := eb_proofs db1 @
                       [\<lparr>pw_id = eb_next_proof db1, pw_check_result_id = pr_check_result_id p, pw_data = pr_data p,
                         pw_hash = pr_hash p, pw_created_at = second_of (pr_created_at p), pw_synced = pr_synced p\<rparr>],
                     eb_next_proof := eb_next_proof db1 + 1\<rparr>,
                 Inr (eb_next_proof db1)))"

definition row_to_proof :: "proof_row \<Rightarrow> stored_proof" where
  "row_to_proof w =
     \<lparr>pr_id = Some (pw_id w), pr_check_result_id = pw_check_result_id w, pr_data = pw_data w, pr_hash = pw_hash w,
      pr_created_at = pw_created_at w * 1000000000, pr_synced = pw_synced w\<rparr>"

definition get_proof :: "nat \<Rightarrow> evidence_db \<Rightarrow> stored_proof option" where
  "get_proof i db = map_option row_to_proof (find (\<lambda>w. pw_id w = i) (eb_proofs db))"

definition get_by_check_result :: "nat \<Rightarrow> evidence_db \<Rightarrow> stored_proof list" where
  "get_by_check_result i db =
     map row_to_proof (rev (sort_key pw_created_at (filter (\<lambda>w. pw_check_result_id w = i) (eb_proofs db))))"

definition proof_status :: "hash_env \<Rightarrow> stored_proof \<Rightarrow> integrity_status" where
  "proof_status env p =
     (if verify_proof env p then ProofValid
      else ProofTampered (compute_hash env (pr_check_result_id p) (pr_data p) (pr_created_at p)) (pr_hash p))"

definition verify_integrity :: "hash_env \<Rightarrow> nat \<Rightarrow> evidence_db \<Rightarrow> integrity_status" where
  "verify_integrity env i db = (case get_proof i db of None \<Rightarrow> ProofNotFound | Some p \<Rightarrow> proof_status env p)"

definition verify_all_for_result :: "hash_env \<Rightarrow> nat \<Rightarrow> evidence_db \<Rightarrow> (nat \<times> integrity_status) list" where
  "verify_all_for_result env i db = map (\<lambda>p. (unwrap_or (pr_id p) 0, proof_status env p)) (get_by_check_result i db)"

definition get_unsynced_proofs :: "int \<Rightarrow> evidence_db \<Rightarrow> stored_proof list" where
  "get_unsynced_proofs limit db =
     map row_to_proof (limited limit (sort_key pw_created_at (filter (\<lambda>w. \<not> pw_synced w) (eb_proofs db))))"

definition mark_proofs_synced :: "nat list \<Rightarrow> evidence_db \<Rightarrow> evidence_db \<times> nat" where
  "mark_proofs_synced ids db =
     (db\<lparr>eb_proofs := map (\<lambda>w. if pw_id w \<in> set ids then w\<lparr>pw_synced := True\<rparr> else w) (eb_proofs db)\<rparr>,
      length (filter (\<lambda>w. pw_id w \<in> set ids) (eb_proofs db)))"

definition delete_proofs_older_than :: "ns_instant \<Rightarrow> evidence_db \<Rightarrow> evidence_db \<times> nat" where
  "delete_proofs_older_than before db =
     (let old = (\<lambda>w. text_less (stored_text (pw_created_at w)) (rfc3339 before))
      in (delete_proofs old db, length (filter old (eb_proofs db))))"

text \<open>\<open>MIN\<close> and \<open>MAX\<close> of the times.\<close>

definition oldest_of :: "second list \<Rightarrow> ns_instant option" where
  "oldest_of ts = (if ts = [] then None else Some (Min (set ts) * 1000000000))"

definition newest_of :: "second list \<Rightarrow> ns_instant option" where
  "newest_of ts = (if ts = [] then None else Some (Max (set ts) * 1000000000))"

record proof_stats =
  ps_count :: nat
  ps_total_data_bytes :: nat
  ps_oldest_at :: "ns_instant option"
  ps_newest_at :: "ns_instant option"

text \<open>\<open>LENGTH\<close> of a text counts its characters.\<close>

definition get_proof_stats :: "evidence_db \<Rightarrow> proof_stats" where
  "get_proof_stats db =
     \<lparr>ps_count = length (eb_proofs db), ps_total_data_bytes = sum_list (map (char_count \<circ> pw_data) (eb_proofs db)),
      ps_oldest_at = oldest_of (map pw_created_at (eb_proofs db)), ps_newest_at = newest_of (map pw_created_at (eb_proofs db))\<rparr>"

end
