(* ===== verification/Evidence_Retention.thy ===== *)
theory Evidence_Retention imports Evidence_Store begin

text \<open>
  The retention policy (\<open>crates/agent-storage/src/retention.rs\<close>): what is deleted once its time has passed, really or as a
  dry run, and the upload of results (\<open>crates/agent-sync/src/result_upload.rs\<close>): batches of the oldest ones, the
  acknowledgement of the platform, and the loop until nothing moves any more.

  A statement binds at most \<open>max_vars\<close> values (\<open>SQLITE_MAX_VARIABLE_NUMBER\<close>). The answers of the platform, one per request,
  are a parameter, as are the identifiers of measurements.
\<close>

section \<open>Configuration\<close>

definition DEFAULT_RETENTION_DAYS :: int where "DEFAULT_RETENTION_DAYS = 365"
definition MIN_RETENTION_DAYS :: int where "MIN_RETENTION_DAYS = 1"
definition MAX_RETENTION_DAYS :: int where "MAX_RETENTION_DAYS = 3650"

record retention_config =
  rc_retention_days :: int
  rc_delete_orphaned_results :: bool
  rc_dry_run :: bool

definition default_retention :: retention_config where
  "default_retention = \<lparr>rc_retention_days = DEFAULT_RETENTION_DAYS, rc_delete_orphaned_results = True, rc_dry_run = False\<rparr>"

text \<open>\<open>try_with_retention_days\<close>; \<open>with_retention_days\<close> panics where this is \<^const>\<open>None\<close>.\<close>

definition with_retention_days :: "int \<Rightarrow> retention_config option" where
  "with_retention_days days =
     (if days < MIN_RETENTION_DAYS then None else if MAX_RETENTION_DAYS < days then None
      else Some (default_retention\<lparr>rc_retention_days := days\<rparr>))"

definition dry_run :: "retention_config \<Rightarrow> retention_config" where "dry_run c = c\<lparr>rc_dry_run := True\<rparr>"

definition keep_orphaned_results :: "retention_config \<Rightarrow> retention_config" where
  "keep_orphaned_results c = c\<lparr>rc_delete_orphaned_results := False\<rparr>"

record retention_result =
  rt_proofs_deleted :: nat
  rt_check_results_deleted :: nat
  rt_sync_queue_deleted :: nat
  rt_cutoff_date :: ns_instant
  rt_oldest_remaining :: "ns_instant option"
  rt_newest_proof :: "ns_instant option"
  rt_total_proofs_remaining :: int
  rt_total_results_remaining :: int

definition had_deletions :: "retention_result \<Rightarrow> bool" where
  "had_deletions r \<longleftrightarrow> 0 < rt_proofs_deleted r \<or> 0 < rt_check_results_deleted r \<or> 0 < rt_sync_queue_deleted r"

definition total_deleted :: "retention_result \<Rightarrow> nat" where
  "total_deleted r = rt_proofs_deleted r + rt_check_results_deleted r + rt_sync_queue_deleted r"

section \<open>Execution\<close>

definition cutoff_of :: "retention_config \<Rightarrow> ns_instant \<Rightarrow> ns_instant" where
  "cutoff_of c now = now - rc_retention_days c * 86400 * 1000000000"

definition expired :: "ns_instant \<Rightarrow> proof_row \<Rightarrow> bool" where
  "expired cutoff p \<longleftrightarrow> text_less (stored_text (pw_created_at p)) (rfc3339 cutoff)"

definition orphaned_ids :: "ns_instant \<Rightarrow> evidence_db \<Rightarrow> nat list" where
  "orphaned_ids cutoff db =
     map rr_id (filter (\<lambda>r. list_ex (\<lambda>p. pw_check_result_id p = rr_id r \<and> expired cutoff p) (eb_proofs db)
                          \<and> \<not> list_ex (\<lambda>p. pw_check_result_id p = rr_id r \<and> \<not> expired cutoff p) (eb_proofs db))
                  (eb_results db))"

text \<open>\<open>DELETE FROM sync_queue WHERE entity_type = .. AND entity_id IN (..)\<close>; a text column compares with the text of a number.\<close>

definition queued_for :: "sync_entity_type \<Rightarrow> nat list \<Rightarrow> queue_row \<Rightarrow> bool" where
  "queued_for t ids row \<longleftrightarrow> q_entity_type row = as_str t \<and> q_entity_id row \<in> set (map show_nat ids)"

definition execute_cleanup ::
  "nat \<Rightarrow> ns_instant \<Rightarrow> bool \<Rightarrow> evidence_db \<Rightarrow> evidence_db \<times> (evidence_error + retention_result)" where
  "execute_cleanup max_vars cutoff delete_orphaned db =
     (let proof_ids = map pw_id (filter (expired cutoff) (eb_proofs db));
          orphaned = (if delete_orphaned then orphaned_ids cutoff db else [])
      in if max_vars < length proof_ids then (db, Inl (QueryError ''Failed to delete sync queue (proofs)''))
         else if max_vars < length orphaned then (db, Inl (QueryError ''Failed to delete sync queue (results)''))
         else
           let q1 = filter (\<lambda>row. \<not> queued_for Proof proof_ids row) (eb_queue db);
               q2 = filter (\<lambda>row. \<not> queued_for CheckResult orphaned row) q1;
               db1 = delete_proofs (expired cutoff) (db\<lparr>eb_queue := q2\<rparr>);
               db2 = delete_results (\<lambda>r. rr_id r \<in> set orphaned) db1
           in (db2, Inr \<lparr>rt_proofs_deleted = length proof_ids,
                 rt_check_results_deleted = length (filter (\<lambda>r. rr_id r \<in> set orphaned) (eb_results db1)),
                 rt_sync_queue_deleted = length (eb_queue db) - length q1 + (length q1 - length q2), rt_cutoff_date = cutoff,
                 rt_oldest_remaining = oldest_of (map pw_created_at (eb_proofs db2)),
                 rt_newest_proof = newest_of (map pw_created_at (eb_proofs db2)),
                 rt_total_proofs_remaining = int (length (eb_proofs db2)), rt_total_results_remaining = int (length (eb_results db2))\<rparr>))"

definition execute_dry_run :: "ns_instant \<Rightarrow> bool \<Rightarrow> evidence_db \<Rightarrow> retention_result" where
  "execute_dry_run cutoff delete_orphaned db =
     (let proof_ids = map pw_id (filter (expired cutoff) (eb_proofs db));
          orphaned = (if delete_orphaned then remdups (orphaned_ids cutoff db) else [])
      in \<lparr>rt_proofs_deleted = length proof_ids, rt_check_results_deleted = length orphaned,
          rt_sync_queue_deleted = length (filter (queued_for Proof proof_ids) (eb_queue db)), rt_cutoff_date = cutoff,
          rt_oldest_remaining = oldest_of (map pw_created_at (filter (\<lambda>p. \<not> expired cutoff p) (eb_proofs db))),
          rt_newest_proof = newest_of (map pw_created_at (eb_proofs db)),
          rt_total_proofs_remaining = int (length (filter (\<lambda>p. \<not> expired cutoff p) (eb_proofs db))),
          rt_total_results_remaining = int (length (eb_results db)) - int (length orphaned)\<rparr>)"

definition execute_retention ::
  "nat \<Rightarrow> retention_config \<Rightarrow> ns_instant \<Rightarrow> evidence_db \<Rightarrow> evidence_db \<times> (evidence_error + retention_result)" where
  "execute_retention max_vars c now db =
     (if rc_dry_run c then (db, Inr (execute_dry_run (cutoff_of c now) (rc_delete_orphaned_results c) db))
      else execute_cleanup max_vars (cutoff_of c now) (rc_delete_orphaned_results c) db)"

record storage_stats =
  st_proof_count :: nat
  st_proof_data_bytes :: nat
  st_result_count :: nat
  st_sync_queue_count :: nat
  st_oldest_proof :: "ns_instant option"
  st_newest_proof :: "ns_instant option"

definition get_storage_stats :: "evidence_db \<Rightarrow> storage_stats" where
  "get_storage_stats db =
     \<lparr>st_proof_count = length (eb_proofs db), st_proof_data_bytes = sum_list (map (char_count \<circ> pw_data) (eb_proofs db)),
      st_result_count = length (eb_results db), st_sync_queue_count = length (eb_queue db),
      st_oldest_proof = oldest_of (map pw_created_at (eb_proofs db)),
      st_newest_proof = newest_of (map pw_created_at (eb_proofs db))\<rparr>"

definition data_span_days :: "storage_stats \<Rightarrow> int option" where
  "data_span_days s =
     (case (st_oldest_proof s, st_newest_proof s) of
        (Some oldest, Some newest) \<Rightarrow> Some ((newest - oldest) div 86400000000000) | _ \<Rightarrow> None)"

section \<open>Upload\<close>

definition MAX_BATCH_SIZE :: nat where "MAX_BATCH_SIZE = 100"

record result_payload =
  rp_result_id :: string
  rp_check_id :: string
  rp_status :: string
  rp_score :: "int option"
  rp_proof_hash :: "string option"
  rp_executed_at :: ns_instant
  rp_duration_ms :: "int option"
  rp_raw_data :: "string option"
  rp_category :: "string option"
  rp_severity :: "string option"
  rp_framework :: "string option"
  rp_control_id :: "string option"

record upload_response =
  up_accepted :: nat
  up_accepted_result_ids :: "string list option"
  up_rejected :: nat

datatype upload_error = UploadFailed string | UploadTimedOut

text \<open>\<open>ue_measurement\<close>: the hash of the rule, time and row of a result; \<open>ue_json\<close>: the JSON of its data, where it is one.\<close>

record upload_env =
  ue_measurement :: "string \<times> ns_instant \<times> nat \<Rightarrow> string"
  ue_json :: "string \<Rightarrow> string option"
  ue_answer :: "nat \<Rightarrow> result_payload list \<Rightarrow> upload_error + upload_response"

definition measurement_id :: "upload_env \<Rightarrow> check_result \<Rightarrow> string" where
  "measurement_id env r = ue_measurement env (cr_check_rule_id r, cr_executed_at r, unwrap_or (cr_row_id r) 0)"

definition payload_of :: "upload_env \<Rightarrow> check_result \<Rightarrow> result_payload" where
  "payload_of env r =
     \<lparr>rp_result_id = measurement_id env r, rp_check_id = cr_check_rule_id r, rp_status = check_state_str (cr_status r),
      rp_score = cr_score r, rp_proof_hash = None, rp_executed_at = cr_executed_at r, rp_duration_ms = cr_duration_ms r,
      rp_raw_data = (case cr_raw_data r of None \<Rightarrow> None | Some s \<Rightarrow> ue_json env s), rp_category = None, rp_severity = None,
      rp_framework = None, rp_control_id = Some (cr_check_rule_id r)\<rparr>"

definition enriched_payload :: "upload_env \<Rightarrow> evidence_db \<Rightarrow> check_result \<Rightarrow> result_payload" where
  "enriched_payload env db r =
     (let p = payload_of env r;
          p1 = (case find (\<lambda>u. ru_id u = cr_check_rule_id r) (eb_rules db) of
                  None \<Rightarrow> p
                | Some u \<Rightarrow> p\<lparr>rp_category := Some (ru_category u), rp_severity := Some (ru_severity u),
                              rp_framework := (case ru_frameworks u of [] \<Rightarrow> None | f # _ \<Rightarrow> Some f)\<rparr>)
      in case cr_row_id r of
           None \<Rightarrow> p1
         | Some i \<Rightarrow> (case get_by_check_result i db of [] \<Rightarrow> p1 | pr # _ \<Rightarrow> p1\<lparr>rp_proof_hash := Some (pr_hash pr)\<rparr>))"

definition acknowledged_ids :: "upload_env \<Rightarrow> check_result list \<Rightarrow> upload_response \<Rightarrow> nat list" where
  "acknowledged_ids env results response =
     (case up_accepted_result_ids response of
        Some ids \<Rightarrow> List.map_filter cr_row_id (filter (\<lambda>r. measurement_id env r \<in> set ids) results)
      | None \<Rightarrow> if up_rejected response = 0 \<and> up_accepted response = length results then List.map_filter cr_row_id results else [])"

record upload_state =
  us_db :: evidence_db
  us_requests :: nat

record upload_result =
  ur_uploaded :: nat
  ur_rejected :: nat
  ur_pending :: nat

definition upload_batch ::
  "upload_env \<Rightarrow> check_result list \<Rightarrow> upload_state \<Rightarrow> upload_state \<times> (upload_error + upload_result)" where
  "upload_batch env results s =
     (if results = [] then (s, Inr \<lparr>ur_uploaded = 0, ur_rejected = 0, ur_pending = 0\<rparr>)
      else
        let s1 = s\<lparr>us_requests := us_requests s + 1\<rparr>
        in case ue_answer env (us_requests s) (map (enriched_payload env (us_db s)) results) of
             Inl e \<Rightarrow> (s1, Inl e)
           | Inr response \<Rightarrow>
               let ids = acknowledged_ids env results response;
                   db = (if ids = [] then us_db s else fst (mark_results_synced ids (us_db s)))
               in (s1\<lparr>us_db := db\<rparr>, Inr \<lparr>ur_uploaded = length ids, ur_rejected = up_rejected response, ur_pending = 0\<rparr>))"

definition upload_pending :: "upload_env \<Rightarrow> upload_state \<Rightarrow> upload_state \<times> (upload_error + upload_result)" where
  "upload_pending env s =
     (let results = get_unsynced_results (int MAX_BATCH_SIZE) (us_db s)
      in if results = [] then (s, Inr \<lparr>ur_uploaded = 0, ur_rejected = 0, ur_pending = 0\<rparr>)
         else case upload_batch env results s of
                (s1, Inl e) \<Rightarrow> (s1, Inl e)
              | (s1, Inr u) \<Rightarrow> (s1, Inr (u\<lparr>ur_pending := length (get_unsynced_results 1 (us_db s1))\<rparr>)))"

text \<open>The loop of \<open>upload_all\<close>; that it ends is \<open>upload_all_ends\<close>.\<close>

partial_function (option) upload_all ::
  "upload_env \<Rightarrow> nat \<Rightarrow> upload_state \<Rightarrow> (upload_state \<times> (upload_error + nat)) option" where
  "upload_all env sent_before s =
     (case upload_pending env s of
        (s1, Inl e) \<Rightarrow> Some (s1, Inl e)
      | (s1, Inr u) \<Rightarrow>
          if ur_pending u = 0 \<or> ur_uploaded u = 0 then Some (s1, Inr (sent_before + ur_uploaded u))
          else upload_all env (sent_before + ur_uploaded u) s1)"

definition pending_count :: "evidence_db \<Rightarrow> nat" where
  "pending_count db = length (get_unsynced_results i64_max db)"

end
