(* ===== verification/Evidence_Props.thy ===== *)
theory Evidence_Props imports Evidence_Retention begin

text \<open>
  The tables of evidence stay within their limits and consistent with each other; a proof that was stored verifies, and one
  that was changed does not; the retention policy deletes exactly what it says; the upload loop ends, but a hundred results
  the platform refuses end it for good.
\<close>

section \<open>Texts of times\<close>

lemma fraction_head: "\<exists>c r. fraction t @ ''+00:00'' = c # r \<and> c < CHR ''Z''"
  by (auto simp: fraction_def Let_def less_char_def)

lemma stored_less [simp]: "text_less (stored_text s) (rfc3339 t) \<longleftrightarrow> s < second_of t"
proof -
  obtain c r where c: "fraction t @ ''+00:00'' = c # r" "c < CHR ''Z''" using fraction_head by blast
  then have "\<not> ''Z'' < fraction t @ ''+00:00''" by (simp only: c(1) Cons_less_Cons) auto
  then show ?thesis by (auto simp: text_less_def stored_text_def rfc3339_def)
qed

lemma less_stored [simp]: "text_less (rfc3339 t) (stored_text s) \<longleftrightarrow> second_of t \<le> s"
proof -
  obtain c r where c: "fraction t @ ''+00:00'' = c # r" "c < CHR ''Z''" using fraction_head by blast
  then have "fraction t @ ''+00:00'' < ''Z''" by (simp add: c)
  then show ?thesis by (auto simp: text_less_def stored_text_def rfc3339_def)
qed

lemma expired_iff: "expired cutoff p \<longleftrightarrow> pw_created_at p < second_of cutoff"
  by (simp add: expired_def)

text \<open>A bound documented as inclusive leaves out the results of its own second.\<close>

lemma to_date_is_exclusive:
  assumes "rq_to_date q = Some t" "query_selects q w"
  shows "rr_executed_at w < second_of t"
  using assms by (auto simp: query_selects_def)

lemma offset_needs_limit: "rq_limit q = None \<Longrightarrow> rq_offset q = Some k \<Longrightarrow> \<exists>e. query_results q db = Inl e"
  by (simp add: query_results_def Let_def)

text \<open>Two results of a rule in one second are both the latest.\<close>

lemma latest_per_rule_twice:
  assumes "eb_results db = [a, b]" "rr_check_rule_id a = rr_check_rule_id b" "rr_executed_at a = rr_executed_at b"
  shows "latest_per_rule db = [row_to_check_result a, row_to_check_result b]"
  using assms by (simp add: latest_per_rule_def)

section \<open>The tables\<close>

definition evidence_ok :: "evidence_db \<Rightarrow> bool" where
  "evidence_ok db \<longleftrightarrow>
     distinct (map rr_id (eb_results db)) \<and> (\<forall>r\<in>set (eb_results db). rr_id r < eb_next_result db)
     \<and> distinct (map pw_id (eb_proofs db)) \<and> (\<forall>p\<in>set (eb_proofs db). pw_id p < eb_next_proof db)
     \<and> (\<forall>p\<in>set (eb_proofs db). \<exists>r\<in>set (eb_results db). rr_id r = pw_check_result_id p)
     \<and> length (eb_results db) \<le> MAX_CHECK_RESULTS_SIZE \<and> length (eb_proofs db) \<le> MAX_PROOFS_SIZE"

datatype evidence_op =
    InsertResult check_result | InsertProof stored_proof | MarkResults "nat list" | MarkProofs "nat list"
  | DropResults ns_instant | DropProofs ns_instant | Retain retention_config ns_instant

fun evidence_step :: "hash_env \<Rightarrow> nat \<Rightarrow> evidence_op \<Rightarrow> evidence_db \<Rightarrow> evidence_db" where
  "evidence_step env max_vars (InsertResult r) db = fst (insert_result r db)"
| "evidence_step env max_vars (InsertProof p) db = fst (insert_proof env p db)"
| "evidence_step env max_vars (MarkResults ids) db = fst (mark_results_synced ids db)"
| "evidence_step env max_vars (MarkProofs ids) db = fst (mark_proofs_synced ids db)"
| "evidence_step env max_vars (DropResults t) db = fst (delete_results_older_than t db)"
| "evidence_step env max_vars (DropProofs t) db = fst (delete_proofs_older_than t db)"
| "evidence_step env max_vars (Retain c now) db = fst (execute_retention max_vars c now db)"

definition evidence_run :: "hash_env \<Rightarrow> nat \<Rightarrow> evidence_op list \<Rightarrow> evidence_db \<Rightarrow> evidence_db" where
  "evidence_run env max_vars ops db = fold (evidence_step env max_vars) ops db"

definition no_evidence :: "rule_row list \<Rightarrow> queue_row list \<Rightarrow> evidence_db" where
  "no_evidence rules queue =
     \<lparr>eb_rules = rules, eb_results = [], eb_proofs = [], eb_queue = queue, eb_next_result = 1, eb_next_proof = 1\<rparr>"

lemma distinct_map_filter: "distinct (map f xs) \<Longrightarrow> distinct (map f (filter P xs))"
  by (simp add: distinct_map inj_on_def)

lemma ok_delete_results: "evidence_ok db \<Longrightarrow> evidence_ok (delete_results P db)"
  unfolding evidence_ok_def delete_results_def
  by (auto simp: distinct_map_filter list_ex_iff intro: order_trans [OF length_filter_le]) blast

lemma ok_delete_proofs: "evidence_ok db \<Longrightarrow> evidence_ok (delete_proofs P db)"
  unfolding evidence_ok_def delete_proofs_def
  by (auto simp: distinct_map_filter intro: order_trans [OF length_filter_le])

lemma length_without_ids:
  assumes "distinct (map key xs)" "distinct ids" "set ids \<subseteq> key ` set xs"
  shows "length (filter (\<lambda>x. key x \<notin> set ids) xs) = length xs - length ids"
proof -
  have "length (filter (\<lambda>x. key x \<in> set ids) xs) = card (set (filter (\<lambda>x. key x \<in> set ids) xs))"
    using assms(1) by (intro distinct_card [symmetric]) (simp add: distinct_map)
  also have "\<dots> = card (key ` set (filter (\<lambda>x. key x \<in> set ids) xs))"
    using assms(1) by (intro card_image [symmetric]) (auto simp: distinct_map inj_on_def)
  also have "key ` set (filter (\<lambda>x. key x \<in> set ids) xs) = set ids" using assms(3) by auto
  finally have "length (filter (\<lambda>x. key x \<in> set ids) xs) = length ids" using assms(2) by (simp add: distinct_card)
  then show ?thesis using sum_length_filter_compl [of "\<lambda>x. key x \<in> set ids" xs] by simp
qed

lemma evict_results_room: "evidence_ok db \<Longrightarrow> evidence_ok (evict_results db) \<and> length (eb_results (evict_results db)) < MAX_CHECK_RESULTS_SIZE"
proof (cases "MAX_CHECK_RESULTS_SIZE \<le> length (eb_results db)")
  case True
  assume ok: "evidence_ok db"
  let ?rows = "order_limit rr_executed_at (length (eb_results db) - MAX_CHECK_RESULTS_SIZE + 1) (eb_results db)"
  have dist: "distinct (map rr_id (eb_results db))" using ok by (simp add: evidence_ok_def)
  have "distinct (map rr_id ?rows)"
    using dist set_order_limit [of rr_executed_at _ "eb_results db"] distinct_order_limit [of "eb_results db"]
    by (auto simp: distinct_map intro: inj_on_subset)
  moreover have "set (map rr_id ?rows) \<subseteq> rr_id ` set (eb_results db)" using set_order_limit by fastforce
  ultimately have "length (filter (\<lambda>x. rr_id x \<notin> set (map rr_id ?rows)) (eb_results db)) = length (eb_results db) - length (map rr_id ?rows)"
    using dist by (intro length_without_ids)
  then show ?thesis
    using True ok ok_delete_results [OF ok]
    by (simp add: evict_results_def Let_def delete_results_def MAX_CHECK_RESULTS_SIZE_def)
qed (simp add: evict_results_def)

lemma evict_proofs_room: "evidence_ok db \<Longrightarrow> evidence_ok (evict_proofs db) \<and> length (eb_proofs (evict_proofs db)) < MAX_PROOFS_SIZE"
proof (cases "MAX_PROOFS_SIZE \<le> length (eb_proofs db)")
  case True
  assume ok: "evidence_ok db"
  let ?rows = "order_limit pw_created_at (length (eb_proofs db) - MAX_PROOFS_SIZE + 1) (eb_proofs db)"
  have dist: "distinct (map pw_id (eb_proofs db))" using ok by (simp add: evidence_ok_def)
  have "distinct (map pw_id ?rows)"
    using dist set_order_limit [of pw_created_at _ "eb_proofs db"] distinct_order_limit [of "eb_proofs db"]
    by (auto simp: distinct_map intro: inj_on_subset)
  moreover have "set (map pw_id ?rows) \<subseteq> pw_id ` set (eb_proofs db)" using set_order_limit by fastforce
  ultimately have "length (filter (\<lambda>x. pw_id x \<notin> set (map pw_id ?rows)) (eb_proofs db)) = length (eb_proofs db) - length (map pw_id ?rows)"
    using dist by (intro length_without_ids)
  then show ?thesis
    using True ok ok_delete_proofs [OF ok]
    by (simp add: evict_proofs_def Let_def delete_proofs_def MAX_PROOFS_SIZE_def)
qed (simp add: evict_proofs_def)

lemma ok_insert_result: "evidence_ok db \<Longrightarrow> evidence_ok (fst (insert_result r db))"
  using evict_results_room [of db] by (auto simp: insert_result_def Let_def evidence_ok_def less_Suc_eq)

lemma ok_insert_proof: "evidence_ok db \<Longrightarrow> evidence_ok (fst (insert_proof env p db))"
  using evict_proofs_room [of db]
  by (auto simp: insert_proof_def Let_def evidence_ok_def less_Suc_eq list_ex_iff)

lemma ok_map_results:
  assumes "evidence_ok db" "\<And>w. rr_id (m w) = rr_id w"
  shows "evidence_ok (db\<lparr>eb_results := map m (eb_results db)\<rparr>)"
  using assms unfolding evidence_ok_def by (auto simp: comp_def)

lemma ok_map_proofs:
  assumes "evidence_ok db" "\<And>w. pw_id (m w) = pw_id w" "\<And>w. pw_check_result_id (m w) = pw_check_result_id w"
  shows "evidence_ok (db\<lparr>eb_proofs := map m (eb_proofs db)\<rparr>)"
  using assms unfolding evidence_ok_def by (auto simp: comp_def)

lemma ok_mark:
  assumes "evidence_ok db"
  shows "evidence_ok (fst (mark_results_synced ids db))" "evidence_ok (fst (mark_proofs_synced ids db))"
  unfolding mark_results_synced_def mark_proofs_synced_def fst_conv
  by (rule ok_map_results ok_map_proofs; use assms in simp)+

lemma ok_retention: "evidence_ok db \<Longrightarrow> evidence_ok (fst (execute_retention max_vars c now db))"
proof -
  assume ok: "evidence_ok db"
  then have "evidence_ok (db\<lparr>eb_queue := q\<rparr>)" for q by (simp add: evidence_ok_def)
  then show ?thesis
    using ok ok_delete_proofs ok_delete_results by (simp add: execute_retention_def execute_cleanup_def Let_def)
qed

lemma ok_step: "evidence_ok db \<Longrightarrow> evidence_ok (evidence_step env max_vars op db)"
  by (cases op)
    (simp_all add: ok_insert_result ok_insert_proof ok_mark ok_retention delete_results_older_than_def
      delete_proofs_older_than_def Let_def ok_delete_results ok_delete_proofs)

text \<open>In every reachable state no table is over its limit, ids are unique, and each proof belongs to a result.\<close>

lemma evidence_invariant: "evidence_ok (evidence_run env max_vars ops (no_evidence rules queue))"
proof -
  have "evidence_ok db \<Longrightarrow> evidence_ok (fold (evidence_step env max_vars) ops db)" for db
    by (induction ops arbitrary: db) (simp_all add: ok_step)
  moreover have "evidence_ok (no_evidence rules queue)" by (simp add: evidence_ok_def no_evidence_def)
  ultimately show ?thesis by (simp add: evidence_run_def)
qed

section \<open>Retention\<close>

lemma queued_for_iff: "queued_for t (map f xs) row \<longleftrightarrow> q_entity_type row = as_str t \<and> (\<exists>x\<in>set xs. q_entity_id row = show_nat (f x))"
  by (auto simp: queued_for_def)

lemma orphaned_set:
  "i \<in> set (orphaned_ids cutoff db) \<longleftrightarrow>
     (\<exists>w\<in>set (eb_results db). rr_id w = i) \<and> (\<exists>p\<in>set (eb_proofs db). pw_check_result_id p = i \<and> expired cutoff p)
     \<and> (\<forall>p\<in>set (eb_proofs db). pw_check_result_id p = i \<longrightarrow> expired cutoff p)"
  by (auto simp: orphaned_ids_def list_ex_iff)

lemma filter_lengths: "length (filter P xs) + length (filter (\<lambda>x. \<not> P x) xs) = length xs"
  by (rule sum_length_filter_compl)

text \<open>C37: On any reachable database the policy succeeds: it deletes exactly the proofs older than the cutoff, exactly the results whose
  proofs are all among them, and of the upload queue exactly the rows of what it deleted, and it reports their numbers.\<close>

theorem retention_exact:
  assumes "10000 \<le> max_vars" "db = evidence_run env max_vars ops (no_evidence rules queue)"
    "\<not> rc_dry_run c" "rc_delete_orphaned_results c"
  shows "\<exists>db' r. execute_retention max_vars c now db = (db', Inr r) \<and>
    eb_proofs db' = filter (\<lambda>p. second_of (cutoff_of c now) \<le> pw_created_at p) (eb_proofs db) \<and>
    eb_results db' = filter (\<lambda>w. (\<exists>p\<in>set (eb_proofs db). pw_check_result_id p = rr_id w) \<longrightarrow>
                                (\<exists>p\<in>set (eb_proofs db'). pw_check_result_id p = rr_id w)) (eb_results db) \<and>
    eb_queue db' = filter (\<lambda>q. \<not> (q_entity_type q = ''proof'' \<and> (\<exists>p\<in>set (eb_proofs db) - set (eb_proofs db'). q_entity_id q = show_nat (pw_id p))) \<and>
                              \<not> (q_entity_type q = ''check_result'' \<and> (\<exists>w\<in>set (eb_results db) - set (eb_results db'). q_entity_id q = show_nat (rr_id w))))
                    (eb_queue db) \<and>
    rt_proofs_deleted r + length (eb_proofs db') = length (eb_proofs db) \<and>
    rt_check_results_deleted r + length (eb_results db') = length (eb_results db) \<and>
    rt_sync_queue_deleted r + length (eb_queue db') = length (eb_queue db)"
proof -
  let ?cut = "cutoff_of c now" and ?old = "expired (cutoff_of c now)"
  let ?orphans = "orphaned_ids ?cut db"
  let ?proofs = "filter (\<lambda>p. \<not> ?old p) (eb_proofs db)"
  have ok: "evidence_ok db" unfolding assms(2) by (rule evidence_invariant)
  have "length (filter ?old (eb_proofs db)) \<le> max_vars" "length ?orphans \<le> max_vars"
    using ok assms(1) length_filter_le [of ?old "eb_proofs db"]
    by (auto simp: evidence_ok_def MAX_PROOFS_SIZE_def MAX_CHECK_RESULTS_SIZE_def orphaned_ids_def
        intro: order_trans [OF length_filter_le])
  then obtain db' r where exec: "execute_retention max_vars c now db = (db', Inr r)"
    and proofs': "eb_proofs db' = filter (\<lambda>p. \<not> list_ex (\<lambda>w. rr_id w \<in> set ?orphans \<and> rr_id w = pw_check_result_id p) (eb_results db)) ?proofs"
    and results': "eb_results db' = filter (\<lambda>w. rr_id w \<notin> set ?orphans) (eb_results db)"
    and queue': "eb_queue db' = filter (\<lambda>q. \<not> queued_for CheckResult ?orphans q)
        (filter (\<lambda>q. \<not> queued_for Proof (map pw_id (filter ?old (eb_proofs db))) q) (eb_queue db))"
    and counts: "rt_proofs_deleted r = length (filter ?old (eb_proofs db))"
      "rt_check_results_deleted r = length (filter (\<lambda>w. rr_id w \<in> set ?orphans) (eb_results db))"
      "rt_sync_queue_deleted r + length (eb_queue db') = length (eb_queue db)"
    using assms(3,4) length_filter_le [of "\<lambda>q. \<not> queued_for Proof (map pw_id (filter ?old (eb_proofs db))) q" "eb_queue db"]
      length_filter_le [of "\<lambda>q. \<not> queued_for CheckResult ?orphans q" "filter (\<lambda>q. \<not> queued_for Proof (map pw_id (filter ?old (eb_proofs db))) q) (eb_queue db)"]
    by (simp add: execute_retention_def execute_cleanup_def Let_def delete_proofs_def delete_results_def)
  have proofs: "eb_proofs db' = ?proofs"
    unfolding proofs' using orphaned_set by (intro filter_True) (fastforce simp: list_ex_iff)
  have results: "eb_results db' = filter (\<lambda>w. (\<exists>p\<in>set (eb_proofs db). pw_check_result_id p = rr_id w) \<longrightarrow>
      (\<exists>p\<in>set (eb_proofs db'). pw_check_result_id p = rr_id w)) (eb_results db)"
    unfolding results' proofs by (rule filter_cong) (auto simp: orphaned_set)
  have gone1: "set (eb_proofs db) - set (eb_proofs db') = set (filter ?old (eb_proofs db))" unfolding proofs by auto
  have "set (eb_results db) - set (eb_results db') = {w \<in> set (eb_results db). rr_id w \<in> set ?orphans}"
    unfolding results' by auto
  then have "rr_id ` (set (eb_results db) - set (eb_results db')) = rr_id ` set (eb_results db) \<inter> set ?orphans" by auto
  moreover have "set ?orphans \<subseteq> rr_id ` set (eb_results db)" by (auto simp: orphaned_ids_def)
  ultimately have "rr_id ` (set (eb_results db) - set (eb_results db')) = set ?orphans" by blast
  note gone = gone1 this
  have "queued_for CheckResult ?orphans q \<longleftrightarrow>
      q_entity_type q = ''check_result'' \<and> (\<exists>w\<in>set (eb_results db) - set (eb_results db'). q_entity_id q = show_nat (rr_id w))" for q
    unfolding queued_for_def set_map gone(2) [symmetric] by (auto simp: image_iff)
  then have "eb_queue db' = filter (\<lambda>q. \<not> (q_entity_type q = ''proof'' \<and> (\<exists>p\<in>set (eb_proofs db) - set (eb_proofs db'). q_entity_id q = show_nat (pw_id p))) \<and>
      \<not> (q_entity_type q = ''check_result'' \<and> (\<exists>w\<in>set (eb_results db) - set (eb_results db'). q_entity_id q = show_nat (rr_id w)))) (eb_queue db)"
    unfolding queue' filter_filter queued_for_iff gone(1) by simp
  moreover have "rt_proofs_deleted r + length (eb_proofs db') = length (eb_proofs db)"
    unfolding counts proofs by (rule filter_lengths)
  moreover have "rt_check_results_deleted r + length (eb_results db') = length (eb_results db)"
    unfolding counts results' by (rule filter_lengths)
  moreover have "eb_proofs db' = filter (\<lambda>p. second_of ?cut \<le> pw_created_at p) (eb_proofs db)"
    unfolding proofs by (simp add: expired_iff not_less)
  ultimately show ?thesis using exec results counts(3) by blast
qed

text \<open>A dry run reports the same deletions of proofs and results, but not the queued rows of results; a result that never had a proof
  is deleted by neither, however old.\<close>

lemma dry_run_agrees:
  assumes "evidence_ok db" "execute_cleanup max_vars cutoff delete_orphaned db = (db', Inr r)"
  shows "rt_proofs_deleted (execute_dry_run cutoff delete_orphaned db) = rt_proofs_deleted r"
    and "rt_sync_queue_deleted (execute_dry_run cutoff delete_orphaned db) \<le> rt_sync_queue_deleted r"
proof -
  let ?q = "queued_for Proof (map pw_id (filter (expired cutoff) (eb_proofs db)))"
  obtain B where "rt_sync_queue_deleted r = length (eb_queue db) - length (filter (\<lambda>q. \<not> ?q q) (eb_queue db))
      + (length (filter (\<lambda>q. \<not> ?q q) (eb_queue db)) - length (filter B (filter (\<lambda>q. \<not> ?q q) (eb_queue db))))"
    using assms(2) by (auto simp: execute_cleanup_def Let_def simp del: filter_filter split: if_splits)
  then show "rt_sync_queue_deleted (execute_dry_run cutoff delete_orphaned db) \<le> rt_sync_queue_deleted r"
    using filter_lengths [of ?q "eb_queue db"] by (simp add: execute_dry_run_def Let_def)
  show "rt_proofs_deleted (execute_dry_run cutoff delete_orphaned db) = rt_proofs_deleted r"
    using assms(2) by (auto simp: execute_cleanup_def execute_dry_run_def Let_def split: if_splits)
qed

lemma proofless_results_stay:
  assumes "execute_cleanup max_vars cutoff delete_orphaned db = (db', Inr r)" "w \<in> set (eb_results db)"
    "\<forall>p\<in>set (eb_proofs db). pw_check_result_id p \<noteq> rr_id w"
  shows "w \<in> set (eb_results db')"
  using assms by (auto simp: execute_cleanup_def Let_def delete_proofs_def delete_results_def orphaned_set split: if_splits)

text \<open>
  The integrity of a stored proof, the end, good or bad, of the upload loop, and concrete databases.
\<close>

section \<open>Integrity of proofs\<close>

lemma byte_word_inj: "byte_word a = byte_word b \<longleftrightarrow> a = b"
proof
  assume "byte_word a = byte_word b"
  then have "byte a mod 256 = byte b mod 256" by (simp add: byte_word_def word_of_nat_eq_iff take_bit_eq_mod)
  then have "byte a = byte b" by (simp only: mod_less [OF byte_less])
  then show "a = b" by (simp add: byte_def)
qed simp

lemma or_zero: "(a :: 8 word) OR b = 0 \<longleftrightarrow> a = 0 \<and> b = 0"
  by (auto simp: bit_eq_iff bit_simps)

lemma xor_zero: "(a :: 8 word) XOR b = 0 \<longleftrightarrow> a = b"
  by (auto simp: bit_eq_iff bit_simps)

lemma differences:
  "fold (\<lambda>(x, y) acc. acc OR (byte_word x XOR byte_word y)) ps acc = 0 \<longleftrightarrow> acc = 0 \<and> (\<forall>(x, y)\<in>set ps. x = y)"
  by (induction ps arbitrary: acc) (auto simp: or_zero xor_zero byte_word_inj)

text \<open>The comparison without an early exit is equality.\<close>

lemma same_bytes_iff: "same_bytes a b \<longleftrightarrow> a = b"
proof -
  have "length a = length b \<Longrightarrow> (\<forall>(x, y)\<in>set (zip a b). x = y) \<longleftrightarrow> a = b"
    by (induction a b rule: list_induct2) auto
  then show ?thesis by (auto simp: same_bytes_def differences)
qed

lemma verify_iff: "verify_proof env p \<longleftrightarrow> pr_hash p = compute_hash env (pr_check_result_id p) (pr_data p) (pr_created_at p)"
  by (simp add: verify_proof_def same_bytes_iff)

lemma second_of_stored [simp]: "second_of (s * 1000000000) = s"
  by (simp add: second_of_def)

lemma find_new: "\<forall>x\<in>set xs. key x \<noteq> i \<Longrightarrow> key y = i \<Longrightarrow> find (\<lambda>x. key x = i) (xs @ [y]) = Some y"
  by (induction xs) auto

text \<open>Somebody changes the data of a stored proof.\<close>

definition overwrite_data :: "nat \<Rightarrow> string \<Rightarrow> evidence_db \<Rightarrow> evidence_db" where
  "overwrite_data i data db =
     db\<lparr>eb_proofs := map (\<lambda>w. if pw_id w = i then w\<lparr>pw_data := data\<rparr> else w) (eb_proofs db)\<rparr>"

lemma find_overwritten:
  "find (\<lambda>w. pw_id w = i) (map (\<lambda>w. if pw_id w = i then w\<lparr>pw_data := data\<rparr> else w) ws) =
    map_option (\<lambda>w. w\<lparr>pw_data := data\<rparr>) (find (\<lambda>w. pw_id w = i) ws)"
  by (induction ws) auto

text \<open>C38: A proof that was stored is read back, to the second, and verifies. Once its data are changed it is reported as
  tampered, with both hashes, unless the new data have the same hash, which is a collision of SHA-256.\<close>

theorem stored_proof_verifies:
  assumes "db = evidence_run env max_vars ops (no_evidence rules queue)"
    "insert_proof env (new_proof env result_id data t) db = (db', Inr i)"
  shows "get_proof i db' = Some ((new_proof env result_id data (second_of t * 1000000000))\<lparr>pr_id := Some i\<rparr>) \<and>
    verify_integrity env i db' = ProofValid \<and>
    verify_integrity env i (overwrite_data i data' db') =
      (if compute_hash env result_id data' t = compute_hash env result_id data t then ProofValid
       else ProofTampered (compute_hash env result_id data' t) (compute_hash env result_id data t)) \<and>
    (data' \<noteq> data \<and> compute_hash env result_id data' t = compute_hash env result_id data t \<longrightarrow>
      (\<exists>x y. x \<noteq> y \<and> he_sha256 env x = he_sha256 env y))"
proof -
  let ?row = "\<lparr>pw_id = i, pw_check_result_id = result_id, pw_data = data, pw_hash = compute_hash env result_id data t,
    pw_created_at = second_of t, pw_synced = False\<rparr>"
  have "evidence_ok db" unfolding assms(1) by (rule evidence_invariant)
  then have "evidence_ok (evict_proofs db)" using evict_proofs_room by blast
  then have old: "\<forall>w\<in>set (eb_proofs (evict_proofs db)). pw_id w \<noteq> eb_next_proof (evict_proofs db)" by (auto simp: evidence_ok_def)
  have ids: "i = eb_next_proof (evict_proofs db)" "eb_proofs db' = eb_proofs (evict_proofs db) @ [?row]"
    using assms(2) by (auto simp: insert_proof_def Let_def new_proof_def split: if_splits)
  then have row: "find (\<lambda>w. pw_id w = i) (eb_proofs db') = Some ?row"
    using old find_new [of _ pw_id i ?row] by simp
  have same: "compute_hash env result_id d (second_of t * 1000000000) = compute_hash env result_id d t" for d
    by (simp add: compute_hash_def)
  have "data' \<noteq> data \<and> compute_hash env result_id data' t = compute_hash env result_id data t \<longrightarrow>
      (\<exists>x y. x \<noteq> y \<and> he_sha256 env x = he_sha256 env y)"
    unfolding compute_hash_def by (metis append_same_eq same_append_eq)
  moreover have "verify_integrity env i (overwrite_data i data' db') =
      (if compute_hash env result_id data' t = compute_hash env result_id data t then ProofValid
       else ProofTampered (compute_hash env result_id data' t) (compute_hash env result_id data t))"
    using row by (auto simp: get_proof_def row_to_proof_def same verify_integrity_def proof_status_def verify_iff overwrite_data_def
        find_overwritten)
  ultimately show ?thesis
    using row by (simp add: get_proof_def row_to_proof_def new_proof_def same verify_integrity_def proof_status_def verify_iff)
qed

section \<open>The upload loop\<close>

definition unsynced :: "evidence_db \<Rightarrow> nat" where
  "unsynced db = length (filter (\<lambda>w. \<not> rr_synced w) (eb_results db))"

definition marked :: "nat list \<Rightarrow> evidence_db \<Rightarrow> evidence_db" where
  "marked ids db = fst (mark_results_synced ids db)"

lemma set_limited: "set (limited n xs) \<subseteq> set xs"
  by (auto simp: limited_def dest: in_set_takeD)

lemma unsynced_row:
  assumes "r \<in> set (get_unsynced_results n db)" "cr_row_id r = Some i"
  shows "\<exists>w\<in>set (eb_results db). rr_id w = i \<and> \<not> rr_synced w"
  using assms set_limited by (fastforce simp: get_unsynced_results_def row_to_check_result_def)

lemma marking_less:
  assumes "w \<in> set (eb_results db)" "rr_id w \<in> set ids" "\<not> rr_synced w"
  shows "unsynced (marked ids db) < unsynced db"
proof -
  have "length (filter (\<lambda>w. \<not> rr_synced w) (map (\<lambda>w. if rr_id w \<in> set ids then w\<lparr>rr_synced := True\<rparr> else w) ws)) =
      length (filter (\<lambda>w. rr_id w \<notin> set ids) (filter (\<lambda>w. \<not> rr_synced w) ws))" for ws
    by (induction ws) auto
  then have "unsynced (marked ids db) = length (filter (\<lambda>w. rr_id w \<notin> set ids) (filter (\<lambda>w. \<not> rr_synced w) (eb_results db)))"
    by (simp add: unsynced_def marked_def mark_results_synced_def)
  also have "\<dots> < length (filter (\<lambda>w. \<not> rr_synced w) (eb_results db))"
    using assms by (intro length_filter_less [of w]) auto
  finally show ?thesis by (simp add: unsynced_def)
qed

lemma acknowledged_subset: "i \<in> set (acknowledged_ids env results response) \<Longrightarrow> \<exists>r\<in>set results. cr_row_id r = Some i"
  by (auto simp: acknowledged_ids_def List.map_filter_def split: option.splits if_splits)

text \<open>What a pass does: nothing, or it marks what the platform acknowledged of the oldest results.\<close>

lemma upload_pending_cases:
  obtains (nothing) "us_db (fst (upload_pending env s)) = us_db s" "\<And>u. snd (upload_pending env s) = Inr u \<Longrightarrow> ur_uploaded u = 0"
  | (marks) response u where
      "ue_answer env (us_requests s) (map (enriched_payload env (us_db s)) (get_unsynced_results (int MAX_BATCH_SIZE) (us_db s))) = Inr response"
      "us_db (fst (upload_pending env s)) =
         marked (acknowledged_ids env (get_unsynced_results (int MAX_BATCH_SIZE) (us_db s)) response) (us_db s)"
      "acknowledged_ids env (get_unsynced_results (int MAX_BATCH_SIZE) (us_db s)) response \<noteq> []"
      "snd (upload_pending env s) = Inr u"
      "ur_uploaded u = length (acknowledged_ids env (get_unsynced_results (int MAX_BATCH_SIZE) (us_db s)) response)"
proof -
  let ?results = "get_unsynced_results (int MAX_BATCH_SIZE) (us_db s)"
  let ?answer = "ue_answer env (us_requests s) (map (enriched_payload env (us_db s)) ?results)"
  show ?thesis
  proof (cases "?results = []")
    case True
    show ?thesis by (rule nothing) (use True in \<open>auto simp: upload_pending_def\<close>)
  next
    case False
    show ?thesis
    proof (cases ?answer)
      case (Inl e)
      then have pass: "upload_pending env s = (s\<lparr>us_requests := us_requests s + 1\<rparr>, Inl e)"
        using False by (simp add: upload_pending_def upload_batch_def)
      show ?thesis by (rule nothing) (use pass in simp_all)
    next
      case (Inr response)
      let ?ids = "acknowledged_ids env ?results response"
      obtain k m where pass: "upload_pending env s =
          (s\<lparr>us_requests := us_requests s + 1, us_db := if ?ids = [] then us_db s else marked ?ids (us_db s)\<rparr>,
           Inr \<lparr>ur_uploaded = length ?ids, ur_rejected = k, ur_pending = m\<rparr>)"
        using False Inr by (simp add: upload_pending_def upload_batch_def marked_def Let_def)
      show ?thesis
      proof (cases "?ids = []")
        case True
        show ?thesis by (rule nothing) (use pass True in auto)
      next
        case ids: False
        show ?thesis
          by (rule marks [OF Inr _ ids, of "\<lparr>ur_uploaded = length ?ids, ur_rejected = k, ur_pending = m\<rparr>"]) (use ids pass in simp_all)
      qed
    qed
  qed
qed

lemma upload_progress:
  assumes "snd (upload_pending env s) = Inr u" "ur_uploaded u \<noteq> 0"
  shows "unsynced (us_db (fst (upload_pending env s))) < unsynced (us_db s)"
proof (cases rule: upload_pending_cases [of env s])
  case nothing
  then have "ur_uploaded u = 0" using assms(1) by simp
  then show ?thesis using assms(2) by simp
next
  case (marks response v)
  let ?ids = "acknowledged_ids env (get_unsynced_results (int MAX_BATCH_SIZE) (us_db s)) response"
  obtain i where "i \<in> set ?ids" using marks(3) by (meson last_in_set)
  then obtain w where "w \<in> set (eb_results (us_db s))" "rr_id w = i" "\<not> rr_synced w"
    using acknowledged_subset unsynced_row by metis
  with \<open>i \<in> set ?ids\<close> show ?thesis unfolding marks(2) by (intro marking_less) auto
qed

text \<open>C39: Whatever the platform answers, the loop that uploads all results ends.\<close>

theorem upload_all_ends: "\<exists>s' r. upload_all env n s = Some (s', r)"
proof (induction "unsynced (us_db s)" arbitrary: n s rule: less_induct)
  case less
  obtain s1 r where pass: "upload_pending env s = (s1, r)" by fastforce
  show ?case
  proof (cases r)
    case (Inr u)
    show ?thesis
    proof (cases "ur_pending u = 0 \<or> ur_uploaded u = 0")
      case False
      then have "unsynced (us_db s1) < unsynced (us_db s)" using upload_progress [of env s u] pass Inr by simp
      from less [OF this] show ?thesis using pass Inr False by (subst upload_all.simps) simp
    qed (use pass Inr in \<open>subst upload_all.simps, simp\<close>)
  qed (use pass in \<open>subst upload_all.simps, simp\<close>)
qed

text \<open>A result is only marked as uploaded when the platform acknowledged it.\<close>

lemma only_acknowledged_are_marked:
  assumes "w \<in> set (eb_results (us_db (fst (upload_pending env s))))" "rr_synced w"
  shows "w \<in> set (eb_results (us_db s)) \<or>
    (\<exists>response. ue_answer env (us_requests s)
        (map (enriched_payload env (us_db s)) (get_unsynced_results (int MAX_BATCH_SIZE) (us_db s))) = Inr response \<and>
      rr_id w \<in> set (acknowledged_ids env (get_unsynced_results (int MAX_BATCH_SIZE) (us_db s)) response))"
proof (cases rule: upload_pending_cases [of env s])
  case (marks response u)
  then show ?thesis using assms by (auto simp: marked_def mark_results_synced_def)
qed (use assms in simp)

section \<open>Refused results\<close>

text \<open>The platform answers by identity, and never acknowledges a result of the checks \<open>B\<close>.\<close>

definition refuses :: "upload_env \<Rightarrow> string set \<Rightarrow> bool" where
  "refuses env B \<longleftrightarrow>
     (\<forall>n ps response. ue_answer env n ps = Inr response \<longrightarrow>
        (\<exists>ids. up_accepted_result_ids response = Some ids \<and> (\<forall>p\<in>set ps. rp_check_id p \<in> B \<longrightarrow> rp_result_id p \<notin> set ids)))"

lemma enriched_payload_keys [simp]:
  "rp_result_id (enriched_payload env db r) = measurement_id env r" "rp_check_id (enriched_payload env db r) = cr_check_rule_id r"
  by (auto simp: enriched_payload_def payload_of_def Let_def split: option.splits list.splits)

lemma blocked_pass:
  assumes "refuses env B" "\<forall>r\<in>set (get_unsynced_results (int MAX_BATCH_SIZE) (us_db s)). cr_check_rule_id r \<in> B"
  shows "us_db (fst (upload_pending env s)) = us_db s"
proof (cases rule: upload_pending_cases [of env s])
  case (marks response u)
  let ?results = "get_unsynced_results (int MAX_BATCH_SIZE) (us_db s)"
  obtain ids where ids: "up_accepted_result_ids response = Some ids" "\<forall>r\<in>set ?results. measurement_id env r \<notin> set ids"
    using assms marks(1) unfolding refuses_def by fastforce
  then have "filter (\<lambda>r. measurement_id env r \<in> set ids) ?results = []" by (simp add: filter_empty_conv)
  then have "acknowledged_ids env ?results response = []" using ids(1) by (simp add: acknowledged_ids_def)
  with marks(3) show ?thesis by blast
qed

text \<open>C40: Once the hundred oldest results not yet uploaded are of checks the platform refuses, no pass ever uploads anything again,
  whatever waits behind them.\<close>

theorem refused_results_block_uploads:
  assumes "refuses env B" "\<forall>r\<in>set (get_unsynced_results 100 (us_db s)). cr_check_rule_id r \<in> B"
  shows "us_db (((\<lambda>s. fst (upload_pending env s)) ^^ k) s) = us_db s"
proof (induction k)
  case (Suc k)
  let ?s = "((\<lambda>s. fst (upload_pending env s)) ^^ k) s"
  have "us_db (fst (upload_pending env ?s)) = us_db ?s"
    using assms Suc by (intro blocked_pass) (simp_all add: MAX_BATCH_SIZE_def)
  then show ?case using Suc by simp
qed simp

section \<open>Concrete databases\<close>

definition demo_hash :: hash_env where
  "demo_hash = \<lparr>he_sha256 = (\<lambda>s. [char_of (sum_list (map byte s) mod 256)]), he_stamp = (\<lambda>_. ''then'')\<rparr>"

definition demo_rule :: rule_row where
  "demo_rule = \<lparr>ru_id = ''c'', ru_category = ''g'', ru_severity = ''low'', ru_frameworks = []\<rparr>"

definition demo_result :: "ns_instant \<Rightarrow> check_result" where
  "demo_result t = new_check_result t ''c'' StatePass"

text \<open>Two results, the first with an old proof, the second with a new one.\<close>

definition demo_ops :: "evidence_op list" where
  "demo_ops =
     [InsertResult (demo_result 1000000000), InsertResult (demo_result 2000000000),
      InsertProof (new_proof demo_hash 1 ''a'' 3000000000), InsertProof (new_proof demo_hash 2 ''b'' 86407000000000)]"

definition demo_queue :: "queue_row list" where
  "demo_queue = map (\<lambda>(t, i). \<lparr>q_id = 1, q_entity_type = t, q_entity_id = i, q_payload = [], q_priority = 0, q_attempts = 0,
     q_max_attempts = 1, q_last_attempt_at = None, q_last_error = None, q_created_at = 0, q_next_retry_at = 0\<rparr>)
     [(''proof'', ''1''), (''proof'', ''2''), (''check_result'', ''1'')]"

definition demo_evidence :: evidence_db where
  "demo_evidence = evidence_run demo_hash 10000 demo_ops (no_evidence [demo_rule] demo_queue)"

lemma verify_new [simp]: "verify_proof env (new_proof env i d t)"
  by (simp add: verify_iff new_proof_def)

lemma demo_evidence_tables:
  "map rr_id (eb_results demo_evidence) = [1, 2]" "map pw_id (eb_proofs demo_evidence) = [1, 2]"
  "map pw_created_at (eb_proofs demo_evidence) = [3, 86407]" "map pw_check_result_id (eb_proofs demo_evidence) = [1, 2]"
  by (simp_all add: demo_evidence_def evidence_run_def demo_ops_def no_evidence_def insert_result_def insert_proof_def
      evict_results_def evict_proofs_def MAX_CHECK_RESULTS_SIZE_def MAX_PROOFS_SIZE_def demo_rule_def demo_result_def
      new_check_result_def new_proof_def second_of_def verify_iff Let_def)

theorem retention_exact_witness:
  "\<exists>db' r. execute_retention 10000 (default_retention\<lparr>rc_retention_days := 1\<rparr>) 86410000000000 demo_evidence = (db', Inr r) \<and>
    rt_proofs_deleted r = 1 \<and> rt_check_results_deleted r = 1"
proof -
  let ?c = "default_retention\<lparr>rc_retention_days := 1\<rparr>"
  have cut: "second_of (cutoff_of ?c 86410000000000) = 10" by (simp add: cutoff_of_def second_of_def)
  obtain p1 p2 where proofs: "eb_proofs demo_evidence = [p1, p2]" "pw_created_at p1 = 3" "pw_created_at p2 = 86407"
    "pw_check_result_id p1 = 1" "pw_check_result_id p2 = 2"
    using demo_evidence_tables(3,4) by (auto simp: map_eq_Cons_conv)
  obtain w1 w2 where results: "eb_results demo_evidence = [w1, w2]" "rr_id w1 = 1" "rr_id w2 = 2"
    using demo_evidence_tables(1) by (auto simp: map_eq_Cons_conv)
  have ge: "(10000::nat) \<le> 10000" by simp
  have c: "\<not> rc_dry_run ?c" "rc_delete_orphaned_results ?c" by (simp_all add: default_retention_def)
  from retention_exact [OF ge demo_evidence_def c, of 86410000000000]
  obtain db' r where res: "execute_retention 10000 ?c 86410000000000 demo_evidence = (db', Inr r)"
    "eb_proofs db' = filter (\<lambda>p. 10 \<le> pw_created_at p) (eb_proofs demo_evidence)"
    "eb_results db' = filter (\<lambda>w. (\<exists>p\<in>set (eb_proofs demo_evidence). pw_check_result_id p = rr_id w) \<longrightarrow>
        (\<exists>p\<in>set (eb_proofs db'). pw_check_result_id p = rr_id w)) (eb_results demo_evidence)"
    "rt_proofs_deleted r + length (eb_proofs db') = length (eb_proofs demo_evidence)"
    "rt_check_results_deleted r + length (eb_results db') = length (eb_results demo_evidence)"
    unfolding cut by blast
  have "eb_proofs db' = [p2]" using res(2) proofs by simp
  moreover from this have "eb_results db' = [w2]" using res(3) proofs results by simp
  ultimately show ?thesis using res(1,4,5) proofs(1) results(1) by simp
qed

theorem stored_proof_verifies_witness:
  "\<exists>db' i. insert_proof demo_hash (new_proof demo_hash 2 ''c'' 5) demo_evidence = (db', Inr i) \<and>
    verify_integrity demo_hash i db' = ProofValid \<and>
    (\<exists>e h. verify_integrity demo_hash i (overwrite_data i ''x'' db') = ProofTampered e h)"
proof -
  have "list_ex (\<lambda>r. rr_id r = 2) (eb_results demo_evidence)"
    using demo_evidence_tables(1) by (auto simp: map_eq_Cons_conv)
  moreover have "evict_proofs demo_evidence = demo_evidence"
    using demo_evidence_tables(2) by (auto simp: evict_proofs_def MAX_PROOFS_SIZE_def map_eq_Cons_conv)
  ultimately obtain db' i where ins: "insert_proof demo_hash (new_proof demo_hash 2 ''c'' 5) demo_evidence = (db', Inr i)"
    by (simp add: insert_proof_def Let_def new_proof_def verify_iff)
  have "compute_hash demo_hash 2 ''x'' 5 \<noteq> compute_hash demo_hash 2 ''c'' 5" by code_simp
  with stored_proof_verifies [OF demo_evidence_def ins, of "''x''"] ins show ?thesis by simp
qed

text \<open>A platform that acknowledges nothing.\<close>

definition refusing :: upload_env where
  "refusing = \<lparr>ue_measurement = (\<lambda>(c, t, i). c), ue_json = Some,
     ue_answer = (\<lambda>n ps. Inr \<lparr>up_accepted = 0, up_accepted_result_ids = Some [], up_rejected = length ps\<rparr>)\<rparr>"

theorem refused_results_block_uploads_witness:
  "us_db (((\<lambda>s. fst (upload_pending refusing s)) ^^ 7) \<lparr>us_db = demo_evidence, us_requests = 0\<rparr>) = demo_evidence"
proof -
  have "refuses refusing UNIV" by (simp add: refuses_def refusing_def)
  from refused_results_block_uploads [OF this, of "\<lparr>us_db = demo_evidence, us_requests = 0\<rparr>" 7] show ?thesis by simp
qed

end
