(* ===== verification/Spec2Isabelle.thy ===== *)
theory Spec2Isabelle
  imports Playbook_Props Block_Lifecycle Sync_Orchestrator_Props Correlation Alert_Cooldown
    Debian_Version Quarantine Process_Kill Isolation_Props Sigma_Load_Props Sigma_Counting
    Threat_Pipeline_Props Check_Props Self_Update_Props Net_Detect_Props Supervised_Tasks_Props
    Fim_Diff_Props Fim_Engine_Props Fim_Exclusion_Props Fim_Canary_Props
    Pf_Blocklist_Props Account_Lock_Props Siem_Format_Props Siem_Forward_Props Evidence_Props
begin

text \<open>
  A model of the Sentinel agent, the endpoint agent of the Sentinel GRC platform, and the theorems
  that make its core correct.

  The program. The agent watches a host, raises threats, answers them and keeps the platform
  informed. \<open>crates/agent-core\<close> ties the parts together: the threat pipeline turns what the detectors found into
  a context, playbooks and detection rules decide on a response, the response layer (\<open>edr_actions\<close>) blocks
  addresses, quarantines files, kills processes and isolates the host. The detectors are the network detectors of
  \<open>crates/agent-network\<close>, the Sigma rules and compliance checks of \<open>crates/agent-scanner\<close> and the file integrity
  monitoring and canaries of \<open>crates/agent-fim\<close>. \<open>crates/agent-storage\<close> keeps what has to be uploaded in a queue of an
  SQLite database, \<open>crates/agent-sync\<close> drains that queue against the platform, behind a circuit breaker and an
  offline tracker, uploads the results of the checks, and replaces the agent by its new releases. \<open>crates/agent-siem\<close>
  correlates security events and forwards them.

  The theories.

  \<^item> \<open>Prelude\<close>: Rust strings (byte sequences, trimming, stripping of affixes), checked and
    saturating arithmetic, hash maps as association lists, and their lemmas.
  \<^item> \<open>Rust_Float\<close>: IEEE 754 rounding as \<open>f64\<close> and \<open>f32\<close> do it, over the rationals.
  \<^item> \<open>Playbook\<close>, \<open>Playbook_Run\<close>, \<open>Playbook_Props\<close>: \<open>agent-core/src/playbook_engine.rs\<close> with the
    playbook types of \<open>agent-gui/src/dto.rs\<close> and \<open>edr_actions/response_command.rs\<close>. Evaluation of
    the conditions on a snapshot of threats, the targets of each action, the escalation of
    repeated blocks, running and simulating the actions.
  \<^item> \<open>Ip_Block\<close>, \<open>Iptables_Table\<close>: \<open>edr_actions/ip_block.rs\<close>, the command sequences of iptables and netsh. The locale
    \<open>firewall\<close> is the interface between the sequences and the tool; it is interpreted on a table of iptables rules.
  \<^item> \<open>Pf_Blocklist\<close>, \<open>Pf_Blocklist_Props\<close>: \<open>edr_actions/pf_blocklist.rs\<close>, the blocks on macOS, on a disk and a
    \<open>pfctl\<close> that may fail at any call. The locale \<open>packet_control\<close> is the interface to the packet filter.
  \<^item> \<open>Async\<close>: asynchronous functions as tasks that go from one await to the next, run alone or interleaved (\<open>tasks_step\<close>).
  \<^item> \<open>Account_Lock\<close>, \<open>Account_Lock_Props\<close>: \<open>edr_actions/account.rs\<close>, whose operations are such tasks, and the accounts and
    groups of Linux in \<open>agent-scanner/src/inventory.rs\<close>. The step relation \<open>acct_step\<close> has requests, sleeping tasks and restarts
    that do not overlap, \<open>acct_async_step\<close> all interleavings. The locales \<open>linux_accounts\<close> and \<open>linux_unlocks\<close> are what a host
    documents of its tools and files.
  \<^item> \<open>Block_Lifecycle\<close>: \<open>block_ip\<close>, \<open>unblock_ip\<close>, the ledger of pending unblocks and its
    reconciliation in \<open>edr_actions.rs\<close>, as operations and as the step relation \<open>ip_step\<close>, in which
    timers expire, the clock advances and the agent restarts between any two operations, which do not overlap.
  \<^item> \<open>Quarantine\<close>, \<open>Process_Kill\<close>: \<open>quarantine_file\<close>, \<open>restore_quarantined_file\<close> and \<open>kill_process\<close>
    of \<open>edr_actions.rs\<close>, with their guards.
  \<^item> \<open>Sync_Queue\<close>, \<open>Sync_Queue_Props\<close>: \<open>agent-storage/src/repositories/sync_queue.rs\<close>, one
    definition per method of the repository, each transaction one step.
  \<^item> \<open>Offline\<close>: \<open>agent-sync/src/offline.rs\<close>, the retry rule, the circuit breaker (also one lock at a
    time, for its interleavings), the offline tracker and the resolution of conflicts.
  \<^item> \<open>Sync_Orchestrator\<close>, \<open>Sync_Orchestrator_Props\<close>: \<open>agent-sync/src/orchestrator.rs\<close>, composed of
    the two components before it.
  \<^item> \<open>Correlation\<close>: \<open>agent-siem/src/correlation.rs\<close>. \<open>Siem_Format\<close>, \<open>Siem_Forward\<close>: \<open>formats/cef.rs\<close>, \<open>formats/leef.rs\<close>,
    \<open>transports\<close> and \<open>lib.rs\<close> of \<open>agent-siem/src\<close>, and the stages of the main loop that drive the forwarder
    (\<open>agent-core/src/main_loop/siem.rs\<close>). The locale \<open>siem_sender\<close> is the contract of a transport, interpreted on all of them.
  \<^item> \<open>Evidence_Store\<close>, \<open>Evidence_Retention\<close>, \<open>Evidence_Props\<close>: \<open>check_results.rs\<close>, \<open>proofs.rs\<close> and \<open>retention.rs\<close> of
    \<open>agent-storage/src\<close>, and \<open>agent-sync/src/result_upload.rs\<close>.
  \<^item> \<open>Alert_Cooldown\<close>: \<open>agent-network/src/detection/cooldown.rs\<close> and the upload loop that uses it in
    \<open>agent-core/src/network_ops.rs\<close>.
  \<^item> \<open>Isolation_Rules\<close>, \<open>Host_Isolation\<close>: \<open>agent-core/src/host_isolation.rs\<close>, the rules of the three
    firewalls and the operations, with the step relation \<open>iso_step\<close>. \<open>Chain_Table\<close> is what iptables
    does with a packet (locale \<open>packet_filter\<close>), \<open>Isolation_Verdicts\<close> (locale
    \<open>address_text\<close>) and \<open>Isolation_Linux\<close> (locale \<open>linux_isolation\<close>) follow the rules into verdicts;
    \<open>Isolation_Service\<close> holds the invariant, \<open>Isolation_Ranges\<close> the address ranges of Windows.
  \<^item> \<open>Sigma_Condition\<close>, \<open>Sigma_Match\<close>, \<open>Sigma_Compile\<close>, \<open>Sigma_Rules\<close>: detection rules, \<open>sigma.rs\<close> of
    \<open>agent-scanner/src/security\<close>: conditions, matchers, compilation of values, rules. \<open>Sigma_Logs\<close> and
    \<open>Sigma_Engine\<close>: \<open>sigma_logs.rs\<close>, the correlations and the engine of log rules. \<open>Sigma_Load\<close>: the
    loading of both. The proofs are in \<open>Sigma_Grammar\<close>, \<open>Sigma_Rule_Props\<close>, \<open>Sigma_Engine_Props\<close>,
    \<open>Sigma_Counting\<close> and \<open>Sigma_Load_Props\<close>.
  \<^item> \<open>Threat_Pipeline\<close>, \<open>Threat_Context\<close>, \<open>Threat_Pipeline_Props\<close>: \<open>agent-core/src/threat_pipeline.rs\<close>,
    which ties the detectors to the playbook engine: the threat context built from what they found,
    detection rules and the memory of what they reported, their responses, and the pass that runs
    playbooks and rules.
  \<^item> \<open>Sca_Rules\<close>, \<open>Sca_Eval\<close>, \<open>Sca_Policy\<close>, \<open>Check_Runner\<close>: the compliance checks of
    \<open>agent-scanner/src\<close>, policies read from YAML, their rules on a host, what a check concludes, its cached execution and the
    scores; the proofs are in \<open>Sca_Props\<close> and \<open>Check_Props\<close>.
  \<^item> \<open>Self_Update\<close>, \<open>Self_Update_Props\<close>: \<open>agent-sync/src/update_manager.rs\<close> and \<open>agent-core/src/self_update.rs\<close>, from the
    discovery of a release to the report of its outcome by the next process.
  \<^item> \<open>Net_Rules\<close>, \<open>Net_Beacon\<close>, \<open>Net_Detect\<close>: the detectors of \<open>agent-network/src/detection\<close>, one definition
    per detector, the memory of the beaconing one, and the pass over all of them; proofs in \<open>Net_Detect_Props\<close>.
  \<^item> \<open>Supervised_Tasks\<close>, \<open>Supervised_Tasks_Props\<close>: \<open>agent-core/src/supervised.rs\<close> and \<open>outbox.rs\<close>, the set of watched tasks
    and the queue of uploads one of them drains, with a step relation for panics and restarts.
  \<^item> \<open>Fim_Types\<close>, \<open>Fim_Diff\<close>, \<open>Fim_Baseline\<close>, \<open>Fim_Watcher\<close>, \<open>Fim_Engine\<close>, \<open>Fim_Canary\<close>: \<open>agent-fim/src\<close> with
    \<open>agent-common/src/types/fim.rs\<close>: alerts, policies and exclusions; the lines a change removed and added; the baseline
    and its scans; the event loop (step relation \<open>watching\<close>); the engine with its saved state; the decoy folders. Each
    has its proofs in the theory of its name with \<open>_Props\<close>, those on the exclusions in \<open>Fim_Exclusion_Props\<close>.
  \<^item> \<open>Debian_Version\<close>: \<open>agent-scanner/src/vulnerability/debian_version.rs\<close>. The locale
    \<open>comparator\<close> is the contract of a comparison (a total preorder); it is interpreted on the
    comparison of parts and on that of versions.
\<close>

text \<open>
  Conventions. A struct is a record (its fields prefixed to keep them apart), an enum a
  datatype, an operation a function from the state before to the state after with the result.
  Unsigned integers are \<^typ>\<open>nat\<close>, signed ones \<^typ>\<open>int\<close>; the release profile sets
  \<open>overflow-checks = true\<close>, so an operation that leaves its width panics, and where that can happen
  it is the value \<^const>\<open>None\<close>. The clock is an argument: whole seconds in the queue and the
  playbook engine, nanoseconds in the breaker, the correlation engine and the cooldown.

  Parameters. What is not under \<open>src/\<close> is an argument: regular expressions, base64, the text of a YAML file, Unicode lower-casing,
  the parsing of addresses, the JSON of a payload or a metadata file, the answers of the
  platform, the commands the host runs, the names of its processes. The theorems assume nothing
  of them but the laws of the locale \<open>firewall\<close> and what each statement says.

  Bounds. The limits of the code are kept as they are: 10000 rows of the queue, 10000
  remembered alerts, a day's cap on an escalated block, the 3600 seconds of the back-off, 10000 destinations of 1000
  events in the beaconing detector, 200 entries of a listed directory, 500 MB of a download and a day between two attempts at
  it, 256 items of the outbox, 100000 files of a baseline 32 directories deep, 10000 paths waiting to be read, 2000 lines and
  4000 characters of a difference, 1000 alerts of the history, 30 seconds between two checks of the canaries, 10000 groups
  of a Sigma correlation, 100 recent and 10000 waiting SIEM events, four attempts at an HTTP collector, 10000 results and 10000
  proofs, 100 results of one upload. Fuel bounds path resolution, by the limit of 40 symbolic links in a lookup that Linux
  sets (a lookup beyond it fails with \<open>ELOOP\<close> there and is \<^const>\<open>None\<close> here), and the parser of Sigma
  conditions, by \<open>4 * n + 4\<close> for \<open>n\<close> words, which is proved enough. The loop over the matches of a log
  event and the one that uploads all results are partial functions, proved to return on every engine that is built and on
  every database. All other loops are
  structural or have a termination proof.
\<close>

text \<open>
  What the theorems show.

  \<^item> Playbooks (C1 to C3): when a playbook fires; that every action it asks for is configured in it
    and names an entity that was reported; that a run hands exactly the actions it lets through to the
    response layer, in order and within the limits.
  \<^item> Blocks (C4, C5): a call that succeeds has put one rule per direction, one that fails has added none and started no timer; as
    long as operations do not overlap, in every state they reach no rule is stacked and every deadline of the ledger has a
    sleeping timer. That the rules are gone when a timer fires, that a block of an address written as mapped is never lifted,
    and that blocks which overlap stack rules, are lemmas.
  \<^item> The queue and syncing (C6 to C8): queueing never evicts a deletion; the breaker implements its three-state
    specification while its operations do not interleave; syncing takes no upload off the queue without an
    acknowledgement. That a tombstone survives all other operations, that an acknowledgement removes exactly its rows and marks
    exactly the records with no newer edit, and the overflow of the deletion retry are lemmas.
  \<^item> Correlation (C9): an alert is raised exactly when the window holds the threshold of matching events.
  \<^item> Files (C10, C11): a quarantine moves one unprotected regular file and its restoration puts it back.
  \<^item> Isolation (C12 to C14): on Linux an isolation that succeeds lets through exactly the platform, the
    resolvers and what the network stack needs; in every reachable state the record, the rules and the
    sleeping tasks agree; a timed isolation ends. That one which is repeated and fails leaves the host open is a lemma.
  \<^item> Sigma (C15 to C18): conditions are read exactly by their grammar, a loaded rule is closed, the
    engine of log rules is built and evaluated without end-less loops, \<open>event_count\<close> implements its
    specification for events in order, the limit on its groups included.
  \<^item> The threat pipeline (C19, C20): what a rule does, an enabled rule asks for, on something that
    was found and that one of its conditions asks for; a simulated pass changes nothing.
  \<^item> Compliance checks (C21): a check concludes what all values of its undecided rules agree on. That scores stay between 0 and
    100 is a lemma.
  \<^item> Self update (C22): only newer, signed releases are installed. That scheduled attempts at one version are a day apart is a lemma.
  \<^item> Network detectors (C23): the memory of the beaconing detector is bounded. What the rules flag and that steady beacons are
    reported are lemmas.
  \<^item> The outbox (C24): a panic loses only the item being sent, and nothing changes its place.
  \<^item> File integrity monitoring (C25 to C28): a difference is a shortest one, or two numbers when it is too long to list; a scan reports exactly what differs from the
    baseline; a reported change is recorded and alerted within the debounce interval; a file changed, removed or
    created while the agent was stopped is found at its start.
  \<^item> Canaries (C29, C30): turning the protection off removes nothing of the user's; tampering is reported in time.
  \<^item> The packet filter of macOS (C31): whatever fails, a block that succeeds is in force and on record, one that fails leaves
    the record and, unless its undoing fails too, rules that were there before.
  \<^item> Accounts (C32, C33): while operations do not overlap, each timed lock has a task that runs the unlock command at its end,
    unless that was tried and failed; all administrators of a Linux machine can be locked one after the other. That an unlock
    which overlaps a lock loses it, and that a task left asleep ends a later lock early, are lemmas.
  \<^item> SIEM (C34 to C36): nothing in an event can break out of its CEF field, and five of its custom fields are in the message; each event the forwarder took charge of is counted
    once; an event that was forwarded is reported to the platform twice.
  \<^item> Evidence (C37 to C40): what the retention policy deletes, exactly; a stored proof verifies and a changed one does not, but
    for a collision of SHA-256; the upload loop ends; a hundred refused results block all later ones.
\<close>

text \<open>
  Not modelled. The inventories are the output of platform tools turned into records; collection, discovery, enrollment and the
  HTTP client are I/O; the repositories other than the queue and the evidence are single SQL statements; opening, encrypting,
  migrating and backing up the database is the work of libraries; the graphical interface, the services and the language model
  are glue around third-party code. Left for a continuation, because they hold logic of their own: the log collector of
  \<open>agent-siem\<close> with its decoders, the vulnerability scores of \<open>agent-scanner\<close>, the feeds of threat
  intelligence and the attribution of file changes. The texts of log lines and notifications are left out throughout, and so is
  concurrency other than the interleavings that \<open>Offline\<close>, \<open>Block_Lifecycle\<close>, \<open>Host_Isolation\<close>,
  \<open>Account_Lock\<close>, \<open>Supervised_Tasks\<close> and \<open>Fim_Watcher\<close> model.
\<close>

end
